(* ===== verification/Sc_Prelude.thy ===== *)
theory Sc_Prelude
  imports Complex_Main "HOL-Library.Word" "HOL-Library.Monad_Syntax"
begin

text \<open>
  Shared prelude: the machine types of the C client (\<open>uint8_t\<close> .. \<open>uint64_t\<close>, \<open>size_t\<close>),
  byte strings, aborting computations, and the generic lemmas on lists and words that the
  component theories use.

  Conventions used by every theory of the development:
  \<^item> \<open>'a option\<close> in the option monad is a C computation that may abort: \<open>None\<close> is a failed
    \<open>assert\<close> or an access outside an array. A recoverable failure (a \<open>false\<close>, \<open>NULL\<close> or
    \<open>-1\<close> result) is a value of the result type and never \<open>None\<close>.
  \<^item> memory allocation and every other call that leaves the program is a parameter.
\<close>

unbundle bit_operations_syntax

named_theorems sc_defs "definitions unfolded by the component proofs"
named_theorems sc_inv "preservation of component invariants"

type_synonym u8 = "8 word"
type_synonym u16 = "16 word"
type_synonym u32 = "32 word"
type_synonym u64 = "64 word"
type_synonym i32 = "32 word"
type_synonym bytes = "u8 list"

section \<open>size_t\<close>

definition SIZE_MAX :: nat where
  "SIZE_MAX = 2 ^ 64 - 1"

text \<open>Reduction of a \<open>size_t\<close> expression to its 64 bits.\<close>

definition szw :: "nat \<Rightarrow> nat" where
  "szw n = n mod 2 ^ 64"

lemma szw_id [simp]: "n \<le> SIZE_MAX \<Longrightarrow> szw n = n"
  by (simp add: szw_def SIZE_MAX_def)

lemma szw_le_SIZE_MAX: "szw n \<le> SIZE_MAX"
proof -
  have "n mod 2 ^ 64 < (2 ^ 64 :: nat)" by simp
  then show ?thesis by (simp add: szw_def SIZE_MAX_def)
qed

text \<open>Subtraction of \<open>size_t\<close> values wraps around below zero.\<close>

definition sz_sub :: "nat \<Rightarrow> nat \<Rightarrow> nat" where
  "sz_sub a b = szw (a + 2 ^ 64 - b)"

lemma sz_sub_le [simp]: "b \<le> a \<Longrightarrow> a \<le> SIZE_MAX \<Longrightarrow> sz_sub a b = a - b"
proof -
  assume a: "b \<le> a" "a \<le> SIZE_MAX"
  then have "a + 2 ^ 64 - b = (a - b) + 2 ^ 64" by simp
  moreover have "szw ((a - b) + 2 ^ 64) = szw (a - b)" by (simp add: szw_def)
  ultimately show ?thesis using a by (simp add: sz_sub_def)
qed

section \<open>C integer division\<close>

text \<open>C division truncates towards zero.\<close>

definition c_div :: "int \<Rightarrow> int \<Rightarrow> int" where
  "c_div a b = sgn a * sgn b * (\<bar>a\<bar> div \<bar>b\<bar>)"

lemma c_div_nonneg [simp]: "0 \<le> a \<Longrightarrow> 0 < b \<Longrightarrow> c_div a b = a div b"
  by (cases "a = 0") (simp_all add: c_div_def)

lemma c_div_neg: "a < 0 \<Longrightarrow> 0 < b \<Longrightarrow> c_div a b = - ((- a) div b)"
  by (simp add: c_div_def)

lemma int_div_less_iff:
  fixes m n q :: int
  assumes "0 < q"
  shows "m div q < n \<longleftrightarrow> m < n * q"
proof -
  have m: "m = m div q * q + m mod q" by simp
  have r: "0 \<le> m mod q" "m mod q < q" using assms by simp_all
  show ?thesis
  proof
    assume "m div q < n"
    then have "m div q + 1 \<le> n" by simp
    then have "(m div q + 1) * q \<le> n * q" by (rule mult_right_mono) (use assms in simp)
    then have "m div q * q + q \<le> n * q" by (simp add: distrib_right)
    with m r show "m < n * q" by linarith
  next
    assume lt: "m < n * q"
    show "m div q < n"
    proof (rule ccontr)
      assume "\<not> m div q < n"
      then have "n * q \<le> m div q * q" using assms by simp
      with m r lt show False by linarith
    qed
  qed
qed

section \<open>Aborting computations\<close>

definition c_assert :: "bool \<Rightarrow> unit option" where
  "c_assert b = (if b then Some () else None)"

lemma c_assert_True [simp]: "c_assert True = Some ()"
  by (simp add: c_assert_def)

lemma c_assert_False [simp]: "c_assert False = None"
  by (simp add: c_assert_def)

lemma c_assert_eq_Some [simp]: "c_assert b = Some u \<longleftrightarrow> b"
  by (simp add: c_assert_def)

lemma c_assert_eq_None [simp]: "c_assert b = None \<longleftrightarrow> \<not> b"
  by (simp add: c_assert_def)

text \<open>Reading \<open>a[i]\<close>: aborts outside the array.\<close>

definition arr_get :: "'a list \<Rightarrow> nat \<Rightarrow> 'a option" where
  "arr_get xs i = (if i < length xs then Some (xs ! i) else None)"

lemma arr_get_lt [simp]: "i < length xs \<Longrightarrow> arr_get xs i = Some (xs ! i)"
  by (simp add: arr_get_def)

text \<open>
  \<open>memcpy(&buf[off], src, length src)\<close>: aborts outside the buffer.
\<close>

definition mem_put :: "'a list \<Rightarrow> nat \<Rightarrow> 'a list \<Rightarrow> 'a list" where
  "mem_put buf off src = take off buf @ src @ drop (off + length src) buf"

definition mem_write :: "'a list \<Rightarrow> nat \<Rightarrow> 'a list \<Rightarrow> 'a list option" where
  "mem_write buf off src =
     (if off + length src \<le> length buf then Some (mem_put buf off src) else None)"

lemma length_mem_put [simp]:
  "off + length src \<le> length buf \<Longrightarrow> length (mem_put buf off src) = length buf"
  by (simp add: mem_put_def)

lemma mem_write_ok [simp]:
  "off + length src \<le> length buf \<Longrightarrow> mem_write buf off src = Some (mem_put buf off src)"
  by (simp add: mem_write_def)

lemma nth_mem_put:
  assumes "off + length src \<le> length buf" and "i < length buf"
  shows "mem_put buf off src ! i =
    (if off \<le> i \<and> i < off + length src then src ! (i - off) else buf ! i)"
  using assms by (auto simp: mem_put_def nth_append)

lemma drop_mem_put:
  assumes "off + length src \<le> k" "off + length src \<le> length buf"
  shows "drop k (mem_put buf off src) = drop k buf"
  using assms by (simp add: mem_put_def)

lemma take_mem_put:
  assumes "k \<le> off" "off \<le> length buf"
  shows "take k (mem_put buf off src) = take k buf"
  using assms by (simp add: mem_put_def)

lemma take_mem_put_0: "take (length src) (mem_put buf 0 src) = src"
  by (simp add: mem_put_def)

lemma mem_put_Nil [simp]: "mem_put buf off [] = buf"
  by (simp add: mem_put_def)

text \<open>Consecutive writes from offset 0 on append to the bytes written so far.\<close>

lemma mem_put_extend:
  "length p = off \<Longrightarrow> off + length src \<le> length buf \<Longrightarrow>
     mem_write (mem_put buf 0 p) off src = Some (mem_put buf 0 (p @ src))"
  by (simp add: mem_write_def mem_put_def add.commute)

lemma mem_put_before:
  "off + length a + length b \<le> length buf \<Longrightarrow> off' = off + length a \<Longrightarrow>
     mem_put (mem_put buf off' b) off a = mem_put buf off (a @ b)"
  by (simp add: mem_put_def add.assoc)

lemma mem_put_comp:
  "length p = off \<Longrightarrow> off + length src \<le> length buf \<Longrightarrow>
     mem_put (mem_put buf 0 p) off src = mem_put buf 0 (p @ src)"
  by (simp add: mem_put_def add.commute)

text \<open>\<open>memcpy(dst, &buf[off], n)\<close>: aborts outside the buffer.\<close>

definition mem_read :: "'a list \<Rightarrow> nat \<Rightarrow> nat \<Rightarrow> 'a list option" where
  "mem_read buf off n = (if off + n \<le> length buf then Some (take n (drop off buf)) else None)"

lemma mem_read_ok [simp]:
  "off + n \<le> length buf \<Longrightarrow> mem_read buf off n = Some (take n (drop off buf))"
  by (simp add: mem_read_def)

lemma unat_u16: "unat (n::u16) \<le> 65535"
  using unsigned_less [of n, where 'a = nat] by simp

lemma sint_u32_small: "n < 2 ^ 31 \<Longrightarrow> sint (of_nat n :: u32) = int n"
proof -
  assume n: "n < 2 ^ 31"
  have "sint (word_of_int (int n) :: u32) = int n"
    using n by (simp only: sint_sbintrunc' signed_take_bit_int_eq_self_iff) simp
  then show ?thesis by simp
qed

section \<open>Lists\<close>

lemma take_append_exact [simp]: "length xs = n \<Longrightarrow> take n (xs @ ys) = xs"
  by simp

lemma drop_append_exact [simp]: "length xs = n \<Longrightarrow> drop n (xs @ ys) = ys"
  by simp

section \<open>Modular indices\<close>

text \<open>An index one lap ahead at most is reduced by one subtraction.\<close>

lemma mod_lap: "(n::nat) < 2 * m \<Longrightarrow> n mod m = (if n < m then n else n - m)"
  by (auto simp: mod_if)

end
