(* ===== verification/Sc_Binary.thy ===== *)
theory Sc_Binary
  imports Sc_Prelude
begin

text \<open>
  \<open>util/binary.h\<close>: writing and reading 16, 32 and 64-bit integers in both byte orders, and the
  conversion of floats to 16-bit fixed point.

  A write returns the bytes it stores from \<open>buf[0]\<close> on. A read takes the bytes from the pointer
  on and aborts when the buffer is too short. Floats are rationals: the only float operations of
  this file scale by a power of two, which binary floating point computes exactly.

  The decoders of the same fixed-point formats in the Android server
  (\<open>server/.../util/Binary.java\<close>) are modelled beside them, for the round trips.
\<close>

section \<open>Writes\<close>

definition sc_write16be :: "u16 \<Rightarrow> bytes" where
  "sc_write16be v = [ucast (drop_bit 8 v), ucast v]"

definition sc_write16le :: "u16 \<Rightarrow> bytes" where
  "sc_write16le v = [ucast v, ucast (drop_bit 8 v)]"

definition sc_write32be :: "u32 \<Rightarrow> bytes" where
  "sc_write32be v =
     [ucast (drop_bit 24 v), ucast (drop_bit 16 v), ucast (drop_bit 8 v), ucast v]"

definition sc_write32le :: "u32 \<Rightarrow> bytes" where
  "sc_write32le v =
     [ucast v, ucast (drop_bit 8 v), ucast (drop_bit 16 v), ucast (drop_bit 24 v)]"

definition sc_write64be :: "u64 \<Rightarrow> bytes" where
  "sc_write64be v = sc_write32be (ucast (drop_bit 32 v)) @ sc_write32be (ucast v)"

definition sc_write64le :: "u64 \<Rightarrow> bytes" where
  "sc_write64le v = sc_write32le (ucast v) @ sc_write32le (ucast (drop_bit 32 v))"

section \<open>Reads\<close>

fun sc_read16be :: "bytes \<Rightarrow> u16 option" where
  "sc_read16be (b0 # b1 # _) = Some (push_bit 8 (ucast b0) OR ucast b1)"
| "sc_read16be _ = None"

fun sc_read32be :: "bytes \<Rightarrow> u32 option" where
  "sc_read32be (b0 # b1 # b2 # b3 # _) =
     Some (push_bit 24 (ucast b0) OR push_bit 16 (ucast b1) OR push_bit 8 (ucast b2) OR ucast b3)"
| "sc_read32be _ = None"

definition sc_read64be :: "bytes \<Rightarrow> u64 option" where
  "sc_read64be buf = do {
     msb \<leftarrow> sc_read32be buf;
     lsb \<leftarrow> sc_read32be (drop 4 buf);
     Some (push_bit 32 (ucast msb) OR ucast lsb)
   }"

section \<open>Fixed point\<close>

text \<open>A positive float converted to an unsigned integer is truncated.\<close>

definition sc_float_to_u16fp :: "rat \<Rightarrow> u16 option" where
  "sc_float_to_u16fp f = do {
     c_assert (0 \<le> f \<and> f \<le> 1);
     let u = (word_of_int \<lfloor>f * 2 ^ 16\<rfloor> :: u32);
     if 0xffff \<le> u then do {
       c_assert (u = 0x10000);
       Some 0xffff
     } else Some (ucast u)
   }"

text \<open>Conversion of a float to a signed integer truncates towards zero.\<close>

definition c_trunc :: "rat \<Rightarrow> int" where
  "c_trunc f = (if 0 \<le> f then \<lfloor>f\<rfloor> else \<lceil>f\<rceil>)"

definition sc_float_to_i16fp :: "rat \<Rightarrow> u16 option" where
  "sc_float_to_i16fp f = do {
     c_assert (-1 \<le> f \<and> f \<le> 1);
     let i = c_trunc (f * 2 ^ 15);
     c_assert (-0x8000 \<le> i);
     if 0x7fff \<le> i then do {
       c_assert (i = 0x8000);
       Some 0x7fff
     } else Some (word_of_int i)
   }"

definition u16FixedPointToFloat :: "u16 \<Rightarrow> rat" where
  "u16FixedPointToFloat v = (if v = 0xffff then 1 else of_int (uint v) / 2 ^ 16)"

definition i16FixedPointToFloat :: "u16 \<Rightarrow> rat" where
  "i16FixedPointToFloat v = (if v = 0x7fff then 1 else of_int (sint v) / 2 ^ 15)"

section \<open>Lengths and round trips of the integer codecs\<close>

lemma length_sc_write [simp]:
  "length (sc_write16be a) = 2" "length (sc_write16le a) = 2"
  "length (sc_write32be b) = 4" "length (sc_write32le b) = 4"
  "length (sc_write64be c) = 8" "length (sc_write64le c) = 8"
  by (simp_all add: sc_write16be_def sc_write16le_def sc_write32be_def sc_write32le_def
      sc_write64be_def sc_write64le_def)

text \<open>The little-endian writers store the big-endian bytes in reverse.\<close>

lemma sc_write_le_rev:
  "sc_write16le a = rev (sc_write16be a)"
  "sc_write32le b = rev (sc_write32be b)"
  "sc_write64le c = rev (sc_write64be c)"
  by (simp_all add: sc_write16be_def sc_write16le_def sc_write32be_def sc_write32le_def
      sc_write64be_def sc_write64le_def)

lemma sc_read16be_write [simp]: "sc_read16be (sc_write16be v @ rest) = Some v"
proof -
  have "push_bit 8 (ucast (ucast (drop_bit 8 v) :: u8)) OR ucast (ucast v :: u8) = v"
    by (rule bit_word_eqI) (auto simp: bit_simps)
  then show ?thesis by (simp add: sc_write16be_def)
qed

lemma sc_read32be_write [simp]: "sc_read32be (sc_write32be v @ rest) = Some v"
proof -
  have "push_bit 24 (ucast (ucast (drop_bit 24 v) :: u8)) OR
        push_bit 16 (ucast (ucast (drop_bit 16 v) :: u8)) OR
        push_bit 8 (ucast (ucast (drop_bit 8 v) :: u8)) OR ucast (ucast v :: u8) = v"
    (is "?w = v")
  proof (rule bit_word_eqI)
    fix n
    assume "n < LENGTH(32)"
    then show "bit ?w n \<longleftrightarrow> bit v n"
      by (cases "n < 8"; cases "n < 16"; cases "n < 24") (auto simp: bit_simps not_less)
  qed
  then show ?thesis by (simp add: sc_write32be_def)
qed

lemma sc_read64be_write [simp]: "sc_read64be (sc_write64be v @ rest) = Some v"
proof -
  have "push_bit 32 (ucast (ucast (drop_bit 32 v) :: u32)) OR ucast (ucast v :: u32) = v"
    by (rule bit_word_eqI) (auto simp: bit_simps)
  moreover have "drop 4 (sc_write64be v @ rest) = sc_write32be (ucast v) @ rest"
    by (simp add: sc_write64be_def)
  ultimately show ?thesis
    by (simp add: sc_read64be_def sc_write64be_def)
qed

lemma sc_read_write [simp]:
  "sc_read16be (sc_write16be a) = Some a" "sc_read32be (sc_write32be b) = Some b"
  "sc_read64be (sc_write64be c) = Some c"
  using sc_read16be_write [of a "[]"] sc_read32be_write [of b "[]"] sc_read64be_write [of c "[]"]
  by simp_all

lemma sc_read16be_Some: "2 \<le> length buf \<Longrightarrow> \<exists>v. sc_read16be buf = Some v"
  by (cases buf rule: sc_read16be.cases) auto

lemma sc_read32be_Some: "4 \<le> length buf \<Longrightarrow> \<exists>v. sc_read32be buf = Some v"
  by (cases buf rule: sc_read32be.cases) auto

lemma sc_read64be_Some: "8 \<le> length buf \<Longrightarrow> \<exists>v. sc_read64be buf = Some v"
  using sc_read32be_Some [of buf] sc_read32be_Some [of "drop 4 buf"]
  by (fastforce simp: sc_read64be_def)

text \<open>A read looks at its own bytes only.\<close>

lemma sc_read_SomeD:
  "sc_read16be p = Some v \<Longrightarrow> 2 \<le> length p" "sc_read32be p = Some w \<Longrightarrow> 4 \<le> length p"
  "sc_read64be p = Some x \<Longrightarrow> 8 \<le> length p"
proof -
  show "sc_read16be p = Some v \<Longrightarrow> 2 \<le> length p" by (cases p rule: sc_read16be.cases) auto
  have a: "sc_read32be p = Some w \<Longrightarrow> 4 \<le> length p" for p w
    by (cases p rule: sc_read32be.cases) auto
  then show "sc_read32be p = Some w \<Longrightarrow> 4 \<le> length p" .
  show "sc_read64be p = Some x \<Longrightarrow> 8 \<le> length p"
    by (auto simp: sc_read64be_def dest!: a split: bind_splits)
qed

lemma sc_read16be_append [simp]: "2 \<le> length buf \<Longrightarrow> sc_read16be (buf @ rest) = sc_read16be buf"
  by (cases buf rule: sc_read16be.cases) auto

lemma sc_read32be_append [simp]: "4 \<le> length buf \<Longrightarrow> sc_read32be (buf @ rest) = sc_read32be buf"
  by (cases buf rule: sc_read32be.cases) auto

lemma sc_read64be_append [simp]: "8 \<le> length buf \<Longrightarrow> sc_read64be (buf @ rest) = sc_read64be buf"
  by (simp add: sc_read64be_def)

section \<open>Fixed point: exactly where the conversion aborts, and its error\<close>

lemma floor_scale_bounds:
  fixes f :: rat
  assumes "0 \<le> f" "f \<le> 1"
  shows "0 \<le> \<lfloor>f * 2 ^ 16\<rfloor>" "\<lfloor>f * 2 ^ 16\<rfloor> \<le> 0x10000"
proof -
  show "0 \<le> \<lfloor>f * 2 ^ 16\<rfloor>" using assms by simp
  have "f * 2 ^ 16 \<le> 65536" using assms by simp
  then show "\<lfloor>f * 2 ^ 16\<rfloor> \<le> 0x10000" by (simp add: floor_le_iff)
qed

text \<open>
  The assertion \<open>u == 0x10000\<close> is meant for \<open>f == 1.0f\<close>, but the guard \<open>u >= 0xffff\<close> also lets
  \<open>u = 0xffff\<close> in: every value of \<open>[65535/65536, 1)\<close> aborts.
\<close>

lemma sc_float_to_u16fp_eq:
  assumes "0 \<le> f" "f \<le> 1"
  shows "sc_float_to_u16fp f =
    (if f = 1 then Some 0xffff
     else if 65535 / 65536 \<le> f then None
     else Some (word_of_int \<lfloor>f * 65536\<rfloor>))"
proof -
  define i where "i = \<lfloor>f * 65536\<rfloor>"
  have b: "0 \<le> i" "i \<le> 65536"
    using floor_scale_bounds [OF assms] by (simp_all add: i_def)
  have u: "uint (word_of_int i :: u32) = i"
    using b by (simp add: uint_word_of_int_eq take_bit_int_eq_self_iff)
  have ge: "(0xffff \<le> (word_of_int i :: u32)) \<longleftrightarrow> 65535 \<le> i"
    by (simp add: word_le_def u)
  have eq: "((word_of_int i :: u32) = 0x10000) \<longleftrightarrow> i = 65536"
    by (simp add: word_uint_eq_iff u)
  have i65535: "65535 \<le> i \<longleftrightarrow> 65535 / 65536 \<le> f"
    by (simp add: i_def le_floor_iff field_simps)
  have i65536: "i = 65536 \<longleftrightarrow> f = 1"
    using assms b by (auto simp: i_def floor_eq_iff field_simps)
  have uc: "ucast (word_of_int i :: u32) = (word_of_int i :: u16)"
    by (rule bit_word_eqI) (auto simp: bit_simps)
  show ?thesis
    using assms by (simp add: sc_float_to_u16fp_def i_def [symmetric] ge eq i65535 i65536 uc)
qed

lemma rescale_error:
  fixes x :: rat
  assumes "0 < k" "\<bar>y - x * k\<bar> < 1"
  shows "\<bar>y / k - x\<bar> < 1 / k"
proof -
  have "y / k - x = (y - x * k) / k" using assms(1) by (simp add: field_simps)
  then show ?thesis using assms by (simp add: divide_strict_right_mono)
qed

text \<open>What the Android server reads back is the pressure, up to one unit of \<open>2^-16\<close>.\<close>

lemma u16FixedPoint_roundtrip:
  assumes "0 \<le> f" "f \<le> 1" "sc_float_to_u16fp f = Some v"
  shows "\<bar>u16FixedPointToFloat v - f\<bar> < 1 / 65536"
proof (cases "f = 1")
  case True
  with assms show ?thesis by (simp add: sc_float_to_u16fp_eq u16FixedPointToFloat_def)
next
  case False
  then have lt: "f < 65535 / 65536" and v: "v = word_of_int \<lfloor>f * 65536\<rfloor>"
    using assms by (auto simp: sc_float_to_u16fp_eq split: if_splits)
  have "0 \<le> \<lfloor>f * 65536\<rfloor>" "\<lfloor>f * 65536\<rfloor> < 65535"
    using assms lt by (auto simp: floor_less_iff field_simps)
  then have "uint v = \<lfloor>f * 65536\<rfloor>" "\<lfloor>f * 65536\<rfloor> \<noteq> 0xffff"
    unfolding v by (simp add: uint_word_of_int_eq take_bit_int_eq_self_iff, linarith)
  then have "uint v = \<lfloor>f * 65536\<rfloor>" "v \<noteq> 0xffff"
    by auto
  then have "u16FixedPointToFloat v = of_int \<lfloor>f * 65536\<rfloor> / 65536"
    by (simp add: u16FixedPointToFloat_def)
  moreover have "\<bar>of_int \<lfloor>f * 65536\<rfloor> / 65536 - f\<bar> < 1 / 65536"
    by (rule rescale_error) linarith+
  ultimately show ?thesis by (simp only:)
qed

lemma c_trunc_error: "\<bar>of_int (c_trunc f) - f\<bar> < 1"
  unfolding c_trunc_def by (cases "0 \<le> f") (simp, linarith)+

lemma c_trunc_ge_iff: "0 < n \<Longrightarrow> n \<le> c_trunc f \<longleftrightarrow> of_int n \<le> f"
  by (auto simp: c_trunc_def le_floor_iff) linarith+

lemma sc_float_to_i16fp_eq:
  assumes "-1 \<le> f" "f \<le> 1"
  shows "sc_float_to_i16fp f =
    (if f = 1 then Some 0x7fff
     else if 32767 / 32768 \<le> f then None
     else Some (word_of_int (c_trunc (f * 32768))))"
proof -
  let ?i = "c_trunc (f * 32768)"
  have lo: "-0x8000 \<le> ?i"
    using assms by (auto simp: c_trunc_def le_floor_iff)
  have ge: "0x7fff \<le> ?i \<longleftrightarrow> 32767 / 32768 \<le> f"
    by (simp add: c_trunc_ge_iff field_simps)
  have "?i \<le> 0x8000"
    using assms by (auto simp: c_trunc_def floor_le_iff ceiling_le_iff)
  then have eq: "?i = 0x8000 \<longleftrightarrow> f = 1"
    using assms c_trunc_ge_iff [of "0x8000" "f * 32768"] by auto
  show ?thesis
    using assms lo eq by (cases "f = 1") (simp_all add: sc_float_to_i16fp_def Let_def ge)
qed

lemma i16FixedPoint_roundtrip:
  assumes "-1 \<le> f" "f \<le> 1" "sc_float_to_i16fp f = Some v"
  shows "\<bar>i16FixedPointToFloat v - f\<bar> < 1 / 32768"
proof (cases "f = 1")
  case True
  with assms show ?thesis by (simp add: sc_float_to_i16fp_eq i16FixedPointToFloat_def)
next
  case False
  let ?i = "c_trunc (f * 32768)"
  from False have lt: "f < 32767 / 32768" and v: "v = word_of_int ?i"
    using assms by (auto simp: sc_float_to_i16fp_eq split: if_splits)
  have "?i < 0x7fff"
    using c_trunc_ge_iff [of "0x7fff" "f * 32768"] lt by (simp add: field_simps)
  moreover have "-0x8000 \<le> ?i"
    using assms by (auto simp: c_trunc_def le_floor_iff)
  ultimately have s: "sint v = ?i"
    unfolding v by (simp add: sint_sbintrunc' signed_take_bit_int_eq_self_iff)
  with \<open>?i < 0x7fff\<close> have "v \<noteq> 0x7fff" by auto
  with s have "i16FixedPointToFloat v = of_int ?i / 32768"
    by (simp add: i16FixedPointToFloat_def)
  moreover have "\<bar>of_int ?i / 32768 - f\<bar> < 1 / 32768"
    by (rule rescale_error) (simp_all add: c_trunc_error)
  ultimately show ?thesis by (simp only:)
qed

section \<open>Properties\<close>

text \<open>
  The conversion of a pressure to 16-bit fixed point is defined on the whole range [0, 1] except
  for the values of \<open>[65535/65536, 1)\<close>, where its assertion fails; wherever it is defined, the
  decoder of the server gives the pressure back up to less than one unit of \<open>2^-16\<close>.
\<close>

theorem pressure_fixed_point:
  assumes "0 \<le> f" "f \<le> 1"
  shows "(sc_float_to_u16fp f = None \<longleftrightarrow> 65535 / 65536 \<le> f \<and> f < 1) \<and>
    (\<forall>v. sc_float_to_u16fp f = Some v \<longrightarrow> \<bar>u16FixedPointToFloat v - f\<bar> < 1 / 65536)"
  using assms u16FixedPoint_roundtrip [OF assms] by (auto simp: sc_float_to_u16fp_eq)

lemma pressure_fixed_point_witness:
  "sc_float_to_u16fp (1 / 2) \<noteq> None \<and> sc_float_to_u16fp (131071 / 131072) = None \<and>
   \<bar>u16FixedPointToFloat (the (sc_float_to_u16fp (1 / 2))) - 1 / 2\<bar> < 1 / 65536"
  using pressure_fixed_point [of "1 / 2"] pressure_fixed_point [of "131071 / 131072"] by auto

text \<open>
  The conversion of a normalised scroll amount to signed 16-bit fixed point fails its assertion
  exactly on \<open>[32767/32768, 1)\<close>, and the server decodes it up to less than one unit of \<open>2^-15\<close>.
\<close>

theorem scroll_fixed_point:
  assumes "-1 \<le> f" "f \<le> 1"
  shows "(sc_float_to_i16fp f = None \<longleftrightarrow> 32767 / 32768 \<le> f \<and> f < 1) \<and>
    (\<forall>v. sc_float_to_i16fp f = Some v \<longrightarrow> \<bar>i16FixedPointToFloat v - f\<bar> < 1 / 32768)"
  using assms i16FixedPoint_roundtrip [OF assms] by (auto simp: sc_float_to_i16fp_eq)

lemma scroll_fixed_point_witness:
  "sc_float_to_i16fp (- 1 / 3) \<noteq> None \<and> sc_float_to_i16fp (65535 / 65536) = None \<and>
   \<bar>i16FixedPointToFloat (the (sc_float_to_i16fp (- 1 / 3))) + 1 / 3\<bar> < 1 / 32768"
  using scroll_fixed_point [of "- 1 / 3"] scroll_fixed_point [of "65535 / 65536"] by auto

end
