(* ===== verification/Sc_Str.thy ===== *)
theory Sc_Str
  imports Sc_Prelude
begin

text \<open>
  \<open>util/str.c\<close>: the string helpers of the client.

  A \<open>const char *\<close> is its list of characters without the terminating NUL (\<open>string\<close>), or its list
  of bytes where the code looks at bits. A destination buffer is a list of characters with its full
  length. The C library functions the file calls (\<open>strtol\<close>, \<open>strchr\<close>, \<open>strncmp\<close>, \<open>strcspn\<close>,
  \<open>strspn\<close>) are modelled here as far as the program uses them; \<open>long\<close> has 64 bits.
\<close>

section \<open>C library\<close>

definition NUL :: char where
  "NUL = CHR 0x00"

text \<open>\<open>s[i]\<close> of a NUL-terminated string: aborts behind the NUL.\<close>

definition cstr_at :: "string \<Rightarrow> nat \<Rightarrow> char option" where
  "cstr_at s i = (if i < length s then Some (s ! i) else if i = length s then Some NUL else None)"

definition strncmp_eq :: "string \<Rightarrow> string \<Rightarrow> nat \<Rightarrow> bool" where
  "strncmp_eq a b n \<longleftrightarrow> take n (a @ [NUL]) = take n (b @ [NUL])"

text \<open>Index of the first \<open>c\<close>; searching for NUL finds the terminator.\<close>

definition strchr :: "string \<Rightarrow> char \<Rightarrow> nat option" where
  "strchr s c =
     (let k = length (takeWhile (\<lambda>x. x \<noteq> c) s) in
      if k < length s \<or> c = NUL then Some k else None)"

definition strcspn :: "string \<Rightarrow> string \<Rightarrow> nat" where
  "strcspn s seps = length (takeWhile (\<lambda>x. x \<notin> set seps) s)"

definition strspn :: "string \<Rightarrow> string \<Rightarrow> nat" where
  "strspn s seps = length (takeWhile (\<lambda>x. x \<in> set seps) s)"

definition LONG_MAX :: int where "LONG_MAX = 2 ^ 63 - 1"
definition LONG_MIN :: int where "LONG_MIN = - (2 ^ 63)"

definition is_space :: "char \<Rightarrow> bool" where
  "is_space c \<longleftrightarrow> c \<in> {CHR '' '', CHR 0x09, CHR 0x0A, CHR 0x0B, CHR 0x0C, CHR 0x0D}"

definition digit_val :: "char \<Rightarrow> nat option" where
  "digit_val c = (let n = of_char c in
     if 48 \<le> n \<and> n \<le> 57 then Some (n - 48)
     else if 97 \<le> n \<and> n \<le> 122 then Some (n - 87)
     else if 65 \<le> n \<and> n \<le> 90 then Some (n - 55)
     else None)"

definition is_digit :: "nat \<Rightarrow> char \<Rightarrow> bool" where
  "is_digit base c = (case digit_val c of None \<Rightarrow> False | Some d \<Rightarrow> d < base)"

definition digits_value :: "nat \<Rightarrow> string \<Rightarrow> nat" where
  "digits_value base ds = foldl (\<lambda>a c. a * base + the (digit_val c)) 0 ds"

text \<open>
  \<open>strtol(s, &endptr, 0)\<close>: (value, index of \<open>endptr\<close>, \<open>errno == ERANGE\<close>). White space and a sign
  are skipped, the prefix selects the base, and \<open>endptr\<close> is \<open>s\<close> when there is no digit.
\<close>

definition strtol_base :: "string \<Rightarrow> nat \<times> nat" where
  "strtol_base s =
     (case s of
        c0 # c1 # c2 # _ \<Rightarrow>
          if c0 = CHR ''0'' \<and> (c1 = CHR ''x'' \<or> c1 = CHR ''X'') \<and> is_digit 16 c2 then (16, 2)
          else if c0 = CHR ''0'' then (8, 0) else (10, 0)
      | c0 # _ \<Rightarrow> if c0 = CHR ''0'' then (8, 0) else (10, 0)
      | [] \<Rightarrow> (10, 0))"

definition strtol_prefix :: "string \<Rightarrow> bool \<times> nat \<times> nat" where
  "strtol_prefix s =
     (let ws = length (takeWhile is_space s);
          s1 = drop ws s;
          neg = (s1 \<noteq> [] \<and> hd s1 = CHR ''-'');
          sg = (if s1 \<noteq> [] \<and> (hd s1 = CHR ''-'' \<or> hd s1 = CHR ''+'') then 1 else 0)
      in case strtol_base (drop sg s1) of (base, pre) \<Rightarrow> (neg, base, ws + sg + pre))"

definition strtol :: "string \<Rightarrow> int \<times> nat \<times> bool" where
  "strtol s =
     (case strtol_prefix s of (neg, base, start) \<Rightarrow>
        let ds = takeWhile (is_digit base) (drop start s);
            v = (if neg then - int (digits_value base ds) else int (digits_value base ds))
        in if ds = [] then (0, 0, False)
           else if v < LONG_MIN then (LONG_MIN, start + length ds, True)
           else if LONG_MAX < v then (LONG_MAX, start + length ds, True)
           else (v, start + length ds, False))"

section \<open>sc_strncpy and sc_str_join\<close>

function sc_strncpy_loop :: "string \<Rightarrow> string \<Rightarrow> nat \<Rightarrow> nat \<Rightarrow> (string \<times> nat) option" where
  "sc_strncpy_loop dest src n i =
     (if i < sz_sub n 1 \<and> i < length src then do {
        dest' \<leftarrow> mem_write dest i [src ! i];
        sc_strncpy_loop dest' src n (Suc i)
      } else Some (dest, i))"
  by pat_completeness auto
termination
  by (relation "measure (\<lambda>(dest, src, n, i). length src - i)") auto

declare sc_strncpy_loop.simps [simp del]

definition sc_strncpy :: "string \<Rightarrow> string \<Rightarrow> nat \<Rightarrow> (string \<times> nat) option" where
  "sc_strncpy dest src n = do {
     (dest, i) \<leftarrow> sc_strncpy_loop dest src n 0;
     dest \<leftarrow> (if n \<noteq> 0 then mem_write dest i [NUL] else Some dest);
     c \<leftarrow> cstr_at src i;
     Some (dest, if c = NUL then i else n)
   }"

text \<open>
  \<open>sc_strncpy(dst + i, ..)\<close> writes into the tail of the buffer. The loop of \<open>sc_str_join\<close> carries the
  write position \<open>i\<close>.
\<close>

definition join_truncated :: "string \<Rightarrow> nat \<Rightarrow> (string \<times> nat) option" where
  "join_truncated dst n = do {
     dst \<leftarrow> mem_write dst (sz_sub n 1) [NUL];
     Some (dst, n)
   }"

fun sc_str_join_loop :: "string \<Rightarrow> string list \<Rightarrow> char \<Rightarrow> nat \<Rightarrow> nat \<Rightarrow> (string \<times> nat) option" where
  "sc_str_join_loop dst [] sep n i = Some (dst, i)"
| "sc_str_join_loop dst (token # remaining) sep n i = do {
     dst \<leftarrow> (if i \<noteq> 0 then mem_write dst i [sep] else Some dst);
     let i = (if i \<noteq> 0 then i + 1 else i);
     if i \<noteq> 0 \<and> i = n then join_truncated dst n
     else do {
       (rest, w) \<leftarrow> sc_strncpy (drop i dst) token (sz_sub n i);
       let dst = take i dst @ rest;
       if sz_sub n i \<le> w then join_truncated dst n
       else sc_str_join_loop dst remaining sep n (i + w)
     }
   }"

definition sc_str_join :: "string \<Rightarrow> string list \<Rightarrow> char \<Rightarrow> nat \<Rightarrow> (string \<times> nat) option" where
  "sc_str_join dst tokens sep n = sc_str_join_loop dst tokens sep n 0"

definition sc_str_concat :: "bool \<Rightarrow> string \<Rightarrow> string \<Rightarrow> string option" where
  "sc_str_concat malloc_ok start end' = (if malloc_ok then Some (start @ end') else None)"

section \<open>Parsing integers\<close>

text \<open>The value is stored only on success, so the result is an option.\<close>

definition sc_str_parse_integer :: "string \<Rightarrow> int option" where
  "sc_str_parse_integer s =
     (if s = [] then None
      else let (value, endptr, erange) = strtol s in
        if erange then None
        else if endptr \<noteq> length s then None
        else Some value)"

function sc_str_parse_integers_loop ::
    "string \<Rightarrow> char \<Rightarrow> nat \<Rightarrow> int list \<Rightarrow> (nat \<times> int list) option" where
  "sc_str_parse_integers_loop s sep max_items out =
     (case strtol s of (value, endptr, erange) \<Rightarrow>
        if erange then Some (0, out)
        else do {
          c \<leftarrow> cstr_at s endptr;
          if endptr = 0 \<or> (c \<noteq> sep \<and> c \<noteq> NUL) then Some (0, out)
          else do {
            c_assert (length out < max_items);
            let out = out @ [value];
            if c = sep \<and> max_items \<le> length out then Some (0, out)
            else if c = NUL then Some (length out, out)
            else sc_str_parse_integers_loop (drop (Suc endptr) s) sep max_items out
          }
        })"
  by pat_completeness auto
termination
  by (relation "measure (\<lambda>(s, sep, m, out). length s)")
    (auto simp: cstr_at_def split: if_splits)

declare sc_str_parse_integers_loop.simps [simp del]

definition sc_str_parse_integers :: "string \<Rightarrow> char \<Rightarrow> nat \<Rightarrow> (nat \<times> int list) option" where
  "sc_str_parse_integers s sep max_items = sc_str_parse_integers_loop s sep max_items []"

definition sc_str_parse_integer_with_suffix :: "string \<Rightarrow> int option" where
  "sc_str_parse_integer_with_suffix s =
     (if s = [] then None
      else let (value, endptr, erange) = strtol s in
        if erange then None
        else
          let mul =
            (if endptr \<noteq> length s then
               if endptr = 0 then None
               else if (s ! endptr = CHR ''M'' \<or> s ! endptr = CHR ''m'') \<and> Suc endptr = length s
                 then Some 1000000
               else if (s ! endptr = CHR ''K'' \<or> s ! endptr = CHR ''k'') \<and> Suc endptr = length s
                 then Some 1000
               else None
             else Some 1)
          in case mul of
               None \<Rightarrow> None
             | Some mul \<Rightarrow>
                 if (value < 0 \<and> c_div LONG_MIN mul > value) \<or>
                    (value > 0 \<and> c_div LONG_MAX mul < value)
                 then None
                 else Some (value * mul))"

section \<open>Lists of tokens\<close>

function sc_str_list_contains :: "string \<Rightarrow> char \<Rightarrow> string \<Rightarrow> bool option" where
  "sc_str_list_contains list sep s =
     (let p = strchr list sep;
          token_len = (case p of Some k \<Rightarrow> k | None \<Rightarrow> length list)
      in if strncmp_eq list s token_len then Some True
         else case p of
                Some k \<Rightarrow>
                  (if k < length list then sc_str_list_contains (drop (Suc k) list) sep s
                   else None)
              | None \<Rightarrow> Some False)"
  by pat_completeness auto
termination
  by (relation "measure (\<lambda>(list, sep, s). length list)") auto

declare sc_str_list_contains.simps [simp del]

section \<open>Truncation of UTF-8\<close>

definition utf8_cont :: "u8 \<Rightarrow> bool" where
  "utf8_cont b \<longleftrightarrow> b AND 0x80 \<noteq> 0 \<and> b AND 0xc0 \<noteq> 0xc0"

text \<open>
  The loop reads \<open>utf8[len]\<close> and steps back. At index 0 it would wrap \<open>len\<close> around and read outside
  the string: this aborts.
\<close>

fun utf8_back :: "bytes \<Rightarrow> nat \<Rightarrow> nat option" where
  "utf8_back utf8 0 = (if utf8_cont (utf8 ! 0) then None else Some 0)"
| "utf8_back utf8 (Suc len) =
     (if utf8_cont (utf8 ! Suc len) then utf8_back utf8 len else Some (Suc len))"

definition sc_str_utf8_truncation_index :: "bytes \<Rightarrow> nat \<Rightarrow> nat option" where
  "sc_str_utf8_truncation_index utf8 max_len =
     (let len = length utf8 in
      if len \<le> max_len then Some len else utf8_back utf8 max_len)"

section \<open>Columns, line ends, hexadecimal\<close>

text \<open>\<open>col\<close> is an \<open>unsigned\<close> and \<open>colidx\<close> a \<open>size_t\<close>; the state is (\<open>idx\<close>, \<open>colidx\<close>).\<close>

function column_loop :: "string \<Rightarrow> nat \<Rightarrow> string \<Rightarrow> nat \<Rightarrow> nat \<Rightarrow> int option" where
  "column_loop s col seps idx colidx =
     (if idx < length s \<and> colidx \<noteq> col then
        let idx = idx + strcspn (drop idx s) seps in
        if length s \<le> idx then Some (-1)
        else do {
          let consecutive_seps = strspn (drop idx s) seps;
          c_assert (0 < consecutive_seps);
          let idx = idx + consecutive_seps;
          column_loop s col seps idx (if idx < length s then colidx + 1 else colidx)
        }
      else Some (if col = colidx then int idx else -1))"
  by pat_completeness auto
termination
  by (relation "measure (\<lambda>(s, col, seps, idx, colidx). length s - idx)") auto

declare column_loop.simps [simp del]

definition sc_str_index_of_column :: "string \<Rightarrow> nat \<Rightarrow> string \<Rightarrow> int option" where
  "sc_str_index_of_column s col seps = column_loop s col seps 0 0"

text \<open>Every removed \<open>\r\<close> is overwritten by NUL; the result is the buffer and the new length.\<close>

fun sc_str_remove_trailing_cr :: "string \<Rightarrow> nat \<Rightarrow> string \<times> nat" where
  "sc_str_remove_trailing_cr s 0 = (s, 0)"
| "sc_str_remove_trailing_cr s (Suc len) =
     (if s ! len \<noteq> CHR 0x0D then (s, Suc len)
      else sc_str_remove_trailing_cr (s[len := NUL]) len)"

definition hex_digit :: "nat \<Rightarrow> char" where
  "hex_digit n = (if n < 10 then char_of (48 + n) else char_of (55 + n))"

text \<open>\<open>snprintf(buffer + i * 3, 4, "%02X ", data[i])\<close> for every byte, then a NUL at \<open>size * 3\<close>.\<close>

definition sc_str_to_hex_string :: "bytes \<Rightarrow> string" where
  "sc_str_to_hex_string data =
     concat (map (\<lambda>b. [hex_digit (unat b div 16), hex_digit (unat b mod 16), CHR '' '']) data)"

section \<open>Facts: parsing integers\<close>

lemma takeWhile_drop_le:
  "takeWhile P (drop k xs) \<noteq> [] \<Longrightarrow> k + length (takeWhile P (drop k xs)) \<le> length xs"
  using length_takeWhile_le [of P "drop k xs"] by (cases "k < length xs") auto

lemma strtol_endptr_le: "strtol s = (v, e, r) \<Longrightarrow> e \<le> length s"
  by (auto simp: strtol_def Let_def takeWhile_drop_le split: prod.splits if_splits)

lemma strtol_range: "strtol s = (v, e, False) \<Longrightarrow> LONG_MIN \<le> v \<and> v \<le> LONG_MAX"
  by (auto simp: strtol_def Let_def LONG_MIN_def LONG_MAX_def split: if_splits prod.splits)

lemma sc_str_parse_integer_range:
  "sc_str_parse_integer s = Some v \<Longrightarrow> LONG_MIN \<le> v \<and> v \<le> LONG_MAX"
  by (auto simp: sc_str_parse_integer_def split: if_splits prod.splits dest: strtol_range)

text \<open>The overflow guard rejects exactly the products that do not fit in a \<open>long\<close>.\<close>

lemma suffix_guard_iff:
  assumes "0 < mul"
  shows "(v < 0 \<and> c_div LONG_MIN mul > v) \<or> (v > 0 \<and> c_div LONG_MAX mul < v) \<longleftrightarrow>
         \<not> (LONG_MIN \<le> v * mul \<and> v * mul \<le> LONG_MAX)"
proof -
  have "c_div LONG_MIN mul > v \<longleftrightarrow> (2 ^ 63) div mul < - v"
    using assms by (auto simp: LONG_MIN_def c_div_neg)
  also have "\<dots> \<longleftrightarrow> v * mul < LONG_MIN"
    using int_div_less_iff [OF assms, of "2 ^ 63" "- v"] by (auto simp: LONG_MIN_def)
  finally have lo: "c_div LONG_MIN mul > v \<longleftrightarrow> v * mul < LONG_MIN" .
  have hi: "c_div LONG_MAX mul < v \<longleftrightarrow> LONG_MAX < v * mul"
    using assms by (simp add: LONG_MAX_def int_div_less_iff)
  have neg: "v < 0" if "v * mul < LONG_MIN"
  proof (rule ccontr)
    assume "\<not> v < 0"
    then have "0 \<le> v * mul" using assms by simp
    with that show False by (simp add: LONG_MIN_def)
  qed
  have pos: "0 < v" if "LONG_MAX < v * mul"
  proof (rule ccontr)
    assume "\<not> 0 < v"
    then have "v * mul \<le> 0" using assms by (simp add: mult_nonpos_nonneg)
    with that show False by (simp add: LONG_MAX_def)
  qed
  show ?thesis using lo hi neg pos by auto
qed

lemma sc_str_parse_integer_with_suffix_range:
  "sc_str_parse_integer_with_suffix s = Some v \<Longrightarrow> LONG_MIN \<le> v \<and> v \<le> LONG_MAX"
  by (auto simp: sc_str_parse_integer_with_suffix_def Let_def suffix_guard_iff
      split: if_splits prod.splits option.splits)


text \<open>With room for one item the parser never writes behind \<open>out\<close>, and it stores what it counts.\<close>

lemma sc_str_parse_integers_loop_ok:
  assumes "length out < m"
  shows "\<exists>n out'. sc_str_parse_integers_loop s sep m out = Some (n, out') \<and>
           length out' \<le> m \<and> (n = 0 \<or> n = length out' \<and> 0 < n)"
  using assms
proof (induction s sep m out rule: sc_str_parse_integers_loop.induct)
  case (1 s sep m out)
  obtain v e r where st: "strtol s = (v, e, r)" by (cases "strtol s") auto
  have le: "e \<le> length s" using st by (rule strtol_endptr_le)
  then obtain c where c: "cstr_at s e = Some c" by (cases "e = length s") (auto simp: cstr_at_def)
  show ?case
  proof (cases "r \<or> e = 0 \<or> (c \<noteq> sep \<and> c \<noteq> NUL)")
    case True
    with 1 show ?thesis
      by (subst sc_str_parse_integers_loop.simps) (auto simp: st c)
  next
    case False
    with "1.IH" [OF st [symmetric]] c "1.prems"
    show ?thesis
      by (subst sc_str_parse_integers_loop.simps) (auto simp: st Let_def)
  qed
qed

section \<open>Facts: lists of tokens\<close>

fun split_tokens :: "char \<Rightarrow> string \<Rightarrow> string list" where
  "split_tokens sep [] = [[]]"
| "split_tokens sep (c # cs) =
     (if c = sep then [] # split_tokens sep cs
      else (c # hd (split_tokens sep cs)) # tl (split_tokens sep cs))"

lemma split_tokens_not_Nil [simp]: "split_tokens sep s \<noteq> []"
  by (cases s) auto

lemma split_tokens_unfold:
  "split_tokens sep s =
     (let k = length (takeWhile (\<lambda>x. x \<noteq> sep) s) in
      if k < length s then take k s # split_tokens sep (drop (Suc k) s) else [s])"
  by (induction s) (auto simp: Let_def)

lemma strncmp_eq_prefix:
  "n \<le> length a \<Longrightarrow> NUL \<notin> set a \<Longrightarrow> strncmp_eq a s n \<longleftrightarrow> take n a = take n s"
proof -
  assume a: "n \<le> length a" "NUL \<notin> set a"
  have "take n a = take n s @ take (n - length s) [NUL] \<longleftrightarrow> take n a = take n s"
  proof (cases "n \<le> length s")
    case False
    then have "NUL \<in> set (take n s @ take (n - length s) [NUL])" "length (take n s) < n"
      by (auto simp: take_Cons')
    moreover have "NUL \<notin> set (take n a)" "length (take n a) = n"
      using a by (auto dest: in_set_takeD)
    ultimately show ?thesis by (metis (no_types) less_not_refl)
  qed simp
  then show ?thesis using a by (simp add: strncmp_eq_def)
qed

text \<open>
  What \<open>sc_str_list_contains\<close> decides: some token of the list is a \<^emph>\<open>prefix\<close> of the searched string
  (the comparison is limited to the length of the token).
\<close>

lemma sc_str_list_contains_iff:
  assumes "sep \<noteq> NUL" "NUL \<notin> set list"
  shows "sc_str_list_contains list sep s =
    Some (\<exists>t \<in> set (split_tokens sep list). take (length t) s = t)"
  using assms
proof (induction list sep s rule: sc_str_list_contains.induct)
  case (1 list sep s)
  define k where "k = length (takeWhile (\<lambda>x. x \<noteq> sep) list)"
  have k: "k \<le> length list" by (simp add: k_def length_takeWhile_le)
  note unf = sc_str_list_contains.simps [of list sep s] split_tokens_unfold [of sep list]
  show ?case
  proof (cases "k < length list")
    case True
    have p: "strchr list sep = Some k" using True by (simp add: strchr_def k_def Let_def)
    have sub: "NUL \<notin> set (drop (Suc k) list)" using "1.prems" by (auto dest: in_set_dropD)
    have "strncmp_eq list s k \<longleftrightarrow> take k s = take k list"
      using "1.prems" k by (auto simp: strncmp_eq_prefix)
    then show ?thesis
      using True "1.IH" [OF refl refl _ p True "1.prems"(1) sub] k p
      by (auto simp: unf k_def [symmetric] Let_def)
  next
    case False
    with k have "k = length list" by simp
    moreover have p: "strchr list sep = None"
      using False "1.prems" by (simp add: strchr_def k_def Let_def)
    ultimately show ?thesis
      using False "1.prems" strncmp_eq_prefix [of "length list" list s]
      by (auto simp: unf k_def [symmetric] Let_def)
  qed
qed


section \<open>Facts: truncation of UTF-8\<close>

text \<open>
  One encoded code point: a byte that starts a sequence, then continuation bytes. A string is valid
  when it is a concatenation of such sequences (whatever their length).
\<close>

definition utf8_seq :: "bytes \<Rightarrow> bool" where
  "utf8_seq bs \<longleftrightarrow> bs \<noteq> [] \<and> \<not> utf8_cont (hd bs) \<and> (\<forall>b \<in> set (tl bs). utf8_cont b)"

lemma utf8_back_spec:
  "utf8_back u n = Some i \<Longrightarrow>
     i \<le> n \<and> \<not> utf8_cont (u ! i) \<and> (\<forall>j. i < j \<and> j \<le> n \<longrightarrow> utf8_cont (u ! j))"
  by (induction u n rule: utf8_back.induct) (auto simp: le_Suc_eq split: if_splits)

lemma utf8_back_total:
  "j \<le> n \<Longrightarrow> \<not> utf8_cont (u ! j) \<Longrightarrow> \<exists>i. utf8_back u n = Some i"
  by (induction u n rule: utf8_back.induct) (auto simp: le_Suc_eq)

lemma utf8_index_le_max: "sc_str_utf8_truncation_index u m = Some n \<Longrightarrow> n \<le> m"
  by (auto simp: sc_str_utf8_truncation_index_def Let_def dest: utf8_back_spec split: if_splits)

lemma utf8_index_le_length: "sc_str_utf8_truncation_index u m = Some n \<Longrightarrow> n \<le> length u"
  by (auto simp: sc_str_utf8_truncation_index_def Let_def dest: utf8_back_spec split: if_splits)

text \<open>A position without continuation byte in a valid string is a boundary between two sequences.\<close>

lemma utf8_boundary:
  assumes "\<forall>c \<in> set cs. utf8_seq c" "i < length (concat cs)" "\<not> utf8_cont (concat cs ! i)"
  shows "\<exists>k < length cs. i = length (concat (take k cs))"
  using assms
proof (induction cs arbitrary: i)
  case (Cons c cs)
  show ?case
  proof (cases "i < length c")
    case True
    have "i = 0"
    proof (rule ccontr)
      assume "i \<noteq> 0"
      then have "c ! i \<in> set (tl c)" using True by (cases c; cases i) auto
      then show False using Cons.prems True by (auto simp: utf8_seq_def nth_append)
    qed
    then show ?thesis by (intro exI [of _ 0]) simp
  next
    case False
    then have "i - length c < length (concat cs)" using Cons.prems(2) by simp
    then obtain k where "k < length cs" "i - length c = length (concat (take k cs))"
      using False Cons.IH [of "i - length c"] Cons.prems by (auto simp: nth_append)
    with False show ?thesis by (intro exI [of _ "Suc k"]) simp
  qed
qed simp

lemma utf8_seq_start: "utf8_seq c \<Longrightarrow> \<not> utf8_cont ((c @ cs) ! 0)"
  by (cases c) (auto simp: utf8_seq_def)

text \<open>
  Truncating a valid string keeps whole code points, and as many as fit: the index is the length of
  the longest prefix of sequences within \<open>m\<close> bytes.
\<close>

lemma utf8_index_valid:
  assumes v: "\<forall>c \<in> set cs. utf8_seq c"
  shows "\<exists>k \<le> length cs.
    sc_str_utf8_truncation_index (concat cs) m = Some (length (concat (take k cs))) \<and>
    length (concat (take k cs)) \<le> m \<and>
    (k < length cs \<longrightarrow> m < length (concat (take (Suc k) cs)))"
proof (cases "length (concat cs) \<le> m")
  case True
  then show ?thesis
    by (intro exI [of _ "length cs"]) (simp add: sc_str_utf8_truncation_index_def)
next
  case False
  then obtain c cs' where cs: "cs = c # cs'" by (cases cs) auto
  then have "\<not> utf8_cont (concat cs ! 0)" using v by (simp add: utf8_seq_start)
  then obtain i where i: "utf8_back (concat cs) m = Some i"
    using utf8_back_total [of 0 m "concat cs"] by auto
  note sp = utf8_back_spec [OF i]
  with False obtain k where k: "k < length cs" "i = length (concat (take k cs))"
    using utf8_boundary [OF v, of i] by auto
  have "m < length (concat (take (Suc k) cs))"
  proof (rule ccontr)
    let ?j = "length (concat (take (Suc k) cs))"
    assume "\<not> m < ?j"
    then have j: "?j \<le> m" by simp
    have "concat cs ! ?j = concat (drop (Suc k) cs) ! 0"
      by (metis append_take_drop_id concat_append nth_append_length_plus add.right_neutral)
    moreover have "drop (Suc k) cs \<noteq> []" using j False by (auto dest: arg_cong [of _ _ length])
    then obtain d ds where d: "drop (Suc k) cs = d # ds" by (cases "drop (Suc k) cs") auto
    then have "utf8_seq d" using v by (metis in_set_dropD list.set_intros(1))
    ultimately have "\<not> utf8_cont (concat cs ! ?j)" using d by (simp add: utf8_seq_start)
    moreover have "i < ?j"
      using k v by (simp add: take_Suc_conv_app_nth utf8_seq_def)
    ultimately show False using sp j by blast
  qed
  with k sp i False show ?thesis
    by (intro exI [of _ k]) (simp add: sc_str_utf8_truncation_index_def)
qed


section \<open>Facts: copies, columns, line ends, hexadecimal\<close>

lemma sc_strncpy_loop_spec:
  assumes "0 < n" "n \<le> length dest" "i \<le> n - 1" "n \<le> SIZE_MAX" "i \<le> length src"
  shows "sc_strncpy_loop dest src n i =
    (let k = min (n - 1) (length src) in
     Some (take i dest @ take (k - i) (drop i src) @ drop k dest, k))"
  using assms
proof (induction dest src n i rule: sc_strncpy_loop.induct)
  case (1 dest src n i)
  have sub: "sz_sub n (Suc 0) = n - Suc 0"
    using "1.prems" by simp
  show ?case
  proof (cases "i < n - 1 \<and> i < length src")
    case True
    then have il: "i < length dest" using "1.prems" by auto
    then have "i + length [src ! i] \<le> length dest" by simp
    then have w: "mem_write dest i [src ! i] = Some (mem_put dest i [src ! i])"
      by (rule mem_write_ok)
    have "sc_strncpy_loop dest src n i = sc_strncpy_loop (mem_put dest i [src ! i]) src n (Suc i)"
      using True w by (subst sc_strncpy_loop.simps) (simp add: sub)
    also have "\<dots> = Some (take (Suc i) (mem_put dest i [src ! i]) @
        take (min (n - 1) (length src) - Suc i) (drop (Suc i) src) @
        drop (min (n - 1) (length src)) (mem_put dest i [src ! i]), min (n - 1) (length src))"
      using "1.IH" [OF _ w] True "1.prems" by (simp add: sub Let_def)
    also have "take (Suc i) (mem_put dest i [src ! i]) = take i dest @ [src ! i]"
      using il by (simp add: mem_put_def)
    also have "drop (min (n - 1) (length src)) (mem_put dest i [src ! i]) =
        drop (min (n - 1) (length src)) dest"
      using True il by (intro drop_mem_put) auto
    finally have eq: "sc_strncpy_loop dest src n i = Some ((take i dest @ [src ! i]) @
        take (min (n - 1) (length src) - Suc i) (drop (Suc i) src) @
        drop (min (n - 1) (length src)) dest, min (n - 1) (length src))" .
    have "take (min (n - 1) (length src) - i) (drop i src) =
        src ! i # take (min (n - 1) (length src) - Suc i) (drop (Suc i) src)"
    proof -
      obtain m where m: "min (n - 1) (length src) - i = Suc m"
        using True by (cases "min (n - 1) (length src) - i") auto
      moreover from m have "min (n - 1) (length src) - Suc i = m" by simp
      ultimately show ?thesis using True by (simp only: m take_Suc_Cons flip: Cons_nth_drop_Suc)
    qed
    with eq show ?thesis by (simp only: Let_def append_assoc append_Cons append_Nil)
  next
    case False
    then have "min (n - 1) (length src) = i" using "1.prems" by linarith
    moreover have "sc_strncpy_loop dest src n i = Some (dest, i)"
      using False by (subst sc_strncpy_loop.simps) (simp only: sub One_nat_def if_False)
    ultimately show ?thesis by (simp add: Let_def)
  qed
qed

text \<open>
  \<open>sc_strncpy\<close> with a buffer of at least \<open>n > 0\<close> characters: the copy holds the first \<open>n - 1\<close>
  characters and a NUL, the rest of the buffer is untouched, and \<open>n\<close> reports a truncation.
\<close>

lemma sc_strncpy_spec:
  assumes "0 < n" "n \<le> length dest" "n \<le> SIZE_MAX" "NUL \<notin> set src"
  shows "sc_strncpy dest src n =
    (let k = min (n - 1) (length src) in
     Some (take k src @ [NUL] @ drop (Suc k) dest, if length src < n then length src else n))"
proof -
  define k where "k = min (n - 1) (length src)"
  have k: "k < length dest" "k \<le> length src" using assms by (auto simp: k_def)
  have loop: "sc_strncpy_loop dest src n 0 = Some (take k src @ drop k dest, k)"
    using sc_strncpy_loop_spec [of n dest 0 src] assms by (simp add: k_def Let_def)
  have "mem_write (take k src @ drop k dest) k [NUL] = Some (take k src @ [NUL] @ drop (Suc k) dest)"
    using k by (simp add: mem_write_def mem_put_def)
  moreover have "cstr_at src k = Some (if k < length src then src ! k else NUL)"
    using k by (auto simp: cstr_at_def)
  moreover have "(if k < length src then src ! k else NUL) = NUL \<longleftrightarrow> length src < n"
    using assms by (auto simp: k_def in_set_conv_nth min_def)
  moreover have "length src < n \<Longrightarrow> k = length src" by (simp add: k_def)
  moreover have "\<not> length src < n \<Longrightarrow> k = n - 1" "Suc (n - 1) = n" using assms by (simp_all add: k_def)
  ultimately show ?thesis
    using assms by (auto simp: sc_strncpy_def loop k_def [symmetric] Let_def)
qed

section \<open>Properties\<close>

text \<open>
  C38: Truncating a valid UTF-8 string never cuts a code point, never exceeds the limit, keeps as
  many code points as fit, and never reads before the string.
\<close>

theorem utf8_truncation_keeps_code_points:
  assumes "\<forall>c \<in> set cs. utf8_seq c"
  shows "\<exists>k \<le> length cs.
    sc_str_utf8_truncation_index (concat cs) max_len = Some (length (concat (take k cs))) \<and>
    length (concat (take k cs)) \<le> max_len \<and>
    (k < length cs \<longrightarrow> max_len < length (concat (take (Suc k) cs)))"
  by (rule utf8_index_valid [OF assms])

lemma utf8_truncation_keeps_code_points_witness:
  "\<exists>k \<le> 2. sc_str_utf8_truncation_index [0x41, 0xc3, 0xa9] 2 =
      Some (length (concat (take k [[0x41], [0xc3, 0xa9 :: u8]]))) \<and>
    length (concat (take k [[0x41], [0xc3, 0xa9 :: u8]])) \<le> 2"
proof -
  have v: "\<forall>c \<in> set [[0x41], [0xc3, 0xa9 :: u8]]. utf8_seq c"
    by (simp add: utf8_seq_def utf8_cont_def)
  have l: "length [[0x41], [0xc3, 0xa9 :: u8]] = 2" "concat [[0x41], [0xc3, 0xa9 :: u8]] = [0x41, 0xc3, 0xa9]"
    by simp_all
  show ?thesis
    using utf8_truncation_keeps_code_points [OF v, of 2] unfolding l by blast
qed

text \<open>
  An integer with a K or M suffix is never the result of an overflow: a successful parse is a
  value of \<open>long\<close>.
\<close>

theorem parse_integer_with_suffix_no_overflow:
  "\<forall>v. sc_str_parse_integer_with_suffix s = Some v \<longrightarrow> LONG_MIN \<le> v \<and> v \<le> LONG_MAX"
  using sc_str_parse_integer_with_suffix_range by blast

lemma parse_integer_with_suffix_no_overflow_witness:
  "LONG_MIN \<le> 8000 \<and> 8000 \<le> LONG_MAX \<and> sc_str_parse_integer_with_suffix ''8k'' = Some 8000"
proof -
  have "sc_str_parse_integer_with_suffix ''8k'' = Some 8000" by code_simp
  with parse_integer_with_suffix_no_overflow [of "''8k''"] show ?thesis by blast
qed

text \<open>
  Parsing a list of integers stores at most \<open>max_items\<close> of them and answers either 0 or the
  number of the items it stored.
\<close>

theorem parse_integers_bounds:
  assumes "0 < max_items"
  shows "\<exists>n out. sc_str_parse_integers s sep max_items = Some (n, out) \<and>
    length out \<le> max_items \<and> (n = 0 \<or> n = length out \<and> 0 < n)"
  unfolding sc_str_parse_integers_def using sc_str_parse_integers_loop_ok [of "[]"] assms by simp

lemma parse_integers_bounds_witness:
  "\<exists>n out. sc_str_parse_integers ''27183:27199'' CHR '':'' 2 = Some (n, out) \<and>
    length out \<le> 2 \<and> (n = 0 \<or> n = length out \<and> 0 < n)"
  by (rule parse_integers_bounds) simp

text \<open>
  Copying a string into a buffer of \<open>n\<close> bytes stores as much of it as fits, terminates it, leaves
  the rest of the buffer alone and tells truncation from success.
\<close>

theorem strncpy_terminates_string:
  assumes "0 < n" "n \<le> length dest" "n \<le> SIZE_MAX" "NUL \<notin> set src"
  shows "sc_strncpy dest src n =
    (let k = min (n - 1) (length src) in
     Some (take k src @ [NUL] @ drop (Suc k) dest, if length src < n then length src else n))"
  by (rule sc_strncpy_spec [OF assms])

lemma strncpy_terminates_string_witness:
  "sc_strncpy ''......'' ''abc'' 3 =
    (let k = min (3 - 1) (length ''abc'') in
     Some (take k ''abc'' @ [NUL] @ drop (Suc k) ''......'',
       if length ''abc'' < 3 then length ''abc'' else 3))"
  by (rule strncpy_terminates_string) (simp_all add: SIZE_MAX_def NUL_def)

text \<open>
  The membership test of a separated list only compares a prefix: it accepts a string as soon as
  one element of the list is a prefix of it, so that an element \<open>opus\<close> also accepts \<open>opusx\<close>.
\<close>

theorem list_contains_compares_prefixes:
  assumes "sep \<noteq> NUL" "NUL \<notin> set list"
  shows "sc_str_list_contains list sep s =
    Some (\<exists>t \<in> set (split_tokens sep list). take (length t) s = t)"
  by (rule sc_str_list_contains_iff [OF assms])

lemma list_contains_compares_prefixes_witness:
  "sc_str_list_contains ''a,opus'' CHR '','' ''opusx'' =
    Some (\<exists>t \<in> set (split_tokens CHR '','' ''a,opus''). take (length t) ''opusx'' = t)"
  by (rule list_contains_compares_prefixes) (simp_all add: NUL_def)

end
