(* ===== verification/Sc_Control_Msg.thy ===== *)
theory Sc_Control_Msg
  imports Sc_Binary Sc_Str
begin

text \<open>
  \<open>coords.h\<close>, \<open>control_msg.h\<close>, \<open>control_msg.c\<close>: the control messages the client sends to the
  device, their serialization into the caller's buffer, and which of them may be dropped.

  The C tagged union is a datatype with one constructor per \<open>enum sc_control_msg_type\<close>; a tag
  outside the enum (the \<open>default\<close> branches) is \<open>UNKNOWN\<close>. A \<open>char *\<close> is \<open>None\<close> for \<open>NULL\<close> or
  the bytes before the terminator; a pointer with a separate size keeps both. Enum values are the
  32-bit integers that C stores. Writes go to an explicit buffer and abort outside it; the
  reference encoding \<open>control_msg_wire\<close> is the byte string that a message stands for.
\<close>

section \<open>Coordinates\<close>

record sc_size =
  width :: u16
  height :: u16

record sc_point =
  pt_x :: i32
  pt_y :: i32

record sc_position =
  screen_size :: sc_size
  point :: sc_point

section \<open>Messages\<close>

definition SC_CONTROL_MSG_MAX_SIZE :: nat where
  "SC_CONTROL_MSG_MAX_SIZE = 2 ^ 18"

definition SC_CONTROL_MSG_INJECT_TEXT_MAX_LENGTH :: nat where
  "SC_CONTROL_MSG_INJECT_TEXT_MAX_LENGTH = 300"

definition SC_CONTROL_MSG_CLIPBOARD_TEXT_MAX_LENGTH :: nat where
  "SC_CONTROL_MSG_CLIPBOARD_TEXT_MAX_LENGTH = SC_CONTROL_MSG_MAX_SIZE - 14"

lemmas control_msg_sizes =
  SC_CONTROL_MSG_MAX_SIZE_def SC_CONTROL_MSG_INJECT_TEXT_MAX_LENGTH_def
  SC_CONTROL_MSG_CLIPBOARD_TEXT_MAX_LENGTH_def

definition SC_POINTER_ID_MOUSE :: u64 where "SC_POINTER_ID_MOUSE = -1"
definition SC_POINTER_ID_GENERIC_FINGER :: u64 where "SC_POINTER_ID_GENERIC_FINGER = -2"
definition SC_POINTER_ID_VIRTUAL_FINGER :: u64 where "SC_POINTER_ID_VIRTUAL_FINGER = -3"

datatype sc_copy_key = SC_COPY_KEY_NONE | SC_COPY_KEY_COPY | SC_COPY_KEY_CUT

fun sc_copy_key_value :: "sc_copy_key \<Rightarrow> u32" where
  "sc_copy_key_value SC_COPY_KEY_NONE = 0"
| "sc_copy_key_value SC_COPY_KEY_COPY = 1"
| "sc_copy_key_value SC_COPY_KEY_CUT = 2"

datatype sc_control_msg =
    INJECT_KEYCODE (kc_action: u32) (kc_keycode: u32) (kc_repeat: u32) (kc_metastate: u32)
  | INJECT_TEXT (it_text: "bytes option")
  | INJECT_TOUCH_EVENT (te_action: u32) (te_action_button: u32) (te_buttons: u32)
      (te_pointer_id: u64) (te_position: sc_position) (te_pressure: rat)
  | INJECT_SCROLL_EVENT (se_position: sc_position) (se_hscroll: rat) (se_vscroll: rat)
      (se_buttons: u32)
  | BACK_OR_SCREEN_ON (bs_action: u32)
  | EXPAND_NOTIFICATION_PANEL
  | EXPAND_SETTINGS_PANEL
  | COLLAPSE_PANELS
  | GET_CLIPBOARD (gc_copy_key: sc_copy_key)
  | SET_CLIPBOARD (sc_sequence: u64) (sc_text: "bytes option") (sc_paste: bool)
  | SET_DISPLAY_POWER (dp_on: bool)
  | ROTATE_DEVICE
  | UHID_CREATE (uc_id: u16) (uc_vendor_id: u16) (uc_product_id: u16) (uc_name: "bytes option")
      (uc_report_desc_size: u16) (uc_report_desc: bytes)
  | UHID_INPUT (ui_id: u16) (ui_size: u16) (ui_data: bytes)
  | UHID_DESTROY (ud_id: u16)
  | OPEN_HARD_KEYBOARD_SETTINGS
  | START_APP (sa_name: "bytes option")
  | RESET_VIDEO
  | CAMERA_SET_TORCH (ct_on: bool)
  | CAMERA_ZOOM_IN
  | CAMERA_ZOOM_OUT
  | RESIZE_DISPLAY (rd_width: u16) (rd_height: u16)
  | UNKNOWN u32

text \<open>The value of the tag.\<close>

fun sc_control_msg_type :: "sc_control_msg \<Rightarrow> u32" where
  "sc_control_msg_type (INJECT_KEYCODE _ _ _ _) = 0"
| "sc_control_msg_type (INJECT_TEXT _) = 1"
| "sc_control_msg_type (INJECT_TOUCH_EVENT _ _ _ _ _ _) = 2"
| "sc_control_msg_type (INJECT_SCROLL_EVENT _ _ _ _) = 3"
| "sc_control_msg_type (BACK_OR_SCREEN_ON _) = 4"
| "sc_control_msg_type EXPAND_NOTIFICATION_PANEL = 5"
| "sc_control_msg_type EXPAND_SETTINGS_PANEL = 6"
| "sc_control_msg_type COLLAPSE_PANELS = 7"
| "sc_control_msg_type (GET_CLIPBOARD _) = 8"
| "sc_control_msg_type (SET_CLIPBOARD _ _ _) = 9"
| "sc_control_msg_type (SET_DISPLAY_POWER _) = 10"
| "sc_control_msg_type ROTATE_DEVICE = 11"
| "sc_control_msg_type (UHID_CREATE _ _ _ _ _ _) = 12"
| "sc_control_msg_type (UHID_INPUT _ _ _) = 13"
| "sc_control_msg_type (UHID_DESTROY _) = 14"
| "sc_control_msg_type OPEN_HARD_KEYBOARD_SETTINGS = 15"
| "sc_control_msg_type (START_APP _) = 16"
| "sc_control_msg_type RESET_VIDEO = 17"
| "sc_control_msg_type (CAMERA_SET_TORCH _) = 18"
| "sc_control_msg_type CAMERA_ZOOM_IN = 19"
| "sc_control_msg_type CAMERA_ZOOM_OUT = 20"
| "sc_control_msg_type (RESIZE_DISPLAY _ _) = 21"
| "sc_control_msg_type (UNKNOWN t) = t"

definition known_type :: "sc_control_msg \<Rightarrow> bool" where
  "known_type msg = (case msg of UNKNOWN _ \<Rightarrow> False | _ \<Rightarrow> True)"

section \<open>Serialization\<close>

definition write_position :: "bytes \<Rightarrow> nat \<Rightarrow> sc_position \<Rightarrow> bytes option" where
  "write_position buf off position = do {
     buf \<leftarrow> mem_write buf off (sc_write32be (pt_x (point position)));
     buf \<leftarrow> mem_write buf (off + 4) (sc_write32be (pt_y (point position)));
     buf \<leftarrow> mem_write buf (off + 8) (sc_write16be (width (screen_size position)));
     mem_write buf (off + 10) (sc_write16be (height (screen_size position)))
   }"

definition write_string_payload ::
    "bytes \<Rightarrow> nat \<Rightarrow> bytes option \<Rightarrow> nat \<Rightarrow> (bytes \<times> nat) option" where
  "write_string_payload buf off utf8 max_len =
     (case utf8 of
        None \<Rightarrow> Some (buf, 0)
      | Some s \<Rightarrow> do {
          len \<leftarrow> sc_str_utf8_truncation_index s max_len;
          buf \<leftarrow> mem_write buf off (take len s);
          Some (buf, len)
        })"

definition write_string ::
    "bytes \<Rightarrow> nat \<Rightarrow> bytes option \<Rightarrow> nat \<Rightarrow> (bytes \<times> nat) option" where
  "write_string buf off utf8 max_len = do {
     (buf, len) \<leftarrow> write_string_payload buf (off + 4) utf8 max_len;
     buf \<leftarrow> mem_write buf off (sc_write32be (of_nat len));
     Some (buf, 4 + len)
   }"

definition write_string_tiny ::
    "bytes \<Rightarrow> nat \<Rightarrow> bytes option \<Rightarrow> nat \<Rightarrow> (bytes \<times> nat) option" where
  "write_string_tiny buf off utf8 max_len = do {
     c_assert (max_len \<le> 0xFF);
     (buf, len) \<leftarrow> write_string_payload buf (off + 1) utf8 max_len;
     buf \<leftarrow> mem_write buf off [of_nat len];
     Some (buf, 1 + len)
   }"

text \<open>\<open>CLAMP\<close> of \<open>common.h\<close>.\<close>

definition c_clamp :: "rat \<Rightarrow> rat \<Rightarrow> rat \<Rightarrow> rat" where
  "c_clamp v x y = min (max v x) y"

definition bool_byte :: "bool \<Rightarrow> u8" where
  "bool_byte b = (if b then 1 else 0)"

text \<open>The result is the buffer and the number of bytes written.\<close>

definition sc_control_msg_serialize ::
    "sc_control_msg \<Rightarrow> bytes \<Rightarrow> (bytes \<times> nat) option" where
  "sc_control_msg_serialize msg buf = do {
     buf \<leftarrow> mem_write buf 0 [ucast (sc_control_msg_type msg)];
     (case msg of
        INJECT_KEYCODE action keycode repeat metastate \<Rightarrow> do {
          buf \<leftarrow> mem_write buf 1 [ucast action];
          buf \<leftarrow> mem_write buf 2 (sc_write32be keycode);
          buf \<leftarrow> mem_write buf 6 (sc_write32be repeat);
          buf \<leftarrow> mem_write buf 10 (sc_write32be metastate);
          Some (buf, 14)
        }
      | INJECT_TEXT text \<Rightarrow> do {
          (buf, len) \<leftarrow> write_string buf 1 text SC_CONTROL_MSG_INJECT_TEXT_MAX_LENGTH;
          Some (buf, 1 + len)
        }
      | INJECT_TOUCH_EVENT action action_button buttons pointer_id position pressure \<Rightarrow> do {
          buf \<leftarrow> mem_write buf 1 [ucast action];
          buf \<leftarrow> mem_write buf 2 (sc_write64be pointer_id);
          buf \<leftarrow> write_position buf 10 position;
          pressure \<leftarrow> sc_float_to_u16fp pressure;
          buf \<leftarrow> mem_write buf 22 (sc_write16be pressure);
          buf \<leftarrow> mem_write buf 24 (sc_write32be action_button);
          buf \<leftarrow> mem_write buf 28 (sc_write32be buttons);
          Some (buf, 32)
        }
      | INJECT_SCROLL_EVENT position hscroll vscroll buttons \<Rightarrow> do {
          buf \<leftarrow> write_position buf 1 position;
          let hscroll_norm = c_clamp (hscroll / 16) (-1) 1;
          let vscroll_norm = c_clamp (vscroll / 16) (-1) 1;
          hscroll \<leftarrow> sc_float_to_i16fp hscroll_norm;
          vscroll \<leftarrow> sc_float_to_i16fp vscroll_norm;
          buf \<leftarrow> mem_write buf 13 (sc_write16be hscroll);
          buf \<leftarrow> mem_write buf 15 (sc_write16be vscroll);
          buf \<leftarrow> mem_write buf 17 (sc_write32be buttons);
          Some (buf, 21)
        }
      | BACK_OR_SCREEN_ON action \<Rightarrow> do {
          buf \<leftarrow> mem_write buf 1 [ucast action];
          Some (buf, 2)
        }
      | GET_CLIPBOARD copy_key \<Rightarrow> do {
          buf \<leftarrow> mem_write buf 1 [ucast (sc_copy_key_value copy_key)];
          Some (buf, 2)
        }
      | SET_CLIPBOARD sequence text paste \<Rightarrow> do {
          buf \<leftarrow> mem_write buf 1 (sc_write64be sequence);
          buf \<leftarrow> mem_write buf 9 [bool_byte paste];
          (buf, len) \<leftarrow> write_string buf 10 text SC_CONTROL_MSG_CLIPBOARD_TEXT_MAX_LENGTH;
          Some (buf, 10 + len)
        }
      | SET_DISPLAY_POWER on \<Rightarrow> do {
          buf \<leftarrow> mem_write buf 1 [bool_byte on];
          Some (buf, 2)
        }
      | UHID_CREATE dev_id vendor_id product_id name report_desc_size report_desc \<Rightarrow> do {
          buf \<leftarrow> mem_write buf 1 (sc_write16be dev_id);
          buf \<leftarrow> mem_write buf 3 (sc_write16be vendor_id);
          buf \<leftarrow> mem_write buf 5 (sc_write16be product_id);
          let index = 7;
          (buf, len) \<leftarrow> write_string_tiny buf index name 127;
          let index = index + len;
          buf \<leftarrow> mem_write buf index (sc_write16be report_desc_size);
          let index = index + 2;
          desc \<leftarrow> mem_read report_desc 0 (unat report_desc_size);
          buf \<leftarrow> mem_write buf index desc;
          let index = index + unat report_desc_size;
          Some (buf, index)
        }
      | UHID_INPUT dev_id n data \<Rightarrow> do {
          buf \<leftarrow> mem_write buf 1 (sc_write16be dev_id);
          buf \<leftarrow> mem_write buf 3 (sc_write16be n);
          payload \<leftarrow> mem_read data 0 (unat n);
          buf \<leftarrow> mem_write buf 5 payload;
          Some (buf, 5 + unat n)
        }
      | UHID_DESTROY dev_id \<Rightarrow> do {
          buf \<leftarrow> mem_write buf 1 (sc_write16be dev_id);
          Some (buf, 3)
        }
      | START_APP name \<Rightarrow> do {
          (buf, len) \<leftarrow> write_string_tiny buf 1 name 255;
          Some (buf, 1 + len)
        }
      | CAMERA_SET_TORCH on \<Rightarrow> do {
          buf \<leftarrow> mem_write buf 1 [bool_byte on];
          Some (buf, 2)
        }
      | RESIZE_DISPLAY w h \<Rightarrow> do {
          buf \<leftarrow> mem_write buf 1 (sc_write16be w);
          buf \<leftarrow> mem_write buf 3 (sc_write16be h);
          Some (buf, 5)
        }
      | UNKNOWN _ \<Rightarrow> Some (buf, 0)
      | _ \<Rightarrow> Some (buf, 1))
   }"

definition sc_control_msg_is_droppable :: "sc_control_msg \<Rightarrow> bool" where
  "sc_control_msg_is_droppable msg \<longleftrightarrow>
     sc_control_msg_type msg \<noteq> 12 \<and> sc_control_msg_type msg \<noteq> 14"

text \<open>The heap blocks that destroying a message frees.\<close>

definition sc_control_msg_destroy :: "sc_control_msg \<Rightarrow> bytes option list" where
  "sc_control_msg_destroy msg =
     (case msg of
        INJECT_TEXT text \<Rightarrow> [text]
      | SET_CLIPBOARD _ text _ \<Rightarrow> [text]
      | START_APP name \<Rightarrow> [name]
      | _ \<Rightarrow> [])"

definition get_well_known_pointer_id_name :: "u64 \<Rightarrow> string option" where
  "get_well_known_pointer_id_name pointer_id =
     (if pointer_id = SC_POINTER_ID_MOUSE then Some ''mouse''
      else if pointer_id = SC_POINTER_ID_GENERIC_FINGER then Some ''finger''
      else if pointer_id = SC_POINTER_ID_VIRTUAL_FINGER then Some ''vfinger''
      else None)"

section \<open>The wire format\<close>

definition position_wire :: "sc_position \<Rightarrow> bytes" where
  "position_wire p =
     sc_write32be (pt_x (point p)) @ sc_write32be (pt_y (point p)) @
     sc_write16be (width (screen_size p)) @ sc_write16be (height (screen_size p))"

text \<open>The bytes of a string that are sent: a prefix at a code point boundary.\<close>

definition sent_text :: "bytes option \<Rightarrow> nat \<Rightarrow> bytes option" where
  "sent_text utf8 max_len =
     (case utf8 of
        None \<Rightarrow> Some []
      | Some s \<Rightarrow> map_option (\<lambda>len. take len s) (sc_str_utf8_truncation_index s max_len))"

definition string_wire :: "bytes \<Rightarrow> bytes" where
  "string_wire s = sc_write32be (of_nat (length s)) @ s"

definition string_tiny_wire :: "bytes \<Rightarrow> bytes" where
  "string_tiny_wire s = of_nat (length s) # s"

definition payload_wire :: "sc_control_msg \<Rightarrow> bytes option" where
  "payload_wire msg =
     (case msg of
        INJECT_KEYCODE action keycode repeat metastate \<Rightarrow>
          Some ([ucast action] @ sc_write32be keycode @ sc_write32be repeat @
            sc_write32be metastate)
      | INJECT_TEXT text \<Rightarrow>
          map_option string_wire (sent_text text SC_CONTROL_MSG_INJECT_TEXT_MAX_LENGTH)
      | INJECT_TOUCH_EVENT action action_button buttons pointer_id position pressure \<Rightarrow>
          map_option (\<lambda>p. [ucast action] @ sc_write64be pointer_id @ position_wire position @
              sc_write16be p @ sc_write32be action_button @ sc_write32be buttons)
            (sc_float_to_u16fp pressure)
      | INJECT_SCROLL_EVENT position hscroll vscroll buttons \<Rightarrow> do {
          h \<leftarrow> sc_float_to_i16fp (c_clamp (hscroll / 16) (-1) 1);
          v \<leftarrow> sc_float_to_i16fp (c_clamp (vscroll / 16) (-1) 1);
          Some (position_wire position @ sc_write16be h @ sc_write16be v @ sc_write32be buttons)
        }
      | BACK_OR_SCREEN_ON action \<Rightarrow> Some [ucast action]
      | GET_CLIPBOARD copy_key \<Rightarrow> Some [ucast (sc_copy_key_value copy_key)]
      | SET_CLIPBOARD sequence text paste \<Rightarrow>
          map_option (\<lambda>t. sc_write64be sequence @ [bool_byte paste] @ string_wire t)
            (sent_text text SC_CONTROL_MSG_CLIPBOARD_TEXT_MAX_LENGTH)
      | SET_DISPLAY_POWER on \<Rightarrow> Some [bool_byte on]
      | UHID_CREATE dev_id vendor_id product_id name report_desc_size report_desc \<Rightarrow> do {
          t \<leftarrow> sent_text name 127;
          desc \<leftarrow> mem_read report_desc 0 (unat report_desc_size);
          Some (sc_write16be dev_id @ sc_write16be vendor_id @ sc_write16be product_id @
            string_tiny_wire t @ sc_write16be report_desc_size @ desc)
        }
      | UHID_INPUT dev_id n data \<Rightarrow>
          map_option (\<lambda>d. sc_write16be dev_id @ sc_write16be n @ d)
            (mem_read data 0 (unat n))
      | UHID_DESTROY dev_id \<Rightarrow> Some (sc_write16be dev_id)
      | START_APP name \<Rightarrow> map_option string_tiny_wire (sent_text name 255)
      | CAMERA_SET_TORCH on \<Rightarrow> Some [bool_byte on]
      | RESIZE_DISPLAY w h \<Rightarrow> Some (sc_write16be w @ sc_write16be h)
      | _ \<Rightarrow> Some [])"

definition control_msg_wire :: "sc_control_msg \<Rightarrow> bytes option" where
  "control_msg_wire msg =
     (case msg of
        UNKNOWN _ \<Rightarrow> Some []
      | _ \<Rightarrow> map_option (\<lambda>p. ucast (sc_control_msg_type msg) # p) (payload_wire msg))"

section \<open>The serialization writes the wire format\<close>

lemma sent_text_length: "sent_text s m = Some t \<Longrightarrow> length t \<le> m"
  by (auto simp: sent_text_def dest: utf8_index_le_max split: option.splits)

lemma write_position_extend:
  assumes "length p = off" "off + 12 \<le> length buf"
  shows "write_position (mem_put buf 0 p) off pos = Some (mem_put buf 0 (p @ position_wire pos))"
  using assms by (simp add: write_position_def mem_put_extend mem_put_comp position_wire_def)

lemma write_string_payload_eq:
  "off \<le> length buf \<Longrightarrow> write_string_payload buf off s m =
     do { t \<leftarrow> sent_text s m; buf \<leftarrow> mem_write buf off t; Some (buf, length t) }"
  by (cases s) (auto simp: write_string_payload_def sent_text_def mem_write_def utf8_index_le_length
      min_absorb2 split: option.splits bind_splits)

lemma write_string_extend:
  assumes "length p = off" "off + 4 + m \<le> length buf"
  shows "write_string (mem_put buf 0 p) off s m =
    do { t \<leftarrow> sent_text s m; Some (mem_put buf 0 (p @ string_wire t), 4 + length t) }"
proof (cases "sent_text s m")
  case (Some t)
  note sent_text_length [OF Some]
  with assms show ?thesis
    by (simp add: write_string_def write_string_payload_eq Some mem_put_before mem_put_comp string_wire_def)
qed (use assms in \<open>simp add: write_string_def write_string_payload_eq\<close>)

lemma write_string_tiny_extend:
  assumes "length p = off" "off + 1 + m \<le> length buf" "m \<le> 255"
  shows "write_string_tiny (mem_put buf 0 p) off s m =
    do { t \<leftarrow> sent_text s m; Some (mem_put buf 0 (p @ string_tiny_wire t), 1 + length t) }"
proof (cases "sent_text s m")
  case (Some t)
  note sent_text_length [OF Some]
  with assms show ?thesis
    by (simp add: write_string_tiny_def write_string_payload_eq Some mem_put_before mem_put_comp string_tiny_wire_def)
qed (use assms in \<open>simp add: write_string_tiny_def write_string_payload_eq\<close>)

lemma length_wires [simp]:
  "length (position_wire p) = 12" "length (string_wire s) = 4 + length s"
  "length (string_tiny_wire s) = 1 + length s"
  by (simp_all add: position_wire_def string_wire_def string_tiny_wire_def)

lemmas serialize_steps =
  mem_put_extend mem_put_comp write_position_extend write_string_extend write_string_tiny_extend

lemma serialize_uhid_create:
  assumes "262144 \<le> length buf"
  shows "sc_control_msg_serialize (UHID_CREATE a b c d e f) buf =
    do { w \<leftarrow> control_msg_wire (UHID_CREATE a b c d e f); Some (mem_put buf 0 w, length w) }"
proof (cases "sent_text d 127")
  case (Some t)
  have "length t \<le> 127" by (rule sent_text_length [OF Some])
  with assms unat_u16 [of e] show ?thesis
    by (cases "unat e \<le> length f")
      (simp_all add: sc_control_msg_serialize_def control_msg_wire_def payload_wire_def
        serialize_steps Let_def Some mem_read_def)
qed (use assms in \<open>simp add: sc_control_msg_serialize_def control_msg_wire_def payload_wire_def
        serialize_steps Let_def\<close>)

lemma serialize_wire:
  assumes "SC_CONTROL_MSG_MAX_SIZE \<le> length buf" "known_type msg"
  shows "sc_control_msg_serialize msg buf =
    do { w \<leftarrow> control_msg_wire msg; Some (mem_put buf 0 w, length w) }"
proof -
  have big: "262144 \<le> length buf" using assms by (simp add: SC_CONTROL_MSG_MAX_SIZE_def)
  show ?thesis
  proof (cases msg)
    case (UHID_INPUT a b c)
    with big unat_u16 [of b] show ?thesis
      by (cases "unat b \<le> length c") (simp_all add: sc_control_msg_serialize_def control_msg_wire_def payload_wire_def
        serialize_steps mem_read_def)
  next
    case (UHID_CREATE a b c d e f)
    with big show ?thesis by (simp only: serialize_uhid_create)
  qed (use assms big in \<open>simp_all add: sc_control_msg_serialize_def control_msg_wire_def payload_wire_def serialize_steps
       control_msg_sizes Let_def known_type_def map_conv_bind_option\<close>)
qed

text \<open>Every message that can be sent fits into the buffer.\<close>

lemma control_msg_wire_length:
  assumes "control_msg_wire msg = Some w"
  shows "length w \<le> SC_CONTROL_MSG_MAX_SIZE"
proof (cases msg)
  case (UHID_CREATE a b c d e f)
  with assms unat_u16 [of e] show ?thesis
    by (auto simp: control_msg_wire_def payload_wire_def control_msg_sizes mem_read_def
        dest!: sent_text_length split: bind_splits if_splits)
next
  case (UHID_INPUT a b c)
  with assms unat_u16 [of b] show ?thesis
    by (auto simp: control_msg_wire_def payload_wire_def control_msg_sizes mem_read_def
        split: if_splits)
qed (use assms in \<open>auto simp: control_msg_wire_def payload_wire_def control_msg_sizes
        dest!: sent_text_length split: bind_splits if_splits\<close>)

lemma control_msg_wire_head:
  "control_msg_wire msg = Some w \<Longrightarrow> known_type msg \<Longrightarrow>
     \<exists>p. payload_wire msg = Some p \<and> w = ucast (sc_control_msg_type msg) # p"
  by (cases msg) (auto simp: control_msg_wire_def known_type_def)

section \<open>Properties\<close>

text \<open>
  C29: Serializing a message into a buffer of \<open>SC_CONTROL_MSG_MAX_SIZE\<close> bytes writes exactly the bytes
  of its wire format, starting with its type, at most \<open>SC_CONTROL_MSG_MAX_SIZE\<close> of them, leaves the
  rest of the buffer as it was, and never writes outside the buffer.
\<close>

theorem serialize_stays_in_buffer:
  assumes "SC_CONTROL_MSG_MAX_SIZE \<le> length buf" "known_type msg"
    and "control_msg_wire msg = Some w"
  shows "\<exists>buf'. sc_control_msg_serialize msg buf = Some (buf', length w) \<and>
    length buf' = length buf \<and> take (length w) buf' = w \<and>
    drop (length w) buf' = drop (length w) buf \<and>
    0 < length w \<and> length w \<le> SC_CONTROL_MSG_MAX_SIZE \<and> hd w = ucast (sc_control_msg_type msg)"
proof -
  have n: "length w \<le> SC_CONTROL_MSG_MAX_SIZE" by (rule control_msg_wire_length [OF assms(3)])
  have "hd w = ucast (sc_control_msg_type msg)" "w \<noteq> []"
    using control_msg_wire_head [OF assms(3,2)] by auto
  with n assms(1) show ?thesis
    by (simp add: serialize_wire [OF assms(1,2)] assms(3) take_mem_put_0 drop_mem_put)
qed

lemma serialize_stays_in_buffer_witness:
  "\<exists>buf'. sc_control_msg_serialize (RESIZE_DISPLAY 1920 1080)
        (replicate SC_CONTROL_MSG_MAX_SIZE 0) =
      Some (buf', length [21 :: u8, 7, 128, 4, 56]) \<and>
    length buf' = length (replicate SC_CONTROL_MSG_MAX_SIZE (0 :: u8)) \<and>
    take (length [21 :: u8, 7, 128, 4, 56]) buf' = [21, 7, 128, 4, 56] \<and>
    drop (length [21 :: u8, 7, 128, 4, 56]) buf' =
      drop (length [21 :: u8, 7, 128, 4, 56]) (replicate SC_CONTROL_MSG_MAX_SIZE 0) \<and>
    0 < length [21 :: u8, 7, 128, 4, 56] \<and>
    length [21 :: u8, 7, 128, 4, 56] \<le> SC_CONTROL_MSG_MAX_SIZE \<and>
    hd [21 :: u8, 7, 128, 4, 56] = ucast (sc_control_msg_type (RESIZE_DISPLAY 1920 1080))"
  by (rule serialize_stays_in_buffer)
    (simp_all add: known_type_def control_msg_wire_def payload_wire_def sc_write16be_def)

text \<open>
  The only messages whose serialization can abort are those with a text that is not UTF-8, a
  size that is larger than its data, or a pressure or scroll amount the fixed-point conversion does
  not accept: a message without text, data, pressure or scroll is always serialized.
\<close>

theorem serialize_defined:
  assumes "SC_CONTROL_MSG_MAX_SIZE \<le> length buf" "known_type msg"
  shows "sc_control_msg_serialize msg buf \<noteq> None \<longleftrightarrow>
    (case msg of
       INJECT_TEXT t \<Rightarrow> sent_text t SC_CONTROL_MSG_INJECT_TEXT_MAX_LENGTH \<noteq> None
     | INJECT_TOUCH_EVENT _ _ _ _ _ p \<Rightarrow> sc_float_to_u16fp p \<noteq> None
     | INJECT_SCROLL_EVENT _ h v _ \<Rightarrow>
         sc_float_to_i16fp (c_clamp (h / 16) (-1) 1) \<noteq> None \<and>
         sc_float_to_i16fp (c_clamp (v / 16) (-1) 1) \<noteq> None
     | SET_CLIPBOARD _ t _ \<Rightarrow> sent_text t SC_CONTROL_MSG_CLIPBOARD_TEXT_MAX_LENGTH \<noteq> None
     | UHID_CREATE _ _ _ t n d \<Rightarrow> sent_text t 127 \<noteq> None \<and> unat n \<le> length d
     | UHID_INPUT _ n d \<Rightarrow> unat n \<le> length d
     | START_APP t \<Rightarrow> sent_text t 255 \<noteq> None
     | _ \<Rightarrow> True)"
  unfolding serialize_wire [OF assms]
  using assms(2)
  by (cases msg)
    (auto simp: control_msg_wire_def payload_wire_def known_type_def mem_read_def
      split: bind_splits)

lemma serialize_defined_witness:
  "sc_control_msg_serialize (UHID_INPUT 1 2 [0, 0, 0]) (replicate SC_CONTROL_MSG_MAX_SIZE 0) \<noteq> None"
  by (subst serialize_defined) (simp_all add: known_type_def)

text \<open>
  Only the creation and the destruction of a UHID device may not be dropped; in particular all the
  messages that carry owned memory may be dropped.
\<close>

theorem droppable_messages:
  "known_type msg \<Longrightarrow>
     (sc_control_msg_is_droppable msg \<longleftrightarrow>
       (case msg of UHID_CREATE _ _ _ _ _ _ \<Rightarrow> False | UHID_DESTROY _ \<Rightarrow> False | _ \<Rightarrow> True)) \<and>
     (sc_control_msg_destroy msg \<noteq> [] \<longrightarrow> sc_control_msg_is_droppable msg)"
  by (cases msg) (simp_all add: sc_control_msg_is_droppable_def sc_control_msg_destroy_def
      known_type_def)

lemma droppable_messages_witness:
  "\<not> sc_control_msg_is_droppable (UHID_DESTROY 2) \<and> sc_control_msg_is_droppable (START_APP None)"
  using droppable_messages [of "UHID_DESTROY 2"] droppable_messages [of "START_APP None"]
  by (simp add: known_type_def)

end
