(* ===== verification/Sc_Framing.thy ===== *)
theory Sc_Framing
  imports Sc_Prelude
begin

text \<open>
  The contract of a self-delimiting message format on a byte stream, shared by the control messages
  (written by the client, read by the server) and the device messages (written by the server, read
  by the client).

  \<open>dec bs = Some (v, n)\<close> means that the first \<open>n\<close> bytes of \<open>bs\<close> are one message \<open>v\<close>; \<open>None\<close> that
  no complete message is there. \<open>drain\<close> is the loop that takes messages as long as it can.
\<close>

function drain :: "(bytes \<Rightarrow> ('v \<times> nat) option) \<Rightarrow> bytes \<Rightarrow> 'v list \<times> bytes" where
  "drain dec bs =
     (case dec bs of
        None \<Rightarrow> ([], bs)
      | Some (v, n) \<Rightarrow>
          if 0 < n \<and> n \<le> length bs
          then (let (vs, rest) = drain dec (drop n bs) in (v # vs, rest))
          else ([], bs))"
  by pat_completeness auto

termination
  by (relation "measure (\<lambda>(dec, bs). length bs)") auto

declare drain.simps [simp del]

text \<open>Receiving chunk after chunk: what is left is kept in front of the next chunk.\<close>

fun drain_chunks ::
    "(bytes \<Rightarrow> ('v \<times> nat) option) \<Rightarrow> bytes \<Rightarrow> bytes list \<Rightarrow> 'v list \<times> bytes" where
  "drain_chunks dec pending [] = ([], pending)"
| "drain_chunks dec pending (c # cs) =
     (let (vs, rest) = drain dec (pending @ c);
          (vs', rest') = drain_chunks dec rest cs
      in (vs @ vs', rest'))"

locale framed_decoder =
  fixes dec :: "bytes \<Rightarrow> ('v \<times> nat) option"
  assumes dec_append: "dec p = Some (v, n) \<Longrightarrow> dec (p @ q) = Some (v, n)"
    and dec_pos: "dec p = Some (v, n) \<Longrightarrow> 0 < n"
    and dec_le: "dec p = Some (v, n) \<Longrightarrow> n \<le> length p"
begin

lemma drain_None [simp]: "dec bs = None \<Longrightarrow> drain dec bs = ([], bs)"
  by (simp add: drain.simps)

lemma drain_Some:
  "dec bs = Some (v, n) \<Longrightarrow>
     drain dec bs = (v # fst (drain dec (drop n bs)), snd (drain dec (drop n bs)))"
  using dec_pos [of bs v n] dec_le [of bs v n] by (subst drain.simps) (simp add: split_def Let_def)

lemma dec_Nil: "dec [] = None"
  using dec_pos [of "[]"] dec_le [of "[]"] by (cases "dec []") fastforce+

text \<open>What is left is a suffix.\<close>

lemma drain_suffix: "\<exists>p. bs = p @ snd (drain dec bs)"
proof (induction "length bs" arbitrary: bs rule: less_induct)
  case less
  show ?case
  proof (cases "dec bs")
    case (Some r)
    obtain v n where r: "r = (v, n)" by (cases r)
    with Some have d: "dec bs = Some (v, n)" by simp
    note n = dec_pos [OF d] dec_le [OF d]
    then have "length (drop n bs) < length bs" by simp
    from less [OF this] obtain p where "drop n bs = p @ snd (drain dec (drop n bs))"
      by blast
    then have "bs = (take n bs @ p) @ snd (drain dec (drop n bs))"
      by (metis append.assoc append_take_drop_id)
    then show ?thesis
      unfolding drain_Some [OF d] snd_conv by (rule exI)
  qed simp
qed

lemma drain_drop:
  assumes "drain dec bs = (vs, rest)"
  shows "drop (length bs - length rest) bs = rest" "length rest \<le> length bs"
proof -
  obtain p where "bs = p @ rest" using drain_suffix [of bs] assms by auto
  then show "drop (length bs - length rest) bs = rest" "length rest \<le> length bs" by simp_all
qed

text \<open>Draining in two goes gives what draining at once gives.\<close>

lemma drain_append:
  "drain dec (p @ q) =
     (fst (drain dec p) @ fst (drain dec (snd (drain dec p) @ q)),
      snd (drain dec (snd (drain dec p) @ q)))"
proof (induction "length p" arbitrary: p rule: less_induct)
  case less
  show ?case
  proof (cases "dec p")
    case (Some r)
    obtain v n where r: "r = (v, n)" by (cases r)
    with Some have d: "dec p = Some (v, n)" by simp
    note n = dec_pos [OF d] dec_le [OF d]
    then have "length (drop n p) < length p" by simp
    note IH = less [OF this]
    show ?thesis
      using n by (simp add: drain_Some [OF d] drain_Some [OF dec_append [OF d]] IH)
  qed simp
qed

text \<open>Nothing is left to take after draining.\<close>

lemma drain_rest: "drain dec (snd (drain dec bs)) = ([], snd (drain dec bs))"
proof (induction "length bs" arbitrary: bs rule: less_induct)
  case less
  show ?case
  proof (cases "dec bs")
    case (Some r)
    obtain v n where r: "r = (v, n)" by (cases r)
    with Some have d: "dec bs = Some (v, n)" by simp
    note n = dec_pos [OF d] dec_le [OF d]
    with less [of "drop n bs"] show ?thesis by (simp add: drain_Some [OF d])
  qed simp
qed

text \<open>However the stream is cut into chunks, the same messages come out, in order.\<close>

lemma drain_chunks_eq:
  "snd (drain dec pending) = pending \<Longrightarrow> fst (drain dec pending) = [] \<Longrightarrow>
     drain_chunks dec pending cs = drain dec (pending @ concat cs)"
proof (induction cs arbitrary: pending)
  case (Cons c cs)
  let ?rest = "snd (drain dec (pending @ c))"
  have "drain dec ?rest = ([], ?rest)" by (rule drain_rest)
  then have "drain_chunks dec ?rest cs = drain dec (?rest @ concat cs)"
    by (intro Cons.IH) simp_all
  moreover have "drain dec (pending @ concat (c # cs)) =
      (fst (drain dec (pending @ c)) @ fst (drain dec (?rest @ concat cs)),
       snd (drain dec (?rest @ concat cs)))"
    using drain_append [of "pending @ c" "concat cs"] by simp
  ultimately show ?case by (simp add: split_def Let_def)
qed (simp add: prod_eq_iff)

end

text \<open>A decoder for what an encoder writes; \<open>view\<close> is what the receiver gets of a message.\<close>

locale framed_codec = framed_decoder dec
  for dec :: "bytes \<Rightarrow> ('v \<times> nat) option" +
  fixes enc :: "'m \<Rightarrow> bytes option"
    and view :: "'m \<Rightarrow> 'v"
  assumes dec_enc: "enc m = Some w \<Longrightarrow> dec w = Some (view m, length w)"
begin

lemma dec_enc_rest: "enc m = Some w \<Longrightarrow> dec (w @ rest) = Some (view m, length w)"
  by (rule dec_append [OF dec_enc])

text \<open>A strict prefix of a message is not a message: the format is self-delimiting.\<close>

lemma dec_partial:
  assumes "enc m = Some w" "k < length w"
  shows "dec (take k w) = None"
proof (rule ccontr)
  assume "dec (take k w) \<noteq> None"
  then obtain v n where d: "dec (take k w) = Some (v, n)" by auto
  from dec_append [OF d, of "drop k w"] dec_enc [OF assms(1)] have "n = length w" by simp
  with dec_le [OF d] assms(2) show False by simp
qed

text \<open>The receiver gets the messages that were sent, in order, and nothing else.\<close>

lemma drain_encoded:
  "list_all2 (\<lambda>m w. enc m = Some w) ms ws \<Longrightarrow> dec rest = None \<Longrightarrow>
     drain dec (concat ws @ rest) = (map view ms, rest)"
proof (induction ms arbitrary: ws)
  case (Cons m ms)
  then obtain w ws' where ws: "ws = w # ws'" "enc m = Some w"
    "list_all2 (\<lambda>m w. enc m = Some w) ms ws'"
    by (auto simp: list_all2_Cons1)
  with Cons.IH [OF ws(3) Cons.prems(2)] show ?case
    by (simp add: drain_Some [OF dec_enc_rest])
qed simp

text \<open>The same for a stream that stops in the middle of a message, in chunks of any size.\<close>

lemma drain_chunks_encoded:
  assumes ws: "list_all2 (\<lambda>m w. enc m = Some w) ms ws"
    and cut: "enc m = Some w" "k < length w"
    and cs: "concat cs = concat ws @ take k w"
  shows "drain_chunks dec [] cs = (map view ms, take k w)"
  using drain_chunks_eq [of "[]" cs] drain_encoded [OF ws dec_partial [OF cut]]
  by (simp add: dec_Nil cs)

text \<open>
  In the middle of such a stream: the complete messages have been taken, and what is left is a
  strict prefix of a message.
\<close>

lemma prefix_of_message:
  assumes "enc m = Some w" "p @ q = w @ r" "length p < length w"
  shows "dec p = None \<and> (\<exists>x. x \<noteq> [] \<and> w = p @ x)"
proof -
  have "p = take (length p) (p @ q)" by simp
  also have "\<dots> = take (length p) w" using assms(2,3) by simp
  finally have p: "p = take (length p) w" .
  with dec_partial [OF assms(1,3)] have "dec p = None" by simp
  moreover have "w = p @ drop (length p) w" using p by (metis append_take_drop_id)
  ultimately show ?thesis using assms(3) by (metis append_Nil2 less_irrefl)
qed

lemma drain_prefix:
  assumes "list_all2 (\<lambda>m w. enc m = Some w) ms ws" "enc m = Some w" "k < length w"
    and "p @ q = concat ws @ take k w"
  shows "\<exists>j \<le> length ms. \<exists>rest m' w' x. drain dec p = (map view (take j ms), rest) \<and>
    dec rest = None \<and> rest @ q = concat (drop j ws) @ take k w \<and>
    enc m' = Some w' \<and> x \<noteq> [] \<and> w' = rest @ x"
  using assms(1,4)
proof (induction ms arbitrary: ws p)
  case Nil
  then have pq: "p @ (q @ drop k w) = w @ []" by (metis append.assoc append_take_drop_id append_Nil2
      append_Nil concat.simps(1) list_all2_Nil)
  have "length (p @ q) = k" using Nil assms(3) by simp
  then have "length p < length w" using assms(3) by simp
  from prefix_of_message [OF assms(2) pq this] show ?case
    using Nil assms(2) by (intro exI [of _ 0]) auto
next
  case (Cons m1 ms)
  then obtain w1 ws' where ws: "ws = w1 # ws'" "enc m1 = Some w1"
    "list_all2 (\<lambda>m w. enc m = Some w) ms ws'"
    by (auto simp: list_all2_Cons1)
  show ?case
  proof (cases "length p < length w1")
    case True
    have pq: "p @ q = w1 @ (concat ws' @ take k w)" using Cons.prems ws by simp
    from prefix_of_message [OF ws(2) pq True] show ?thesis
      using Cons.prems ws by (intro exI [of _ 0]) auto
  next
    case False
    define p' where "p' = drop (length w1) p"
    have pq: "p @ q = w1 @ (concat ws' @ take k w)" using Cons.prems ws by simp
    have "take (length w1) p = w1"
      using arg_cong [OF pq, of "take (length w1)"] False by simp
    then have p: "p = w1 @ p'" unfolding p'_def by (metis append_take_drop_id)
    with pq have p': "p = w1 @ p'" "p' @ q = concat ws' @ take k w" by simp_all
    from Cons.IH [OF ws(3) p'(2)] obtain j rest m' w' x where
      "j \<le> length ms" "drain dec p' = (map view (take j ms), rest)" "dec rest = None"
      "rest @ q = concat (drop j ws') @ take k w" "enc m' = Some w'" "x \<noteq> []" "w' = rest @ x"
      by blast
    then show ?thesis
      by (intro exI [of _ "Suc j"]) (auto simp: ws p'(1) drain_Some [OF dec_enc_rest [OF ws(2)]])
  qed
qed

text \<open>Complete streams determine their messages up to the view.\<close>

lemma enc_stream_inj:
  assumes "list_all2 (\<lambda>m w. enc m = Some w) ms ws" "list_all2 (\<lambda>m w. enc m = Some w) ms' ws'"
    and "concat ws = concat ws'"
  shows "map view ms = map view ms'"
  using drain_encoded [OF assms(1) dec_Nil] drain_encoded [OF assms(2) dec_Nil] assms(3) by simp

end

end
