(* ===== verification/Sc_Control_Reader.thy ===== *)
theory Sc_Control_Reader
  imports Sc_Control_Msg Sc_Framing
begin

text \<open>
  The peer of the serializer: \<open>ControlMessageReader.java\<close> of the Android server, which parses the
  stream of control messages, and the proof that it reads back what the client wrote.

  A parser maps the bytes still in the stream to an exception or a value and the rest. A Java
  \<open>String\<close> is kept as the UTF-8 bytes it was decoded from.
\<close>

datatype read_error = EOFException | ControlProtocolException u8 | NegativeArraySizeException

type_synonym 'a reader = "bytes \<Rightarrow> read_error + 'a \<times> bytes"

definition rreturn :: "'a \<Rightarrow> 'a reader" where
  "rreturn a bs = Inr (a, bs)"

definition rbind :: "'a reader \<Rightarrow> ('a \<Rightarrow> 'b reader) \<Rightarrow> 'b reader" where
  "rbind m f bs = (case m bs of Inl e \<Rightarrow> Inl e | Inr (a, rest) \<Rightarrow> f a rest)"

section \<open>java.io.DataInputStream\<close>

definition readUnsignedByte :: "u8 reader" where
  "readUnsignedByte bs = (case bs of [] \<Rightarrow> Inl EOFException | b # rest \<Rightarrow> Inr (b, rest))"

definition readUnsignedShort :: "u16 reader" where
  "readUnsignedShort bs =
     (case sc_read16be bs of None \<Rightarrow> Inl EOFException | Some v \<Rightarrow> Inr (v, drop 2 bs))"

definition readInt :: "u32 reader" where
  "readInt bs =
     (case sc_read32be bs of None \<Rightarrow> Inl EOFException | Some v \<Rightarrow> Inr (v, drop 4 bs))"

definition readLong :: "u64 reader" where
  "readLong bs =
     (case sc_read64be bs of None \<Rightarrow> Inl EOFException | Some v \<Rightarrow> Inr (v, drop 8 bs))"

definition readBoolean :: "bool reader" where
  "readBoolean = rbind readUnsignedByte (\<lambda>b. rreturn (b \<noteq> 0))"

definition readFully :: "nat \<Rightarrow> bytes reader" where
  "readFully n bs =
     (if n \<le> length bs then Inr (take n bs, drop n bs) else Inl EOFException)"

section \<open>ControlMessage\<close>

text \<open>One constructor per factory method.\<close>

datatype ControlMessage =
    createInjectKeycode u8 u32 u32 u32
  | createInjectText bytes
  | createInjectTouchEvent u8 u64 sc_position rat u32 u32
  | createInjectScrollEvent sc_position rat rat u32
  | createBackOrScreenOn u8
  | createGetClipboard u8
  | createSetClipboard u64 bytes bool
  | createSetDisplayPower bool
  | createEmpty u8
  | createUhidCreate u16 u16 u16 bytes bytes
  | createUhidInput u16 bytes
  | createUhidDestroy u16
  | createStartApp bytes
  | createCameraSetTorch bool
  | createResizeDisplay u16 u16

section \<open>ControlMessageReader\<close>

text \<open>\<open>value = (value << 8) | dis.readUnsignedByte()\<close>, \<open>sizeBytes\<close> times.\<close>

fun parseBufferLength_loop :: "nat \<Rightarrow> u32 \<Rightarrow> u32 reader" where
  "parseBufferLength_loop 0 value = rreturn value"
| "parseBufferLength_loop (Suc n) value =
     rbind readUnsignedByte (\<lambda>b. parseBufferLength_loop n (push_bit 8 value OR ucast b))"

definition parseBufferLength :: "nat \<Rightarrow> u32 reader" where
  "parseBufferLength sizeBytes = parseBufferLength_loop sizeBytes 0"

definition parseByteArray :: "nat \<Rightarrow> bytes reader" where
  "parseByteArray sizeBytes =
     rbind (parseBufferLength sizeBytes) (\<lambda>len.
       if sint len < 0 then (\<lambda>_. Inl NegativeArraySizeException)
       else readFully (unat len))"

definition parseString :: "nat \<Rightarrow> bytes reader" where
  "parseString sizeBytes = parseByteArray sizeBytes"

definition parsePosition :: "sc_position reader" where
  "parsePosition =
     rbind readInt (\<lambda>x. rbind readInt (\<lambda>y.
     rbind readUnsignedShort (\<lambda>screenWidth. rbind readUnsignedShort (\<lambda>screenHeight.
     rreturn \<lparr>screen_size = \<lparr>width = screenWidth, height = screenHeight\<rparr>,
              point = \<lparr>pt_x = x, pt_y = y\<rparr>\<rparr>))))"

definition parseInjectKeycode :: "ControlMessage reader" where
  "parseInjectKeycode =
     rbind readUnsignedByte (\<lambda>action. rbind readInt (\<lambda>keycode.
     rbind readInt (\<lambda>repeat. rbind readInt (\<lambda>metaState.
     rreturn (createInjectKeycode action keycode repeat metaState)))))"

definition parseInjectText :: "ControlMessage reader" where
  "parseInjectText = rbind (parseString 4) (\<lambda>text. rreturn (createInjectText text))"

definition parseInjectTouchEvent :: "ControlMessage reader" where
  "parseInjectTouchEvent =
     rbind readUnsignedByte (\<lambda>action. rbind readLong (\<lambda>pointerId.
     rbind parsePosition (\<lambda>position. rbind readUnsignedShort (\<lambda>pressure.
     rbind readInt (\<lambda>actionButton. rbind readInt (\<lambda>buttons.
     rreturn (createInjectTouchEvent action pointerId position
       (u16FixedPointToFloat pressure) actionButton buttons)))))))"

definition parseInjectScrollEvent :: "ControlMessage reader" where
  "parseInjectScrollEvent =
     rbind parsePosition (\<lambda>position.
     rbind readUnsignedShort (\<lambda>hScroll. rbind readUnsignedShort (\<lambda>vScroll.
     rbind readInt (\<lambda>buttons.
     rreturn (createInjectScrollEvent position (i16FixedPointToFloat hScroll * 16)
       (i16FixedPointToFloat vScroll * 16) buttons)))))"

definition parseBackOrScreenOnEvent :: "ControlMessage reader" where
  "parseBackOrScreenOnEvent =
     rbind readUnsignedByte (\<lambda>action. rreturn (createBackOrScreenOn action))"

definition parseGetClipboard :: "ControlMessage reader" where
  "parseGetClipboard = rbind readUnsignedByte (\<lambda>copyKey. rreturn (createGetClipboard copyKey))"

definition parseSetClipboard :: "ControlMessage reader" where
  "parseSetClipboard =
     rbind readLong (\<lambda>sequence. rbind readUnsignedByte (\<lambda>paste.
     rbind (parseString 4) (\<lambda>text. rreturn (createSetClipboard sequence text (paste \<noteq> 0)))))"

definition parseSetDisplayPower :: "ControlMessage reader" where
  "parseSetDisplayPower = rbind readBoolean (\<lambda>on. rreturn (createSetDisplayPower on))"

definition parseUhidCreate :: "ControlMessage reader" where
  "parseUhidCreate =
     rbind readUnsignedShort (\<lambda>i. rbind readUnsignedShort (\<lambda>vendorId.
     rbind readUnsignedShort (\<lambda>productId. rbind (parseString 1) (\<lambda>name.
     rbind (parseByteArray 2) (\<lambda>data.
     rreturn (createUhidCreate i vendorId productId name data))))))"

definition parseUhidInput :: "ControlMessage reader" where
  "parseUhidInput =
     rbind readUnsignedShort (\<lambda>i. rbind (parseByteArray 2) (\<lambda>data.
     rreturn (createUhidInput i data)))"

definition parseUhidDestroy :: "ControlMessage reader" where
  "parseUhidDestroy = rbind readUnsignedShort (\<lambda>i. rreturn (createUhidDestroy i))"

definition parseStartApp :: "ControlMessage reader" where
  "parseStartApp = rbind (parseString 1) (\<lambda>name. rreturn (createStartApp name))"

definition parseCameraSetTorch :: "ControlMessage reader" where
  "parseCameraSetTorch = rbind readBoolean (\<lambda>on. rreturn (createCameraSetTorch on))"

definition parseResizeDisplay :: "ControlMessage reader" where
  "parseResizeDisplay =
     rbind readUnsignedShort (\<lambda>w. rbind readUnsignedShort (\<lambda>h.
     rreturn (createResizeDisplay w h)))"

definition parse_message :: "u8 \<Rightarrow> ControlMessage reader" where
  "parse_message type =
     (if type = 0 then parseInjectKeycode
      else if type = 1 then parseInjectText
      else if type = 2 then parseInjectTouchEvent
      else if type = 3 then parseInjectScrollEvent
      else if type = 4 then parseBackOrScreenOnEvent
      else if type = 8 then parseGetClipboard
      else if type = 9 then parseSetClipboard
      else if type = 10 then parseSetDisplayPower
      else if type \<in> {5, 6, 7, 11, 15, 17, 19, 20} then rreturn (createEmpty type)
      else if type = 12 then parseUhidCreate
      else if type = 13 then parseUhidInput
      else if type = 14 then parseUhidDestroy
      else if type = 16 then parseStartApp
      else if type = 18 then parseCameraSetTorch
      else if type = 21 then parseResizeDisplay
      else (\<lambda>_. Inl (ControlProtocolException type)))"

definition read_message :: "ControlMessage reader" where
  "read_message = rbind readUnsignedByte parse_message"

section \<open>What the server gets of a message\<close>

definition text_view :: "bytes option \<Rightarrow> nat \<Rightarrow> bytes" where
  "text_view s m = the (sent_text s m)"

definition scroll_view :: "rat \<Rightarrow> rat" where
  "scroll_view s = i16FixedPointToFloat (the (sc_float_to_i16fp (c_clamp (s / 16) (-1) 1))) * 16"

definition control_msg_view :: "sc_control_msg \<Rightarrow> ControlMessage" where
  "control_msg_view msg =
     (case msg of
        INJECT_KEYCODE action keycode repeat metastate \<Rightarrow>
          createInjectKeycode (ucast action) keycode repeat metastate
      | INJECT_TEXT text \<Rightarrow>
          createInjectText (text_view text SC_CONTROL_MSG_INJECT_TEXT_MAX_LENGTH)
      | INJECT_TOUCH_EVENT action action_button buttons pointer_id position pressure \<Rightarrow>
          createInjectTouchEvent (ucast action) pointer_id position
            (u16FixedPointToFloat (the (sc_float_to_u16fp pressure))) action_button buttons
      | INJECT_SCROLL_EVENT position hscroll vscroll buttons \<Rightarrow>
          createInjectScrollEvent position (scroll_view hscroll) (scroll_view vscroll) buttons
      | BACK_OR_SCREEN_ON action \<Rightarrow> createBackOrScreenOn (ucast action)
      | GET_CLIPBOARD copy_key \<Rightarrow> createGetClipboard (ucast (sc_copy_key_value copy_key))
      | SET_CLIPBOARD sequence text paste \<Rightarrow>
          createSetClipboard sequence (text_view text SC_CONTROL_MSG_CLIPBOARD_TEXT_MAX_LENGTH) paste
      | SET_DISPLAY_POWER on \<Rightarrow> createSetDisplayPower on
      | UHID_CREATE dev_id vendor_id product_id name report_desc_size report_desc \<Rightarrow>
          createUhidCreate dev_id vendor_id product_id (text_view name 127)
            (take (unat report_desc_size) report_desc)
      | UHID_INPUT dev_id n data \<Rightarrow> createUhidInput dev_id (take (unat n) data)
      | UHID_DESTROY dev_id \<Rightarrow> createUhidDestroy dev_id
      | START_APP name \<Rightarrow> createStartApp (text_view name 255)
      | CAMERA_SET_TORCH on \<Rightarrow> createCameraSetTorch on
      | RESIZE_DISPLAY w h \<Rightarrow> createResizeDisplay w h
      | _ \<Rightarrow> createEmpty (ucast (sc_control_msg_type msg)))"

section \<open>Parsers are local\<close>

text \<open>A parser that succeeds looks at what it consumes only, and consumes a prefix.\<close>

definition local_reader :: "'a reader \<Rightarrow> bool" where
  "local_reader m \<longleftrightarrow>
     (\<forall>p a r. m p = Inr (a, r) \<longrightarrow> length r \<le> length p \<and> (\<forall>q. m (p @ q) = Inr (a, r @ q)))"

named_theorems local_reader_intros

lemma local_reader_return [local_reader_intros]: "local_reader (rreturn a)"
  by (simp add: local_reader_def rreturn_def)

lemma local_reader_fail [local_reader_intros]: "local_reader (\<lambda>_. Inl e)"
  by (simp add: local_reader_def)

lemma local_reader_bind [local_reader_intros]:
  assumes "local_reader m" "\<And>a. local_reader (f a)"
  shows "local_reader (rbind m f)"
  using assms by (fastforce simp: local_reader_def rbind_def split: sum.splits)

lemma local_reader_byte [local_reader_intros]: "local_reader readUnsignedByte"
  by (auto simp: local_reader_def readUnsignedByte_def split: list.splits)

lemma local_reader_short [local_reader_intros]: "local_reader readUnsignedShort"
  by (auto simp: local_reader_def readUnsignedShort_def sc_read_SomeD split: option.splits)

lemma local_reader_int [local_reader_intros]: "local_reader readInt"
  by (auto simp: local_reader_def readInt_def sc_read_SomeD split: option.splits)

lemma local_reader_long [local_reader_intros]: "local_reader readLong"
  by (auto simp: local_reader_def readLong_def sc_read_SomeD split: option.splits)

lemma local_reader_fully [local_reader_intros]: "local_reader (readFully n)"
  by (auto simp: local_reader_def readFully_def split: if_splits)

lemma local_reader_boolean [local_reader_intros]: "local_reader readBoolean"
  unfolding readBoolean_def by (intro local_reader_intros)

lemma local_reader_length [local_reader_intros]: "local_reader (parseBufferLength n)"
proof -
  have "local_reader (parseBufferLength_loop n v)" for v
    by (induction n arbitrary: v) (auto intro!: local_reader_intros)
  then show ?thesis by (simp add: parseBufferLength_def)
qed

lemma local_reader_bytes [local_reader_intros]: "local_reader (parseByteArray n)"
  unfolding parseByteArray_def by (auto intro!: local_reader_intros)

lemma local_reader_string [local_reader_intros]: "local_reader (parseString n)"
  unfolding parseString_def by (intro local_reader_intros)

lemma local_reader_position [local_reader_intros]: "local_reader parsePosition"
  unfolding parsePosition_def by (intro local_reader_intros)

lemmas parser_defs =
  parseInjectKeycode_def parseInjectText_def parseInjectTouchEvent_def parseInjectScrollEvent_def
  parseBackOrScreenOnEvent_def parseGetClipboard_def parseSetClipboard_def
  parseSetDisplayPower_def parseUhidCreate_def parseUhidInput_def parseUhidDestroy_def
  parseStartApp_def parseCameraSetTorch_def parseResizeDisplay_def

lemma local_reader_parse [local_reader_intros]: "local_reader (parse_message t)"
  unfolding parse_message_def parser_defs
  by (simp add: local_reader_intros)

lemma local_reader_message: "local_reader read_message"
  unfolding read_message_def by (intro local_reader_intros)

section \<open>Parsing what was written\<close>

lemma rbind_Inr [simp]: "m bs = Inr (a, rest) \<Longrightarrow> rbind m f bs = f a rest"
  by (simp add: rbind_def)

lemma rreturn_apply [simp]: "rreturn a bs = Inr (a, bs)"
  by (simp add: rreturn_def)

lemma readUnsignedByte_Cons [simp]: "readUnsignedByte (b # rest) = Inr (b, rest)"
  by (simp add: readUnsignedByte_def)

lemma readUnsignedShort_write [simp]: "readUnsignedShort (sc_write16be v @ rest) = Inr (v, rest)"
  by (simp add: readUnsignedShort_def)

lemma readInt_write [simp]: "readInt (sc_write32be v @ rest) = Inr (v, rest)"
  by (simp add: readInt_def)

lemma readLong_write [simp]: "readLong (sc_write64be v @ rest) = Inr (v, rest)"
  by (simp add: readLong_def)

lemma readBoolean_write [simp]: "readBoolean (bool_byte b # rest) = Inr (b, rest)"
  by (simp add: readBoolean_def bool_byte_def)

lemma bool_byte_neq_0 [simp]: "bool_byte b \<noteq> 0 \<longleftrightarrow> b"
  by (simp add: bool_byte_def)

lemma readFully_write [simp]: "length t = n \<Longrightarrow> readFully n (t @ rest) = Inr (t, rest)"
  by (simp add: readFully_def)

lemma readPosition_write [simp]: "parsePosition (position_wire p @ rest) = Inr (p, rest)"
  by (simp add: parsePosition_def position_wire_def)

lemma parseBufferLength_1 [simp]: "parseBufferLength (Suc 0) (b # rest) = Inr (ucast b, rest)"
  by (simp add: parseBufferLength_def)

lemma parseBufferLength_2 [simp]:
  "parseBufferLength 2 (sc_write16be v @ rest) = Inr (ucast v, rest)"
proof -
  have "push_bit 8 (ucast (ucast (drop_bit 8 v) :: u8)) OR ucast (ucast v :: u8) = (ucast v :: u32)"
    by (rule bit_word_eqI) (auto simp: bit_simps dest: bit_imp_le_length)
  then show ?thesis by (simp add: parseBufferLength_def numeral_eq_Suc sc_write16be_def)
qed

lemma parseBufferLength_4 [simp]: "parseBufferLength 4 (sc_write32be v @ rest) = Inr (v, rest)"
proof -
  have "parseBufferLength 4 (b0 # b1 # b2 # b3 # rest) =
      Inr (the (sc_read32be (b0 # b1 # b2 # b3 # rest)), rest)" for b0 b1 b2 b3
    by (simp add: parseBufferLength_def numeral_eq_Suc push_bit_or ac_simps)
  then have "parseBufferLength 4 (sc_write32be v @ rest) =
      Inr (the (sc_read32be (sc_write32be v @ rest)), rest)"
    by (simp add: sc_write32be_def del: sc_read32be.simps)
  then show ?thesis by simp
qed

lemma parseByteArray_write:
  assumes "parseBufferLength k (h @ t @ rest) = Inr (of_nat (length t), t @ rest)"
    and "length t < 2 ^ 31"
  shows "parseByteArray k (h @ t @ rest) = Inr (t, rest)"
  using assms
  by (simp add: parseByteArray_def sint_u32_small unsigned_of_nat take_bit_nat_eq_self)

lemma parseString_4 [simp]:
  "length t < 2 ^ 31 \<Longrightarrow> parseString 4 (string_wire t @ rest) = Inr (t, rest)"
  by (simp add: parseString_def string_wire_def parseByteArray_write)

lemma parseString_1 [simp]:
  assumes "length t \<le> 255"
  shows "parseString (Suc 0) (string_tiny_wire t @ rest) = Inr (t, rest)"
proof -
  have "(ucast (of_nat (length t) :: u8) :: u32) = of_nat (length t)"
    using assms by (simp add: unsigned_of_nat take_bit_nat_eq_self)
  then show ?thesis
    using parseByteArray_write [of "Suc 0" "[of_nat (length t)]" t rest] assms
    by (simp add: parseString_def string_tiny_wire_def)
qed

lemma parseByteArray_2 [simp]:
  assumes "length t = unat (n :: u16)"
  shows "parseByteArray 2 (sc_write16be n @ t @ rest) = Inr (t, rest)"
proof (rule parseByteArray_write)
  have "(ucast n :: u32) = of_nat (unat n)" by simp
  then show "parseBufferLength 2 (sc_write16be n @ t @ rest) = Inr (of_nat (length t), t @ rest)"
    using assms by simp
  show "length t < 2 ^ 31" using unat_u16 [of n] assms by simp
qed

lemma sent_text_view:
  "sent_text s m = Some t \<Longrightarrow> length t \<le> m \<and> the (sent_text s m) = t"
  by (simp add: sent_text_length)

text \<open>The server reads back every message that the client can send, and leaves the rest alone.\<close>

lemma read_message_wire:
  assumes "known_type msg" "control_msg_wire msg = Some w"
  shows "read_message (w @ rest) = Inr (control_msg_view msg, rest)"
proof -
  obtain p where p: "payload_wire msg = Some p" and w: "w = ucast (sc_control_msg_type msg) # p"
    using control_msg_wire_head [OF assms(2,1)] by auto
  show ?thesis
    by (cases msg)
     (use p assms in \<open>auto simp: w payload_wire_def known_type_def read_message_def parse_message_def parser_defs
      control_msg_view_def text_view_def scroll_view_def control_msg_sizes mem_read_def
      dest!: sent_text_view split: bind_splits if_splits\<close>)
qed

section \<open>The control stream is a framed codec\<close>

definition control_dec :: "bytes \<Rightarrow> (ControlMessage \<times> nat) option" where
  "control_dec bs =
     (case read_message bs of
        Inl _ \<Rightarrow> None
      | Inr (v, rest) \<Rightarrow> Some (v, length bs - length rest))"

definition control_enc :: "sc_control_msg \<Rightarrow> bytes option" where
  "control_enc msg = (if known_type msg then control_msg_wire msg else None)"

lemma read_message_shorter: "read_message bs = Inr (v, rest) \<Longrightarrow> length rest < length bs"
proof -
  assume r: "read_message bs = Inr (v, rest)"
  then obtain t bs' where bs: "bs = t # bs'" "parse_message t bs' = Inr (v, rest)"
    by (cases bs) (auto simp: read_message_def rbind_def readUnsignedByte_def)
  with local_reader_parse [of t] have "length rest \<le> length bs'"
    by (auto simp: local_reader_def)
  with bs show ?thesis by simp
qed

interpretation control_stream: framed_codec control_dec control_enc control_msg_view
proof unfold_locales
  fix p q :: bytes and v n
  assume "control_dec p = Some (v, n)"
  then obtain r where r: "read_message p = Inr (v, r)" "n = length p - length r"
    by (auto simp: control_dec_def split: sum.splits)
  with local_reader_message have "read_message (p @ q) = Inr (v, r @ q)" "length r \<le> length p"
    by (auto simp: local_reader_def)
  with r show "control_dec (p @ q) = Some (v, n)" "n \<le> length p"
    by (simp_all add: control_dec_def)
  from r read_message_shorter [OF r(1)] show "0 < n" by simp
next
  fix m w
  assume "control_enc m = Some w"
  then show "control_dec w = Some (control_msg_view m, length w)"
    using read_message_wire [of m w "[]"]
    by (simp add: control_enc_def control_dec_def split: if_splits)
qed

section \<open>Properties\<close>



text \<open>
  One message, end to end: the server reads back what the serializer left in the buffer of the
  client, and the bytes behind it are left in the stream.
\<close>

theorem serialize_then_read:
  assumes "SC_CONTROL_MSG_MAX_SIZE \<le> length buf" "known_type msg"
    and "sc_control_msg_serialize msg buf = Some (buf', n)"
  shows "read_message (take n buf' @ rest) = Inr (control_msg_view msg, rest)"
proof -
  obtain w where w: "control_msg_wire msg = Some w" "buf' = mem_put buf 0 w" "n = length w"
    using assms(3) by (auto simp: serialize_wire [OF assms(1,2)] split: bind_splits)
  then show ?thesis
    using read_message_wire [OF assms(2) w(1), of rest] by (simp add: take_mem_put_0)
qed

lemma serialize_then_read_witness:
  "read_message (take 2 (mem_put (replicate SC_CONTROL_MSG_MAX_SIZE 0) 0 [10, 1]) @ [7]) =
     Inr (createSetDisplayPower True, [7])"
  using serialize_then_read [of "replicate SC_CONTROL_MSG_MAX_SIZE 0" "SET_DISPLAY_POWER True"
      "mem_put (replicate SC_CONTROL_MSG_MAX_SIZE 0) 0 [10, 1]" 2 "[7]"]
  by (simp add: known_type_def serialize_wire control_msg_wire_def payload_wire_def bool_byte_def
      control_msg_view_def)

end
