(* ===== verification/Sc_Device_Msg.thy ===== *)
theory Sc_Device_Msg
  imports Sc_Binary Sc_Str Sc_Framing
begin

text \<open>
  \<open>device_msg.h\<close>, \<open>device_msg.c\<close>: the messages the device sends back, as the client parses them out
  of its receive buffer; and \<open>DeviceMessageWriter.java\<close>, the code of the server that writes them.

  The result of a deserialization is the \<open>ssize_t\<close> of the source (\<open>0\<close>: no complete message,
  \<open>-1\<close>: error, otherwise the bytes consumed) and the message, when there is one. \<open>malloc_ok n\<close>
  tells whether allocating \<open>n\<close> bytes succeeds. The only \<open>size_t\<close> subtraction, \<open>len - 5\<close>, stands
  behind the guard \<open>len < 5\<close>, so that it cannot wrap around.
\<close>

definition DEVICE_MSG_MAX_SIZE :: nat where
  "DEVICE_MSG_MAX_SIZE = 2 ^ 18"

definition DEVICE_MSG_TEXT_MAX_LENGTH :: nat where
  "DEVICE_MSG_TEXT_MAX_LENGTH = DEVICE_MSG_MAX_SIZE - 5"

text \<open>The text buffer of a clipboard message includes its final NUL.\<close>

datatype sc_device_msg =
    CLIPBOARD (cb_text: bytes)
  | ACK_CLIPBOARD (ack_sequence: u64)
  | UHID_OUTPUT (uo_id: u16) (uo_size: u16) (uo_data: bytes)

definition sc_device_msg_deserialize ::
    "(nat \<Rightarrow> bool) \<Rightarrow> bytes \<Rightarrow> (int \<times> sc_device_msg option) option" where
  "sc_device_msg_deserialize malloc_ok buf =
     (let len = length buf in
      if len = 0 then Some (0, None)
      else do {
        type \<leftarrow> arr_get buf 0;
        if type = 0 then
          if len < 5 then Some (0, None)
          else do {
            clipboard_len \<leftarrow> map_option unat (sc_read32be (drop 1 buf));
            if clipboard_len > len - 5 then Some (0, None)
            else if \<not> malloc_ok (clipboard_len + 1) then Some (-1, None)
            else do {
              text \<leftarrow> (if clipboard_len \<noteq> 0 then mem_read buf 5 clipboard_len else Some []);
              Some (5 + int clipboard_len, Some (CLIPBOARD (text @ [0])))
            }
          }
        else if type = 1 then
          if len < 9 then Some (0, None)
          else do {
            sequence \<leftarrow> sc_read64be (drop 1 buf);
            Some (9, Some (ACK_CLIPBOARD sequence))
          }
        else if type = 2 then
          if len < 5 then Some (0, None)
          else do {
            dev_id \<leftarrow> sc_read16be (drop 1 buf);
            n \<leftarrow> sc_read16be (drop 3 buf);
            if unat n > len - 5 then Some (0, None)
            else if \<not> malloc_ok (unat n) then Some (-1, None)
            else do {
              data \<leftarrow> (if n \<noteq> 0 then mem_read buf 5 (unat n) else Some []);
              Some (5 + int (unat n), Some (UHID_OUTPUT dev_id n data))
            }
          }
        else Some (-1, None)
      })"

text \<open>The heap blocks that destroying a message frees.\<close>

definition sc_device_msg_destroy :: "sc_device_msg \<Rightarrow> bytes list" where
  "sc_device_msg_destroy msg =
     (case msg of
        CLIPBOARD text \<Rightarrow> [text]
      | UHID_OUTPUT _ _ data \<Rightarrow> [data]
      | ACK_CLIPBOARD _ \<Rightarrow> [])"

section \<open>The writer of the server\<close>

datatype DeviceMessage =
    createClipboard bytes
  | createAckClipboard u64
  | createUhidOutput u16 bytes
  | createUnknown u8

definition CLIPBOARD_TEXT_MAX_LENGTH :: nat where
  "CLIPBOARD_TEXT_MAX_LENGTH = 2 ^ 18 - 5"

definition getUtf8TruncationIndex :: "bytes \<Rightarrow> nat \<Rightarrow> nat option" where
  "getUtf8TruncationIndex utf8 maxLength =
     (if length utf8 \<le> maxLength then Some (length utf8) else utf8_back utf8 maxLength)"

text \<open>\<open>None\<close>: an exception. \<open>writeShort(data.length)\<close> keeps the low 16 bits.\<close>

definition write_device_message :: "DeviceMessage \<Rightarrow> bytes option" where
  "write_device_message msg =
     (case msg of
        createClipboard raw \<Rightarrow> do {
          len \<leftarrow> getUtf8TruncationIndex raw CLIPBOARD_TEXT_MAX_LENGTH;
          Some ([0] @ sc_write32be (of_nat len) @ take len raw)
        }
      | createAckClipboard sequence \<Rightarrow> Some ([1] @ sc_write64be sequence)
      | createUhidOutput dev_id data \<Rightarrow>
          Some ([2] @ sc_write16be dev_id @ sc_write16be (of_nat (length data)) @ data)
      | createUnknown _ \<Rightarrow> None)"

section \<open>Parsing\<close>

text \<open>
  With enough memory: the parser never reads outside the buffer, and it only depends on the bytes
  it consumes.
\<close>

definition device_dec :: "bytes \<Rightarrow> (sc_device_msg \<times> nat) option" where
  "device_dec buf =
     (case sc_device_msg_deserialize (\<lambda>_. True) buf of
        Some (r, Some msg) \<Rightarrow> Some (msg, nat r)
      | _ \<Rightarrow> None)"

text \<open>A type byte the parser does not know.\<close>

definition bad_type :: "bytes \<Rightarrow> bool" where
  "bad_type buf \<longleftrightarrow> buf \<noteq> [] \<and> hd buf \<noteq> 0 \<and> hd buf \<noteq> 1 \<and> hd buf \<noteq> 2"

lemma device_msg_cases [case_names empty clipboard ack uhid bad]:
  assumes "buf = [] \<Longrightarrow> P"
    and "\<And>bs. buf = 0 # bs \<Longrightarrow> P" and "\<And>bs. buf = 1 # bs \<Longrightarrow> P" and "\<And>bs. buf = 2 # bs \<Longrightarrow> P"
    and "bad_type buf \<Longrightarrow> P"
  shows P
  using assms by (cases buf) (auto simp: bad_type_def)

text \<open>The parser, case by case.\<close>

lemma deserialize_Nil: "sc_device_msg_deserialize ok [] = Some (0, None)"
  by (simp add: sc_device_msg_deserialize_def)

lemma deserialize_bad: "bad_type buf \<Longrightarrow> sc_device_msg_deserialize ok buf = Some (-1, None)"
  by (cases buf) (auto simp: sc_device_msg_deserialize_def bad_type_def)

lemma deserialize_clipboard:
  shows "sc_device_msg_deserialize ok (0 # bs) =
    (case sc_read32be bs of
       None \<Rightarrow> Some (0, None)
     | Some n \<Rightarrow>
         if 4 + unat n \<le> length bs then
           if ok (unat n + 1)
           then Some (5 + int (unat n), Some (CLIPBOARD (take (unat n) (drop 4 bs) @ [0])))
           else Some (-1, None)
         else Some (0, None))"
proof (cases "sc_read32be bs")
  case None
  then have "length bs < 4" using sc_read32be_Some [of bs] by fastforce
  with None show ?thesis by (simp add: sc_device_msg_deserialize_def)
next
  case (Some n)
  then have "4 \<le> length bs" by (rule sc_read_SomeD)
  with Some show ?thesis
    by (auto simp: sc_device_msg_deserialize_def)
qed

lemma deserialize_ack:
  "sc_device_msg_deserialize ok (1 # bs) =
    (case sc_read64be bs of
       None \<Rightarrow> Some (0, None)
     | Some s \<Rightarrow> Some (9, Some (ACK_CLIPBOARD s)))"
proof (cases "sc_read64be bs")
  case None
  then have "length bs < 8" using sc_read64be_Some [of bs] by fastforce
  with None show ?thesis by (simp add: sc_device_msg_deserialize_def)
next
  case (Some n)
  then have "8 \<le> length bs" by (rule sc_read_SomeD)
  with Some show ?thesis
    by (auto simp: sc_device_msg_deserialize_def)
qed

lemma deserialize_uhid:
  shows "sc_device_msg_deserialize ok (2 # bs) =
    (if length bs < 4 then Some (0, None)
     else let i = the (sc_read16be bs); n = the (sc_read16be (drop 2 bs)) in
       if 4 + unat n \<le> length bs then
         if ok (unat n)
         then Some (5 + int (unat n), Some (UHID_OUTPUT i n (take (unat n) (drop 4 bs))))
         else Some (-1, None)
       else Some (0, None))"
proof (cases "length bs < 4")
  case True
  then show ?thesis by (simp add: sc_device_msg_deserialize_def)
next
  case False
  then obtain i n where "sc_read16be bs = Some i" "sc_read16be (drop 2 bs) = Some n"
    using sc_read16be_Some [of bs] sc_read16be_Some [of "drop 2 bs"] by fastforce
  with False show ?thesis
    by (auto simp: sc_device_msg_deserialize_def numeral_3_eq_3 numeral_2_eq_2)
qed

lemmas deserialize_cases =
  deserialize_Nil deserialize_bad deserialize_clipboard deserialize_ack deserialize_uhid

text \<open>Whatever the bytes, parsing does not read outside the buffer.\<close>

lemma deserialize_total:
  "\<exists>r m. sc_device_msg_deserialize ok buf = Some (r, m) \<and>
     (m = None \<longrightarrow> r = 0 \<or> r = -1) \<and> (m \<noteq> None \<longrightarrow> 5 \<le> r \<and> r \<le> int (length buf))"
  by (cases buf rule: device_msg_cases)
    (auto simp: deserialize_cases Let_def simp del: of_nat_unat dest!: sc_read_SomeD(3) split: option.splits)

lemma deserialize_Some:
  "sc_device_msg_deserialize ok buf = Some (r, Some m) \<Longrightarrow> 5 \<le> r \<and> r \<le> int (length buf)"
  using deserialize_total [of ok buf] by auto

lemma deserialize_append:
  assumes "sc_device_msg_deserialize ok p = Some (r, Some m)"
  shows "sc_device_msg_deserialize ok (p @ q) = Some (r, Some m)"
  using assms
  by (cases p rule: device_msg_cases)
    (auto simp: deserialize_cases Let_def sc_read_SomeD split: option.splits if_splits)

lemma deserialize_append_error:
  assumes "sc_device_msg_deserialize ok p = Some (-1, None)"
  shows "sc_device_msg_deserialize ok (p @ q) = Some (-1, None)"
  using assms
  by (cases p rule: device_msg_cases)
    (auto simp: deserialize_cases Let_def sc_read_SomeD bad_type_def split: option.splits if_splits)

text \<open>With enough memory, the only error is an unknown type.\<close>

lemma deserialize_error_iff:
  "sc_device_msg_deserialize (\<lambda>_. True) buf = Some (-1, m) \<longleftrightarrow> bad_type buf \<and> m = None"
  by (cases buf rule: device_msg_cases)
    (auto simp: deserialize_cases Let_def bad_type_def simp del: of_nat_unat split: option.splits)

section \<open>Round trip with the writer of the server\<close>

definition device_msg_view :: "DeviceMessage \<Rightarrow> sc_device_msg" where
  "device_msg_view msg =
     (case msg of
        createClipboard raw \<Rightarrow>
          CLIPBOARD (take (the (getUtf8TruncationIndex raw CLIPBOARD_TEXT_MAX_LENGTH)) raw @ [0])
      | createAckClipboard sequence \<Rightarrow> ACK_CLIPBOARD sequence
      | createUhidOutput dev_id data \<Rightarrow> UHID_OUTPUT dev_id (of_nat (length data)) data
      | createUnknown _ \<Rightarrow> CLIPBOARD [])"

text \<open>The messages of the server: HID output reports are shorter than \<open>2 ^ 16\<close> bytes.\<close>

definition writable :: "DeviceMessage \<Rightarrow> bool" where
  "writable msg = (case msg of createUhidOutput _ data \<Rightarrow> length data < 2 ^ 16 | _ \<Rightarrow> True)"

definition device_enc :: "DeviceMessage \<Rightarrow> bytes option" where
  "device_enc msg = (if writable msg then write_device_message msg else None)"

lemma getUtf8TruncationIndex_eq: "getUtf8TruncationIndex = sc_str_utf8_truncation_index"
  by (intro ext) (simp add: getUtf8TruncationIndex_def sc_str_utf8_truncation_index_def Let_def)

lemma truncation_bounds:
  "getUtf8TruncationIndex raw CLIPBOARD_TEXT_MAX_LENGTH = Some n \<Longrightarrow>
     n \<le> length raw \<and> n \<le> 2 ^ 18 - 5"
  unfolding getUtf8TruncationIndex_eq CLIPBOARD_TEXT_MAX_LENGTH_def
  using utf8_index_le_length utf8_index_le_max by fastforce

lemma device_msg_length: "device_enc msg = Some w \<Longrightarrow> length w \<le> DEVICE_MSG_MAX_SIZE"
  by (cases msg)
    (auto simp: device_enc_def write_device_message_def writable_def DEVICE_MSG_MAX_SIZE_def
      dest!: truncation_bounds split: bind_splits if_splits)

lemma device_dec_enc:
  assumes "device_enc msg = Some w"
  shows "sc_device_msg_deserialize (\<lambda>_. True) w = Some (int (length w), Some (device_msg_view msg))"
  using assms
proof (cases msg)
  case (createUhidOutput i data)
  moreover have "sc_read16be (drop 2 (sc_write16be i @ sc_write16be n @ data)) = Some n" for n
    by simp
  moreover have "drop 4 (sc_write16be i @ sc_write16be n @ data) = data" for n
    by simp
  ultimately show ?thesis using assms
    by (auto simp: device_enc_def write_device_message_def writable_def deserialize_uhid
        device_msg_view_def unsigned_of_nat take_bit_nat_eq_self split: if_splits)
qed (auto simp: device_enc_def write_device_message_def writable_def deserialize_cases
      device_msg_view_def unsigned_of_nat take_bit_nat_eq_self
      dest!: truncation_bounds split: bind_splits if_splits)

interpretation device_stream: framed_codec device_dec device_enc device_msg_view
proof unfold_locales
  fix p q :: bytes and v n
  assume "device_dec p = Some (v, n)"
  then obtain r where r: "sc_device_msg_deserialize (\<lambda>_. True) p = Some (r, Some v)" "n = nat r"
    by (auto simp: device_dec_def split: option.splits)
  then show "device_dec (p @ q) = Some (v, n)"
    by (simp add: device_dec_def deserialize_append)
  show "0 < n" "n \<le> length p" using deserialize_Some [OF r(1)] r(2) by (simp_all add: nat_le_iff)
next
  fix m w
  assume "device_enc m = Some w"
  then show "device_dec w = Some (device_msg_view m, length w)"
    by (simp add: device_dec_def device_dec_enc)
qed

section \<open>Properties\<close>

text \<open>
  Parsing received bytes is safe for any bytes: it never reads outside them, answers 0 or -1 without
  a message, or a message with the number of bytes it took, which is between 5 and the number of
  bytes received.
\<close>

theorem deserialize_safe:
  "\<exists>r m. sc_device_msg_deserialize malloc_ok buf = Some (r, m) \<and>
     (case m of None \<Rightarrow> r = 0 \<or> r = -1 | Some _ \<Rightarrow> 5 \<le> r \<and> r \<le> int (length buf))"
  using deserialize_total [of malloc_ok buf] by (auto split: option.splits)

text \<open>
  C28: Every message the server writes is read back by the client, from its bytes alone and from any
  stream that continues after them, and no strict prefix of it is taken for a message.
\<close>

theorem device_message_roundtrip:
  assumes "device_enc m = Some w"
  shows "sc_device_msg_deserialize (\<lambda>_. True) (w @ rest) =
      Some (int (length w), Some (device_msg_view m)) \<and>
    (\<forall>k < length w. device_dec (take k w) = None) \<and> length w \<le> DEVICE_MSG_MAX_SIZE"
  using deserialize_append [OF device_dec_enc [OF assms]] device_stream.dec_partial [OF assms]
    device_msg_length [OF assms] by blast

lemma device_message_roundtrip_witness:
  "sc_device_msg_deserialize (\<lambda>_. True) ([2, 0, 1, 0, 1, 5] @ [9]) =
      Some (6, Some (UHID_OUTPUT 1 1 [5])) \<and> device_dec (take 5 [2, 0, 1, 0, 1, 5]) = None"
proof -
  have "device_enc (createUhidOutput 1 [5]) = Some [2, 0, 1, 0, 1, 5]"
    by (simp add: device_enc_def writable_def write_device_message_def sc_write16be_def)
  from device_message_roundtrip [OF this, of "[9]"] show ?thesis
    by (auto simp: device_msg_view_def)
qed

end
