(* ===== verification/Sc_Acksync.thy ===== *)
theory Sc_Acksync
  imports Sc_Prelude
begin

text \<open>
  \<open>util/acksync.h\<close>, \<open>util/acksync.c\<close>: one thread waits until the device has acknowledged a
  sequence number, another one acknowledges, a third one may interrupt.

  The mutex makes the operations atomic, except the wait, which releases it inside
  \<open>sc_cond_timedwait\<close>. A wait is therefore run on the list of its wake-ups: each one tells whether
  the deadline has passed and what the state is when the mutex is taken again.
\<close>

definition SC_SEQUENCE_INVALID :: u64 where
  "SC_SEQUENCE_INVALID = 0"

record sc_acksync =
  acksync_stopped :: bool
  acksync_ack :: u64

datatype sc_acksync_wait_result =
  SC_ACKSYNC_WAIT_OK | SC_ACKSYNC_WAIT_TIMEOUT | SC_ACKSYNC_WAIT_INTR

text \<open>\<open>None\<close>: the mutex or the condition variable could not be created (\<open>false\<close> is returned).\<close>

definition sc_acksync_init :: "bool \<Rightarrow> bool \<Rightarrow> sc_acksync option" where
  "sc_acksync_init mutex_ok cond_ok =
     (if \<not> mutex_ok then None
      else if \<not> cond_ok then None
      else Some \<lparr>acksync_stopped = False, acksync_ack = SC_SEQUENCE_INVALID\<rparr>)"

definition sc_acksync_ack :: "sc_acksync \<Rightarrow> u64 \<Rightarrow> sc_acksync option" where
  "sc_acksync_ack as sequence = do {
     c_assert (sequence \<ge> acksync_ack as);
     Some (as\<lparr>acksync_ack := sequence\<rparr>)
   }"

definition sc_acksync_interrupt :: "sc_acksync \<Rightarrow> sc_acksync" where
  "sc_acksync_interrupt as = as\<lparr>acksync_stopped := True\<rparr>"

text \<open>Result \<open>None\<close> of the inner option: still waiting after the given wake-ups.\<close>

fun sc_acksync_wait_loop ::
    "sc_acksync \<Rightarrow> u64 \<Rightarrow> bool \<Rightarrow> (bool \<times> sc_acksync) list \<Rightarrow> (sc_acksync \<times> bool) option" where
  "sc_acksync_wait_loop as seq timed_out wakes =
     (if \<not> acksync_stopped as \<and> acksync_ack as < seq \<and> \<not> timed_out then
        (case wakes of
           [] \<Rightarrow> None
         | (in_time, as') # wakes' \<Rightarrow> sc_acksync_wait_loop as' seq (\<not> in_time) wakes')
      else Some (as, timed_out))"

declare sc_acksync_wait_loop.simps [simp del]

definition sc_acksync_wait ::
    "sc_acksync \<Rightarrow> u64 \<Rightarrow> (bool \<times> sc_acksync) list \<Rightarrow> sc_acksync_wait_result option option" where
  "sc_acksync_wait as seq wakes =
     (case sc_acksync_wait_loop as seq False wakes of
        None \<Rightarrow> Some None
      | Some (as, timed_out) \<Rightarrow>
          if acksync_stopped as then Some (Some SC_ACKSYNC_WAIT_INTR)
          else if acksync_ack as \<ge> seq then Some (Some SC_ACKSYNC_WAIT_OK)
          else do {
            c_assert timed_out;
            Some (Some SC_ACKSYNC_WAIT_TIMEOUT)
          })"

section \<open>What a wait returns\<close>

text \<open>A state in which a waiter goes back to sleep.\<close>

definition keeps_waiting :: "u64 \<Rightarrow> bool \<times> sc_acksync \<Rightarrow> bool" where
  "keeps_waiting seq w \<longleftrightarrow> fst w \<and> \<not> acksync_stopped (snd w) \<and> acksync_ack (snd w) < seq"

lemma wait_loop_eq:
  "sc_acksync_wait_loop as seq timed_out wakes =
     (case dropWhile (keeps_waiting seq) ((\<not> timed_out, as) # wakes) of
        [] \<Rightarrow> None
      | (in_time, as') # _ \<Rightarrow> Some (as', \<not> in_time))"
proof (induction wakes arbitrary: as timed_out)
  case Nil
  then show ?case
    by (subst sc_acksync_wait_loop.simps) (auto simp: keeps_waiting_def)
next
  case (Cons w wakes)
  obtain in_time as' where w: "w = (in_time, as')" by (cases w)
  have "sc_acksync_wait_loop as seq timed_out (w # wakes) =
    (if keeps_waiting seq (\<not> timed_out, as)
     then sc_acksync_wait_loop as' seq (\<not> in_time) wakes else Some (as, timed_out))"
    by (subst sc_acksync_wait_loop.simps) (auto simp: keeps_waiting_def w)
  then show ?case by (simp add: Cons.IH w)
qed

text \<open>
  A wait never fails its assertion: it returns at the first wake-up (or at once) where it is
  interrupted, acknowledged or late, with the answer that this state gives, and otherwise waits on.
\<close>

lemma wait_eq:
  "sc_acksync_wait as seq wakes =
     Some (case dropWhile (keeps_waiting seq) ((True, as) # wakes) of
        [] \<Rightarrow> None
      | (in_time, as') # _ \<Rightarrow>
          Some (if acksync_stopped as' then SC_ACKSYNC_WAIT_INTR
                else if acksync_ack as' \<ge> seq then SC_ACKSYNC_WAIT_OK
                else SC_ACKSYNC_WAIT_TIMEOUT))"
proof (cases "dropWhile (keeps_waiting seq) ((True, as) # wakes)")
  case Nil
  then show ?thesis by (simp add: sc_acksync_wait_def wait_loop_eq)
next
  case (Cons w ws)
  then have "\<not> keeps_waiting seq w" using hd_dropWhile [of "keeps_waiting seq" "(True, as) # wakes"] by simp
  with Cons show ?thesis
    by (cases w) (auto simp: sc_acksync_wait_def wait_loop_eq keeps_waiting_def)
qed

section \<open>Acknowledgements are monotonic\<close>

fun ack_all :: "sc_acksync \<Rightarrow> u64 list \<Rightarrow> sc_acksync option" where
  "ack_all as [] = Some as"
| "ack_all as (s # ss) = do { as \<leftarrow> sc_acksync_ack as s; ack_all as ss }"

lemma ack_all_eq:
  "ack_all as ss =
     (if sorted (acksync_ack as # ss) then Some (as\<lparr>acksync_ack := last (acksync_ack as # ss)\<rparr>) else None)"
proof (induction ss arbitrary: as)
  case (Cons s ss)
  show ?case
    by (cases "acksync_ack as \<le> s") (auto simp: sc_acksync_ack_def Cons.IH)
qed simp

section \<open>Properties\<close>

text \<open>
  A wait for an acknowledgement never fails its assertion. It returns at the first state, from the
  one it starts in, where it is interrupted, the sequence is acknowledged or the deadline has passed,
  with an answer that tells these apart (an interruption wins over an acknowledgement, and an
  acknowledgement over a timeout); spurious and too early wake-ups keep it waiting.
\<close>

theorem wait_returns_at_first_event:
  "sc_acksync_wait as seq wakes =
     Some (case dropWhile (keeps_waiting seq) ((True, as) # wakes) of
        [] \<Rightarrow> None
      | (in_time, as') # _ \<Rightarrow>
          Some (if acksync_stopped as' then SC_ACKSYNC_WAIT_INTR
                else if seq \<le> acksync_ack as' then SC_ACKSYNC_WAIT_OK
                else SC_ACKSYNC_WAIT_TIMEOUT))"
  by (rule wait_eq)

text \<open>
  A sequence of acknowledgements is accepted exactly when it never decreases, from the last value
  acknowledged on, and the last one is then the value that waiters see.
\<close>

theorem acks_are_monotonic:
  "ack_all as ss =
     (if sorted (acksync_ack as # ss)
      then Some (as\<lparr>acksync_ack := last (acksync_ack as # ss)\<rparr>) else None)"
  by (rule ack_all_eq)

end
