(* ===== verification/Sc_Receiver.thy ===== *)
theory Sc_Receiver
  imports Sc_Device_Msg Sc_Acksync
begin

text \<open>
  \<open>receiver.h\<close>, \<open>receiver.c\<close>: the thread that receives the byte stream of the device, cuts it into
  messages and hands each message to its consumer: clipboard and HID output are posted to the main
  thread, acknowledgements go to the \<open>acksync\<close>.

  The state keeps what the thread shares with the rest of the client: the \<open>acksync\<close> (\<open>None\<close> for
  \<open>NULL\<close>), whether there are UHID devices, and the tasks posted to the main thread, in order.
  \<open>live_blocks\<close> counts the message buffers that were allocated and neither freed nor handed over.
  The environment decides, for the i-th message, whether allocations and posting succeed.
\<close>

datatype main_task =
    task_set_clipboard bytes
  | task_uhid_output u16 u16 bytes

record sc_receiver =
  rc_acksync :: "sc_acksync option"
  rc_uhid_devices :: bool
  rc_tasks :: "main_task list"
  rc_live_blocks :: int
  rc_processed :: nat

record receiver_env =
  env_malloc_msg :: "nat \<Rightarrow> nat \<Rightarrow> bool"
  env_malloc_task :: "nat \<Rightarrow> bool"
  env_post :: "nat \<Rightarrow> bool"

definition sc_receiver_init :: "sc_acksync option \<Rightarrow> bool \<Rightarrow> sc_receiver" where
  "sc_receiver_init acksync uhid_devices =
     \<lparr>rc_acksync = acksync, rc_uhid_devices = uhid_devices, rc_tasks = [], rc_live_blocks = 0,
      rc_processed = 0\<rparr>"

section \<open>The code\<close>

text \<open>\<open>sc_run_on_main_thread\<close>.\<close>

definition post_task :: "main_task \<Rightarrow> sc_receiver \<Rightarrow> sc_receiver" where
  "post_task t r = r\<lparr>rc_tasks := rc_tasks r @ [t]\<rparr>"

definition release_block :: "sc_receiver \<Rightarrow> sc_receiver" where
  "release_block r = r\<lparr>rc_live_blocks := rc_live_blocks r - 1\<rparr>"

definition process_msg :: "receiver_env \<Rightarrow> sc_receiver \<Rightarrow> sc_device_msg \<Rightarrow> sc_receiver option" where
  "process_msg env receiver msg =
     (let i = rc_processed receiver in
      case msg of
        CLIPBOARD text \<Rightarrow>
          (let ok = env_post env i in
           if \<not> ok then Some (release_block receiver)
           else Some (release_block (post_task (task_set_clipboard text) receiver)))
      | ACK_CLIPBOARD sequence \<Rightarrow> do {
          c_assert (rc_acksync receiver \<noteq> None);
          as \<leftarrow> rc_acksync receiver;
          as \<leftarrow> sc_acksync_ack as sequence;
          Some (receiver\<lparr>rc_acksync := Some as\<rparr>)
        }
      | UHID_OUTPUT dev_id n data \<Rightarrow>
          if \<not> rc_uhid_devices receiver then Some (release_block receiver)
          else if \<not> env_malloc_task env i then Some receiver
          else
            (let ok = env_post env i in
             if \<not> ok then Some (release_block receiver)
             else Some (release_block (post_task (task_uhid_output dev_id n data) receiver))))"

text \<open>The message was allocated by the parser, unless it is an acknowledgement.\<close>

definition note_alloc :: "sc_device_msg \<Rightarrow> sc_receiver \<Rightarrow> sc_receiver" where
  "note_alloc msg r =
     r\<lparr>rc_live_blocks := rc_live_blocks r + int (length (sc_device_msg_destroy msg))\<rparr>"

definition next_msg :: "sc_receiver \<Rightarrow> sc_receiver" where
  "next_msg r = r\<lparr>rc_processed := Suc (rc_processed r)\<rparr>"

function process_msgs_loop ::
    "receiver_env \<Rightarrow> sc_receiver \<Rightarrow> bytes \<Rightarrow> nat \<Rightarrow> (int \<times> sc_receiver) option" where
  "process_msgs_loop env receiver buf head = do {
     (r, msg) \<leftarrow>
       sc_device_msg_deserialize (env_malloc_msg env (rc_processed receiver)) (drop head buf);
     (case msg of
        None \<Rightarrow> if r = -1 then Some (-1, receiver) else Some (int head, receiver)
      | Some m \<Rightarrow> do {
          receiver \<leftarrow> process_msg env (note_alloc m receiver) m;
          let head = head + nat r;
          c_assert (head \<le> length buf);
          if head = length buf then Some (int head, next_msg receiver)
          else process_msgs_loop env (next_msg receiver) buf head
        })
   }"
  by pat_completeness auto

termination
  by (relation "measure (\<lambda>(_, _, buf, head). length buf - head)")
    (auto dest!: deserialize_Some)

declare process_msgs_loop.simps [simp del]

definition process_msgs ::
    "receiver_env \<Rightarrow> sc_receiver \<Rightarrow> bytes \<Rightarrow> (int \<times> sc_receiver) option" where
  "process_msgs env receiver buf = process_msgs_loop env receiver buf 0"

text \<open>
  The control socket is the list of segments the device has sent. A \<open>recv\<close> returns at most \<open>n\<close>
  bytes of the first one; an empty segment or the end of the list ends the connection.
\<close>

fun net_recv :: "bytes list \<Rightarrow> nat \<Rightarrow> bytes \<times> bytes list" where
  "net_recv [] n = ([], [])"
| "net_recv (c # cs) n =
     (take n c, if drop n c = [] then cs else drop n c # cs)"

lemma net_recv_measure:
  "net_recv sock n = (c, sock') \<Longrightarrow> c \<noteq> [] \<Longrightarrow>
     length (concat sock') < length (concat sock)"
  by (cases sock) (auto split: if_splits)

text \<open>The result is the \<open>error\<close> flag given to \<open>on_ended\<close>.\<close>

function run_receiver_loop ::
    "receiver_env \<Rightarrow> sc_receiver \<Rightarrow> bytes \<Rightarrow> nat \<Rightarrow> bytes list \<Rightarrow> (bool \<times> sc_receiver) option" where
  "run_receiver_loop env receiver buf head sock = do {
     c_assert (head < DEVICE_MSG_MAX_SIZE);
     let (r, sock') = net_recv sock (DEVICE_MSG_MAX_SIZE - head);
     if r = [] then Some (False, receiver)
     else do {
       buf \<leftarrow> mem_write buf head r;
       let head = head + length r;
       (consumed, receiver) \<leftarrow> process_msgs env receiver (take head buf);
       if consumed = -1 then Some (True, receiver)
       else if consumed \<noteq> 0 then do {
         let head = head - nat consumed;
         rest \<leftarrow> mem_read buf (nat consumed) head;
         buf \<leftarrow> mem_write buf 0 rest;
         run_receiver_loop env receiver buf head sock'
       } else run_receiver_loop env receiver buf head sock'
     }
   }"
  by pat_completeness auto

termination
  by (relation "measure (\<lambda>(_, _, _, _, sock). length (concat sock))")
    (auto dest!: net_recv_measure [OF sym])

declare run_receiver_loop.simps [simp del]

definition run_receiver ::
    "receiver_env \<Rightarrow> sc_receiver \<Rightarrow> bytes \<Rightarrow> bytes list \<Rightarrow> (bool \<times> sc_receiver) option" where
  "run_receiver env receiver buf sock = run_receiver_loop env receiver buf 0 sock"

section \<open>Processing a list of messages\<close>

fun process_all :: "receiver_env \<Rightarrow> sc_receiver \<Rightarrow> sc_device_msg list \<Rightarrow> sc_receiver option" where
  "process_all env r [] = Some r"
| "process_all env r (m # ms) = do {
     r \<leftarrow> process_msg env (note_alloc m r) m;
     process_all env (next_msg r) ms
   }"

lemma process_all_append:
  "process_all env r (xs @ ys) = do { r \<leftarrow> process_all env r xs; process_all env r ys }"
  by (induction xs arbitrary: r) (auto split: bind_splits)

definition malloc_never_fails :: "receiver_env \<Rightarrow> bool" where
  "malloc_never_fails env \<longleftrightarrow> (\<forall>i n. env_malloc_msg env i n)"

lemma malloc_never_fails_fun:
  "malloc_never_fails env \<Longrightarrow> env_malloc_msg env i = (\<lambda>_. True)"
  by (auto simp: malloc_never_fails_def)

lemma device_dec_cases:
  obtains
    (msg) r m where "sc_device_msg_deserialize (\<lambda>_. True) buf = Some (r, Some m)" "5 \<le> r"
      "r \<le> int (length buf)" "device_dec buf = Some (m, nat r)" "\<not> bad_type buf"
  | (incomplete) "sc_device_msg_deserialize (\<lambda>_. True) buf = Some (0, None)"
      "device_dec buf = None" "\<not> bad_type buf"
  | (bad) "sc_device_msg_deserialize (\<lambda>_. True) buf = Some (-1, None)"
      "device_dec buf = None" "bad_type buf"
proof -
  obtain r m where d: "sc_device_msg_deserialize (\<lambda>_. True) buf = Some (r, m)"
    "m = None \<longrightarrow> r = 0 \<or> r = -1" "m \<noteq> None \<longrightarrow> 5 \<le> r \<and> r \<le> int (length buf)"
    using deserialize_total [of "\<lambda>_. True" buf] by auto
  moreover have "bad_type buf \<longleftrightarrow> r = -1"
    using d deserialize_error_iff [of buf m] deserialize_bad [of buf "\<lambda>_. True"] by auto
  ultimately show thesis using msg incomplete bad
    by (cases m) (auto simp: device_dec_def)
qed

lemma process_msgs_loop_eq:
  assumes "malloc_never_fails env" "head \<le> length buf"
  shows "process_msgs_loop env r buf head =
    (let (ms, rest) = drain device_dec (drop head buf) in
     do {
       r \<leftarrow> process_all env r ms;
       Some (if bad_type rest then -1 else int (length buf - length rest), r)
     })"
  using assms(2)
proof (induction "length buf - head" arbitrary: head r rule: less_induct)
  case less
  note malloc = malloc_never_fails_fun [OF assms(1)]
  show ?case
  proof (cases "drop head buf" rule: device_dec_cases)
    case (msg k m)
    let ?head = "head + nat k"
    have h: "?head \<le> length buf" "length buf - ?head < length buf - head"
      using msg less.prems by (auto simp: nat_le_iff)
    note d = device_stream.drain_Some [OF msg(4)]
    have IH: "process_msgs_loop env r' buf ?head =
      (let (ms, rest) = drain device_dec (drop ?head buf) in
       do {
         r' \<leftarrow> process_all env r' ms;
         Some (if bad_type rest then -1 else int (length buf - length rest), r')
       })" for r'
      using h(2,1) by (rule less.hyps)
    show ?thesis
    proof (cases "?head = length buf")
      case True
      then have "drop ?head buf = []" by simp
      with True h show ?thesis
        by (subst process_msgs_loop.simps)
          (simp add: malloc msg d add.commute [of "nat k"] device_stream.dec_Nil bad_type_def)
    next
      case False
      with h show ?thesis
        by (subst process_msgs_loop.simps)
          (simp add: malloc msg d IH add.commute [of "nat k"] split_def Let_def)
    qed
  next
    case incomplete
    then show ?thesis using less.prems
      by (subst process_msgs_loop.simps) (simp add: malloc)
  next
    case bad
    then show ?thesis
      by (subst process_msgs_loop.simps) (simp add: malloc)
  qed
qed

lemma process_msgs_eq:
  assumes "malloc_never_fails env" "drain device_dec buf = (ms, rest)"
  shows "process_msgs env r buf =
    do {
      r \<leftarrow> process_all env r ms;
      Some (if bad_type rest then -1 else int (length buf - length rest), r)
    }"
  using assms by (simp add: process_msgs_def process_msgs_loop_eq)

section \<open>The receiver on a stream written by the server\<close>

lemma net_recv_chunk:
  assumes "net_recv sock n = (c, sock')" "[] \<notin> set sock" "0 < n"
  shows "c @ concat sock' = concat sock" "[] \<notin> set sock'" "length c \<le> n" "c = [] \<longleftrightarrow> sock = []"
  using assms by (cases sock; auto split: if_splits)+

lemma bad_type_strict_prefix:
  assumes "device_enc m = Some (p @ x)"
  shows "\<not> bad_type p"
proof
  assume "bad_type p"
  then have "bad_type (p @ x)" by (auto simp: bad_type_def)
  then have "device_dec (p @ x) = None" by (simp add: device_dec_def deserialize_bad)
  with device_stream.dec_enc [OF assms] show False by simp
qed

text \<open>The first \<open>head\<close> bytes of the buffer are the beginning of a message.\<close>

lemma run_receiver_loop_stream:
  assumes "malloc_never_fails env" "device_enc m = Some w" "k < length w"
    and "list_all2 (\<lambda>m w. device_enc m = Some w) ms ws"
    and "length buf = DEVICE_MSG_MAX_SIZE" "head < DEVICE_MSG_MAX_SIZE" "[] \<notin> set sock"
    and "take head buf @ concat sock = concat ws @ take k w"
    and "device_dec (take head buf) = None"
  shows "run_receiver_loop env r buf head sock =
    map_option (Pair False) (process_all env r (map device_msg_view ms))"
  using assms(4-)
proof (induction "length (concat sock)" arbitrary: sock r buf head ms ws rule: less_induct)
  case less
  obtain c sock' where recv: "net_recv sock (DEVICE_MSG_MAX_SIZE - head) = (c, sock')"
    by (cases "net_recv sock (DEVICE_MSG_MAX_SIZE - head)")
  have "0 < DEVICE_MSG_MAX_SIZE - head" using less.prems(3) by simp
  note c = net_recv_chunk [OF recv less.prems(4) this]
  show ?case
  proof (cases "c = []")
    case True
    then have "take head buf = concat ws @ take k w" using c(4) less.prems(5) by simp
    then have "ms = []" using less.prems(1,6) device_stream.dec_enc_rest
      by (cases ms) (force simp: list_all2_Cons1)+
    with True recv less.prems(3) show ?thesis
      by (subst run_receiver_loop.simps) simp
  next
    case False
    let ?p = "take head buf @ c"
    have fit: "head + length c \<le> length buf" using c(3) less.prems(2,3) by simp
    have buf': "take (head + length c) (mem_put buf head c) = ?p"
      using fit by (simp add: mem_put_def)
    have "?p @ concat sock' = concat ws @ take k w" using c(1) less.prems(5) by simp
    from device_stream.drain_prefix [OF less.prems(1) assms(2,3) this] obtain j rest m' w' x where
      j: "j \<le> length ms" "drain device_dec ?p = (map device_msg_view (take j ms), rest)"
        "device_dec rest = None" "rest @ concat sock' = concat (drop j ws) @ take k w"
        "device_enc m' = Some w'" "x \<noteq> []" "w' = rest @ x"
      by blast
    have nb: "\<not> bad_type rest" using j(5,7) bad_type_strict_prefix by simp
    have rest_lt: "length rest < DEVICE_MSG_MAX_SIZE"
      using device_msg_length [OF j(5)] j(6,7) by (cases x) auto
    note rest = device_stream.drain_drop [OF j(2)]
    have shorter: "length (concat sock') < length (concat sock)"
      using net_recv_measure [OF recv False] .
    have IH: "run_receiver_loop env r' buf' (length rest) sock' =
        map_option (Pair False) (process_all env r' (map device_msg_view (drop j ms)))"
      if "length buf' = DEVICE_MSG_MAX_SIZE" "take (length rest) buf' = rest" for r' buf'
      using less.hyps [OF shorter, of "drop j ms" "drop j ws" buf' "length rest" r'] that rest_lt c(2) j
        less.prems(1) by (simp add: list_all2_dropI)
    have split: "process_all env r (map device_msg_view ms) =
        do { r \<leftarrow> process_all env r (map device_msg_view (take j ms));
             process_all env r (map device_msg_view (drop j ms)) }"
      unfolding process_all_append [symmetric] map_append [symmetric] by simp
    show ?thesis
    proof (cases "length rest = length ?p")
      case True
      then have "?p = rest" using rest(1) by (metis diff_self_eq_0 drop0)
      then have "j = 0"
        using j(1,2) device_stream.drain_None [OF j(3)] by (cases j; cases ms) auto
      have lr: "head + length c = length rest" using True less.prems(2,3) by simp
      have "process_msgs env r rest = Some (0, r)"
        using process_msgs_eq [OF assms(1) device_stream.drain_None [OF j(3)]] nb by simp
      with \<open>j = 0\<close> \<open>?p = rest\<close> lr show ?thesis
        using recv False less.prems(2,3) fit buf' nb IH [of "mem_put buf head c"]
        by (subst run_receiver_loop.simps) (simp add: Let_def)
    next
      case False
      define n where "n = length ?p - length rest"
      let ?b = "mem_put (mem_put buf head c) 0 rest"
      have n: "head + length c - n = length rest" "0 < n" "n \<le> head + length c"
        using less.prems(2,3) rest(2) False by (simp_all add: n_def)
      have "drop n (take (head + length c) (mem_put buf head c)) = rest"
        unfolding buf' n_def by (rule rest(1))
      then have copy: "take (length rest) (drop n (mem_put buf head c)) = rest"
        unfolding drop_take n .
      have "process_msgs env r ?p =
          do { r \<leftarrow> process_all env r (map device_msg_view (take j ms)); Some (int n, r) }"
        using process_msgs_eq [OF assms(1) j(2)] nb rest(2) by (simp add: n_def)
      moreover have "take (length rest) ?b = rest" by (simp add: mem_put_def)
      ultimately show ?thesis
        using recv \<open>c \<noteq> []\<close> less.prems(2,3) fit buf' n copy IH [of ?b]
        by (subst run_receiver_loop.simps)
          (cases "process_all env r (map device_msg_view (take j ms))"; simp add: split Let_def)
    qed
  qed
qed

section \<open>The receiver as a whole\<close>

lemma run_receiver_stream:
  assumes "malloc_never_fails env" "length buf = DEVICE_MSG_MAX_SIZE"
    and "list_all2 (\<lambda>m w. device_enc m = Some w) ms ws"
    and "device_enc m = Some w" "k < length w"
    and "[] \<notin> set sock" "concat sock = concat ws @ take k w"
  shows "run_receiver env r buf sock =
    map_option (Pair False) (process_all env r (map device_msg_view ms))"
  unfolding run_receiver_def
  using assms
  by (intro run_receiver_loop_stream) (simp_all add: device_stream.dec_Nil DEVICE_MSG_MAX_SIZE_def)

section \<open>Ownership of the message buffers\<close>

definition leaks :: "receiver_env \<Rightarrow> sc_receiver \<Rightarrow> sc_device_msg \<Rightarrow> bool" where
  "leaks env r msg \<longleftrightarrow>
     (\<exists>i n d. msg = UHID_OUTPUT i n d) \<and> rc_uhid_devices r \<and> \<not> env_malloc_task env (rc_processed r)"

lemma process_msg_live_blocks:
  "process_msg env (note_alloc m r) m = Some r' \<Longrightarrow>
     rc_live_blocks r' = rc_live_blocks r + (if leaks env r m then 1 else 0) \<and>
     rc_uhid_devices r' = rc_uhid_devices r \<and> rc_processed r' = rc_processed r"
  by (cases m)
    (auto simp: process_msg_def note_alloc_def sc_device_msg_destroy_def leaks_def Let_def
      release_block_def post_task_def split: bind_splits if_splits)

lemma process_all_live_blocks:
  assumes "\<And>i. env_malloc_task env i" "process_all env r ms = Some r'"
  shows "rc_live_blocks r' = rc_live_blocks r"
  using assms(2)
proof (induction ms arbitrary: r)
  case (Cons m ms)
  then obtain r1 where r1: "process_msg env (note_alloc m r) m = Some r1"
    "process_all env (next_msg r1) ms = Some r'"
    by (auto split: bind_splits)
  from process_msg_live_blocks [OF r1(1)] have "rc_live_blocks r1 = rc_live_blocks r"
    by (simp add: leaks_def assms(1))
  with Cons.IH [OF r1(2)] show ?case by (simp add: next_msg_def)
qed simp

section \<open>What the consumers get\<close>

definition task_of :: "sc_device_msg \<Rightarrow> main_task list" where
  "task_of msg =
     (case msg of
        CLIPBOARD text \<Rightarrow> [task_set_clipboard text]
      | UHID_OUTPUT i n d \<Rightarrow> [task_uhid_output i n d]
      | ACK_CLIPBOARD _ \<Rightarrow> [])"

definition ack_of :: "sc_device_msg \<Rightarrow> u64 list" where
  "ack_of msg = (case msg of ACK_CLIPBOARD s \<Rightarrow> [s] | _ \<Rightarrow> [])"

text \<open>
  With an \<open>acksync\<close>, UHID devices, and an environment that always succeeds: every clipboard and HID
  output message is posted once, in order; every acknowledgement reaches the \<open>acksync\<close> in order.
\<close>

lemma process_all_delivers:
  assumes "\<And>i. env_malloc_task env i \<and> env_post env i" "rc_uhid_devices r"
    and "rc_acksync r = Some as"
  shows "process_all env r ms =
    map_option (\<lambda>as'. r\<lparr>rc_acksync := Some as', rc_tasks := rc_tasks r @ concat (map task_of ms),
        rc_processed := rc_processed r + length ms\<rparr>)
      (ack_all as (concat (map ack_of ms)))"
  using assms(2,3)
proof (induction ms arbitrary: r as)
  case Nil
  then show ?case by simp
next
  case (Cons m ms)
  show ?case
  proof (cases m)
    case (CLIPBOARD t)
    then show ?thesis using Cons.prems assms(1)
      by (simp add: process_msg_def note_alloc_def sc_device_msg_destroy_def release_block_def
        post_task_def next_msg_def task_of_def ack_of_def Cons.IH [of _ as] fun_eq_iff
        cong: map_option_cong)
  next
    case (ACK_CLIPBOARD s)
    then show ?thesis using Cons.prems assms(1)
      by (cases "sc_acksync_ack as s")
       (simp_all add: process_msg_def note_alloc_def sc_device_msg_destroy_def
        next_msg_def task_of_def ack_of_def Cons.IH)
  next
    case (UHID_OUTPUT i n d)
    then show ?thesis using Cons.prems assms(1)
      by (simp add: process_msg_def note_alloc_def sc_device_msg_destroy_def release_block_def
        post_task_def next_msg_def task_of_def ack_of_def Cons.IH [of _ as] fun_eq_iff)
  qed
qed

text \<open>A clipboard message that announces more than the buffer can hold.\<close>

lemma process_msgs_oversized:
  assumes "DEVICE_MSG_MAX_SIZE - 5 < unat n" "length (0 # sc_write32be n @ payload) \<le> DEVICE_MSG_MAX_SIZE"
  shows "process_msgs env r (0 # sc_write32be n @ payload) = Some (0, r)"
proof -
  have "\<not> unat n \<le> length payload" using assms by simp
  then show ?thesis
    unfolding process_msgs_def
    by (subst process_msgs_loop.simps) (simp add: deserialize_clipboard)
qed

lemma run_receiver_oversized:
  assumes "DEVICE_MSG_MAX_SIZE - 5 < unat n" "length buf = DEVICE_MSG_MAX_SIZE"
    and "length (0 # sc_write32be n @ payload) = DEVICE_MSG_MAX_SIZE"
  shows "run_receiver env r buf ((0 # sc_write32be n @ payload) # segs) = None"
proof -
  let ?c = "0 # sc_write32be n @ payload"
  have "take (length ?c) (mem_put buf 0 ?c) = ?c" by (rule take_mem_put_0)
  moreover have "0 < DEVICE_MSG_MAX_SIZE" by (simp add: DEVICE_MSG_MAX_SIZE_def)
  moreover have "process_msgs env r ?c = Some (0, r)"
    using process_msgs_oversized assms by simp
  ultimately show ?thesis
    unfolding run_receiver_def
    by (subst run_receiver_loop.simps, subst run_receiver_loop.simps)
      (use assms in \<open>simp add: Let_def\<close>)
qed

section \<open>Properties\<close>

text \<open>
  C19: The receiver refines the sequential processing of the messages: when the server writes the
  messages \<open>ms\<close> and stops in the middle of another one, then however the network cuts the bytes into
  segments, the receiver thread processes exactly \<open>ms\<close>, in order, never overruns its buffer, never
  fails the assertion on its buffer head, and ends without error.
\<close>

theorem receiver_processes_stream:
  assumes "malloc_never_fails env" "length buf = DEVICE_MSG_MAX_SIZE"
    and "list_all2 (\<lambda>m w. device_enc m = Some w) ms ws"
    and "device_enc m = Some w" "k < length w"
    and "[] \<notin> set sock" "concat sock = concat ws @ take k w"
  shows "run_receiver env r buf sock =
    map_option (Pair False) (process_all env r (map device_msg_view ms))"
  by (rule run_receiver_stream [OF assms])

lemma receiver_processes_stream_witness:
  "run_receiver \<lparr>env_malloc_msg = \<lambda>_ _. True, env_malloc_task = \<lambda>_. True, env_post = \<lambda>_. True\<rparr>
     (sc_receiver_init None False) (replicate DEVICE_MSG_MAX_SIZE 0) [[0, 0, 0], [0, 1, 104], [2]] =
   map_option (Pair False)
     (process_all \<lparr>env_malloc_msg = \<lambda>_ _. True, env_malloc_task = \<lambda>_. True, env_post = \<lambda>_. True\<rparr>
       (sc_receiver_init None False) (map device_msg_view [createClipboard [104]]))"
  by (rule receiver_processes_stream [of _ _ _ "[[0, 0, 0, 0, 1, 104]]"
        "createUhidOutput 1 []" "[2, 0, 1, 0, 0]" 1])
    (simp_all add: malloc_never_fails_def device_enc_def writable_def write_device_message_def
      sc_write16be_def sc_write32be_def getUtf8TruncationIndex_def CLIPBOARD_TEXT_MAX_LENGTH_def)

text \<open>
  When posting and allocating succeed, each clipboard text and each HID output is posted to the main
  thread once, in the order received, and each acknowledgement reaches the waiters; the only way to
  abort is a decreasing acknowledgement.
\<close>

theorem receiver_delivers:
  assumes "\<And>i. env_malloc_task env i \<and> env_post env i" "rc_uhid_devices r"
    and "rc_acksync r = Some as"
  shows "process_all env r ms =
    map_option (\<lambda>as'. r\<lparr>rc_acksync := Some as', rc_tasks := rc_tasks r @ concat (map task_of ms),
        rc_processed := rc_processed r + length ms\<rparr>)
      (ack_all as (concat (map ack_of ms)))"
  by (rule process_all_delivers [OF assms])

lemma receiver_delivers_witness:
  "process_all \<lparr>env_malloc_msg = \<lambda>_ _. True, env_malloc_task = \<lambda>_. True, env_post = \<lambda>_. True\<rparr>
      (sc_receiver_init (Some \<lparr>acksync_stopped = False, acksync_ack = 0\<rparr>) True)
      [CLIPBOARD [104, 0], ACK_CLIPBOARD 7] =
    map_option (\<lambda>as'. (sc_receiver_init (Some \<lparr>acksync_stopped = False, acksync_ack = 0\<rparr>) True)
        \<lparr>rc_acksync := Some as', rc_tasks := [] @ concat (map task_of [CLIPBOARD [104, 0], ACK_CLIPBOARD 7]),
         rc_processed := 0 + length [CLIPBOARD [104, 0], ACK_CLIPBOARD 7]\<rparr>)
      (ack_all \<lparr>acksync_stopped = False, acksync_ack = 0\<rparr>
        (concat (map ack_of [CLIPBOARD [104, 0], ACK_CLIPBOARD 7])))"
  using receiver_delivers
    [of "\<lparr>env_malloc_msg = \<lambda>_ _. True, env_malloc_task = \<lambda>_. True, env_post = \<lambda>_. True\<rparr>"
        "sc_receiver_init (Some \<lparr>acksync_stopped = False, acksync_ack = 0\<rparr>) True"
        "\<lparr>acksync_stopped = False, acksync_ack = 0\<rparr>" "[CLIPBOARD [104, 0], ACK_CLIPBOARD 7]"]
  by (simp add: sc_receiver_init_def)

text \<open>
  Ownership of message buffers: processing a message hands its buffer over or frees it, except for a
  HID output whose task cannot be allocated, whose buffer is leaked.
\<close>

theorem message_buffer_ownership:
  assumes "process_msg env (note_alloc m r) m = Some r'"
  shows "rc_live_blocks r' = rc_live_blocks r +
    (if (\<exists>i n d. m = UHID_OUTPUT i n d) \<and> rc_uhid_devices r \<and>
        \<not> env_malloc_task env (rc_processed r) then 1 else 0)"
  using process_msg_live_blocks [OF assms] by (simp add: leaks_def)

lemma message_buffer_ownership_witness:
  "rc_live_blocks ((sc_receiver_init None True)\<lparr>rc_live_blocks := 1\<rparr>) =
     rc_live_blocks (sc_receiver_init None True) +
    (if (\<exists>i n d. UHID_OUTPUT 1 1 [0] = UHID_OUTPUT i n d) \<and>
        rc_uhid_devices (sc_receiver_init None True) \<and>
        \<not> env_malloc_task \<lparr>env_malloc_msg = \<lambda>_ _. True, env_malloc_task = \<lambda>_. False,
            env_post = \<lambda>_. True\<rparr> (rc_processed (sc_receiver_init None True)) then 1 else 0)"
  by (rule message_buffer_ownership
      [of "\<lparr>env_malloc_msg = \<lambda>_ _. True, env_malloc_task = \<lambda>_. False, env_post = \<lambda>_. True\<rparr>"])
    (simp add: process_msg_def note_alloc_def sc_device_msg_destroy_def sc_receiver_init_def)

text \<open>
  A clipboard message that announces more text than fits into the receive buffer is never complete:
  once the buffer is full of it, the assertion on the buffer head fails and the client aborts.
\<close>

theorem oversized_clipboard_aborts:
  assumes "DEVICE_MSG_MAX_SIZE - 5 < unat n" "length buf = DEVICE_MSG_MAX_SIZE"
    and "length (0 # sc_write32be n @ payload) = DEVICE_MSG_MAX_SIZE"
  shows "run_receiver env r buf ((0 # sc_write32be n @ payload) # segs) = None"
  by (rule run_receiver_oversized [OF assms])

lemma oversized_clipboard_aborts_witness:
  "\<forall>env r. run_receiver env r (replicate DEVICE_MSG_MAX_SIZE 0)
     ((0 # sc_write32be 0x40000 @ replicate (DEVICE_MSG_MAX_SIZE - 5) 65) # []) = None"
  by (intro allI, rule oversized_clipboard_aborts) (simp_all add: DEVICE_MSG_MAX_SIZE_def)

end
