(* ===== verification/Sc_Fifo.thy ===== *)
theory Sc_Fifo
  imports Sc_Prelude
begin

text \<open>
  The contract of a queue as its clients rely on it: pushing appends or reports a failure and leaves
  the content alone, popping a queue that is not empty takes the oldest item, and neither aborts.
\<close>

locale fifo =
  fixes inv :: "'q \<Rightarrow> bool"
    and content :: "'q \<Rightarrow> 'a list"
    and push :: "'q \<Rightarrow> 'a \<Rightarrow> ('q \<times> bool) option"
    and pop :: "'q \<Rightarrow> ('a \<times> 'q) option"
  assumes push_spec: "inv q \<Longrightarrow> \<exists>q' ok. push q x = Some (q', ok) \<and> inv q' \<and>
      content q' = (if ok then content q @ [x] else content q)"
    and pop_spec: "inv q \<Longrightarrow> content q = x # xs \<Longrightarrow>
      \<exists>q'. pop q = Some (x, q') \<and> inv q' \<and> content q' = xs"
begin

lemma push_not_None: "inv q \<Longrightarrow> push q x \<noteq> None"
  using push_spec [of q x] by auto

lemma push_inv: "inv q \<Longrightarrow> push q x = Some (q', ok) \<Longrightarrow> inv q'"
  using push_spec [of q x] by auto

lemma push_content:
  "inv q \<Longrightarrow> push q x = Some (q', ok) \<Longrightarrow>
     content q' = (if ok then content q @ [x] else content q)"
  using push_spec [of q x] by auto

lemma pop_cases:
  assumes "inv q" "content q \<noteq> []"
  obtains q' where "pop q = Some (hd (content q), q')" "inv q'" "content q' = tl (content q)"
  using assms pop_spec [of q "hd (content q)" "tl (content q)"] by auto

end

text \<open>Any sequence of operations, and what it pushed and popped.\<close>

datatype 'a fifo_op = Push 'a | Pop

fun run_ops ::
    "('q \<Rightarrow> 'a \<Rightarrow> ('q \<times> bool) option) \<Rightarrow> ('q \<Rightarrow> ('a \<times> 'q) option) \<Rightarrow> ('q \<Rightarrow> bool) \<Rightarrow>
      'a fifo_op list \<Rightarrow> 'q \<Rightarrow> ('a list \<times> 'a list \<times> 'q) option" where
  "run_ops push pop is_empty [] q = Some ([], [], q)"
| "run_ops push pop is_empty (Push x # ops) q = do {
     (q, ok) \<leftarrow> push q x;
     (ins, outs, q) \<leftarrow> run_ops push pop is_empty ops q;
     Some (if ok then x # ins else ins, outs, q)
   }"
| "run_ops push pop is_empty (Pop # ops) q =
     (if is_empty q then run_ops push pop is_empty ops q
      else do {
        (x, q) \<leftarrow> pop q;
        (ins, outs, q) \<leftarrow> run_ops push pop is_empty ops q;
        Some (ins, x # outs, q)
      })"

context fifo
begin

text \<open>
  No sequence of operations aborts; what came out, followed by what is still there, is what was there
  followed by what was accepted: nothing is lost, duplicated or reordered.
\<close>

lemma run_ops_fifo:
  assumes e: "\<And>q. inv q \<Longrightarrow> is_empty q \<longleftrightarrow> content q = []"
  shows "inv q \<Longrightarrow> \<exists>ins outs q'. run_ops push pop is_empty ops q = Some (ins, outs, q') \<and>
    inv q' \<and> outs @ content q' = content q @ ins"
proof (induction ops arbitrary: q)
  case (Cons op ops)
  show ?case
  proof (cases op)
    case (Push x)
    obtain q1 ok where q1: "push q x = Some (q1, ok)" "inv q1"
      "content q1 = (if ok then content q @ [x] else content q)"
      using push_spec [OF Cons.prems, of x] by blast
    from Cons.IH [OF q1(2)] q1 Push show ?thesis by fastforce
  next
    case Pop
    show ?thesis
    proof (cases "content q")
      case Nil
      with Cons.IH [OF Cons.prems] Pop e [OF Cons.prems] show ?thesis by fastforce
    next
      case hd: (Cons x xs)
      from pop_spec [OF Cons.prems hd] obtain q1
        where q1: "pop q = Some (x, q1)" "inv q1" "content q1 = xs" by blast
      from Cons.IH [OF q1(2)] q1 Pop hd e [OF Cons.prems] show ?thesis by fastforce
    qed
  qed
qed simp

end

end
