(* ===== verification/Sc_Vecdeque.thy ===== *)
theory Sc_Vecdeque
  imports Sc_Fifo
begin

text \<open>
  \<open>util/vecdeque.h\<close>: a double-ended queue on a growable ring buffer, the queue of the controller, of
  the delay buffer, of the recorder, of the file pusher and of the AOA thread.

  The macros are generic over the item type; \<open>max_cap\<close> is \<open>SIZE_MAX / 2 / sizeof(item)\<close>. The array
  is the list of its cells, \<open>None\<close> for a cell without a value. \<open>alloc n\<close> tells whether allocating
  \<open>n\<close> items succeeds. Every assertion of the header is a branch that aborts.
  The private names of the header end with an underscore, which is left out here.
\<close>

record 'a sc_vecdeque =
  vd_cap :: nat
  vd_origin :: nat
  vd_size :: nat
  vd_data :: "'a option list"

definition sc_vecdeque_init :: "'a sc_vecdeque" where
  "sc_vecdeque_init = \<lparr>vd_cap = 0, vd_origin = 0, vd_size = 0, vd_data = []\<rparr>"

definition sc_vecdeque_is_empty :: "'a sc_vecdeque \<Rightarrow> bool" where
  "sc_vecdeque_is_empty pv \<longleftrightarrow> vd_size pv = 0"

definition sc_vecdeque_is_full :: "'a sc_vecdeque \<Rightarrow> bool" where
  "sc_vecdeque_is_full pv \<longleftrightarrow> vd_size pv = vd_cap pv"

definition SC_VECDEQUE_MINCAP :: nat where
  "SC_VECDEQUE_MINCAP = 10"

definition sc_vecdeque_max_cap :: "nat \<Rightarrow> nat" where
  "sc_vecdeque_max_cap item_size = SIZE_MAX div 2 div item_size"

text \<open>The result tells whether the array could be allocated.\<close>

definition sc_vecdeque_reallocdata ::
    "(nat \<Rightarrow> bool) \<Rightarrow> 'a sc_vecdeque \<Rightarrow> nat \<Rightarrow> ('a sc_vecdeque \<times> bool) option" where
  "sc_vecdeque_reallocdata alloc pv newcap =
     (let oldcap = vd_cap pv; oldorigin = vd_origin pv; size = vd_size pv; ptr = vd_data pv in
      do {
        c_assert (newcap > oldcap);
        if oldorigin + size \<le> oldcap then
          if \<not> alloc newcap then Some (pv, False)
          else Some (pv\<lparr>vd_cap := newcap, vd_data := ptr @ replicate (newcap - oldcap) None\<rparr>, True)
        else do {
          c_assert (size \<noteq> 0);
          if \<not> alloc newcap then Some (pv, False)
          else do {
            let newptr = replicate newcap None;
            let right_len = min size (oldcap - oldorigin);
            c_assert (right_len \<noteq> 0);
            right \<leftarrow> mem_read ptr oldorigin right_len;
            newptr \<leftarrow> mem_write newptr 0 right;
            newptr \<leftarrow>
              (if size > right_len then do {
                 left \<leftarrow> mem_read ptr 0 (size - right_len);
                 mem_write newptr right_len left
               } else Some newptr);
            Some (pv\<lparr>vd_cap := newcap, vd_origin := 0, vd_data := newptr\<rparr>, True)
          }
        }
      })"

definition sc_vecdeque_growsize :: "nat \<Rightarrow> nat" where
  "sc_vecdeque_growsize value = szw (value + value div 2)"

text \<open>\<open>CLAMP(v, x, y)\<close> on \<open>size_t\<close>.\<close>

definition sz_clamp :: "nat \<Rightarrow> nat \<Rightarrow> nat \<Rightarrow> nat" where
  "sz_clamp v x y = min (max v x) y"

definition sc_vecdeque_reserve ::
    "(nat \<Rightarrow> bool) \<Rightarrow> nat \<Rightarrow> 'a sc_vecdeque \<Rightarrow> nat \<Rightarrow> ('a sc_vecdeque \<times> bool) option" where
  "sc_vecdeque_reserve alloc max_cap pv mincap = do {
     c_assert (mincap \<le> max_cap);
     let mincap' = max mincap SC_VECDEQUE_MINCAP;
     if mincap' \<le> vd_cap pv then Some (pv, True)
     else if mincap' \<le> max_cap then
       (let newsize = sz_clamp (sc_vecdeque_growsize (vd_cap pv)) mincap' max_cap in
        sc_vecdeque_reallocdata alloc pv newsize)
     else Some (pv, False)
   }"

definition sc_vecdeque_grow ::
    "(nat \<Rightarrow> bool) \<Rightarrow> nat \<Rightarrow> 'a sc_vecdeque \<Rightarrow> ('a sc_vecdeque \<times> bool) option" where
  "sc_vecdeque_grow alloc max_cap pv =
     (if vd_cap pv < max_cap then
        (let newsize =
           sz_clamp (sc_vecdeque_growsize (vd_cap pv)) SC_VECDEQUE_MINCAP max_cap in
         sc_vecdeque_reallocdata alloc pv newsize)
      else Some (pv, False))"

definition sc_vecdeque_grow_if_needed ::
    "(nat \<Rightarrow> bool) \<Rightarrow> nat \<Rightarrow> 'a sc_vecdeque \<Rightarrow> ('a sc_vecdeque \<times> bool) option" where
  "sc_vecdeque_grow_if_needed alloc max_cap pv =
     (if \<not> sc_vecdeque_is_full pv then Some (pv, True) else sc_vecdeque_grow alloc max_cap pv)"

text \<open>The pointer returned for an uninitialized item is its index in the array.\<close>

definition sc_vecdeque_push_uninitialized_noresize ::
    "'a sc_vecdeque \<Rightarrow> ('a sc_vecdeque \<times> nat) option" where
  "sc_vecdeque_push_uninitialized_noresize pv = do {
     c_assert (\<not> sc_vecdeque_is_full pv);
     let pv = pv\<lparr>vd_size := vd_size pv + 1\<rparr>;
     Some (pv, (vd_origin pv + vd_size pv - 1) mod vd_cap pv)
   }"

definition sc_vecdeque_push_noresize :: "'a sc_vecdeque \<Rightarrow> 'a \<Rightarrow> 'a sc_vecdeque option" where
  "sc_vecdeque_push_noresize pv item = do {
     (pv, pos) \<leftarrow> sc_vecdeque_push_uninitialized_noresize pv;
     data \<leftarrow> mem_write (vd_data pv) pos [Some item];
     Some (pv\<lparr>vd_data := data\<rparr>)
   }"

definition sc_vecdeque_push ::
    "(nat \<Rightarrow> bool) \<Rightarrow> nat \<Rightarrow> 'a sc_vecdeque \<Rightarrow> 'a \<Rightarrow> ('a sc_vecdeque \<times> bool) option" where
  "sc_vecdeque_push alloc max_cap pv item = do {
     (pv, ok) \<leftarrow> sc_vecdeque_grow_if_needed alloc max_cap pv;
     if ok then do {
       pv \<leftarrow> sc_vecdeque_push_noresize pv item;
       Some (pv, True)
     } else Some (pv, False)
   }"

definition sc_vecdeque_popref :: "'a sc_vecdeque \<Rightarrow> (nat \<times> 'a sc_vecdeque) option" where
  "sc_vecdeque_popref pv = do {
     c_assert (\<not> sc_vecdeque_is_empty pv);
     let pos = vd_origin pv;
     let pv = pv\<lparr>vd_origin := (vd_origin pv + 1) mod vd_cap pv, vd_size := vd_size pv - 1\<rparr>;
     Some (pos, pv)
   }"

text \<open>Reading a cell that was never written aborts.\<close>

definition sc_vecdeque_pop :: "'a sc_vecdeque \<Rightarrow> ('a \<times> 'a sc_vecdeque) option" where
  "sc_vecdeque_pop pv = do {
     (pos, pv) \<leftarrow> sc_vecdeque_popref pv;
     cell \<leftarrow> arr_get (vd_data pv) pos;
     item \<leftarrow> cell;
     Some (item, pv)
   }"

section \<open>Invariant and content\<close>

definition vd_pos :: "'a sc_vecdeque \<Rightarrow> nat \<Rightarrow> nat" where
  "vd_pos pv i = (vd_origin pv + i) mod vd_cap pv"

definition vd_inv :: "nat \<Rightarrow> 'a sc_vecdeque \<Rightarrow> bool" where
  "vd_inv max_cap pv \<longleftrightarrow>
     length (vd_data pv) = vd_cap pv \<and> vd_size pv \<le> vd_cap pv \<and> vd_cap pv \<le> max_cap \<and>
     max_cap \<le> SIZE_MAX div 2 \<and> (vd_cap pv = 0 \<and> vd_origin pv = 0 \<or> vd_origin pv < vd_cap pv) \<and>
     (\<forall>i < vd_size pv. vd_data pv ! vd_pos pv i \<noteq> None)"

definition vd_content :: "'a sc_vecdeque \<Rightarrow> 'a list" where
  "vd_content pv = map (\<lambda>i. the (vd_data pv ! vd_pos pv i)) [0..<vd_size pv]"

section \<open>Facts\<close>

lemma growsize_eq: "v \<le> SIZE_MAX div 2 \<Longrightarrow> sc_vecdeque_growsize v = v + v div 2"
  unfolding sc_vecdeque_growsize_def by (rule szw_id) simp

lemma vd_content_length [simp]: "length (vd_content pv) = vd_size pv"
  by (simp add: vd_content_def)

lemma vd_content_nth: "i < vd_size pv \<Longrightarrow> vd_content pv ! i = the (vd_data pv ! vd_pos pv i)"
  by (simp add: vd_content_def)

lemma vd_content_empty: "vd_content pv = [] \<longleftrightarrow> sc_vecdeque_is_empty pv"
  by (simp add: vd_content_def sc_vecdeque_is_empty_def)

lemma vd_pos_lt: "vd_inv M pv \<Longrightarrow> vd_size pv \<noteq> 0 \<Longrightarrow> vd_pos pv i < vd_cap pv"
  by (auto simp: vd_inv_def vd_pos_def)

lemma vd_init:
  "M \<le> SIZE_MAX div 2 \<Longrightarrow> vd_inv M (sc_vecdeque_init :: 'a sc_vecdeque) \<and>
    vd_content (sc_vecdeque_init :: 'a sc_vecdeque) = []"
  by (simp add: vd_inv_def sc_vecdeque_init_def vd_content_def)

lemma mod_inj_window:
  fixes a b n :: nat
  assumes "a < b" "b < a + n"
  shows "a mod n \<noteq> b mod n"
proof
  assume "a mod n = b mod n"
  then have "n dvd b - a" using assms(1) by (metis less_imp_le_nat mod_eq_dvd_iff_nat)
  with assms show False by (auto dest: dvd_imp_le)
qed

lemma vd_pos_inj: "i < j \<Longrightarrow> j < vd_cap pv \<Longrightarrow> vd_pos pv i \<noteq> vd_pos pv j"
  unfolding vd_pos_def using mod_inj_window [of "vd_origin pv + i" "vd_origin pv + j" "vd_cap pv"] by auto

lemma push_noresize_spec:
  assumes "vd_inv M pv" "vd_size pv < vd_cap pv"
  shows "\<exists>pv'. sc_vecdeque_push_noresize pv x = Some pv' \<and> vd_inv M pv' \<and>
    vd_content pv' = vd_content pv @ [x] \<and> vd_cap pv' = vd_cap pv"
proof -
  let ?pos = "vd_pos pv (vd_size pv)"
  have pos: "?pos < vd_cap pv" using assms by (auto simp: vd_pos_def)
  have len: "length (vd_data pv) = vd_cap pv" using assms by (simp add: vd_inv_def)
  define pv' where "pv' = pv\<lparr>vd_size := Suc (vd_size pv), vd_data := mem_put (vd_data pv) ?pos [Some x]\<rparr>"
  have w: "mem_write (vd_data pv) ?pos [Some x] = Some (mem_put (vd_data pv) ?pos [Some x])"
    using pos len by simp
  have p: "sc_vecdeque_push_noresize pv x = Some pv'"
    using assms(2) w
    by (simp add: sc_vecdeque_push_noresize_def sc_vecdeque_push_uninitialized_noresize_def
        sc_vecdeque_is_full_def vd_pos_def pv'_def)
  have pos': "vd_pos pv' i = vd_pos pv i" for i by (simp add: vd_pos_def pv'_def)
  have posi: "vd_pos pv i < vd_cap pv" for i using assms by (auto simp: vd_pos_def)
  have cell: "vd_data pv' ! vd_pos pv i = (if i = vd_size pv then Some x else vd_data pv ! vd_pos pv i)"
    if "i \<le> vd_size pv" for i
    using that pos posi [of i] len assms(2) vd_pos_inj [of i "vd_size pv" pv]
    by (auto simp: pv'_def nth_mem_put)
  have inv: "vd_inv M pv'"
    using assms pos len cell unfolding vd_inv_def pos'
    by (auto simp: pv'_def less_Suc_eq)
  have "vd_content pv' = vd_content pv @ [x]"
  proof (rule nth_equalityI)
    fix i assume "i < length (vd_content pv')"
    then have "i \<le> vd_size pv" by (simp add: pv'_def)
    then show "vd_content pv' ! i = (vd_content pv @ [x]) ! i"
      using cell by (auto simp: vd_content_nth nth_append pos' pv'_def [THEN arg_cong [where f=vd_size]])
  qed (simp add: pv'_def)
  with p inv show ?thesis by (auto simp: pv'_def)
qed

lemma pop_vecdeque_spec:
  assumes "vd_inv M pv" "vd_content pv = x # xs"
  shows "\<exists>pv'. sc_vecdeque_pop pv = Some (x, pv') \<and> vd_inv M pv' \<and>
    vd_content pv' = xs \<and> vd_cap pv' = vd_cap pv"
proof -
  have size: "vd_size pv = Suc (length xs)" using arg_cong [OF assms(2), of length] by simp
  then have cap: "0 < vd_cap pv" "vd_origin pv < vd_cap pv" using assms(1) by (auto simp: vd_inv_def)
  have len: "length (vd_data pv) = vd_cap pv" using assms by (simp add: vd_inv_def)
  define pv' where "pv' = pv\<lparr>vd_origin := Suc (vd_origin pv) mod vd_cap pv, vd_size := length xs\<rparr>"
  have "vd_data pv ! vd_pos pv 0 \<noteq> None" using assms(1) size by (auto simp: vd_inv_def)
  moreover have "vd_pos pv 0 = vd_origin pv" using cap by (simp add: vd_pos_def)
  moreover have "the (vd_data pv ! vd_pos pv 0) = x"
    using vd_content_nth [of 0 pv] assms(2) size by simp
  ultimately have "vd_data pv ! vd_origin pv = Some x" by auto
  then have p: "sc_vecdeque_pop pv = Some (x, pv')"
    using size cap len
    by (simp add: sc_vecdeque_pop_def sc_vecdeque_popref_def sc_vecdeque_is_empty_def pv'_def)
  have pos': "vd_pos pv' i = vd_pos pv (Suc i)" for i
    by (simp add: vd_pos_def pv'_def mod_simps)
  have "vd_inv M pv'"
    using assms(1) size cap unfolding vd_inv_def pos' by (auto simp: pv'_def)
  moreover have "vd_content pv' = xs"
  proof (rule nth_equalityI)
    fix i assume "i < length (vd_content pv')"
    then have i: "i < length xs" "i < vd_size pv'" by (simp_all add: pv'_def)
    then have "vd_content pv' ! i = the (vd_data pv ! vd_pos pv (Suc i))"
      by (simp add: vd_content_nth pos') (simp add: pv'_def)
    also have "\<dots> = vd_content pv ! Suc i" using i size by (simp add: vd_content_nth)
    finally show "vd_content pv' ! i = xs ! i" by (simp add: assms(2))
  qed (simp add: pv'_def)
  ultimately show ?thesis using p by (auto simp: pv'_def)
qed

text \<open>Moving the array: the items stay, in the same order, in a larger array.\<close>

lemma realloc_in_place:
  assumes "vd_inv M pv" "vd_cap pv < newcap" "newcap \<le> M" "vd_origin pv + vd_size pv \<le> vd_cap pv"
  defines "pv' \<equiv> pv\<lparr>vd_cap := newcap, vd_data := vd_data pv @ replicate (newcap - vd_cap pv) None\<rparr>"
  shows "vd_inv M pv'" "vd_content pv' = vd_content pv"
proof -
  have pos: "vd_pos pv' i = vd_origin pv + i" "vd_pos pv i = vd_origin pv + i"
    if "i < vd_size pv" for i
    using that assms by (auto simp: vd_pos_def pv'_def)
  show "vd_content pv' = vd_content pv"
    by (rule nth_equalityI)
      (use assms pos in \<open>auto simp: pv'_def vd_content_nth nth_append vd_inv_def\<close>)
  show "vd_inv M pv'"
    using assms pos unfolding vd_inv_def by (auto simp: pv'_def nth_append)
qed

lemma realloc_moved:
  assumes "vd_inv M pv" "vd_cap pv < newcap" "newcap \<le> M" "vd_cap pv < vd_origin pv + vd_size pv"
    and "vd_data pv' = map Some (vd_content pv) @ replicate (newcap - vd_size pv) None"
    and "vd_cap pv' = newcap" "vd_origin pv' = 0" "vd_size pv' = vd_size pv"
  shows "vd_inv M pv'" "vd_content pv' = vd_content pv"
proof -
  have pos: "vd_pos pv' i = i" if "i < vd_size pv" for i
    using that assms by (simp add: vd_pos_def vd_inv_def)
  show "vd_content pv' = vd_content pv"
    by (rule nth_equalityI) (use assms pos in \<open>auto simp: vd_content_nth nth_append\<close>)
  show "vd_inv M pv'"
    using assms pos unfolding vd_inv_def by (auto simp: nth_append)
qed

lemma wrapped_cells:
  assumes "vd_inv M pv" "vd_cap pv < vd_origin pv + vd_size pv"
  shows "take (vd_cap pv - vd_origin pv) (drop (vd_origin pv) (vd_data pv)) @
      take (vd_size pv - (vd_cap pv - vd_origin pv)) (vd_data pv) =
    map Some (vd_content pv)"
proof (rule nth_equalityI)
  have len: "length (vd_data pv) = vd_cap pv" "vd_origin pv < vd_cap pv" "vd_size pv \<le> vd_cap pv"
    using assms by (auto simp: vd_inv_def)
  then show "length (take (vd_cap pv - vd_origin pv) (drop (vd_origin pv) (vd_data pv)) @
      take (vd_size pv - (vd_cap pv - vd_origin pv)) (vd_data pv)) = length (map Some (vd_content pv))"
    using assms(2) by simp
  fix i
  assume "i < length (take (vd_cap pv - vd_origin pv) (drop (vd_origin pv) (vd_data pv)) @
      take (vd_size pv - (vd_cap pv - vd_origin pv)) (vd_data pv))"
  then have i: "i < vd_size pv" using len assms(2) by simp
  moreover have "vd_pos pv i =
      (if i < vd_cap pv - vd_origin pv then vd_origin pv + i else i - (vd_cap pv - vd_origin pv))"
    using i len by (auto simp: vd_pos_def mod_lap)
  moreover have "vd_data pv ! vd_pos pv i \<noteq> None" using assms(1) i by (auto simp: vd_inv_def)
  ultimately show "(take (vd_cap pv - vd_origin pv) (drop (vd_origin pv) (vd_data pv)) @
      take (vd_size pv - (vd_cap pv - vd_origin pv)) (vd_data pv)) ! i = map Some (vd_content pv) ! i"
    using len by (auto simp: vd_content_nth nth_append)
qed

lemma reallocdata_spec:
  assumes "vd_inv M pv" "vd_cap pv < newcap" "newcap \<le> M"
  shows "\<exists>pv'. sc_vecdeque_reallocdata alloc pv newcap = Some (pv', alloc newcap) \<and> vd_inv M pv' \<and>
    vd_content pv' = vd_content pv \<and> vd_cap pv' = (if alloc newcap then newcap else vd_cap pv)"
proof (cases "alloc newcap")
  case False
  then show ?thesis using assms
    by (auto simp: sc_vecdeque_reallocdata_def Let_def vd_inv_def)
next
  case alloc: True
  show ?thesis
  proof (cases "vd_origin pv + vd_size pv \<le> vd_cap pv")
    case True
    then show ?thesis using realloc_in_place [OF assms True] alloc assms(2)
      by (simp add: sc_vecdeque_reallocdata_def Let_def)
  next
    case False
    have len: "length (vd_data pv) = vd_cap pv" "vd_origin pv < vd_cap pv" "vd_size pv \<le> vd_cap pv"
      using assms(1) False by (auto simp: vd_inv_def)
    let ?r = "vd_cap pv - vd_origin pv"
    let ?data = "map Some (vd_content pv) @ replicate (newcap - vd_size pv) None"
    have r: "min (vd_size pv) ?r = ?r" "?r \<noteq> 0" "?r < vd_size pv" using False len by simp_all
    have cells: "mem_write (mem_put (replicate newcap None) 0 (take ?r (drop (vd_origin pv) (vd_data pv))))
        ?r (take (vd_size pv - ?r) (vd_data pv)) = Some ?data"
      using wrapped_cells [OF assms(1)] False len assms(2) r
      by (subst mem_put_extend) (auto simp: mem_put_def)
    have "sc_vecdeque_reallocdata alloc pv newcap =
        Some (pv\<lparr>vd_cap := newcap, vd_origin := 0, vd_data := ?data\<rparr>, True)"
      using alloc False len assms(2) r cells
      by (simp add: sc_vecdeque_reallocdata_def Let_def)
    then show ?thesis
      using realloc_moved [OF assms, of "pv\<lparr>vd_cap := newcap, vd_origin := 0, vd_data := ?data\<rparr>"] False alloc
      by simp
  qed
qed

text \<open>Growing always asks for a larger capacity within the limit.\<close>

lemma grow_if_needed_spec:
  assumes "vd_inv M pv"
  shows "\<exists>pv' ok. sc_vecdeque_grow_if_needed alloc M pv = Some (pv', ok) \<and> vd_inv M pv' \<and>
    vd_content pv' = vd_content pv \<and> vd_cap pv \<le> vd_cap pv' \<and> (ok \<longrightarrow> vd_size pv' < vd_cap pv')"
proof (cases "vd_size pv < vd_cap pv")
  case True
  with assms show ?thesis
    by (auto simp: sc_vecdeque_grow_if_needed_def sc_vecdeque_is_full_def)
next
  case False
  then have full: "sc_vecdeque_is_full pv" "vd_size pv = vd_cap pv" using assms
    by (auto simp: vd_inv_def sc_vecdeque_is_full_def)
  show ?thesis
  proof (cases "vd_cap pv < M")
    case True
    let ?new = "sz_clamp (sc_vecdeque_growsize (vd_cap pv)) SC_VECDEQUE_MINCAP M"
    have M: "M \<le> SIZE_MAX div 2" using assms by (simp add: vd_inv_def)
    have new: "vd_cap pv < ?new" "?new \<le> M"
      using True M by (auto simp: sz_clamp_def growsize_eq SC_VECDEQUE_MINCAP_def)
    from reallocdata_spec [OF assms new, of alloc] obtain pv' where
      "sc_vecdeque_reallocdata alloc pv ?new = Some (pv', alloc ?new)" "vd_inv M pv'"
      "vd_content pv' = vd_content pv" "vd_cap pv' = (if alloc ?new then ?new else vd_cap pv)"
      by blast
    moreover from \<open>vd_content pv' = vd_content pv\<close> have "vd_size pv' = vd_size pv"
      by (metis vd_content_length)
    ultimately show ?thesis
      using full new True
      by (auto simp: sc_vecdeque_grow_if_needed_def sc_vecdeque_grow_def Let_def)
  next
    case False
    with full assms show ?thesis
      by (auto simp: sc_vecdeque_grow_if_needed_def sc_vecdeque_grow_def)
  qed
qed

lemma push_vecdeque_spec:
  assumes "vd_inv M pv"
  shows "\<exists>pv' ok. sc_vecdeque_push alloc M pv x = Some (pv', ok) \<and> vd_inv M pv' \<and>
    vd_content pv' = (if ok then vd_content pv @ [x] else vd_content pv) \<and> vd_cap pv \<le> vd_cap pv'"
proof -
  obtain pv1 ok where g: "sc_vecdeque_grow_if_needed alloc M pv = Some (pv1, ok)" "vd_inv M pv1"
    "vd_content pv1 = vd_content pv" "vd_cap pv \<le> vd_cap pv1" "ok \<longrightarrow> vd_size pv1 < vd_cap pv1"
    using grow_if_needed_spec [OF assms] by blast
  show ?thesis
  proof (cases ok)
    case True
    with push_noresize_spec [OF g(2), of x] g show ?thesis
      by (fastforce simp: sc_vecdeque_push_def)
  next
    case False
    with g show ?thesis by (auto simp: sc_vecdeque_push_def)
  qed
qed

lemma reserve_spec:
  assumes "vd_inv M pv" "mincap \<le> M"
  shows "\<exists>pv' ok. sc_vecdeque_reserve alloc M pv mincap = Some (pv', ok) \<and> vd_inv M pv' \<and>
    vd_content pv' = vd_content pv \<and> vd_cap pv \<le> vd_cap pv' \<and> (ok \<longrightarrow> mincap \<le> vd_cap pv')"
proof -
  let ?min = "max mincap SC_VECDEQUE_MINCAP"
  let ?new = "sz_clamp (sc_vecdeque_growsize (vd_cap pv)) ?min M"
  show ?thesis
  proof (cases "vd_cap pv < ?min \<and> ?min \<le> M")
    case True
    then have new: "vd_cap pv < ?new" "?new \<le> M" "mincap \<le> ?new"
      by (auto simp: sz_clamp_def)
    from reallocdata_spec [OF assms(1) new(1,2), of alloc] True new assms(2) show ?thesis
      by (auto simp: sc_vecdeque_reserve_def Let_def)
  next
    case False
    with assms show ?thesis
      by (auto simp: sc_vecdeque_reserve_def Let_def)
  qed
qed

text \<open>Popping until the queue is empty: what a component does with its queue when it is destroyed.\<close>

function vd_drain :: "'a sc_vecdeque \<Rightarrow> 'a list option" where
  "vd_drain queue =
     (if sc_vecdeque_is_empty queue then Some []
      else do {
        (item, queue) \<leftarrow> sc_vecdeque_pop queue;
        items \<leftarrow> vd_drain queue;
        Some (item # items)
      })"
  by pat_completeness auto

termination
  by (relation "measure vd_size")
    (auto simp: sc_vecdeque_pop_def sc_vecdeque_popref_def sc_vecdeque_is_empty_def
      split: bind_splits)

declare vd_drain.simps [simp del]

lemma vd_drain_spec: "vd_inv M q \<Longrightarrow> vd_drain q = Some (vd_content q)"
proof (induction "vd_content q" arbitrary: q)
  case Nil
  then have "sc_vecdeque_is_empty q" using vd_content_empty [of q] by simp
  with Nil show ?case by (subst vd_drain.simps) simp
next
  case (Cons m ms)
  have "\<not> sc_vecdeque_is_empty q"
    using Cons(2) by (metis vd_content_empty list.distinct(1))
  moreover from pop_vecdeque_spec [OF Cons(3) Cons(2) [symmetric]] obtain q' where
    "sc_vecdeque_pop q = Some (m, q')" "vd_inv M q'" "vd_content q' = ms" by blast
  ultimately show ?case using Cons(1) [of q'] Cons(2) by (subst vd_drain.simps) simp
qed

interpretation vd_fifo: fifo "vd_inv M" vd_content "sc_vecdeque_push alloc M" sc_vecdeque_pop
  for M alloc
proof unfold_locales
  fix q :: "'a sc_vecdeque" and x
  assume "vd_inv M q"
  from push_vecdeque_spec [OF this, of alloc x]
  show "\<exists>q' ok. sc_vecdeque_push alloc M q x = Some (q', ok) \<and> vd_inv M q' \<and>
      vd_content q' = (if ok then vd_content q @ [x] else vd_content q)"
    by blast
next
  fix q :: "'a sc_vecdeque" and x xs
  assume "vd_inv M q" "vd_content q = x # xs"
  from pop_vecdeque_spec [OF this]
  show "\<exists>q'. sc_vecdeque_pop q = Some (x, q') \<and> vd_inv M q' \<and> vd_content q' = xs"
    by blast
qed

lemma run_vecdeque_ops:
  assumes "vd_inv M pv"
  shows "\<exists>ins outs pv'.
    run_ops (sc_vecdeque_push alloc M) sc_vecdeque_pop sc_vecdeque_is_empty ops pv =
      Some (ins, outs, pv') \<and> vd_inv M pv' \<and> outs @ vd_content pv' = vd_content pv @ ins"
  by (rule vd_fifo.run_ops_fifo) (use assms in \<open>simp_all add: vd_content_empty\<close>)

section \<open>Properties\<close>

text \<open>
  C33: The ring buffer is a queue: starting from any well-formed state, no sequence of pushes and pops
  aborts (no failed assertion, no access outside the array, no read of an uninitialized cell), the
  state stays well-formed, and what was popped followed by what is left is what was there followed
  by what was accepted, whatever allocations fail.
\<close>

theorem vecdeque_is_fifo:
  assumes "vd_inv max_cap pv"
  shows "\<exists>ins outs pv'.
    run_ops (sc_vecdeque_push alloc max_cap) sc_vecdeque_pop sc_vecdeque_is_empty ops pv =
      Some (ins, outs, pv') \<and> vd_inv max_cap pv' \<and> outs @ vd_content pv' = vd_content pv @ ins"
  by (rule run_vecdeque_ops [OF assms])

lemma vecdeque_is_fifo_witness:
  "\<exists>ins outs pv'.
    run_ops (sc_vecdeque_push (\<lambda>_. True) 100) sc_vecdeque_pop sc_vecdeque_is_empty
      [Push (3 :: nat), Push 4, Pop] sc_vecdeque_init =
      Some (ins, outs, pv') \<and> vd_inv 100 pv' \<and> outs @ vd_content pv' = vd_content sc_vecdeque_init @ ins"
  by (rule vecdeque_is_fifo) (simp add: vd_init SIZE_MAX_def)

text \<open>
  Growing the ring buffer keeps its content and order, including when the content wraps around the
  end of the old array, and fails without a change when the allocation fails; after a successful
  reservation the requested capacity is there.
\<close>

theorem vecdeque_reserve_keeps_content:
  assumes "vd_inv max_cap pv" "mincap \<le> max_cap"
  shows "\<exists>pv' ok. sc_vecdeque_reserve alloc max_cap pv mincap = Some (pv', ok) \<and>
    vd_inv max_cap pv' \<and> vd_content pv' = vd_content pv \<and> vd_cap pv \<le> vd_cap pv' \<and>
    (ok \<longrightarrow> mincap \<le> vd_cap pv')"
  by (rule reserve_spec [OF assms])

lemma vecdeque_reserve_keeps_content_witness:
  "\<exists>pv' ok. sc_vecdeque_reserve (\<lambda>_. True) 100
      \<lparr>vd_cap = 2, vd_origin = 1, vd_size = 2, vd_data = [Some (8 :: nat), Some 7]\<rparr> 64 =
      Some (pv', ok) \<and> vd_inv 100 pv' \<and> vd_content pv' = [7, 8] \<and> 2 \<le> vd_cap pv'"
proof -
  let ?pv = "\<lparr>vd_cap = 2, vd_origin = 1, vd_size = 2, vd_data = [Some (8 :: nat), Some 7]\<rparr>"
  have "vd_inv 100 ?pv"
    by (auto simp: vd_inv_def vd_pos_def SIZE_MAX_def dest!: less_2_cases)
  moreover have "vd_content ?pv = [7, 8]"
    by (simp add: vd_pos_def vd_content_def upt_rec)
  ultimately show ?thesis
    using vecdeque_reserve_keeps_content [of 100 ?pv 64 "\<lambda>_. True"] by auto
qed

end
