(* ===== verification/Sc_Controller.thy ===== *)
theory Sc_Controller
  imports Sc_Vecdeque Sc_Control_Msg
begin

text \<open>
  \<open>controller.h\<close>, \<open>controller.c\<close>: the queue of control messages between the threads that produce them
  and the controller thread that serializes and sends them.

  The mutex makes each operation atomic: an operation returns the new state and whether it signals
  \<open>msg_cond\<close>. The thread is a small program counter: about to take the lock, waiting on the
  condition, processing a message, ended. The step relation interleaves it with any number of
  producers. \<open>M\<close> is the capacity limit of the queue; \<open>alloc\<close> decides allocations.
\<close>

definition SC_CONTROL_MSG_QUEUE_LIMIT :: nat where
  "SC_CONTROL_MSG_QUEUE_LIMIT = 60"

record sc_controller =
  ctl_stopped :: bool
  ctl_queue :: "sc_control_msg sc_vecdeque"
  ctl_resize_width :: u16
  ctl_resize_height :: u16

text \<open>The inner \<open>None\<close> is the result \<open>false\<close>.\<close>

definition sc_controller_init ::
    "(nat \<Rightarrow> bool) \<Rightarrow> nat \<Rightarrow> bool \<Rightarrow> bool \<Rightarrow> bool \<Rightarrow> sc_controller option option" where
  "sc_controller_init alloc M receiver_ok mutex_ok cond_ok = do {
     (queue, ok) \<leftarrow> sc_vecdeque_reserve alloc M sc_vecdeque_init (SC_CONTROL_MSG_QUEUE_LIMIT + 4);
     if \<not> ok then Some None
     else if \<not> receiver_ok then Some None
     else if \<not> mutex_ok then Some None
     else if \<not> cond_ok then Some None
     else Some (Some \<lparr>ctl_stopped = False, ctl_queue = queue, ctl_resize_width = 0,
       ctl_resize_height = 0\<rparr>)
   }"

text \<open>State, \<open>pushed\<close>, and whether the condition is signaled.\<close>

definition sc_controller_push_msg ::
    "(nat \<Rightarrow> bool) \<Rightarrow> nat \<Rightarrow> sc_controller \<Rightarrow> sc_control_msg \<Rightarrow>
      (sc_controller \<times> bool \<times> bool) option" where
  "sc_controller_push_msg alloc M controller msg = do {
     c_assert (sc_control_msg_type msg \<noteq> 21);
     let size = vd_size (ctl_queue controller);
     if size < SC_CONTROL_MSG_QUEUE_LIMIT then do {
       let was_empty = sc_vecdeque_is_empty (ctl_queue controller);
       queue \<leftarrow> sc_vecdeque_push_noresize (ctl_queue controller) msg;
       Some (controller\<lparr>ctl_queue := queue\<rparr>, True, was_empty)
     }
     else if \<not> sc_control_msg_is_droppable msg then do {
       (queue, ok) \<leftarrow> sc_vecdeque_push alloc M (ctl_queue controller) msg;
       Some (controller\<lparr>ctl_queue := queue\<rparr>, ok, False)
     }
     else Some (controller, False, False)
   }"

definition sc_controller_resize_display ::
    "sc_controller \<Rightarrow> u16 \<Rightarrow> u16 \<Rightarrow> (sc_controller \<times> bool) option" where
  "sc_controller_resize_display controller w h = do {
     c_assert (w \<noteq> 0 \<and> h \<noteq> 0);
     let was_set = ctl_resize_width controller \<noteq> 0;
     Some (controller\<lparr>ctl_resize_width := w, ctl_resize_height := h\<rparr>, \<not> was_set)
   }"

definition sc_controller_stop :: "sc_controller \<Rightarrow> sc_controller \<times> bool" where
  "sc_controller_stop controller = (controller\<lparr>ctl_stopped := True\<rparr>, True)"

text \<open>Popping everything: the messages that are destroyed.\<close>

definition destroy_queue :: "sc_control_msg sc_vecdeque \<Rightarrow> sc_control_msg list option" where
  "destroy_queue queue = vd_drain queue"

definition sc_controller_destroy :: "sc_controller \<Rightarrow> sc_control_msg list option" where
  "sc_controller_destroy controller = destroy_queue (ctl_queue controller)"

section \<open>The controller thread\<close>

text \<open>The results \<open>ok\<close> and \<open>eos\<close>, and the bytes that were sent completely.\<close>

definition controller_process_msg ::
    "(bytes \<Rightarrow> int) \<Rightarrow> bytes \<Rightarrow> sc_control_msg \<Rightarrow> (bool \<times> bool \<times> bytes) option" where
  "controller_process_msg net_send_all serialized_msg msg = do {
     (serialized_msg, n) \<leftarrow> sc_control_msg_serialize msg serialized_msg;
     if n = 0 then Some (False, False, [])
     else
       (let data = take n serialized_msg; w = net_send_all data in
        if w \<noteq> int n then Some (False, True, []) else Some (True, False, data))
   }"

datatype controller_take = Take_wait | Take_stopped | Take_msg sc_control_msg

text \<open>From taking the lock to waiting or releasing it.\<close>

definition controller_take ::
    "sc_controller \<Rightarrow> (controller_take \<times> sc_controller) option" where
  "controller_take controller =
     (if \<not> ctl_stopped controller \<and> ctl_resize_width controller = 0
         \<and> sc_vecdeque_is_empty (ctl_queue controller)
      then Some (Take_wait, controller)
      else if ctl_stopped controller then Some (Take_stopped, controller)
      else do {
        let has_resize_display = ctl_resize_width controller \<noteq> 0;
        c_assert (has_resize_display \<or> \<not> sc_vecdeque_is_empty (ctl_queue controller));
        if has_resize_display then
          Some (Take_msg (RESIZE_DISPLAY (ctl_resize_width controller)
                  (ctl_resize_height controller)),
                controller\<lparr>ctl_resize_width := 0, ctl_resize_height := 0\<rparr>)
        else do {
          (msg, queue) \<leftarrow> sc_vecdeque_pop (ctl_queue controller);
          Some (Take_msg msg, controller\<lparr>ctl_queue := queue\<rparr>)
        }
      })"

datatype controller_pc = At_lock | Waiting | Processing sc_control_msg | Ended bool

text \<open>
  The system: the shared state, the thread, and as histories the messages accepted by
  \<open>sc_controller_push_msg\<close>, the messages the thread has taken, those it has sent, and the bytes on the
  control socket.
\<close>

record ctl_system =
  sys_ctl :: sc_controller
  sys_pc :: controller_pc
  sys_accepted :: "sc_control_msg list"
  sys_taken :: "sc_control_msg list"
  sys_done :: "sc_control_msg list"
  sys_sent :: bytes

definition ctl_signal :: "bool \<Rightarrow> controller_pc \<Rightarrow> controller_pc" where
  "ctl_signal signal pc = (if signal \<and> pc = Waiting then At_lock else pc)"

fun after_take :: "controller_take \<Rightarrow> controller_pc" where
  "after_take Take_wait = Waiting"
| "after_take Take_stopped = Ended False"
| "after_take (Take_msg msg) = Processing msg"

fun taken_msgs :: "controller_take \<Rightarrow> sc_control_msg list" where
  "taken_msgs (Take_msg msg) = [msg]"
| "taken_msgs _ = []"

inductive ctl_step :: "nat \<Rightarrow> ctl_system \<Rightarrow> ctl_system \<Rightarrow> bool" for M where
  push: "sc_controller_push_msg alloc M (sys_ctl s) msg = Some (c, pushed, signal) \<Longrightarrow>
    ctl_step M s (s\<lparr>sys_ctl := c, sys_pc := ctl_signal signal (sys_pc s),
      sys_accepted := sys_accepted s @ (if pushed then [msg] else [])\<rparr>)"
| resize: "sc_controller_resize_display (sys_ctl s) w h = Some (c, signal) \<Longrightarrow>
    ctl_step M s (s\<lparr>sys_ctl := c, sys_pc := ctl_signal signal (sys_pc s)\<rparr>)"
| stop: "sc_controller_stop (sys_ctl s) = (c, signal) \<Longrightarrow>
    ctl_step M s (s\<lparr>sys_ctl := c, sys_pc := ctl_signal signal (sys_pc s)\<rparr>)"
| take: "sys_pc s = At_lock \<Longrightarrow> controller_take (sys_ctl s) = Some (t, c) \<Longrightarrow>
    ctl_step M s (s\<lparr>sys_ctl := c, sys_pc := after_take t,
      sys_taken := sys_taken s @ taken_msgs t\<rparr>)"
| spurious: "sys_pc s = Waiting \<Longrightarrow> ctl_step M s (s\<lparr>sys_pc := At_lock\<rparr>)"
| process: "sys_pc s = Processing msg \<Longrightarrow>
    length buf = SC_CONTROL_MSG_MAX_SIZE \<Longrightarrow>
    controller_process_msg net_send_all buf msg = Some (ok, eos, data) \<Longrightarrow>
    ctl_step M s (s\<lparr>sys_pc := (if ok then At_lock else Ended (\<not> eos)),
      sys_done := sys_done s @ (if ok then [msg] else []), sys_sent := sys_sent s @ data\<rparr>)"

inductive_cases ctl_stepE: "ctl_step M s s'"

inductive ctl_reachable :: "nat \<Rightarrow> ctl_system \<Rightarrow> bool" for M where
  start: "sc_controller_init alloc M True True True = Some (Some c) \<Longrightarrow>
    ctl_reachable M \<lparr>sys_ctl = c, sys_pc = At_lock, sys_accepted = [], sys_taken = [],
      sys_done = [], sys_sent = []\<rparr>"
| step: "ctl_reachable M s \<Longrightarrow> ctl_step M s s' \<Longrightarrow> ctl_reachable M s'"

section \<open>Invariants\<close>

definition not_resize :: "sc_control_msg \<Rightarrow> bool" where
  "not_resize msg \<longleftrightarrow> sc_control_msg_type msg \<noteq> 21"

text \<open>
  Invariant: the queue is well-formed with room for the limit plus four; only other messages than
  resizes are queued; and the thread waits only when there is nothing to do.
\<close>

definition ctl_inv :: "nat \<Rightarrow> sc_controller \<Rightarrow> bool" where
  "ctl_inv M c \<longleftrightarrow>
     vd_inv M (ctl_queue c) \<and> SC_CONTROL_MSG_QUEUE_LIMIT + 4 \<le> vd_cap (ctl_queue c) \<and>
     list_all not_resize (vd_content (ctl_queue c)) \<and>
     (ctl_resize_width c = 0 \<longleftrightarrow> ctl_resize_height c = 0)"

definition ctl_idle :: "sc_controller \<Rightarrow> bool" where
  "ctl_idle c \<longleftrightarrow>
     \<not> ctl_stopped c \<and> ctl_resize_width c = 0 \<and> vd_content (ctl_queue c) = []"

lemma ctl_init_inv:
  assumes "SC_CONTROL_MSG_QUEUE_LIMIT + 4 \<le> M" "M \<le> SIZE_MAX div 2"
    and "sc_controller_init alloc M a b d = Some (Some c)"
  shows "ctl_inv M c \<and> ctl_idle c"
proof -
  note i = vd_init [OF assms(2)]
  from reserve_spec [OF conjunct1 [OF i] assms(1), of alloc] obtain pv :: "sc_control_msg sc_vecdeque" and ok where
    "sc_vecdeque_reserve alloc M sc_vecdeque_init (SC_CONTROL_MSG_QUEUE_LIMIT + 4) = Some (pv, ok)"
    "vd_inv M pv" "vd_content pv = []" "ok \<longrightarrow> SC_CONTROL_MSG_QUEUE_LIMIT + 4 \<le> vd_cap pv"
    unfolding conjunct2 [OF i] by blast
  with assms(3) show ?thesis
    by (auto simp: sc_controller_init_def ctl_inv_def ctl_idle_def split: if_splits)
qed

lemma push_msg_spec:
  assumes "ctl_inv M c" "not_resize msg"
  shows "\<exists>c' pushed. sc_controller_push_msg alloc M c msg =
      Some (c', pushed, vd_content (ctl_queue c) = []) \<and>
    ctl_inv M c' \<and> ctl_stopped c' = ctl_stopped c \<and> ctl_resize_width c' = ctl_resize_width c \<and>
    ctl_resize_height c' = ctl_resize_height c \<and>
    vd_content (ctl_queue c') = vd_content (ctl_queue c) @ (if pushed then [msg] else []) \<and>
    (vd_size (ctl_queue c) < 60 \<longrightarrow> pushed) \<and>
    (60 \<le> vd_size (ctl_queue c) \<and> sc_control_msg_is_droppable msg \<longrightarrow> \<not> pushed)"
proof (cases "vd_size (ctl_queue c) < SC_CONTROL_MSG_QUEUE_LIMIT")
  case True
  with assms(1) have "vd_inv M (ctl_queue c)" "vd_size (ctl_queue c) < vd_cap (ctl_queue c)"
    by (auto simp: ctl_inv_def)
  from push_noresize_spec [OF this, of msg] obtain q where
    q: "sc_vecdeque_push_noresize (ctl_queue c) msg = Some q" "vd_inv M q"
      "vd_content q = vd_content (ctl_queue c) @ [msg]" "vd_cap q = vd_cap (ctl_queue c)"
    by blast
  with True assms show ?thesis
    by (auto simp: sc_controller_push_msg_def not_resize_def ctl_inv_def vd_content_empty
        SC_CONTROL_MSG_QUEUE_LIMIT_def)
next
  case False
  then have ne: "vd_content (ctl_queue c) \<noteq> []"
    by (auto simp: SC_CONTROL_MSG_QUEUE_LIMIT_def vd_content_empty sc_vecdeque_is_empty_def)
  show ?thesis
  proof (cases "sc_control_msg_is_droppable msg")
    case True
    with False assms ne show ?thesis
      by (auto simp: sc_controller_push_msg_def not_resize_def SC_CONTROL_MSG_QUEUE_LIMIT_def)
  next
    case nd: False
    from assms(1) have "vd_inv M (ctl_queue c)" by (simp add: ctl_inv_def)
    from push_vecdeque_spec [OF this, of alloc msg] obtain q ok where
      q: "sc_vecdeque_push alloc M (ctl_queue c) msg = Some (q, ok)" "vd_inv M q"
        "vd_content q = (if ok then vd_content (ctl_queue c) @ [msg] else vd_content (ctl_queue c))"
        "vd_cap (ctl_queue c) \<le> vd_cap q"
      by blast
    with False nd assms ne show ?thesis
      by (auto simp: sc_controller_push_msg_def not_resize_def ctl_inv_def
        SC_CONTROL_MSG_QUEUE_LIMIT_def)
  qed
qed

text \<open>The four extra places: a message that may not be dropped needs no allocation there.\<close>

lemma push_msg_reserved:
  assumes "ctl_inv M c" "not_resize msg" "\<not> sc_control_msg_is_droppable msg"
    and "vd_size (ctl_queue c) < SC_CONTROL_MSG_QUEUE_LIMIT + 4"
  shows "\<exists>c' signal. sc_controller_push_msg alloc M c msg = Some (c', True, signal)"
proof -
  have "vd_inv M (ctl_queue c)" "vd_size (ctl_queue c) < vd_cap (ctl_queue c)"
    using assms by (auto simp: ctl_inv_def)
  from push_noresize_spec [OF this, of msg] show ?thesis
    using assms(2,3,4) \<open>vd_size _ < vd_cap _\<close>
    by (auto simp: sc_controller_push_msg_def sc_vecdeque_push_def sc_vecdeque_grow_if_needed_def
        sc_vecdeque_is_full_def not_resize_def)
qed

lemma take_spec:
  assumes "ctl_inv M c"
  shows "\<exists>t c'. controller_take c = Some (t, c') \<and> ctl_inv M c' \<and>
    (t = Take_wait \<longleftrightarrow> ctl_idle c) \<and> (t = Take_wait \<longrightarrow> c' = c) \<and>
    (t = Take_stopped \<longleftrightarrow> ctl_stopped c) \<and>
    filter not_resize (taken_msgs t) @ vd_content (ctl_queue c') = vd_content (ctl_queue c) \<and>
    (\<not> ctl_stopped c \<and> ctl_resize_width c \<noteq> 0 \<longrightarrow>
      t = Take_msg (RESIZE_DISPLAY (ctl_resize_width c) (ctl_resize_height c)) \<and>
      ctl_resize_width c' = 0)"
proof (cases "ctl_stopped c \<or> ctl_resize_width c \<noteq> 0 \<or> vd_content (ctl_queue c) = []")
  case True
  with assms show ?thesis
    by (auto simp: controller_take_def ctl_idle_def ctl_inv_def vd_content_empty not_resize_def)
next
  case False
  then obtain m ms where c: "vd_content (ctl_queue c) = m # ms" by (auto simp: neq_Nil_conv)
  then have ne: "\<not> sc_vecdeque_is_empty (ctl_queue c)" by (metis vd_content_empty list.distinct(1))
  from assms have "vd_inv M (ctl_queue c)" by (simp add: ctl_inv_def)
  from pop_vecdeque_spec [OF this c] obtain q where
    "sc_vecdeque_pop (ctl_queue c) = Some (m, q)" "vd_inv M q" "vd_content q = ms"
    "vd_cap q = vd_cap (ctl_queue c)"
    by blast
  with False assms c ne show ?thesis
    by (auto simp: controller_take_def ctl_idle_def ctl_inv_def)
qed

lemma resize_display_eq:
  "sc_controller_resize_display c w h =
    (if w \<noteq> 0 \<and> h \<noteq> 0
     then Some (c\<lparr>ctl_resize_width := w, ctl_resize_height := h\<rparr>, ctl_resize_width c = 0)
     else None)"
  by (auto simp: sc_controller_resize_display_def c_assert_def)

definition sys_inv :: "nat \<Rightarrow> ctl_system \<Rightarrow> bool" where
  "sys_inv M s \<longleftrightarrow>
     ctl_inv M (sys_ctl s) \<and> (sys_pc s = Waiting \<longrightarrow> ctl_idle (sys_ctl s)) \<and>
     sys_accepted s = filter not_resize (sys_taken s) @ vd_content (ctl_queue (sys_ctl s))"

lemma sys_inv_step:
  assumes "ctl_step M s s'" "sys_inv M s"
  shows "sys_inv M s'"
  using assms(1)
proof (cases rule: ctl_step.cases)
  case (push alloc msg c pushed signal)
  then have nr: "not_resize msg"
    by (auto simp: sc_controller_push_msg_def not_resize_def split: if_splits)
  from push_msg_spec [OF _ nr, of M "sys_ctl s" alloc] push assms(2)
  show ?thesis by (auto simp: sys_inv_def ctl_signal_def ctl_idle_def)
next
  case (resize w h c signal)
  with assms(2) show ?thesis
    by (auto simp: resize_display_eq sys_inv_def ctl_inv_def ctl_idle_def
        ctl_signal_def split: if_splits)
next
  case (stop c signal)
  with assms(2) show ?thesis
    by (auto simp: sc_controller_stop_def sys_inv_def ctl_inv_def ctl_signal_def split: if_splits)
next
  case (take t c)
  with take_spec [of M "sys_ctl s"] assms(2) show ?thesis
    by (cases t) (auto simp: sys_inv_def)
next
  case spurious
  with assms(2) show ?thesis by (auto simp: sys_inv_def)
next
  case (process msg buf net_send_all ok eos data)
  with assms(2) show ?thesis by (auto simp: sys_inv_def)
qed

lemma reachable_sys_inv:
  assumes "ctl_reachable M s" "SC_CONTROL_MSG_QUEUE_LIMIT + 4 \<le> M" "M \<le> SIZE_MAX div 2"
  shows "sys_inv M s"
  using assms(1)
proof induction
  case (start alloc c)
  from ctl_init_inv [OF assms(2,3) start] show ?case
    by (auto simp: sys_inv_def ctl_idle_def)
qed (rule sys_inv_step)

section \<open>What the thread has sent\<close>

lemma process_msg_sends:
  assumes "length buf = SC_CONTROL_MSG_MAX_SIZE"
    and "controller_process_msg net_send_all buf msg = Some (ok, eos, data)"
  shows "if ok then known_type msg \<and> control_msg_wire msg = Some data else data = []"
proof (cases "known_type msg")
  case True
  with assms show ?thesis
    by (auto simp: controller_process_msg_def serialize_wire take_mem_put_0 Let_def
        split: bind_splits if_splits)
next
  case False
  then obtain t where "msg = UNKNOWN t" by (cases msg) (auto simp: known_type_def)
  with assms show ?thesis
    by (auto simp: controller_process_msg_def sc_control_msg_serialize_def split: bind_splits)
qed

text \<open>What the thread still has to send of the messages it has taken.\<close>

definition sent_inv :: "ctl_system \<Rightarrow> bool" where
  "sent_inv s \<longleftrightarrow>
     (\<exists>ws. list_all2 (\<lambda>m w. known_type m \<and> control_msg_wire m = Some w) (sys_done s) ws \<and>
        sys_sent s = concat ws) \<and>
     (case sys_pc s of
        At_lock \<Rightarrow> sys_taken s = sys_done s
      | Waiting \<Rightarrow> sys_taken s = sys_done s
      | Processing m \<Rightarrow> sys_taken s = sys_done s @ [m]
      | Ended _ \<Rightarrow> \<exists>ms. sys_taken s = sys_done s @ ms)"

lemma sent_inv_signal:
  "sent_inv s \<Longrightarrow> sent_inv (s\<lparr>sys_ctl := c, sys_pc := ctl_signal b (sys_pc s), sys_accepted := a\<rparr>)"
  "sent_inv s \<Longrightarrow> sent_inv (s\<lparr>sys_ctl := c, sys_pc := ctl_signal b (sys_pc s)\<rparr>)"
  by (cases "sys_pc s"; auto simp: sent_inv_def ctl_signal_def)+

lemma sent_inv_step:
  assumes "ctl_step M s s'" "sent_inv s"
  shows "sent_inv s'"
  using assms(1)
proof (cases rule: ctl_step.cases)
  case (process msg buf net_send_all ok eos data)
  from assms(2) obtain ws where ws:
    "list_all2 (\<lambda>m w. known_type m \<and> control_msg_wire m = Some w) (sys_done s) ws"
    "sys_sent s = concat ws" "sys_taken s = sys_done s @ [msg]"
    using process(2) by (auto simp: sent_inv_def)
  note p = process_msg_sends [OF process(3,4)]
  show ?thesis
  proof (cases ok)
    case True
    with p ws(1) have
      "list_all2 (\<lambda>m w. known_type m \<and> control_msg_wire m = Some w) (sys_done s @ [msg]) (ws @ [data])"
      by (simp add: list_all2_appendI)
    moreover have "sys_sent s @ data = concat (ws @ [data])" using ws(2) by simp
    ultimately show ?thesis using True ws(3) process(1)
      by (auto simp: sent_inv_def intro!: exI [of _ "ws @ [data]"])
  next
    case False
    with p ws process(1) show ?thesis by (auto simp: sent_inv_def)
  qed
next
  case (take t c)
  with assms(2) show ?thesis by (cases t) (auto simp: sent_inv_def)
qed (use assms(2) sent_inv_signal in \<open>auto simp: sent_inv_def\<close>)

lemma reachable_sent_inv: "ctl_reachable M s \<Longrightarrow> sent_inv s"
proof (induction rule: ctl_reachable.induct)
  case (start alloc c)
  then show ?case by (simp add: sent_inv_def)
next
  case (step s s')
  then show ?case using sent_inv_step by blast
qed

text \<open>Without a failure, the thread alone takes everything that is queued, in order, then waits.\<close>

fun controller_takes :: "nat \<Rightarrow> sc_controller \<Rightarrow> (controller_take list \<times> sc_controller) option" where
  "controller_takes 0 c = Some ([], c)"
| "controller_takes (Suc n) c = do {
     (t, c) \<leftarrow> controller_take c;
     (ts, c) \<leftarrow> controller_takes n c;
     Some (t # ts, c)
   }"

lemma controller_takes_all:
  assumes "ctl_inv M c" "\<not> ctl_stopped c" "ctl_resize_width c = 0"
  shows "\<exists>c'. controller_takes (Suc (vd_size (ctl_queue c))) c =
      Some (map Take_msg (vd_content (ctl_queue c)) @ [Take_wait], c') \<and> ctl_inv M c' \<and> ctl_idle c'"
  using assms
proof (induction "vd_content (ctl_queue c)" arbitrary: c)
  case Nil
  then have "ctl_idle c" by (simp add: ctl_idle_def)
  moreover have "vd_size (ctl_queue c) = 0" using Nil(1) vd_content_length [of "ctl_queue c"] by simp
  ultimately show ?case using take_spec [OF Nil(2)] Nil by auto
next
  case (Cons m ms)
  then have inv: "vd_inv M (ctl_queue c)" by (simp add: ctl_inv_def)
  from pop_vecdeque_spec [OF inv Cons(2) [symmetric]] obtain q where
    q: "sc_vecdeque_pop (ctl_queue c) = Some (m, q)" "vd_inv M q" "vd_content q = ms"
    "vd_cap q = vd_cap (ctl_queue c)" by blast
  have ne: "\<not> sc_vecdeque_is_empty (ctl_queue c)"
    using Cons(2) by (metis vd_content_empty list.distinct(1))
  let ?c = "c\<lparr>ctl_queue := q\<rparr>"
  have t: "controller_take c = Some (Take_msg m, ?c)"
    using q ne Cons.prems by (simp add: controller_take_def)
  have "list_all not_resize (m # ms)" using Cons(2) Cons.prems(1) by (simp add: ctl_inv_def)
  then have "ctl_inv M ?c" using q Cons.prems(1) by (simp add: ctl_inv_def)
  moreover have "ms = vd_content (ctl_queue ?c)" using q by simp
  ultimately obtain c' where "controller_takes (Suc (vd_size q)) ?c =
      Some (map Take_msg ms @ [Take_wait], c')" "ctl_inv M c'" "ctl_idle c'"
    using Cons.hyps(1) [of ?c] Cons.prems by auto
  moreover have "vd_size (ctl_queue c) = Suc (vd_size q)"
    using q(3) Cons(2) vd_content_length [of q] vd_content_length [of "ctl_queue c"]
    by (metis length_Cons)
  moreover have "vd_content (ctl_queue c) = m # ms" using Cons(2) by simp
  ultimately show ?case
    by (subst controller_takes.simps) (simp add: t del: controller_takes.simps)
qed

text \<open>Destroying the controller destroys every message that was not sent, once.\<close>

lemma destroy_queue_spec: "vd_inv M q \<Longrightarrow> destroy_queue q = Some (vd_content q)"
  by (simp add: destroy_queue_def vd_drain_spec)

lemma init_example:
  "\<exists>c. sc_controller_init (\<lambda>_. True) 1000 True True True = Some (Some c)"
proof -
  have M: "1000 \<le> SIZE_MAX div 2" by (simp add: SIZE_MAX_def)
  have "vd_inv 1000 (sc_vecdeque_init :: sc_control_msg sc_vecdeque)" using vd_init [OF M] by blast
  moreover have "vd_cap (sc_vecdeque_init :: sc_control_msg sc_vecdeque) < 64"
    by (simp add: sc_vecdeque_init_def)
  moreover have "sz_clamp (sc_vecdeque_growsize (vd_cap (sc_vecdeque_init :: sc_control_msg sc_vecdeque))) 64 1000 = 64"
    by (simp add: sz_clamp_def sc_vecdeque_growsize_def szw_def sc_vecdeque_init_def)
  ultimately show ?thesis
    using reallocdata_spec [of 1000 "sc_vecdeque_init :: sc_control_msg sc_vecdeque" 64 "\<lambda>_. True"]
    by (auto simp: sc_controller_init_def sc_vecdeque_reserve_def SC_CONTROL_MSG_QUEUE_LIMIT_def
        SC_VECDEQUE_MINCAP_def Let_def)
qed

lemma reachable_examples:
  "\<exists>c. ctl_reachable 1000 \<lparr>sys_ctl = c, sys_pc = At_lock, sys_accepted = [], sys_taken = [],
     sys_done = [], sys_sent = []\<rparr> \<and> ctl_idle c \<and> ctl_inv 1000 c"
  "\<exists>s. ctl_reachable 1000 s \<and> sys_pc s = Waiting"
proof -
  obtain c where c: "sc_controller_init (\<lambda>_. True) 1000 True True True = Some (Some c)"
    using init_example by blast
  let ?s = "\<lparr>sys_ctl = c, sys_pc = At_lock, sys_accepted = [], sys_taken = [],
     sys_done = [], sys_sent = []\<rparr>"
  note r = ctl_reachable.start [OF c]
  have i: "ctl_inv 1000 c" "ctl_idle c"
    using ctl_init_inv [OF _ _ c] by (simp_all add: SC_CONTROL_MSG_QUEUE_LIMIT_def SIZE_MAX_def)
  with r show "\<exists>c. ctl_reachable 1000 \<lparr>sys_ctl = c, sys_pc = At_lock, sys_accepted = [], sys_taken = [],
     sys_done = [], sys_sent = []\<rparr> \<and> ctl_idle c \<and> ctl_inv 1000 c" by blast
  have "controller_take (sys_ctl ?s) = Some (Take_wait, c)"
    using i by (simp add: controller_take_def ctl_idle_def vd_content_empty)
  from ctl_reachable.step [OF r ctl_step.take [OF _ this]]
  have w: "ctl_reachable 1000 (?s\<lparr>sys_pc := Waiting\<rparr>)" by simp
  show "\<exists>s. ctl_reachable 1000 s \<and> sys_pc s = Waiting"
    by (rule exI [of _ "?s\<lparr>sys_pc := Waiting\<rparr>"], rule conjI [OF w]) simp
qed

section \<open>Properties\<close>

text \<open>
  C21: No lost wake-up: in every reachable interleaving of producers, resizes, stop and the controller
  thread, the thread waits on the condition only when it is not stopped, no resize is pending and the
  queue is empty, although a push signals only when the queue was empty, a push above the limit
  never signals and a resize signals only when none was pending.
\<close>

theorem controller_no_lost_wakeup:
  assumes "ctl_reachable M s" "64 \<le> M" "M \<le> SIZE_MAX div 2" "sys_pc s = Waiting"
  shows "\<not> ctl_stopped (sys_ctl s) \<and> ctl_resize_width (sys_ctl s) = 0 \<and>
    vd_content (ctl_queue (sys_ctl s)) = []"
  using reachable_sys_inv [OF assms(1)] assms(2-)
  by (simp add: sys_inv_def ctl_idle_def SC_CONTROL_MSG_QUEUE_LIMIT_def)

lemma controller_no_lost_wakeup_witness:
  "\<exists>s. ctl_reachable 1000 s \<and> sys_pc s = Waiting \<and> \<not> ctl_stopped (sys_ctl s) \<and>
    ctl_resize_width (sys_ctl s) = 0 \<and> vd_content (ctl_queue (sys_ctl s)) = []"
proof -
  obtain s where s: "ctl_reachable 1000 s" "sys_pc s = Waiting" using reachable_examples(2) by blast
  from controller_no_lost_wakeup [OF s(1) _ _ s(2)] s show ?thesis by (auto simp: SIZE_MAX_def)
qed

text \<open>
  C26: The controller is first-in first-out: in every reachable state, the messages the thread has taken
  (the resizes left out, which bypass the queue), followed by the queue, are exactly the messages
  that were accepted, in the order in which they were accepted.
\<close>

theorem controller_fifo:
  assumes "ctl_reachable M s" "64 \<le> M" "M \<le> SIZE_MAX div 2"
  shows "filter (\<lambda>m. sc_control_msg_type m \<noteq> 21) (sys_taken s) @ vd_content (ctl_queue (sys_ctl s)) =
    sys_accepted s"
proof -
  have "not_resize = (\<lambda>m. sc_control_msg_type m \<noteq> 21)" by (intro ext) (simp add: not_resize_def)
  then show ?thesis
    using reachable_sys_inv [OF assms(1)] assms(2-)
    by (simp add: sys_inv_def SC_CONTROL_MSG_QUEUE_LIMIT_def)
qed

lemma controller_fifo_witness:
  "\<exists>s. ctl_reachable 1000 s \<and>
    filter (\<lambda>m. sc_control_msg_type m \<noteq> 21) (sys_taken s) @ vd_content (ctl_queue (sys_ctl s)) =
    sys_accepted s"
proof -
  obtain s where s: "ctl_reachable 1000 s" using reachable_examples(2) by blast
  from controller_fifo [OF this] s show ?thesis by (auto simp: SIZE_MAX_def)
qed

text \<open>
  Admission: below the limit every message is accepted; at the limit a droppable message is refused
  and changes nothing, while a UHID creation or destruction is still accepted, without any
  allocation for the first four of them. No push aborts, not even through the push that never
  resizes the queue.
\<close>

theorem controller_admission:
  assumes "ctl_inv M c" "sc_control_msg_type msg \<noteq> 21"
  shows "\<exists>c' pushed signal. sc_controller_push_msg alloc M c msg = Some (c', pushed, signal) \<and>
    ctl_inv M c' \<and>
    vd_content (ctl_queue c') = vd_content (ctl_queue c) @ (if pushed then [msg] else []) \<and>
    (vd_size (ctl_queue c) < 60 \<longrightarrow> pushed) \<and>
    (60 \<le> vd_size (ctl_queue c) \<longrightarrow> sc_control_msg_is_droppable msg \<longrightarrow> \<not> pushed) \<and>
    (vd_size (ctl_queue c) < 64 \<longrightarrow> \<not> sc_control_msg_is_droppable msg \<longrightarrow> pushed)"
proof -
  have nr: "not_resize msg" using assms(2) by (simp add: not_resize_def)
  from push_msg_spec [OF assms(1) nr, of alloc] obtain c' pushed where
    "sc_controller_push_msg alloc M c msg = Some (c', pushed, vd_content (ctl_queue c) = [])"
    "ctl_inv M c'"
    "vd_content (ctl_queue c') = vd_content (ctl_queue c) @ (if pushed then [msg] else [])"
    "vd_size (ctl_queue c) < 60 \<longrightarrow> pushed"
    "60 \<le> vd_size (ctl_queue c) \<and> sc_control_msg_is_droppable msg \<longrightarrow> \<not> pushed"
    by blast
  moreover have "pushed" if "vd_size (ctl_queue c) < 64" "\<not> sc_control_msg_is_droppable msg"
    using push_msg_reserved [OF assms(1) nr that(2), of alloc] that(1) calculation(1)
    by (simp add: SC_CONTROL_MSG_QUEUE_LIMIT_def)
  ultimately show ?thesis by blast
qed

lemma controller_admission_witness:
  "\<exists>c c' signal. ctl_inv 1000 c \<and>
    sc_controller_push_msg (\<lambda>_. False) 1000 c (UHID_DESTROY 2) = Some (c', True, signal) \<and>
    vd_content (ctl_queue c') = vd_content (ctl_queue c) @ [UHID_DESTROY 2]"
proof -
  obtain c where c: "ctl_inv 1000 c" "ctl_idle c" using reachable_examples(1) by blast
  then have "vd_size (ctl_queue c) = 0"
    using vd_content_length [of "ctl_queue c"] by (simp add: ctl_idle_def)
  with controller_admission [OF c(1), of "UHID_DESTROY 2" "\<lambda>_. False"] c(1) show ?thesis
    by auto
qed

text \<open>
  The thread makes progress: it takes a pending resize first, whatever is queued; with none pending
  and not stopped, taking messages one after another gives the whole queue in order and then waits,
  and no take aborts.
\<close>

theorem controller_progress:
  assumes "ctl_inv M c" "\<not> ctl_stopped c"
  shows "(ctl_resize_width c \<noteq> 0 \<longrightarrow> (\<exists>c'. controller_take c =
        Some (Take_msg (RESIZE_DISPLAY (ctl_resize_width c) (ctl_resize_height c)), c') \<and>
        ctl_resize_width c' = 0 \<and> vd_content (ctl_queue c') = vd_content (ctl_queue c))) \<and>
    (ctl_resize_width c = 0 \<longrightarrow> (\<exists>c'. controller_takes (Suc (vd_size (ctl_queue c))) c =
        Some (map Take_msg (vd_content (ctl_queue c)) @ [Take_wait], c')))"
  using assms controller_takes_all [OF assms] by (auto simp: controller_take_def)

lemma controller_progress_witness:
  "\<exists>c c'. ctl_inv 1000 c \<and> controller_takes (Suc (vd_size (ctl_queue c))) c =
        Some (map Take_msg (vd_content (ctl_queue c)) @ [Take_wait], c')"
proof -
  obtain c where c: "ctl_inv 1000 c" "ctl_idle c" using reachable_examples(1) by blast
  with controller_progress [OF c(1)] show ?thesis by (auto simp: ctl_idle_def)
qed

text \<open>
  Destroying the controller destroys every message still queued, once and in order, and never
  aborts.
\<close>

theorem controller_destroy_frees_queue:
  assumes "ctl_inv M c"
  shows "sc_controller_destroy c = Some (vd_content (ctl_queue c))"
  unfolding sc_controller_destroy_def
  by (rule destroy_queue_spec [of M]) (use assms in \<open>simp add: ctl_inv_def\<close>)

lemma controller_destroy_frees_queue_witness:
  "\<exists>c. ctl_idle c \<and> sc_controller_destroy c = Some []"
proof -
  obtain c where c: "ctl_inv 1000 c" "ctl_idle c" using reachable_examples(1) by blast
  with controller_destroy_frees_queue [OF c(1)] show ?thesis by (auto simp: ctl_idle_def)
qed

end
