(* ===== verification/Sc_Audiobuf.thy ===== *)
theory Sc_Audiobuf
  imports Sc_Prelude
begin

text \<open>
  \<open>util/audiobuf.h\<close>, \<open>util/audiobuf.c\<close>: the lock-free ring buffer of audio samples between one writer
  thread (the decoder) and one reader thread (the audio callback).

  The array is a list of samples: the code addresses it in bytes, always at multiples of
  \<open>sample_size\<close>. The cursors and sizes are \<open>uint32_t\<close> with their wrap-around. Each operation consists
  of loading both cursors, copying, and storing its own cursor; the three parts are definitions of
  their own, from which the operations are composed and which the step relation interleaves.
\<close>

record 'a sc_audiobuf =
  ab_data :: "'a list"
  ab_alloc_size :: u32
  ab_head :: u32
  ab_tail :: u32

text \<open>\<open>fresh\<close> is the content of the allocated memory; \<open>None\<close> inside: the result \<open>false\<close>.\<close>

definition sc_audiobuf_init ::
    "'a list option \<Rightarrow> nat \<Rightarrow> u32 \<Rightarrow> 'a sc_audiobuf option option" where
  "sc_audiobuf_init fresh sample_size capacity = do {
     c_assert (sample_size \<noteq> 0);
     c_assert (capacity \<noteq> 0);
     let alloc_size = capacity + 1;
     (case fresh of
        None \<Rightarrow> Some None
      | Some data \<Rightarrow> Some (Some
          \<lparr>ab_data = data, ab_alloc_size = alloc_size, ab_head = 0, ab_tail = 0\<rparr>))
   }"

definition sc_audiobuf_capacity :: "'a sc_audiobuf \<Rightarrow> u32 option" where
  "sc_audiobuf_capacity buf = do {
     c_assert (ab_alloc_size buf \<noteq> 0);
     Some (ab_alloc_size buf - 1)
   }"

definition sc_audiobuf_can_read :: "'a sc_audiobuf \<Rightarrow> u32" where
  "sc_audiobuf_can_read buf = (ab_alloc_size buf + ab_head buf - ab_tail buf) mod ab_alloc_size buf"

definition sc_audiobuf_can_write :: "'a sc_audiobuf \<Rightarrow> u32" where
  "sc_audiobuf_can_write buf =
     (ab_alloc_size buf + ab_tail buf - ab_head buf - 1) mod ab_alloc_size buf"

section \<open>Reading\<close>

text \<open>The number of samples to read, from the cursors as loaded.\<close>

definition read_begin :: "'a sc_audiobuf \<Rightarrow> u32 \<Rightarrow> u32" where
  "read_begin buf samples_count =
     (let can_read = sc_audiobuf_can_read buf in
      if can_read = 0 then 0
      else if samples_count > can_read then can_read else samples_count)"

definition read_copy :: "'a sc_audiobuf \<Rightarrow> u32 \<Rightarrow> 'a list option" where
  "read_copy buf samples_count =
     (let tail = ab_tail buf;
          right_count = ab_alloc_size buf - tail;
          right_count = (if right_count > samples_count then samples_count else right_count)
      in do {
        right \<leftarrow> mem_read (ab_data buf) (unat tail) (unat right_count);
        if samples_count > right_count then do {
          let left_count = samples_count - right_count;
          left \<leftarrow> mem_read (ab_data buf) 0 (unat left_count);
          Some (right @ left)
        } else Some right
      })"

definition read_commit :: "'a sc_audiobuf \<Rightarrow> u32 \<Rightarrow> 'a sc_audiobuf" where
  "read_commit buf samples_count =
     buf\<lparr>ab_tail := (ab_tail buf + samples_count) mod ab_alloc_size buf\<rparr>"

text \<open>\<open>to\<close> tells whether there is a destination; the samples written to it are the last result.\<close>

definition sc_audiobuf_read ::
    "'a sc_audiobuf \<Rightarrow> bool \<Rightarrow> u32 \<Rightarrow> ('a sc_audiobuf \<times> u32 \<times> 'a list) option" where
  "sc_audiobuf_read buf to samples_count = do {
     c_assert (samples_count \<noteq> 0);
     if sc_audiobuf_can_read buf = 0 then Some (buf, 0, [])
     else do {
       let samples_count = read_begin buf samples_count;
       out \<leftarrow> (if to then read_copy buf samples_count else Some []);
       Some (read_commit buf samples_count, samples_count, out)
     }
   }"

section \<open>Writing\<close>

definition write_begin :: "'a sc_audiobuf \<Rightarrow> u32 \<Rightarrow> u32" where
  "write_begin buf samples_count =
     (let can_write = sc_audiobuf_can_write buf in
      if can_write = 0 then 0
      else if samples_count > can_write then can_write else samples_count)"

definition write_copy :: "'a sc_audiobuf \<Rightarrow> 'a list \<Rightarrow> u32 \<Rightarrow> 'a sc_audiobuf option" where
  "write_copy buf from samples_count =
     (let head = ab_head buf;
          right_count = ab_alloc_size buf - head;
          right_count = (if right_count > samples_count then samples_count else right_count)
      in do {
        right \<leftarrow> mem_read from 0 (unat right_count);
        data \<leftarrow> mem_write (ab_data buf) (unat head) right;
        if samples_count > right_count then do {
          let left_count = samples_count - right_count;
          left \<leftarrow> mem_read from (unat right_count) (unat left_count);
          data \<leftarrow> mem_write data 0 left;
          Some (buf\<lparr>ab_data := data\<rparr>)
        } else Some (buf\<lparr>ab_data := data\<rparr>)
      })"

definition write_commit :: "'a sc_audiobuf \<Rightarrow> u32 \<Rightarrow> 'a sc_audiobuf" where
  "write_commit buf samples_count =
     buf\<lparr>ab_head := (ab_head buf + samples_count) mod ab_alloc_size buf\<rparr>"

definition sc_audiobuf_write ::
    "'a sc_audiobuf \<Rightarrow> 'a list \<Rightarrow> u32 \<Rightarrow> ('a sc_audiobuf \<times> u32) option" where
  "sc_audiobuf_write buf from samples_count =
     (if sc_audiobuf_can_write buf = 0 then Some (buf, 0)
      else do {
        let samples_count = write_begin buf samples_count;
        buf \<leftarrow> write_copy buf from samples_count;
        Some (write_commit buf samples_count, samples_count)
      })"

definition sc_audiobuf_write_silence ::
    "'a \<Rightarrow> 'a sc_audiobuf \<Rightarrow> u32 \<Rightarrow> ('a sc_audiobuf \<times> u32) option" where
  "sc_audiobuf_write_silence silence buf samples_count =
     (if sc_audiobuf_can_write buf = 0 then Some (buf, 0)
      else
        (let samples_count = write_begin buf samples_count;
             head = ab_head buf;
             right_count = ab_alloc_size buf - head;
             right_count = (if right_count > samples_count then samples_count else right_count)
         in do {
           data \<leftarrow> mem_write (ab_data buf) (unat head) (replicate (unat right_count) silence);
           data \<leftarrow>
             (if samples_count > right_count then
                (let left_count = samples_count - right_count in
                 mem_write data 0 (replicate (unat left_count) silence))
              else Some data);
           Some (write_commit (buf\<lparr>ab_data := data\<rparr>) samples_count, samples_count)
         }))"

section \<open>Slices of a ring\<close>

definition ring_read :: "'a list \<Rightarrow> nat \<Rightarrow> nat \<Rightarrow> 'a list" where
  "ring_read xs t n = map (\<lambda>i. xs ! ((t + i) mod length xs)) [0..<n]"

definition ring_write :: "'a list \<Rightarrow> nat \<Rightarrow> 'a list \<Rightarrow> 'a list" where
  "ring_write xs h ys = mem_put (mem_put xs h (take (length xs - h) ys)) 0 (drop (length xs - h) ys)"

lemma length_ring_read [simp]: "length (ring_read xs t n) = n"
  by (simp add: ring_read_def)

lemma ring_read_nth: "i < n \<Longrightarrow> ring_read xs t n ! i = xs ! ((t + i) mod length xs)"
  by (simp add: ring_read_def)

lemma take_ring_read: "n \<le> m \<Longrightarrow> take n (ring_read xs t m) = ring_read xs t n"
  by (rule nth_equalityI) (simp_all add: ring_read_nth)

lemma drop_ring_read: "n \<le> m \<Longrightarrow> drop n (ring_read xs t m) = ring_read xs ((t + n) mod length xs) (m - n)"
  by (rule nth_equalityI) (simp_all add: ring_read_nth mod_simps add.assoc)

lemma ring_read_split:
  assumes "t < length xs" "n \<le> length xs"
  shows "ring_read xs t n = take n (drop t xs) @ take (n - (length xs - t)) xs"
proof (rule nth_equalityI)
  show "length (ring_read xs t n) = length (take n (drop t xs) @ take (n - (length xs - t)) xs)"
    using assms by simp
next
  fix i assume "i < length (ring_read xs t n)"
  then have "i < n" by simp
  moreover have "(t + i) mod length xs = (if t + i < length xs then t + i else t + i - length xs)"
    using assms \<open>i < n\<close> by (intro mod_lap) simp
  ultimately show "ring_read xs t n ! i = (take n (drop t xs) @ take (n - (length xs - t)) xs) ! i"
    using assms by (auto simp: ring_read_nth nth_append add.commute)
qed

lemma length_ring_write [simp]:
  "h < length xs \<Longrightarrow> length ys \<le> length xs \<Longrightarrow> length (ring_write xs h ys) = length xs"
  by (simp add: ring_write_def)

text \<open>The distance from one position of a ring to another one.\<close>

lemma ring_distance:
  fixes a :: nat
  assumes "i < a" "n \<le> a"
  shows "((t + i) mod a + a - (t + n) mod a) mod a = (if n \<le> i then i - n else (a + i - n) mod a)"
proof -
  have a: "0 < a" using assms by simp
  have l: "(t + n) mod a \<le> (t + i) mod a + a"
    using mod_less_divisor [OF a, of "t + n"] by linarith
  have "int (((t + i) mod a + a - (t + n) mod a) mod a) =
      (int (t + i) mod int a + int a - int (t + n) mod int a) mod int a"
    using l by (simp only: zmod_int of_nat_diff of_nat_add)
  also have "\<dots> = (int (t + i) mod int a - int (t + n) mod int a + int a) mod int a"
    by (rule arg_cong [where f = "\<lambda>x. x mod int a"]) simp
  also have "\<dots> = (int (t + i) - int (t + n)) mod int a"
    by (simp only: mod_add_self2 mod_diff_eq)
  also have "int (t + i) - int (t + n) = int i - int n" by simp
  finally have e: "int (((t + i) mod a + a - (t + n) mod a) mod a) = (int i - int n) mod int a" .
  show ?thesis
  proof (cases "n \<le> i")
    case True
    then have "(int i - int n) mod int a = int (i - n)" using assms by simp
    with e True show ?thesis by (simp only: of_nat_eq_iff if_True)
  next
    case False
    have "n \<le> a + i" using assms by simp
    then have "int ((a + i - n) mod a) = (int a + int i - int n) mod int a"
      by (simp only: zmod_int of_nat_diff of_nat_add)
    also have "\<dots> = (int i - int n) mod int a"
      using mod_add_self1 [of "int a" "int i - int n"] by (simp only: add_diff_eq)
    finally have "int ((a + i - n) mod a) = (int i - int n) mod int a" .
    with e False show ?thesis by (simp only: of_nat_eq_iff if_False)
  qed
qed

lemma ring_write_nth:
  assumes "h < length xs" "length ys \<le> length xs" "i < length xs"
  shows "ring_write xs h ys ! i =
    (let d = (i + length xs - h) mod length xs in if d < length ys then ys ! d else xs ! i)"
proof -
  have d: "(i + length xs - h) mod length xs = (if h \<le> i then i - h else i + length xs - h)"
    using assms by (auto simp: mod_lap)
  show ?thesis
    using assms by (auto simp: d ring_write_def nth_mem_put Let_def add.commute)
qed

lemma ring_append:
  assumes "t < length xs" "n + length ys \<le> length xs"
  shows "ring_read (ring_write xs ((t + n) mod length xs) ys) t (n + length ys) = ring_read xs t n @ ys"
proof (rule nth_equalityI)
  fix i assume "i < length (ring_read (ring_write xs ((t + n) mod length xs) ys) t (n + length ys))"
  then have i: "i < n + length ys" by simp
  let ?a = "length xs"
  have h: "(t + n) mod ?a < ?a" "(t + i) mod ?a < ?a" using assms by (auto intro: mod_less_divisor)
  have "i < ?a" "n \<le> ?a" using assms i by simp_all
  note d = ring_distance [OF this, of t]
  let ?h = "(t + n) mod ?a" and ?p = "(t + i) mod ?a"
  have "ring_read (ring_write xs ?h ys) t (n + length ys) ! i = ring_write xs ?h ys ! ?p"
    using i h(1) assms by (simp add: ring_read_nth)
  also have "\<dots> = (let d = if n \<le> i then i - n else (?a + i - n) mod ?a
      in if d < length ys then ys ! d else xs ! ?p)"
    using ring_write_nth [OF h(1) _ h(2), of ys] assms(2) unfolding d by simp
  also have "\<dots> = (ring_read xs t n @ ys) ! i"
  proof (cases "n \<le> i")
    case True
    moreover from True i have "i - n < length ys" by simp
    ultimately show ?thesis by (simp add: nth_append Let_def)
  next
    case False
    then have "(?a + i - n) mod ?a = ?a + i - n" "\<not> ?a + i - n < length ys"
      using assms(2) by simp_all
    with False show ?thesis by (simp add: nth_append ring_read_nth Let_def)
  qed
  finally show "ring_read (ring_write xs ?h ys) t (n + length ys) ! i = (ring_read xs t n @ ys) ! i" .
qed simp

lemma ring_write_back:
  assumes "h < length xs" "length ys \<le> length xs"
  shows "ring_read (ring_write xs h ys) h (length ys) = ys"
  using ring_append [of h xs 0 ys] assms by (simp add: ring_read_def)

section \<open>Cursors as numbers\<close>

definition ab_used :: "'a sc_audiobuf \<Rightarrow> nat" where
  "ab_used buf = (unat (ab_alloc_size buf) + unat (ab_head buf) - unat (ab_tail buf))
     mod unat (ab_alloc_size buf)"

definition ab_inv :: "'a sc_audiobuf \<Rightarrow> bool" where
  "ab_inv buf \<longleftrightarrow>
     2 \<le> unat (ab_alloc_size buf) \<and> unat (ab_alloc_size buf) \<le> 2 ^ 31 \<and>
     length (ab_data buf) = unat (ab_alloc_size buf) \<and>
     unat (ab_head buf) < unat (ab_alloc_size buf) \<and> unat (ab_tail buf) < unat (ab_alloc_size buf)"

definition ab_content :: "'a sc_audiobuf \<Rightarrow> 'a list" where
  "ab_content buf = ring_read (ab_data buf) (unat (ab_tail buf)) (ab_used buf)"

lemma length_ab_content [simp]: "length (ab_content buf) = ab_used buf"
  by (simp add: ab_content_def)

lemma ab_used_lt: "ab_inv buf \<Longrightarrow> ab_used buf < unat (ab_alloc_size buf)"
  by (simp add: ab_used_def ab_inv_def)

lemma can_read_eq: "ab_inv buf \<Longrightarrow> unat (sc_audiobuf_can_read buf) = ab_used buf"
  by (simp add: sc_audiobuf_can_read_def ab_used_def ab_inv_def unat_mod unat_plus_if'
      unat_sub_if')

lemma can_write_eq:
  assumes "ab_inv buf"
  shows "unat (sc_audiobuf_can_write buf) = unat (ab_alloc_size buf) - 1 - ab_used buf"
proof -
  let ?a = "unat (ab_alloc_size buf)" and ?h = "unat (ab_head buf)" and ?t = "unat (ab_tail buf)"
  have b: "2 \<le> ?a" "?a \<le> 2 ^ 31" "?h < ?a" "?t < ?a" using assms by (auto simp: ab_inv_def)
  have "unat (sc_audiobuf_can_write buf) = (?a + ?t - ?h - 1) mod ?a"
    using b by (simp add: sc_audiobuf_can_write_def unat_mod unat_plus_if' unat_sub_if')
  then show ?thesis using b by (auto simp: ab_used_def mod_lap)
qed


section \<open>The operations on the ring\<close>

lemma read_begin_eq:
  "ab_inv buf \<Longrightarrow> unat (read_begin buf n) = min (unat n) (ab_used buf)"
  using can_read_eq [of buf]
  by (auto simp: read_begin_def Let_def word_less_nat_alt min_def)

lemma write_begin_eq:
  "ab_inv buf \<Longrightarrow>
     unat (write_begin buf n) = min (unat n) (unat (ab_alloc_size buf) - 1 - ab_used buf)"
  using can_write_eq [of buf]
  by (auto simp: write_begin_def Let_def word_less_nat_alt min_def)

text \<open>The two pieces of a transfer that wraps around.\<close>

lemma right_count_eq:
  fixes a p n :: u32
  assumes "unat p < unat a"
  shows "unat (if a - p > n then n else a - p) = min (unat n) (unat a - unat p)"
    "n > (if a - p > n then n else a - p) \<longleftrightarrow> unat a - unat p < unat n"
    "unat a - unat p < unat n \<Longrightarrow>
       unat (n - (if a - p > n then n else a - p)) = unat n - (unat a - unat p)"
proof -
  have "p \<le> a" using assms by (simp add: word_le_nat_alt)
  then have s: "unat (a - p) = unat a - unat p" by (rule unat_sub)
  show "unat (if a - p > n then n else a - p) = min (unat n) (unat a - unat p)"
    "n > (if a - p > n then n else a - p) \<longleftrightarrow> unat a - unat p < unat n"
    by (auto simp: word_less_nat_alt s)
  assume "unat a - unat p < unat n"
  moreover then have "a - p \<le> n" by (simp add: word_le_nat_alt s)
  ultimately show "unat (n - (if a - p > n then n else a - p)) = unat n - (unat a - unat p)"
    by (auto simp: unat_sub s word_less_nat_alt)
qed

lemma read_copy_eq:
  assumes "ab_inv buf" "unat n \<le> unat (ab_alloc_size buf)"
  shows "read_copy buf n = Some (ring_read (ab_data buf) (unat (ab_tail buf)) (unat n))"
proof -
  let ?a = "unat (ab_alloc_size buf)" and ?t = "unat (ab_tail buf)"
  have b: "?t < ?a" "length (ab_data buf) = ?a" using assms(1) by (auto simp: ab_inv_def)
  note r = right_count_eq [OF b(1), of n]
  show ?thesis
  proof (cases "?a - ?t < unat n")
    case True
    then show ?thesis
      using b assms(2) r by (simp add: read_copy_def Let_def ring_read_split mem_read_def)
  next
    case False
    then show ?thesis
      using b assms(2) r by (simp add: read_copy_def Let_def ring_read_split mem_read_def)
  qed
qed

lemma write_copy_eq:
  assumes "ab_inv buf" "unat n \<le> unat (ab_alloc_size buf)" "unat n \<le> length from"
  shows "write_copy buf from n =
    Some (buf\<lparr>ab_data := ring_write (ab_data buf) (unat (ab_head buf)) (take (unat n) from)\<rparr>)"
proof -
  let ?a = "unat (ab_alloc_size buf)" and ?h = "unat (ab_head buf)"
  have b: "?h < ?a" "length (ab_data buf) = ?a" using assms(1) by (auto simp: ab_inv_def)
  note r = right_count_eq [OF b(1), of n]
  show ?thesis
  proof (cases "?a - ?h < unat n")
    case True
    let ?k = "?a - ?h"
    have "mem_write (mem_put (ab_data buf) ?h (take ?k from)) 0 (take (unat n - ?k) (drop ?k from)) =
        Some (mem_put (mem_put (ab_data buf) ?h (take ?k from)) 0 (take (unat n - ?k) (drop ?k from)))"
      using b assms(2,3) by (intro mem_write_ok) (auto simp: mem_put_def min_def)
    with True show ?thesis
      using b assms(2,3) r
      by (simp add: write_copy_def Let_def ring_write_def mem_read_def drop_take min_def)
  next
    case False
    then show ?thesis
      using b assms(2,3) r
      by (simp add: write_copy_def Let_def ring_write_def mem_read_def min_def)
  qed
qed

lemma unat_add_mod:
  fixes x n a :: u32
  assumes "unat x < unat a" "unat n < unat a" "unat a \<le> 2 ^ 31"
  shows "unat ((x + n) mod a) = (unat x + unat n) mod unat a"
  using assms by (simp add: unat_mod unat_plus_if')

text \<open>Committing a read drops the oldest samples, committing a write adds the new ones.\<close>

lemma read_commit_spec:
  assumes "ab_inv buf" "unat n \<le> ab_used buf"
  shows "ab_inv (read_commit buf n)" "ab_used (read_commit buf n) = ab_used buf - unat n"
    "ab_content (read_commit buf n) = drop (unat n) (ab_content buf)"
proof -
  let ?a = "unat (ab_alloc_size buf)" and ?h = "unat (ab_head buf)" and ?t = "unat (ab_tail buf)"
  have b: "2 \<le> ?a" "?a \<le> 2 ^ 31" "?h < ?a" "?t < ?a" "length (ab_data buf) = ?a"
    using assms(1) by (auto simp: ab_inv_def)
  have n: "unat n < ?a" using ab_used_lt [OF assms(1)] assms(2) by simp
  have t: "unat (ab_tail (read_commit buf n)) = (?t + unat n) mod ?a"
    using unat_add_mod [OF b(4) n b(2)] by (simp add: read_commit_def)
  have same: "ab_alloc_size (read_commit buf n) = ab_alloc_size buf"
    "ab_head (read_commit buf n) = ab_head buf" "ab_data (read_commit buf n) = ab_data buf"
    by (simp_all add: read_commit_def)
  show "ab_inv (read_commit buf n)" using b unfolding ab_inv_def same t by simp
  show u: "ab_used (read_commit buf n) = ab_used buf - unat n"
    using assms(2) b n unfolding ab_used_def same t by (auto simp: mod_lap split: if_splits)
  show "ab_content (read_commit buf n) = drop (unat n) (ab_content buf)"
    unfolding ab_content_def same t u using assms(2) b(5) by (simp add: drop_ring_read)
qed

lemma write_commit_spec:
  assumes "ab_inv buf" "ab_used buf + unat n < unat (ab_alloc_size buf)"
  shows "ab_inv (write_commit buf n)" "ab_used (write_commit buf n) = ab_used buf + unat n"
    "ab_content (write_commit buf n) =
      ab_content buf @ ring_read (ab_data buf) (unat (ab_head buf)) (unat n)"
proof -
  let ?a = "unat (ab_alloc_size buf)" and ?h = "unat (ab_head buf)" and ?t = "unat (ab_tail buf)"
  have b: "2 \<le> ?a" "?a \<le> 2 ^ 31" "?h < ?a" "?t < ?a" "length (ab_data buf) = ?a"
    using assms(1) by (auto simp: ab_inv_def)
  have n: "unat n < ?a" using assms(2) by simp
  have h: "unat (ab_head (write_commit buf n)) = (?h + unat n) mod ?a"
    using unat_add_mod [OF b(3) n b(2)] by (simp add: write_commit_def)
  have same: "ab_alloc_size (write_commit buf n) = ab_alloc_size buf"
    "ab_tail (write_commit buf n) = ab_tail buf" "ab_data (write_commit buf n) = ab_data buf"
    by (simp_all add: write_commit_def)
  show "ab_inv (write_commit buf n)" using b unfolding ab_inv_def same h by simp
  show u: "ab_used (write_commit buf n) = ab_used buf + unat n"
    using assms(2) b n unfolding ab_used_def same h by (auto simp: mod_lap split: if_splits)
  have hd: "(?t + ab_used buf) mod ?a = ?h"
    using b by (auto simp: ab_used_def mod_lap)
  let ?m = "ab_used buf"
  have "ring_read (ab_data buf) ?t (?m + unat n) =
      take ?m (ring_read (ab_data buf) ?t (?m + unat n)) @
      drop ?m (ring_read (ab_data buf) ?t (?m + unat n))" by simp
  also have "\<dots> = ring_read (ab_data buf) ?t ?m @ ring_read (ab_data buf) ?h (unat n)"
    using b(5) hd by (simp only: take_ring_read drop_ring_read le_add1 add_diff_cancel_left')
  finally show "ab_content (write_commit buf n) =
      ab_content buf @ ring_read (ab_data buf) (unat (ab_head buf)) (unat n)"
    unfolding ab_content_def same u .
qed

lemma head_position:
  "ab_inv buf \<Longrightarrow> (unat (ab_tail buf) + ab_used buf) mod unat (ab_alloc_size buf) = unat (ab_head buf)"
  by (auto simp: ab_inv_def ab_used_def mod_lap)

lemma write_copy_spec:
  assumes "ab_inv buf" "ab_used buf + length ys < unat (ab_alloc_size buf)"
  defines "buf' \<equiv> buf\<lparr>ab_data := ring_write (ab_data buf) (unat (ab_head buf)) ys\<rparr>"
  shows "ab_inv buf'" "ab_used buf' = ab_used buf" "ab_content buf' = ab_content buf"
    "ring_read (ab_data buf') (unat (ab_head buf)) (length ys) = ys"
proof -
  have b: "unat (ab_head buf) < length (ab_data buf)" "unat (ab_tail buf) < length (ab_data buf)"
    "length (ab_data buf) = unat (ab_alloc_size buf)" using assms(1) by (auto simp: ab_inv_def)
  have ys: "length ys \<le> length (ab_data buf)" using assms(2) b by simp
  show "ab_inv buf'" using assms(1) b ys unfolding ab_inv_def buf'_def by simp
  show u: "ab_used buf' = ab_used buf" by (simp add: buf'_def ab_used_def)
  have "ring_read (ab_data buf') (unat (ab_tail buf)) (ab_used buf + length ys) =
      ring_read (ab_data buf) (unat (ab_tail buf)) (ab_used buf) @ ys"
    using ring_append [OF b(2), of "ab_used buf" ys] assms(2) b(3) head_position [OF assms(1)]
    by (simp add: buf'_def)
  from arg_cong [OF this, of "take (ab_used buf)"] show "ab_content buf' = ab_content buf"
    by (simp add: ab_content_def u take_ring_read) (simp add: buf'_def)
  show "ring_read (ab_data buf') (unat (ab_head buf)) (length ys) = ys"
    using ring_write_back [OF b(1) ys] by (simp add: buf'_def)
qed

section \<open>Sequential behaviour\<close>

definition ab_capacity :: "'a sc_audiobuf \<Rightarrow> nat" where
  "ab_capacity buf = unat (ab_alloc_size buf) - 1"

lemma ab_used_le: "ab_inv buf \<Longrightarrow> ab_used buf \<le> ab_capacity buf"
  using ab_used_lt [of buf] by (simp add: ab_capacity_def)

lemma zero_iff_unat: "(w :: u32) = 0 \<longleftrightarrow> unat w = 0"
  by (simp add: unat_eq_0)

lemma read_eq:
  assumes "ab_inv buf" "n \<noteq> 0"
  shows "\<exists>buf'. sc_audiobuf_read buf to n =
      Some (buf', of_nat (min (unat n) (ab_used buf)),
        if to then take (unat n) (ab_content buf) else []) \<and>
    ab_inv buf' \<and> ab_content buf' = drop (unat n) (ab_content buf)"
proof (cases "sc_audiobuf_can_read buf = 0")
  case True
  then have "ab_used buf = 0" using can_read_eq [OF assms(1)] by simp
  then have "ab_content buf = []" by (metis length_0_conv length_ab_content)
  with True assms \<open>ab_used buf = 0\<close> show ?thesis by (simp add: sc_audiobuf_read_def)
next
  case False
  let ?n = "read_begin buf n"
  have n: "unat ?n = min (unat n) (ab_used buf)" by (rule read_begin_eq [OF assms(1)])
  then have le: "unat ?n \<le> ab_used buf" "unat ?n \<le> unat (ab_alloc_size buf)"
    using ab_used_lt [OF assms(1)] by simp_all
  have n': "?n = of_nat (min (unat n) (ab_used buf))" unfolding n [symmetric] by simp
  note c = read_commit_spec [OF assms(1) le(1)]
  have "take (unat n) (ab_content buf) = ring_read (ab_data buf) (unat (ab_tail buf)) (unat ?n)"
    using n by (simp add: ab_content_def take_ring_read min_def)
  moreover have "drop (unat ?n) (ab_content buf) = drop (unat n) (ab_content buf)"
    using n by (auto simp: min_def)
  ultimately show ?thesis
    using False assms(2) c read_copy_eq [OF assms(1) le(2)]
    by (simp add: sc_audiobuf_read_def Let_def n' [symmetric])
qed

lemma write_eq:
  assumes "ab_inv buf" "unat n \<le> length from"
  shows "\<exists>buf'. sc_audiobuf_write buf from n =
      Some (buf', of_nat (min (unat n) (ab_capacity buf - ab_used buf))) \<and> ab_inv buf' \<and>
    ab_content buf' =
      ab_content buf @ take (min (unat n) (ab_capacity buf - ab_used buf)) from"
proof (cases "sc_audiobuf_can_write buf = 0")
  case True
  then have "ab_capacity buf - ab_used buf = 0"
    using can_write_eq [OF assms(1)] by (simp add: ab_capacity_def)
  with True assms show ?thesis by (simp add: sc_audiobuf_write_def)
next
  case False
  let ?n = "write_begin buf n"
  have n: "unat ?n = min (unat n) (ab_capacity buf - ab_used buf)"
    using write_begin_eq [OF assms(1)] by (simp add: ab_capacity_def)
  then have le: "ab_used buf + unat ?n < unat (ab_alloc_size buf)" "unat ?n \<le> unat (ab_alloc_size buf)"
    "unat ?n \<le> length from"
    using ab_used_lt [OF assms(1)] assms(2) by (auto simp: ab_capacity_def)
  have n': "?n = of_nat (min (unat n) (ab_capacity buf - ab_used buf))"
    unfolding n [symmetric] by simp
  let ?ys = "take (unat ?n) from"
  let ?b = "buf\<lparr>ab_data := ring_write (ab_data buf) (unat (ab_head buf)) ?ys\<rparr>"
  have l: "length ?ys = unat ?n" using le by simp
  have "ab_used buf + length ?ys < unat (ab_alloc_size buf)" using le l by simp
  note w = write_copy_spec [OF assms(1) this]
  have "ab_used ?b + unat ?n < unat (ab_alloc_size ?b)" using w(2) le by simp
  note c = write_commit_spec [OF w(1) this]
  have "ab_content (write_commit ?b ?n) = ab_content buf @ ?ys"
    using c(3) w(3,4) l by simp
  then show ?thesis
    using False c(1) write_copy_eq [OF assms(1) le(2,3)] n
    by (simp add: sc_audiobuf_write_def Let_def n' [symmetric])
qed

lemma mem_read_replicate: "off + n \<le> m \<Longrightarrow> mem_read (replicate m x) off n = Some (replicate n x)"
  by (simp add: mem_read_def)

text \<open>Writing silence is writing that many silent samples.\<close>

lemma write_silence_eq:
  assumes "ab_inv buf"
  shows "sc_audiobuf_write_silence silence buf n =
    sc_audiobuf_write buf (replicate (unat n) silence) n"
proof (cases "sc_audiobuf_can_write buf = 0")
  case False
  let ?n = "write_begin buf n"
  have n: "unat ?n \<le> unat n" using write_begin_eq [OF assms] by simp
  have "unat (ab_head buf) < unat (ab_alloc_size buf)" using assms by (simp add: ab_inv_def)
  note r = right_count_eq [OF this, of ?n]
  show ?thesis
    using False n r
    by (cases "unat (ab_alloc_size buf) - unat (ab_head buf) < unat ?n")
      (simp_all add: sc_audiobuf_write_silence_def sc_audiobuf_write_def write_copy_def Let_def
        mem_read_replicate bind_assoc cong: if_cong)
qed (simp add: sc_audiobuf_write_silence_def sc_audiobuf_write_def)

section \<open>One reader and one writer, interleaved\<close>

datatype 'a reader_pc = R_idle | R_ready u32 | R_copied u32 "'a list"
datatype 'a writer_pc = W_idle | W_ready u32 "'a list" | W_copied u32 "'a list"

record 'a ab_system =
  abs_buf :: "'a sc_audiobuf"
  abs_reader :: "'a reader_pc"
  abs_writer :: "'a writer_pc"
  abs_written :: "'a list"
  abs_read :: "'a list"

inductive ab_step :: "'a ab_system \<Rightarrow> 'a ab_system \<Rightarrow> bool" where
  r_begin: "abs_reader s = R_idle \<Longrightarrow> n = read_begin (abs_buf s) count \<Longrightarrow> n \<noteq> 0 \<Longrightarrow>
    ab_step s (s\<lparr>abs_reader := R_ready n\<rparr>)"
| r_copy: "abs_reader s = R_ready n \<Longrightarrow> read_copy (abs_buf s) n = Some xs \<Longrightarrow>
    ab_step s (s\<lparr>abs_reader := R_copied n xs\<rparr>)"
| r_commit: "abs_reader s = R_copied n xs \<Longrightarrow>
    ab_step s (s\<lparr>abs_buf := read_commit (abs_buf s) n, abs_reader := R_idle,
      abs_read := abs_read s @ xs\<rparr>)"
| w_begin: "abs_writer s = W_idle \<Longrightarrow> unat count \<le> length from \<Longrightarrow>
    n = write_begin (abs_buf s) count \<Longrightarrow> n \<noteq> 0 \<Longrightarrow>
    ab_step s (s\<lparr>abs_writer := W_ready n from\<rparr>)"
| w_copy: "abs_writer s = W_ready n from \<Longrightarrow> write_copy (abs_buf s) from n = Some b \<Longrightarrow>
    ab_step s (s\<lparr>abs_buf := b, abs_writer := W_copied n from\<rparr>)"
| w_commit: "abs_writer s = W_copied n from \<Longrightarrow>
    ab_step s (s\<lparr>abs_buf := write_commit (abs_buf s) n, abs_writer := W_idle,
      abs_written := abs_written s @ take (unat n) from\<rparr>)"

inductive ab_reachable :: "'a ab_system \<Rightarrow> bool" where
  start: "ab_inv b \<Longrightarrow> ab_head b = ab_tail b \<Longrightarrow>
    ab_reachable \<lparr>abs_buf = b, abs_reader = R_idle, abs_writer = W_idle, abs_written = [],
      abs_read = []\<rparr>"
| step: "ab_reachable s \<Longrightarrow> ab_step s s' \<Longrightarrow> ab_reachable s'"

text \<open>
  A reader only holds a share of the used samples, a writer a share of the free ones, however much the
  other side has progressed since the cursors were loaded.
\<close>

fun reader_ok :: "'a sc_audiobuf \<Rightarrow> 'a reader_pc \<Rightarrow> bool" where
  "reader_ok b R_idle = True"
| "reader_ok b (R_ready n) = (unat n \<le> ab_used b)"
| "reader_ok b (R_copied n xs) = (unat n \<le> ab_used b \<and> xs = take (unat n) (ab_content b))"

fun writer_ok :: "'a sc_audiobuf \<Rightarrow> 'a writer_pc \<Rightarrow> bool" where
  "writer_ok b W_idle = True"
| "writer_ok b (W_ready n from) = (unat n \<le> ab_capacity b - ab_used b \<and> unat n \<le> length from)"
| "writer_ok b (W_copied n from) = (unat n \<le> ab_capacity b - ab_used b \<and> unat n \<le> length from \<and>
     ring_read (ab_data b) (unat (ab_head b)) (unat n) = take (unat n) from)"

definition spsc_inv :: "'a ab_system \<Rightarrow> bool" where
  "spsc_inv s \<longleftrightarrow>
     ab_inv (abs_buf s) \<and> reader_ok (abs_buf s) (abs_reader s) \<and> writer_ok (abs_buf s) (abs_writer s) \<and>
     abs_read s @ ab_content (abs_buf s) = abs_written s"

lemma capacity_commit [simp]:
  "ab_capacity (read_commit b n) = ab_capacity b" "ab_capacity (write_commit b n) = ab_capacity b"
  "ab_capacity (b\<lparr>ab_data := d\<rparr>) = ab_capacity b"
  by (simp_all add: ab_capacity_def read_commit_def write_commit_def)

lemma spsc_read_commit:
  assumes "ab_inv b" "unat n \<le> ab_used b" "writer_ok b w"
  shows "writer_ok (read_commit b n) w"
proof -
  have "ab_data (read_commit b n) = ab_data b" "ab_head (read_commit b n) = ab_head b"
    by (simp_all add: read_commit_def)
  with assms read_commit_spec(2) [OF assms(1,2)] show ?thesis by (cases w) auto
qed

lemma spsc_write_copy:
  assumes "ab_inv b" "unat n \<le> ab_capacity b - ab_used b" "unat n \<le> length from"
    and "write_copy b from n = Some b'"
  shows "ab_inv b'" "ab_content b' = ab_content b" "ab_used b' = ab_used b"
    "writer_ok b' (W_copied n from)"
proof -
  have le: "ab_used b + unat n < unat (ab_alloc_size b)" "unat n \<le> unat (ab_alloc_size b)"
    using assms(2) ab_used_lt [OF assms(1)] by (auto simp: ab_capacity_def)
  then have b': "b' = b\<lparr>ab_data := ring_write (ab_data b) (unat (ab_head b)) (take (unat n) from)\<rparr>"
    using write_copy_eq [OF assms(1) le(2) assms(3)] assms(4) by simp
  have l: "length (take (unat n) from) = unat n" using assms(3) by simp
  have "ab_used b + length (take (unat n) from) < unat (ab_alloc_size b)" using le l by simp
  note w = write_copy_spec [OF assms(1) this, folded b']
  show "ab_inv b'" "ab_content b' = ab_content b" "ab_used b' = ab_used b"
    by (fact w)+
  have "ab_head b' = ab_head b" "ab_capacity b' = ab_capacity b" by (simp_all add: b')
  with w assms(2,3) l show "writer_ok b' (W_copied n from)" by simp
qed

lemma spsc_inv_step:
  assumes "ab_step s s'" "spsc_inv s"
  shows "spsc_inv s'"
  using assms(1)
proof (cases rule: ab_step.cases)
  case (r_begin n count)
  with assms(2) read_begin_eq [of "abs_buf s" count] show ?thesis by (simp add: spsc_inv_def)
next
  case (r_copy n xs)
  have inv: "ab_inv (abs_buf s)" "unat n \<le> ab_used (abs_buf s)"
    using assms(2) r_copy by (auto simp: spsc_inv_def)
  have le: "unat n \<le> unat (ab_alloc_size (abs_buf s))" using inv ab_used_lt [OF inv(1)] by simp
  from read_copy_eq [OF inv(1) le] r_copy inv
  have "xs = take (unat n) (ab_content (abs_buf s))"
    by (simp add: ab_content_def take_ring_read)
  with assms(2) inv r_copy show ?thesis by (simp add: spsc_inv_def)
next
  case (r_commit n xs)
  have inv: "ab_inv (abs_buf s)" "unat n \<le> ab_used (abs_buf s)"
    "xs = take (unat n) (ab_content (abs_buf s))"
    using assms(2) r_commit by (auto simp: spsc_inv_def)
  note c = read_commit_spec [OF inv(1,2)]
  have "abs_read s @ xs @ drop (unat n) (ab_content (abs_buf s)) = abs_written s"
    using assms(2) inv(3) by (simp add: spsc_inv_def)
  with assms(2) c r_commit spsc_read_commit [OF inv(1,2)] show ?thesis by (simp add: spsc_inv_def)
next
  case (w_begin count "from" n)
  with assms(2) write_begin_eq [of "abs_buf s" count] show ?thesis
    by (simp add: spsc_inv_def ab_capacity_def)
next
  case (w_copy n "from" b)
  then have "ab_inv (abs_buf s)" "unat n \<le> ab_capacity (abs_buf s) - ab_used (abs_buf s)"
    "unat n \<le> length from" "write_copy (abs_buf s) from n = Some b"
    using assms(2) by (auto simp: spsc_inv_def)
  note w = spsc_write_copy [OF this]
  have "reader_ok b (abs_reader s)"
    using assms(2) w(2,3) by (cases "abs_reader s") (auto simp: spsc_inv_def)
  with w assms(2) w_copy show ?thesis by (simp add: spsc_inv_def)
next
  case (w_commit n "from")
  then have inv: "ab_inv (abs_buf s)" "unat n \<le> ab_capacity (abs_buf s) - ab_used (abs_buf s)"
    "ring_read (ab_data (abs_buf s)) (unat (ab_head (abs_buf s))) (unat n) = take (unat n) from"
    using assms(2) by (auto simp: spsc_inv_def)
  have "ab_used (abs_buf s) + unat n < unat (ab_alloc_size (abs_buf s))"
    using inv(2) ab_used_lt [OF inv(1)] by (auto simp: ab_capacity_def)
  note c = write_commit_spec [OF inv(1) this]
  have "reader_ok (write_commit (abs_buf s) n) (abs_reader s)"
    using assms(2) c(2,3) by (cases "abs_reader s") (auto simp: spsc_inv_def)
  with c inv(3) assms(2) w_commit show ?thesis
    by (simp add: spsc_inv_def flip: append_assoc)
qed

lemma reachable_spsc_inv: "ab_reachable s \<Longrightarrow> spsc_inv s"
proof (induction rule: ab_reachable.induct)
  case (start b)
  then have "ab_used b = 0" by (simp add: ab_used_def)
  then have "ab_content b = []" by (metis length_0_conv length_ab_content)
  with start show ?case by (simp add: spsc_inv_def)
qed (rule spsc_inv_step)

section \<open>Properties\<close>

text \<open>
  C34: The audio buffer is a bounded queue: reading gives the oldest samples, as many as requested and
  available, and removes them (also without a destination); writing appends as many samples as fit
  below the capacity and reports how many; neither leaves the array.
\<close>

theorem audiobuf_is_bounded_fifo:
  assumes "ab_inv buf"
  shows "(n \<noteq> 0 \<longrightarrow> (\<exists>buf'. sc_audiobuf_read buf to n =
      Some (buf', of_nat (min (unat n) (ab_used buf)),
        if to then take (unat n) (ab_content buf) else []) \<and>
      ab_inv buf' \<and> ab_content buf' = drop (unat n) (ab_content buf))) \<and>
    (unat m \<le> length from \<longrightarrow> (\<exists>buf'. sc_audiobuf_write buf from m =
      Some (buf', of_nat (min (unat m) (ab_capacity buf - ab_used buf))) \<and> ab_inv buf' \<and>
      ab_content buf' =
        ab_content buf @ take (min (unat m) (ab_capacity buf - ab_used buf)) from))"
  using read_eq [OF assms] write_eq [OF assms] by blast

lemma audiobuf_is_bounded_fifo_witness:
  "\<exists>buf'. sc_audiobuf_write \<lparr>ab_data = [0, 0, 0 :: int], ab_alloc_size = 3, ab_head = 2, ab_tail = 2\<rparr>
       [7, 8, 9] 3 = Some (buf', 2) \<and> ab_content buf' = [7, 8]"
proof -
  let ?b = "\<lparr>ab_data = [0, 0, 0 :: int], ab_alloc_size = 3, ab_head = 2, ab_tail = 2\<rparr>"
  have i: "ab_inv ?b" "ab_used ?b = 0" "ab_capacity ?b = 2"
    by (simp_all add: ab_inv_def ab_used_def ab_capacity_def)
  then have "ab_content ?b = []" by (metis length_0_conv length_ab_content)
  with audiobuf_is_bounded_fifo [OF i(1), of 1 True 3 "[7, 8, 9]"] i show ?thesis by auto
qed

text \<open>
  C22: One reader thread and one writer thread need no lock: however their loads, copies and stores are
  interleaved, the samples read so far followed by the samples in the buffer are the samples written
  so far, in order; the buffer never holds more than its capacity; and a copy that has begun stays
  within the array and does not overlap the samples of the other side.
\<close>

theorem audiobuf_spsc:
  assumes "ab_reachable s"
  shows "abs_read s @ ab_content (abs_buf s) = abs_written s \<and>
    ab_used (abs_buf s) \<le> ab_capacity (abs_buf s) \<and>
    (\<forall>n. abs_reader s = R_ready n \<longrightarrow>
      read_copy (abs_buf s) n = Some (take (unat n) (ab_content (abs_buf s)))) \<and>
    (\<forall>n from. abs_writer s = W_ready n from \<longrightarrow>
      (\<exists>b. write_copy (abs_buf s) from n = Some b \<and> ab_content b = ab_content (abs_buf s)))"
proof -
  from reachable_spsc_inv [OF assms] have i: "ab_inv (abs_buf s)"
    "reader_ok (abs_buf s) (abs_reader s)" "writer_ok (abs_buf s) (abs_writer s)"
    "abs_read s @ ab_content (abs_buf s) = abs_written s"
    by (auto simp: spsc_inv_def)
  have lt: "ab_used (abs_buf s) < unat (ab_alloc_size (abs_buf s))" by (rule ab_used_lt [OF i(1)])
  have "read_copy (abs_buf s) n = Some (take (unat n) (ab_content (abs_buf s)))"
    if "abs_reader s = R_ready n" for n
    using i(2) that lt read_copy_eq [OF i(1), of n] by (simp add: ab_content_def take_ring_read)
  moreover have "\<exists>b. write_copy (abs_buf s) from n = Some b \<and> ab_content b = ab_content (abs_buf s)"
    if "abs_writer s = W_ready n from" for n "from"
  proof -
    have n: "unat n \<le> ab_capacity (abs_buf s) - ab_used (abs_buf s)" "unat n \<le> length from"
      using i(3) that by simp_all
    then have "unat n \<le> unat (ab_alloc_size (abs_buf s))" by (simp add: ab_capacity_def)
    from write_copy_eq [OF i(1) this n(2)] spsc_write_copy(2) [OF i(1) n]
    show ?thesis by blast
  qed
  ultimately show ?thesis using i(4) ab_used_le [OF i(1)] by blast
qed

lemma audiobuf_spsc_witness:
  "\<exists>s :: int ab_system. ab_reachable s \<and> abs_read s @ ab_content (abs_buf s) = abs_written s \<and>
     ab_used (abs_buf s) \<le> ab_capacity (abs_buf s)"
proof -
  have "\<exists>s :: int ab_system. ab_reachable s"
    by (intro exI, rule ab_reachable.start
        [of "\<lparr>ab_data = [0, 0, 0 :: int], ab_alloc_size = 3, ab_head = 0, ab_tail = 0\<rparr>"])
      (simp_all add: ab_inv_def)
  then obtain s :: "int ab_system" where s: "ab_reachable s" by blast
  from audiobuf_spsc [OF s] s show ?thesis by blast
qed

text \<open>
  Writing silence is writing that many silent samples.\<close>

theorem audiobuf_silence:
  assumes "ab_inv buf"
  shows "sc_audiobuf_write_silence silence buf n =
    sc_audiobuf_write buf (replicate (unat n) silence) n"
  by (rule write_silence_eq [OF assms])

lemma audiobuf_silence_witness:
  "sc_audiobuf_write_silence 0 \<lparr>ab_data = [5, 5, 5 :: int], ab_alloc_size = 3, ab_head = 2,
      ab_tail = 1\<rparr> 4 =
    sc_audiobuf_write \<lparr>ab_data = [5, 5, 5], ab_alloc_size = 3, ab_head = 2, ab_tail = 1\<rparr>
      (replicate (unat (4 :: u32)) 0) 4"
  by (rule audiobuf_silence) (simp add: ab_inv_def)

end
