(* ===== verification/Sc_Input_Events.thy ===== *)
theory Sc_Input_Events
  imports Sc_Control_Msg
begin

text \<open>
  \<open>input_events.h\<close>, \<open>hid/hid_event.h\<close>: the input events that the window produces and the input
  processors consume, and the HID events of the processors that simulate devices.

  The enums of the header take their values from SDL, which is not part of the sources. Modifiers and
  mouse buttons are single bits: a state (the bitwise or of some of them) is the set of those that are
  in it. A keycode is the name behind \<open>SC_KEYCODE_\<close>. The few places that compare the number of a
  scancode or of a gamepad button take the SDL values as parameters.
\<close>

datatype sc_mod =
    SC_MOD_LSHIFT | SC_MOD_RSHIFT | SC_MOD_LCTRL | SC_MOD_RCTRL | SC_MOD_LALT | SC_MOD_RALT
  | SC_MOD_LGUI | SC_MOD_RGUI | SC_MOD_NUM | SC_MOD_CAPS

datatype sc_action = SC_ACTION_DOWN | SC_ACTION_UP

datatype sc_keycode = SC_KEYCODE string

datatype sc_mouse_button =
    SC_MOUSE_BUTTON_UNKNOWN | SC_MOUSE_BUTTON_LEFT | SC_MOUSE_BUTTON_RIGHT
  | SC_MOUSE_BUTTON_MIDDLE | SC_MOUSE_BUTTON_X1 | SC_MOUSE_BUTTON_X2

datatype sc_gamepad_axis =
    SC_GAMEPAD_AXIS_UNKNOWN | SC_GAMEPAD_AXIS_LEFTX | SC_GAMEPAD_AXIS_LEFTY
  | SC_GAMEPAD_AXIS_RIGHTX | SC_GAMEPAD_AXIS_RIGHTY | SC_GAMEPAD_AXIS_LEFT_TRIGGER
  | SC_GAMEPAD_AXIS_RIGHT_TRIGGER

datatype sc_gamepad_button =
    SC_GAMEPAD_BUTTON_UNKNOWN | SC_GAMEPAD_BUTTON_SOUTH | SC_GAMEPAD_BUTTON_EAST
  | SC_GAMEPAD_BUTTON_WEST | SC_GAMEPAD_BUTTON_NORTH | SC_GAMEPAD_BUTTON_BACK
  | SC_GAMEPAD_BUTTON_GUIDE | SC_GAMEPAD_BUTTON_START | SC_GAMEPAD_BUTTON_LEFT_STICK
  | SC_GAMEPAD_BUTTON_RIGHT_STICK | SC_GAMEPAD_BUTTON_LEFT_SHOULDER
  | SC_GAMEPAD_BUTTON_RIGHT_SHOULDER | SC_GAMEPAD_BUTTON_DPAD_UP | SC_GAMEPAD_BUTTON_DPAD_DOWN
  | SC_GAMEPAD_BUTTON_DPAD_LEFT | SC_GAMEPAD_BUTTON_DPAD_RIGHT

datatype sc_touch_action = SC_TOUCH_ACTION_MOVE | SC_TOUCH_ACTION_DOWN | SC_TOUCH_ACTION_UP

record sc_key_event =
  ke_action :: sc_action
  ke_keycode :: sc_keycode
  ke_scancode :: int
  ke_mods_state :: "sc_mod set"
  ke_repeat :: bool

record sc_mouse_click_event =
  ce_position :: sc_position
  ce_action :: sc_action
  ce_button :: sc_mouse_button
  ce_pointer_id :: u64
  ce_buttons_state :: "sc_mouse_button set"

record sc_mouse_scroll_event =
  we_position :: sc_position
  we_hscroll :: rat
  we_vscroll :: rat
  we_buttons_state :: "sc_mouse_button set"

record sc_mouse_motion_event =
  me_position :: sc_position
  me_pointer_id :: u64
  me_xrel :: i32
  me_yrel :: i32
  me_buttons_state :: "sc_mouse_button set"

record sc_touch_event =
  tev_position :: sc_position
  tev_action :: sc_touch_action
  tev_pointer_id :: u64
  tev_pressure :: rat

definition SC_GAMEPAD_ID_INVALID :: u32 where "SC_GAMEPAD_ID_INVALID = 0"

record sc_gamepad_button_event =
  gbe_gamepad_id :: u32
  gbe_action :: sc_action
  gbe_button :: sc_gamepad_button

record sc_gamepad_axis_event =
  gae_gamepad_id :: u32
  gae_axis :: sc_gamepad_axis
  gae_value :: u16

section \<open>HID events\<close>

definition SC_HID_MAX_SIZE :: nat where "SC_HID_MAX_SIZE = 15"

record sc_hid_input =
  hin_hid_id :: u16
  hin_data :: bytes
  hin_size :: u8

text \<open>The report descriptor is static memory; its size is \<open>sizeof\<close> the array.\<close>

record sc_hid_open =
  hop_hid_id :: u16
  hop_report_desc :: bytes

record sc_hid_close =
  hcl_hid_id :: u16

text \<open>A report, as far as it is transmitted.\<close>

definition hid_report :: "sc_hid_input \<Rightarrow> bytes" where
  "hid_report hid_input = take (unat (hin_size hid_input)) (hin_data hid_input)"

end
