(* ===== verification/Sc_Hid.thy ===== *)
theory Sc_Hid
  imports Sc_Input_Events
begin

text \<open>
  \<open>hid/hid_keyboard.c\<close> and \<open>hid/hid_mouse.c\<close>: the state of the simulated keyboard and mouse, and the
  HID reports generated from input events.

  The caller gives the structure to fill; only its first bytes are written. Scancodes are USB HID usage
  numbers; the four that the code names are parameters (\<open>sdl_scancodes\<close>). Scroll amounts are
  rationals, so that the rounding of the floating-point sum is not modelled.
\<close>

section \<open>Keyboard\<close>

record sdl_scancodes =
  SC_SCANCODE_LCTRL :: int
  SC_SCANCODE_RGUI :: int
  SC_SCANCODE_CAPSLOCK :: u8
  SC_SCANCODE_NUMLOCK :: u8

definition SC_HID_KEYBOARD_KEYS :: nat where "SC_HID_KEYBOARD_KEYS = 0x66"
definition SC_HID_ID_KEYBOARD :: u16 where "SC_HID_ID_KEYBOARD = 1"
definition SC_HID_KEYBOARD_INDEX_MODS :: nat where "SC_HID_KEYBOARD_INDEX_MODS = 0"
definition SC_HID_KEYBOARD_INDEX_KEYS :: nat where "SC_HID_KEYBOARD_INDEX_KEYS = 2"
definition SC_HID_KEYBOARD_MAX_KEYS :: nat where "SC_HID_KEYBOARD_MAX_KEYS = 6"

definition SC_HID_KEYBOARD_INPUT_SIZE :: nat where
  "SC_HID_KEYBOARD_INPUT_SIZE = SC_HID_KEYBOARD_INDEX_KEYS + SC_HID_KEYBOARD_MAX_KEYS"

definition SC_HID_RESERVED :: u8 where "SC_HID_RESERVED = 0"
definition SC_HID_ERROR_ROLL_OVER :: u8 where "SC_HID_ERROR_ROLL_OVER = 1"

lemmas hid_keyboard_consts =
  SC_HID_KEYBOARD_KEYS_def SC_HID_KEYBOARD_INDEX_MODS_def SC_HID_KEYBOARD_INDEX_KEYS_def
  SC_HID_KEYBOARD_MAX_KEYS_def SC_HID_KEYBOARD_INPUT_SIZE_def SC_HID_RESERVED_def
  SC_HID_ERROR_ROLL_OVER_def SC_HID_MAX_SIZE_def

record sc_hid_keyboard =
  hk_keys :: "bool list"

definition SC_HID_KEYBOARD_REPORT_DESC :: bytes where
  "SC_HID_KEYBOARD_REPORT_DESC = [
     0x05, 0x01, 0x09, 0x06, 0xA1, 0x01, 0x05, 0x07, 0x19, 0xE0, 0x29, 0xE7, 0x15, 0x00, 0x25,
     0x01, 0x75, 0x01, 0x95, 0x08, 0x81, 0x02, 0x75, 0x08, 0x95, 0x01, 0x81, 0x01, 0x05, 0x08,
     0x19, 0x01, 0x29, 0x05, 0x75, 0x01, 0x95, 0x05, 0x91, 0x02, 0x75, 0x03, 0x95, 0x01, 0x91,
     0x01, 0x05, 0x07, 0x19, 0x00, 0x29, of_nat (SC_HID_KEYBOARD_KEYS - 1), 0x15, 0x00, 0x25,
     of_nat (SC_HID_KEYBOARD_KEYS - 1), 0x75, 0x08, 0x95, of_nat SC_HID_KEYBOARD_MAX_KEYS, 0x81,
     0x00, 0xC0]"

definition sc_hid_keyboard_input_init :: "sc_hid_input \<Rightarrow> sc_hid_input option" where
  "sc_hid_keyboard_input_init hid_input = do {
     let hid_input = hid_input\<lparr>hin_hid_id := SC_HID_ID_KEYBOARD,
       hin_size := of_nat SC_HID_KEYBOARD_INPUT_SIZE\<rparr>;
     data \<leftarrow> mem_write (hin_data hid_input) SC_HID_KEYBOARD_INDEX_MODS [0];
     data \<leftarrow> mem_write data 1 [SC_HID_RESERVED];
     data \<leftarrow> mem_write data SC_HID_KEYBOARD_INDEX_KEYS (replicate SC_HID_KEYBOARD_MAX_KEYS 0);
     Some (hid_input\<lparr>hin_data := data\<rparr>)
   }"

definition sc_hid_mod_from_sdl_keymod :: "sc_mod set \<Rightarrow> u16" where
  "sc_hid_mod_from_sdl_keymod mods =
     (if SC_MOD_LCTRL \<in> mods then push_bit 0 1 else 0) OR
     (if SC_MOD_LSHIFT \<in> mods then push_bit 1 1 else 0) OR
     (if SC_MOD_LALT \<in> mods then push_bit 2 1 else 0) OR
     (if SC_MOD_LGUI \<in> mods then push_bit 3 1 else 0) OR
     (if SC_MOD_RCTRL \<in> mods then push_bit 4 1 else 0) OR
     (if SC_MOD_RSHIFT \<in> mods then push_bit 5 1 else 0) OR
     (if SC_MOD_RALT \<in> mods then push_bit 6 1 else 0) OR
     (if SC_MOD_RGUI \<in> mods then push_bit 7 1 else 0)"

definition sc_hid_keyboard_init :: sc_hid_keyboard where
  "sc_hid_keyboard_init = \<lparr>hk_keys = replicate SC_HID_KEYBOARD_KEYS False\<rparr>"

definition scancode_is_modifier :: "sdl_scancodes \<Rightarrow> int \<Rightarrow> bool" where
  "scancode_is_modifier sdl scancode \<longleftrightarrow>
     SC_SCANCODE_LCTRL sdl \<le> scancode \<and> scancode \<le> SC_SCANCODE_RGUI sdl"

text \<open>The loop over all keys; \<open>n\<close> is \<open>keys_pressed_count\<close>.\<close>

fun pressed_keys_loop :: "bool list \<Rightarrow> nat list \<Rightarrow> nat \<Rightarrow> bytes \<Rightarrow> bytes option" where
  "pressed_keys_loop keys [] n data = Some data"
| "pressed_keys_loop keys (i # is) n data = do {
     pressed \<leftarrow> arr_get keys i;
     if pressed then
       if n \<ge> SC_HID_KEYBOARD_MAX_KEYS then
         mem_write data SC_HID_KEYBOARD_INDEX_KEYS
           (replicate SC_HID_KEYBOARD_MAX_KEYS SC_HID_ERROR_ROLL_OVER)
       else do {
         data \<leftarrow> mem_write data (SC_HID_KEYBOARD_INDEX_KEYS + n) [of_nat i];
         pressed_keys_loop keys is (n + 1) data
       }
     else pressed_keys_loop keys is n data
   }"

definition sc_hid_keyboard_generate_input_from_key ::
    "sdl_scancodes \<Rightarrow> sc_hid_keyboard \<Rightarrow> sc_hid_input \<Rightarrow> sc_key_event \<Rightarrow>
      (bool \<times> sc_hid_keyboard \<times> sc_hid_input) option" where
  "sc_hid_keyboard_generate_input_from_key sdl hid hid_input event = do {
     let scancode = ke_scancode event;
     c_assert (scancode \<ge> 0);
     if scancode \<ge> int SC_HID_KEYBOARD_KEYS \<and> \<not> scancode_is_modifier sdl scancode
     then Some (False, hid, hid_input)
     else do {
       hid_input \<leftarrow> sc_hid_keyboard_input_init hid_input;
       let mods = sc_hid_mod_from_sdl_keymod (ke_mods_state event);
       keys \<leftarrow>
         (if scancode < int SC_HID_KEYBOARD_KEYS
          then mem_write (hk_keys hid) (nat scancode) [ke_action event = SC_ACTION_DOWN]
          else Some (hk_keys hid));
       let hid = hid\<lparr>hk_keys := keys\<rparr>;
       data \<leftarrow> mem_write (hin_data hid_input) SC_HID_KEYBOARD_INDEX_MODS [ucast mods];
       data \<leftarrow> pressed_keys_loop (hk_keys hid) [0..<SC_HID_KEYBOARD_KEYS] 0 data;
       Some (True, hid, hid_input\<lparr>hin_data := data\<rparr>)
     }
   }"

definition sc_hid_keyboard_generate_input_from_mods ::
    "sdl_scancodes \<Rightarrow> sc_hid_input \<Rightarrow> sc_mod set \<Rightarrow> (bool \<times> sc_hid_input) option" where
  "sc_hid_keyboard_generate_input_from_mods sdl hid_input mods_state =
     (let capslock = SC_MOD_CAPS \<in> mods_state; numlock = SC_MOD_NUM \<in> mods_state in
      if \<not> capslock \<and> \<not> numlock then Some (False, hid_input)
      else do {
        hid_input \<leftarrow> sc_hid_keyboard_input_init hid_input;
        let i = 0;
        (data, i) \<leftarrow>
          (if capslock then do {
             data \<leftarrow> mem_write (hin_data hid_input) (SC_HID_KEYBOARD_INDEX_KEYS + i)
               [SC_SCANCODE_CAPSLOCK sdl];
             Some (data, i + 1)
           } else Some (hin_data hid_input, i));
        data \<leftarrow>
          (if numlock
           then mem_write data (SC_HID_KEYBOARD_INDEX_KEYS + i) [SC_SCANCODE_NUMLOCK sdl]
           else Some data);
        Some (True, hid_input\<lparr>hin_data := data\<rparr>)
      })"

definition sc_hid_keyboard_generate_open :: sc_hid_open where
  "sc_hid_keyboard_generate_open =
     \<lparr>hop_hid_id = SC_HID_ID_KEYBOARD, hop_report_desc = SC_HID_KEYBOARD_REPORT_DESC\<rparr>"

definition sc_hid_keyboard_generate_close :: sc_hid_close where
  "sc_hid_keyboard_generate_close = \<lparr>hcl_hid_id = SC_HID_ID_KEYBOARD\<rparr>"

section \<open>Mouse\<close>

definition SC_HID_ID_MOUSE :: u16 where "SC_HID_ID_MOUSE = 2"
definition SC_HID_MOUSE_INPUT_SIZE :: u8 where "SC_HID_MOUSE_INPUT_SIZE = 5"

record sc_hid_mouse =
  hm_residual_hscroll :: rat
  hm_residual_vscroll :: rat

definition SC_HID_MOUSE_REPORT_DESC :: bytes where
  "SC_HID_MOUSE_REPORT_DESC = [
     0x05, 0x01, 0x09, 0x02, 0xA1, 0x01, 0x09, 0x01, 0xA1, 0x00, 0x05, 0x09, 0x19, 0x01, 0x29,
     0x05, 0x15, 0x00, 0x25, 0x01, 0x95, 0x05, 0x75, 0x01, 0x81, 0x02, 0x95, 0x01, 0x75, 0x03,
     0x81, 0x01, 0x05, 0x01, 0x09, 0x30, 0x09, 0x31, 0x09, 0x38, 0x15, 0x81, 0x25, 0x7F, 0x75,
     0x08, 0x95, 0x03, 0x81, 0x06, 0x05, 0x0C, 0x0A, 0x38, 0x02, 0x15, 0x81, 0x25, 0x7F, 0x75,
     0x08, 0x95, 0x01, 0x81, 0x06, 0xC0, 0xC0]"

definition sc_hid_mouse_input_init :: "sc_hid_input \<Rightarrow> sc_hid_input" where
  "sc_hid_mouse_input_init hid_input =
     hid_input\<lparr>hin_hid_id := SC_HID_ID_MOUSE, hin_size := SC_HID_MOUSE_INPUT_SIZE\<rparr>"

definition sc_hid_buttons_from_buttons_state :: "sc_mouse_button set \<Rightarrow> u8" where
  "sc_hid_buttons_from_buttons_state buttons_state =
     (if SC_MOUSE_BUTTON_LEFT \<in> buttons_state then push_bit 0 1 else 0) OR
     (if SC_MOUSE_BUTTON_RIGHT \<in> buttons_state then push_bit 1 1 else 0) OR
     (if SC_MOUSE_BUTTON_MIDDLE \<in> buttons_state then push_bit 2 1 else 0) OR
     (if SC_MOUSE_BUTTON_X1 \<in> buttons_state then push_bit 3 1 else 0) OR
     (if SC_MOUSE_BUTTON_X2 \<in> buttons_state then push_bit 4 1 else 0)"

definition sc_hid_mouse_init :: sc_hid_mouse where
  "sc_hid_mouse_init = \<lparr>hm_residual_hscroll = 0, hm_residual_vscroll = 0\<rparr>"

text \<open>\<open>CLAMP\<close> of an \<open>int32_t\<close>.\<close>

definition clamp_i32 :: "i32 \<Rightarrow> int \<Rightarrow> int \<Rightarrow> int" where
  "clamp_i32 v x y = min (max (sint v) x) y"

definition sc_hid_mouse_generate_input_from_motion ::
    "sc_hid_input \<Rightarrow> sc_mouse_motion_event \<Rightarrow> sc_hid_input option" where
  "sc_hid_mouse_generate_input_from_motion hid_input event = do {
     let hid_input = sc_hid_mouse_input_init hid_input;
     data \<leftarrow> mem_write (hin_data hid_input) 0
       [sc_hid_buttons_from_buttons_state (me_buttons_state event)];
     data \<leftarrow> mem_write data 1 [word_of_int (clamp_i32 (me_xrel event) (-127) 127)];
     data \<leftarrow> mem_write data 2 [word_of_int (clamp_i32 (me_yrel event) (-127) 127)];
     data \<leftarrow> mem_write data 3 [0];
     data \<leftarrow> mem_write data 4 [0];
     Some (hid_input\<lparr>hin_data := data\<rparr>)
   }"

definition sc_hid_mouse_generate_input_from_click ::
    "sc_hid_input \<Rightarrow> sc_mouse_click_event \<Rightarrow> sc_hid_input option" where
  "sc_hid_mouse_generate_input_from_click hid_input event = do {
     let hid_input = sc_hid_mouse_input_init hid_input;
     data \<leftarrow> mem_write (hin_data hid_input) 0
       [sc_hid_buttons_from_buttons_state (ce_buttons_state event)];
     data \<leftarrow> mem_write data 1 [0];
     data \<leftarrow> mem_write data 2 [0];
     data \<leftarrow> mem_write data 3 [0];
     data \<leftarrow> mem_write data 4 [0];
     Some (hid_input\<lparr>hin_data := data\<rparr>)
   }"

text \<open>The integer consumed (an \<open>int8_t\<close>) and the residual.\<close>

definition consume_scroll_integer :: "rat \<Rightarrow> u8 \<times> rat" where
  "consume_scroll_integer scroll =
     (let value = c_clamp scroll (-127) 127;
          consume = (word_of_int (c_trunc value) :: u8);
          residual = value - of_int (sint consume)
      in (consume, residual))"

definition sc_hid_mouse_generate_input_from_scroll ::
    "sc_hid_mouse \<Rightarrow> sc_hid_input \<Rightarrow> sc_mouse_scroll_event \<Rightarrow>
      (bool \<times> sc_hid_mouse \<times> sc_hid_input) option" where
  "sc_hid_mouse_generate_input_from_scroll hid hid_input event =
     (let hid_input = sc_hid_mouse_input_init hid_input;
          (hscroll, residual_h) =
            consume_scroll_integer (hm_residual_hscroll hid + we_hscroll event);
          (vscroll, residual_v) =
            consume_scroll_integer (hm_residual_vscroll hid + we_vscroll event);
          hid = hid\<lparr>hm_residual_hscroll := residual_h, hm_residual_vscroll := residual_v\<rparr>
      in if hscroll = 0 \<and> vscroll = 0 then Some (False, hid, hid_input)
         else do {
           data \<leftarrow> mem_write (hin_data hid_input) 0 [0];
           data \<leftarrow> mem_write data 1 [0];
           data \<leftarrow> mem_write data 2 [0];
           data \<leftarrow> mem_write data 3 [vscroll];
           data \<leftarrow> mem_write data 4 [hscroll];
           Some (True, hid, hid_input\<lparr>hin_data := data\<rparr>)
         })"

definition sc_hid_mouse_generate_open :: sc_hid_open where
  "sc_hid_mouse_generate_open =
     \<lparr>hop_hid_id = SC_HID_ID_MOUSE, hop_report_desc = SC_HID_MOUSE_REPORT_DESC\<rparr>"

definition sc_hid_mouse_generate_close :: sc_hid_close where
  "sc_hid_mouse_generate_close = \<lparr>hcl_hid_id = SC_HID_ID_MOUSE\<rparr>"

section \<open>The keyboard report\<close>

definition pressed_keys :: "bool list \<Rightarrow> nat list" where
  "pressed_keys keys = filter (\<lambda>i. keys ! i) [0..<SC_HID_KEYBOARD_KEYS]"

text \<open>The bytes of the keys: the scancodes, padded, or the rollover state.\<close>

definition key_bytes :: "nat list \<Rightarrow> bytes" where
  "key_bytes ps = (if length ps \<le> 6 then map of_nat ps @ replicate (6 - length ps) 0
     else replicate 6 SC_HID_ERROR_ROLL_OVER)"

definition hid_keyboard_inv :: "sc_hid_keyboard \<Rightarrow> bool" where
  "hid_keyboard_inv hid \<longleftrightarrow> length (hk_keys hid) = SC_HID_KEYBOARD_KEYS"

lemma mem_put_overwrite:
  "off + length ys \<le> length buf \<Longrightarrow> off \<le> off' \<Longrightarrow> off' + length xs \<le> off + length ys \<Longrightarrow>
     mem_put (mem_put buf off' xs) off ys = mem_put buf off ys"
  by (simp add: mem_put_def)

lemma mem_put_then_next:
  "off + length xs + length ys \<le> length buf \<Longrightarrow> off' = off + length xs \<Longrightarrow>
     mem_put (mem_put buf off xs) off' ys = mem_put buf off (xs @ ys)"
  by (simp add: mem_put_def ac_simps)

lemma pressed_keys_loop_eq:
  assumes "\<forall>i \<in> set is. i < length keys" "n \<le> 6" "8 \<le> length data"
  shows "pressed_keys_loop keys is n data =
    (let ps = filter (\<lambda>i. keys ! i) is in
     Some (if n + length ps \<le> 6 then mem_put data (2 + n) (map of_nat ps)
           else mem_put data 2 (replicate 6 SC_HID_ERROR_ROLL_OVER)))"
  using assms
proof (induction "is" arbitrary: n data)
  case (Cons i "is")
  show ?case
  proof (cases "keys ! i")
    case False
    with Cons show ?thesis by simp
  next
    case True
    show ?thesis
    proof (cases "n \<ge> 6")
      case True
      with \<open>keys ! i\<close> Cons.prems show ?thesis by (simp add: hid_keyboard_consts)
    next
      case False
      let ?d = "mem_put data (2 + n) [of_nat i]"
      have l: "length ?d = length data" using False Cons.prems by simp
      have "pressed_keys_loop keys (i # is) n data = pressed_keys_loop keys is (n + 1) ?d"
        using True False Cons.prems by (simp add: hid_keyboard_consts)
      also have "\<dots> = (let ps = filter (\<lambda>i. keys ! i) is in
          Some (if n + 1 + length ps \<le> 6 then mem_put ?d (2 + (n + 1)) (map of_nat ps)
            else mem_put ?d 2 (replicate 6 SC_HID_ERROR_ROLL_OVER)))"
        using Cons.prems False l by (intro Cons.IH) auto
      also have "mem_put ?d 2 (replicate 6 SC_HID_ERROR_ROLL_OVER) =
          mem_put data 2 (replicate 6 SC_HID_ERROR_ROLL_OVER)"
        using False Cons.prems(3) by (intro mem_put_overwrite) simp_all
      finally show ?thesis
        using True Cons.prems(3) by (auto simp: Let_def mem_put_then_next)
    qed
  qed
qed simp

lemma keyboard_input_init_eq:
  assumes "length (hin_data hid_input) = SC_HID_MAX_SIZE"
  shows "sc_hid_keyboard_input_init hid_input =
    Some \<lparr>hin_hid_id = SC_HID_ID_KEYBOARD, hin_data = mem_put (hin_data hid_input) 0 (replicate 8 0),
      hin_size = 8\<rparr>"
  using assms
  by (cases hid_input)
    (simp add: sc_hid_keyboard_input_init_def hid_keyboard_consts mem_put_comp numeral_eq_Suc)

lemma key_report_bytes:
  assumes "length data = SC_HID_MAX_SIZE"
  shows "take 8 (if length ps \<le> 6 then mem_put (mem_put (mem_put data 0 (replicate 8 0)) 0 [m]) 2 (map of_nat ps)
      else mem_put (mem_put (mem_put data 0 (replicate 8 0)) 0 [m]) 2 (replicate 6 SC_HID_ERROR_ROLL_OVER)) =
    m # 0 # key_bytes ps"
proof -
  have "mem_put (mem_put data 0 (replicate 8 0)) 0 [m] = mem_put data 0 (m # replicate 7 0)"
    using assms by (simp add: mem_put_def numeral_eq_Suc)
  then have d: "mem_put (mem_put data 0 (replicate 8 0)) 0 [m] = m # 0 # replicate 6 0 @ drop 8 data"
    by (simp add: mem_put_def numeral_eq_Suc)
  show ?thesis
  proof (cases "length ps \<le> 6")
    case True
    then have "mem_put (m # 0 # replicate 6 0 @ drop 8 data) 2 (map of_nat ps) =
        m # 0 # map of_nat ps @ replicate (6 - length ps) 0 @ drop 8 data"
      by (simp add: mem_put_def numeral_2_eq_2)
    with True show ?thesis unfolding d by (simp add: key_bytes_def)
  next
    case False
    have "mem_put (m # 0 # replicate 6 0 @ drop 8 data) 2 (replicate 6 SC_HID_ERROR_ROLL_OVER) =
        m # 0 # replicate 6 SC_HID_ERROR_ROLL_OVER @ drop 8 data"
      by (simp add: mem_put_def numeral_2_eq_2)
    with False show ?thesis unfolding d by (simp add: key_bytes_def)
  qed
qed

lemma generate_input_from_key_eq:
  assumes "hid_keyboard_inv hid" "length (hin_data hid_input) = SC_HID_MAX_SIZE"
    and "0 \<le> ke_scancode event" "ke_scancode event < int SC_HID_KEYBOARD_KEYS \<or>
      scancode_is_modifier sdl (ke_scancode event)"
  defines "keys' \<equiv> (if ke_scancode event < int SC_HID_KEYBOARD_KEYS
      then (hk_keys hid)[nat (ke_scancode event) := (ke_action event = SC_ACTION_DOWN)]
      else hk_keys hid)"
  shows "\<exists>hid_input'. sc_hid_keyboard_generate_input_from_key sdl hid hid_input event =
      Some (True, \<lparr>hk_keys = keys'\<rparr>, hid_input') \<and>
    hin_hid_id hid_input' = SC_HID_ID_KEYBOARD \<and> length (hin_data hid_input') = SC_HID_MAX_SIZE \<and>
    hid_report hid_input' = ucast (sc_hid_mod_from_sdl_keymod (ke_mods_state event)) # 0 #
      key_bytes (pressed_keys keys')"
proof -
  let ?data = "mem_put (mem_put (hin_data hid_input) 0 (replicate 8 0)) 0
    [ucast (sc_hid_mod_from_sdl_keymod (ke_mods_state event))]"
  have keys: "length keys' = SC_HID_KEYBOARD_KEYS" using assms(1) by (simp add: keys'_def hid_keyboard_inv_def)
  have upd: "(if ke_scancode event < int SC_HID_KEYBOARD_KEYS
      then mem_write (hk_keys hid) (nat (ke_scancode event)) [ke_action event = SC_ACTION_DOWN]
      else Some (hk_keys hid)) = Some keys'"
    using assms(1,3) by (auto simp: keys'_def hid_keyboard_inv_def mem_write_def mem_put_def
        upd_conv_take_nth_drop)
  have len: "length ?data = 15" using assms(2) by (simp add: SC_HID_MAX_SIZE_def)
  have loop: "pressed_keys_loop keys' [0..<SC_HID_KEYBOARD_KEYS] 0 ?data =
    Some (if length (pressed_keys keys') \<le> 6 then mem_put ?data 2 (map of_nat (pressed_keys keys'))
          else mem_put ?data 2 (replicate 6 SC_HID_ERROR_ROLL_OVER))"
    using pressed_keys_loop_eq [of "[0..<SC_HID_KEYBOARD_KEYS]" keys' 0 ?data] keys len
    by (simp add: pressed_keys_def Let_def)
  let ?out = "if length (pressed_keys keys') \<le> 6 then mem_put ?data 2 (map of_nat (pressed_keys keys'))
          else mem_put ?data 2 (replicate 6 SC_HID_ERROR_ROLL_OVER)"
  have "sc_hid_keyboard_generate_input_from_key sdl hid hid_input event =
      Some (True, hid\<lparr>hk_keys := keys'\<rparr>, \<lparr>hin_hid_id = SC_HID_ID_KEYBOARD, hin_data = ?out, hin_size = 8\<rparr>)"
    using assms(2-4) loop upd
    by (auto simp: sc_hid_keyboard_generate_input_from_key_def keyboard_input_init_eq Let_def
        hid_keyboard_consts)
  moreover have "hid\<lparr>hk_keys := keys'\<rparr> = \<lparr>hk_keys = keys'\<rparr>" by (cases hid) simp
  moreover have "length ?out = SC_HID_MAX_SIZE" using len by (auto simp: SC_HID_MAX_SIZE_def)
  moreover have "take 8 ?out = ucast (sc_hid_mod_from_sdl_keymod (ke_mods_state event)) # 0 #
      key_bytes (pressed_keys keys')"
    by (rule key_report_bytes [OF assms(2)])
  ultimately show ?thesis by (simp add: hid_report_def)
qed

text \<open>What the host reads: the pressed keys, unless there are too many.\<close>

lemma pressed_keys_bounds: "i \<in> set (pressed_keys keys) \<Longrightarrow> i < 102 \<and> keys ! i"
  by (auto simp: pressed_keys_def SC_HID_KEYBOARD_KEYS_def)

lemma key_bytes_decode:
  assumes "length (pressed_keys keys) \<le> 6"
  shows "{i. 0 < i \<and> i < 102 \<and> (of_nat i :: u8) \<in> set (key_bytes (pressed_keys keys))} =
    {i. 0 < i \<and> i < 102 \<and> keys ! i}"
proof -
  have inj: "(of_nat i :: u8) = of_nat j \<longleftrightarrow> i = j" if "i < 102" "j < 102" for i j
  proof
    assume "(of_nat i :: u8) = of_nat j"
    then have "unat (of_nat i :: u8) = unat (of_nat j :: u8)" by simp
    then show "i = j" using that by (simp add: unsigned_of_nat take_bit_nat_eq_self)
  qed simp
  have zero: "(of_nat i :: u8) \<noteq> 0" if "0 < i" "i < 102" for i
    using inj [of i 0] that by simp
  show ?thesis
    using assms inj zero
    by (auto simp: key_bytes_def pressed_keys_def SC_HID_KEYBOARD_KEYS_def image_iff)
qed

definition some_position :: sc_position where
  "some_position = \<lparr>screen_size = \<lparr>width = 100, height = 200\<rparr>, point = \<lparr>pt_x = 0, pt_y = 0\<rparr>\<rparr>"

section \<open>Scrolling\<close>

lemma clamp_bounds: "x \<le> y \<Longrightarrow> x \<le> c_clamp v x y \<and> c_clamp v x y \<le> y"
  by (auto simp: c_clamp_def)

lemma c_trunc_bounds:
  assumes "of_int (- n) \<le> f" "f \<le> of_int n" "0 \<le> n"
  shows "- n \<le> c_trunc f" "c_trunc f \<le> n"
  using assms by (auto simp: c_trunc_def le_floor_iff floor_le_iff ceiling_le_iff le_ceiling_iff)

lemma consume_spec:
  "case consume_scroll_integer scroll of (c, residual) \<Rightarrow>
     of_int (sint c) + residual = c_clamp scroll (-127) 127 \<and> \<bar>residual\<bar> < 1 \<and>
     -127 \<le> sint c \<and> sint c \<le> 127 \<and> sint c = c_trunc (c_clamp scroll (-127) 127)"
proof -
  let ?v = "c_clamp scroll (-127) 127"
  have "- 127 \<le> ?v" "?v \<le> 127" using clamp_bounds [of "-127" 127 scroll] by simp_all
  then have t: "- 127 \<le> c_trunc ?v" "c_trunc ?v \<le> 127"
    using c_trunc_bounds [of 127 ?v] by simp_all
  then have s: "sint (word_of_int (c_trunc ?v) :: u8) = c_trunc ?v"
    by (simp add: sint_sbintrunc' signed_take_bit_int_eq_self_iff)
  show ?thesis
    using t c_trunc_error [of ?v]
    by (simp only: consume_scroll_integer_def Let_def split_conv s) (simp add: abs_minus_commute)
qed

lemma clamp_id: "\<bar>v\<bar> \<le> 127 \<Longrightarrow> c_clamp v (-127) 127 = v"
  by (auto simp: c_clamp_def abs_le_iff)

text \<open>Sending a report for every event that gives one.\<close>

fun scroll_events ::
    "sc_hid_mouse \<Rightarrow> sc_hid_input \<Rightarrow> sc_mouse_scroll_event list \<Rightarrow>
      (bytes list \<times> sc_hid_mouse) option" where
  "scroll_events hid hid_input [] = Some ([], hid)"
| "scroll_events hid hid_input (e # es) = do {
     (ok, hid, hid_input) \<leftarrow> sc_hid_mouse_generate_input_from_scroll hid hid_input e;
     (reports, hid) \<leftarrow> scroll_events hid hid_input es;
     Some (if ok then hid_report hid_input # reports else reports, hid)
   }"

definition report_hscroll :: "bytes \<Rightarrow> int" where "report_hscroll r = sint (r ! 4)"
definition report_vscroll :: "bytes \<Rightarrow> int" where "report_vscroll r = sint (r ! 3)"

lemma scroll_step:
  assumes "length (hin_data hid_input) = SC_HID_MAX_SIZE"
  obtains ok hid' hid_input' h v where
    "sc_hid_mouse_generate_input_from_scroll hid hid_input e = Some (ok, hid', hid_input')"
    "length (hin_data hid_input') = SC_HID_MAX_SIZE"
    "ok \<longrightarrow> hid_report hid_input' = [0, 0, 0, v, h]" "\<not> ok \<longrightarrow> h = 0 \<and> v = 0"
    "of_int (sint h) + hm_residual_hscroll hid' =
      c_clamp (hm_residual_hscroll hid + we_hscroll e) (-127) 127"
    "of_int (sint v) + hm_residual_vscroll hid' =
      c_clamp (hm_residual_vscroll hid + we_vscroll e) (-127) 127"
    "\<bar>hm_residual_hscroll hid'\<bar> < 1" "\<bar>hm_residual_vscroll hid'\<bar> < 1"
proof -
  obtain h rh where h: "consume_scroll_integer (hm_residual_hscroll hid + we_hscroll e) = (h, rh)"
    by fastforce
  obtain v rv where v: "consume_scroll_integer (hm_residual_vscroll hid + we_vscroll e) = (v, rv)"
    by fastforce
  let ?hid = "hid\<lparr>hm_residual_hscroll := rh, hm_residual_vscroll := rv\<rparr>"
  let ?ok = "\<not> (h = 0 \<and> v = 0)"
  let ?hi = "if ?ok then (sc_hid_mouse_input_init hid_input)\<lparr>hin_data :=
      mem_put (hin_data hid_input) 0 [0, 0, 0, v, h]\<rparr> else sc_hid_mouse_input_init hid_input"
  have "sc_hid_mouse_generate_input_from_scroll hid hid_input e = Some (?ok, ?hid, ?hi)"
    using assms h v
    by (simp add: sc_hid_mouse_generate_input_from_scroll_def sc_hid_mouse_input_init_def
        mem_put_comp SC_HID_MAX_SIZE_def Let_def)
  moreover have "length (hin_data ?hi) = SC_HID_MAX_SIZE"
    using assms by (simp add: sc_hid_mouse_input_init_def SC_HID_MAX_SIZE_def)
  moreover have "?ok \<longrightarrow> hid_report ?hi = [0, 0, 0, v, h]"
    using assms by (simp add: hid_report_def sc_hid_mouse_input_init_def SC_HID_MOUSE_INPUT_SIZE_def
        mem_put_def)
  moreover have "of_int (sint h) + rh = c_clamp (hm_residual_hscroll hid + we_hscroll e) (-127) 127"
    "\<bar>rh\<bar> < 1" using consume_spec [of "hm_residual_hscroll hid + we_hscroll e"] unfolding h by blast+
  moreover have "of_int (sint v) + rv = c_clamp (hm_residual_vscroll hid + we_vscroll e) (-127) 127"
    "\<bar>rv\<bar> < 1" using consume_spec [of "hm_residual_vscroll hid + we_vscroll e"] unfolding v by blast+
  ultimately show thesis
    by (intro that [of ?ok ?hid ?hi v h]) simp_all
qed

lemma scroll_events_sum:
  assumes "length (hin_data hid_input) = SC_HID_MAX_SIZE"
    and "\<bar>hm_residual_hscroll hid\<bar> < 1" "\<bar>hm_residual_vscroll hid\<bar> < 1"
    and "\<forall>e \<in> set es. \<bar>we_hscroll e\<bar> \<le> 126 \<and> \<bar>we_vscroll e\<bar> \<le> 126"
  shows "\<exists>reports hid'. scroll_events hid hid_input es = Some (reports, hid') \<and>
    of_int (sum_list (map report_hscroll reports)) + hm_residual_hscroll hid' =
      hm_residual_hscroll hid + sum_list (map we_hscroll es) \<and>
    of_int (sum_list (map report_vscroll reports)) + hm_residual_vscroll hid' =
      hm_residual_vscroll hid + sum_list (map we_vscroll es) \<and>
    \<bar>hm_residual_hscroll hid'\<bar> < 1 \<and> \<bar>hm_residual_vscroll hid'\<bar> < 1"
  using assms
proof (induction es arbitrary: hid hid_input)
  case (Cons e es)
  from scroll_step [OF Cons.prems(1), of hid e] obtain ok hid1 hi1 h v where s:
    "sc_hid_mouse_generate_input_from_scroll hid hid_input e = Some (ok, hid1, hi1)"
    "length (hin_data hi1) = SC_HID_MAX_SIZE"
    "ok \<longrightarrow> hid_report hi1 = [0, 0, 0, v, h]" "\<not> ok \<longrightarrow> h = 0 \<and> v = 0"
    "of_int (sint h) + hm_residual_hscroll hid1 =
      c_clamp (hm_residual_hscroll hid + we_hscroll e) (-127) 127"
    "of_int (sint v) + hm_residual_vscroll hid1 =
      c_clamp (hm_residual_vscroll hid + we_vscroll e) (-127) 127"
    "\<bar>hm_residual_hscroll hid1\<bar> < 1" "\<bar>hm_residual_vscroll hid1\<bar> < 1" by metis
  have "\<bar>hm_residual_hscroll hid + we_hscroll e\<bar> \<le> 127" "\<bar>hm_residual_vscroll hid + we_vscroll e\<bar> \<le> 127"
    using Cons.prems by auto
  note c = this [THEN clamp_id]
  have "\<forall>e \<in> set es. \<bar>we_hscroll e\<bar> \<le> 126 \<and> \<bar>we_vscroll e\<bar> \<le> 126" using Cons.prems(4) by simp
  from Cons.IH [OF s(2,7,8) this] obtain reports hid' where r:
    "scroll_events hid1 hi1 es = Some (reports, hid')"
    "of_int (sum_list (map report_hscroll reports)) + hm_residual_hscroll hid' =
      hm_residual_hscroll hid1 + sum_list (map we_hscroll es)"
    "of_int (sum_list (map report_vscroll reports)) + hm_residual_vscroll hid' =
      hm_residual_vscroll hid1 + sum_list (map we_vscroll es)"
    "\<bar>hm_residual_hscroll hid'\<bar> < 1" "\<bar>hm_residual_vscroll hid'\<bar> < 1"
    by blast
  let ?rs = "if ok then hid_report hi1 # reports else reports"
  have "sum_list (map report_hscroll ?rs) = sint h + sum_list (map report_hscroll reports)"
    "sum_list (map report_vscroll ?rs) = sint v + sum_list (map report_vscroll reports)"
    using s(3,4) by (auto simp: report_hscroll_def report_vscroll_def)
  then have sums: "of_int (sum_list (map report_hscroll ?rs)) = of_int (sint h) +
        (of_int (sum_list (map report_hscroll reports)) :: rat)"
    "of_int (sum_list (map report_vscroll ?rs)) = of_int (sint v) +
        (of_int (sum_list (map report_vscroll reports)) :: rat)"
    by (simp_all only: of_int_add)
  have "scroll_events hid hid_input (e # es) = Some (?rs, hid')" using s(1) r(1) by simp
  moreover have "of_int (sum_list (map report_hscroll ?rs)) + hm_residual_hscroll hid' =
      hm_residual_hscroll hid + sum_list (map we_hscroll (e # es))"
    unfolding sums using s(5) r(2) unfolding c by simp
  moreover have "of_int (sum_list (map report_vscroll ?rs)) + hm_residual_vscroll hid' =
      hm_residual_vscroll hid + sum_list (map we_vscroll (e # es))"
    unfolding sums using s(6) r(3) unfolding c by simp
  ultimately show ?case using r(4,5) by blast
qed simp

section \<open>Properties\<close>

text \<open>
  A key event updates exactly its own key and gives the 8-byte report of the whole keyboard: the
  modifiers, a reserved zero, and then the scancodes of the pressed keys in increasing order padded
  with zeros, or six rollover codes when more than six are pressed, also when the rollover was only
  discovered after keys had been written. No write leaves the report and no key is out of range.
\<close>

theorem keyboard_report:
  assumes "hid_keyboard_inv hid" "length (hin_data hid_input) = SC_HID_MAX_SIZE"
    and "0 \<le> ke_scancode event" "ke_scancode event < int SC_HID_KEYBOARD_KEYS \<or>
      scancode_is_modifier sdl (ke_scancode event)"
  shows "\<exists>keys' hid_input'. sc_hid_keyboard_generate_input_from_key sdl hid hid_input event =
      Some (True, \<lparr>hk_keys = keys'\<rparr>, hid_input') \<and>
    keys' = (if ke_scancode event < int SC_HID_KEYBOARD_KEYS
      then (hk_keys hid)[nat (ke_scancode event) := (ke_action event = SC_ACTION_DOWN)]
      else hk_keys hid) \<and>
    hin_hid_id hid_input' = SC_HID_ID_KEYBOARD \<and>
    hid_report hid_input' = ucast (sc_hid_mod_from_sdl_keymod (ke_mods_state event)) # 0 #
      key_bytes (pressed_keys keys')"
  using generate_input_from_key_eq [OF assms] by blast

lemma keyboard_report_witness:
  "\<exists>keys' hid_input'. sc_hid_keyboard_generate_input_from_key
      \<lparr>SC_SCANCODE_LCTRL = 224, SC_SCANCODE_RGUI = 231, SC_SCANCODE_CAPSLOCK = 57,
        SC_SCANCODE_NUMLOCK = 83\<rparr> sc_hid_keyboard_init
      \<lparr>hin_hid_id = 0, hin_data = replicate 15 0xff, hin_size = 0\<rparr>
      \<lparr>ke_action = SC_ACTION_DOWN, ke_keycode = SC_KEYCODE ''a'', ke_scancode = 4,
        ke_mods_state = {SC_MOD_LSHIFT}, ke_repeat = False\<rparr> =
      Some (True, \<lparr>hk_keys = keys'\<rparr>, hid_input') \<and> keys' = (replicate 102 False)[4 := True] \<and>
    hid_report hid_input' = 2 # 0 # key_bytes (pressed_keys keys')"
proof -
  let ?sdl = "\<lparr>SC_SCANCODE_LCTRL = 224, SC_SCANCODE_RGUI = 231, SC_SCANCODE_CAPSLOCK = 57,
    SC_SCANCODE_NUMLOCK = 83\<rparr>"
  let ?hi = "\<lparr>hin_hid_id = 0, hin_data = replicate 15 0xff, hin_size = 0\<rparr>"
  let ?e = "\<lparr>ke_action = SC_ACTION_DOWN, ke_keycode = SC_KEYCODE ''a'', ke_scancode = 4,
    ke_mods_state = {SC_MOD_LSHIFT}, ke_repeat = False\<rparr>"
  have "hid_keyboard_inv sc_hid_keyboard_init"
    by (simp add: hid_keyboard_inv_def sc_hid_keyboard_init_def)
  from keyboard_report [OF this, of ?hi ?e ?sdl] show ?thesis
    by (auto simp add: SC_HID_MAX_SIZE_def SC_HID_KEYBOARD_KEYS_def sc_hid_keyboard_init_def
        sc_hid_mod_from_sdl_keymod_def)
qed

text \<open>
  The host can decode the report: as long as at most six keys are pressed, the scancodes found in
  the key bytes are exactly the pressed keys.
\<close>

theorem keyboard_report_decodes:
  assumes "length (pressed_keys keys) \<le> 6"
  shows "{i. 0 < i \<and> i < 102 \<and> (of_nat i :: u8) \<in> set (key_bytes (pressed_keys keys))} =
    {i. 0 < i \<and> i < 102 \<and> keys ! i}"
  by (rule key_bytes_decode [OF assms])

lemma keyboard_report_decodes_witness:
  "{i. 0 < i \<and> i < 102 \<and>
      (of_nat i :: u8) \<in> set (key_bytes (pressed_keys (hk_keys sc_hid_keyboard_init)))} = {}"
proof -
  have "pressed_keys (hk_keys sc_hid_keyboard_init) = []"
    by (simp add: pressed_keys_def sc_hid_keyboard_init_def filter_empty_conv)
  then have "length (pressed_keys (hk_keys sc_hid_keyboard_init)) \<le> 6" by simp
  from keyboard_report_decodes [OF this] show ?thesis
    by (auto simp: sc_hid_keyboard_init_def SC_HID_KEYBOARD_KEYS_def)
qed

text \<open>
  Scrolling loses nothing: over any sequence of scroll events of a sane size, the wheel steps sent to
  the device plus what is kept for later is exactly what was scrolled plus what was kept before, in
  both directions, and what is kept is always less than one step.
\<close>

theorem scroll_accumulates:
  assumes "length (hin_data hid_input) = SC_HID_MAX_SIZE"
    and "\<bar>hm_residual_hscroll hid\<bar> < 1" "\<bar>hm_residual_vscroll hid\<bar> < 1"
    and "\<forall>e \<in> set es. \<bar>we_hscroll e\<bar> \<le> 126 \<and> \<bar>we_vscroll e\<bar> \<le> 126"
  shows "\<exists>reports hid'. scroll_events hid hid_input es = Some (reports, hid') \<and>
    of_int (sum_list (map report_hscroll reports)) + hm_residual_hscroll hid' =
      hm_residual_hscroll hid + sum_list (map we_hscroll es) \<and>
    of_int (sum_list (map report_vscroll reports)) + hm_residual_vscroll hid' =
      hm_residual_vscroll hid + sum_list (map we_vscroll es) \<and>
    \<bar>hm_residual_hscroll hid'\<bar> < 1 \<and> \<bar>hm_residual_vscroll hid'\<bar> < 1"
  by (rule scroll_events_sum [OF assms])

lemma scroll_accumulates_witness:
  "\<exists>reports hid'. scroll_events sc_hid_mouse_init
      \<lparr>hin_hid_id = 0, hin_data = replicate 15 0, hin_size = 0\<rparr>
      [\<lparr>we_position = some_position, we_hscroll = 0, we_vscroll = 1 / 2, we_buttons_state = {}\<rparr>,
       \<lparr>we_position = some_position, we_hscroll = 0, we_vscroll = 3 / 4, we_buttons_state = {}\<rparr>] =
      Some (reports, hid') \<and>
    of_int (sum_list (map report_vscroll reports)) + hm_residual_vscroll hid' = 5 / 4"
  using scroll_accumulates [of "\<lparr>hin_hid_id = 0, hin_data = replicate 15 0, hin_size = 0\<rparr>"
      sc_hid_mouse_init
      "[\<lparr>we_position = some_position, we_hscroll = 0, we_vscroll = 1 / 2, we_buttons_state = {}\<rparr>,
        \<lparr>we_position = some_position, we_hscroll = 0, we_vscroll = 3 / 4, we_buttons_state = {}\<rparr>]"]
  by (auto simp: SC_HID_MAX_SIZE_def sc_hid_mouse_init_def)

text \<open>
  A motion report carries the buttons, with the three padding bits clear, and both relative
  coordinates clamped to the range -127 to 127 of the report descriptor, in five bytes.
\<close>

theorem mouse_motion_report:
  assumes "length (hin_data hid_input) = SC_HID_MAX_SIZE"
  shows "\<exists>hid_input' b x y. sc_hid_mouse_generate_input_from_motion hid_input event = Some hid_input' \<and>
    hid_report hid_input' = [b, x, y, 0, 0] \<and> b < 32 \<and>
    sint x = min (max (sint (me_xrel event)) (-127)) 127 \<and>
    sint y = min (max (sint (me_yrel event)) (-127)) 127"
proof -
  let ?b = "sc_hid_buttons_from_buttons_state (me_buttons_state event)"
  have s: "sint (word_of_int (clamp_i32 v (-127) 127) :: u8) = min (max (sint v) (-127)) 127" for v
  proof -
    have "-128 \<le> clamp_i32 v (-127) 127" "clamp_i32 v (-127) 127 < 128"
      by (auto simp: clamp_i32_def)
    then have "sint (word_of_int (clamp_i32 v (-127) 127) :: u8) = clamp_i32 v (-127) 127"
      by (simp only: sint_sbintrunc' signed_take_bit_int_eq_self_iff) simp
    then show ?thesis by (simp only: clamp_i32_def)
  qed
  have "?b < 32" by (auto simp: sc_hid_buttons_from_buttons_state_def)
  moreover have "\<exists>hid_input'. sc_hid_mouse_generate_input_from_motion hid_input event = Some hid_input' \<and>
    hid_report hid_input' = [?b, word_of_int (clamp_i32 (me_xrel event) (-127) 127),
      word_of_int (clamp_i32 (me_yrel event) (-127) 127), 0, 0]"
    using assms
    by (simp add: sc_hid_mouse_generate_input_from_motion_def sc_hid_mouse_input_init_def
        mem_put_comp SC_HID_MAX_SIZE_def hid_report_def SC_HID_MOUSE_INPUT_SIZE_def mem_put_def)
  ultimately show ?thesis using s by blast
qed

lemma mouse_motion_report_witness:
  "\<exists>hid_input' b x y. sc_hid_mouse_generate_input_from_motion
      \<lparr>hin_hid_id = 0, hin_data = replicate 15 0, hin_size = 0\<rparr>
      \<lparr>me_position = some_position, me_pointer_id = 0, me_xrel = 500, me_yrel = -4,
       me_buttons_state = {SC_MOUSE_BUTTON_LEFT}\<rparr> = Some hid_input' \<and>
    hid_report hid_input' = [b, x, y, 0, 0] \<and> b < 32 \<and> sint x = 127 \<and> sint y = -4"
  using mouse_motion_report [of "\<lparr>hin_hid_id = 0, hin_data = replicate 15 0, hin_size = 0\<rparr>"
      "\<lparr>me_position = some_position, me_pointer_id = 0, me_xrel = 500, me_yrel = -4,
       me_buttons_state = {SC_MOUSE_BUTTON_LEFT}\<rparr>"]
  by (simp add: SC_HID_MAX_SIZE_def)

end
