(* ===== verification/Sc_Hid_Gamepad.thy ===== *)
theory Sc_Hid_Gamepad
  imports Sc_Input_Events
begin

text \<open>
  \<open>hid/hid_gamepad.c\<close>: up to eight simulated gamepads, one per slot. A slot holds the SDL id of its
  gamepad, or zero, and the state of its buttons and axes; the slot decides the HID id of the device.

  The number behind a button constant comes from SDL and is a parameter (\<open>sdl_button\<close>).
\<close>

section \<open>Data\<close>

definition SC_MAX_GAMEPADS :: nat where "SC_MAX_GAMEPADS = 8"
definition SC_HID_ID_GAMEPAD_FIRST :: nat where "SC_HID_ID_GAMEPAD_FIRST = 3"
definition SC_HID_GAMEPAD_EVENT_SIZE :: u8 where "SC_HID_GAMEPAD_EVENT_SIZE = 15"
definition SC_HID_BUTTONS_MASK :: u32 where "SC_HID_BUTTONS_MASK = 0xFFFF"

definition SC_GAMEPAD_BUTTONS_BIT_DPAD_UP :: u32 where "SC_GAMEPAD_BUTTONS_BIT_DPAD_UP = 0x10000"
definition SC_GAMEPAD_BUTTONS_BIT_DPAD_DOWN :: u32 where "SC_GAMEPAD_BUTTONS_BIT_DPAD_DOWN = 0x20000"
definition SC_GAMEPAD_BUTTONS_BIT_DPAD_LEFT :: u32 where "SC_GAMEPAD_BUTTONS_BIT_DPAD_LEFT = 0x40000"
definition SC_GAMEPAD_BUTTONS_BIT_DPAD_RIGHT :: u32 where "SC_GAMEPAD_BUTTONS_BIT_DPAD_RIGHT = 0x80000"

lemmas dpad_bits =
  SC_GAMEPAD_BUTTONS_BIT_DPAD_UP_def SC_GAMEPAD_BUTTONS_BIT_DPAD_DOWN_def
  SC_GAMEPAD_BUTTONS_BIT_DPAD_LEFT_def SC_GAMEPAD_BUTTONS_BIT_DPAD_RIGHT_def

record sc_hid_gamepad_slot =
  gs_gamepad_id :: u32
  gs_buttons :: u32
  gs_axis_left_x :: u16
  gs_axis_left_y :: u16
  gs_axis_right_x :: u16
  gs_axis_right_y :: u16
  gs_axis_left_trigger :: u16
  gs_axis_right_trigger :: u16

record sc_hid_gamepad =
  hg_slots :: "sc_hid_gamepad_slot list"

definition SC_HID_GAMEPAD_REPORT_DESC :: bytes where
  "SC_HID_GAMEPAD_REPORT_DESC = [
     0x05, 0x01, 0x09, 0x05, 0xA1, 0x01, 0xA1, 0x00, 0x05, 0x01, 0x09, 0x30, 0x09, 0x31, 0x09,
     0x33, 0x09, 0x34, 0x15, 0x00, 0x27, 0xFF, 0xFF, 0x00, 0x00, 0x75, 0x10, 0x95, 0x04, 0x81,
     0x02, 0x05, 0x01, 0x09, 0x32, 0x09, 0x35, 0x15, 0x00, 0x26, 0xFF, 0x7F, 0x75, 0x10, 0x95,
     0x02, 0x81, 0x02, 0x05, 0x09, 0x19, 0x01, 0x29, 0x10, 0x15, 0x00, 0x25, 0x01, 0x95, 0x10,
     0x75, 0x01, 0x81, 0x02, 0x05, 0x01, 0x09, 0x39, 0x15, 0x01, 0x25, 0x08, 0x75, 0x04, 0x95,
     0x01, 0x81, 0x42, 0xC0, 0xC0]"

section \<open>Operations\<close>

text \<open>The argument is an \<open>int16_t\<close>.\<close>

definition AXIS_RESCALE :: "u16 \<Rightarrow> u16" where
  "AXIS_RESCALE v = word_of_int (sint v + 0x8000)"

definition sc_hid_gamepad_slot_init ::
    "sc_hid_gamepad_slot \<Rightarrow> u32 \<Rightarrow> sc_hid_gamepad_slot option" where
  "sc_hid_gamepad_slot_init slot gamepad_id = do {
     c_assert (gamepad_id \<noteq> SC_GAMEPAD_ID_INVALID);
     Some (slot\<lparr>gs_gamepad_id := gamepad_id, gs_buttons := 0,
       gs_axis_left_x := AXIS_RESCALE 0, gs_axis_left_y := AXIS_RESCALE 0,
       gs_axis_right_x := AXIS_RESCALE 0, gs_axis_right_y := AXIS_RESCALE 0,
       gs_axis_left_trigger := 0, gs_axis_right_trigger := 0\<rparr>)
   }"

text \<open>The loop from slot \<open>i\<close> on; the result -1 is \<open>Some None\<close>.\<close>

fun slot_find_loop :: "sc_hid_gamepad_slot list \<Rightarrow> u32 \<Rightarrow> nat list \<Rightarrow> nat option option" where
  "slot_find_loop slots gamepad_id [] = Some None"
| "slot_find_loop slots gamepad_id (i # is) = do {
     slot \<leftarrow> arr_get slots i;
     if gamepad_id = gs_gamepad_id slot then Some (Some i)
     else slot_find_loop slots gamepad_id is
   }"

definition sc_hid_gamepad_slot_find :: "sc_hid_gamepad \<Rightarrow> u32 \<Rightarrow> nat option option" where
  "sc_hid_gamepad_slot_find hid gamepad_id =
     slot_find_loop (hg_slots hid) gamepad_id [0..<SC_MAX_GAMEPADS]"

text \<open>The other fields of the slots keep their indeterminate values.\<close>

definition sc_hid_gamepad_init :: "sc_hid_gamepad \<Rightarrow> sc_hid_gamepad" where
  "sc_hid_gamepad_init hid =
     hid\<lparr>hg_slots := map (\<lambda>slot. slot\<lparr>gs_gamepad_id := SC_GAMEPAD_ID_INVALID\<rparr>) (hg_slots hid)\<rparr>"

definition sc_hid_gamepad_slot_get_id :: "nat \<Rightarrow> u16 option" where
  "sc_hid_gamepad_slot_get_id slot_idx = do {
     c_assert (slot_idx < SC_MAX_GAMEPADS);
     Some (of_nat (SC_HID_ID_GAMEPAD_FIRST + slot_idx))
   }"

text \<open>No device to open is \<open>Some (None, _)\<close>, the C result \<open>false\<close>.\<close>

definition sc_hid_gamepad_generate_open ::
    "sc_hid_gamepad \<Rightarrow> u32 \<Rightarrow> (sc_hid_open option \<times> sc_hid_gamepad) option" where
  "sc_hid_gamepad_generate_open hid gamepad_id = do {
     c_assert (gamepad_id \<noteq> SC_GAMEPAD_ID_INVALID);
     slot_idx \<leftarrow> sc_hid_gamepad_slot_find hid SC_GAMEPAD_ID_INVALID;
     case slot_idx of
       None \<Rightarrow> Some (None, hid)
     | Some slot_idx \<Rightarrow> do {
         slot \<leftarrow> arr_get (hg_slots hid) slot_idx;
         slot \<leftarrow> sc_hid_gamepad_slot_init slot gamepad_id;
         let hid = hid\<lparr>hg_slots := (hg_slots hid)[slot_idx := slot]\<rparr>;
         hid_id \<leftarrow> sc_hid_gamepad_slot_get_id slot_idx;
         Some (Some \<lparr>hop_hid_id = hid_id, hop_report_desc = SC_HID_GAMEPAD_REPORT_DESC\<rparr>, hid)
       }
   }"

definition sc_hid_gamepad_generate_close ::
    "sc_hid_gamepad \<Rightarrow> u32 \<Rightarrow> (sc_hid_close option \<times> sc_hid_gamepad) option" where
  "sc_hid_gamepad_generate_close hid gamepad_id = do {
     c_assert (gamepad_id \<noteq> SC_GAMEPAD_ID_INVALID);
     slot_idx \<leftarrow> sc_hid_gamepad_slot_find hid gamepad_id;
     case slot_idx of
       None \<Rightarrow> Some (None, hid)
     | Some slot_idx \<Rightarrow> do {
         slot \<leftarrow> arr_get (hg_slots hid) slot_idx;
         let hid = hid\<lparr>hg_slots :=
           (hg_slots hid)[slot_idx := slot\<lparr>gs_gamepad_id := SC_GAMEPAD_ID_INVALID\<rparr>]\<rparr>;
         hid_id \<leftarrow> sc_hid_gamepad_slot_get_id slot_idx;
         Some (Some \<lparr>hcl_hid_id = hid_id\<rparr>, hid)
       }
   }"

definition sc_hid_gamepad_get_dpad_value :: "u32 \<Rightarrow> u8" where
  "sc_hid_gamepad_get_dpad_value buttons =
     (if buttons AND SC_GAMEPAD_BUTTONS_BIT_DPAD_UP \<noteq> 0 then
        (if buttons AND SC_GAMEPAD_BUTTONS_BIT_DPAD_LEFT \<noteq> 0 then 8
         else if buttons AND SC_GAMEPAD_BUTTONS_BIT_DPAD_RIGHT \<noteq> 0 then 2
         else 1)
      else if buttons AND SC_GAMEPAD_BUTTONS_BIT_DPAD_DOWN \<noteq> 0 then
        (if buttons AND SC_GAMEPAD_BUTTONS_BIT_DPAD_LEFT \<noteq> 0 then 6
         else if buttons AND SC_GAMEPAD_BUTTONS_BIT_DPAD_RIGHT \<noteq> 0 then 4
         else 5)
      else if buttons AND SC_GAMEPAD_BUTTONS_BIT_DPAD_LEFT \<noteq> 0 then 7
      else if buttons AND SC_GAMEPAD_BUTTONS_BIT_DPAD_RIGHT \<noteq> 0 then 3
      else 0)"

definition sc_hid_gamepad_event_from_slot ::
    "u16 \<Rightarrow> sc_hid_gamepad_slot \<Rightarrow> sc_hid_input \<Rightarrow> sc_hid_input option" where
  "sc_hid_gamepad_event_from_slot hid_id slot hid_input = do {
     let hid_input = hid_input\<lparr>hin_hid_id := hid_id, hin_size := SC_HID_GAMEPAD_EVENT_SIZE\<rparr>;
     data \<leftarrow> mem_write (hin_data hid_input) 0 (sc_write16le (gs_axis_left_x slot));
     data \<leftarrow> mem_write data 2 (sc_write16le (gs_axis_left_y slot));
     data \<leftarrow> mem_write data 4 (sc_write16le (gs_axis_right_x slot));
     data \<leftarrow> mem_write data 6 (sc_write16le (gs_axis_right_y slot));
     data \<leftarrow> mem_write data 8 (sc_write16le (gs_axis_left_trigger slot));
     data \<leftarrow> mem_write data 10 (sc_write16le (gs_axis_right_trigger slot));
     data \<leftarrow> mem_write data 12 (sc_write16le (ucast (gs_buttons slot AND SC_HID_BUTTONS_MASK)));
     data \<leftarrow> mem_write data 14 [sc_hid_gamepad_get_dpad_value (gs_buttons slot)];
     Some (hid_input\<lparr>hin_data := data\<rparr>)
   }"

definition sc_hid_gamepad_get_button_id :: "sc_gamepad_button \<Rightarrow> u32" where
  "sc_hid_gamepad_get_button_id button = (case button of
       SC_GAMEPAD_BUTTON_SOUTH \<Rightarrow> 0x0001
     | SC_GAMEPAD_BUTTON_EAST \<Rightarrow> 0x0002
     | SC_GAMEPAD_BUTTON_WEST \<Rightarrow> 0x0008
     | SC_GAMEPAD_BUTTON_NORTH \<Rightarrow> 0x0010
     | SC_GAMEPAD_BUTTON_BACK \<Rightarrow> 0x0400
     | SC_GAMEPAD_BUTTON_GUIDE \<Rightarrow> 0x1000
     | SC_GAMEPAD_BUTTON_START \<Rightarrow> 0x0800
     | SC_GAMEPAD_BUTTON_LEFT_STICK \<Rightarrow> 0x2000
     | SC_GAMEPAD_BUTTON_RIGHT_STICK \<Rightarrow> 0x4000
     | SC_GAMEPAD_BUTTON_LEFT_SHOULDER \<Rightarrow> 0x0040
     | SC_GAMEPAD_BUTTON_RIGHT_SHOULDER \<Rightarrow> 0x0080
     | SC_GAMEPAD_BUTTON_DPAD_UP \<Rightarrow> SC_GAMEPAD_BUTTONS_BIT_DPAD_UP
     | SC_GAMEPAD_BUTTON_DPAD_DOWN \<Rightarrow> SC_GAMEPAD_BUTTONS_BIT_DPAD_DOWN
     | SC_GAMEPAD_BUTTON_DPAD_LEFT \<Rightarrow> SC_GAMEPAD_BUTTONS_BIT_DPAD_LEFT
     | SC_GAMEPAD_BUTTON_DPAD_RIGHT \<Rightarrow> SC_GAMEPAD_BUTTONS_BIT_DPAD_RIGHT
     | SC_GAMEPAD_BUTTON_UNKNOWN \<Rightarrow> 0)"

text \<open>An event that gives no report is \<open>Some (None, _)\<close>, the C result \<open>false\<close>.\<close>

definition sc_hid_gamepad_generate_input_from_button ::
    "(sc_gamepad_button \<Rightarrow> int) \<Rightarrow> sc_hid_gamepad \<Rightarrow> sc_hid_input \<Rightarrow> sc_gamepad_button_event \<Rightarrow>
      (sc_hid_input option \<times> sc_hid_gamepad) option" where
  "sc_hid_gamepad_generate_input_from_button sdl_button hid hid_input event =
     (if sdl_button (gbe_button event) < 0 \<or> sdl_button (gbe_button event) > 15
      then Some (None, hid)
      else do {
        slot_idx \<leftarrow> sc_hid_gamepad_slot_find hid (gbe_gamepad_id event);
        case slot_idx of
          None \<Rightarrow> Some (None, hid)
        | Some slot_idx \<Rightarrow> do {
            c_assert (slot_idx < SC_MAX_GAMEPADS);
            slot \<leftarrow> arr_get (hg_slots hid) slot_idx;
            let button = sc_hid_gamepad_get_button_id (gbe_button event);
            if button = 0 then Some (None, hid)
            else do {
              let slot = (if gbe_action event = SC_ACTION_DOWN
                then slot\<lparr>gs_buttons := gs_buttons slot OR button\<rparr>
                else slot\<lparr>gs_buttons := gs_buttons slot AND NOT button\<rparr>);
              let hid = hid\<lparr>hg_slots := (hg_slots hid)[slot_idx := slot]\<rparr>;
              hid_id \<leftarrow> sc_hid_gamepad_slot_get_id slot_idx;
              hid_input \<leftarrow> sc_hid_gamepad_event_from_slot hid_id slot hid_input;
              Some (Some hid_input, hid)
            }
          }
      })"

text \<open>\<open>MAX(0, value)\<close> of an \<open>int16_t\<close>, stored in a \<open>uint16_t\<close>.\<close>

definition trigger_value :: "u16 \<Rightarrow> u16" where
  "trigger_value value = word_of_int (max 0 (sint value))"

definition axis_update :: "sc_gamepad_axis_event \<Rightarrow> sc_hid_gamepad_slot \<Rightarrow> sc_hid_gamepad_slot option" where
  "axis_update event slot = (let value = gae_value event in
     case gae_axis event of
       SC_GAMEPAD_AXIS_LEFTX \<Rightarrow> Some (slot\<lparr>gs_axis_left_x := AXIS_RESCALE value\<rparr>)
     | SC_GAMEPAD_AXIS_LEFTY \<Rightarrow> Some (slot\<lparr>gs_axis_left_y := AXIS_RESCALE value\<rparr>)
     | SC_GAMEPAD_AXIS_RIGHTX \<Rightarrow> Some (slot\<lparr>gs_axis_right_x := AXIS_RESCALE value\<rparr>)
     | SC_GAMEPAD_AXIS_RIGHTY \<Rightarrow> Some (slot\<lparr>gs_axis_right_y := AXIS_RESCALE value\<rparr>)
     | SC_GAMEPAD_AXIS_LEFT_TRIGGER \<Rightarrow> Some (slot\<lparr>gs_axis_left_trigger := trigger_value value\<rparr>)
     | SC_GAMEPAD_AXIS_RIGHT_TRIGGER \<Rightarrow> Some (slot\<lparr>gs_axis_right_trigger := trigger_value value\<rparr>)
     | SC_GAMEPAD_AXIS_UNKNOWN \<Rightarrow> None)"

definition sc_hid_gamepad_generate_input_from_axis ::
    "sc_hid_gamepad \<Rightarrow> sc_hid_input \<Rightarrow> sc_gamepad_axis_event \<Rightarrow>
      (sc_hid_input option \<times> sc_hid_gamepad) option" where
  "sc_hid_gamepad_generate_input_from_axis hid hid_input event = do {
     slot_idx \<leftarrow> sc_hid_gamepad_slot_find hid (gae_gamepad_id event);
     case slot_idx of
       None \<Rightarrow> Some (None, hid)
     | Some slot_idx \<Rightarrow> do {
         c_assert (slot_idx < SC_MAX_GAMEPADS);
         slot \<leftarrow> arr_get (hg_slots hid) slot_idx;
         case axis_update event slot of
           None \<Rightarrow> Some (None, hid)
         | Some slot \<Rightarrow> do {
             let hid = hid\<lparr>hg_slots := (hg_slots hid)[slot_idx := slot]\<rparr>;
             hid_id \<leftarrow> sc_hid_gamepad_slot_get_id slot_idx;
             hid_input \<leftarrow> sc_hid_gamepad_event_from_slot hid_id slot hid_input;
             Some (Some hid_input, hid)
           }
       }
   }"

section \<open>Slots\<close>

definition hid_gamepad_inv :: "sc_hid_gamepad \<Rightarrow> bool" where
  "hid_gamepad_inv hid \<longleftrightarrow> length (hg_slots hid) = SC_MAX_GAMEPADS"

text \<open>The first slot of a gamepad, or the first free slot for zero.\<close>

definition slot_of :: "sc_hid_gamepad \<Rightarrow> u32 \<Rightarrow> nat option" where
  "slot_of hid gamepad_id =
     find (\<lambda>i. gs_gamepad_id (hg_slots hid ! i) = gamepad_id) [0..<SC_MAX_GAMEPADS]"

lemma slot_find_loop_eq:
  "\<forall>i \<in> set is. i < length slots \<Longrightarrow>
     slot_find_loop slots g is = Some (find (\<lambda>i. gs_gamepad_id (slots ! i) = g) is)"
  by (induction "is") auto

lemma slot_find_eq: "hid_gamepad_inv hid \<Longrightarrow> sc_hid_gamepad_slot_find hid g = Some (slot_of hid g)"
  by (simp add: sc_hid_gamepad_slot_find_def slot_of_def slot_find_loop_eq hid_gamepad_inv_def)

lemma slot_of_SomeD:
  assumes "slot_of hid g = Some i"
  shows "i < SC_MAX_GAMEPADS" "gs_gamepad_id (hg_slots hid ! i) = g"
  using assms by (auto simp: slot_of_def find_Some_iff)

lemma slot_of_NoneD:
  "slot_of hid g = None \<Longrightarrow> i < SC_MAX_GAMEPADS \<Longrightarrow> gs_gamepad_id (hg_slots hid ! i) \<noteq> g"
  by (auto simp: slot_of_def find_None_iff)

definition slot_hid_id :: "nat \<Rightarrow> u16" where
  "slot_hid_id i = of_nat (SC_HID_ID_GAMEPAD_FIRST + i)"

lemma slot_get_id_eq [simp]:
  "i < SC_MAX_GAMEPADS \<Longrightarrow> sc_hid_gamepad_slot_get_id i = Some (slot_hid_id i)"
  by (simp add: sc_hid_gamepad_slot_get_id_def slot_hid_id_def)

lemma unat_slot_hid_id: "i < SC_MAX_GAMEPADS \<Longrightarrow> unat (slot_hid_id i) = 3 + i"
  by (simp only: slot_hid_id_def SC_HID_ID_GAMEPAD_FIRST_def SC_MAX_GAMEPADS_def unsigned_of_nat)
    (simp add: take_bit_nat_eq_self)

lemma slot_hid_id_inj:
  "i < SC_MAX_GAMEPADS \<Longrightarrow> j < SC_MAX_GAMEPADS \<Longrightarrow> slot_hid_id i = slot_hid_id j \<longleftrightarrow> i = j"
  by (metis unat_slot_hid_id add_left_cancel)

text \<open>The report of a slot.\<close>

definition slot_report :: "sc_hid_gamepad_slot \<Rightarrow> bytes" where
  "slot_report slot =
     sc_write16le (gs_axis_left_x slot) @ sc_write16le (gs_axis_left_y slot) @
     sc_write16le (gs_axis_right_x slot) @ sc_write16le (gs_axis_right_y slot) @
     sc_write16le (gs_axis_left_trigger slot) @ sc_write16le (gs_axis_right_trigger slot) @
     sc_write16le (ucast (gs_buttons slot AND 0xFFFF)) @
     [sc_hid_gamepad_get_dpad_value (gs_buttons slot)]"

lemma length_slot_report [simp]: "length (slot_report slot) = 15"
  by (simp add: slot_report_def)

lemma event_from_slot_eq:
  assumes "length (hin_data hid_input) = SC_HID_MAX_SIZE"
  shows "sc_hid_gamepad_event_from_slot hid_id slot hid_input =
    Some \<lparr>hin_hid_id = hid_id, hin_data = slot_report slot, hin_size = 15\<rparr>"
proof -
  have "mem_put (hin_data hid_input) 0 (slot_report slot) = slot_report slot"
    using assms by (simp add: mem_put_def SC_HID_MAX_SIZE_def)
  then show ?thesis
    using assms
    by (cases hid_input)
      (simp add: sc_hid_gamepad_event_from_slot_def SC_HID_MAX_SIZE_def mem_put_comp
        SC_HID_GAMEPAD_EVENT_SIZE_def SC_HID_BUTTONS_MASK_def slot_report_def)
qed

section \<open>The operations on a well-formed state\<close>

definition new_slot :: "u32 \<Rightarrow> sc_hid_gamepad_slot" where
  "new_slot g = \<lparr>gs_gamepad_id = g, gs_buttons = 0, gs_axis_left_x = 0x8000, gs_axis_left_y = 0x8000,
     gs_axis_right_x = 0x8000, gs_axis_right_y = 0x8000, gs_axis_left_trigger = 0,
     gs_axis_right_trigger = 0\<rparr>"

definition set_slot :: "nat \<Rightarrow> sc_hid_gamepad_slot \<Rightarrow> sc_hid_gamepad \<Rightarrow> sc_hid_gamepad" where
  "set_slot i slot hid = hid\<lparr>hg_slots := (hg_slots hid)[i := slot]\<rparr>"

lemma set_slot_inv [simp]: "hid_gamepad_inv (set_slot i slot hid) = hid_gamepad_inv hid"
  by (simp add: hid_gamepad_inv_def set_slot_def)

lemma set_slot_nth:
  "hid_gamepad_inv hid \<Longrightarrow> i < SC_MAX_GAMEPADS \<Longrightarrow> j < SC_MAX_GAMEPADS \<Longrightarrow>
     hg_slots (set_slot i slot hid) ! j = (if i = j then slot else hg_slots hid ! j)"
  by (auto simp: hid_gamepad_inv_def set_slot_def nth_list_update)

lemma axis_rescale_0: "AXIS_RESCALE 0 = 0x8000"
  by (simp add: AXIS_RESCALE_def)

lemma generate_open_eq:
  assumes "hid_gamepad_inv hid" "g \<noteq> 0"
  shows "sc_hid_gamepad_generate_open hid g = Some (case slot_of hid 0 of
      None \<Rightarrow> (None, hid)
    | Some i \<Rightarrow> (Some \<lparr>hop_hid_id = slot_hid_id i, hop_report_desc = SC_HID_GAMEPAD_REPORT_DESC\<rparr>,
        set_slot i (new_slot g) hid))"
proof -
  have "sc_hid_gamepad_slot_init slot g = Some (new_slot g)" for slot
    using assms(2) by (cases slot)
      (simp add: sc_hid_gamepad_slot_init_def new_slot_def SC_GAMEPAD_ID_INVALID_def axis_rescale_0)
  then show ?thesis
    using assms slot_of_SomeD(1) [of hid 0]
    by (auto simp: sc_hid_gamepad_generate_open_def slot_find_eq SC_GAMEPAD_ID_INVALID_def
        set_slot_def hid_gamepad_inv_def split: option.splits)
qed

lemma generate_close_eq:
  assumes "hid_gamepad_inv hid" "g \<noteq> 0"
  shows "sc_hid_gamepad_generate_close hid g = Some (case slot_of hid g of
      None \<Rightarrow> (None, hid)
    | Some i \<Rightarrow> (Some \<lparr>hcl_hid_id = slot_hid_id i\<rparr>,
        set_slot i ((hg_slots hid ! i)\<lparr>gs_gamepad_id := 0\<rparr>) hid))"
  using assms slot_of_SomeD(1) [of hid g]
  by (auto simp: sc_hid_gamepad_generate_close_def slot_find_eq SC_GAMEPAD_ID_INVALID_def
      set_slot_def hid_gamepad_inv_def split: option.splits)

definition press :: "sc_gamepad_button_event \<Rightarrow> sc_hid_gamepad_slot \<Rightarrow> sc_hid_gamepad_slot" where
  "press event slot = slot\<lparr>gs_buttons :=
     (if gbe_action event = SC_ACTION_DOWN
      then gs_buttons slot OR sc_hid_gamepad_get_button_id (gbe_button event)
      else gs_buttons slot AND NOT (sc_hid_gamepad_get_button_id (gbe_button event)))\<rparr>"

lemma button_id_0: "sc_hid_gamepad_get_button_id b = 0 \<longleftrightarrow> b = SC_GAMEPAD_BUTTON_UNKNOWN"
  by (cases b) (simp_all add: sc_hid_gamepad_get_button_id_def dpad_bits)

definition sdl_buttons_ok :: "(sc_gamepad_button \<Rightarrow> int) \<Rightarrow> bool" where
  "sdl_buttons_ok sdl_button \<longleftrightarrow> sdl_button SC_GAMEPAD_BUTTON_UNKNOWN = -1 \<and>
     (\<forall>b. b \<noteq> SC_GAMEPAD_BUTTON_UNKNOWN \<longrightarrow> 0 \<le> sdl_button b \<and> sdl_button b \<le> 15)"

lemma input_from_button_eq:
  assumes "hid_gamepad_inv hid" "length (hin_data hid_input) = SC_HID_MAX_SIZE" "sdl_buttons_ok sdl_button"
  shows "sc_hid_gamepad_generate_input_from_button sdl_button hid hid_input event = Some (
    case slot_of hid (gbe_gamepad_id event) of
      None \<Rightarrow> (None, hid)
    | Some i \<Rightarrow> if gbe_button event = SC_GAMEPAD_BUTTON_UNKNOWN then (None, hid)
        else (Some \<lparr>hin_hid_id = slot_hid_id i, hin_data = slot_report (press event (hg_slots hid ! i)),
            hin_size = 15\<rparr>,
          set_slot i (press event (hg_slots hid ! i)) hid))"
proof (cases "gbe_button event = SC_GAMEPAD_BUTTON_UNKNOWN")
  case True
  with assms show ?thesis
    by (simp add: sc_hid_gamepad_generate_input_from_button_def sdl_buttons_ok_def split: option.splits)
next
  case False
  with assms(3) have "0 \<le> sdl_button (gbe_button event)" "sdl_button (gbe_button event) \<le> 15"
    by (simp_all add: sdl_buttons_ok_def)
  with False assms(1,2) slot_of_SomeD(1) [of hid "gbe_gamepad_id event"] show ?thesis
    by (auto simp: sc_hid_gamepad_generate_input_from_button_def slot_find_eq button_id_0 press_def
        set_slot_def event_from_slot_eq hid_gamepad_inv_def Let_def split: option.splits)
qed

lemma input_from_axis_eq:
  assumes "hid_gamepad_inv hid" "length (hin_data hid_input) = SC_HID_MAX_SIZE"
  shows "sc_hid_gamepad_generate_input_from_axis hid hid_input event = Some (
    case slot_of hid (gae_gamepad_id event) of
      None \<Rightarrow> (None, hid)
    | Some i \<Rightarrow> case axis_update event (hg_slots hid ! i) of
        None \<Rightarrow> (None, hid)
      | Some slot \<Rightarrow>
        (Some \<lparr>hin_hid_id = slot_hid_id i, hin_data = slot_report slot, hin_size = 15\<rparr>,
          set_slot i slot hid))"
  using assms slot_of_SomeD(1) [of hid "gae_gamepad_id event"]
  by (auto simp: sc_hid_gamepad_generate_input_from_axis_def slot_find_eq
      set_slot_def event_from_slot_eq hid_gamepad_inv_def Let_def split: option.splits)

section \<open>Values\<close>

lemma dpad_value_le: "sc_hid_gamepad_get_dpad_value buttons \<le> 8"
  by (simp add: sc_hid_gamepad_get_dpad_value_def)

lemma uint_axis_rescale: "uint (AXIS_RESCALE v) = sint v + 32768"
proof -
  have "- 32768 \<le> sint v" "sint v < 32768" using sint_ge [of v] sint_lt [of v] by simp_all
  then have "uint (word_of_int (sint v + 32768) :: u16) = sint v + 32768"
    by (simp only: uint_word_of_int) (simp del: of_int_add)
  then show ?thesis by (simp add: AXIS_RESCALE_def del: of_int_add)
qed

lemma uint_trigger_value: "uint (trigger_value v) = max 0 (sint v)" "uint (trigger_value v) \<le> 32767"
proof -
  have "sint v < 32768" using sint_lt [of v] by simp
  then have "uint (word_of_int (max 0 (sint v)) :: u16) = max 0 (sint v)"
    by (simp only: uint_word_of_int) simp
  then show "uint (trigger_value v) = max 0 (sint v)" by (simp add: trigger_value_def)
  with \<open>sint v < 32768\<close> show "uint (trigger_value v) \<le> 32767" by linarith
qed

section \<open>Buttons and axes as the device reads them\<close>

definition button_bit :: "sc_gamepad_button \<Rightarrow> nat" where
  "button_bit button = (case button of
       SC_GAMEPAD_BUTTON_SOUTH \<Rightarrow> 0 | SC_GAMEPAD_BUTTON_EAST \<Rightarrow> 1 | SC_GAMEPAD_BUTTON_WEST \<Rightarrow> 3
     | SC_GAMEPAD_BUTTON_NORTH \<Rightarrow> 4 | SC_GAMEPAD_BUTTON_BACK \<Rightarrow> 10 | SC_GAMEPAD_BUTTON_GUIDE \<Rightarrow> 12
     | SC_GAMEPAD_BUTTON_START \<Rightarrow> 11 | SC_GAMEPAD_BUTTON_LEFT_STICK \<Rightarrow> 13
     | SC_GAMEPAD_BUTTON_RIGHT_STICK \<Rightarrow> 14 | SC_GAMEPAD_BUTTON_LEFT_SHOULDER \<Rightarrow> 6
     | SC_GAMEPAD_BUTTON_RIGHT_SHOULDER \<Rightarrow> 7 | SC_GAMEPAD_BUTTON_DPAD_UP \<Rightarrow> 16
     | SC_GAMEPAD_BUTTON_DPAD_DOWN \<Rightarrow> 17 | SC_GAMEPAD_BUTTON_DPAD_LEFT \<Rightarrow> 18
     | SC_GAMEPAD_BUTTON_DPAD_RIGHT \<Rightarrow> 19 | SC_GAMEPAD_BUTTON_UNKNOWN \<Rightarrow> 31)"

lemma button_id_bit:
  "b \<noteq> SC_GAMEPAD_BUTTON_UNKNOWN \<Longrightarrow> sc_hid_gamepad_get_button_id b = push_bit (button_bit b) 1"
  by (cases b) (simp_all add: sc_hid_gamepad_get_button_id_def button_bit_def dpad_bits)

lemma button_bit_inj: "button_bit a = button_bit b \<longleftrightarrow> a = b"
  by (cases a; cases b) (simp_all add: button_bit_def)

lemma button_bit_lt: "button_bit b < 32"
  by (cases b) (simp_all add: button_bit_def)

definition button_down :: "sc_hid_gamepad_slot \<Rightarrow> sc_gamepad_button \<Rightarrow> bool" where
  "button_down slot b \<longleftrightarrow> bit (gs_buttons slot) (button_bit b)"

lemma press_button_down:
  assumes "gbe_button event \<noteq> SC_GAMEPAD_BUTTON_UNKNOWN"
  shows "button_down (press event slot) b =
    (if gbe_button event = b then gbe_action event = SC_ACTION_DOWN else button_down slot b)"
  using button_bit_inj [of "gbe_button event" b] button_bit_lt [of b]
  by (auto simp: button_down_def press_def button_id_bit [OF assms] bit_simps)

text \<open>Sending button events one after the other.\<close>

fun button_events ::
    "(sc_gamepad_button \<Rightarrow> int) \<Rightarrow> sc_hid_gamepad \<Rightarrow> sc_hid_input \<Rightarrow> sc_gamepad_button_event list \<Rightarrow>
      (bytes list \<times> sc_hid_gamepad) option" where
  "button_events sdl_button hid hid_input [] = Some ([], hid)"
| "button_events sdl_button hid hid_input (e # es) = do {
     (r, hid) \<leftarrow> sc_hid_gamepad_generate_input_from_button sdl_button hid hid_input e;
     (rs, hid) \<leftarrow> button_events sdl_button hid hid_input es;
     Some ((case r of None \<Rightarrow> rs | Some r \<Rightarrow> hid_report r # rs), hid)
   }"

text \<open>Whether a button is down after some events: the last one for it decides.\<close>

fun held :: "sc_gamepad_button_event list \<Rightarrow> u32 \<Rightarrow> sc_gamepad_button \<Rightarrow> bool \<Rightarrow> bool" where
  "held [] g b down = down"
| "held (e # es) g b down = held es g b
     (if gbe_gamepad_id e = g \<and> gbe_button e = b then gbe_action e = SC_ACTION_DOWN else down)"

lemma set_slot_slot_of:
  assumes "hid_gamepad_inv hid" "i < SC_MAX_GAMEPADS"
    and "gs_gamepad_id slot = gs_gamepad_id (hg_slots hid ! i)"
  shows "slot_of (set_slot i slot hid) g = slot_of hid g"
  using assms(3) unfolding slot_of_def
  by (intro find_cong) (auto simp: set_slot_nth [OF assms(1,2)])

lemma button_events_held:
  assumes "sdl_buttons_ok sdl_button" "length (hin_data hid_input) = SC_HID_MAX_SIZE"
    and "hid_gamepad_inv hid" "slot_of hid g = Some i" "b \<noteq> SC_GAMEPAD_BUTTON_UNKNOWN"
  shows "\<exists>rs hid'. button_events sdl_button hid hid_input es = Some (rs, hid') \<and>
    slot_of hid' g = Some i \<and>
    button_down (hg_slots hid' ! i) b = held es g b (button_down (hg_slots hid ! i) b)"
  using assms(3,4)
proof (induction es arbitrary: hid)
  case (Cons e es)
  note eq = input_from_button_eq [OF Cons.prems(1) assms(2,1), of e]
  show ?case
  proof (cases "slot_of hid (gbe_gamepad_id e) = None \<or> gbe_button e = SC_GAMEPAD_BUTTON_UNKNOWN")
    case True
    then have "sc_hid_gamepad_generate_input_from_button sdl_button hid hid_input e = Some (None, hid)"
      unfolding eq by (auto split: option.splits)
    moreover have "\<not> (gbe_gamepad_id e = g \<and> gbe_button e = b)"
      using True Cons.prems(2) assms(5) by auto
    ultimately show ?thesis using Cons.IH [OF Cons.prems] by auto
  next
    case False
    then obtain j where j: "slot_of hid (gbe_gamepad_id e) = Some j" by auto
    note jl = slot_of_SomeD [OF j]
    note il = slot_of_SomeD [OF Cons.prems(2)]
    let ?hid = "set_slot j (press e (hg_slots hid ! j)) hid"
    obtain r where step: "sc_hid_gamepad_generate_input_from_button sdl_button hid hid_input e = Some (Some r, ?hid)"
      using False unfolding eq j by auto
    have "slot_of ?hid g = Some i"
      using Cons.prems(2) set_slot_slot_of [OF Cons.prems(1) jl(1)] by (simp add: press_def)
    from Cons.IH [OF _ this] Cons.prems(1) obtain rs hid' where
      "button_events sdl_button ?hid hid_input es = Some (rs, hid')" "slot_of hid' g = Some i"
      "button_down (hg_slots hid' ! i) b = held es g b (button_down (hg_slots ?hid ! i) b)"
      by auto
    moreover have "button_down (hg_slots ?hid ! i) b =
      (if gbe_gamepad_id e = g \<and> gbe_button e = b then gbe_action e = SC_ACTION_DOWN
       else button_down (hg_slots hid ! i) b)"
    proof (cases "j = i")
      case True
      with jl(2) il(2) have "gbe_gamepad_id e = g" by simp
      moreover have "hg_slots ?hid ! i = press e (hg_slots hid ! i)"
        using True set_slot_nth [OF Cons.prems(1) jl(1) il(1)] by simp
      ultimately show ?thesis using False press_button_down [of e] by simp
    next
      case jn: False
      then have "gbe_gamepad_id e \<noteq> g" using j Cons.prems(2) by auto
      with jn show ?thesis by (simp add: set_slot_nth [OF Cons.prems(1) jl(1) il(1)])
    qed
    ultimately show ?thesis using step by auto
  qed
qed simp

text \<open>Little-endian numbers of a report.\<close>

definition read_le16 :: "bytes \<Rightarrow> nat \<Rightarrow> nat" where
  "read_le16 r k = unat (r ! k) + 256 * unat (r ! (k + 1))"

lemma unat_u16_bytes: "unat (v::u16) = unat (ucast v :: u8) + 256 * unat (ucast (drop_bit 8 v) :: u8)"
proof -
  have v: "unat v < 65536" using unsigned_less [of v, where 'a = nat] by simp
  have "unat (ucast v :: u8) = unat v mod 256"
    by (simp add: unsigned_ucast_eq take_bit_eq_mod)
  moreover have "unat (ucast (drop_bit 8 v) :: u8) = unat v div 256"
  proof -
    have "unat (drop_bit 8 v) = unat v div 256"
      by (simp only: unsigned_drop_bit_eq) (use v in \<open>simp add: drop_bit_eq_div take_bit_nat_eq_self\<close>)
    moreover from v have "unat v div 256 < 256" by simp
    ultimately show ?thesis by (simp add: unsigned_ucast_eq take_bit_eq_mod)
  qed
  ultimately show ?thesis by simp
qed

lemma slot_report_le16:
  "read_le16 (slot_report slot) 0 = unat (gs_axis_left_x slot)"
  "read_le16 (slot_report slot) 2 = unat (gs_axis_left_y slot)"
  "read_le16 (slot_report slot) 4 = unat (gs_axis_right_x slot)"
  "read_le16 (slot_report slot) 6 = unat (gs_axis_right_y slot)"
  "read_le16 (slot_report slot) 8 = unat (gs_axis_left_trigger slot)"
  "read_le16 (slot_report slot) 10 = unat (gs_axis_right_trigger slot)"
  "read_le16 (slot_report slot) 12 = unat (gs_buttons slot) mod 65536"
  "slot_report slot ! 14 = sc_hid_gamepad_get_dpad_value (gs_buttons slot)"
proof -
  have "unat (ucast (gs_buttons slot AND 0xFFFF) :: u16) = unat (gs_buttons slot) mod 65536"
  proof -
    have "gs_buttons slot AND 0xFFFF = take_bit 16 (gs_buttons slot)"
      by (simp add: take_bit_eq_mask mask_eq_exp_minus_1)
    then have "unat (gs_buttons slot AND 0xFFFF) = take_bit 16 (unat (gs_buttons slot))"
      by (simp only: unsigned_take_bit_eq)
    then show ?thesis by (simp only: unsigned_ucast_eq) (simp add: take_bit_eq_mod)
  qed
  then show "read_le16 (slot_report slot) 12 = unat (gs_buttons slot) mod 65536"
    unfolding unat_u16_bytes by (simp add: read_le16_def slot_report_def sc_write16le_def)
qed (simp_all add: read_le16_def slot_report_def sc_write16le_def unat_u16_bytes)

text \<open>Where an axis is in the report, and what is written there.\<close>

definition axis_offset :: "sc_gamepad_axis \<Rightarrow> nat" where
  "axis_offset axis = (case axis of
       SC_GAMEPAD_AXIS_LEFTX \<Rightarrow> 0 | SC_GAMEPAD_AXIS_LEFTY \<Rightarrow> 2 | SC_GAMEPAD_AXIS_RIGHTX \<Rightarrow> 4
     | SC_GAMEPAD_AXIS_RIGHTY \<Rightarrow> 6 | SC_GAMEPAD_AXIS_LEFT_TRIGGER \<Rightarrow> 8
     | SC_GAMEPAD_AXIS_RIGHT_TRIGGER \<Rightarrow> 10 | SC_GAMEPAD_AXIS_UNKNOWN \<Rightarrow> 12)"

definition axis_level :: "sc_gamepad_axis \<Rightarrow> int \<Rightarrow> int" where
  "axis_level axis v = (if axis \<in> {SC_GAMEPAD_AXIS_LEFT_TRIGGER, SC_GAMEPAD_AXIS_RIGHT_TRIGGER}
     then max 0 v else v + 32768)"

lemma axis_offset_report:
  "read_le16 (slot_report slot) (axis_offset axis) = (case axis of
       SC_GAMEPAD_AXIS_LEFTX \<Rightarrow> unat (gs_axis_left_x slot)
     | SC_GAMEPAD_AXIS_LEFTY \<Rightarrow> unat (gs_axis_left_y slot)
     | SC_GAMEPAD_AXIS_RIGHTX \<Rightarrow> unat (gs_axis_right_x slot)
     | SC_GAMEPAD_AXIS_RIGHTY \<Rightarrow> unat (gs_axis_right_y slot)
     | SC_GAMEPAD_AXIS_LEFT_TRIGGER \<Rightarrow> unat (gs_axis_left_trigger slot)
     | SC_GAMEPAD_AXIS_RIGHT_TRIGGER \<Rightarrow> unat (gs_axis_right_trigger slot)
     | SC_GAMEPAD_AXIS_UNKNOWN \<Rightarrow> unat (gs_buttons slot) mod 65536)"
  by (cases axis) (simp_all only: axis_offset_def sc_gamepad_axis.case slot_report_le16)

lemma axis_update_slot:
  assumes "axis_update event slot = Some slot'"
  shows "gs_buttons slot' = gs_buttons slot" "gs_gamepad_id slot' = gs_gamepad_id slot"
  using assms by (auto simp: axis_update_def Let_def split: sc_gamepad_axis.splits)

lemma axis_update_level:
  assumes "axis_update event slot = Some slot'"
  shows "int (read_le16 (slot_report slot') (axis_offset (gae_axis event))) =
      axis_level (gae_axis event) (sint (gae_value event))"
  using assms unfolding axis_offset_report
  by (cases "gae_axis event") (auto simp: axis_update_def Let_def axis_level_def uint_axis_rescale
      uint_trigger_value)

lemma axis_update_others:
  assumes "axis_update event slot = Some slot'" "axis \<noteq> gae_axis event"
  shows "read_le16 (slot_report slot') (axis_offset axis) = read_le16 (slot_report slot) (axis_offset axis)"
  using assms unfolding axis_offset_report
  by (cases "gae_axis event") (auto simp: axis_update_def Let_def split: sc_gamepad_axis.split)

section \<open>Properties\<close>

text \<open>
  Every button of every gamepad follows its own events: after any sequence of button events, for
  whatever gamepads, a button of an attached gamepad is down exactly when the last event for that
  button of that gamepad was a press, or, without such an event, when it was down before.
\<close>

theorem gamepad_buttons_tracked:
  assumes "sdl_buttons_ok sdl_button" "length (hin_data hid_input) = SC_HID_MAX_SIZE"
    and "hid_gamepad_inv hid" "slot_of hid g = Some i" "b \<noteq> SC_GAMEPAD_BUTTON_UNKNOWN"
  shows "\<exists>rs hid'. button_events sdl_button hid hid_input es = Some (rs, hid') \<and>
    slot_of hid' g = Some i \<and>
    button_down (hg_slots hid' ! i) b = held es g b (button_down (hg_slots hid ! i) b)"
  by (rule button_events_held [OF assms])

lemma gamepad_buttons_tracked_witness:
  "\<exists>rs hid'. button_events
      (\<lambda>b. if b = SC_GAMEPAD_BUTTON_UNKNOWN then -1 else int (button_bit b) mod 15)
      \<lparr>hg_slots = replicate 8 (new_slot 7)\<rparr>
      \<lparr>hin_hid_id = 0, hin_data = replicate 15 0, hin_size = 0\<rparr>
      [\<lparr>gbe_gamepad_id = 7, gbe_action = SC_ACTION_DOWN, gbe_button = SC_GAMEPAD_BUTTON_SOUTH\<rparr>,
       \<lparr>gbe_gamepad_id = 9, gbe_action = SC_ACTION_DOWN, gbe_button = SC_GAMEPAD_BUTTON_EAST\<rparr>] =
      Some (rs, hid') \<and> slot_of hid' 7 = Some 0 \<and>
    button_down (hg_slots hid' ! 0) SC_GAMEPAD_BUTTON_SOUTH = True"
proof -
  let ?sdl = "\<lambda>b. if b = SC_GAMEPAD_BUTTON_UNKNOWN then -1 else int (button_bit b) mod 15"
  have "int (button_bit b) mod 15 \<le> 15" for b
    using pos_mod_bound [of 15 "int (button_bit b)"] by linarith
  then have "sdl_buttons_ok ?sdl" by (simp add: sdl_buttons_ok_def)
  from gamepad_buttons_tracked [OF this, of "\<lparr>hin_hid_id = 0, hin_data = replicate 15 0, hin_size = 0\<rparr>"
      "\<lparr>hg_slots = replicate 8 (new_slot 7)\<rparr>" 7 0 SC_GAMEPAD_BUTTON_SOUTH
      "[\<lparr>gbe_gamepad_id = 7, gbe_action = SC_ACTION_DOWN, gbe_button = SC_GAMEPAD_BUTTON_SOUTH\<rparr>,
       \<lparr>gbe_gamepad_id = 9, gbe_action = SC_ACTION_DOWN, gbe_button = SC_GAMEPAD_BUTTON_EAST\<rparr>]"]
  show ?thesis
    by (simp add: SC_HID_MAX_SIZE_def hid_gamepad_inv_def SC_MAX_GAMEPADS_def slot_of_def
        upt_rec new_slot_def)
qed

text \<open>
  An axis event of an attached gamepad gives its 15-byte report: the stick position shifted to the
  range of the descriptor (or the trigger, never negative) as a little-endian number at the place of
  the axis, every other axis and the buttons as before, and no other gamepad changes.
\<close>

theorem gamepad_axis_report:
  assumes "length (hin_data hid_input) = SC_HID_MAX_SIZE" "hid_gamepad_inv hid"
    and "slot_of hid (gae_gamepad_id event) = Some i" "gae_axis event \<noteq> SC_GAMEPAD_AXIS_UNKNOWN"
  shows "\<exists>hid_input' hid'.
    sc_hid_gamepad_generate_input_from_axis hid hid_input event = Some (Some hid_input', hid') \<and>
    length (hid_report hid_input') = 15 \<and> unat (hin_hid_id hid_input') = 3 + i \<and>
    int (read_le16 (hid_report hid_input') (axis_offset (gae_axis event))) =
      axis_level (gae_axis event) (sint (gae_value event)) \<and>
    hid_report hid_input' ! 14 = sc_hid_gamepad_get_dpad_value (gs_buttons (hg_slots hid ! i)) \<and>
    (\<forall>axis. axis \<noteq> gae_axis event \<longrightarrow>
      read_le16 (hid_report hid_input') (axis_offset axis) =
      read_le16 (slot_report (hg_slots hid ! i)) (axis_offset axis)) \<and>
    (\<forall>j < 8. j \<noteq> i \<longrightarrow> hg_slots hid' ! j = hg_slots hid ! j)"
proof -
  obtain slot where slot: "axis_update event (hg_slots hid ! i) = Some slot"
    using assms(4) by (cases "gae_axis event") (auto simp: axis_update_def)
  note r = axis_update_level [OF slot] axis_update_others [OF slot] axis_update_slot [OF slot] and i = slot_of_SomeD(1) [OF assms(3)]
  let ?hi = "\<lparr>hin_hid_id = slot_hid_id i, hin_data = slot_report slot, hin_size = 15\<rparr>"
  have "sc_hid_gamepad_generate_input_from_axis hid hid_input event = Some (Some ?hi, set_slot i slot hid)"
    using input_from_axis_eq [OF assms(2,1), of event] assms(3) slot by simp
  moreover have "hid_report ?hi = slot_report slot" by (simp add: hid_report_def)
  ultimately show ?thesis
    using r i by (auto simp: unat_slot_hid_id slot_report_le16 set_slot_nth [OF assms(2) i]
        SC_MAX_GAMEPADS_def)
qed

lemma gamepad_axis_report_witness:
  "\<exists>hid_input' hid'. sc_hid_gamepad_generate_input_from_axis \<lparr>hg_slots = replicate 8 (new_slot 7)\<rparr>
      \<lparr>hin_hid_id = 0, hin_data = replicate 15 0, hin_size = 0\<rparr>
      \<lparr>gae_gamepad_id = 7, gae_axis = SC_GAMEPAD_AXIS_RIGHTX, gae_value = -1\<rparr> =
      Some (Some hid_input', hid') \<and> int (read_le16 (hid_report hid_input') 4) = 32767"
  using gamepad_axis_report [of "\<lparr>hin_hid_id = 0, hin_data = replicate 15 0, hin_size = 0\<rparr>"
      "\<lparr>hg_slots = replicate 8 (new_slot 7)\<rparr>"
      "\<lparr>gae_gamepad_id = 7, gae_axis = SC_GAMEPAD_AXIS_RIGHTX, gae_value = -1\<rparr>" 0]
  by (auto simp: SC_HID_MAX_SIZE_def hid_gamepad_inv_def SC_MAX_GAMEPADS_def slot_of_def
      upt_rec new_slot_def axis_level_def axis_offset_def)

end
