(* ===== verification/Sc_Control_Sink.thy ===== *)
theory Sc_Control_Sink
  imports Sc_Controller
begin

text \<open>
  What the input processors rely on when they push control messages: the controller either accepts or
  refuses a message and does not fail. The processors only log a refusal, so that what they promise is
  stated over the history of their pushes. Between two pushes, the controller changes by steps of its
  thread and of other producers (\<open>env\<close>), which leave this history alone.
\<close>

type_synonym 'c push_msg = "'c \<Rightarrow> sc_control_msg \<Rightarrow> ('c \<times> bool) option"

text \<open>A message with whether it was accepted.\<close>

type_synonym push_history = "(sc_control_msg \<times> bool) list"

definition attempted :: "push_history \<Rightarrow> sc_control_msg list" where
  "attempted h = map fst h"

definition accepted :: "push_history \<Rightarrow> sc_control_msg list" where
  "accepted h = map fst (filter snd h)"

definition refused :: "push_history \<Rightarrow> sc_control_msg list" where
  "refused h = map fst (filter (Not \<circ> snd) h)"

lemma history_simps [simp]:
  "attempted [] = []" "accepted [] = []" "refused [] = []"
  "attempted (h @ [(m, b)]) = attempted h @ [m]"
  "accepted (h @ [(m, b)]) = accepted h @ (if b then [m] else [])"
  "refused (h @ [(m, b)]) = refused h @ (if b then [] else [m])"
  by (simp_all add: attempted_def accepted_def refused_def)

locale control_sink =
  fixes push :: "'c push_msg"
    and inv :: "'c \<Rightarrow> bool"
    and history :: "'c \<Rightarrow> push_history"
    and env :: "'c \<Rightarrow> 'c \<Rightarrow> bool"
  assumes push_ok: "inv c \<Longrightarrow> not_resize msg \<Longrightarrow>
    \<exists>c' pushed. push c msg = Some (c', pushed) \<and> inv c' \<and> history c' = history c @ [(msg, pushed)]"
    and env_ok: "inv c \<Longrightarrow> env c c' \<Longrightarrow> inv c' \<and> history c' = history c"
begin

lemma pushE:
  assumes "inv c" "not_resize msg"
  obtains c' pushed where "push c msg = Some (c', pushed)" "inv c'"
    "history c' = history c @ [(msg, pushed)]"
  using push_ok [OF assms] by blast

lemma push_SomeD:
  assumes "push c msg = Some (c', pushed)" "inv c" "not_resize msg"
  shows "inv c'" "history c' = history c @ [(msg, pushed)]"
  using push_ok [OF assms(2,3)] assms(1) by auto

end

text \<open>The controller of the client, with its history.\<close>

record controller_log =
  cl_ctl :: sc_controller
  cl_history :: push_history

definition controller_push_msg :: "(nat \<Rightarrow> bool) \<Rightarrow> nat \<Rightarrow> controller_log push_msg" where
  "controller_push_msg alloc M cl msg = do {
     (controller, pushed, signal) \<leftarrow> sc_controller_push_msg alloc M (cl_ctl cl) msg;
     Some (cl\<lparr>cl_ctl := controller, cl_history := cl_history cl @ [(msg, pushed)]\<rparr>, pushed)
   }"

definition controller_log_inv :: "nat \<Rightarrow> controller_log \<Rightarrow> bool" where
  "controller_log_inv M cl \<longleftrightarrow> ctl_inv M (cl_ctl cl)"

text \<open>The thread takes a message, or something else happens that keeps the invariant.\<close>

definition controller_env :: "nat \<Rightarrow> controller_log \<Rightarrow> controller_log \<Rightarrow> bool" where
  "controller_env M cl cl' \<longleftrightarrow> (\<exists>c. ctl_inv M c \<and> cl' = cl\<lparr>cl_ctl := c\<rparr>)"

lemma controller_push_ok:
  assumes "controller_log_inv M c" "not_resize msg"
  shows "\<exists>c' pushed. controller_push_msg alloc M c msg = Some (c', pushed) \<and> controller_log_inv M c' \<and>
    cl_history c' = cl_history c @ [(msg, pushed)] \<and> (vd_size (ctl_queue (cl_ctl c)) < 60 \<longrightarrow> pushed)"
proof -
  from assms(1) have "ctl_inv M (cl_ctl c)" by (simp add: controller_log_inv_def)
  from push_msg_spec [OF this assms(2), of alloc] obtain c' pushed where
    p: "sc_controller_push_msg alloc M (cl_ctl c) msg =
      Some (c', pushed, vd_content (ctl_queue (cl_ctl c)) = [])" "ctl_inv M c'"
      "vd_size (ctl_queue (cl_ctl c)) < 60 \<longrightarrow> pushed"
    by blast
  let ?c = "c\<lparr>cl_ctl := c', cl_history := cl_history c @ [(msg, pushed)]\<rparr>"
  have "controller_push_msg alloc M c msg = Some (?c, pushed)"
    using p(1) by (simp add: controller_push_msg_def)
  moreover have "controller_log_inv M ?c" using p(2) by (simp add: controller_log_inv_def)
  ultimately show ?thesis using p(3) by (intro exI [of _ ?c] exI [of _ pushed]) simp
qed

interpretation ctl_sink: control_sink "controller_push_msg alloc M" "controller_log_inv M"
  cl_history "controller_env M" for alloc M
proof
  fix c msg assume "controller_log_inv M c" "not_resize msg"
  from controller_push_ok [OF this] show
    "\<exists>c' pushed. controller_push_msg alloc M c msg = Some (c', pushed) \<and> controller_log_inv M c' \<and>
      cl_history c' = cl_history c @ [(msg, pushed)]" by blast
qed (auto simp: controller_env_def controller_log_inv_def)

lemma controller_env_take:
  assumes "controller_take (cl_ctl cl) = Some (t, c)" "controller_log_inv M cl"
  shows "controller_env M cl (cl\<lparr>cl_ctl := c\<rparr>)"
proof -
  have "ctl_inv M c"
    using take_spec [of M "cl_ctl cl"] assms unfolding controller_log_inv_def
    by (metis option.inject prod.inject)
  then show ?thesis by (auto simp: controller_env_def)
qed

lemma controller_log_example:
  "\<exists>c. controller_log_inv 1000 c \<and> cl_history c = [] \<and> vd_size (ctl_queue (cl_ctl c)) = 0"
proof -
  obtain c where c: "ctl_inv 1000 c" "ctl_idle c" using reachable_examples(1) by blast
  then have "vd_size (ctl_queue c) = 0"
    using vd_content_length [of "ctl_queue c"] by (simp add: ctl_idle_def)
  with c(1) show ?thesis
    by (intro exI [of _ "\<lparr>cl_ctl = c, cl_history = []\<rparr>"]) (simp add: controller_log_inv_def)
qed

end
