(* ===== verification/Sc_Uhid.thy ===== *)
theory Sc_Uhid
  imports Sc_Hid Sc_Hid_Gamepad Sc_Control_Sink
begin

text \<open>
  \<open>uhid/\<close>: the input processors that simulate a keyboard, a mouse and gamepads on the device by control
  messages, and the dispatch of the HID output of the device.

  The controller is an argument \<open>push\<close> with its state \<open>c\<close>. The local \<open>struct sc_hid_input\<close> is
  uninitialised: it is an argument too. The state of the lock modifiers is the set of them.
\<close>

section \<open>Keyboard\<close>

record sc_keyboard_uhid =
  ku_hid :: sc_hid_keyboard
  ku_device_mod :: "sc_mod set"

text \<open>The three processors have the same function, up to the name in the log.\<close>

definition uhid_send_input :: "'c push_msg \<Rightarrow> 'c \<Rightarrow> sc_hid_input \<Rightarrow> 'c option" where
  "uhid_send_input push c hid_input = do {
     c_assert (unat (hin_size hid_input) \<le> SC_HID_MAX_SIZE);
     data \<leftarrow> mem_read (hin_data hid_input) 0 (unat (hin_size hid_input));
     (c, pushed) \<leftarrow> push c (UHID_INPUT (hin_hid_id hid_input) (ucast (hin_size hid_input)) data);
     Some c
   }"

definition sym_diff :: "'a set \<Rightarrow> 'a set \<Rightarrow> 'a set" where
  "sym_diff A B = (A - B) \<union> (B - A)"

text \<open>\<open>sdl_mod\<close> is the result of \<open>SDL_GetModState\<close>.\<close>

definition sc_keyboard_uhid_synchronize_mod ::
    "'c push_msg \<Rightarrow> sdl_scancodes \<Rightarrow> sc_hid_input \<Rightarrow> sc_mod set \<Rightarrow> 'c \<Rightarrow> sc_keyboard_uhid \<Rightarrow>
      ('c \<times> sc_keyboard_uhid) option" where
  "sc_keyboard_uhid_synchronize_mod push sdl hid_input sdl_mod c kb =
     (let mods = sdl_mod \<inter> {SC_MOD_CAPS, SC_MOD_NUM}; diff = sym_diff mods (ku_device_mod kb) in
      if diff \<noteq> {} then do {
        let kb = kb\<lparr>ku_device_mod := mods\<rparr>;
        (ok, hid_input) \<leftarrow> sc_hid_keyboard_generate_input_from_mods sdl hid_input diff;
        if \<not> ok then Some (c, kb)
        else do {
          c \<leftarrow> uhid_send_input push c hid_input;
          Some (c, kb)
        }
      }
      else Some (c, kb))"

definition keyboard_uhid_process_key ::
    "'c push_msg \<Rightarrow> sdl_scancodes \<Rightarrow> sc_hid_input \<Rightarrow> sc_mod set \<Rightarrow> 'c \<Rightarrow> sc_keyboard_uhid \<Rightarrow>
      sc_key_event \<Rightarrow> ('c \<times> sc_keyboard_uhid) option" where
  "keyboard_uhid_process_key push sdl hid_input sdl_mod c kb event =
     (if ke_repeat event then Some (c, kb)
      else do {
        (ok, hid, hid_input') \<leftarrow>
          sc_hid_keyboard_generate_input_from_key sdl (ku_hid kb) hid_input event;
        let kb = kb\<lparr>ku_hid := hid\<rparr>;
        if ok then do {
          (c, kb) \<leftarrow>
            (if ke_scancode event = uint (SC_SCANCODE_CAPSLOCK sdl)
             then Some (c, kb\<lparr>ku_device_mod := sym_diff (ku_device_mod kb) {SC_MOD_CAPS}\<rparr>)
             else if ke_scancode event = uint (SC_SCANCODE_NUMLOCK sdl)
             then Some (c, kb\<lparr>ku_device_mod := sym_diff (ku_device_mod kb) {SC_MOD_NUM}\<rparr>)
             else sc_keyboard_uhid_synchronize_mod push sdl hid_input sdl_mod c kb);
          c \<leftarrow> uhid_send_input push c hid_input';
          Some (c, kb)
        }
        else Some (c, kb)
      })"

definition sc_keyboard_uhid_to_sc_mod :: "u8 \<Rightarrow> sc_mod set" where
  "sc_keyboard_uhid_to_sc_mod hid_led =
     (if hid_led AND 0x01 \<noteq> 0 then {SC_MOD_NUM} else {}) \<union>
     (if hid_led AND 0x02 \<noteq> 0 then {SC_MOD_CAPS} else {})"

definition sc_keyboard_uhid_process_hid_output ::
    "sc_keyboard_uhid \<Rightarrow> bytes \<Rightarrow> sc_keyboard_uhid option" where
  "sc_keyboard_uhid_process_hid_output kb data = do {
     c_assert (length data \<noteq> 0);
     hid_led \<leftarrow> arr_get data 0;
     Some (kb\<lparr>ku_device_mod := sc_keyboard_uhid_to_sc_mod hid_led\<rparr>)
   }"

definition sc_keyboard_uhid_init ::
    "'c push_msg \<Rightarrow> 'c \<Rightarrow> (bool \<times> 'c \<times> sc_keyboard_uhid) option" where
  "sc_keyboard_uhid_init push c = do {
     let kb = \<lparr>ku_hid = sc_hid_keyboard_init, ku_device_mod = {}\<rparr>;
     let hid_open = sc_hid_keyboard_generate_open;
     c_assert (hop_hid_id hid_open = SC_HID_ID_KEYBOARD);
     (c, pushed) \<leftarrow> push c (UHID_CREATE SC_HID_ID_KEYBOARD 0 0 None
       (of_nat (length (hop_report_desc hid_open))) (hop_report_desc hid_open));
     Some (pushed, c, kb)
   }"

section \<open>Mouse\<close>

definition mouse_uhid_process_mouse_motion ::
    "'c push_msg \<Rightarrow> sc_hid_input \<Rightarrow> 'c \<Rightarrow> sc_mouse_motion_event \<Rightarrow> 'c option" where
  "mouse_uhid_process_mouse_motion push hid_input c event = do {
     hid_input \<leftarrow> sc_hid_mouse_generate_input_from_motion hid_input event;
     uhid_send_input push c hid_input
   }"

definition mouse_uhid_process_mouse_click ::
    "'c push_msg \<Rightarrow> sc_hid_input \<Rightarrow> 'c \<Rightarrow> sc_mouse_click_event \<Rightarrow> 'c option" where
  "mouse_uhid_process_mouse_click push hid_input c event = do {
     hid_input \<leftarrow> sc_hid_mouse_generate_input_from_click hid_input event;
     uhid_send_input push c hid_input
   }"

definition mouse_uhid_process_mouse_scroll ::
    "'c push_msg \<Rightarrow> sc_hid_input \<Rightarrow> 'c \<Rightarrow> sc_hid_mouse \<Rightarrow> sc_mouse_scroll_event \<Rightarrow>
      ('c \<times> sc_hid_mouse) option" where
  "mouse_uhid_process_mouse_scroll push hid_input c hid event = do {
     (ok, hid, hid_input) \<leftarrow> sc_hid_mouse_generate_input_from_scroll hid hid_input event;
     if \<not> ok then Some (c, hid)
     else do {
       c \<leftarrow> uhid_send_input push c hid_input;
       Some (c, hid)
     }
   }"

definition sc_mouse_uhid_init :: "'c push_msg \<Rightarrow> 'c \<Rightarrow> (bool \<times> 'c \<times> sc_hid_mouse) option" where
  "sc_mouse_uhid_init push c = do {
     let hid_open = sc_hid_mouse_generate_open;
     c_assert (hop_hid_id hid_open = SC_HID_ID_MOUSE);
     (c, pushed) \<leftarrow> push c (UHID_CREATE SC_HID_ID_MOUSE 0 0 None
       (of_nat (length (hop_report_desc hid_open))) (hop_report_desc hid_open));
     Some (pushed, c, sc_hid_mouse_init)
   }"

section \<open>Gamepads\<close>

definition SC_GAMEPAD_UHID_VENDOR_ID :: u16 where "SC_GAMEPAD_UHID_VENDOR_ID = 0x045e"
definition SC_GAMEPAD_UHID_PRODUCT_ID :: u16 where "SC_GAMEPAD_UHID_PRODUCT_ID = 0x028e"

definition SC_GAMEPAD_UHID_NAME :: bytes where
  "SC_GAMEPAD_UHID_NAME = map of_char ''Microsoft X-Box 360 Pad''"

definition sc_gamepad_uhid_send_open :: "'c push_msg \<Rightarrow> 'c \<Rightarrow> sc_hid_open \<Rightarrow> 'c option" where
  "sc_gamepad_uhid_send_open push c hid_open = do {
     (c, pushed) \<leftarrow> push c (UHID_CREATE (hop_hid_id hid_open) SC_GAMEPAD_UHID_VENDOR_ID
       SC_GAMEPAD_UHID_PRODUCT_ID (Some SC_GAMEPAD_UHID_NAME)
       (of_nat (length (hop_report_desc hid_open))) (hop_report_desc hid_open));
     Some c
   }"

definition sc_gamepad_uhid_send_close :: "'c push_msg \<Rightarrow> 'c \<Rightarrow> sc_hid_close \<Rightarrow> 'c option" where
  "sc_gamepad_uhid_send_close push c hid_close = do {
     (c, pushed) \<leftarrow> push c (UHID_DESTROY (hcl_hid_id hid_close));
     Some c
   }"

text \<open>\<open>sdl_gamepad\<close> tells whether \<open>SDL_GetGamepadFromID\<close> finds the gamepad.\<close>

definition gamepad_uhid_process_gamepad_added ::
    "'c push_msg \<Rightarrow> (u32 \<Rightarrow> bool) \<Rightarrow> 'c \<Rightarrow> sc_hid_gamepad \<Rightarrow> u32 \<Rightarrow> ('c \<times> sc_hid_gamepad) option" where
  "gamepad_uhid_process_gamepad_added push sdl_gamepad c hid gamepad_id = do {
     (hid_open, hid) \<leftarrow> sc_hid_gamepad_generate_open hid gamepad_id;
     case hid_open of
       None \<Rightarrow> Some (c, hid)
     | Some hid_open \<Rightarrow> do {
         c_assert (sdl_gamepad gamepad_id);
         c \<leftarrow> sc_gamepad_uhid_send_open push c hid_open;
         Some (c, hid)
       }
   }"

definition gamepad_uhid_process_gamepad_removed ::
    "'c push_msg \<Rightarrow> 'c \<Rightarrow> sc_hid_gamepad \<Rightarrow> u32 \<Rightarrow> ('c \<times> sc_hid_gamepad) option" where
  "gamepad_uhid_process_gamepad_removed push c hid gamepad_id = do {
     (hid_close, hid) \<leftarrow> sc_hid_gamepad_generate_close hid gamepad_id;
     case hid_close of
       None \<Rightarrow> Some (c, hid)
     | Some hid_close \<Rightarrow> do {
         c \<leftarrow> sc_gamepad_uhid_send_close push c hid_close;
         Some (c, hid)
       }
   }"

definition gamepad_uhid_process_gamepad_axis ::
    "'c push_msg \<Rightarrow> sc_hid_input \<Rightarrow> 'c \<Rightarrow> sc_hid_gamepad \<Rightarrow> sc_gamepad_axis_event \<Rightarrow>
      ('c \<times> sc_hid_gamepad) option" where
  "gamepad_uhid_process_gamepad_axis push hid_input c hid event = do {
     (hid_input, hid) \<leftarrow> sc_hid_gamepad_generate_input_from_axis hid hid_input event;
     case hid_input of
       None \<Rightarrow> Some (c, hid)
     | Some hid_input \<Rightarrow> do {
         c \<leftarrow> uhid_send_input push c hid_input;
         Some (c, hid)
       }
   }"

definition gamepad_uhid_process_gamepad_button ::
    "'c push_msg \<Rightarrow> (sc_gamepad_button \<Rightarrow> int) \<Rightarrow> sc_hid_input \<Rightarrow> 'c \<Rightarrow> sc_hid_gamepad \<Rightarrow>
      sc_gamepad_button_event \<Rightarrow> ('c \<times> sc_hid_gamepad) option" where
  "gamepad_uhid_process_gamepad_button push sdl_button hid_input c hid event = do {
     (hid_input, hid) \<leftarrow> sc_hid_gamepad_generate_input_from_button sdl_button hid hid_input event;
     case hid_input of
       None \<Rightarrow> Some (c, hid)
     | Some hid_input \<Rightarrow> do {
         c \<leftarrow> uhid_send_input push c hid_input;
         Some (c, hid)
       }
   }"

definition sc_gamepad_uhid_init :: "sc_hid_gamepad \<Rightarrow> sc_hid_gamepad" where
  "sc_gamepad_uhid_init hid = sc_hid_gamepad_init hid"

section \<open>HID output\<close>

text \<open>The only registered device is the keyboard, if there is one.\<close>

definition sc_uhid_devices_process_hid_output ::
    "sc_keyboard_uhid option \<Rightarrow> u16 \<Rightarrow> bytes \<Rightarrow> sc_keyboard_uhid option option" where
  "sc_uhid_devices_process_hid_output keyboard dev_id data =
     (if dev_id = SC_HID_ID_KEYBOARD then
        (case keyboard of
           Some kb \<Rightarrow> do {
             kb \<leftarrow> sc_keyboard_uhid_process_hid_output kb data;
             Some (Some kb)
           }
         | None \<Rightarrow> Some None)
      else Some keyboard)"

section \<open>The device's view of gamepads\<close>

text \<open>
  The protocol of UHID devices: the devices that exist after some messages, unless a message creates a
  device that exists, or concerns one that does not.
\<close>

fun uhid_session :: "u16 set \<Rightarrow> sc_control_msg list \<Rightarrow> u16 set option" where
  "uhid_session devs [] = Some devs"
| "uhid_session devs (UHID_CREATE dev_id _ _ _ _ _ # msgs) =
     (if dev_id \<in> devs then None else uhid_session (insert dev_id devs) msgs)"
| "uhid_session devs (UHID_INPUT dev_id _ _ # msgs) =
     (if dev_id \<in> devs then uhid_session devs msgs else None)"
| "uhid_session devs (UHID_DESTROY dev_id # msgs) =
     (if dev_id \<in> devs then uhid_session (devs - {dev_id}) msgs else None)"
| "uhid_session devs (_ # msgs) = uhid_session devs msgs"

lemma uhid_session_append:
  "uhid_session devs (xs @ ys) =
     (case uhid_session devs xs of None \<Rightarrow> None | Some devs' \<Rightarrow> uhid_session devs' ys)"
  by (induction devs xs rule: uhid_session.induct) simp_all

definition attached_ids :: "sc_hid_gamepad \<Rightarrow> u16 set" where
  "attached_ids hid = slot_hid_id ` {i. i < SC_MAX_GAMEPADS \<and> gs_gamepad_id (hg_slots hid ! i) \<noteq> 0}"

lemma attached_ids_set_slot:
  assumes "hid_gamepad_inv hid" "i < SC_MAX_GAMEPADS"
  shows "attached_ids (set_slot i slot hid) =
    (if gs_gamepad_id slot \<noteq> 0 then insert (slot_hid_id i) (attached_ids hid)
     else attached_ids hid - {slot_hid_id i})"
proof -
  let ?on = "\<lambda>hid. {j. j < SC_MAX_GAMEPADS \<and> gs_gamepad_id (hg_slots hid ! j) \<noteq> 0}"
  have "?on (set_slot i slot hid) =
    (if gs_gamepad_id slot \<noteq> 0 then insert i (?on hid) else ?on hid - {i})"
    using assms(2) by (auto simp: set_slot_nth [OF assms] split: if_splits)
  moreover have "inj_on slot_hid_id (insert i (?on hid))"
    using assms(2) by (auto simp: inj_on_def slot_hid_id_inj)
  then have "slot_hid_id ` (?on hid - {i}) = slot_hid_id ` ?on hid - {slot_hid_id i}"
    by (auto simp: inj_on_def)
  ultimately show ?thesis by (simp add: attached_ids_def)
qed

lemma slot_hid_id_attached:
  "i < SC_MAX_GAMEPADS \<Longrightarrow>
     slot_hid_id i \<in> attached_ids hid \<longleftrightarrow> gs_gamepad_id (hg_slots hid ! i) \<noteq> 0"
  using slot_hid_id_inj [of i] by (auto simp: attached_ids_def)

lemma gamepad_init_inv:
  assumes "hid_gamepad_inv hid"
  shows "hid_gamepad_inv (sc_gamepad_uhid_init hid)" "attached_ids (sc_gamepad_uhid_init hid) = {}"
  using assms by (auto simp: sc_gamepad_uhid_init_def sc_hid_gamepad_init_def hid_gamepad_inv_def
      attached_ids_def SC_GAMEPAD_ID_INVALID_def)

text \<open>Any events of gamepads, interleaved with whatever else happens to the controller.\<close>

inductive gamepad_uhid_run ::
    "'c push_msg \<Rightarrow> ('c \<Rightarrow> 'c \<Rightarrow> bool) \<Rightarrow> (sc_gamepad_button \<Rightarrow> int) \<Rightarrow> 'c \<Rightarrow> sc_hid_gamepad \<Rightarrow>
      'c \<Rightarrow> sc_hid_gamepad \<Rightarrow> bool" for push env sdl_button c0 hid0 where
  init: "gamepad_uhid_run push env sdl_button c0 hid0 c0 (sc_gamepad_uhid_init hid0)"
| added: "gamepad_uhid_run push env sdl_button c0 hid0 c hid \<Longrightarrow>
    gamepad_uhid_process_gamepad_added push sdl_gamepad c hid g = Some (c', hid') \<Longrightarrow>
    gamepad_uhid_run push env sdl_button c0 hid0 c' hid'"
| removed: "gamepad_uhid_run push env sdl_button c0 hid0 c hid \<Longrightarrow>
    gamepad_uhid_process_gamepad_removed push c hid g = Some (c', hid') \<Longrightarrow>
    gamepad_uhid_run push env sdl_button c0 hid0 c' hid'"
| axis: "gamepad_uhid_run push env sdl_button c0 hid0 c hid \<Longrightarrow>
    gae_gamepad_id ae \<noteq> SC_GAMEPAD_ID_INVALID \<Longrightarrow> length (hin_data hid_input) = SC_HID_MAX_SIZE \<Longrightarrow>
    gamepad_uhid_process_gamepad_axis push hid_input c hid ae = Some (c', hid') \<Longrightarrow>
    gamepad_uhid_run push env sdl_button c0 hid0 c' hid'"
| button: "gamepad_uhid_run push env sdl_button c0 hid0 c hid \<Longrightarrow>
    gbe_gamepad_id be \<noteq> SC_GAMEPAD_ID_INVALID \<Longrightarrow> length (hin_data hid_input) = SC_HID_MAX_SIZE \<Longrightarrow>
    gamepad_uhid_process_gamepad_button push sdl_button hid_input c hid be = Some (c', hid') \<Longrightarrow>
    gamepad_uhid_run push env sdl_button c0 hid0 c' hid'"
| other: "gamepad_uhid_run push env sdl_button c0 hid0 c hid \<Longrightarrow> env c c' \<Longrightarrow>
    gamepad_uhid_run push env sdl_button c0 hid0 c' hid"

lemma uhid_send_input_report:
  assumes "length data = 15"
  shows "uhid_send_input push c \<lparr>hin_hid_id = dev_id, hin_data = data, hin_size = 15\<rparr> =
    do { (c, pushed) \<leftarrow> push c (UHID_INPUT dev_id 15 data); Some c }"
  using assms by (simp add: uhid_send_input_def SC_HID_MAX_SIZE_def)

context control_sink begin

text \<open>What a push does to a session, as long as no creation or destruction was ever refused.\<close>

definition session_ok :: "'c \<Rightarrow> u16 set \<Rightarrow> bool" where
  "session_ok c devs \<longleftrightarrow>
     (list_all sc_control_msg_is_droppable (refused (history c)) \<longrightarrow>
       uhid_session {} (accepted (history c)) = Some devs)"

lemma push_session:
  assumes "push c msg = Some (c', pushed)" "inv c" "not_resize msg" "session_ok c devs"
    and "uhid_session devs [msg] = Some devs'" "sc_control_msg_is_droppable msg \<longrightarrow> devs' = devs"
  shows "inv c' \<and> session_ok c' devs'"
  using push_SomeD [OF assms(1-3)] assms(4-6)
  by (cases pushed) (auto simp: session_ok_def uhid_session_append)

lemma env_session: "inv c \<Longrightarrow> env c c' \<Longrightarrow> session_ok c devs \<Longrightarrow> inv c' \<and> session_ok c' devs"
  using env_ok by (simp add: session_ok_def)

lemma gamepad_session:
  assumes "gamepad_uhid_run push env sdl_button c0 hid0 c hid"
    and "inv c0" "history c0 = []" "hid_gamepad_inv hid0" "sdl_buttons_ok sdl_button"
  shows "inv c \<and> hid_gamepad_inv hid \<and> session_ok c (attached_ids hid)"
  using assms(1)
proof induction
  case init
  show ?case using assms gamepad_init_inv [OF assms(4)] by (simp add: session_ok_def)
next
  case (added c hid sdl_gamepad g c' hid')
  then have inv: "inv c" "hid_gamepad_inv hid" "session_ok c (attached_ids hid)" by auto
  have g: "g \<noteq> 0"
    using added(2) by (auto simp: gamepad_uhid_process_gamepad_added_def
        sc_hid_gamepad_generate_open_def SC_GAMEPAD_ID_INVALID_def split: bind_splits)
  note eq = generate_open_eq [OF inv(2) g]
  show ?case
  proof (cases "slot_of hid 0")
    case None
    with added(2) inv eq show ?thesis by (simp add: gamepad_uhid_process_gamepad_added_def)
  next
    case (Some i)
    note i = slot_of_SomeD [OF Some]
    obtain pushed where "push c (UHID_CREATE (slot_hid_id i) SC_GAMEPAD_UHID_VENDOR_ID
       SC_GAMEPAD_UHID_PRODUCT_ID (Some SC_GAMEPAD_UHID_NAME)
       (of_nat (length SC_HID_GAMEPAD_REPORT_DESC)) SC_HID_GAMEPAD_REPORT_DESC) = Some (c', pushed)"
      and hid': "hid' = set_slot i (new_slot g) hid"
      using added(2) Some eq by (auto simp: gamepad_uhid_process_gamepad_added_def
          sc_gamepad_uhid_send_open_def split: bind_splits)
    from push_session [OF this(1) inv(1) _ inv(3), of "insert (slot_hid_id i) (attached_ids hid)"]
    have "inv c' \<and> session_ok c' (insert (slot_hid_id i) (attached_ids hid))"
      using i by (simp add: not_resize_def slot_hid_id_attached sc_control_msg_is_droppable_def)
    then show ?thesis
      using g inv(2) i by (simp add: hid' attached_ids_set_slot new_slot_def)
  qed
next
  case (removed c hid g c' hid')
  then have inv: "inv c" "hid_gamepad_inv hid" "session_ok c (attached_ids hid)" by auto
  have g: "g \<noteq> 0"
    using removed(2) by (auto simp: gamepad_uhid_process_gamepad_removed_def
        sc_hid_gamepad_generate_close_def SC_GAMEPAD_ID_INVALID_def split: bind_splits)
  note eq = generate_close_eq [OF inv(2) g]
  show ?case
  proof (cases "slot_of hid g")
    case None
    with removed(2) inv eq show ?thesis by (simp add: gamepad_uhid_process_gamepad_removed_def)
  next
    case (Some i)
    note i = slot_of_SomeD [OF Some]
    obtain pushed where "push c (UHID_DESTROY (slot_hid_id i)) = Some (c', pushed)"
      and hid': "hid' = set_slot i ((hg_slots hid ! i)\<lparr>gs_gamepad_id := 0\<rparr>) hid"
      using removed(2) Some eq by (auto simp: gamepad_uhid_process_gamepad_removed_def
          sc_gamepad_uhid_send_close_def split: bind_splits)
    from push_session [OF this(1) inv(1) _ inv(3), of "attached_ids hid - {slot_hid_id i}"]
    have "inv c' \<and> session_ok c' (attached_ids hid - {slot_hid_id i})"
      using i g by (simp add: not_resize_def slot_hid_id_attached sc_control_msg_is_droppable_def)
    then show ?thesis using inv(2) i by (simp add: hid' attached_ids_set_slot)
  qed
next
  case (axis c hid ae hid_input c' hid')
  then have inv: "inv c" "hid_gamepad_inv hid" "session_ok c (attached_ids hid)" by auto
  note eq = input_from_axis_eq [OF inv(2) axis(3), of ae]
  show ?case
  proof (cases "slot_of hid (gae_gamepad_id ae)")
    case None
    with axis(4) inv eq show ?thesis by (simp add: gamepad_uhid_process_gamepad_axis_def)
  next
    case (Some i)
    note i = slot_of_SomeD [OF Some]
    show ?thesis
    proof (cases "axis_update ae (hg_slots hid ! i)")
      case None
      with axis(4) inv eq Some show ?thesis by (simp add: gamepad_uhid_process_gamepad_axis_def)
    next
      case u: (Some slot)
      obtain pushed where p: "push c (UHID_INPUT (slot_hid_id i) 15 (slot_report slot)) = Some (c', pushed)"
        and hid': "hid' = set_slot i slot hid"
        using axis(4) Some u eq by (auto simp: gamepad_uhid_process_gamepad_axis_def
            uhid_send_input_report split: bind_splits)
      from i(2) axis(2) have "gs_gamepad_id (hg_slots hid ! i) \<noteq> 0"
        by (simp add: SC_GAMEPAD_ID_INVALID_def)
      moreover from push_session [OF p inv(1) _ inv(3), of "attached_ids hid"]
      have "inv c' \<and> session_ok c' (attached_ids hid)"
        using i calculation by (simp add: not_resize_def slot_hid_id_attached)
      ultimately show ?thesis
        using inv(2) i axis_update_slot [OF u]
        by (simp add: hid' attached_ids_set_slot insert_absorb slot_hid_id_attached)
    qed
  qed
next
  case (button c hid be hid_input c' hid')
  then have inv: "inv c" "hid_gamepad_inv hid" "session_ok c (attached_ids hid)" by auto
  note eq = input_from_button_eq [OF inv(2) button(3) assms(5), of be]
  show ?case
  proof (cases "slot_of hid (gbe_gamepad_id be) = None \<or> gbe_button be = SC_GAMEPAD_BUTTON_UNKNOWN")
    case True
    with button(4) inv eq show ?thesis
      by (auto simp: gamepad_uhid_process_gamepad_button_def split: option.splits if_splits)
  next
    case False
    then obtain i where Some: "slot_of hid (gbe_gamepad_id be) = Some i" by auto
    note i = slot_of_SomeD [OF Some]
    let ?slot = "press be (hg_slots hid ! i)"
    obtain pushed where p: "push c (UHID_INPUT (slot_hid_id i) 15 (slot_report ?slot)) = Some (c', pushed)"
      and hid': "hid' = set_slot i ?slot hid"
      using button(4) Some False eq by (auto simp: gamepad_uhid_process_gamepad_button_def
          uhid_send_input_report split: bind_splits)
    from i(2) button(2) have "gs_gamepad_id (hg_slots hid ! i) \<noteq> 0"
      by (simp add: SC_GAMEPAD_ID_INVALID_def)
    moreover from push_session [OF p inv(1) _ inv(3), of "attached_ids hid"]
    have "inv c' \<and> session_ok c' (attached_ids hid)"
      using i calculation by (simp add: not_resize_def slot_hid_id_attached)
    ultimately show ?thesis
      using inv(2) i by (simp add: hid' attached_ids_set_slot insert_absorb slot_hid_id_attached press_def)
  qed
next
  case (other c hid c')
  then show ?case using env_session by blast
qed

end

section \<open>Properties\<close>

text \<open>
  C25: Whatever gamepads are plugged, used and removed, and whatever happens to the controller meanwhile,
  the device sees a correct session as long as no creation or destruction was refused (only a lack
  of memory refuses those): every device is created before it is used, never twice, and its input
  ends with its destruction, however many input reports were dropped. At every moment, the devices
  that exist are those of the attached gamepads.
\<close>

theorem gamepad_session_on_device:
  assumes "gamepad_uhid_run (controller_push_msg alloc M) (controller_env M) sdl_button c0 hid0 c hid"
    and "controller_log_inv M c0" "cl_history c0 = []" "hid_gamepad_inv hid0" "sdl_buttons_ok sdl_button"
    and "list_all sc_control_msg_is_droppable (refused (cl_history c))"
  shows "uhid_session {} (accepted (cl_history c)) = Some (attached_ids hid)"
  using ctl_sink.gamepad_session [OF assms(1-5)] assms(6) by (simp add: ctl_sink.session_ok_def)

lemma gamepad_session_on_device_witness:
  "\<exists>sdl_button c0 c hid. gamepad_uhid_run (controller_push_msg (\<lambda>_. True) 1000) (controller_env 1000) sdl_button c0
      \<lparr>hg_slots = replicate 8 (new_slot 9)\<rparr> c hid \<and>
    uhid_session {} (accepted (cl_history c)) = Some {slot_hid_id 0}"
proof -
  let ?start = "\<lparr>hg_slots = replicate 8 (new_slot 9)\<rparr>"
  let ?sdl = "\<lambda>b. if b = SC_GAMEPAD_BUTTON_UNKNOWN then -1 else 0"
  have inv: "hid_gamepad_inv ?start" by (simp add: hid_gamepad_inv_def SC_MAX_GAMEPADS_def)
  note g = gamepad_init_inv [OF inv]
  have z: "slot_of (sc_gamepad_uhid_init ?start) 0 = Some 0"
    by (simp add: slot_of_def sc_gamepad_uhid_init_def sc_hid_gamepad_init_def SC_MAX_GAMEPADS_def
        SC_GAMEPAD_ID_INVALID_def upt_rec)
  obtain c0 where c0: "controller_log_inv 1000 c0" "cl_history c0 = []" "vd_size (ctl_queue (cl_ctl c0)) = 0"
    using controller_log_example by blast
  let ?msg = "UHID_CREATE (slot_hid_id 0) SC_GAMEPAD_UHID_VENDOR_ID SC_GAMEPAD_UHID_PRODUCT_ID
    (Some SC_GAMEPAD_UHID_NAME) (of_nat (length SC_HID_GAMEPAD_REPORT_DESC)) SC_HID_GAMEPAD_REPORT_DESC"
  have "not_resize ?msg" by (simp add: not_resize_def)
  from controller_push_ok [OF c0(1) this, of "\<lambda>_. True"] c0(2,3) obtain c where
    p: "controller_push_msg (\<lambda>_. True) 1000 c0 ?msg = Some (c, True)" "cl_history c = [(?msg, True)]"
    by auto
  let ?hid = "set_slot 0 (new_slot 5) (sc_gamepad_uhid_init ?start)"
  have "gamepad_uhid_process_gamepad_added (controller_push_msg (\<lambda>_. True) 1000) (\<lambda>_. True) c0
      (sc_gamepad_uhid_init ?start) 5 = Some (c, ?hid)"
    using p(1) z generate_open_eq [OF g(1), of 5]
    by (simp add: gamepad_uhid_process_gamepad_added_def sc_gamepad_uhid_send_open_def)
  from gamepad_uhid_run.added [OF gamepad_uhid_run.init this]
  have run: "gamepad_uhid_run (controller_push_msg (\<lambda>_. True) 1000) (controller_env 1000) ?sdl c0 ?start c ?hid" .
  have "refused (cl_history c) = []" by (simp add: p(2) refused_def)
  then have "uhid_session {} (accepted (cl_history c)) = Some (attached_ids ?hid)"
    using gamepad_session_on_device [OF run c0(1,2) inv] by (simp add: sdl_buttons_ok_def)
  moreover have "attached_ids ?hid = {slot_hid_id 0}"
    using attached_ids_set_slot [OF g(1), of 0 "new_slot 5"] g(2)
    by (simp add: new_slot_def SC_MAX_GAMEPADS_def)
  ultimately show ?thesis using run by (intro exI [of _ ?sdl] exI [of _ c0] exI [of _ c] exI [of _ ?hid]) simp
qed

end
