(* ===== verification/Sc_Android.thy ===== *)
theory Sc_Android
  imports Sc_Prelude
begin

text \<open>
  \<open>android/keycodes.h\<close>, \<open>android/input.h\<close>: the numbers of the Android API that the client sends in control
  messages, as far as the sources use them.
\<close>

section \<open>Key codes\<close>

definition AKEYCODE_ENTER :: u32 where "AKEYCODE_ENTER = 66"
definition AKEYCODE_NUMPAD_ENTER :: u32 where "AKEYCODE_NUMPAD_ENTER = 160"
definition AKEYCODE_ESCAPE :: u32 where "AKEYCODE_ESCAPE = 111"
definition AKEYCODE_DEL :: u32 where "AKEYCODE_DEL = 67"
definition AKEYCODE_TAB :: u32 where "AKEYCODE_TAB = 61"
definition AKEYCODE_PAGE_UP :: u32 where "AKEYCODE_PAGE_UP = 92"
definition AKEYCODE_FORWARD_DEL :: u32 where "AKEYCODE_FORWARD_DEL = 112"
definition AKEYCODE_MOVE_HOME :: u32 where "AKEYCODE_MOVE_HOME = 122"
definition AKEYCODE_MOVE_END :: u32 where "AKEYCODE_MOVE_END = 123"
definition AKEYCODE_PAGE_DOWN :: u32 where "AKEYCODE_PAGE_DOWN = 93"
definition AKEYCODE_DPAD_RIGHT :: u32 where "AKEYCODE_DPAD_RIGHT = 22"
definition AKEYCODE_DPAD_LEFT :: u32 where "AKEYCODE_DPAD_LEFT = 21"
definition AKEYCODE_DPAD_DOWN :: u32 where "AKEYCODE_DPAD_DOWN = 20"
definition AKEYCODE_DPAD_UP :: u32 where "AKEYCODE_DPAD_UP = 19"
definition AKEYCODE_CTRL_LEFT :: u32 where "AKEYCODE_CTRL_LEFT = 113"
definition AKEYCODE_CTRL_RIGHT :: u32 where "AKEYCODE_CTRL_RIGHT = 114"
definition AKEYCODE_SHIFT_LEFT :: u32 where "AKEYCODE_SHIFT_LEFT = 59"
definition AKEYCODE_SHIFT_RIGHT :: u32 where "AKEYCODE_SHIFT_RIGHT = 60"
definition AKEYCODE_ALT_LEFT :: u32 where "AKEYCODE_ALT_LEFT = 57"
definition AKEYCODE_ALT_RIGHT :: u32 where "AKEYCODE_ALT_RIGHT = 58"
definition AKEYCODE_META_LEFT :: u32 where "AKEYCODE_META_LEFT = 117"
definition AKEYCODE_META_RIGHT :: u32 where "AKEYCODE_META_RIGHT = 118"
definition AKEYCODE_INSERT :: u32 where "AKEYCODE_INSERT = 124"
definition AKEYCODE_A :: u32 where "AKEYCODE_A = 29"
definition AKEYCODE_B :: u32 where "AKEYCODE_B = 30"
definition AKEYCODE_C :: u32 where "AKEYCODE_C = 31"
definition AKEYCODE_D :: u32 where "AKEYCODE_D = 32"
definition AKEYCODE_E :: u32 where "AKEYCODE_E = 33"
definition AKEYCODE_F :: u32 where "AKEYCODE_F = 34"
definition AKEYCODE_G :: u32 where "AKEYCODE_G = 35"
definition AKEYCODE_H :: u32 where "AKEYCODE_H = 36"
definition AKEYCODE_I :: u32 where "AKEYCODE_I = 37"
definition AKEYCODE_J :: u32 where "AKEYCODE_J = 38"
definition AKEYCODE_K :: u32 where "AKEYCODE_K = 39"
definition AKEYCODE_L :: u32 where "AKEYCODE_L = 40"
definition AKEYCODE_M :: u32 where "AKEYCODE_M = 41"
definition AKEYCODE_N :: u32 where "AKEYCODE_N = 42"
definition AKEYCODE_O :: u32 where "AKEYCODE_O = 43"
definition AKEYCODE_P :: u32 where "AKEYCODE_P = 44"
definition AKEYCODE_Q :: u32 where "AKEYCODE_Q = 45"
definition AKEYCODE_R :: u32 where "AKEYCODE_R = 46"
definition AKEYCODE_S :: u32 where "AKEYCODE_S = 47"
definition AKEYCODE_T :: u32 where "AKEYCODE_T = 48"
definition AKEYCODE_U :: u32 where "AKEYCODE_U = 49"
definition AKEYCODE_V :: u32 where "AKEYCODE_V = 50"
definition AKEYCODE_W :: u32 where "AKEYCODE_W = 51"
definition AKEYCODE_X :: u32 where "AKEYCODE_X = 52"
definition AKEYCODE_Y :: u32 where "AKEYCODE_Y = 53"
definition AKEYCODE_Z :: u32 where "AKEYCODE_Z = 54"
definition AKEYCODE_SPACE :: u32 where "AKEYCODE_SPACE = 62"
definition AKEYCODE_POUND :: u32 where "AKEYCODE_POUND = 18"
definition AKEYCODE_PERIOD :: u32 where "AKEYCODE_PERIOD = 56"
definition AKEYCODE_APOSTROPHE :: u32 where "AKEYCODE_APOSTROPHE = 75"
definition AKEYCODE_STAR :: u32 where "AKEYCODE_STAR = 17"
definition AKEYCODE_PLUS :: u32 where "AKEYCODE_PLUS = 81"
definition AKEYCODE_COMMA :: u32 where "AKEYCODE_COMMA = 55"
definition AKEYCODE_MINUS :: u32 where "AKEYCODE_MINUS = 69"
definition AKEYCODE_SLASH :: u32 where "AKEYCODE_SLASH = 76"
definition AKEYCODE_0 :: u32 where "AKEYCODE_0 = 7"
definition AKEYCODE_1 :: u32 where "AKEYCODE_1 = 8"
definition AKEYCODE_2 :: u32 where "AKEYCODE_2 = 9"
definition AKEYCODE_3 :: u32 where "AKEYCODE_3 = 10"
definition AKEYCODE_4 :: u32 where "AKEYCODE_4 = 11"
definition AKEYCODE_5 :: u32 where "AKEYCODE_5 = 12"
definition AKEYCODE_6 :: u32 where "AKEYCODE_6 = 13"
definition AKEYCODE_7 :: u32 where "AKEYCODE_7 = 14"
definition AKEYCODE_8 :: u32 where "AKEYCODE_8 = 15"
definition AKEYCODE_9 :: u32 where "AKEYCODE_9 = 16"
definition AKEYCODE_SEMICOLON :: u32 where "AKEYCODE_SEMICOLON = 74"
definition AKEYCODE_EQUALS :: u32 where "AKEYCODE_EQUALS = 70"
definition AKEYCODE_AT :: u32 where "AKEYCODE_AT = 77"
definition AKEYCODE_LEFT_BRACKET :: u32 where "AKEYCODE_LEFT_BRACKET = 71"
definition AKEYCODE_BACKSLASH :: u32 where "AKEYCODE_BACKSLASH = 73"
definition AKEYCODE_RIGHT_BRACKET :: u32 where "AKEYCODE_RIGHT_BRACKET = 72"
definition AKEYCODE_GRAVE :: u32 where "AKEYCODE_GRAVE = 68"
definition AKEYCODE_NUMPAD_1 :: u32 where "AKEYCODE_NUMPAD_1 = 145"
definition AKEYCODE_NUMPAD_2 :: u32 where "AKEYCODE_NUMPAD_2 = 146"
definition AKEYCODE_NUMPAD_3 :: u32 where "AKEYCODE_NUMPAD_3 = 147"
definition AKEYCODE_NUMPAD_4 :: u32 where "AKEYCODE_NUMPAD_4 = 148"
definition AKEYCODE_NUMPAD_5 :: u32 where "AKEYCODE_NUMPAD_5 = 149"
definition AKEYCODE_NUMPAD_6 :: u32 where "AKEYCODE_NUMPAD_6 = 150"
definition AKEYCODE_NUMPAD_7 :: u32 where "AKEYCODE_NUMPAD_7 = 151"
definition AKEYCODE_NUMPAD_8 :: u32 where "AKEYCODE_NUMPAD_8 = 152"
definition AKEYCODE_NUMPAD_9 :: u32 where "AKEYCODE_NUMPAD_9 = 153"
definition AKEYCODE_NUMPAD_0 :: u32 where "AKEYCODE_NUMPAD_0 = 144"
definition AKEYCODE_NUMPAD_DIVIDE :: u32 where "AKEYCODE_NUMPAD_DIVIDE = 154"
definition AKEYCODE_NUMPAD_MULTIPLY :: u32 where "AKEYCODE_NUMPAD_MULTIPLY = 155"
definition AKEYCODE_NUMPAD_SUBTRACT :: u32 where "AKEYCODE_NUMPAD_SUBTRACT = 156"
definition AKEYCODE_NUMPAD_ADD :: u32 where "AKEYCODE_NUMPAD_ADD = 157"
definition AKEYCODE_NUMPAD_DOT :: u32 where "AKEYCODE_NUMPAD_DOT = 158"
definition AKEYCODE_NUMPAD_EQUALS :: u32 where "AKEYCODE_NUMPAD_EQUALS = 161"
definition AKEYCODE_NUMPAD_LEFT_PAREN :: u32 where "AKEYCODE_NUMPAD_LEFT_PAREN = 162"
definition AKEYCODE_NUMPAD_RIGHT_PAREN :: u32 where "AKEYCODE_NUMPAD_RIGHT_PAREN = 163"
definition AKEYCODE_HOME :: u32 where "AKEYCODE_HOME = 3"
definition AKEYCODE_BACK :: u32 where "AKEYCODE_BACK = 4"
definition AKEYCODE_VOLUME_UP :: u32 where "AKEYCODE_VOLUME_UP = 24"
definition AKEYCODE_VOLUME_DOWN :: u32 where "AKEYCODE_VOLUME_DOWN = 25"
definition AKEYCODE_POWER :: u32 where "AKEYCODE_POWER = 26"
definition AKEYCODE_MENU :: u32 where "AKEYCODE_MENU = 82"
definition AKEYCODE_APP_SWITCH :: u32 where "AKEYCODE_APP_SWITCH = 187"

section \<open>Meta state, actions and buttons\<close>

definition AMETA_ALT_ON :: u32 where "AMETA_ALT_ON = 0x02"
definition AMETA_ALT_LEFT_ON :: u32 where "AMETA_ALT_LEFT_ON = 0x10"
definition AMETA_ALT_RIGHT_ON :: u32 where "AMETA_ALT_RIGHT_ON = 0x20"
definition AMETA_SHIFT_ON :: u32 where "AMETA_SHIFT_ON = 0x01"
definition AMETA_SHIFT_LEFT_ON :: u32 where "AMETA_SHIFT_LEFT_ON = 0x40"
definition AMETA_SHIFT_RIGHT_ON :: u32 where "AMETA_SHIFT_RIGHT_ON = 0x80"
definition AMETA_CTRL_ON :: u32 where "AMETA_CTRL_ON = 0x1000"
definition AMETA_CTRL_LEFT_ON :: u32 where "AMETA_CTRL_LEFT_ON = 0x2000"
definition AMETA_CTRL_RIGHT_ON :: u32 where "AMETA_CTRL_RIGHT_ON = 0x4000"
definition AMETA_META_ON :: u32 where "AMETA_META_ON = 0x10000"
definition AMETA_META_LEFT_ON :: u32 where "AMETA_META_LEFT_ON = 0x20000"
definition AMETA_META_RIGHT_ON :: u32 where "AMETA_META_RIGHT_ON = 0x40000"
definition AMETA_CAPS_LOCK_ON :: u32 where "AMETA_CAPS_LOCK_ON = 0x100000"
definition AMETA_NUM_LOCK_ON :: u32 where "AMETA_NUM_LOCK_ON = 0x200000"
definition AKEY_EVENT_ACTION_DOWN :: u32 where "AKEY_EVENT_ACTION_DOWN = 0"
definition AKEY_EVENT_ACTION_UP :: u32 where "AKEY_EVENT_ACTION_UP = 1"
definition AMOTION_EVENT_ACTION_DOWN :: u32 where "AMOTION_EVENT_ACTION_DOWN = 0"
definition AMOTION_EVENT_ACTION_UP :: u32 where "AMOTION_EVENT_ACTION_UP = 1"
definition AMOTION_EVENT_ACTION_MOVE :: u32 where "AMOTION_EVENT_ACTION_MOVE = 2"
definition AMOTION_EVENT_ACTION_HOVER_MOVE :: u32 where "AMOTION_EVENT_ACTION_HOVER_MOVE = 7"
definition AMOTION_EVENT_BUTTON_PRIMARY :: u32 where "AMOTION_EVENT_BUTTON_PRIMARY = push_bit 0 1"
definition AMOTION_EVENT_BUTTON_SECONDARY :: u32 where "AMOTION_EVENT_BUTTON_SECONDARY = push_bit 1 1"
definition AMOTION_EVENT_BUTTON_TERTIARY :: u32 where "AMOTION_EVENT_BUTTON_TERTIARY = push_bit 2 1"
definition AMOTION_EVENT_BUTTON_BACK :: u32 where "AMOTION_EVENT_BUTTON_BACK = push_bit 3 1"
definition AMOTION_EVENT_BUTTON_FORWARD :: u32 where "AMOTION_EVENT_BUTTON_FORWARD = push_bit 4 1"

lemmas ameta_defs =
  AMETA_ALT_ON_def
  AMETA_ALT_LEFT_ON_def
  AMETA_ALT_RIGHT_ON_def
  AMETA_SHIFT_ON_def
  AMETA_SHIFT_LEFT_ON_def
  AMETA_SHIFT_RIGHT_ON_def
  AMETA_CTRL_ON_def
  AMETA_CTRL_LEFT_ON_def
  AMETA_CTRL_RIGHT_ON_def
  AMETA_META_ON_def
  AMETA_META_LEFT_ON_def
  AMETA_META_RIGHT_ON_def
  AMETA_CAPS_LOCK_ON_def
  AMETA_NUM_LOCK_ON_def

end
