(* ===== verification/Sc_Keyboard_Sdk.thy ===== *)
theory Sc_Keyboard_Sdk
  imports Sc_Android Sc_Input_Events Sc_Control_Sink
begin

text \<open>
  \<open>keyboard_sdk.c\<close>, \<open>util/intmap.c\<close>: the keyboard processor that injects Android key events and text.

  The character tests are those of the C locale, on bytes. \<open>strdup\<close> may fail: a parameter decides.
\<close>

datatype sc_key_inject_mode =
    SC_KEY_INJECT_MODE_MIXED | SC_KEY_INJECT_MODE_TEXT | SC_KEY_INJECT_MODE_RAW

record sc_keyboard_sdk =
  ks_repeat :: u32
  ks_key_inject_mode :: sc_key_inject_mode
  ks_forward_key_repeat :: bool

text \<open>A text event is a NUL-terminated string.\<close>

record sc_text_event =
  xe_text :: bytes

section \<open>Conversion\<close>

definition convert_keycode_action :: "sc_action \<Rightarrow> u32" where
  "convert_keycode_action action =
     (if action = SC_ACTION_DOWN then AKEY_EVENT_ACTION_DOWN else AKEY_EVENT_ACTION_UP)"

text \<open>\<open>sc_intmap_find_entry\<close>, with the value of the entry.\<close>

fun sc_intmap_find_entry :: "('k \<times> 'v) list \<Rightarrow> 'k \<Rightarrow> 'v option" where
  "sc_intmap_find_entry [] key = None"
| "sc_intmap_find_entry (entry # entries) key =
     (if fst entry = key then Some (snd entry) else sc_intmap_find_entry entries key)"

text \<open>Navigation keys and ENTER, used in all modes.\<close>

definition special_keys :: "(sc_keycode \<times> u32) list" where
  "special_keys = [
     (SC_KEYCODE ''RETURN'', AKEYCODE_ENTER),
     (SC_KEYCODE ''KP_ENTER'', AKEYCODE_NUMPAD_ENTER),
     (SC_KEYCODE ''ESCAPE'', AKEYCODE_ESCAPE),
     (SC_KEYCODE ''BACKSPACE'', AKEYCODE_DEL),
     (SC_KEYCODE ''TAB'', AKEYCODE_TAB),
     (SC_KEYCODE ''PAGEUP'', AKEYCODE_PAGE_UP),
     (SC_KEYCODE ''DELETE'', AKEYCODE_FORWARD_DEL),
     (SC_KEYCODE ''HOME'', AKEYCODE_MOVE_HOME),
     (SC_KEYCODE ''END'', AKEYCODE_MOVE_END),
     (SC_KEYCODE ''PAGEDOWN'', AKEYCODE_PAGE_DOWN),
     (SC_KEYCODE ''RIGHT'', AKEYCODE_DPAD_RIGHT),
     (SC_KEYCODE ''LEFT'', AKEYCODE_DPAD_LEFT),
     (SC_KEYCODE ''DOWN'', AKEYCODE_DPAD_DOWN),
     (SC_KEYCODE ''UP'', AKEYCODE_DPAD_UP),
     (SC_KEYCODE ''LCTRL'', AKEYCODE_CTRL_LEFT),
     (SC_KEYCODE ''RCTRL'', AKEYCODE_CTRL_RIGHT),
     (SC_KEYCODE ''LSHIFT'', AKEYCODE_SHIFT_LEFT),
     (SC_KEYCODE ''RSHIFT'', AKEYCODE_SHIFT_RIGHT),
     (SC_KEYCODE ''LALT'', AKEYCODE_ALT_LEFT),
     (SC_KEYCODE ''RALT'', AKEYCODE_ALT_RIGHT),
     (SC_KEYCODE ''LGUI'', AKEYCODE_META_LEFT),
     (SC_KEYCODE ''RGUI'', AKEYCODE_META_RIGHT)]"

text \<open>Numpad navigation keys, used in all modes, when NumLock and Shift are disabled.\<close>

definition kp_nav_keys :: "(sc_keycode \<times> u32) list" where
  "kp_nav_keys = [
     (SC_KEYCODE ''KP_0'', AKEYCODE_INSERT),
     (SC_KEYCODE ''KP_1'', AKEYCODE_MOVE_END),
     (SC_KEYCODE ''KP_2'', AKEYCODE_DPAD_DOWN),
     (SC_KEYCODE ''KP_3'', AKEYCODE_PAGE_DOWN),
     (SC_KEYCODE ''KP_4'', AKEYCODE_DPAD_LEFT),
     (SC_KEYCODE ''KP_6'', AKEYCODE_DPAD_RIGHT),
     (SC_KEYCODE ''KP_7'', AKEYCODE_MOVE_HOME),
     (SC_KEYCODE ''KP_8'', AKEYCODE_DPAD_UP),
     (SC_KEYCODE ''KP_9'', AKEYCODE_PAGE_UP),
     (SC_KEYCODE ''KP_PERIOD'', AKEYCODE_FORWARD_DEL)]"

text \<open>Letters and space, used in non-text mode.\<close>

definition alphaspace_keys :: "(sc_keycode \<times> u32) list" where
  "alphaspace_keys = [
     (SC_KEYCODE ''a'', AKEYCODE_A),
     (SC_KEYCODE ''b'', AKEYCODE_B),
     (SC_KEYCODE ''c'', AKEYCODE_C),
     (SC_KEYCODE ''d'', AKEYCODE_D),
     (SC_KEYCODE ''e'', AKEYCODE_E),
     (SC_KEYCODE ''f'', AKEYCODE_F),
     (SC_KEYCODE ''g'', AKEYCODE_G),
     (SC_KEYCODE ''h'', AKEYCODE_H),
     (SC_KEYCODE ''i'', AKEYCODE_I),
     (SC_KEYCODE ''j'', AKEYCODE_J),
     (SC_KEYCODE ''k'', AKEYCODE_K),
     (SC_KEYCODE ''l'', AKEYCODE_L),
     (SC_KEYCODE ''m'', AKEYCODE_M),
     (SC_KEYCODE ''n'', AKEYCODE_N),
     (SC_KEYCODE ''o'', AKEYCODE_O),
     (SC_KEYCODE ''p'', AKEYCODE_P),
     (SC_KEYCODE ''q'', AKEYCODE_Q),
     (SC_KEYCODE ''r'', AKEYCODE_R),
     (SC_KEYCODE ''s'', AKEYCODE_S),
     (SC_KEYCODE ''t'', AKEYCODE_T),
     (SC_KEYCODE ''u'', AKEYCODE_U),
     (SC_KEYCODE ''v'', AKEYCODE_V),
     (SC_KEYCODE ''w'', AKEYCODE_W),
     (SC_KEYCODE ''x'', AKEYCODE_X),
     (SC_KEYCODE ''y'', AKEYCODE_Y),
     (SC_KEYCODE ''z'', AKEYCODE_Z),
     (SC_KEYCODE ''SPACE'', AKEYCODE_SPACE)]"

text \<open>Numbers and punctuation keys, used in raw mode only.\<close>

definition numbers_punct_keys :: "(sc_keycode \<times> u32) list" where
  "numbers_punct_keys = [
     (SC_KEYCODE ''HASH'', AKEYCODE_POUND),
     (SC_KEYCODE ''PERCENT'', AKEYCODE_PERIOD),
     (SC_KEYCODE ''QUOTE'', AKEYCODE_APOSTROPHE),
     (SC_KEYCODE ''ASTERISK'', AKEYCODE_STAR),
     (SC_KEYCODE ''PLUS'', AKEYCODE_PLUS),
     (SC_KEYCODE ''COMMA'', AKEYCODE_COMMA),
     (SC_KEYCODE ''MINUS'', AKEYCODE_MINUS),
     (SC_KEYCODE ''PERIOD'', AKEYCODE_PERIOD),
     (SC_KEYCODE ''SLASH'', AKEYCODE_SLASH),
     (SC_KEYCODE ''0'', AKEYCODE_0),
     (SC_KEYCODE ''1'', AKEYCODE_1),
     (SC_KEYCODE ''2'', AKEYCODE_2),
     (SC_KEYCODE ''3'', AKEYCODE_3),
     (SC_KEYCODE ''4'', AKEYCODE_4),
     (SC_KEYCODE ''5'', AKEYCODE_5),
     (SC_KEYCODE ''6'', AKEYCODE_6),
     (SC_KEYCODE ''7'', AKEYCODE_7),
     (SC_KEYCODE ''8'', AKEYCODE_8),
     (SC_KEYCODE ''9'', AKEYCODE_9),
     (SC_KEYCODE ''SEMICOLON'', AKEYCODE_SEMICOLON),
     (SC_KEYCODE ''EQUALS'', AKEYCODE_EQUALS),
     (SC_KEYCODE ''AT'', AKEYCODE_AT),
     (SC_KEYCODE ''LEFTBRACKET'', AKEYCODE_LEFT_BRACKET),
     (SC_KEYCODE ''BACKSLASH'', AKEYCODE_BACKSLASH),
     (SC_KEYCODE ''RIGHTBRACKET'', AKEYCODE_RIGHT_BRACKET),
     (SC_KEYCODE ''BACKQUOTE'', AKEYCODE_GRAVE),
     (SC_KEYCODE ''KP_1'', AKEYCODE_NUMPAD_1),
     (SC_KEYCODE ''KP_2'', AKEYCODE_NUMPAD_2),
     (SC_KEYCODE ''KP_3'', AKEYCODE_NUMPAD_3),
     (SC_KEYCODE ''KP_4'', AKEYCODE_NUMPAD_4),
     (SC_KEYCODE ''KP_5'', AKEYCODE_NUMPAD_5),
     (SC_KEYCODE ''KP_6'', AKEYCODE_NUMPAD_6),
     (SC_KEYCODE ''KP_7'', AKEYCODE_NUMPAD_7),
     (SC_KEYCODE ''KP_8'', AKEYCODE_NUMPAD_8),
     (SC_KEYCODE ''KP_9'', AKEYCODE_NUMPAD_9),
     (SC_KEYCODE ''KP_0'', AKEYCODE_NUMPAD_0),
     (SC_KEYCODE ''KP_DIVIDE'', AKEYCODE_NUMPAD_DIVIDE),
     (SC_KEYCODE ''KP_MULTIPLY'', AKEYCODE_NUMPAD_MULTIPLY),
     (SC_KEYCODE ''KP_MINUS'', AKEYCODE_NUMPAD_SUBTRACT),
     (SC_KEYCODE ''KP_PLUS'', AKEYCODE_NUMPAD_ADD),
     (SC_KEYCODE ''KP_PERIOD'', AKEYCODE_NUMPAD_DOT),
     (SC_KEYCODE ''KP_EQUALS'', AKEYCODE_NUMPAD_EQUALS),
     (SC_KEYCODE ''KP_LEFTPAREN'', AKEYCODE_NUMPAD_LEFT_PAREN),
     (SC_KEYCODE ''KP_RIGHTPAREN'', AKEYCODE_NUMPAD_RIGHT_PAREN)]"

definition convert_keycode :: "sc_keycode \<Rightarrow> sc_mod set \<Rightarrow> sc_key_inject_mode \<Rightarrow> u32 option" where
  "convert_keycode keycode mods key_inject_mode =
     (case sc_intmap_find_entry special_keys keycode of
        Some to \<Rightarrow> Some to
      | None \<Rightarrow>
        (case (if mods \<inter> {SC_MOD_NUM, SC_MOD_LSHIFT, SC_MOD_RSHIFT} = {}
               then sc_intmap_find_entry kp_nav_keys keycode else None) of
           Some to \<Rightarrow> Some to
         | None \<Rightarrow>
           if key_inject_mode = SC_KEY_INJECT_MODE_TEXT \<and> mods \<inter> {SC_MOD_LCTRL, SC_MOD_RCTRL} = {}
           then None
           else
             (case sc_intmap_find_entry alphaspace_keys keycode of
                Some to \<Rightarrow> Some to
              | None \<Rightarrow>
                if key_inject_mode = SC_KEY_INJECT_MODE_RAW
                then sc_intmap_find_entry numbers_punct_keys keycode
                else None)))"

definition autocomplete_metastate :: "u32 \<Rightarrow> u32" where
  "autocomplete_metastate metastate =
     (let metastate = (if metastate AND (AMETA_SHIFT_LEFT_ON OR AMETA_SHIFT_RIGHT_ON) \<noteq> 0
            then metastate OR AMETA_SHIFT_ON else metastate);
          metastate = (if metastate AND (AMETA_CTRL_LEFT_ON OR AMETA_CTRL_RIGHT_ON) \<noteq> 0
            then metastate OR AMETA_CTRL_ON else metastate);
          metastate = (if metastate AND (AMETA_ALT_LEFT_ON OR AMETA_ALT_RIGHT_ON) \<noteq> 0
            then metastate OR AMETA_ALT_ON else metastate);
          metastate = (if metastate AND (AMETA_META_LEFT_ON OR AMETA_META_RIGHT_ON) \<noteq> 0
            then metastate OR AMETA_META_ON else metastate)
      in metastate)"

definition convert_meta_state :: "sc_mod set \<Rightarrow> u32" where
  "convert_meta_state mods = autocomplete_metastate
     ((if SC_MOD_LSHIFT \<in> mods then AMETA_SHIFT_LEFT_ON else 0) OR
      (if SC_MOD_RSHIFT \<in> mods then AMETA_SHIFT_RIGHT_ON else 0) OR
      (if SC_MOD_LCTRL \<in> mods then AMETA_CTRL_LEFT_ON else 0) OR
      (if SC_MOD_RCTRL \<in> mods then AMETA_CTRL_RIGHT_ON else 0) OR
      (if SC_MOD_LALT \<in> mods then AMETA_ALT_LEFT_ON else 0) OR
      (if SC_MOD_RALT \<in> mods then AMETA_ALT_RIGHT_ON else 0) OR
      (if SC_MOD_LGUI \<in> mods then AMETA_META_LEFT_ON else 0) OR
      (if SC_MOD_RGUI \<in> mods then AMETA_META_RIGHT_ON else 0) OR
      (if SC_MOD_NUM \<in> mods then AMETA_NUM_LOCK_ON else 0) OR
      (if SC_MOD_CAPS \<in> mods then AMETA_CAPS_LOCK_ON else 0))"

definition convert_input_key ::
    "sc_key_event \<Rightarrow> sc_key_inject_mode \<Rightarrow> u32 \<Rightarrow> sc_control_msg option" where
  "convert_input_key event key_inject_mode repeat =
     (case convert_keycode (ke_keycode event) (ke_mods_state event) key_inject_mode of
        None \<Rightarrow> None
      | Some keycode \<Rightarrow> Some (INJECT_KEYCODE (convert_keycode_action (ke_action event)) keycode repeat
          (convert_meta_state (ke_mods_state event))))"

section \<open>The processor\<close>

definition keyboard_sdk_process_key ::
    "'c push_msg \<Rightarrow> 'c \<Rightarrow> sc_keyboard_sdk \<Rightarrow> sc_key_event \<Rightarrow> ('c \<times> sc_keyboard_sdk) option" where
  "keyboard_sdk_process_key push c kb event =
     (if ke_repeat event \<and> \<not> ks_forward_key_repeat kb then Some (c, kb)
      else
        (let kb = kb\<lparr>ks_repeat := (if ke_repeat event then ks_repeat kb + 1 else 0)\<rparr> in
         case convert_input_key event (ks_key_inject_mode kb) (ks_repeat kb) of
           None \<Rightarrow> Some (c, kb)
         | Some msg \<Rightarrow> do {
             (c, pushed) \<leftarrow> push c msg;
             Some (c, kb)
           }))"

definition c_isalpha :: "u8 \<Rightarrow> bool" where
  "c_isalpha c \<longleftrightarrow> (0x41 \<le> c \<and> c \<le> 0x5A) \<or> (0x61 \<le> c \<and> c \<le> 0x7A)"

text \<open>The character at a position of a string: behind the last one there is the NUL.\<close>

definition char_at :: "bytes \<Rightarrow> nat \<Rightarrow> u8 option" where
  "char_at text i = arr_get (text @ [0]) i"

text \<open>With the texts that are freed.\<close>

definition keyboard_sdk_process_text ::
    "'c push_msg \<Rightarrow> bool \<Rightarrow> 'c \<Rightarrow> sc_keyboard_sdk \<Rightarrow> sc_text_event \<Rightarrow> ('c \<times> bytes list) option" where
  "keyboard_sdk_process_text push strdup_ok c kb event =
     (if ks_key_inject_mode kb = SC_KEY_INJECT_MODE_RAW then Some (c, [])
      else do {
        ch \<leftarrow> char_at (xe_text event) 0;
        let skip = ks_key_inject_mode kb = SC_KEY_INJECT_MODE_MIXED \<and> (c_isalpha ch \<or> ch = 0x20);
        if skip then do {
          ch \<leftarrow> char_at (xe_text event) 1;
          c_assert (ch = 0);
          Some (c, [])
        }
        else if \<not> strdup_ok then Some (c, [])
        else do {
          (c, pushed) \<leftarrow> push c (INJECT_TEXT (Some (xe_text event)));
          Some (c, if pushed then [] else [xe_text event])
        }
      })"

definition sc_keyboard_sdk_init :: "sc_key_inject_mode \<Rightarrow> bool \<Rightarrow> sc_keyboard_sdk" where
  "sc_keyboard_sdk_init key_inject_mode forward_key_repeat =
     \<lparr>ks_repeat = 0, ks_key_inject_mode = key_inject_mode, ks_forward_key_repeat = forward_key_repeat\<rparr>"

section \<open>Facts\<close>

lemma intmap_map_of: "sc_intmap_find_entry es = map_of es"
  by (rule ext) (induct es, simp_all)

lemma intmap_None: "sc_intmap_find_entry es k = None \<longleftrightarrow> k \<notin> fst ` set es"
  by (simp add: intmap_map_of map_of_eq_None_iff)

lemma alphaspace_disjoint:
  "k \<in> fst ` set alphaspace_keys \<Longrightarrow> k \<notin> fst ` set special_keys \<and> k \<notin> fst ` set kp_nav_keys"
  by (simp only: alphaspace_keys_def special_keys_def kp_nav_keys_def list.set image_insert
      image_empty fst_conv insert_iff empty_iff sc_keycode.inject) auto

lemma numbers_punct_disjoint:
  "k \<in> fst ` set numbers_punct_keys \<Longrightarrow> k \<notin> fst ` set special_keys \<and> k \<notin> fst ` set alphaspace_keys"
  by (simp only: alphaspace_keys_def special_keys_def numbers_punct_keys_def list.set image_insert
      image_empty fst_conv insert_iff empty_iff sc_keycode.inject) auto

lemma convert_alphaspace:
  assumes "k \<in> fst ` set alphaspace_keys" "mods \<inter> {SC_MOD_LCTRL, SC_MOD_RCTRL} = {}"
  shows "convert_keycode k mods m = None \<longleftrightarrow> m = SC_KEY_INJECT_MODE_TEXT"
proof -
  have "sc_intmap_find_entry special_keys k = None" "sc_intmap_find_entry kp_nav_keys k = None"
    "sc_intmap_find_entry alphaspace_keys k \<noteq> None"
    using assms(1) alphaspace_disjoint by (auto simp only: intmap_None)
  then show ?thesis using assms(2) by (auto simp: convert_keycode_def)
qed

lemma convert_numbers_punct:
  assumes "k \<in> fst ` set numbers_punct_keys"
    and "k \<in> fst ` set kp_nav_keys \<Longrightarrow> mods \<inter> {SC_MOD_NUM, SC_MOD_LSHIFT, SC_MOD_RSHIFT} \<noteq> {}"
  shows "convert_keycode k mods m = None \<longleftrightarrow> m \<noteq> SC_KEY_INJECT_MODE_RAW"
proof -
  have "sc_intmap_find_entry special_keys k = None" "sc_intmap_find_entry alphaspace_keys k = None"
    "sc_intmap_find_entry numbers_punct_keys k \<noteq> None"
    using assms(1) numbers_punct_disjoint by (auto simp only: intmap_None)
  moreover have "mods \<inter> {SC_MOD_NUM, SC_MOD_LSHIFT, SC_MOD_RSHIFT} = {} \<Longrightarrow>
      sc_intmap_find_entry kp_nav_keys k = None"
    using assms(2) by (auto simp only: intmap_None)
  ultimately show ?thesis by (cases m) (auto simp: convert_keycode_def)
qed

text \<open>The keys that type a character, by kind of character.\<close>

definition types_char :: "sc_keycode \<Rightarrow> sc_mod set \<Rightarrow> u8 \<Rightarrow> bool" where
  "types_char k mods ch \<longleftrightarrow> mods \<inter> {SC_MOD_LCTRL, SC_MOD_RCTRL} = {} \<and>
     (if c_isalpha ch \<or> ch = 0x20 then k \<in> fst ` set alphaspace_keys
      else k \<in> fst ` set numbers_punct_keys \<and>
        (k \<in> fst ` set kp_nav_keys \<longrightarrow> mods \<inter> {SC_MOD_NUM, SC_MOD_LSHIFT, SC_MOD_RSHIFT} \<noteq> {}))"

lemma process_single_char:
  assumes "ch \<noteq> 0"
  shows "keyboard_sdk_process_text push True c kb \<lparr>xe_text = [ch]\<rparr> =
    (if ks_key_inject_mode kb = SC_KEY_INJECT_MODE_RAW \<or>
        ks_key_inject_mode kb = SC_KEY_INJECT_MODE_MIXED \<and> (c_isalpha ch \<or> ch = 0x20)
     then Some (c, [])
     else do { (c, pushed) \<leftarrow> push c (INJECT_TEXT (Some [ch])); Some (c, if pushed then [] else [[ch]]) })"
proof -
  have "char_at [ch] 0 = Some ch" "char_at [ch] 1 = Some 0" by (simp_all add: char_at_def)
  then show ?thesis by (auto simp: keyboard_sdk_process_text_def cong: if_cong)
qed

lemma typed_key_converted:
  assumes "types_char k mods ch"
  shows "convert_keycode k mods m \<noteq> None \<longleftrightarrow>
    m = SC_KEY_INJECT_MODE_RAW \<or> m = SC_KEY_INJECT_MODE_MIXED \<and> (c_isalpha ch \<or> ch = 0x20)"
proof (cases "c_isalpha ch \<or> ch = 0x20")
  case True
  with assms convert_alphaspace [of k mods m] show ?thesis
    by (cases m) (simp_all add: types_char_def)
next
  case False
  with assms have "k \<in> fst ` set numbers_punct_keys"
    "k \<in> fst ` set kp_nav_keys \<longrightarrow> mods \<inter> {SC_MOD_NUM, SC_MOD_LSHIFT, SC_MOD_RSHIFT} \<noteq> {}"
    by (auto simp: types_char_def)
  then have "convert_keycode k mods m = None \<longleftrightarrow> m \<noteq> SC_KEY_INJECT_MODE_RAW"
    by (intro convert_numbers_punct) blast+
  with False show ?thesis by (cases m) auto
qed

text \<open>A sequence of key events.\<close>

fun keyboard_sdk_keys ::
    "'c push_msg \<Rightarrow> 'c \<Rightarrow> sc_keyboard_sdk \<Rightarrow> sc_key_event list \<Rightarrow> ('c \<times> sc_keyboard_sdk) option" where
  "keyboard_sdk_keys push c kb [] = Some (c, kb)"
| "keyboard_sdk_keys push c kb (e # es) = do {
     (c, kb) \<leftarrow> keyboard_sdk_process_key push c kb e;
     keyboard_sdk_keys push c kb es
   }"

context control_sink begin

lemma sdk_repeats:
  assumes "inv c" "ks_forward_key_repeat kb" "ke_repeat e"
    and "convert_keycode (ke_keycode e) (ke_mods_state e) (ks_key_inject_mode kb) = Some keycode"
  shows "\<exists>c' kb'. keyboard_sdk_keys push c kb (replicate n e) = Some (c', kb') \<and> inv c' \<and>
    ks_repeat kb' = ks_repeat kb + of_nat n \<and>
    attempted (history c') = attempted (history c) @
      map (\<lambda>i. INJECT_KEYCODE (convert_keycode_action (ke_action e)) keycode
        (ks_repeat kb + of_nat i) (convert_meta_state (ke_mods_state e))) [1..<n + 1]"
  using assms
proof (induction n arbitrary: c kb)
  case (Suc n)
  let ?kb = "kb\<lparr>ks_repeat := ks_repeat kb + 1\<rparr>"
  let ?m = "\<lambda>r. INJECT_KEYCODE (convert_keycode_action (ke_action e)) keycode r
    (convert_meta_state (ke_mods_state e))"
  obtain c1 pushed where p: "push c (?m (ks_repeat kb + 1)) = Some (c1, pushed)" "inv c1"
    "history c1 = history c @ [(?m (ks_repeat kb + 1), pushed)]"
    using pushE [OF Suc.prems(1), of "?m (ks_repeat kb + 1)"] by (auto simp: not_resize_def)
  have step: "keyboard_sdk_process_key push c kb e = Some (c1, ?kb)"
    using p(1) Suc.prems(2-4) by (simp add: keyboard_sdk_process_key_def convert_input_key_def Let_def)
  have kb: "ks_forward_key_repeat ?kb" "ks_key_inject_mode ?kb = ks_key_inject_mode kb"
    "ks_repeat ?kb = ks_repeat kb + 1" using Suc.prems(2) by simp_all
  from Suc.IH [OF p(2) kb(1) Suc.prems(3) Suc.prems(4) [folded kb(2)], unfolded kb(3)]
  obtain c' kb' where r:
    "keyboard_sdk_keys push c1 ?kb (replicate n e) = Some (c', kb')" "inv c'"
    "ks_repeat kb' = ks_repeat kb + 1 + of_nat n"
    "attempted (history c') = attempted (history c1) @
      map (\<lambda>i. ?m (ks_repeat kb + 1 + of_nat i)) [1..<n + 1]"
    by blast
  have "map (\<lambda>i. ?m (ks_repeat kb + of_nat i)) [1..<Suc n + 1] =
    ?m (ks_repeat kb + 1) # map (\<lambda>i. ?m (ks_repeat kb + 1 + of_nat i)) [1..<n + 1]"
  proof -
    have "[1..<Suc n + 1] = 1 # map Suc [1..<n + 1]" by (simp add: map_Suc_upt upt_conv_Cons)
    then show ?thesis by (simp add: comp_def ac_simps)
  qed
  moreover have "ks_repeat kb' = ks_repeat kb + of_nat (Suc n)" using r(3) by (simp add: ac_simps)
  moreover have "keyboard_sdk_keys push c kb (replicate (Suc n) e) = Some (c', kb')"
    using step r(1) by simp
  moreover have "attempted (history c1) = attempted (history c) @ [?m (ks_repeat kb + 1)]"
    using p(3) by simp
  ultimately show ?case using r(2,4) by (intro exI [of _ c'] exI [of _ kb']) simp
qed simp

lemma sdk_press_and_repeats:
  assumes "inv c" "ks_forward_key_repeat kb" "\<not> ke_repeat e"
    and "convert_keycode (ke_keycode e) (ke_mods_state e) (ks_key_inject_mode kb) = Some keycode"
  shows "\<exists>c' kb'. keyboard_sdk_keys push c kb (e # replicate n (e\<lparr>ke_repeat := True\<rparr>)) = Some (c', kb') \<and>
    inv c' \<and> attempted (history c') = attempted (history c) @
      map (\<lambda>i. INJECT_KEYCODE (convert_keycode_action (ke_action e)) keycode (of_nat i)
        (convert_meta_state (ke_mods_state e))) [0..<n + 1]"
proof -
  let ?kb = "kb\<lparr>ks_repeat := 0\<rparr>"
  let ?m = "INJECT_KEYCODE (convert_keycode_action (ke_action e)) keycode 0
    (convert_meta_state (ke_mods_state e))"
  obtain c1 pushed where p: "push c ?m = Some (c1, pushed)" "inv c1"
    "history c1 = history c @ [(?m, pushed)]"
    using pushE [OF assms(1), of ?m] by (auto simp: not_resize_def)
  have step: "keyboard_sdk_process_key push c kb e = Some (c1, ?kb)"
    using p(1) assms(2-4) by (simp add: keyboard_sdk_process_key_def convert_input_key_def Let_def)
  have "[0..<n + 1] = 0 # [1..<n + 1]" by (simp add: upt_conv_Cons)
  then show ?thesis
    using sdk_repeats [OF p(2), of ?kb "e\<lparr>ke_repeat := True\<rparr>" keycode n] assms(2,4) step p(3)
    by auto
qed

end

section \<open>Properties\<close>



text \<open>
  Holding a key: with repeats forwarded, a press and the repeats that follow are injected with the
  repeat counts 0, 1, 2, ... that Android expects, modulo 2^32, whatever the controller refuses.
\<close>

theorem key_repeat_counts:
  assumes "controller_log_inv M c" "ks_forward_key_repeat kb" "\<not> ke_repeat e"
    and "convert_keycode (ke_keycode e) (ke_mods_state e) (ks_key_inject_mode kb) = Some keycode"
  shows "\<exists>c' kb'. keyboard_sdk_keys (controller_push_msg alloc M) c kb
      (e # replicate n (e\<lparr>ke_repeat := True\<rparr>)) = Some (c', kb') \<and>
    attempted (cl_history c') = attempted (cl_history c) @
      map (\<lambda>i. INJECT_KEYCODE (convert_keycode_action (ke_action e)) keycode (of_nat i)
        (convert_meta_state (ke_mods_state e))) [0..<n + 1]"
  using ctl_sink.sdk_press_and_repeats [OF assms] by blast

lemma key_repeat_counts_witness:
  "\<exists>c c' kb'. keyboard_sdk_keys (controller_push_msg (\<lambda>_. True) 1000) c
      (sc_keyboard_sdk_init SC_KEY_INJECT_MODE_MIXED True)
      (\<lparr>ke_action = SC_ACTION_DOWN, ke_keycode = SC_KEYCODE ''a'', ke_scancode = 4, ke_mods_state = {},
        ke_repeat = False\<rparr> #
       replicate 2 (\<lparr>ke_action = SC_ACTION_DOWN, ke_keycode = SC_KEYCODE ''a'', ke_scancode = 4,
        ke_mods_state = {}, ke_repeat = True\<rparr>)) = Some (c', kb') \<and>
    attempted (cl_history c') = map (\<lambda>i. INJECT_KEYCODE 0 29 i 0) [0, 1, 2]"
proof -
  let ?e = "\<lparr>ke_action = SC_ACTION_DOWN, ke_keycode = SC_KEYCODE ''a'', ke_scancode = 4, ke_mods_state = {},
        ke_repeat = False\<rparr>"
  obtain c where c: "controller_log_inv 1000 c" "cl_history c = []" using controller_log_example by blast
  have "convert_keycode (ke_keycode ?e) (ke_mods_state ?e)
      (ks_key_inject_mode (sc_keyboard_sdk_init SC_KEY_INJECT_MODE_MIXED True)) = Some 29"
    by (simp add: convert_keycode_def special_keys_def kp_nav_keys_def alphaspace_keys_def
        sc_keyboard_sdk_init_def AKEYCODE_A_def)
  from key_repeat_counts [OF c(1) _ _ this, of "\<lambda>_. True" 2] c(2) show ?thesis
    by (auto simp: sc_keyboard_sdk_init_def convert_keycode_action_def AKEY_EVENT_ACTION_DOWN_def
        convert_meta_state_def autocomplete_metastate_def upt_rec)
qed

end
