(* ===== verification/Sc_Orientation.thy ===== *)
theory Sc_Orientation
  imports Sc_Prelude
begin

text \<open>
  The orientations of \<open>options.h\<close> and their composition in \<open>options.c\<close>: a number of three bits, the
  horizontal flip (applied first) and the clockwise rotation in quarter turns.
\<close>

datatype sc_orientation =
    SC_ORIENTATION_0 | SC_ORIENTATION_90 | SC_ORIENTATION_180 | SC_ORIENTATION_270
  | SC_ORIENTATION_FLIP_0 | SC_ORIENTATION_FLIP_90 | SC_ORIENTATION_FLIP_180 | SC_ORIENTATION_FLIP_270

text \<open>The value of an enumerator, and the enumerator of a value.\<close>

fun orientation_value :: "sc_orientation \<Rightarrow> u32" where
  "orientation_value SC_ORIENTATION_0 = 0"
| "orientation_value SC_ORIENTATION_90 = 1"
| "orientation_value SC_ORIENTATION_180 = 2"
| "orientation_value SC_ORIENTATION_270 = 3"
| "orientation_value SC_ORIENTATION_FLIP_0 = 4"
| "orientation_value SC_ORIENTATION_FLIP_90 = 5"
| "orientation_value SC_ORIENTATION_FLIP_180 = 6"
| "orientation_value SC_ORIENTATION_FLIP_270 = 7"

definition orientation_of_value :: "u32 \<Rightarrow> sc_orientation" where
  "orientation_of_value v =
     (if v = 0 then SC_ORIENTATION_0 else if v = 1 then SC_ORIENTATION_90
      else if v = 2 then SC_ORIENTATION_180 else if v = 3 then SC_ORIENTATION_270
      else if v = 4 then SC_ORIENTATION_FLIP_0 else if v = 5 then SC_ORIENTATION_FLIP_90
      else if v = 6 then SC_ORIENTATION_FLIP_180 else SC_ORIENTATION_FLIP_270)"

lemma orientation_of_value_value [simp]: "orientation_of_value (orientation_value ori) = ori"
  by (cases ori) (simp_all add: orientation_of_value_def)

definition sc_orientation_is_mirror :: "sc_orientation \<Rightarrow> bool" where
  "sc_orientation_is_mirror orientation \<longleftrightarrow> orientation_value orientation AND 4 \<noteq> 0"

definition sc_orientation_is_swap :: "sc_orientation \<Rightarrow> bool" where
  "sc_orientation_is_swap orientation \<longleftrightarrow> orientation_value orientation AND 1 \<noteq> 0"

definition sc_orientation_get_rotation :: "sc_orientation \<Rightarrow> sc_orientation" where
  "sc_orientation_get_rotation orientation =
     orientation_of_value (orientation_value orientation AND 3)"

definition sc_orientation_apply :: "sc_orientation \<Rightarrow> sc_orientation \<Rightarrow> sc_orientation" where
  "sc_orientation_apply src transform =
     (let transform_hflip = orientation_value transform AND 4;
          transform_rotation = orientation_value transform AND 3;
          src_hflip = orientation_value src AND 4;
          src_rotation = orientation_value src AND 3;
          src_swap = orientation_value src AND 1;
          src_rotation = (if src_swap \<noteq> 0 \<and> transform_hflip \<noteq> 0 then src_rotation + 2
            else src_rotation);
          result_hflip = src_hflip XOR transform_hflip;
          result_rotation = (transform_rotation + src_rotation) mod 4
      in orientation_of_value (result_hflip OR result_rotation))"

definition sc_orientation_get_name :: "sc_orientation \<Rightarrow> string" where
  "sc_orientation_get_name orientation = (case orientation of
       SC_ORIENTATION_0 \<Rightarrow> ''0'' | SC_ORIENTATION_90 \<Rightarrow> ''90''
     | SC_ORIENTATION_180 \<Rightarrow> ''180'' | SC_ORIENTATION_270 \<Rightarrow> ''270''
     | SC_ORIENTATION_FLIP_0 \<Rightarrow> ''flip0'' | SC_ORIENTATION_FLIP_90 \<Rightarrow> ''flip90''
     | SC_ORIENTATION_FLIP_180 \<Rightarrow> ''flip180'' | SC_ORIENTATION_FLIP_270 \<Rightarrow> ''flip270'')"

section \<open>The group of orientations\<close>



lemma orientation_apply_assoc:
  "sc_orientation_apply (sc_orientation_apply a b) c = sc_orientation_apply a (sc_orientation_apply b c)"
  by (cases a; cases b; cases c) (simp_all add: sc_orientation_apply_def orientation_of_value_def)

lemma orientation_apply_unit:
  "sc_orientation_apply SC_ORIENTATION_0 a = a" "sc_orientation_apply a SC_ORIENTATION_0 = a"
  by (cases a; simp add: sc_orientation_apply_def orientation_of_value_def)+

text \<open>Orientations form a monoid under composition, the first applied first.\<close>

instantiation sc_orientation :: monoid_mult
begin

definition one_sc_orientation :: sc_orientation where
  "one_sc_orientation = SC_ORIENTATION_0"

definition times_sc_orientation :: "sc_orientation \<Rightarrow> sc_orientation \<Rightarrow> sc_orientation" where
  "times_sc_orientation a b = sc_orientation_apply a b"

instance
  by standard (simp_all add: one_sc_orientation_def times_sc_orientation_def
      orientation_apply_assoc orientation_apply_unit)

end

lemma orientation_swap_hom:
  "sc_orientation_is_swap (sc_orientation_apply a b) \<longleftrightarrow>
     sc_orientation_is_swap a \<noteq> sc_orientation_is_swap b"
  by (cases a; cases b)
    (simp_all add: sc_orientation_apply_def sc_orientation_is_swap_def orientation_of_value_def)

end
