(* ===== verification/Sc_Geometry.thy ===== *)
theory Sc_Geometry
  imports Sc_Orientation Sc_Control_Msg
begin

text \<open>
  The geometry of \<open>screen.c\<close>: sizes of windows and contents, the rectangle of the content in the window
  and the conversion of window coordinates to frame coordinates.

  Products of two 16-bit sizes are 32-bit words. Division by a zero size is undefined in C and aborts
  here, as does the conversion of a number that an \<open>int32_t\<close> cannot hold. Floats are rationals:
  their rounding is not modelled.
\<close>

datatype sc_render_fit =
    SC_RENDER_FIT_AUTO | SC_RENDER_FIT_LETTERBOX | SC_RENDER_FIT_STRETCHED | SC_RENDER_FIT_UNSCALED

record sdl_frect =
  fr_x :: rat
  fr_y :: rat
  fr_w :: rat
  fr_h :: rat

definition DISPLAY_MARGINS :: int where "DISPLAY_MARGINS = 96"

section \<open>Sizes\<close>

definition get_oriented_size :: "sc_size \<Rightarrow> sc_orientation \<Rightarrow> sc_size" where
  "get_oriented_size sz orientation =
     (if sc_orientation_is_swap orientation
      then \<lparr>width = height sz, height = width sz\<rparr>
      else \<lparr>width = width sz, height = height sz\<rparr>)"

text \<open>\<open>display\<close> are the usable bounds of the primary display, if SDL knows them.\<close>

definition get_preferred_display_bounds :: "(int \<times> int) option \<Rightarrow> sc_size option" where
  "get_preferred_display_bounds display =
     (case display of
        None \<Rightarrow> None
      | Some (w, h) \<Rightarrow> Some \<lparr>width = word_of_int (max 0 (w - DISPLAY_MARGINS)),
          height = word_of_int (max 0 (h - DISPLAY_MARGINS))\<rparr>)"

text \<open>\<open>(uint32_t) a * b / c\<close>\<close>

definition u32_mul_div :: "u16 \<Rightarrow> u16 \<Rightarrow> u16 \<Rightarrow> u32 option" where
  "u32_mul_div a b c = (if c = 0 then None else Some ((ucast a * ucast b) div ucast c))"

definition is_optimal_size :: "sc_size \<Rightarrow> sc_size \<Rightarrow> bool option" where
  "is_optimal_size current_size content_size = do {
     h \<leftarrow> u32_mul_div (width current_size) (height content_size) (width content_size);
     if ucast (height current_size) = h then Some True
     else do {
       w \<leftarrow> u32_mul_div (height current_size) (width content_size) (height content_size);
       Some (ucast (width current_size) = w)
     }
   }"

text \<open>\<open>(uint32_t) content_size.width * window_size.height > (uint32_t) content_size.height * window_size.width\<close>\<close>

definition content_is_wider :: "sc_size \<Rightarrow> sc_size \<Rightarrow> bool" where
  "content_is_wider content_size window_size \<longleftrightarrow>
     (ucast (height content_size) * ucast (width window_size) :: u32) <
     ucast (width content_size) * ucast (height window_size)"

definition get_optimal_size :: "(int \<times> int) option \<Rightarrow> sc_size \<Rightarrow> sc_size \<Rightarrow> bool \<Rightarrow> sc_size option" where
  "get_optimal_size display current_size content_size within_display_bounds =
     (if width content_size = 0 \<or> height content_size = 0 then Some current_size
      else do {
        let window_size =
          (case (if within_display_bounds then get_preferred_display_bounds display else None) of
             None \<Rightarrow> current_size
           | Some display_size \<Rightarrow> \<lparr>width = min (width current_size) (width display_size),
               height = min (height current_size) (height display_size)\<rparr>);
        optimal \<leftarrow> is_optimal_size window_size content_size;
        if optimal then Some window_size
        else
          (let keep_width = content_is_wider content_size window_size in
           if keep_width then do {
             h \<leftarrow> u32_mul_div (height content_size) (width window_size) (width content_size);
             Some (window_size\<lparr>height := ucast h\<rparr>)
           }
           else do {
             w \<leftarrow> u32_mul_div (width content_size) (height window_size) (height content_size);
             Some (window_size\<lparr>width := ucast w\<rparr>)
           })
      })"

definition get_initial_optimal_size ::
    "(int \<times> int) option \<Rightarrow> sc_size \<Rightarrow> u16 \<Rightarrow> u16 \<Rightarrow> sc_size option" where
  "get_initial_optimal_size display content_size req_width req_height =
     (if req_width = 0 \<and> req_height = 0 then get_optimal_size display content_size content_size True
      else do {
        w \<leftarrow> (if req_width \<noteq> 0 then Some (ucast req_width)
          else u32_mul_div req_height (width content_size) (height content_size));
        h \<leftarrow> (if req_height \<noteq> 0 then Some (ucast req_height)
          else u32_mul_div req_width (height content_size) (width content_size));
        Some \<lparr>width = ucast w, height = ucast h\<rparr>
      })"

section \<open>The content rectangle\<close>

definition size_w :: "sc_size \<Rightarrow> rat" where "size_w sz = of_nat (unat (width sz))"
definition size_h :: "sc_size \<Rightarrow> rat" where "size_h sz = of_nat (unat (height sz))"

definition compute_content_rect ::
    "sc_size \<Rightarrow> sc_size \<Rightarrow> bool \<Rightarrow> sc_render_fit \<Rightarrow> sdl_frect option" where
  "compute_content_rect window_size content_size is_icon render_fit =
     (if is_icon \<and> width content_size \<le> width window_size \<and> height content_size \<le> height window_size
      then Some \<lparr>fr_x = (size_w window_size - size_w content_size) / 2,
        fr_y = (size_h window_size - size_h content_size) / 2,
        fr_w = size_w content_size, fr_h = size_h content_size\<rparr>
      else if \<not> is_icon \<and> render_fit = SC_RENDER_FIT_UNSCALED then
        (let x = (size_w window_size - size_w content_size) / 2;
             y = (size_h window_size - size_h content_size) / 2
         in Some \<lparr>fr_x = max 0 x, fr_y = max 0 y, fr_w = size_w content_size, fr_h = size_h content_size\<rparr>)
      else if \<not> is_icon \<and> render_fit = SC_RENDER_FIT_STRETCHED then
        Some \<lparr>fr_x = 0, fr_y = 0, fr_w = size_w window_size, fr_h = size_h window_size\<rparr>
      else do {
        c_assert (is_icon \<or> render_fit = SC_RENDER_FIT_LETTERBOX);
        optimal \<leftarrow> is_optimal_size window_size content_size;
        if optimal then
          Some \<lparr>fr_x = 0, fr_y = 0, fr_w = size_w window_size, fr_h = size_h window_size\<rparr>
        else if content_is_wider content_size window_size then
          (let h = size_w window_size * size_h content_size / size_w content_size in
           Some \<lparr>fr_x = 0, fr_y = (size_h window_size - h) / 2, fr_w = size_w window_size, fr_h = h\<rparr>)
        else
          (let w = size_h window_size * size_w content_size / size_h content_size in
           Some \<lparr>fr_x = (size_w window_size - w) / 2, fr_y = 0, fr_w = w, fr_h = size_h window_size\<rparr>)
      })"

section \<open>From the window to the frame\<close>

definition c_int32 :: "int \<Rightarrow> int option" where
  "c_int32 v = (if - (2 ^ 31) \<le> v \<and> v < 2 ^ 31 then Some v else None)"

text \<open>The switch over the orientation; \<open>w\<close> and \<open>h\<close> are the size of the content.\<close>

fun orient_point :: "sc_orientation \<Rightarrow> int \<Rightarrow> int \<Rightarrow> int \<times> int \<Rightarrow> int \<times> int" where
  "orient_point SC_ORIENTATION_0 w h (x, y) = (x, y)"
| "orient_point SC_ORIENTATION_90 w h (x, y) = (y, w - x)"
| "orient_point SC_ORIENTATION_180 w h (x, y) = (w - x, h - y)"
| "orient_point SC_ORIENTATION_270 w h (x, y) = (h - y, x)"
| "orient_point SC_ORIENTATION_FLIP_0 w h (x, y) = (w - x, y)"
| "orient_point SC_ORIENTATION_FLIP_90 w h (x, y) = (h - y, w - x)"
| "orient_point SC_ORIENTATION_FLIP_180 w h (x, y) = (x, h - y)"
| "orient_point SC_ORIENTATION_FLIP_270 w h (x, y) = (y, x)"

text \<open>One coordinate, in the rectangle, scaled to the content.\<close>

definition scale_coord :: "int \<Rightarrow> rat \<Rightarrow> rat \<Rightarrow> int \<Rightarrow> int option" where
  "scale_coord x rx rw w = c_int32 (c_trunc (of_int (c_trunc (of_int x - rx) * w) / rw))"

definition convert_window_to_frame_coords ::
    "sc_orientation \<Rightarrow> sc_size \<Rightarrow> sdl_frect \<Rightarrow> int \<Rightarrow> int \<Rightarrow> sc_point option" where
  "convert_window_to_frame_coords orientation content_size rect x y = do {
     let w = int (unat (width content_size));
     let h = int (unat (height content_size));
     c_assert (fr_w rect \<noteq> 0 \<and> fr_h rect \<noteq> 0);
     x \<leftarrow> scale_coord x (fr_x rect) (fr_w rect) w;
     y \<leftarrow> scale_coord y (fr_y rect) (fr_h rect) h;
     let (rx, ry) = orient_point orientation w h (x, y);
     rx \<leftarrow> c_int32 rx;
     ry \<leftarrow> c_int32 ry;
     Some \<lparr>pt_x = word_of_int rx, pt_y = word_of_int ry\<rparr>
   }"

section \<open>Sizes as numbers\<close>

lemma unat_size_mul:
  "unat (ucast (a::u16) * ucast (b::u16) :: u32) = unat a * unat b"
proof -
  have "unat a * unat b \<le> 65535 * 65535" by (intro mult_le_mono unat_u16)
  then have "unat a * unat b < 2 ^ 32" by simp
  moreover have "unat (ucast a :: u32) = unat a" "unat (ucast b :: u32) = unat b"
    using unat_u16 [of a] unat_u16 [of b]
    by (simp_all add: unsigned_ucast_eq take_bit_nat_eq_self)
  ultimately show ?thesis by (simp add: unat_word_ariths)
qed

lemma unat_ucast_u16_u32: "unat (ucast (a::u16) :: u32) = unat a"
  using unat_u16 [of a] by (simp add: unsigned_ucast_eq take_bit_nat_eq_self)

lemma u32_mul_div_Some:
  "c \<noteq> 0 \<Longrightarrow> \<exists>q. u32_mul_div a b c = Some q \<and> unat q = unat a * unat b div unat c"
  by (simp add: u32_mul_div_def unat_div unat_size_mul unat_ucast_u16_u32)

lemma content_is_wider_iff:
  "content_is_wider content window \<longleftrightarrow>
     unat (height content) * unat (width window) < unat (width content) * unat (height window)"
  by (simp add: content_is_wider_def word_less_nat_alt unat_size_mul)

text \<open>An optimal size: one dimension is recomputed from the other, rounded down.\<close>

definition optimal :: "sc_size \<Rightarrow> sc_size \<Rightarrow> bool" where
  "optimal current content \<longleftrightarrow>
     unat (height current) = unat (width current) * unat (height content) div unat (width content) \<or>
     unat (width current) = unat (height current) * unat (width content) div unat (height content)"

lemma is_optimal_size_eq:
  assumes "width content \<noteq> 0" "height content \<noteq> 0"
  shows "is_optimal_size current content = Some (optimal current content)"
proof -
  obtain p where p: "u32_mul_div (width current) (height content) (width content) = Some p"
    "unat p = unat (width current) * unat (height content) div unat (width content)"
    using u32_mul_div_Some [OF assms(1)] by blast
  obtain q where q: "u32_mul_div (height current) (width content) (height content) = Some q"
    "unat q = unat (height current) * unat (width content) div unat (height content)"
    using u32_mul_div_Some [OF assms(2)] by blast
  have "ucast (height current) = p \<longleftrightarrow> unat (height current) = unat p"
    "ucast (width current) = q \<longleftrightarrow> unat (width current) = unat q"
    by (simp_all add: word_unat_eq_iff unat_ucast_u16_u32)
  then show ?thesis by (simp add: is_optimal_size_def p(1) q(1) optimal_def p(2) q(2))
qed

section \<open>The optimal size\<close>

lemma unat_ucast_u32_u16: "unat (v::u32) \<le> 65535 \<Longrightarrow> unat (ucast v :: u16) = unat v"
  by (simp add: unsigned_ucast_eq take_bit_nat_eq_self)

lemma unat_min: "unat (min a b) = min (unat a) (unat (b::'a::len word))"
  by (simp add: min_def word_le_nat_alt)

definition bounded_window :: "(int \<times> int) option \<Rightarrow> sc_size \<Rightarrow> bool \<Rightarrow> sc_size" where
  "bounded_window display current wdb =
     (case (if wdb then get_preferred_display_bounds display else None) of
        None \<Rightarrow> current
      | Some display_size \<Rightarrow> \<lparr>width = min (width current) (width display_size),
          height = min (height current) (height display_size)\<rparr>)"

lemma bounded_window_le:
  "unat (width (bounded_window display current wdb)) \<le> unat (width current)"
  "unat (height (bounded_window display current wdb)) \<le> unat (height current)"
  by (auto simp: bounded_window_def unat_min split: option.splits)

lemma get_optimal_size_spec:
  fixes display current wdb
  assumes "width content \<noteq> 0" "height content \<noteq> 0"
  defines "window \<equiv> bounded_window display current wdb"
  shows "\<exists>r. get_optimal_size display current content wdb = Some r \<and> optimal r content \<and>
    unat (width r) \<le> unat (width window) \<and> unat (height r) \<le> unat (height window) \<and>
    (width r = width window \<or> height r = height window)"
proof -
  note eq = get_optimal_size_def [of display current content wdb, folded bounded_window_def]
  let ?cw = "unat (width content)" let ?ch = "unat (height content)"
  let ?ww = "unat (width window)" let ?wh = "unat (height window)"
  have pos: "0 < ?cw" "0 < ?ch" using assms(1,2) by (simp_all add: unat_gt_0)
  consider (optimal) "optimal window content"
    | (wider) "\<not> optimal window content" "content_is_wider content window"
    | (taller) "\<not> optimal window content" "\<not> content_is_wider content window" by blast
  then show ?thesis
  proof cases
    case optimal
    with assms(1,2) show ?thesis
      by (simp add: eq is_optimal_size_eq window_def [symmetric])
  next
    case wider
    obtain h where h: "u32_mul_div (height content) (width window) (width content) = Some h"
      "unat h = ?ch * ?ww div ?cw"
      using u32_mul_div_Some [OF assms(1)] by blast
    have "unat h < ?wh"
      using wider(2) pos unfolding h(2) content_is_wider_iff
      by (simp add: less_mult_imp_div_less mult.commute)
    moreover have "?wh \<le> 65535" by (rule unat_u16)
    ultimately have u: "unat (ucast h :: u16) = unat h" by (intro unat_ucast_u32_u16) simp
    have "get_optimal_size display current content wdb = Some (window\<lparr>height := ucast h\<rparr>)"
      using assms(1,2) wider h(1) by (simp add: eq is_optimal_size_eq window_def [symmetric])
    moreover have "optimal (window\<lparr>height := ucast h\<rparr>) content"
      by (simp add: optimal_def u h(2) mult.commute)
    ultimately show ?thesis using \<open>unat h < ?wh\<close> u by auto
  next
    case taller
    obtain w where w: "u32_mul_div (width content) (height window) (height content) = Some w"
      "unat w = ?cw * ?wh div ?ch"
      using u32_mul_div_Some [OF assms(2)] by blast
    have "?cw * ?wh \<le> ?ww * ?ch"
      using taller(2) by (simp add: content_is_wider_iff mult.commute)
    then have "?cw * ?wh div ?ch \<le> ?ww * ?ch div ?ch" by (rule div_le_mono)
    then have "unat w \<le> ?ww" using pos w(2) by simp
    moreover have "?ww \<le> 65535" by (rule unat_u16)
    ultimately have u: "unat (ucast w :: u16) = unat w" by (intro unat_ucast_u32_u16) simp
    have "get_optimal_size display current content wdb = Some (window\<lparr>width := ucast w\<rparr>)"
      using assms(1,2) taller w(1) by (simp add: eq is_optimal_size_eq window_def [symmetric])
    moreover have "optimal (window\<lparr>width := ucast w\<rparr>) content"
      by (simp add: optimal_def u w(2) mult.commute)
    ultimately show ?thesis using \<open>unat w \<le> ?ww\<close> u by auto
  qed
qed

section \<open>The content rectangle\<close>

definition rect_in_window :: "sdl_frect \<Rightarrow> sc_size \<Rightarrow> bool" where
  "rect_in_window r window \<longleftrightarrow> 0 \<le> fr_x r \<and> 0 \<le> fr_y r \<and> 0 \<le> fr_w r \<and> 0 \<le> fr_h r \<and>
     fr_x r + fr_w r \<le> size_w window \<and> fr_y r + fr_h r \<le> size_h window \<and>
     2 * fr_x r + fr_w r = size_w window \<and> 2 * fr_y r + fr_h r = size_h window"

lemma size_nonneg: "0 \<le> size_w sz" "0 \<le> size_h sz"
  by (simp_all only: size_w_def size_h_def of_nat_0_le_iff)

lemma size_pos: "width sz \<noteq> 0 \<Longrightarrow> 0 < size_w sz" "height sz \<noteq> 0 \<Longrightarrow> 0 < size_h sz"
  by (simp_all only: size_w_def size_h_def of_nat_0_less_iff unat_gt_0 word_neq_0_conv)

lemma content_is_wider_rat:
  "content_is_wider content window \<longleftrightarrow> size_h content * size_w window < size_w content * size_h window"
  unfolding content_is_wider_iff size_w_def size_h_def of_nat_mult [symmetric] of_nat_less_iff ..

lemma size_le_rat:
  "width a \<le> width b \<longleftrightarrow> size_w a \<le> size_w b" "height a \<le> height b \<longleftrightarrow> size_h a \<le> size_h b"
  by (simp_all only: size_w_def size_h_def word_le_nat_alt of_nat_le_iff)

lemma content_rect_spec:
  assumes "width content \<noteq> 0" "height content \<noteq> 0"
    and "is_icon \<or> render_fit = SC_RENDER_FIT_LETTERBOX \<or> render_fit = SC_RENDER_FIT_STRETCHED"
  shows "\<exists>r. compute_content_rect window content is_icon render_fit = Some r \<and> rect_in_window r window \<and>
    ((is_icon \<or> render_fit = SC_RENDER_FIT_LETTERBOX) \<and> \<not> optimal window content \<longrightarrow>
      fr_w r * size_h content = fr_h r * size_w content)"
proof -
  note pos = size_pos(1) [OF assms(1)] size_pos(2) [OF assms(2)]
  note nn = size_nonneg [of window]
  note opt = is_optimal_size_eq [OF assms(1,2), of window]
  let ?small = "width content \<le> width window \<and> height content \<le> height window"
  consider (small) "is_icon" ?small | (stretched) "\<not> is_icon" "render_fit = SC_RENDER_FIT_STRETCHED"
    | (box) "is_icon \<and> \<not> ?small \<or> \<not> is_icon \<and> render_fit = SC_RENDER_FIT_LETTERBOX"
    using assms(3) by blast
  then show ?thesis
  proof cases
    case small
    with pos show ?thesis
      by (simp add: compute_content_rect_def rect_in_window_def size_le_rat field_simps)
  next
    case stretched
    with nn show ?thesis by (auto simp: compute_content_rect_def rect_in_window_def)
  next
    case box
    then have e: "compute_content_rect window content is_icon render_fit =
      (if optimal window content then
          Some \<lparr>fr_x = 0, fr_y = 0, fr_w = size_w window, fr_h = size_h window\<rparr>
        else if content_is_wider content window then
          (let h = size_w window * size_h content / size_w content in
           Some \<lparr>fr_x = 0, fr_y = (size_h window - h) / 2, fr_w = size_w window, fr_h = h\<rparr>)
        else
          (let w = size_h window * size_w content / size_h content in
           Some \<lparr>fr_x = (size_w window - w) / 2, fr_y = 0, fr_w = w, fr_h = size_h window\<rparr>))"
      by (auto simp: compute_content_rect_def opt)
    consider (a) "optimal window content" | (b) "\<not> optimal window content" "content_is_wider content window"
      | (c) "\<not> optimal window content" "\<not> content_is_wider content window" by blast
    then show ?thesis
    proof cases
      case a
      with nn show ?thesis by (simp add: e rect_in_window_def)
    next
      case b
      define h where "h = size_w window * size_h content / size_w content"
      have hc: "h * size_w content = size_w window * size_h content" using pos by (simp add: h_def)
      have "0 \<le> h" using pos nn by (simp add: h_def)
      moreover have "h \<le> size_h window"
        using b(2) pos by (simp add: h_def content_is_wider_rat field_simps)
      ultimately show ?thesis
        using b nn hc by (simp add: e rect_in_window_def h_def [symmetric] Let_def) (simp add: field_simps)
    next
      case c
      define w where "w = size_h window * size_w content / size_h content"
      have wc: "w * size_h content = size_h window * size_w content" using pos by (simp add: w_def)
      have "0 \<le> w" using pos nn by (simp add: w_def)
      moreover have "w \<le> size_w window"
        using c(2) pos by (simp add: w_def content_is_wider_rat field_simps)
      ultimately show ?thesis
        using c nn wc by (simp add: e rect_in_window_def w_def [symmetric] Let_def) (simp add: field_simps)
    qed
  qed
qed

section \<open>Points\<close>

lemma orient_point_compose:
  "orient_point (sc_orientation_apply a b) w h p =
     (if sc_orientation_is_swap b then orient_point a h w (orient_point b w h p)
      else orient_point a w h (orient_point b w h p))"
  by (cases p; cases a; cases b)
    (simp_all add: sc_orientation_apply_def sc_orientation_is_swap_def orientation_of_value_def)

lemma c_trunc_of_int [simp]: "c_trunc (of_int n) = n"
  by (simp add: c_trunc_def)

lemma c_trunc_range: "0 \<le> f \<Longrightarrow> 0 \<le> c_trunc f \<and> of_int (c_trunc f) \<le> f"
  by (simp add: c_trunc_def)

lemma scale_coord_range:
  assumes "rx \<le> of_int x" "of_int x \<le> rx + rw" "0 < rw" "0 \<le> w" "w < 2 ^ 31"
  shows "\<exists>v. scale_coord x rx rw w = Some v \<and> 0 \<le> v \<and> v \<le> w"
proof -
  let ?d = "c_trunc (of_int x - rx)"
  have d: "0 \<le> ?d" "of_int ?d \<le> rw" using c_trunc_range [of "of_int x - rx"] assms(1,2) by auto
  let ?f = "of_int (?d * w) / rw"
  have "0 \<le> ?f" using d assms by simp
  moreover have "?f \<le> of_int w"
  proof -
    have "of_int ?d * of_int w \<le> rw * of_int w" using d assms by (intro mult_right_mono) simp_all
    then show ?thesis using assms(3) by (simp add: field_simps)
  qed
  ultimately have "0 \<le> c_trunc ?f" "(of_int (c_trunc ?f) :: rat) \<le> of_int w"
    using c_trunc_range [of ?f] by auto
  then have "0 \<le> c_trunc ?f" "c_trunc ?f \<le> w" by simp_all
  with assms(5) show ?thesis by (simp add: scale_coord_def c_int32_def)
qed

lemma orient_point_range:
  assumes "0 \<le> x" "x \<le> w" "0 \<le> y" "y \<le> h" "orient_point ori w h (x, y) = (px, py)"
  shows "0 \<le> px \<and> 0 \<le> py \<and>
    (if sc_orientation_is_swap ori then px \<le> h \<and> py \<le> w else px \<le> w \<and> py \<le> h)"
  using assms by (cases ori) (auto simp: sc_orientation_is_swap_def)

lemma sint_word_of_int_u32: "- (2 ^ 31) \<le> v \<Longrightarrow> v < 2 ^ 31 \<Longrightarrow> sint (word_of_int v :: i32) = v"
  by (simp only: sint_sbintrunc' signed_take_bit_int_eq_self_iff) simp

lemma frame_coords_range:
  fixes content ori
  assumes "fr_x rect \<le> of_int x" "of_int x \<le> fr_x rect + fr_w rect" "0 < fr_w rect"
    and "fr_y rect \<le> of_int y" "of_int y \<le> fr_y rect + fr_h rect" "0 < fr_h rect"
  defines "frame \<equiv> get_oriented_size content ori"
  shows "\<exists>p. convert_window_to_frame_coords ori content rect x y = Some p \<and>
    0 \<le> sint (pt_x p) \<and> sint (pt_x p) \<le> int (unat (width frame)) \<and>
    0 \<le> sint (pt_y p) \<and> sint (pt_y p) \<le> int (unat (height frame))"
proof -
  let ?w = "int (unat (width content))" let ?h = "int (unat (height content))"
  have wh: "?w \<le> 65535" "?h \<le> 65535" using unat_u16 [of "width content"] unat_u16 [of "height content"]
    by linarith+
  obtain a where a: "scale_coord x (fr_x rect) (fr_w rect) ?w = Some a" "0 \<le> a" "a \<le> ?w"
    using scale_coord_range [OF assms(1-3), of ?w] wh by auto
  obtain b where b: "scale_coord y (fr_y rect) (fr_h rect) ?h = Some b" "0 \<le> b" "b \<le> ?h"
    using scale_coord_range [OF assms(4-6), of ?h] wh by auto
  obtain px py where p: "orient_point ori ?w ?h (a, b) = (px, py)" by fastforce
  note r = orient_point_range [OF a(2,3) b(2,3) p]
  then have px: "0 \<le> px" "px \<le> 65535" "0 \<le> py" "py \<le> 65535" using wh by (auto split: if_splits)
  then have c: "c_int32 px = Some px" "c_int32 py = Some py" by (simp_all add: c_int32_def)
  have s: "sint (word_of_int px :: i32) = px" "sint (word_of_int py :: i32) = py"
    using px by (simp_all add: sint_word_of_int_u32)
  have "convert_window_to_frame_coords ori content rect x y =
      Some \<lparr>pt_x = word_of_int px, pt_y = word_of_int py\<rparr>"
    using assms(3,6) a(1) b(1) p c by (simp add: convert_window_to_frame_coords_def)
  with r s show ?thesis
    by (intro exI [of _ "\<lparr>pt_x = word_of_int px, pt_y = word_of_int py\<rparr>"])
      (auto simp: frame_def get_oriented_size_def split: if_splits)
qed

section \<open>Properties\<close>

text \<open>
  The optimal size of a window never aborts for a non-empty content and is right: it is not larger
  than the current size nor, when asked, than the display, it keeps one of the two dimensions it was
  given, it has the ratio of the content (one dimension follows from the other), no 16-bit
  conversion loses anything, and computing it again changes nothing.
\<close>

theorem optimal_window_size:
  assumes "width content \<noteq> 0" "height content \<noteq> 0"
  shows "\<exists>r. get_optimal_size display current content wdb = Some r \<and> optimal r content \<and>
    unat (width r) \<le> unat (width (bounded_window display current wdb)) \<and>
    unat (height r) \<le> unat (height (bounded_window display current wdb)) \<and>
    unat (width r) \<le> unat (width current) \<and> unat (height r) \<le> unat (height current) \<and>
    (width r = width (bounded_window display current wdb) \<or>
     height r = height (bounded_window display current wdb)) \<and>
    get_optimal_size display r content False = Some r"
proof -
  from get_optimal_size_spec [OF assms, of display current wdb] obtain r where
    r: "get_optimal_size display current content wdb = Some r" "optimal r content"
      "unat (width r) \<le> unat (width (bounded_window display current wdb))"
      "unat (height r) \<le> unat (height (bounded_window display current wdb))"
      "width r = width (bounded_window display current wdb) \<or>
       height r = height (bounded_window display current wdb)"
    by blast
  have "get_optimal_size display r content False = Some r"
    using assms r(2) by (simp add: get_optimal_size_def is_optimal_size_eq)
  with r bounded_window_le [of display current wdb] show ?thesis by fastforce
qed

lemma optimal_window_size_witness:
  "\<exists>r. get_optimal_size (Some (1920, 1080)) \<lparr>width = 1080, height = 1920\<rparr>
      \<lparr>width = 1080, height = 1920\<rparr> True = Some r \<and> unat (height r) \<le> 984"
proof -
  have "bounded_window (Some (1920, 1080)) \<lparr>width = 1080, height = 1920\<rparr> True =
      \<lparr>width = 1080, height = 984\<rparr>"
    by (simp add: bounded_window_def get_preferred_display_bounds_def DISPLAY_MARGINS_def min_def)
  with optimal_window_size [of "\<lparr>width = 1080, height = 1920\<rparr>" "Some (1920, 1080)"
      "\<lparr>width = 1080, height = 1920\<rparr>" True]
  show ?thesis by auto
qed

text \<open>
  The content is drawn inside the window and centered in both directions, in every mode but the
  unscaled one, and in the letterbox mode its ratio is exactly that of the content unless the window
  already has the optimal size; no float division by zero and no failed assertion on the way.
\<close>

theorem content_rect_fits:
  assumes "width content \<noteq> 0" "height content \<noteq> 0"
    and "is_icon \<or> render_fit = SC_RENDER_FIT_LETTERBOX \<or> render_fit = SC_RENDER_FIT_STRETCHED"
  shows "\<exists>r. compute_content_rect window content is_icon render_fit = Some r \<and> rect_in_window r window \<and>
    ((is_icon \<or> render_fit = SC_RENDER_FIT_LETTERBOX) \<and> \<not> optimal window content \<longrightarrow>
      fr_w r * size_h content = fr_h r * size_w content)"
  by (rule content_rect_spec [OF assms])

lemma content_rect_fits_witness:
  "\<exists>r. compute_content_rect \<lparr>width = 1000, height = 1000\<rparr> \<lparr>width = 1080, height = 1920\<rparr> False
      SC_RENDER_FIT_LETTERBOX = Some r \<and> rect_in_window r \<lparr>width = 1000, height = 1000\<rparr>"
  using content_rect_fits [of "\<lparr>width = 1080, height = 1920\<rparr>" False SC_RENDER_FIT_LETTERBOX
      "\<lparr>width = 1000, height = 1000\<rparr>"]
  by auto

text \<open>
  C36: Applying a transformation to an orientation is right: the point of the frame under a point of the
  content is the same whether the combined orientation is undone at once, or first the
  transformation, then the original orientation, each with the size of its own content.
\<close>

theorem orientation_composition:
  "orient_point (sc_orientation_apply src transform) w h p =
     (if sc_orientation_is_swap transform then orient_point src h w (orient_point transform w h p)
      else orient_point src w h (orient_point transform w h p)) \<and>
   (sc_orientation_is_swap (sc_orientation_apply src transform) \<longleftrightarrow>
      sc_orientation_is_swap src \<noteq> sc_orientation_is_swap transform)"
  using orient_point_compose orientation_swap_hom by blast

text \<open>
  C35: A point of the content rectangle is converted without overflow to a point of the frame, its right
  and bottom border included, whatever the orientation and the scale.
\<close>

theorem window_point_in_frame:
  assumes "fr_x rect \<le> of_int x" "of_int x \<le> fr_x rect + fr_w rect" "0 < fr_w rect"
    and "fr_y rect \<le> of_int y" "of_int y \<le> fr_y rect + fr_h rect" "0 < fr_h rect"
  shows "\<exists>p. convert_window_to_frame_coords ori content rect x y = Some p \<and>
    0 \<le> sint (pt_x p) \<and> sint (pt_x p) \<le> int (unat (width (get_oriented_size content ori))) \<and>
    0 \<le> sint (pt_y p) \<and> sint (pt_y p) \<le> int (unat (height (get_oriented_size content ori)))"
  by (rule frame_coords_range [OF assms])

lemma window_point_in_frame_witness:
  "\<exists>p. convert_window_to_frame_coords SC_ORIENTATION_90 \<lparr>width = 1920, height = 1080\<rparr>
      \<lparr>fr_x = 0, fr_y = 10, fr_w = 960, fr_h = 540\<rparr> 0 20 = Some p \<and> sint (pt_y p) \<le> 1920"
  using window_point_in_frame [of "\<lparr>fr_x = 0, fr_y = 10, fr_w = 960, fr_h = 540\<rparr>" 0 20
      SC_ORIENTATION_90 "\<lparr>width = 1920, height = 1080\<rparr>"]
  by (auto simp: get_oriented_size_def sc_orientation_is_swap_def)

end
