(* ===== verification/Sc_Media.thy ===== *)
theory Sc_Media
  imports Sc_Prelude
begin

text \<open>
  The media traits (\<open>trait/packet_sink.h\<close>, \<open>frame_sink.h\<close>, \<open>packet_source.c\<close>, \<open>frame_source.c\<close>) and the
  packets of \<open>libavcodec\<close> as far as the client reads them.

  A sink is the record of its operations. They act on a world of type \<open>'w\<close>, which holds the state of
  every sink and of what lies behind it; a pointer to a sink is thus never needed. An operation may abort.
  A source is the list of its sinks. What \<open>packet_source.c\<close> and \<open>frame_source.c\<close> have in common is written
  once, for sinks of any payload.
\<close>

section \<open>Sessions, codecs and packets\<close>

record sc_stream_session =
  ss_width :: u32
  ss_height :: u32
  ss_client_resized :: bool

datatype av_codec_id = AV_CODEC_ID_NONE | AV_CODEC_ID_H264 | AV_CODEC_ID_HEVC | AV_CODEC_ID_AV1
  | AV_CODEC_ID_OPUS | AV_CODEC_ID_AAC | AV_CODEC_ID_FLAC | AV_CODEC_ID_PCM_S16LE

datatype av_media_type = AVMEDIA_TYPE_VIDEO | AVMEDIA_TYPE_AUDIO

datatype av_format = AV_FMT_NONE | AV_PIX_FMT_YUV420P | AV_SAMPLE_FMT_S16

text \<open>The fields of an \<open>AVCodecContext\<close> that the client sets.\<close>

record codec_context =
  cc_codec_id :: av_codec_id
  cc_codec_type :: av_media_type
  cc_low_delay :: bool
  cc_width :: i32
  cc_height :: i32
  cc_format :: av_format
  cc_channels :: nat
  cc_sample_rate :: nat

record av_packet =
  pkt_data :: bytes
  pkt_pts :: u64
  pkt_dts :: u64
  pkt_flags :: u32

text \<open>A decoded frame: its size, its time, its content and, for audio, its number of samples.\<close>

record av_frame =
  av_width :: int
  av_height :: int
  av_pts :: int
  av_data :: nat
  av_nb_samples :: nat

definition AV_NOPTS_VALUE :: u64 where
  "AV_NOPTS_VALUE = 0x8000000000000000"

definition AV_PKT_FLAG_KEY :: u32 where
  "AV_PKT_FLAG_KEY = 1"

section \<open>Sinks\<close>

record ('c, 'p, 'w) media_sink =
  ms_open :: "'c \<Rightarrow> sc_stream_session option \<Rightarrow> 'w \<Rightarrow> (bool \<times> 'w) option"
  ms_close :: "'w \<Rightarrow> 'w option"
  ms_push :: "'p \<Rightarrow> 'w \<Rightarrow> (bool \<times> 'w) option"
  ms_push_session :: "(sc_stream_session \<Rightarrow> 'w \<Rightarrow> (bool \<times> 'w) option) option"

record ('c, 'p, 'w) disableable_sink = "('c, 'p, 'w) media_sink" +
  ms_disable :: "('w \<Rightarrow> 'w option) option"

type_synonym 'w sc_packet_sink = "(codec_context, av_packet, 'w) disableable_sink"

section \<open>The loops of a source\<close>

text \<open>The last opened is closed first.\<close>

fun close_sinks :: "('c, 'p, 'w, 'z) media_sink_scheme list \<Rightarrow> 'w \<Rightarrow> 'w option" where
  "close_sinks [] w = Some w"
| "close_sinks (sink # sinks) w = do {
     w \<leftarrow> close_sinks sinks w;
     ms_close sink w
   }"

definition sinks_close_firsts :: "('c, 'p, 'w, 'z) media_sink_scheme list \<Rightarrow> nat \<Rightarrow> 'w \<Rightarrow> 'w option" where
  "sinks_close_firsts source count w = close_sinks (take count source) w"

text \<open>\<open>i\<close> is the index of the next sink to open.\<close>

function sinks_open_from ::
    "('c, 'p, 'w, 'z) media_sink_scheme list \<Rightarrow> nat \<Rightarrow> 'c \<Rightarrow> sc_stream_session option \<Rightarrow> 'w \<Rightarrow>
      (bool \<times> 'w) option" where
  "sinks_open_from source i ctx session w =
     (if i < length source then do {
        (ok, w) \<leftarrow> ms_open (source ! i) ctx session w;
        if \<not> ok then do {
          w \<leftarrow> sinks_close_firsts source i w;
          Some (False, w)
        }
        else sinks_open_from source (Suc i) ctx session w
      }
      else Some (True, w))"
  by pat_completeness auto

termination by (relation "measure (\<lambda>(source, i, _). length source - i)") auto

declare sinks_open_from.simps [simp del]

fun sinks_push_all :: "('c, 'p, 'w, 'z) media_sink_scheme list \<Rightarrow> 'p \<Rightarrow> 'w \<Rightarrow> (bool \<times> 'w) option" where
  "sinks_push_all [] p w = Some (True, w)"
| "sinks_push_all (sink # sinks) p w = do {
     (ok, w) \<leftarrow> ms_push sink p w;
     if \<not> ok then Some (False, w) else sinks_push_all sinks p w
   }"

fun sinks_push_session_all ::
    "('c, 'p, 'w, 'z) media_sink_scheme list \<Rightarrow> sc_stream_session \<Rightarrow> 'w \<Rightarrow> (bool \<times> 'w) option" where
  "sinks_push_session_all [] session w = Some (True, w)"
| "sinks_push_session_all (sink # sinks) session w =
     (case ms_push_session sink of
        None \<Rightarrow> sinks_push_session_all sinks session w
      | Some push \<Rightarrow> do {
          (ok, w) \<leftarrow> push session w;
          if \<not> ok then Some (False, w) else sinks_push_session_all sinks session w
        })"

fun sinks_disable_all :: "('c, 'p, 'w, 'z) disableable_sink_scheme list \<Rightarrow> 'w \<Rightarrow> 'w option" where
  "sinks_disable_all [] w = Some w"
| "sinks_disable_all (sink # sinks) w =
     (case ms_disable sink of
        None \<Rightarrow> sinks_disable_all sinks w
      | Some disable \<Rightarrow> do {
          w \<leftarrow> disable w;
          sinks_disable_all sinks w
        })"

section \<open>Packet sources\<close>

definition SC_PACKET_SOURCE_MAX_SINKS :: nat where
  "SC_PACKET_SOURCE_MAX_SINKS = 2"

type_synonym 'w sc_packet_source = "'w sc_packet_sink list"

definition sc_packet_source_init :: "'w sc_packet_source" where
  "sc_packet_source_init = []"

definition sc_packet_source_add_sink ::
    "'w sc_packet_source \<Rightarrow> 'w sc_packet_sink \<Rightarrow> 'w sc_packet_source option" where
  "sc_packet_source_add_sink source sink = do {
     c_assert (length source < SC_PACKET_SOURCE_MAX_SINKS);
     Some (source @ [sink])
   }"

definition sc_packet_source_sinks_open ::
    "'w sc_packet_source \<Rightarrow> codec_context \<Rightarrow> sc_stream_session option \<Rightarrow> 'w \<Rightarrow> (bool \<times> 'w) option" where
  "sc_packet_source_sinks_open source ctx session w = do {
     c_assert (source \<noteq> []);
     sinks_open_from source 0 ctx session w
   }"

definition sc_packet_source_sinks_close :: "'w sc_packet_source \<Rightarrow> 'w \<Rightarrow> 'w option" where
  "sc_packet_source_sinks_close source w = do {
     c_assert (source \<noteq> []);
     sinks_close_firsts source (length source) w
   }"

definition sc_packet_source_sinks_push ::
    "'w sc_packet_source \<Rightarrow> av_packet \<Rightarrow> 'w \<Rightarrow> (bool \<times> 'w) option" where
  "sc_packet_source_sinks_push source packet w = do {
     c_assert (source \<noteq> []);
     sinks_push_all source packet w
   }"

definition sc_packet_source_sinks_push_session ::
    "'w sc_packet_source \<Rightarrow> sc_stream_session \<Rightarrow> 'w \<Rightarrow> (bool \<times> 'w) option" where
  "sc_packet_source_sinks_push_session source session w = do {
     c_assert (source \<noteq> []);
     sinks_push_session_all source session w
   }"

definition sc_packet_source_sinks_disable :: "'w sc_packet_source \<Rightarrow> 'w \<Rightarrow> 'w option" where
  "sc_packet_source_sinks_disable source w = do {
     c_assert (source \<noteq> []);
     sinks_disable_all source w
   }"

section \<open>Frame sources\<close>

definition SC_FRAME_SOURCE_MAX_SINKS :: nat where
  "SC_FRAME_SOURCE_MAX_SINKS = 2"

type_synonym ('f, 'w) sc_frame_sink = "(codec_context, 'f, 'w) media_sink"
type_synonym ('f, 'w) sc_frame_source = "('f, 'w) sc_frame_sink list"

definition sc_frame_source_init :: "('f, 'w) sc_frame_source" where
  "sc_frame_source_init = []"

definition sc_frame_source_add_sink ::
    "('f, 'w) sc_frame_source \<Rightarrow> ('f, 'w) sc_frame_sink \<Rightarrow> ('f, 'w) sc_frame_source option" where
  "sc_frame_source_add_sink source sink = do {
     c_assert (length source < SC_FRAME_SOURCE_MAX_SINKS);
     Some (source @ [sink])
   }"

definition sc_frame_source_sinks_open ::
    "('f, 'w) sc_frame_source \<Rightarrow> codec_context \<Rightarrow> sc_stream_session option \<Rightarrow> 'w \<Rightarrow> (bool \<times> 'w) option" where
  "sc_frame_source_sinks_open source ctx session w = do {
     c_assert (source \<noteq> []);
     sinks_open_from source 0 ctx session w
   }"

definition sc_frame_source_sinks_close :: "('f, 'w) sc_frame_source \<Rightarrow> 'w \<Rightarrow> 'w option" where
  "sc_frame_source_sinks_close source w = do {
     c_assert (source \<noteq> []);
     sinks_close_firsts source (length source) w
   }"

definition sc_frame_source_sinks_push ::
    "('f, 'w) sc_frame_source \<Rightarrow> 'f \<Rightarrow> 'w \<Rightarrow> (bool \<times> 'w) option" where
  "sc_frame_source_sinks_push source frame w = do {
     c_assert (source \<noteq> []);
     sinks_push_all source frame w
   }"

definition sc_frame_source_sinks_push_session ::
    "('f, 'w) sc_frame_source \<Rightarrow> sc_stream_session \<Rightarrow> 'w \<Rightarrow> (bool \<times> 'w) option" where
  "sc_frame_source_sinks_push_session source session w = do {
     c_assert (source \<noteq> []);
     sinks_push_session_all source session w
   }"

section \<open>The life of a sink\<close>

text \<open>
  What a sink may be asked, in which order: it is opened at most once, fed only while it is open and not
  after a refusal, closed exactly if it was opened, and never disabled after that.
\<close>

datatype 'p sink_call = Sink_open bool | Sink_push 'p bool | Sink_session sc_stream_session bool
  | Sink_close | Sink_disable

datatype sink_phase = Sink_new | Sink_fed | Sink_refused | Sink_ended

fun sink_next :: "sink_phase \<Rightarrow> 'p sink_call \<Rightarrow> sink_phase option" where
  "sink_next Sink_new (Sink_open ok) = Some (if ok then Sink_fed else Sink_ended)"
| "sink_next Sink_new Sink_disable = Some Sink_ended"
| "sink_next Sink_fed (Sink_push p ok) = Some (if ok then Sink_fed else Sink_refused)"
| "sink_next Sink_fed (Sink_session s ok) = Some (if ok then Sink_fed else Sink_refused)"
| "sink_next Sink_fed Sink_close = Some Sink_ended"
| "sink_next Sink_refused Sink_close = Some Sink_ended"
| "sink_next _ _ = None"

fun sink_run :: "sink_phase \<Rightarrow> 'p sink_call list \<Rightarrow> sink_phase option" where
  "sink_run ph [] = Some ph"
| "sink_run ph (c # cs) = do {
     ph \<leftarrow> sink_next ph c;
     sink_run ph cs
   }"

text \<open>The sink \<open>i\<close>, with every call to it and its answer appended to a log.\<close>

definition watched ::
    "nat \<Rightarrow> ('c, 'p, 'w) disableable_sink \<Rightarrow>
      ('c, 'p, 'w \<times> (nat \<times> 'p sink_call) list) disableable_sink" where
  "watched i sink =
     \<lparr>ms_open = (\<lambda>ctx session (w, cs). do {
        (ok, w) \<leftarrow> ms_open sink ctx session w;
        Some (ok, w, cs @ [(i, Sink_open ok)]) }),
      ms_close = (\<lambda>(w, cs). do {
        w \<leftarrow> ms_close sink w;
        Some (w, cs @ [(i, Sink_close)]) }),
      ms_push = (\<lambda>p (w, cs). do {
        (ok, w) \<leftarrow> ms_push sink p w;
        Some (ok, w, cs @ [(i, Sink_push p ok)]) }),
      ms_push_session = map_option (\<lambda>push session (w, cs). do {
        (ok, w) \<leftarrow> push session w;
        Some (ok, w, cs @ [(i, Sink_session session ok)]) }) (ms_push_session sink),
      ms_disable = map_option (\<lambda>disable (w, cs). do {
        w \<leftarrow> disable w;
        Some (w, cs @ [(i, Sink_disable)]) }) (ms_disable sink)\<rparr>"

definition calls_of :: "nat \<Rightarrow> (nat \<times> 'p sink_call) list \<Rightarrow> 'p sink_call list" where
  "calls_of i cs = map snd (filter (\<lambda>c. fst c = i) cs)"

lemma calls_of_simps [simp]:
  "calls_of i [] = []"
  "calls_of i (cs @ cs') = calls_of i cs @ calls_of i cs'"
  "calls_of i ((j, c) # cs) = (if j = i then [c] else []) @ calls_of i cs"
  by (simp_all add: calls_of_def)

lemma sink_run_append [simp]:
  "sink_run ph (cs @ cs') = Option.bind (sink_run ph cs) (\<lambda>ph. sink_run ph cs')"
  by (induction cs arbitrary: ph) simp_all

text \<open>A source all of whose sinks are watched; \<open>i\<close> is the index of its first sink.\<close>

fun watch_from ::
    "nat \<Rightarrow> ('c, 'p, 'w) disableable_sink list \<Rightarrow>
      ('c, 'p, 'w \<times> (nat \<times> 'p sink_call) list) disableable_sink list" where
  "watch_from i [] = []"
| "watch_from i (sink # sinks) = watched i sink # watch_from (Suc i) sinks"

lemma length_watch_from [simp]: "length (watch_from i sinks) = length sinks"
  by (induction sinks arbitrary: i) simp_all

lemma watch_from_Nil_iff [simp]: "watch_from i sinks = [] \<longleftrightarrow> sinks = []"
  by (cases sinks) simp_all

lemma nth_watch_from: "j < length sinks \<Longrightarrow> watch_from i sinks ! j = watched (i + j) (sinks ! j)"
  by (induction sinks arbitrary: i j) (auto simp: nth_Cons split: nat.splits)

lemma take_watch_from: "take n (watch_from i sinks) = watch_from i (take n sinks)"
  by (induction sinks arbitrary: i n) (auto simp: take_Cons split: nat.splits)

subsection \<open>What a call of a source adds to the log of each of its sinks\<close>

definition indices :: "nat \<Rightarrow> 'a list \<Rightarrow> nat set" where
  "indices k xs = {k..<k + length xs}"

lemma indices_simps [simp]:
  "indices k [] = {}"
  "indices k (x # xs) = insert k (indices (Suc k) xs)"
  "k \<notin> indices (Suc k) xs"
  by (auto simp: indices_def)

lemma nth_indices [simp]:
  "i \<in> indices (Suc k) sinks \<Longrightarrow> (sink # sinks) ! (i - k) = sinks ! (i - Suc k)"
  by (simp add: indices_def Suc_diff_le [symmetric] nth_Cons')

lemma close_log:
  "close_sinks (watch_from k sinks) (w, cs) = Some (w', cs') \<Longrightarrow>
    calls_of i cs' = calls_of i cs @ (if i \<in> indices k sinks then [Sink_close] else [])"
proof (induction sinks arbitrary: k w' cs')
  case (Cons sink sinks)
  from Cons.prems obtain w1 cs1 w2 where
    1: "close_sinks (watch_from (Suc k) sinks) (w, cs) = Some (w1, cs1)"
      "cs' = cs1 @ [(k, Sink_close)]"
    by (auto simp: watched_def split: bind_splits)
  from Cons.IH [OF 1(1)] 1(2) show ?case by auto
qed simp

lemma push_log:
  "sinks_push_all (watch_from k sinks) p (w, cs) = Some (ok, w', cs') \<Longrightarrow>
    \<exists>new. calls_of i cs' = calls_of i cs @ new \<and>
      (if i \<notin> indices k sinks then new = []
       else if ok then new = [Sink_push p True]
       else new \<in> {[], [Sink_push p True], [Sink_push p False]})"
proof (induction sinks arbitrary: k w cs)
  case (Cons sink sinks)
  from Cons.prems obtain ok1 w1 where
    1: "ms_push sink p w = Some (ok1, w1)"
    by (auto simp: watched_def split: bind_splits)
  let ?cs = "cs @ [(k, Sink_push p ok1)]"
  show ?case
  proof (cases ok1)
    case False
    with Cons.prems 1 show ?thesis by (auto simp: watched_def)
  next
    case True
    with Cons.prems 1 have "sinks_push_all (watch_from (Suc k) sinks) p (w1, ?cs) = Some (ok, w', cs')"
      by (simp add: watched_def)
    from Cons.IH [OF this] True show ?thesis by (auto split: if_splits)
  qed
qed simp

lemma session_log:
  "sinks_push_session_all (watch_from k sinks) s (w, cs) = Some (ok, w', cs') \<Longrightarrow>
    \<exists>new. calls_of i cs' = calls_of i cs @ new \<and>
      (if i \<notin> indices k sinks \<or> ms_push_session (sinks ! (i - k)) = None then new = []
       else if ok then new = [Sink_session s True]
       else new \<in> {[], [Sink_session s True], [Sink_session s False]})"
proof (induction sinks arbitrary: k w cs)
  case (Cons sink sinks)
  show ?case
  proof (cases "ms_push_session sink")
    case None
    with Cons.prems have "sinks_push_session_all (watch_from (Suc k) sinks) s (w, cs) = Some (ok, w', cs')"
      by (simp add: watched_def)
    from Cons.IH [OF this] None show ?thesis by (cases "i = k") (auto split: if_splits)
  next
    case (Some push)
    with Cons.prems obtain ok1 w1 where 1: "push s w = Some (ok1, w1)"
      by (auto simp: watched_def split: bind_splits)
    let ?cs = "cs @ [(k, Sink_session s ok1)]"
    show ?thesis
    proof (cases ok1)
      case False
      with Cons.prems Some 1 show ?thesis by (auto simp: watched_def)
    next
      case True
      with Cons.prems Some 1
      have "sinks_push_session_all (watch_from (Suc k) sinks) s (w1, ?cs) = Some (ok, w', cs')"
        by (simp add: watched_def)
      from Cons.IH [OF this] True Some show ?thesis by (cases "i = k") (auto split: if_splits)
    qed
  qed
qed simp

lemma disable_log:
  "sinks_disable_all (watch_from k sinks) (w, cs) = Some (w', cs') \<Longrightarrow>
    calls_of i cs' = calls_of i cs @
      (if i \<in> indices k sinks \<and> ms_disable (sinks ! (i - k)) \<noteq> None then [Sink_disable] else [])"
proof (induction sinks arbitrary: k w cs)
  case (Cons sink sinks)
  show ?case
  proof (cases "ms_disable sink")
    case None
    with Cons.prems have "sinks_disable_all (watch_from (Suc k) sinks) (w, cs) = Some (w', cs')"
      by (simp add: watched_def)
    from Cons.IH [OF this] None show ?thesis by (cases "i = k") auto
  next
    case (Some disable)
    with Cons.prems obtain w1 where
      "sinks_disable_all (watch_from (Suc k) sinks) (w1, cs @ [(k, Sink_disable)]) = Some (w', cs')"
      by (auto simp: watched_def split: bind_splits)
    from Cons.IH [OF this] Some show ?thesis by (cases "i = k") auto
  qed
qed simp

text \<open>When opening fails at the sink \<open>m\<close>, those before it are closed again.\<close>

lemma open_log:
  "sinks_open_from (watch_from 0 sinks) j ctx s (w, cs) = Some (ok, w', cs') \<Longrightarrow> j \<le> length sinks \<Longrightarrow>
    if ok then \<forall>i. calls_of i cs' =
      calls_of i cs @ (if j \<le> i \<and> i < length sinks then [Sink_open True] else [])
    else \<exists>m. j \<le> m \<and> m < length sinks \<and> (\<forall>i. calls_of i cs' = calls_of i cs @
      (if i < j then [Sink_close] else if i < m then [Sink_open True, Sink_close]
       else if i = m then [Sink_open False] else []))"
proof (induction "length sinks - j" arbitrary: j w cs)
  case 0
  then show ?case by (auto simp: sinks_open_from.simps [of _ j])
next
  case (Suc n)
  then have j: "j < length sinks" by simp
  with Suc.prems(1) obtain ok1 w1 where 1: "ms_open (sinks ! j) ctx s w = Some (ok1, w1)"
    by (auto simp: sinks_open_from.simps [of _ j] nth_watch_from watched_def split: bind_splits)
  let ?cs = "cs @ [(j, Sink_open ok1)]"
  show ?case
  proof (cases ok1)
    case True
    with Suc.prems(1) j 1 have *: "sinks_open_from (watch_from 0 sinks) (Suc j) ctx s (w1, ?cs) =
        Some (ok, w', cs')"
      by (simp add: sinks_open_from.simps [of _ j] nth_watch_from watched_def)
    have IH: "if ok then \<forall>i. calls_of i cs' =
        calls_of i ?cs @ (if Suc j \<le> i \<and> i < length sinks then [Sink_open True] else [])
      else \<exists>m. Suc j \<le> m \<and> m < length sinks \<and> (\<forall>i. calls_of i cs' = calls_of i ?cs @
        (if i < Suc j then [Sink_close] else if i < m then [Sink_open True, Sink_close]
         else if i = m then [Sink_open False] else []))"
      by (rule Suc.hyps(1) [OF _ *]) (use Suc.hyps(2) j in auto)
    show ?thesis
    proof (cases ok)
      case ok: True
      with IH True j show ?thesis by auto
    next
      case False
      with IH obtain m where m: "Suc j \<le> m" "m < length sinks"
        "\<forall>i. calls_of i cs' = calls_of i ?cs @
        (if i < Suc j then [Sink_close] else if i < m then [Sink_open True, Sink_close]
         else if i = m then [Sink_open False] else [])" by auto
      have "\<forall>i. calls_of i cs' = calls_of i cs @
        (if i < j then [Sink_close] else if i < m then [Sink_open True, Sink_close]
         else if i = m then [Sink_open False] else [])"
        using m True by auto
      with False m(1,2) show ?thesis by (auto intro!: exI [of _ m])
    qed
  next
    case False
    with Suc.prems(1) j 1 have ok: "\<not> ok"
      and c: "close_sinks (watch_from 0 (take j sinks)) (w1, ?cs) = Some (w', cs')"
      by (auto simp: sinks_open_from.simps [of _ j] nth_watch_from watched_def sinks_close_firsts_def
          take_watch_from split: bind_splits)
    have "\<forall>i. calls_of i cs' = calls_of i cs @
        (if i < j then [Sink_close] else if i < j then [Sink_open True, Sink_close]
         else if i = j then [Sink_open False] else [])"
      using close_log [OF c] False j by (auto simp: indices_def)
    with ok j show ?thesis by auto
  qed
qed

section \<open>The contract of a sink\<close>

text \<open>
  The context a source opens its sinks with, for streams of the given types: a video has a session and
  the format \<open>YUV420P\<close>, an audio stream some channels and a sample rate.
\<close>

definition ctx_ok :: "av_media_type set \<Rightarrow> codec_context \<Rightarrow> sc_stream_session option \<Rightarrow> bool" where
  "ctx_ok types ctx session \<longleftrightarrow> cc_codec_type ctx \<in> types \<and>
     (cc_codec_type ctx = AVMEDIA_TYPE_VIDEO \<longrightarrow> session \<noteq> None \<and> cc_format ctx = AV_PIX_FMT_YUV420P) \<and>
     (cc_codec_type ctx = AVMEDIA_TYPE_AUDIO \<longrightarrow> 0 < cc_channels ctx \<and> cc_channels ctx < 256 \<and>
       0 < cc_sample_rate ctx \<and> cc_sample_rate ctx \<le> 48000)"

text \<open>
  What the sink number \<open>i\<close> of a source promises: used in the order of its life, it does not abort and keeps
  the invariant of the world, which may depend on the sinks that have not been used yet, \<open>N\<close>, and on
  those that are open, \<open>A\<close>. A sink is opened at most once.
\<close>

locale media_sink_ok =
  fixes types :: "av_media_type set"
    and payload_ok :: "'p \<Rightarrow> bool"
    and I :: "nat set \<Rightarrow> nat set \<Rightarrow> 'w \<Rightarrow> bool"
    and i :: nat
    and sink :: "(codec_context, 'p, 'w, 'z) media_sink_scheme"
  assumes open_ok: "I N A w \<Longrightarrow> i \<in> N \<Longrightarrow> i \<notin> A \<Longrightarrow> ctx_ok types ctx session \<Longrightarrow>
      \<exists>ok w'. ms_open sink ctx session w = Some (ok, w') \<and> I (N - {i}) (if ok then insert i A else A) w'"
    and close_ok: "I N A w \<Longrightarrow> i \<in> A \<Longrightarrow> \<exists>w'. ms_close sink w = Some w' \<and> I N (A - {i}) w'"
    and push_ok: "I N A w \<Longrightarrow> i \<in> A \<Longrightarrow> payload_ok p \<Longrightarrow>
      \<exists>ok w'. ms_push sink p w = Some (ok, w') \<and> I N A w'"
    and session_ok: "I N A w \<Longrightarrow> i \<in> A \<Longrightarrow> ms_push_session sink = Some push \<Longrightarrow>
      \<exists>ok w'. push s w = Some (ok, w') \<and> I N A w'"

locale packet_sink_ok =
  media_sink_ok types payload_ok I i sink
  for types :: "av_media_type set" and payload_ok :: "'p \<Rightarrow> bool" and I :: "nat set \<Rightarrow> nat set \<Rightarrow> 'w \<Rightarrow> bool" and i :: nat
    and sink :: "(codec_context, 'p, 'w, 'z) disableable_sink_scheme" +
  assumes disable_ok: "I N A w \<Longrightarrow> i \<in> N \<Longrightarrow> i \<notin> A \<Longrightarrow> ms_disable sink = Some disable \<Longrightarrow>
    \<exists>w'. disable w = Some w' \<and> I (N - {i}) A w'"

fun sinks_ok ::
    "av_media_type set \<Rightarrow> ('p \<Rightarrow> bool) \<Rightarrow> (nat set \<Rightarrow> nat set \<Rightarrow> 'w \<Rightarrow> bool) \<Rightarrow> nat \<Rightarrow> (codec_context, 'p, 'w, 'z) media_sink_scheme list \<Rightarrow> bool" where
  "sinks_ok types payload_ok I k [] \<longleftrightarrow> True"
| "sinks_ok types payload_ok I k (sink # sinks) \<longleftrightarrow>
     media_sink_ok types payload_ok I k sink \<and> sinks_ok types payload_ok I (Suc k) sinks"

fun packet_sinks_ok ::
    "av_media_type set \<Rightarrow> ('p \<Rightarrow> bool) \<Rightarrow> (nat set \<Rightarrow> nat set \<Rightarrow> 'w \<Rightarrow> bool) \<Rightarrow> nat \<Rightarrow> (codec_context, 'p, 'w, 'z) disableable_sink_scheme list \<Rightarrow> bool" where
  "packet_sinks_ok types payload_ok I k [] \<longleftrightarrow> True"
| "packet_sinks_ok types payload_ok I k (sink # sinks) \<longleftrightarrow>
     packet_sink_ok types payload_ok I k sink \<and> packet_sinks_ok types payload_ok I (Suc k) sinks"

lemma sinks_ok_nth:
  "sinks_ok types payload_ok I k sinks \<Longrightarrow> j < length sinks \<Longrightarrow> media_sink_ok types payload_ok I (k + j) (sinks ! j)"
  by (induction sinks arbitrary: k j) (auto simp: nth_Cons split: nat.splits, fastforce)

lemma sinks_ok_take: "sinks_ok types payload_ok I k sinks \<Longrightarrow> sinks_ok types payload_ok I k (take n sinks)"
  by (induction sinks arbitrary: k n) (auto simp: take_Cons split: nat.splits)

lemma packet_sinks_ok_sinks_ok: "packet_sinks_ok types payload_ok I k sinks \<Longrightarrow> sinks_ok types payload_ok I k sinks"
  by (induction sinks arbitrary: k) (auto dest: packet_sink_ok.axioms(1))

subsection \<open>A source of such sinks\<close>

lemma close_sinks_ok:
  "sinks_ok types payload_ok I k sinks \<Longrightarrow> I N {..<k + length sinks} w \<Longrightarrow>
    \<exists>w'. close_sinks sinks w = Some w' \<and> I N {..<k} w'"
proof (induction sinks arbitrary: k)
  case (Cons sink sinks)
  from Cons.IH [of "Suc k"] Cons.prems obtain w1 where
    w1: "close_sinks sinks w = Some w1" "I N {..<Suc k} w1" by auto
  have "{..<Suc k} - {k} = {..<k}" by auto
  moreover from Cons.prems(1) have "media_sink_ok types payload_ok I k sink" by simp
  from media_sink_ok.close_ok [OF this, where A = "{..<Suc k}" and w = w1] w1(2)
  have "\<exists>w'. ms_close sink w1 = Some w' \<and> I N ({..<Suc k} - {k}) w'" by simp
  ultimately show ?case using w1(1) by simp
qed auto

lemma close_firsts_ok:
  assumes "sinks_ok types payload_ok I 0 source" "n \<le> length source" "I N {..<n} w"
  shows "\<exists>w'. sinks_close_firsts source n w = Some w' \<and> I N {} w'"
proof -
  have "sinks_ok types payload_ok I 0 (take n source)" using assms(1) by (rule sinks_ok_take)
  from close_sinks_ok [OF this, of N w] assms(2,3) show ?thesis
    by (simp add: sinks_close_firsts_def min_absorb2)
qed

lemma push_all_ok:
  "sinks_ok types payload_ok I k sinks \<Longrightarrow> {k..<k + length sinks} \<subseteq> A \<Longrightarrow> I N A w \<Longrightarrow> payload_ok p \<Longrightarrow>
    \<exists>ok w'. sinks_push_all sinks p w = Some (ok, w') \<and> I N A w'"
proof (induction sinks arbitrary: k w)
  case (Cons sink sinks)
  from Cons.prems have "media_sink_ok types payload_ok I k sink" "k \<in> A" by auto
  from media_sink_ok.push_ok [OF this(1) Cons.prems(3) this(2) Cons.prems(4)] obtain ok w1 where
    1: "ms_push sink p w = Some (ok, w1)" "I N A w1" by blast
  have "{Suc k..<Suc k + length sinks} \<subseteq> A" using Cons.prems(2) by auto
  with Cons.IH [OF _ _ 1(2) Cons.prems(4), of "Suc k"] Cons.prems(1) 1 show ?case by (cases ok) auto
qed auto

lemma push_session_all_ok:
  "sinks_ok types payload_ok I k sinks \<Longrightarrow> {k..<k + length sinks} \<subseteq> A \<Longrightarrow> I N A w \<Longrightarrow>
    \<exists>ok w'. sinks_push_session_all sinks session w = Some (ok, w') \<and> I N A w'"
proof (induction sinks arbitrary: k w)
  case (Cons sink sinks)
  from Cons.prems have m: "media_sink_ok types payload_ok I k sink" "k \<in> A" by auto
  have A: "{Suc k..<Suc k + length sinks} \<subseteq> A" using Cons.prems(2) by auto
  show ?case
  proof (cases "ms_push_session sink")
    case None
    with Cons.IH [OF _ A Cons.prems(3)] Cons.prems(1) show ?thesis by simp
  next
    case (Some push)
    from media_sink_ok.session_ok [OF m(1) Cons.prems(3) m(2) Some] obtain ok w1 where
      1: "push session w = Some (ok, w1)" "I N A w1" by blast
    with Cons.IH [OF _ A 1(2)] Cons.prems(1) Some show ?thesis by (cases ok) auto
  qed
qed auto

lemma disable_all_ok:
  "packet_sinks_ok types payload_ok I k sinks \<Longrightarrow> {k..<k + length sinks} \<subseteq> N \<Longrightarrow> I N {} w \<Longrightarrow>
    \<exists>N w'. sinks_disable_all sinks w = Some w' \<and> I N {} w'"
proof (induction sinks arbitrary: k N w)
  case (Cons sink sinks)
  from Cons.prems(1,2) have p: "packet_sink_ok types payload_ok I k sink"
    "packet_sinks_ok types payload_ok I (Suc k) sinks" "k \<in> N" by auto
  show ?case
  proof (cases "ms_disable sink")
    case None
    have "{Suc k..<Suc k + length sinks} \<subseteq> N" using Cons.prems(2) by auto
    from Cons.IH [OF p(2) this Cons.prems(3)] None show ?thesis by simp
  next
    case (Some disable)
    from packet_sink_ok.disable_ok [OF p(1) Cons.prems(3) p(3) _ Some] obtain w1 where
      1: "disable w = Some w1" "I (N - {k}) {} w1" by auto
    have "{Suc k..<Suc k + length sinks} \<subseteq> N - {k}" using Cons.prems(2) by auto
    from Cons.IH [OF p(2) this 1(2)] Some 1(1) show ?thesis by simp
  qed
qed auto

lemma open_from_ok:
  "sinks_ok types payload_ok I 0 source \<Longrightarrow> ctx_ok types ctx session \<Longrightarrow> j \<le> length source \<Longrightarrow>
    I {j..<length source} {..<j} w \<Longrightarrow>
    \<exists>N ok w'. sinks_open_from source j ctx session w = Some (ok, w') \<and>
      I N (if ok then {..<length source} else {}) w'"
proof (induction "length source - j" arbitrary: j w)
  case 0
  then have "j = length source" by simp
  with 0 show ?case
    by (intro exI [of _ "{}"] exI [of _ True]) (simp add: sinks_open_from.simps [of _ "length source"])
next
  case (Suc n)
  then have j: "j < length source" by simp
  with Suc.prems(1) have m: "media_sink_ok types payload_ok I j (source ! j)"
    using sinks_ok_nth by fastforce
  have N: "{j..<length source} - {j} = {Suc j..<length source}" by auto
  from media_sink_ok.open_ok [OF m Suc.prems(4) _ _ Suc.prems(2)] j obtain ok w1 where
    1: "ms_open (source ! j) ctx session w = Some (ok, w1)"
      "I {Suc j..<length source} (if ok then {..<Suc j} else {..<j}) w1"
    unfolding N lessThan_Suc by auto
  show ?case
  proof (cases ok)
    case True
    with Suc.hyps(1) [OF _ Suc.prems(1,2), of "Suc j" w1] Suc.hyps(2) j 1 show ?thesis
      by (simp add: sinks_open_from.simps [of _ j])
  next
    case False
    with 1(2) have "I {Suc j..<length source} {..<j} w1" by simp
    from close_firsts_ok [OF Suc.prems(1) _ this] j obtain w' where
      "sinks_close_firsts source j w1 = Some w'" "I {Suc j..<length source} {} w'" by auto
    with False 1(1) j show ?thesis
      by (intro exI [of _ "{Suc j..<length source}"] exI [of _ False])
        (simp add: sinks_open_from.simps [of _ j])
  qed
qed

subsection \<open>Watching keeps the contract\<close>

lemma watched_ok:
  assumes "packet_sink_ok types payload_ok I i sink"
  shows "packet_sink_ok types payload_ok (\<lambda>N A w. I N A (fst w)) i (watched j sink)"
proof -
  note media = packet_sink_ok.axioms(1) [OF assms]
  show ?thesis
  proof
    fix N A and w :: "'b \<times> (nat \<times> 'a sink_call) list" and ctx session
    assume "I N A (fst w)" "i \<in> N" "i \<notin> A" "ctx_ok types ctx session"
    from media_sink_ok.open_ok [OF media this] obtain ok w' where
      "ms_open sink ctx session (fst w) = Some (ok, w')" "I (N - {i}) (if ok then insert i A else A) w'" by blast
    then show "\<exists>ok w'. ms_open (watched j sink) ctx session w = Some (ok, w') \<and>
      I (N - {i}) (if ok then insert i A else A) (fst w')"
      by (cases w) (auto simp: watched_def intro!: exI [of _ ok])
  next
    fix N A and w :: "'b \<times> (nat \<times> 'a sink_call) list"
    assume "I N A (fst w)" "i \<in> A"
    from media_sink_ok.close_ok [OF media this] show "\<exists>w'. ms_close (watched j sink) w = Some w' \<and> I N (A - {i}) (fst w')"
      by (cases w) (auto simp: watched_def)
  next
    fix N A and w :: "'b \<times> (nat \<times> 'a sink_call) list" and p
    assume "I N A (fst w)" "i \<in> A" "payload_ok p"
    from media_sink_ok.push_ok [OF media this] show "\<exists>ok w'. ms_push (watched j sink) p w = Some (ok, w') \<and> I N A (fst w')"
      by (cases w) (auto simp: watched_def)
  next
    fix N A and w :: "'b \<times> (nat \<times> 'a sink_call) list" and push session
    assume a: "I N A (fst w)" "i \<in> A" and "ms_push_session (watched j sink) = Some push"
    then obtain push0 where p: "ms_push_session sink = Some push0" "push = (\<lambda>session (w, cs). do {
        (ok, w) \<leftarrow> push0 session w;
        Some (ok, w, cs @ [(j, Sink_session session ok)]) })" by (auto simp: watched_def)
    from media_sink_ok.session_ok [OF media a p(1), of session] p(2) show "\<exists>ok w'. push session w = Some (ok, w') \<and> I N A (fst w')"
      by (cases w) auto
  next
    fix N A and w :: "'b \<times> (nat \<times> 'a sink_call) list" and disable
    assume a: "I N A (fst w)" "i \<in> N" "i \<notin> A" and "ms_disable (watched j sink) = Some disable"
    then obtain disable0 where p: "ms_disable sink = Some disable0" "disable = (\<lambda>(w, cs). do {
        w \<leftarrow> disable0 w;
        Some (w, cs @ [(j, Sink_disable)]) })" by (auto simp: watched_def)
    from packet_sink_ok.disable_ok [OF assms a p(1)] p(2) show "\<exists>w'. disable w = Some w' \<and> I (N - {i}) A (fst w')"
      by (cases w) auto
  qed
qed

lemma watch_from_ok:
  "packet_sinks_ok types payload_ok I k sinks \<Longrightarrow>
    packet_sinks_ok types payload_ok (\<lambda>N A w. I N A (fst w)) k (watch_from i sinks)"
  by (induction sinks arbitrary: k i) (auto simp: watched_ok)

end
