(* ===== verification/Sc_Screen.thy ===== *)
theory Sc_Screen
  imports Sc_Geometry Sc_Media
begin

text \<open>
  \<open>screen.c\<close>, \<open>frame_buffer.c\<close>: the state of the screen and the operations on it.

  What the screen does to the window, the renderer and the other components is the list of its
  effects, in order. The window system answers queries by a function of the effects so far
  (\<open>screen_env\<close>): nothing is assumed about how or when it obeys. A frame is its size and its content.
  Times are microseconds.
\<close>

section \<open>The frame buffer\<close>

record sc_frame_buffer =
  fb_pending_frame :: "av_frame option"
  fb_tmp_frame :: "av_frame option"
  fb_pending_frame_consumed :: bool

definition sc_frame_buffer_init :: sc_frame_buffer where
  "sc_frame_buffer_init =
     \<lparr>fb_pending_frame = None, fb_tmp_frame = None, fb_pending_frame_consumed = True\<rparr>"

definition sc_frame_buffer_has_frame :: "sc_frame_buffer \<Rightarrow> bool" where
  "sc_frame_buffer_has_frame fb \<longleftrightarrow> \<not> fb_pending_frame_consumed fb"

text \<open>\<open>ref_ok\<close> is whether \<open>av_frame_ref\<close> succeeds.\<close>

definition sc_frame_buffer_push ::
    "bool \<Rightarrow> sc_frame_buffer \<Rightarrow> av_frame \<Rightarrow> sc_frame_buffer \<times> bool" where
  "sc_frame_buffer_push ref_ok fb frame =
     (if \<not> ref_ok then (fb, False)
      else
        (let fb = fb\<lparr>fb_tmp_frame := Some frame\<rparr>;
             fb = fb\<lparr>fb_pending_frame := fb_tmp_frame fb, fb_tmp_frame := fb_pending_frame fb\<rparr>;
             fb = fb\<lparr>fb_tmp_frame := None\<rparr>
         in (fb\<lparr>fb_pending_frame_consumed := False\<rparr>, True)))"

definition sc_frame_buffer_consume :: "sc_frame_buffer \<Rightarrow> (av_frame option \<times> sc_frame_buffer) option" where
  "sc_frame_buffer_consume fb = do {
     c_assert (\<not> fb_pending_frame_consumed fb);
     Some (fb_pending_frame fb, fb\<lparr>fb_pending_frame_consumed := True, fb_pending_frame := None\<rparr>)
   }"

section \<open>The screen\<close>

datatype sc_event = SC_EVENT_OPEN_WINDOW | SC_EVENT_NEW_FRAME | SDL_EVENT_QUIT

datatype screen_effect =
    Set_aspect_ratio sc_size
  | Set_window_size sc_size
  | Set_window_position int int
  | Show_window
  | Hide_window
  | Set_fullscreen bool
  | Render "(sdl_frect \<times> int \<times> bool) option"
  | Set_texture "av_frame option"
  | Set_icon int int
  | Controller_resize u16 u16
  | Push_event sc_event
  | Fps_start
  | Fps_stop
  | Fps_rendered
  | Fps_skipped
  | Set_capture bool
  | Disconnect_start int
  | Input_disconnected

record screen_env =
  env_window_size :: "screen_effect list \<Rightarrow> sc_size"
  env_window_position :: "screen_effect list \<Rightarrow> int \<times> int"
  env_is_windowed :: "screen_effect list \<Rightarrow> bool"
  env_is_fullscreen :: "screen_effect list \<Rightarrow> bool"
  env_windowpos_centered :: int
  env_display :: "screen_effect list \<Rightarrow> (int \<times> int) option"
  env_pixel_density :: "screen_effect list \<Rightarrow> rat"
  env_now :: "screen_effect list \<Rightarrow> int"
  env_ok :: "screen_effect list \<Rightarrow> bool"

text \<open>\<open>env_ok\<close> decides the calls that may fail.\<close>

record sc_screen =
  scr_video :: bool
  scr_camera :: bool
  scr_window_aspect_ratio_lock :: bool
  scr_flex_display :: bool
  scr_fb :: sc_frame_buffer
  scr_prevent_auto_resize :: bool
  scr_req_x :: "int option"
  scr_req_y :: "int option"
  scr_req_width :: u16
  scr_req_height :: u16
  scr_req_fullscreen :: bool
  scr_req_start_fps_counter :: bool
  scr_render_fit :: sc_render_fit
  scr_frame_size :: sc_size
  scr_content_size :: sc_size
  scr_resize_pending :: bool
  scr_windowed_content_size :: sc_size
  scr_orientation :: sc_orientation
  scr_rect :: sdl_frect
  scr_window_shown :: bool
  scr_current_session :: sc_stream_session
  scr_frame :: "av_frame option"
  scr_paused :: bool
  scr_resume_frame :: "av_frame option"
  scr_disconnected :: bool
  scr_disconnect_started :: bool
  scr_tracker_time :: int
  scr_tracker_size :: sc_size
  scr_texture :: bool
  scr_fps_started :: bool
  scr_effects :: "screen_effect list"

definition effect :: "screen_effect \<Rightarrow> sc_screen \<Rightarrow> sc_screen" where
  "effect e screen = screen\<lparr>scr_effects := scr_effects screen @ [e]\<rparr>"

definition set_aspect_ratio :: "sc_screen \<Rightarrow> sc_size \<Rightarrow> sc_screen option" where
  "set_aspect_ratio screen content_size = do {
     c_assert (width content_size \<noteq> 0 \<and> height content_size \<noteq> 0);
     Some (if scr_window_aspect_ratio_lock screen then effect (Set_aspect_ratio content_size) screen
           else screen)
   }"

definition is_windowed :: "screen_env \<Rightarrow> sc_screen \<Rightarrow> bool" where
  "is_windowed env screen = env_is_windowed env (scr_effects screen)"

definition get_window_size :: "screen_env \<Rightarrow> sc_screen \<Rightarrow> sc_size" where
  "get_window_size env screen = env_window_size env (scr_effects screen)"

definition screen_display :: "screen_env \<Rightarrow> sc_screen \<Rightarrow> (int \<times> int) option" where
  "screen_display env screen = env_display env (scr_effects screen)"

definition sc_screen_track_resize :: "screen_env \<Rightarrow> sc_screen \<Rightarrow> sc_size \<Rightarrow> sc_screen" where
  "sc_screen_track_resize env screen sz =
     screen\<lparr>scr_tracker_time := env_now env (scr_effects screen), scr_tracker_size := sz\<rparr>"

definition sc_screen_update_content_rect :: "screen_env \<Rightarrow> sc_screen \<Rightarrow> sc_screen option" where
  "sc_screen_update_content_rect env screen = do {
     let is_icon = \<not> scr_video screen \<or> scr_disconnected screen;
     let window_size = get_window_size env screen;
     rect \<leftarrow> compute_content_rect window_size (scr_content_size screen) is_icon (scr_render_fit screen);
     Some (screen\<lparr>scr_rect := rect\<rparr>)
   }"

text \<open>Where the texture goes: the rectangle in pixels, the clockwise angle and the flip.\<close>

definition render_geometry :: "rat \<Rightarrow> sdl_frect \<Rightarrow> sc_orientation \<Rightarrow> sdl_frect \<times> int \<times> bool" where
  "render_geometry scale rect orientation =
     (let geometry = \<lparr>fr_x = fr_x rect * scale, fr_y = fr_y rect * scale, fr_w = fr_w rect * scale,
            fr_h = fr_h rect * scale\<rparr>;
          align = (\<lambda>r. r\<lparr>fr_x := of_int (c_trunc (fr_x r)), fr_y := of_int (c_trunc (fr_y r))\<rparr>)
      in if orientation = SC_ORIENTATION_0 then (align geometry, 0, False)
         else
           (let cw_rotation = orientation_value (sc_orientation_get_rotation orientation);
                angle = 90 * uint cw_rotation;
                dstrect = (if sc_orientation_is_swap orientation
                  then \<lparr>fr_x = fr_x geometry + (fr_w geometry - fr_h geometry) / 2,
                    fr_y = fr_y geometry + (fr_h geometry - fr_w geometry) / 2,
                    fr_w = fr_h geometry, fr_h = fr_w geometry\<rparr>
                  else geometry)
            in (align dstrect, angle, sc_orientation_is_mirror orientation)))"

definition sc_screen_render :: "screen_env \<Rightarrow> sc_screen \<Rightarrow> bool \<Rightarrow> sc_screen option" where
  "sc_screen_render env screen update_content_rect = do {
     c_assert (scr_window_shown screen);
     screen \<leftarrow> (if update_content_rect then sc_screen_update_content_rect env screen else Some screen);
     let scale = env_pixel_density env (scr_effects screen);
     let scale = (if scale = 0 then 1 else scale);
     Some (effect (Render (if scr_texture screen
       then Some (render_geometry scale (scr_rect screen) (scr_orientation screen)) else None)) screen)
   }"

definition sc_screen_request_resize_display :: "sc_screen \<Rightarrow> u16 \<Rightarrow> u16 \<Rightarrow> sc_screen option" where
  "sc_screen_request_resize_display screen w h = do {
     c_assert (scr_flex_display screen);
     c_assert (\<not> scr_camera screen);
     let (w, h) = (if sc_orientation_is_swap (scr_orientation screen) then (h, w) else (w, h));
     c_assert (w \<noteq> 0 \<and> h \<noteq> 0);
     Some (effect (Controller_resize w h) screen)
   }"

definition sc_screen_on_pixel_size_changed :: "screen_env \<Rightarrow> sc_screen \<Rightarrow> sc_screen option" where
  "sc_screen_on_pixel_size_changed env screen =
     (if \<not> scr_window_shown screen then Some screen else sc_screen_render env screen True)"

definition sc_screen_on_resized :: "screen_env \<Rightarrow> sc_screen \<Rightarrow> int \<Rightarrow> int \<Rightarrow> sc_screen option" where
  "sc_screen_on_resized env screen data1 data2 =
     (if \<not> scr_window_shown screen then Some screen
      else if scr_flex_display screen then do {
        c_assert (0 \<le> data1 \<and> data1 \<le> 0xFFFF);
        c_assert (0 \<le> data2 \<and> data2 \<le> 0xFFFF);
        let w = word_of_int data1; let h = word_of_int data2;
        let screen = (if scr_tracker_time screen \<noteq> 0
            \<and> env_now env (scr_effects screen) \<ge> scr_tracker_time screen + 3000 * 1000
          then screen\<lparr>scr_tracker_time := 0\<rparr> else screen);
        if scr_tracker_time screen \<noteq> 0 \<and> width (scr_tracker_size screen) = w
            \<and> height (scr_tracker_size screen) = h
        then Some (screen\<lparr>scr_tracker_time := 0\<rparr>)
        else sc_screen_request_resize_display screen w h
      }
      else Some screen)"

section \<open>The frame sink\<close>

text \<open>\<open>ctx\<close> are the dimensions of the codec context.\<close>

definition sc_screen_frame_sink_open ::
    "screen_env \<Rightarrow> sc_screen \<Rightarrow> int \<times> int \<Rightarrow> sc_stream_session \<Rightarrow> bool \<times> sc_screen" where
  "sc_screen_frame_sink_open env screen ctx session =
     (if fst ctx \<le> 0 \<or> fst ctx > 0xFFFF \<or> snd ctx \<le> 0 \<or> snd ctx > 0xFFFF then (False, screen)
      else
        (let frame_size = \<lparr>width = ucast (ss_width session), height = ucast (ss_height session)\<rparr>;
             screen = screen\<lparr>scr_frame_size := frame_size,
               scr_content_size := get_oriented_size frame_size (scr_orientation screen),
               scr_current_session := session\<rparr>;
             ok = env_ok env (scr_effects screen)
         in (ok, if ok then effect (Push_event SC_EVENT_OPEN_WINDOW) screen else screen)))"

text \<open>\<open>ref_ok\<close> and \<open>event_ok\<close> decide the two calls that may fail.\<close>

definition sc_screen_frame_sink_push ::
    "bool \<Rightarrow> bool \<Rightarrow> sc_screen \<Rightarrow> av_frame \<Rightarrow> (bool \<times> sc_screen) option" where
  "sc_screen_frame_sink_push ref_ok event_ok screen frame = do {
     c_assert (scr_video screen);
     let previous_skipped = sc_frame_buffer_has_frame (scr_fb screen);
     let (fb, ok) = sc_frame_buffer_push ref_ok (scr_fb screen) frame;
     let screen = screen\<lparr>scr_fb := fb,
       scr_prevent_auto_resize := ss_client_resized (scr_current_session screen)\<rparr>;
     if \<not> ok then Some (False, screen)
     else if previous_skipped then Some (True, effect Fps_skipped screen)
     else Some (event_ok, if event_ok then effect (Push_event SC_EVENT_NEW_FRAME) screen else screen)
   }"

definition sc_screen_frame_sink_push_session :: "sc_screen \<Rightarrow> sc_stream_session \<Rightarrow> sc_screen" where
  "sc_screen_frame_sink_push_session screen session = screen\<lparr>scr_current_session := session\<rparr>"

section \<open>Sizes and frames\<close>

definition sc_screen_toggle_fullscreen :: "screen_env \<Rightarrow> sc_screen \<Rightarrow> sc_screen option" where
  "sc_screen_toggle_fullscreen env screen = do {
     c_assert (scr_video screen);
     let req_fullscreen = \<not> env_is_fullscreen env (scr_effects screen);
     Some (effect (Set_fullscreen req_fullscreen) screen)
   }"

definition sc_screen_show_initial_window :: "screen_env \<Rightarrow> sc_screen \<Rightarrow> sc_screen option" where
  "sc_screen_show_initial_window env screen = do {
     let x = (case scr_req_x screen of Some x \<Rightarrow> x | None \<Rightarrow> env_windowpos_centered env);
     let y = (case scr_req_y screen of Some y \<Rightarrow> y | None \<Rightarrow> env_windowpos_centered env);
     window_size \<leftarrow> get_initial_optimal_size (screen_display env screen) (scr_content_size screen)
       (scr_req_width screen) (scr_req_height screen);
     let screen = (if scr_flex_display screen \<and> window_size = scr_content_size screen
       then sc_screen_track_resize env screen window_size else screen);
     c_assert (is_windowed env screen);
     screen \<leftarrow> set_aspect_ratio screen (scr_content_size screen);
     let screen = effect (Set_window_position x y) (effect (Set_window_size window_size) screen);
     screen \<leftarrow> (if scr_req_fullscreen screen then sc_screen_toggle_fullscreen env screen
       else Some screen);
     let screen = (if scr_req_start_fps_counter screen
       then effect Fps_start (screen\<lparr>scr_fps_started := True\<rparr>) else screen);
     let screen = effect Show_window (screen\<lparr>scr_window_shown := True\<rparr>);
     sc_screen_update_content_rect env screen
   }"

definition sc_screen_hide_window :: "sc_screen \<Rightarrow> sc_screen" where
  "sc_screen_hide_window screen = (effect Hide_window screen)\<lparr>scr_window_shown := False\<rparr>"

definition resize_for_content :: "screen_env \<Rightarrow> sc_screen \<Rightarrow> sc_size \<Rightarrow> sc_size \<Rightarrow> sc_screen option" where
  "resize_for_content env screen old_content_size new_content_size = do {
     c_assert (scr_video screen);
     target_size \<leftarrow>
       (if \<not> scr_flex_display screen then do {
          let window_size = get_window_size env screen;
          w \<leftarrow> u32_mul_div (width window_size) (width new_content_size) (width old_content_size);
          h \<leftarrow> u32_mul_div (height window_size) (height new_content_size) (height old_content_size);
          Some \<lparr>width = ucast w, height = ucast h\<rparr>
        }
        else Some new_content_size);
     target_size \<leftarrow> get_optimal_size (screen_display env screen) target_size new_content_size True;
     c_assert (is_windowed env screen);
     screen \<leftarrow> set_aspect_ratio screen new_content_size;
     Some (effect (Set_window_size target_size) screen)
   }"

definition set_content_size :: "screen_env \<Rightarrow> sc_screen \<Rightarrow> sc_size \<Rightarrow> bool \<Rightarrow> sc_screen option" where
  "set_content_size env screen new_content_size resize = do {
     c_assert (scr_video screen);
     screen \<leftarrow>
       (if resize then
          if is_windowed env screen
          then resize_for_content env screen (scr_content_size screen) new_content_size
          else if scr_flex_display screen then
            (let sz = get_window_size env screen in
             sc_screen_request_resize_display screen (width sz) (height sz))
          else if \<not> scr_resize_pending screen then
            Some (screen\<lparr>scr_windowed_content_size := scr_content_size screen,
              scr_resize_pending := True\<rparr>)
          else Some screen
        else Some screen);
     Some (screen\<lparr>scr_content_size := new_content_size\<rparr>)
   }"

definition apply_pending_resize :: "screen_env \<Rightarrow> sc_screen \<Rightarrow> sc_screen option" where
  "apply_pending_resize env screen = do {
     c_assert (scr_video screen);
     c_assert (is_windowed env screen);
     if scr_resize_pending screen then do {
       screen \<leftarrow> resize_for_content env screen (scr_windowed_content_size screen)
         (scr_content_size screen);
       Some (screen\<lparr>scr_resize_pending := False\<rparr>)
     }
     else Some screen
   }"

definition sc_screen_set_orientation ::
    "screen_env \<Rightarrow> sc_screen \<Rightarrow> sc_orientation \<Rightarrow> sc_screen option" where
  "sc_screen_set_orientation env screen orientation = do {
     c_assert (scr_video screen);
     if orientation = scr_orientation screen then Some screen
     else do {
       let new_content_size = get_oriented_size (scr_frame_size screen) orientation;
       screen \<leftarrow> set_content_size env screen new_content_size True;
       let screen = screen\<lparr>scr_orientation := orientation\<rparr>;
       sc_screen_render env screen True
     }
   }"

text \<open>The part of \<open>sc_screen_apply_frame\<close> for a frame of another size.\<close>

definition change_frame_size :: "screen_env \<Rightarrow> sc_screen \<Rightarrow> sc_size \<Rightarrow> bool \<Rightarrow> sc_screen option" where
  "change_frame_size env screen new_frame_size can_resize = do {
     let screen = screen\<lparr>scr_frame_size := new_frame_size\<rparr>;
     let new_content_size = get_oriented_size new_frame_size (scr_orientation screen);
     let screen = (if scr_flex_display screen
       then sc_screen_track_resize env screen new_content_size else screen);
     screen \<leftarrow> set_content_size env screen new_content_size can_resize;
     sc_screen_update_content_rect env screen
   }"

text \<open>\<open>False\<close> when the texture could not be set. The frame of the screen is never empty here.\<close>

definition sc_screen_apply_frame :: "screen_env \<Rightarrow> sc_screen \<Rightarrow> bool \<Rightarrow> (bool \<times> sc_screen) option" where
  "sc_screen_apply_frame env screen can_resize = do {
     c_assert (scr_video screen);
     c_assert (scr_window_shown screen);
     let screen = effect Fps_rendered screen;
     frame \<leftarrow> scr_frame screen;
     let new_frame_size = \<lparr>width = word_of_int (av_width frame), height = word_of_int (av_height frame)\<rparr>;
     screen \<leftarrow>
       (if scr_frame_size screen \<noteq> new_frame_size
        then change_frame_size env screen new_frame_size can_resize
        else Some screen);
     let ok = env_ok env (scr_effects screen);
     let screen = effect (Set_texture (Some frame)) screen;
     if \<not> ok then Some (False, screen)
     else do {
       screen \<leftarrow> sc_screen_render env (screen\<lparr>scr_texture := True\<rparr>) False;
       Some (True, screen)
     }
   }"

text \<open>\<open>alloc_ok\<close> decides the allocation of the resume frame.\<close>

definition sc_screen_update_frame ::
    "bool \<Rightarrow> screen_env \<Rightarrow> sc_screen \<Rightarrow> (bool \<times> sc_screen) option" where
  "sc_screen_update_frame alloc_ok env screen = do {
     c_assert (scr_video screen);
     if scr_paused screen then
       (if scr_resume_frame screen = None \<and> \<not> alloc_ok then Some (False, screen)
        else do {
          (frame, fb) \<leftarrow> sc_frame_buffer_consume (scr_fb screen);
          Some (True, screen\<lparr>scr_resume_frame := frame, scr_fb := fb\<rparr>)
        })
     else do {
       (frame, fb) \<leftarrow> sc_frame_buffer_consume (scr_fb screen);
       let screen = screen\<lparr>scr_frame := frame, scr_fb := fb\<rparr>;
       let can_resize = \<not> scr_prevent_auto_resize screen;
       sc_screen_apply_frame env screen can_resize
     }
   }"

definition sc_screen_set_paused :: "screen_env \<Rightarrow> sc_screen \<Rightarrow> bool \<Rightarrow> sc_screen option" where
  "sc_screen_set_paused env screen paused = do {
     c_assert (scr_video screen);
     if \<not> paused \<and> \<not> scr_paused screen then Some screen
     else do {
       screen \<leftarrow>
         (if scr_paused screen \<and> scr_resume_frame screen \<noteq> None then do {
            let screen = screen\<lparr>scr_frame := scr_resume_frame screen, scr_resume_frame := None\<rparr>;
            (ok, screen) \<leftarrow> sc_screen_apply_frame env screen True;
            Some screen
          }
          else Some screen);
       Some (screen\<lparr>scr_paused := paused\<rparr>)
     }
   }"

definition sc_screen_resize_to_fit :: "screen_env \<Rightarrow> sc_screen \<Rightarrow> sc_screen option" where
  "sc_screen_resize_to_fit env screen = do {
     c_assert (scr_video screen);
     if \<not> is_windowed env screen then Some screen
     else if scr_render_fit screen = SC_RENDER_FIT_STRETCHED then Some screen
     else do {
       let window_size = get_window_size env screen;
       let content_size = scr_content_size screen;
       if scr_render_fit screen = SC_RENDER_FIT_UNSCALED then do {
         screen \<leftarrow> set_aspect_ratio screen content_size;
         let screen = effect (Set_window_size content_size) screen;
         let x_offset = (if width content_size < width window_size
           then (int (unat (width window_size)) - int (unat (width content_size))) div 2 else 0);
         let y_offset = (if height content_size < height window_size
           then (int (unat (height window_size)) - int (unat (height content_size))) div 2 else 0);
         c_assert (x_offset \<ge> 0 \<and> y_offset \<ge> 0);
         Some (if x_offset \<noteq> 0 \<or> y_offset \<noteq> 0 then
             (let pos = env_window_position env (scr_effects screen) in
              effect (Set_window_position (fst pos + x_offset) (snd pos + y_offset)) screen)
           else screen)
       }
       else do {
         c_assert (scr_render_fit screen = SC_RENDER_FIT_LETTERBOX);
         let point = env_window_position env (scr_effects screen);
         optimal_size \<leftarrow> get_optimal_size (screen_display env screen) window_size content_size False;
         c_assert (width optimal_size \<le> width window_size);
         c_assert (height optimal_size \<le> height window_size);
         let x = fst point +
           (int (unat (width window_size)) - int (unat (width optimal_size))) div 2;
         let y = snd point +
           (int (unat (height window_size)) - int (unat (height optimal_size))) div 2;
         screen \<leftarrow> set_aspect_ratio screen content_size;
         Some (effect (Set_window_position x y) (effect (Set_window_size optimal_size) screen))
       }
     }
   }"

definition sc_screen_resize_to_pixel_perfect :: "screen_env \<Rightarrow> sc_screen \<Rightarrow> sc_screen option" where
  "sc_screen_resize_to_pixel_perfect env screen = do {
     c_assert (scr_video screen);
     if \<not> is_windowed env screen then Some screen
     else do {
       let content_size = scr_content_size screen;
       screen \<leftarrow> set_aspect_ratio screen content_size;
       Some (effect (Set_window_size content_size) screen)
     }
   }"

definition sc_screen_convert_window_to_frame_coords :: "sc_screen \<Rightarrow> int \<Rightarrow> int \<Rightarrow> sc_point option" where
  "sc_screen_convert_window_to_frame_coords screen x y = do {
     c_assert (scr_video screen);
     convert_window_to_frame_coords (scr_orientation screen) (scr_content_size screen)
       (scr_rect screen) x y
   }"

section \<open>The frame buffer keeps the last frame\<close>

definition fb_inv :: "sc_frame_buffer \<Rightarrow> bool" where
  "fb_inv fb \<longleftrightarrow> fb_tmp_frame fb = None \<and>
     (fb_pending_frame_consumed fb \<longleftrightarrow> fb_pending_frame fb = None)"

lemma fb_push_eq:
  "fb_inv fb \<Longrightarrow> sc_frame_buffer_push ref_ok fb frame =
     (if ref_ok then (\<lparr>fb_pending_frame = Some frame, fb_tmp_frame = None,
        fb_pending_frame_consumed = False\<rparr>, True) else (fb, False))"
  by (cases fb) (simp add: sc_frame_buffer_push_def fb_inv_def Let_def)

lemma fb_consume_eq:
  "fb_inv fb \<Longrightarrow> sc_frame_buffer_has_frame fb \<Longrightarrow>
     \<exists>frame. fb_pending_frame fb = Some frame \<and> sc_frame_buffer_consume fb =
       Some (Some frame, \<lparr>fb_pending_frame = None, fb_tmp_frame = None, fb_pending_frame_consumed = True\<rparr>)"
  by (cases fb) (auto simp: sc_frame_buffer_consume_def sc_frame_buffer_has_frame_def fb_inv_def)

section \<open>The invariant of the screen\<close>

definition nonempty :: "sc_size \<Rightarrow> bool" where
  "nonempty sz \<longleftrightarrow> width sz \<noteq> 0 \<and> height sz \<noteq> 0"

definition frame_ok :: "av_frame \<Rightarrow> bool" where
  "frame_ok f \<longleftrightarrow> 0 < av_width f \<and> av_width f \<le> 0xFFFF \<and> 0 < av_height f \<and> av_height f \<le> 0xFFFF"

definition screen_inv :: "sc_screen \<Rightarrow> bool" where
  "screen_inv s \<longleftrightarrow> scr_video s \<and> scr_window_shown s \<and> scr_render_fit s \<noteq> SC_RENDER_FIT_AUTO \<and>
     (scr_flex_display s \<longrightarrow> \<not> scr_camera s) \<and> nonempty (scr_frame_size s) \<and>
     scr_content_size s = get_oriented_size (scr_frame_size s) (scr_orientation s) \<and>
     (scr_resize_pending s \<longrightarrow> nonempty (scr_windowed_content_size s)) \<and>
     fb_inv (scr_fb s) \<and> pred_option frame_ok (fb_pending_frame (scr_fb s)) \<and>
     pred_option frame_ok (scr_resume_frame s)"

text \<open>Everything of the screen but the window's side of it.\<close>

definition same_screen :: "sc_screen \<Rightarrow> sc_screen \<Rightarrow> bool" where
  "same_screen s s' \<longleftrightarrow> scr_video s' = scr_video s \<and> scr_window_shown s' = scr_window_shown s \<and>
     scr_render_fit s' = scr_render_fit s \<and> scr_flex_display s' = scr_flex_display s \<and>
     scr_camera s' = scr_camera s \<and> scr_frame_size s' = scr_frame_size s \<and>
     scr_orientation s' = scr_orientation s \<and> scr_fb s' = scr_fb s \<and>
     scr_resume_frame s' = scr_resume_frame s \<and> scr_frame s' = scr_frame s \<and>
     scr_paused s' = scr_paused s \<and> scr_disconnected s' = scr_disconnected s \<and>
     scr_tracker_time s' = scr_tracker_time s \<and>
     scr_current_session s' = scr_current_session s"

lemma same_screen_refl [simp]: "same_screen s s"
  by (simp add: same_screen_def)

lemma same_screen_effect [simp]: "same_screen s (effect e s') = same_screen s s'"
  by (simp add: same_screen_def effect_def)

lemma same_screen_pending [simp]:
  "same_screen s (s'\<lparr>scr_windowed_content_size := w\<rparr>) = same_screen s s'"
  "same_screen s (s'\<lparr>scr_content_size := w\<rparr>) = same_screen s s'"
  "same_screen s (s'\<lparr>scr_resize_pending := b\<rparr>) = same_screen s s'"
  "same_screen s (s'\<lparr>scr_rect := r\<rparr>) = same_screen s s'"
  by (simp_all add: same_screen_def)

lemma effect_fields [simp]:
  "scr_content_size (effect e s) = scr_content_size s" "scr_resize_pending (effect e s) = scr_resize_pending s"
  "scr_windowed_content_size (effect e s) = scr_windowed_content_size s" "scr_frame (effect e s) = scr_frame s"
  "scr_rect (effect e s) = scr_rect s" "scr_video (effect e s) = scr_video s"
  "scr_window_shown (effect e s) = scr_window_shown s" "scr_flex_display (effect e s) = scr_flex_display s"
  "scr_frame_size (effect e s) = scr_frame_size s" "scr_orientation (effect e s) = scr_orientation s"
  "scr_camera (effect e s) = scr_camera s" "screen_inv (effect e s) = screen_inv s"
  by (simp_all add: effect_def screen_inv_def)

lemma nonempty_oriented [simp]: "nonempty (get_oriented_size sz ori) = nonempty sz"
  by (auto simp: get_oriented_size_def nonempty_def)

lemma aspect_ratio_ok:
  assumes "nonempty sz"
  shows "\<exists>s'. set_aspect_ratio s sz = Some s' \<and> same_screen s s' \<and>
    scr_content_size s' = scr_content_size s \<and> scr_resize_pending s' = scr_resize_pending s \<and>
    scr_windowed_content_size s' = scr_windowed_content_size s"
  using assms by (simp add: set_aspect_ratio_def nonempty_def)

lemma update_rect_ok:
  assumes "nonempty (scr_content_size s)" "scr_render_fit s \<noteq> SC_RENDER_FIT_AUTO"
  shows "\<exists>r. sc_screen_update_content_rect env s = Some (s\<lparr>scr_rect := r\<rparr>)"
proof -
  let ?icon = "\<not> scr_video s \<or> scr_disconnected s"
  have "\<exists>r. compute_content_rect w (scr_content_size s) ?icon (scr_render_fit s) = Some r" for w
  proof (cases "\<not> ?icon \<and> scr_render_fit s = SC_RENDER_FIT_UNSCALED")
    case True
    then show ?thesis by (simp add: compute_content_rect_def)
  next
    case False
    then have "?icon \<or> scr_render_fit s = SC_RENDER_FIT_LETTERBOX \<or>
        scr_render_fit s = SC_RENDER_FIT_STRETCHED"
      using assms(2) by (cases "scr_render_fit s") auto
    with assms(1) content_rect_spec [of "scr_content_size s" ?icon "scr_render_fit s" w] show ?thesis
      unfolding nonempty_def by blast
  qed
  then obtain r where
    "compute_content_rect (get_window_size env s) (scr_content_size s) ?icon (scr_render_fit s) = Some r"
    by blast
  then show ?thesis unfolding sc_screen_update_content_rect_def Let_def
    by (intro exI [of _ r]) simp
qed

lemma render_ok:
  assumes "screen_inv s"
  shows "\<exists>s'. sc_screen_render env s b = Some s' \<and> screen_inv s' \<and> same_screen s s' \<and>
    scr_content_size s' = scr_content_size s"
proof -
  have ne: "nonempty (scr_content_size s)" "scr_render_fit s \<noteq> SC_RENDER_FIT_AUTO" "scr_window_shown s"
    using assms by (auto simp: screen_inv_def)
  from update_rect_ok [OF ne(1,2)] obtain r where
    "sc_screen_update_content_rect env s = Some (s\<lparr>scr_rect := r\<rparr>)" by blast
  moreover have "screen_inv (s\<lparr>scr_rect := r\<rparr>)" "same_screen s (s\<lparr>scr_rect := r\<rparr>)"
    using assms by (simp_all add: screen_inv_def same_screen_def)
  ultimately show ?thesis using assms ne(3) by (cases b) (simp_all add: sc_screen_render_def Let_def)
qed

lemma resize_for_content_ok:
  assumes "scr_video s" "nonempty old" "nonempty new" "is_windowed env s"
  shows "\<exists>s'. resize_for_content env s old new = Some s' \<and> same_screen s s' \<and>
    scr_resize_pending s' = scr_resize_pending s \<and> scr_content_size s' = scr_content_size s \<and>
    scr_windowed_content_size s' = scr_windowed_content_size s"
proof -
  have new: "width new \<noteq> 0" "height new \<noteq> 0" and old: "width old \<noteq> 0" "height old \<noteq> 0"
    using assms(2,3) by (auto simp: nonempty_def)
  obtain t where t: "(if \<not> scr_flex_display s then do {
          let window_size = get_window_size env s;
          w \<leftarrow> u32_mul_div (width window_size) (width new) (width old);
          h \<leftarrow> u32_mul_div (height window_size) (height new) (height old);
          Some \<lparr>width = ucast w, height = ucast h\<rparr>
        }
        else Some new) = Some t"
    using old by (cases "scr_flex_display s") (auto simp: u32_mul_div_def Let_def)
  obtain u where "get_optimal_size (screen_display env s) t new True = Some u"
    using get_optimal_size_spec [OF new, of "screen_display env s" t True] by blast
  moreover obtain s' where "set_aspect_ratio s new = Some s'" "same_screen s s'"
    "scr_content_size s' = scr_content_size s" "scr_resize_pending s' = scr_resize_pending s"
    "scr_windowed_content_size s' = scr_windowed_content_size s"
    using aspect_ratio_ok [OF assms(3), of s] by blast
  ultimately show ?thesis
    using assms(1,4) t unfolding resize_for_content_def t by simp
qed

text \<open>A request to the display needs a window with some pixels.\<close>

definition env_sane :: "screen_env \<Rightarrow> bool" where
  "env_sane env \<longleftrightarrow> (\<forall>es. nonempty (env_window_size env es))"

lemma request_resize_ok:
  assumes "scr_flex_display s" "\<not> scr_camera s" "w \<noteq> 0" "h \<noteq> 0"
  shows "\<exists>e. sc_screen_request_resize_display s w h = Some (effect e s)"
  using assms by (auto simp: sc_screen_request_resize_display_def)

text \<open>\<open>set_content_size\<close> is called when the frame size or the orientation is about to match.\<close>

lemma set_content_size_ok:
  assumes "scr_video s" "nonempty (scr_content_size s)" "nonempty new" "env_sane env"
    and "scr_flex_display s \<longrightarrow> \<not> scr_camera s"
    and "scr_resize_pending s \<longrightarrow> nonempty (scr_windowed_content_size s)"
  shows "\<exists>s'. set_content_size env s new resize = Some s' \<and> same_screen s s' \<and>
    scr_content_size s' = new \<and> (scr_resize_pending s' \<longrightarrow> nonempty (scr_windowed_content_size s'))"
proof -
  let ?step = "if resize then
          if is_windowed env s
          then resize_for_content env s (scr_content_size s) new
          else if scr_flex_display s then
            (let sz = get_window_size env s in
             sc_screen_request_resize_display s (width sz) (height sz))
          else if \<not> scr_resize_pending s then
            Some (s\<lparr>scr_windowed_content_size := scr_content_size s, scr_resize_pending := True\<rparr>)
          else Some s
        else Some s"
  have "\<exists>s'. ?step = Some s' \<and> same_screen s s' \<and>
      (scr_resize_pending s' \<longrightarrow> nonempty (scr_windowed_content_size s'))"
  proof (cases "resize \<and> is_windowed env s")
    case True
    from resize_for_content_ok [OF assms(1-3), of env] True assms(6) show ?thesis by force
  next
    case False
    have "nonempty (get_window_size env s)"
      using assms(4) by (simp add: env_sane_def get_window_size_def)
    then have "scr_flex_display s \<Longrightarrow> \<exists>e. sc_screen_request_resize_display s
        (width (get_window_size env s)) (height (get_window_size env s)) = Some (effect e s)"
      using request_resize_ok assms(5) by (auto simp: nonempty_def)
    then show ?thesis using False assms(2,6) by (auto simp: Let_def)
  qed
  then obtain s' where "?step = Some s'" "same_screen s s'"
    "scr_resize_pending s' \<longrightarrow> nonempty (scr_windowed_content_size s')" by blast
  then show ?thesis
    using assms(1) unfolding set_content_size_def by (intro exI [of _ "s'\<lparr>scr_content_size := new\<rparr>"]) simp
qed

section \<open>Every operation keeps the invariant and never aborts\<close>

lemma screen_invI:
  assumes "same_screen s s'" "screen_inv s"
    and "scr_content_size s' = scr_content_size s"
    and "scr_resize_pending s' \<longrightarrow> nonempty (scr_windowed_content_size s')"
  shows "screen_inv s'"
  using assms by (simp add: screen_inv_def same_screen_def)

lemma screen_invD:
  assumes "screen_inv s"
  shows "scr_video s" "scr_window_shown s" "nonempty (scr_content_size s)" "nonempty (scr_frame_size s)"
    "scr_flex_display s \<longrightarrow> \<not> scr_camera s"
    "scr_resize_pending s \<longrightarrow> nonempty (scr_windowed_content_size s)"
    "scr_render_fit s \<noteq> SC_RENDER_FIT_AUTO" "fb_inv (scr_fb s)"
  using assms by (auto simp: screen_inv_def)

lemma set_orientation_ok:
  assumes "screen_inv s" "env_sane env"
  shows "\<exists>s'. sc_screen_set_orientation env s ori = Some s' \<and> screen_inv s' \<and>
    scr_orientation s' = ori \<and> scr_frame_size s' = scr_frame_size s \<and> scr_fb s' = scr_fb s"
proof (cases "ori = scr_orientation s")
  case True
  with assms screen_invD(1) show ?thesis by (simp add: sc_screen_set_orientation_def)
next
  case False
  note d = screen_invD [OF assms(1)]
  let ?new = "get_oriented_size (scr_frame_size s) ori"
  have "nonempty ?new" using d(4) by simp
  from set_content_size_ok [OF d(1,3) this assms(2) d(5,6), of True] obtain s1 where
    s1: "set_content_size env s ?new True = Some s1" "same_screen s s1" "scr_content_size s1 = ?new"
    "scr_resize_pending s1 \<longrightarrow> nonempty (scr_windowed_content_size s1)" by blast
  let ?s2 = "s1\<lparr>scr_orientation := ori\<rparr>"
  have "screen_inv ?s2"
    using assms(1) s1(2-4) by (simp add: screen_inv_def same_screen_def)
  from render_ok [OF this, of env True] obtain s3 where
    "sc_screen_render env ?s2 True = Some s3" "screen_inv s3" "same_screen ?s2 s3" by blast
  with s1 False d(1) show ?thesis
    by (simp add: sc_screen_set_orientation_def same_screen_def)
qed

lemma change_frame_size_ok:
  assumes "screen_inv s" "env_sane env" "nonempty new"
  shows "\<exists>s'. change_frame_size env s new can_resize = Some s' \<and> screen_inv s' \<and>
    scr_frame_size s' = new \<and> scr_fb s' = scr_fb s \<and> scr_orientation s' = scr_orientation s"
proof -
  note d = screen_invD [OF assms(1)]
  define s1 where "s1 = s\<lparr>scr_frame_size := new\<rparr>"
  define content where "content = get_oriented_size new (scr_orientation s1)"
  define s2 where "s2 = (if scr_flex_display s1 then sc_screen_track_resize env s1 content else s1)"
  have s2: "scr_video s2" "nonempty (scr_content_size s2)" "scr_flex_display s2 \<longrightarrow> \<not> scr_camera s2"
    "scr_resize_pending s2 \<longrightarrow> nonempty (scr_windowed_content_size s2)"
    "scr_frame_size s2 = new" "scr_orientation s2 = scr_orientation s" "scr_fb s2 = scr_fb s"
    "scr_window_shown s2" "scr_render_fit s2 = scr_render_fit s"
    "scr_resume_frame s2 = scr_resume_frame s"
    using d by (simp_all add: s2_def s1_def sc_screen_track_resize_def)
  have "nonempty content" using assms(3) by (simp add: content_def)
  from set_content_size_ok [OF s2(1,2) this assms(2) s2(3,4), of can_resize] obtain s3 where
    s3: "set_content_size env s2 content can_resize = Some s3" "same_screen s2 s3"
    "scr_content_size s3 = content" "scr_resize_pending s3 \<longrightarrow> nonempty (scr_windowed_content_size s3)"
    by blast
  have i3: "screen_inv s3"
    using assms(1,3) s2 s3(2-4)
    by (simp add: screen_inv_def same_screen_def content_def s1_def)
  from update_rect_ok [of s3 env] screen_invD [OF i3] obtain r where
    r: "sc_screen_update_content_rect env s3 = Some (s3\<lparr>scr_rect := r\<rparr>)" by blast
  have "change_frame_size env s new can_resize = Some (s3\<lparr>scr_rect := r\<rparr>)"
    using s3(1) r unfolding change_frame_size_def Let_def s1_def [symmetric] content_def [symmetric]
      s2_def [symmetric] by simp
  moreover have "screen_inv (s3\<lparr>scr_rect := r\<rparr>)" using i3 by (simp add: screen_inv_def)
  ultimately show ?thesis using s2 s3(2) by (simp add: same_screen_def)
qed

definition frame_dims :: "av_frame \<Rightarrow> sc_size" where
  "frame_dims f = \<lparr>width = word_of_int (av_width f), height = word_of_int (av_height f)\<rparr>"

lemma frame_dims_nonempty: "frame_ok f \<Longrightarrow> nonempty (frame_dims f)"
  by (auto simp: frame_ok_def nonempty_def frame_dims_def word_of_int_eq_0_iff zdvd_not_zless)

lemma apply_frame_ok:
  assumes "screen_inv s" "env_sane env" "scr_frame s = Some f" "frame_ok f"
  shows "\<exists>ok s'. sc_screen_apply_frame env s can_resize = Some (ok, s') \<and> screen_inv s' \<and>
    scr_frame_size s' = frame_dims f \<and> scr_fb s' = scr_fb s \<and> scr_orientation s' = scr_orientation s"
proof -
  let ?s0 = "effect Fps_rendered s"
  note d = screen_invD [OF assms(1)]
  obtain s1 where s1: "(if scr_frame_size ?s0 \<noteq> frame_dims f
      then change_frame_size env ?s0 (frame_dims f) can_resize else Some ?s0) = Some s1"
      "screen_inv s1" "scr_frame_size s1 = frame_dims f" "scr_fb s1 = scr_fb s"
      "scr_orientation s1 = scr_orientation s"
  proof (cases "scr_frame_size s = frame_dims f")
    case True
    with assms(1) that [of ?s0] show thesis by (simp add: effect_def screen_inv_def)
  next
    case False
    have "screen_inv ?s0" using assms(1) by simp
    from change_frame_size_ok [OF this assms(2) frame_dims_nonempty [OF assms(4)], of can_resize]
    show thesis using False that by (auto simp: effect_def)
  qed
  let ?s2 = "(effect (Set_texture (Some f)) s1)\<lparr>scr_texture := True\<rparr>"
  have "screen_inv ?s2" using s1(2) by (simp add: screen_inv_def effect_def)
  from render_ok [OF this, of env False] obtain s3 where
    s3: "sc_screen_render env ?s2 False = Some s3" "screen_inv s3" "same_screen ?s2 s3" by blast
  have eq: "sc_screen_apply_frame env s can_resize =
    (if env_ok env (scr_effects s1) then Some (True, s3)
     else Some (False, effect (Set_texture (Some f)) s1))"
    using d(1,2) assms(3) s3(1) s1(1)
    by (cases "scr_frame_size s = frame_dims f")
      (auto simp: sc_screen_apply_frame_def Let_def frame_dims_def)
  show ?thesis
    using s1(2-5) s3(2,3) unfolding eq
    by (cases "env_ok env (scr_effects s1)") (auto simp: same_screen_def effect_def screen_inv_def)
qed

lemma set_paused_ok:
  assumes "screen_inv s" "env_sane env"
  shows "\<exists>s'. sc_screen_set_paused env s b = Some s' \<and> screen_inv s' \<and> scr_paused s' = b \<and>
    scr_fb s' = scr_fb s"
proof (cases "scr_paused s \<and> scr_resume_frame s \<noteq> None")
  case False
  have "screen_inv (s\<lparr>scr_paused := p\<rparr>)" for p using assms(1) by (simp add: screen_inv_def)
  with False assms(1) screen_invD(1) show ?thesis by (auto simp: sc_screen_set_paused_def)
next
  case True
  then obtain f where f: "scr_resume_frame s = Some f" by blast
  have "frame_ok f" using assms(1) f by (simp add: screen_inv_def)
  let ?s1 = "s\<lparr>scr_frame := Some f, scr_resume_frame := None\<rparr>"
  have "screen_inv ?s1" using assms(1) by (simp add: screen_inv_def)
  from apply_frame_ok [OF this assms(2) _ \<open>frame_ok f\<close>, of True] obtain ok s2 where
    s2: "sc_screen_apply_frame env ?s1 True = Some (ok, s2)" "screen_inv s2" "scr_fb s2 = scr_fb s"
    by auto
  have "screen_inv (s2\<lparr>scr_paused := b\<rparr>)" using s2(2) by (simp add: screen_inv_def)
  with True f s2 screen_invD(1) [OF assms(1)] show ?thesis
    by (simp add: sc_screen_set_paused_def)
qed

lemma update_frame_ok:
  assumes "screen_inv s" "env_sane env" "sc_frame_buffer_has_frame (scr_fb s)"
  shows "\<exists>ok s'. sc_screen_update_frame alloc_ok env s = Some (ok, s') \<and> screen_inv s' \<and>
    (scr_paused s \<and> scr_resume_frame s = None \<and> \<not> alloc_ok \<or> \<not> sc_frame_buffer_has_frame (scr_fb s'))"
proof -
  note d = screen_invD [OF assms(1)]
  let ?fb = "\<lparr>fb_pending_frame = None, fb_tmp_frame = None, fb_pending_frame_consumed = True\<rparr>"
  from fb_consume_eq [OF d(8) assms(3)] obtain f where
    f: "fb_pending_frame (scr_fb s) = Some f" "sc_frame_buffer_consume (scr_fb s) = Some (Some f, ?fb)"
    by blast
  have "frame_ok f" using assms(1) f(1) by (simp add: screen_inv_def)
  have nf: "\<not> sc_frame_buffer_has_frame ?fb" by (simp add: sc_frame_buffer_has_frame_def)
  have fbi: "fb_inv ?fb" by (simp add: fb_inv_def)
  show ?thesis
  proof (cases "scr_paused s")
    case True
    have "screen_inv (s\<lparr>scr_resume_frame := Some f, scr_fb := ?fb\<rparr>)"
      using assms(1) \<open>frame_ok f\<close> fbi by (simp add: screen_inv_def)
    with True d(1) f(2) nf assms(1) show ?thesis by (auto simp: sc_screen_update_frame_def)
  next
    case False
    let ?s1 = "s\<lparr>scr_frame := Some f, scr_fb := ?fb\<rparr>"
    have "screen_inv ?s1" using assms(1) fbi by (simp add: screen_inv_def)
    from apply_frame_ok [OF this assms(2) _ \<open>frame_ok f\<close>, of "\<not> scr_prevent_auto_resize ?s1"] obtain ok s2 where
      "sc_screen_apply_frame env ?s1 (\<not> scr_prevent_auto_resize ?s1) = Some (ok, s2)"
      "screen_inv s2" "scr_fb s2 = ?fb"
      by auto
    with False d(1) f(2) nf show ?thesis by (simp add: sc_screen_update_frame_def Let_def)
  qed
qed

lemma frame_sink_push_ok:
  assumes "screen_inv s" "frame_ok f"
  shows "\<exists>ok s'. sc_screen_frame_sink_push ref_ok event_ok s f = Some (ok, s') \<and> screen_inv s' \<and>
    (if ref_ok then fb_pending_frame (scr_fb s') = Some f \<and>
       scr_effects s' = scr_effects s @ (if sc_frame_buffer_has_frame (scr_fb s) then [Fps_skipped]
         else if event_ok then [Push_event SC_EVENT_NEW_FRAME] else [])
     else scr_fb s' = scr_fb s \<and> scr_effects s' = scr_effects s)"
proof -
  note d = screen_invD [OF assms(1)]
  let ?fb = "\<lparr>fb_pending_frame = Some f, fb_tmp_frame = None, fb_pending_frame_consumed = False\<rparr>"
  let ?s = "\<lambda>fb. s\<lparr>scr_fb := fb, scr_prevent_auto_resize := ss_client_resized (scr_current_session s)\<rparr>"
  have "screen_inv (?s ?fb)" "screen_inv (?s (scr_fb s))"
    using assms by (simp_all add: screen_inv_def fb_inv_def)
  then show ?thesis
    using d(1) fb_push_eq [OF d(8), of ref_ok f]
    by (cases ref_ok) (auto simp: sc_screen_frame_sink_push_def Let_def effect_def screen_inv_def)
qed

lemma resize_to_fit_ok:
  assumes "screen_inv s"
  shows "\<exists>s'. sc_screen_resize_to_fit env s = Some s' \<and> screen_inv s' \<and> scr_fb s' = scr_fb s"
proof -
  note d = screen_invD [OF assms]
  obtain s1 where s1: "set_aspect_ratio s (scr_content_size s) = Some s1" "same_screen s s1"
    "scr_content_size s1 = scr_content_size s" "scr_resize_pending s1 = scr_resize_pending s"
    "scr_windowed_content_size s1 = scr_windowed_content_size s"
    using aspect_ratio_ok [OF d(3), of s] by blast
  have i1: "screen_inv s1" using screen_invI [OF s1(2) assms s1(3)] s1(4,5) d(6) by simp
  have fb: "scr_fb s1 = scr_fb s" using s1(2) by (simp add: same_screen_def)
  have e: "scr_fb (effect e s2) = scr_fb s2" for e s2 by (simp add: effect_def)
  have off: "(0::int) \<le> (if a < b then (int (unat b) - int (unat a)) div 2 else 0)" for a b :: u16
    by (simp add: word_less_def)
  consider "\<not> is_windowed env s" | "is_windowed env s" "scr_render_fit s = SC_RENDER_FIT_STRETCHED"
    | "is_windowed env s" "scr_render_fit s = SC_RENDER_FIT_UNSCALED"
    | "is_windowed env s" "scr_render_fit s = SC_RENDER_FIT_LETTERBOX"
    using d(7) by (cases "scr_render_fit s") auto
  then show ?thesis
  proof cases
    case 3
    then show ?thesis
      using d(1) s1(1) i1 off fb e unfolding sc_screen_resize_to_fit_def Let_def by simp
  next
    case 4
    have ne: "width (scr_content_size s) \<noteq> 0" "height (scr_content_size s) \<noteq> 0"
      using d(3) by (simp_all add: nonempty_def)
    let ?w = "get_window_size env s"
    obtain r where r: "get_optimal_size (screen_display env s) ?w (scr_content_size s) False = Some r"
      "unat (width r) \<le> unat (width ?w)" "unat (height r) \<le> unat (height ?w)"
      using get_optimal_size_spec [OF ne, of "screen_display env s" ?w False]
        bounded_window_le [of "screen_display env s" ?w False] by (auto intro: order_trans)
    then have "width r \<le> width ?w" "height r \<le> height ?w" by (simp_all add: word_le_nat_alt)
    with 4 r(1) show ?thesis
      using d(1) s1(1) i1 fb e unfolding sc_screen_resize_to_fit_def Let_def by simp
  qed (use assms d(1) in \<open>simp_all add: sc_screen_resize_to_fit_def\<close>)
qed

lemma pixel_perfect_ok:
  assumes "screen_inv s"
  shows "\<exists>s'. sc_screen_resize_to_pixel_perfect env s = Some s' \<and> screen_inv s' \<and> scr_fb s' = scr_fb s"
proof -
  note d = screen_invD [OF assms]
  obtain s1 where s1: "set_aspect_ratio s (scr_content_size s) = Some s1" "same_screen s s1"
    "scr_content_size s1 = scr_content_size s" "scr_resize_pending s1 = scr_resize_pending s"
    "scr_windowed_content_size s1 = scr_windowed_content_size s"
    using aspect_ratio_ok [OF d(3), of s] by blast
  have "screen_inv s1" using screen_invI [OF s1(2) assms s1(3)] s1(4,5) d(6) by simp
  moreover have "scr_fb (effect e s1) = scr_fb s" for e
    using s1(2) by (simp add: same_screen_def effect_def)
  ultimately show ?thesis
    using d(1) s1(1) assms by (simp add: sc_screen_resize_to_pixel_perfect_def Let_def)
qed

lemma pending_resize_ok:
  assumes "screen_inv s" "is_windowed env s"
  shows "\<exists>s'. apply_pending_resize env s = Some s' \<and> screen_inv s' \<and> \<not> scr_resize_pending s' \<and>
    scr_fb s' = scr_fb s"
proof (cases "scr_resize_pending s")
  case False
  with assms screen_invD(1) show ?thesis by (simp add: apply_pending_resize_def)
next
  case True
  note d = screen_invD [OF assms(1)]
  from True d(6) have "nonempty (scr_windowed_content_size s)" by simp
  from resize_for_content_ok [OF d(1) this d(3) assms(2)] obtain s1 where
    s1: "resize_for_content env s (scr_windowed_content_size s) (scr_content_size s) = Some s1"
      "same_screen s s1" "scr_content_size s1 = scr_content_size s" by blast
  have "screen_inv (s1\<lparr>scr_resize_pending := False\<rparr>)"
    using assms(1) s1(2,3) by (simp add: screen_inv_def same_screen_def)
  with True d(1) s1 assms(2) show ?thesis by (simp add: apply_pending_resize_def same_screen_def)
qed

lemma on_resized_ok:
  assumes "screen_inv s" "0 < w" "w \<le> 0xFFFF" "0 < h" "h \<le> 0xFFFF"
  shows "\<exists>s'. sc_screen_on_resized env s w h = Some s' \<and> screen_inv s' \<and> scr_fb s' = scr_fb s"
proof -
  note d = screen_invD [OF assms(1)]
  have nz: "(word_of_int w :: u16) \<noteq> 0" "(word_of_int h :: u16) \<noteq> 0"
    using assms(2-5) by (simp_all add: word_of_int_eq_0_iff zdvd_not_zless)
  have inv: "screen_inv (s\<lparr>scr_tracker_time := t\<rparr>)" for t
    using assms(1) by (simp add: screen_inv_def)
  have req: "\<exists>e. sc_screen_request_resize_display s' (word_of_int w) (word_of_int h) = Some (effect e s')"
    if "scr_flex_display s'" "\<not> scr_camera s'" for s'
    using request_resize_ok [OF that nz] .
  have fb: "scr_fb (effect e s') = scr_fb s'" for e s' by (simp add: effect_def)
  show ?thesis
  proof (cases "scr_flex_display s")
    case False
    with assms(1) d(2) show ?thesis by (simp add: sc_screen_on_resized_def)
  next
    case True
    with d(5) have "\<not> scr_camera s" by simp
    define s1 where "s1 = (if scr_tracker_time s \<noteq> 0
        \<and> env_now env (scr_effects s) \<ge> scr_tracker_time s + 3000 * 1000
      then s\<lparr>scr_tracker_time := 0\<rparr> else s)"
    have s1: "screen_inv s1" "scr_fb s1 = scr_fb s" "scr_flex_display s1" "\<not> scr_camera s1"
      using inv assms(1) True \<open>\<not> scr_camera s\<close> by (simp_all add: s1_def)
    have inv1: "screen_inv (s1\<lparr>scr_tracker_time := 0\<rparr>)" using s1(1) by (simp add: screen_inv_def)
    obtain e where e: "sc_screen_request_resize_display s1 (word_of_int w) (word_of_int h) = Some (effect e s1)"
      using req [OF s1(3,4)] by blast
    have "sc_screen_on_resized env s w h =
      (if scr_tracker_time s1 \<noteq> 0 \<and> width (scr_tracker_size s1) = word_of_int w
          \<and> height (scr_tracker_size s1) = word_of_int h
       then Some (s1\<lparr>scr_tracker_time := 0\<rparr>) else Some (effect e s1))"
    proof (cases "scr_tracker_time s \<noteq> 0 \<and> env_now env (scr_effects s) \<ge> scr_tracker_time s + 3000 * 1000")
      case c: True
      then have "s1 = s\<lparr>scr_tracker_time := 0\<rparr>" by (simp add: s1_def)
      with c show ?thesis using True d(2) assms(2-5) e by (simp add: sc_screen_on_resized_def Let_def)
    next
      case c: False
      then have "s1 = s" by (auto simp: s1_def)
      with c show ?thesis using True d(2) assms(2-5) e by (auto simp: sc_screen_on_resized_def Let_def)
    qed
    then show ?thesis using s1 inv1 by (simp add: fb)
  qed
qed

section \<open>The screen under any events\<close>

text \<open>
  The operations of the screen as the event loop and the decoder call them, on the screen and the number
  of \<open>SC_EVENT_NEW_FRAME\<close> events that are queued.
\<close>

datatype screen_op =
    Op_frame bool bool av_frame
  | Op_session sc_stream_session
  | Op_new_frame bool
  | Op_set_orientation sc_orientation
  | Op_set_paused bool
  | Op_toggle_fullscreen
  | Op_resize_to_fit
  | Op_pixel_perfect
  | Op_restored
  | Op_exposed
  | Op_resized int int

definition new_frame_events :: "screen_effect list \<Rightarrow> nat" where
  "new_frame_events es = length (filter (\<lambda>e. e = Push_event SC_EVENT_NEW_FRAME) es)"

fun screen_exec :: "screen_env \<Rightarrow> screen_op \<Rightarrow> sc_screen \<times> nat \<Rightarrow> (sc_screen \<times> nat) option" where
  "screen_exec env (Op_frame ref_ok event_ok f) (s, n) = do {
     (ok, s') \<leftarrow> sc_screen_frame_sink_push ref_ok event_ok s f;
     Some (s', n + new_frame_events (drop (length (scr_effects s)) (scr_effects s')))
   }"
| "screen_exec env (Op_session ss) (s, n) = Some (sc_screen_frame_sink_push_session s ss, n)"
| "screen_exec env (Op_new_frame alloc_ok) (s, n) = do {
     (ok, s') \<leftarrow> sc_screen_update_frame alloc_ok env s;
     Some (s', n - 1)
   }"
| "screen_exec env (Op_set_orientation ori) (s, n) = do { s \<leftarrow> sc_screen_set_orientation env s ori; Some (s, n) }"
| "screen_exec env (Op_set_paused b) (s, n) = do { s \<leftarrow> sc_screen_set_paused env s b; Some (s, n) }"
| "screen_exec env Op_toggle_fullscreen (s, n) = do { s \<leftarrow> sc_screen_toggle_fullscreen env s; Some (s, n) }"
| "screen_exec env Op_resize_to_fit (s, n) = do { s \<leftarrow> sc_screen_resize_to_fit env s; Some (s, n) }"
| "screen_exec env Op_pixel_perfect (s, n) = do { s \<leftarrow> sc_screen_resize_to_pixel_perfect env s; Some (s, n) }"
| "screen_exec env Op_restored (s, n) =
     (if scr_video s \<and> is_windowed env s then do {
        s \<leftarrow> apply_pending_resize env s;
        s \<leftarrow> sc_screen_render env s True;
        Some (s, n)
      } else Some (s, n))"
| "screen_exec env Op_exposed (s, n) = do { s \<leftarrow> sc_screen_render env s True; Some (s, n) }"
| "screen_exec env (Op_resized w h) (s, n) = do { s \<leftarrow> sc_screen_on_resized env s w h; Some (s, n) }"

fun screen_enabled :: "screen_op \<Rightarrow> nat \<Rightarrow> bool" where
  "screen_enabled (Op_frame _ _ f) n = frame_ok f"
| "screen_enabled (Op_new_frame _) n = (0 < n)"
| "screen_enabled (Op_resized w h) n = (0 < w \<and> w \<le> 0xFFFF \<and> 0 < h \<and> h \<le> 0xFFFF)"
| "screen_enabled _ n = True"

inductive screen_reach :: "screen_env \<Rightarrow> sc_screen \<Rightarrow> sc_screen \<times> nat \<Rightarrow> bool" for env s0 where
  start: "screen_reach env s0 (s0, 0)"
| step: "screen_reach env s0 (s, n) \<Longrightarrow> screen_enabled op n \<Longrightarrow> screen_exec env op (s, n) = Some s' \<Longrightarrow>
    screen_reach env s0 s'"

definition frame_events_inv :: "sc_screen \<times> nat \<Rightarrow> bool" where
  "frame_events_inv = (\<lambda>(s, n). n \<le> 1 \<and> (n = 1 \<longrightarrow> sc_frame_buffer_has_frame (scr_fb s)))"

lemma frame_push_step:
  assumes "screen_inv s" "frame_events_inv (s, n)" "frame_ok f"
  shows "\<exists>s'. screen_exec env (Op_frame ref_ok event_ok f) (s, n) = Some s' \<and> screen_inv (fst s') \<and>
    frame_events_inv s'"
proof -
  from frame_sink_push_ok [OF assms(1,3), of ref_ok event_ok] obtain ok s' where
    p: "sc_screen_frame_sink_push ref_ok event_ok s f = Some (ok, s')" "screen_inv s'"
      "if ref_ok then fb_pending_frame (scr_fb s') = Some f \<and>
       scr_effects s' = scr_effects s @ (if sc_frame_buffer_has_frame (scr_fb s) then [Fps_skipped]
         else if event_ok then [Push_event SC_EVENT_NEW_FRAME] else [])
       else scr_fb s' = scr_fb s \<and> scr_effects s' = scr_effects s"
    by blast
  have "ref_ok \<Longrightarrow> sc_frame_buffer_has_frame (scr_fb s')"
    using p(2,3) by (simp add: sc_frame_buffer_has_frame_def screen_inv_def fb_inv_def)
  then show ?thesis
    using p assms(2) by (cases ref_ok) (auto simp: frame_events_inv_def new_frame_events_def)
qed

lemma screen_step_ok:
  assumes "screen_inv s" "env_sane env" "frame_events_inv (s, n)" "screen_enabled op n"
  shows "\<exists>s'. screen_exec env op (s, n) = Some s' \<and> screen_inv (fst s') \<and> frame_events_inv s'"
proof (cases op)
  case (Op_frame ref_ok event_ok f)
  with frame_push_step [OF assms(1,3)] assms(4) show ?thesis by simp
next
  case (Op_session ss)
  with assms(1,3) show ?thesis
    by (simp add: sc_screen_frame_sink_push_session_def screen_inv_def frame_events_inv_def)
next
  case (Op_new_frame alloc_ok)
  with assms(3,4) have "sc_frame_buffer_has_frame (scr_fb s)" "n = 1"
    by (auto simp: frame_events_inv_def)
  with update_frame_ok [OF assms(1,2), of alloc_ok] Op_new_frame show ?thesis
    by (auto simp: frame_events_inv_def)
next
  case (Op_set_orientation ori)
  with set_orientation_ok [OF assms(1,2), of ori] assms(3) show ?thesis
    by (auto simp: frame_events_inv_def)
next
  case (Op_set_paused b)
  with set_paused_ok [OF assms(1,2), of b] assms(3) show ?thesis by (auto simp: frame_events_inv_def)
next
  case Op_toggle_fullscreen
  with assms(1,3) screen_invD(1) [OF assms(1)] show ?thesis
    by (auto simp: sc_screen_toggle_fullscreen_def frame_events_inv_def effect_def screen_inv_def)
next
  case Op_resize_to_fit
  with resize_to_fit_ok [OF assms(1), of env] assms(3) show ?thesis by (auto simp: frame_events_inv_def)
next
  case Op_pixel_perfect
  with pixel_perfect_ok [OF assms(1), of env] assms(3) show ?thesis by (auto simp: frame_events_inv_def)
next
  case Op_restored
  show ?thesis
  proof (cases "is_windowed env s")
    case True
    from pending_resize_ok [OF assms(1) True] obtain s1 where
      s1: "apply_pending_resize env s = Some s1" "screen_inv s1" "scr_fb s1 = scr_fb s" by blast
    from render_ok [OF s1(2), of env True] obtain s2 where
      "sc_screen_render env s1 True = Some s2" "screen_inv s2" "same_screen s1 s2" by blast
    with s1 assms(3) Op_restored True screen_invD(1) [OF assms(1)] show ?thesis
      by (auto simp: frame_events_inv_def same_screen_def)
  qed (use Op_restored assms in \<open>simp\<close>)
next
  case Op_exposed
  with render_ok [OF assms(1), of env True] assms(3) show ?thesis
    by (auto simp: frame_events_inv_def same_screen_def)
next
  case (Op_resized w h)
  with on_resized_ok [OF assms(1), of w h env] assms(3,4) show ?thesis
    by (auto simp: frame_events_inv_def)
qed

lemma screen_reach_inv:
  assumes "screen_reach env s0 c" "screen_inv s0" "env_sane env"
  shows "screen_inv (fst c) \<and> frame_events_inv c"
  using assms(1)
proof induction
  case start
  with assms(2) show ?case by (simp add: frame_events_inv_def)
next
  case (step s n op s')
  then show ?case using screen_step_ok [OF _ assms(3), of s n op] by auto
qed

fun fb_pushes :: "sc_frame_buffer \<Rightarrow> (bool \<times> av_frame) list \<Rightarrow> sc_frame_buffer" where
  "fb_pushes fb [] = fb"
| "fb_pushes fb ((ref_ok, f) # fs) = fb_pushes (fst (sc_frame_buffer_push ref_ok fb f)) fs"

lemma fb_pushes_failed: "fb_inv fb \<Longrightarrow> filter fst fs = [] \<Longrightarrow> fb_pushes fb fs = fb"
  by (induction fb fs rule: fb_pushes.induct) (auto simp: fb_push_eq split: if_splits)

section \<open>Properties\<close>

text \<open>
  C23: The screen never aborts: once its window is shown, whatever sequence of frames, sessions, window
  events, rotations, pauses and resizes follows, every assertion holds and no division by zero is
  reached, provided that frames and resize events have dimensions that fit 16 bits and that the
  window is never empty. The size of the content is always the size of the frame in the current
  orientation, at most one new-frame event is queued, and it always finds its frame.
\<close>

theorem screen_never_aborts:
  assumes "screen_reach env s0 (s, n)" "screen_inv s0" "env_sane env"
  shows "scr_content_size s = get_oriented_size (scr_frame_size s) (scr_orientation s) \<and>
    n \<le> 1 \<and> (n = 1 \<longrightarrow> sc_frame_buffer_has_frame (scr_fb s)) \<and>
    (\<forall>op. screen_enabled op n \<longrightarrow> screen_exec env op (s, n) \<noteq> None)"
proof -
  have i: "screen_inv s" "frame_events_inv (s, n)"
    using screen_reach_inv [OF assms] by simp_all
  then have "screen_enabled op n \<Longrightarrow> screen_exec env op (s, n) \<noteq> None" for op
    using screen_step_ok [OF i(1) assms(3) i(2), of op] by auto
  with i show ?thesis by (auto simp: screen_inv_def frame_events_inv_def)
qed

definition some_screen :: sc_screen where
  "some_screen = \<lparr>scr_video = True, scr_camera = False, scr_window_aspect_ratio_lock = True,
     scr_flex_display = False, scr_fb = sc_frame_buffer_init, scr_prevent_auto_resize = False,
     scr_req_x = None, scr_req_y = None, scr_req_width = 0, scr_req_height = 0,
     scr_req_fullscreen = False, scr_req_start_fps_counter = False,
     scr_render_fit = SC_RENDER_FIT_LETTERBOX, scr_frame_size = \<lparr>width = 1080, height = 1920\<rparr>,
     scr_content_size = \<lparr>width = 1080, height = 1920\<rparr>, scr_resize_pending = False,
     scr_windowed_content_size = \<lparr>width = 0, height = 0\<rparr>, scr_orientation = SC_ORIENTATION_0,
     scr_rect = \<lparr>fr_x = 0, fr_y = 0, fr_w = 1080, fr_h = 1920\<rparr>, scr_window_shown = True,
     scr_current_session = \<lparr>ss_width = 1080, ss_height = 1920, ss_client_resized = False\<rparr>,
     scr_frame = None, scr_paused = False, scr_resume_frame = None, scr_disconnected = False,
     scr_disconnect_started = False, scr_tracker_time = 0,
     scr_tracker_size = \<lparr>width = 0, height = 0\<rparr>, scr_texture = False, scr_fps_started = False,
     scr_effects = []\<rparr>"

definition some_env :: screen_env where
  "some_env = \<lparr>env_window_size = (\<lambda>_. \<lparr>width = 500, height = 500\<rparr>), env_window_position = (\<lambda>_. (0, 0)),
     env_is_windowed = (\<lambda>_. True), env_is_fullscreen = (\<lambda>_. False), env_windowpos_centered = 0,
     env_display = (\<lambda>_. None), env_pixel_density = (\<lambda>_. 1), env_now = (\<lambda>_. 1), env_ok = (\<lambda>_. True)\<rparr>"

lemma some_screen_inv: "screen_inv some_screen" "env_sane some_env"
  by (simp_all add: screen_inv_def some_screen_def some_env_def env_sane_def nonempty_def
      get_oriented_size_def sc_orientation_is_swap_def fb_inv_def sc_frame_buffer_init_def)

lemma screen_never_aborts_witness:
  "\<exists>s. screen_reach some_env some_screen (s, 0) \<and>
    scr_content_size s = \<lparr>width = 1920, height = 1080\<rparr> \<and>
    screen_exec some_env (Op_set_paused True) (s, 0) \<noteq> None"
proof -
  from set_orientation_ok [OF some_screen_inv, of SC_ORIENTATION_90] obtain s where
    s: "sc_screen_set_orientation some_env some_screen SC_ORIENTATION_90 = Some s"
      "scr_orientation s = SC_ORIENTATION_90" "scr_frame_size s = scr_frame_size some_screen" by blast
  have r: "screen_reach some_env some_screen (s, 0)"
    by (rule screen_reach.step [OF screen_reach.start, of "Op_set_orientation SC_ORIENTATION_90"])
      (simp_all add: s(1))
  note t = screen_never_aborts [OF r some_screen_inv]
  have "scr_content_size s = \<lparr>width = 1920, height = 1080\<rparr>"
    unfolding conjunct1 [OF t] s(2,3)
    by (simp add: get_oriented_size_def sc_orientation_is_swap_def some_screen_def)
  moreover have "screen_exec some_env (Op_set_paused True) (s, 0) \<noteq> None"
    by (rule t [THEN conjunct2, THEN conjunct2, THEN conjunct2, THEN spec, THEN mp])
      (simp only: screen_enabled.simps)
  ultimately show ?thesis using r by blast
qed

text \<open>
  The frame buffer always delivers the latest frame: whatever frames were pushed before it was
  consumed, and whichever of those pushes failed, the consumer gets the last frame whose push
  succeeded, and the buffer is empty again.
\<close>

theorem frame_buffer_delivers_latest:
  assumes "fb_inv fb" "filter fst fs \<noteq> []"
  shows "sc_frame_buffer_consume (fb_pushes fb fs) =
    Some (Some (snd (last (filter fst fs))), sc_frame_buffer_init)"
proof -
  have pushed: "fb_inv (fb_pushes fb fs) \<and> fb_pending_frame (fb_pushes fb fs) =
      Some (snd (last (filter fst fs))) \<and> sc_frame_buffer_has_frame (fb_pushes fb fs)"
    using assms
  proof (induction fb fs rule: fb_pushes.induct)
    case (2 fb ref_ok f fs)
    then show ?case
    proof (cases "filter fst fs = []")
      case True
      with 2(3) have "ref_ok" by (simp split: if_splits)
      with True 2(2) show ?thesis
        by (simp add: fb_push_eq fb_pushes_failed fb_inv_def sc_frame_buffer_has_frame_def)
    next
      case False
      have "fb_inv (fst (sc_frame_buffer_push ref_ok fb f))"
        using 2(2) by (simp add: fb_push_eq fb_inv_def)
      from 2(1) [OF this False] False show ?thesis by simp
    qed
  qed simp
  with fb_consume_eq [of "fb_pushes fb fs"] show ?thesis
    by (auto simp: sc_frame_buffer_init_def)
qed

lemma frame_buffer_delivers_latest_witness:
  "sc_frame_buffer_consume (fb_pushes sc_frame_buffer_init
      [(True, \<lparr>av_width = 2, av_height = 2, av_pts = 0, av_data = 1, av_nb_samples = 0\<rparr>),
       (True, \<lparr>av_width = 2, av_height = 2, av_pts = 0, av_data = 2, av_nb_samples = 0\<rparr>),
       (False, \<lparr>av_width = 2, av_height = 2, av_pts = 0, av_data = 3, av_nb_samples = 0\<rparr>)]) =
    Some (Some \<lparr>av_width = 2, av_height = 2, av_pts = 0, av_data = 2, av_nb_samples = 0\<rparr>, sc_frame_buffer_init)"
  by (subst frame_buffer_delivers_latest) (simp_all add: fb_inv_def sc_frame_buffer_init_def)

end
