(* ===== verification/Sc_File_Pusher.thy ===== *)
theory Sc_File_Pusher
  imports Sc_Vecdeque
begin

text \<open>
  \<open>file_pusher.c\<close>: the queue of dropped files and the thread that installs or pushes them with adb, as a
  transition system of the main thread and the pusher thread. A step of a thread is what it does while
  it holds the mutex.
\<close>

datatype sc_file_pusher_action = SC_FILE_PUSHER_ACTION_INSTALL_APK | SC_FILE_PUSHER_ACTION_PUSH_FILE

record sc_file_pusher_req =
  fpr_action :: sc_file_pusher_action
  fpr_file :: bytes

record sc_file_pusher =
  fp_serial :: bytes
  fp_push_target :: bytes
  fp_stopped :: bool
  fp_initialized :: bool
  fp_queue :: "sc_file_pusher_req sc_vecdeque"

text \<open>\<open>/sdcard/Download/\<close>\<close>

definition DEFAULT_PUSH_TARGET :: bytes where
  "DEFAULT_PUSH_TARGET = [0x2F, 0x73, 0x64, 0x63, 0x61, 0x72, 0x64, 0x2F, 0x44, 0x6F, 0x77, 0x6E, 0x6C,
     0x6F, 0x61, 0x64, 0x2F]"

text \<open>The inner \<open>None\<close> is the result \<open>false\<close>.\<close>

definition sc_file_pusher_init ::
    "bool \<Rightarrow> bool \<Rightarrow> bool \<Rightarrow> bool \<Rightarrow> bytes option \<Rightarrow> bytes option \<Rightarrow> sc_file_pusher option option" where
  "sc_file_pusher_init mutex_ok cond_ok intr_ok strdup_ok serial push_target = do {
     serial \<leftarrow> serial;
     if \<not> mutex_ok then Some None
     else if \<not> cond_ok then Some None
     else if \<not> intr_ok then Some None
     else if \<not> strdup_ok then Some None
     else Some (Some \<lparr>fp_serial = serial,
       fp_push_target = (case push_target of Some t \<Rightarrow> t | None \<Rightarrow> DEFAULT_PUSH_TARGET),
       fp_stopped = False, fp_initialized = False, fp_queue = sc_vecdeque_init\<rparr>)
   }"

text \<open>State, result, and whether the condition is signaled; \<open>thread_ok\<close> is whether a thread can start.\<close>

definition sc_file_pusher_request ::
    "(nat \<Rightarrow> bool) \<Rightarrow> nat \<Rightarrow> bool \<Rightarrow> sc_file_pusher \<Rightarrow> sc_file_pusher_action \<Rightarrow> bytes \<Rightarrow>
      (sc_file_pusher \<times> bool \<times> bool) option" where
  "sc_file_pusher_request alloc M thread_ok fp action file =
     (if \<not> fp_initialized fp \<and> \<not> thread_ok then Some (fp, False, False)
      else do {
        let fp = fp\<lparr>fp_initialized := True\<rparr>;
        let req = \<lparr>fpr_action = action, fpr_file = file\<rparr>;
        let was_empty = sc_vecdeque_is_empty (fp_queue fp);
        (queue, res) \<leftarrow> sc_vecdeque_push alloc M (fp_queue fp) req;
        if \<not> res then Some (fp\<lparr>fp_queue := queue\<rparr>, False, False)
        else Some (fp\<lparr>fp_queue := queue\<rparr>, True, was_empty)
      })"

datatype file_pusher_take = FP_wait | FP_stopped | FP_request sc_file_pusher_req

text \<open>From taking the lock to waiting or releasing it.\<close>

definition file_pusher_take :: "sc_file_pusher \<Rightarrow> (file_pusher_take \<times> sc_file_pusher) option" where
  "file_pusher_take fp =
     (if \<not> fp_stopped fp \<and> sc_vecdeque_is_empty (fp_queue fp) then Some (FP_wait, fp)
      else if fp_stopped fp then Some (FP_stopped, fp)
      else do {
        c_assert (\<not> sc_vecdeque_is_empty (fp_queue fp));
        (req, queue) \<leftarrow> sc_vecdeque_pop (fp_queue fp);
        Some (FP_request req, fp\<lparr>fp_queue := queue\<rparr>)
      })"

text \<open>What is asked of adb for a request.\<close>

datatype adb_command = Adb_install bytes bytes | Adb_push bytes bytes bytes

definition request_command :: "sc_file_pusher \<Rightarrow> sc_file_pusher_req \<Rightarrow> adb_command" where
  "request_command fp req =
     (if fpr_action req = SC_FILE_PUSHER_ACTION_INSTALL_APK then Adb_install (fp_serial fp) (fpr_file req)
      else Adb_push (fp_serial fp) (fpr_file req) (fp_push_target fp))"

text \<open>State and whether the condition is signaled.\<close>

definition sc_file_pusher_stop :: "sc_file_pusher \<Rightarrow> sc_file_pusher \<times> bool" where
  "sc_file_pusher_stop fp =
     (if fp_initialized fp then (fp\<lparr>fp_stopped := True\<rparr>, True) else (fp, False))"

text \<open>The files that are freed at the end.\<close>

definition sc_file_pusher_destroy :: "sc_file_pusher \<Rightarrow> bytes list option" where
  "sc_file_pusher_destroy fp = do {
     requests \<leftarrow> vd_drain (fp_queue fp);
     Some (map fpr_file requests)
   }"

section \<open>The two threads\<close>

datatype file_pusher_pc = FP_not_started | FP_at_lock | FP_waiting | FP_running sc_file_pusher_req
  | FP_ended

text \<open>With the requests that were accepted, the commands that were run, and the files that were freed.\<close>

record fp_system =
  fps_fp :: sc_file_pusher
  fps_pc :: file_pusher_pc
  fps_accepted :: "sc_file_pusher_req list"
  fps_commands :: "adb_command list"
  fps_freed :: "bytes list"

fun after_fp_take :: "file_pusher_take \<Rightarrow> file_pusher_pc" where
  "after_fp_take FP_wait = FP_waiting"
| "after_fp_take FP_stopped = FP_ended"
| "after_fp_take (FP_request req) = FP_running req"

definition fp_signal :: "bool \<Rightarrow> file_pusher_pc \<Rightarrow> file_pusher_pc" where
  "fp_signal signal pc = (if signal \<and> pc = FP_waiting then FP_at_lock else pc)"

text \<open>A request starts the thread if it is the first one that can.\<close>

definition fp_started :: "sc_file_pusher \<Rightarrow> file_pusher_pc \<Rightarrow> file_pusher_pc" where
  "fp_started fp pc = (if fp_initialized fp \<and> pc = FP_not_started then FP_at_lock else pc)"

inductive fp_step :: "nat \<Rightarrow> fp_system \<Rightarrow> fp_system \<Rightarrow> bool" for M where
  request: "sc_file_pusher_request alloc M thread_ok (fps_fp s) action file = Some (fp, res, signal) \<Longrightarrow>
    fp_step M s (s\<lparr>fps_fp := fp, fps_pc := fp_signal signal (fp_started fp (fps_pc s)),
      fps_accepted := fps_accepted s @ (if res then [\<lparr>fpr_action = action, fpr_file = file\<rparr>] else []),
      fps_freed := fps_freed s @ (if res then [] else [file])\<rparr>)"
| take: "fps_pc s = FP_at_lock \<Longrightarrow> file_pusher_take (fps_fp s) = Some (t, fp) \<Longrightarrow>
    fp_step M s (s\<lparr>fps_fp := fp, fps_pc := after_fp_take t\<rparr>)"
| spurious: "fps_pc s = FP_waiting \<Longrightarrow> fp_step M s (s\<lparr>fps_pc := FP_at_lock\<rparr>)"
| run: "fps_pc s = FP_running req \<Longrightarrow>
    fp_step M s (s\<lparr>fps_pc := FP_at_lock, fps_commands := fps_commands s @ [request_command (fps_fp s) req],
      fps_freed := fps_freed s @ [fpr_file req]\<rparr>)"
| stop: "sc_file_pusher_stop (fps_fp s) = (fp, signal) \<Longrightarrow>
    fp_step M s (s\<lparr>fps_fp := fp, fps_pc := fp_signal signal (fps_pc s)\<rparr>)"

inductive_cases fp_stepE: "fp_step M s s'"

inductive fp_reachable :: "nat \<Rightarrow> fp_system \<Rightarrow> bool" for M where
  start: "sc_file_pusher_init True True True True serial push_target = Some (Some fp) \<Longrightarrow>
    fp_reachable M \<lparr>fps_fp = fp, fps_pc = FP_not_started, fps_accepted = [], fps_commands = [],
      fps_freed = []\<rparr>"
| step: "fp_reachable M s \<Longrightarrow> fp_step M s s' \<Longrightarrow> fp_reachable M s'"

section \<open>Invariants\<close>

fun running_request :: "file_pusher_pc \<Rightarrow> sc_file_pusher_req list" where
  "running_request (FP_running req) = [req]"
| "running_request _ = []"

definition fp_sys_inv :: "nat \<Rightarrow> fp_system \<Rightarrow> bool" where
  "fp_sys_inv M s \<longleftrightarrow>
     (let fp = fps_fp s; pc = fps_pc s; waiting = running_request pc @ vd_content (fp_queue fp) in
      vd_inv M (fp_queue fp) \<and>
      (fp_initialized fp \<longleftrightarrow> pc \<noteq> FP_not_started) \<and>
      (pc = FP_waiting \<longrightarrow> \<not> fp_stopped fp \<and> vd_content (fp_queue fp) = []) \<and>
      (pc = FP_not_started \<longrightarrow> vd_content (fp_queue fp) = []) \<and>
      fps_commands s @ map (request_command fp) waiting = map (request_command fp) (fps_accepted s))"

lemma request_spec:
  assumes "vd_inv M (fp_queue fp)"
  shows "\<exists>fp' res. sc_file_pusher_request alloc M thread_ok fp action file =
      Some (fp', res, res \<and> vd_content (fp_queue fp) = []) \<and> vd_inv M (fp_queue fp') \<and>
    fp_initialized fp' = (fp_initialized fp \<or> thread_ok) \<and> (res \<longrightarrow> fp_initialized fp') \<and>
    fp_stopped fp' = fp_stopped fp \<and> request_command fp' = request_command fp \<and>
    vd_content (fp_queue fp') = vd_content (fp_queue fp) @
      (if res then [\<lparr>fpr_action = action, fpr_file = file\<rparr>] else [])"
proof (cases "\<not> fp_initialized fp \<and> \<not> thread_ok")
  case True
  with assms show ?thesis by (auto simp: sc_file_pusher_request_def)
next
  case False
  let ?req = "\<lparr>fpr_action = action, fpr_file = file\<rparr>"
  from push_vecdeque_spec [OF assms, of alloc ?req] obtain queue ok where
    q: "sc_vecdeque_push alloc M (fp_queue fp) ?req = Some (queue, ok)" "vd_inv M queue"
      "vd_content queue = (if ok then vd_content (fp_queue fp) @ [?req] else vd_content (fp_queue fp))"
    by blast
  with False show ?thesis
    by (cases ok) (auto simp: sc_file_pusher_request_def vd_content_empty request_command_def fun_eq_iff)
qed

lemma fp_take_spec:
  assumes "vd_inv M (fp_queue fp)"
  shows "\<exists>t fp'. file_pusher_take fp = Some (t, fp') \<and> vd_inv M (fp_queue fp') \<and>
    fp_initialized fp' = fp_initialized fp \<and> fp_stopped fp' = fp_stopped fp \<and>
    request_command fp' = request_command fp \<and> after_fp_take t \<noteq> FP_not_started \<and>
    running_request (after_fp_take t) @ vd_content (fp_queue fp') = vd_content (fp_queue fp) \<and>
    (t = FP_wait \<longrightarrow> \<not> fp_stopped fp \<and> vd_content (fp_queue fp) = []) \<and>
    (t = FP_stopped \<longleftrightarrow> fp_stopped fp)"
proof (cases "fp_stopped fp \<or> vd_content (fp_queue fp) = []")
  case True
  with assms show ?thesis by (auto simp: file_pusher_take_def vd_content_empty)
next
  case False
  then obtain r rs where c: "vd_content (fp_queue fp) = r # rs" by (auto simp: neq_Nil_conv)
  then have ne: "\<not> sc_vecdeque_is_empty (fp_queue fp)" by (metis vd_content_empty list.distinct(1))
  from pop_vecdeque_spec [OF assms c] obtain queue where
    "sc_vecdeque_pop (fp_queue fp) = Some (r, queue)" "vd_inv M queue" "vd_content queue = rs"
    by blast
  with False c ne show ?thesis by (auto simp: file_pusher_take_def request_command_def fun_eq_iff)
qed

lemma fp_sys_inv_step:
  assumes "fp_step M s s'" "fp_sys_inv M s"
  shows "fp_sys_inv M s'"
proof -
  from assms(2) have vd: "vd_inv M (fp_queue (fps_fp s))" by (simp add: fp_sys_inv_def Let_def)
  from assms(1) show ?thesis
  proof (cases rule: fp_step.cases)
    case (request alloc thread_ok action name fp res signal)
    from request_spec [OF vd, of alloc thread_ok action name] request(2) assms(2) show ?thesis
      unfolding request(1) by (auto simp: fp_sys_inv_def Let_def fp_signal_def fp_started_def)
  next
    case (take t fp)
    from fp_take_spec [OF vd] take(3) obtain
      t: "vd_inv M (fp_queue fp)" "fp_initialized fp = fp_initialized (fps_fp s)"
        "fp_stopped fp = fp_stopped (fps_fp s)" "request_command fp = request_command (fps_fp s)"
        "after_fp_take t \<noteq> FP_not_started"
        "running_request (after_fp_take t) @ vd_content (fp_queue fp) = vd_content (fp_queue (fps_fp s))"
        "t = FP_wait \<longrightarrow> \<not> fp_stopped (fps_fp s) \<and> vd_content (fp_queue (fps_fp s)) = []"
      by auto
    from arg_cong [OF t(6), of "map (request_command (fps_fp s))"]
    have "map (request_command (fps_fp s)) (running_request (after_fp_take t)) @
        map (request_command (fps_fp s)) (vd_content (fp_queue fp)) =
      map (request_command (fps_fp s)) (vd_content (fp_queue (fps_fp s)))" by simp
    with t take(2) assms(2) show ?thesis
      unfolding take(1) by (cases t) (auto simp: fp_sys_inv_def Let_def)
  next
    case spurious
    with assms(2) show ?thesis by (auto simp: fp_sys_inv_def Let_def)
  next
    case (run req)
    with assms(2) show ?thesis by (auto simp: fp_sys_inv_def Let_def)
  next
    case (stop fp signal)
    have c: "request_command (fps_fp s\<lparr>fp_stopped := True\<rparr>) = request_command (fps_fp s)"
      by (simp add: request_command_def fun_eq_iff)
    from stop assms(2) c show ?thesis
      by (auto simp: fp_sys_inv_def Let_def sc_file_pusher_stop_def fp_signal_def split: if_splits)
  qed
qed

lemma fp_reachable_inv:
  assumes "fp_reachable M s" "M \<le> SIZE_MAX div 2"
  shows "fp_sys_inv M s"
  using assms(1)
proof induction
  case (start serial push_target fp)
  then show ?case
    using vd_init [OF assms(2), where 'a = sc_file_pusher_req]
    by (auto simp: sc_file_pusher_init_def fp_sys_inv_def Let_def bind_eq_Some_conv)
next
  case (step s s')
  then show ?case using fp_sys_inv_step by blast
qed

lemma fp_destroy_spec:
  "vd_inv M (fp_queue fp) \<Longrightarrow>
    sc_file_pusher_destroy fp = Some (map fpr_file (vd_content (fp_queue fp)))"
  by (simp add: sc_file_pusher_destroy_def vd_drain_spec)

section \<open>Properties\<close>

text \<open>
  C27: The files that are dropped on the window are handled one after the other, in the order in which
  they were accepted, each by exactly one adb command: the commands run so far are those for the first
  requests, what is left is being run or is queued, and the thread never waits while a file is queued
  or after it was stopped. When everything is destroyed, exactly the queued files remain to be freed.
\<close>

theorem file_pusher_in_order:
  assumes "fp_reachable M s" "M \<le> SIZE_MAX div 2"
  shows "map (request_command (fps_fp s)) (fps_accepted s) =
      fps_commands s @ map (request_command (fps_fp s))
        (running_request (fps_pc s) @ vd_content (fp_queue (fps_fp s))) \<and>
    (fps_pc s = FP_waiting \<longrightarrow> vd_content (fp_queue (fps_fp s)) = [] \<and> \<not> fp_stopped (fps_fp s)) \<and>
    sc_file_pusher_destroy (fps_fp s) = Some (map fpr_file (vd_content (fp_queue (fps_fp s))))"
  using fp_reachable_inv [OF assms] fp_destroy_spec [of M "fps_fp s"]
  by (simp add: fp_sys_inv_def Let_def)

lemma file_pusher_in_order_witness:
  "\<exists>s. fp_reachable 100 s \<and> fps_accepted s = [\<lparr>fpr_action = SC_FILE_PUSHER_ACTION_PUSH_FILE, fpr_file = [0x61]\<rparr>] \<and>
    map (request_command (fps_fp s)) (fps_accepted s) = [Adb_push [0x30] [0x61] DEFAULT_PUSH_TARGET] \<and>
    sc_file_pusher_destroy (fps_fp s) = Some (map fpr_file (vd_content (fp_queue (fps_fp s))))"
proof -
  let ?fp = "\<lparr>fp_serial = [0x30], fp_push_target = DEFAULT_PUSH_TARGET, fp_stopped = False,
    fp_initialized = False, fp_queue = sc_vecdeque_init\<rparr>"
  let ?s = "\<lparr>fps_fp = ?fp, fps_pc = FP_not_started, fps_accepted = [], fps_commands = [], fps_freed = []\<rparr>"
  have r: "fp_reachable 100 ?s"
    by (rule fp_reachable.start [where serial = "Some [0x30]" and push_target = None])
      (simp add: sc_file_pusher_init_def)
  let ?r = "\<lparr>fpr_action = SC_FILE_PUSHER_ACTION_PUSH_FILE, fpr_file = [0x61]\<rparr>"
  obtain queue where q: "sc_vecdeque_push (\<lambda>_. True) 100 sc_vecdeque_init ?r = Some (queue, True)"
    by (simp add: sc_vecdeque_push_def sc_vecdeque_grow_if_needed_def sc_vecdeque_is_full_def
        sc_vecdeque_init_def sc_vecdeque_grow_def sc_vecdeque_growsize_def SC_VECDEQUE_MINCAP_def
        sz_clamp_def sc_vecdeque_reallocdata_def sc_vecdeque_push_noresize_def
        sc_vecdeque_push_uninitialized_noresize_def Let_def)
  have p: "sc_file_pusher_request (\<lambda>_. True) 100 True (fps_fp ?s) SC_FILE_PUSHER_ACTION_PUSH_FILE [0x61] =
      Some (?fp\<lparr>fp_initialized := True, fp_queue := queue\<rparr>, True, True)"
    using q by (simp add: sc_file_pusher_request_def sc_vecdeque_init_def sc_vecdeque_is_empty_def)
  let ?s' = "?s\<lparr>fps_fp := ?fp\<lparr>fp_initialized := True, fp_queue := queue\<rparr>,
    fps_pc := fp_signal True (fp_started (?fp\<lparr>fp_initialized := True, fp_queue := queue\<rparr>) (fps_pc ?s)),
    fps_accepted := fps_accepted ?s @ [?r], fps_freed := fps_freed ?s\<rparr>"
  have "fp_reachable 100 ?s'"
    using fp_reachable.step [OF r fp_step.request [OF p]] by simp
  from file_pusher_in_order [OF this] this show ?thesis
    by (intro exI [of _ ?s']) (simp add: request_command_def SIZE_MAX_def)
qed

end
