(* ===== verification/Sc_Input_Manager.thy ===== *)
theory Sc_Input_Manager
  imports Sc_Input_Events Sc_Android Sc_Control_Sink Sc_Screen Sc_Acksync Sc_File_Pusher
begin

text \<open>
  \<open>input_manager.c\<close>, \<open>shortcut_mod.h\<close>, \<open>mouse_capture.c\<close>: what becomes of the events of the window.

  The processors are records of functions, as the tables of function pointers in C; they act on a world
  \<open>'w\<close> in which the controller, the processors and the file pusher live. A missing pointer is \<open>None\<close>, and
  calling through it aborts. What SDL answers during one event is a record (\<open>sdl_query\<close>). The modifiers
  are those that have a name in \<open>input_events.h\<close>; coordinates are rationals, cut to \<open>int32_t\<close>.
\<close>

section \<open>The interfaces\<close>

record 'w sc_key_processor =
  kp_async_paste :: bool
  kp_hid :: bool
  kp_process_key :: "'w \<Rightarrow> sc_key_event \<Rightarrow> u64 \<Rightarrow> 'w option"
  kp_process_text :: "('w \<Rightarrow> bytes \<Rightarrow> 'w option) option"

record 'w sc_mouse_processor =
  mp_relative_mode :: bool
  mp_process_mouse_motion :: "'w \<Rightarrow> sc_mouse_motion_event \<Rightarrow> 'w option"
  mp_process_mouse_click :: "'w \<Rightarrow> sc_mouse_click_event \<Rightarrow> 'w option"
  mp_process_mouse_scroll :: "('w \<Rightarrow> sc_mouse_scroll_event \<Rightarrow> 'w option) option"
  mp_process_touch :: "('w \<Rightarrow> sc_touch_event \<Rightarrow> 'w option) option"

record 'w sc_gamepad_processor =
  gp_process_gamepad_added :: "'w \<Rightarrow> u32 \<Rightarrow> 'w option"
  gp_process_gamepad_removed :: "'w \<Rightarrow> u32 \<Rightarrow> 'w option"
  gp_process_gamepad_axis :: "'w \<Rightarrow> sc_gamepad_axis_event \<Rightarrow> 'w option"
  gp_process_gamepad_button :: "'w \<Rightarrow> sc_gamepad_button_event \<Rightarrow> 'w option"

datatype sc_mouse_binding =
    SC_MOUSE_BINDING_AUTO | SC_MOUSE_BINDING_DISABLED | SC_MOUSE_BINDING_CLICK
  | SC_MOUSE_BINDING_BACK | SC_MOUSE_BINDING_HOME | SC_MOUSE_BINDING_APP_SWITCH
  | SC_MOUSE_BINDING_EXPAND_NOTIFICATION_PANEL

record sc_mouse_binding_set =
  mb_right_click :: sc_mouse_binding
  mb_middle_click :: sc_mouse_binding
  mb_click4 :: sc_mouse_binding
  mb_click5 :: sc_mouse_binding

record sc_mouse_bindings =
  mb_pri :: sc_mouse_binding_set
  mb_sec :: sc_mouse_binding_set

record 'w sc_input_manager =
  im_controller :: "'w push_msg option"
  im_fp :: "'w \<Rightarrow> sc_file_pusher_action \<Rightarrow> bytes \<Rightarrow> ('w \<times> bool) option"
  im_kp :: "'w sc_key_processor option"
  im_mp :: "'w sc_mouse_processor option"
  im_gp :: "'w sc_gamepad_processor option"
  im_camera :: bool
  im_mouse_bindings :: sc_mouse_bindings
  im_legacy_paste :: bool
  im_clipboard_autosync :: bool
  im_sdl_shortcut_mods :: "sc_mod set"
  im_vfinger_down :: bool
  im_vfinger_invert_x :: bool
  im_vfinger_invert_y :: bool
  im_mouse_buttons_state :: "sc_mouse_button set"
  im_key_repeat :: u32
  im_last_keycode :: sc_keycode
  im_last_mod :: "sc_mod set"
  im_next_sequence :: u64
  im_disconnected :: bool

fun present :: "'a option \<Rightarrow> bool" where
  "present None = False"
| "present (Some _) = True"

text \<open>What SDL answers while an event is handled, and whether \<open>strdup\<close> succeeds.\<close>

record sdl_query =
  q_clipboard :: "bytes option"
  q_strdup_ok :: bool
  q_mod_state :: "sc_mod set"
  q_mouse_x :: rat
  q_mouse_y :: rat
  q_relative_mouse_mode :: bool
  q_gamepad :: "u32 option"

section \<open>The shortcut modifiers\<close>

datatype sc_shortcut_mod =
    SC_SHORTCUT_MOD_LCTRL | SC_SHORTCUT_MOD_RCTRL | SC_SHORTCUT_MOD_LALT | SC_SHORTCUT_MOD_RALT
  | SC_SHORTCUT_MOD_LSUPER | SC_SHORTCUT_MOD_RSUPER

text \<open>The names of SDL for the key codes; \<open>input_events.h\<close> has the letters in lower case.\<close>

abbreviation SDLK_F11 :: sc_keycode where "SDLK_F11 \<equiv> SC_KEYCODE ''F11''"
abbreviation SDLK_UNKNOWN :: sc_keycode where "SDLK_UNKNOWN \<equiv> SC_KEYCODE ''UNKNOWN''"
abbreviation SDLK_BACKSPACE :: sc_keycode where "SDLK_BACKSPACE \<equiv> SC_KEYCODE ''BACKSPACE''"
abbreviation SDLK_DOWN :: sc_keycode where "SDLK_DOWN \<equiv> SC_KEYCODE ''DOWN''"
abbreviation SDLK_UP :: sc_keycode where "SDLK_UP \<equiv> SC_KEYCODE ''UP''"
abbreviation SDLK_LEFT :: sc_keycode where "SDLK_LEFT \<equiv> SC_KEYCODE ''LEFT''"
abbreviation SDLK_RIGHT :: sc_keycode where "SDLK_RIGHT \<equiv> SC_KEYCODE ''RIGHT''"
abbreviation SDLK_LCTRL :: sc_keycode where "SDLK_LCTRL \<equiv> SC_KEYCODE ''LCTRL''"
abbreviation SDLK_RCTRL :: sc_keycode where "SDLK_RCTRL \<equiv> SC_KEYCODE ''RCTRL''"
abbreviation SDLK_LALT :: sc_keycode where "SDLK_LALT \<equiv> SC_KEYCODE ''LALT''"
abbreviation SDLK_RALT :: sc_keycode where "SDLK_RALT \<equiv> SC_KEYCODE ''RALT''"
abbreviation SDLK_LGUI :: sc_keycode where "SDLK_LGUI \<equiv> SC_KEYCODE ''LGUI''"
abbreviation SDLK_RGUI :: sc_keycode where "SDLK_RGUI \<equiv> SC_KEYCODE ''RGUI''"
abbreviation SDLK_Z :: sc_keycode where "SDLK_Z \<equiv> SC_KEYCODE ''z''"
abbreviation SDLK_F :: sc_keycode where "SDLK_F \<equiv> SC_KEYCODE ''f''"
abbreviation SDLK_W :: sc_keycode where "SDLK_W \<equiv> SC_KEYCODE ''w''"
abbreviation SDLK_G :: sc_keycode where "SDLK_G \<equiv> SC_KEYCODE ''g''"
abbreviation SDLK_I :: sc_keycode where "SDLK_I \<equiv> SC_KEYCODE ''i''"
abbreviation SDLK_Q :: sc_keycode where "SDLK_Q \<equiv> SC_KEYCODE ''q''"
abbreviation SDLK_R :: sc_keycode where "SDLK_R \<equiv> SC_KEYCODE ''r''"
abbreviation SDLK_H :: sc_keycode where "SDLK_H \<equiv> SC_KEYCODE ''h''"
abbreviation SDLK_B :: sc_keycode where "SDLK_B \<equiv> SC_KEYCODE ''b''"
abbreviation SDLK_S :: sc_keycode where "SDLK_S \<equiv> SC_KEYCODE ''s''"
abbreviation SDLK_M :: sc_keycode where "SDLK_M \<equiv> SC_KEYCODE ''m''"
abbreviation SDLK_P :: sc_keycode where "SDLK_P \<equiv> SC_KEYCODE ''p''"
abbreviation SDLK_O :: sc_keycode where "SDLK_O \<equiv> SC_KEYCODE ''o''"
abbreviation SDLK_C :: sc_keycode where "SDLK_C \<equiv> SC_KEYCODE ''c''"
abbreviation SDLK_X :: sc_keycode where "SDLK_X \<equiv> SC_KEYCODE ''x''"
abbreviation SDLK_V :: sc_keycode where "SDLK_V \<equiv> SC_KEYCODE ''v''"
abbreviation SDLK_N :: sc_keycode where "SDLK_N \<equiv> SC_KEYCODE ''n''"
abbreviation SDLK_K :: sc_keycode where "SDLK_K \<equiv> SC_KEYCODE ''k''"
abbreviation SDLK_T :: sc_keycode where "SDLK_T \<equiv> SC_KEYCODE ''t''"

definition SDL_KMOD_CTRL :: "sc_mod set" where "SDL_KMOD_CTRL = {SC_MOD_LCTRL, SC_MOD_RCTRL}"
definition SDL_KMOD_SHIFT :: "sc_mod set" where "SDL_KMOD_SHIFT = {SC_MOD_LSHIFT, SC_MOD_RSHIFT}"
definition SDL_KMOD_ALT :: "sc_mod set" where "SDL_KMOD_ALT = {SC_MOD_LALT, SC_MOD_RALT}"
definition SDL_KMOD_GUI :: "sc_mod set" where "SDL_KMOD_GUI = {SC_MOD_LGUI, SC_MOD_RGUI}"

definition SC_SDL_SHORTCUT_MODS_MASK :: "sc_mod set" where
  "SC_SDL_SHORTCUT_MODS_MASK = SDL_KMOD_CTRL \<union> SDL_KMOD_ALT \<union> SDL_KMOD_GUI"

definition sc_shortcut_mods_to_sdl :: "sc_shortcut_mod set \<Rightarrow> sc_mod set" where
  "sc_shortcut_mods_to_sdl shortcut_mods =
     (if SC_SHORTCUT_MOD_LCTRL \<in> shortcut_mods then {SC_MOD_LCTRL} else {}) \<union>
     (if SC_SHORTCUT_MOD_RCTRL \<in> shortcut_mods then {SC_MOD_RCTRL} else {}) \<union>
     (if SC_SHORTCUT_MOD_LALT \<in> shortcut_mods then {SC_MOD_LALT} else {}) \<union>
     (if SC_SHORTCUT_MOD_RALT \<in> shortcut_mods then {SC_MOD_RALT} else {}) \<union>
     (if SC_SHORTCUT_MOD_LSUPER \<in> shortcut_mods then {SC_MOD_LGUI} else {}) \<union>
     (if SC_SHORTCUT_MOD_RSUPER \<in> shortcut_mods then {SC_MOD_RGUI} else {})"

definition sc_shortcut_mods_is_shortcut_mod :: "sc_mod set \<Rightarrow> sc_mod set \<Rightarrow> bool option" where
  "sc_shortcut_mods_is_shortcut_mod sdl_shortcut_mods sdl_mod = do {
     c_assert (sdl_shortcut_mods \<subseteq> SC_SDL_SHORTCUT_MODS_MASK);
     Some (sdl_mod \<inter> sdl_shortcut_mods \<noteq> {})
   }"

definition sc_shortcut_mods_is_shortcut_key :: "sc_mod set \<Rightarrow> sc_keycode \<Rightarrow> bool" where
  "sc_shortcut_mods_is_shortcut_key sdl_shortcut_mods keycode \<longleftrightarrow>
     (SC_MOD_LCTRL \<in> sdl_shortcut_mods \<and> keycode = SDLK_LCTRL) \<or>
     (SC_MOD_RCTRL \<in> sdl_shortcut_mods \<and> keycode = SDLK_RCTRL) \<or>
     (SC_MOD_LALT \<in> sdl_shortcut_mods \<and> keycode = SDLK_LALT) \<or>
     (SC_MOD_RALT \<in> sdl_shortcut_mods \<and> keycode = SDLK_RALT) \<or>
     (SC_MOD_LGUI \<in> sdl_shortcut_mods \<and> keycode = SDLK_LGUI) \<or>
     (SC_MOD_RGUI \<in> sdl_shortcut_mods \<and> keycode = SDLK_RGUI)"

section \<open>Actions\<close>

text \<open>A push through the pointer to the controller.\<close>

definition im_push :: "'w sc_input_manager \<Rightarrow> 'w push_msg" where
  "im_push im w msg = (case im_controller im of None \<Rightarrow> None | Some push \<Rightarrow> push w msg)"

text \<open>A failure of the push is only logged.\<close>

definition request :: "'w sc_input_manager \<Rightarrow> 'w \<Rightarrow> sc_control_msg \<Rightarrow> 'w option" where
  "request im w msg = do { (w, pushed) \<leftarrow> im_push im w msg; Some w }"

definition key_action :: "sc_action \<Rightarrow> u32" where
  "key_action action = (if action = SC_ACTION_DOWN then AKEY_EVENT_ACTION_DOWN else AKEY_EVENT_ACTION_UP)"

definition send_keycode :: "'w sc_input_manager \<Rightarrow> 'w \<Rightarrow> u32 \<Rightarrow> sc_action \<Rightarrow> 'w option" where
  "send_keycode im w keycode action = do {
     c_assert (present (im_controller im) \<and> present (im_kp im) \<and> \<not> im_camera im);
     request im w (INJECT_KEYCODE (key_action action) keycode 0 0)
   }"

definition action_home :: "'w sc_input_manager \<Rightarrow> 'w \<Rightarrow> sc_action \<Rightarrow> 'w option" where
  "action_home im w action = send_keycode im w AKEYCODE_HOME action"

definition action_back :: "'w sc_input_manager \<Rightarrow> 'w \<Rightarrow> sc_action \<Rightarrow> 'w option" where
  "action_back im w action = send_keycode im w AKEYCODE_BACK action"

definition action_app_switch :: "'w sc_input_manager \<Rightarrow> 'w \<Rightarrow> sc_action \<Rightarrow> 'w option" where
  "action_app_switch im w action = send_keycode im w AKEYCODE_APP_SWITCH action"

definition action_power :: "'w sc_input_manager \<Rightarrow> 'w \<Rightarrow> sc_action \<Rightarrow> 'w option" where
  "action_power im w action = send_keycode im w AKEYCODE_POWER action"

definition action_volume_up :: "'w sc_input_manager \<Rightarrow> 'w \<Rightarrow> sc_action \<Rightarrow> 'w option" where
  "action_volume_up im w action = send_keycode im w AKEYCODE_VOLUME_UP action"

definition action_volume_down :: "'w sc_input_manager \<Rightarrow> 'w \<Rightarrow> sc_action \<Rightarrow> 'w option" where
  "action_volume_down im w action = send_keycode im w AKEYCODE_VOLUME_DOWN action"

definition action_menu :: "'w sc_input_manager \<Rightarrow> 'w \<Rightarrow> sc_action \<Rightarrow> 'w option" where
  "action_menu im w action = send_keycode im w AKEYCODE_MENU action"

definition press_back_or_turn_screen_on :: "'w sc_input_manager \<Rightarrow> 'w \<Rightarrow> sc_action \<Rightarrow> 'w option" where
  "press_back_or_turn_screen_on im w action = do {
     c_assert (present (im_controller im) \<and> present (im_kp im) \<and> \<not> im_camera im);
     request im w (BACK_OR_SCREEN_ON (key_action action))
   }"

text \<open>The requests without a payload that are for the display of a device.\<close>

definition display_request :: "'w sc_input_manager \<Rightarrow> 'w \<Rightarrow> sc_control_msg \<Rightarrow> 'w option" where
  "display_request im w msg = do {
     c_assert (present (im_controller im) \<and> \<not> im_camera im);
     request im w msg
   }"

definition expand_notification_panel :: "'w sc_input_manager \<Rightarrow> 'w \<Rightarrow> 'w option" where
  "expand_notification_panel im w = display_request im w EXPAND_NOTIFICATION_PANEL"

definition expand_settings_panel :: "'w sc_input_manager \<Rightarrow> 'w \<Rightarrow> 'w option" where
  "expand_settings_panel im w = display_request im w EXPAND_SETTINGS_PANEL"

definition collapse_panels :: "'w sc_input_manager \<Rightarrow> 'w \<Rightarrow> 'w option" where
  "collapse_panels im w = display_request im w COLLAPSE_PANELS"

definition set_display_power :: "'w sc_input_manager \<Rightarrow> 'w \<Rightarrow> bool \<Rightarrow> 'w option" where
  "set_display_power im w on = display_request im w (SET_DISPLAY_POWER on)"

definition rotate_device :: "'w sc_input_manager \<Rightarrow> 'w \<Rightarrow> 'w option" where
  "rotate_device im w = display_request im w ROTATE_DEVICE"

definition open_hard_keyboard_settings :: "'w sc_input_manager \<Rightarrow> 'w \<Rightarrow> 'w option" where
  "open_hard_keyboard_settings im w = display_request im w OPEN_HARD_KEYBOARD_SETTINGS"

definition get_device_clipboard :: "'w sc_input_manager \<Rightarrow> 'w \<Rightarrow> sc_copy_key \<Rightarrow> ('w \<times> bool) option" where
  "get_device_clipboard im w copy_key = do {
     c_assert (present (im_controller im) \<and> present (im_kp im) \<and> \<not> im_camera im);
     im_push im w (GET_CLIPBOARD copy_key)
   }"

definition set_device_clipboard ::
    "sdl_query \<Rightarrow> 'w sc_input_manager \<Rightarrow> 'w \<Rightarrow> bool \<Rightarrow> u64 \<Rightarrow> ('w \<times> bool) option" where
  "set_device_clipboard q im w paste sequence = do {
     c_assert (present (im_controller im) \<and> present (im_kp im) \<and> \<not> im_camera im);
     case q_clipboard q of
       None \<Rightarrow> Some (w, False)
     | Some text \<Rightarrow>
         if \<not> q_strdup_ok q then Some (w, False)
         else im_push im w (SET_CLIPBOARD sequence (Some text) paste)
   }"

definition clipboard_paste :: "sdl_query \<Rightarrow> 'w sc_input_manager \<Rightarrow> 'w \<Rightarrow> 'w option" where
  "clipboard_paste q im w = do {
     c_assert (present (im_controller im) \<and> present (im_kp im) \<and> \<not> im_camera im);
     case q_clipboard q of
       None \<Rightarrow> Some w
     | Some text \<Rightarrow>
         if text = [] then Some w
         else if \<not> q_strdup_ok q then Some w
         else request im w (INJECT_TEXT (Some text))
   }"

definition reset_video :: "'w sc_input_manager \<Rightarrow> 'w \<Rightarrow> 'w option" where
  "reset_video im w = do {
     c_assert (present (im_controller im));
     request im w RESET_VIDEO
   }"

definition camera_request :: "'w sc_input_manager \<Rightarrow> 'w \<Rightarrow> sc_control_msg \<Rightarrow> 'w option" where
  "camera_request im w msg = do {
     c_assert (present (im_controller im) \<and> im_camera im);
     request im w msg
   }"

definition camera_set_torch :: "'w sc_input_manager \<Rightarrow> 'w \<Rightarrow> bool \<Rightarrow> 'w option" where
  "camera_set_torch im w on = camera_request im w (CAMERA_SET_TORCH on)"

definition camera_zoom_in :: "'w sc_input_manager \<Rightarrow> 'w \<Rightarrow> 'w option" where
  "camera_zoom_in im w = camera_request im w CAMERA_ZOOM_IN"

definition camera_zoom_out :: "'w sc_input_manager \<Rightarrow> 'w \<Rightarrow> 'w option" where
  "camera_zoom_out im w = camera_request im w CAMERA_ZOOM_OUT"

definition switch_fps_counter_state :: "sc_screen \<Rightarrow> sc_screen" where
  "switch_fps_counter_state screen =
     (if scr_fps_started screen then effect Fps_stop (screen\<lparr>scr_fps_started := False\<rparr>)
      else effect Fps_start (screen\<lparr>scr_fps_started := True\<rparr>))"

definition apply_orientation_transform :: "screen_env \<Rightarrow> sc_screen \<Rightarrow> sc_orientation \<Rightarrow> sc_screen option" where
  "apply_orientation_transform env screen transform =
     sc_screen_set_orientation env screen (sc_orientation_apply (scr_orientation screen) transform)"

section \<open>Keys and text\<close>

record sdl_key_event =
  kev_down :: bool
  kev_key :: sc_keycode
  kev_scancode :: int
  kev_mod :: "sc_mod set"
  kev_repeat :: bool

definition sc_action_from_sdl :: "bool \<Rightarrow> sc_action" where
  "sc_action_from_sdl down = (if down then SC_ACTION_DOWN else SC_ACTION_UP)"

definition SDL_SCANCODE_UNKNOWN :: int where "SDL_SCANCODE_UNKNOWN = 0"

definition sc_input_manager_process_text_input ::
    "sdl_query \<Rightarrow> 'w sc_input_manager \<Rightarrow> sc_screen \<Rightarrow> 'w \<Rightarrow> bytes \<Rightarrow> 'w option" where
  "sc_input_manager_process_text_input q im screen w text =
     (if im_camera im \<or> \<not> present (im_kp im) \<or> scr_paused screen \<or> im_disconnected im then Some w
      else do {
        kp \<leftarrow> im_kp im;
        case kp_process_text kp of
          None \<Rightarrow> Some w
        | Some process_text \<Rightarrow> do {
            shortcut \<leftarrow> sc_shortcut_mods_is_shortcut_mod (im_sdl_shortcut_mods im) (q_mod_state q);
            if shortcut then Some w else process_text w text
          }
      })"

text \<open>The shortcuts that act on the device or on the camera, behind those that act on the window.\<close>

definition process_device_shortcut ::
    "sdl_query \<Rightarrow> 'w sc_input_manager \<Rightarrow> sc_screen \<Rightarrow> 'w \<Rightarrow> sdl_key_event \<Rightarrow> 'w option" where
  "process_device_shortcut q im screen w event =
     (let control = present (im_controller im); kp = present (im_kp im); paused = scr_paused screen;
          sdl_keycode = kev_key event; down = kev_down event; repeat = kev_repeat event;
          shift = kev_mod event \<inter> SDL_KMOD_SHIFT \<noteq> {}; action = sc_action_from_sdl down
      in
      if control \<and> sdl_keycode = SDLK_R \<and> shift then
        (if \<not> repeat \<and> down \<and> \<not> paused then reset_video im w else Some w)
      else if control \<and> \<not> im_camera im then
        (if sdl_keycode = SDLK_H then
           (if kp \<and> \<not> shift \<and> \<not> repeat \<and> \<not> paused then action_home im w action else Some w)
         else if sdl_keycode = SDLK_B \<or> sdl_keycode = SDLK_BACKSPACE then
           (if kp \<and> \<not> shift \<and> \<not> repeat \<and> \<not> paused then action_back im w action else Some w)
         else if sdl_keycode = SDLK_S then
           (if kp \<and> \<not> shift \<and> \<not> repeat \<and> \<not> paused then action_app_switch im w action else Some w)
         else if sdl_keycode = SDLK_M then
           (if kp \<and> \<not> shift \<and> \<not> repeat \<and> \<not> paused then action_menu im w action else Some w)
         else if sdl_keycode = SDLK_P then
           (if kp \<and> \<not> shift \<and> \<not> repeat \<and> \<not> paused then action_power im w action else Some w)
         else if sdl_keycode = SDLK_O then
           (if control \<and> \<not> repeat \<and> down \<and> \<not> paused then set_display_power im w shift else Some w)
         else if sdl_keycode = SDLK_DOWN then
           (if kp \<and> \<not> shift \<and> \<not> paused then action_volume_down im w action else Some w)
         else if sdl_keycode = SDLK_UP then
           (if kp \<and> \<not> shift \<and> \<not> paused then action_volume_up im w action else Some w)
         else if sdl_keycode = SDLK_C then
           (if kp \<and> \<not> shift \<and> \<not> repeat \<and> down \<and> \<not> paused
            then map_option fst (get_device_clipboard im w SC_COPY_KEY_COPY) else Some w)
         else if sdl_keycode = SDLK_X then
           (if kp \<and> \<not> shift \<and> \<not> repeat \<and> down \<and> \<not> paused
            then map_option fst (get_device_clipboard im w SC_COPY_KEY_CUT) else Some w)
         else if sdl_keycode = SDLK_V then
           (if kp \<and> \<not> repeat \<and> down \<and> \<not> paused then
              (if shift \<or> im_legacy_paste im then clipboard_paste q im w
               else map_option fst (set_device_clipboard q im w True SC_SEQUENCE_INVALID))
            else Some w)
         else if sdl_keycode = SDLK_N then
           (if \<not> repeat \<and> down \<and> \<not> paused then
              (if shift then collapse_panels im w
               else if im_key_repeat im = 0 then expand_notification_panel im w
               else expand_settings_panel im w)
            else Some w)
         else if sdl_keycode = SDLK_R then
           (if \<not> repeat \<and> \<not> shift \<and> down \<and> \<not> paused then rotate_device im w else Some w)
         else if sdl_keycode = SDLK_K then
           (if \<not> shift \<and> \<not> repeat \<and> down \<and> \<not> paused \<and> (case im_kp im of None \<Rightarrow> False | Some kp \<Rightarrow> kp_hid kp)
            then open_hard_keyboard_settings im w else Some w)
         else Some w)
      else if control \<and> im_camera im then
        (if sdl_keycode = SDLK_T then
           (if \<not> repeat \<and> down then camera_set_torch im w (\<not> shift) else Some w)
         else if sdl_keycode = SDLK_DOWN then
           (if \<not> shift \<and> down \<and> \<not> paused then camera_zoom_out im w else Some w)
         else if sdl_keycode = SDLK_UP then
           (if \<not> shift \<and> down \<and> \<not> paused then camera_zoom_in im w else Some w)
         else Some w)
      else Some w)"

text \<open>
  The shortcuts that act on the window: \<open>None\<close> where the switch does not return.
\<close>

definition process_window_shortcut ::
    "screen_env \<Rightarrow> sc_screen \<Rightarrow> sdl_key_event \<Rightarrow> sc_screen option option" where
  "process_window_shortcut env screen event =
     (let video = scr_video screen; sdl_keycode = kev_key event; down = kev_down event;
          repeat = kev_repeat event; shift = kev_mod event \<inter> SDL_KMOD_SHIFT \<noteq> {}
      in
      if sdl_keycode = SDLK_Z then
        Some (if video \<and> down \<and> \<not> repeat then sc_screen_set_paused env screen (\<not> shift) else Some screen)
      else if sdl_keycode = SDLK_DOWN \<and> shift then
        Some (if video \<and> \<not> repeat \<and> down
          then apply_orientation_transform env screen SC_ORIENTATION_FLIP_180 else Some screen)
      else if sdl_keycode = SDLK_UP \<and> shift then
        Some (if video \<and> \<not> repeat \<and> down
          then apply_orientation_transform env screen SC_ORIENTATION_FLIP_180 else Some screen)
      else if sdl_keycode = SDLK_LEFT then
        Some (if video \<and> \<not> repeat \<and> down then
            (if shift then apply_orientation_transform env screen SC_ORIENTATION_FLIP_0
             else apply_orientation_transform env screen SC_ORIENTATION_270)
          else Some screen)
      else if sdl_keycode = SDLK_RIGHT then
        Some (if video \<and> \<not> repeat \<and> down then
            (if shift then apply_orientation_transform env screen SC_ORIENTATION_FLIP_0
             else apply_orientation_transform env screen SC_ORIENTATION_90)
          else Some screen)
      else if sdl_keycode = SDLK_F then
        Some (if video \<and> \<not> shift \<and> \<not> repeat \<and> down
          then sc_screen_toggle_fullscreen env screen else Some screen)
      else if sdl_keycode = SDLK_W then
        Some (if video \<and> \<not> shift \<and> \<not> repeat \<and> down
          then sc_screen_resize_to_fit env screen else Some screen)
      else if sdl_keycode = SDLK_G then
        Some (if video \<and> \<not> shift \<and> \<not> repeat \<and> down
          then sc_screen_resize_to_pixel_perfect env screen else Some screen)
      else if sdl_keycode = SDLK_I then
        Some (if video \<and> \<not> shift \<and> \<not> repeat \<and> down
          then Some (switch_fps_counter_state screen) else Some screen)
      else if sdl_keycode = SDLK_Q then Some (Some (effect (Push_event SDL_EVENT_QUIT) screen))
      else None)"

text \<open>The keys that are no shortcut: they go to the key processor.\<close>

definition forward_key ::
    "'w sc_input_manager \<Rightarrow> 'w \<Rightarrow> sdl_key_event \<Rightarrow> u64 \<Rightarrow> ('w sc_input_manager \<times> 'w) option" where
  "forward_key im w event ack_to_wait =
     (if kev_key event = SDLK_UNKNOWN then Some (im, w)
      else if kev_scancode event = SDL_SCANCODE_UNKNOWN then Some (im, w)
      else do {
        kp \<leftarrow> im_kp im;
        w \<leftarrow> kp_process_key kp w
          \<lparr>ke_action = sc_action_from_sdl (kev_down event), ke_keycode = kev_key event,
           ke_scancode = kev_scancode event, ke_mods_state = kev_mod event,
           ke_repeat = kev_repeat event\<rparr> ack_to_wait;
        Some (im, w)
      })"

definition process_forwarded_key ::
    "sdl_query \<Rightarrow> 'w sc_input_manager \<Rightarrow> sc_screen \<Rightarrow> 'w \<Rightarrow> sdl_key_event \<Rightarrow>
      ('w sc_input_manager \<times> 'w) option" where
  "process_forwarded_key q im screen w event =
     (let ctrl = kev_mod event \<inter> SDL_KMOD_CTRL \<noteq> {}; shift = kev_mod event \<inter> SDL_KMOD_SHIFT \<noteq> {};
          is_ctrl_v = ctrl \<and> \<not> shift \<and> kev_key event = SDLK_V \<and> kev_down event \<and> \<not> kev_repeat event
      in
      if \<not> present (im_kp im) \<or> scr_paused screen then Some (im, w)
      else do {
        c_assert (\<not> im_camera im);
        kp \<leftarrow> im_kp im;
        if im_clipboard_autosync im \<and> is_ctrl_v then
          (if im_legacy_paste im then do {
             w \<leftarrow> clipboard_paste q im w;
             Some (im, w)
           }
           else do {
             let sequence = (if kp_async_paste kp then im_next_sequence im else SC_SEQUENCE_INVALID);
             (w, ok) \<leftarrow> set_device_clipboard q im w False sequence;
             if \<not> ok then Some (im, w)
             else if kp_async_paste kp
             then forward_key (im\<lparr>im_next_sequence := im_next_sequence im + 1\<rparr>) w event sequence
             else forward_key im w event SC_SEQUENCE_INVALID
           })
        else forward_key im w event SC_SEQUENCE_INVALID
      })"

definition update_key_repeat :: "'w sc_input_manager \<Rightarrow> sdl_key_event \<Rightarrow> 'w sc_input_manager" where
  "update_key_repeat im event =
     (if kev_down event \<and> \<not> kev_repeat event \<and> \<not> im_disconnected im then
        (if kev_key event = im_last_keycode im \<and> kev_mod event = im_last_mod im
         then im\<lparr>im_key_repeat := im_key_repeat im + 1\<rparr>
         else im\<lparr>im_key_repeat := 0, im_last_keycode := kev_key event, im_last_mod := kev_mod event\<rparr>)
      else im)"

type_synonym 'w im_state = "'w sc_input_manager \<times> sc_screen \<times> 'w"

definition sc_input_manager_process_key ::
    "sdl_query \<Rightarrow> screen_env \<Rightarrow> 'w im_state \<Rightarrow> sdl_key_event \<Rightarrow> 'w im_state option" where
  "sc_input_manager_process_key q env = (\<lambda>(im, screen, w) event. do {
     let sdl_keycode = kev_key event;
     shortcut_mod \<leftarrow> sc_shortcut_mods_is_shortcut_mod (im_sdl_shortcut_mods im) (kev_mod event);
     let is_shortcut = shortcut_mod \<or>
       sc_shortcut_mods_is_shortcut_key (im_sdl_shortcut_mods im) sdl_keycode;
     let im = update_key_repeat im event;
     if sdl_keycode = SDLK_F11 then
       (if scr_video screen \<and> \<not> kev_repeat event \<and> kev_down event \<and>
          kev_mod event \<inter> (SDL_KMOD_CTRL \<union> SDL_KMOD_SHIFT \<union> SDL_KMOD_ALT \<union> SDL_KMOD_GUI) = {}
        then do { screen \<leftarrow> sc_screen_toggle_fullscreen env screen; Some (im, screen, w) }
        else Some (im, screen, w))
     else if is_shortcut then
       (case process_window_shortcut env screen event of
          Some r \<Rightarrow> do { screen \<leftarrow> r; Some (im, screen, w) }
        | None \<Rightarrow>
            if im_disconnected im then Some (im, screen, w)
            else do { w \<leftarrow> process_device_shortcut q im screen w event; Some (im, screen, w) })
     else do { (im, w) \<leftarrow> process_forwarded_key q im screen w event; Some (im, screen, w) }
   })"

section \<open>Mouse and touch\<close>

record sdl_mouse_motion_event =
  mev_touch :: bool
  mev_x :: rat
  mev_y :: rat
  mev_xrel :: rat
  mev_yrel :: rat

record sdl_mouse_button_event =
  bev_touch :: bool
  bev_down :: bool
  bev_button :: u8
  bev_clicks :: u8
  bev_x :: rat
  bev_y :: rat

record sdl_finger_event =
  fev_action :: sc_touch_action
  fev_fingerID :: u64
  fev_x :: rat
  fev_y :: rat
  fev_pressure :: rat

text \<open>\<open>mev_touch\<close> and \<open>bev_touch\<close> are \<open>which == SDL_TOUCH_MOUSEID\<close>. A float is cut to an \<open>int32_t\<close>.\<close>

definition f_int32 :: "rat \<Rightarrow> int option" where
  "f_int32 x = c_int32 (c_trunc x)"

definition SDL_BUTTON_LEFT :: u8 where "SDL_BUTTON_LEFT = 1"
definition SDL_BUTTON_MIDDLE :: u8 where "SDL_BUTTON_MIDDLE = 2"
definition SDL_BUTTON_RIGHT :: u8 where "SDL_BUTTON_RIGHT = 3"
definition SDL_BUTTON_X1 :: u8 where "SDL_BUTTON_X1 = 4"
definition SDL_BUTTON_X2 :: u8 where "SDL_BUTTON_X2 = 5"

lemmas sdl_buttons = SDL_BUTTON_LEFT_def SDL_BUTTON_MIDDLE_def SDL_BUTTON_RIGHT_def
  SDL_BUTTON_X1_def SDL_BUTTON_X2_def

definition sc_mouse_button_from_sdl :: "u8 \<Rightarrow> sc_mouse_button" where
  "sc_mouse_button_from_sdl button =
     (if button = SDL_BUTTON_LEFT then SC_MOUSE_BUTTON_LEFT
      else if button = SDL_BUTTON_MIDDLE then SC_MOUSE_BUTTON_MIDDLE
      else if button = SDL_BUTTON_RIGHT then SC_MOUSE_BUTTON_RIGHT
      else if button = SDL_BUTTON_X1 then SC_MOUSE_BUTTON_X1
      else if button = SDL_BUTTON_X2 then SC_MOUSE_BUTTON_X2
      else SC_MOUSE_BUTTON_UNKNOWN)"

definition simulate_virtual_finger ::
    "'w sc_input_manager \<Rightarrow> sc_screen \<Rightarrow> 'w \<Rightarrow> u32 \<Rightarrow> sc_point \<Rightarrow> ('w \<times> bool) option" where
  "simulate_virtual_finger im screen w action pt =
     (let up = action = AMOTION_EVENT_ACTION_UP in
      im_push im w (INJECT_TOUCH_EVENT action 0 0 SC_POINTER_ID_VIRTUAL_FINGER
        \<lparr>screen_size = scr_frame_size screen, point = pt\<rparr> (if up then 0 else 1)))"

definition inverse_point :: "sc_point \<Rightarrow> sc_size \<Rightarrow> bool \<Rightarrow> bool \<Rightarrow> sc_point" where
  "inverse_point pt sz invert_x invert_y =
     \<lparr>pt_x = (if invert_x then ucast (width sz) - pt_x pt else pt_x pt),
      pt_y = (if invert_y then ucast (height sz) - pt_y pt else pt_y pt)\<rparr>"

definition sc_input_manager_get_position ::
    "'w sc_input_manager \<Rightarrow> sc_screen \<Rightarrow> int \<Rightarrow> int \<Rightarrow> sc_position option" where
  "sc_input_manager_get_position im screen x y = do {
     mp \<leftarrow> im_mp im;
     if mp_relative_mode mp then
       Some \<lparr>screen_size = \<lparr>width = 0, height = 0\<rparr>, point = \<lparr>pt_x = 0, pt_y = 0\<rparr>\<rparr>
     else do {
       pt \<leftarrow> sc_screen_convert_window_to_frame_coords screen x y;
       Some \<lparr>screen_size = scr_frame_size screen, point = pt\<rparr>
     }
   }"

definition sc_input_manager_process_mouse_motion ::
    "'w sc_input_manager \<Rightarrow> sc_screen \<Rightarrow> 'w \<Rightarrow> sdl_mouse_motion_event \<Rightarrow> 'w option" where
  "sc_input_manager_process_mouse_motion im screen w event =
     (if im_camera im \<or> \<not> present (im_mp im) \<or> scr_paused screen \<or> im_disconnected im then Some w
      else if mev_touch event then Some w
      else do {
        mp \<leftarrow> im_mp im;
        x \<leftarrow> f_int32 (mev_x event);
        y \<leftarrow> f_int32 (mev_y event);
        xrel \<leftarrow> f_int32 (mev_xrel event);
        yrel \<leftarrow> f_int32 (mev_yrel event);
        position \<leftarrow> sc_input_manager_get_position im screen x y;
        w \<leftarrow> mp_process_mouse_motion mp w
          \<lparr>me_position = position,
           me_pointer_id = (if im_vfinger_down im then SC_POINTER_ID_GENERIC_FINGER
             else SC_POINTER_ID_MOUSE),
           me_xrel = word_of_int xrel, me_yrel = word_of_int yrel,
           me_buttons_state = im_mouse_buttons_state im\<rparr>;
        c_assert (\<not> mp_relative_mode mp \<or> \<not> im_vfinger_down im);
        if im_vfinger_down im then do {
          mouse \<leftarrow> sc_screen_convert_window_to_frame_coords screen x y;
          let vfinger = inverse_point mouse (scr_frame_size screen) (im_vfinger_invert_x im)
            (im_vfinger_invert_y im);
          (w, pushed) \<leftarrow> simulate_virtual_finger im screen w AMOTION_EVENT_ACTION_MOVE vfinger;
          Some w
        }
        else Some w
      })"

definition sc_input_manager_process_touch ::
    "screen_env \<Rightarrow> 'w sc_input_manager \<Rightarrow> sc_screen \<Rightarrow> 'w \<Rightarrow> sdl_finger_event \<Rightarrow> 'w option" where
  "sc_input_manager_process_touch env im screen w event =
     (if im_camera im \<or> \<not> present (im_mp im) \<or> scr_paused screen \<or> im_disconnected im then Some w
      else do {
        mp \<leftarrow> im_mp im;
        case mp_process_touch mp of
          None \<Rightarrow> Some w
        | Some process_touch \<Rightarrow> do {
            let window_size = get_window_size env screen;
            x \<leftarrow> f_int32 (fev_x event * size_w window_size);
            y \<leftarrow> f_int32 (fev_y event * size_h window_size);
            pt \<leftarrow> sc_screen_convert_window_to_frame_coords screen x y;
            process_touch w
              \<lparr>tev_position = \<lparr>screen_size = scr_frame_size screen, point = pt\<rparr>,
               tev_action = fev_action event, tev_pointer_id = fev_fingerID event,
               tev_pressure = fev_pressure event\<rparr>
          }
      })"

definition sc_input_manager_get_binding :: "sc_mouse_binding_set \<Rightarrow> u8 \<Rightarrow> sc_mouse_binding" where
  "sc_input_manager_get_binding bindings sdl_button =
     (if sdl_button = SDL_BUTTON_LEFT then SC_MOUSE_BINDING_CLICK
      else if sdl_button = SDL_BUTTON_RIGHT then mb_right_click bindings
      else if sdl_button = SDL_BUTTON_MIDDLE then mb_middle_click bindings
      else if sdl_button = SDL_BUTTON_X1 then mb_click4 bindings
      else if sdl_button = SDL_BUTTON_X2 then mb_click5 bindings
      else SC_MOUSE_BINDING_DISABLED)"

text \<open>The action that is bound to a button: \<open>None\<close> if the button is a click.\<close>

definition process_binding ::
    "'w sc_input_manager \<Rightarrow> 'w \<Rightarrow> sdl_mouse_button_event \<Rightarrow> sc_mouse_binding \<Rightarrow> 'w option option" where
  "process_binding im w event binding =
     (let kp = present (im_kp im); action = sc_action_from_sdl (bev_down event) in
      case binding of
        SC_MOUSE_BINDING_AUTO \<Rightarrow> Some None
      | SC_MOUSE_BINDING_DISABLED \<Rightarrow> Some (Some w)
      | SC_MOUSE_BINDING_BACK \<Rightarrow> Some (if kp then press_back_or_turn_screen_on im w action else Some w)
      | SC_MOUSE_BINDING_HOME \<Rightarrow> Some (if kp then action_home im w action else Some w)
      | SC_MOUSE_BINDING_APP_SWITCH \<Rightarrow> Some (if kp then action_app_switch im w action else Some w)
      | SC_MOUSE_BINDING_EXPAND_NOTIFICATION_PANEL \<Rightarrow>
          Some (if bev_down event then
              (if bev_clicks event < 2 then expand_notification_panel im w
               else expand_settings_panel im w)
            else Some w)
      | SC_MOUSE_BINDING_CLICK \<Rightarrow> None)"

definition outside_content :: "sc_screen \<Rightarrow> int \<Rightarrow> int \<Rightarrow> bool" where
  "outside_content screen x y \<longleftrightarrow>
     (let r = scr_rect screen in
      of_int x < fr_x r \<or> of_int x \<ge> fr_x r + fr_w r \<or> of_int y < fr_y r \<or> of_int y \<ge> fr_y r + fr_h r)"

definition press_button :: "'w sc_input_manager \<Rightarrow> sdl_mouse_button_event \<Rightarrow> 'w sc_input_manager" where
  "press_button im event =
     (if bev_down event then im\<lparr>im_mouse_buttons_state :=
        insert (sc_mouse_button_from_sdl (bev_button event)) (im_mouse_buttons_state im)\<rparr>
      else im)"

definition changes_vfinger :: "sdl_query \<Rightarrow> 'w sc_input_manager \<Rightarrow> sdl_mouse_button_event \<Rightarrow> bool" where
  "changes_vfinger q im event \<longleftrightarrow>
     (let down = bev_down event; ctrl_pressed = (q_mod_state q \<inter> SDL_KMOD_CTRL \<noteq> {});
          shift_pressed = (q_mod_state q \<inter> SDL_KMOD_SHIFT \<noteq> {})
      in bev_button event = SDL_BUTTON_LEFT \<and>
        (down \<and> \<not> im_vfinger_down im \<and> (ctrl_pressed \<or> shift_pressed) \<or> \<not> down \<and> im_vfinger_down im))"

definition send_click ::
    "'w sc_input_manager \<Rightarrow> 'w sc_mouse_processor \<Rightarrow> sc_screen \<Rightarrow> 'w \<Rightarrow> sdl_mouse_button_event \<Rightarrow>
      int \<Rightarrow> int \<Rightarrow> bool \<Rightarrow> 'w option" where
  "send_click im mp screen w event x y use_finger = do {
     position \<leftarrow> sc_input_manager_get_position im screen x y;
     mp_process_mouse_click mp w
       \<lparr>ce_position = position, ce_action = sc_action_from_sdl (bev_down event),
        ce_button = sc_mouse_button_from_sdl (bev_button event),
        ce_pointer_id = (if use_finger then SC_POINTER_ID_GENERIC_FINGER else SC_POINTER_ID_MOUSE),
        ce_buttons_state = im_mouse_buttons_state im\<rparr>
   }"

definition choose_inversion :: "sdl_query \<Rightarrow> 'w sc_input_manager \<Rightarrow> bool \<Rightarrow> 'w sc_input_manager" where
  "choose_inversion q im down =
     (let ctrl_pressed = (q_mod_state q \<inter> SDL_KMOD_CTRL \<noteq> {});
          shift_pressed = (q_mod_state q \<inter> SDL_KMOD_SHIFT \<noteq> {})
      in if down then im\<lparr>im_vfinger_invert_x := (ctrl_pressed \<noteq> shift_pressed),
           im_vfinger_invert_y := ctrl_pressed\<rparr>
         else im)"

definition toggle_vfinger ::
    "sdl_query \<Rightarrow> 'w sc_input_manager \<Rightarrow> sc_screen \<Rightarrow> 'w \<Rightarrow> bool \<Rightarrow> int \<Rightarrow> int \<Rightarrow>
      ('w sc_input_manager \<times> 'w) option" where
  "toggle_vfinger q im screen w down x y = do {
     mouse \<leftarrow> sc_screen_convert_window_to_frame_coords screen x y;
     let im = choose_inversion q im down;
     let vfinger = inverse_point mouse (scr_frame_size screen) (im_vfinger_invert_x im)
       (im_vfinger_invert_y im);
     (w, pushed) \<leftarrow> simulate_virtual_finger im screen w
       (if down then AMOTION_EVENT_ACTION_DOWN else AMOTION_EVENT_ACTION_UP) vfinger;
     if \<not> pushed then Some (im, w) else Some (im\<lparr>im_vfinger_down := down\<rparr>, w)
   }"

text \<open>A click on the device, with the virtual finger.\<close>

definition process_click ::
    "sdl_query \<Rightarrow> 'w sc_input_manager \<Rightarrow> sc_screen \<Rightarrow> 'w \<Rightarrow> sdl_mouse_button_event \<Rightarrow>
      ('w sc_input_manager \<times> 'w) option" where
  "process_click q im screen w event =
     (if \<not> present (im_mp im) \<or> scr_paused screen then Some (im, w)
      else do {
        mp \<leftarrow> im_mp im;
        let im = press_button im event;
        let change_vfinger = changes_vfinger q im event;
        x \<leftarrow> f_int32 (bev_x event);
        y \<leftarrow> f_int32 (bev_y event);
        w \<leftarrow> send_click im mp screen w event x y (im_vfinger_down im \<or> change_vfinger);
        if mp_relative_mode mp then do {
          c_assert (\<not> im_vfinger_down im);
          Some (im, w)
        }
        else if change_vfinger then toggle_vfinger q im screen w (bev_down event) x y
        else Some (im, w)
      })"

definition release_button :: "'w sc_input_manager \<Rightarrow> sdl_mouse_button_event \<Rightarrow> 'w sc_input_manager" where
  "release_button im event =
     (if \<not> bev_down event then im\<lparr>im_mouse_buttons_state :=
        im_mouse_buttons_state im - {sc_mouse_button_from_sdl (bev_button event)}\<rparr>
      else im)"

definition bound_action ::
    "sdl_query \<Rightarrow> 'w sc_input_manager \<Rightarrow> sc_screen \<Rightarrow> 'w \<Rightarrow> sdl_mouse_button_event \<Rightarrow> 'w option option" where
  "bound_action q im screen w event =
     (if present (im_controller im) \<and> \<not> scr_paused screen then
        (let shift_pressed = (q_mod_state q \<inter> SDL_KMOD_SHIFT \<noteq> {});
             bindings = (if \<not> shift_pressed then mb_pri (im_mouse_bindings im)
               else mb_sec (im_mouse_bindings im))
         in process_binding im w event (sc_input_manager_get_binding bindings (bev_button event)))
      else None)"

text \<open>A double click on the black borders.\<close>

definition click_on_border ::
    "'w sc_input_manager \<Rightarrow> sc_screen \<Rightarrow> sdl_mouse_button_event \<Rightarrow> bool option" where
  "click_on_border im screen event =
     (let mouse_relative_mode = (case im_mp im of None \<Rightarrow> False | Some mp \<Rightarrow> mp_relative_mode mp) in
      if scr_video screen \<and> \<not> mouse_relative_mode \<and> bev_button event = SDL_BUTTON_LEFT
        \<and> bev_clicks event = 2
      then do {
        x \<leftarrow> f_int32 (bev_x event);
        y \<leftarrow> f_int32 (bev_y event);
        Some (outside_content screen x y)
      }
      else Some False)"

definition sc_input_manager_process_mouse_button ::
    "sdl_query \<Rightarrow> screen_env \<Rightarrow> 'w im_state \<Rightarrow> sdl_mouse_button_event \<Rightarrow> 'w im_state option" where
  "sc_input_manager_process_mouse_button q env = (\<lambda>(im, screen, w) event.
     if im_camera im \<or> im_disconnected im then Some (im, screen, w)
     else if bev_touch event then Some (im, screen, w)
     else if sc_mouse_button_from_sdl (bev_button event) = SC_MOUSE_BUTTON_UNKNOWN
     then Some (im, screen, w)
     else
       (let im = release_button im event in
        case bound_action q im screen w event of
          Some r \<Rightarrow> do { w \<leftarrow> r; Some (im, screen, w) }
        | None \<Rightarrow> do {
            outside \<leftarrow> click_on_border im screen event;
            if outside then
              (if bev_down event
               then do { screen \<leftarrow> sc_screen_resize_to_fit env screen; Some (im, screen, w) }
               else Some (im, screen, w))
            else do { (im, w) \<leftarrow> process_click q im screen w event; Some (im, screen, w) }
          }))"

text \<open>The wheel checks the key processor, and then uses the mouse processor.\<close>

definition sc_input_manager_process_mouse_wheel ::
    "sdl_query \<Rightarrow> 'w sc_input_manager \<Rightarrow> sc_screen \<Rightarrow> 'w \<Rightarrow> rat \<times> rat \<Rightarrow> 'w option" where
  "sc_input_manager_process_mouse_wheel q im screen w event =
     (if im_camera im \<or> \<not> present (im_kp im) \<or> scr_paused screen \<or> im_disconnected im then Some w
      else do {
        mp \<leftarrow> im_mp im;
        case mp_process_mouse_scroll mp of
          None \<Rightarrow> Some w
        | Some process_mouse_scroll \<Rightarrow> do {
            x \<leftarrow> f_int32 (q_mouse_x q);
            y \<leftarrow> f_int32 (q_mouse_y q);
            position \<leftarrow> sc_input_manager_get_position im screen x y;
            process_mouse_scroll w
              \<lparr>we_position = position, we_hscroll = fst event, we_vscroll = snd event,
               we_buttons_state = im_mouse_buttons_state im\<rparr>
          }
      })"

section \<open>Gamepads, files and the dispatch\<close>

definition sc_input_manager_process_gamepad_device ::
    "sdl_query \<Rightarrow> 'w sc_input_manager \<Rightarrow> 'w \<Rightarrow> bool \<Rightarrow> u32 \<Rightarrow> 'w option" where
  "sc_input_manager_process_gamepad_device q im w added which =
     (if im_camera im \<or> \<not> present (im_gp im) \<or> im_disconnected im then Some w
      else do {
        gp \<leftarrow> im_gp im;
        if added then
          (case q_gamepad q of
             None \<Rightarrow> Some w
           | Some joystick_id \<Rightarrow> gp_process_gamepad_added gp w joystick_id)
        else gp_process_gamepad_removed gp w which
      })"

definition sc_gamepad_axis_from_sdl :: "u8 \<Rightarrow> sc_gamepad_axis" where
  "sc_gamepad_axis_from_sdl axis =
     (if axis \<le> 5 then
        [SC_GAMEPAD_AXIS_LEFTX, SC_GAMEPAD_AXIS_LEFTY, SC_GAMEPAD_AXIS_RIGHTX, SC_GAMEPAD_AXIS_RIGHTY,
         SC_GAMEPAD_AXIS_LEFT_TRIGGER, SC_GAMEPAD_AXIS_RIGHT_TRIGGER] ! unat axis
      else SC_GAMEPAD_AXIS_UNKNOWN)"

definition sc_gamepad_button_from_sdl :: "u8 \<Rightarrow> sc_gamepad_button" where
  "sc_gamepad_button_from_sdl button =
     (if button \<le> 14 then
        [SC_GAMEPAD_BUTTON_SOUTH, SC_GAMEPAD_BUTTON_EAST, SC_GAMEPAD_BUTTON_WEST,
         SC_GAMEPAD_BUTTON_NORTH, SC_GAMEPAD_BUTTON_BACK, SC_GAMEPAD_BUTTON_GUIDE,
         SC_GAMEPAD_BUTTON_START, SC_GAMEPAD_BUTTON_LEFT_STICK, SC_GAMEPAD_BUTTON_RIGHT_STICK,
         SC_GAMEPAD_BUTTON_LEFT_SHOULDER, SC_GAMEPAD_BUTTON_RIGHT_SHOULDER,
         SC_GAMEPAD_BUTTON_DPAD_UP, SC_GAMEPAD_BUTTON_DPAD_DOWN, SC_GAMEPAD_BUTTON_DPAD_LEFT,
         SC_GAMEPAD_BUTTON_DPAD_RIGHT] ! unat button
      else SC_GAMEPAD_BUTTON_UNKNOWN)"

definition sc_input_manager_process_gamepad_axis ::
    "'w sc_input_manager \<Rightarrow> sc_screen \<Rightarrow> 'w \<Rightarrow> u32 \<Rightarrow> u8 \<Rightarrow> u16 \<Rightarrow> 'w option" where
  "sc_input_manager_process_gamepad_axis im screen w which sdl_axis value =
     (if im_camera im \<or> \<not> present (im_gp im) \<or> scr_paused screen \<or> im_disconnected im then Some w
      else
        (let axis = sc_gamepad_axis_from_sdl sdl_axis in
         if axis = SC_GAMEPAD_AXIS_UNKNOWN then Some w
         else do {
           gp \<leftarrow> im_gp im;
           gp_process_gamepad_axis gp w
             \<lparr>gae_gamepad_id = which, gae_axis = axis, gae_value = value\<rparr>
         }))"

definition sc_input_manager_process_gamepad_button ::
    "'w sc_input_manager \<Rightarrow> sc_screen \<Rightarrow> 'w \<Rightarrow> u32 \<Rightarrow> u8 \<Rightarrow> bool \<Rightarrow> 'w option" where
  "sc_input_manager_process_gamepad_button im screen w which sdl_button down =
     (if im_camera im \<or> \<not> present (im_gp im) \<or> scr_paused screen \<or> im_disconnected im then Some w
      else
        (let button = sc_gamepad_button_from_sdl sdl_button in
         if button = SC_GAMEPAD_BUTTON_UNKNOWN then Some w
         else do {
           gp \<leftarrow> im_gp im;
           gp_process_gamepad_button gp w
             \<lparr>gbe_gamepad_id = which, gbe_action = sc_action_from_sdl down, gbe_button = button\<rparr>
         }))"

text \<open>\<open>strrchr(file, '.')\<close>: from the last dot on.\<close>

fun strrchr_dot :: "bytes \<Rightarrow> bytes option" where
  "strrchr_dot [] = None"
| "strrchr_dot (c # s) =
     (case strrchr_dot s of Some t \<Rightarrow> Some t | None \<Rightarrow> if c = 0x2E then Some (c # s) else None)"

definition is_apk :: "bytes \<Rightarrow> bool" where
  "is_apk file = (strrchr_dot file = Some [0x2E, 0x61, 0x70, 0x6B])"

definition sc_input_manager_process_file ::
    "sdl_query \<Rightarrow> 'w sc_input_manager \<Rightarrow> 'w \<Rightarrow> bytes \<Rightarrow> 'w option" where
  "sc_input_manager_process_file q im w file =
     (if im_camera im \<or> \<not> present (im_controller im) \<or> im_disconnected im then Some w
      else if \<not> q_strdup_ok q then Some w
      else do {
        let action = (if is_apk file then SC_FILE_PUSHER_ACTION_INSTALL_APK
          else SC_FILE_PUSHER_ACTION_PUSH_FILE);
        (w, ok) \<leftarrow> im_fp im w action file;
        Some w
      })"

definition sc_input_manager_on_device_disconnected ::
    "'w sc_input_manager \<Rightarrow> sc_screen \<Rightarrow> 'w sc_input_manager \<times> sc_screen" where
  "sc_input_manager_on_device_disconnected im screen =
     (im\<lparr>im_disconnected := True\<rparr>,
      if scr_fps_started screen then effect Fps_stop (screen\<lparr>scr_fps_started := False\<rparr>) else screen)"

datatype sdl_event =
    Ev_text bytes
  | Ev_key sdl_key_event
  | Ev_mouse_motion sdl_mouse_motion_event
  | Ev_mouse_wheel rat rat
  | Ev_mouse_button sdl_mouse_button_event
  | Ev_finger sdl_finger_event
  | Ev_gamepad_device bool u32
  | Ev_gamepad_axis u32 u8 u16
  | Ev_gamepad_button u32 u8 bool
  | Ev_drop_file bytes
  | Ev_device_disconnected
  | Ev_focus_lost
  | Ev_other

definition on_world :: "'w sc_input_manager \<Rightarrow> sc_screen \<Rightarrow> 'w option \<Rightarrow> 'w im_state option" where
  "on_world im screen r = do { w \<leftarrow> r; Some (im, screen, w) }"

fun sc_input_manager_handle_event ::
    "sdl_query \<Rightarrow> screen_env \<Rightarrow> 'w im_state \<Rightarrow> sdl_event \<Rightarrow> 'w im_state option" where
  "sc_input_manager_handle_event q env (im, screen, w) (Ev_text text) =
     on_world im screen (sc_input_manager_process_text_input q im screen w text)"
| "sc_input_manager_handle_event q env s (Ev_key event) = sc_input_manager_process_key q env s event"
| "sc_input_manager_handle_event q env (im, screen, w) (Ev_mouse_motion event) =
     on_world im screen (sc_input_manager_process_mouse_motion im screen w event)"
| "sc_input_manager_handle_event q env (im, screen, w) (Ev_mouse_wheel x y) =
     on_world im screen (sc_input_manager_process_mouse_wheel q im screen w (x, y))"
| "sc_input_manager_handle_event q env s (Ev_mouse_button event) =
     sc_input_manager_process_mouse_button q env s event"
| "sc_input_manager_handle_event q env (im, screen, w) (Ev_finger event) =
     on_world im screen (sc_input_manager_process_touch env im screen w event)"
| "sc_input_manager_handle_event q env (im, screen, w) (Ev_gamepad_device added which) =
     on_world im screen (sc_input_manager_process_gamepad_device q im w added which)"
| "sc_input_manager_handle_event q env (im, screen, w) (Ev_gamepad_axis which axis value) =
     on_world im screen (sc_input_manager_process_gamepad_axis im screen w which axis value)"
| "sc_input_manager_handle_event q env (im, screen, w) (Ev_gamepad_button which button down) =
     on_world im screen (sc_input_manager_process_gamepad_button im screen w which button down)"
| "sc_input_manager_handle_event q env (im, screen, w) (Ev_drop_file file) =
     on_world im screen (sc_input_manager_process_file q im w file)"
| "sc_input_manager_handle_event q env (im, screen, w) Ev_device_disconnected =
     (let (im, screen) = sc_input_manager_on_device_disconnected im screen in Some (im, screen, w))"
| "sc_input_manager_handle_event q env s Ev_focus_lost = Some s"
| "sc_input_manager_handle_event q env s Ev_other = Some s"

record 'w im_params =
  pa_controller :: "'w push_msg option"
  pa_fp :: "'w \<Rightarrow> sc_file_pusher_action \<Rightarrow> bytes \<Rightarrow> ('w \<times> bool) option"
  pa_kp :: "'w sc_key_processor option"
  pa_mp :: "'w sc_mouse_processor option"
  pa_gp :: "'w sc_gamepad_processor option"
  pa_camera :: bool
  pa_mouse_bindings :: sc_mouse_bindings
  pa_legacy_paste :: bool
  pa_clipboard_autosync :: bool
  pa_shortcut_mods :: "sc_shortcut_mod set"

definition sc_input_manager_init :: "'w im_params \<Rightarrow> 'w sc_input_manager" where
  "sc_input_manager_init params =
     \<lparr>im_controller = pa_controller params, im_fp = pa_fp params, im_kp = pa_kp params,
      im_mp = pa_mp params, im_gp = pa_gp params, im_camera = pa_camera params,
      im_mouse_bindings = pa_mouse_bindings params, im_legacy_paste = pa_legacy_paste params,
      im_clipboard_autosync = pa_clipboard_autosync params,
      im_sdl_shortcut_mods = sc_shortcut_mods_to_sdl (pa_shortcut_mods params),
      im_vfinger_down = False, im_vfinger_invert_x = False, im_vfinger_invert_y = False,
      im_mouse_buttons_state = {}, im_key_repeat = 0, im_last_keycode = SDLK_UNKNOWN,
      im_last_mod = {}, im_next_sequence = 1, im_disconnected = False\<rparr>"

section \<open>What reaches the device\<close>

lemma on_world_SomeD:
  "on_world im screen r = Some (im', screen', w') \<Longrightarrow> im' = im \<and> screen' = screen \<and> r = Some w'"
  by (auto simp: on_world_def bind_eq_Some_conv)

text \<open>An event of a key is for a shortcut if a shortcut modifier is pressed, or the key is one.\<close>

definition for_shortcut :: "'w sc_input_manager \<Rightarrow> sdl_key_event \<Rightarrow> bool" where
  "for_shortcut im event \<longleftrightarrow> kev_mod event \<inter> im_sdl_shortcut_mods im \<noteq> {} \<or>
     sc_shortcut_mods_is_shortcut_key (im_sdl_shortcut_mods im) (kev_key event)"

lemma update_key_repeat_same [simp]:
  "im_controller (update_key_repeat im event) = im_controller im"
  "im_kp (update_key_repeat im event) = im_kp im"
  "im_mp (update_key_repeat im event) = im_mp im"
  "im_gp (update_key_repeat im event) = im_gp im"
  "im_fp (update_key_repeat im event) = im_fp im"
  "im_camera (update_key_repeat im event) = im_camera im"
  "im_disconnected (update_key_repeat im event) = im_disconnected im"
  "im_mouse_buttons_state (update_key_repeat im event) = im_mouse_buttons_state im"
  "im_mouse_bindings (update_key_repeat im event) = im_mouse_bindings im"
  "im_vfinger_down (update_key_repeat im event) = im_vfinger_down im"
  "im_next_sequence (update_key_repeat im event) = im_next_sequence im"
  "im_sdl_shortcut_mods (update_key_repeat im event) = im_sdl_shortcut_mods im"
  "im_clipboard_autosync (update_key_repeat im event) = im_clipboard_autosync im"
  "im_legacy_paste (update_key_repeat im event) = im_legacy_paste im"
  by (simp_all add: update_key_repeat_def)

lemma im_push_update [simp]: "im_push (update_key_repeat im event) = im_push im"
  by (rule ext)+ (simp add: im_push_def)

text \<open>The cases of a key event.\<close>

lemma process_key_cases:
  assumes "sc_input_manager_process_key q env (im, screen, w) event = Some (im', screen', w')"
  obtains "im' = update_key_repeat im event" "w' = w"
    | "for_shortcut im event" "\<not> im_disconnected im" "im' = update_key_repeat im event" "screen' = screen"
      "process_device_shortcut q (update_key_repeat im event) screen w event = Some w'"
    | "\<not> for_shortcut im event" "screen' = screen"
      "process_forwarded_key q (update_key_repeat im event) screen w event = Some (im', w')"
  using assms
  by (auto simp: sc_input_manager_process_key_def sc_shortcut_mods_is_shortcut_mod_def
      for_shortcut_def bind_eq_Some_conv Let_def split: if_splits option.splits)

lemma device_shortcut_pushes:
  assumes "process_device_shortcut q im screen w event = Some w'"
  shows "w' = w \<or> (\<exists>msg pushed. im_push im w msg = Some (w', pushed))"
  using assms
  unfolding process_device_shortcut_def Let_def action_home_def action_back_def action_app_switch_def
    action_menu_def action_power_def action_volume_up_def action_volume_down_def send_keycode_def
    expand_notification_panel_def expand_settings_panel_def collapse_panels_def set_display_power_def
    rotate_device_def open_hard_keyboard_settings_def display_request_def get_device_clipboard_def
    set_device_clipboard_def clipboard_paste_def reset_video_def camera_set_torch_def
    camera_zoom_in_def camera_zoom_out_def camera_request_def request_def
  by (auto simp: bind_eq_Some_conv split: if_splits option.splits)

lemma if_eq_Some_conv:
  "((if c then a else b) = Some z) \<longleftrightarrow> (c \<and> a = Some z) \<or> (\<not> c \<and> b = Some z)"
  by simp

lemma option_case_eq_Some_conv:
  "(case x of None \<Rightarrow> a | Some y \<Rightarrow> f y) = Some z \<longleftrightarrow>
    (x = None \<and> a = Some z) \<or> (\<exists>y. x = Some y \<and> f y = Some z)"
  by (cases x) simp_all

lemmas eq_Some_conv = if_eq_Some_conv option_case_eq_Some_conv bind_eq_Some_conv

definition same_pointers :: "'w sc_input_manager \<Rightarrow> 'w sc_input_manager \<Rightarrow> bool" where
  "same_pointers im im' \<longleftrightarrow> im_controller im' = im_controller im \<and> im_kp im' = im_kp im \<and>
     im_mp im' = im_mp im \<and> im_gp im' = im_gp im \<and> im_fp im' = im_fp im \<and> im_camera im' = im_camera im \<and>
     im_mouse_bindings im' = im_mouse_bindings im \<and>
     im_sdl_shortcut_mods im' = im_sdl_shortcut_mods im"

lemma toggle_vfinger_same:
  assumes "toggle_vfinger q im screen w down x y = Some (im', w')"
  shows "same_pointers im im' \<and> im_disconnected im' = im_disconnected im \<and>
    im_mouse_buttons_state im' = im_mouse_buttons_state im"
  using assms
  by (cases down) (auto simp: toggle_vfinger_def choose_inversion_def Let_def eq_Some_conv same_pointers_def)

lemma process_click_same:
  assumes "process_click q im screen w event = Some (im', w')"
  shows "same_pointers im im' \<and> im_disconnected im' = im_disconnected im \<and>
    im_mouse_buttons_state im' = (if bev_down event \<and> present (im_mp im) \<and> \<not> scr_paused screen
      then insert (sc_mouse_button_from_sdl (bev_button event)) (im_mouse_buttons_state im)
      else im_mouse_buttons_state im)"
proof (cases "present (im_mp im) \<and> \<not> scr_paused screen")
  case False
  with assms show ?thesis by (auto simp: process_click_def same_pointers_def)
next
  case True
  let ?im = "press_button im event"
  have p: "same_pointers im ?im" "im_disconnected ?im = im_disconnected im"
    "im_mouse_buttons_state ?im = (if bev_down event
      then insert (sc_mouse_button_from_sdl (bev_button event)) (im_mouse_buttons_state im)
      else im_mouse_buttons_state im)"
    by (simp_all add: press_button_def same_pointers_def)
  from assms True consider "im' = ?im"
    | w x y where "toggle_vfinger q ?im screen w (bev_down event) x y = Some (im', w')"
    by (auto simp: process_click_def Let_def eq_Some_conv)
  then show ?thesis
  proof cases
    case 2
    from toggle_vfinger_same [OF this] p True show ?thesis by (simp add: same_pointers_def)
  qed (use p True in auto)
qed

lemma process_mouse_button_cases:
  assumes "sc_input_manager_process_mouse_button q env (im, screen, w) event = Some (im', screen', w')"
  obtains "im' = im" "screen' = screen" "w' = w"
      "im_camera im \<or> im_disconnected im \<or> bev_touch event \<or>
       sc_mouse_button_from_sdl (bev_button event) = SC_MOUSE_BUTTON_UNKNOWN"
    | "im' = release_button im event" "screen' = screen" "\<not> im_disconnected im"
      "bound_action q (release_button im event) screen w event = Some (Some w')"
    | "im' = release_button im event" "w' = w"
    | "screen' = screen" "process_click q (release_button im event) screen w event = Some (im', w')"
      "\<not> im_disconnected im"
  using assms
  by (simp add: sc_input_manager_process_mouse_button_def Let_def eq_Some_conv if_eq_Some_conv
      split: prod.splits) blast

text \<open>A world that records the calls, for examples.\<close>

datatype im_call =
    Call_push sc_control_msg
  | Call_key sc_key_event u64
  | Call_text bytes
  | Call_motion sc_mouse_motion_event
  | Call_click sc_mouse_click_event
  | Call_file sc_file_pusher_action bytes

definition recorder :: "bool \<Rightarrow> im_call list sc_input_manager" where
  "recorder async = sc_input_manager_init
     \<lparr>pa_controller = Some (\<lambda>w m. Some (w @ [Call_push m], True)),
      pa_fp = (\<lambda>w a f. Some (w @ [Call_file a f], True)),
      pa_kp = Some \<lparr>kp_async_paste = async, kp_hid = False,
        kp_process_key = (\<lambda>w e a. Some (w @ [Call_key e a])),
        kp_process_text = Some (\<lambda>w t. Some (w @ [Call_text t]))\<rparr>,
      pa_mp = Some \<lparr>mp_relative_mode = True, mp_process_mouse_motion = (\<lambda>w e. Some (w @ [Call_motion e])),
        mp_process_mouse_click = (\<lambda>w e. Some (w @ [Call_click e])), mp_process_mouse_scroll = None,
        mp_process_touch = None\<rparr>,
      pa_gp = None, pa_camera = False,
      pa_mouse_bindings = (let b = \<lparr>mb_right_click = SC_MOUSE_BINDING_BACK,
          mb_middle_click = SC_MOUSE_BINDING_HOME, mb_click4 = SC_MOUSE_BINDING_APP_SWITCH,
          mb_click5 = SC_MOUSE_BINDING_EXPAND_NOTIFICATION_PANEL\<rparr> in \<lparr>mb_pri = b, mb_sec = b\<rparr>),
      pa_legacy_paste = False, pa_clipboard_autosync = True,
      pa_shortcut_mods = {SC_SHORTCUT_MOD_LALT, SC_SHORTCUT_MOD_LSUPER}\<rparr>"

definition some_query :: sdl_query where
  "some_query = \<lparr>q_clipboard = Some [0x68, 0x69], q_strdup_ok = True, q_mod_state = {}, q_mouse_x = 0,
     q_mouse_y = 0, q_relative_mouse_mode = True, q_gamepad = None\<rparr>"

lemma some_screen_simps [simp]:
  "scr_video some_screen" "\<not> scr_paused some_screen" "scr_orientation some_screen = SC_ORIENTATION_0"
  "scr_frame_size some_screen = \<lparr>width = 1080, height = 1920\<rparr>"
  "scr_content_size some_screen = \<lparr>width = 1080, height = 1920\<rparr>"
  "scr_rect some_screen = \<lparr>fr_x = 0, fr_y = 0, fr_w = 1080, fr_h = 1920\<rparr>"
  by (simp_all add: some_screen_def)

lemmas recorder_simps = recorder_def sc_input_manager_init_def sc_shortcut_mods_to_sdl_def Let_def

definition key_press :: "sc_keycode \<Rightarrow> sc_mod set \<Rightarrow> sdl_key_event" where
  "key_press key mods = \<lparr>kev_down = True, kev_key = key, kev_scancode = 4, kev_mod = mods, kev_repeat = False\<rparr>"

lemmas process_key_simps = sc_input_manager_process_key_def sc_shortcut_mods_is_shortcut_mod_def
  sc_shortcut_mods_is_shortcut_key_def SC_SDL_SHORTCUT_MODS_MASK_def SDL_KMOD_CTRL_def SDL_KMOD_ALT_def
  SDL_KMOD_GUI_def SDL_KMOD_SHIFT_def key_press_def update_key_repeat_def

text \<open>
  C30: A shortcut never reaches the key processor: whatever key event is a shortcut (a shortcut modifier
  is pressed, or the key is one of them), the only thing it can do to the device is to push one message
  to the controller, and nothing at all when the device is disconnected.
\<close>

theorem shortcut_never_forwarded:
  assumes "sc_input_manager_process_key q env (im, screen, w) event = Some (im', screen', w')"
    and "for_shortcut im event"
  shows "w' = w \<or> \<not> im_disconnected im \<and> (\<exists>msg pushed. im_push im w msg = Some (w', pushed))"
  using assms(1)
proof (cases rule: process_key_cases)
  case 2
  from device_shortcut_pushes [OF this(5)] 2(2) show ?thesis by simp
qed (use assms(2) in simp_all)

lemma shortcut_never_forwarded_witness:
  "sc_input_manager_process_key some_query some_env (recorder True, some_screen, [])
     (key_press SDLK_H {SC_MOD_LALT}) \<noteq> None \<and>
   (\<exists>w'. Some w' = map_option (snd \<circ> snd) (sc_input_manager_process_key some_query some_env
      (recorder True, some_screen, []) (key_press SDLK_H {SC_MOD_LALT})) \<and>
    (w' = [] \<or> (\<exists>msg pushed. im_push (recorder True) [] msg = Some (w', pushed))))"
proof -
  let ?e = "key_press SDLK_H {SC_MOD_LALT}"
  have s: "for_shortcut (recorder True) ?e"
    by (simp add: for_shortcut_def recorder_simps key_press_def)
  obtain im' w' where p: "sc_input_manager_process_key some_query some_env (recorder True, some_screen, []) ?e
      = Some (im', some_screen, w')"
    by (simp add: process_key_simps recorder_simps process_window_shortcut_def
        process_device_shortcut_def action_home_def send_keycode_def request_def im_push_def)
  from shortcut_never_forwarded [OF p s] p show ?thesis by auto
qed

text \<open>
  C31: Once the device is disconnected, only keys that are no shortcut still reach the processors: every
  other event leaves the world of the controller and the processors as it is, and no event brings the
  connection back.
\<close>

theorem disconnected_is_silent:
  assumes "im_disconnected im"
    and "sc_input_manager_handle_event q env (im, screen, w) ev = Some (im', screen', w')"
    and "\<And>event. ev = Ev_key event \<Longrightarrow> for_shortcut im event"
  shows "w' = w \<and> im_disconnected im'"
proof (cases ev)
  case (Ev_key event)
  with assms(2) have p: "sc_input_manager_process_key q env (im, screen, w) event = Some (im', screen', w')"
    by simp
  from p show ?thesis
  proof (cases rule: process_key_cases)
    case 3
    with assms(3) Ev_key show ?thesis by simp
  qed (use assms(1) in simp_all)
next
  case (Ev_mouse_button event)
  with assms show ?thesis by (simp add: sc_input_manager_process_mouse_button_def)
qed (use assms in \<open>auto dest!: on_world_SomeD simp: sc_input_manager_process_text_input_def
  sc_input_manager_process_mouse_motion_def sc_input_manager_process_mouse_wheel_def
  sc_input_manager_process_touch_def sc_input_manager_process_gamepad_device_def
  sc_input_manager_process_gamepad_axis_def sc_input_manager_process_gamepad_button_def
  sc_input_manager_process_file_def sc_input_manager_on_device_disconnected_def\<close>)

lemma disconnected_is_silent_witness:
  "\<exists>im' w'. sc_input_manager_handle_event some_query some_env
      ((recorder True)\<lparr>im_disconnected := True\<rparr>, some_screen, [])
      (Ev_drop_file [0x61]) = Some (im', some_screen, w') \<and> w' = [] \<and> im_disconnected im'"
proof -
  obtain im' w' where p: "sc_input_manager_handle_event some_query some_env
      ((recorder True)\<lparr>im_disconnected := True\<rparr>, some_screen, []) (Ev_drop_file [0x61]) =
      Some (im', some_screen, w')"
    by (simp add: sc_input_manager_process_file_def on_world_def)
  have "im_disconnected ((recorder True)\<lparr>im_disconnected := True\<rparr>)" by simp
  from disconnected_is_silent [OF this p] p show ?thesis by auto
qed

text \<open>
  No button gets stuck: the release of a button clears it from the state that is sent along with the
  events of the mouse, even when the button is bound to an action, the display is paused or the click
  is used up by the window; the other buttons keep their state.
\<close>

theorem no_stuck_button:
  assumes "sc_input_manager_process_mouse_button q env (im, screen, w) event = Some (im', screen', w')"
    and "\<not> im_camera im" "\<not> im_disconnected im" "\<not> bev_touch event"
    and "sc_mouse_button_from_sdl (bev_button event) = button" "button \<noteq> SC_MOUSE_BUTTON_UNKNOWN"
  shows "im_mouse_buttons_state im' - {button} = im_mouse_buttons_state im - {button} \<and>
    (\<not> bev_down event \<longrightarrow> button \<notin> im_mouse_buttons_state im')"
  using assms(1)
proof (cases rule: process_mouse_button_cases)
  case 4
  from process_click_same [OF this(2)] assms(5) show ?thesis
    by (auto simp: release_button_def split: if_splits)
qed (use assms in \<open>auto simp: release_button_def\<close>)

definition button_event :: "u8 \<Rightarrow> bool \<Rightarrow> sdl_mouse_button_event" where
  "button_event b down = \<lparr>bev_touch = False, bev_down = down, bev_button = b, bev_clicks = 1, bev_x = 0,
     bev_y = 0\<rparr>"

lemma no_stuck_button_witness:
  "\<exists>im' w'. sc_input_manager_process_mouse_button some_query some_env
      ((recorder True)\<lparr>im_mouse_buttons_state := {SC_MOUSE_BUTTON_RIGHT, SC_MOUSE_BUTTON_LEFT}\<rparr>,
       some_screen, []) (button_event 3 False) = Some (im', some_screen, w') \<and>
    SC_MOUSE_BUTTON_RIGHT \<notin> im_mouse_buttons_state im'"
proof -
  let ?im = "(recorder True)\<lparr>im_mouse_buttons_state := {SC_MOUSE_BUTTON_RIGHT, SC_MOUSE_BUTTON_LEFT}\<rparr>"
  let ?e = "button_event 3 False"
  have b: "sc_mouse_button_from_sdl (bev_button ?e) = SC_MOUSE_BUTTON_RIGHT"
    by (simp add: sc_mouse_button_from_sdl_def button_event_def sdl_buttons)
  obtain im' w' where p: "sc_input_manager_process_mouse_button some_query some_env
      (?im, some_screen, []) ?e = Some (im', some_screen, w')"
    by (simp add: sc_input_manager_process_mouse_button_def sc_mouse_button_from_sdl_def bound_action_def process_binding_def
        sc_input_manager_get_binding_def recorder_simps release_button_def
        press_back_or_turn_screen_on_def request_def im_push_def button_event_def sdl_buttons
        some_query_def)
  have "\<not> im_camera ?im" "\<not> im_disconnected ?im" "\<not> bev_touch ?e"
    by (simp_all add: recorder_simps button_event_def)
  from no_stuck_button [OF p this b] p show ?thesis by (auto simp: button_event_def)
qed



text \<open>
  The wheel checks the wrong processor: without a mouse processor, an event of the wheel aborts the
  client exactly when there is a key processor, the device is connected, the display is not paused and
  the source is not a camera.
\<close>

theorem wheel_without_mouse_aborts:
  assumes "im_mp im = None"
  shows "sc_input_manager_process_mouse_wheel q im screen w event = None \<longleftrightarrow>
    \<not> im_camera im \<and> present (im_kp im) \<and> \<not> scr_paused screen \<and> \<not> im_disconnected im"
  using assms by (auto simp: sc_input_manager_process_mouse_wheel_def)

lemma wheel_without_mouse_aborts_witness:
  "sc_input_manager_process_mouse_wheel some_query ((recorder True)\<lparr>im_mp := None\<rparr>) some_screen [] (0, 1) = None"
  by (subst wheel_without_mouse_aborts) (simp_all add: recorder_simps)

text \<open>A file is installed exactly when its name ends with \<open>.apk\<close>.\<close>

lemma strrchr_dot_None: "0x2E \<notin> set s \<Longrightarrow> strrchr_dot s = None"
  by (induct s) auto

lemma strrchr_dot_append: "0x2E \<notin> set t \<Longrightarrow> strrchr_dot (s @ 0x2E # t) = Some (0x2E # t)"
  by (induct s) (auto simp: strrchr_dot_None)

lemma strrchr_dot_suffix: "strrchr_dot s = Some t \<Longrightarrow> \<exists>b. s = b @ t"
proof (induct s arbitrary: t)
  case (Cons c s)
  then show ?case by (cases "strrchr_dot s") (auto split: if_splits)
qed simp

lemma is_apk_iff: "is_apk name \<longleftrightarrow> (\<exists>base. name = base @ [0x2E, 0x61, 0x70, 0x6B])"
  using strrchr_dot_append [of "[0x61, 0x70, 0x6B]"]
  by (auto simp: is_apk_def dest: strrchr_dot_suffix)

end
