(* ===== verification/Sc_Input_Sink.thy ===== *)
theory Sc_Input_Sink imports Sc_Input_Manager begin

text \<open>
  The contract of what the input manager calls, and what it keeps of it.

  A world is good (\<open>good\<close>) when the controller and the processors in it are; every call keeps it so and
  returns. What the calls push is recorded (\<open>history\<close>), and what other threads do (\<open>wenv\<close>) leaves this
  record alone. The locale proves once, for any processors, that
  no event aborts, and that the virtual finger of the pinch-to-zoom gesture is used as a finger is.
\<close>

section \<open>The virtual finger\<close>

text \<open>
  The virtual finger on the device: a run of the messages with its pointer id, from up or down to up or
  down, if they are a proper sequence of \<open>DOWN\<close>, \<open>MOVE\<close> and \<open>UP\<close>.
\<close>

fun vfinger_step :: "bool \<Rightarrow> sc_control_msg \<Rightarrow> bool option" where
  "vfinger_step down (INJECT_TOUCH_EVENT action _ _ pointer_id _ _) =
     (if pointer_id \<noteq> SC_POINTER_ID_VIRTUAL_FINGER then Some down
      else if action = AMOTION_EVENT_ACTION_DOWN then (if down then None else Some True)
      else if action = AMOTION_EVENT_ACTION_MOVE then (if down then Some True else None)
      else if action = AMOTION_EVENT_ACTION_UP then (if down then Some False else None)
      else None)"
| "vfinger_step down _ = Some down"

fun vfinger_run :: "bool \<Rightarrow> sc_control_msg list \<Rightarrow> bool option" where
  "vfinger_run down [] = Some down"
| "vfinger_run down (m # ms) = do { down \<leftarrow> vfinger_step down m; vfinger_run down ms }"

lemma vfinger_run_append: "vfinger_run d (xs @ ys) = do { d \<leftarrow> vfinger_run d xs; vfinger_run d ys }"
  by (induct xs arbitrary: d) (auto split: bind_split)

definition not_vfinger :: "sc_control_msg \<Rightarrow> bool" where
  "not_vfinger msg \<longleftrightarrow> (\<forall>down. vfinger_step down msg = Some down)"

lemma vfinger_run_quiet: "list_all not_vfinger ms \<Longrightarrow> vfinger_run d ms = Some d"
  by (induct ms) (simp_all add: not_vfinger_def)

lemma accepted_append [simp]: "accepted (h1 @ h2) = accepted h1 @ accepted h2"
  by (simp add: accepted_def)

lemma accepted_single [simp]: "accepted [(m, b)] = (if b then [m] else [])"
  by (simp add: accepted_def)

lemma accepted_quiet: "list_all not_vfinger (map fst h) \<Longrightarrow> list_all not_vfinger (accepted h)"
  by (auto simp: accepted_def list_all_iff)

lemma not_vfinger_simps [simp]:
  "not_vfinger (INJECT_KEYCODE a b c d)" "not_vfinger (BACK_OR_SCREEN_ON a)"
  "not_vfinger EXPAND_NOTIFICATION_PANEL" "not_vfinger EXPAND_SETTINGS_PANEL" "not_vfinger COLLAPSE_PANELS"
  "not_vfinger (GET_CLIPBOARD k)" "not_vfinger (SET_CLIPBOARD sq t p)" "not_vfinger (SET_DISPLAY_POWER on)"
  "not_vfinger ROTATE_DEVICE" "not_vfinger OPEN_HARD_KEYBOARD_SETTINGS" "not_vfinger RESET_VIDEO"
  "not_vfinger (CAMERA_SET_TORCH on)" "not_vfinger CAMERA_ZOOM_IN" "not_vfinger CAMERA_ZOOM_OUT"
  "not_vfinger (INJECT_TEXT t)"
  by (simp_all add: not_vfinger_def)

section \<open>The contract\<close>

text \<open>A call that pushes only messages that are not for the virtual finger.\<close>

definition quiet_call ::
    "('w \<Rightarrow> bool) \<Rightarrow> ('w \<Rightarrow> push_history) \<Rightarrow> 'w \<Rightarrow> 'w option \<Rightarrow> bool" where
  "quiet_call good history w r \<longleftrightarrow> (\<exists>w' h. r = Some w' \<and> good w' \<and> history w' = history w @ h \<and>
     list_all not_vfinger (map fst h))"

lemma quiet_callI:
  "r = Some w' \<Longrightarrow> good w' \<Longrightarrow> history w' = history w @ h \<Longrightarrow> list_all not_vfinger (map fst h) \<Longrightarrow>
    quiet_call good history w r"
  by (auto simp: quiet_call_def)

lemma quiet_call_refl [simp]: "good w \<Longrightarrow> quiet_call good history w (Some w)"
  by (auto simp: quiet_call_def)

locale input_sink =
  fixes im0 :: "'w sc_input_manager"
    and good :: "'w \<Rightarrow> bool"
    and history :: "'w \<Rightarrow> push_history"
    and text_ok :: "bytes \<Rightarrow> bool"
    and wenv :: "'w \<Rightarrow> 'w \<Rightarrow> bool"
  assumes push_call: "im_controller im0 = Some push \<Longrightarrow> good w \<Longrightarrow> not_resize msg \<Longrightarrow>
      \<exists>w' pushed. push w msg = Some (w', pushed) \<and> good w' \<and> history w' = history w @ [(msg, pushed)]"
    and file_call: "good w \<Longrightarrow> \<exists>w' ok. im_fp im0 w action name = Some (w', ok) \<and> good w' \<and> history w' = history w"
    and key_call: "im_kp im0 = Some kp \<Longrightarrow> good w \<Longrightarrow> quiet_call good history w (kp_process_key kp w ke ack)"
    and text_call: "im_kp im0 = Some kp \<Longrightarrow> kp_process_text kp = Some f \<Longrightarrow> good w \<Longrightarrow> text_ok txt \<Longrightarrow>
      quiet_call good history w (f w txt)"
    and motion_call: "im_mp im0 = Some mp \<Longrightarrow> good w \<Longrightarrow> me_pointer_id me \<noteq> SC_POINTER_ID_VIRTUAL_FINGER \<Longrightarrow>
      quiet_call good history w (mp_process_mouse_motion mp w me)"
    and click_call: "im_mp im0 = Some mp \<Longrightarrow> good w \<Longrightarrow> ce_pointer_id ce \<noteq> SC_POINTER_ID_VIRTUAL_FINGER \<Longrightarrow>
      quiet_call good history w (mp_process_mouse_click mp w ce)"
    and scroll_call: "im_mp im0 = Some mp \<Longrightarrow> mp_process_mouse_scroll mp = Some g \<Longrightarrow> good w \<Longrightarrow>
      quiet_call good history w (g w we)"
    and touch_call: "im_mp im0 = Some mp \<Longrightarrow> mp_process_touch mp = Some t \<Longrightarrow> good w \<Longrightarrow>
      tev_pointer_id te \<noteq> SC_POINTER_ID_VIRTUAL_FINGER \<Longrightarrow> quiet_call good history w (t w te)"
    and pad_added_call: "im_gp im0 = Some gp \<Longrightarrow> good w \<Longrightarrow>
      quiet_call good history w (gp_process_gamepad_added gp w pad)"
    and pad_removed_call: "im_gp im0 = Some gp \<Longrightarrow> good w \<Longrightarrow>
      quiet_call good history w (gp_process_gamepad_removed gp w pad)"
    and pad_axis_call: "im_gp im0 = Some gp \<Longrightarrow> good w \<Longrightarrow>
      quiet_call good history w (gp_process_gamepad_axis gp w ae)"
    and pad_button_call: "im_gp im0 = Some gp \<Longrightarrow> good w \<Longrightarrow>
      quiet_call good history w (gp_process_gamepad_button gp w be)"
    and kp_needs: "im_kp im0 = Some kp \<Longrightarrow> present (im_controller im0) \<and> present (im_mp im0) \<and> \<not> im_camera im0"
    and mp_needs: "im_mp im0 = Some mp \<Longrightarrow> \<not> mp_relative_mode mp \<Longrightarrow> present (im_controller im0)"
    and mods_ok: "im_sdl_shortcut_mods im0 \<subseteq> SC_SDL_SHORTCUT_MODS_MASK"
    and world_env: "good w \<Longrightarrow> wenv w w' \<Longrightarrow> good w' \<and> history w' = history w"

text \<open>
  The events whose coordinates can be converted; their text is one the key processor takes, and no
  finger has the id of the virtual one.
\<close>

definition convertible :: "sc_screen \<Rightarrow> rat \<Rightarrow> rat \<Rightarrow> bool" where
  "convertible screen x y \<longleftrightarrow> (\<exists>i j pt. f_int32 x = Some i \<and> f_int32 y = Some j \<and>
     sc_screen_convert_window_to_frame_coords screen i j = Some pt)"

fun event_ok :: "(bytes \<Rightarrow> bool) \<Rightarrow> sdl_query \<Rightarrow> screen_env \<Rightarrow> sc_screen \<Rightarrow> sdl_event \<Rightarrow> bool" where
  "event_ok text_ok q env screen (Ev_text txt) = text_ok txt"
| "event_ok text_ok q env screen (Ev_mouse_motion e) =
     (convertible screen (mev_x e) (mev_y e) \<and> f_int32 (mev_xrel e) \<noteq> None \<and> f_int32 (mev_yrel e) \<noteq> None)"
| "event_ok text_ok q env screen (Ev_mouse_wheel x y) = convertible screen (q_mouse_x q) (q_mouse_y q)"
| "event_ok text_ok q env screen (Ev_mouse_button e) = convertible screen (bev_x e) (bev_y e)"
| "event_ok text_ok q env screen (Ev_finger e) =
     (convertible screen (fev_x e * size_w (get_window_size env screen))
        (fev_y e * size_h (get_window_size env screen)) \<and>
      fev_fingerID e \<noteq> SC_POINTER_ID_VIRTUAL_FINGER)"
| "event_ok text_ok q env screen _ = True"

text \<open>The bindings that were left to be chosen have been chosen.\<close>

definition bindings_set :: "sc_mouse_bindings \<Rightarrow> bool" where
  "bindings_set b \<longleftrightarrow> SC_MOUSE_BINDING_AUTO \<notin>
     {mb_right_click (mb_pri b), mb_middle_click (mb_pri b), mb_click4 (mb_pri b), mb_click5 (mb_pri b),
      mb_right_click (mb_sec b), mb_middle_click (mb_sec b), mb_click4 (mb_sec b), mb_click5 (mb_sec b)}"

lemma pointer_ids [simp]:
  "SC_POINTER_ID_GENERIC_FINGER \<noteq> SC_POINTER_ID_VIRTUAL_FINGER"
  "SC_POINTER_ID_MOUSE \<noteq> SC_POINTER_ID_VIRTUAL_FINGER"
  by (simp_all add: SC_POINTER_ID_GENERIC_FINGER_def SC_POINTER_ID_VIRTUAL_FINGER_def
      SC_POINTER_ID_MOUSE_def)

lemma position_ok:
  assumes "im_mp im = Some mp" "sc_screen_convert_window_to_frame_coords screen i j = Some pt"
  shows "\<exists>position. sc_input_manager_get_position im screen i j = Some position"
  using assms by (simp add: sc_input_manager_get_position_def)

context input_sink
begin

definition im_inv :: "'w im_state \<Rightarrow> bool" where
  "im_inv = (\<lambda>(im, screen, w). same_pointers im0 im \<and> bindings_set (im_mouse_bindings im0) \<and> screen_inv screen \<and> good w \<and>
     vfinger_run False (accepted (history w)) = Some (im_vfinger_down im) \<and>
     (\<forall>mp. im_mp im0 = Some mp \<longrightarrow> mp_relative_mode mp \<longrightarrow> \<not> im_vfinger_down im))"

lemma pointersD:
  assumes "same_pointers im0 im"
  shows "im_controller im = im_controller im0" "im_kp im = im_kp im0" "im_mp im = im_mp im0"
    "im_gp im = im_gp im0" "im_fp im = im_fp im0" "im_camera im = im_camera im0"
    "im_mouse_bindings im = im_mouse_bindings im0" "im_sdl_shortcut_mods im = im_sdl_shortcut_mods im0"
  using assms by (simp_all add: same_pointers_def)

text \<open>A step that leaves the input manager's record alone.\<close>

lemma quiet_step:
  assumes "im_inv (im, screen, w)" "quiet_call good history w r"
  shows "\<exists>w'. on_world im screen r = Some (im, screen, w') \<and> im_inv (im, screen, w')"
proof -
  from assms(2) obtain w' h where w': "r = Some w'" "good w'" "history w' = history w @ h"
    "list_all not_vfinger (map fst h)" by (auto simp: quiet_call_def)
  with assms(1) vfinger_run_quiet [OF accepted_quiet [OF w'(4)]] show ?thesis
    by (auto simp: im_inv_def on_world_def vfinger_run_append)
qed

lemma request_quiet:
  assumes "present (im_controller im0)" "same_pointers im0 im" "good w" "not_resize msg" "not_vfinger msg"
  shows "quiet_call good history w (request im w msg)"
    "\<exists>w' pushed. im_push im w msg = Some (w', pushed) \<and> quiet_call good history w (Some w')"
proof -
  from assms(1) obtain p where p: "im_controller im0 = Some p" by (cases "im_controller im0") auto
  from push_call [OF p assms(3,4)] obtain w' pushed where
    w': "p w msg = Some (w', pushed)" "good w'" "history w' = history w @ [(msg, pushed)]" by blast
  have i: "im_push im w msg = Some (w', pushed)"
    using w'(1) p pointersD(1) [OF assms(2)] by (simp add: im_push_def)
  have q: "quiet_call good history w (Some w')"
    using w'(2,3) assms(5) by (auto simp: quiet_call_def)
  from i q show "quiet_call good history w (request im w msg)" by (simp add: request_def)
  from i q show "\<exists>w' pushed. im_push im w msg = Some (w', pushed) \<and> quiet_call good history w (Some w')"
    by blast
qed

lemma device_shortcut_quiet:
  assumes "same_pointers im0 im" "good w"
  shows "quiet_call good history w (process_device_shortcut q im screen w event)"
proof (cases "im_controller im0")
  case None
  with assms pointersD(1) [OF assms(1)] show ?thesis by (simp add: process_device_shortcut_def Let_def)
next
  case (Some p)
  then have p: "present (im_controller im0)" by simp
  note ptr = pointersD [OF assms(1)]
  note rq = request_quiet(1) [OF p assms]
  have push_quiet: "quiet_call good history w (map_option fst (im_push im w msg))"
    if "not_resize msg" "not_vfinger msg" for msg
    using request_quiet(2) [OF p assms that] by (auto simp: quiet_call_def)
  have kp: "present (im_kp im) \<Longrightarrow> \<not> im_camera im"
    using kp_needs ptr(2,6) by (cases "im_kp im0") auto
  show ?thesis
    using kp p assms(2) rq push_quiet ptr(1)
    unfolding process_device_shortcut_def Let_def action_home_def action_back_def action_app_switch_def
      action_menu_def action_power_def action_volume_up_def action_volume_down_def send_keycode_def
      expand_notification_panel_def expand_settings_panel_def collapse_panels_def set_display_power_def
      rotate_device_def open_hard_keyboard_settings_def display_request_def get_device_clipboard_def
      set_device_clipboard_def clipboard_paste_def reset_video_def camera_set_torch_def
      camera_zoom_in_def camera_zoom_out_def camera_request_def
    by (auto simp: not_resize_def split: option.splits)
qed

end

section \<open>Key events and clicks\<close>

lemma window_shortcut_ok:
  assumes "screen_inv s" "env_sane env" "process_window_shortcut env s event = Some r"
  shows "\<exists>s'. r = Some s' \<and> screen_inv s' \<and> scr_fb s' = scr_fb s"
proof -
  have f: "\<exists>s'. sc_screen_toggle_fullscreen env s = Some s' \<and> screen_inv s' \<and> scr_fb s' = scr_fb s"
    using assms(1) screen_invD(1) [OF assms(1)] by (simp add: sc_screen_toggle_fullscreen_def effect_def screen_inv_def)
  have o: "\<exists>s'. apply_orientation_transform env s t = Some s' \<and> screen_inv s' \<and> scr_fb s' = scr_fb s" for t
    using set_orientation_ok [OF assms(1,2)] by (auto simp: apply_orientation_transform_def)
  have i: "screen_inv (switch_fps_counter_state s) \<and> scr_fb (switch_fps_counter_state s) = scr_fb s"
    using assms(1) by (simp add: switch_fps_counter_state_def screen_inv_def effect_def)
  have p: "\<exists>s'. sc_screen_set_paused env s b = Some s' \<and> screen_inv s' \<and> scr_fb s' = scr_fb s" for b
    using set_paused_ok [OF assms(1,2), of b] by blast
  have w: "\<exists>s'. sc_screen_resize_to_fit env s = Some s' \<and> screen_inv s' \<and> scr_fb s' = scr_fb s"
    using resize_to_fit_ok [OF assms(1), of env] by blast
  have g: "\<exists>s'. sc_screen_resize_to_pixel_perfect env s = Some s' \<and> screen_inv s' \<and> scr_fb s' = scr_fb s"
    using pixel_perfect_ok [OF assms(1), of env] by blast
  have q: "screen_inv (effect e s) \<and> scr_fb (effect e s) = scr_fb s" for e
    using assms(1) by (simp add: effect_def screen_inv_def)
  show ?thesis
    using assms(3) f o i p w g q assms(1)
    unfolding process_window_shortcut_def Let_def by (auto split: if_split_asm)
qed

context input_sink
begin

lemma im_invD:
  assumes "im_inv (im, screen, w)"
  shows "same_pointers im0 im" "screen_inv screen" "good w"
    "vfinger_run False (accepted (history w)) = Some (im_vfinger_down im)"
    "im_mp im0 = Some mp \<Longrightarrow> mp_relative_mode mp \<Longrightarrow> \<not> im_vfinger_down im"
    "bindings_set (im_mouse_bindings im0)"
  using assms by (simp_all add: im_inv_def)

lemma im_inv_fields:
  assumes "im_inv (im, screen, w)" "same_pointers im im'" "im_vfinger_down im' = im_vfinger_down im"
    "screen_inv screen'"
  shows "im_inv (im', screen', w)"
  using assms by (simp add: im_inv_def same_pointers_def)

lemma im_inv_quiet:
  assumes "im_inv (im, screen, w)" "quiet_call good history w (Some w')"
  shows "im_inv (im, screen, w')"
  using quiet_step [OF assms] by (auto simp: on_world_def)

lemma im_inv_key_repeat [simp]:
  "im_inv (im, screen, w) \<Longrightarrow> im_inv (update_key_repeat im event, screen, w)"
  by (simp add: same_pointers_def im_inv_def)

lemma forwarded_key_ok:
  assumes "im_inv (im, screen, w)"
  shows "\<exists>im' w'. process_forwarded_key q im screen w event = Some (im', w') \<and> im_inv (im', screen, w')"
proof (cases "\<not> present (im_kp im) \<or> scr_paused screen")
  case True
  with assms show ?thesis by (auto simp: process_forwarded_key_def)
next
  case False
  note d = im_invD [OF assms]
  note ptr = pointersD [OF d(1)]
  from False obtain kp where kp: "im_kp im = Some kp" by (cases "im_kp im") auto
  with ptr(2) have kp0: "im_kp im0 = Some kp" by simp
  note n = kp_needs [OF kp0]
  have cam: "\<not> im_camera im" using n ptr(6) by simp
  have f: "\<exists>im'' w'. forward_key im' w1 event ack = Some (im'', w') \<and> im_inv (im'', screen, w')"
    if i: "im_inv (im', screen, w1)" and k: "im_kp im' = Some kp" for im' w1 ack
  proof -
    let ?ke = "\<lparr>ke_action = sc_action_from_sdl (kev_down event), ke_keycode = kev_key event,
      ke_scancode = kev_scancode event, ke_mods_state = kev_mod event, ke_repeat = kev_repeat event\<rparr>"
    from key_call [OF kp0 im_invD(3) [OF i], of ?ke ack] obtain w' where
      "kp_process_key kp w1 ?ke ack = Some w'" "quiet_call good history w1 (Some w')"
      by (auto simp: quiet_call_def)
    with im_inv_quiet [OF i] i k show ?thesis by (simp add: forward_key_def)
  qed
  have rq: "not_resize msg \<Longrightarrow> not_vfinger msg \<Longrightarrow>
    \<exists>w' pushed. im_push im w msg = Some (w', pushed) \<and> im_inv (im, screen, w')" for msg
    using request_quiet(2) [OF _ d(1,3), of msg] n im_inv_quiet [OF assms] by blast
  have rq_text: "\<exists>w' pushed. im_push im w (INJECT_TEXT t) = Some (w', pushed) \<and> im_inv (im, screen, w')"
    and rq_clip: "\<exists>w' pushed. im_push im w (SET_CLIPBOARD sq t False) = Some (w', pushed) \<and>
      im_inv (im, screen, w')" for t sq
    by (rule rq; simp add: not_resize_def)+
  have paste: "\<exists>w'. clipboard_paste q im w = Some w' \<and> im_inv (im, screen, w')"
    using n ptr(1) kp cam assms rq_text [of "q_clipboard q"]
    by (cases "q_clipboard q") (auto simp: clipboard_paste_def request_def)
  have set: "\<exists>w' b. set_device_clipboard q im w False sq = Some (w', b) \<and> im_inv (im, screen, w')" for sq
    using n ptr(1) kp cam assms rq_clip
    by (auto simp: set_device_clipboard_def split: option.splits)
  let ?im = "im\<lparr>im_next_sequence := im_next_sequence im + 1\<rparr>"
  have next_ok: "im_inv (im, screen, w1) \<Longrightarrow> im_inv (?im, screen, w1)" for w1
    by (auto simp: same_pointers_def im_inv_def)
  have after: "\<exists>im' w'. (if kp_async_paste kp then forward_key ?im w1 event sq
      else forward_key im w1 event SC_SEQUENCE_INVALID) = Some (im', w') \<and> im_inv (im', screen, w')"
    if "im_inv (im, screen, w1)" for w1 sq
    using f [OF next_ok [OF that]] f [OF that] kp by simp
  show ?thesis
  proof (cases "im_clipboard_autosync im \<and> kev_mod event \<inter> SDL_KMOD_CTRL \<noteq> {} \<and>
      kev_mod event \<inter> SDL_KMOD_SHIFT = {} \<and> kev_key event = SDLK_V \<and> kev_down event \<and> \<not> kev_repeat event")
    case c: False
    with f [OF assms kp, of SC_SEQUENCE_INVALID] cam kp False show ?thesis
      by (auto simp: process_forwarded_key_def)
  next
    case c: True
    show ?thesis
    proof (cases "im_legacy_paste im")
      case True
      with c paste cam kp False show ?thesis by (auto simp: process_forwarded_key_def)
    next
      case l: False
      define sq where "sq = (if kp_async_paste kp then im_next_sequence im else SC_SEQUENCE_INVALID)"
      from set [of sq] obtain w1 b where w1: "set_device_clipboard q im w False sq = Some (w1, b)"
        "im_inv (im, screen, w1)" by blast
      have "process_forwarded_key q im screen w event = (if \<not> b then Some (im, w1)
        else if kp_async_paste kp then forward_key ?im w1 event sq
        else forward_key im w1 event SC_SEQUENCE_INVALID)"
        using c l cam kp False w1(1) by (simp add: process_forwarded_key_def Let_def sq_def)
      with after [OF w1(2), of sq] w1(2) show ?thesis by auto
    qed
  qed
qed

lemma process_key_ok:
  assumes "im_inv (im, screen, w)" "env_sane env"
  shows "\<exists>s'. sc_input_manager_process_key q env (im, screen, w) event = Some s' \<and> im_inv s'"
proof -
  note d = im_invD [OF assms(1)]
  let ?im = "update_key_repeat im event"
  have i: "im_inv (?im, screen, w)" using assms(1) by simp
  obtain sm where sm: "sc_shortcut_mods_is_shortcut_mod (im_sdl_shortcut_mods im) (kev_mod event) = Some sm"
    using mods_ok pointersD(8) [OF d(1)] by (simp add: sc_shortcut_mods_is_shortcut_mod_def)
  have win: "im_inv (?im, screen', w)" if "screen_inv screen'" for screen'
    using im_inv_fields [OF i _ _ that] by (simp add: same_pointers_def)
  obtain f where f: "sc_screen_toggle_fullscreen env screen = Some f" "screen_inv f"
    using d(2) screen_invD(1) [OF d(2)] by (simp add: sc_screen_toggle_fullscreen_def)
  obtain im2 w2 where fw: "process_forwarded_key q ?im screen w event = Some (im2, w2)"
    "im_inv (im2, screen, w2)"
    using forwarded_key_ok [OF i] by blast
  obtain w3 where sh: "process_device_shortcut q ?im screen w event = Some w3" "im_inv (?im, screen, w3)"
    using quiet_step [OF i device_shortcut_quiet [OF im_invD(1,3) [OF i], of q screen event]]
    by (auto simp: on_world_def bind_eq_Some_conv)
  show ?thesis
    using sm win f fw sh i window_shortcut_ok [OF d(2) assms(2), of event]
    by (auto simp: sc_input_manager_process_key_def Let_def split: option.split)
qed

lemma binding_ok:
  assumes "im_inv (im, screen, w)" "bound_action q im screen w event = Some r" "\<not> im_camera im"
  shows "\<exists>w'. r = Some w' \<and> im_inv (im, screen, w')"
proof -
  note d = im_invD [OF assms(1)]
  note ptr = pointersD [OF d(1)]
  from assms(2) have c: "present (im_controller im)" by (simp add: bound_action_def split: if_splits)
  have "not_resize msg \<Longrightarrow> not_vfinger msg \<Longrightarrow> \<exists>w'. request im w msg = Some w' \<and> im_inv (im, screen, w')"
    for msg
    using request_quiet(1) [OF _ d(1,3), of msg] c ptr(1) im_inv_quiet [OF assms(1)]
    by (auto simp: quiet_call_def)
  then have rq: "\<exists>w'. request im w (INJECT_KEYCODE k1 k2 0 0) = Some w' \<and> im_inv (im, screen, w')"
    "\<exists>w'. request im w (BACK_OR_SCREEN_ON k1) = Some w' \<and> im_inv (im, screen, w')"
    "\<exists>w'. request im w EXPAND_NOTIFICATION_PANEL = Some w' \<and> im_inv (im, screen, w')"
    "\<exists>w'. request im w EXPAND_SETTINGS_PANEL = Some w' \<and> im_inv (im, screen, w')" for k1 k2
    by (simp_all add: not_resize_def)
  let ?b = "sc_input_manager_get_binding (if q_mod_state q \<inter> SDL_KMOD_SHIFT = {}
    then mb_pri (im_mouse_bindings im) else mb_sec (im_mouse_bindings im)) (bev_button event)"
  have "?b \<noteq> SC_MOUSE_BINDING_AUTO"
    using assms(1) ptr(7) by (auto simp: im_inv_def bindings_set_def sc_input_manager_get_binding_def)
  moreover have "process_binding im w event ?b = Some r"
    using assms(2) by (simp add: bound_action_def Let_def split: if_split_asm)
  ultimately show ?thesis
    using assms(1,3) c rq
    by (cases ?b) (auto simp: process_binding_def Let_def press_back_or_turn_screen_on_def
      action_home_def action_app_switch_def send_keycode_def expand_notification_panel_def
      expand_settings_panel_def display_request_def split: if_split_asm)
qed

text \<open>A message for the virtual finger that fits its state; it changes if the controller takes it.\<close>

lemma vfinger_push:
  assumes "im_inv (im, screen, w)" "im_mp im = Some mp" "\<not> mp_relative_mode mp"
    and "(action, im_vfinger_down im, down') \<in> {(AMOTION_EVENT_ACTION_DOWN, False, True),
      (AMOTION_EVENT_ACTION_MOVE, True, True), (AMOTION_EVENT_ACTION_UP, True, False)}"
  shows "\<exists>w' pushed. simulate_virtual_finger im screen w action pt = Some (w', pushed) \<and>
    im_inv (im\<lparr>im_vfinger_down := (if pushed then down' else im_vfinger_down im)\<rparr>, screen, w')"
proof -
  note d = im_invD [OF assms(1)]
  note ptr = pointersD [OF d(1)]
  from assms(2) ptr(3) have mp0: "im_mp im0 = Some mp" by simp
  from mp_needs [OF this assms(3)] obtain p where p: "im_controller im0 = Some p"
    by (cases "im_controller im0") auto
  define msg where "msg = INJECT_TOUCH_EVENT action 0 0 SC_POINTER_ID_VIRTUAL_FINGER
    \<lparr>screen_size = scr_frame_size screen, point = pt\<rparr> (if action = AMOTION_EVENT_ACTION_UP then 0 else 1)"
  have nr: "not_resize msg" by (simp add: msg_def not_resize_def)
  from push_call [OF p d(3) nr] obtain w' pushed where
    w': "p w msg = Some (w', pushed)" "good w'" "history w' = history w @ [(msg, pushed)]" by blast
  have st: "vfinger_step (im_vfinger_down im) msg = Some down'"
    using assms(4) by (auto simp: msg_def AMOTION_EVENT_ACTION_DOWN_def AMOTION_EVENT_ACTION_MOVE_def
        AMOTION_EVENT_ACTION_UP_def)
  have "simulate_virtual_finger im screen w action pt = Some (w', pushed)"
    using w'(1) p ptr(1) by (simp add: simulate_virtual_finger_def msg_def im_push_def Let_def)
  moreover have "im_inv (im\<lparr>im_vfinger_down := (if pushed then down' else im_vfinger_down im)\<rparr>, screen, w')"
    using d mp0 assms(3) w'(2,3) st
    by (auto simp: im_inv_def same_pointers_def vfinger_run_append)
  ultimately show ?thesis by blast
qed

lemma press_button_ok:
  "im_inv (im, screen, w) \<Longrightarrow> im_inv (press_button im event, screen, w)"
  "im_mp (press_button im event) = im_mp im"
  by (auto simp: press_button_def im_inv_def same_pointers_def)

lemma release_button_ok:
  "im_inv (im, screen, w) \<Longrightarrow> im_inv (release_button im event, screen, w)"
  "im_mp (release_button im event) = im_mp im" "im_camera (release_button im event) = im_camera im"
  by (auto simp: release_button_def im_inv_def same_pointers_def)

lemma send_click_ok:
  assumes "im_inv (im, screen, w)" "im_mp im = Some mp"
    "sc_screen_convert_window_to_frame_coords screen i j = Some pt"
  shows "\<exists>w'. send_click im mp screen w event i j use_finger = Some w' \<and> im_inv (im, screen, w')"
proof -
  note d = im_invD [OF assms(1)]
  from assms(2) pointersD(3) [OF d(1)] have mp0: "im_mp im0 = Some mp" by simp
  from position_ok [OF assms(2,3)] obtain position where
    ps: "sc_input_manager_get_position im screen i j = Some position" by blast
  let ?ce = "\<lparr>ce_position = position, ce_action = sc_action_from_sdl (bev_down event),
    ce_button = sc_mouse_button_from_sdl (bev_button event),
    ce_pointer_id = (if use_finger then SC_POINTER_ID_GENERIC_FINGER else SC_POINTER_ID_MOUSE),
    ce_buttons_state = im_mouse_buttons_state im\<rparr>"
  have "ce_pointer_id ?ce \<noteq> SC_POINTER_ID_VIRTUAL_FINGER" by simp
  from click_call [OF mp0 d(3) this] obtain w' where
    "mp_process_mouse_click mp w ?ce = Some w'" "quiet_call good history w (Some w')"
    by (auto simp: quiet_call_def)
  with im_inv_quiet [OF assms(1)] ps show ?thesis by (simp add: send_click_def)
qed

lemma toggle_vfinger_ok:
  assumes "im_inv (im, screen, w)" "im_mp im = Some mp" "\<not> mp_relative_mode mp"
    "sc_screen_convert_window_to_frame_coords screen i j = Some pt" "im_vfinger_down im = (\<not> down)"
  shows "\<exists>im' w'. toggle_vfinger q im screen w down i j = Some (im', w') \<and> im_inv (im', screen, w')"
proof -
  let ?im = "choose_inversion q im down"
  let ?action = "if down then AMOTION_EVENT_ACTION_DOWN else AMOTION_EVENT_ACTION_UP"
  have i: "im_inv (?im, screen, w)" "im_mp ?im = Some mp" "im_vfinger_down ?im = (\<not> down)"
    using assms by (auto simp: choose_inversion_def im_inv_def same_pointers_def Let_def)
  define vf where "vf = inverse_point pt (scr_frame_size screen) (im_vfinger_invert_x ?im) (im_vfinger_invert_y ?im)"
  have "(?action, im_vfinger_down ?im, down) \<in> {(AMOTION_EVENT_ACTION_DOWN, False, True),
      (AMOTION_EVENT_ACTION_MOVE, True, True), (AMOTION_EVENT_ACTION_UP, True, False)}"
    by (simp add: i(3))
  from vfinger_push [OF i(1,2) assms(3) this, of vf] obtain w' pushed where
    w': "simulate_virtual_finger ?im screen w ?action vf = Some (w', pushed)"
      "im_inv (?im\<lparr>im_vfinger_down := (if pushed then down else im_vfinger_down ?im)\<rparr>, screen, w')"
    by blast
  have "toggle_vfinger q im screen w down i j =
      Some (if pushed then ?im\<lparr>im_vfinger_down := down\<rparr> else ?im, w')"
    using assms(4) w'(1) by (auto simp: toggle_vfinger_def Let_def vf_def)
  moreover have "?im\<lparr>im_vfinger_down := im_vfinger_down ?im\<rparr> = ?im" by simp
  ultimately show ?thesis using w'(2) by (cases pushed) simp_all
qed

lemma process_click_ok:
  assumes "im_inv (im, screen, w)" "convertible screen (bev_x event) (bev_y event)"
  shows "\<exists>im' w'. process_click q im screen w event = Some (im', w') \<and> im_inv (im', screen, w')"
proof (cases "present (im_mp im) \<and> \<not> scr_paused screen")
  case False
  with assms(1) show ?thesis by (auto simp: process_click_def)
next
  case True
  then obtain mp where mp: "im_mp im = Some mp" by (cases "im_mp im") auto
  let ?im = "press_button im event"
  have i: "im_inv (?im, screen, w)" "im_mp ?im = Some mp"
    using press_button_ok(1) [OF assms(1)] mp by (simp_all add: press_button_ok(2))
  have mp0: "im_mp im0 = Some mp" using i(2) pointersD(3) [OF im_invD(1) [OF i(1)]] by simp
  from assms(2) obtain x y pt where xy: "f_int32 (bev_x event) = Some x" "f_int32 (bev_y event) = Some y"
    "sc_screen_convert_window_to_frame_coords screen x y = Some pt"
    by (auto simp: convertible_def)
  from send_click_ok [OF i xy(3)] obtain w1 where
    w1: "send_click ?im mp screen w event x y (im_vfinger_down ?im \<or> changes_vfinger q ?im event) = Some w1"
      "im_inv (?im, screen, w1)" by blast
  have eq: "process_click q im screen w event =
    (if mp_relative_mode mp then do { c_assert (\<not> im_vfinger_down ?im); Some (?im, w1) }
     else if changes_vfinger q ?im event then toggle_vfinger q ?im screen w1 (bev_down event) x y
     else Some (?im, w1))"
    using True mp xy w1(1) by (simp add: process_click_def Let_def)
  have "changes_vfinger q ?im event \<Longrightarrow> im_vfinger_down ?im = (\<not> bev_down event)"
    by (auto simp: changes_vfinger_def Let_def)
  with toggle_vfinger_ok [OF w1(2) i(2) _ xy(3)] im_invD(5) [OF w1(2) mp0] w1(2) show ?thesis
    by (simp add: eq)
qed

end

section \<open>Every event\<close>

context input_sink
begin

lemma mouse_button_ok:
  assumes "im_inv (im, screen, w)" "convertible screen (bev_x event) (bev_y event)"
  shows "\<exists>s'. sc_input_manager_process_mouse_button q env (im, screen, w) event = Some s' \<and> im_inv s'"
proof -
  let ?im = "release_button im event"
  have i: "im_inv (?im, screen, w)" using release_button_ok(1) [OF assms(1)] .
  obtain out where out: "click_on_border ?im screen event = Some out"
    using assms(2) unfolding click_on_border_def convertible_def Let_def
    by (cases "scr_video screen \<and> \<not> (case im_mp ?im of None \<Rightarrow> False | Some mp \<Rightarrow> mp_relative_mode mp)
        \<and> bev_button event = SDL_BUTTON_LEFT \<and> bev_clicks event = 2") auto
  obtain screen' where r: "sc_screen_resize_to_fit env screen = Some screen'" "im_inv (?im, screen', w)"
    using resize_to_fit_ok [OF im_invD(2) [OF i], of env] im_inv_fields [OF i, of ?im]
    by (auto simp: same_pointers_def)
  obtain im2 w2 where c: "process_click q ?im screen w event = Some (im2, w2)" "im_inv (im2, screen, w2)"
    using process_click_ok [OF i assms(2)] by blast
  show ?thesis
  proof (cases "im_camera im \<or> im_disconnected im \<or> bev_touch event \<or>
      sc_mouse_button_from_sdl (bev_button event) = SC_MOUSE_BUTTON_UNKNOWN")
    case True
    with assms(1) show ?thesis by (auto simp: sc_input_manager_process_mouse_button_def)
  next
    case False
    show ?thesis
    proof (cases "bound_action q ?im screen w event")
      case None
      with False out r c i show ?thesis by (simp add: sc_input_manager_process_mouse_button_def Let_def)
    next
      case (Some ra)
      from binding_ok [OF i this] False obtain w' where "ra = Some w'" "im_inv (?im, screen, w')"
        by (auto simp: release_button_ok(3))
      with Some False show ?thesis by (simp add: sc_input_manager_process_mouse_button_def Let_def)
    qed
  qed
qed

lemma motion_ok:
  assumes "im_inv (im, screen, w)" "event_ok text_ok q env screen (Ev_mouse_motion event)"
  shows "\<exists>w'. sc_input_manager_process_mouse_motion im screen w event = Some w' \<and> im_inv (im, screen, w')"
proof (cases "im_camera im \<or> \<not> present (im_mp im) \<or> scr_paused screen \<or> im_disconnected im \<or> mev_touch event")
  case True
  with assms(1) show ?thesis by (auto simp: sc_input_manager_process_mouse_motion_def)
next
  case False
  then obtain mp where mp: "im_mp im = Some mp" by (cases "im_mp im") auto
  note d = im_invD [OF assms(1)]
  from mp pointersD(3) [OF d(1)] have mp0: "im_mp im0 = Some mp" by simp
  from assms(2) obtain x y pt xr yr where xy: "f_int32 (mev_x event) = Some x" "f_int32 (mev_y event) = Some y"
    "sc_screen_convert_window_to_frame_coords screen x y = Some pt" "f_int32 (mev_xrel event) = Some xr"
    "f_int32 (mev_yrel event) = Some yr"
    by (auto simp: convertible_def)
  from position_ok [OF mp xy(3)] obtain position where
    ps: "sc_input_manager_get_position im screen x y = Some position" by blast
  let ?me = "\<lparr>me_position = position,
    me_pointer_id = (if im_vfinger_down im then SC_POINTER_ID_GENERIC_FINGER else SC_POINTER_ID_MOUSE),
    me_xrel = word_of_int xr, me_yrel = word_of_int yr, me_buttons_state = im_mouse_buttons_state im\<rparr>"
  have "me_pointer_id ?me \<noteq> SC_POINTER_ID_VIRTUAL_FINGER" by simp
  from motion_call [OF mp0 d(3) this] obtain w1 where
    w1: "mp_process_mouse_motion mp w ?me = Some w1" "quiet_call good history w (Some w1)"
    by (auto simp: quiet_call_def)
  have i1: "im_inv (im, screen, w1)" by (rule im_inv_quiet [OF assms(1) w1(2)])
  show ?thesis
  proof (cases "im_vfinger_down im")
    case f: False
    with False mp xy ps w1(1) i1 show ?thesis by (simp add: sc_input_manager_process_mouse_motion_def)
  next
    case t: True
    with d(5) [OF mp0] have rel: "\<not> mp_relative_mode mp" by blast
    have "(AMOTION_EVENT_ACTION_MOVE, im_vfinger_down im, True) \<in> {(AMOTION_EVENT_ACTION_DOWN, False, True),
        (AMOTION_EVENT_ACTION_MOVE, True, True), (AMOTION_EVENT_ACTION_UP, True, False)}"
      using t by simp
    from vfinger_push [OF i1 mp rel this] obtain w2 pushed where
      "simulate_virtual_finger im screen w1 AMOTION_EVENT_ACTION_MOVE (inverse_point pt (scr_frame_size screen)
        (im_vfinger_invert_x im) (im_vfinger_invert_y im)) = Some (w2, pushed)"
      "im_inv (im\<lparr>im_vfinger_down := (if pushed then True else im_vfinger_down im)\<rparr>, screen, w2)"
      by blast
    moreover have "im\<lparr>im_vfinger_down := (if pushed then True else im_vfinger_down im)\<rparr> = im" for pushed
      using t by simp
    ultimately show ?thesis
      using False mp xy ps w1(1) t rel by (simp add: sc_input_manager_process_mouse_motion_def)
  qed
qed

lemma touch_ok:
  assumes "im_inv (im, screen, w)" "event_ok text_ok q env screen (Ev_finger event)"
  shows "quiet_call good history w (sc_input_manager_process_touch env im screen w event)"
proof -
  note d = im_invD [OF assms(1)]
  from assms(2) obtain x y pt where
    "f_int32 (fev_x event * size_w (get_window_size env screen)) = Some x"
    "f_int32 (fev_y event * size_h (get_window_size env screen)) = Some y"
    "sc_screen_convert_window_to_frame_coords screen x y = Some pt"
    "fev_fingerID event \<noteq> SC_POINTER_ID_VIRTUAL_FINGER"
    by (auto simp: convertible_def)
  with d(3) touch_call pointersD(3) [OF d(1)] show ?thesis
    by (cases "im_mp im0")
      (auto simp: sc_input_manager_process_touch_def Let_def split: option.splits)
qed

lemma wheel_ok:
  assumes "im_inv (im, screen, w)" "event_ok text_ok q env screen (Ev_mouse_wheel x y)"
  shows "quiet_call good history w (sc_input_manager_process_mouse_wheel q im screen w (x, y))"
proof (cases "im_camera im \<or> \<not> present (im_kp im) \<or> scr_paused screen \<or> im_disconnected im")
  case True
  with im_invD(3) [OF assms(1)] show ?thesis by (auto simp: sc_input_manager_process_mouse_wheel_def)
next
  case False
  note d = im_invD [OF assms(1)]
  note ptr = pointersD [OF d(1)]
  from False kp_needs ptr(2,3) have "present (im_mp im)" by (cases "im_kp im0") auto
  then obtain mp where mp: "im_mp im = Some mp" by (cases "im_mp im") auto
  with ptr(3) have mp0: "im_mp im0 = Some mp" by simp
  from assms(2) obtain i j pt where xy: "f_int32 (q_mouse_x q) = Some i" "f_int32 (q_mouse_y q) = Some j"
    "sc_screen_convert_window_to_frame_coords screen i j = Some pt"
    by (auto simp: convertible_def)
  from position_ok [OF mp xy(3)] obtain position where
    "sc_input_manager_get_position im screen i j = Some position" by blast
  with False mp xy d(3) scroll_call [OF mp0] show ?thesis
    by (auto simp: sc_input_manager_process_mouse_wheel_def split: option.splits)
qed

lemma text_input_ok:
  assumes "im_inv (im, screen, w)" "text_ok txt"
  shows "quiet_call good history w (sc_input_manager_process_text_input q im screen w txt)"
proof (cases "im_kp im0")
  case None
  with im_invD(3) [OF assms(1)] pointersD(2) [OF im_invD(1) [OF assms(1)]] show ?thesis
    by (simp add: sc_input_manager_process_text_input_def)
next
  case (Some kp)
  note d = im_invD [OF assms(1)]
  note ptr = pointersD [OF d(1)]
  show ?thesis
  proof (cases "kp_process_text kp")
    case None
    with Some d(3) ptr(2) show ?thesis by (simp add: sc_input_manager_process_text_input_def)
  next
    case t: (Some f)
    from text_call [OF Some t d(3) assms(2)] Some t d(3) ptr(2,8) mods_ok show ?thesis
      by (simp add: sc_input_manager_process_text_input_def sc_shortcut_mods_is_shortcut_mod_def)
  qed
qed

lemma gamepads_ok:
  assumes "im_inv (im, screen, w)"
  shows "quiet_call good history w (sc_input_manager_process_gamepad_device q im w added which)"
    "quiet_call good history w (sc_input_manager_process_gamepad_axis im screen w which axis v)"
    "quiet_call good history w (sc_input_manager_process_gamepad_button im screen w which b down)"
proof -
  note d = im_invD [OF assms(1)]
  note ptr = pointersD [OF d(1)]
  note g = pad_added_call pad_removed_call pad_axis_call pad_button_call
  show "quiet_call good history w (sc_input_manager_process_gamepad_device q im w added which)"
    using g d(3) ptr(4) by (cases "im_gp im0")
      (auto simp: sc_input_manager_process_gamepad_device_def split: option.splits)
  show "quiet_call good history w (sc_input_manager_process_gamepad_axis im screen w which axis v)"
    using g d(3) ptr(4) by (cases "im_gp im0")
      (auto simp: sc_input_manager_process_gamepad_axis_def Let_def)
  show "quiet_call good history w (sc_input_manager_process_gamepad_button im screen w which b down)"
    using g d(3) ptr(4) by (cases "im_gp im0")
      (auto simp: sc_input_manager_process_gamepad_button_def Let_def)
qed

lemma file_ok:
  assumes "im_inv (im, screen, w)"
  shows "quiet_call good history w (sc_input_manager_process_file q im w name)"
proof -
  note d = im_invD [OF assms(1)]
  note ptr = pointersD [OF d(1)]
  have "quiet_call good history w (map_option fst (im_fp im0 w action name))" for action
    using file_call [OF d(3), of action name] by (auto simp: quiet_call_def)
  then show ?thesis
    using d(3) ptr(5)
    by (auto simp: sc_input_manager_process_file_def Let_def quiet_call_def bind_eq_Some_conv)
qed

text \<open>No event aborts, and all keep the invariant.\<close>

theorem handle_event_ok:
  assumes "im_inv (im, screen, w)" "env_sane env" "event_ok text_ok q env screen ev"
  shows "\<exists>s'. sc_input_manager_handle_event q env (im, screen, w) ev = Some s' \<and> im_inv s'"
proof -
  have qs: "\<exists>s'. on_world im screen r = Some s' \<and> im_inv s'" if "quiet_call good history w r" for r
    using quiet_step [OF assms(1) that] by blast
  show ?thesis
  proof (cases ev)
    case (Ev_text str)
    with qs text_input_ok [OF assms(1)] assms(3) show ?thesis by simp
  next
    case (Ev_key event)
    with process_key_ok [OF assms(1,2)] show ?thesis by simp
  next
    case (Ev_mouse_motion event)
    with assms(3) have "event_ok text_ok q env screen (Ev_mouse_motion event)" by simp
    from motion_ok [OF assms(1) this] Ev_mouse_motion show ?thesis by (auto simp: on_world_def)
  next
    case (Ev_mouse_wheel x y)
    with qs wheel_ok [OF assms(1)] assms(3) show ?thesis by simp
  next
    case (Ev_mouse_button event)
    with mouse_button_ok [OF assms(1)] assms(3) show ?thesis by simp
  next
    case (Ev_finger event)
    with qs touch_ok [OF assms(1)] assms(3) show ?thesis by simp
  next
    case (Ev_gamepad_device is_new pad)
    with qs gamepads_ok(1) [OF assms(1)] show ?thesis by simp
  next
    case (Ev_gamepad_axis pad axis v)
    with qs gamepads_ok(2) [OF assms(1)] show ?thesis by simp
  next
    case (Ev_gamepad_button pad b down)
    with qs gamepads_ok(3) [OF assms(1)] show ?thesis by simp
  next
    case (Ev_drop_file name)
    with qs file_ok [OF assms(1)] show ?thesis by simp
  next
    case Ev_device_disconnected
    have "screen_inv (effect Fps_stop (screen\<lparr>scr_fps_started := False\<rparr>))"
      using im_invD(2) [OF assms(1)] by (simp add: screen_inv_def effect_def)
    with assms(1) Ev_device_disconnected show ?thesis
      by (auto simp: sc_input_manager_on_device_disconnected_def im_inv_def same_pointers_def)
  qed (use assms in simp_all)
qed

end

section \<open>Input events leave the frame buffer alone\<close>

lemma process_key_fb:
  assumes "sc_input_manager_process_key q env (im, screen, w) event = Some (im', screen', w')"
    and "screen_inv screen" "env_sane env"
  shows "scr_fb screen' = scr_fb screen"
proof -
  have f: "sc_screen_toggle_fullscreen env screen = Some s \<Longrightarrow> scr_fb s = scr_fb screen" for s
    by (auto simp: sc_screen_toggle_fullscreen_def effect_def bind_eq_Some_conv)
  have w: "process_window_shortcut env screen event = Some (Some s) \<Longrightarrow> scr_fb s = scr_fb screen" for s
    using window_shortcut_ok [OF assms(2,3)] by fastforce
  show ?thesis
    using assms(1) f w
    by (simp add: sc_input_manager_process_key_def Let_def eq_Some_conv split: prod.splits) auto
qed

lemma handle_event_fb:
  assumes "sc_input_manager_handle_event q env (im, screen, w) ev = Some (im', screen', w')"
    and "screen_inv screen" "env_sane env"
  shows "scr_fb screen' = scr_fb screen"
proof (cases ev)
  case (Ev_key event)
  with process_key_fb [OF _ assms(2,3)] assms(1) show ?thesis by simp
next
  case (Ev_mouse_button event)
  have "sc_screen_resize_to_fit env screen = Some s \<Longrightarrow> scr_fb s = scr_fb screen" for s
    using resize_to_fit_ok [OF assms(2), of env] by auto
  with assms(1) Ev_mouse_button show ?thesis
    by (auto simp: sc_input_manager_process_mouse_button_def Let_def eq_Some_conv split: prod.splits)
next
  case Ev_device_disconnected
  with assms(1) show ?thesis
    by (auto simp: sc_input_manager_on_device_disconnected_def effect_def split: if_splits)
qed (use assms(1) in \<open>auto dest: on_world_SomeD\<close>)

end
