(* ===== verification/Sc_Event_Loop.thy ===== *)
theory Sc_Event_Loop
  imports Sc_Input_Sink
begin

text \<open>
  The main thread: \<open>mouse_capture.c\<close>, the dispatch of the events in \<open>screen.c\<close>, and \<open>event_loop\<close> of
  \<open>scrcpy.c\<close>.
\<close>

section \<open>Mouse capture\<close>

record sc_mouse_capture =
  mc_sdl_mouse_capture_keys :: "sc_mod set"
  mc_mouse_capture_key_pressed :: sc_keycode

definition sc_mouse_capture_init :: "sc_shortcut_mod set \<Rightarrow> sc_mouse_capture" where
  "sc_mouse_capture_init shortcut_mods =
     \<lparr>mc_sdl_mouse_capture_keys = sc_shortcut_mods_to_sdl shortcut_mods,
      mc_mouse_capture_key_pressed = SDLK_UNKNOWN\<rparr>"

definition sc_mouse_capture_is_capture_key :: "sc_mouse_capture \<Rightarrow> sc_keycode \<Rightarrow> bool" where
  "sc_mouse_capture_is_capture_key mc key =
     sc_shortcut_mods_is_shortcut_key (mc_sdl_mouse_capture_keys mc) key"

text \<open>The state of the capture is with SDL.\<close>

definition sc_mouse_capture_is_active :: "sdl_query \<Rightarrow> bool" where
  "sc_mouse_capture_is_active q = q_relative_mouse_mode q"

definition sc_mouse_capture_set_active :: "bool \<Rightarrow> sc_screen \<Rightarrow> sc_screen" where
  "sc_mouse_capture_set_active capture screen = effect (Set_capture capture) screen"

definition sc_mouse_capture_toggle :: "sdl_query \<Rightarrow> sc_screen \<Rightarrow> sc_screen" where
  "sc_mouse_capture_toggle q screen =
     (let new_value = \<not> sc_mouse_capture_is_active q in sc_mouse_capture_set_active new_value screen)"

text \<open>Whether the event was consumed comes first.\<close>

fun sc_mouse_capture_handle_event ::
    "sdl_query \<Rightarrow> sc_mouse_capture \<Rightarrow> sc_screen \<Rightarrow> sdl_event \<Rightarrow> bool \<times> sc_mouse_capture \<times> sc_screen" where
  "sc_mouse_capture_handle_event q mc screen Ev_focus_lost =
     (True, mc, sc_mouse_capture_set_active False screen)"
| "sc_mouse_capture_handle_event q mc screen (Ev_key event) =
     (let key = kev_key event in
      if kev_down event then
        (if sc_mouse_capture_is_capture_key mc key then
           (if mc_mouse_capture_key_pressed mc = SDLK_UNKNOWN
            then (True, mc\<lparr>mc_mouse_capture_key_pressed := key\<rparr>, screen)
            else (True, mc\<lparr>mc_mouse_capture_key_pressed := SDLK_UNKNOWN\<rparr>, screen))
         else (False, mc, screen))
      else
        (let cap = mc_mouse_capture_key_pressed mc;
             mc = mc\<lparr>mc_mouse_capture_key_pressed := SDLK_UNKNOWN\<rparr>
         in if sc_mouse_capture_is_capture_key mc key
            then (True, mc, if key = cap then sc_mouse_capture_toggle q screen else screen)
            else (False, mc, screen)))"
| "sc_mouse_capture_handle_event q mc screen (Ev_mouse_wheel x y) =
     (\<not> sc_mouse_capture_is_active q, mc, screen)"
| "sc_mouse_capture_handle_event q mc screen (Ev_mouse_motion event) =
     (\<not> sc_mouse_capture_is_active q, mc, screen)"
| "sc_mouse_capture_handle_event q mc screen (Ev_mouse_button event) =
     (if sc_mouse_capture_is_active q then (False, mc, screen)
      else if bev_down event then (True, mc, screen)
      else (True, mc, sc_mouse_capture_set_active True screen))"
| "sc_mouse_capture_handle_event q mc screen (Ev_finger event) = (True, mc, screen)"
| "sc_mouse_capture_handle_event q mc screen _ = (False, mc, screen)"

section \<open>The screen\<close>

datatype screen_event =
    Sev_open_window
  | Sev_new_frame bool
  | Sev_exposed
  | Sev_resized int int
  | Sev_pixel_size_changed
  | Sev_restored
  | Sev_enter_fullscreen
  | Sev_leave_fullscreen
  | Sev_input sdl_event

type_synonym 'w app = "sc_mouse_capture \<times> 'w im_state"

definition sc_screen_is_relative_mode :: "'w sc_input_manager \<Rightarrow> bool" where
  "sc_screen_is_relative_mode im = (case im_mp im of None \<Rightarrow> False | Some mp \<Rightarrow> mp_relative_mode mp)"

definition with_screen :: "'w app \<Rightarrow> sc_screen option \<Rightarrow> 'w app option" where
  "with_screen = (\<lambda>(mc, im, _, w) r. do { screen \<leftarrow> r; Some (mc, im, screen, w) })"

definition back_to_windowed :: "screen_env \<Rightarrow> sc_screen \<Rightarrow> sc_screen option" where
  "back_to_windowed env screen = do {
     screen \<leftarrow> apply_pending_resize env screen;
     sc_screen_render env screen True
   }"

definition sc_screen_on_device_disconnected ::
    "sdl_query \<Rightarrow> screen_env \<Rightarrow> 'w im_state \<Rightarrow> 'w im_state option" where
  "sc_screen_on_device_disconnected q env = (\<lambda>(im, screen, w). do {
     c_assert (\<not> scr_disconnected screen);
     let screen = screen\<lparr>scr_disconnected := True\<rparr>;
     if \<not> scr_window_shown screen then Some (im, screen, w)
     else do {
       (im, screen, w) \<leftarrow> sc_input_manager_handle_event q env (im, screen, w) Ev_device_disconnected;
       let screen = (effect (Set_texture None) screen)\<lparr>scr_texture := False\<rparr>;
       screen \<leftarrow> sc_screen_render env screen True;
       let deadline = env_now env (scr_effects screen) + 2 * 1000000;
       let ok = env_ok env (scr_effects screen);
       Some (im, if ok then (effect (Disconnect_start deadline) screen)\<lparr>scr_disconnect_started := True\<rparr>
         else screen, w)
     }
   })"

fun sc_screen_handle_event ::
    "sdl_query \<Rightarrow> screen_env \<Rightarrow> 'w app \<Rightarrow> screen_event \<Rightarrow> 'w app option" where
  "sc_screen_handle_event q env (mc, im, screen, w) Sev_open_window =
     with_screen (mc, im, screen, w) (do {
       screen \<leftarrow> sc_screen_show_initial_window env screen;
       let screen = (if sc_screen_is_relative_mode im then sc_mouse_capture_set_active True screen
         else screen);
       sc_screen_render env screen False
     })"
| "sc_screen_handle_event q env (mc, im, screen, w) (Sev_new_frame alloc_ok) =
     with_screen (mc, im, screen, w) (map_option snd (sc_screen_update_frame alloc_ok env screen))"
| "sc_screen_handle_event q env (mc, im, screen, w) Sev_exposed =
     with_screen (mc, im, screen, w) (sc_screen_render env screen True)"
| "sc_screen_handle_event q env (mc, im, screen, w) (Sev_resized data1 data2) =
     with_screen (mc, im, screen, w) (sc_screen_on_resized env screen data1 data2)"
| "sc_screen_handle_event q env (mc, im, screen, w) Sev_pixel_size_changed =
     with_screen (mc, im, screen, w) (sc_screen_on_pixel_size_changed env screen)"
| "sc_screen_handle_event q env (mc, im, screen, w) Sev_restored =
     with_screen (mc, im, screen, w)
       (if scr_video screen \<and> is_windowed env screen then back_to_windowed env screen else Some screen)"
| "sc_screen_handle_event q env (mc, im, screen, w) Sev_enter_fullscreen =
     with_screen (mc, im, screen, w) (do { c_assert (scr_video screen); Some screen })"
| "sc_screen_handle_event q env (mc, im, screen, w) Sev_leave_fullscreen =
     with_screen (mc, im, screen, w) (do {
       c_assert (scr_video screen);
       if is_windowed env screen then back_to_windowed env screen else Some screen
     })"
| "sc_screen_handle_event q env (mc, im, screen, w) (Sev_input event) =
     (if event = Ev_device_disconnected then do {
        s \<leftarrow> sc_screen_on_device_disconnected q env (im, screen, w);
        Some (mc, s)
      }
      else
        (let (consumed, mc, screen) =
           (if sc_screen_is_relative_mode im then sc_mouse_capture_handle_event q mc screen event
            else (False, mc, screen))
         in if consumed then Some (mc, im, screen, w)
            else do { s \<leftarrow> sc_input_manager_handle_event q env (im, screen, w) event; Some (mc, s) }))"

section \<open>The event loop\<close>

datatype scrcpy_exit_code = SCRCPY_EXIT_SUCCESS | SCRCPY_EXIT_FAILURE | SCRCPY_EXIT_DISCONNECTED

datatype loop_event =
    Lev_device_disconnected
  | Lev_error
  | Lev_time_limit_reached
  | Lev_quit
  | Lev_screen screen_event

text \<open>
  \<open>event_loop\<close>, on the events that \<open>SDL_WaitEvent\<close> delivers before it fails; an event comes with what
  SDL answers while it is handled.
\<close>

fun event_loop ::
    "bool \<Rightarrow> screen_env \<Rightarrow> 'w app \<Rightarrow> (sdl_query \<times> loop_event) list \<Rightarrow> (scrcpy_exit_code \<times> 'w app) option"
where
  "event_loop has_screen env s [] = Some (SCRCPY_EXIT_FAILURE, s)"
| "event_loop has_screen env s ((q, event) # events) =
     (case event of
        Lev_device_disconnected \<Rightarrow> do {
          s \<leftarrow> (if has_screen then sc_screen_handle_event q env s (Sev_input Ev_device_disconnected)
            else Some s);
          Some (SCRCPY_EXIT_DISCONNECTED, s)
        }
      | Lev_error \<Rightarrow> Some (SCRCPY_EXIT_FAILURE, s)
      | Lev_time_limit_reached \<Rightarrow> Some (SCRCPY_EXIT_SUCCESS, s)
      | Lev_quit \<Rightarrow> Some (SCRCPY_EXIT_SUCCESS, s)
      | Lev_screen ev \<Rightarrow> do {
          s \<leftarrow> (if has_screen then sc_screen_handle_event q env s ev else Some s);
          event_loop has_screen env s events
        })"

text \<open>The events after the disconnection; an icon comes with its size and whether it can be shown.\<close>

datatype disconnect_event =
    Dev_exposed
  | Dev_icon_loaded int int bool
  | Dev_timeout
  | Dev_quit
  | Dev_input sdl_event

definition show_disconnected_icon ::
    "screen_env \<Rightarrow> sc_screen \<Rightarrow> int \<Rightarrow> int \<Rightarrow> bool \<Rightarrow> sc_screen option" where
  "show_disconnected_icon env screen icon_w icon_h ok =
     (if ok then
        (let screen = (effect (Set_icon icon_w icon_h) screen)\<lparr>scr_texture := True,
           scr_content_size := \<lparr>width = word_of_int icon_w, height = word_of_int icon_h\<rparr>\<rparr>
         in sc_screen_render env screen True)
      else Some (screen\<lparr>scr_texture := False\<rparr>))"

text \<open>The result tells whether the thread of the timeout was interrupted.\<close>

fun disconnection_loop ::
    "screen_env \<Rightarrow> 'w im_state \<Rightarrow> (sdl_query \<times> disconnect_event) list \<Rightarrow> (bool \<times> 'w im_state) option"
where
  "disconnection_loop env s [] = Some (False, s)"
| "disconnection_loop env (im, screen, w) ((q, event) # events) =
     (case event of
        Dev_exposed \<Rightarrow> do {
          screen \<leftarrow> sc_screen_render env screen True;
          disconnection_loop env (im, screen, w) events
        }
      | Dev_icon_loaded icon_w icon_h ok \<Rightarrow> do {
          screen \<leftarrow> show_disconnected_icon env screen icon_w icon_h ok;
          disconnection_loop env (im, screen, w) events
        }
      | Dev_timeout \<Rightarrow> Some (False, (im, screen, w))
      | Dev_quit \<Rightarrow> Some (scr_disconnect_started screen, (im, screen, w))
      | Dev_input ev \<Rightarrow> do {
          s \<leftarrow> sc_input_manager_handle_event q env (im, screen, w) ev;
          disconnection_loop env s events
        })"

definition sc_screen_handle_disconnection ::
    "screen_env \<Rightarrow> 'w im_state \<Rightarrow> (sdl_query \<times> disconnect_event) list \<Rightarrow> (bool \<times> 'w im_state) option" where
  "sc_screen_handle_disconnection env = (\<lambda>(im, screen, w) events.
     if \<not> scr_window_shown screen then Some (False, (im, screen, w))
     else if \<not> scr_disconnect_started screen then Some (False, (im, screen, w))
     else disconnection_loop env (im, screen, w) events)"

section \<open>The main thread and the others\<close>

text \<open>
  What happens to the client while its window is shown: a frame or a session comes from the decoder, the
  main thread handles an event, or other threads change the world.
\<close>

datatype 'w app_op =
    App_frame bool bool av_frame
  | App_session sc_stream_session
  | App_event sdl_query screen_event
  | App_world 'w

fun event_screen_op :: "screen_event \<Rightarrow> screen_op option" where
  "event_screen_op (Sev_new_frame alloc_ok) = Some (Op_new_frame alloc_ok)"
| "event_screen_op Sev_exposed = Some Op_exposed"
| "event_screen_op (Sev_resized w h) = Some (Op_resized w h)"
| "event_screen_op Sev_pixel_size_changed = Some Op_exposed"
| "event_screen_op Sev_restored = Some Op_restored"
| "event_screen_op Sev_leave_fullscreen = Some Op_restored"
| "event_screen_op _ = None"

fun app_exec :: "screen_env \<Rightarrow> 'w app_op \<Rightarrow> 'w app \<times> nat \<Rightarrow> ('w app \<times> nat) option" where
  "app_exec env (App_frame ref_ok posted f) ((mc, im, screen, w), n) = do {
     (screen, n) \<leftarrow> screen_exec env (Op_frame ref_ok posted f) (screen, n);
     Some ((mc, im, screen, w), n)
   }"
| "app_exec env (App_session ss) ((mc, im, screen, w), n) =
     Some ((mc, im, sc_screen_frame_sink_push_session screen ss, w), n)"
| "app_exec env (App_event q ev) (s, n) = do {
     s \<leftarrow> sc_screen_handle_event q env s ev;
     Some (s, case ev of Sev_new_frame _ \<Rightarrow> n - 1 | _ \<Rightarrow> n)
   }"
| "app_exec env (App_world w') ((mc, im, screen, w), n) = Some ((mc, im, screen, w'), n)"

fun app_enabled ::
    "(bytes \<Rightarrow> bool) \<Rightarrow> ('w \<Rightarrow> 'w \<Rightarrow> bool) \<Rightarrow> screen_env \<Rightarrow> 'w app_op \<Rightarrow> 'w app \<times> nat \<Rightarrow> bool" where
  "app_enabled text_ok wenv env (App_frame _ _ f) s = frame_ok f"
| "app_enabled text_ok wenv env (App_session _) s = True"
| "app_enabled text_ok wenv env (App_event q ev) ((mc, im, screen, w), n) =
     (case ev of
        Sev_open_window \<Rightarrow> False
      | Sev_new_frame _ \<Rightarrow> 0 < n
      | Sev_resized a b \<Rightarrow> 0 < a \<and> a \<le> 0xFFFF \<and> 0 < b \<and> b \<le> 0xFFFF
      | Sev_input e \<Rightarrow> event_ok text_ok q env screen e \<and>
          (e = Ev_device_disconnected \<longrightarrow> \<not> scr_disconnected screen)
      | _ \<Rightarrow> True)"
| "app_enabled text_ok wenv env (App_world w') ((mc, im, screen, w), n) = wenv w w'"

inductive app_reach ::
    "(bytes \<Rightarrow> bool) \<Rightarrow> ('w \<Rightarrow> 'w \<Rightarrow> bool) \<Rightarrow> screen_env \<Rightarrow> 'w app \<Rightarrow> 'w app \<times> nat \<Rightarrow> bool"
  for text_ok wenv env s0 where
  start: "app_reach text_ok wenv env s0 (s0, 0)"
| step: "app_reach text_ok wenv env s0 s \<Longrightarrow> app_enabled text_ok wenv env op s \<Longrightarrow>
    app_exec env op s = Some s' \<Longrightarrow> app_reach text_ok wenv env s0 s'"

lemma screen_event_exec:
  assumes "event_screen_op ev = Some op" "screen_inv screen"
    "screen_exec env op (screen, n) = Some (screen', n')"
  shows "sc_screen_handle_event q env (mc, im, screen, w) ev = Some (mc, im, screen', w)"
  using assms screen_invD(1,2) [OF assms(2)]
  by (cases ev) (auto simp: with_screen_def back_to_windowed_def sc_screen_on_pixel_size_changed_def
      bind_eq_Some_conv split: if_splits)

lemma capture_keeps_screen:
  assumes "sc_mouse_capture_handle_event q mc screen ev = (consumed, mc', screen')"
  shows "\<not> consumed \<Longrightarrow> screen' = screen" "screen_inv screen' = screen_inv screen" "scr_fb screen' = scr_fb screen"
  using assms
  by (cases ev; auto simp: sc_mouse_capture_set_active_def sc_mouse_capture_toggle_def Let_def
      effect_def screen_inv_def split: if_splits)+

section \<open>Nothing aborts\<close>

context input_sink
begin

definition app_inv :: "'w app \<times> nat \<Rightarrow> bool" where
  "app_inv = (\<lambda>((mc, im, screen, w), n). im_inv (im, screen, w) \<and> frame_events_inv (screen, n))"

lemma im_inv_screen:
  assumes "im_inv (im, screen, w)" "screen_inv screen'"
  shows "im_inv (im, screen', w)"
  using im_inv_fields [OF assms(1) _ _ assms(2), of im] by (simp add: same_pointers_def)

lemma input_event_ok:
  assumes "im_inv (im, screen, w)" "env_sane env" "event_ok text_ok q env screen ev"
  shows "\<exists>im' screen' w'. sc_input_manager_handle_event q env (im, screen, w) ev = Some (im', screen', w') \<and>
    im_inv (im', screen', w') \<and> scr_fb screen' = scr_fb screen"
proof -
  from handle_event_ok [OF assms] obtain im' screen' w' where
    s': "sc_input_manager_handle_event q env (im, screen, w) ev = Some (im', screen', w')"
      "im_inv (im', screen', w')"
    by (metis prod.exhaust)
  with handle_event_fb [OF s'(1) im_invD(2) [OF assms(1)] assms(2)] show ?thesis by blast
qed

lemma device_disconnected_ok:
  assumes "im_inv (im, screen, w)" "env_sane env" "\<not> scr_disconnected screen"
  shows "\<exists>im' screen' w'. sc_screen_on_device_disconnected q env (im, screen, w) = Some (im', screen', w') \<and>
    im_inv (im', screen', w') \<and> scr_fb screen' = scr_fb screen"
proof -
  let ?s = "screen\<lparr>scr_disconnected := True\<rparr>"
  have "screen_inv ?s" using im_invD(2) [OF assms(1)] by (simp add: screen_inv_def)
  from im_inv_screen [OF assms(1) this] have i: "im_inv (im, ?s, w)" .
  have sh: "scr_window_shown ?s" using screen_invD(2) [OF im_invD(2) [OF i]] by simp
  from input_event_ok [OF i assms(2), of q Ev_device_disconnected] obtain im1 s1 w1 where
    s1: "sc_input_manager_handle_event q env (im, ?s, w) Ev_device_disconnected = Some (im1, s1, w1)"
      "im_inv (im1, s1, w1)" "scr_fb s1 = scr_fb screen"
    by auto
  let ?s2 = "(effect (Set_texture None) s1)\<lparr>scr_texture := False\<rparr>"
  have "screen_inv ?s2" using im_invD(2) [OF s1(2)] by (simp add: screen_inv_def effect_def)
  from render_ok [OF this, of env True] obtain s3 where
    s3: "sc_screen_render env ?s2 True = Some s3" "screen_inv s3" "same_screen ?s2 s3" by blast
  let ?s4 = "\<lambda>e. (effect e s3)\<lparr>scr_disconnect_started := True\<rparr>"
  have s4: "screen_inv (?s4 e)" "scr_fb (?s4 e) = scr_fb s3" for e
    using s3(2) by (simp_all add: screen_inv_def effect_def)
  have fb: "scr_fb s3 = scr_fb screen" using s3(3) s1(3) by (simp add: same_screen_def effect_def)
  show ?thesis
    using assms(3) sh s1(1) s3(1) im_inv_screen [OF s1(2) s3(2)] im_inv_screen [OF s1(2) s4(1)] s4(2) fb
    by (simp add: sc_screen_on_device_disconnected_def Let_def)
qed

lemma window_event_ok:
  assumes "app_inv ((mc, im, screen, w), n)" "env_sane env" "event_screen_op ev = Some op"
    and "app_enabled text_ok wenv env (App_event q ev) ((mc, im, screen, w), n)"
  shows "\<exists>s'. app_exec env (App_event q ev) ((mc, im, screen, w), n) = Some s' \<and> app_inv s'"
proof -
  have i: "im_inv (im, screen, w)" "frame_events_inv (screen, n)"
    using assms(1) by (simp_all add: app_inv_def)
  note si = im_invD(2) [OF i(1)]
  have "screen_enabled op n" using assms(3,4) by (cases ev) auto
  from screen_step_ok [OF si assms(2) i(2) this] obtain screen' n' where
    s': "screen_exec env op (screen, n) = Some (screen', n')" "screen_inv screen'"
      "frame_events_inv (screen', n')" by (metis prod.collapse)
  have n': "n' = (case ev of Sev_new_frame _ \<Rightarrow> n - 1 | _ \<Rightarrow> n)"
    using s'(1) assms(3) by (cases ev) (auto simp: bind_eq_Some_conv split: if_splits)
  from screen_event_exec [OF assms(3) si s'(1), of q mc im w] im_inv_screen [OF i(1) s'(2)] s'(3) show ?thesis
    by (simp add: app_inv_def n')
qed

lemma app_input_ok:
  assumes "app_inv ((mc, im, screen, w), n)" "env_sane env"
    and "app_enabled text_ok wenv env (App_event q (Sev_input ev)) ((mc, im, screen, w), n)"
  shows "\<exists>s'. app_exec env (App_event q (Sev_input ev)) ((mc, im, screen, w), n) = Some s' \<and> app_inv s'"
proof -
  have i: "im_inv (im, screen, w)" "frame_events_inv (screen, n)"
    using assms(1) by (simp_all add: app_inv_def)
  from assms(3) have e: "event_ok text_ok q env screen ev" by simp
  have fe: "frame_events_inv (screen', n)" if "scr_fb screen' = scr_fb screen" for screen'
    using i(2) that by (simp add: frame_events_inv_def)
  show ?thesis
  proof (cases "ev = Ev_device_disconnected")
    case True
    with device_disconnected_ok [OF i(1) assms(2), of q] assms(3) fe show ?thesis
      by (fastforce simp: app_inv_def)
  next
    case nd: False
    obtain consumed mc' screen' where c: "(if sc_screen_is_relative_mode im
        then sc_mouse_capture_handle_event q mc screen ev else (False, mc, screen)) = (consumed, mc', screen')"
      by (metis prod.exhaust)
    have cs: "\<not> consumed \<Longrightarrow> screen' = screen" "screen_inv screen'" "scr_fb screen' = scr_fb screen"
      using c capture_keeps_screen [of q mc screen ev consumed mc' screen'] im_invD(2) [OF i(1)]
      by (auto split: if_splits)
    show ?thesis
    proof (cases consumed)
      case True
      with nd c im_inv_screen [OF i(1) cs(2)] fe [OF cs(3)] show ?thesis by (simp add: app_inv_def)
    next
      case False
      with cs(1) have "screen' = screen" by simp
      with nd c False input_event_ok [OF i(1) assms(2) e] fe show ?thesis
        by (fastforce simp: app_inv_def)
    qed
  qed
qed

theorem app_step_ok:
  assumes "app_inv s" "env_sane env" "app_enabled text_ok wenv env op s"
  shows "\<exists>s'. app_exec env op s = Some s' \<and> app_inv s'"
proof -
  obtain mc im screen w n where s: "s = ((mc, im, screen, w), n)" by (metis prod.exhaust)
  have i: "im_inv (im, screen, w)" "frame_events_inv (screen, n)"
    using assms(1) by (simp_all add: app_inv_def s)
  note si = im_invD(2) [OF i(1)]
  show ?thesis
  proof (cases op)
    case (App_frame ref_ok posted f)
    with assms(3) have "frame_ok f" by (simp add: s)
    from frame_push_step [OF si i(2) this] obtain screen' n' where
      "screen_exec env (Op_frame ref_ok posted f) (screen, n) = Some (screen', n')" "screen_inv screen'"
      "frame_events_inv (screen', n')" by (metis prod.collapse)
    with App_frame im_inv_screen [OF i(1)] show ?thesis by (simp add: s app_inv_def)
  next
    case (App_session ss)
    have "screen_inv (sc_screen_frame_sink_push_session screen ss)"
      using si by (simp add: sc_screen_frame_sink_push_session_def screen_inv_def)
    with App_session im_inv_screen [OF i(1)] i(2) show ?thesis
      by (simp add: s app_inv_def frame_events_inv_def sc_screen_frame_sink_push_session_def)
  next
    case (App_event q ev)
    show ?thesis
    proof (cases "event_screen_op ev")
      case (Some sop)
      with window_event_ok [of mc im screen w n env ev sop q] assms App_event show ?thesis
        by (simp only: s)
    next
      case None
      then consider "ev = Sev_open_window" | "ev = Sev_enter_fullscreen" | e where "ev = Sev_input e"
        by (cases ev) auto
      then show ?thesis
      proof cases
        case 1
        with assms(3) App_event show ?thesis by (simp add: s)
      next
        case 2
        with App_event i screen_invD(1) [OF si] show ?thesis
          by (simp add: s app_inv_def with_screen_def)
      next
        case 3
        with app_input_ok [of mc im screen w n env q e] assms App_event show ?thesis by (simp only: s)
      qed
    qed
  next
    case (App_world w')
    with assms(3) have "wenv w w'" by (simp add: s)
    from world_env [OF im_invD(3) [OF i(1)] this] i App_world show ?thesis
      by (auto simp: s app_inv_def im_inv_def)
  qed
qed

lemma app_reach_inv:
  assumes "app_reach text_ok wenv env s0 s" "app_inv (s0, 0)" "env_sane env"
  shows "app_inv s"
  using assms(1)
proof induction
  case start
  with assms(2) show ?case .
next
  case (step s op s')
  then show ?case using app_step_ok [OF _ assms(3), of s op] by auto
qed

end

end
