(* ===== verification/Sc_Mouse_Sdk.thy ===== *)
theory Sc_Mouse_Sdk
  imports Sc_Input_Events Sc_Android Sc_Control_Sink
begin

text \<open>
  \<open>mouse_sdk.c\<close>: mouse, scroll and touch events as injected Android motion events.

  The controller is an argument \<open>push\<close> with its state \<open>c\<close>, as for the other processors.
\<close>

record sc_mouse_sdk =
  ms_mouse_hover :: bool

unbundle bit_operations_syntax

definition convert_mouse_buttons :: "sc_mouse_button set \<Rightarrow> u32" where
  "convert_mouse_buttons state =
     (if SC_MOUSE_BUTTON_LEFT \<in> state then AMOTION_EVENT_BUTTON_PRIMARY else 0) OR
     (if SC_MOUSE_BUTTON_RIGHT \<in> state then AMOTION_EVENT_BUTTON_SECONDARY else 0) OR
     (if SC_MOUSE_BUTTON_MIDDLE \<in> state then AMOTION_EVENT_BUTTON_TERTIARY else 0) OR
     (if SC_MOUSE_BUTTON_X1 \<in> state then AMOTION_EVENT_BUTTON_BACK else 0) OR
     (if SC_MOUSE_BUTTON_X2 \<in> state then AMOTION_EVENT_BUTTON_FORWARD else 0)"

fun convert_mouse_action :: "sc_action \<Rightarrow> u32" where
  "convert_mouse_action SC_ACTION_DOWN = AMOTION_EVENT_ACTION_DOWN"
| "convert_mouse_action SC_ACTION_UP = AMOTION_EVENT_ACTION_UP"

fun convert_touch_action :: "sc_touch_action \<Rightarrow> u32" where
  "convert_touch_action SC_TOUCH_ACTION_MOVE = AMOTION_EVENT_ACTION_MOVE"
| "convert_touch_action SC_TOUCH_ACTION_DOWN = AMOTION_EVENT_ACTION_DOWN"
| "convert_touch_action SC_TOUCH_ACTION_UP = AMOTION_EVENT_ACTION_UP"

definition mouse_sdk_process_mouse_motion ::
    "'c push_msg \<Rightarrow> sc_mouse_sdk \<Rightarrow> 'c \<Rightarrow> sc_mouse_motion_event \<Rightarrow> 'c option" where
  "mouse_sdk_process_mouse_motion push m c event =
     (if \<not> ms_mouse_hover m \<and> me_buttons_state event = {} then Some c
      else do {
        (c, pushed) \<leftarrow> push c (INJECT_TOUCH_EVENT
          (if me_buttons_state event \<noteq> {} then AMOTION_EVENT_ACTION_MOVE
           else AMOTION_EVENT_ACTION_HOVER_MOVE)
          0 (convert_mouse_buttons (me_buttons_state event)) (me_pointer_id event)
          (me_position event) 1);
        Some c
      })"

definition mouse_sdk_process_mouse_click ::
    "'c push_msg \<Rightarrow> sc_mouse_sdk \<Rightarrow> 'c \<Rightarrow> sc_mouse_click_event \<Rightarrow> 'c option" where
  "mouse_sdk_process_mouse_click push m c event = do {
     (c, pushed) \<leftarrow> push c (INJECT_TOUCH_EVENT (convert_mouse_action (ce_action event))
       (convert_mouse_buttons {ce_button event}) (convert_mouse_buttons (ce_buttons_state event))
       (ce_pointer_id event) (ce_position event) (if ce_action event = SC_ACTION_DOWN then 1 else 0));
     Some c
   }"

definition mouse_sdk_process_mouse_scroll ::
    "'c push_msg \<Rightarrow> sc_mouse_sdk \<Rightarrow> 'c \<Rightarrow> sc_mouse_scroll_event \<Rightarrow> 'c option" where
  "mouse_sdk_process_mouse_scroll push m c event = do {
     (c, pushed) \<leftarrow> push c (INJECT_SCROLL_EVENT (we_position event) (we_hscroll event)
       (we_vscroll event) (convert_mouse_buttons (we_buttons_state event)));
     Some c
   }"

definition mouse_sdk_process_touch ::
    "'c push_msg \<Rightarrow> sc_mouse_sdk \<Rightarrow> 'c \<Rightarrow> sc_touch_event \<Rightarrow> 'c option" where
  "mouse_sdk_process_touch push m c event = do {
     (c, pushed) \<leftarrow> push c (INJECT_TOUCH_EVENT (convert_touch_action (tev_action event)) 0 0
       (tev_pointer_id event) (tev_position event) (tev_pressure event));
     Some c
   }"

text \<open>The ops table and \<open>relative_mode = false\<close> are set where the processor is made.\<close>

definition sc_mouse_sdk_init :: "bool \<Rightarrow> sc_mouse_sdk" where
  "sc_mouse_sdk_init mouse_hover = \<lparr>ms_mouse_hover = mouse_hover\<rparr>"

section \<open>The messages of the processor\<close>

text \<open>The device can read the pressed buttons from the bits.\<close>

definition button_bit :: "sc_mouse_button \<Rightarrow> nat option" where
  "button_bit b = (case b of SC_MOUSE_BUTTON_UNKNOWN \<Rightarrow> None | SC_MOUSE_BUTTON_LEFT \<Rightarrow> Some 0
     | SC_MOUSE_BUTTON_RIGHT \<Rightarrow> Some 1 | SC_MOUSE_BUTTON_MIDDLE \<Rightarrow> Some 2 | SC_MOUSE_BUTTON_X1 \<Rightarrow> Some 3
     | SC_MOUSE_BUTTON_X2 \<Rightarrow> Some 4)"

lemma convert_mouse_buttons_bit:
  "button_bit b = Some i \<Longrightarrow> bit (convert_mouse_buttons state) i \<longleftrightarrow> b \<in> state"
  by (cases b)
    (auto simp: button_bit_def convert_mouse_buttons_def bit_simps AMOTION_EVENT_BUTTON_PRIMARY_def
      AMOTION_EVENT_BUTTON_SECONDARY_def AMOTION_EVENT_BUTTON_TERTIARY_def
      AMOTION_EVENT_BUTTON_BACK_def AMOTION_EVENT_BUTTON_FORWARD_def)

lemma convert_mouse_buttons_inj:
  assumes "convert_mouse_buttons s = convert_mouse_buttons t" "SC_MOUSE_BUTTON_UNKNOWN \<notin> s \<union> t"
  shows "s = t"
proof -
  have "b \<in> s \<longleftrightarrow> b \<in> t" for b
  proof (cases "button_bit b")
    case None
    then have "b = SC_MOUSE_BUTTON_UNKNOWN"
      by (simp add: button_bit_def split: sc_mouse_button.splits)
    with assms(2) show ?thesis by simp
  next
    case (Some i)
    with convert_mouse_buttons_bit [OF Some, of s] convert_mouse_buttons_bit [OF Some, of t] assms(1)
    show ?thesis by simp
  qed
  then show ?thesis by blast
qed

end
