(* ===== verification/Sc_Client.thy ===== *)
theory Sc_Client
  imports Sc_Event_Loop Sc_Keyboard_Sdk Sc_Mouse_Sdk
begin

text \<open>
  The client in its default mode, with injected keyboard and mouse events: the input manager on top of
  the controller, the SDK processors and the file pusher, as \<open>scrcpy.c\<close> puts them together.
\<close>

section \<open>The processors on the controller\<close>

context control_sink
begin

lemma sdk_key_total:
  assumes "inv c"
  shows "\<exists>c' kb' h. keyboard_sdk_process_key push c kb e = Some (c', kb') \<and> inv c' \<and>
    history c' = history c @ h \<and> (\<forall>m \<in> fst ` set h. \<exists>a k r s. m = INJECT_KEYCODE a k r s)"
proof -
  define kb1 where "kb1 = kb\<lparr>ks_repeat := (if ke_repeat e then ks_repeat kb + 1 else 0)\<rparr>"
  show ?thesis
  proof (cases "ke_repeat e \<and> \<not> ks_forward_key_repeat kb")
    case True
    with assms show ?thesis by (auto simp: keyboard_sdk_process_key_def)
  next
    case False
    show ?thesis
    proof (cases "convert_keycode (ke_keycode e) (ke_mods_state e) (ks_key_inject_mode kb1)")
      case None
      with False assms show ?thesis
        by (auto simp: keyboard_sdk_process_key_def convert_input_key_def kb1_def [symmetric] Let_def)
    next
      case (Some keycode)
      let ?m = "INJECT_KEYCODE (convert_keycode_action (ke_action e)) keycode (ks_repeat kb1)
        (convert_meta_state (ke_mods_state e))"
      obtain c1 pushed where "push c ?m = Some (c1, pushed)" "inv c1" "history c1 = history c @ [(?m, pushed)]"
        using pushE [OF assms, of ?m] by (auto simp: not_resize_def)
      with Some False show ?thesis
        by (intro exI [of _ c1] exI [of _ kb1] exI [of _ "[(?m, pushed)]"])
          (auto simp: keyboard_sdk_process_key_def convert_input_key_def kb1_def [symmetric] Let_def)
    qed
  qed
qed

text \<open>One character, or a text that does not start with a letter or a space.\<close>

lemma sdk_text_total:
  assumes "inv c" "length s \<le> 1 \<or> \<not> (c_isalpha (hd s) \<or> hd s = 0x20)"
  shows "\<exists>c' f h. keyboard_sdk_process_text push ok c kb \<lparr>xe_text = s\<rparr> = Some (c', f) \<and> inv c' \<and>
    history c' = history c @ h \<and> (\<forall>m \<in> fst ` set h. \<exists>t. m = INJECT_TEXT t)"
proof -
  let ?m = "INJECT_TEXT (Some s)"
  obtain c1 pushed where p: "push c ?m = Some (c1, pushed)" "inv c1" "history c1 = history c @ [(?m, pushed)]"
    using pushE [OF assms(1), of ?m] by (auto simp: not_resize_def)
  have c0: "char_at s 0 = Some (if s = [] then 0 else hd s)"
    by (cases s) (simp_all add: char_at_def arr_get_def)
  have c1: "length s = 1 \<Longrightarrow> char_at s 1 = Some 0"
    by (simp add: char_at_def arr_get_def nth_append)
  have z: "\<not> c_isalpha 0" by (simp add: c_isalpha_def)
  show ?thesis
  proof (cases "ks_key_inject_mode kb = SC_KEY_INJECT_MODE_RAW")
    case True
    with assms(1) show ?thesis by (auto simp: keyboard_sdk_process_text_def)
  next
    case False
    show ?thesis
    proof (cases "s \<noteq> [] \<and> (c_isalpha (hd s) \<or> hd s = 0x20)")
      case True
      with assms(2) have "length s = 1" by (cases s) auto
      with c0 c1 p False True assms(1) show ?thesis
        by (cases ok; cases "ks_key_inject_mode kb")
          (auto simp: keyboard_sdk_process_text_def cong: if_cong)
    next
      case f: False
      with c0 z have "char_at s 0 = Some (if s = [] then 0 else hd s)"
        "\<not> c_isalpha (if s = [] then 0 else hd s)" "(if s = [] then 0 else hd s) \<noteq> 0x20"
        by auto
      with p False assms(1) show ?thesis
        by (cases ok) (auto simp: keyboard_sdk_process_text_def cong: if_cong)
    qed
  qed
qed

end

section \<open>The client\<close>

record client_world =
  cw_ctl :: controller_log
  cw_kb :: sc_keyboard_sdk
  cw_fp :: sc_file_pusher

text \<open>The options that matter here, and the resources of the system.\<close>

record client_options =
  co_alloc :: "nat \<Rightarrow> bool"
  co_max_cap :: nat
  co_fp_max_cap :: nat
  co_strdup_ok :: "client_world \<Rightarrow> bool"
  co_thread_ok :: "client_world \<Rightarrow> bool"
  co_mouse_hover :: bool
  co_mouse_bindings :: sc_mouse_bindings
  co_legacy_paste :: bool
  co_clipboard_autosync :: bool
  co_shortcut_mods :: "sc_shortcut_mod set"

definition client_push :: "client_options \<Rightarrow> client_world push_msg" where
  "client_push opts w msg = do {
     (c, pushed) \<leftarrow> controller_push_msg (co_alloc opts) (co_max_cap opts) (cw_ctl w) msg;
     Some (w\<lparr>cw_ctl := c\<rparr>, pushed)
   }"

definition client_key_processor :: "client_options \<Rightarrow> client_world sc_key_processor" where
  "client_key_processor opts =
     \<lparr>kp_async_paste = False, kp_hid = False,
      kp_process_key = (\<lambda>w event ack_to_wait. do {
        (c, kb) \<leftarrow> keyboard_sdk_process_key
          (controller_push_msg (co_alloc opts) (co_max_cap opts)) (cw_ctl w) (cw_kb w) event;
        Some (w\<lparr>cw_ctl := c, cw_kb := kb\<rparr>)
      }),
      kp_process_text = Some (\<lambda>w text. do {
        (c, freed) \<leftarrow> keyboard_sdk_process_text (controller_push_msg (co_alloc opts) (co_max_cap opts))
          (co_strdup_ok opts w) (cw_ctl w) (cw_kb w) \<lparr>xe_text = text\<rparr>;
        Some (w\<lparr>cw_ctl := c\<rparr>)
      })\<rparr>"

definition client_mouse_processor :: "client_options \<Rightarrow> client_world sc_mouse_processor" where
  "client_mouse_processor opts =
     (let m = sc_mouse_sdk_init (co_mouse_hover opts) in
      \<lparr>mp_relative_mode = False,
       mp_process_mouse_motion = mouse_sdk_process_mouse_motion (client_push opts) m,
       mp_process_mouse_click = mouse_sdk_process_mouse_click (client_push opts) m,
       mp_process_mouse_scroll = Some (mouse_sdk_process_mouse_scroll (client_push opts) m),
       mp_process_touch = Some (mouse_sdk_process_touch (client_push opts) m)\<rparr>)"

definition client_file_request ::
    "client_options \<Rightarrow> client_world \<Rightarrow> sc_file_pusher_action \<Rightarrow> bytes \<Rightarrow> (client_world \<times> bool) option" where
  "client_file_request opts w action file = do {
     (fp, res, signal) \<leftarrow> sc_file_pusher_request (co_alloc opts) (co_fp_max_cap opts)
       (co_thread_ok opts w) (cw_fp w) action file;
     Some (w\<lparr>cw_fp := fp\<rparr>, res)
   }"

definition sdk_client :: "client_options \<Rightarrow> client_world sc_input_manager" where
  "sdk_client opts = sc_input_manager_init
     \<lparr>pa_controller = Some (client_push opts), pa_fp = client_file_request opts,
      pa_kp = Some (client_key_processor opts), pa_mp = Some (client_mouse_processor opts),
      pa_gp = None, pa_camera = False, pa_mouse_bindings = co_mouse_bindings opts,
      pa_legacy_paste = co_legacy_paste opts, pa_clipboard_autosync = co_clipboard_autosync opts,
      pa_shortcut_mods = co_shortcut_mods opts\<rparr>"

text \<open>What the other threads do: the controller thread takes messages, the file pusher requests.\<close>

definition client_good :: "client_options \<Rightarrow> client_world \<Rightarrow> bool" where
  "client_good opts w \<longleftrightarrow> controller_log_inv (co_max_cap opts) (cw_ctl w) \<and>
     vd_inv (co_fp_max_cap opts) (fp_queue (cw_fp w))"

definition client_env :: "client_options \<Rightarrow> client_world \<Rightarrow> client_world \<Rightarrow> bool" where
  "client_env opts w w' \<longleftrightarrow> controller_env (co_max_cap opts) (cw_ctl w) (cw_ctl w') \<and>
     vd_inv (co_fp_max_cap opts) (fp_queue (cw_fp w'))"

definition client_history :: "client_world \<Rightarrow> push_history" where
  "client_history w = cl_history (cw_ctl w)"

text \<open>One character, or a text that does not start with a letter or a space.\<close>

definition typed_text :: "bytes \<Rightarrow> bool" where
  "typed_text s \<longleftrightarrow> length s \<le> 1 \<or> \<not> (c_isalpha (hd s) \<or> hd s = 0x20)"

lemma client_push_ok:
  assumes "client_good opts w" "not_resize msg"
  shows "\<exists>w' pushed. client_push opts w msg = Some (w', pushed) \<and> client_good opts w' \<and>
    client_history w' = client_history w @ [(msg, pushed)]"
proof -
  have "controller_log_inv (co_max_cap opts) (cw_ctl w)" using assms(1) by (simp add: client_good_def)
  from controller_push_ok [OF this assms(2), of "co_alloc opts"] obtain c pushed where
    "controller_push_msg (co_alloc opts) (co_max_cap opts) (cw_ctl w) msg = Some (c, pushed)"
    "controller_log_inv (co_max_cap opts) c" "cl_history c = cl_history (cw_ctl w) @ [(msg, pushed)]"
    by blast
  with assms(1) show ?thesis by (simp add: client_push_def client_good_def client_history_def)
qed

lemma client_request_quiet:
  assumes "client_good opts w" "not_resize msg" "not_vfinger msg"
  shows "quiet_call (client_good opts) client_history w
    (do { (w, pushed) \<leftarrow> client_push opts w msg; Some w })"
  using client_push_ok [OF assms(1,2)] assms(3) by (auto simp: quiet_call_def)

lemma not_vfinger_touch:
  "p \<noteq> SC_POINTER_ID_VIRTUAL_FINGER \<Longrightarrow> not_vfinger (INJECT_TOUCH_EVENT a b c p pos pr)"
  "not_vfinger (INJECT_SCROLL_EVENT pos h v b)"
  by (simp_all add: not_vfinger_def)

lemma client_key_quiet:
  assumes "client_good opts w"
  shows "quiet_call (client_good opts) client_history w (kp_process_key (client_key_processor opts) w e ack)"
proof -
  have "controller_log_inv (co_max_cap opts) (cw_ctl w)" using assms by (simp add: client_good_def)
  from ctl_sink.sdk_key_total [OF this, of "co_alloc opts" "cw_kb w" e] obtain c kb h where
    "keyboard_sdk_process_key (controller_push_msg (co_alloc opts) (co_max_cap opts)) (cw_ctl w) (cw_kb w) e =
      Some (c, kb)" "controller_log_inv (co_max_cap opts) c" "cl_history c = cl_history (cw_ctl w) @ h"
    "\<forall>m \<in> fst ` set h. \<exists>a k r s. m = INJECT_KEYCODE a k r s"
    by blast
  moreover from this(4) have "list_all not_vfinger (map fst h)" by (fastforce simp: list_all_iff)
  ultimately show ?thesis
    using assms by (auto simp: quiet_call_def client_key_processor_def client_good_def client_history_def)
qed

lemma client_text_quiet:
  assumes "client_good opts w" "typed_text s" "kp_process_text (client_key_processor opts) = Some f"
  shows "quiet_call (client_good opts) client_history w (f w s)"
proof -
  have "controller_log_inv (co_max_cap opts) (cw_ctl w)" using assms by (simp add: client_good_def)
  from ctl_sink.sdk_text_total [OF this assms(2) [unfolded typed_text_def], of "co_alloc opts"
      "co_strdup_ok opts w" "cw_kb w"] obtain c fr h where
    "keyboard_sdk_process_text (controller_push_msg (co_alloc opts) (co_max_cap opts))
      (co_strdup_ok opts w) (cw_ctl w) (cw_kb w) \<lparr>xe_text = s\<rparr> = Some (c, fr)"
    "controller_log_inv (co_max_cap opts) c" "cl_history c = cl_history (cw_ctl w) @ h"
    "\<forall>m \<in> fst ` set h. \<exists>t. m = INJECT_TEXT t"
    by blast
  moreover from this(4) have "list_all not_vfinger (map fst h)" by (fastforce simp: list_all_iff)
  ultimately show ?thesis
    using assms by (auto simp: quiet_call_def client_key_processor_def client_good_def client_history_def)
qed

lemma sdl_mods_in_mask: "sc_shortcut_mods_to_sdl m \<subseteq> SC_SDL_SHORTCUT_MODS_MASK"
  by (auto simp: sc_shortcut_mods_to_sdl_def SC_SDL_SHORTCUT_MODS_MASK_def SDL_KMOD_CTRL_def
      SDL_KMOD_ALT_def SDL_KMOD_GUI_def)

lemma sdk_client_fields:
  "im_controller (sdk_client opts) = Some (client_push opts)"
  "im_fp (sdk_client opts) = client_file_request opts"
  "im_kp (sdk_client opts) = Some (client_key_processor opts)"
  "im_mp (sdk_client opts) = Some (client_mouse_processor opts)"
  "im_gp (sdk_client opts) = None" "\<not> im_camera (sdk_client opts)"
  "im_mouse_bindings (sdk_client opts) = co_mouse_bindings opts"
  "im_sdl_shortcut_mods (sdk_client opts) \<subseteq> SC_SDL_SHORTCUT_MODS_MASK"
  "\<not> im_vfinger_down (sdk_client opts)"
  using sdl_mods_in_mask by (simp_all add: sdk_client_def sc_input_manager_init_def)

interpretation sdk: input_sink "sdk_client opts" "client_good opts" client_history typed_text
  "client_env opts" for opts
proof
  fix w :: client_world and action name assume g: "client_good opts w"
  then have "vd_inv (co_fp_max_cap opts) (fp_queue (cw_fp w))" by (simp add: client_good_def)
  from request_spec [OF this, of "co_alloc opts" "co_thread_ok opts w" action name] g
  show "\<exists>w' ok. im_fp (sdk_client opts) w action name = Some (w', ok) \<and> client_good opts w' \<and>
      client_history w' = client_history w"
    by (auto simp: sdk_client_fields client_file_request_def client_good_def client_history_def)
next
  fix kp w ke ack assume "im_kp (sdk_client opts) = Some kp" "client_good opts w"
  then show "quiet_call (client_good opts) client_history w (kp_process_key kp w ke ack)"
    using client_key_quiet by (auto simp: sdk_client_fields)
next
  fix kp f w s assume "im_kp (sdk_client opts) = Some kp" "kp_process_text kp = Some f"
    "client_good opts w" "typed_text s"
  then show "quiet_call (client_good opts) client_history w (f w s)"
    using client_text_quiet by (auto simp: sdk_client_fields)
next
  fix mp w and me :: sc_mouse_motion_event assume "im_mp (sdk_client opts) = Some mp" "client_good opts w"
    "me_pointer_id me \<noteq> SC_POINTER_ID_VIRTUAL_FINGER"
  then show "quiet_call (client_good opts) client_history w (mp_process_mouse_motion mp w me)"
    using client_request_quiet [OF _ _ not_vfinger_touch(1)]
    by (auto simp: sdk_client_fields client_mouse_processor_def mouse_sdk_process_mouse_motion_def Let_def
        not_resize_def)
next
  fix mp w and ce :: sc_mouse_click_event assume "im_mp (sdk_client opts) = Some mp" "client_good opts w"
    "ce_pointer_id ce \<noteq> SC_POINTER_ID_VIRTUAL_FINGER"
  then show "quiet_call (client_good opts) client_history w (mp_process_mouse_click mp w ce)"
    using client_request_quiet [OF _ _ not_vfinger_touch(1)]
    by (auto simp: sdk_client_fields client_mouse_processor_def mouse_sdk_process_mouse_click_def Let_def
        not_resize_def)
next
  fix mp g w and we :: sc_mouse_scroll_event assume "im_mp (sdk_client opts) = Some mp" "mp_process_mouse_scroll mp = Some g"
    "client_good opts w"
  then show "quiet_call (client_good opts) client_history w (g w we)"
    using client_request_quiet [OF _ _ not_vfinger_touch(2)]
    by (auto simp: sdk_client_fields client_mouse_processor_def mouse_sdk_process_mouse_scroll_def Let_def
        not_resize_def)
next
  fix mp t w and te :: sc_touch_event assume "im_mp (sdk_client opts) = Some mp" "mp_process_touch mp = Some t"
    "client_good opts w" "tev_pointer_id te \<noteq> SC_POINTER_ID_VIRTUAL_FINGER"
  then show "quiet_call (client_good opts) client_history w (t w te)"
    using client_request_quiet [OF _ _ not_vfinger_touch(1)]
    by (auto simp: sdk_client_fields client_mouse_processor_def mouse_sdk_process_touch_def Let_def
        not_resize_def)
next
  fix w w' assume "client_good opts w" "client_env opts w w'"
  then show "client_good opts w' \<and> client_history w' = client_history w"
    by (auto simp: client_good_def client_env_def client_history_def controller_env_def
        controller_log_inv_def)
qed (auto simp: sdk_client_fields client_push_ok)

lemma client_start_inv:
  assumes "screen_inv screen" "client_good opts w" "client_history w = []"
    "bindings_set (co_mouse_bindings opts)"
  shows "sdk.app_inv opts ((mc, sdk_client opts, screen, w), 0)"
  using assms by (simp add: sdk.app_inv_def sdk.im_inv_def same_pointers_def sdk_client_fields
      client_mouse_processor_def Let_def frame_events_inv_def)

text \<open>A client to start from, for examples.\<close>

definition some_options :: client_options where
  "some_options = \<lparr>co_alloc = (\<lambda>_. True), co_max_cap = 1000, co_fp_max_cap = 1000,
     co_strdup_ok = (\<lambda>_. True), co_thread_ok = (\<lambda>_. True), co_mouse_hover = True,
     co_mouse_bindings = (let b = \<lparr>mb_right_click = SC_MOUSE_BINDING_BACK,
         mb_middle_click = SC_MOUSE_BINDING_HOME, mb_click4 = SC_MOUSE_BINDING_APP_SWITCH,
         mb_click5 = SC_MOUSE_BINDING_EXPAND_NOTIFICATION_PANEL\<rparr> in \<lparr>mb_pri = b, mb_sec = b\<rparr>),
     co_legacy_paste = False, co_clipboard_autosync = True,
     co_shortcut_mods = {SC_SHORTCUT_MOD_LALT, SC_SHORTCUT_MOD_LSUPER}\<rparr>"

definition some_mouse_capture :: sc_mouse_capture where
  "some_mouse_capture = sc_mouse_capture_init {SC_SHORTCUT_MOD_LALT}"

lemma some_options_bindings: "bindings_set (co_mouse_bindings some_options)"
  by (simp add: some_options_def bindings_set_def Let_def)

lemma some_world:
  "\<exists>w. client_good some_options w \<and> client_history w = [] \<and> vd_content (ctl_queue (cl_ctl (cw_ctl w))) = []"
proof -
  obtain c where c: "controller_log_inv 1000 c" "cl_history c = []" "vd_size (ctl_queue (cl_ctl c)) = 0"
    using controller_log_example by blast
  have "vd_inv 1000 (sc_vecdeque_init :: sc_file_pusher_req sc_vecdeque)"
    by (simp add: vd_inv_def sc_vecdeque_init_def SIZE_MAX_def)
  with c show ?thesis
    by (intro exI [of _ "\<lparr>cw_ctl = c, cw_kb = sc_keyboard_sdk_init SC_KEY_INJECT_MODE_MIXED True,
          cw_fp = \<lparr>fp_serial = [], fp_push_target = [], fp_stopped = False, fp_initialized = False,
            fp_queue = sc_vecdeque_init\<rparr>\<rparr>"])
      (simp add: client_good_def client_history_def some_options_def vd_content_empty
        sc_vecdeque_is_empty_def)
qed

section \<open>Properties\<close>



text \<open>
  C24: The pinch-to-zoom gesture is a proper gesture on the device: in every reachable state of the
  client, the messages that the controller has accepted for the virtual finger are a sequence of
  touches, each a \<open>DOWN\<close>, then any number of \<open>MOVE\<close>, then an \<open>UP\<close>, and the input manager knows whether
  the virtual finger is down, even when the controller refuses messages.
\<close>

theorem virtual_finger_is_a_finger:
  assumes "app_reach typed_text (client_env opts) env (mc, sdk_client opts, screen, w)
      ((mc', im', screen', w'), n)"
    and "screen_inv screen" "env_sane env" "client_good opts w" "client_history w = []"
    and "bindings_set (co_mouse_bindings opts)"
  shows "vfinger_run False (accepted (client_history w')) = Some (im_vfinger_down im')"
  using sdk.app_reach_inv [OF assms(1) client_start_inv [OF assms(2,4-6)] assms(3)]
  by (simp add: sdk.app_inv_def sdk.im_inv_def)

lemma client_push_room:
  assumes "client_good opts w" "not_resize msg"
    "length (vd_content (ctl_queue (cl_ctl (cw_ctl w)))) < 60"
  shows "\<exists>w'. client_push opts w msg = Some (w', True) \<and> client_good opts w' \<and>
    client_history w' = client_history w @ [(msg, True)] \<and>
    vd_content (ctl_queue (cl_ctl (cw_ctl w'))) = vd_content (ctl_queue (cl_ctl (cw_ctl w))) @ [msg]"
proof -
  have "ctl_inv (co_max_cap opts) (cl_ctl (cw_ctl w))"
    using assms(1) by (simp add: client_good_def controller_log_inv_def)
  from push_msg_spec [OF this assms(2), of "co_alloc opts"] assms(3) obtain c' signal where
    "sc_controller_push_msg (co_alloc opts) (co_max_cap opts) (cl_ctl (cw_ctl w)) msg = Some (c', True, signal)"
    "ctl_inv (co_max_cap opts) c'" "vd_content (ctl_queue c') = vd_content (ctl_queue (cl_ctl (cw_ctl w))) @ [msg]"
    by auto
  with assms(1) show ?thesis
    by (simp add: client_push_def controller_push_msg_def client_good_def controller_log_inv_def
        client_history_def)
qed

lemma virtual_finger_is_a_finger_witness:
  "\<exists>mc im screen w n w0. app_reach typed_text (client_env some_options) some_env
      (some_mouse_capture, sdk_client some_options, some_screen, w0) ((mc, im, screen, w), n) \<and>
    length (accepted (client_history w)) = 2 \<and> vfinger_run False (accepted (client_history w)) = Some True"
proof -
  obtain w where w: "client_good some_options w" "client_history w = []"
    "vd_content (ctl_queue (cl_ctl (cw_ctl w))) = []" using some_world by blast
  define q where "q = some_query\<lparr>q_mod_state := {SC_MOD_LCTRL}\<rparr>"
  define e where "e = \<lparr>bev_touch = False, bev_down = True, bev_button = 1, bev_clicks = 1, bev_x = 540,
    bev_y = 480\<rparr>"
  have conv: "f_int32 540 = Some 540" "f_int32 480 = Some 480"
    "sc_screen_convert_window_to_frame_coords some_screen 540 480 = Some \<lparr>pt_x = 540, pt_y = 480\<rparr>"
    by (simp_all add: f_int32_def c_int32_def c_trunc_def sc_screen_convert_window_to_frame_coords_def
        convert_window_to_frame_coords_def scale_coord_def)
  let ?pos = "\<lparr>screen_size = \<lparr>width = 1080, height = 1920\<rparr>, point = \<lparr>pt_x = 540, pt_y = 480\<rparr>\<rparr>"
  let ?vpos = "\<lparr>screen_size = \<lparr>width = 1080, height = 1920\<rparr>, point = \<lparr>pt_x = 540, pt_y = 1440\<rparr>\<rparr>"
  let ?m1 = "INJECT_TOUCH_EVENT AMOTION_EVENT_ACTION_DOWN (convert_mouse_buttons {SC_MOUSE_BUTTON_LEFT})
    (convert_mouse_buttons {SC_MOUSE_BUTTON_LEFT}) SC_POINTER_ID_GENERIC_FINGER ?pos 1"
  let ?m2 = "INJECT_TOUCH_EVENT AMOTION_EVENT_ACTION_DOWN 0 0 SC_POINTER_ID_VIRTUAL_FINGER ?vpos 1"
  have nr: "not_resize ?m1" "not_resize ?m2" by (simp_all add: not_resize_def)
  from client_push_room [OF w(1) nr(1)] w(3) obtain w1 where
    w1: "client_push some_options w ?m1 = Some (w1, True)" "client_good some_options w1"
      "client_history w1 = [(?m1, True)]" "vd_content (ctl_queue (cl_ctl (cw_ctl w1))) = [?m1]"
    using w(2) by auto
  from client_push_room [OF w1(2) nr(2)] w1(4) obtain w2 where
    w2: "client_push some_options w1 ?m2 = Some (w2, True)" "client_good some_options w2"
      "client_history w2 = [(?m1, True), (?m2, True)]"
    using w1(3) by auto
  define im1 where "im1 = (sdk_client some_options)\<lparr>im_mouse_buttons_state := {SC_MOUSE_BUTTON_LEFT}\<rparr>"
  define im2 where "im2 = im1\<lparr>im_vfinger_invert_x := True, im_vfinger_invert_y := True\<rparr>"
  have e: "bev_button e = SDL_BUTTON_LEFT" "bev_down e" "\<not> bev_touch e" "bev_clicks e = 1" "bev_x e = 540"
    "bev_y e = 480" "sc_mouse_button_from_sdl SDL_BUTTON_LEFT = SC_MOUSE_BUTTON_LEFT"
    by (simp_all add: e_def SDL_BUTTON_LEFT_def sc_mouse_button_from_sdl_def)
  have rb: "release_button (sdk_client some_options) e = sdk_client some_options"
    "press_button (sdk_client some_options) e = im1"
    using e by (simp_all add: release_button_def press_button_def im1_def sdk_client_def
        sc_input_manager_init_def)
  have im1: "im_mp im1 = Some (client_mouse_processor some_options)" "\<not> im_vfinger_down im1"
    "im_controller im1 = Some (client_push some_options)"
    "im_mouse_buttons_state im1 = {SC_MOUSE_BUTTON_LEFT}"
    by (simp_all add: im1_def sdk_client_fields)
  have rel: "\<not> mp_relative_mode (client_mouse_processor some_options)"
    by (simp add: client_mouse_processor_def Let_def)
  have bound: "bound_action q (sdk_client some_options) some_screen w e = None"
    by (simp add: bound_action_def process_binding_def sc_input_manager_get_binding_def e Let_def)
  have border: "click_on_border (sdk_client some_options) some_screen e = Some False"
    by (simp add: click_on_border_def e)
  have ch: "changes_vfinger q im1 e"
    using im1(2) by (simp add: changes_vfinger_def e q_def SDL_KMOD_CTRL_def Let_def)
  have click: "send_click im1 (client_mouse_processor some_options) some_screen w e 540 480 True = Some w1"
    using w1(1) im1(1,4) rel conv(3)
    by (simp add: send_click_def sc_input_manager_get_position_def e sc_action_from_sdl_def
        client_mouse_processor_def mouse_sdk_process_mouse_click_def Let_def)
  have choose: "choose_inversion q im1 True = im2"
    by (simp add: choose_inversion_def im2_def q_def SDL_KMOD_CTRL_def SDL_KMOD_SHIFT_def some_query_def Let_def)
  have toggle: "toggle_vfinger q im1 some_screen w1 True 540 480 = Some (im2\<lparr>im_vfinger_down := True\<rparr>, w2)"
    using w2(1) conv(3) im1(3)
    by (simp add: toggle_vfinger_def choose simulate_virtual_finger_def im_push_def inverse_point_def
        im2_def AMOTION_EVENT_ACTION_DOWN_def AMOTION_EVENT_ACTION_UP_def)
  have "process_click q (sdk_client some_options) some_screen w e = Some (im2\<lparr>im_vfinger_down := True\<rparr>, w2)"
    using conv(1,2) click toggle rel ch im1(2)
    by (simp add: process_click_def sdk_client_fields rb(2) e)
  then have "app_exec some_env (App_event q (Sev_input (Ev_mouse_button e)))
      ((some_mouse_capture, sdk_client some_options, some_screen, w), 0) =
    Some ((some_mouse_capture, im2\<lparr>im_vfinger_down := True\<rparr>, some_screen, w2), 0)"
    using bound border rb(1)
    by (simp add: sc_input_manager_process_mouse_button_def sdk_client_fields e Let_def
        sc_screen_is_relative_mode_def rel sdk_client_def sc_input_manager_init_def)
  moreover have "app_enabled typed_text (client_env some_options) some_env
      (App_event q (Sev_input (Ev_mouse_button e))) ((some_mouse_capture, sdk_client some_options, some_screen, w), 0)"
    using conv by (auto simp: convertible_def e)
  ultimately have r: "app_reach typed_text (client_env some_options) some_env
      (some_mouse_capture, sdk_client some_options, some_screen, w)
      ((some_mouse_capture, im2\<lparr>im_vfinger_down := True\<rparr>, some_screen, w2), 0)"
    by (rule app_reach.step [OF app_reach.start, rotated])
  have "vfinger_run False (accepted (client_history w2)) = Some True"
    using virtual_finger_is_a_finger [OF r some_screen_inv w(1,2) some_options_bindings] by simp
  moreover have "length (accepted (client_history w2)) = 2" using w2(3) by (simp add: accepted_def)
  ultimately show ?thesis using r by blast
qed

end
