(* ===== verification/Sc_Demuxer.thy ===== *)
theory Sc_Demuxer
  imports Sc_Media Sc_Binary
begin

text \<open>
  \<open>demuxer.c\<close> and \<open>packet_merger.c\<close>: from the bytes of a media socket to the calls of the packet sinks.

  The socket is the list of the bytes that are still to come before it is closed, by either side.
  What \<open>libavcodec\<close> and the allocator answer is an argument (\<open>demuxer_env\<close>); an allocation may be
  answered differently for each packet, so it is given the number of bytes left in the socket.
\<close>

section \<open>The packet merger\<close>

record sc_packet_merger =
  pm_config :: "bytes option"

definition sc_packet_merger_init :: sc_packet_merger where
  "sc_packet_merger_init = \<lparr>pm_config = None\<rparr>"

text \<open>
  Result, merger and packet. \<open>malloc\<close> and \<open>grow\<close> are whether the allocations succeed. The bytes by which
  \<open>av_grow_packet\<close> extends the packet are not specified: \<open>junk\<close> are their values.
\<close>

definition sc_packet_merger_merge ::
    "(nat \<Rightarrow> bool) \<Rightarrow> (nat \<Rightarrow> bool) \<Rightarrow> u8 \<Rightarrow> sc_packet_merger \<Rightarrow> av_packet \<Rightarrow>
      (bool \<times> sc_packet_merger \<times> av_packet) option" where
  "sc_packet_merger_merge malloc grow junk merger packet =
     (if pkt_pts packet = AV_NOPTS_VALUE then
        if \<not> malloc (length (pkt_data packet)) then Some (False, merger\<lparr>pm_config := None\<rparr>, packet)
        else Some (True, merger\<lparr>pm_config := Some (pkt_data packet)\<rparr>, packet)
      else
        (case pm_config merger of
           None \<Rightarrow> Some (True, merger, packet)
         | Some config \<Rightarrow>
             (let config_size = length config; media_size = length (pkt_data packet) in
              if \<not> grow config_size then Some (False, merger, packet)
              else do {
                let buf = pkt_data packet @ replicate config_size junk;
                buf \<leftarrow> mem_write buf config_size (take media_size buf);
                buf \<leftarrow> mem_write buf 0 config;
                Some (True, merger\<lparr>pm_config := None\<rparr>, packet\<lparr>pkt_data := buf\<rparr>)
              })))"

section \<open>The demuxer\<close>

definition SC_PACKET_HEADER_SIZE :: nat where
  "SC_PACKET_HEADER_SIZE = 16"

definition SC_PACKET_FLAG_CONFIG :: u64 where
  "SC_PACKET_FLAG_CONFIG = push_bit 62 1"

definition SC_PACKET_FLAG_KEY_FRAME :: u64 where
  "SC_PACKET_FLAG_KEY_FRAME = push_bit 61 1"

definition SC_PACKET_PTS_MASK :: u64 where
  "SC_PACKET_PTS_MASK = SC_PACKET_FLAG_KEY_FRAME - 1"

datatype sc_demuxer_status = SC_DEMUXER_STATUS_EOS | SC_DEMUXER_STATUS_DISABLED
  | SC_DEMUXER_STATUS_ERROR

record sc_demuxer =
  dmx_socket :: bytes
  dmx_stream_id :: u32

definition sc_demuxer_init :: "bytes \<Rightarrow> sc_demuxer" where
  "sc_demuxer_init socket = \<lparr>dmx_socket = socket, dmx_stream_id = 0\<rparr>"

record demuxer_env =
  dx_has_av1 :: bool
  dx_find_decoder :: "av_codec_id \<Rightarrow> av_media_type option"
  dx_alloc_context :: bool
  dx_open_codec :: "codec_context \<Rightarrow> bool"
  dx_alloc_packet :: bool
  dx_new_packet :: "nat \<Rightarrow> u32 \<Rightarrow> bool"
  dx_malloc :: "nat \<Rightarrow> nat \<Rightarrow> bool"
  dx_grow :: "nat \<Rightarrow> nat \<Rightarrow> bool"
  dx_junk :: u8

definition SC_CODEC_ID_H264 :: u32 where "SC_CODEC_ID_H264 = 0x68323634"
definition SC_CODEC_ID_H265 :: u32 where "SC_CODEC_ID_H265 = 0x68323635"
definition SC_CODEC_ID_AV1 :: u32 where "SC_CODEC_ID_AV1 = 0x00617631"
definition SC_CODEC_ID_OPUS :: u32 where "SC_CODEC_ID_OPUS = 0x6f707573"
definition SC_CODEC_ID_AAC :: u32 where "SC_CODEC_ID_AAC = 0x00616163"
definition SC_CODEC_ID_FLAC :: u32 where "SC_CODEC_ID_FLAC = 0x666c6163"
definition SC_CODEC_ID_RAW :: u32 where "SC_CODEC_ID_RAW = 0x00726177"

lemmas codec_id_defs = SC_CODEC_ID_H264_def SC_CODEC_ID_H265_def SC_CODEC_ID_AV1_def
  SC_CODEC_ID_OPUS_def SC_CODEC_ID_AAC_def SC_CODEC_ID_FLAC_def SC_CODEC_ID_RAW_def

definition sc_demuxer_to_avcodec_id :: "bool \<Rightarrow> u32 \<Rightarrow> av_codec_id" where
  "sc_demuxer_to_avcodec_id has_av1 codec_id =
     (if codec_id = SC_CODEC_ID_H264 then AV_CODEC_ID_H264
      else if codec_id = SC_CODEC_ID_H265 then AV_CODEC_ID_HEVC
      else if codec_id = SC_CODEC_ID_AV1 then (if has_av1 then AV_CODEC_ID_AV1 else AV_CODEC_ID_NONE)
      else if codec_id = SC_CODEC_ID_OPUS then AV_CODEC_ID_OPUS
      else if codec_id = SC_CODEC_ID_AAC then AV_CODEC_ID_AAC
      else if codec_id = SC_CODEC_ID_FLAC then AV_CODEC_ID_FLAC
      else if codec_id = SC_CODEC_ID_RAW then AV_CODEC_ID_PCM_S16LE
      else AV_CODEC_ID_NONE)"

text \<open>What \<open>net_recv_all\<close> stores, and the demuxer after it. The number of bytes stored is its result.\<close>

definition net_recv_all :: "sc_demuxer \<Rightarrow> nat \<Rightarrow> bytes \<times> sc_demuxer" where
  "net_recv_all d n = (take n (dmx_socket d), d\<lparr>dmx_socket := drop n (dmx_socket d)\<rparr>)"

text \<open>The inner \<open>None\<close> is the result \<open>false\<close>.\<close>

definition sc_demuxer_recv_codec_id :: "sc_demuxer \<Rightarrow> (u32 option \<times> sc_demuxer) option" where
  "sc_demuxer_recv_codec_id d =
     (let (data, d) = net_recv_all d 4 in
      if length data < 4 then Some (None, d)
      else do {
        codec_id \<leftarrow> sc_read32be data;
        Some (Some codec_id, d)
      })"

definition sc_demuxer_recv_header :: "sc_demuxer \<Rightarrow> (bytes option \<times> sc_demuxer) option" where
  "sc_demuxer_recv_header d =
     (let (buf, d) = net_recv_all d SC_PACKET_HEADER_SIZE in do {
        c_assert (length buf \<le> SC_PACKET_HEADER_SIZE);
        Some (if length buf = SC_PACKET_HEADER_SIZE then Some buf else None, d)
      })"

definition sc_demuxer_is_session :: "bytes \<Rightarrow> bool option" where
  "sc_demuxer_is_session header = do {
     b \<leftarrow> arr_get header 4;
     Some (b AND 0x80 \<noteq> 0)
   }"

definition sc_demuxer_parse_session :: "bytes \<Rightarrow> sc_stream_session option" where
  "sc_demuxer_parse_session header = do {
     is_session \<leftarrow> sc_demuxer_is_session header;
     c_assert is_session;
     w \<leftarrow> sc_read32be (drop 8 header);
     h \<leftarrow> sc_read32be (drop 12 header);
     b \<leftarrow> arr_get header 7;
     Some \<lparr>ss_width = w, ss_height = h, ss_client_resized = (b AND 1 \<noteq> 0)\<rparr>
   }"

definition sc_demuxer_recv_packet ::
    "demuxer_env \<Rightarrow> sc_demuxer \<Rightarrow> bytes \<Rightarrow> (av_packet option \<times> sc_demuxer) option" where
  "sc_demuxer_recv_packet env d header = do {
     is_session \<leftarrow> sc_demuxer_is_session header;
     c_assert (\<not> is_session);
     stream_id \<leftarrow> sc_read32be header;
     pts_flags \<leftarrow> sc_read64be (drop 4 header);
     len \<leftarrow> sc_read32be (drop 12 header);
     let d = d\<lparr>dmx_stream_id := stream_id\<rparr>;
     if len = 0 then Some (None, d)
     else if \<not> dx_new_packet env (length (dmx_socket d)) len then Some (None, d)
     else
       (let (data, d) = net_recv_all d (unat len) in
        if length data < unat len then Some (None, d)
        else
          (let pts = (if pts_flags AND SC_PACKET_FLAG_CONFIG \<noteq> 0 then AV_NOPTS_VALUE
                      else pts_flags AND SC_PACKET_PTS_MASK);
               flags = (if pts_flags AND SC_PACKET_FLAG_KEY_FRAME \<noteq> 0 then 0 OR AV_PKT_FLAG_KEY else 0)
           in Some (Some \<lparr>pkt_data = data, pkt_pts = pts, pkt_dts = pts, pkt_flags = flags\<rparr>, d)))
   }"

text \<open>One iteration of the loop: its status when it leaves the loop.\<close>

definition demuxer_merge ::
    "demuxer_env \<Rightarrow> bool \<Rightarrow> sc_demuxer \<Rightarrow> sc_packet_merger \<Rightarrow> av_packet \<Rightarrow>
      (bool \<times> sc_packet_merger \<times> av_packet) option" where
  "demuxer_merge env must_merge d merger packet =
     (if must_merge then
        sc_packet_merger_merge (dx_malloc env (length (dmx_socket d)))
          (dx_grow env (length (dmx_socket d))) (dx_junk env) merger packet
      else Some (True, merger, packet))"

type_synonym 'w demuxer_state = "sc_demuxer \<times> sc_packet_merger \<times> 'w"

definition demuxer_iteration ::
    "demuxer_env \<Rightarrow> 'w sc_packet_source \<Rightarrow> bool \<Rightarrow> 'w demuxer_state \<Rightarrow>
      (sc_demuxer_status option \<times> 'w demuxer_state) option" where
  "demuxer_iteration env source must_merge = (\<lambda>(d, merger, w). do {
     (header, d) \<leftarrow> sc_demuxer_recv_header d;
     case header of
       None \<Rightarrow> Some (Some SC_DEMUXER_STATUS_EOS, d, merger, w)
     | Some header \<Rightarrow> do {
         is_session \<leftarrow> sc_demuxer_is_session header;
         if is_session then do {
           session \<leftarrow> sc_demuxer_parse_session header;
           (ok, w) \<leftarrow> sc_packet_source_sinks_push_session source session w;
           Some (if ok then None else Some SC_DEMUXER_STATUS_ERROR, d, merger, w)
         }
         else do {
           (packet, d) \<leftarrow> sc_demuxer_recv_packet env d header;
           case packet of
             None \<Rightarrow> Some (Some SC_DEMUXER_STATUS_ERROR, d, merger, w)
           | Some packet \<Rightarrow> do {
               (ok, merger, packet) \<leftarrow> demuxer_merge env must_merge d merger packet;
               if \<not> ok then Some (Some SC_DEMUXER_STATUS_ERROR, d, merger, w)
               else do {
                 (ok, w) \<leftarrow> sc_packet_source_sinks_push source packet w;
                 Some (if ok then None else Some SC_DEMUXER_STATUS_ERROR, d, merger, w)
               }
             }
         }
       }
   })"

section \<open>Every iteration consumes a header\<close>

lemma recv_header_SomeD:
  "sc_demuxer_recv_header d = Some (h, d') \<Longrightarrow>
    dmx_socket d' = drop 16 (dmx_socket d) \<and> dmx_stream_id d' = dmx_stream_id d \<and>
    h = (if length (dmx_socket d) < 16 then None else Some (take 16 (dmx_socket d)))"
  by (auto simp: sc_demuxer_recv_header_def net_recv_all_def SC_PACKET_HEADER_SIZE_def min_def
      split: if_splits)

lemma recv_packet_consumes:
  "sc_demuxer_recv_packet env d header = Some (p, d') \<Longrightarrow>
    length (dmx_socket d') \<le> length (dmx_socket d)"
  by (auto simp: sc_demuxer_recv_packet_def net_recv_all_def Let_def split: bind_splits if_splits)

lemma iteration_consumes:
  assumes "demuxer_iteration env source must_merge (d, merger, w) = Some (None, d', merger', w')"
  shows "length (dmx_socket d') < length (dmx_socket d)"
proof -
  from assms obtain h d1 where h: "sc_demuxer_recv_header d = Some (Some h, d1)"
    by (auto simp: demuxer_iteration_def split: bind_splits option.splits)
  from recv_header_SomeD [OF h] have l: "length (dmx_socket d1) < length (dmx_socket d)"
    by (auto split: if_splits)
  have "length (dmx_socket d') \<le> length (dmx_socket d1)"
    using assms h by (auto simp: demuxer_iteration_def dest!: recv_packet_consumes
        split: bind_splits option.splits if_splits)
  with l show ?thesis by simp
qed

function demuxer_loop ::
    "demuxer_env \<Rightarrow> 'w sc_packet_source \<Rightarrow> bool \<Rightarrow> 'w demuxer_state \<Rightarrow>
      (sc_demuxer_status \<times> 'w demuxer_state) option" where
  "demuxer_loop env source must_merge s = do {
     (status, s) \<leftarrow> demuxer_iteration env source must_merge s;
     case status of
       Some status \<Rightarrow> Some (status, s)
     | None \<Rightarrow> demuxer_loop env source must_merge s
   }"
  by pat_completeness auto

termination
  by (relation "measure (\<lambda>(env, source, must_merge, (d, merger, w)). length (dmx_socket d))")
    (auto dest: iteration_consumes)

declare demuxer_loop.simps [simp del]

section \<open>The thread\<close>

text \<open>The context of the codec; the inner \<open>None\<close> leaves the function.\<close>

definition demuxer_codec_context ::
    "u32 \<Rightarrow> av_codec_id \<Rightarrow> av_media_type \<Rightarrow> sc_demuxer \<Rightarrow>
      ((codec_context \<times> sc_stream_session option) option \<times> sc_demuxer) option" where
  "demuxer_codec_context raw_codec_id codec_id codec_type d =
     (let ctx = \<lparr>cc_codec_id = codec_id, cc_codec_type = codec_type, cc_low_delay = True, cc_width = 0,
         cc_height = 0, cc_format = AV_FMT_NONE, cc_channels = 0, cc_sample_rate = 0\<rparr> in
      if codec_type = AVMEDIA_TYPE_VIDEO then do {
        (header, d) \<leftarrow> sc_demuxer_recv_header d;
        case header of
          None \<Rightarrow> Some (None, d)
        | Some header \<Rightarrow> do {
            is_session \<leftarrow> sc_demuxer_is_session header;
            if \<not> is_session then Some (None, d)
            else do {
              session \<leftarrow> sc_demuxer_parse_session header;
              Some (Some (ctx\<lparr>cc_width := ss_width session, cc_height := ss_height session,
                cc_format := AV_PIX_FMT_YUV420P\<rparr>, Some session), d)
            }
          }
      }
      else
        (let ctx = ctx\<lparr>cc_channels := 2, cc_sample_rate := 48000\<rparr>;
             ctx = (if raw_codec_id = SC_CODEC_ID_FLAC then ctx\<lparr>cc_format := AV_SAMPLE_FMT_S16\<rparr> else ctx)
         in Some (Some (ctx, None), d)))"

definition must_merge_config_packet :: "u32 \<Rightarrow> bool" where
  "must_merge_config_packet raw_codec_id \<longleftrightarrow>
     raw_codec_id = SC_CODEC_ID_H264 \<or> raw_codec_id = SC_CODEC_ID_H265"

definition demuxer_stream ::
    "demuxer_env \<Rightarrow> 'w sc_packet_source \<Rightarrow> u32 \<Rightarrow> av_codec_id \<Rightarrow> av_media_type \<Rightarrow> sc_demuxer \<Rightarrow> 'w \<Rightarrow>
      (sc_demuxer_status \<times> sc_demuxer \<times> 'w) option" where
  "demuxer_stream env source raw_codec_id codec_id codec_type d w = do {
     (ctx, d) \<leftarrow> demuxer_codec_context raw_codec_id codec_id codec_type d;
     case ctx of
       None \<Rightarrow> Some (SC_DEMUXER_STATUS_ERROR, d, w)
     | Some (ctx, session) \<Rightarrow>
         if \<not> dx_open_codec env ctx then Some (SC_DEMUXER_STATUS_ERROR, d, w)
         else do {
           (ok, w) \<leftarrow> sc_packet_source_sinks_open source ctx session w;
           if \<not> ok then Some (SC_DEMUXER_STATUS_ERROR, d, w)
           else if \<not> dx_alloc_packet env then do {
             w \<leftarrow> sc_packet_source_sinks_close source w;
             Some (SC_DEMUXER_STATUS_ERROR, d, w)
           }
           else do {
             (status, d, merger, w) \<leftarrow> demuxer_loop env source (must_merge_config_packet raw_codec_id)
               (d, sc_packet_merger_init, w);
             w \<leftarrow> sc_packet_source_sinks_close source w;
             Some (status, d, w)
           }
         }
   }"

text \<open>The status is the one given to \<open>on_ended\<close>, which is called last, on every path.\<close>

definition run_demuxer ::
    "demuxer_env \<Rightarrow> 'w sc_packet_source \<Rightarrow> sc_demuxer \<Rightarrow> 'w \<Rightarrow>
      (sc_demuxer_status \<times> sc_demuxer \<times> 'w) option" where
  "run_demuxer env source d w = do {
     (raw_codec_id, d) \<leftarrow> sc_demuxer_recv_codec_id d;
     case raw_codec_id of
       None \<Rightarrow> Some (SC_DEMUXER_STATUS_ERROR, d, w)
     | Some raw_codec_id \<Rightarrow>
         if raw_codec_id = 0 then do {
           w \<leftarrow> sc_packet_source_sinks_disable source w;
           Some (SC_DEMUXER_STATUS_DISABLED, d, w)
         }
         else if raw_codec_id = 1 then Some (SC_DEMUXER_STATUS_ERROR, d, w)
         else
           (let codec_id = sc_demuxer_to_avcodec_id (dx_has_av1 env) raw_codec_id in
            if codec_id = AV_CODEC_ID_NONE then do {
              w \<leftarrow> sc_packet_source_sinks_disable source w;
              Some (SC_DEMUXER_STATUS_ERROR, d, w)
            }
            else
              (case dx_find_decoder env codec_id of
                 None \<Rightarrow> do {
                   w \<leftarrow> sc_packet_source_sinks_disable source w;
                   Some (SC_DEMUXER_STATUS_ERROR, d, w)
                 }
               | Some codec_type \<Rightarrow>
                   if \<not> dx_alloc_context env then Some (SC_DEMUXER_STATUS_ERROR, d, w)
                   else demuxer_stream env source raw_codec_id codec_id codec_type d w))
   }"

section \<open>The merger\<close>

lemma merge_spec:
  "sc_packet_merger_merge malloc grow junk merger packet =
     (if pkt_pts packet = AV_NOPTS_VALUE then
        if malloc (length (pkt_data packet))
        then Some (True, merger\<lparr>pm_config := Some (pkt_data packet)\<rparr>, packet)
        else Some (False, merger\<lparr>pm_config := None\<rparr>, packet)
      else
        (case pm_config merger of
           None \<Rightarrow> Some (True, merger, packet)
         | Some config \<Rightarrow>
             if grow (length config)
             then Some (True, merger\<lparr>pm_config := None\<rparr>, packet\<lparr>pkt_data := config @ pkt_data packet\<rparr>)
             else Some (False, merger, packet)))"
  by (auto simp: sc_packet_merger_merge_def Let_def mem_put_def split: option.splits)

section \<open>The calls of the sinks\<close>

text \<open>What every packet given to a sink satisfies.\<close>

definition packet_ok :: "av_packet \<Rightarrow> bool" where
  "packet_ok p \<longleftrightarrow> pkt_data p \<noteq> [] \<and> pkt_dts p = pkt_pts p \<and>
     (pkt_pts p = AV_NOPTS_VALUE \<or> pkt_pts p < 2 ^ 61) \<and> pkt_flags p \<in> {0, AV_PKT_FLAG_KEY}"

lemma pts_mask: "SC_PACKET_PTS_MASK = mask 61"
  by (simp add: SC_PACKET_PTS_MASK_def SC_PACKET_FLAG_KEY_FRAME_def mask_eq_decr_exp)

lemma and_pts_mask_less: "v AND SC_PACKET_PTS_MASK < (2305843009213693952 :: u64)"
proof -
  have "unat (take_bit 61 v :: u64) < 2 ^ 61" 
    by (simp add: unsigned_take_bit_eq take_bit_nat_less_exp [of 61, simplified])
  then show ?thesis by (simp add: pts_mask word_less_nat_alt flip: take_bit_eq_mask)
qed

lemma recv_packet_ok:
  "sc_demuxer_recv_packet env d header = Some (Some p, d') \<Longrightarrow> packet_ok p"
  by (auto simp: sc_demuxer_recv_packet_def net_recv_all_def Let_def packet_ok_def unat_eq_0
      and_pts_mask_less split: bind_splits if_splits)

lemma demuxer_merge_ok:
  assumes "demuxer_merge env must_merge d merger p = Some (ok, merger', p')" "packet_ok p"
  shows "packet_ok p'"
  using assms by (auto simp: demuxer_merge_def merge_spec packet_ok_def split: if_splits option.splits)

definition call_ok :: "av_packet sink_call \<Rightarrow> bool" where
  "call_ok c \<longleftrightarrow> (case c of Sink_push p ok \<Rightarrow> packet_ok p | _ \<Rightarrow> True)"

text \<open>What one iteration, or the whole loop, does with a sink that is being fed.\<close>

definition fed :: "bool \<Rightarrow> av_packet sink_call list \<Rightarrow> bool" where
  "fed on cs \<longleftrightarrow> list_all call_ok cs \<and>
     sink_run Sink_fed cs \<in> (if on then {Some Sink_fed} else {Some Sink_fed, Some Sink_refused})"

lemma fed_Nil [simp]: "fed on []"
  by (simp add: fed_def)

lemma fed_append: "fed True cs \<Longrightarrow> fed on cs' \<Longrightarrow> fed on (cs @ cs')"
  by (simp add: fed_def)

lemma iteration_fed:
  assumes "demuxer_iteration env (watch_from 0 source) must_merge (d, merger, w, cs) =
      Some (status, d', merger', w', cs')"
  shows "\<exists>new. calls_of i cs' = calls_of i cs @ new \<and> fed (status = None) new"
proof -
  from assms obtain h d1 where h: "sc_demuxer_recv_header d = Some (h, d1)"
    by (auto simp: demuxer_iteration_def split: bind_splits)
  show ?thesis
  proof (cases h)
    case None
    with assms h show ?thesis by (auto simp: demuxer_iteration_def)
  next
    case (Some header)
    with assms h obtain is_session where s: "sc_demuxer_is_session header = Some is_session"
      by (auto simp: demuxer_iteration_def split: bind_splits)
    show ?thesis
    proof (cases is_session)
      case True
      with assms h Some s obtain session ok where
        "sinks_push_session_all (watch_from 0 source) session (w, cs) = Some (ok, w', cs')"
        "status = (if ok then None else Some SC_DEMUXER_STATUS_ERROR)"
        by (auto simp: demuxer_iteration_def sc_packet_source_sinks_push_session_def split: bind_splits)
      with session_log [OF this(1), of i] show ?thesis
        by (auto simp: fed_def call_ok_def split: if_splits)
    next
      case False
      with assms h Some s obtain p d2 where p: "sc_demuxer_recv_packet env d1 header = Some (p, d2)"
        by (auto simp: demuxer_iteration_def split: bind_splits)
      show ?thesis
      proof (cases p)
        case None
        with assms h Some s False p show ?thesis by (auto simp: demuxer_iteration_def)
      next
        case (Some packet)
        with assms h \<open>h = Some header\<close> s False p obtain ok1 merger1 packet1 where
          m: "demuxer_merge env must_merge d2 merger packet = Some (ok1, merger1, packet1)"
          by (auto simp: demuxer_iteration_def split: bind_splits)
        with p Some have ok: "packet_ok packet1" by (metis recv_packet_ok demuxer_merge_ok)
        show ?thesis
        proof (cases ok1)
          case False
          with assms h \<open>h = Some header\<close> s \<open>\<not> is_session\<close> p Some m show ?thesis
            by (auto simp: demuxer_iteration_def)
        next
          case True
          with assms h \<open>h = Some header\<close> s \<open>\<not> is_session\<close> p Some m obtain ok where
            "sinks_push_all (watch_from 0 source) packet1 (w, cs) = Some (ok, w', cs')"
            "status = (if ok then None else Some SC_DEMUXER_STATUS_ERROR)"
            by (auto simp: demuxer_iteration_def sc_packet_source_sinks_push_def split: bind_splits)
          with push_log [OF this(1), of i] \<open>packet_ok packet1\<close> show ?thesis
            by (auto simp: fed_def call_ok_def split: if_splits)
        qed
      qed
    qed
  qed
qed

lemma loop_fed:
  "demuxer_loop env (watch_from 0 source) must_merge (d, merger, w, cs) =
      Some (status, d', merger', w', cs') \<Longrightarrow>
    \<exists>new. calls_of i cs' = calls_of i cs @ new \<and> fed False new"
proof (induction "length (dmx_socket d)" arbitrary: d merger w cs rule: less_induct)
  case less
  from less.prems obtain st d1 merger1 w1 cs1 where
    it: "demuxer_iteration env (watch_from 0 source) must_merge (d, merger, w, cs) =
      Some (st, d1, merger1, w1, cs1)"
    by (auto simp: demuxer_loop.simps [of env "watch_from 0 source"] split: bind_splits)
  from iteration_fed [OF it] obtain new where
    new: "calls_of i cs1 = calls_of i cs @ new" "fed (st = None) new" by blast
  show ?case
  proof (cases st)
    case None
    with less.prems it have "demuxer_loop env (watch_from 0 source) must_merge (d1, merger1, w1, cs1) =
        Some (status, d', merger', w', cs')"
      by (simp add: demuxer_loop.simps [of env "watch_from 0 source" must_merge "(d, merger, w, cs)"])
    moreover from it None have "length (dmx_socket d1) < length (dmx_socket d)"
      by (auto dest: iteration_consumes)
    ultimately obtain new' where "calls_of i cs' = calls_of i cs1 @ new'" "fed False new'"
      using less.hyps by blast
    with new None show ?thesis by (auto intro!: exI [of _ "new @ new'"] fed_append)
  next
    case (Some st')
    with less.prems it have "cs' = cs1"
      by (simp add: demuxer_loop.simps [of env "watch_from 0 source" must_merge "(d, merger, w, cs)"])
    with new Some show ?thesis by auto
  qed
qed


section \<open>The life of the sinks of a demuxer\<close>

definition sink_life :: "av_packet sink_call list \<Rightarrow> bool" where
  "sink_life cs \<longleftrightarrow> list_all call_ok cs \<and> sink_run Sink_new cs \<in> {Some Sink_new, Some Sink_ended}"

lemma life_new [simp]: "sink_life []"
  and life_disable: "sink_life [Sink_disable]"
  and life_refused: "sink_life [Sink_open False]"
  by (simp_all add: sink_life_def call_ok_def)

lemma life_fed: "fed on new \<Longrightarrow> sink_life (Sink_open True # new @ [Sink_close])"
  by (cases on) (auto simp: sink_life_def fed_def call_ok_def)

lemma life_closed: "sink_life [Sink_open True, Sink_close]"
  using life_fed [of True "[]"] by simp

lemma disable_life:
  assumes "sc_packet_source_sinks_disable (watch_from 0 source) (w, []) = Some (w', cs')"
  shows "sink_life (calls_of i cs')"
proof -
  from assms have "sinks_disable_all (watch_from 0 source) (w, []) = Some (w', cs')"
    by (auto simp: sc_packet_source_sinks_disable_def split: bind_splits)
  from disable_log [OF this, of i] show ?thesis by (auto simp: life_disable)
qed

lemma stream_life:
  assumes "demuxer_stream env (watch_from 0 source) raw_codec_id codec_id codec_type d (w, []) =
      Some (status, d', w', cs')" "i < length source"
  shows "sink_life (calls_of i cs')"
proof -
  let ?source = "watch_from 0 source"
  from assms obtain ctx d1 where c: "demuxer_codec_context raw_codec_id codec_id codec_type d =
      Some (ctx, d1)"
    by (auto simp: demuxer_stream_def split: bind_splits)
  show ?thesis
  proof (cases "\<exists>c session. ctx = Some (c, session) \<and> dx_open_codec env c")
    case False
    with assms c show ?thesis by (auto simp: demuxer_stream_def split: option.splits)
  next
    case True
    then obtain c session where ctx: "ctx = Some (c, session)" "dx_open_codec env c" by blast
    with assms c obtain ok w1 cs1 where
      o: "sinks_open_from ?source 0 c session (w, []) = Some (ok, w1, cs1)"
      and so: "sc_packet_source_sinks_open ?source c session (w, []) = Some (ok, w1, cs1)"
      by (auto simp: demuxer_stream_def sc_packet_source_sinks_open_def split: bind_splits)
    from open_log [OF o] have l: "if ok then calls_of i cs1 = (if i < length source then [Sink_open True] else [])
      else calls_of i cs1 \<in> {[], [Sink_open True, Sink_close], [Sink_open False]}"
      by (cases ok) (auto split: if_splits)
    show ?thesis
    proof (cases ok)
      case False
      with assms c ctx so have "cs' = cs1" by (auto simp: demuxer_stream_def)
      with l False show ?thesis by (auto simp: life_refused life_closed)
    next
      case True
      with l have l: "calls_of i cs1 = (if i < length source then [Sink_open True] else [])" by simp
      obtain cs2 w2 new where "calls_of i cs2 = calls_of i cs1 @ new" "fed False new"
        and close: "close_sinks ?source (w2, cs2) = Some (w', cs')"
      proof (cases "dx_alloc_packet env")
        case False
        with assms c ctx so True have "close_sinks ?source (w1, cs1) = Some (w', cs')"
          by (auto simp: demuxer_stream_def sc_packet_source_sinks_close_def sinks_close_firsts_def
              split: bind_splits)
        then show thesis using that [of cs1 "[]"] by simp
      next
        case alloc: True
        with assms c ctx so True obtain st d2 m2 w2 cs2 where
          "demuxer_loop env ?source (must_merge_config_packet raw_codec_id)
             (d1, sc_packet_merger_init, w1, cs1) = Some (st, d2, m2, w2, cs2)"
          "close_sinks ?source (w2, cs2) = Some (w', cs')"
          by (auto simp: demuxer_stream_def sc_packet_source_sinks_close_def sinks_close_firsts_def
              split: bind_splits)
        with loop_fed [OF this(1), of i] that show thesis by blast
      qed
      with close_log [OF close, of i] l show ?thesis
        using assms(2) by (simp add: indices_def life_fed)
    qed
  qed
qed

lemma demuxer_life:
  assumes "run_demuxer env (watch_from 0 source) d (w, []) = Some (status, d', w', cs')"
    "i < length source"
  shows "sink_life (calls_of i cs')"
proof -
  from assms obtain raw d1 where r: "sc_demuxer_recv_codec_id d = Some (raw, d1)"
    by (auto simp: run_demuxer_def split: bind_splits)
  from assms(1) r have "cs' = [] \<or>
      (\<exists>w1. sc_packet_source_sinks_disable (watch_from 0 source) (w, []) = Some (w', cs')) \<or>
      (\<exists>id ty raw. demuxer_stream env (watch_from 0 source) raw id ty d1 (w, []) =
        Some (status, d', w', cs'))"
    by (auto simp: run_demuxer_def Let_def split: option.splits bind_splits if_splits)
  then show ?thesis using assms(2) by (auto dest: disable_life stream_life)
qed

end
