(* ===== verification/Sc_Media_Stream.thy ===== *)
theory Sc_Media_Stream
  imports Sc_Demuxer
begin

text \<open>
  The media stream from the server to the sinks of a demuxer: the writer of the server (\<open>Streamer.java\<close>),
  what the sinks are expected to get, and the two properties of the demuxer thread.
\<close>

section \<open>The writer of the server\<close>

text \<open>
  \<open>Streamer.java\<close>: what it writes for a session and before a packet. A Java \<open>long\<close> or \<open>int\<close> is the word of
  its bits.
\<close>

definition PACKET_FLAG_SESSION :: u64 where
  "PACKET_FLAG_SESSION = push_bit 63 1"

definition PACKET_FLAG_CONFIG :: u64 where
  "PACKET_FLAG_CONFIG = push_bit 62 1"

definition PACKET_FLAG_KEY_FRAME :: u64 where
  "PACKET_FLAG_KEY_FRAME = push_bit 61 1"

definition writeSessionMeta :: "u32 \<Rightarrow> u32 \<Rightarrow> u32 \<Rightarrow> bool \<Rightarrow> bytes" where
  "writeSessionMeta streamId w h isClientResize =
     (let flags = (ucast (signed_drop_bit 32 PACKET_FLAG_SESSION) :: u32);
          flags = (if isClientResize then flags OR 1 else flags)
      in sc_write32be streamId @ sc_write32be flags @ sc_write32be w @ sc_write32be h)"

definition writeFrameMeta :: "u32 \<Rightarrow> nat \<Rightarrow> u64 \<Rightarrow> bool \<Rightarrow> bool \<Rightarrow> bytes" where
  "writeFrameMeta streamId packetSize pts config keyFrame =
     (let ptsAndFlags =
        (if config then PACKET_FLAG_CONFIG
         else if keyFrame then pts OR PACKET_FLAG_KEY_FRAME else pts)
      in sc_write32be streamId @ sc_write64be ptsAndFlags @ sc_write32be (of_nat packetSize))"

text \<open>What is streamed after the header of the codec; a packet is followed by its data.\<close>

datatype media_item =
    Media_session u32 u32 bool
  | Media_packet u64 bool bool bytes

fun write_media_item :: "u32 \<Rightarrow> media_item \<Rightarrow> bytes" where
  "write_media_item streamId (Media_session w h resized) = writeSessionMeta streamId w h resized"
| "write_media_item streamId (Media_packet pts config key data) =
     writeFrameMeta streamId (length data) pts config key @ data"

text \<open>What the format can carry: times below \<open>2 ^ 61\<close>, and packets that are not empty.\<close>

fun media_item_ok :: "media_item \<Rightarrow> bool" where
  "media_item_ok (Media_session w h resized) = True"
| "media_item_ok (Media_packet pts config key data) =
     (data \<noteq> [] \<and> length data < 2 ^ 31 \<and> (config \<or> pts < 2 ^ 61))"

subsection \<open>The headers are read back\<close>

lemma and_push_bit_1: "(v :: 'a :: len word) AND push_bit n 1 \<noteq> 0 \<longleftrightarrow> bit v n"
  by (simp add: and_exp_eq_0_iff_not_bit push_bit_eq_mult)

lemma bit_flag:
  "bit PACKET_FLAG_CONFIG n \<longleftrightarrow> n = 62"
  "bit PACKET_FLAG_KEY_FRAME n \<longleftrightarrow> n = 61"
proof -
  have "bit (push_bit m (1 :: u64)) n \<longleftrightarrow> n = m" if "m < 64" for m
    using that by (auto simp: push_bit_eq_mult bit_exp_iff)
  from this [of 61] this [of 62] show "bit PACKET_FLAG_CONFIG n \<longleftrightarrow> n = 62"
    "bit PACKET_FLAG_KEY_FRAME n \<longleftrightarrow> n = 61"
    unfolding PACKET_FLAG_CONFIG_def PACKET_FLAG_KEY_FRAME_def by simp_all
qed

lemma not_bit_pts: "v < (2 ^ 61 :: u64) \<Longrightarrow> 61 \<le> n \<Longrightarrow> \<not> bit v n"
  by (metis bit_take_bit_iff less_mask_eq linorder_not_less take_bit_eq_mask)

lemma session_flags: "(ucast (signed_drop_bit 32 PACKET_FLAG_SESSION) :: u32) = 0x80000000"
  by (simp add: PACKET_FLAG_SESSION_def)

lemma session_header:
  "sc_demuxer_is_session (writeSessionMeta sid w h resized) = Some True"
  "sc_demuxer_parse_session (writeSessionMeta sid w h resized) =
     Some \<lparr>ss_width = w, ss_height = h, ss_client_resized = resized\<rparr>"
  "length (writeSessionMeta sid w h resized) = 16"
proof -
  let ?m = "writeSessionMeta sid w h resized"
  have w: "drop 8 ?m = sc_write32be w @ sc_write32be h" and h: "drop 12 ?m = sc_write32be h"
    and l: "length ?m = 16"
    by (simp_all add: writeSessionMeta_def Let_def)
  have b: "arr_get ?m 4 = Some 0x80" "arr_get ?m 7 = Some (if resized then 1 else 0)"
    by (auto simp: writeSessionMeta_def Let_def session_flags arr_get_def sc_write32be_def)
  show "sc_demuxer_is_session ?m = Some True"
    using b by (simp add: sc_demuxer_is_session_def)
  with w h b show "sc_demuxer_parse_session ?m =
     Some \<lparr>ss_width = w, ss_height = h, ss_client_resized = resized\<rparr>"
    by (simp add: sc_demuxer_parse_session_def)
  show "length ?m = 16" by (rule l)
qed

lemma session_bit:
  "arr_get (sc_write32be sid @ sc_write64be v @ rest) 4 = Some b \<Longrightarrow> b AND 0x80 \<noteq> 0 \<longleftrightarrow> bit v 63"
proof -
  assume "arr_get (sc_write32be sid @ sc_write64be v @ rest) 4 = Some b"
  then have "b = ucast (drop_bit 24 (ucast (drop_bit 32 v) :: u32))"
    by (simp add: arr_get_def sc_write32be_def sc_write64be_def)
  moreover have "b AND 0x80 \<noteq> 0 \<longleftrightarrow> bit b 7"
    using and_push_bit_1 [of b 7] by simp
  ultimately show ?thesis by (simp add: bit_simps)
qed

text \<open>The word that carries the time and the flags, and what it is read as.\<close>

definition pts_and_flags :: "u64 \<Rightarrow> bool \<Rightarrow> bool \<Rightarrow> u64" where
  "pts_and_flags pts config key =
     (if config then PACKET_FLAG_CONFIG else if key then pts OR PACKET_FLAG_KEY_FRAME else pts)"

lemma flags_bits:
  assumes "config \<or> pts < 2 ^ 61"
  shows "\<not> bit (pts_and_flags pts config key) 63"
    "pts_and_flags pts config key AND SC_PACKET_FLAG_CONFIG \<noteq> 0 \<longleftrightarrow> config"
    "pts_and_flags pts config key AND SC_PACKET_FLAG_KEY_FRAME \<noteq> 0 \<longleftrightarrow> \<not> config \<and> key"
    "\<not> config \<Longrightarrow> pts_and_flags pts config key AND SC_PACKET_PTS_MASK = pts"
proof -
  note bits = pts_and_flags_def bit_flag bit_simps
  have n: "config \<or> \<not> bit pts 63 \<and> \<not> bit pts 62 \<and> \<not> bit pts 61"
    using assms not_bit_pts [of pts] by auto
  then show "\<not> bit (pts_and_flags pts config key) 63"
    "pts_and_flags pts config key AND SC_PACKET_FLAG_CONFIG \<noteq> 0 \<longleftrightarrow> config"
    "pts_and_flags pts config key AND SC_PACKET_FLAG_KEY_FRAME \<noteq> 0 \<longleftrightarrow> \<not> config \<and> key"
    unfolding SC_PACKET_FLAG_CONFIG_def SC_PACKET_FLAG_KEY_FRAME_def and_push_bit_1
    by (auto simp: bits)
  show "pts_and_flags pts config key AND SC_PACKET_PTS_MASK = pts" if "\<not> config"
  proof (rule bit_word_eqI)
    fix n :: nat
    from assms that not_bit_pts [of pts n]
    show "bit (pts_and_flags pts config key AND SC_PACKET_PTS_MASK) n \<longleftrightarrow> bit pts n"
      unfolding pts_mask by (cases "n < 61") (auto simp: bits)
  qed
qed

lemma frame_header:
  fixes sid
  assumes "media_item_ok (Media_packet pts config key data)"
  defines "m \<equiv> writeFrameMeta sid (length data) pts config key"
  shows "sc_demuxer_is_session m = Some False" "length m = 16"
    "sc_read32be m = Some sid" "sc_read64be (drop 4 m) = Some (pts_and_flags pts config key)"
    "sc_read32be (drop 12 m) = Some (of_nat (length data))"
proof -
  have m: "m = sc_write32be sid @ sc_write64be (pts_and_flags pts config key) @
      sc_write32be (of_nat (length data))"
    by (simp add: m_def writeFrameMeta_def pts_and_flags_def)
  then show l: "length m = 16" "sc_read32be m = Some sid"
    "sc_read64be (drop 4 m) = Some (pts_and_flags pts config key)"
    "sc_read32be (drop 12 m) = Some (of_nat (length data))"
    by simp_all
  from l(1) obtain b where "arr_get m 4 = Some b" by simp
  with session_bit [of sid _ _ b] flags_bits(1) [of config pts key] assms(1) m
  show "sc_demuxer_is_session m = Some False"
    by (auto simp: sc_demuxer_is_session_def)
qed

section \<open>What the sinks get\<close>

text \<open>The calls of an open sink that refuses nothing; \<open>pending\<close> is the data of the last config packet.\<close>

fun delivered :: "bool \<Rightarrow> bytes option \<Rightarrow> media_item list \<Rightarrow> av_packet sink_call list" where
  "delivered must_merge pending [] = []"
| "delivered must_merge pending (Media_session w h resized # items) =
     Sink_session \<lparr>ss_width = w, ss_height = h, ss_client_resized = resized\<rparr> True
     # delivered must_merge pending items"
| "delivered must_merge pending (Media_packet pts config key data # items) =
     (if config then
        Sink_push \<lparr>pkt_data = data, pkt_pts = AV_NOPTS_VALUE, pkt_dts = AV_NOPTS_VALUE, pkt_flags = 0\<rparr> True
        # delivered must_merge (if must_merge then Some data else None) items
      else
        Sink_push \<lparr>pkt_data = (case pending of None \<Rightarrow> data | Some c \<Rightarrow> c @ data), pkt_pts = pts, pkt_dts = pts,
          pkt_flags = (if key then AV_PKT_FLAG_KEY else 0)\<rparr> True
        # delivered must_merge None items)"

text \<open>A sink without the optional callback does not see the sessions.\<close>

fun is_session_call :: "'p sink_call \<Rightarrow> bool" where
  "is_session_call (Sink_session s ok) = True"
| "is_session_call _ = False"

definition seen_by :: "('c, 'p, 'w, 'z) media_sink_scheme \<Rightarrow> 'p sink_call list \<Rightarrow> 'p sink_call list" where
  "seen_by sink cs = filter (\<lambda>c. ms_push_session sink \<noteq> None \<or> \<not> is_session_call c) cs"

definition accepting :: "('c, 'p, 'w, 'z) media_sink_scheme \<Rightarrow> bool" where
  "accepting sink \<longleftrightarrow>
     (\<forall>ctx s w. \<exists>w'. ms_open sink ctx s w = Some (True, w')) \<and> (\<forall>w. ms_close sink w \<noteq> None) \<and>
     (\<forall>p w. \<exists>w'. ms_push sink p w = Some (True, w')) \<and>
     (\<forall>push. ms_push_session sink = Some push \<longrightarrow> (\<forall>s w. \<exists>w'. push s w = Some (True, w')))"

lemma acceptingD:
  assumes "accepting sink"
  shows "\<exists>w'. ms_open sink ctx s w = Some (True, w')" "\<exists>w'. ms_close sink w = Some w'"
    "\<exists>w'. ms_push sink p w = Some (True, w')"
    "ms_push_session sink = Some push \<Longrightarrow> \<exists>w'. push session w = Some (True, w')"
  using assms by (auto simp: accepting_def)

lemma accepting_push:
  "list_all accepting sinks \<Longrightarrow>
    \<exists>w' cs'. sinks_push_all (watch_from k sinks) p (w, cs) = Some (True, w', cs')"
proof (induction sinks arbitrary: k w cs)
  case (Cons sink sinks)
  from Cons.prems have "accepting sink" by simp
  from acceptingD(3) [OF this] obtain w1 where "ms_push sink p w = Some (True, w1)" by blast
  with Cons show ?case by (simp add: watched_def)
qed simp

lemma accepting_session:
  "list_all accepting sinks \<Longrightarrow>
    \<exists>w' cs'. sinks_push_session_all (watch_from k sinks) s (w, cs) = Some (True, w', cs')"
proof (induction sinks arbitrary: k w cs)
  case (Cons sink sinks)
  show ?case
  proof (cases "ms_push_session sink")
    case (Some push)
    from Cons.prems have "accepting sink" by simp
    from acceptingD(4) [OF this Some] obtain w1 where "push s w = Some (True, w1)" by blast
    with Cons Some show ?thesis by (simp add: watched_def)
  qed (use Cons in \<open>simp add: watched_def\<close>)
qed simp

lemma accepting_open:
  "list_all accepting sinks \<Longrightarrow> j \<le> length sinks \<Longrightarrow>
    \<exists>w' cs'. sinks_open_from (watch_from 0 sinks) j ctx s (w, cs) = Some (True, w', cs')"
proof (induction "length sinks - j" arbitrary: j w cs)
  case 0
  then show ?case by (simp add: sinks_open_from.simps [of _ j])
next
  case (Suc n)
  then have "accepting (sinks ! j)" by (auto simp: list_all_length)
  from acceptingD(1) [OF this] obtain w1 where "ms_open (sinks ! j) ctx s w = Some (True, w1)" by blast
  with Suc show ?case
    by (simp add: sinks_open_from.simps [of _ j] nth_watch_from watched_def)
qed

lemma accepting_close:
  "list_all accepting sinks \<Longrightarrow> \<exists>w' cs'. close_sinks (watch_from k sinks) (w, cs) = Some (w', cs')"
proof (induction sinks arbitrary: k w cs)
  case (Cons sink sinks)
  then obtain w1 cs1 where "close_sinks (watch_from (Suc k) sinks) (w, cs) = Some (w1, cs1)"
    by fastforce
  moreover from Cons.prems have "accepting sink" by simp
  from acceptingD(2) [OF this] obtain w2 where "ms_close sink w1 = Some w2" by blast
  ultimately show ?case by (simp add: watched_def)
qed simp

lemma push_log_ok:
  assumes "sinks_push_all (watch_from 0 sinks) p (w, cs) = Some (True, w', cs')" "i < length sinks"
  shows "calls_of i cs' = calls_of i cs @ [Sink_push p True]"
  using push_log [OF assms(1), of i] assms(2) by (auto simp: indices_def)

lemma session_log_ok:
  assumes "sinks_push_session_all (watch_from 0 sinks) s (w, cs) = Some (True, w', cs')" "i < length sinks"
  shows "calls_of i cs' =
    calls_of i cs @ (if ms_push_session (sinks ! i) = None then [] else [Sink_session s True])"
  using session_log [OF assms(1), of i] assms(2) by (auto simp: indices_def)

lemma open_log_ok:
  assumes "sinks_open_from (watch_from 0 sinks) 0 ctx s (w, cs) = Some (True, w', cs')" "i < length sinks"
  shows "calls_of i cs' = calls_of i cs @ [Sink_open True]"
  using open_log [OF assms(1)] assms(2) by auto

text \<open>No allocation fails, and the codec can be opened.\<close>

definition env_grants :: "demuxer_env \<Rightarrow> bool" where
  "env_grants env \<longleftrightarrow> (\<forall>n len. unat len < 2 ^ 31 \<longrightarrow> dx_new_packet env n len) \<and>
     (\<forall>n m. dx_malloc env n m \<and> dx_grow env n m) \<and> dx_alloc_context env \<and> dx_alloc_packet env \<and>
     (\<forall>ctx. dx_open_codec env ctx)"

lemma recv_header_append:
  "length h = 16 \<Longrightarrow> dmx_socket d = h @ rest \<Longrightarrow>
    sc_demuxer_recv_header d = Some (Some h, d\<lparr>dmx_socket := rest\<rparr>)"
  by (simp add: sc_demuxer_recv_header_def net_recv_all_def SC_PACKET_HEADER_SIZE_def)

lemma recv_header_short:
  "length (dmx_socket d) < 16 \<Longrightarrow> \<exists>d'. sc_demuxer_recv_header d = Some (None, d')"
  by (simp add: sc_demuxer_recv_header_def net_recv_all_def SC_PACKET_HEADER_SIZE_def)

lemma recv_packet_written:
  assumes "media_item_ok (Media_packet pts config key data)" "env_grants env"
    "dmx_socket d = data @ rest"
  shows "\<exists>d'. sc_demuxer_recv_packet env d (writeFrameMeta sid (length data) pts config key) =
      Some (Some \<lparr>pkt_data = data, pkt_pts = (if config then AV_NOPTS_VALUE else pts),
        pkt_dts = (if config then AV_NOPTS_VALUE else pts),
        pkt_flags = (if \<not> config \<and> key then AV_PKT_FLAG_KEY else 0)\<rparr>, d') \<and> dmx_socket d' = rest"
proof -
  from assms(1) have l: "data \<noteq> []" "length data < 2 ^ 31" and c: "config \<or> pts < 2 ^ 61" by auto
  then have u: "unat (of_nat (length data) :: u32) = length data"
    by (simp add: unat_of_nat)
  then have nz: "(of_nat (length data) :: u32) \<noteq> 0"
    using l by (metis length_0_conv unat_0)
  have new: "dx_new_packet env (length data + length rest) (of_nat (length data))"
    using assms(2) l(2) by (auto simp: env_grants_def u)
  note flags = flags_bits [OF c, of key]
  show ?thesis
    using frame_header [OF assms(1), of sid] flags l nz new assms(3)
    by (cases config) (auto simp: sc_demuxer_recv_packet_def net_recv_all_def Let_def u)
qed

lemma AV_NOPTS_not_pts: "v < (2 ^ 61 :: u64) \<Longrightarrow> v \<noteq> AV_NOPTS_VALUE"
  by (auto simp: AV_NOPTS_VALUE_def)

lemma iteration_item:
  assumes it: "media_item_ok it" and g: "env_grants env" and a: "list_all accepting source" "source \<noteq> []"
    and d: "dmx_socket d = write_media_item sid it @ rest"
    and m: "must_merge \<or> pm_config merger = None"
  shows "\<exists>d' merger' w' cs'.
    demuxer_iteration env (watch_from 0 source) must_merge (d, merger, w, cs) =
      Some (None, d', merger', w', cs') \<and>
    dmx_socket d' = rest \<and> (must_merge \<or> pm_config merger' = None) \<and>
    (\<forall>i<length source. calls_of i cs' =
      calls_of i cs @ seen_by (source ! i) (delivered must_merge (pm_config merger) [it])) \<and>
    (\<forall>items. delivered must_merge (pm_config merger) (it # items) =
      delivered must_merge (pm_config merger) [it] @ delivered must_merge (pm_config merger') items)"
proof (cases it)
  case (Media_session w0 h0 resized)
  let ?s = "\<lparr>ss_width = w0, ss_height = h0, ss_client_resized = resized\<rparr>"
  obtain w' cs' where p: "sinks_push_session_all (watch_from 0 source) ?s (w, cs) = Some (True, w', cs')"
    using accepting_session [OF a(1)] by blast
  have h: "sc_demuxer_recv_header d =
      Some (Some (writeSessionMeta sid w0 h0 resized), d\<lparr>dmx_socket := rest\<rparr>)"
    using d Media_session by (simp add: recv_header_append session_header)
  show ?thesis
    using Media_session session_log_ok [OF p] h p a(2) m
    by (auto simp: demuxer_iteration_def session_header sc_packet_source_sinks_push_session_def
        seen_by_def)
next
  case (Media_packet pts config key data)
  let ?h = "writeFrameMeta sid (length data) pts config key"
  let ?p = "\<lparr>pkt_data = data, pkt_pts = (if config then AV_NOPTS_VALUE else pts),
    pkt_dts = (if config then AV_NOPTS_VALUE else pts),
    pkt_flags = (if \<not> config \<and> key then AV_PKT_FLAG_KEY else 0)\<rparr>"
  note ok = it [unfolded Media_packet]
  have h: "sc_demuxer_recv_header d = Some (Some ?h, d\<lparr>dmx_socket := data @ rest\<rparr>)"
    using d Media_packet frame_header(2) [OF ok, of sid] by (simp add: recv_header_append)
  obtain d' where r: "sc_demuxer_recv_packet env (d\<lparr>dmx_socket := data @ rest\<rparr>) ?h =
      Some (Some ?p, d')" "dmx_socket d' = rest"
    using recv_packet_written [OF ok g, of "d\<lparr>dmx_socket := data @ rest\<rparr>"] by auto
  have pts: "config \<or> pts \<noteq> AV_NOPTS_VALUE"
    using ok AV_NOPTS_not_pts by auto
  obtain merger' p' where mg: "demuxer_merge env must_merge d' merger ?p = Some (True, merger', p')"
      "must_merge \<or> pm_config merger' = None"
    and del: "delivered must_merge (pm_config merger) [it] = [Sink_push p' True]"
      "\<forall>items. delivered must_merge (pm_config merger) (it # items) =
        Sink_push p' True # delivered must_merge (pm_config merger') items"
    using m pts g Media_packet
    by (cases must_merge; cases config; cases "pm_config merger")
      (auto simp: demuxer_merge_def merge_spec env_grants_def)
  obtain w' cs' where p: "sinks_push_all (watch_from 0 source) p' (w, cs) = Some (True, w', cs')"
    using accepting_push [OF a(1)] by blast
  show ?thesis
    using push_log_ok [OF p] h r mg del p a(2) frame_header(1) [OF ok, of sid]
    by (auto simp: demuxer_iteration_def sc_packet_source_sinks_push_def seen_by_def)
qed

lemma loop_delivers:
  assumes "list_all media_item_ok items" "env_grants env" "list_all accepting source" "source \<noteq> []"
    "dmx_socket d = concat (map (write_media_item sid) items) @ rest" "length rest < 16"
    "must_merge \<or> pm_config merger = None"
  shows "\<exists>d' merger' w' cs'.
    demuxer_loop env (watch_from 0 source) must_merge (d, merger, w, cs) =
      Some (SC_DEMUXER_STATUS_EOS, d', merger', w', cs') \<and>
    (\<forall>i<length source. calls_of i cs' =
      calls_of i cs @ seen_by (source ! i) (delivered must_merge (pm_config merger) items))"
  using assms
proof (induction items arbitrary: d merger w cs)
  case Nil
  then obtain d' where "sc_demuxer_recv_header d = Some (None, d')"
    using recv_header_short [of d] by auto
  then show ?case
    by (simp add: demuxer_loop.simps [of env "watch_from 0 source"] demuxer_iteration_def seen_by_def)
next
  case (Cons it items)
  from Cons.prems(1) have it: "media_item_ok it" by simp
  from Cons.prems(5) have "dmx_socket d = write_media_item sid it @ concat (map (write_media_item sid) items) @ rest"
    by simp
  from iteration_item [OF it Cons.prems(2-4) this Cons.prems(7), of w cs] obtain d1 m1 w1 cs1 where
    1: "demuxer_iteration env (watch_from 0 source) must_merge (d, merger, w, cs) = Some (None, d1, m1, w1, cs1)"
      "dmx_socket d1 = concat (map (write_media_item sid) items) @ rest"
      "must_merge \<or> pm_config m1 = None"
      "\<forall>i<length source. calls_of i cs1 =
        calls_of i cs @ seen_by (source ! i) (delivered must_merge (pm_config merger) [it])"
      "delivered must_merge (pm_config merger) (it # items) =
        delivered must_merge (pm_config merger) [it] @ delivered must_merge (pm_config m1) items"
    by blast
  from Cons.prems(1) have items: "list_all media_item_ok items" by simp
  from Cons.IH [OF items Cons.prems(2-4) 1(2) Cons.prems(6) 1(3), of w1 cs1] obtain d' m' w' cs' where
    "demuxer_loop env (watch_from 0 source) must_merge (d1, m1, w1, cs1) =
      Some (SC_DEMUXER_STATUS_EOS, d', m', w', cs')"
    "\<forall>i<length source. calls_of i cs' =
      calls_of i cs1 @ seen_by (source ! i) (delivered must_merge (pm_config m1) items)"
    by blast
  then show ?case
    using 1 by (simp add: demuxer_loop.simps [of env "watch_from 0 source" must_merge "(d, merger, w, cs)"]
        seen_by_def)
qed

section \<open>The thread always ends\<close>

lemma total_header: "length header = 16 \<Longrightarrow> sc_demuxer_is_session header \<noteq> None"
  by (simp add: sc_demuxer_is_session_def)

lemma total_parse_session:
  "length header = 16 \<Longrightarrow> sc_demuxer_is_session header = Some True \<Longrightarrow> sc_demuxer_parse_session header \<noteq> None"
  using sc_read32be_Some [of "drop 8 header"] sc_read32be_Some [of "drop 12 header"]
  by (auto simp: sc_demuxer_parse_session_def)

lemma total_recv_packet:
  "length header = 16 \<Longrightarrow> sc_demuxer_is_session header = Some False \<Longrightarrow>
    sc_demuxer_recv_packet env d header \<noteq> None"
  using sc_read32be_Some [of header] sc_read64be_Some [of "drop 4 header"]
    sc_read32be_Some [of "drop 12 header"]
  by (auto simp: sc_demuxer_recv_packet_def Let_def split: prod.splits)

lemma total_recv_header: "sc_demuxer_recv_header d \<noteq> None"
  by (simp add: sc_demuxer_recv_header_def net_recv_all_def)

lemma total_merge: "demuxer_merge env must_merge d merger packet \<noteq> None"
  by (auto simp: demuxer_merge_def merge_spec split: option.splits)

text \<open>What the client assumes of the sinks of a demuxer; \<open>I\<close> is the invariant of their world.\<close>

definition demuxer_sinks_ok ::
    "av_media_type set \<Rightarrow> (nat set \<Rightarrow> nat set \<Rightarrow> 'w \<Rightarrow> bool) \<Rightarrow> 'w sc_packet_source \<Rightarrow> bool" where
  "demuxer_sinks_ok types I source \<longleftrightarrow> source \<noteq> [] \<and> packet_sinks_ok types packet_ok I 0 source"

text \<open>The type of the stream that the first bytes of the socket announce, if it can be decoded.\<close>

definition announced :: "demuxer_env \<Rightarrow> bytes \<Rightarrow> av_media_type set" where
  "announced env socket = (case sc_read32be socket of None \<Rightarrow> {}
     | Some raw \<Rightarrow> set_option (dx_find_decoder env (sc_demuxer_to_avcodec_id (dx_has_av1 env) raw)))"

lemma demuxer_sinks_okD:
  assumes "demuxer_sinks_ok types I source"
  shows "source \<noteq> []" "sinks_ok types packet_ok I 0 source" "packet_sinks_ok types packet_ok I 0 source"
  using assms by (auto simp: demuxer_sinks_ok_def packet_sinks_ok_sinks_ok)

lemma total_iteration:
  assumes S: "demuxer_sinks_ok types I source" and w: "I N {..<length source} w"
  shows "\<exists>st d' merger' w'. demuxer_iteration env source must_merge (d, merger, w) =
    Some (st, d', merger', w') \<and> I N {..<length source} w'"
proof -
  note ok = demuxer_sinks_okD [OF S]
  obtain h d1 where h: "sc_demuxer_recv_header d = Some (h, d1)"
    using total_recv_header [of d] by auto
  show ?thesis
  proof (cases h)
    case None
    with h w show ?thesis by (simp add: demuxer_iteration_def)
  next
    case (Some header)
    with recv_header_SomeD [OF h] have l: "length header = 16" by (auto split: if_splits)
    obtain s where s: "sc_demuxer_is_session header = Some s"
      using total_header [OF l] by auto
    show ?thesis
    proof (cases s)
      case True
      with total_parse_session [OF l] s obtain session where
        "sc_demuxer_parse_session header = Some session"
        by auto
      moreover from push_session_all_ok [OF ok(2) _ w, of session] obtain r w1 where
        "sinks_push_session_all source session w = Some (r, w1)" "I N {..<length source} w1"
        by (auto simp: atLeast0LessThan)
      ultimately show ?thesis
        using h Some s True ok(1)
        by (simp add: demuxer_iteration_def sc_packet_source_sinks_push_session_def)
    next
      case False
      with l s obtain p d2 where p: "sc_demuxer_recv_packet env d1 header = Some (p, d2)"
        using total_recv_packet [of header env d1] by auto
      show ?thesis
      proof (cases p)
        case None
        with h Some s False p w show ?thesis by (simp add: demuxer_iteration_def)
      next
        case P: (Some packet)
        obtain r m1 p1 where m: "demuxer_merge env must_merge d2 merger packet = Some (r, m1, p1)"
          using total_merge [of env must_merge d2 merger packet] by auto
        with p P have "packet_ok p1" by (metis recv_packet_ok demuxer_merge_ok)
        from push_all_ok [OF ok(2) _ w this] obtain r2 w1 where
          "sinks_push_all source p1 w = Some (r2, w1)" "I N {..<length source} w1"
          by (auto simp: atLeast0LessThan)
        with h Some s False p P m ok(1) w show ?thesis
          by (cases r) (simp_all add: demuxer_iteration_def sc_packet_source_sinks_push_def)
      qed
    qed
  qed
qed

lemma total_loop:
  assumes S: "demuxer_sinks_ok types I source"
  shows "I N {..<length source} w \<Longrightarrow>
    \<exists>st d' merger' w'. demuxer_loop env source must_merge (d, merger, w) = Some (st, d', merger', w') \<and>
      I N {..<length source} w'"
proof (induction "length (dmx_socket d)" arbitrary: d merger w rule: less_induct)
  case less
  from total_iteration [OF S less.prems, of env must_merge d merger] obtain st d1 m1 w1 where
    it: "demuxer_iteration env source must_merge (d, merger, w) = Some (st, d1, m1, w1)"
      "I N {..<length source} w1" by blast
  show ?case
  proof (cases st)
    case None
    with it have "length (dmx_socket d1) < length (dmx_socket d)" by (auto dest: iteration_consumes)
    from less.hyps [OF this it(2)] it None show ?thesis
      by (auto simp: demuxer_loop.simps [of env source must_merge "(d, merger, w)"])
  next
    case (Some s)
    with it show ?thesis by (simp add: demuxer_loop.simps [of env source must_merge "(d, merger, w)"])
  qed
qed

lemma total_context:
  "\<exists>c d'. demuxer_codec_context raw codec_id ty d = Some (c, d') \<and>
    (\<forall>ctx session. c = Some (ctx, session) \<longrightarrow> ctx_ok {ty} ctx session)"
proof -
  obtain h d1 where h: "sc_demuxer_recv_header d = Some (h, d1)"
    using total_recv_header [of d] by auto
  show ?thesis
  proof (cases h)
    case (Some header)
    with recv_header_SomeD [OF h] have l: "length header = 16" by (auto split: if_splits)
    with total_header [OF l] obtain s where "sc_demuxer_is_session header = Some s" by auto
    with total_parse_session [OF l] h Some show ?thesis
      by (auto simp: demuxer_codec_context_def Let_def ctx_ok_def)
  qed (use h in \<open>auto simp: demuxer_codec_context_def Let_def ctx_ok_def\<close>)
qed

lemma total_stream:
  assumes S: "demuxer_sinks_ok types I source" and w: "I {..<length source} {} w" and ty: "ty \<in> types"
  shows "\<exists>st d' w'. demuxer_stream env source raw codec_id ty d w = Some (st, d', w') \<and> (\<exists>N. I N {} w')"
proof -
  note ok = demuxer_sinks_okD [OF S]
  obtain c d1 where c: "demuxer_codec_context raw codec_id ty d = Some (c, d1)"
    "\<forall>ctx session. c = Some (ctx, session) \<longrightarrow> ctx_ok types ctx session"
    using total_context [of raw codec_id ty d] assms(3) by (auto simp: ctx_ok_def)
  show ?thesis
  proof (cases "\<exists>ctx session. c = Some (ctx, session) \<and> dx_open_codec env ctx")
    case False
    with c w show ?thesis by (auto simp: demuxer_stream_def split: option.splits)
  next
    case True
    then obtain ctx session where cs: "c = Some (ctx, session)" "dx_open_codec env ctx" by blast
    with c(2) have "ctx_ok types ctx session" by blast
    from open_from_ok [OF ok(2) this, of 0 w] w obtain N r w1 where
      o: "sinks_open_from source 0 ctx session w = Some (r, w1)" "I N (if r then {..<length source} else {}) w1"
      by (auto simp: atLeast0LessThan)
    have close: "\<exists>w'. sinks_close_firsts source (length source) v = Some w' \<and> I N {} w'"
      if "I N {..<length source} v" for v
      using close_firsts_ok [OF ok(2) _ that] by simp
    consider "\<not> r" | "r" "\<not> dx_alloc_packet env" | "r" "dx_alloc_packet env" by blast
    then show ?thesis
    proof cases
      case 1
      with c cs o ok(1) show ?thesis
        by (auto simp add: demuxer_stream_def sc_packet_source_sinks_open_def)
    next
      case 2
      with o(2) close [of w1] obtain w2 where
        "sinks_close_firsts source (length source) w1 = Some w2" "I N {} w2" by auto
      with 2 c cs o ok(1) show ?thesis
        by (auto simp add: demuxer_stream_def sc_packet_source_sinks_open_def sc_packet_source_sinks_close_def)
    next
      case 3
      with total_loop [OF S, of N w1 env "must_merge_config_packet raw" d1 sc_packet_merger_init] o(2)
      obtain st d2 m2 w2 where
        l: "demuxer_loop env source (must_merge_config_packet raw) (d1, sc_packet_merger_init, w1) =
          Some (st, d2, m2, w2)" "I N {..<length source} w2" by auto
      with close [OF l(2)] obtain w3 where
        "sinks_close_firsts source (length source) w2 = Some w3" "I N {} w3" by auto
      with l 3 c cs o ok(1) show ?thesis
        by (auto simp add: demuxer_stream_def sc_packet_source_sinks_open_def sc_packet_source_sinks_close_def)
    qed
  qed
qed

lemma total_run:
  assumes S: "demuxer_sinks_ok types I source" and w: "I {..<length source} {} w" and ty: "announced env (dmx_socket d) \<subseteq> types"
  shows "\<exists>st d' w'. run_demuxer env source d w = Some (st, d', w') \<and> (\<exists>N. I N {} w')"
proof -
  note ok = demuxer_sinks_okD [OF S]
  obtain raw d1 where r: "sc_demuxer_recv_codec_id d = Some (raw, d1)"
    using sc_read32be_Some [of "take 4 (dmx_socket d)"]
    by (cases "length (dmx_socket d) < 4") (auto simp: sc_demuxer_recv_codec_id_def net_recv_all_def)
  obtain N w1 where "sc_packet_source_sinks_disable source w = Some w1" "I N {} w1"
    using disable_all_ok [OF ok(3) _ w] ok(1)
    by (auto simp: sc_packet_source_sinks_disable_def atLeast0LessThan)
  moreover have "ty \<in> types"
    if "raw = Some x" "dx_find_decoder env (sc_demuxer_to_avcodec_id (dx_has_av1 env) x) = Some ty" for x ty
    using that r ty sc_read32be_append [of "take 4 (dmx_socket d)" "drop 4 (dmx_socket d)"]
    by (auto simp: announced_def sc_demuxer_recv_codec_id_def net_recv_all_def split: if_splits bind_splits)
  ultimately show ?thesis
    using r w total_stream [OF S w, of _ env _ _ d1]
    by (auto simp: run_demuxer_def Let_def split: option.splits)
qed

lemma run_watched:
  assumes "demuxer_sinks_ok types I source" "I {..<length source} {} w" "announced env (dmx_socket d) \<subseteq> types"
  shows "\<exists>status d' w' cs. run_demuxer env (watch_from 0 source) d (w, []) = Some (status, d', w', cs) \<and>
    (\<exists>N. I N {} w') \<and> (\<forall>i<length source. sink_life (calls_of i cs))"
proof -
  have "demuxer_sinks_ok types (\<lambda>N A w. I N A (fst w)) (watch_from 0 source)"
    using assms(1) by (simp add: demuxer_sinks_ok_def watch_from_ok)
  from total_run [OF this, of "(w, [])" env d] assms(2,3) obtain status d' w' cs N where
    "run_demuxer env (watch_from 0 source) d (w, []) = Some (status, d', w', cs)" "I N {} w'" by auto
  with demuxer_life [OF this(1)] show ?thesis by auto
qed

section \<open>Properties\<close>

text \<open>
  C4: Whatever comes from the socket and whatever the sinks answer, provided that they keep their contract, the
  demuxer thread ends without aborting, and each of its sinks has been treated as a sink must be: it is opened at most once, fed only while it is open and not after
  it refused something, closed exactly if it was opened, never touched after that nor after it was
  disabled; and every packet it got has data, and a time that is either none or below \<open>2 ^ 61\<close>.
\<close>

theorem demuxer_ends:
  assumes "demuxer_sinks_ok types I source" "I {..<length source} {} w" "announced env (dmx_socket d) \<subseteq> types"
  shows "\<exists>status d' w' cs. run_demuxer env (watch_from 0 source) d (w, []) = Some (status, d', w', cs) \<and>
    (\<exists>N. I N {} w') \<and> (\<forall>i<length source. sink_life (calls_of i cs))"
  by (rule run_watched [OF assms])

text \<open>A sink that counts the bytes of its packets and refuses the second one.\<close>

definition counting_sink :: "(nat \<times> nat) sc_packet_sink" where
  "counting_sink = \<lparr>ms_open = (\<lambda>ctx session w. Some (True, w)), ms_close = (\<lambda>w. Some w),
     ms_push = (\<lambda>p (n, bs). Some (n < 1, Suc n, bs + length (pkt_data p))), ms_push_session = None,
     ms_disable = None\<rparr>"

definition granting_env :: demuxer_env where
  "granting_env = \<lparr>dx_has_av1 = True,
     dx_find_decoder = (\<lambda>codec. Some (if codec \<in> {AV_CODEC_ID_H264, AV_CODEC_ID_HEVC, AV_CODEC_ID_AV1}
       then AVMEDIA_TYPE_VIDEO else AVMEDIA_TYPE_AUDIO)),
     dx_alloc_context = True, dx_open_codec = (\<lambda>_. True), dx_alloc_packet = True,
     dx_new_packet = (\<lambda>_ _. True), dx_malloc = (\<lambda>_ _. True), dx_grow = (\<lambda>_ _. True), dx_junk = 0\<rparr>"

lemma counting_sink_ok: "demuxer_sinks_ok UNIV (\<lambda>_ _ _. True) [counting_sink]"
  by (simp add: demuxer_sinks_ok_def, unfold_locales) (auto simp: counting_sink_def)

lemma demuxer_ends_witness:
  "\<exists>status d' w' cs. run_demuxer granting_env (watch_from 0 [counting_sink])
      (sc_demuxer_init [0x6f, 0x70, 0x75, 0x73, 0]) ((0, 0), []) = Some (status, d', w', cs) \<and>
    (\<exists>N :: nat set. True) \<and> (\<forall>i<length [counting_sink]. sink_life (calls_of i cs))"
  by (rule demuxer_ends [OF counting_sink_ok TrueI subset_UNIV])

text \<open>
  C3: What the server streams is what the sinks get: from the bytes that \<open>Streamer.java\<close> writes for a video, every
  sink that refuses nothing is opened, gets exactly the sessions and the packets that were written, in
  their order, with their data, times and key frame flags, and is closed; for H.264 and H.265 the data of
  a config packet is moreover put in front of the next packet. An incomplete header at the end is the
  end of the stream.
\<close>

theorem media_stream_delivered:
  assumes "sc_demuxer_to_avcodec_id (dx_has_av1 env) raw = codec_id" "codec_id \<noteq> AV_CODEC_ID_NONE"
    "dx_find_decoder env codec_id = Some AVMEDIA_TYPE_VIDEO" "env_grants env"
    "list_all accepting source" "source \<noteq> []" "list_all media_item_ok items" "length rest < 16"
  shows "\<exists>d' w' cs. run_demuxer env (watch_from 0 source) (sc_demuxer_init
        (sc_write32be raw @ concat (map (write_media_item sid) (Media_session width height resized # items)) @ rest))
      (w, []) = Some (SC_DEMUXER_STATUS_EOS, d', w', cs) \<and>
    (\<forall>i \<in> {..<length source}. calls_of i cs = Sink_open True #
      seen_by (source ! i) (delivered (must_merge_config_packet raw) None items) @ [Sink_close])"
proof -
  let ?m = "writeSessionMeta sid width height resized"
  let ?body = "concat (map (write_media_item sid) items) @ rest"
  let ?d = "sc_demuxer_init (sc_write32be raw @ ?m @ ?body)"
  let ?s = "\<lparr>ss_width = width, ss_height = height, ss_client_resized = resized\<rparr>"
  have raw: "raw \<noteq> 0" "raw \<noteq> 1"
    using assms(1,2) by (auto simp: sc_demuxer_to_avcodec_id_def codec_id_defs)
  have r: "sc_demuxer_recv_codec_id ?d = Some (Some raw, ?d\<lparr>dmx_socket := ?m @ ?body\<rparr>)"
    by (simp add: sc_demuxer_recv_codec_id_def net_recv_all_def sc_demuxer_init_def)
  have h: "sc_demuxer_recv_header (?d\<lparr>dmx_socket := ?m @ ?body\<rparr>) = Some (Some ?m, ?d\<lparr>dmx_socket := ?body\<rparr>)"
    using recv_header_append [of ?m "?d\<lparr>dmx_socket := ?m @ ?body\<rparr>" ?body] by (simp add: session_header)
  then obtain ctx where ctx: "demuxer_codec_context raw codec_id AVMEDIA_TYPE_VIDEO (?d\<lparr>dmx_socket := ?m @ ?body\<rparr>) =
      Some (Some (ctx, Some ?s), ?d\<lparr>dmx_socket := ?body\<rparr>)"
    by (simp add: demuxer_codec_context_def Let_def session_header)
  obtain w1 cs1 where o: "sinks_open_from (watch_from 0 source) 0 ctx (Some ?s) (w, []) = Some (True, w1, cs1)"
    using accepting_open [OF assms(5)] by blast
  obtain d2 m2 w2 cs2 where l: "demuxer_loop env (watch_from 0 source) (must_merge_config_packet raw)
      (?d\<lparr>dmx_socket := ?body\<rparr>, sc_packet_merger_init, w1, cs1) = Some (SC_DEMUXER_STATUS_EOS, d2, m2, w2, cs2)"
    "\<forall>i<length source. calls_of i cs2 = calls_of i cs1 @
      seen_by (source ! i) (delivered (must_merge_config_packet raw) (pm_config sc_packet_merger_init) items)"
    using loop_delivers [OF assms(7,4,5,6) _ assms(8), of "?d\<lparr>dmx_socket := ?body\<rparr>" sid
        "must_merge_config_packet raw" sc_packet_merger_init w1 cs1]
    by (auto simp: sc_packet_merger_init_def)
  obtain w3 cs3 where c: "close_sinks (watch_from 0 source) (w2, cs2) = Some (w3, cs3)"
    using accepting_close [OF assms(5)] by blast
  have "demuxer_stream env (watch_from 0 source) raw codec_id AVMEDIA_TYPE_VIDEO
      (?d\<lparr>dmx_socket := ?m @ ?body\<rparr>) (w, []) = Some (SC_DEMUXER_STATUS_EOS, d2, w3, cs3)"
    using ctx o l(1) c assms(4,6)
    by (simp add: demuxer_stream_def env_grants_def sc_packet_source_sinks_open_def
        sc_packet_source_sinks_close_def sinks_close_firsts_def)
  then have "run_demuxer env (watch_from 0 source) ?d (w, []) = Some (SC_DEMUXER_STATUS_EOS, d2, w3, cs3)"
    using r raw assms(1-4) by (simp add: run_demuxer_def env_grants_def)
  moreover have "calls_of i cs3 = Sink_open True #
      seen_by (source ! i) (delivered (must_merge_config_packet raw) None items) @ [Sink_close]"
    if "i < length source" for i
    using that close_log [OF c, of i] l(2) open_log_ok [OF o, of i]
    by (simp add: indices_def sc_packet_merger_init_def)
  ultimately show ?thesis by simp
qed

lemma media_stream_delivered_witness:
  "\<exists>d' w' cs. run_demuxer granting_env (watch_from 0 [counting_sink\<lparr>ms_push := \<lambda>p w. Some (True, w)\<rparr>])
      (sc_demuxer_init (sc_write32be SC_CODEC_ID_H264 @
        concat (map (write_media_item 1) (Media_session 1080 1920 False #
          [Media_packet 0 True False [1, 2], Media_packet 7 False True [3], Media_packet 9 False False [4]])) @ [0]))
      ((0, 0), []) = Some (SC_DEMUXER_STATUS_EOS, d', w', cs) \<and>
    (\<forall>i \<in> {..<length [counting_sink\<lparr>ms_push := \<lambda>p w. Some (True, w)\<rparr>]}. calls_of i cs =
      [Sink_open True,
       Sink_push \<lparr>pkt_data = [1, 2], pkt_pts = AV_NOPTS_VALUE, pkt_dts = AV_NOPTS_VALUE, pkt_flags = 0\<rparr> True,
       Sink_push \<lparr>pkt_data = [1, 2, 3], pkt_pts = 7, pkt_dts = 7, pkt_flags = 1\<rparr> True,
       Sink_push \<lparr>pkt_data = [4], pkt_pts = 9, pkt_dts = 9, pkt_flags = 0\<rparr> True, Sink_close])"
proof -
  let ?sink = "counting_sink\<lparr>ms_push := \<lambda>p w. Some (True, w)\<rparr>"
  let ?items = "[Media_packet 0 True False [1, 2], Media_packet 7 False True [3], Media_packet 9 False False [4]]"
  have seen: "seen_by ([?sink] ! i) (delivered (must_merge_config_packet SC_CODEC_ID_H264) None ?items) =
      [Sink_push \<lparr>pkt_data = [1, 2], pkt_pts = AV_NOPTS_VALUE, pkt_dts = AV_NOPTS_VALUE, pkt_flags = 0\<rparr> True,
       Sink_push \<lparr>pkt_data = [1, 2, 3], pkt_pts = 7, pkt_dts = 7, pkt_flags = 1\<rparr> True,
       Sink_push \<lparr>pkt_data = [4], pkt_pts = 9, pkt_dts = 9, pkt_flags = 0\<rparr> True]" for i
    by (simp add: seen_by_def must_merge_config_packet_def AV_PKT_FLAG_KEY_def)
  have "sc_demuxer_to_avcodec_id (dx_has_av1 granting_env) SC_CODEC_ID_H264 = AV_CODEC_ID_H264"
    "AV_CODEC_ID_H264 \<noteq> AV_CODEC_ID_NONE"
    "dx_find_decoder granting_env AV_CODEC_ID_H264 = Some AVMEDIA_TYPE_VIDEO" "env_grants granting_env"
    "list_all accepting [?sink]" "[?sink] \<noteq> []" "list_all media_item_ok ?items" "length [0 :: u8] < 16"
    by (simp_all add: sc_demuxer_to_avcodec_id_def granting_env_def env_grants_def accepting_def
        counting_sink_def)
  from media_stream_delivered [OF this, of 1 1080 1920 False "(0, 0)", unfolded seen]
  show ?thesis unfolding append_Cons append_Nil .
qed

end
