(* ===== verification/Sc_Decoder.thy ===== *)
theory Sc_Decoder
  imports Sc_Media Sc_Control_Msg
begin

text \<open>
  \<open>decoder.c\<close>: the packet sink that gives the packets to the codec and the frames the codec yields to its
  frame sinks.

  The codec is an argument: for the packets it has been sent so far, what \<open>avcodec_send_packet\<close> returns
  for the last one, and what \<open>avcodec_receive_frame\<close> then returns, call after call; it asks for more
  input (\<open>EAGAIN\<close>) after that. The unexpected frame sizes are only logged.
\<close>

datatype codec_send = Sent | Send_again | Send_error

datatype codec_receive = Received av_frame | Receive_again | Receive_eof | Receive_error

record decoder_env =
  de_alloc_frame :: bool
  de_codec :: "av_packet list \<Rightarrow> codec_send \<times> codec_receive list"

text \<open>\<open>dec_sent\<close> is the packets the codec has been sent; \<open>dec_frame\<close> is whether the frame is allocated.\<close>

record sc_decoder =
  dec_ctx :: "codec_context option"
  dec_frame :: bool
  dec_session :: sc_stream_session
  dec_frame_size :: sc_size
  dec_sent :: "av_packet list"

type_synonym 'w decoder_source = "(av_frame, 'w) sc_frame_source"

definition sc_decoder_open ::
    "decoder_env \<Rightarrow> 'w decoder_source \<Rightarrow> codec_context \<Rightarrow> sc_stream_session option \<Rightarrow> sc_decoder \<times> 'w \<Rightarrow>
      (bool \<times> sc_decoder \<times> 'w) option" where
  "sc_decoder_open env source ctx session = (\<lambda>(decoder, w).
     if \<not> de_alloc_frame env then Some (False, decoder\<lparr>dec_frame := False\<rparr>, w)
     else do {
       let decoder = decoder\<lparr>dec_frame := True\<rparr>;
       (ok, w) \<leftarrow> sc_frame_source_sinks_open source ctx session w;
       if \<not> ok then Some (False, decoder\<lparr>dec_frame := False\<rparr>, w)
       else do {
         let decoder = decoder\<lparr>dec_ctx := Some ctx\<rparr>;
         c_assert (session \<noteq> None \<or> cc_codec_type ctx \<noteq> AVMEDIA_TYPE_VIDEO);
         let decoder = (case session of Some s \<Rightarrow> decoder\<lparr>dec_session := s\<rparr> | None \<Rightarrow> decoder);
         Some (True, decoder\<lparr>dec_frame_size := \<lparr>width = 0, height = 0\<rparr>\<rparr>, w)
       }
     })"

definition sc_decoder_close :: "'w decoder_source \<Rightarrow> sc_decoder \<times> 'w \<Rightarrow> (sc_decoder \<times> 'w) option" where
  "sc_decoder_close source = (\<lambda>(decoder, w). do {
     w \<leftarrow> sc_frame_source_sinks_close source w;
     Some (decoder\<lparr>dec_frame := False\<rparr>, w)
   })"

definition frame_received :: "sc_decoder \<Rightarrow> av_media_type \<Rightarrow> av_frame \<Rightarrow> sc_decoder option" where
  "frame_received decoder codec_type frame =
     (if codec_type = AVMEDIA_TYPE_VIDEO then do {
        c_assert (0 \<le> av_width frame);
        c_assert (0 \<le> av_height frame);
        let frame_size = \<lparr>width = word_of_int (av_width frame), height = word_of_int (av_height frame)\<rparr>;
        Some (decoder\<lparr>dec_frame_size := frame_size\<rparr>)
      }
      else Some decoder)"

fun decoder_receive_loop ::
    "'w decoder_source \<Rightarrow> av_media_type \<Rightarrow> codec_receive list \<Rightarrow> sc_decoder \<times> 'w \<Rightarrow>
      (bool \<times> sc_decoder \<times> 'w) option" where
  "decoder_receive_loop source codec_type (Received frame # answers) (decoder, w) = do {
     decoder \<leftarrow> frame_received decoder codec_type frame;
     (ok, w) \<leftarrow> sc_frame_source_sinks_push source frame w;
     if \<not> ok then Some (False, decoder, w)
     else decoder_receive_loop source codec_type answers (decoder, w)
   }"
| "decoder_receive_loop source codec_type (Receive_error # answers) s = Some (False, s)"
| "decoder_receive_loop source codec_type (Receive_again # answers) s = Some (True, s)"
| "decoder_receive_loop source codec_type (Receive_eof # answers) s = Some (True, s)"
| "decoder_receive_loop source codec_type [] s = Some (True, s)"

definition sc_decoder_push ::
    "decoder_env \<Rightarrow> 'w decoder_source \<Rightarrow> av_packet \<Rightarrow> sc_decoder \<times> 'w \<Rightarrow> (bool \<times> sc_decoder \<times> 'w) option" where
  "sc_decoder_push env source packet = (\<lambda>(decoder, w).
     if pkt_pts packet = AV_NOPTS_VALUE then Some (True, decoder, w)
     else do {
       ctx \<leftarrow> dec_ctx decoder;
       let decoder = decoder\<lparr>dec_sent := dec_sent decoder @ [packet]\<rparr>;
       let (sent, answers) = de_codec env (dec_sent decoder);
       if sent = Send_error then Some (False, decoder, w)
       else decoder_receive_loop source (cc_codec_type ctx) answers (decoder, w)
     })"

definition sc_decoder_push_session ::
    "'w decoder_source \<Rightarrow> sc_stream_session \<Rightarrow> sc_decoder \<times> 'w \<Rightarrow> (bool \<times> sc_decoder \<times> 'w) option" where
  "sc_decoder_push_session source session = (\<lambda>(decoder, w). do {
     let decoder = decoder\<lparr>dec_session := session\<rparr>;
     (ok, w) \<leftarrow> sc_frame_source_sinks_push_session source session w;
     Some (ok, decoder, w)
   })"

text \<open>The operations of the packet sink; there is no \<open>disable\<close>.\<close>

definition sc_decoder_packet_sink :: "decoder_env \<Rightarrow> 'w decoder_source \<Rightarrow> (sc_decoder \<times> 'w) sc_packet_sink" where
  "sc_decoder_packet_sink env source =
     \<lparr>ms_open = sc_decoder_open env source, ms_close = sc_decoder_close source,
      ms_push = sc_decoder_push env source, ms_push_session = Some (sc_decoder_push_session source),
      ms_disable = None\<rparr>"

section \<open>The decoder keeps the contract of a packet sink\<close>

text \<open>\<open>J\<close> is the invariant of the frame sinks, which are unused while the decoder is, and open exactly while it is.\<close>

definition decoder_inv ::
    "av_media_type set \<Rightarrow> (nat set \<Rightarrow> nat set \<Rightarrow> 'w \<Rightarrow> bool) \<Rightarrow> 'w decoder_source \<Rightarrow>
      nat set \<Rightarrow> nat set \<Rightarrow> sc_decoder \<times> 'w \<Rightarrow> bool" where
  "decoder_inv types J source N A = (\<lambda>(decoder, w).
     (0 \<in> N \<longrightarrow> 0 \<notin> A \<and> J {..<length source} {} w) \<and>
     (\<exists>M. J M (if 0 \<in> A then {..<length source} else {}) w) \<and>
     (0 \<in> A \<longrightarrow> dec_frame decoder \<and>
       (\<exists>ctx. dec_ctx decoder = Some ctx \<and> cc_codec_type ctx \<in> types)))"

text \<open>What is assumed of the frames of the codec: the size of an image is not negative.\<close>

definition received_ok :: "av_media_type set \<Rightarrow> (av_frame \<Rightarrow> bool) \<Rightarrow> av_frame \<Rightarrow> bool" where
  "received_ok types frame_ok f \<longleftrightarrow>
     frame_ok f \<and> (AVMEDIA_TYPE_VIDEO \<in> types \<longrightarrow> 0 \<le> av_width f \<and> 0 \<le> av_height f)"

definition codec_ok :: "av_media_type set \<Rightarrow> (av_frame \<Rightarrow> bool) \<Rightarrow> decoder_env \<Rightarrow> bool" where
  "codec_ok types frame_ok env \<longleftrightarrow>
     (\<forall>sent f. Received f \<in> set (snd (de_codec env sent)) \<longrightarrow> received_ok types frame_ok f)"

lemma receive_loop_ok:
  assumes "sinks_ok types frame_ok J 0 source" "source \<noteq> []"
  shows "J M {..<length source} w \<Longrightarrow>
    (\<And>f. Received f \<in> set answers \<Longrightarrow> received_ok types frame_ok f) \<Longrightarrow> ty \<in> types \<Longrightarrow>
    \<exists>ok decoder' w'. decoder_receive_loop source ty answers (decoder, w) = Some (ok, decoder', w') \<and>
      J M {..<length source} w' \<and> dec_ctx decoder' = dec_ctx decoder \<and> dec_frame decoder' = dec_frame decoder"
proof (induction answers arbitrary: decoder w)
  case (Cons a answers)
  show ?case
  proof (cases a)
    case (Received f)
    with Cons.prems(2) have f: "frame_ok f" "AVMEDIA_TYPE_VIDEO \<in> types \<longrightarrow> 0 \<le> av_width f \<and> 0 \<le> av_height f"
      by (auto simp: received_ok_def)
    with Cons.prems(3) obtain dec1 where r: "frame_received decoder ty f = Some dec1" "dec_ctx dec1 = dec_ctx decoder"
      "dec_frame dec1 = dec_frame decoder"
      by (cases "ty = AVMEDIA_TYPE_VIDEO") (auto simp: frame_received_def)
    from push_all_ok [OF assms(1) _ Cons.prems(1) f(1)] obtain ok w1 where
      p: "sinks_push_all source f w = Some (ok, w1)" "J M {..<length source} w1"
      by (auto simp: atLeast0LessThan)
    show ?thesis
    proof (cases ok)
      case True
      from Cons.IH [OF p(2) _ Cons.prems(3), of dec1] Cons.prems(2) p r Received assms(2) True show ?thesis
        by (auto simp: sc_frame_source_sinks_push_def)
    next
      case False
      with p r Received assms(2) show ?thesis by (auto simp: sc_frame_source_sinks_push_def)
    qed
  qed (use Cons.prems(1) in auto)
qed auto

lemma decoder_sink_ok:
  assumes S: "sinks_ok types frame_ok J 0 source" "source \<noteq> []" and C: "codec_ok types frame_ok env"
  shows "packet_sink_ok types (\<lambda>_. True) (decoder_inv types J source) 0 (sc_decoder_packet_sink env source)"
proof unfold_locales
  fix N A :: "nat set" and s :: "sc_decoder \<times> 'a" and ctx session
  assume a: "decoder_inv types J source N A s" "0 \<in> N" "0 \<notin> A" "ctx_ok types ctx session"
  obtain decoder w where s: "s = (decoder, w)" by force
  show "\<exists>ok w'. ms_open (sc_decoder_packet_sink env source) ctx session s = Some (ok, w') \<and>
    decoder_inv types J source (N - {0}) (if ok then insert 0 A else A) w'"
  proof (cases "de_alloc_frame env")
    case False
    with a s show ?thesis by (auto simp: sc_decoder_packet_sink_def sc_decoder_open_def decoder_inv_def)
  next
    case True
    from a s have "J {0..<length source} {..<0} w" by (simp add: decoder_inv_def atLeast0LessThan)
    from open_from_ok [OF S(1) a(4) _ this] obtain M ok w1 where
      o: "sinks_open_from source 0 ctx session w = Some (ok, w1)" "J M (if ok then {..<length source} else {}) w1"
      by auto
    show ?thesis
    proof (cases ok)
      case False
      with True a(3) s S(2) o show ?thesis
        by (auto simp: sc_decoder_packet_sink_def sc_decoder_open_def decoder_inv_def
            sc_frame_source_sinks_open_def)
    next
      case ok: True
      from a(4) have "session \<noteq> None \<or> cc_codec_type ctx \<noteq> AVMEDIA_TYPE_VIDEO" "cc_codec_type ctx \<in> types"
        by (auto simp: ctx_ok_def)
      with True ok o S(2) s show ?thesis
        by (intro exI [of _ True])
          (auto simp: sc_decoder_packet_sink_def sc_decoder_open_def sc_frame_source_sinks_open_def
            decoder_inv_def Let_def split: option.split)
    qed
  qed
next
  fix N A :: "nat set" and s :: "sc_decoder \<times> 'a"
  assume a: "decoder_inv types J source N A s" "0 \<in> A"
  obtain decoder w where s: "s = (decoder, w)" by force
  with a obtain M where M: "J M {..<length source} w" by (auto simp: decoder_inv_def)
  from close_firsts_ok [OF S(1) _ M] obtain w' where
    "sinks_close_firsts source (length source) w = Some w'" "J M {} w'" by auto
  with a s S(2) show "\<exists>w'. ms_close (sc_decoder_packet_sink env source) s = Some w' \<and>
    decoder_inv types J source N (A - {0}) w'"
    by (auto simp: sc_decoder_packet_sink_def sc_decoder_close_def decoder_inv_def
        sc_frame_source_sinks_close_def)
next
  fix N A :: "nat set" and s :: "sc_decoder \<times> 'a" and p :: av_packet
  assume a: "decoder_inv types J source N A s" "0 \<in> A"
  obtain decoder w where s: "s = (decoder, w)" by force
  show "\<exists>ok w'. ms_push (sc_decoder_packet_sink env source) p s = Some (ok, w') \<and> decoder_inv types J source N A w'"
  proof (cases "pkt_pts p = AV_NOPTS_VALUE")
    case True
    with a s show ?thesis by (auto simp: sc_decoder_packet_sink_def sc_decoder_push_def)
  next
    case False
    from a s obtain ctx M where ctx: "dec_ctx decoder = Some ctx" "dec_frame decoder" "cc_codec_type ctx \<in> types" "J M {..<length source} w" "0 \<notin> N"
      by (auto simp: decoder_inv_def)
    let ?decoder = "decoder\<lparr>dec_sent := dec_sent decoder @ [p]\<rparr>"
    obtain sent answers where c: "de_codec env (dec_sent decoder @ [p]) = (sent, answers)" by force
    with C have f: "\<And>f. Received f \<in> set answers \<Longrightarrow> received_ok types frame_ok f"
      unfolding codec_ok_def by (metis snd_conv)
    from receive_loop_ok [OF S ctx(4) f ctx(3), of answers ?decoder] obtain ok dec' w' where
      "decoder_receive_loop source (cc_codec_type ctx) answers (?decoder, w) = Some (ok, dec', w')"
      "J M {..<length source} w'" "dec_ctx dec' = Some ctx" "dec_frame dec'"
      using ctx by auto
    with ctx a(2) s c False show ?thesis
      by (cases "sent = Send_error") (auto simp: sc_decoder_packet_sink_def sc_decoder_push_def decoder_inv_def)
  qed
next
  fix N A :: "nat set" and s :: "sc_decoder \<times> 'a" and push session
  assume a: "decoder_inv types J source N A s" "0 \<in> A"
    "ms_push_session (sc_decoder_packet_sink env source) = Some push"
  obtain decoder w where s: "s = (decoder, w)" by force
  with a obtain M where M: "J M {..<length source} w" by (auto simp: decoder_inv_def)
  from push_session_all_ok [OF S(1) _ M, of session] obtain ok w' where
    "sinks_push_session_all source session w = Some (ok, w')" "J M {..<length source} w'"
    by (auto simp: atLeast0LessThan)
  with a s S(2) show "\<exists>ok w'. push session s = Some (ok, w') \<and> decoder_inv types J source N A w'"
    by (auto simp: sc_decoder_packet_sink_def sc_decoder_push_session_def decoder_inv_def
        sc_frame_source_sinks_push_session_def)
qed (simp add: sc_decoder_packet_sink_def)

end
