(* ===== verification/Sc_Video_Pipeline.thy ===== *)
theory Sc_Video_Pipeline
  imports Sc_Media_Stream Sc_Decoder Sc_Screen
begin

text \<open>
  The video pipeline as \<open>scrcpy.c\<close> puts it together without a buffer: the demuxer feeds the decoder, which
  feeds the screen.
\<close>

section \<open>The screen as a frame sink\<close>

text \<open>
  \<open>ref_ok\<close> and \<open>event_ok\<close> decide the calls of a push that may fail. A session that is missing is
  a null pointer.
\<close>

definition sc_screen_frame_sink ::
    "screen_env \<Rightarrow> (sc_screen \<Rightarrow> bool) \<Rightarrow> (sc_screen \<Rightarrow> bool) \<Rightarrow> (av_frame, sc_screen) sc_frame_sink" where
  "sc_screen_frame_sink env ref_ok event_ok =
     \<lparr>ms_open = (\<lambda>ctx session screen. do {
        c_assert (cc_format ctx = AV_PIX_FMT_YUV420P);
        session \<leftarrow> session;
        Some (sc_screen_frame_sink_open env screen (sint (cc_width ctx), sint (cc_height ctx)) session) }),
      ms_close = Some,
      ms_push = (\<lambda>frame screen. sc_screen_frame_sink_push (ref_ok screen) (event_ok screen) screen frame),
      ms_push_session = Some (\<lambda>session screen.
        Some (True, sc_screen_frame_sink_push_session screen session))\<rparr>"

text \<open>What the pipeline keeps of the screen: the frames it holds can be shown.\<close>

definition screen_sink_inv :: "nat set \<Rightarrow> nat set \<Rightarrow> sc_screen \<Rightarrow> bool" where
  "screen_sink_inv N A s \<longleftrightarrow> scr_video s \<and> fb_inv (scr_fb s) \<and> pred_option frame_ok (fb_pending_frame (scr_fb s))"

lemma screen_sink_ok:
  "media_sink_ok {AVMEDIA_TYPE_VIDEO} frame_ok screen_sink_inv 0 (sc_screen_frame_sink env ref_ok event_ok)"
proof
  fix N A w ctx session
  assume a: "screen_sink_inv N A w" "ctx_ok {AVMEDIA_TYPE_VIDEO} ctx session"
  then obtain s where "session = Some s" "cc_format ctx = AV_PIX_FMT_YUV420P" by (auto simp: ctx_ok_def)
  moreover obtain ok w' where
    o: "sc_screen_frame_sink_open env w (sint (cc_width ctx), sint (cc_height ctx)) s = (ok, w')" by force
  moreover from o a(1) have "screen_sink_inv (N - {0}) (if ok then insert 0 A else A) w'"
    by (auto simp: sc_screen_frame_sink_open_def screen_sink_inv_def Let_def effect_def split: if_splits)
  ultimately show "\<exists>ok w'. ms_open (sc_screen_frame_sink env ref_ok event_ok) ctx session w = Some (ok, w') \<and>
      screen_sink_inv (N - {0}) (if ok then insert 0 A else A) w'"
    by (simp add: sc_screen_frame_sink_def)
next
  fix N A w and f :: av_frame
  assume a: "screen_sink_inv N A w" "frame_ok f"
  then have "scr_video w" "fb_inv (scr_fb w)" by (simp_all add: screen_sink_inv_def)
  with a show "\<exists>ok w'. ms_push (sc_screen_frame_sink env ref_ok event_ok) f w = Some (ok, w') \<and>
      screen_sink_inv N A w'"
    using fb_push_eq [of "scr_fb w" "ref_ok w" f]
    by (cases "ref_ok w") (auto simp: sc_screen_frame_sink_def sc_screen_frame_sink_push_def
        screen_sink_inv_def Let_def effect_def fb_inv_def)
next
  fix N A w push s
  assume "screen_sink_inv N A w" "ms_push_session (sc_screen_frame_sink env ref_ok event_ok) = Some push"
  then show "\<exists>ok w'. push s w = Some (ok, w') \<and> screen_sink_inv N A w'"
    by (auto simp: sc_screen_frame_sink_def sc_screen_frame_sink_push_session_def screen_sink_inv_def)
qed (auto simp: sc_screen_frame_sink_def screen_sink_inv_def)

interpretation screen_sink: media_sink_ok "{AVMEDIA_TYPE_VIDEO}" frame_ok screen_sink_inv 0
  "sc_screen_frame_sink env ref_ok event_ok"
  by (rule screen_sink_ok)

section \<open>The pipeline\<close>

definition video_pipeline ::
    "decoder_env \<Rightarrow> screen_env \<Rightarrow> (sc_screen \<Rightarrow> bool) \<Rightarrow> (sc_screen \<Rightarrow> bool) \<Rightarrow>
      (sc_decoder \<times> sc_screen) sc_packet_source" where
  "video_pipeline dec_env env ref_ok event_ok =
     [sc_decoder_packet_sink dec_env [sc_screen_frame_sink env ref_ok event_ok]]"

lemma video_pipeline_ok:
  assumes "codec_ok {AVMEDIA_TYPE_VIDEO} frame_ok dec_env"
  shows "demuxer_sinks_ok {AVMEDIA_TYPE_VIDEO}
    (decoder_inv {AVMEDIA_TYPE_VIDEO} screen_sink_inv [sc_screen_frame_sink env ref_ok event_ok])
    (video_pipeline dec_env env ref_ok event_ok)"
proof -
  have "packet_sink_ok {AVMEDIA_TYPE_VIDEO} (\<lambda>_. True)
      (decoder_inv {AVMEDIA_TYPE_VIDEO} screen_sink_inv [sc_screen_frame_sink env ref_ok event_ok]) 0
      (sc_decoder_packet_sink dec_env [sc_screen_frame_sink env ref_ok event_ok])"
    by (rule decoder_sink_ok) (use assms screen_sink_ok in auto)
  then show ?thesis
    by (auto simp: demuxer_sinks_ok_def video_pipeline_def packet_sink_ok_def packet_sink_ok_axioms_def
        media_sink_ok_def)
qed


definition silent_codec :: decoder_env where
  "silent_codec = \<lparr>de_alloc_frame = True, de_codec = (\<lambda>sent. (Sent, [Received \<lparr>av_width = 2, av_height = 2,
     av_pts = 0, av_data = length sent, av_nb_samples = 0\<rparr>]))\<rparr>"


text \<open>
  The condition on the announced codec is needed: when the server announces an audio codec on the video
  socket, there is no session and no pixel format, and the screen aborts.
\<close>

theorem audio_codec_on_video_socket_aborts:
  assumes "de_alloc_frame dec_env"
  shows "run_demuxer granting_env (video_pipeline dec_env scr_env ref_ok event_ok)
    (sc_demuxer_init (sc_write32be SC_CODEC_ID_OPUS @ rest)) (decoder, screen) = None"
proof -
  have r: "sc_demuxer_recv_codec_id (sc_demuxer_init (sc_write32be SC_CODEC_ID_OPUS @ rest)) =
      Some (Some SC_CODEC_ID_OPUS, \<lparr>dmx_socket = rest, dmx_stream_id = 0\<rparr>)"
    by (simp add: sc_demuxer_recv_codec_id_def net_recv_all_def sc_demuxer_init_def)
  have "sinks_open_from (video_pipeline dec_env scr_env ref_ok event_ok) 0 ctx None (decoder, screen) = None"
    if "cc_format ctx = AV_FMT_NONE" for ctx
    using assms that by (simp add: sinks_open_from.simps [of _ 0] video_pipeline_def
        sc_decoder_packet_sink_def sc_decoder_open_def sc_frame_source_sinks_open_def sc_screen_frame_sink_def)
  then show ?thesis
    using r by (simp add: run_demuxer_def sc_demuxer_to_avcodec_id_def codec_id_defs granting_env_def
        demuxer_stream_def demuxer_codec_context_def Let_def sc_packet_source_sinks_open_def)
qed

end
