(* ===== verification/Sc_Delay_Buffer.thy ===== *)
theory Sc_Delay_Buffer
  imports Sc_Media Sc_Vecdeque
begin

text \<open>
  \<open>clock.c\<close> and \<open>delay_buffer.c\<close>: the estimation of the clock of the device, and the buffer that delays the
  frames, as a transition system of the thread of the decoder, which pushes, and the buffering thread. A step
  of a thread is what it does while it holds the mutex. Times are microseconds.
\<close>

section \<open>The clock\<close>

definition SC_CLOCK_RANGE :: nat where
  "SC_CLOCK_RANGE = 32"

record sc_clock =
  clk_range :: nat
  clk_offset :: int

definition sc_clock_init :: sc_clock where
  "sc_clock_init = \<lparr>clk_range = 0, clk_offset = 0\<rparr>"

definition sc_clock_update :: "sc_clock \<Rightarrow> int \<Rightarrow> int \<Rightarrow> sc_clock" where
  "sc_clock_update clock system stream =
     (let clock = (if clk_range clock < SC_CLOCK_RANGE then clock\<lparr>clk_range := clk_range clock + 1\<rparr> else clock);
          offset = system - stream;
          clock_weight = int (clk_range clock) - 1;
          value_weight = int SC_CLOCK_RANGE - int (clk_range clock) + 1
      in clock\<lparr>clk_offset :=
           c_div (clk_offset clock * clock_weight + offset * value_weight) (int SC_CLOCK_RANGE)\<rparr>)"

definition sc_clock_to_system_time :: "sc_clock \<Rightarrow> int \<Rightarrow> int option" where
  "sc_clock_to_system_time clock stream = do {
     c_assert (clk_range clock \<noteq> 0);
     Some (stream + clk_offset clock)
   }"

text \<open>The clock after a sequence of observations, system and stream times.\<close>

fun clock_updates :: "sc_clock \<Rightarrow> (int \<times> int) list \<Rightarrow> sc_clock" where
  "clock_updates clock [] = clock"
| "clock_updates clock ((system, stream) # obs) = clock_updates (sc_clock_update clock system stream) obs"

section \<open>The delay buffer\<close>

text \<open>A frame is a pointer, null when it could not be allocated.\<close>

datatype sc_delayed_packet =
    Delayed_frame "av_frame option"
  | Delayed_session sc_stream_session

record sc_delay_buffer =
  db_delay :: int
  db_first_frame_asap :: bool
  db_clock :: sc_clock
  db_queue :: "sc_delayed_packet sc_vecdeque"
  db_stopped :: bool

definition sc_delay_buffer_init :: "int \<Rightarrow> bool \<Rightarrow> sc_delay_buffer option" where
  "sc_delay_buffer_init delay first_frame_asap = do {
     c_assert (0 < delay);
     Some \<lparr>db_delay = delay, db_first_frame_asap = first_frame_asap, db_clock = sc_clock_init,
       db_queue = sc_vecdeque_init, db_stopped = False\<rparr>
   }"

text \<open>
  Result of the four calls that may fail, and the source the sinks of which are opened; on failure what was
  done is undone. \<open>world\<close> is the world of the sinks.
\<close>

definition sc_delay_buffer_frame_sink_open ::
    "bool \<Rightarrow> bool \<Rightarrow> bool \<Rightarrow> bool \<Rightarrow> (av_frame, 'w) sc_frame_source \<Rightarrow> codec_context \<Rightarrow>
      sc_stream_session option \<Rightarrow> sc_delay_buffer \<times> 'w \<Rightarrow> (bool \<times> sc_delay_buffer \<times> 'w) option" where
  "sc_delay_buffer_frame_sink_open mutex_ok queue_cond_ok wait_cond_ok thread_ok source ctx session =
     (\<lambda>(db, w).
       if \<not> mutex_ok \<or> \<not> queue_cond_ok \<or> \<not> wait_cond_ok then Some (False, db, w)
       else do {
         let db = db\<lparr>db_clock := sc_clock_init, db_queue := sc_vecdeque_init, db_stopped := False\<rparr>;
         (ok, w) \<leftarrow> sc_frame_source_sinks_open source ctx session w;
         if \<not> ok then Some (False, db, w)
         else if \<not> thread_ok then do {
           w \<leftarrow> sc_frame_source_sinks_close source w;
           Some (False, db, w)
         }
         else Some (True, db, w)
       })"

datatype delay_push = Push_stopped | Push_direct | Push_no_memory | Push_queued

text \<open>
  The critical section of a push. \<open>Push_direct\<close>: the frame is given to the sinks after the mutex is
  released. \<open>frame_ok\<close> is whether the copy of the frame can be allocated; the cell of the queue is taken
  before that.
\<close>

definition sc_delay_buffer_frame_sink_push ::
    "(nat \<Rightarrow> bool) \<Rightarrow> nat \<Rightarrow> bool \<Rightarrow> int \<Rightarrow> sc_delay_buffer \<Rightarrow> av_frame \<Rightarrow>
      (sc_delay_buffer \<times> delay_push) option" where
  "sc_delay_buffer_frame_sink_push alloc M frame_ok now db frame =
     (if db_stopped db then Some (db, Push_stopped)
      else do {
        let db = db\<lparr>db_clock := sc_clock_update (db_clock db) now (av_pts frame)\<rparr>;
        if db_first_frame_asap db \<and> clk_range (db_clock db) = 1 then Some (db, Push_direct)
        else do {
          (queue, ok) \<leftarrow> sc_vecdeque_push alloc M (db_queue db)
            (Delayed_frame (if frame_ok then Some frame else None));
          let db = db\<lparr>db_queue := queue\<rparr>;
          Some (db, if ok \<and> frame_ok then Push_queued else Push_no_memory)
        }
      })"

definition sc_delay_buffer_frame_sink_push_session ::
    "(nat \<Rightarrow> bool) \<Rightarrow> nat \<Rightarrow> sc_delay_buffer \<Rightarrow> sc_stream_session \<Rightarrow> (sc_delay_buffer \<times> delay_push) option" where
  "sc_delay_buffer_frame_sink_push_session alloc M db session =
     (if db_stopped db then Some (db, Push_stopped)
      else do {
        (queue, ok) \<leftarrow> sc_vecdeque_push alloc M (db_queue db) (Delayed_session session);
        Some (db\<lparr>db_queue := queue\<rparr>, if ok then Push_queued else Push_no_memory)
      })"

text \<open>The first part of closing: the thread is asked to stop, and both conditions are signaled.\<close>

definition delay_buffer_stop :: "sc_delay_buffer \<Rightarrow> sc_delay_buffer" where
  "delay_buffer_stop db = db\<lparr>db_stopped := True\<rparr>"

section \<open>The buffering thread\<close>

text \<open>The date until which a frame waits.\<close>

definition delay_deadline :: "sc_delay_buffer \<Rightarrow> av_frame \<Rightarrow> int \<Rightarrow> int option" where
  "delay_deadline db frame max_deadline = do {
     t \<leftarrow> sc_clock_to_system_time (db_clock db) (av_pts frame);
     let deadline = t + db_delay db;
     Some (if deadline > max_deadline then max_deadline else deadline)
   }"

datatype delay_pc = Db_at_lock | Db_waiting | Db_delaying av_frame int int
  | Db_sending sc_delayed_packet | Db_ended

text \<open>
  From taking the lock to waiting or releasing it: waiting for a packet, for the date of a frame (its maximum
  and the current one), or going on to send a session. Reading the time of a null frame aborts.
\<close>

definition delay_take :: "int \<Rightarrow> sc_delay_buffer \<Rightarrow> (delay_pc \<times> sc_delay_buffer) option" where
  "delay_take now db =
     (if \<not> db_stopped db \<and> sc_vecdeque_is_empty (db_queue db) then Some (Db_waiting, db)
      else if db_stopped db then Some (Db_ended, db)
      else do {
        (dpacket, queue) \<leftarrow> sc_vecdeque_pop (db_queue db);
        let db = db\<lparr>db_queue := queue\<rparr>;
        case dpacket of
          Delayed_frame None \<Rightarrow> None
        | Delayed_frame (Some frame) \<Rightarrow> do {
            let max_deadline = now + db_delay db;
            deadline \<leftarrow> delay_deadline db frame max_deadline;
            Some (Db_delaying frame max_deadline deadline, db)
          }
        | Delayed_session session \<Rightarrow> Some (Db_sending dpacket, db)
      })"

text \<open>After the wait for the date of a frame, which ended because the date was reached or not.\<close>

definition delay_wake :: "bool \<Rightarrow> sc_delay_buffer \<Rightarrow> av_frame \<Rightarrow> int \<Rightarrow> delay_pc option" where
  "delay_wake timed_out db frame max_deadline =
     (if db_stopped db then Some Db_ended
      else if timed_out then Some (Db_sending (Delayed_frame (Some frame)))
      else do {
        deadline \<leftarrow> delay_deadline db frame max_deadline;
        Some (Db_delaying frame max_deadline deadline)
      })"

text \<open>After the packet has been given to the sinks, with their answer.\<close>

definition delay_sent :: "bool \<Rightarrow> sc_delay_buffer \<Rightarrow> delay_pc \<times> sc_delay_buffer" where
  "delay_sent ok db = (if \<not> ok then (Db_ended, db\<lparr>db_stopped := True\<rparr>) else (Db_at_lock, db))"

text \<open>At the end of the thread, the queue is emptied.\<close>

definition delay_flush :: "sc_delay_buffer \<Rightarrow> sc_delayed_packet list option" where
  "delay_flush db = vd_drain (db_queue db)"

section \<open>Both threads\<close>

text \<open>
  With the frame the pushing thread is about to give to the sinks directly, the current date, the packets that
  were accepted, and the packets that were given to the sinks, in order.
\<close>

record delay_system =
  dbs_db :: sc_delay_buffer
  dbs_pc :: delay_pc
  dbs_direct :: "av_frame option"
  dbs_now :: int
  dbs_accepted :: "sc_delayed_packet list"
  dbs_delivered :: "sc_delayed_packet list"

definition queue_signal :: "bool \<Rightarrow> delay_pc \<Rightarrow> delay_pc" where
  "queue_signal signal pc = (if signal \<and> pc = Db_waiting then Db_at_lock else pc)"

text \<open>
  The signal of \<open>wait_cond\<close> is covered by \<open>wake\<close>, which may happen at any time. The pushing thread does nothing
  else while it gives a frame to the sinks.
\<close>

inductive delay_step :: "nat \<Rightarrow> delay_system \<Rightarrow> delay_system \<Rightarrow> bool" for M where
  tick: "dbs_now s \<le> t \<Longrightarrow> delay_step M s (s\<lparr>dbs_now := t\<rparr>)"
| push: "dbs_direct s = None \<Longrightarrow>
    sc_delay_buffer_frame_sink_push alloc M frame_ok (dbs_now s) (dbs_db s) frame = Some (db, res) \<Longrightarrow>
    delay_step M s (s\<lparr>dbs_db := db, dbs_direct := (if res = Push_direct then Some frame else None),
      dbs_pc := queue_signal (res = Push_queued) (dbs_pc s),
      dbs_accepted := dbs_accepted s @
        (if res \<in> {Push_direct, Push_queued} then [Delayed_frame (Some frame)] else [])\<rparr>)"
| direct: "dbs_direct s = Some frame \<Longrightarrow>
    delay_step M s (s\<lparr>dbs_direct := None, dbs_delivered := dbs_delivered s @ [Delayed_frame (Some frame)]\<rparr>)"
| push_session: "dbs_direct s = None \<Longrightarrow>
    sc_delay_buffer_frame_sink_push_session alloc M (dbs_db s) session = Some (db, res) \<Longrightarrow>
    delay_step M s (s\<lparr>dbs_db := db, dbs_pc := queue_signal (res = Push_queued) (dbs_pc s),
      dbs_accepted := dbs_accepted s @ (if res = Push_queued then [Delayed_session session] else [])\<rparr>)"
| close: "dbs_direct s = None \<Longrightarrow>
    delay_step M s (s\<lparr>dbs_db := delay_buffer_stop (dbs_db s), dbs_pc := queue_signal True (dbs_pc s)\<rparr>)"
| take: "dbs_pc s = Db_at_lock \<Longrightarrow> delay_take (dbs_now s) (dbs_db s) = Some (pc, db) \<Longrightarrow>
    delay_step M s (s\<lparr>dbs_db := db, dbs_pc := pc\<rparr>)"
| spurious: "dbs_pc s = Db_waiting \<Longrightarrow> delay_step M s (s\<lparr>dbs_pc := Db_at_lock\<rparr>)"
| wake: "dbs_pc s = Db_delaying frame max_deadline deadline \<Longrightarrow>
    timed_out \<longrightarrow> deadline \<le> dbs_now s \<Longrightarrow>
    delay_wake timed_out (dbs_db s) frame max_deadline = Some pc \<Longrightarrow>
    delay_step M s (s\<lparr>dbs_pc := pc\<rparr>)"
| send: "dbs_pc s = Db_sending dpacket \<Longrightarrow> delay_sent ok (dbs_db s) = (pc, db) \<Longrightarrow>
    delay_step M s (s\<lparr>dbs_db := db, dbs_pc := pc, dbs_delivered := dbs_delivered s @ [dpacket]\<rparr>)"

inductive delay_reachable :: "nat \<Rightarrow> delay_system \<Rightarrow> bool" for M where
  start: "sc_delay_buffer_init delay first_frame_asap = Some db \<Longrightarrow>
    delay_reachable M \<lparr>dbs_db = db, dbs_pc = Db_at_lock, dbs_direct = None, dbs_now = now,
      dbs_accepted = [], dbs_delivered = []\<rparr>"
| step: "delay_reachable M s \<Longrightarrow> delay_step M s s' \<Longrightarrow> delay_reachable M s'"

section \<open>The clock stays within what it observed\<close>

lemma div_between:
  fixes n :: int
  assumes "0 < n" "n * lo \<le> a" "a \<le> n * hi"
  shows "lo \<le> a div n \<and> a div n \<le> hi"
  using zdiv_mono1 [OF assms(2,1)] zdiv_mono1 [OF assms(3,1)] assms(1) by simp

lemma c_div_between:
  assumes "0 < n" "n * lo \<le> a" "a \<le> n * hi"
  shows "lo \<le> c_div a n \<and> c_div a n \<le> hi"
proof (cases "0 \<le> a")
  case True
  with div_between [OF assms] assms(1) show ?thesis by simp
next
  case False
  with div_between [of n "- hi" "- a" "- lo"] assms show ?thesis by (simp add: c_div_neg)
qed

lemma clock_update_between:
  assumes "lo \<le> system - stream" "system - stream \<le> hi" "clk_range c \<le> SC_CLOCK_RANGE"
    "clk_range c \<noteq> 0 \<Longrightarrow> lo \<le> clk_offset c \<and> clk_offset c \<le> hi"
  defines "c' \<equiv> sc_clock_update c system stream"
  shows "lo \<le> clk_offset c'" "clk_offset c' \<le> hi" "clk_range c' = min SC_CLOCK_RANGE (Suc (clk_range c))"
proof -
  let ?r = "min SC_CLOCK_RANGE (Suc (clk_range c))"
  let ?w = "int ?r - 1" and ?v = "int SC_CLOCK_RANGE - int ?r + 1" and ?x = "system - stream"
  have r: "1 \<le> ?r" "?r \<le> SC_CLOCK_RANGE" by (simp_all add: SC_CLOCK_RANGE_def)
  have c': "c' = c\<lparr>clk_range := ?r, clk_offset := c_div (clk_offset c * ?w + ?x * ?v) (int SC_CLOCK_RANGE)\<rparr>"
    using assms(3) by (simp add: c'_def sc_clock_update_def Let_def)
  have w: "0 \<le> ?w" "0 \<le> ?v" "?w + ?v = int SC_CLOCK_RANGE" using r by auto
  have "clk_offset c * ?w + ?x * ?v \<le> hi * ?w + hi * ?v \<and> lo * ?w + lo * ?v \<le> clk_offset c * ?w + ?x * ?v"
  proof (cases "clk_range c = 0")
    case True
    then have "?w = 0" by (simp add: SC_CLOCK_RANGE_def)
    with w(2) assms(1,2) show ?thesis by (simp add: mult_right_mono)
  next
    case False
    from assms(4) [OF this] w assms(1,2) show ?thesis by (intro conjI add_mono mult_right_mono) auto
  qed
  with w(3) have "int SC_CLOCK_RANGE * lo \<le> clk_offset c * ?w + ?x * ?v"
    "clk_offset c * ?w + ?x * ?v \<le> int SC_CLOCK_RANGE * hi"
    by (simp_all add: distrib_left [symmetric] mult.commute)
  from c_div_between [OF _ this] c' show "lo \<le> clk_offset c'" "clk_offset c' \<le> hi"
    by (simp_all add: SC_CLOCK_RANGE_def)
  show "clk_range c' = ?r" using c' by simp
qed

lemma clock_updates_between:
  assumes "\<And>system stream. (system, stream) \<in> set obs \<Longrightarrow> lo \<le> system - stream \<and> system - stream \<le> hi"
    "clk_range c \<le> SC_CLOCK_RANGE" "clk_range c \<noteq> 0 \<Longrightarrow> lo \<le> clk_offset c \<and> clk_offset c \<le> hi"
    "obs \<noteq> [] \<or> clk_range c \<noteq> 0"
  shows "lo \<le> clk_offset (clock_updates c obs) \<and> clk_offset (clock_updates c obs) \<le> hi \<and>
    clk_range (clock_updates c obs) = min SC_CLOCK_RANGE (clk_range c + length obs)"
  using assms
proof (induction obs arbitrary: c)
  case (Cons o1 obs)
  obtain system stream where o1: "o1 = (system, stream)" by force
  let ?c = "sc_clock_update c system stream"
  from Cons.prems(1) [of system stream] o1 have b: "lo \<le> system - stream" "system - stream \<le> hi" by auto
  note u = clock_update_between [OF b Cons.prems(2,3)]
  from u(3) have "clk_range ?c \<noteq> 0" "clk_range ?c \<le> SC_CLOCK_RANGE" by (simp_all add: SC_CLOCK_RANGE_def)
  then show ?case
    using Cons.IH [of ?c] Cons.prems(1) u o1 by (simp add: min_def split: if_splits)
qed auto



section \<open>Invariants of the two threads\<close>

fun is_frame :: "sc_delayed_packet \<Rightarrow> bool" where
  "is_frame (Delayed_frame f) = True"
| "is_frame (Delayed_session s) = False"

text \<open>
  The packets whose order is kept: all of them, or, when the first frame is not delayed, the frames
  or the sessions.
\<close>

definition ordered_kind :: "bool \<Rightarrow> (sc_delayed_packet \<Rightarrow> bool) \<Rightarrow> bool" where
  "ordered_kind asap K \<longleftrightarrow> (asap \<longrightarrow> (\<forall>p. K p \<longrightarrow> is_frame p) \<or> (\<forall>p. K p \<longrightarrow> \<not> is_frame p))"

definition live :: "sc_delay_buffer \<Rightarrow> sc_delayed_packet list" where
  "live db = filter (\<lambda>p. p \<noteq> Delayed_frame None) (vd_content (db_queue db))"

fun in_flight :: "delay_pc \<Rightarrow> sc_delayed_packet list" where
  "in_flight (Db_delaying f m d) = [Delayed_frame (Some f)]"
| "in_flight (Db_sending p) = [p]"
| "in_flight _ = []"

definition direct_frame :: "delay_system \<Rightarrow> sc_delayed_packet list" where
  "direct_frame s = (case dbs_direct s of None \<Rightarrow> [] | Some f \<Rightarrow> [Delayed_frame (Some f)])"

text \<open>What was accepted and is not yet delivered, in order; \<open>dropped\<close> is what the end of the thread dropped.\<close>

definition delay_order :: "delay_system \<Rightarrow> sc_delayed_packet list \<Rightarrow> (sc_delayed_packet \<Rightarrow> bool) \<Rightarrow> bool" where
  "delay_order s dropped K \<longleftrightarrow> filter K (dbs_accepted s) =
     filter K (dbs_delivered s @ direct_frame s @ dropped @ in_flight (dbs_pc s) @ live (dbs_db s))"

definition delay_inv :: "nat \<Rightarrow> delay_system \<Rightarrow> bool" where
  "delay_inv M s \<longleftrightarrow> vd_inv M (db_queue (dbs_db s)) \<and>
     clk_range (db_clock (dbs_db s)) \<le> SC_CLOCK_RANGE \<and>
     (clk_range (db_clock (dbs_db s)) = 0 \<longrightarrow> filter is_frame (dbs_accepted s) = []) \<and>
     (dbs_pc s = Db_waiting \<longrightarrow> \<not> db_stopped (dbs_db s) \<and> live (dbs_db s) = []) \<and>
     (dbs_pc s = Db_ended \<longrightarrow> db_stopped (dbs_db s)) \<and>
     dbs_pc s \<noteq> Db_sending (Delayed_frame None) \<and>
     (\<forall>f m d. dbs_pc s = Db_delaying f m d \<longrightarrow> d \<le> m \<and> m \<le> dbs_now s + db_delay (dbs_db s)) \<and>
     (\<forall>f. dbs_direct s = Some f \<longrightarrow> db_first_frame_asap (dbs_db s) \<and>
       filter is_frame (dbs_accepted s) = [Delayed_frame (Some f)]) \<and>
     (\<exists>dropped. (dbs_pc s \<noteq> Db_ended \<longrightarrow> dropped = []) \<and>
       (\<forall>K. ordered_kind (db_first_frame_asap (dbs_db s)) K \<longrightarrow> delay_order s dropped K))"

lemma delay_invD:
  assumes "delay_inv M s"
  shows "vd_inv M (db_queue (dbs_db s))" "clk_range (db_clock (dbs_db s)) \<le> SC_CLOCK_RANGE"
    "clk_range (db_clock (dbs_db s)) = 0 \<Longrightarrow> filter is_frame (dbs_accepted s) = []"
    "dbs_pc s = Db_waiting \<Longrightarrow> \<not> db_stopped (dbs_db s) \<and> live (dbs_db s) = []"
    "dbs_pc s = Db_ended \<Longrightarrow> db_stopped (dbs_db s)"
    "dbs_pc s \<noteq> Db_sending (Delayed_frame None)"
    "dbs_pc s = Db_delaying f m d \<Longrightarrow> d \<le> m \<and> m \<le> dbs_now s + db_delay (dbs_db s)"
    "dbs_direct s = Some f \<Longrightarrow> db_first_frame_asap (dbs_db s) \<and>
       filter is_frame (dbs_accepted s) = [Delayed_frame (Some f)]"
    "\<exists>dropped. (dbs_pc s \<noteq> Db_ended \<longrightarrow> dropped = []) \<and>
       (\<forall>K. ordered_kind (db_first_frame_asap (dbs_db s)) K \<longrightarrow> delay_order s dropped K)"
  using assms by (auto simp: delay_inv_def)

lemma delay_invI:
  assumes "vd_inv M (db_queue (dbs_db s))" "clk_range (db_clock (dbs_db s)) \<le> SC_CLOCK_RANGE"
    "clk_range (db_clock (dbs_db s)) = 0 \<Longrightarrow> filter is_frame (dbs_accepted s) = []"
    "dbs_pc s = Db_waiting \<Longrightarrow> \<not> db_stopped (dbs_db s) \<and> live (dbs_db s) = []"
    "dbs_pc s = Db_ended \<Longrightarrow> db_stopped (dbs_db s)"
    "dbs_pc s \<noteq> Db_sending (Delayed_frame None)"
    "\<And>f m d. dbs_pc s = Db_delaying f m d \<Longrightarrow> d \<le> m \<and> m \<le> dbs_now s + db_delay (dbs_db s)"
    "\<And>f. dbs_direct s = Some f \<Longrightarrow> db_first_frame_asap (dbs_db s) \<and>
       filter is_frame (dbs_accepted s) = [Delayed_frame (Some f)]"
    "dbs_pc s \<noteq> Db_ended \<Longrightarrow> dropped = []"
    "\<And>K. ordered_kind (db_first_frame_asap (dbs_db s)) K \<Longrightarrow> delay_order s dropped K"
  shows "delay_inv M s"
  using assms by (auto simp: delay_inv_def)

lemma clock_range_update: "clk_range c \<le> SC_CLOCK_RANGE \<Longrightarrow>
    clk_range (sc_clock_update c system stream) = min SC_CLOCK_RANGE (Suc (clk_range c))"
  using clock_update_between(3) [of "system - stream" system stream "system - stream" "c\<lparr>clk_offset := system - stream\<rparr>"]
  by (simp add: sc_clock_update_def Let_def)

lemma delay_push_spec:
  assumes "vd_inv M (db_queue db)" "clk_range (db_clock db) \<le> SC_CLOCK_RANGE"
    "sc_delay_buffer_frame_sink_push alloc M frame_ok now db frame = Some (db', res)"
  shows "vd_inv M (db_queue db') \<and> db_delay db' = db_delay db \<and> db_stopped db' = db_stopped db \<and>
    db_first_frame_asap db' = db_first_frame_asap db \<and>
    live db' = live db @ (if res = Push_queued then [Delayed_frame (Some frame)] else []) \<and>
    (res = Push_stopped \<longleftrightarrow> db_stopped db) \<and>
    clk_range (db_clock db') = (if res = Push_stopped then clk_range (db_clock db)
      else min SC_CLOCK_RANGE (Suc (clk_range (db_clock db)))) \<and>
    (res = Push_direct \<longrightarrow> db_first_frame_asap db \<and> clk_range (db_clock db) = 0)"
proof (cases "db_stopped db")
  case True
  with assms show ?thesis by (auto simp: sc_delay_buffer_frame_sink_push_def live_def)
next
  case False
  let ?c = "sc_clock_update (db_clock db) now (av_pts frame)"
  let ?x = "Delayed_frame (if frame_ok then Some frame else None)"
  note r = clock_range_update [OF assms(2), of now "av_pts frame"]
  show ?thesis
  proof (cases "db_first_frame_asap db \<and> clk_range ?c = 1")
    case True
    with r have "clk_range (db_clock db) = 0" by (auto simp: SC_CLOCK_RANGE_def min_def split: if_splits)
    with True False assms(1,3) r show ?thesis
      by (auto simp: sc_delay_buffer_frame_sink_push_def live_def)
  next
    case n: False
    from push_vecdeque_spec [OF assms(1), of alloc ?x] obtain queue ok where
      q: "sc_vecdeque_push alloc M (db_queue db) ?x = Some (queue, ok)" "vd_inv M queue"
        "vd_content queue = (if ok then vd_content (db_queue db) @ [?x] else vd_content (db_queue db))"
      by blast
    from n False q(1) assms(3) have
      "db' = db\<lparr>db_clock := ?c, db_queue := queue\<rparr>" "res = (if ok \<and> frame_ok then Push_queued else Push_no_memory)"
      by (auto simp: sc_delay_buffer_frame_sink_push_def)
    with q(2,3) False r show ?thesis by (cases ok; cases frame_ok) (auto simp: live_def)
  qed
qed

lemma delay_push_session_spec:
  assumes "vd_inv M (db_queue db)"
    "sc_delay_buffer_frame_sink_push_session alloc M db session = Some (db', res)"
  shows "vd_inv M (db_queue db') \<and> db_delay db' = db_delay db \<and> db_stopped db' = db_stopped db \<and>
    db_first_frame_asap db' = db_first_frame_asap db \<and> db_clock db' = db_clock db \<and>
    live db' = live db @ (if res = Push_queued then [Delayed_session session] else []) \<and>
    (db_stopped db \<longrightarrow> res = Push_stopped)"
proof (cases "db_stopped db")
  case True
  with assms show ?thesis by (auto simp: sc_delay_buffer_frame_sink_push_session_def)
next
  case False
  from push_vecdeque_spec [OF assms(1), of alloc "Delayed_session session"] obtain queue ok where
    q: "sc_vecdeque_push alloc M (db_queue db) (Delayed_session session) = Some (queue, ok)" "vd_inv M queue"
      "vd_content queue = (if ok then vd_content (db_queue db) @ [Delayed_session session]
        else vd_content (db_queue db))" by blast
  with False assms(2) show ?thesis
    by (cases ok) (auto simp: sc_delay_buffer_frame_sink_push_session_def live_def)
qed

lemma delay_deadline_le:
  "delay_deadline db f m = Some d \<Longrightarrow> d \<le> m"
  by (auto simp: delay_deadline_def Let_def split: bind_splits if_splits)

lemma deadline_defined:
  "clk_range (db_clock db) \<noteq> 0 \<Longrightarrow> \<exists>d. delay_deadline db f m = Some d"
  by (simp add: delay_deadline_def sc_clock_to_system_time_def Let_def)

lemma delay_take_spec:
  assumes "vd_inv M (db_queue db)" "delay_take now db = Some (pc, db')"
  shows "vd_inv M (db_queue db') \<and> db_delay db' = db_delay db \<and> db_stopped db' = db_stopped db \<and>
    db_first_frame_asap db' = db_first_frame_asap db \<and> db_clock db' = db_clock db \<and>
    in_flight pc @ live db' = live db \<and> pc \<noteq> Db_sending (Delayed_frame None) \<and>
    (pc = Db_waiting \<longrightarrow> \<not> db_stopped db \<and> live db = []) \<and> (pc = Db_ended \<longrightarrow> db_stopped db) \<and>
    (\<forall>f m d. pc = Db_delaying f m d \<longrightarrow> d \<le> m \<and> m \<le> now + db_delay db)"
proof (cases "db_stopped db \<or> vd_content (db_queue db) = []")
  case True
  with assms show ?thesis
    by (auto simp: delay_take_def vd_content_empty [symmetric] live_def split: if_splits)
next
  case False
  then obtain p ps where c: "vd_content (db_queue db) = p # ps" by (auto simp: neq_Nil_conv)
  then have ne: "\<not> sc_vecdeque_is_empty (db_queue db)" by (metis vd_content_empty list.distinct(1))
  from pop_vecdeque_spec [OF assms(1) c] obtain queue where
    q: "sc_vecdeque_pop (db_queue db) = Some (p, queue)" "vd_inv M queue" "vd_content queue = ps" by blast
  with False ne assms(2) c show ?thesis
    by (cases p) (auto simp: delay_take_def live_def Let_def dest: delay_deadline_le split: option.splits bind_splits)
qed

lemma delay_wake_spec:
  assumes "delay_wake timed_out db f m = Some pc"
  shows "pc = Db_ended \<and> db_stopped db \<or> pc = Db_sending (Delayed_frame (Some f)) \<or>
    (\<exists>d. pc = Db_delaying f m d \<and> d \<le> m)"
  using assms by (auto simp: delay_wake_def dest: delay_deadline_le split: if_splits bind_splits)

lemma filter_frames_empty:
  "filter is_frame xs = [] \<Longrightarrow> \<forall>p. K p \<longrightarrow> is_frame p \<Longrightarrow> filter K xs = []"
  by (auto simp: filter_empty_conv)

text \<open>Nothing is in the way of the frame that is not delayed.\<close>

lemma direct_order:
  assumes "ordered_kind True K" "filter is_frame A = []" "filter is_frame A = filter is_frame (D @ R)"
    "filter K A = filter K (D @ R)"
  shows "filter K (A @ [Delayed_frame f]) = filter K (D @ [Delayed_frame f] @ R)"
proof (cases "K (Delayed_frame f)")
  case True
  with assms(1) have "\<forall>p. K p \<longrightarrow> is_frame p" by (auto simp: ordered_kind_def)
  with assms(2,3) have "filter K A = []" "filter K D = []" "filter K R = []"
    using filter_frames_empty by (metis append_is_Nil_conv filter_append)+
  then show ?thesis by simp
next
  case False
  with assms(4) show ?thesis by simp
qed

lemma delay_inv_step:
  assumes "delay_step M s s'" "delay_inv M s"
  shows "delay_inv M s'"
proof -
  note inv = delay_invD [OF assms(2)]
  from inv(9) obtain dropped where dr: "dbs_pc s \<noteq> Db_ended \<Longrightarrow> dropped = []"
    and ord: "\<And>K. ordered_kind (db_first_frame_asap (dbs_db s)) K \<Longrightarrow> delay_order s dropped K" by blast
  have frames: "ordered_kind asap is_frame" for asap by (simp add: ordered_kind_def)
  from assms(1) show ?thesis
  proof (cases rule: delay_step.cases)
    case (tick t)
    show ?thesis
    proof (rule delay_invI [of _ _ dropped])
      show "d \<le> m \<and> m \<le> dbs_now s' + db_delay (dbs_db s')" if "dbs_pc s' = Db_delaying f m d" for f m d
        using that tick inv(7) [of f m d] by auto
    qed (use tick inv dr ord in \<open>auto simp: delay_order_def direct_frame_def\<close>)
  next
    case (push alloc frame_ok frame db res)
    from delay_push_spec [OF inv(1,2) push(3)]
    have p: "vd_inv M (db_queue db)" "db_delay db = db_delay (dbs_db s)"
      "db_stopped db = db_stopped (dbs_db s)" "db_first_frame_asap db = db_first_frame_asap (dbs_db s)"
      "live db = live (dbs_db s) @ (if res = Push_queued then [Delayed_frame (Some frame)] else [])"
      "res = Push_stopped \<longleftrightarrow> db_stopped (dbs_db s)"
      "clk_range (db_clock db) = (if res = Push_stopped then clk_range (db_clock (dbs_db s))
        else min SC_CLOCK_RANGE (Suc (clk_range (db_clock (dbs_db s)))))"
      "res = Push_direct \<Longrightarrow> db_first_frame_asap (dbs_db s) \<and> clk_range (db_clock (dbs_db s)) = 0"
      by blast+
    show ?thesis
    proof (rule delay_invI [of _ _ dropped])
      fix K assume "ordered_kind (db_first_frame_asap (dbs_db s')) K"
      then have K: "ordered_kind (db_first_frame_asap (dbs_db s)) K" using push(1) p(4) by simp
      show "delay_order s' dropped K"
      proof (cases "res = Push_direct")
        case True
        with p(8) inv(3) have a: "filter is_frame (dbs_accepted s) = []" "ordered_kind True K"
          using K by auto
        let ?R = "dropped @ in_flight (dbs_pc s) @ live (dbs_db s)"
        from ord [OF frames] ord [OF K] push(2) have
          "filter is_frame (dbs_accepted s) = filter is_frame (dbs_delivered s @ ?R)"
          "filter K (dbs_accepted s) = filter K (dbs_delivered s @ ?R)"
          by (simp_all add: delay_order_def direct_frame_def)
        from direct_order [OF a(2,1) this, of "Some frame"] True p(5) show ?thesis
          unfolding push(1) by (simp add: delay_order_def direct_frame_def queue_signal_def)
      next
        case False
        with ord [OF K] push(2) p(5) show ?thesis
          unfolding push(1) by (auto simp: delay_order_def direct_frame_def queue_signal_def)
      qed
    next
      show "clk_range (db_clock (dbs_db s')) = 0 \<Longrightarrow> filter is_frame (dbs_accepted s') = []"
        using push(1) p(7) inv(3) by (auto simp: SC_CLOCK_RANGE_def min_def split: if_splits)
      show "clk_range (db_clock (dbs_db s')) \<le> SC_CLOCK_RANGE" using push(1) p(7) inv(2) by auto
      show "dbs_direct s' = Some f \<Longrightarrow> db_first_frame_asap (dbs_db s') \<and>
        filter is_frame (dbs_accepted s') = [Delayed_frame (Some f)]" for f
        using push(1) p(4,8) inv(3) by (auto split: if_splits)
      show "dbs_pc s' = Db_delaying f m d \<Longrightarrow> d \<le> m \<and> m \<le> dbs_now s' + db_delay (dbs_db s')" for f m d
        using push(1) p(2) inv(7) [of f m d] by (auto simp: queue_signal_def split: if_splits)
      show "dbs_pc s' = Db_waiting \<Longrightarrow> \<not> db_stopped (dbs_db s') \<and> live (dbs_db s') = []"
        using push(1) p(3,5) inv(4) by (auto simp: queue_signal_def split: if_splits)
      show "dbs_pc s' \<noteq> Db_ended \<Longrightarrow> dropped = []"
        using dr push(1) by (auto simp: queue_signal_def split: if_splits)
    qed (use push(1) p(1,3) inv(5,6) in \<open>auto simp: queue_signal_def split: if_splits\<close>)
  next
    case (direct frame)
    have "delay_order s' dropped K" if "ordered_kind (db_first_frame_asap (dbs_db s)) K" for K
      using ord [OF that] direct by (auto simp: delay_order_def direct_frame_def)
    then show ?thesis
      by (intro delay_invI [of _ _ dropped]) (use direct inv(1-7) dr in auto)
  next
    case (push_session alloc session db res)
    from delay_push_session_spec [OF inv(1) push_session(3)]
    have p: "vd_inv M (db_queue db)" "db_delay db = db_delay (dbs_db s)"
      "db_stopped db = db_stopped (dbs_db s)" "db_first_frame_asap db = db_first_frame_asap (dbs_db s)"
      "db_clock db = db_clock (dbs_db s)"
      "live db = live (dbs_db s) @ (if res = Push_queued then [Delayed_session session] else [])"
      "db_stopped (dbs_db s) \<Longrightarrow> res = Push_stopped"
      by blast+
    show ?thesis
    proof (rule delay_invI [of _ _ dropped])
      fix K assume "ordered_kind (db_first_frame_asap (dbs_db s')) K"
      then have K: "ordered_kind (db_first_frame_asap (dbs_db s)) K" using push_session(1) p(4) by simp
      from ord [OF K] p(6) show "delay_order s' dropped K"
        unfolding push_session(1) by (auto simp: delay_order_def direct_frame_def queue_signal_def)
    next
      show "dbs_pc s' = Db_delaying f m d \<Longrightarrow> d \<le> m \<and> m \<le> dbs_now s' + db_delay (dbs_db s')" for f m d
        using push_session(1) p(2) inv(7) [of f m d] by (auto simp: queue_signal_def split: if_splits)
      show "dbs_pc s' = Db_waiting \<Longrightarrow> \<not> db_stopped (dbs_db s') \<and> live (dbs_db s') = []"
        using push_session(1) p(3,6) inv(4) by (auto simp: queue_signal_def split: if_splits)
      show "dbs_pc s' \<noteq> Db_ended \<Longrightarrow> dropped = []"
        using dr push_session(1) by (auto simp: queue_signal_def split: if_splits)
    qed (use push_session(1,2) p(1,3,5) inv(2,3,5,6) in \<open>auto simp: queue_signal_def split: if_splits\<close>)
  next
    case close
    have "delay_order s' dropped K" if "ordered_kind (db_first_frame_asap (dbs_db s)) K" for K
      using ord [OF that] close by (auto simp: delay_order_def direct_frame_def queue_signal_def
          delay_buffer_stop_def live_def)
    then show ?thesis
      by (intro delay_invI [of _ _ dropped])
        (use close inv(1-7) dr in \<open>auto simp: queue_signal_def delay_buffer_stop_def split: if_splits\<close>)
  next
    case (take pc db)
    from delay_take_spec [OF inv(1) take(3)] have p: "vd_inv M (db_queue db)" "db_delay db = db_delay (dbs_db s)"
      "db_stopped db = db_stopped (dbs_db s)" "db_first_frame_asap db = db_first_frame_asap (dbs_db s)"
      "db_clock db = db_clock (dbs_db s)" "in_flight pc @ live db = live (dbs_db s)"
      "pc \<noteq> Db_sending (Delayed_frame None)"
      "pc = Db_waiting \<Longrightarrow> \<not> db_stopped (dbs_db s) \<and> live (dbs_db s) = []" "pc = Db_ended \<Longrightarrow> db_stopped (dbs_db s)"
      "\<And>f m d. pc = Db_delaying f m d \<Longrightarrow> d \<le> m \<and> m \<le> dbs_now s + db_delay (dbs_db s)" by blast+
    have "delay_order s' dropped K" if "ordered_kind (db_first_frame_asap (dbs_db s)) K" for K
      using ord [OF that] take(2) p(6) [symmetric] unfolding take(1)
      by (simp add: delay_order_def direct_frame_def)
    moreover have "pc = Db_waiting \<Longrightarrow> live db = []" using p(6,8) by auto
    ultimately show ?thesis
      by (intro delay_invI [of _ _ dropped]) (use take(1,2) p inv(2,3,8) dr in auto)
  next
    case spurious
    have "delay_order s' dropped K" if "ordered_kind (db_first_frame_asap (dbs_db s)) K" for K
      using ord [OF that] spurious by (auto simp: delay_order_def direct_frame_def)
    then show ?thesis
      by (intro delay_invI [of _ _ dropped]) (use spurious inv(1-3,8) dr in auto)
  next
    case (wake frame m d timed_out pc)
    note p = delay_wake_spec [OF wake(4)]
    let ?dropped = "if pc = Db_ended then dropped @ [Delayed_frame (Some frame)] else dropped"
    have "delay_order s' ?dropped K" if "ordered_kind (db_first_frame_asap (dbs_db s)) K" for K
      using ord [OF that] wake(2) p unfolding wake(1) by (auto simp: delay_order_def direct_frame_def)
    moreover have "dbs_pc s' \<noteq> Db_ended \<Longrightarrow> ?dropped = []" using dr wake(1,2) by auto
    ultimately show ?thesis
      by (intro delay_invI [of _ _ ?dropped])
        (use wake(1,2) p inv(1-3,8) inv(7) [OF wake(2)] in auto)
  next
    case (send dpacket ok pc db)
    have db: "db = dbs_db s\<lparr>db_stopped := db_stopped db\<rparr>" "pc \<in> {Db_at_lock, Db_ended}"
      "pc = Db_ended \<Longrightarrow> db_stopped db"
      using send(3) by (auto simp: delay_sent_def split: if_splits)
    have "dropped = []" using dr send(2) by simp
    have "delay_order s' dropped K" if K: "ordered_kind (db_first_frame_asap (dbs_db s)) K" for K
    proof -
      have "filter K (direct_frame s @ [dpacket]) = filter K ([dpacket] @ direct_frame s)"
      proof (cases "dbs_direct s")
        case (Some f)
        from inv(8) [OF Some] have a: "db_first_frame_asap (dbs_db s)"
          "filter is_frame (dbs_accepted s) = [Delayed_frame (Some f)]" by auto
        from ord [OF frames] a(2) Some send(2) have "\<not> is_frame dpacket"
          by (auto simp: delay_order_def direct_frame_def append_eq_Cons_conv split: if_splits)
        with K a(1) Some show ?thesis by (auto simp: ordered_kind_def direct_frame_def)
      qed (simp add: direct_frame_def)
      moreover have "live db = live (dbs_db s)" using db(1) by (metis live_def sc_delay_buffer.select_convs(4)
            sc_delay_buffer.surjective sc_delay_buffer.update_convs(5))
      moreover have "in_flight pc = []" using db(2) by auto
      ultimately show ?thesis
        using ord [OF K] send(2) \<open>dropped = []\<close> unfolding send(1)
        by (cases "K dpacket") (simp_all add: delay_order_def direct_frame_def)
    qed
    moreover have "db_queue db = db_queue (dbs_db s)" "db_clock db = db_clock (dbs_db s)"
      "db_first_frame_asap db = db_first_frame_asap (dbs_db s)" by (subst db(1), simp)+
    ultimately show ?thesis
      by (intro delay_invI [of _ _ dropped])
        (use send(1,2) db(2,3) inv(1-3,8) \<open>dropped = []\<close> in auto)
  qed
qed

lemma delay_reachable_inv:
  assumes "delay_reachable M s" "M \<le> SIZE_MAX div 2"
  shows "delay_inv M s"
  using assms(1)
proof induction
  case (start delay asap db now)
  note vd_init [OF assms(2), where 'a = sc_delayed_packet]
  with start show ?case
    by (intro delay_invI [of _ _ "[]"]) (auto simp: sc_delay_buffer_init_def sc_clock_init_def delay_order_def
        direct_frame_def live_def bind_eq_Some_conv)
next
  case (step s s')
  then show ?case using delay_inv_step by blast
qed

text \<open>A frame that is queued or in flight was accepted, so the clock has been updated.\<close>

lemma frame_clock:
  assumes "delay_inv M s" "Delayed_frame (Some f) \<in> set (in_flight (dbs_pc s) @ live (dbs_db s))"
  shows "clk_range (db_clock (dbs_db s)) \<noteq> 0"
proof
  assume "clk_range (db_clock (dbs_db s)) = 0"
  with delay_invD(3) [OF assms(1)] have "filter is_frame (dbs_accepted s) = []" by simp
  moreover obtain dropped where "delay_order s dropped is_frame"
    using delay_invD(9) [OF assms(1)] by (auto simp: ordered_kind_def)
  ultimately have "filter is_frame (in_flight (dbs_pc s) @ live (dbs_db s)) = []"
    unfolding delay_order_def by (metis append_is_Nil_conv filter_append)
  with assms(2) show False by (auto simp: filter_empty_conv)
qed

section \<open>Properties\<close>


text \<open>
  The buffering thread aborts only on a frame that could not be allocated: with no such frame in the queue, it
  can always take its next step.
\<close>

theorem delay_buffer_never_aborts:
  assumes "delay_reachable M s" "M \<le> SIZE_MAX div 2"
    "Delayed_frame None \<notin> set (vd_content (db_queue (dbs_db s)))"
  shows "delay_take (dbs_now s) (dbs_db s) \<noteq> None \<and>
    (\<forall>f m d. dbs_pc s = Db_delaying f m d \<longrightarrow> delay_wake timed_out (dbs_db s) f m \<noteq> None)"
proof
  note inv0 = delay_reachable_inv [OF assms(1,2)]
  note inv = delay_invD [OF inv0]
  let ?db = "dbs_db s"
  show "delay_take (dbs_now s) ?db \<noteq> None"
  proof (cases "db_stopped ?db \<or> vd_content (db_queue ?db) = []")
    case True
    then show ?thesis by (auto simp: delay_take_def vd_content_empty [symmetric])
  next
    case False
    then obtain p ps where c: "vd_content (db_queue ?db) = p # ps" by (auto simp: neq_Nil_conv)
    from pop_vecdeque_spec [OF inv(1) c] obtain queue where
      q: "sc_vecdeque_pop (db_queue ?db) = Some (p, queue)" by blast
    have clk: "clk_range (db_clock ?db) \<noteq> 0" if "p = Delayed_frame (Some f)" for f
      using frame_clock [OF inv0, of f] c that by (simp add: live_def)
    have "p \<noteq> Delayed_frame None" using assms(3) c by auto
    then consider f where "p = Delayed_frame (Some f)" | session where "p = Delayed_session session"
      by (metis not_None_eq sc_delayed_packet.exhaust)
    then show ?thesis
      by cases (use False c q clk in \<open>auto simp: delay_take_def vd_content_empty [symmetric]
          delay_deadline_def sc_clock_to_system_time_def Let_def\<close>)
  qed
  show "\<forall>f m d. dbs_pc s = Db_delaying f m d \<longrightarrow> delay_wake timed_out ?db f m \<noteq> None"
  proof (intro allI impI)
    fix f m d assume "dbs_pc s = Db_delaying f m d"
    with frame_clock [OF inv0, of f] deadline_defined [of ?db f m]
    show "delay_wake timed_out ?db f m \<noteq> None" by (auto simp: delay_wake_def)
  qed
qed

lemma push_init:
  "\<exists>q. sc_vecdeque_push (\<lambda>_. True) 100 sc_vecdeque_init x = Some (q, True) \<and> vd_inv 100 q \<and> vd_content q = [x]"
proof -
  have M: "(100 :: nat) \<le> SIZE_MAX div 2" by (simp add: SIZE_MAX_def)
  obtain q where q: "sc_vecdeque_push (\<lambda>_. True) 100 sc_vecdeque_init x = Some (q, True)"
    by (simp add: sc_vecdeque_push_def sc_vecdeque_grow_if_needed_def sc_vecdeque_is_full_def
        sc_vecdeque_init_def sc_vecdeque_grow_def sc_vecdeque_growsize_def SC_VECDEQUE_MINCAP_def
        sz_clamp_def sc_vecdeque_reallocdata_def sc_vecdeque_push_noresize_def
        sc_vecdeque_push_uninitialized_noresize_def Let_def)
  with push_vecdeque_spec [OF conjunct1 [OF vd_init [OF M]], of "\<lambda>_. True" x] vd_init [OF M, where 'a = 'a]
  show ?thesis by auto
qed

definition example_db :: "bool \<Rightarrow> sc_delay_buffer" where
  "example_db asap = \<lparr>db_delay = 50, db_first_frame_asap = asap, db_clock = sc_clock_init,
     db_queue = sc_vecdeque_init, db_stopped = False\<rparr>"

definition example_start :: "bool \<Rightarrow> delay_system" where
  "example_start asap = \<lparr>dbs_db = example_db asap, dbs_pc = Db_at_lock, dbs_direct = None, dbs_now = 0,
     dbs_accepted = [], dbs_delivered = []\<rparr>"

lemma example_reachable: "delay_reachable 100 (example_start asap)"
  unfolding example_start_def
  by (rule delay_reachable.start [of 50 asap]) (simp add: sc_delay_buffer_init_def example_db_def)

text \<open>A frame that is delayed, and is then waiting for its date.\<close>

lemma delayed_example:
  "\<exists>s. delay_reachable 100 s \<and> dbs_pc s = Db_delaying f 50 50 \<and> dbs_accepted s = [Delayed_frame (Some f)] \<and>
    dbs_delivered s = [] \<and> \<not> db_first_frame_asap (dbs_db s) \<and> vd_content (db_queue (dbs_db s)) = []"
proof -
  from push_init [of "Delayed_frame (Some f)"] obtain q where
    q: "sc_vecdeque_push (\<lambda>_. True) 100 sc_vecdeque_init (Delayed_frame (Some f)) = Some (q, True)"
      "vd_inv 100 q" "vd_content q = [Delayed_frame (Some f)]" by blast
  let ?c = "sc_clock_update sc_clock_init 0 (av_pts f)"
  let ?db = "(example_db False)\<lparr>db_clock := ?c, db_queue := q\<rparr>"
  have c: "clk_range ?c = 1" "clk_offset ?c = - av_pts f"
    using clock_update_between [of "- av_pts f" 0 "av_pts f" "- av_pts f" sc_clock_init]
    by (simp_all add: sc_clock_init_def SC_CLOCK_RANGE_def)
  have "sc_delay_buffer_frame_sink_push (\<lambda>_. True) 100 True (dbs_now (example_start False)) (dbs_db (example_start False)) f = Some (?db, Push_queued)"
    using q(1) by (simp add: sc_delay_buffer_frame_sink_push_def example_start_def example_db_def)
  from delay_reachable.step [OF example_reachable delay_step.push [OF _ this]]
  have r: "delay_reachable 100 \<lparr>dbs_db = ?db, dbs_pc = Db_at_lock, dbs_direct = None, dbs_now = 0,
      dbs_accepted = [Delayed_frame (Some f)], dbs_delivered = []\<rparr>" (is "delay_reachable 100 ?s")
    by (simp add: example_start_def queue_signal_def)
  from pop_vecdeque_spec [OF q(2,3)] obtain q' where q': "sc_vecdeque_pop q = Some (Delayed_frame (Some f), q')"
    "vd_content q' = []" by blast
  have "delay_take (dbs_now ?s) (dbs_db ?s) = Some (Db_delaying f 50 50, ?db\<lparr>db_queue := q'\<rparr>)"
    using q(3) q' c by (simp add: delay_take_def vd_content_empty [symmetric] delay_deadline_def
        sc_clock_to_system_time_def example_db_def)
  from delay_reachable.step [OF r delay_step.take [OF _ this]] q' show ?thesis
    by (intro exI conjI) (assumption | simp add: example_db_def)+
qed


lemma delay_buffer_never_aborts_witness:
  "\<forall>f. \<exists>s. delay_reachable 100 s \<and> dbs_pc s = Db_delaying f 50 50 \<and> delay_wake True (dbs_db s) f 50 \<noteq> None" (is "\<forall>f. ?P f")
proof
  fix f
  obtain s where s: "delay_reachable 100 s" "dbs_pc s = Db_delaying f 50 50"
    "vd_content (db_queue (dbs_db s)) = []" using delayed_example by blast
  have "(100 :: nat) \<le> SIZE_MAX div 2" by (simp add: SIZE_MAX_def)
  from delay_buffer_never_aborts [OF s(1) this, of True] s show "?P f" by auto
qed

text \<open>
  A copy of a frame that cannot be allocated leaves its cell in the queue: the thread then reads the time of a
  null frame.
\<close>

theorem delay_buffer_null_frame:
  "\<exists>s. delay_reachable 100 s \<and> dbs_pc s = Db_at_lock \<and> delay_take (dbs_now s) (dbs_db s) = None"
proof -
  fix f :: av_frame
  from push_init [of "Delayed_frame None"] obtain q where
    q: "sc_vecdeque_push (\<lambda>_. True) 100 sc_vecdeque_init (Delayed_frame None) = Some (q, True)"
      "vd_inv 100 q" "vd_content q = [Delayed_frame None]" by blast
  let ?db = "(example_db False)\<lparr>db_clock := sc_clock_update sc_clock_init 0 (av_pts f), db_queue := q\<rparr>"
  have "sc_delay_buffer_frame_sink_push (\<lambda>_. True) 100 False (dbs_now (example_start False)) (dbs_db (example_start False)) f =
      Some (?db, Push_no_memory)"
    using q(1) by (simp add: sc_delay_buffer_frame_sink_push_def example_start_def example_db_def)
  from delay_reachable.step [OF example_reachable delay_step.push [OF _ this]]
  have r: "delay_reachable 100 \<lparr>dbs_db = ?db, dbs_pc = Db_at_lock, dbs_direct = None, dbs_now = 0,
      dbs_accepted = [], dbs_delivered = []\<rparr>" (is "delay_reachable 100 ?s")
    by (simp add: example_start_def queue_signal_def)
  from pop_vecdeque_spec [OF q(2,3)] obtain q' where "sc_vecdeque_pop q = Some (Delayed_frame None, q')" by blast
  with q(3) have "delay_take (dbs_now ?s) (dbs_db ?s) = None"
    by (simp add: delay_take_def vd_content_empty [symmetric] example_db_def)
  with r show ?thesis by (intro exI [of _ ?s]) simp
qed

text \<open>The first frame, which is not delayed, overtakes a session that was accepted before it.\<close>

theorem first_frame_overtakes_session:
  "\<exists>s. delay_reachable 100 s \<and>
    dbs_accepted s = [Delayed_session session, Delayed_frame (Some f)] \<and>
    dbs_delivered s = [Delayed_frame (Some f), Delayed_session session]"
proof -
  from push_init [of "Delayed_session session"] obtain q where
    q: "sc_vecdeque_push (\<lambda>_. True) 100 sc_vecdeque_init (Delayed_session session) = Some (q, True)"
      "vd_inv 100 q" "vd_content q = [Delayed_session session]" by blast
  from pop_vecdeque_spec [OF q(2,3)] obtain q' where q': "sc_vecdeque_pop q = Some (Delayed_session session, q')"
    by blast
  let ?db = "(example_db True)\<lparr>db_queue := q\<rparr>"
  let ?c = "sc_clock_update sc_clock_init 0 (av_pts f)"
  have c: "clk_range ?c = 1"
    using clock_range_update [of sc_clock_init] by (simp add: sc_clock_init_def SC_CLOCK_RANGE_def)
  have 1: "sc_delay_buffer_frame_sink_push_session (\<lambda>_. True) 100 (dbs_db (example_start True)) session =
      Some (?db, Push_queued)"
    using q(1) by (simp add: sc_delay_buffer_frame_sink_push_session_def example_start_def example_db_def)
  from delay_reachable.step [OF example_reachable delay_step.push_session [OF _ 1]]
  have r1: "delay_reachable 100 \<lparr>dbs_db = ?db, dbs_pc = Db_at_lock, dbs_direct = None, dbs_now = 0,
      dbs_accepted = [Delayed_session session], dbs_delivered = []\<rparr>" (is "delay_reachable 100 ?s1")
    by (simp add: example_start_def queue_signal_def)
  have 2: "sc_delay_buffer_frame_sink_push (\<lambda>_. True) 100 True (dbs_now ?s1) (dbs_db ?s1) f =
      Some (?db\<lparr>db_clock := ?c\<rparr>, Push_direct)"
    using c by (simp add: sc_delay_buffer_frame_sink_push_def example_db_def)
  from delay_reachable.step [OF r1 delay_step.push [OF _ 2]]
  have r2: "delay_reachable 100 \<lparr>dbs_db = ?db\<lparr>db_clock := ?c\<rparr>, dbs_pc = Db_at_lock, dbs_direct = Some f, dbs_now = 0,
      dbs_accepted = [Delayed_session session, Delayed_frame (Some f)], dbs_delivered = []\<rparr>"
    by (simp add: queue_signal_def)
  from delay_reachable.step [OF r2 delay_step.direct [of _ f]]
  have r3: "delay_reachable 100 \<lparr>dbs_db = ?db\<lparr>db_clock := ?c\<rparr>, dbs_pc = Db_at_lock, dbs_direct = None, dbs_now = 0,
      dbs_accepted = [Delayed_session session, Delayed_frame (Some f)],
      dbs_delivered = [Delayed_frame (Some f)]\<rparr>" (is "delay_reachable 100 ?s3")
    by simp
  have 4: "delay_take (dbs_now ?s3) (dbs_db ?s3) =
      Some (Db_sending (Delayed_session session), ?db\<lparr>db_clock := ?c, db_queue := q'\<rparr>)"
    using q(3) q' by (simp add: delay_take_def vd_content_empty [symmetric] example_db_def)
  from delay_reachable.step [OF r3 delay_step.take [OF _ 4]]
  have r4: "delay_reachable 100 \<lparr>dbs_db = ?db\<lparr>db_clock := ?c, db_queue := q'\<rparr>,
      dbs_pc = Db_sending (Delayed_session session), dbs_direct = None, dbs_now = 0,
      dbs_accepted = [Delayed_session session, Delayed_frame (Some f)],
      dbs_delivered = [Delayed_frame (Some f)]\<rparr>" (is "delay_reachable 100 ?s4")
    by simp
  from delay_reachable.step [OF r4 delay_step.send [of _ _ True]] show ?thesis
    by (fastforce simp: delay_sent_def)
qed

end
