(* ===== verification/Sc_Timers.thy ===== *)
theory Sc_Timers
  imports Sc_Prelude
begin

text \<open>
  The small components that count and wait: \<open>util/average.c\<close>, \<open>fps_counter.c\<close>, \<open>util/timeout.c\<close> and
  \<open>disconnect.c\<close>. Floats are rationals, dates are microseconds.
\<close>

section \<open>Rolling average\<close>

record sc_average =
  avg_avg :: rat
  avg_range :: nat
  avg_count :: nat

definition sc_average_init :: "nat \<Rightarrow> sc_average" where
  "sc_average_init rng = \<lparr>avg_avg = 0, avg_range = rng, avg_count = 0\<rparr>"

definition sc_average_push :: "sc_average \<Rightarrow> rat \<Rightarrow> sc_average option" where
  "sc_average_push avg value = do {
     let avg = (if avg_count avg < avg_range avg then avg\<lparr>avg_count := avg_count avg + 1\<rparr> else avg);
     c_assert (avg_count avg \<noteq> 0);
     Some (avg\<lparr>avg_avg := (of_nat (avg_count avg - 1) * avg_avg avg + value) / of_nat (avg_count avg)\<rparr>)
   }"

definition sc_average_get :: "sc_average \<Rightarrow> rat option" where
  "sc_average_get avg = do {
     c_assert (avg_count avg \<noteq> 0);
     Some (avg_avg avg)
   }"

fun average_pushes :: "sc_average \<Rightarrow> rat list \<Rightarrow> sc_average option" where
  "average_pushes avg [] = Some avg"
| "average_pushes avg (v # vs) = do {
     avg \<leftarrow> sc_average_push avg v;
     average_pushes avg vs
   }"

text \<open>While no more values than the range were pushed, their sum is what the average stands for.\<close>

lemma average_exact:
  "avg_count avg + length vs \<le> avg_range avg \<Longrightarrow>
    \<exists>avg'. average_pushes avg vs = Some avg' \<and> avg_range avg' = avg_range avg \<and>
      avg_count avg' = avg_count avg + length vs \<and>
      of_nat (avg_count avg') * avg_avg avg' = of_nat (avg_count avg) * avg_avg avg + sum_list vs"
proof (induction vs arbitrary: avg)
  case (Cons v vs)
  let ?avg = "avg\<lparr>avg_count := avg_count avg + 1,
    avg_avg := (of_nat (avg_count avg) * avg_avg avg + v) / of_nat (avg_count avg + 1)\<rparr>"
  from Cons.prems have "sc_average_push avg v = Some ?avg"
    by (simp add: sc_average_push_def)
  moreover have "of_nat (avg_count ?avg) * avg_avg ?avg = of_nat (avg_count avg) * avg_avg avg + v"
    by (simp del: of_nat_Suc)
  ultimately show ?case using Cons.IH [of ?avg] Cons.prems by (simp add: add.assoc)
qed simp

text \<open>Afterwards it stays between the bounds of the values.\<close>

lemma average_between:
  assumes "0 < avg_range avg" "lo \<le> v" "v \<le> hi"
    "avg_count avg \<noteq> 0 \<Longrightarrow> lo \<le> avg_avg avg \<and> avg_avg avg \<le> hi"
  shows "\<exists>avg'. sc_average_push avg v = Some avg' \<and> avg_range avg' = avg_range avg \<and> avg_count avg' \<noteq> 0 \<and>
    lo \<le> avg_avg avg' \<and> avg_avg avg' \<le> hi"
proof -
  obtain n where n: "(if avg_count avg < avg_range avg then avg_count avg + 1 else avg_count avg) = Suc n"
    using assms(1) by (cases "avg_count avg < avg_range avg"; cases "avg_count avg") auto
  let ?a = "(of_nat n * avg_avg avg + v) / of_nat (Suc n)"
  from n have p: "sc_average_push avg v = Some (avg\<lparr>avg_count := Suc n, avg_avg := ?a\<rparr>)"
    by (auto simp: sc_average_push_def Let_def split: if_splits)
  have "lo * of_nat (Suc n) \<le> of_nat n * avg_avg avg + v \<and> of_nat n * avg_avg avg + v \<le> hi * of_nat (Suc n)"
  proof (cases "n = 0")
    case True
    with assms(2,3) show ?thesis by simp
  next
    case False
    with n have "avg_count avg \<noteq> 0" by (auto split: if_splits)
    with assms(4) have "of_nat n * lo \<le> of_nat n * avg_avg avg" "of_nat n * avg_avg avg \<le> of_nat n * hi"
      by (simp_all add: mult_left_mono)
    with assms(2,3) show ?thesis by (simp add: algebra_simps)
  qed
  then have "lo \<le> ?a" "?a \<le> hi" by (simp_all add: pos_le_divide_eq pos_divide_le_eq del: of_nat_Suc)
  with p show ?thesis by simp
qed

lemma averages_between:
  assumes "0 < avg_range avg" "\<forall>v \<in> set vs. lo \<le> v \<and> v \<le> hi"
    "avg_count avg \<noteq> 0 \<Longrightarrow> lo \<le> avg_avg avg \<and> avg_avg avg \<le> hi"
    "vs \<noteq> [] \<or> avg_count avg \<noteq> 0"
  shows "\<exists>avg'. average_pushes avg vs = Some avg' \<and> avg_count avg' \<noteq> 0 \<and> lo \<le> avg_avg avg' \<and> avg_avg avg' \<le> hi"
  using assms
proof (induction vs arbitrary: avg)
  case (Cons v vs)
  from average_between [OF Cons.prems(1) _ _ Cons.prems(3), of v] Cons.prems(2) obtain avg1 where
    "sc_average_push avg v = Some avg1" "avg_range avg1 = avg_range avg" "avg_count avg1 \<noteq> 0"
    "lo \<le> avg_avg avg1 \<and> avg_avg avg1 \<le> hi" by auto
  with Cons.IH [of avg1] Cons.prems show ?case by auto
qed auto

text \<open>
  The rolling average is the arithmetic mean while at most as many values as its range were pushed, and it
  never leaves the bounds of the values.
\<close>

theorem rolling_average:
  assumes "vs \<noteq> []" "0 < rng" "\<forall>v \<in> set vs. lo \<le> v \<and> v \<le> hi"
  shows "\<exists>avg a. average_pushes (sc_average_init rng) vs = Some avg \<and> sc_average_get avg = Some a \<and>
    lo \<le> a \<and> a \<le> hi \<and> (length vs \<le> rng \<longrightarrow> a = sum_list vs / of_nat (length vs))"
proof -
  from averages_between [of "sc_average_init rng" vs lo hi] assms obtain avg where
    a: "average_pushes (sc_average_init rng) vs = Some avg" "avg_count avg \<noteq> 0"
      "lo \<le> avg_avg avg" "avg_avg avg \<le> hi" by (auto simp: sc_average_init_def)
  have "avg_avg avg = sum_list vs / of_nat (length vs)" if "length vs \<le> rng"
  proof -
    from average_exact [of "sc_average_init rng" vs] that a(1)
    have "of_nat (length vs) * avg_avg avg = sum_list vs" by (auto simp: sc_average_init_def)
    with assms(1) show ?thesis by (simp add: eq_divide_eq mult.commute)
  qed
  with a show ?thesis by (simp add: sc_average_get_def)
qed

lemma rolling_average_witness:
  "\<exists>avg a. average_pushes (sc_average_init 3) [1, 2, 6] = Some avg \<and> sc_average_get avg = Some a \<and>
    1 \<le> a \<and> a \<le> 6 \<and> (length [1 :: rat, 2, 6] \<le> 3 \<longrightarrow> a = sum_list [1, 2, 6] / of_nat (length [1 :: rat, 2, 6]))"
  by (rule rolling_average) simp_all

section \<open>Frames per second\<close>

definition SC_FPS_COUNTER_INTERVAL :: int where
  "SC_FPS_COUNTER_INTERVAL = 1000000"

definition SC_TICK_FREQ :: int where
  "SC_TICK_FREQ = 1000000"

record sc_fps_counter =
  fps_thread_started :: bool
  fps_started :: bool
  fps_interrupted :: bool
  fps_nr_rendered :: u32
  fps_nr_skipped :: u32
  fps_next_timestamp :: int

text \<open>The fields that are not initialized are given.\<close>

definition sc_fps_counter_init :: "bool \<Rightarrow> bool \<Rightarrow> sc_fps_counter \<Rightarrow> bool \<times> sc_fps_counter" where
  "sc_fps_counter_init mutex_ok cond_ok counter =
     (if \<not> mutex_ok \<or> \<not> cond_ok then (False, counter)
      else (True, counter\<lparr>fps_thread_started := False, fps_started := False\<rparr>))"

text \<open>What is logged: the frames per second and the skipped frames. The product is one of 32-bit integers.\<close>

definition display_fps :: "sc_fps_counter \<Rightarrow> int \<times> u32" where
  "display_fps counter =
     (uint (fps_nr_rendered counter * word_of_int SC_TICK_FREQ) div SC_FPS_COUNTER_INTERVAL,
      fps_nr_skipped counter)"

definition check_interval_expired ::
    "sc_fps_counter \<Rightarrow> int \<Rightarrow> sc_fps_counter \<times> (int \<times> u32) option" where
  "check_interval_expired counter now =
     (if now < fps_next_timestamp counter then (counter, None)
      else
        (let report = display_fps counter;
             counter = counter\<lparr>fps_nr_rendered := 0, fps_nr_skipped := 0\<rparr>;
             elapsed_slices = (word_of_int (c_div (now - fps_next_timestamp counter) SC_FPS_COUNTER_INTERVAL + 1) :: u32)
         in (counter\<lparr>fps_next_timestamp := fps_next_timestamp counter +
               SC_FPS_COUNTER_INTERVAL * uint elapsed_slices\<rparr>, Some report)))"

text \<open>The part of \<open>start\<close> that holds the mutex.\<close>

definition fps_reset :: "int \<Rightarrow> sc_fps_counter \<Rightarrow> sc_fps_counter" where
  "fps_reset now counter = counter\<lparr>fps_interrupted := False,
     fps_next_timestamp := now + SC_FPS_COUNTER_INTERVAL, fps_nr_rendered := 0, fps_nr_skipped := 0\<rparr>"

text \<open>All of it, with whether a thread can be created.\<close>

definition sc_fps_counter_start :: "int \<Rightarrow> bool \<Rightarrow> sc_fps_counter \<Rightarrow> bool \<times> sc_fps_counter" where
  "sc_fps_counter_start now thread_ok counter =
     (let counter = (fps_reset now counter)\<lparr>fps_started := True\<rparr> in
      if \<not> fps_thread_started counter then
        if \<not> thread_ok then (False, counter) else (True, counter\<lparr>fps_thread_started := True\<rparr>)
      else (True, counter))"

definition sc_fps_counter_stop :: "sc_fps_counter \<Rightarrow> sc_fps_counter" where
  "sc_fps_counter_stop counter = counter\<lparr>fps_started := False\<rparr>"

definition sc_fps_counter_is_started :: "sc_fps_counter \<Rightarrow> bool" where
  "sc_fps_counter_is_started counter = fps_started counter"

definition sc_fps_counter_interrupt :: "sc_fps_counter \<Rightarrow> sc_fps_counter" where
  "sc_fps_counter_interrupt counter =
     (if \<not> fps_thread_started counter then counter else counter\<lparr>fps_interrupted := True\<rparr>)"

text \<open>Whether a thread is joined.\<close>

definition sc_fps_counter_join :: "sc_fps_counter \<Rightarrow> bool option" where
  "sc_fps_counter_join counter =
     (if fps_thread_started counter then do {
        c_assert (fps_interrupted counter);
        Some True
      } else Some False)"

definition sc_fps_counter_add_rendered_frame ::
    "int \<Rightarrow> sc_fps_counter \<Rightarrow> sc_fps_counter \<times> (int \<times> u32) option" where
  "sc_fps_counter_add_rendered_frame now counter =
     (if \<not> fps_started counter then (counter, None)
      else (let (counter, report) = check_interval_expired counter now
            in (counter\<lparr>fps_nr_rendered := fps_nr_rendered counter + 1\<rparr>, report)))"

definition sc_fps_counter_add_skipped_frame ::
    "int \<Rightarrow> sc_fps_counter \<Rightarrow> sc_fps_counter \<times> (int \<times> u32) option" where
  "sc_fps_counter_add_skipped_frame now counter =
     (if \<not> fps_started counter then (counter, None)
      else (let (counter, report) = check_interval_expired counter now
            in (counter\<lparr>fps_nr_skipped := fps_nr_skipped counter + 1\<rparr>, report)))"

lemma display_exact:
  assumes "uint (fps_nr_rendered counter) < 4295"
  shows "fst (display_fps counter) = uint (fps_nr_rendered counter)"
proof -
  have "uint (fps_nr_rendered counter * word_of_int SC_TICK_FREQ) = uint (fps_nr_rendered counter) * 1000000"
  proof -
    have "uint (fps_nr_rendered counter * 1000000) = (uint (fps_nr_rendered counter) * 1000000) mod 2 ^ 32"
      by (simp add: uint_word_ariths)
    also have "\<dots> = uint (fps_nr_rendered counter) * 1000000"
      by (rule mod_pos_pos_trivial) (use assms uint_nonnegative in auto)
    finally show ?thesis by (simp add: SC_TICK_FREQ_def)
  qed
  then show ?thesis by (simp add: display_fps_def SC_FPS_COUNTER_INTERVAL_def)
qed

lemma next_timestamp:
  assumes "fps_next_timestamp counter \<le> now" "now - fps_next_timestamp counter < 1000000 * (2 ^ 32 - 1)"
  defines "counter' \<equiv> fst (check_interval_expired counter now)"
  shows "now < fps_next_timestamp counter'" "fps_next_timestamp counter' \<le> now + SC_FPS_COUNTER_INTERVAL"
    "\<exists>k. fps_next_timestamp counter' = fps_next_timestamp counter + k * SC_FPS_COUNTER_INTERVAL"
proof -
  let ?d = "now - fps_next_timestamp counter"
  let ?e = "?d div 1000000 + 1"
  have e: "0 \<le> ?e" "?e < 2 ^ 32" using assms(1,2) by auto
  have "uint (word_of_int ?e :: u32) = ?e mod 2 ^ LENGTH(32)" by (rule uint_word_of_int)
  with e have u: "uint (word_of_int ?e :: u32) = ?e" by simp
  have c: "c_div ?d SC_FPS_COUNTER_INTERVAL = ?d div 1000000"
    using assms(1) by (simp add: SC_FPS_COUNTER_INTERVAL_def)
  have n: "fps_next_timestamp counter' = fps_next_timestamp counter + 1000000 * ?e"
    using assms(1) u c unfolding counter'_def check_interval_expired_def Let_def
    by (simp add: SC_FPS_COUNTER_INTERVAL_def)
  have "?d = 1000000 * (?d div 1000000) + ?d mod 1000000" "0 \<le> ?d mod 1000000" "?d mod 1000000 < 1000000"
    by simp_all
  with n show "now < fps_next_timestamp counter'" "fps_next_timestamp counter' \<le> now + SC_FPS_COUNTER_INTERVAL"
    by (simp_all add: SC_FPS_COUNTER_INTERVAL_def)
  show "\<exists>k. fps_next_timestamp counter' = fps_next_timestamp counter + k * SC_FPS_COUNTER_INTERVAL"
    by (rule exI [of _ ?e]) (simp add: n SC_FPS_COUNTER_INTERVAL_def)
qed

text \<open>
  The number of frames that is reported is the number that was counted, below 4295 frames per interval, where
  the 32-bit product wraps around; and the next report is due within one interval after now, a whole number
  of intervals after the last one, however late the counter is looked at.
\<close>

theorem fps_report:
  assumes "fps_next_timestamp counter \<le> now" "now - fps_next_timestamp counter < 1000000 * (2 ^ 32 - 1)"
    "uint (fps_nr_rendered counter) < 4295"
  shows "\<exists>counter'. check_interval_expired counter now =
      (counter', Some (uint (fps_nr_rendered counter), fps_nr_skipped counter)) \<and>
    fps_nr_rendered counter' = 0 \<and> fps_nr_skipped counter' = 0 \<and>
    now < fps_next_timestamp counter' \<and> fps_next_timestamp counter' \<le> now + SC_FPS_COUNTER_INTERVAL \<and>
    (\<exists>k. fps_next_timestamp counter' = fps_next_timestamp counter + k * SC_FPS_COUNTER_INTERVAL)"
proof -
  from assms(1) obtain counter' where c: "check_interval_expired counter now = (counter', Some (display_fps counter))"
    "fps_nr_rendered counter' = 0" "fps_nr_skipped counter' = 0"
    by (simp add: check_interval_expired_def Let_def)
  moreover have "display_fps counter = (uint (fps_nr_rendered counter), fps_nr_skipped counter)"
    using display_exact [OF assms(3)] by (simp add: display_fps_def)
  ultimately show ?thesis using next_timestamp [OF assms(1,2)] by simp
qed

lemma fps_report_witness:
  "\<exists>counter'. check_interval_expired \<lparr>fps_thread_started = True, fps_started = True, fps_interrupted = False,
      fps_nr_rendered = 60, fps_nr_skipped = 2, fps_next_timestamp = 5000000\<rparr> 7300000 = (counter', Some (60, 2)) \<and>
    fps_next_timestamp counter' = 8000000"
proof -
  let ?c = "\<lparr>fps_thread_started = True, fps_started = True, fps_interrupted = False,
      fps_nr_rendered = 60, fps_nr_skipped = 2, fps_next_timestamp = 5000000\<rparr>"
  obtain counter' k where "check_interval_expired ?c 7300000 = (counter', Some (60, 2))"
    "7300000 < fps_next_timestamp counter'" "fps_next_timestamp counter' \<le> 7300000 + 1000000"
    "fps_next_timestamp counter' = 5000000 + k * 1000000"
    using fps_report [of ?c 7300000] by (auto simp: SC_FPS_COUNTER_INTERVAL_def)
  then show ?thesis by auto
qed

subsection \<open>The thread of the counter\<close>

text \<open>
  The two conditions of the waits are evaluated with the mutex held; \<open>started\<close> is set, and the condition
  signaled, without it. The main thread performs \<open>start\<close> in three steps: resetting under the mutex, setting
  \<open>started\<close>, signaling; \<open>stop\<close> and \<open>interrupt\<close> in two.
\<close>

datatype fps_thread = Fps_none | Fps_at_lock | Fps_locked | Fps_will_wait | Fps_waiting
  | Fps_will_timedwait | Fps_timedwait | Fps_ended

datatype fps_main = Fps_idle | Fps_starting | Fps_start_signal | Fps_signal

record fps_system =
  fsy_counter :: sc_fps_counter
  fsy_thread :: fps_thread
  fsy_main :: fps_main

definition fps_holds :: "fps_thread \<Rightarrow> bool" where
  "fps_holds t \<longleftrightarrow> t \<in> {Fps_locked, Fps_will_wait, Fps_will_timedwait}"

definition fps_woken :: "fps_thread \<Rightarrow> fps_thread" where
  "fps_woken t = (if t \<in> {Fps_waiting, Fps_timedwait} then Fps_at_lock else t)"

text \<open>With the mutex held: what the nested loops of the thread do next.\<close>

definition fps_loop :: "sc_fps_counter \<Rightarrow> fps_thread" where
  "fps_loop counter =
     (if fps_interrupted counter then Fps_ended
      else if \<not> fps_started counter then Fps_will_wait
      else Fps_will_timedwait)"

inductive fps_step :: "fps_system \<Rightarrow> fps_system \<Rightarrow> bool" where
  start: "fsy_main s = Fps_idle \<Longrightarrow> \<not> fps_holds (fsy_thread s) \<Longrightarrow>
    fps_step s (s\<lparr>fsy_counter := fps_reset now (fsy_counter s), fsy_main := Fps_starting\<rparr>)"
| set_started: "fsy_main s = Fps_starting \<Longrightarrow>
    fps_step s (s\<lparr>fsy_counter := fsy_counter s\<lparr>fps_started := True\<rparr>, fsy_main := Fps_start_signal\<rparr>)"
| signal_start: "fsy_main s = Fps_start_signal \<Longrightarrow>
    fps_step s (s\<lparr>fsy_main := Fps_idle, fsy_thread := fps_woken (fsy_thread s)\<rparr>)"
| create: "fsy_main s = Fps_idle \<Longrightarrow> fps_started (fsy_counter s) \<Longrightarrow> \<not> fps_thread_started (fsy_counter s) \<Longrightarrow>
    fps_step s (s\<lparr>fsy_counter := fsy_counter s\<lparr>fps_thread_started := True\<rparr>, fsy_thread := Fps_at_lock\<rparr>)"
| stop: "fsy_main s = Fps_idle \<Longrightarrow>
    fps_step s (s\<lparr>fsy_counter := sc_fps_counter_stop (fsy_counter s), fsy_main := Fps_signal\<rparr>)"
| interrupt: "fsy_main s = Fps_idle \<Longrightarrow> \<not> fps_holds (fsy_thread s) \<Longrightarrow>
    fps_step s (s\<lparr>fsy_counter := sc_fps_counter_interrupt (fsy_counter s), fsy_main := Fps_signal\<rparr>)"
| signal: "fsy_main s = Fps_signal \<Longrightarrow>
    fps_step s (s\<lparr>fsy_main := Fps_idle, fsy_thread := fps_woken (fsy_thread s)\<rparr>)"
| lock: "fsy_thread s = Fps_at_lock \<Longrightarrow> fps_step s (s\<lparr>fsy_thread := Fps_locked\<rparr>)"
| loop: "fsy_thread s = Fps_locked \<Longrightarrow> fps_step s (s\<lparr>fsy_thread := fps_loop (fsy_counter s)\<rparr>)"
| wait: "fsy_thread s = Fps_will_wait \<Longrightarrow> fps_step s (s\<lparr>fsy_thread := Fps_waiting\<rparr>)"
| timedwait: "fsy_thread s = Fps_will_timedwait \<Longrightarrow>
    fps_step s (s\<lparr>fsy_counter := fst (check_interval_expired (fsy_counter s) now), fsy_thread := Fps_timedwait\<rparr>)"
| wake: "fsy_thread s \<in> {Fps_waiting, Fps_timedwait} \<Longrightarrow> fps_step s (s\<lparr>fsy_thread := Fps_at_lock\<rparr>)"

inductive fps_reachable :: "fps_system \<Rightarrow> bool" where
  start: "sc_fps_counter_init True True counter = (True, counter') \<Longrightarrow>
    fps_reachable \<lparr>fsy_counter = counter', fsy_thread = Fps_none, fsy_main = Fps_idle\<rparr>"
| step: "fps_reachable s \<Longrightarrow> fps_step s s' \<Longrightarrow> fps_reachable s'"

text \<open>An interruption is set under the mutex, so the thread cannot be about to wait when it is.\<close>

definition fps_inv :: "fps_system \<Rightarrow> bool" where
  "fps_inv s \<longleftrightarrow>
     (fps_thread_started (fsy_counter s) \<and> fps_interrupted (fsy_counter s) \<longrightarrow>
        \<not> (fsy_thread s \<in> {Fps_will_wait, Fps_will_timedwait}) \<and>
        (fsy_main s \<noteq> Fps_signal \<longrightarrow> fsy_thread s \<notin> {Fps_waiting, Fps_timedwait})) \<and>
     (\<not> fps_thread_started (fsy_counter s) \<longrightarrow> fsy_thread s = Fps_none)"

lemma fps_inv_step:
  assumes "fps_step s s'" "fps_inv s"
  shows "fps_inv s'"
  using assms by (cases rule: fps_step.cases)
    (auto simp: fps_inv_def fps_holds_def fps_reset_def fps_woken_def sc_fps_counter_stop_def
      sc_fps_counter_interrupt_def fps_loop_def check_interval_expired_def Let_def split: if_splits)

lemma fps_reachable_inv: "fps_reachable s \<Longrightarrow> fps_inv s"
proof (induction rule: fps_reachable.induct)
  case (start counter counter')
  then show ?case by (auto simp: fps_inv_def sc_fps_counter_init_def)
next
  case (step s s')
  then show ?case using fps_inv_step by blast
qed

text \<open>
  The interruption of the thread is never lost: once it has been set and signaled, the thread is not waiting and
  will not wait again, so the application can be left; but the start of the counter can be lost: the thread
  may wait although it is started and nothing is left to signal it.
\<close>

theorem fps_thread_wakeups:
  "(\<forall>s. fps_reachable s \<longrightarrow> fps_thread_started (fsy_counter s) \<longrightarrow> fps_interrupted (fsy_counter s) \<longrightarrow>
      fsy_main s = Fps_idle \<longrightarrow> fsy_thread s \<in> {Fps_none, Fps_at_lock, Fps_locked, Fps_ended} \<and>
      fps_loop (fsy_counter s) = Fps_ended) \<and>
    (\<exists>s. fps_reachable s \<and> fsy_main s = Fps_idle \<and> fsy_thread s = Fps_waiting \<and>
      fps_started (fsy_counter s) \<and> \<not> fps_interrupted (fsy_counter s))"
proof (intro conjI allI impI)
  fix s assume s: "fps_reachable s" "fps_thread_started (fsy_counter s)" "fps_interrupted (fsy_counter s)"
    "fsy_main s = Fps_idle"
  with fps_reachable_inv [OF s(1)] show "fsy_thread s \<in> {Fps_none, Fps_at_lock, Fps_locked, Fps_ended}"
    by (cases "fsy_thread s") (auto simp: fps_inv_def)
  from s(3) show "fps_loop (fsy_counter s) = Fps_ended" by (simp add: fps_loop_def)
next
  let ?c = "\<lambda>ts st. \<lparr>fps_thread_started = ts, fps_started = st, fps_interrupted = False,
    fps_nr_rendered = 0, fps_nr_skipped = 0, fps_next_timestamp = 0\<rparr>"
  let ?r = "\<lambda>ts st now. fps_reset now (?c ts st)"
  let ?s = "\<lambda>c t m. \<lparr>fsy_counter = c, fsy_thread = t, fsy_main = m\<rparr>"
  have reach: "fps_reachable s \<Longrightarrow> fps_step s s' \<Longrightarrow> s' = s'' \<Longrightarrow> fps_reachable s''" for s s' s''
    using fps_reachable.step by blast
  have "fps_reachable (?s (?c False False) Fps_none Fps_idle)"
    using fps_reachable.start [of "?c False False"] by (simp add: sc_fps_counter_init_def)
  from reach [OF this fps_step.start [of _ 0] refl]
  have "fps_reachable (?s (?r False False 0) Fps_none Fps_starting)" by (simp add: fps_holds_def)
  from reach [OF this fps_step.set_started refl]
  have "fps_reachable (?s (?r False True 0) Fps_none Fps_start_signal)" by (simp add: fps_reset_def)
  from reach [OF this fps_step.signal_start refl]
  have "fps_reachable (?s (?r False True 0) Fps_none Fps_idle)" by (simp add: fps_woken_def)
  from reach [OF this fps_step.create refl]
  have "fps_reachable (?s (?r True True 0) Fps_at_lock Fps_idle)" by (simp add: fps_reset_def)
  from reach [OF this fps_step.stop refl]
  have "fps_reachable (?s (?r True False 0) Fps_at_lock Fps_signal)"
    by (simp add: fps_reset_def sc_fps_counter_stop_def)
  from reach [OF this fps_step.signal refl]
  have "fps_reachable (?s (?r True False 0) Fps_at_lock Fps_idle)" by (simp add: fps_woken_def)
  from reach [OF this fps_step.start [of _ 0] refl]
  have "fps_reachable (?s (?r True False 0) Fps_at_lock Fps_starting)" by (simp add: fps_holds_def fps_reset_def)
  from reach [OF this fps_step.lock refl]
  have "fps_reachable (?s (?r True False 0) Fps_locked Fps_starting)" by simp
  from reach [OF this fps_step.loop refl]
  have "fps_reachable (?s (?r True False 0) Fps_will_wait Fps_starting)" by (simp add: fps_loop_def fps_reset_def)
  from reach [OF this fps_step.set_started refl]
  have "fps_reachable (?s (?r True True 0) Fps_will_wait Fps_start_signal)" by (simp add: fps_reset_def)
  from reach [OF this fps_step.signal_start refl]
  have "fps_reachable (?s (?r True True 0) Fps_will_wait Fps_idle)" by (simp add: fps_woken_def)
  from reach [OF this fps_step.wait refl]
  have "fps_reachable (?s (?r True True 0) Fps_waiting Fps_idle)" by simp
  then show "\<exists>s. fps_reachable s \<and> fsy_main s = Fps_idle \<and> fsy_thread s = Fps_waiting \<and>
      fps_started (fsy_counter s) \<and> \<not> fps_interrupted (fsy_counter s)"
    by (intro exI conjI) (assumption | simp add: fps_reset_def)+
qed

section \<open>Waiting until a deadline\<close>

text \<open>
  \<open>sc_cond_timedwait\<close>: \<open>now\<close> is the date at which it is called, \<open>wait ms\<close> what
  \<open>SDL_WaitConditionTimeout\<close> answers for this number of milliseconds with the date when it does.
\<close>

definition SC_TICK_FROM_MS :: "int \<Rightarrow> int" where
  "SC_TICK_FROM_MS ms = ms * 1000"

definition SC_TICK_TO_MS :: "int \<Rightarrow> int" where
  "SC_TICK_TO_MS t = c_div t 1000"

definition sc_cond_timedwait :: "int \<Rightarrow> (u32 \<Rightarrow> bool \<times> int) \<Rightarrow> int \<Rightarrow> bool option" where
  "sc_cond_timedwait now wait deadline =
     (if deadline \<le> now then Some False
      else do {
        let ms = word_of_int (SC_TICK_TO_MS (deadline - now + SC_TICK_FROM_MS 1 - 1));
        let (signaled, now') = wait ms;
        c_assert (signaled \<or> now' \<ge> deadline);
        Some signaled
      })"

lemma round_up_reaches:
  assumes "(now::int) < deadline"
  shows "deadline \<le> now + (deadline - now + 999) div 1000 * 1000"
    and "now + (deadline - now + 999) div 1000 * 1000 < deadline + 1000"
proof -
  let ?x = "deadline - now + 999"
  have "?x = ?x div 1000 * 1000 + ?x mod 1000" by simp
  moreover have "0 \<le> ?x mod 1000" "?x mod 1000 < 1000" by simp_all
  ultimately show "deadline \<le> now + ?x div 1000 * 1000" "now + ?x div 1000 * 1000 < deadline + 1000"
    by linarith+
qed

text \<open>
  A timed wait whose duration fits in 32 bits of milliseconds never fails its assertion, whenever
  the system call that it relies on waits for at least the time asked unless it is signalled: the
  deadline is rounded up to the next millisecond, by less than a millisecond. An answer of
  \<open>false\<close> means that the deadline is reached.
\<close>

theorem timedwait_reaches_deadline:
  assumes "deadline - now \<le> 4294967295 * 1000"
    and "\<And>ms. \<not> fst (wait ms) \<Longrightarrow> now + int (unat ms) * 1000 \<le> snd (wait ms)"
  shows "sc_cond_timedwait now wait deadline =
      Some (now < deadline \<and> fst (wait (word_of_int ((deadline - now + 999) div 1000)))) \<and>
    (now < deadline \<longrightarrow> \<not> fst (wait (word_of_int ((deadline - now + 999) div 1000))) \<longrightarrow>
      deadline \<le> snd (wait (word_of_int ((deadline - now + 999) div 1000))))"
proof (cases "now < deadline")
  case True
  let ?k = "(deadline - now + 999) div 1000"
  let ?ms = "word_of_int ?k :: u32"
  have k: "0 \<le> ?k" "?k < 2 ^ 32" using True assms(1) by (simp_all add: int_div_less_iff)
  then have "unat ?ms = nat ?k"
    by (simp add: unat_eq_nat_uint uint_word_of_int_eq take_bit_int_eq_self)
  with k(1) assms(2) [of ?ms] round_up_reaches(1) [OF True]
  have "\<not> fst (wait ?ms) \<Longrightarrow> deadline \<le> snd (wait ?ms)" by simp
  moreover have "SC_TICK_TO_MS (deadline - now + SC_TICK_FROM_MS 1 - 1) = ?k"
    using True by (simp add: SC_TICK_FROM_MS_def SC_TICK_TO_MS_def add.commute)
  ultimately show ?thesis using True
    by (cases "wait ?ms") (auto simp: sc_cond_timedwait_def c_assert_def)
next
  case False
  then show ?thesis by (simp add: sc_cond_timedwait_def)
qed

theorem timedwait_reaches_deadline_witness:
  "sc_cond_timedwait 100 (\<lambda>ms. (False, 100 + int (unat ms) * 1000)) 1500 = Some False"
  using timedwait_reaches_deadline [of 1500 100 "\<lambda>ms. (False, 100 + int (unat ms) * 1000)"] by simp

text \<open>A deadline 50 days away is cut to the 32 bits: the wait is too short and the assertion fails.\<close>

theorem timedwait_too_far_aborts:
  "sc_cond_timedwait 0 (\<lambda>ms. (False, int (unat ms) * 1000)) (4294967296 * 1000) = None"
  by (simp add: sc_cond_timedwait_def SC_TICK_FROM_MS_def SC_TICK_TO_MS_def)

section \<open>The loops of the two timers\<close>

text \<open>
  Both loops wait until they are stopped or the deadline is reached; each wake-up tells whether the
  wait was signalled and the value of the flag (\<open>stopped\<close>, \<open>interrupted\<close>) when the mutex is taken
  again. The result is the flag, \<open>None\<close> while the thread waits.
\<close>

fun timer_loop :: "bool \<Rightarrow> bool \<Rightarrow> (bool \<times> bool) list \<Rightarrow> bool option" where
  "timer_loop stopped timed_out wakes =
     (if \<not> stopped \<and> \<not> timed_out then
        (case wakes of
           [] \<Rightarrow> None
         | (signaled, stopped') # wakes' \<Rightarrow> timer_loop stopped' (\<not> signaled) wakes')
      else Some stopped)"

declare timer_loop.simps [simp del]

lemma timer_loop_eq:
  "timer_loop stopped timed_out wakes =
     (case dropWhile (\<lambda>(signaled, stopped). signaled \<and> \<not> stopped) ((\<not> timed_out, stopped) # wakes) of
        [] \<Rightarrow> None
      | (_, stopped') # _ \<Rightarrow> Some stopped')"
proof (induction wakes arbitrary: stopped timed_out)
  case Nil
  then show ?case by (subst timer_loop.simps) auto
next
  case (Cons w wakes)
  show ?case by (subst timer_loop.simps) (cases w, auto simp: Cons.IH)
qed

datatype sc_disconnect_event = On_icon_loaded | On_timeout

text \<open>\<open>sc_disconnect\<close>: the callbacks that its thread has called, and whether it has returned.\<close>

definition sc_disconnect_run :: "bool \<Rightarrow> bool \<Rightarrow> (bool \<times> bool) list \<Rightarrow> sc_disconnect_event list \<times> bool" where
  "sc_disconnect_run icon_ok interrupted wakes =
     (let calls = (if icon_ok then [On_icon_loaded] else [])
      in case timer_loop interrupted False wakes of
           None \<Rightarrow> (calls, False)
         | Some interrupted \<Rightarrow> (calls @ (if interrupted then [] else [On_timeout]), True))"

text \<open>\<open>sc_timeout\<close>: the same loop, whose callback is called on both exits.\<close>

definition run_timeout :: "bool \<Rightarrow> (bool \<times> bool) list \<Rightarrow> sc_disconnect_event list \<times> bool" where
  "run_timeout stopped wakes =
     (case timer_loop stopped False wakes of
        None \<Rightarrow> ([], False)
      | Some _ \<Rightarrow> ([On_timeout], True))"

text \<open>\<open>first_exit wakes\<close>: the flag at the first wake-up that ends a wait, if any.\<close>

definition first_exit :: "(bool \<times> bool) list \<Rightarrow> bool option" where
  "first_exit wakes = map_option snd (find (\<lambda>(signaled, stopped). \<not> signaled \<or> stopped) wakes)"

lemma timer_loop_first_exit: "timer_loop stopped False wakes = first_exit ((True, stopped) # wakes)"
proof -
  have "(case dropWhile P xs of [] \<Rightarrow> None | (_, s) # _ \<Rightarrow> Some s) = map_option snd (find (\<lambda>x. \<not> P x) xs)"
    for P and xs :: "(bool \<times> bool) list"
    by (induction xs) auto
  then show ?thesis
    by (simp add: timer_loop_eq first_exit_def case_prod_unfold)
qed

text \<open>
  When the device is disconnected, the window is told to close exactly when the wait ends by
  itself: an interruption seen at the wake-up that ends it suppresses the callback, even when the
  deadline has passed at the same time. The time limit of a session has no such test: its callback is
  also called when the timer is stopped, as the last action of its thread.
\<close>

theorem timers_call_back:
  "sc_disconnect_run icon_ok interrupted wakes =
     ((if icon_ok then [On_icon_loaded] else []) @
        (if first_exit ((True, interrupted) # wakes) = Some False then [On_timeout] else []),
      first_exit ((True, interrupted) # wakes) \<noteq> None) \<and>
   run_timeout stopped wakes =
     (if first_exit ((True, stopped) # wakes) = None then [] else [On_timeout],
      first_exit ((True, stopped) # wakes) \<noteq> None)"
  by (auto simp: sc_disconnect_run_def run_timeout_def timer_loop_first_exit Let_def split: option.split)

text \<open>\<open>sc_disconnect_start\<close>: what was created is destroyed when a later step fails.\<close>

datatype sync_object = Sync_mutex | Sync_cond | Sync_thread

definition sc_disconnect_start :: "bool \<Rightarrow> bool \<Rightarrow> bool \<Rightarrow> sync_object list \<times> bool" where
  "sc_disconnect_start mutex_ok cond_ok thread_ok =
     (if \<not> mutex_ok then ([], False)
      else
        let alive = [Sync_mutex] in
        if \<not> cond_ok then (removeAll Sync_mutex alive, False)
        else
          let alive = Sync_cond # alive in
          if \<not> thread_ok then (removeAll Sync_mutex (removeAll Sync_cond alive), False)
          else (Sync_thread # alive, True))"

text \<open>\<open>sc_timeout_init\<close>: the mutex is left behind when the condition variable cannot be created.\<close>

definition sc_timeout_init :: "bool \<Rightarrow> bool \<Rightarrow> sync_object list \<times> bool" where
  "sc_timeout_init mutex_ok cond_ok =
     (if \<not> mutex_ok then ([], False)
      else
        let alive = [Sync_mutex] in
        if \<not> cond_ok then (alive, False)
        else (Sync_cond # alive, True))"

lemma disconnect_start_cleans_up:
  "sc_disconnect_start mutex_ok cond_ok thread_ok =
     (if mutex_ok \<and> cond_ok \<and> thread_ok then ([Sync_thread, Sync_cond, Sync_mutex], True) else ([], False))"
  by (simp add: sc_disconnect_start_def Let_def)

theorem timeout_init_leaks_mutex: "sc_timeout_init True False = ([Sync_mutex], False)"
  by (simp add: sc_timeout_init_def)

end
