(* ===== verification/Sc_Recorder.thy ===== *)
theory Sc_Recorder
  imports Sc_Media Sc_Vecdeque Sc_Str Sc_Orientation
begin

text \<open>
  \<open>recorder.c\<close>: two packet sinks (video and audio) that queue packets, and the thread that muxes them into a
  file.

  What the two streams have twice (\<open>video_queue\<close> and \<open>audio_queue\<close>, \<open>video_init\<close> and \<open>audio_init\<close>, ...) is a
  function of the kind of the stream. \<open>libavformat\<close> is an argument: which of its calls succeed, how it
  converts times to the time base of a stream; the packets it has written are kept in order. Using
  \<open>recorder->ctx\<close> when there is no output context (not created yet, or freed) aborts. Times are integers.
\<close>

section \<open>State\<close>

datatype rec_kind = Rec_video | Rec_audio

definition NOPTS :: int where
  "NOPTS = sint AV_NOPTS_VALUE"

text \<open>A packet of the recorder: a reference to a packet, the fields of which are then changed.\<close>

record rec_packet =
  rp_data :: bytes
  rp_pts :: int
  rp_dts :: int
  rp_flags :: u32
  rp_duration :: int
  rp_stream_index :: int

record rec_out_stream =
  os_ctx :: codec_context
  os_angle :: "nat option"
  os_extradata :: "bytes option"

record av_format_context =
  fc_url :: string
  fc_oformat :: string
  fc_streams :: "rec_out_stream list"
  fc_written :: "rec_packet list"

record sc_recorder_stream =
  rs_index :: int
  rs_last_pts :: int

datatype sc_record_format = SC_RECORD_FORMAT_AUTO | SC_RECORD_FORMAT_MP4 | SC_RECORD_FORMAT_MKV
  | SC_RECORD_FORMAT_M4A | SC_RECORD_FORMAT_MKA | SC_RECORD_FORMAT_OPUS | SC_RECORD_FORMAT_AAC
  | SC_RECORD_FORMAT_FLAC | SC_RECORD_FORMAT_WAV

record sc_recorder =
  rec_enabled :: "rec_kind \<Rightarrow> bool"
  rec_orientation :: sc_orientation
  rec_filename :: string
  rec_format :: sc_record_format
  rec_ctx :: "av_format_context option"
  rec_stopped :: bool
  rec_queue :: "rec_kind \<Rightarrow> rec_packet sc_vecdeque"
  rec_init :: "rec_kind \<Rightarrow> bool"
  rec_audio_expects_config_packet :: bool
  rec_stream :: "rec_kind \<Rightarrow> sc_recorder_stream"

text \<open>
  The answers of the libraries; a call that may fail several times decides from what it is given.
\<close>

record recorder_env =
  re_cap :: nat
  re_alloc :: "nat \<Rightarrow> bool"
  re_muxers :: "string list"
  re_alloc_context :: bool
  re_concat :: bool
  re_avio_open :: bool
  re_new_stream :: "rec_kind \<Rightarrow> bool"
  re_parameters :: "rec_kind \<Rightarrow> bool"
  re_side_data :: bool
  re_packet_ref :: "rec_kind \<Rightarrow> sc_recorder \<Rightarrow> bool"
  re_extradata :: "rec_kind \<Rightarrow> bool"
  re_write_header :: "rec_out_stream list \<Rightarrow> bool"
  re_rescale :: "rec_out_stream \<Rightarrow> int \<Rightarrow> int"
  re_write_frame :: "rec_packet list \<Rightarrow> rec_packet \<Rightarrow> bool"
  re_write_trailer :: bool

section \<open>Creation and the output file\<close>

definition sc_recorder_stream_init :: sc_recorder_stream where
  "sc_recorder_stream_init = \<lparr>rs_index = -1, rs_last_pts = NOPTS\<rparr>"

text \<open>The first arguments are whether copying the name and creating the mutex and the condition succeed.\<close>

definition sc_recorder_init ::
    "bool \<Rightarrow> bool \<Rightarrow> bool \<Rightarrow> string \<Rightarrow> sc_record_format \<Rightarrow> bool \<Rightarrow> bool \<Rightarrow> sc_orientation \<Rightarrow>
      sc_recorder option option" where
  "sc_recorder_init strdup_ok mutex_ok cond_ok filename format video audio orientation = do {
     c_assert (\<not> sc_orientation_is_mirror orientation);
     if \<not> strdup_ok \<or> \<not> mutex_ok \<or> \<not> cond_ok then Some None
     else do {
       c_assert (video \<or> audio);
       Some (Some \<lparr>rec_enabled = (\<lambda>k. case k of Rec_video \<Rightarrow> video | Rec_audio \<Rightarrow> audio),
         rec_orientation = orientation, rec_filename = filename, rec_format = format, rec_ctx = None,
         rec_stopped = False, rec_queue = (\<lambda>_. sc_vecdeque_init), rec_init = (\<lambda>_. False),
         rec_audio_expects_config_packet = False, rec_stream = (\<lambda>_. sc_recorder_stream_init)\<rparr>)
     }
   }"

fun sc_recorder_get_format_name :: "sc_record_format \<Rightarrow> string option" where
  "sc_recorder_get_format_name SC_RECORD_FORMAT_MP4 = Some ''mp4''"
| "sc_recorder_get_format_name SC_RECORD_FORMAT_M4A = Some ''mp4''"
| "sc_recorder_get_format_name SC_RECORD_FORMAT_AAC = Some ''mp4''"
| "sc_recorder_get_format_name SC_RECORD_FORMAT_MKV = Some ''matroska''"
| "sc_recorder_get_format_name SC_RECORD_FORMAT_MKA = Some ''matroska''"
| "sc_recorder_get_format_name SC_RECORD_FORMAT_OPUS = Some ''opus''"
| "sc_recorder_get_format_name SC_RECORD_FORMAT_FLAC = Some ''flac''"
| "sc_recorder_get_format_name SC_RECORD_FORMAT_WAV = Some ''wav''"
| "sc_recorder_get_format_name _ = None"

text \<open>The first muxer whose list of names contains the name.\<close>

fun find_muxer :: "string list \<Rightarrow> string \<Rightarrow> string option option" where
  "find_muxer [] name = Some None"
| "find_muxer (oformat # muxers) name = do {
     found \<leftarrow> sc_str_list_contains oformat CHR '','' name;
     if found then Some (Some oformat) else find_muxer muxers name
   }"

definition sc_recorder_open_output_file ::
    "recorder_env \<Rightarrow> sc_recorder \<Rightarrow> (bool \<times> sc_recorder) option" where
  "sc_recorder_open_output_file env r = do {
     format_name \<leftarrow> sc_recorder_get_format_name (rec_format r);
     format \<leftarrow> find_muxer (re_muxers env) format_name;
     case format of
       None \<Rightarrow> Some (False, r)
     | Some oformat \<Rightarrow>
         if \<not> re_alloc_context env then Some (False, r\<lparr>rec_ctx := None\<rparr>)
         else
           (case sc_str_concat (re_concat env) ''file:'' (rec_filename r) of
              None \<Rightarrow> Some (False, r\<lparr>rec_ctx := None\<rparr>)
            | Some file_url \<Rightarrow>
                if \<not> re_avio_open env then Some (False, r\<lparr>rec_ctx := None\<rparr>)
                else Some (True, r\<lparr>rec_ctx := Some
                  \<lparr>fc_url = file_url, fc_oformat = oformat, fc_streams = [], fc_written = []\<rparr>\<rparr>))
   }"

definition sc_recorder_close_output_file :: "sc_recorder \<Rightarrow> sc_recorder option" where
  "sc_recorder_close_output_file r = do {
     _ \<leftarrow> rec_ctx r;
     Some (r\<lparr>rec_ctx := None\<rparr>)
   }"

section \<open>The packet sinks\<close>

definition sc_recorder_set_orientation ::
    "recorder_env \<Rightarrow> rec_out_stream \<Rightarrow> sc_orientation \<Rightarrow> rec_out_stream option option" where
  "sc_recorder_set_orientation env stream orientation = do {
     c_assert (\<not> sc_orientation_is_mirror orientation);
     if \<not> re_side_data env then Some None
     else do {
       let rotation = unat (orientation_value orientation);
       Some (Some (stream\<lparr>os_angle := Some (rotation * 90)\<rparr>))
     }
   }"

text \<open>\<open>avformat_new_stream\<close> appends a stream, also when a later call fails.\<close>

definition recorder_add_stream :: "sc_recorder \<Rightarrow> rec_kind \<Rightarrow> rec_out_stream \<Rightarrow> sc_recorder option" where
  "recorder_add_stream r k stream = do {
     ctx \<leftarrow> rec_ctx r;
     Some (r\<lparr>rec_ctx := Some (ctx\<lparr>fc_streams := fc_streams ctx @ [stream]\<rparr>)\<rparr>)
   }"

definition recorder_set_index :: "sc_recorder \<Rightarrow> rec_kind \<Rightarrow> int \<Rightarrow> sc_recorder" where
  "recorder_set_index r k i = r\<lparr>rec_stream := (rec_stream r)(k := (rec_stream r k)\<lparr>rs_index := i\<rparr>)\<rparr>"

definition recorder_set_init :: "sc_recorder \<Rightarrow> rec_kind \<Rightarrow> sc_recorder" where
  "recorder_set_init r k = r\<lparr>rec_init := (rec_init r)(k := True)\<rparr>"

definition sc_recorder_video_packet_sink_open ::
    "recorder_env \<Rightarrow> codec_context \<Rightarrow> sc_stream_session option \<Rightarrow> sc_recorder \<Rightarrow> (bool \<times> sc_recorder) option" where
  "sc_recorder_video_packet_sink_open env ctx session r = do {
     c_assert (\<not> rec_init r Rec_video);
     if rec_stopped r then Some (False, r)
     else do {
       fc \<leftarrow> rec_ctx r;
       if \<not> re_new_stream env Rec_video then Some (False, r)
       else do {
         let index = length (fc_streams fc);
         let stream = \<lparr>os_ctx = ctx, os_angle = None, os_extradata = None\<rparr>;
         if \<not> re_parameters env Rec_video then do {
           r \<leftarrow> recorder_add_stream r Rec_video stream;
           Some (False, r)
         }
         else do {
           oriented \<leftarrow> (if rec_orientation r \<noteq> SC_ORIENTATION_0
             then sc_recorder_set_orientation env stream (rec_orientation r) else Some (Some stream));
           let r = recorder_set_index r Rec_video (int index);
           case oriented of
             None \<Rightarrow> do {
               r \<leftarrow> recorder_add_stream r Rec_video stream;
               Some (False, r)
             }
           | Some stream \<Rightarrow> do {
               r \<leftarrow> recorder_add_stream r Rec_video stream;
               Some (True, recorder_set_init r Rec_video)
             }
         }
       }
     }
   }"

definition sc_recorder_audio_packet_sink_open ::
    "recorder_env \<Rightarrow> codec_context \<Rightarrow> sc_stream_session option \<Rightarrow> sc_recorder \<Rightarrow> (bool \<times> sc_recorder) option" where
  "sc_recorder_audio_packet_sink_open env ctx session r = do {
     c_assert (rec_enabled r Rec_audio);
     c_assert (\<not> rec_init r Rec_audio);
     fc \<leftarrow> rec_ctx r;
     if \<not> re_new_stream env Rec_audio then Some (False, r)
     else do {
       let index = length (fc_streams fc);
       r \<leftarrow> recorder_add_stream r Rec_audio \<lparr>os_ctx = ctx, os_angle = None, os_extradata = None\<rparr>;
       if \<not> re_parameters env Rec_audio then Some (False, r)
       else do {
         let r = recorder_set_index r Rec_audio (int index);
         let r = r\<lparr>rec_audio_expects_config_packet := cc_codec_id ctx \<noteq> AV_CODEC_ID_PCM_S16LE\<rparr>;
         Some (True, recorder_set_init r Rec_audio)
       }
     }
   }"

definition sc_recorder_video_packet_sink_close :: "sc_recorder \<Rightarrow> sc_recorder option" where
  "sc_recorder_video_packet_sink_close r = do {
     c_assert (rec_init r Rec_video);
     Some (r\<lparr>rec_stopped := True\<rparr>)
   }"

definition sc_recorder_audio_packet_sink_close :: "sc_recorder \<Rightarrow> sc_recorder option" where
  "sc_recorder_audio_packet_sink_close r = do {
     c_assert (rec_enabled r Rec_audio);
     c_assert (rec_init r Rec_audio);
     Some (r\<lparr>rec_stopped := True\<rparr>)
   }"

definition sc_recorder_packet_ref :: "bool \<Rightarrow> av_packet \<Rightarrow> rec_packet option" where
  "sc_recorder_packet_ref ok packet =
     (if ok then Some \<lparr>rp_data = pkt_data packet, rp_pts = sint (pkt_pts packet), rp_dts = sint (pkt_dts packet),
        rp_flags = pkt_flags packet, rp_duration = 0, rp_stream_index = 0\<rparr>
      else None)"

text \<open>The critical section of a push, the same for both streams.\<close>

definition recorder_queue_push ::
    "recorder_env \<Rightarrow> rec_kind \<Rightarrow> av_packet \<Rightarrow> sc_recorder \<Rightarrow> (bool \<times> sc_recorder) option" where
  "recorder_queue_push env k packet r =
     (if rec_stopped r then Some (False, r)
      else case sc_recorder_packet_ref (re_packet_ref env k r) packet of
        None \<Rightarrow> Some (False, r)
      | Some rec \<Rightarrow> do {
          let rec = rec\<lparr>rp_stream_index := rs_index (rec_stream r k)\<rparr>;
          (queue, ok) \<leftarrow> sc_vecdeque_push (re_alloc env) (re_cap env) (rec_queue r k) rec;
          Some (ok, r\<lparr>rec_queue := (rec_queue r)(k := queue)\<rparr>)
        })"

definition sc_recorder_video_packet_sink_push ::
    "recorder_env \<Rightarrow> av_packet \<Rightarrow> sc_recorder \<Rightarrow> (bool \<times> sc_recorder) option" where
  "sc_recorder_video_packet_sink_push env packet r = do {
     c_assert (rec_init r Rec_video);
     recorder_queue_push env Rec_video packet r
   }"

definition sc_recorder_audio_packet_sink_push ::
    "recorder_env \<Rightarrow> av_packet \<Rightarrow> sc_recorder \<Rightarrow> (bool \<times> sc_recorder) option" where
  "sc_recorder_audio_packet_sink_push env packet r = do {
     c_assert (rec_enabled r Rec_audio);
     c_assert (rec_init r Rec_audio);
     recorder_queue_push env Rec_audio packet r
   }"

definition sc_recorder_audio_packet_sink_disable :: "sc_recorder \<Rightarrow> sc_recorder option" where
  "sc_recorder_audio_packet_sink_disable r = do {
     c_assert (rec_enabled r Rec_audio);
     c_assert (\<not> rec_init r Rec_audio);
     let r = r\<lparr>rec_enabled := (rec_enabled r)(Rec_audio := False)\<rparr>;
     Some (recorder_set_init r Rec_audio)
   }"

definition sc_recorder_stop :: "sc_recorder \<Rightarrow> sc_recorder" where
  "sc_recorder_stop r = r\<lparr>rec_stopped := True\<rparr>"

text \<open>The two sinks, as \<open>sc_recorder_init\<close> sets their operations.\<close>

definition recorder_video_sink :: "recorder_env \<Rightarrow> sc_recorder sc_packet_sink" where
  "recorder_video_sink env =
     \<lparr>ms_open = sc_recorder_video_packet_sink_open env, ms_close = sc_recorder_video_packet_sink_close,
      ms_push = sc_recorder_video_packet_sink_push env, ms_push_session = None, ms_disable = None\<rparr>"

definition recorder_audio_sink :: "recorder_env \<Rightarrow> sc_recorder sc_packet_sink" where
  "recorder_audio_sink env =
     \<lparr>ms_open = sc_recorder_audio_packet_sink_open env, ms_close = sc_recorder_audio_packet_sink_close,
      ms_push = sc_recorder_audio_packet_sink_push env, ms_push_session = None,
      ms_disable = Some sc_recorder_audio_packet_sink_disable\<rparr>"

section \<open>The recorder thread\<close>

definition recorder_empty :: "sc_recorder \<Rightarrow> rec_kind \<Rightarrow> bool" where
  "recorder_empty r k \<longleftrightarrow> sc_vecdeque_is_empty (rec_queue r k)"

definition sc_recorder_must_wait_for_config_packets :: "sc_recorder \<Rightarrow> bool" where
  "sc_recorder_must_wait_for_config_packets r \<longleftrightarrow>
     (if rec_enabled r Rec_video \<and> recorder_empty r Rec_video then True
      else rec_enabled r Rec_audio \<and> rec_audio_expects_config_packet r \<and> recorder_empty r Rec_audio)"

text \<open>The condition on which \<open>sc_recorder_process_header\<close> waits.\<close>

definition recorder_header_waits :: "sc_recorder \<Rightarrow> bool" where
  "recorder_header_waits r \<longleftrightarrow> \<not> rec_stopped r \<and>
     (rec_enabled r Rec_video \<and> \<not> rec_init r Rec_video \<or>
      rec_enabled r Rec_audio \<and> \<not> rec_init r Rec_audio \<or>
      sc_recorder_must_wait_for_config_packets r)"

definition recorder_pop :: "sc_recorder \<Rightarrow> rec_kind \<Rightarrow> (rec_packet \<times> sc_recorder) option" where
  "recorder_pop r k = do {
     (p, queue) \<leftarrow> sc_vecdeque_pop (rec_queue r k);
     Some (p, r\<lparr>rec_queue := (rec_queue r)(k := queue)\<rparr>)
   }"

text \<open>
  The rest of the critical section of the headers, after the wait: the packets taken, or \<open>None\<close> when the
  recorder was stopped before there was a video packet.
\<close>

definition recorder_header_take ::
    "sc_recorder \<Rightarrow> ((rec_packet option \<times> rec_packet option) option \<times> sc_recorder) option" where
  "recorder_header_take r =
     (if rec_enabled r Rec_video \<and> recorder_empty r Rec_video then do {
        c_assert (rec_stopped r);
        Some (None, r)
      }
      else do {
        (video_pkt, r) \<leftarrow> (if \<not> recorder_empty r Rec_video then do {
             c_assert (rec_enabled r Rec_video);
             (p, r) \<leftarrow> recorder_pop r Rec_video;
             Some (Some p, r)
           } else Some (None, r));
        (audio_pkt, r) \<leftarrow> (if rec_audio_expects_config_packet r \<and> \<not> recorder_empty r Rec_audio then do {
             c_assert (rec_enabled r Rec_audio);
             (p, r) \<leftarrow> recorder_pop r Rec_audio;
             Some (Some p, r)
           } else Some (None, r));
        Some (Some (video_pkt, audio_pkt), r)
      })"

definition sc_recorder_set_extradata :: "bool \<Rightarrow> rec_out_stream \<Rightarrow> rec_packet \<Rightarrow> rec_out_stream option" where
  "sc_recorder_set_extradata malloc_ok ostream packet =
     (if malloc_ok then Some (ostream\<lparr>os_extradata := Some (rp_data packet)\<rparr>) else None)"

text \<open>What is done with the config packet of one stream; nothing when there is none.\<close>

definition recorder_config ::
    "recorder_env \<Rightarrow> rec_kind \<Rightarrow> rec_packet option \<Rightarrow> sc_recorder \<Rightarrow> (bool \<times> sc_recorder) option" where
  "recorder_config env k pkt r =
     (case pkt of
        None \<Rightarrow> Some (True, r)
      | Some packet \<Rightarrow>
          if rp_pts packet \<noteq> NOPTS then Some (False, r)
          else do {
            let index = rs_index (rec_stream r k);
            c_assert (index \<ge> 0);
            fc \<leftarrow> rec_ctx r;
            stream \<leftarrow> arr_get (fc_streams fc) (nat index);
            case sc_recorder_set_extradata (re_extradata env k) stream packet of
              None \<Rightarrow> Some (False, r)
            | Some stream \<Rightarrow>
                Some (True, r\<lparr>rec_ctx := Some (fc\<lparr>fc_streams := (fc_streams fc)[nat index := stream]\<rparr>)\<rparr>)
          })"

definition recorder_header_write ::
    "recorder_env \<Rightarrow> rec_packet option \<Rightarrow> rec_packet option \<Rightarrow> sc_recorder \<Rightarrow> (bool \<times> sc_recorder) option" where
  "recorder_header_write env video_pkt audio_pkt r = do {
     (ok, r) \<leftarrow> recorder_config env Rec_video video_pkt r;
     if \<not> ok then Some (False, r)
     else do {
       (ok, r) \<leftarrow> recorder_config env Rec_audio audio_pkt r;
       if \<not> ok then Some (False, r)
       else do {
         fc \<leftarrow> rec_ctx r;
         Some (re_write_header env (fc_streams fc), r)
       }
     }
   }"

definition sc_recorder_rescale_packet :: "recorder_env \<Rightarrow> rec_out_stream \<Rightarrow> rec_packet \<Rightarrow> rec_packet" where
  "sc_recorder_rescale_packet env stream packet =
     packet\<lparr>rp_pts := re_rescale env stream (rp_pts packet), rp_dts := re_rescale env stream (rp_dts packet),
       rp_duration := re_rescale env stream (rp_duration packet)\<rparr>"

definition sc_recorder_write_stream ::
    "recorder_env \<Rightarrow> rec_kind \<Rightarrow> rec_packet \<Rightarrow> sc_recorder \<Rightarrow> (bool \<times> sc_recorder) option" where
  "sc_recorder_write_stream env k packet r = do {
     fc \<leftarrow> rec_ctx r;
     let st = rec_stream r k;
     c_assert (rs_index st \<ge> 0);
     stream \<leftarrow> arr_get (fc_streams fc) (nat (rs_index st));
     let packet = sc_recorder_rescale_packet env stream packet;
     let (packet, st) =
       (if rs_last_pts st \<noteq> NOPTS \<and> rp_pts packet \<le> rs_last_pts st
        then let last_pts = rs_last_pts st + 1 in
          (packet\<lparr>rp_pts := last_pts, rp_dts := last_pts\<rparr>, st\<lparr>rs_last_pts := last_pts\<rparr>)
        else (packet, st\<lparr>rs_last_pts := rp_pts packet\<rparr>));
     let ok = re_write_frame env (fc_written fc) packet;
     Some (ok, r\<lparr>rec_stream := (rec_stream r)(k := st),
       rec_ctx := Some (fc\<lparr>fc_written := fc_written fc @ (if ok then [packet] else [])\<rparr>)\<rparr>)
   }"

text \<open>The local variables of \<open>sc_recorder_process_packets\<close>.\<close>

record rec_locals =
  rl_pts_origin :: int
  rl_video_pkt :: "rec_packet option"
  rl_audio_pkt :: "rec_packet option"
  rl_video_pkt_previous :: "rec_packet option"

definition rec_locals_init :: rec_locals where
  "rec_locals_init = \<lparr>rl_pts_origin = NOPTS, rl_video_pkt = None, rl_audio_pkt = None,
     rl_video_pkt_previous = None\<rparr>"

definition recorder_packets_wait :: "sc_recorder \<Rightarrow> rec_locals \<Rightarrow> bool" where
  "recorder_packets_wait r l \<longleftrightarrow> \<not> rec_stopped r \<and>
     \<not> (rec_enabled r Rec_video \<and> rl_video_pkt l = None \<and> \<not> recorder_empty r Rec_video) \<and>
     \<not> (rec_enabled r Rec_audio \<and> rl_audio_pkt l = None \<and> \<not> recorder_empty r Rec_audio)"

definition recorder_pop_if :: "sc_recorder \<Rightarrow> rec_kind \<Rightarrow> rec_packet option \<Rightarrow> (rec_packet option \<times> sc_recorder) option" where
  "recorder_pop_if r k pkt =
     (if pkt = None \<and> \<not> recorder_empty r k then do {
        (p, r) \<leftarrow> recorder_pop r k;
        Some (Some p, r)
      }
      else Some (pkt, r))"

text \<open>The rest of the critical section of the loop; the first component is whether the loop ends.\<close>

definition recorder_take :: "sc_recorder \<Rightarrow> rec_locals \<Rightarrow> (bool \<times> sc_recorder \<times> rec_locals) option" where
  "recorder_take r l = do {
     c_assert (rec_enabled r Rec_video \<or> rl_video_pkt l = None \<and> recorder_empty r Rec_video);
     c_assert (rec_enabled r Rec_audio \<or> rl_audio_pkt l = None \<and> recorder_empty r Rec_audio);
     (video_pkt, r) \<leftarrow> recorder_pop_if r Rec_video (rl_video_pkt l);
     (audio_pkt, r) \<leftarrow> recorder_pop_if r Rec_audio (rl_audio_pkt l);
     let l = l\<lparr>rl_video_pkt := video_pkt, rl_audio_pkt := audio_pkt\<rparr>;
     if rec_stopped r \<and> video_pkt = None \<and> audio_pkt = None then do {
       c_assert (recorder_empty r Rec_video);
       c_assert (recorder_empty r Rec_audio);
       Some (True, r, l)
     }
     else do {
       c_assert (video_pkt \<noteq> None \<or> audio_pkt \<noteq> None);
       Some (False, r, l)
     }
   }"

definition skip_config :: "rec_packet option \<Rightarrow> rec_packet option" where
  "skip_config pkt = (case pkt of Some p \<Rightarrow> if rp_pts p = NOPTS then None else pkt | None \<Rightarrow> None)"

datatype rec_origin = Origin int | Origin_error | Origin_later

definition recorder_pts_origin :: "sc_recorder \<Rightarrow> rec_locals \<Rightarrow> rec_origin" where
  "recorder_pts_origin r l =
     (if rl_pts_origin l \<noteq> NOPTS then Origin (rl_pts_origin l)
      else
        case (rl_video_pkt l, rl_audio_pkt l) of
          (Some v, None) \<Rightarrow>
            if \<not> rec_enabled r Rec_audio then Origin (rp_pts v)
            else if rec_stopped r then Origin (rp_pts v) else Origin_later
        | (None, Some a) \<Rightarrow>
            if \<not> rec_enabled r Rec_video then Origin (rp_pts a)
            else if rec_stopped r then Origin_error else Origin_later
        | (Some v, Some a) \<Rightarrow>
            if \<not> rec_enabled r Rec_audio then Origin (rp_pts v)
            else if \<not> rec_enabled r Rec_video then Origin (rp_pts a)
            else Origin (min (rp_pts v) (rp_pts a))
        | (None, None) \<Rightarrow> if rec_stopped r then Origin_error else Origin_later)"

definition shift_pts :: "int \<Rightarrow> rec_packet \<Rightarrow> rec_packet" where
  "shift_pts pts_origin p = p\<lparr>rp_pts := rp_pts p - pts_origin, rp_dts := rp_pts p - pts_origin\<rparr>"

text \<open>The previous video packet is written once its duration is known.\<close>

definition recorder_video ::
    "recorder_env \<Rightarrow> sc_recorder \<Rightarrow> rec_locals \<Rightarrow> (bool \<times> sc_recorder \<times> rec_locals) option" where
  "recorder_video env r l =
     (case rl_video_pkt l of
        None \<Rightarrow> Some (True, r, l)
      | Some video_pkt \<Rightarrow> do {
          let video_pkt = shift_pts (rl_pts_origin l) video_pkt;
          (ok, r) \<leftarrow> (case rl_video_pkt_previous l of
              None \<Rightarrow> Some (True, r)
            | Some previous \<Rightarrow> sc_recorder_write_stream env Rec_video
                (previous\<lparr>rp_duration := rp_pts video_pkt - rp_pts previous\<rparr>) r);
          if \<not> ok then Some (False, r, l\<lparr>rl_video_pkt := Some video_pkt, rl_video_pkt_previous := None\<rparr>)
          else Some (True, r, l\<lparr>rl_video_pkt_previous := Some video_pkt, rl_video_pkt := None\<rparr>)
        })"

definition recorder_audio ::
    "recorder_env \<Rightarrow> sc_recorder \<Rightarrow> rec_locals \<Rightarrow> (bool \<times> sc_recorder \<times> rec_locals) option" where
  "recorder_audio env r l =
     (case rl_audio_pkt l of
        None \<Rightarrow> Some (True, r, l)
      | Some audio_pkt \<Rightarrow> do {
          (ok, r) \<leftarrow> sc_recorder_write_stream env Rec_audio (shift_pts (rl_pts_origin l) audio_pkt) r;
          if \<not> ok then Some (False, r, l)
          else Some (True, r, l\<lparr>rl_audio_pkt := None\<rparr>)
        })"

text \<open>What the loop does after the critical section; the first component is false on an error.\<close>

definition recorder_process ::
    "recorder_env \<Rightarrow> sc_recorder \<Rightarrow> rec_locals \<Rightarrow> (bool \<times> sc_recorder \<times> rec_locals) option" where
  "recorder_process env r l = do {
     let l = l\<lparr>rl_video_pkt := skip_config (rl_video_pkt l), rl_audio_pkt := skip_config (rl_audio_pkt l)\<rparr>;
     case recorder_pts_origin r l of
       Origin_error \<Rightarrow> Some (False, r, l)
     | Origin_later \<Rightarrow> Some (True, r, l)
     | Origin pts_origin \<Rightarrow> do {
         let l = l\<lparr>rl_pts_origin := pts_origin\<rparr>;
         c_assert (pts_origin \<noteq> NOPTS);
         (ok, r, l) \<leftarrow> recorder_video env r l;
         if \<not> ok then Some (False, r, l) else recorder_audio env r l
       }
   }"

text \<open>After the loop: the last packet, a failure of which is only logged, and the trailer.\<close>

definition recorder_finish :: "recorder_env \<Rightarrow> sc_recorder \<Rightarrow> rec_locals \<Rightarrow> (bool \<times> sc_recorder) option" where
  "recorder_finish env r l = do {
     (ok, r) \<leftarrow> (case rl_video_pkt_previous l of
         None \<Rightarrow> Some (True, r)
       | Some last_pkt \<Rightarrow> sc_recorder_write_stream env Rec_video (last_pkt\<lparr>rp_duration := 100000\<rparr>) r);
     _ \<leftarrow> rec_ctx r;
     Some (re_write_trailer env, r)
   }"

definition sc_recorder_queue_clear :: "sc_recorder \<Rightarrow> rec_kind \<Rightarrow> sc_recorder option" where
  "sc_recorder_queue_clear r k = do {
     _ \<leftarrow> vd_drain (rec_queue r k);
     Some (r\<lparr>rec_queue := (rec_queue r)(k := sc_vecdeque_init)\<rparr>)
   }"

text \<open>The end of \<open>run_recorder\<close>.\<close>

definition recorder_end :: "sc_recorder \<Rightarrow> sc_recorder option" where
  "recorder_end r = do {
     let r = r\<lparr>rec_stopped := True\<rparr>;
     r \<leftarrow> sc_recorder_queue_clear r Rec_video;
     sc_recorder_queue_clear r Rec_audio
   }"

section \<open>The sinks keep the contract of packet sinks\<close>

text \<open>The packet that is queued for a packet that is accepted.\<close>

definition rec_of :: "sc_recorder \<Rightarrow> rec_kind \<Rightarrow> av_packet \<Rightarrow> rec_packet" where
  "rec_of r k packet = \<lparr>rp_data = pkt_data packet, rp_pts = sint (pkt_pts packet), rp_dts = sint (pkt_dts packet),
     rp_flags = pkt_flags packet, rp_duration = 0, rp_stream_index = rs_index (rec_stream r k)\<rparr>"

lemma queue_push_spec:
  assumes "vd_inv (re_cap env) (rec_queue r k)"
  shows "\<exists>ok queue. recorder_queue_push env k packet r =
      Some (ok, r\<lparr>rec_queue := (rec_queue r)(k := queue)\<rparr>) \<and> vd_inv (re_cap env) queue \<and>
    vd_content queue = vd_content (rec_queue r k) @ (if ok then [rec_of r k packet] else []) \<and>
    (ok \<longrightarrow> \<not> rec_stopped r)"
proof (cases "rec_stopped r \<or> \<not> re_packet_ref env k r")
  case True
  with assms show ?thesis
    by (intro exI [of _ False] exI [of _ "rec_queue r k"])
      (auto simp: recorder_queue_push_def sc_recorder_packet_ref_def)
next
  case False
  from push_vecdeque_spec [OF assms, of "re_alloc env" "rec_of r k packet"] obtain queue ok where
    "sc_vecdeque_push (re_alloc env) (re_cap env) (rec_queue r k) (rec_of r k packet) = Some (queue, ok)"
    "vd_inv (re_cap env) queue"
    "vd_content queue = (if ok then vd_content (rec_queue r k) @ [rec_of r k packet]
      else vd_content (rec_queue r k))" by blast
  with False show ?thesis
    by (intro exI [of _ ok] exI [of _ queue])
      (auto simp: recorder_queue_push_def sc_recorder_packet_ref_def rec_of_def)
qed

text \<open>The effect of opening a stream.\<close>

definition rec_sink :: "recorder_env \<Rightarrow> rec_kind \<Rightarrow> sc_recorder sc_packet_sink" where
  "rec_sink env k = (case k of Rec_video \<Rightarrow> recorder_video_sink env | Rec_audio \<Rightarrow> recorder_audio_sink env)"

lemmas recorder_open_defs = rec_sink_def recorder_video_sink_def recorder_audio_sink_def
  sc_recorder_video_packet_sink_open_def sc_recorder_audio_packet_sink_open_def recorder_add_stream_def
  recorder_set_index_def recorder_set_init_def sc_recorder_set_orientation_def

definition recorder_opened :: "rec_kind \<Rightarrow> bool \<Rightarrow> sc_recorder \<Rightarrow> sc_recorder \<Rightarrow> bool" where
  "recorder_opened k ok r r' \<longleftrightarrow>
     rec_enabled r' = rec_enabled r \<and> rec_stopped r' = rec_stopped r \<and> rec_queue r' = rec_queue r \<and>
     rec_orientation r' = rec_orientation r \<and> rec_init r' = (rec_init r)(k := ok) \<and>
     (\<forall>j. rs_last_pts (rec_stream r' j) = rs_last_pts (rec_stream r j) \<and>
       (j \<noteq> k \<longrightarrow> rs_index (rec_stream r' j) = rs_index (rec_stream r j))) \<and>
     (ok \<longrightarrow> rec_ctx r \<noteq> None \<and> rs_index (rec_stream r' k) \<ge> 0) \<and>
     (\<not> ok \<longrightarrow> rec_audio_expects_config_packet r' = rec_audio_expects_config_packet r) \<and>
     (rec_ctx r = None \<longrightarrow> r' = r) \<and>
     (\<forall>fc. rec_ctx r = Some fc \<longrightarrow> (\<exists>fc'. rec_ctx r' = Some fc' \<and> fc_written fc' = fc_written fc \<and>
       length (fc_streams fc) \<le> length (fc_streams fc') \<and>
       (ok \<or> rs_index (rec_stream r' k) \<noteq> rs_index (rec_stream r k) \<longrightarrow>
         rs_index (rec_stream r' k) = int (length (fc_streams fc)) \<and>
         length (fc_streams fc) < length (fc_streams fc'))))"

lemma recorder_open_spec:
  assumes "rec_ctx r \<noteq> None \<or> k = Rec_video \<and> rec_stopped r" "\<not> rec_init r k"
    "k = Rec_audio \<Longrightarrow> rec_enabled r Rec_audio" "\<not> sc_orientation_is_mirror (rec_orientation r)"
  shows "\<exists>ok r'. ms_open (rec_sink env k) ctx session r = Some (ok, r') \<and> recorder_opened k ok r r'"
proof (cases k)
  case Rec_video
  have idem: "(rec_init r)(Rec_video := False) = rec_init r" using assms(2) Rec_video by (intro fun_upd_idem) simp
  show ?thesis
  proof (cases "rec_stopped r \<or> \<not> re_new_stream env Rec_video")
    case True
    with Rec_video assms(1,2) have "ms_open (rec_sink env k) ctx session r = Some (False, r)"
      by (auto simp: recorder_open_defs)
    moreover have "recorder_opened k False r r"
      using idem Rec_video by (auto simp: recorder_opened_def)
    ultimately show ?thesis by blast
  next
    case False
    then obtain fc where fc: "rec_ctx r = Some fc" using assms(1) by auto
    let ?s = "\<lparr>os_ctx = ctx, os_angle = None, os_extradata = None\<rparr>"
    let ?index = "rec_stream_update (\<lambda>_. (rec_stream r)(k := (rec_stream r k)\<lparr>rs_index := int (length (fc_streams fc))\<rparr>))"
    let ?add = "\<lambda>st. rec_ctx_update (\<lambda>_. Some (fc\<lparr>fc_streams := fc_streams fc @ [st]\<rparr>))"
    have opened: "recorder_opened k False r (?add st r)" "recorder_opened k False r (?add st (?index r))"
      "recorder_opened k True r (recorder_set_init (?add st (?index r)) k)" for st
      using idem fc Rec_video by (simp_all add: recorder_opened_def recorder_set_init_def)
    note s = Rec_video assms(1-3) False fc
    consider "\<not> re_parameters env k" | "re_parameters env k" "rec_orientation r = SC_ORIENTATION_0"
      | "re_parameters env k" "rec_orientation r \<noteq> SC_ORIENTATION_0" "re_side_data env"
      | "re_parameters env k" "rec_orientation r \<noteq> SC_ORIENTATION_0" "\<not> re_side_data env" by blast
    then show ?thesis
    proof cases
      case 1
      with s have "ms_open (rec_sink env k) ctx session r = Some (False, ?add ?s r)"
        by (simp add: recorder_open_defs Let_def)
      with opened show ?thesis by blast
    next
      case 2
      with s have "ms_open (rec_sink env k) ctx session r = Some (True, recorder_set_init (?add ?s (?index r)) k)"
        by (simp add: recorder_open_defs Let_def)
      with opened show ?thesis by blast
    next
      case 3
      with s assms(4) have "ms_open (rec_sink env k) ctx session r = Some (True, recorder_set_init
          (?add (?s\<lparr>os_angle := Some (unat (orientation_value (rec_orientation r)) * 90)\<rparr>) (?index r)) k)"
        by (simp add: recorder_open_defs Let_def)
      with opened show ?thesis by blast
    next
      case 4
      with s assms(4) have "ms_open (rec_sink env k) ctx session r = Some (False, ?add ?s (?index r))"
        by (simp add: recorder_open_defs Let_def)
      with opened show ?thesis by blast
    qed
  qed
next
  case Rec_audio
  then obtain fc where fc: "rec_ctx r = Some fc" using assms(1) by auto
  have idem: "(rec_init r)(Rec_audio := False) = rec_init r" using assms(2) Rec_audio by (intro fun_upd_idem) simp
  let ?s = "\<lparr>os_ctx = ctx, os_angle = None, os_extradata = None\<rparr>"
  let ?add = "rec_ctx_update (\<lambda>_. Some (fc\<lparr>fc_streams := fc_streams fc @ [?s]\<rparr>))"
  let ?index = "rec_stream_update (\<lambda>_. (rec_stream r)(k := (rec_stream r k)\<lparr>rs_index := int (length (fc_streams fc))\<rparr>))"
  have "ms_open (rec_sink env k) ctx session r \<in> {Some (False, r), Some (False, ?add r),
      Some (True, recorder_set_init ((?index (?add r))\<lparr>rec_audio_expects_config_packet :=
        cc_codec_id ctx \<noteq> AV_CODEC_ID_PCM_S16LE\<rparr>) k)}"
    using Rec_audio assms fc by (simp add: recorder_open_defs Let_def)
  moreover have "recorder_opened k False r r" "recorder_opened k False r (?add r)"
    "recorder_opened k True r (recorder_set_init ((?index (?add r))\<lparr>rec_audio_expects_config_packet := e\<rparr>) k)" for e
    using idem fc Rec_audio by (simp_all add: recorder_opened_def recorder_set_init_def)
  ultimately show ?thesis by blast
qed

text \<open>While the output context is there, both sinks are used as a demuxer uses them without aborting.\<close>

definition recorder_sink_inv :: "recorder_env \<Rightarrow> rec_kind \<Rightarrow> nat \<Rightarrow> nat set \<Rightarrow> nat set \<Rightarrow> sc_recorder \<Rightarrow> bool" where
  "recorder_sink_inv env k i N A r \<longleftrightarrow> rec_ctx r \<noteq> None \<and> vd_inv (re_cap env) (rec_queue r k) \<and>
     \<not> sc_orientation_is_mirror (rec_orientation r) \<and>
     (i \<in> N \<longrightarrow> i \<notin> A \<and> rec_enabled r k \<and> \<not> rec_init r k) \<and>
     (i \<in> A \<longrightarrow> rec_enabled r k \<and> rec_init r k)"

lemma recorder_sink_ok:
  "packet_sink_ok UNIV (\<lambda>_. True) (recorder_sink_inv env k i) i (rec_sink env k)"
proof unfold_locales
  fix N A r ctx session
  assume a: "recorder_sink_inv env k i N A r" "i \<in> N"
  then obtain ok r' where o: "ms_open (rec_sink env k) ctx session r = Some (ok, r')" "recorder_opened k ok r r'"
    using recorder_open_spec [of r k env ctx session] by (auto simp: recorder_sink_inv_def)
  moreover from o(2) a have "rec_ctx r' \<noteq> None" by (auto simp: recorder_sink_inv_def recorder_opened_def)
  ultimately show "\<exists>ok w'. ms_open (rec_sink env k) ctx session r = Some (ok, w') \<and>
      recorder_sink_inv env k i (N - {i}) (if ok then insert i A else A) w'"
    using a by (intro exI [of _ ok] exI [of _ r']) (auto simp: recorder_sink_inv_def recorder_opened_def)
next
  fix N A r
  assume "recorder_sink_inv env k i N A r" "i \<in> A"
  then show "\<exists>w'. ms_close (rec_sink env k) r = Some w' \<and> recorder_sink_inv env k i N (A - {i}) w'"
    by (cases k) (auto simp: recorder_sink_inv_def recorder_open_defs sc_recorder_video_packet_sink_close_def
        sc_recorder_audio_packet_sink_close_def)
next
  fix N A r p
  assume a: "recorder_sink_inv env k i N A r" "i \<in> A"
  then obtain ok queue where
    "recorder_queue_push env k p r = Some (ok, r\<lparr>rec_queue := (rec_queue r)(k := queue)\<rparr>)"
    "vd_inv (re_cap env) queue"
    using queue_push_spec [of env r k p] by (auto simp: recorder_sink_inv_def)
  with a show "\<exists>ok w'. ms_push (rec_sink env k) p r = Some (ok, w') \<and> recorder_sink_inv env k i N A w'"
    by (cases k) (auto simp: recorder_sink_inv_def recorder_open_defs sc_recorder_video_packet_sink_push_def
        sc_recorder_audio_packet_sink_push_def)
next
  fix N A r push session
  assume "ms_push_session (rec_sink env k) = Some push"
  then show "\<exists>ok w'. push session r = Some (ok, w') \<and> recorder_sink_inv env k i N A w'"
    by (cases k) (simp_all add: recorder_open_defs)
next
  fix N A r disable
  assume "recorder_sink_inv env k i N A r" "i \<in> N" "i \<notin> A" "ms_disable (rec_sink env k) = Some disable"
  then show "\<exists>w'. disable r = Some w' \<and> recorder_sink_inv env k i (N - {i}) A w'"
    by (cases k) (auto simp: recorder_sink_inv_def recorder_open_defs sc_recorder_audio_packet_sink_disable_def)
qed

interpretation recorder_sink: packet_sink_ok UNIV "\<lambda>_. True" "recorder_sink_inv env k i" i "rec_sink env k"
  for env k i
  by (rule recorder_sink_ok)

end
