(* ===== verification/Sc_Recording.thy ===== *)
theory Sc_Recording
  imports Sc_Recorder
begin

text \<open>
  The recorder at work: its thread, interleaved with the two demuxer threads that feed its sinks and with
  the main thread that may stop it.
\<close>

section \<open>The threads\<close>

text \<open>
  Where the thread is: about to lock, waiting, or between two critical sections. \<open>Rec_closing\<close>,
  \<open>Rec_ending\<close> and \<open>Rec_ended\<close> hold whether the recording succeeded.
\<close>

datatype rec_pc = Rec_at_start
  | Rec_header_lock | Rec_header_waiting | Rec_header_got "rec_packet option" "rec_packet option"
  | Rec_at_lock rec_locals | Rec_waiting rec_locals | Rec_got rec_locals | Rec_flushing rec_locals
  | Rec_closing bool | Rec_ending bool | Rec_ended bool

text \<open>What the thread does next; \<open>None\<close> is an abort. A waiting thread may wake up at any time.\<close>

fun recorder_run :: "recorder_env \<Rightarrow> rec_pc \<Rightarrow> sc_recorder \<Rightarrow> (rec_pc \<times> sc_recorder) option" where
  "recorder_run env Rec_at_start r = do {
     (ok, r) \<leftarrow> sc_recorder_open_output_file env r;
     Some (if ok then Rec_header_lock else Rec_ending False, r)
   }"
| "recorder_run env Rec_header_lock r =
     (if recorder_header_waits r then Some (Rec_header_waiting, r)
      else do {
        (got, r) \<leftarrow> recorder_header_take r;
        Some (case got of None \<Rightarrow> Rec_closing False | Some (v, a) \<Rightarrow> Rec_header_got v a, r)
      })"
| "recorder_run env Rec_header_waiting r = Some (Rec_header_lock, r)"
| "recorder_run env (Rec_header_got v a) r = do {
     (ok, r) \<leftarrow> recorder_header_write env v a r;
     Some (if ok then Rec_at_lock rec_locals_init else Rec_closing False, r)
   }"
| "recorder_run env (Rec_at_lock l) r =
     (if recorder_packets_wait r l then Some (Rec_waiting l, r)
      else do {
        (end, r, l) \<leftarrow> recorder_take r l;
        Some (if end then Rec_flushing l else Rec_got l, r)
      })"
| "recorder_run env (Rec_waiting l) r = Some (Rec_at_lock l, r)"
| "recorder_run env (Rec_got l) r = do {
     (ok, r, l) \<leftarrow> recorder_process env r l;
     Some (if ok then Rec_at_lock l else Rec_closing False, r)
   }"
| "recorder_run env (Rec_flushing l) r = do {
     (ok, r) \<leftarrow> recorder_finish env r l;
     Some (Rec_closing ok, r)
   }"
| "recorder_run env (Rec_closing ok) r = do {
     r \<leftarrow> sc_recorder_close_output_file r;
     Some (Rec_ending ok, r)
   }"
| "recorder_run env (Rec_ending ok) r = do {
     r \<leftarrow> recorder_end r;
     Some (Rec_ended ok, r)
   }"
| "recorder_run env (Rec_ended ok) r = Some (Rec_ended ok, r)"

text \<open>
  With the phase of the life of each sink, the packets each sink has accepted, and the packets written to
  the file, which stay there when it is closed.
\<close>

record rec_system =
  rsy_rec :: sc_recorder
  rsy_pc :: rec_pc
  rsy_phase :: "rec_kind \<Rightarrow> sink_phase"
  rsy_accepted :: "rec_kind \<Rightarrow> av_packet list"
  rsy_file :: "rec_packet list"

fun recorder_woken :: "rec_pc \<Rightarrow> rec_pc" where
  "recorder_woken Rec_header_waiting = Rec_header_lock"
| "recorder_woken (Rec_waiting l) = Rec_at_lock l"
| "recorder_woken pc = pc"

definition recorder_file :: "rec_packet list \<Rightarrow> sc_recorder \<Rightarrow> rec_packet list" where
  "recorder_file file r = (case rec_ctx r of None \<Rightarrow> file | Some fc \<Rightarrow> fc_written fc)"

text \<open>
  The demuxers use the sinks in the order of the life of a sink; an operation that signals the condition
  wakes the thread up.
\<close>

inductive rec_step :: "recorder_env \<Rightarrow> rec_system \<Rightarrow> rec_system \<Rightarrow> bool" for env where
  open_sink: "sink_next (rsy_phase s k) (Sink_open ok :: av_packet sink_call) = Some ph \<Longrightarrow>
    ms_open (rec_sink env k) ctx session (rsy_rec s) = Some (ok, r) \<Longrightarrow>
    rec_step env s (s\<lparr>rsy_rec := r, rsy_phase := (rsy_phase s)(k := ph),
      rsy_pc := (if ok then recorder_woken (rsy_pc s) else rsy_pc s)\<rparr>)"
| push: "sink_next (rsy_phase s k) (Sink_push p ok) = Some ph \<Longrightarrow>
    ms_push (rec_sink env k) p (rsy_rec s) = Some (ok, r) \<Longrightarrow>
    rec_step env s (s\<lparr>rsy_rec := r, rsy_phase := (rsy_phase s)(k := ph),
      rsy_pc := (if ok then recorder_woken (rsy_pc s) else rsy_pc s),
      rsy_accepted := (rsy_accepted s)(k := rsy_accepted s k @ (if ok then [p] else []))\<rparr>)"
| close_sink: "sink_next (rsy_phase s k) (Sink_close :: av_packet sink_call) = Some ph \<Longrightarrow>
    ms_close (rec_sink env k) (rsy_rec s) = Some r \<Longrightarrow>
    rec_step env s (s\<lparr>rsy_rec := r, rsy_phase := (rsy_phase s)(k := ph),
      rsy_pc := recorder_woken (rsy_pc s)\<rparr>)"
| disable: "sink_next (rsy_phase s k) (Sink_disable :: av_packet sink_call) = Some ph \<Longrightarrow>
    ms_disable (rec_sink env k) = Some disable \<Longrightarrow> disable (rsy_rec s) = Some r \<Longrightarrow>
    rec_step env s (s\<lparr>rsy_rec := r, rsy_phase := (rsy_phase s)(k := ph),
      rsy_pc := recorder_woken (rsy_pc s)\<rparr>)"
| stop: "rec_step env s (s\<lparr>rsy_rec := sc_recorder_stop (rsy_rec s), rsy_pc := recorder_woken (rsy_pc s)\<rparr>)"
| thread: "recorder_run env (rsy_pc s) (rsy_rec s) = Some (pc, r) \<Longrightarrow>
    rec_step env s (s\<lparr>rsy_rec := r, rsy_pc := pc, rsy_file := recorder_file (rsy_file s) r\<rparr>)"

text \<open>A stream that is not recorded has no sink.\<close>

inductive rec_reachable :: "recorder_env \<Rightarrow> rec_system \<Rightarrow> bool" for env where
  start: "sc_recorder_get_format_name format \<noteq> None \<Longrightarrow>
    sc_recorder_init strdup_ok mutex_ok cond_ok filename format video audio orientation = Some (Some r) \<Longrightarrow>
    rec_reachable env \<lparr>rsy_rec = r, rsy_pc = Rec_at_start,
      rsy_phase = (\<lambda>k. if rec_enabled r k then Sink_new else Sink_ended), rsy_accepted = (\<lambda>_. []), rsy_file = []\<rparr>"
| step: "rec_reachable env s \<Longrightarrow> rec_step env s s' \<Longrightarrow> rec_reachable env s'"

section \<open>What is kept of one stream\<close>

definition rec_key :: "rec_packet \<Rightarrow> bytes \<times> u32" where
  "rec_key p = (rp_data p, rp_flags p)"

definition rec_written :: "rec_packet list \<Rightarrow> sc_recorder \<Rightarrow> rec_kind \<Rightarrow> rec_packet list" where
  "rec_written file r k = filter (\<lambda>p. rp_stream_index p = rs_index (rec_stream r k)) file"

text \<open>
  \<open>held\<close> is what the thread has taken from the queue and not yet written; times increase strictly in the
  file.
\<close>

definition rec_k ::
    "recorder_env \<Rightarrow> sc_recorder \<Rightarrow> rec_packet list \<Rightarrow> rec_packet list \<Rightarrow> sink_phase \<Rightarrow> rec_kind \<Rightarrow> bool" where
  "rec_k env r file held ph k \<longleftrightarrow>
     vd_inv (re_cap env) (rec_queue r k) \<and>
     (ph = Sink_new \<longrightarrow> rec_enabled r k \<and> \<not> rec_init r k \<and> held @ vd_content (rec_queue r k) = [] \<and>
       rs_index (rec_stream r k) = -1) \<and>
     (ph \<in> {Sink_fed, Sink_refused} \<longrightarrow> rec_enabled r k \<and> rec_init r k \<and> 0 \<le> rs_index (rec_stream r k)) \<and>
     (held @ vd_content (rec_queue r k) \<noteq> [] \<longrightarrow> rec_enabled r k \<and> 0 \<le> rs_index (rec_stream r k)) \<and>
     (\<forall>p \<in> set (held @ vd_content (rec_queue r k)). rp_stream_index p = rs_index (rec_stream r k)) \<and>
     (\<forall>fc. rec_ctx r = Some fc \<longrightarrow> rs_index (rec_stream r k) < int (length (fc_streams fc))) \<and>
     sorted_wrt (<) (map rp_pts (rec_written file r k)) \<and> NOPTS \<le> rs_last_pts (rec_stream r k) \<and>
     (\<forall>p \<in> set (rec_written file r k). NOPTS < rp_pts p \<and> rp_pts p \<le> rs_last_pts (rec_stream r k))"

definition rec_wf :: "sc_recorder \<Rightarrow> rec_packet list \<Rightarrow> bool" where
  "rec_wf r file \<longleftrightarrow>
     (\<forall>p \<in> set file. 0 \<le> rp_stream_index p \<and>
       (\<forall>fc. rec_ctx r = Some fc \<longrightarrow> rp_stream_index p < int (length (fc_streams fc)))) \<and>
     (\<forall>fc. rec_ctx r = Some fc \<longrightarrow> file = fc_written fc) \<and>
     (0 \<le> rs_index (rec_stream r Rec_video) \<longrightarrow>
       rs_index (rec_stream r Rec_video) \<noteq> rs_index (rec_stream r Rec_audio))"

definition recorder_kept :: "sc_recorder \<Rightarrow> sc_recorder \<Rightarrow> bool" where
  "recorder_kept r r' \<longleftrightarrow> rec_enabled r' = rec_enabled r \<and> rec_stopped r' = rec_stopped r \<and>
     rec_orientation r' = rec_orientation r \<and> rec_init r' = rec_init r \<and>
     rec_audio_expects_config_packet r' = rec_audio_expects_config_packet r \<and>
     (\<forall>k. rs_index (rec_stream r' k) = rs_index (rec_stream r k)) \<and>
     map_option (\<lambda>fc. length (fc_streams fc)) (rec_ctx r') = map_option (\<lambda>fc. length (fc_streams fc)) (rec_ctx r)"

lemma recorder_kept_refl [simp]: "recorder_kept r r"
  by (simp add: recorder_kept_def)

lemma recorder_kept_trans: "recorder_kept r r' \<Longrightarrow> recorder_kept r' r'' \<Longrightarrow> recorder_kept r r''"
  by (simp add: recorder_kept_def)

lemma rec_k_held:
  "rec_k env r file held ph k \<Longrightarrow> rp_stream_index ` set held' \<subseteq> rp_stream_index ` set held \<Longrightarrow>
    rec_k env r file held' ph k"
  unfolding rec_k_def by (cases "held = []") auto

lemma rec_kD:
  assumes "rec_k env r file held ph k"
  shows "vd_inv (re_cap env) (rec_queue r k)"
    "held @ vd_content (rec_queue r k) \<noteq> [] \<Longrightarrow> rec_enabled r k \<and> 0 \<le> rs_index (rec_stream r k)"
  using assms by (auto simp: rec_k_def)

lemma recorder_file_ctx: "rec_ctx r' = Some fc \<Longrightarrow> recorder_file file r' = fc_written fc"
  by (simp add: recorder_file_def)

lemma rec_wf_file: "rec_wf r file \<Longrightarrow> recorder_file file r = file"
  by (auto simp: rec_wf_def recorder_file_def split: option.splits)

lemma kind_neq: "j \<noteq> k \<Longrightarrow> rec_wf r file \<Longrightarrow> 0 \<le> rs_index (rec_stream r k) \<Longrightarrow>
    rs_index (rec_stream r j) \<noteq> rs_index (rec_stream r k)"
  by (cases j; cases k) (auto simp: rec_wf_def)

text \<open>Writing a packet of the stream \<open>k\<close>.\<close>

lemma write_stream_spec:
  assumes "rec_ctx r = Some fc" "0 \<le> rs_index (rec_stream r k)"
    "rs_index (rec_stream r k) < int (length (fc_streams fc))"
    "\<And>st t. NOPTS < re_rescale env st t" "NOPTS \<le> rs_last_pts (rec_stream r k)"
  shows "\<exists>ok q. sc_recorder_write_stream env k p r = Some (ok,
      r\<lparr>rec_stream := (rec_stream r)(k := (rec_stream r k)\<lparr>rs_last_pts := rp_pts q\<rparr>),
        rec_ctx := Some (fc\<lparr>fc_written := fc_written fc @ (if ok then [q] else [])\<rparr>)\<rparr>) \<and>
    rec_key q = rec_key p \<and> rp_stream_index q = rp_stream_index p \<and> NOPTS < rp_pts q \<and>
    (rs_last_pts (rec_stream r k) \<noteq> NOPTS \<longrightarrow> rs_last_pts (rec_stream r k) < rp_pts q)"
proof -
  let ?st = "rec_stream r k" and ?stream = "fc_streams fc ! nat (rs_index (rec_stream r k))"
  let ?p = "sc_recorder_rescale_packet env ?stream p"
  let ?q = "if rs_last_pts ?st \<noteq> NOPTS \<and> rp_pts ?p \<le> rs_last_pts ?st
    then ?p\<lparr>rp_pts := rs_last_pts ?st + 1, rp_dts := rs_last_pts ?st + 1\<rparr> else ?p"
  have "arr_get (fc_streams fc) (nat (rs_index ?st)) = Some ?stream"
    using assms(2,3) by (intro arr_get_lt) linarith
  with assms(1,2) have "sc_recorder_write_stream env k p r = Some (re_write_frame env (fc_written fc) ?q,
      r\<lparr>rec_stream := (rec_stream r)(k := ?st\<lparr>rs_last_pts := rp_pts ?q\<rparr>),
        rec_ctx := Some (fc\<lparr>fc_written := fc_written fc @ (if re_write_frame env (fc_written fc) ?q then [?q] else [])\<rparr>)\<rparr>)"
    by (simp add: sc_recorder_write_stream_def Let_def)
  moreover have "rec_key ?q = rec_key p" "rp_stream_index ?q = rp_stream_index p"
    by (simp_all add: rec_key_def sc_recorder_rescale_packet_def)
  moreover have "NOPTS < rp_pts ?q" "rs_last_pts ?st \<noteq> NOPTS \<longrightarrow> rs_last_pts ?st < rp_pts ?q"
    using assms(4,5) by (auto simp: sc_recorder_rescale_packet_def)
  ultimately show ?thesis by blast
qed

lemma write_stream_keeps:
  assumes wf: "rec_wf r file" and ctx: "rec_ctx r \<noteq> None" and K: "\<And>j. rec_k env r file (H j) (ph j) j"
    and i: "0 \<le> rs_index (rec_stream r k)" "rp_stream_index p = rs_index (rec_stream r k)"
    and rescale: "\<And>st t. NOPTS < re_rescale env st t"
  shows "\<exists>ok r'. sc_recorder_write_stream env k p r = Some (ok, r') \<and> recorder_kept r r' \<and>
    rec_queue r' = rec_queue r \<and> rec_wf r' (recorder_file file r') \<and>
    (\<forall>j. rec_k env r' (recorder_file file r') (H j) (ph j) j) \<and>
    (\<forall>j. map rec_key (rec_written (recorder_file file r') r' j) =
      map rec_key (rec_written file r j) @ (if j = k \<and> ok then [rec_key p] else []))"
proof -
  obtain fc where fc: "rec_ctx r = Some fc" using ctx by auto
  from K [of k] fc have "rs_index (rec_stream r k) < int (length (fc_streams fc))" "NOPTS \<le> rs_last_pts (rec_stream r k)"
    by (auto simp: rec_k_def)
  from write_stream_spec [OF fc i(1) this(1) rescale this(2), of p] obtain ok q where
    w: "sc_recorder_write_stream env k p r = Some (ok,
      r\<lparr>rec_stream := (rec_stream r)(k := (rec_stream r k)\<lparr>rs_last_pts := rp_pts q\<rparr>),
        rec_ctx := Some (fc\<lparr>fc_written := fc_written fc @ (if ok then [q] else [])\<rparr>)\<rparr>)" (is "_ = Some (ok, ?r)")
    and q: "rec_key q = rec_key p" "rp_stream_index q = rp_stream_index p" "NOPTS < rp_pts q"
      "rs_last_pts (rec_stream r k) \<noteq> NOPTS \<Longrightarrow> rs_last_pts (rec_stream r k) < rp_pts q" by blast
  have fl: "file = fc_written fc" "recorder_file file ?r = fc_written fc @ (if ok then [q] else [])"
    using wf fc by (simp_all add: rec_wf_def recorder_file_def)
  have written: "rec_written (recorder_file file ?r) ?r j =
      rec_written file r j @ (if j = k \<and> ok then [q] else [])" for j
    using kind_neq [OF _ wf i(1), of j] q(2) i(2) unfolding fl(2)
    by (cases "j = k"; cases ok) (simp_all add: rec_written_def fl(1))
  have "rec_k env ?r (recorder_file file ?r) (H j) (ph j) j" for j
  proof (cases "j = k")
    case True
    have "\<forall>p \<in> set (rec_written file r k). rp_pts p < rp_pts q"
      using K [of k] q(3,4) by (force simp: rec_k_def)
    with True K [of k] q(3) fc show ?thesis
      by (auto simp: rec_k_def written sorted_wrt_append less_imp_le)
  next
    case False
    with K [of j] fc show ?thesis by (simp add: rec_k_def written)
  qed
  moreover have "rec_wf ?r (recorder_file file ?r)"
    using wf fc q(2) i K [of k] unfolding fl(2) by (auto simp: rec_wf_def rec_k_def)
  moreover have "recorder_kept r ?r" using fc by (auto simp: recorder_kept_def)
  ultimately show ?thesis
    using w written q(1) by (intro exI [of _ ok] exI [of _ ?r]) auto
qed

section \<open>The steps of the thread\<close>

definition rec_good ::
    "recorder_env \<Rightarrow> sc_recorder \<Rightarrow> rec_packet list \<Rightarrow> (rec_kind \<Rightarrow> rec_packet list) \<Rightarrow> (rec_kind \<Rightarrow> sink_phase) \<Rightarrow> bool" where
  "rec_good env r file H ph \<longleftrightarrow> rec_wf r file \<and> (\<forall>k. rec_k env r file (H k) (ph k) k)"

lemma rec_good_held:
  "rec_good env r file H ph \<Longrightarrow> (\<And>k. rp_stream_index ` set (H' k) \<subseteq> rp_stream_index ` set (H k)) \<Longrightarrow>
    rec_good env r file H' ph"
  unfolding rec_good_def using rec_k_held by metis

text \<open>The packets that have a time, by their content.\<close>

definition wanted :: "rec_packet list \<Rightarrow> (bytes \<times> u32) list" where
  "wanted ps = map rec_key (filter (\<lambda>p. rp_pts p \<noteq> NOPTS) ps)"

lemma wanted_simps [simp]:
  "wanted [] = []" "wanted (p # ps) = (if rp_pts p \<noteq> NOPTS then [rec_key p] else []) @ wanted ps"
  "wanted (ps @ qs) = wanted ps @ wanted qs"
  by (simp_all add: wanted_def)

definition opt_list :: "'a option \<Rightarrow> 'a list" where
  "opt_list x = (case x of None \<Rightarrow> [] | Some y \<Rightarrow> [y])"

lemma opt_list_simps [simp]: "opt_list None = []" "opt_list (Some y) = [y]" "set (opt_list x) = set_option x"
    "opt_list x = [] \<longleftrightarrow> x = None"
  by (auto simp: opt_list_def split: option.splits)

fun rl_pkt :: "rec_locals \<Rightarrow> rec_kind \<Rightarrow> rec_packet option" where
  "rl_pkt l Rec_video = rl_video_pkt l"
| "rl_pkt l Rec_audio = rl_audio_pkt l"

fun rl_previous :: "rec_locals \<Rightarrow> rec_kind \<Rightarrow> rec_packet option" where
  "rl_previous l Rec_video = rl_video_pkt_previous l"
| "rl_previous l Rec_audio = None"

definition rl_held :: "rec_locals \<Rightarrow> rec_kind \<Rightarrow> rec_packet list" where
  "rl_held l k = opt_list (rl_previous l k) @ opt_list (rl_pkt l k)"

definition rl_wanted :: "rec_locals \<Rightarrow> rec_kind \<Rightarrow> (bytes \<times> u32) list" where
  "rl_wanted l k = map rec_key (opt_list (rl_previous l k)) @ wanted (opt_list (rl_pkt l k))"

lemma pop_keeps:
  assumes G: "rec_good env r file H ph" and ne: "\<not> recorder_empty r k"
  shows "\<exists>p r'. recorder_pop r k = Some (p, r') \<and> recorder_kept r r' \<and> rec_ctx r' = rec_ctx r \<and>
    rec_stream r' = rec_stream r \<and> (\<forall>j. j \<noteq> k \<longrightarrow> rec_queue r' j = rec_queue r j) \<and>
    rec_good env r' file (H(k := H k @ [p])) ph \<and>
    vd_content (rec_queue r k) = p # vd_content (rec_queue r' k)"
proof -
  from ne obtain p ps where c: "vd_content (rec_queue r k) = p # ps"
    by (auto simp: recorder_empty_def vd_content_empty [symmetric] neq_Nil_conv)
  from G have "vd_inv (re_cap env) (rec_queue r k)" by (simp add: rec_good_def rec_k_def)
  from pop_vecdeque_spec [OF this c] obtain q where
    q: "sc_vecdeque_pop (rec_queue r k) = Some (p, q)" "vd_inv (re_cap env) q" "vd_content q = ps" by blast
  let ?r = "r\<lparr>rec_queue := (rec_queue r)(k := q)\<rparr>"
  have "rec_k env ?r file ((H(k := H k @ [p])) j) (ph j) j" for j
  proof (cases "j = k")
    case True
    from G have "rec_k env r file (H k) (ph k) k" by (simp add: rec_good_def)
    with True q(2,3) c show ?thesis by (simp add: rec_k_def rec_written_def)
  next
    case False
    from G have "rec_k env r file (H j) (ph j) j" by (simp add: rec_good_def)
    with False show ?thesis by (simp add: rec_k_def rec_written_def)
  qed
  moreover have "rec_wf ?r file" using G by (auto simp: rec_good_def rec_wf_def)
  ultimately show ?thesis
    using q c by (intro exI [of _ p] exI [of _ ?r]) (auto simp: recorder_pop_def rec_good_def recorder_kept_def)
qed

text \<open>Taking a packet if none is held.\<close>

lemma pop_if_keeps:
  assumes G: "rec_good env r file H ph" and H: "H k = hs @ opt_list pkt"
  shows "\<exists>pkt' r'. recorder_pop_if r k pkt = Some (pkt', r') \<and> recorder_kept r r' \<and> rec_ctx r' = rec_ctx r \<and>
    rec_stream r' = rec_stream r \<and> (\<forall>j. j \<noteq> k \<longrightarrow> rec_queue r' j = rec_queue r j) \<and>
    rec_good env r' file (H(k := hs @ opt_list pkt')) ph \<and>
    opt_list pkt' @ vd_content (rec_queue r' k) = opt_list pkt @ vd_content (rec_queue r k) \<and>
    (pkt' = None \<longrightarrow> recorder_empty r' k) \<and>
    (pkt' = None \<longleftrightarrow> pkt = None \<and> recorder_empty r k)"
proof (cases "pkt = None \<and> \<not> recorder_empty r k")
  case True
  with pop_keeps [OF G, of k] obtain p r' where
    p: "recorder_pop r k = Some (p, r')" "recorder_kept r r'" "rec_ctx r' = rec_ctx r" "rec_stream r' = rec_stream r"
      "\<forall>j. j \<noteq> k \<longrightarrow> rec_queue r' j = rec_queue r j" "rec_good env r' file (H(k := H k @ [p])) ph"
      "vd_content (rec_queue r k) = p # vd_content (rec_queue r' k)" by blast
  with True H show ?thesis
    by (intro exI [of _ "Some p"] exI [of _ r']) (auto simp: recorder_pop_if_def)
next
  case False
  have "H(k := hs @ opt_list pkt) = H" using H by (metis fun_upd_triv)
  with False G show ?thesis
    by (intro exI [of _ pkt] exI [of _ r]) (auto simp: recorder_pop_if_def)
qed

lemma take_keeps:
  assumes G: "rec_good env r file (rl_held l) ph" and w: "\<not> recorder_packets_wait r l"
  shows "\<exists>end' r' l'. recorder_take r l = Some (end', r', l') \<and> recorder_kept r r' \<and> rec_ctx r' = rec_ctx r \<and>
    rec_stream r' = rec_stream r \<and> rec_good env r' file (rl_held l') ph \<and>
    (\<forall>k. rl_wanted l' k @ wanted (vd_content (rec_queue r' k)) =
      rl_wanted l k @ wanted (vd_content (rec_queue r k))) \<and>
    (end' \<longrightarrow> rec_stopped r' \<and> (\<forall>k. rl_pkt l' k = None \<and> vd_content (rec_queue r' k) = []))"
proof -
  have en: "rec_enabled r k \<or> rl_pkt l k = None \<and> recorder_empty r k" for k
  proof -
    from G have "rec_k env r file (rl_held l k) (ph k) k" by (simp add: rec_good_def)
    from rec_kD(2) [OF this] show ?thesis
      by (cases k; cases "rl_pkt l k") (auto simp: rl_held_def recorder_empty_def vd_content_empty [symmetric])
  qed
  from pop_if_keeps [OF G, of Rec_video "opt_list (rl_video_pkt_previous l)" "rl_video_pkt l"] obtain v r1 where
    v: "recorder_pop_if r Rec_video (rl_video_pkt l) = Some (v, r1)" "recorder_kept r r1" "rec_ctx r1 = rec_ctx r"
      "rec_stream r1 = rec_stream r" "rec_queue r1 Rec_audio = rec_queue r Rec_audio"
      "rec_good env r1 file ((rl_held l)(Rec_video := opt_list (rl_video_pkt_previous l) @ opt_list v)) ph"
      "opt_list v @ vd_content (rec_queue r1 Rec_video) = opt_list (rl_video_pkt l) @ vd_content (rec_queue r Rec_video)"
      "v = None \<Longrightarrow> recorder_empty r1 Rec_video" "v = None \<longleftrightarrow> rl_video_pkt l = None \<and> recorder_empty r Rec_video"
    by (auto simp: rl_held_def)
  from pop_if_keeps [OF v(6), of Rec_audio "[]" "rl_audio_pkt l"] obtain a r2 where
    a: "recorder_pop_if r1 Rec_audio (rl_audio_pkt l) = Some (a, r2)" "recorder_kept r1 r2" "rec_ctx r2 = rec_ctx r1"
      "rec_stream r2 = rec_stream r1" "rec_queue r2 Rec_video = rec_queue r1 Rec_video"
      "rec_good env r2 file ((rl_held l)(Rec_video := opt_list (rl_video_pkt_previous l) @ opt_list v,
        Rec_audio := opt_list a)) ph"
      "opt_list a @ vd_content (rec_queue r2 Rec_audio) = opt_list (rl_audio_pkt l) @ vd_content (rec_queue r1 Rec_audio)"
      "a = None \<Longrightarrow> recorder_empty r2 Rec_audio" "a = None \<longleftrightarrow> rl_audio_pkt l = None \<and> recorder_empty r1 Rec_audio"
    by (auto simp: rl_held_def)
  let ?l = "l\<lparr>rl_video_pkt := v, rl_audio_pkt := a\<rparr>"
  have k: "recorder_kept r r2" using v(2) a(2) by (rule recorder_kept_trans)
  have st: "rec_stopped r2 = rec_stopped r" using k by (simp add: recorder_kept_def)
  have e: "recorder_empty r1 Rec_audio = recorder_empty r Rec_audio" "recorder_empty r2 Rec_video = recorder_empty r1 Rec_video"
    using v(5) a(5) by (simp_all add: recorder_empty_def)
  have some: "\<not> rec_stopped r \<Longrightarrow> v \<noteq> None \<or> a \<noteq> None"
    using w v(9) a(9) e by (auto simp: recorder_packets_wait_def)
  have H: "(rl_held l)(Rec_video := opt_list (rl_video_pkt_previous l) @ opt_list v, Rec_audio := opt_list a) = rl_held ?l"
  proof
    fix k show "((rl_held l)(Rec_video := opt_list (rl_video_pkt_previous l) @ opt_list v, Rec_audio := opt_list a)) k =
      rl_held ?l k" by (cases k) (simp_all add: rl_held_def)
  qed
  have W: "rl_wanted ?l k @ wanted (vd_content (rec_queue r2 k)) = rl_wanted l k @ wanted (vd_content (rec_queue r k))" for k
    using arg_cong [OF v(7), of wanted] arg_cong [OF a(7), of wanted] v(5) a(5)
    by (cases k) (simp_all add: rl_wanted_def)
  show ?thesis
  proof (cases "rec_stopped r \<and> v = None \<and> a = None")
    case True
    with v(8) a(8) e have "recorder_empty r2 k" for k by (cases k) auto
    then have "vd_content (rec_queue r2 k) = []" for k by (simp add: recorder_empty_def vd_content_empty)
    moreover have "rl_pkt ?l k = None" for k using True by (cases k) auto
    moreover have "recorder_take r l = Some (True, r2, ?l)"
      using en [of Rec_video] en [of Rec_audio] v(1) a(1) True st \<open>\<And>k. recorder_empty r2 k\<close>
      by (simp add: recorder_take_def)
    ultimately show ?thesis using k v(3,4) a(3,4,6) W True st unfolding H by auto
  next
    case False
    with some have "recorder_take r l = Some (False, r2, ?l)"
      using en [of Rec_video] en [of Rec_audio] v(1) a(1) st by (auto simp: recorder_take_def)
    then show ?thesis using k v(3,4) a(3,4,6) W unfolding H by auto
  qed
qed

text \<open>The headers.\<close>

lemma header_take_keeps:
  assumes G: "rec_good env r file (\<lambda>_. []) ph" and w: "\<not> recorder_header_waits r"
  shows "\<exists>got r'. recorder_header_take r = Some (got, r') \<and> recorder_kept r r' \<and> rec_ctx r' = rec_ctx r \<and>
    rec_stream r' = rec_stream r \<and>
    (case got of
       None \<Rightarrow> rec_good env r' file (\<lambda>_. []) ph
     | Some (v, a) \<Rightarrow> rec_good env r' file (\<lambda>k. case k of Rec_video \<Rightarrow> opt_list v | Rec_audio \<Rightarrow> opt_list a) ph \<and>
         (\<forall>k. (case k of Rec_video \<Rightarrow> opt_list v | Rec_audio \<Rightarrow> opt_list a) @ vd_content (rec_queue r' k) =
           vd_content (rec_queue r k)))"
proof (cases "rec_enabled r Rec_video \<and> recorder_empty r Rec_video")
  case True
  with w have "rec_stopped r"
    by (auto simp: recorder_header_waits_def sc_recorder_must_wait_for_config_packets_def)
  with True G show ?thesis by (auto simp: recorder_header_take_def)
next
  case False
  have en: "rec_enabled r k" if "\<not> recorder_empty r k" for k
  proof -
    from G have "rec_k env r file [] (ph k) k" by (simp add: rec_good_def)
    from rec_kD(2) [OF this] that show ?thesis by (auto simp: recorder_empty_def vd_content_empty [symmetric])
  qed
  let ?v = "if recorder_empty r Rec_video then Some (None, r)
    else do { (p, r) \<leftarrow> recorder_pop r Rec_video; Some (Some p, r) }"
  obtain v r1 where v: "?v = Some (v, r1)" "recorder_kept r r1" "rec_ctx r1 = rec_ctx r"
    "rec_stream r1 = rec_stream r" "rec_queue r1 Rec_audio = rec_queue r Rec_audio"
    "rec_good env r1 file ((\<lambda>_. [])(Rec_video := opt_list v)) ph"
    "opt_list v @ vd_content (rec_queue r1 Rec_video) = vd_content (rec_queue r Rec_video)"
  proof (cases "recorder_empty r Rec_video")
    case True
    moreover have "(\<lambda>_. [])(Rec_video := []) = (\<lambda>_. [] :: rec_packet list)" by auto
    ultimately show ?thesis using G that [of None r] by simp
  next
    case False
    from pop_keeps [OF G this] obtain p r' where
      "recorder_pop r Rec_video = Some (p, r')" "recorder_kept r r'" "rec_ctx r' = rec_ctx r" "rec_stream r' = rec_stream r"
      "rec_queue r' Rec_audio = rec_queue r Rec_audio" "rec_good env r' file ((\<lambda>_. [])(Rec_video := [] @ [p])) ph"
      "vd_content (rec_queue r Rec_video) = p # vd_content (rec_queue r' Rec_video)" by auto
    with False show ?thesis using that [of "Some p" r'] by simp
  qed
  let ?e = "rec_audio_expects_config_packet r1 \<and> \<not> recorder_empty r1 Rec_audio"
  let ?a = "if ?e then do { (p, r) \<leftarrow> recorder_pop r1 Rec_audio; Some (Some p, r) } else Some (None, r1)"
  obtain a r2 where a: "?a = Some (a, r2)" "recorder_kept r1 r2" "rec_ctx r2 = rec_ctx r1"
    "rec_stream r2 = rec_stream r1" "rec_queue r2 Rec_video = rec_queue r1 Rec_video"
    "rec_good env r2 file ((\<lambda>_. [])(Rec_video := opt_list v, Rec_audio := opt_list a)) ph"
    "opt_list a @ vd_content (rec_queue r2 Rec_audio) = vd_content (rec_queue r1 Rec_audio)"
  proof (cases ?e)
    case False
    moreover have "((\<lambda>_. [])(Rec_video := opt_list v))(Rec_audio := []) = ((\<lambda>_. [])(Rec_video := opt_list v))" by auto
    ultimately show ?thesis using v(6) that [of None r1]
      by (cases "rec_audio_expects_config_packet r1") simp_all
  next
    case True
    then have ne: "\<not> recorder_empty r1 Rec_audio" by simp
    from pop_keeps [OF v(6) ne] obtain p r' where
      "recorder_pop r1 Rec_audio = Some (p, r')" "recorder_kept r1 r'" "rec_ctx r' = rec_ctx r1" "rec_stream r' = rec_stream r1"
      "rec_queue r' Rec_video = rec_queue r1 Rec_video"
      "rec_good env r' file (((\<lambda>_. [])(Rec_video := opt_list v))(Rec_audio := [p])) ph"
      "vd_content (rec_queue r1 Rec_audio) = p # vd_content (rec_queue r' Rec_audio)" by auto
    with True show ?thesis using that [of "Some p" r'] by simp
  qed
  have "(\<lambda>_. [])(Rec_video := opt_list v, Rec_audio := opt_list a) =
      (\<lambda>k. case k of Rec_video \<Rightarrow> opt_list v | Rec_audio \<Rightarrow> opt_list a)"
    by (auto split: rec_kind.splits)
  moreover have "recorder_header_take r = Some (Some (v, a), r2)"
  proof -
    have "rec_enabled r1 Rec_audio" if ?e
      using that en [of Rec_audio] v(2,5) by (simp add: recorder_kept_def recorder_empty_def)
    with False v(1) a(1) en [of Rec_video] show ?thesis
      by (auto simp: recorder_header_take_def split: if_splits bind_splits)
  qed
  moreover have "recorder_kept r r2" using v(2) a(2) by (rule recorder_kept_trans)
  ultimately show ?thesis using v(3,4,5,7) a(3,4,5,6,7) by (auto split: rec_kind.splits)
qed

lemma config_keeps:
  assumes G: "rec_good env r file H ph" and ctx: "rec_ctx r \<noteq> None" and H: "H k = opt_list pkt"
  shows "\<exists>ok r'. recorder_config env k pkt r = Some (ok, r') \<and> recorder_kept r r' \<and> rec_ctx r' \<noteq> None \<and>
    rec_stream r' = rec_stream r \<and> rec_queue r' = rec_queue r \<and> rec_good env r' file H ph \<and>
    (ok \<longrightarrow> wanted (opt_list pkt) = [])"
proof (cases pkt)
  case None
  with G ctx show ?thesis by (auto simp: recorder_config_def)
next
  case (Some p)
  obtain fc where fc: "rec_ctx r = Some fc" using ctx by auto
  from G have K: "rec_k env r file (H k) (ph k) k" by (simp add: rec_good_def)
  from rec_kD(2) [OF K] H Some have i: "0 \<le> rs_index (rec_stream r k)" by simp
  with K fc have g: "arr_get (fc_streams fc) (nat (rs_index (rec_stream r k))) =
      Some (fc_streams fc ! nat (rs_index (rec_stream r k)))"
    by (intro arr_get_lt) (auto simp: rec_k_def)
  have G': "rec_good env (r\<lparr>rec_ctx := Some (fc\<lparr>fc_streams := (fc_streams fc)[n := st]\<rparr>)\<rparr>) file H ph" for n st
    using G fc by (auto simp: rec_good_def rec_wf_def rec_k_def rec_written_def)
  show ?thesis
    using Some i g G G' fc
    by (cases "re_extradata env k")
      (auto simp: recorder_config_def sc_recorder_set_extradata_def Let_def recorder_kept_def)
qed

lemma header_write_keeps:
  assumes G: "rec_good env r file H ph" and ctx: "rec_ctx r \<noteq> None"
    and H: "H Rec_video = opt_list v" "H Rec_audio = opt_list a"
  shows "\<exists>ok r'. recorder_header_write env v a r = Some (ok, r') \<and> recorder_kept r r' \<and> rec_ctx r' \<noteq> None \<and>
    rec_stream r' = rec_stream r \<and> rec_queue r' = rec_queue r \<and> rec_good env r' file H ph \<and>
    (ok \<longrightarrow> wanted (opt_list v) = [] \<and> wanted (opt_list a) = [])"
proof -
  from config_keeps [OF G ctx H(1)] obtain ok1 r1 where
    1: "recorder_config env Rec_video v r = Some (ok1, r1)" "recorder_kept r r1" "rec_ctx r1 \<noteq> None"
      "rec_stream r1 = rec_stream r" "rec_queue r1 = rec_queue r" "rec_good env r1 file H ph"
      "ok1 \<longrightarrow> wanted (opt_list v) = []" by blast
  from config_keeps [OF 1(6,3) H(2)] obtain ok2 r2 where
    2: "recorder_config env Rec_audio a r1 = Some (ok2, r2)" "recorder_kept r1 r2" "rec_ctx r2 \<noteq> None"
      "rec_stream r2 = rec_stream r1" "rec_queue r2 = rec_queue r1" "rec_good env r2 file H ph"
      "ok2 \<longrightarrow> wanted (opt_list a) = []" by blast
  show ?thesis
    using 1 2 recorder_kept_trans [OF 1(2) 2(2)]
    by (cases ok1; cases ok2) (auto simp: recorder_header_write_def)
qed

text \<open>Writing a packet that is held.\<close>

lemma write_good:
  assumes G: "rec_good env r file H ph" and ctx: "rec_ctx r \<noteq> None" and p: "rp_stream_index p \<in> rp_stream_index ` set (H k)"
    and rescale: "\<And>st t. NOPTS < re_rescale env st t"
  shows "\<exists>ok r'. sc_recorder_write_stream env k p r = Some (ok, r') \<and> recorder_kept r r' \<and> rec_ctx r' \<noteq> None \<and>
    rec_queue r' = rec_queue r \<and> rec_good env r' (recorder_file file r') H ph \<and>
    (\<forall>j. map rec_key (rec_written (recorder_file file r') r' j) =
      map rec_key (rec_written file r j) @ (if j = k \<and> ok then [rec_key p] else []))"
proof -
  from G have wf: "rec_wf r file" and K: "\<And>j. rec_k env r file (H j) (ph j) j" by (simp_all add: rec_good_def)
  from p have ne: "H k \<noteq> []" by auto
  from K [of k] p have "rp_stream_index p = rs_index (rec_stream r k)" by (auto simp: rec_k_def)
  moreover from rec_kD(2) [OF K, of k] ne have "0 \<le> rs_index (rec_stream r k)" by simp
  ultimately obtain ok r' where w: "sc_recorder_write_stream env k p r = Some (ok, r')" "recorder_kept r r'"
    "rec_queue r' = rec_queue r" "rec_wf r' (recorder_file file r')"
    "\<forall>j. rec_k env r' (recorder_file file r') (H j) (ph j) j"
    "\<forall>j. map rec_key (rec_written (recorder_file file r') r' j) =
      map rec_key (rec_written file r j) @ (if j = k \<and> ok then [rec_key p] else [])"
    using write_stream_keeps [OF wf ctx K _ _ rescale, of k p] by blast
  moreover have "rec_ctx r' \<noteq> None" using w(2) ctx by (auto simp: recorder_kept_def)
  ultimately show ?thesis by (auto simp: rec_good_def)
qed

lemma shift_simps [simp]:
  "rec_key (shift_pts o1 p) = rec_key p" "rp_stream_index (shift_pts o1 p) = rp_stream_index p"
  "rec_key (p\<lparr>rp_duration := d\<rparr>) = rec_key p"
  by (simp_all add: rec_key_def shift_pts_def)

text \<open>What is held, by its content, together with what is written.\<close>

definition rec_done :: "rec_packet list \<Rightarrow> sc_recorder \<Rightarrow> rec_locals \<Rightarrow> rec_kind \<Rightarrow> (bytes \<times> u32) list" where
  "rec_done file r l k = map rec_key (rec_written file r k) @ rl_wanted l k"

lemma video_keeps:
  assumes G: "rec_good env r file (rl_held l) ph" and ctx: "rec_ctx r \<noteq> None"
    and nc: "\<And>p. rl_video_pkt l = Some p \<Longrightarrow> rp_pts p \<noteq> NOPTS"
    and rescale: "\<And>st t. NOPTS < re_rescale env st t"
  shows "\<exists>ok r' l'. recorder_video env r l = Some (ok, r', l') \<and> recorder_kept r r' \<and> rec_ctx r' \<noteq> None \<and>
    rec_queue r' = rec_queue r \<and> rl_pts_origin l' = rl_pts_origin l \<and> rl_audio_pkt l' = rl_audio_pkt l \<and>
    rec_good env r' (recorder_file file r') (if ok then rl_held l' else (\<lambda>_. [])) ph \<and>
    (ok \<longrightarrow> (\<forall>k. rec_done (recorder_file file r') r' l' k = rec_done file r l k))"
proof (cases "rl_video_pkt l")
  case None
  with G ctx show ?thesis by (auto simp: recorder_video_def rec_good_def rec_wf_file)
next
  case (Some v)
  let ?v = "shift_pts (rl_pts_origin l) v"
  let ?l = "l\<lparr>rl_video_pkt_previous := Some ?v, rl_video_pkt := None\<rparr>"
  have held: "rp_stream_index ` set (rl_held ?l k) \<subseteq> rp_stream_index ` set (rl_held l k)" for k
    using Some by (cases k) (auto simp: rl_held_def)
  show ?thesis
  proof (cases "rl_video_pkt_previous l")
    case None
    have "rec_done file r ?l k = rec_done file r l k" for k
      using Some None nc [OF Some] by (cases k) (simp_all add: rec_done_def rl_wanted_def)
    with Some None G ctx rec_good_held [OF G held] show ?thesis
      by (auto simp: recorder_video_def rec_good_def rec_wf_file)
  next
    case prev: (Some pv)
    let ?pv = "pv\<lparr>rp_duration := rp_pts ?v - rp_pts pv\<rparr>"
    have "rp_stream_index ?pv \<in> rp_stream_index ` set (rl_held l Rec_video)"
      using prev by (auto simp: rl_held_def)
    from write_good [OF G ctx this rescale] obtain ok r' where
      w: "sc_recorder_write_stream env Rec_video ?pv r = Some (ok, r')" "recorder_kept r r'" "rec_ctx r' \<noteq> None"
        "rec_queue r' = rec_queue r" "rec_good env r' (recorder_file file r') (rl_held l) ph"
        "\<And>j. map rec_key (rec_written (recorder_file file r') r' j) =
          map rec_key (rec_written file r j) @ (if j = Rec_video \<and> ok then [rec_key ?pv] else [])"
      by blast
    have "rec_done (recorder_file file r') r' ?l k = rec_done file r l k" if ok for k
      using Some prev nc [OF Some] w(6) [of k] that by (cases k) (simp_all add: rec_done_def rl_wanted_def)
    moreover have "rec_good env r' (recorder_file file r') (rl_held ?l) ph"
      "rec_good env r' (recorder_file file r') (\<lambda>_. []) ph"
      using rec_good_held [OF w(5)] held by auto
    ultimately show ?thesis using Some prev w(1-4) by (cases ok) (auto simp: recorder_video_def)
  qed
qed

lemma audio_keeps:
  assumes G: "rec_good env r file (rl_held l) ph" and ctx: "rec_ctx r \<noteq> None"
    and nc: "\<And>p. rl_audio_pkt l = Some p \<Longrightarrow> rp_pts p \<noteq> NOPTS"
    and rescale: "\<And>st t. NOPTS < re_rescale env st t"
  shows "\<exists>ok r' l'. recorder_audio env r l = Some (ok, r', l') \<and> recorder_kept r r' \<and> rec_ctx r' \<noteq> None \<and>
    rec_queue r' = rec_queue r \<and>
    rec_good env r' (recorder_file file r') (if ok then rl_held l' else (\<lambda>_. [])) ph \<and>
    (ok \<longrightarrow> (\<forall>k. rec_done (recorder_file file r') r' l' k = rec_done file r l k))"
proof (cases "rl_audio_pkt l")
  case None
  with G ctx show ?thesis by (auto simp: recorder_audio_def rec_good_def rec_wf_file)
next
  case (Some a)
  let ?l = "l\<lparr>rl_audio_pkt := None\<rparr>" and ?a = "shift_pts (rl_pts_origin l) a"
  have "rp_stream_index ?a \<in> rp_stream_index ` set (rl_held l Rec_audio)"
    using Some by (auto simp: rl_held_def)
  from write_good [OF G ctx this rescale] obtain ok r' where
    w: "sc_recorder_write_stream env Rec_audio ?a r = Some (ok, r')" "recorder_kept r r'" "rec_ctx r' \<noteq> None"
      "rec_queue r' = rec_queue r" "rec_good env r' (recorder_file file r') (rl_held l) ph"
      "\<And>j. map rec_key (rec_written (recorder_file file r') r' j) =
        map rec_key (rec_written file r j) @ (if j = Rec_audio \<and> ok then [rec_key ?a] else [])"
    by blast
  have "rp_stream_index ` set (rl_held ?l k) \<subseteq> rp_stream_index ` set (rl_held l k)" for k
    using Some by (cases k) (auto simp: rl_held_def)
  then have "rec_good env r' (recorder_file file r') (rl_held ?l) ph"
    "rec_good env r' (recorder_file file r') (\<lambda>_. []) ph"
    using rec_good_held [OF w(5)] by auto
  moreover have "rec_done (recorder_file file r') r' ?l k = rec_done file r l k" if ok for k
    using Some nc [OF Some] w(6) [of k] that by (cases k) (simp_all add: rec_done_def rl_wanted_def)
  ultimately show ?thesis using Some w(1-4) by (cases ok) (auto simp: recorder_audio_def)
qed

lemma skip_config_Some: "skip_config x = Some p \<Longrightarrow> x = Some p \<and> rp_pts p \<noteq> NOPTS"
  by (auto simp: skip_config_def split: option.splits if_splits)

lemma wanted_skip_config: "wanted (opt_list (skip_config x)) = wanted (opt_list x)"
  by (cases x) (auto simp: skip_config_def)

lemma origin_not_NOPTS:
  assumes "recorder_pts_origin r l = Origin o1"
    "\<And>p. rl_video_pkt l = Some p \<Longrightarrow> rp_pts p \<noteq> NOPTS" "\<And>p. rl_audio_pkt l = Some p \<Longrightarrow> rp_pts p \<noteq> NOPTS"
  shows "o1 \<noteq> NOPTS"
  using assms by (auto simp: recorder_pts_origin_def min_def split: option.splits if_splits)

lemma process_keeps:
  assumes G: "rec_good env r file (rl_held l) ph" and ctx: "rec_ctx r \<noteq> None"
    and rescale: "\<And>st t. NOPTS < re_rescale env st t"
  shows "\<exists>ok r' l'. recorder_process env r l = Some (ok, r', l') \<and> recorder_kept r r' \<and> rec_ctx r' \<noteq> None \<and>
    rec_queue r' = rec_queue r \<and>
    rec_good env r' (recorder_file file r') (if ok then rl_held l' else (\<lambda>_. [])) ph \<and>
    (ok \<longrightarrow> (\<forall>k. rec_done (recorder_file file r') r' l' k = rec_done file r l k))"
proof -
  let ?l = "l\<lparr>rl_video_pkt := skip_config (rl_video_pkt l), rl_audio_pkt := skip_config (rl_audio_pkt l)\<rparr>"
  have wf: "recorder_file file r = file" using G by (simp add: rec_good_def rec_wf_file)
  have nc: "\<And>p. rl_video_pkt ?l = Some p \<Longrightarrow> rp_pts p \<noteq> NOPTS" "\<And>p. rl_audio_pkt ?l = Some p \<Longrightarrow> rp_pts p \<noteq> NOPTS"
    by (auto dest: skip_config_Some)
  have "set (rl_held ?l k) \<subseteq> set (rl_held l k)" for k
    by (cases k) (auto simp: rl_held_def dest: skip_config_Some)
  then have G1: "rec_good env r file (rl_held ?l) ph" "rec_good env r file (\<lambda>_. []) ph"
    using rec_good_held [OF G] by (simp_all add: image_mono)
  have D: "rec_done file r ?l k = rec_done file r l k" for k
    by (cases k) (simp_all add: rec_done_def rl_wanted_def wanted_skip_config)
  show ?thesis
  proof (cases "recorder_pts_origin r ?l")
    case Origin_error
    with G1 ctx wf show ?thesis by (intro exI [of _ False]) (auto simp: recorder_process_def)
  next
    case Origin_later
    with G1 ctx wf D show ?thesis by (intro exI [of _ True]) (auto simp: recorder_process_def)
  next
    case (Origin o1)
    let ?m = "?l\<lparr>rl_pts_origin := o1\<rparr>"
    have o1: "o1 \<noteq> NOPTS" by (rule origin_not_NOPTS [OF Origin nc]) auto
    have "rl_held ?m = rl_held ?l" "rec_done file r ?m = rec_done file r ?l"
    proof -
      show "rl_held ?m = rl_held ?l"
      proof
        fix k show "rl_held ?m k = rl_held ?l k" by (cases k) (simp_all add: rl_held_def)
      qed
      show "rec_done file r ?m = rec_done file r ?l"
      proof
        fix k show "rec_done file r ?m k = rec_done file r ?l k" by (cases k) (simp_all add: rec_done_def rl_wanted_def)
      qed
    qed
    note m = this
    from video_keeps [of env r "file" "?m" ph, OF _ ctx _ rescale] G1(1) nc(1) obtain ok1 r1 l1 where
      1: "recorder_video env r ?m = Some (ok1, r1, l1)" "recorder_kept r r1" "rec_ctx r1 \<noteq> None"
        "rec_queue r1 = rec_queue r" "rl_audio_pkt l1 = rl_audio_pkt ?l"
        "rec_good env r1 (recorder_file file r1) (if ok1 then rl_held l1 else (\<lambda>_. [])) ph"
        "ok1 \<longrightarrow> (\<forall>k. rec_done (recorder_file file r1) r1 l1 k = rec_done file r ?m k)"
      unfolding m by auto
    show ?thesis
    proof (cases ok1)
      case False
      with 1 Origin o1 show ?thesis by (intro exI [of _ False]) (auto simp: recorder_process_def)
    next
      case True
      with 1(6) have G2: "rec_good env r1 (recorder_file file r1) (rl_held l1) ph" by simp
      from audio_keeps [OF G2 1(3) _ rescale] 1(5) nc(2) obtain ok2 r2 l2 where
        2: "recorder_audio env r1 l1 = Some (ok2, r2, l2)" "recorder_kept r1 r2" "rec_ctx r2 \<noteq> None"
          "rec_queue r2 = rec_queue r1"
          "rec_good env r2 (recorder_file (recorder_file file r1) r2) (if ok2 then rl_held l2 else (\<lambda>_. [])) ph"
          "ok2 \<longrightarrow> (\<forall>k. rec_done (recorder_file (recorder_file file r1) r2) r2 l2 k =
            rec_done (recorder_file file r1) r1 l1 k)"
        by auto
      have "recorder_file (recorder_file file r1) r2 = recorder_file file r2"
        using 2(3) by (auto simp: recorder_file_def)
      with 2 1 True Origin o1 D m recorder_kept_trans [OF 1(2) 2(2)] show ?thesis
        by (auto simp: recorder_process_def)
    qed
  qed
qed

lemma finish_keeps:
  assumes G: "rec_good env r file (rl_held l) ph" and ctx: "rec_ctx r \<noteq> None"
    and rescale: "\<And>st t. NOPTS < re_rescale env st t" and e: "\<And>k. rl_pkt l k = None"
  shows "\<exists>ok r'. recorder_finish env r l = Some (ok, r') \<and> recorder_kept r r' \<and> rec_ctx r' \<noteq> None \<and>
    rec_queue r' = rec_queue r \<and> rec_good env r' (recorder_file file r') (\<lambda>_. []) ph \<and>
    (\<forall>k. \<exists>lost. rec_done file r l k = map rec_key (rec_written (recorder_file file r') r' k) @ lost \<and>
      length lost \<le> (if k = Rec_video then 1 else 0))"
proof (cases "rl_video_pkt_previous l")
  case None
  have "rl_previous l k = None" for k using None by (cases k) auto
  then have "rec_done file r l k = map rec_key (rec_written file r k)" for k
    using e by (simp add: rec_done_def rl_wanted_def)
  moreover have "rec_good env r file (\<lambda>_. []) ph" by (rule rec_good_held [OF G]) simp
  moreover have "recorder_file file r = file" using G by (simp add: rec_good_def rec_wf_file)
  ultimately show ?thesis using None ctx by (auto simp: recorder_finish_def)
next
  case (Some p)
  let ?p = "p\<lparr>rp_duration := 100000\<rparr>"
  have "rp_stream_index ?p \<in> rp_stream_index ` set (rl_held l Rec_video)"
    using Some by (auto simp: rl_held_def)
  from write_good [OF G ctx this rescale] obtain ok r' where
    w: "sc_recorder_write_stream env Rec_video ?p r = Some (ok, r')" "recorder_kept r r'" "rec_ctx r' \<noteq> None"
      "rec_queue r' = rec_queue r" "rec_good env r' (recorder_file file r') (rl_held l) ph"
      "\<And>j. map rec_key (rec_written (recorder_file file r') r' j) =
        map rec_key (rec_written file r j) @ (if j = Rec_video \<and> ok then [rec_key ?p] else [])"
    by blast
  have "\<exists>lost. rec_done file r l k = map rec_key (rec_written (recorder_file file r') r' k) @ lost \<and>
      length lost \<le> (if k = Rec_video then 1 else 0)" for k
    using Some e [of k] w(6) [of k] by (cases k) (auto simp: rec_done_def rl_wanted_def)
  moreover have "rec_good env r' (recorder_file file r') (\<lambda>_. []) ph" by (rule rec_good_held [OF w(5)]) simp
  moreover have "recorder_finish env r l = Some (re_write_trailer env, r')"
    using Some w(1,3) by (auto simp: recorder_finish_def)
  ultimately show ?thesis using w(2-4) by blast
qed

section \<open>The invariant of the system\<close>

fun pc_held :: "rec_pc \<Rightarrow> rec_kind \<Rightarrow> rec_packet list" where
  "pc_held (Rec_header_got v a) k = (case k of Rec_video \<Rightarrow> opt_list v | Rec_audio \<Rightarrow> opt_list a)"
| "pc_held (Rec_at_lock l) k = rl_held l k"
| "pc_held (Rec_waiting l) k = rl_held l k"
| "pc_held (Rec_got l) k = rl_held l k"
| "pc_held (Rec_flushing l) k = rl_held l k"
| "pc_held _ k = []"

fun pc_wanted :: "rec_pc \<Rightarrow> rec_kind \<Rightarrow> (bytes \<times> u32) list" where
  "pc_wanted (Rec_header_got v a) k = wanted (case k of Rec_video \<Rightarrow> opt_list v | Rec_audio \<Rightarrow> opt_list a)"
| "pc_wanted (Rec_at_lock l) k = rl_wanted l k"
| "pc_wanted (Rec_waiting l) k = rl_wanted l k"
| "pc_wanted (Rec_got l) k = rl_wanted l k"
| "pc_wanted (Rec_flushing l) k = rl_wanted l k"
| "pc_wanted _ k = []"

text \<open>The thread is done: whether it succeeded.\<close>

fun pc_result :: "rec_pc \<Rightarrow> bool option" where
  "pc_result (Rec_closing ok) = Some ok"
| "pc_result (Rec_ending ok) = Some ok"
| "pc_result (Rec_ended ok) = Some ok"
| "pc_result _ = None"

fun pc_open :: "rec_pc \<Rightarrow> bool" where
  "pc_open Rec_at_start = False"
| "pc_open (Rec_ending ok) = False"
| "pc_open (Rec_ended ok) = False"
| "pc_open _ = True"

text \<open>The packets with a time that the sink has accepted, by their content.\<close>

definition accepted_keys :: "av_packet list \<Rightarrow> (bytes \<times> u32) list" where
  "accepted_keys ps = map (\<lambda>p. (pkt_data p, pkt_flags p)) (filter (\<lambda>p. pkt_pts p \<noteq> AV_NOPTS_VALUE) ps)"

definition rec_order :: "rec_system \<Rightarrow> rec_kind \<Rightarrow> bool" where
  "rec_order s k \<longleftrightarrow>
     (let acc = accepted_keys (rsy_accepted s k);
          done = map rec_key (rec_written (rsy_file s) (rsy_rec s) k)
      in case pc_result (rsy_pc s) of
           None \<Rightarrow> acc = done @ pc_wanted (rsy_pc s) k @ wanted (vd_content (rec_queue (rsy_rec s) k))
         | Some ok \<Rightarrow> ok \<longrightarrow> (\<exists>lost. acc = done @ lost \<and> length lost \<le> (if k = Rec_video then 1 else 0)))"

definition rec_drained :: "rec_system \<Rightarrow> bool" where
  "rec_drained s \<longleftrightarrow> rec_stopped (rsy_rec s) \<and> (\<forall>k. vd_content (rec_queue (rsy_rec s) k) = [])"

definition rec_inv :: "recorder_env \<Rightarrow> rec_system \<Rightarrow> bool" where
  "rec_inv env s \<longleftrightarrow>
     rec_good env (rsy_rec s) (rsy_file s) (pc_held (rsy_pc s)) (rsy_phase s) \<and>
     (\<forall>k. rec_order s k) \<and>
     (rsy_pc s = Rec_at_start \<longrightarrow> rec_ctx (rsy_rec s) = None \<and> (\<forall>k. rs_index (rec_stream (rsy_rec s) k) = -1) \<and>
       sc_recorder_get_format_name (rec_format (rsy_rec s)) \<noteq> None \<and> rsy_file s = []) \<and>
     (pc_open (rsy_pc s) \<longrightarrow> rec_ctx (rsy_rec s) \<noteq> None) \<and>
     (rsy_pc s = Rec_header_waiting \<longrightarrow> recorder_header_waits (rsy_rec s)) \<and>
     (\<forall>l. rsy_pc s = Rec_waiting l \<longrightarrow> recorder_packets_wait (rsy_rec s) l) \<and>
     \<not> sc_orientation_is_mirror (rec_orientation (rsy_rec s)) \<and>
     (pc_result (rsy_pc s) = Some True \<longrightarrow> rec_drained s) \<and>
     (\<forall>l. rsy_pc s = Rec_flushing l \<longrightarrow> rec_drained s \<and> (\<forall>k. rl_pkt l k = None))"

lemma woken_simps [simp]:
  "pc_held (recorder_woken pc) = pc_held pc" "pc_wanted (recorder_woken pc) = pc_wanted pc"
  "pc_result (recorder_woken pc) = pc_result pc" "pc_open (recorder_woken pc) = pc_open pc"
  "recorder_woken pc = Rec_at_start \<longleftrightarrow> pc = Rec_at_start" "recorder_woken pc \<noteq> Rec_header_waiting"
  "recorder_woken pc \<noteq> Rec_waiting l" "recorder_woken pc = Rec_flushing l \<longleftrightarrow> pc = Rec_flushing l"
  by (cases pc; auto)+

lemma accepted_key: "wanted [rec_of r k p] = accepted_keys [p]"
  by (auto simp: wanted_def accepted_keys_def rec_key_def rec_of_def NOPTS_def dest: signed_word_eqI)

lemma accepted_keys_append [simp]: "accepted_keys (ps @ qs) = accepted_keys ps @ accepted_keys qs"
  "accepted_keys [] = []"
  by (simp_all add: accepted_keys_def)

text \<open>What the operations of the sinks keep.\<close>

lemma open_keeps:
  assumes G: "rec_good env r file H ph" and o: "recorder_opened k ok r r'" and ph: "ph k = Sink_new"
  shows "rec_good env r' file H (ph(k := if ok then Sink_fed else Sink_ended))"
    "rec_written file r' j = rec_written file r j"
proof -
  note op = o [unfolded recorder_opened_def]
  from G have wf: "rec_wf r file" and K: "\<And>j. rec_k env r file (H j) (ph j) j" by (simp_all add: rec_good_def)
  from K [of k] ph have new: "rs_index (rec_stream r k) = -1" "H k = []" "vd_content (rec_queue r k) = []"
    "rec_enabled r k"
    by (auto simp: rec_k_def)
  show written: "rec_written file r' j = rec_written file r j" for j
  proof (cases "rs_index (rec_stream r' j) = rs_index (rec_stream r j)")
    case False
    with op have j: "j = k" and ctx: "rec_ctx r \<noteq> None" by auto
    then obtain fc where fc: "rec_ctx r = Some fc" by auto
    with op False j have "rs_index (rec_stream r' k) = int (length (fc_streams fc))" by auto
    moreover from wf fc have "\<forall>p \<in> set file. 0 \<le> rp_stream_index p \<and>
        rp_stream_index p < int (length (fc_streams fc))" by (auto simp: rec_wf_def)
    ultimately have "rec_written file r k = []" "rec_written file r' k = []"
      using new(1) by (auto simp: rec_written_def filter_empty_conv)
    with j show ?thesis by simp
  qed (simp add: rec_written_def)
  have "rec_k env r' file (H j) ((ph(k := if ok then Sink_fed else Sink_ended)) j) j" for j
  proof (cases "j = k")
    case True
    have "\<forall>fc. rec_ctx r' = Some fc \<longrightarrow> rs_index (rec_stream r' k) < int (length (fc_streams fc))"
    proof (cases "rec_ctx r")
      case (Some fc)
      with K [of k] have "rs_index (rec_stream r k) < int (length (fc_streams fc))" by (simp add: rec_k_def)
      with op Some show ?thesis by (cases "rs_index (rec_stream r' k) = rs_index (rec_stream r k)") auto
    qed (use op in simp)
    with True K [of k] op new show ?thesis by (simp add: rec_k_def written)
  next
    case False
    have "\<forall>fc. rec_ctx r' = Some fc \<longrightarrow> rs_index (rec_stream r' j) < int (length (fc_streams fc))"
    proof (cases "rec_ctx r")
      case (Some fc)
      with K [of j] have "rs_index (rec_stream r j) < int (length (fc_streams fc))" by (simp add: rec_k_def)
      with op Some False show ?thesis by auto
    qed (use op in simp)
    with False K [of j] op show ?thesis by (simp add: rec_k_def written)
  qed
  moreover have "rec_wf r' file"
  proof (cases "rec_ctx r")
    case None
    with op wf show ?thesis by auto
  next
    case (Some fc)
    with op obtain fc' where fc': "rec_ctx r' = Some fc'" "fc_written fc' = fc_written fc"
      "length (fc_streams fc) \<le> length (fc_streams fc')" by auto
    have lt: "rs_index (rec_stream r j) < int (length (fc_streams fc))" for j using K [of j] Some by (simp add: rec_k_def)
    have other: "rs_index (rec_stream r' j) = rs_index (rec_stream r j)" if "j \<noteq> k" for j using op that by blast
    have "0 \<le> rs_index (rec_stream r' Rec_video) \<Longrightarrow>
        rs_index (rec_stream r' Rec_video) \<noteq> rs_index (rec_stream r' Rec_audio)"
    proof (cases "rs_index (rec_stream r' k) = rs_index (rec_stream r k)")
      case True
      with other have "rs_index (rec_stream r' j) = rs_index (rec_stream r j)" for j by (cases "j = k") auto
      then show "0 \<le> rs_index (rec_stream r' Rec_video) \<Longrightarrow> ?thesis" using wf by (simp add: rec_wf_def)
    next
      case False
      with op Some have "rs_index (rec_stream r' k) = int (length (fc_streams fc))" by auto
      then show ?thesis using lt [of Rec_video] lt [of Rec_audio] other by (cases k) auto
    qed
    moreover have "\<forall>p \<in> set file. 0 \<le> rp_stream_index p \<and> rp_stream_index p < int (length (fc_streams fc'))"
    proof
      fix p assume "p \<in> set file"
      with wf Some have "0 \<le> rp_stream_index p" "rp_stream_index p < int (length (fc_streams fc))"
        by (auto simp: rec_wf_def)
      with fc'(3) show "0 \<le> rp_stream_index p \<and> rp_stream_index p < int (length (fc_streams fc'))" by linarith
    qed
    ultimately show ?thesis using wf Some fc'(1,2) by (simp add: rec_wf_def)
  qed
  ultimately show "rec_good env r' file H (ph(k := if ok then Sink_fed else Sink_ended))"
    by (simp add: rec_good_def)
qed

lemma push_keeps:
  assumes G: "rec_good env r file H ph" and k: "rec_enabled r k" "0 \<le> rs_index (rec_stream r k)"
    and q: "vd_inv (re_cap env) q" "vd_content q = vd_content (rec_queue r k) @ (if ok then [rec_of r k p] else [])"
    and ph: "ph k = Sink_fed"
  shows "rec_good env (r\<lparr>rec_queue := (rec_queue r)(k := q)\<rparr>) file H
    (ph(k := if ok then Sink_fed else Sink_refused))"
proof -
  let ?r = "r\<lparr>rec_queue := (rec_queue r)(k := q)\<rparr>"
  from G have wf: "rec_wf r file" and K: "\<And>j. rec_k env r file (H j) (ph j) j" by (simp_all add: rec_good_def)
  have w: "rec_written file ?r j = rec_written file r j" for j by (simp add: rec_written_def)
  have "rec_k env ?r file (H j) ((ph(k := if ok then Sink_fed else Sink_refused)) j) j" for j
  proof (cases "j = k")
    case True
    with K [of k] k q ph show ?thesis by (auto simp: rec_k_def w rec_of_def)
  next
    case False
    with K [of j] show ?thesis by (simp add: rec_k_def w)
  qed
  moreover have "rec_wf ?r file" using wf by (auto simp: rec_wf_def)
  ultimately show ?thesis by (simp add: rec_good_def)
qed

text \<open>The hypotheses on the libraries: times, once converted, are times, and names of muxers are C strings.\<close>

definition recorder_env_ok :: "recorder_env \<Rightarrow> bool" where
  "recorder_env_ok env \<longleftrightarrow> re_cap env \<le> SIZE_MAX div 2 \<and>
     (\<forall>stream t. NOPTS < re_rescale env stream t) \<and>
     (\<forall>names \<in> set (re_muxers env). NUL \<notin> set names)"

lemma find_muxer_defined:
  "\<forall>names \<in> set muxers. NUL \<notin> set names \<Longrightarrow> \<exists>m. find_muxer muxers name = Some m"
proof (induction muxers)
  case (Cons names muxers)
  then have "sc_str_list_contains names CHR '','' name \<noteq> None"
    by (subst sc_str_list_contains_iff) (auto simp: NUL_def)
  with Cons show ?case by auto
qed simp

lemma open_file_keeps:
  assumes G: "rec_good env r [] H ph" and at: "rec_ctx r = None" "\<And>k. rs_index (rec_stream r k) = -1"
    and f: "sc_recorder_get_format_name (rec_format r) \<noteq> None" and env: "recorder_env_ok env"
  shows "\<exists>ok r'. sc_recorder_open_output_file env r = Some (ok, r') \<and> (ok \<longrightarrow> rec_ctx r' \<noteq> None) \<and>
    rec_queue r' = rec_queue r \<and> rec_orientation r' = rec_orientation r \<and> rec_good env r' (recorder_file [] r') H ph \<and>
    recorder_file [] r' = []"
proof -
  obtain name where n: "sc_recorder_get_format_name (rec_format r) = Some name" using f by auto
  obtain m where m: "find_muxer (re_muxers env) name = Some m"
    using find_muxer_defined [of "re_muxers env" name] env by (auto simp: recorder_env_ok_def)
  have r: "r\<lparr>rec_ctx := None\<rparr> = r" using at(1) by simp
  have G': "rec_good env (r\<lparr>rec_ctx := Some \<lparr>fc_url = url, fc_oformat = f, fc_streams = [], fc_written = []\<rparr>\<rparr>) [] H ph"
    for url f
    using G at by (simp add: rec_good_def rec_wf_def rec_k_def rec_written_def)
  show ?thesis
  proof (cases "m = None \<or> \<not> re_alloc_context env \<or> \<not> re_concat env \<or> \<not> re_avio_open env")
    case True
    then have "sc_recorder_open_output_file env r = Some (False, r)"
      using n m r by (auto simp: sc_recorder_open_output_file_def sc_str_concat_def split: option.splits)
    with G at(1) show ?thesis by (intro exI [of _ False]) (auto simp: recorder_file_def)
  next
    case False
    then obtain f where "m = Some f" by auto
    with False n m G' show ?thesis
      by (auto simp: sc_recorder_open_output_file_def sc_str_concat_def recorder_file_def)
  qed
qed

lemma close_file_keeps:
  assumes "rec_good env r file H ph" "rec_ctx r \<noteq> None"
  shows "\<exists>r'. sc_recorder_close_output_file r = Some r' \<and> rec_queue r' = rec_queue r \<and> rec_stopped r' = rec_stopped r \<and>
    rec_orientation r' = rec_orientation r \<and> rec_good env r' file H ph \<and> recorder_file file r' = file \<and>
    rec_stream r' = rec_stream r"
  using assms by (auto simp: sc_recorder_close_output_file_def rec_good_def rec_wf_def rec_k_def rec_written_def
      recorder_file_def)

lemma end_keeps:
  assumes G: "rec_good env r file (\<lambda>_. []) ph" and env: "recorder_env_ok env"
  shows "\<exists>r'. recorder_end r = Some r' \<and> rec_good env r' file (\<lambda>_. []) ph \<and> rec_stopped r' \<and>
    (\<forall>k. vd_content (rec_queue r' k) = []) \<and> rec_orientation r' = rec_orientation r \<and> rec_stream r' = rec_stream r \<and>
    rec_ctx r' = rec_ctx r"
proof -
  from G have inv: "vd_inv (re_cap env) (rec_queue r k)" for k by (auto simp: rec_good_def rec_k_def)
  let ?r = "r\<lparr>rec_stopped := True, rec_queue := ((rec_queue r)(Rec_video := sc_vecdeque_init))(Rec_audio := sc_vecdeque_init)\<rparr>"
  have i: "vd_inv (re_cap env) (sc_vecdeque_init :: rec_packet sc_vecdeque)"
    "vd_content (sc_vecdeque_init :: rec_packet sc_vecdeque) = []"
    using env vd_init by (auto simp: recorder_env_ok_def)
  then have q: "vd_content (rec_queue ?r k) = []" "vd_inv (re_cap env) (rec_queue ?r k)" for k by (cases k; simp)+
  have "recorder_end r = Some ?r"
    using vd_drain_spec [OF inv] by (simp add: recorder_end_def sc_recorder_queue_clear_def)
  moreover have "rec_k env ?r file [] (ph k) k" for k
    using G q [of k] by (cases k) (simp_all add: rec_good_def rec_k_def rec_written_def i)
  moreover have "rec_wf ?r file" using G by (auto simp: rec_good_def rec_wf_def)
  ultimately show ?thesis using q by (intro exI [of _ ?r]) (simp add: rec_good_def)
qed

lemma rec_invD:
  assumes "rec_inv env s"
  shows "rec_good env (rsy_rec s) (rsy_file s) (pc_held (rsy_pc s)) (rsy_phase s)" "\<And>k. rec_order s k"
    "pc_open (rsy_pc s) \<Longrightarrow> rec_ctx (rsy_rec s) \<noteq> None" "\<not> sc_orientation_is_mirror (rec_orientation (rsy_rec s))"
    "recorder_file (rsy_file s) (rsy_rec s) = rsy_file s"
  using assms by (auto simp: rec_inv_def rec_good_def rec_wf_file)

text \<open>What is to show for a step of the thread that neither starts nor waits.\<close>

lemma rec_invI:
  assumes "rec_good env r fl (pc_held pc) ph" "\<And>k. rec_order \<lparr>rsy_rec = r, rsy_pc = pc, rsy_phase = ph, rsy_accepted = acc, rsy_file = fl\<rparr> k"
    "pc_open pc \<Longrightarrow> rec_ctx r \<noteq> None" "\<not> sc_orientation_is_mirror (rec_orientation r)" "pc \<noteq> Rec_at_start"
    "pc = Rec_header_waiting \<Longrightarrow> recorder_header_waits r" "\<And>l. pc = Rec_waiting l \<Longrightarrow> recorder_packets_wait r l"
    "pc_result pc = Some True \<Longrightarrow> rec_stopped r \<and> (\<forall>k. vd_content (rec_queue r k) = [])"
    "\<And>l. pc = Rec_flushing l \<Longrightarrow> rec_stopped r \<and> (\<forall>k. vd_content (rec_queue r k) = []) \<and> (\<forall>k. rl_pkt l k = None)"
  shows "rec_inv env \<lparr>rsy_rec = r, rsy_pc = pc, rsy_phase = ph, rsy_accepted = acc, rsy_file = fl\<rparr>"
  using assms by (simp add: rec_inv_def rec_drained_def)

lemma run_keeps:
  assumes I: "rec_inv env s" and env: "recorder_env_ok env"
  shows "\<exists>pc r. recorder_run env (rsy_pc s) (rsy_rec s) = Some (pc, r) \<and>
    rec_inv env (s\<lparr>rsy_rec := r, rsy_pc := pc, rsy_file := recorder_file (rsy_file s) r\<rparr>)"
proof -
  obtain r pc ph acc fl where s: "s = \<lparr>rsy_rec = r, rsy_pc = pc, rsy_phase = ph, rsy_accepted = acc, rsy_file = fl\<rparr>"
    by (cases s)
  note inv = I [unfolded s rec_inv_def, simplified]
  from rec_invD [OF I] have G: "rec_good env r fl (pc_held pc) ph" and
    O: "\<And>k. rec_order \<lparr>rsy_rec = r, rsy_pc = pc, rsy_phase = ph, rsy_accepted = acc, rsy_file = fl\<rparr> k"
    and ctx: "pc_open pc \<Longrightarrow> rec_ctx r \<noteq> None" and mirror: "\<not> sc_orientation_is_mirror (rec_orientation r)"
    and fl: "recorder_file fl r = fl"
    by (simp_all add: s)
  have rescale: "\<And>st t. NOPTS < re_rescale env st t" using env by (simp add: recorder_env_ok_def)
  have keep: "recorder_kept r r' \<Longrightarrow> \<not> sc_orientation_is_mirror (rec_orientation r') \<and> rec_stopped r' = rec_stopped r \<and>
      (rec_ctx r' = None \<longleftrightarrow> rec_ctx r = None)" for r'
    using mirror by (auto simp: recorder_kept_def)
  have lists: "rec_written fl r' k = rec_written fl r k" if "rec_stream r' = rec_stream r" for r' k
    using that by (simp add: rec_written_def)
  have same: "recorder_file fl r' = fl" if "rec_good env r' fl H ph" for r' H
    using that by (simp add: rec_good_def rec_wf_file)
  have "\<exists>pc' r'. recorder_run env pc r = Some (pc', r') \<and>
    rec_inv env \<lparr>rsy_rec = r', rsy_pc = pc', rsy_phase = ph, rsy_accepted = acc, rsy_file = recorder_file fl r'\<rparr>"
  proof (cases pc)
    case Rec_at_start
    with inv have at: "rec_ctx r = None" "\<And>k. rs_index (rec_stream r k) = -1"
      "sc_recorder_get_format_name (rec_format r) \<noteq> None" "fl = []" by (auto simp: rec_drained_def)
    from G at(4) have "rec_good env r [] (pc_held pc) ph" by simp
    from open_file_keeps [OF this at(1-3) env] obtain ok r' where
      o: "sc_recorder_open_output_file env r = Some (ok, r')" "ok \<longrightarrow> rec_ctx r' \<noteq> None" "rec_queue r' = rec_queue r"
        "rec_orientation r' = rec_orientation r" "rec_good env r' (recorder_file [] r') (pc_held pc) ph"
        "recorder_file [] r' = []" by blast
    have "rec_inv env \<lparr>rsy_rec = r', rsy_pc = if ok then Rec_header_lock else Rec_ending False, rsy_phase = ph,
        rsy_accepted = acc, rsy_file = []\<rparr>"
    proof (rule rec_invI)
      show "rec_good env r' [] (pc_held (if ok then Rec_header_lock else Rec_ending False)) ph"
        using o(5,6) Rec_at_start by (auto simp: rec_good_def)
    qed (use o O at(4) mirror Rec_at_start in \<open>cases ok; auto simp: rec_order_def rec_written_def\<close>)+
    with o(1,6) Rec_at_start at(4) show ?thesis by simp
  next
    case Rec_header_lock
    with G have G0: "rec_good env r fl (\<lambda>_. []) ph" by (auto simp: rec_good_def)
    show ?thesis
    proof (cases "recorder_header_waits r")
      case True
      with Rec_header_lock G0 O ctx mirror fl show ?thesis
        by (auto intro!: rec_invI simp: rec_order_def rec_good_def)
    next
      case False
      from header_take_keeps [OF G0 False] obtain got r' where
        t: "recorder_header_take r = Some (got, r')" "recorder_kept r r'" "rec_ctx r' = rec_ctx r" "rec_stream r' = rec_stream r"
          "case got of None \<Rightarrow> rec_good env r' fl (\<lambda>_. []) ph
           | Some (v, a) \<Rightarrow> rec_good env r' fl (\<lambda>k. case k of Rec_video \<Rightarrow> opt_list v | Rec_audio \<Rightarrow> opt_list a) ph \<and>
             (\<forall>k. (case k of Rec_video \<Rightarrow> opt_list v | Rec_audio \<Rightarrow> opt_list a) @ vd_content (rec_queue r' k) =
               vd_content (rec_queue r k))" by blast
      show ?thesis
      proof (cases got)
        case None
        with t False Rec_header_lock ctx keep [OF t(2)] same show ?thesis
          by (auto intro!: rec_invI simp: rec_order_def rec_good_def)
      next
        case (Some va)
        obtain v a where va: "va = (v, a)" by force
        with Some t(5) have g: "rec_good env r' fl (\<lambda>k. case k of Rec_video \<Rightarrow> opt_list v | Rec_audio \<Rightarrow> opt_list a) ph"
          "\<And>k. vd_content (rec_queue r k) = (case k of Rec_video \<Rightarrow> opt_list v | Rec_audio \<Rightarrow> opt_list a) @
            vd_content (rec_queue r' k)" by simp_all
        have "rec_inv env \<lparr>rsy_rec = r', rsy_pc = Rec_header_got v a, rsy_phase = ph, rsy_accepted = acc, rsy_file = fl\<rparr>"
        proof (rule rec_invI)
          show "rec_good env r' fl (pc_held (Rec_header_got v a)) ph" using g(1) by (simp add: rec_good_def)
          show "rec_order \<lparr>rsy_rec = r', rsy_pc = Rec_header_got v a, rsy_phase = ph, rsy_accepted = acc, rsy_file = fl\<rparr> k" for k
            using O [of k] Rec_header_lock g(2) [of k] lists [OF t(4)] by (simp add: rec_order_def)
        qed (use t(3) ctx keep [OF t(2)] Rec_header_lock in auto)
        with t(1) False Rec_header_lock Some va same [OF g(1)] show ?thesis by simp
      qed
    qed
  next
    case Rec_header_waiting
    with G O ctx mirror fl show ?thesis by (auto intro!: rec_invI simp: rec_order_def rec_good_def)
  next
    case (Rec_header_got v a)
    with G have G0: "rec_good env r fl (pc_held (Rec_header_got v a)) ph" by simp
    from ctx Rec_header_got have c: "rec_ctx r \<noteq> None" by simp
    from header_write_keeps [OF G0 c, of v a] obtain ok r' where
      w: "recorder_header_write env v a r = Some (ok, r')" "recorder_kept r r'" "rec_ctx r' \<noteq> None"
        "rec_stream r' = rec_stream r" "rec_queue r' = rec_queue r" "rec_good env r' fl (pc_held (Rec_header_got v a)) ph"
        "ok \<longrightarrow> wanted (opt_list v) = [] \<and> wanted (opt_list a) = []" by auto
    have g: "rec_good env r' fl (\<lambda>_. []) ph" by (rule rec_good_held [OF w(6)]) simp
    have i: "rl_held rec_locals_init k = []" "rl_wanted rec_locals_init k = []" "pc_wanted (Rec_closing False) k = []" for k
      by (cases k; simp add: rl_held_def rl_wanted_def rec_locals_init_def)+
    have "rec_inv env \<lparr>rsy_rec = r', rsy_pc = if ok then Rec_at_lock rec_locals_init else Rec_closing False, rsy_phase = ph,
        rsy_accepted = acc, rsy_file = fl\<rparr>"
    proof (rule rec_invI)
      show "rec_good env r' fl (pc_held (if ok then Rec_at_lock rec_locals_init else Rec_closing False)) ph"
        using g by (auto simp: rec_good_def i)
      show "rec_order \<lparr>rsy_rec = r', rsy_pc = if ok then Rec_at_lock rec_locals_init else Rec_closing False, rsy_phase = ph,
          rsy_accepted = acc, rsy_file = fl\<rparr> k" for k
        using O [of k] Rec_header_got w(5,7) lists [OF w(4)] i by (cases k) (auto simp: rec_order_def)
    qed (use w(3) keep [OF w(2)] in \<open>cases ok; auto\<close>)+
    with w(1) Rec_header_got same [OF g] show ?thesis by simp
  next
    case (Rec_at_lock l)
    with G have G0: "rec_good env r fl (rl_held l) ph" by (auto simp: rec_good_def)
    show ?thesis
    proof (cases "recorder_packets_wait r l")
      case True
      with Rec_at_lock G0 O ctx mirror fl show ?thesis
        by (auto intro!: rec_invI simp: rec_order_def rec_good_def)
    next
      case False
      from take_keeps [OF G0 False] obtain en r' l' where
        t: "recorder_take r l = Some (en, r', l')" "recorder_kept r r'" "rec_ctx r' = rec_ctx r" "rec_stream r' = rec_stream r"
          "rec_good env r' fl (rl_held l') ph"
          "\<forall>k. rl_wanted l' k @ wanted (vd_content (rec_queue r' k)) = rl_wanted l k @ wanted (vd_content (rec_queue r k))"
          "en \<longrightarrow> rec_stopped r' \<and> (\<forall>k. rl_pkt l' k = None \<and> vd_content (rec_queue r' k) = [])" by blast
      have "rec_inv env \<lparr>rsy_rec = r', rsy_pc = if en then Rec_flushing l' else Rec_got l', rsy_phase = ph,
          rsy_accepted = acc, rsy_file = fl\<rparr>"
      proof (rule rec_invI)
        show "rec_good env r' fl (pc_held (if en then Rec_flushing l' else Rec_got l')) ph"
          using t(5) by (auto simp: rec_good_def)
        show "rec_order \<lparr>rsy_rec = r', rsy_pc = if en then Rec_flushing l' else Rec_got l', rsy_phase = ph,
            rsy_accepted = acc, rsy_file = fl\<rparr> k" for k
          using O [of k] Rec_at_lock t(6) lists [OF t(4)] by (auto simp: rec_order_def)
      qed (use t(3,7) ctx keep [OF t(2)] Rec_at_lock in \<open>auto split: if_splits\<close>)
      with t(1) False Rec_at_lock same [OF t(5)] show ?thesis by simp
    qed
  next
    case (Rec_waiting l)
    with G O ctx mirror fl show ?thesis by (auto intro!: rec_invI simp: rec_order_def rec_good_def)
  next
    case (Rec_got l)
    with G have G0: "rec_good env r fl (rl_held l) ph" by (auto simp: rec_good_def)
    from ctx Rec_got have c: "rec_ctx r \<noteq> None" by simp
    from process_keeps [OF G0 c rescale] obtain ok r' l' where
      p: "recorder_process env r l = Some (ok, r', l')" "recorder_kept r r'" "rec_ctx r' \<noteq> None" "rec_queue r' = rec_queue r"
        "rec_good env r' (recorder_file fl r') (if ok then rl_held l' else (\<lambda>_. [])) ph"
        "ok \<longrightarrow> (\<forall>k. rec_done (recorder_file fl r') r' l' k = rec_done fl r l k)" by blast
    have "rec_inv env \<lparr>rsy_rec = r', rsy_pc = if ok then Rec_at_lock l' else Rec_closing False, rsy_phase = ph,
        rsy_accepted = acc, rsy_file = recorder_file fl r'\<rparr>"
    proof (rule rec_invI)
      show "rec_good env r' (recorder_file fl r') (pc_held (if ok then Rec_at_lock l' else Rec_closing False)) ph"
        using p(5) by (auto simp: rec_good_def)
      show "rec_order \<lparr>rsy_rec = r', rsy_pc = if ok then Rec_at_lock l' else Rec_closing False, rsy_phase = ph,
          rsy_accepted = acc, rsy_file = recorder_file fl r'\<rparr> k" for k
        using O [of k] Rec_got p(4,6) by (auto simp: rec_order_def rec_done_def)
    qed (use p(3) keep [OF p(2)] in \<open>cases ok; auto\<close>)+
    with p(1) Rec_got show ?thesis by simp
  next
    case (Rec_flushing l)
    with G have G0: "rec_good env r fl (rl_held l) ph" by (auto simp: rec_good_def)
    from ctx Rec_flushing have c: "rec_ctx r \<noteq> None" by simp
    from inv Rec_flushing have d: "rec_stopped r" "\<And>k. vd_content (rec_queue r k) = []" "\<And>k. rl_pkt l k = None"
      by (auto simp: rec_drained_def)
    from finish_keeps [OF G0 c rescale d(3)] obtain ok r' where
      p: "recorder_finish env r l = Some (ok, r')" "recorder_kept r r'" "rec_ctx r' \<noteq> None" "rec_queue r' = rec_queue r"
        "rec_good env r' (recorder_file fl r') (\<lambda>_. []) ph"
        "\<forall>k. \<exists>lost. rec_done fl r l k = map rec_key (rec_written (recorder_file fl r') r' k) @ lost \<and>
          length lost \<le> (if k = Rec_video then 1 else 0)" by blast
    have "rec_inv env \<lparr>rsy_rec = r', rsy_pc = Rec_closing ok, rsy_phase = ph, rsy_accepted = acc,
        rsy_file = recorder_file fl r'\<rparr>"
    proof (rule rec_invI)
      show "rec_good env r' (recorder_file fl r') (pc_held (Rec_closing ok)) ph" using p(5) by (simp add: rec_good_def)
      show "rec_order \<lparr>rsy_rec = r', rsy_pc = Rec_closing ok, rsy_phase = ph, rsy_accepted = acc,
          rsy_file = recorder_file fl r'\<rparr> k" for k
        using O [of k] Rec_flushing p(4,6) d(2) by (simp add: rec_order_def rec_done_def)
    qed (use p(3,4) d keep [OF p(2)] in auto)
    with p(1) Rec_flushing show ?thesis by simp
  next
    case (Rec_closing ok)
    from ctx Rec_closing have c: "rec_ctx r \<noteq> None" by simp
    from close_file_keeps [OF G c] obtain r' where
      p: "sc_recorder_close_output_file r = Some r'" "rec_queue r' = rec_queue r" "rec_stopped r' = rec_stopped r"
        "rec_orientation r' = rec_orientation r" "rec_good env r' fl (pc_held pc) ph" "recorder_file fl r' = fl"
        "rec_stream r' = rec_stream r" by blast
    have "rec_inv env \<lparr>rsy_rec = r', rsy_pc = Rec_ending ok, rsy_phase = ph, rsy_accepted = acc, rsy_file = fl\<rparr>"
    proof (rule rec_invI)
      show "rec_good env r' fl (pc_held (Rec_ending ok)) ph" using p(5) Rec_closing by (simp add: rec_good_def)
      show "rec_order \<lparr>rsy_rec = r', rsy_pc = Rec_ending ok, rsy_phase = ph, rsy_accepted = acc, rsy_file = fl\<rparr> k" for k
        using O [of k] Rec_closing lists [OF p(7)] by (simp add: rec_order_def)
    qed (use p mirror inv Rec_closing in \<open>auto simp: rec_drained_def\<close>)
    with p(1,6) Rec_closing show ?thesis by simp
  next
    case (Rec_ending ok)
    with G have "rec_good env r fl (\<lambda>_. []) ph" by (auto simp: rec_good_def)
    from end_keeps [OF this env] obtain r' where
      p: "recorder_end r = Some r'" "rec_good env r' fl (\<lambda>_. []) ph" "rec_stopped r'" "\<forall>k. vd_content (rec_queue r' k) = []"
        "rec_orientation r' = rec_orientation r" "rec_stream r' = rec_stream r" "rec_ctx r' = rec_ctx r" by blast
    have "rec_inv env \<lparr>rsy_rec = r', rsy_pc = Rec_ended ok, rsy_phase = ph, rsy_accepted = acc, rsy_file = fl\<rparr>"
    proof (rule rec_invI)
      show "rec_good env r' fl (pc_held (Rec_ended ok)) ph" using p(2) by (simp add: rec_good_def)
      show "rec_order \<lparr>rsy_rec = r', rsy_pc = Rec_ended ok, rsy_phase = ph, rsy_accepted = acc, rsy_file = fl\<rparr> k" for k
        using O [of k] Rec_ending lists [OF p(6)] by (simp add: rec_order_def)
    qed (use p mirror in auto)
    with p(1) Rec_ending same [OF p(2)] show ?thesis by simp
  next
    case (Rec_ended ok)
    with I fl s show ?thesis by simp
  qed
  then show ?thesis by (simp add: s)
qed

lemma rec_good_fields:
  assumes "rec_good env r fl H ph" "rec_queue r' = rec_queue r" "rec_stream r' = rec_stream r" "rec_ctx r' = rec_ctx r"
    "\<And>k. rec_k env r fl (H k) (ph k) k \<Longrightarrow> rec_k env r' fl (H k) (ph' k) k"
  shows "rec_good env r' fl H ph'"
  using assms by (auto simp: rec_good_def rec_wf_def)

text \<open>The invariant, conjunct by conjunct.\<close>

lemma rec_inv_intro:
  assumes "rec_good env (rsy_rec s) (rsy_file s) (pc_held (rsy_pc s)) (rsy_phase s)" "\<And>k. rec_order s k"
    "rsy_pc s = Rec_at_start \<Longrightarrow> rec_ctx (rsy_rec s) = None \<and> (\<forall>k. rs_index (rec_stream (rsy_rec s) k) = -1) \<and>
       sc_recorder_get_format_name (rec_format (rsy_rec s)) \<noteq> None \<and> rsy_file s = []"
    "pc_open (rsy_pc s) \<Longrightarrow> rec_ctx (rsy_rec s) \<noteq> None"
    "rsy_pc s = Rec_header_waiting \<Longrightarrow> recorder_header_waits (rsy_rec s)"
    "\<And>l. rsy_pc s = Rec_waiting l \<Longrightarrow> recorder_packets_wait (rsy_rec s) l"
    "\<not> sc_orientation_is_mirror (rec_orientation (rsy_rec s))"
    "pc_result (rsy_pc s) = Some True \<Longrightarrow> rec_drained s"
    "\<And>l. rsy_pc s = Rec_flushing l \<Longrightarrow> rec_drained s \<and> (\<forall>k. rl_pkt l k = None)"
  shows "rec_inv env s"
  using assms unfolding rec_inv_def by blast

lemma rec_inv_rest:
  assumes "rec_inv env s"
  shows "rsy_pc s = Rec_at_start \<Longrightarrow> rec_ctx (rsy_rec s) = None \<and> (\<forall>k. rs_index (rec_stream (rsy_rec s) k) = -1) \<and>
       sc_recorder_get_format_name (rec_format (rsy_rec s)) \<noteq> None \<and> rsy_file s = []"
    "rsy_pc s = Rec_header_waiting \<Longrightarrow> recorder_header_waits (rsy_rec s)"
    "rsy_pc s = Rec_waiting l \<Longrightarrow> recorder_packets_wait (rsy_rec s) l"
    "pc_result (rsy_pc s) = Some True \<Longrightarrow> rec_drained s"
    "rsy_pc s = Rec_flushing l \<Longrightarrow> rec_drained s \<and> (\<forall>k. rl_pkt l k = None)"
  using assms unfolding rec_inv_def by blast+

lemma rec_order_cong:
  assumes "rec_order s k" "rsy_accepted s' k = rsy_accepted s k"
    "rec_written (rsy_file s') (rsy_rec s') k = rec_written (rsy_file s) (rsy_rec s) k"
    "pc_result (rsy_pc s') = pc_result (rsy_pc s)" "pc_wanted (rsy_pc s') k = pc_wanted (rsy_pc s) k"
    "wanted (vd_content (rec_queue (rsy_rec s') k)) = wanted (vd_content (rec_queue (rsy_rec s) k))"
  shows "rec_order s' k"
  using assms(1) unfolding rec_order_def assms(2-6) .

lemma sink_next_SomeD:
  "sink_next ph (Sink_open ok) = Some ph' \<Longrightarrow> ph = Sink_new \<and> ph' = (if ok then Sink_fed else Sink_ended)"
  "sink_next ph (Sink_push p ok) = Some ph' \<Longrightarrow> ph = Sink_fed \<and> ph' = (if ok then Sink_fed else Sink_refused)"
  "sink_next ph Sink_close = Some ph' \<Longrightarrow> ph \<in> {Sink_fed, Sink_refused} \<and> ph' = Sink_ended"
  "sink_next ph Sink_disable = Some ph' \<Longrightarrow> ph = Sink_new \<and> ph' = Sink_ended"
  by (cases ph; auto)+

lemma rec_inv_open:
  assumes I: "rec_inv env s" and n: "rsy_phase s k = Sink_new"
    and o: "ms_open (rec_sink env k) ctx session (rsy_rec s) = Some (ok, r')"
  shows "rec_inv env (s\<lparr>rsy_rec := r', rsy_phase := (rsy_phase s)(k := if ok then Sink_fed else Sink_ended),
    rsy_pc := (if ok then recorder_woken (rsy_pc s) else rsy_pc s)\<rparr>)"
proof -
  note inv = rec_invD [OF I]
  from inv(1) have K: "rec_k env (rsy_rec s) (rsy_file s) (pc_held (rsy_pc s) k) (rsy_phase s k) k" by (simp add: rec_good_def)
  with n have en: "rec_enabled (rsy_rec s) k" "\<not> rec_init (rsy_rec s) k" by (auto simp: rec_k_def)
  have "rec_ctx (rsy_rec s) \<noteq> None \<or> k = Rec_video \<and> rec_stopped (rsy_rec s)"
    using o en by (cases k; cases "rec_ctx (rsy_rec s)") (auto simp: recorder_open_defs split: if_splits)
  from recorder_open_spec [OF this en(2) _ inv(4), of env ctx session] o en(1)
  have op: "recorder_opened k ok (rsy_rec s) r'" by auto
  note eq = op [unfolded recorder_opened_def]
  from open_keeps [OF inv(1) op n] have g: "rec_good env r' (rsy_file s) (pc_held (rsy_pc s))
      ((rsy_phase s)(k := if ok then Sink_fed else Sink_ended))"
    "\<And>j. rec_written (rsy_file s) r' j = rec_written (rsy_file s) (rsy_rec s) j" by blast+
  have o': "rec_order s j" for j by (rule inv(2))
  have same: "\<not> ok \<Longrightarrow> rec_init r' = rec_init (rsy_rec s)"
    using eq en(2) by (simp add: fun_upd_idem)
  note rest = rec_inv_rest [OF I]
  let ?s = "s\<lparr>rsy_rec := r', rsy_phase := (rsy_phase s)(k := if ok then Sink_fed else Sink_ended),
    rsy_pc := (if ok then recorder_woken (rsy_pc s) else rsy_pc s)\<rparr>"
  have ctx: "rec_ctx r' = None \<longleftrightarrow> rec_ctx (rsy_rec s) = None" using eq by (cases "rec_ctx (rsy_rec s)") auto
  have drained: "rec_drained s \<Longrightarrow> rsy_rec t = r' \<Longrightarrow> rec_drained t" for t using eq by (simp add: rec_drained_def)
  show ?thesis
  proof (rule rec_inv_intro)
    show "rec_good env (rsy_rec ?s) (rsy_file ?s) (pc_held (rsy_pc ?s)) (rsy_phase ?s)" using g(1) by (cases ok) simp_all
    show "rec_order ?s j" for j by (rule rec_order_cong [OF inv(2)]) (use g(2) eq in auto)
    assume "rsy_pc ?s = Rec_at_start"
    then have "rsy_pc s = Rec_at_start" by (simp split: if_splits)
    with rest(1) have at: "rec_ctx (rsy_rec s) = None \<and> (\<forall>k. rs_index (rec_stream (rsy_rec s) k) = -1) \<and>
       sc_recorder_get_format_name (rec_format (rsy_rec s)) \<noteq> None \<and> rsy_file s = []" by blast
    then have "rec_ctx (rsy_rec s) = None" by blast
    with eq have "r' = rsy_rec s" by simp
    with at show "rec_ctx (rsy_rec ?s) = None \<and> (\<forall>k. rs_index (rec_stream (rsy_rec ?s) k) = -1) \<and>
       sc_recorder_get_format_name (rec_format (rsy_rec ?s)) \<noteq> None \<and> rsy_file ?s = []" by simp
  next
    assume "rsy_pc ?s = Rec_header_waiting"
    then have "\<not> ok" "rsy_pc s = Rec_header_waiting" by (auto split: if_splits)
    from eq this(1) have "rec_enabled r' = rec_enabled (rsy_rec s)" "rec_stopped r' = rec_stopped (rsy_rec s)"
      "rec_queue r' = rec_queue (rsy_rec s)"
      "rec_audio_expects_config_packet r' = rec_audio_expects_config_packet (rsy_rec s)" by blast+
    with same [OF \<open>\<not> ok\<close>] have "recorder_header_waits r' = recorder_header_waits (rsy_rec s)"
      by (simp add: recorder_header_waits_def sc_recorder_must_wait_for_config_packets_def recorder_empty_def)
    with rest(2) \<open>rsy_pc s = Rec_header_waiting\<close> show "recorder_header_waits (rsy_rec ?s)" by simp
  next
    fix l assume "rsy_pc ?s = Rec_waiting l"
    then have "\<not> ok" "rsy_pc s = Rec_waiting l" by (auto split: if_splits)
    from eq have "rec_enabled r' = rec_enabled (rsy_rec s)" "rec_stopped r' = rec_stopped (rsy_rec s)"
      "rec_queue r' = rec_queue (rsy_rec s)" by blast+
    then have "recorder_packets_wait r' l = recorder_packets_wait (rsy_rec s) l"
      by (simp add: recorder_packets_wait_def recorder_empty_def)
    with rest(3) \<open>rsy_pc s = Rec_waiting l\<close> show "recorder_packets_wait (rsy_rec ?s) l" by simp
  next
    fix l assume "rsy_pc ?s = Rec_flushing l"
    then have "rsy_pc s = Rec_flushing l" by (simp split: if_splits)
    with drained rest(5) show "rec_drained ?s \<and> (\<forall>k. rl_pkt l k = None)" by simp
  next
    assume "pc_result (rsy_pc ?s) = Some True"
    then have "pc_result (rsy_pc s) = Some True" by (simp split: if_splits)
    with drained rest(4) show "rec_drained ?s" by simp
  qed (use inv(3,4) eq ctx in \<open>auto split: if_splits\<close>)
qed

lemma rec_inv_push:
  assumes I: "rec_inv env s" and n: "rsy_phase s k = Sink_fed"
    and o: "ms_push (rec_sink env k) p (rsy_rec s) = Some (ok, r')"
  shows "rec_inv env (s\<lparr>rsy_rec := r', rsy_phase := (rsy_phase s)(k := if ok then Sink_fed else Sink_refused),
    rsy_pc := (if ok then recorder_woken (rsy_pc s) else rsy_pc s),
    rsy_accepted := (rsy_accepted s)(k := rsy_accepted s k @ (if ok then [p] else []))\<rparr>)"
proof -
  note inv = rec_invD [OF I]
  let ?r = "rsy_rec s"
  from inv(1) have K: "rec_k env ?r (rsy_file s) (pc_held (rsy_pc s) k) (rsy_phase s k) k" by (simp add: rec_good_def)
  with n have en: "rec_enabled ?r k" "rec_init ?r k" "0 \<le> rs_index (rec_stream ?r k)" "vd_inv (re_cap env) (rec_queue ?r k)"
    by (auto simp: rec_k_def)
  from queue_push_spec [OF en(4), of p] obtain ok1 q where
    q: "recorder_queue_push env k p ?r = Some (ok1, ?r\<lparr>rec_queue := (rec_queue ?r)(k := q)\<rparr>)" "vd_inv (re_cap env) q"
      "vd_content q = vd_content (rec_queue ?r k) @ (if ok1 then [rec_of ?r k p] else [])" "ok1 \<longrightarrow> \<not> rec_stopped ?r"
    by blast
  with o en have r': "ok1 = ok" "r' = ?r\<lparr>rec_queue := (rec_queue ?r)(k := q)\<rparr>"
    by (cases k; simp add: recorder_open_defs sc_recorder_video_packet_sink_push_def sc_recorder_audio_packet_sink_push_def)+
  note q = q [unfolded r'(1)]
  from push_keeps [OF inv(1) en(1,3) q(2,3) n] have g: "rec_good env r' (rsy_file s) (pc_held (rsy_pc s))
      ((rsy_phase s)(k := if ok then Sink_fed else Sink_refused))" by (simp add: r'(2))
  have w: "rec_written (rsy_file s) r' j = rec_written (rsy_file s) ?r j" for j by (simp add: rec_written_def r'(2))
  have e: "\<not> ok \<Longrightarrow> recorder_empty r' j = recorder_empty ?r j" for j
    using q(3) r'(2) by (auto simp: recorder_empty_def vd_content_empty [symmetric])
  have st: "ok \<Longrightarrow> pc_result (rsy_pc s) \<noteq> Some True" "ok \<Longrightarrow> rsy_pc s \<noteq> Rec_flushing l" for l
    using I q(4) by (auto simp: rec_inv_def rec_drained_def)
  have ord: "rec_order (s\<lparr>rsy_rec := r', rsy_phase := ph, rsy_pc := pc,
      rsy_accepted := (rsy_accepted s)(k := rsy_accepted s k @ (if ok then [p] else []))\<rparr>) j"
    if "pc = rsy_pc s \<or> pc = recorder_woken (rsy_pc s)" for j ph pc
  proof (cases "j = k \<and> ok")
    case False
    show ?thesis by (rule rec_order_cong [OF inv(2)]) (use False that q(3) r'(2) w in auto)
  next
    case True
    have qk: "rec_queue r' k = q" by (simp add: r'(2))
    have pc: "pc_result pc = pc_result (rsy_pc s)" "pc_wanted pc = pc_wanted (rsy_pc s)" using that by auto
    show ?thesis
    proof (cases "pc_result (rsy_pc s)")
      case None
      with inv(2) [of k] have "accepted_keys (rsy_accepted s k) = map rec_key (rec_written (rsy_file s) ?r k) @
          pc_wanted (rsy_pc s) k @ wanted (vd_content (rec_queue ?r k))" by (simp add: rec_order_def)
      with True None show ?thesis
        using accepted_key [of ?r k p] by (simp add: rec_order_def w qk q(3) pc del: wanted_simps(2))
    next
      case (Some b)
      with st(1) True have "b = False" by auto
      with Some show ?thesis by (simp add: rec_order_def pc)
    qed
  qed
  note rest = rec_inv_rest [OF I]
  let ?s = "s\<lparr>rsy_rec := r', rsy_phase := (rsy_phase s)(k := if ok then Sink_fed else Sink_refused),
    rsy_pc := (if ok then recorder_woken (rsy_pc s) else rsy_pc s),
    rsy_accepted := (rsy_accepted s)(k := rsy_accepted s k @ (if ok then [p] else []))\<rparr>"
  have drained: "\<not> ok \<Longrightarrow> rec_drained s \<Longrightarrow> rsy_rec t = r' \<Longrightarrow> rec_drained t" for t
    using r'(2) q(3) by (simp add: rec_drained_def)
  show ?thesis
  proof (rule rec_inv_intro)
    show "rec_good env (rsy_rec ?s) (rsy_file ?s) (pc_held (rsy_pc ?s)) (rsy_phase ?s)" using g by (cases ok) simp_all
    show "rec_order ?s j" for j
    proof (cases ok)
      case True
      with ord [of "recorder_woken (rsy_pc s)"] show ?thesis by simp
    next
      case False
      show ?thesis by (rule rec_order_cong [OF inv(2)]) (use False q(3) r'(2) w in auto)
    qed
  next
    assume "rsy_pc ?s = Rec_header_waiting"
    then have "\<not> ok" "rsy_pc s = Rec_header_waiting" by (auto split: if_splits)
    from e [OF this(1)] r'(2) have "recorder_header_waits r' = recorder_header_waits ?r"
      by (simp add: recorder_header_waits_def sc_recorder_must_wait_for_config_packets_def)
    with rest(2) \<open>rsy_pc s = Rec_header_waiting\<close> show "recorder_header_waits (rsy_rec ?s)" by simp
  next
    fix l assume "rsy_pc ?s = Rec_waiting l"
    then have "\<not> ok" "rsy_pc s = Rec_waiting l" by (auto split: if_splits)
    from e [OF this(1)] r'(2) have "recorder_packets_wait r' l = recorder_packets_wait ?r l"
      by (simp add: recorder_packets_wait_def)
    with rest(3) \<open>rsy_pc s = Rec_waiting l\<close> show "recorder_packets_wait (rsy_rec ?s) l" by simp
  next
    fix l assume "rsy_pc ?s = Rec_flushing l"
    then have f: "rsy_pc s = Rec_flushing l" by (simp split: if_splits)
    with st(2) have "\<not> ok" by blast
    from drained [OF this] rest(5) [OF f] show "rec_drained ?s \<and> (\<forall>k. rl_pkt l k = None)" by simp
  next
    assume "pc_result (rsy_pc ?s) = Some True"
    then have f: "pc_result (rsy_pc s) = Some True" by (simp split: if_splits)
    with st(1) have "\<not> ok" by blast
    from drained [OF this rest(4) [OF f]] show "rec_drained ?s" by simp
  qed (use inv(3,4) rest(1) r'(2) in \<open>auto split: if_splits\<close>)
qed

text \<open>Closing, disabling and stopping leave the queues and the file alone, and wake the thread up.\<close>

lemma rec_inv_woken:
  assumes I: "rec_inv env s" and eq: "rec_queue r' = rec_queue (rsy_rec s)" "rec_stream r' = rec_stream (rsy_rec s)"
      "rec_ctx r' = rec_ctx (rsy_rec s)" "rec_orientation r' = rec_orientation (rsy_rec s)" "rec_format r' = rec_format (rsy_rec s)"
      "rec_stopped (rsy_rec s) \<Longrightarrow> rec_stopped r'"
    and K: "\<And>k. rec_k env (rsy_rec s) (rsy_file s) (pc_held (rsy_pc s) k) (rsy_phase s k) k \<Longrightarrow>
      rec_k env r' (rsy_file s) (pc_held (rsy_pc s) k) (ph k) k"
  shows "rec_inv env (s\<lparr>rsy_rec := r', rsy_phase := ph, rsy_pc := recorder_woken (rsy_pc s)\<rparr>)"
proof -
  note inv = rec_invD [OF I]
  note rest = rec_inv_rest [OF I]
  let ?s = "s\<lparr>rsy_rec := r', rsy_phase := ph, rsy_pc := recorder_woken (rsy_pc s)\<rparr>"
  have g: "rec_good env r' (rsy_file s) (pc_held (rsy_pc s)) ph" by (rule rec_good_fields [OF inv(1) eq(1-3) K])
  have drained: "rec_drained s \<Longrightarrow> rsy_rec t = r' \<Longrightarrow> rec_drained t" for t using eq by (simp add: rec_drained_def)
  show ?thesis
  proof (rule rec_inv_intro)
    show "rec_order ?s k" for k by (rule rec_order_cong [OF inv(2)]) (simp_all add: eq rec_written_def)
  qed (use g inv(3,4) rest(1,4,5) eq drained in auto)
qed

lemma rec_inv_step:
  assumes "rec_step env s s'" "rec_inv env s" "recorder_env_ok env"
  shows "rec_inv env s'"
  using assms(1)
proof cases
  case (open_sink k ok ph ctx session r)
  with sink_next_SomeD(1) [OF open_sink(2)] rec_inv_open [OF assms(2)] show ?thesis by auto
next
  case (push k p ok ph r)
  with sink_next_SomeD(2) [OF push(2)] rec_inv_push [OF assms(2)] show ?thesis by auto
next
  case (close_sink k ph r)
  from sink_next_SomeD(3) [OF close_sink(2)] have ph: "rsy_phase s k \<in> {Sink_fed, Sink_refused}" "ph = Sink_ended" by auto
  have "r = rsy_rec s\<lparr>rec_stopped := True\<rparr>"
    using close_sink(3) by (cases k) (auto simp: recorder_open_defs sc_recorder_video_packet_sink_close_def
        sc_recorder_audio_packet_sink_close_def split: bind_splits)
  then show ?thesis
    unfolding close_sink(1) using ph
    by (intro rec_inv_woken [OF assms(2)]) (auto simp: rec_k_def rec_written_def)
next
  case (disable k ph dis r)
  from sink_next_SomeD(4) [OF disable(2)] have ph: "rsy_phase s k = Sink_new" "ph = Sink_ended" by auto
  have "k = Rec_audio" "r = recorder_set_init ((rsy_rec s)\<lparr>rec_enabled := (rec_enabled (rsy_rec s))(Rec_audio := False)\<rparr>) Rec_audio"
    using disable(3,4) by (cases k; auto simp: recorder_open_defs sc_recorder_audio_packet_sink_disable_def
        split: bind_splits)+
  then show ?thesis
    unfolding disable(1) using ph
    by (intro rec_inv_woken [OF assms(2)]) (auto simp: rec_k_def rec_written_def recorder_set_init_def)
next
  case stop
  have "rec_inv env (s\<lparr>rsy_rec := sc_recorder_stop (rsy_rec s), rsy_phase := rsy_phase s, rsy_pc := recorder_woken (rsy_pc s)\<rparr>)"
    by (intro rec_inv_woken [OF assms(2)]) (auto simp: rec_k_def rec_written_def sc_recorder_stop_def)
  then show ?thesis using stop by simp
next
  case (thread pc r)
  with run_keeps [OF assms(2,3)] show ?thesis by auto
qed

lemma rec_reachable_inv:
  assumes "rec_reachable env s" "recorder_env_ok env"
  shows "rec_inv env s"
  using assms(1)
proof induction
  case (start format strdup_ok mutex_ok cond_ok filename video audio orientation r)
  have "re_cap env \<le> SIZE_MAX div 2" using assms(2) by (simp add: recorder_env_ok_def)
  note i = vd_init [OF this, where 'a = rec_packet]
  from start(2) have r: "r = \<lparr>rec_enabled = (\<lambda>k. case k of Rec_video \<Rightarrow> video | Rec_audio \<Rightarrow> audio),
      rec_orientation = orientation, rec_filename = filename, rec_format = format, rec_ctx = None,
      rec_stopped = False, rec_queue = (\<lambda>_. sc_vecdeque_init), rec_init = (\<lambda>_. False),
      rec_audio_expects_config_packet = False, rec_stream = (\<lambda>_. sc_recorder_stream_init)\<rparr>"
    "\<not> sc_orientation_is_mirror orientation"
    by (auto simp: sc_recorder_init_def split: bind_splits if_splits)
  show ?case
    by (rule rec_inv_intro) (use r i start(1) in \<open>auto simp: rec_good_def rec_wf_def rec_k_def rec_written_def
      sc_recorder_stream_init_def rec_order_def\<close>)
next
  case (step s s')
  then show ?case using rec_inv_step assms(2) by blast
qed

section \<open>Properties\<close>

text \<open>
  C10: Whatever the demuxers feed, in the order of the life of a sink, and whenever the recording is stopped,
  the recorder thread never aborts, nor does feeding, closing or disabling a sink; a sink can be opened
  while the output context is there (and a video sink also once the recorder is stopped). The thread
  waits only while it is not stopped and there is nothing it could take: no wake-up is lost.
\<close>

theorem recorder_never_aborts:
  assumes "rec_reachable env s" "recorder_env_ok env"
  shows "recorder_run env (rsy_pc s) (rsy_rec s) \<noteq> None \<and>
    (rsy_phase s k = Sink_fed \<longrightarrow> ms_push (rec_sink env k) p (rsy_rec s) \<noteq> None) \<and>
    (rsy_phase s k \<in> {Sink_fed, Sink_refused} \<longrightarrow> ms_close (rec_sink env k) (rsy_rec s) \<noteq> None) \<and>
    (rsy_phase s k = Sink_new \<longrightarrow> ms_disable (rec_sink env k) = Some disable \<longrightarrow> disable (rsy_rec s) \<noteq> None) \<and>
    (rsy_phase s k = Sink_new \<longrightarrow> rec_ctx (rsy_rec s) \<noteq> None \<or> k = Rec_video \<and> rec_stopped (rsy_rec s) \<longrightarrow>
      ms_open (rec_sink env k) ctx session (rsy_rec s) \<noteq> None) \<and>
    (rsy_pc s = Rec_header_waiting \<longrightarrow> recorder_header_waits (rsy_rec s)) \<and>
    (\<forall>l. rsy_pc s = Rec_waiting l \<longrightarrow> recorder_packets_wait (rsy_rec s) l)"
proof -
  from rec_reachable_inv [OF assms] have I: "rec_inv env s" .
  note inv = rec_invD [OF I] and rest = rec_inv_rest [OF I]
  let ?r = "rsy_rec s"
  from inv(1) have K: "rec_k env ?r (rsy_file s) (pc_held (rsy_pc s) k) (rsy_phase s k) k" by (simp add: rec_good_def)
  then have new: "rsy_phase s k = Sink_new \<Longrightarrow> rec_enabled ?r k \<and> \<not> rec_init ?r k"
    and fed: "rsy_phase s k \<in> {Sink_fed, Sink_refused} \<Longrightarrow> rec_enabled ?r k \<and> rec_init ?r k"
    and q: "vd_inv (re_cap env) (rec_queue ?r k)" by (simp_all add: rec_k_def)
  have "recorder_run env (rsy_pc s) ?r \<noteq> None" using run_keeps [OF I assms(2)] by auto
  moreover have "ms_push (rec_sink env k) p ?r \<noteq> None" if "rsy_phase s k = Sink_fed"
    using fed that queue_push_spec [OF q, of p]
    by (cases k) (auto simp: recorder_open_defs sc_recorder_video_packet_sink_push_def sc_recorder_audio_packet_sink_push_def)
  moreover have "ms_close (rec_sink env k) ?r \<noteq> None" if "rsy_phase s k \<in> {Sink_fed, Sink_refused}"
    using fed [OF that]
    by (cases k) (auto simp: recorder_open_defs sc_recorder_video_packet_sink_close_def sc_recorder_audio_packet_sink_close_def)
  moreover have "disable ?r \<noteq> None" if "rsy_phase s k = Sink_new" "ms_disable (rec_sink env k) = Some disable"
    using new that by (cases k) (auto simp: recorder_open_defs sc_recorder_audio_packet_sink_disable_def)
  moreover have "ms_open (rec_sink env k) ctx session ?r \<noteq> None"
    if "rsy_phase s k = Sink_new" "rec_ctx ?r \<noteq> None \<or> k = Rec_video \<and> rec_stopped ?r"
    using recorder_open_spec [OF that(2) _ _ inv(4), of env ctx session] new that(1) by auto
  ultimately show ?thesis using rest(2,3) by blast
qed

text \<open>
  C9: When a recording succeeds, the file has, for each stream, exactly the packets that its sink has
  accepted, config packets apart, in their order and with their content: none is lost, duplicated or
  reordered, whatever the interleaving; only the last video packet may be missing, when writing it failed.
  Their times increase strictly, whatever the times of the packets.
\<close>

theorem recording_is_complete:
  assumes "rec_reachable env s" "recorder_env_ok env" "rsy_pc s = Rec_ended True"
  shows "\<exists>lost. accepted_keys (rsy_accepted s k) = map rec_key (rec_written (rsy_file s) (rsy_rec s) k) @ lost \<and>
    length lost \<le> (if k = Rec_video then 1 else 0) \<and>
    sorted_wrt (<) (map rp_pts (rec_written (rsy_file s) (rsy_rec s) k))"
proof -
  note inv = rec_invD [OF rec_reachable_inv [OF assms(1,2)]]
  from inv(1) have "rec_k env (rsy_rec s) (rsy_file s) (pc_held (rsy_pc s) k) (rsy_phase s k) k" by (simp add: rec_good_def)
  then have "sorted_wrt (<) (map rp_pts (rec_written (rsy_file s) (rsy_rec s) k))" by (simp add: rec_k_def)
  with inv(2) [of k] assms(3) show ?thesis by (auto simp: rec_order_def)
qed

text \<open>A raw audio recording of one packet, step by step.\<close>

definition recording_env :: recorder_env where
  "recording_env = \<lparr>re_cap = 20, re_alloc = (\<lambda>_. True), re_muxers = [''avi'', ''wav''], re_alloc_context = True,
     re_concat = True, re_avio_open = True, re_new_stream = (\<lambda>_. True), re_parameters = (\<lambda>_. True),
     re_side_data = True, re_packet_ref = (\<lambda>_ _. True), re_extradata = (\<lambda>_. True), re_write_header = (\<lambda>_. True),
     re_rescale = (\<lambda>_ t. max 0 t), re_write_frame = (\<lambda>_ _. True), re_write_trailer = True\<rparr>"

definition raw_audio :: codec_context where
  "raw_audio = \<lparr>cc_codec_id = AV_CODEC_ID_PCM_S16LE, cc_codec_type = AVMEDIA_TYPE_AUDIO, cc_low_delay = False,
     cc_width = 0, cc_height = 0, cc_format = AV_SAMPLE_FMT_S16, cc_channels = 2, cc_sample_rate = 8\<rparr>"

fun recorder_runs :: "recorder_env \<Rightarrow> nat \<Rightarrow> rec_pc \<times> sc_recorder \<Rightarrow> (rec_pc \<times> sc_recorder) option" where
  "recorder_runs env 0 s = Some s"
| "recorder_runs env (Suc n) s = do {
     s \<leftarrow> recorder_run env (fst s) (snd s);
     recorder_runs env n s
   }"

text \<open>The states of the recorder when the sink is open, when it has accepted the packet, and when it is closed.\<close>

definition one_packet :: av_packet where
  "one_packet = \<lparr>pkt_data = [1, 2, 3], pkt_pts = 1000, pkt_dts = 1000, pkt_flags = 1\<rparr>"

definition demo_opened :: sc_recorder where
  "demo_opened = the (do {
     r \<leftarrow> Option.bind (sc_recorder_init True True True ''out.wav'' SC_RECORD_FORMAT_WAV False True SC_ORIENTATION_0)
       (\<lambda>r. r);
     (pc, r) \<leftarrow> recorder_run recording_env Rec_at_start r;
     (ok, r) \<leftarrow> ms_open (rec_sink recording_env Rec_audio) raw_audio None r;
     Some r
   })"

definition demo_queued :: sc_recorder where
  "demo_queued = demo_opened\<lparr>rec_queue := (rec_queue demo_opened)(Rec_audio :=
     \<lparr>vd_cap = 10, vd_origin = 0, vd_size = 1,
       vd_data = Some (rec_of demo_opened Rec_audio one_packet) # replicate 9 None\<rparr>)\<rparr>"

definition demo_closed :: sc_recorder where
  "demo_closed = demo_queued\<lparr>rec_stopped := True\<rparr>"

lemma recorder_runs_reachable:
  "rec_reachable env s \<Longrightarrow> recorder_runs env n (rsy_pc s, rsy_rec s) = Some (pc, r) \<Longrightarrow>
    \<exists>fl. rec_reachable env (s\<lparr>rsy_rec := r, rsy_pc := pc, rsy_file := fl\<rparr>)"
proof (induction n arbitrary: s)
  case 0
  then have "s\<lparr>rsy_rec := r, rsy_pc := pc, rsy_file := rsy_file s\<rparr> = s" by (cases s) simp
  with 0(1) show ?case by metis
next
  case (Suc n)
  then obtain pc1 r1 where 1: "recorder_run env (rsy_pc s) (rsy_rec s) = Some (pc1, r1)"
    "recorder_runs env n (pc1, r1) = Some (pc, r)" by (auto split: bind_splits)
  from Suc.IH [OF rec_reachable.step [OF Suc.prems(1) rec_step.thread [OF 1(1)]]] 1(2) show ?case by simp
qed

lemma demo_push:
  "sc_vecdeque_push (\<lambda>_. True) 20 sc_vecdeque_init x =
    Some (\<lparr>vd_cap = 10, vd_origin = 0, vd_size = 1, vd_data = Some x # replicate 9 None\<rparr>, True)"
  by (simp add: sc_vecdeque_push_def sc_vecdeque_grow_if_needed_def sc_vecdeque_is_full_def
        sc_vecdeque_init_def sc_vecdeque_grow_def sc_vecdeque_growsize_def SC_VECDEQUE_MINCAP_def
        sz_clamp_def sc_vecdeque_reallocdata_def sc_vecdeque_push_noresize_def
        sc_vecdeque_push_uninitialized_noresize_def Let_def mem_put_def)

lemma recording_demo_ends:
  "\<exists>s. rec_reachable recording_env s \<and> rsy_pc s = Rec_ended True \<and> rsy_accepted s Rec_audio = [one_packet]"
proof -
  let ?init = "sc_recorder_init True True True ''out.wav'' SC_RECORD_FORMAT_WAV False True SC_ORIENTATION_0"
  obtain r0 where r0: "?init = Some (Some r0)" "rec_enabled r0 Rec_audio"
    by (simp add: sc_recorder_init_def sc_orientation_is_mirror_def)
  have "map_option fst (recorder_run recording_env Rec_at_start (the (the ?init))) = Some Rec_header_lock"
    "map_option fst (ms_open (rec_sink recording_env Rec_audio) raw_audio None
      (snd (the (recorder_run recording_env Rec_at_start (the (the ?init)))))) = Some True"
    "rec_queue demo_opened Rec_audio = sc_vecdeque_init \<and> rec_init demo_opened Rec_audio \<and>
      rec_enabled demo_opened Rec_audio \<and> \<not> rec_stopped demo_opened"
    by code_simp+
  moreover from this r0(1) obtain r1 where r1: "recorder_run recording_env Rec_at_start r0 = Some (Rec_header_lock, r1)"
    by auto
  ultimately have open1: "ms_open (rec_sink recording_env Rec_audio) raw_audio None r1 = Some (True, demo_opened)"
    and o: "rec_queue demo_opened Rec_audio = sc_vecdeque_init" "rec_init demo_opened Rec_audio"
      "rec_enabled demo_opened Rec_audio" "\<not> rec_stopped demo_opened"
    using r0(1) by (auto simp: demo_opened_def simp del: recorder_run.simps)
  have push1: "ms_push (rec_sink recording_env Rec_audio) one_packet demo_opened = Some (True, demo_queued)"
    using o demo_push [of "rec_of demo_opened Rec_audio one_packet"]
    by (simp add: recorder_open_defs sc_recorder_audio_packet_sink_push_def recorder_queue_push_def
        sc_recorder_packet_ref_def demo_queued_def recording_env_def rec_of_def)
  have close1: "ms_close (rec_sink recording_env Rec_audio) demo_queued = Some demo_closed"
    using o by (simp add: recorder_open_defs sc_recorder_audio_packet_sink_close_def demo_queued_def demo_closed_def)
  have "map_option fst (recorder_runs recording_env 8 (Rec_header_lock, demo_closed)) = Some (Rec_ended True)"
    by code_simp
  then obtain r where run1: "recorder_runs recording_env 8 (Rec_header_lock, demo_closed) = Some (Rec_ended True, r)"
    by auto
  let ?s = "\<lparr>rsy_rec = r0, rsy_pc = Rec_at_start, rsy_phase = (\<lambda>k. if rec_enabled r0 k then Sink_new else Sink_ended),
    rsy_accepted = (\<lambda>_. []), rsy_file = []\<rparr>"
  have step: "rec_reachable env s \<Longrightarrow> rec_step env s s' \<Longrightarrow> rec_reachable env s'" for env s s'
    by (rule rec_reachable.step)
  from rec_reachable.start [of SC_RECORD_FORMAT_WAV, OF _ r0(1)] have "rec_reachable recording_env ?s" by simp
  from step [OF this rec_step.thread] r1 have
    "rec_reachable recording_env (?s\<lparr>rsy_rec := r1, rsy_pc := Rec_header_lock, rsy_file := recorder_file [] r1\<rparr>)"
    (is "rec_reachable _ ?s1") by auto
  from step [OF this rec_step.open_sink [where k = Rec_audio and ok = True and ph = Sink_fed]] open1 r0(2)
  have "rec_reachable recording_env (?s1\<lparr>rsy_rec := demo_opened, rsy_phase := (rsy_phase ?s1)(Rec_audio := Sink_fed)\<rparr>)"
    (is "rec_reachable _ ?s2") by fastforce
  from step [OF this rec_step.push [where k = Rec_audio and ok = True and ph = Sink_fed and p = one_packet]] push1
  have "rec_reachable recording_env (?s2\<lparr>rsy_rec := demo_queued,
    rsy_accepted := (rsy_accepted ?s2)(Rec_audio := [one_packet])\<rparr>)" (is "rec_reachable _ ?s3") by fastforce
  from step [OF this rec_step.close_sink [where k = Rec_audio and ph = Sink_ended]] close1
  have "rec_reachable recording_env (?s3\<lparr>rsy_rec := demo_closed, rsy_phase := (rsy_phase ?s3)(Rec_audio := Sink_ended)\<rparr>)"
    (is "rec_reachable _ ?s4") by fastforce
  from recorder_runs_reachable [OF this, of 8 "Rec_ended True" r] run1 obtain fl where
    "rec_reachable recording_env (?s4\<lparr>rsy_rec := r, rsy_pc := Rec_ended True, rsy_file := fl\<rparr>)" by auto
  then show ?thesis by (intro exI [of _ "?s4\<lparr>rsy_rec := r, rsy_pc := Rec_ended True, rsy_file := fl\<rparr>"]) simp
qed

lemma recording_env_ok: "recorder_env_ok recording_env"
  by (auto simp: recorder_env_ok_def recording_env_def SIZE_MAX_def NOPTS_def AV_NOPTS_VALUE_def NUL_def)

lemma recorder_never_aborts_witness:
  "\<exists>s. rec_reachable recording_env s \<and> rsy_pc s = Rec_ended True \<and> recorder_run recording_env (rsy_pc s) (rsy_rec s) \<noteq> None"
proof -
  from recording_demo_ends obtain s where s: "rec_reachable recording_env s" "rsy_pc s = Rec_ended True" by blast
  from conjunct1 [OF recorder_never_aborts [OF s(1) recording_env_ok, of Rec_audio one_packet "\<lambda>_. None" raw_audio None]]
  have "recorder_run recording_env (rsy_pc s) (rsy_rec s) \<noteq> None" .
  with s show ?thesis by blast
qed

lemma recording_is_complete_witness:
  "\<exists>s. rec_reachable recording_env s \<and>
    map rec_key (rec_written (rsy_file s) (rsy_rec s) Rec_audio) = [([1, 2, 3], 1)]"
proof -
  from recording_demo_ends obtain s where s: "rec_reachable recording_env s" "rsy_pc s = Rec_ended True"
    "rsy_accepted s Rec_audio = [one_packet]" by blast
  from recording_is_complete [OF s(1) recording_env_ok s(2), of Rec_audio] s(3)
  have "accepted_keys [one_packet] = map rec_key (rec_written (rsy_file s) (rsy_rec s) Rec_audio)" by auto
  moreover have "accepted_keys [one_packet] = [([1, 2, 3], 1)]"
    by (simp add: accepted_keys_def one_packet_def AV_NOPTS_VALUE_def)
  ultimately show ?thesis using s(1) by auto
qed

text \<open>
  The condition on opening is needed: the demuxers are not synchronized with the output context, which the
  recorder thread creates and frees. Opening a sink before the thread has opened the file, or the audio
  sink after the thread has ended (here because the file could not be created), uses a context that is not there.
\<close>

theorem recorder_open_race:
  "\<exists>s s'. rec_reachable recording_env s \<and> rsy_pc s = Rec_at_start \<and> rsy_phase s Rec_video = Sink_new \<and>
    ms_open (rec_sink recording_env Rec_video) ctx session (rsy_rec s) = None \<and>
    rec_reachable recording_env s' \<and> rsy_pc s' = Rec_ended False \<and> rsy_phase s' Rec_audio = Sink_new \<and>
    ms_open (rec_sink recording_env Rec_audio) ctx session (rsy_rec s') = None"
proof -
  let ?init = "sc_recorder_init True True True ''out.mp4'' SC_RECORD_FORMAT_MKV True True SC_ORIENTATION_0"
  obtain r0 where r0: "?init = Some (Some r0)" "rec_enabled r0 = (\<lambda>_. True)" "rec_ctx r0 = None" "\<not> rec_stopped r0"
      "rec_init r0 = (\<lambda>_. False)"
  proof -
    have "case_rec_kind True True = (\<lambda>_. True)" by (intro ext) (simp split: rec_kind.split)
    then show ?thesis using that by (simp add: sc_recorder_init_def sc_orientation_is_mirror_def)
  qed
  let ?s = "\<lparr>rsy_rec = r0, rsy_pc = Rec_at_start, rsy_phase = (\<lambda>k. if rec_enabled r0 k then Sink_new else Sink_ended),
    rsy_accepted = (\<lambda>_. []), rsy_file = []\<rparr>"
  let ?env = "recording_env"
  from rec_reachable.start [of SC_RECORD_FORMAT_MKV, OF _ r0(1)] have s: "rec_reachable ?env ?s" by simp
  have open1: "ms_open (rec_sink ?env Rec_video) ctx session r0 = None"
    using r0 by (simp add: recorder_open_defs)
  have "map_option (\<lambda>(pc, r). (pc, rec_ctx r = None, rec_enabled r Rec_audio, rec_init r Rec_audio))
      (recorder_runs ?env 2 (Rec_at_start, the (the ?init))) =
    Some (Rec_ended False, True, True, False)" by code_simp
  then obtain r where r: "recorder_runs ?env 2 (rsy_pc ?s, rsy_rec ?s) = Some (Rec_ended False, r)"
    "rec_ctx r = None" "rec_enabled r Rec_audio" "\<not> rec_init r Rec_audio"
    using r0(1) by auto
  from recorder_runs_reachable [OF s r(1)] obtain fl where
    e: "rec_reachable ?env (?s\<lparr>rsy_rec := r, rsy_pc := Rec_ended False, rsy_file := fl\<rparr>)" by blast
  moreover have "ms_open (rec_sink ?env Rec_audio) ctx session r = None"
    using r(2-4) by (simp add: recorder_open_defs)
  ultimately show ?thesis using s open1 r0(2)
    by (intro exI [of _ ?s] exI [of _ "?s\<lparr>rsy_rec := r, rsy_pc := Rec_ended False, rsy_file := fl\<rparr>"]) auto
qed

text \<open>
  A recording that is stopped before the time origin is known fails when the next packet is a config packet,
  even when packets with a time are still in the queue.
\<close>

theorem config_packet_at_stop_fails:
  assumes "rec_stopped r" "rl_pts_origin l = NOPTS" "rl_audio_pkt l = None" "rl_video_pkt l = Some p" "rp_pts p = NOPTS"
  shows "\<exists>l'. recorder_process env r l = Some (False, r, l')"
  using assms by (simp add: recorder_process_def recorder_pts_origin_def skip_config_def)

end
