(* ===== verification/Sc_Audio_Regulator.thy ===== *)
theory Sc_Audio_Regulator
  imports Sc_Media Sc_Audiobuf Sc_Timers
begin

text \<open>
  \<open>audio_regulator.c\<close>: between the thread that receives decoded samples and the callback that plays them. The
  samples are of any type \<open>'a\<close> with a silent one; sizes of buffers of samples are in samples, except the size
  of the resampling buffer, which is in bytes. Floats are rationals.

  The player may pull at any time between two accesses of the pushing thread to what they share: a push is
  given, for each of its points, the pulling steps that happen there. That reading and writing the ring
  buffer are atomic for each other is what \<open>util/audiobuf\<close> shows.
\<close>

section \<open>State\<close>

record 'a sc_audio_regulator =
  ar_target_buffering :: u32
  ar_buf :: "'a sc_audiobuf"
  ar_sample_rate :: u32
  ar_sample_size :: nat
  ar_swr_buf_alloc_size :: nat
  ar_avg_buffering :: sc_average
  ar_samples_since_resync :: u32
  ar_underflow :: u32
  ar_underflow_report :: u32
  ar_compensation_active :: bool
  ar_received :: bool
  ar_played :: bool
  ar_next_expected_pts :: int

text \<open>
  The answers of \<open>libswresample\<close> and of the allocator: the samples that are delayed, what converting a frame
  into a buffer of a given size returns with the content of the buffer, the result of setting a compensation.
\<close>

record 'a swr_env =
  sw_delay :: int
  sw_convert :: "int \<Rightarrow> av_frame \<Rightarrow> int \<times> 'a list"
  sw_set_compensation :: "int \<Rightarrow> int \<Rightarrow> int"
  sw_realloc :: "nat \<Rightarrow> bool"

definition TO_BYTES :: "'a sc_audio_regulator \<Rightarrow> u32 \<Rightarrow> nat" where
  "TO_BYTES ar samples = unat samples * ar_sample_size ar"

text \<open>
  The arguments are whether the five calls that may fail succeed (\<open>fresh\<close> is the content of the memory of the
  ring buffer), and the size of a sample, the sample rate and the target.
\<close>

definition sc_audio_regulator_init ::
    "bool \<Rightarrow> bool \<Rightarrow> bool \<Rightarrow> (u32 \<Rightarrow> 'a list option) \<Rightarrow> bool \<Rightarrow> nat \<Rightarrow> codec_context \<Rightarrow> u32 \<Rightarrow>
      'a sc_audio_regulator option option" where
  "sc_audio_regulator_init swr_alloc_ok swr_init_ok mutex_ok fresh malloc_ok sample_size ctx target_buffering =
     (if \<not> swr_alloc_ok \<or> \<not> swr_init_ok \<or> \<not> mutex_ok then Some None
      else do {
        let sample_rate = of_nat (cc_sample_rate ctx);
        let audiobuf_samples = target_buffering + sample_rate;
        buf \<leftarrow> sc_audiobuf_init (fresh audiobuf_samples) sample_size audiobuf_samples;
        case buf of
          None \<Rightarrow> Some None
        | Some buf \<Rightarrow>
            if \<not> malloc_ok then Some None
            else Some (Some \<lparr>ar_target_buffering = target_buffering, ar_buf = buf, ar_sample_rate = sample_rate,
              ar_sample_size = sample_size, ar_swr_buf_alloc_size = 4096 * sample_size,
              ar_avg_buffering = sc_average_init 128, ar_samples_since_resync = 0, ar_underflow = 0,
              ar_underflow_report = 0, ar_compensation_active = False, ar_received = False, ar_played = False,
              ar_next_expected_pts = 0\<rparr>)
      })"

section \<open>Pulling\<close>

text \<open>The three atomic parts of a pull: with the lock, then the underflow, then the flag.\<close>

datatype pull_pc = Pull_idle | Pull_underflow u32 | Pull_played

definition pull_locked ::
    "'a \<Rightarrow> 'a sc_audio_regulator \<Rightarrow> u32 \<Rightarrow> (pull_pc \<times> 'a sc_audio_regulator \<times> 'a list) option" where
  "pull_locked silent ar out_samples =
     (if \<not> ar_played ar \<and> sc_audiobuf_can_read (ar_buf ar) < ar_target_buffering ar
      then Some (Pull_idle, ar, replicate (unat out_samples) silent)
      else do {
        (buf, n_read, out) \<leftarrow> sc_audiobuf_read (ar_buf ar) True out_samples;
        let ar = ar\<lparr>ar_buf := buf\<rparr>;
        if n_read < out_samples then
          (let silence = out_samples - n_read in
           Some (Pull_underflow silence, ar, out @ replicate (unat silence) silent))
        else Some (Pull_played, ar, out)
      })"

definition pull_next ::
    "'a \<Rightarrow> u32 \<Rightarrow> pull_pc \<times> 'a sc_audio_regulator \<Rightarrow> (pull_pc \<times> 'a sc_audio_regulator) option" where
  "pull_next silent out_samples = (\<lambda>(pc, ar).
     case pc of
       Pull_idle \<Rightarrow> do {
         (pc, ar, out) \<leftarrow> pull_locked silent ar out_samples;
         Some (pc, ar)
       }
     | Pull_underflow silence \<Rightarrow>
         Some (Pull_played, if ar_received ar then ar\<lparr>ar_underflow := ar_underflow ar + silence\<rparr> else ar)
     | Pull_played \<Rightarrow> Some (Pull_idle, ar\<lparr>ar_played := True\<rparr>))"

text \<open>A pull that is not disturbed, with the samples it gives.\<close>

definition sc_audio_regulator_pull ::
    "'a \<Rightarrow> 'a sc_audio_regulator \<Rightarrow> u32 \<Rightarrow> ('a sc_audio_regulator \<times> 'a list) option" where
  "sc_audio_regulator_pull silent ar out_samples =
     (if \<not> ar_played ar \<and> sc_audiobuf_can_read (ar_buf ar) < ar_target_buffering ar
      then Some (ar, replicate (unat out_samples) silent)
      else do {
        (buf, n_read, out) \<leftarrow> sc_audiobuf_read (ar_buf ar) True out_samples;
        let ar = ar\<lparr>ar_buf := buf\<rparr>;
        let (ar, out) =
          (if n_read < out_samples then
             let silence = out_samples - n_read
             in (if ar_received ar then ar\<lparr>ar_underflow := ar_underflow ar + silence\<rparr> else ar,
                 out @ replicate (unat silence) silent)
           else (ar, out));
        Some (ar\<lparr>ar_played := True\<rparr>, out)
      })"

text \<open>The pulling steps that happen at one point of a push, each with the size it asks for.\<close>

fun pulls :: "'a \<Rightarrow> u32 list \<Rightarrow> pull_pc \<times> 'a sc_audio_regulator \<Rightarrow> (pull_pc \<times> 'a sc_audio_regulator) option" where
  "pulls silent [] s = Some s"
| "pulls silent (n # ns) s = do {
     s \<leftarrow> pull_next silent n s;
     pulls silent ns s
   }"

section \<open>Pushing\<close>

definition sc_audio_regulator_get_swr_buf ::
    "'a swr_env \<Rightarrow> 'a sc_audio_regulator \<Rightarrow> u32 \<Rightarrow> 'a sc_audio_regulator option" where
  "sc_audio_regulator_get_swr_buf env ar min_samples =
     (let min_buf_size = TO_BYTES ar min_samples in
      if min_buf_size > ar_swr_buf_alloc_size ar then
        (let new_size = min_buf_size + 4096 in
         if \<not> sw_realloc env new_size then None
         else Some (ar\<lparr>ar_swr_buf_alloc_size := new_size\<rparr>))
      else Some ar)"

text \<open>
  A discontinuity of the times: silence is added up to the target, and the estimations are reset. The lists
  are the pulling steps before it and after the level of the buffer is read.
\<close>

definition push_discontinuity ::
    "'a \<Rightarrow> 'a swr_env \<Rightarrow> u32 list \<Rightarrow> u32 list \<Rightarrow> u32 \<Rightarrow> pull_pc \<times> 'a sc_audio_regulator \<Rightarrow>
      (pull_pc \<times> 'a sc_audio_regulator) option" where
  "push_discontinuity silent env ns0 ns1 input_samples s = do {
     (pc, ar) \<leftarrow> pulls silent ns0 s;
     let can_read = sc_audiobuf_can_read (ar_buf ar);
     (pc, ar) \<leftarrow> pulls silent ns1 (pc, ar);
     ar \<leftarrow> (if input_samples + can_read < ar_target_buffering ar then do {
         let silence = ar_target_buffering ar - can_read - input_samples;
         (buf, _) \<leftarrow> sc_audiobuf_write_silence silent (ar_buf ar) silence;
         Some (ar\<lparr>ar_buf := buf\<rparr>)
       } else Some ar);
     let ar = ar\<lparr>ar_avg_buffering := (ar_avg_buffering ar)\<lparr>avg_avg := of_nat (unat (ar_target_buffering ar))\<rparr>\<rparr>;
     c_assert (sw_set_compensation env 0 0 = 0);
     Some (pc, ar\<lparr>ar_compensation_active := False, ar_samples_since_resync := 0, ar_underflow := 0\<rparr>)
   }"

text \<open>
  Writing the samples, at most the capacity of the buffer: what does not fit is written under the lock, after
  as many old samples as needed have been dropped. The result has what was written before dropping, and
  what was dropped. The lists are the pulling steps before each of the three writes.
\<close>

definition push_write ::
    "'a \<Rightarrow> u32 list \<Rightarrow> u32 list \<Rightarrow> u32 list \<Rightarrow> 'a list \<Rightarrow> u32 \<Rightarrow> pull_pc \<times> 'a sc_audio_regulator \<Rightarrow>
      (u32 \<times> u32 \<times> pull_pc \<times> 'a sc_audio_regulator) option" where
  "push_write silent ns0 ns1 ns2 swr_buf samples s = do {
     (pc, ar) \<leftarrow> pulls silent ns0 s;
     (buf, written) \<leftarrow> sc_audiobuf_write (ar_buf ar) swr_buf samples;
     let ar = ar\<lparr>ar_buf := buf\<rparr>;
     if written < samples then do {
       let remaining = samples - written;
       (pc, ar) \<leftarrow> pulls silent ns1 (pc, ar);
       (buf, w) \<leftarrow> sc_audiobuf_write (ar_buf ar) (drop (unat written) swr_buf) remaining;
       let written = written + w;
       if written < samples then do {
         let remaining = samples - written;
         (buf, skipped_samples, _) \<leftarrow> sc_audiobuf_read buf False remaining;
         c_assert (skipped_samples = remaining);
         (pc, ar) \<leftarrow> pulls silent ns2 (pc, ar\<lparr>ar_buf := buf\<rparr>);
         (buf, w) \<leftarrow> sc_audiobuf_write (ar_buf ar) (drop (unat written) swr_buf) remaining;
         c_assert (w = remaining);
         Some (written, skipped_samples, pc, ar\<lparr>ar_buf := buf\<rparr>)
       }
       else Some (written, 0, pc, ar\<lparr>ar_buf := buf\<rparr>)
     }
     else Some (written, 0, pc, ar)
   }"

definition max_buffered_samples :: "bool \<Rightarrow> 'a sc_audio_regulator \<Rightarrow> u32" where
  "max_buffered_samples played ar =
     (if played then ar_target_buffering ar * 11 div 10 + 60 * ar_sample_rate ar div 1000
      else ar_target_buffering ar + 10 * ar_sample_rate ar div 1000)"

text \<open>Dropping what exceeds the maximum; the result has the level that was read last, and what was dropped.\<close>

definition push_limit ::
    "'a \<Rightarrow> u32 list \<Rightarrow> u32 list \<Rightarrow> u32 \<Rightarrow> pull_pc \<times> 'a sc_audio_regulator \<Rightarrow>
      (u32 \<times> u32 \<times> pull_pc \<times> 'a sc_audio_regulator) option" where
  "push_limit silent ns0 ns1 max_buffered s = do {
     (pc, ar) \<leftarrow> pulls silent ns0 s;
     let can_read = sc_audiobuf_can_read (ar_buf ar);
     if can_read > max_buffered then do {
       (pc, ar) \<leftarrow> pulls silent ns1 (pc, ar);
       let can_read = sc_audiobuf_can_read (ar_buf ar);
       if can_read > max_buffered then do {
         let skip_samples = can_read - max_buffered;
         (buf, r, _) \<leftarrow> sc_audiobuf_read (ar_buf ar) False skip_samples;
         c_assert (r = skip_samples);
         Some (can_read, skip_samples, pc, ar\<lparr>ar_buf := buf\<rparr>)
       }
       else Some (can_read, 0, pc, ar)
     }
     else Some (can_read, 0, pc, ar)
   }"

text \<open>A float that is converted to an integer is truncated.\<close>

definition trunc :: "rat \<Rightarrow> int" where
  "trunc x = (if 0 \<le> x then \<lfloor>x\<rfloor> else - \<lfloor>- x\<rfloor>)"

text \<open>The new compensation and the number of samples over which it applies.\<close>

definition push_diff :: "'a sc_audio_regulator \<Rightarrow> rat \<Rightarrow> u32 \<Rightarrow> int \<times> int" where
  "push_diff ar avg can_read =
     (let diff = trunc (of_nat (unat (ar_target_buffering ar)) - avg);
          threshold = (if ar_compensation_active ar then sint (ar_sample_rate ar div 1000)
            else sint (ar_sample_rate ar * 4 div 1000));
          diff = (if \<bar>diff\<bar> < threshold then 0
            else if diff < 0 \<and> can_read < ar_target_buffering ar then 0 else diff);
          distance = sint (4 * ar_sample_rate ar);
          abs_max_diff = c_div distance 50
      in (max (min diff abs_max_diff) (- abs_max_diff), distance))"

text \<open>
  The estimation of the level of the buffer and, once a second, of the compensation; the result has the calls of
  \<open>swr_set_compensation\<close>.
\<close>

definition push_compensate ::
    "'a swr_env \<Rightarrow> u32 \<Rightarrow> u32 \<Rightarrow> u32 \<Rightarrow> u32 \<Rightarrow> u32 \<Rightarrow> 'a sc_audio_regulator \<Rightarrow>
      ('a sc_audio_regulator \<times> (int \<times> int) list) option" where
  "push_compensate env written input_samples underflow skipped_samples can_read ar = do {
     let instant_compensation = sint (written - input_samples);
     let inserted_silence = sint underflow;
     let dropped = sint skipped_samples;
     let avg = avg_avg (ar_avg_buffering ar) + of_int (instant_compensation + inserted_silence - dropped);
     let avg = (if avg < 0 then 0 else avg);
     average \<leftarrow> sc_average_push ((ar_avg_buffering ar)\<lparr>avg_avg := avg\<rparr>) (of_nat (unat can_read));
     let ar = ar\<lparr>ar_avg_buffering := average, ar_samples_since_resync := ar_samples_since_resync ar + written\<rparr>;
     if ar_samples_since_resync ar \<ge> ar_sample_rate ar then do {
       let ar = ar\<lparr>ar_samples_since_resync := 0\<rparr>;
       avg \<leftarrow> sc_average_get (ar_avg_buffering ar);
       let (diff, distance) = push_diff ar avg can_read;
       let ar = ar\<lparr>ar_underflow_report := 0\<rparr>;
       let ret = sw_set_compensation env diff distance;
       let ar = (if ret < 0 then ar else ar\<lparr>ar_compensation_active := diff \<noteq> 0\<rparr>);
       Some (ar, [(diff, distance)])
     }
     else Some (ar, [])
   }"

text \<open>\<open>swr_convert\<close> may write as many samples as it is told: this aborts when the buffer is too small.\<close>

definition sc_audio_regulator_push ::
    "'a \<Rightarrow> 'a swr_env \<Rightarrow> (nat \<Rightarrow> u32 list) \<Rightarrow> av_frame \<Rightarrow> pull_pc \<times> 'a sc_audio_regulator \<Rightarrow>
      (bool \<times> (pull_pc \<times> 'a sc_audio_regulator) \<times> (int \<times> int) list) option" where
  "sc_audio_regulator_push silent env sched frame s = do {
     let (pc, ar) = s;
     let input_samples = of_nat (av_nb_samples frame);
     c_assert (av_pts frame \<ge> 0);
     let pts = av_pts frame;
     let discontinuity = (ar_next_expected_pts ar \<noteq> 0 \<and> pts - ar_next_expected_pts ar > 100000);
     let reset = (if discontinuity then [(0, 0)] else []);
     (pc, ar) \<leftarrow> (if discontinuity
       then push_discontinuity silent env (sched 0) (sched 1) input_samples (pc, ar) else Some (pc, ar));
     c_assert (ar_sample_rate ar \<noteq> 0);
     let packet_duration = uint input_samples * 1000000 div uint (ar_sample_rate ar);
     let ar = ar\<lparr>ar_next_expected_pts := pts + packet_duration\<rparr>;
     let dst_nb_samples = sint (word_of_int (sw_delay env + int (av_nb_samples frame) + 256) :: u32);
     case sc_audio_regulator_get_swr_buf env ar (word_of_int dst_nb_samples) of
       None \<Rightarrow> Some (False, (pc, ar), reset)
     | Some ar \<Rightarrow> do {
         c_assert (nat dst_nb_samples * ar_sample_size ar \<le> ar_swr_buf_alloc_size ar);
         let (ret, swr_buf) = sw_convert env dst_nb_samples frame;
         if ret < 0 then Some (False, (pc, ar), reset)
         else do {
           let samples = word_of_int (min ret dst_nb_samples);
           cap \<leftarrow> sc_audiobuf_capacity (ar_buf ar);
           let (swr_buf, samples) =
             (if samples > cap then (drop (unat (samples - cap)) swr_buf, cap) else (swr_buf, samples));
           (written, skipped_samples, pc, ar) \<leftarrow>
             push_write silent (sched 2) (sched 3) (sched 4) swr_buf samples (pc, ar);
           (pc, ar) \<leftarrow> pulls silent (sched 5) (pc, ar);
           let played = ar_played ar;
           (pc, ar) \<leftarrow> pulls silent (sched 6) (pc, ar);
           let underflow = (if played then ar_underflow ar else 0);
           let ar = (if played then ar\<lparr>ar_underflow := 0, ar_underflow_report := ar_underflow_report ar + underflow\<rparr>
             else ar);
           (can_read, skip_samples, pc, ar) \<leftarrow>
             push_limit silent (sched 7) (sched 8) (max_buffered_samples played ar) (pc, ar);
           (pc, ar) \<leftarrow> pulls silent (sched 9) (pc, ar);
           let ar = ar\<lparr>ar_received := True\<rparr>;
           if \<not> played then Some (True, (pc, ar), reset)
           else do {
             (ar, calls) \<leftarrow> push_compensate env written input_samples underflow (skipped_samples + skip_samples)
               can_read ar;
             Some (True, (pc, ar), reset @ calls)
           }
         }
       }
   }"

section \<open>What pulling keeps\<close>

lemma unat_of_nat_u32: "k < 2 ^ 32 \<Longrightarrow> unat (of_nat k :: u32) = k"
  by (simp add: unsigned_of_nat take_bit_nat_eq_self)

lemma ab_write_ok:
  assumes "ab_inv buf" "unat n \<le> length from"
  shows "\<exists>buf' w. sc_audiobuf_write buf from n = Some (buf', w) \<and>
    unat w = min (unat n) (ab_capacity buf - ab_used buf) \<and> ab_inv buf' \<and>
    ab_alloc_size buf' = ab_alloc_size buf \<and> ab_content buf' = ab_content buf @ take (unat w) from"
proof -
  from write_eq [OF assms] obtain buf' where
    w: "sc_audiobuf_write buf from n = Some (buf', of_nat (min (unat n) (ab_capacity buf - ab_used buf)))"
      "ab_inv buf'" "ab_content buf' = ab_content buf @ take (min (unat n) (ab_capacity buf - ab_used buf)) from"
    by blast
  have "min (unat n) (ab_capacity buf - ab_used buf) < 2 ^ 32" using unsigned_less [of n, where 'a = nat] by simp
  moreover from w(1) have "ab_alloc_size buf' = ab_alloc_size buf"
    by (auto simp: sc_audiobuf_write_def write_copy_def write_commit_def Let_def split: if_splits bind_splits)
  ultimately show ?thesis using w by (auto simp: unat_of_nat_u32)
qed

lemma ab_read_ok:
  assumes "ab_inv buf" "n \<noteq> 0"
  shows "\<exists>buf' r. sc_audiobuf_read buf to n = Some (buf', r, if to then take (unat n) (ab_content buf) else []) \<and>
    unat r = min (unat n) (ab_used buf) \<and> ab_inv buf' \<and>
    ab_alloc_size buf' = ab_alloc_size buf \<and> ab_content buf' = drop (unat n) (ab_content buf)"
proof -
  from read_eq [OF assms, of to] obtain buf' where
    w: "sc_audiobuf_read buf to n = Some (buf', of_nat (min (unat n) (ab_used buf)),
        if to then take (unat n) (ab_content buf) else [])"
      "ab_inv buf'" "ab_content buf' = drop (unat n) (ab_content buf)" by blast
  have "min (unat n) (ab_used buf) < 2 ^ 32" using unsigned_less [of n, where 'a = nat] by simp
  moreover from w(1) have "ab_alloc_size buf' = ab_alloc_size buf"
    by (auto simp: sc_audiobuf_read_def read_commit_def Let_def split: if_splits bind_splits)
  ultimately show ?thesis using w by (auto simp: unat_of_nat_u32)
qed

definition ar_inv :: "'a sc_audio_regulator \<Rightarrow> bool" where
  "ar_inv ar \<longleftrightarrow> ab_inv (ar_buf ar) \<and> 0 < avg_range (ar_avg_buffering ar) \<and> ar_sample_rate ar \<noteq> 0 \<and>
     unat (ar_sample_rate ar) < 2 ^ 20 \<and> 11 * unat (ar_target_buffering ar) < 2 ^ 32"

text \<open>The fields that the player does not write.\<close>

definition ar_pushing :: "'a sc_audio_regulator \<Rightarrow>
    u32 \<times> u32 \<times> nat \<times> nat \<times> sc_average \<times> u32 \<times> u32 \<times> bool \<times> bool \<times> int" where
  "ar_pushing ar = (ar_target_buffering ar, ar_sample_rate ar, ar_sample_size ar, ar_swr_buf_alloc_size ar,
     ar_avg_buffering ar, ar_samples_since_resync ar, ar_underflow_report ar, ar_compensation_active ar,
     ar_received ar, ar_next_expected_pts ar)"

definition pulled :: "'a sc_audio_regulator \<Rightarrow> 'a sc_audio_regulator \<Rightarrow> bool" where
  "pulled ar ar' \<longleftrightarrow> ab_inv (ar_buf ar') \<and> ab_alloc_size (ar_buf ar') = ab_alloc_size (ar_buf ar) \<and>
     (\<exists>k. ab_content (ar_buf ar') = drop k (ab_content (ar_buf ar))) \<and>
     (ar_played ar \<longrightarrow> ar_played ar') \<and> ar_pushing ar' = ar_pushing ar"

lemma pulled_trans:
  assumes "pulled ar ar'" "pulled ar' ar''"
  shows "pulled ar ar''"
  using assms unfolding pulled_def by (metis drop_drop)

lemma pulledD:
  assumes "pulled ar ar'"
  shows "ab_inv (ar_buf ar')" "ab_alloc_size (ar_buf ar') = ab_alloc_size (ar_buf ar)"
    "ab_capacity (ar_buf ar') = ab_capacity (ar_buf ar)" "ab_used (ar_buf ar') \<le> ab_used (ar_buf ar)"
    "ar_played ar \<Longrightarrow> ar_played ar'" "ar_inv ar \<Longrightarrow> ar_inv ar'"
    "ar_target_buffering ar' = ar_target_buffering ar" "ar_sample_rate ar' = ar_sample_rate ar"
    "ar_avg_buffering ar' = ar_avg_buffering ar" "max_buffered_samples p ar' = max_buffered_samples p ar"
proof -
  note p = assms [unfolded pulled_def]
  from p obtain k where "ab_content (ar_buf ar') = drop k (ab_content (ar_buf ar))" by blast
  from arg_cong [OF this, of length] show "ab_used (ar_buf ar') \<le> ab_used (ar_buf ar)" by simp
  show "ab_capacity (ar_buf ar') = ab_capacity (ar_buf ar)" using p by (simp add: ab_capacity_def)
qed (use assms in \<open>auto simp: pulled_def ar_pushing_def ar_inv_def max_buffered_samples_def\<close>)

lemma pull_locked_ok:
  assumes "ab_inv (ar_buf ar)" "n \<noteq> 0"
  shows "\<exists>pc ar' out. pull_locked silent ar n = Some (pc, ar', out) \<and> pulled ar ar' \<and> length out = unat n"
proof (cases "\<not> ar_played ar \<and> sc_audiobuf_can_read (ar_buf ar) < ar_target_buffering ar")
  case True
  with assms show ?thesis by (auto simp: pull_locked_def pulled_def intro: exI [of _ 0])
next
  case False
  from ab_read_ok [OF assms, of True] obtain buf' r where
    r: "sc_audiobuf_read (ar_buf ar) True n = Some (buf', r, take (unat n) (ab_content (ar_buf ar)))"
      "unat r = min (unat n) (ab_used (ar_buf ar))" "ab_inv buf'" "ab_alloc_size buf' = ab_alloc_size (ar_buf ar)"
      "ab_content buf' = drop (unat n) (ab_content (ar_buf ar))" by auto
  have "pulled ar (ar\<lparr>ar_buf := buf'\<rparr>)" using r by (auto simp: pulled_def ar_pushing_def)
  moreover have "unat (n - r) = unat n - unat r" if "r < n" using that by (simp add: unat_sub_if' word_less_nat_alt)
  ultimately show ?thesis
    using False r(1,2) by (cases "r < n") (auto simp: pull_locked_def Let_def word_less_nat_alt)
qed

lemma pull_next_ok:
  assumes "ab_inv (ar_buf (snd s))" "n \<noteq> 0"
  shows "\<exists>s'. pull_next silent n s = Some s' \<and> pulled (snd s) (snd s')"
proof (cases s)
  case (Pair pc ar)
  show ?thesis
  proof (cases pc)
    case Pull_idle
    from pull_locked_ok [OF assms, of silent] Pair obtain pc' ar' out where
      "pull_locked silent ar n = Some (pc', ar', out)" "pulled ar ar'" by auto
    with Pair Pull_idle show ?thesis by (auto simp: pull_next_def)
  qed (use Pair assms in \<open>auto simp: pull_next_def pulled_def ar_pushing_def intro: exI [of _ 0]\<close>)
qed

lemma pulls_ok:
  "ab_inv (ar_buf (snd s)) \<Longrightarrow> 0 \<notin> set ns \<Longrightarrow> \<exists>pc ar'. pulls silent ns s = Some (pc, ar') \<and> pulled (snd s) ar'"
proof (induction ns arbitrary: s)
  case Nil
  then show ?case by (cases s) (auto simp: pulled_def intro: exI [of _ 0])
next
  case (Cons n ns)
  then have n: "n \<noteq> 0" by auto
  from pull_next_ok [OF Cons.prems(1) n, of silent] obtain s1 where
    s1: "pull_next silent n s = Some s1" "pulled (snd s) (snd s1)" by blast
  from Cons.IH [of s1] pulledD(1) [OF s1(2)] Cons.prems(2) obtain pc ar' where
    "pulls silent ns s1 = Some (pc, ar')" "pulled (snd s1) ar'" by auto
  with s1 pulled_trans show ?case by auto
qed

text \<open>A pull that is not disturbed is its three parts.\<close>

lemma pull_parts:
  assumes "ab_inv (ar_buf ar)" "n \<noteq> 0"
  shows "\<exists>ar' out. sc_audio_regulator_pull silent ar n = Some (ar', out) \<and> length out = unat n \<and>
    (pulls silent [n, n, n] (Pull_idle, ar) = Some (Pull_idle, ar') \<or>
     pulls silent [n, n] (Pull_idle, ar) = Some (Pull_idle, ar') \<or>
     pulls silent [n] (Pull_idle, ar) = Some (Pull_idle, ar'))"
proof (cases "\<not> ar_played ar \<and> sc_audiobuf_can_read (ar_buf ar) < ar_target_buffering ar")
  case True
  then show ?thesis by (simp add: sc_audio_regulator_pull_def pull_next_def pull_locked_def)
next
  case False
  from ab_read_ok [OF assms, of True] obtain buf' r where
    r: "sc_audiobuf_read (ar_buf ar) True n = Some (buf', r, take (unat n) (ab_content (ar_buf ar)))"
      "unat r = min (unat n) (ab_used (ar_buf ar))" by auto
  have "unat (n - r) = unat n - unat r" if "r < n" using that by (simp add: unat_sub_if' word_less_nat_alt)
  with False r show ?thesis
    by (cases "r < n") (auto simp: sc_audio_regulator_pull_def pull_next_def pull_locked_def Let_def word_less_nat_alt)
qed

section \<open>What a push keeps\<close>

text \<open>
  \<open>xs\<close> has been appended to what the buffer holds, and only the oldest samples have been taken out.
\<close>

definition refilled :: "'a list \<Rightarrow> 'a sc_audio_regulator \<Rightarrow> 'a sc_audio_regulator \<Rightarrow> bool" where
  "refilled xs ar ar' \<longleftrightarrow> ab_inv (ar_buf ar') \<and> ab_alloc_size (ar_buf ar') = ab_alloc_size (ar_buf ar) \<and>
     (\<exists>k \<le> ab_used (ar_buf ar) + length xs. ab_content (ar_buf ar') = drop k (ab_content (ar_buf ar) @ xs)) \<and>
     ar_target_buffering ar' = ar_target_buffering ar \<and> ar_sample_rate ar' = ar_sample_rate ar \<and>
     ar_sample_size ar' = ar_sample_size ar \<and> avg_range (ar_avg_buffering ar') = avg_range (ar_avg_buffering ar) \<and> (ar_played ar \<longrightarrow> ar_played ar')"

lemma refilled_trans:
  assumes "refilled xs ar ar1" "refilled ys ar1 ar2"
  shows "refilled (xs @ ys) ar ar2"
proof -
  let ?c = "ab_content (ar_buf ar)"
  from assms obtain j k where j: "j \<le> ab_used (ar_buf ar) + length xs" "ab_content (ar_buf ar1) = drop j (?c @ xs)"
    and k: "k \<le> ab_used (ar_buf ar1) + length ys" "ab_content (ar_buf ar2) = drop k (ab_content (ar_buf ar1) @ ys)"
    unfolding refilled_def by blast
  have "drop j (?c @ xs) @ ys = drop j (?c @ xs @ ys)" using j(1) by simp
  with j(2) k(2) have e: "ab_content (ar_buf ar2) = drop (k + j) (?c @ xs @ ys)" by (metis drop_drop)
  have "ab_used (ar_buf ar1) = ab_used (ar_buf ar) + length xs - j" using arg_cong [OF j(2), of length] by simp
  with j k have "k + j \<le> ab_used (ar_buf ar) + length (xs @ ys)" by simp
  with e have "\<exists>k \<le> ab_used (ar_buf ar) + length (xs @ ys). ab_content (ar_buf ar2) = drop k (?c @ xs @ ys)" by blast
  with assms show ?thesis by (simp add: refilled_def)
qed

lemma refilled_refl: "ab_inv (ar_buf ar) \<Longrightarrow> refilled [] ar ar"
  by (auto simp: refilled_def)

lemma pulled_refilled:
  assumes "pulled ar ar'"
  shows "refilled [] ar ar'"
proof -
  from assms obtain k where k: "ab_content (ar_buf ar') = drop k (ab_content (ar_buf ar))" by (auto simp: pulled_def)
  obtain j where "j \<le> ab_used (ar_buf ar)" "ab_content (ar_buf ar') = drop j (ab_content (ar_buf ar))"
    using k by (cases "k \<le> ab_used (ar_buf ar)") (simp, simp add: that [of "ab_used (ar_buf ar)"])
  then have "\<exists>k \<le> ab_used (ar_buf ar). ab_content (ar_buf ar') = drop k (ab_content (ar_buf ar))" by blast
  with assms show ?thesis by (simp add: refilled_def pulled_def ar_pushing_def)
qed

lemma refilled_pulled: "refilled xs ar ar1 \<Longrightarrow> pulled ar1 ar2 \<Longrightarrow> refilled xs ar ar2"
  using refilled_trans [OF _ pulled_refilled, of xs ar ar1 ar2] by simp

lemma refilled_write:
  assumes "ab_inv buf'" "ab_alloc_size buf' = ab_alloc_size (ar_buf ar)" "ab_content buf' = ab_content (ar_buf ar) @ xs"
  shows "refilled xs ar (ar\<lparr>ar_buf := buf'\<rparr>)"
  using assms by (auto simp: refilled_def)

lemma refilled_drop:
  assumes "ab_inv buf'" "ab_alloc_size buf' = ab_alloc_size (ar_buf ar)"
    "ab_content buf' = drop k (ab_content (ar_buf ar))" "k \<le> ab_used (ar_buf ar)"
  shows "refilled [] ar (ar\<lparr>ar_buf := buf'\<rparr>)"
  using assms by (auto simp: refilled_def)

lemma refilledD:
  assumes "refilled xs ar ar'"
  shows "ab_inv (ar_buf ar')" "ab_capacity (ar_buf ar') = ab_capacity (ar_buf ar)"
    "ar_target_buffering ar' = ar_target_buffering ar" "ar_sample_rate ar' = ar_sample_rate ar"
    "ar_inv ar \<Longrightarrow> ar_inv ar'" "max_buffered_samples p ar' = max_buffered_samples p ar"
    "ar_played ar \<Longrightarrow> ar_played ar'" "ar_sample_size ar' = ar_sample_size ar"
  using assms by (auto simp: refilled_def ab_capacity_def ar_inv_def max_buffered_samples_def)

lemma push_discontinuity_ok:
  assumes "ar_inv ar" "0 \<notin> set ns0" "0 \<notin> set ns1" "sw_set_compensation env 0 0 = 0"
  shows "\<exists>k pc' ar'. push_discontinuity silent env ns0 ns1 n (pc, ar) = Some (pc', ar') \<and>
    refilled (replicate k silent) ar ar' \<and> ar_swr_buf_alloc_size ar' = ar_swr_buf_alloc_size ar \<and>
    ar_sample_size ar' = ar_sample_size ar"
proof -
  have "ab_inv (ar_buf ar)" using assms(1) by (simp add: ar_inv_def)
  from pulls_ok [of "(pc, ar)", OF _ assms(2), of silent] this obtain pc1 ar1 where
    p1: "pulls silent ns0 (pc, ar) = Some (pc1, ar1)" "pulled ar ar1" by auto
  from pulls_ok [of "(pc1, ar1)", OF _ assms(3), of silent] pulledD(1) [OF p1(2)] obtain pc2 ar2 where
    p2: "pulls silent ns1 (pc1, ar1) = Some (pc2, ar2)" "pulled ar1 ar2" by auto
  note i2 = pulledD(1) [OF p2(2)] and p = pulled_trans [OF p1(2) p2(2)]
  have same: "ar_swr_buf_alloc_size ar2 = ar_swr_buf_alloc_size ar" "ar_sample_size ar2 = ar_sample_size ar"
    using p by (simp_all add: pulled_def ar_pushing_def)
  let ?c = "sc_audiobuf_can_read (ar_buf ar1)" and ?s = "ar_target_buffering ar2 - sc_audiobuf_can_read (ar_buf ar1) - n"
  from ab_write_ok [OF i2, of ?s "replicate (unat ?s) silent"] obtain buf' w where
    w: "sc_audiobuf_write (ar_buf ar2) (replicate (unat ?s) silent) ?s = Some (buf', w)"
      "ab_inv buf'" "ab_alloc_size buf' = ab_alloc_size (ar_buf ar2)"
      "ab_content buf' = ab_content (ar_buf ar2) @ replicate (min (unat w) (unat ?s)) silent" by auto
  let ?fin = "\<lambda>ar. ar\<lparr>ar_avg_buffering := (ar_avg_buffering ar)\<lparr>avg_avg := of_nat (unat (ar_target_buffering ar))\<rparr>,
    ar_compensation_active := False, ar_samples_since_resync := 0, ar_underflow := 0\<rparr>"
  have fin: "refilled xs a b \<Longrightarrow> refilled xs a (?fin b)" for xs and a b :: "'a sc_audio_regulator" by (simp add: refilled_def)
  show ?thesis
  proof (cases "n + ?c < ar_target_buffering ar2")
    case True
    have "refilled (replicate (min (unat w) (unat ?s)) silent) ar (ar2\<lparr>ar_buf := buf'\<rparr>)"
      using refilled_trans [OF pulled_refilled [OF p] refilled_write [OF w(2-4)]] by simp
    from fin [OF this] True w(1) p1 p2 same assms(4) show ?thesis
      by (auto simp: push_discontinuity_def Let_def write_silence_eq [OF i2])
  next
    case False
    have "refilled (replicate 0 silent) ar ar2" using pulled_refilled [OF p] by simp
    from fin [OF this] False p1 p2 same assms(4) show ?thesis
      by (auto simp: push_discontinuity_def Let_def intro: exI [of _ 0])
  qed
qed

text \<open>All the samples are written, whatever is pulled meanwhile: old samples make room for them.\<close>

lemma push_write_ok:
  assumes "ab_inv (ar_buf ar)" "0 \<notin> set ns0" "0 \<notin> set ns1" "0 \<notin> set ns2"
    and len: "unat n \<le> length xs" and cap: "unat n \<le> ab_capacity (ar_buf ar)"
  shows "\<exists>written skipped pc' ar'. push_write silent ns0 ns1 ns2 xs n (pc, ar) = Some (written, skipped, pc', ar') \<and>
    refilled (take (unat n) xs) ar ar' \<and> unat written + unat skipped = unat n"
proof -
  from pulls_ok [of "(pc, ar)", OF _ assms(2), of silent] assms(1) obtain pc1 ar1 where
    p1: "pulls silent ns0 (pc, ar) = Some (pc1, ar1)" "pulled ar ar1" by auto
  note i1 = pulledD(1) [OF p1(2)]
  from ab_write_ok [OF i1 len] obtain buf1 w1 where
    w1: "sc_audiobuf_write (ar_buf ar1) xs n = Some (buf1, w1)" "unat w1 \<le> unat n" "ab_inv buf1"
      "ab_alloc_size buf1 = ab_alloc_size (ar_buf ar1)" "ab_content buf1 = ab_content (ar_buf ar1) @ take (unat w1) xs"
    by auto
  have f1: "refilled (take (unat w1) xs) ar (ar1\<lparr>ar_buf := buf1\<rparr>)"
    using refilled_trans [OF pulled_refilled [OF p1(2)] refilled_write [OF w1(3-5)]] by simp
  show ?thesis
  proof (cases "w1 < n")
    case False
    with w1(2) have "w1 = n" by (simp add: word_less_nat_alt word_unat_eq_iff)
    with f1 p1 w1 show ?thesis by (auto simp: push_write_def intro: exI [of _ 0])
  next
    case lt: True
    have r: "unat (n - w1) = unat n - unat w1" using lt by (simp add: unat_sub_if' word_less_nat_alt)
    from pulls_ok [of "(pc1, ar1\<lparr>ar_buf := buf1\<rparr>)", OF _ assms(3), of silent] w1(3) obtain pc2 ar2 where
      p2: "pulls silent ns1 (pc1, ar1\<lparr>ar_buf := buf1\<rparr>) = Some (pc2, ar2)" "pulled (ar1\<lparr>ar_buf := buf1\<rparr>) ar2" by auto
    note i2 = pulledD(1) [OF p2(2)] and f2 = refilled_pulled [OF f1 p2(2)]
    have "unat (n - w1) \<le> length (drop (unat w1) xs)" using r len by simp
    from ab_write_ok [OF i2 this] obtain buf2 w2 where
      w2: "sc_audiobuf_write (ar_buf ar2) (drop (unat w1) xs) (n - w1) = Some (buf2, w2)"
        "unat w2 = min (unat n - unat w1) (ab_capacity (ar_buf ar2) - ab_used (ar_buf ar2))" "ab_inv buf2"
        "ab_alloc_size buf2 = ab_alloc_size (ar_buf ar2)"
        "ab_content buf2 = ab_content (ar_buf ar2) @ take (unat w2) (drop (unat w1) xs)"
      unfolding r by blast
    have u2: "ab_used buf2 = ab_used (ar_buf ar2) + unat w2"
    proof -
      have "min (length xs - unat w1) (unat w2) = unat w2" using w2(2) len by linarith
      with arg_cong [OF w2(5), of length] show ?thesis by simp
    qed
    have cap2: "ab_capacity buf2 = ab_capacity (ar_buf ar)" "ab_capacity (ar_buf ar2) = ab_capacity (ar_buf ar)"
      using w2(4) refilledD(2) [OF f2] by (simp_all add: ab_capacity_def)
    have f2w: "refilled (take (unat w1) xs @ take (unat w2) (drop (unat w1) xs)) ar (ar2\<lparr>ar_buf := buf2\<rparr>)"
      using refilled_trans [OF f2 refilled_write [OF w2(3-5)]] .
    have s: "unat (w1 + w2) = unat w1 + unat w2"
    proof -
      have "unat w1 + unat w2 \<le> unat n" using w1(2) w2(2) by linarith
      then have "unat w1 + unat w2 < 2 ^ 32" using unsigned_less [of n, where 'a = nat] by simp
      then show ?thesis by (simp add: unat_plus_if')
    qed
    have f2': "refilled (take (unat (w1 + w2)) xs) ar (ar2\<lparr>ar_buf := buf2\<rparr>)" using f2w by (simp add: s take_add)
    show ?thesis
    proof (cases "w1 + w2 < n")
      case False
      then have "unat n = unat (w1 + w2)" using s w2(2) r lt by (simp add: word_less_nat_alt min_def split: if_splits)
      with f2' lt False p1 p2 w1 w2 show ?thesis by (auto simp: push_write_def Let_def intro!: exI [of _ 0])
    next
      case lt2: True
      let ?m = "n - (w1 + w2)"
      have m: "unat ?m = unat n - unat (w1 + w2)" "?m \<noteq> 0"
        using lt2 by (auto simp: unat_sub_if' word_less_nat_alt)
      have full: "ab_used buf2 = ab_capacity buf2"
        using lt2 w2(2) u2 cap2 s ab_used_le [OF i2] lt by (simp add: word_less_nat_alt min_def split: if_splits)
      from ab_read_ok [OF w2(3) m(2), of False] obtain buf3 k where
        r3: "sc_audiobuf_read buf2 False ?m = Some (buf3, k, [])" "unat k = min (unat ?m) (ab_used buf2)" "ab_inv buf3"
          "ab_alloc_size buf3 = ab_alloc_size buf2" "ab_content buf3 = drop (unat ?m) (ab_content buf2)" by auto
      have k: "k = ?m" using r3(2) full cap2 cap m by (simp add: word_unat_eq_iff min_def)
      have u3: "ab_used buf3 = ab_capacity buf2 - unat ?m" using arg_cong [OF r3(5), of length] full by simp
      have f3: "refilled (take (unat (w1 + w2)) xs) ar (ar2\<lparr>ar_buf := buf3\<rparr>)"
        using refilled_trans [OF f2' refilled_drop [of buf3 "ar2\<lparr>ar_buf := buf2\<rparr>" "unat ?m"]] r3 full cap2 cap m by simp
      from pulls_ok [of "(pc2, ar2\<lparr>ar_buf := buf3\<rparr>)", OF _ assms(4), of silent] r3(3) obtain pc4 ar4 where
        p4: "pulls silent ns2 (pc2, ar2\<lparr>ar_buf := buf3\<rparr>) = Some (pc4, ar4)" "pulled (ar2\<lparr>ar_buf := buf3\<rparr>) ar4" by auto
      note i4 = pulledD(1) [OF p4(2)] and f4 = refilled_pulled [OF f3 p4(2)]
      have l4: "unat ?m \<le> length (drop (unat (w1 + w2)) xs)" using m len by simp
      from ab_write_ok [OF i4 l4] obtain buf5 w5 where
        w5: "sc_audiobuf_write (ar_buf ar4) (drop (unat (w1 + w2)) xs) ?m = Some (buf5, w5)"
          "unat w5 = min (unat ?m) (ab_capacity (ar_buf ar4) - ab_used (ar_buf ar4))" "ab_inv buf5"
          "ab_alloc_size buf5 = ab_alloc_size (ar_buf ar4)"
          "ab_content buf5 = ab_content (ar_buf ar4) @ take (unat w5) (drop (unat (w1 + w2)) xs)" by blast
      have "ab_used (ar_buf ar4) \<le> ab_capacity buf2 - unat ?m" "ab_capacity (ar_buf ar4) = ab_capacity buf2"
        using pulledD(4) [OF p4(2)] u3 refilledD(2) [OF f4] cap2 by simp_all
      then have "w5 = ?m" using w5(2) cap cap2 m by (simp add: word_unat_eq_iff min_def)
      with m have "take (unat (w1 + w2)) xs @ take (unat w5) (drop (unat (w1 + w2)) xs) = take (unat n) xs"
        using lt2 by (simp flip: take_add add: word_less_nat_alt)
      with refilled_trans [OF f4 refilled_write [OF w5(3-5)]] have "refilled (take (unat n) xs) ar (ar4\<lparr>ar_buf := buf5\<rparr>)" by simp
      moreover have "unat (w1 + w2) + unat ?m = unat n" using m lt2 by (simp add: word_less_nat_alt)
      ultimately show ?thesis using lt lt2 p1 p2 p4 w1(1) w2(1) r3(1) w5(1) k \<open>w5 = ?m\<close>
        by (simp add: push_write_def Let_def diff_diff_add)
    qed
  qed
qed

lemma push_limit_ok:
  assumes "ab_inv (ar_buf ar)" "0 \<notin> set ns0" "0 \<notin> set ns1"
  shows "\<exists>can_read skip pc' ar'. push_limit silent ns0 ns1 m (pc, ar) = Some (can_read, skip, pc', ar') \<and>
    refilled [] ar ar' \<and> ab_used (ar_buf ar') \<le> unat m"
proof -
  from pulls_ok [of "(pc, ar)", OF _ assms(2), of silent] assms(1) obtain pc1 ar1 where
    p1: "pulls silent ns0 (pc, ar) = Some (pc1, ar1)" "pulled ar ar1" by auto
  note i1 = pulledD(1) [OF p1(2)]
  from pulls_ok [of "(pc1, ar1)", OF _ assms(3), of silent] i1 obtain pc2 ar2 where
    p2: "pulls silent ns1 (pc1, ar1) = Some (pc2, ar2)" "pulled ar1 ar2" by auto
  note i2 = pulledD(1) [OF p2(2)] and p = pulled_trans [OF p1(2) p2(2)]
  let ?c = "\<lambda>ar. sc_audiobuf_can_read (ar_buf ar)"
  consider (low) "\<not> m < ?c ar1" | (less) "m < ?c ar1" "\<not> m < ?c ar2" | (drop) "m < ?c ar1" "m < ?c ar2" by blast
  then show ?thesis
  proof cases
    case low
    with p1 pulled_refilled [OF p1(2)] can_read_eq [OF i1] show ?thesis
      by (simp add: push_limit_def Let_def word_less_nat_alt)
  next
    case less
    with p1 p2 pulled_refilled [OF p] can_read_eq [OF i2] show ?thesis
      by (simp add: push_limit_def Let_def word_less_nat_alt)
  next
    case drop
    let ?k = "?c ar2 - m"
    have k: "unat ?k = ab_used (ar_buf ar2) - unat m" "?k \<noteq> 0"
      using drop(2) can_read_eq [OF i2] by (auto simp: unat_sub_if' word_less_nat_alt)
    from ab_read_ok [OF i2 k(2), of False] obtain buf' r where
      r: "sc_audiobuf_read (ar_buf ar2) False ?k = Some (buf', r, [])" "unat r = min (unat ?k) (ab_used (ar_buf ar2))"
        "ab_inv buf'" "ab_alloc_size buf' = ab_alloc_size (ar_buf ar2)"
        "ab_content buf' = drop (unat ?k) (ab_content (ar_buf ar2))" by auto
    have "r = ?k" using r(2) k by (simp add: word_unat_eq_iff min_def)
    moreover have "refilled [] ar (ar2\<lparr>ar_buf := buf'\<rparr>)"
      using refilled_trans [OF pulled_refilled [OF p] refilled_drop [OF r(3-5)]] k by simp
    moreover have "ab_used buf' = ab_used (ar_buf ar2) - unat ?k" using arg_cong [OF r(5), of length] by simp
    ultimately show ?thesis using drop p1 p2 r(1) k can_read_eq [OF i2]
      by (simp add: push_limit_def Let_def word_less_nat_alt)
  qed
qed

text \<open>A compensation is at most 2 percent of the samples over which it applies.\<close>

lemma push_diff_le:
  assumes "unat (ar_sample_rate ar) < 2 ^ 20"
  shows "\<bar>fst (push_diff ar avg n)\<bar> \<le> snd (push_diff ar avg n) div 50"
    "snd (push_diff ar avg n) = 4 * uint (ar_sample_rate ar)"
proof -
  let ?d = "sint (4 * ar_sample_rate ar)"
  have r: "uint (ar_sample_rate ar) < 2 ^ 20" using assms by (simp only: unat_eq_nat_uint nat_less_iff uint_ge_0) simp
  then have "uint (4 * ar_sample_rate ar) = 4 * uint (ar_sample_rate ar)"
    by (simp add: uint_mult_lem [THEN iffD1])
  with r have d: "?d = 4 * uint (ar_sample_rate ar)" using uint_ge_0 [of "ar_sample_rate ar"]
    by (auto simp: sint_uint intro!: signed_take_bit_int_eq_self order_trans [OF _ uint_ge_0])
  then have "0 \<le> ?d" by simp
  then have "\<bar>max (min x (c_div ?d 50)) (- c_div ?d 50)\<bar> \<le> ?d div 50" for x
    by (simp add: abs_le_iff min_def max_def pos_imp_zdiv_nonneg_iff)
  then show "\<bar>fst (push_diff ar avg n)\<bar> \<le> snd (push_diff ar avg n) div 50" by (simp add: push_diff_def Let_def)
  show "snd (push_diff ar avg n) = 4 * uint (ar_sample_rate ar)" using d by (simp add: push_diff_def Let_def)
qed

lemma push_compensate_ok:
  assumes "ar_inv ar"
  shows "\<exists>ar' calls. push_compensate env written input underflow skipped can_read ar = Some (ar', calls) \<and>
    refilled [] ar ar' \<and> (\<forall>(diff, distance) \<in> set calls. \<bar>diff\<bar> \<le> distance div 50)"
proof -
  let ?a = "avg_avg (ar_avg_buffering ar) + of_int (sint (written - input) + sint underflow - sint skipped)"
  let ?b = "(ar_avg_buffering ar)\<lparr>avg_avg := if ?a < 0 then 0 else ?a\<rparr>"
  have "\<exists>avg'. sc_average_push ?b x = Some avg' \<and> avg_range avg' = avg_range ?b \<and> avg_count avg' \<noteq> 0" for x
    using average_between [of ?b "min x (avg_avg ?b)" x "max x (avg_avg ?b)"] assms by (auto simp: ar_inv_def)
  then obtain avg' where avg: "sc_average_push ?b (of_nat (unat can_read)) = Some avg'"
    "avg_range avg' = avg_range (ar_avg_buffering ar)" "avg_count avg' \<noteq> 0" by fastforce
  have get: "sc_average_get avg' = Some (avg_avg avg')" using avg(3) by (simp add: sc_average_get_def)
  have inv: "ab_inv (ar_buf ar)" "unat (ar_sample_rate ar) < 2 ^ 20" using assms by (simp_all add: ar_inv_def)
  let ?ar = "ar\<lparr>ar_avg_buffering := avg', ar_samples_since_resync := ar_samples_since_resync ar + written\<rparr>"
  have f: "refilled [] ar (?ar\<lparr>ar_samples_since_resync := k, ar_underflow_report := u, ar_compensation_active := c\<rparr>)"
    "refilled [] ar ?ar" "refilled [] ar (?ar\<lparr>ar_samples_since_resync := k, ar_underflow_report := u\<rparr>)" for k u c
    using refilled_refl [OF inv(1)] avg(2) by (simp_all add: refilled_def)
  show ?thesis
  proof (cases "ar_samples_since_resync ?ar \<ge> ar_sample_rate ?ar")
    case False
    with avg(1) f(2) show ?thesis by (simp add: push_compensate_def Let_def split del: if_split cong: if_cong)
  next
    case True
    obtain diff distance where d: "push_diff (?ar\<lparr>ar_samples_since_resync := 0\<rparr>) (avg_avg avg') can_read = (diff, distance)"
      by force
    have "\<bar>diff\<bar> \<le> distance div 50"
      using push_diff_le(1) [of "?ar\<lparr>ar_samples_since_resync := 0\<rparr>" "avg_avg avg'" can_read] d inv(2) by simp
    with True d avg(1) get f show ?thesis
      by (cases "sw_set_compensation env diff distance < 0") (simp_all add: push_compensate_def Let_def split del: if_split cong: if_cong)
  qed
qed

section \<open>The regulator never aborts and loses only the oldest samples\<close>

text \<open>What is asked of a frame and of the resampler: the delay is small, and no more samples are announced than given.\<close>

definition swr_ok :: "'a swr_env \<Rightarrow> av_frame \<Rightarrow> bool" where
  "swr_ok env frame \<longleftrightarrow> 0 \<le> av_pts frame \<and> 0 \<le> sw_delay env \<and>
     sw_delay env + int (av_nb_samples frame) + 256 < 2 ^ 31 \<and> sw_set_compensation env 0 0 = 0 \<and>
     (\<forall>n. min (fst (sw_convert env n frame)) n \<le> int (length (snd (sw_convert env n frame))))"

text \<open>The samples that a frame becomes, at most the last \<open>cap\<close> of them.\<close>

definition resampled :: "'a swr_env \<Rightarrow> av_frame \<Rightarrow> nat \<Rightarrow> 'a list" where
  "resampled env frame cap =
     (let dst = sw_delay env + int (av_nb_samples frame) + 256;
          (ret, buf) = sw_convert env dst frame;
          xs = take (nat (min ret dst)) buf
      in drop (length xs - cap) xs)"

lemma get_swr_buf_ok:
  assumes "sc_audio_regulator_get_swr_buf env ar n = Some ar'"
  shows "unat n * ar_sample_size ar \<le> ar_swr_buf_alloc_size ar'" "ar_buf ar' = ar_buf ar" "refilled xs a ar' = refilled xs a ar"
    "ar_sample_size ar' = ar_sample_size ar"
  using assms by (auto simp: sc_audio_regulator_get_swr_buf_def TO_BYTES_def Let_def refilled_def split: if_splits)

lemma word_of_small_int: "0 \<le> k \<Longrightarrow> k < 2 ^ 31 \<Longrightarrow> unat (word_of_int k :: u32) = nat k \<and> sint (word_of_int k :: u32) = k"
  by (simp add: unsigned_of_int signed_of_int take_bit_int_eq_self signed_take_bit_int_eq_self)

text \<open>The samples given to \<open>push_write\<close>.\<close>

lemma resampled_fit:
  fixes cap :: u32
  assumes "swr_ok env frame" and d: "dst = sw_delay env + int (av_nb_samples frame) + 256"
    and c: "sw_convert env dst frame = (ret, buf)" "0 \<le> ret"
    and s: "samples = (word_of_int (min ret dst) :: u32)"
    and fit: "(xs, n) = (if cap < samples then (drop (unat (samples - cap)) buf, cap) else (buf, samples))"
  shows "unat n \<le> length xs" "unat n \<le> unat cap" "take (unat n) xs = resampled env frame (unat cap)"
proof -
  let ?m = "min ret dst"
  have m: "0 \<le> ?m" "?m < 2 ^ 31" "nat ?m \<le> length buf"
  proof -
    have "0 \<le> dst" "dst < 2 ^ 31" using assms(1) by (auto simp: swr_ok_def d)
    moreover have "?m \<le> int (length buf)" using assms(1) c(1) by (fastforce simp: swr_ok_def dest: spec [of _ dst])
    ultimately show "0 \<le> ?m" "?m < 2 ^ 31" "nat ?m \<le> length buf" using c(2) by (simp_all add: nat_le_iff)
  qed
  have u: "unat samples = nat ?m" using word_of_small_int [OF m(1,2)] s by simp
  have r: "resampled env frame (unat cap) = drop (nat ?m - unat cap) (take (nat ?m) buf)"
    using c(1) m(3) by (simp add: resampled_def Let_def d min_absorb2)
  show "unat n \<le> length xs" "unat n \<le> unat cap" "take (unat n) xs = resampled env frame (unat cap)"
    using fit m(3) u r by (auto simp: word_less_nat_alt unat_sub_if' drop_take split: if_splits)
qed

lemma regulator_push_ok:
  assumes inv: "ar_inv ar" and sched: "\<And>i. 0 \<notin> set (sched i)" and swr: "swr_ok env frame"
  shows "\<exists>ok pc' ar' calls k xs. sc_audio_regulator_push silent env sched frame (pc, ar) = Some (ok, (pc', ar'), calls) \<and>
    ar_inv ar' \<and> refilled (replicate k silent @ xs) ar ar' \<and>
    (ok \<longrightarrow> xs = resampled env frame (ab_capacity (ar_buf ar)) \<and>
      (\<exists>played. ab_used (ar_buf ar') \<le> unat (max_buffered_samples played ar))) \<and>
    (\<forall>(diff, distance) \<in> set calls. \<bar>diff\<bar> \<le> distance div 50)"
proof -
  let ?n = "of_nat (av_nb_samples frame) :: u32"
  let ?disc = "ar_next_expected_pts ar \<noteq> 0 \<and> av_pts frame - ar_next_expected_pts ar > 100000"
  let ?reset = "if ?disc then [(0, 0)] else [] :: (int \<times> int) list"
  have b: "ab_inv (ar_buf ar)" using inv by (simp add: ar_inv_def)
  obtain k pc1 ar1 where s1: "(if ?disc then push_discontinuity silent env (sched 0) (sched 1) ?n (pc, ar) else Some (pc, ar)) =
      Some (pc1, ar1)" "refilled (replicate k silent) ar ar1"
  proof (cases ?disc)
    case True
    with push_discontinuity_ok [OF inv sched [of 0] sched [of 1], of env silent ?n pc] swr that show ?thesis
      by (auto simp: swr_ok_def)
  next
    case False
    with that [of pc ar 0] refilled_refl [OF b] show ?thesis by simp
  qed
  have rate: "ar_sample_rate ar1 \<noteq> 0" using refilledD(5) [OF s1(2) inv] by (simp add: ar_inv_def)
  let ?pts = "av_pts frame + uint ?n * 1000000 div uint (ar_sample_rate ar1)"
  let ?ar1 = "ar1\<lparr>ar_next_expected_pts := ?pts\<rparr>"
  have f1: "refilled (replicate k silent) ar ?ar1" using s1(2) by (simp add: refilled_def)
  let ?dst = "sw_delay env + int (av_nb_samples frame) + 256"
  have dst: "unat (word_of_int ?dst :: u32) = nat ?dst" "sint (word_of_int ?dst :: u32) = ?dst"
    using word_of_small_int [of ?dst] swr by (simp_all add: swr_ok_def)
  have reset: "\<forall>(diff, distance) \<in> set ?reset. \<bar>diff\<bar> \<le> distance div 50" by simp
  show ?thesis
  proof (cases "sc_audio_regulator_get_swr_buf env ?ar1 (word_of_int ?dst)")
    case None
    have "sc_audio_regulator_push silent env sched frame (pc, ar) = Some (False, (pc1, ?ar1), ?reset)"
      using s1(1) rate None dst swr by (simp add: sc_audio_regulator_push_def Let_def swr_ok_def)
    with refilledD(5) [OF f1 inv] f1 reset show ?thesis
      by (intro exI [of _ False] exI [of _ pc1] exI [of _ ?ar1] exI [of _ ?reset] exI [of _ k] exI [of _ "[]"]) simp
  next
    case (Some ar2)
    note g = get_swr_buf_ok [OF Some]
    have size: "nat ?dst * ar_sample_size ar2 \<le> ar_swr_buf_alloc_size ar2" using g(1,4) dst(1) by simp
    have f2: "refilled (replicate k silent) ar ar2" using f1 g(3) by simp
    obtain ret buf where conv: "sw_convert env ?dst frame = (ret, buf)" by force
    show ?thesis
    proof (cases "ret < 0")
      case True
      have "sc_audio_regulator_push silent env sched frame (pc, ar) = Some (False, (pc1, ar2), ?reset)"
        using s1(1) rate Some dst swr size conv True by (simp add: sc_audio_regulator_push_def Let_def swr_ok_def)
      with refilledD(5) [OF f2 inv] f2 reset show ?thesis
        by (intro exI [of _ False] exI [of _ pc1] exI [of _ ar2] exI [of _ ?reset] exI [of _ k] exI [of _ "[]"]) simp
    next
      case False
      let ?cap = "ab_alloc_size (ar_buf ar2) - 1"
      have b2: "ab_inv (ar_buf ar2)" using refilledD(1) [OF f2] .
      then have cap: "sc_audiobuf_capacity (ar_buf ar2) = Some ?cap" "unat ?cap = ab_capacity (ar_buf ar2)"
        "ab_capacity (ar_buf ar2) = ab_capacity (ar_buf ar)"
        using refilledD(2) [OF f2] by (auto simp: sc_audiobuf_capacity_def ab_inv_def ab_capacity_def unat_sub_if' zero_iff_unat)
      let ?s = "word_of_int (min ret ?dst) :: u32"
      obtain xs n where xs: "(xs, n) = (if ?cap < ?s then (drop (unat (?s - ?cap)) buf, ?cap) else (buf, ?s))" by force
      from resampled_fit [OF swr refl conv _ refl xs] False have fit: "unat n \<le> length xs"
        "unat n \<le> ab_capacity (ar_buf ar2)" "take (unat n) xs = resampled env frame (ab_capacity (ar_buf ar))"
        by (simp_all add: cap)
      from push_write_ok [OF b2 sched [of 2] sched [of 3] sched [of 4] fit(1,2), of silent pc1] obtain written skipped pc3 ar3
        where w: "push_write silent (sched 2) (sched 3) (sched 4) xs n (pc1, ar2) = Some (written, skipped, pc3, ar3)"
          "refilled (take (unat n) xs) ar2 ar3" by blast
      note f3 = refilled_trans [OF f2 w(2), unfolded fit(3)]
      from pulls_ok [of "(pc3, ar3)", OF _ sched [of 5], of silent] refilledD(1) [OF f3] obtain pc4 ar4 where
        p4: "pulls silent (sched 5) (pc3, ar3) = Some (pc4, ar4)" "pulled ar3 ar4" by auto
      from pulls_ok [of "(pc4, ar4)", OF _ sched [of 6], of silent] pulledD(1) [OF p4(2)] obtain pc5 ar5 where
        p5: "pulls silent (sched 6) (pc4, ar4) = Some (pc5, ar5)" "pulled ar4 ar5" by auto
      note f5 = refilled_pulled [OF refilled_pulled [OF f3 p4(2)] p5(2)]
      let ?u = "if ar_played ar4 then ar_underflow ar5 else 0"
      let ?ar5 = "if ar_played ar4 then ar5\<lparr>ar_underflow := 0, ar_underflow_report := ar_underflow_report ar5 + ?u\<rparr> else ar5"
      have f5': "refilled (replicate k silent @ resampled env frame (ab_capacity (ar_buf ar))) ar ?ar5"
        using f5 by (auto simp: refilled_def)
      let ?max = "max_buffered_samples (ar_played ar4) ?ar5"
      from push_limit_ok [OF refilledD(1) [OF f5'] sched [of 7] sched [of 8], of silent ?max pc5] obtain can_read skip pc6 ar6 where
        l: "push_limit silent (sched 7) (sched 8) ?max (pc5, ?ar5) = Some (can_read, skip, pc6, ar6)"
          "refilled [] ?ar5 ar6" "ab_used (ar_buf ar6) \<le> unat ?max" by blast
      have f6: "refilled (replicate k silent @ resampled env frame (ab_capacity (ar_buf ar))) ar ar6"
        using refilled_trans [OF f5' l(2)] by simp
      from pulls_ok [of "(pc6, ar6)", OF _ sched [of 9], of silent] refilledD(1) [OF f6] obtain pc7 ar7 where
        p7: "pulls silent (sched 9) (pc6, ar6) = Some (pc7, ar7)" "pulled ar6 ar7" by auto
      let ?ar7 = "ar7\<lparr>ar_received := True\<rparr>"
      have f7: "refilled (replicate k silent @ resampled env frame (ab_capacity (ar_buf ar))) ar ?ar7"
        using refilled_pulled [OF f6 p7(2)] by (simp add: refilled_def)
      note inv7 = refilledD(5) [OF f7 inv]
      have max: "?max = max_buffered_samples (ar_played ar4) ar" using refilledD(6) [OF f5'] .
      have used: "ab_used (ar_buf ?ar7) \<le> unat (max_buffered_samples (ar_played ar4) ar)"
        using l(3) pulledD(4) [OF p7(2)] max by simp
      from push_compensate_ok [OF inv7, of env written ?n ?u "skipped + skip" can_read] obtain ar8 calls where
        c8: "push_compensate env written ?n ?u (skipped + skip) can_read ?ar7 = Some (ar8, calls)" "refilled [] ?ar7 ar8"
          "\<forall>(diff, distance) \<in> set calls. \<bar>diff\<bar> \<le> distance div 50" by blast
      have f8: "refilled (replicate k silent @ resampled env frame (ab_capacity (ar_buf ar))) ar ar8"
        using refilled_trans [OF f7 c8(2)] by simp
      have used8: "ab_used (ar_buf ar8) \<le> ab_used (ar_buf ?ar7)"
        using c8(2) by (auto simp: refilled_def simp flip: length_ab_content)
      have "sc_audio_regulator_push silent env sched frame (pc, ar) =
          (if ar_played ar4 then Some (True, (pc7, ar8), ?reset @ calls) else Some (True, (pc7, ?ar7), ?reset))"
        using s1(1) rate Some dst swr size conv False cap(1) xs [symmetric] w(1) p4(1) p5(1) l(1) p7(1) c8(1)
        by (cases "ar_played ar4") (simp_all add: sc_audio_regulator_push_def Let_def swr_ok_def)
      moreover have "\<forall>(diff, distance) \<in> set (?reset @ calls). \<bar>diff\<bar> \<le> distance div 50"
        using c8(3) by auto
      moreover have ?thesis if "sc_audio_regulator_push silent env sched frame (pc, ar) = Some (True, (p, a), cs)"
          "refilled (replicate k silent @ resampled env frame (ab_capacity (ar_buf ar))) ar a" "ar_inv a"
          "ab_used (ar_buf a) \<le> unat (max_buffered_samples (ar_played ar4) ar)"
          "\<forall>(diff, distance) \<in> set cs. \<bar>diff\<bar> \<le> distance div 50" for p a cs
        using that by blast
      ultimately show ?thesis using f7 f8 inv7 refilledD(5) [OF f8 inv] used order_trans [OF used8 used] reset
        by (cases "ar_played ar4") presburger+
    qed
  qed
qed

text \<open>
  After a drop, what the last write has added is not counted as written, while what was dropped for it is counted
  as dropped: the estimation of the level is lowered twice. Here nothing is pulled, the buffer is full before
  and after, and the estimation loses twice the dropped sample.
\<close>

definition full_regulator :: "int sc_audio_regulator" where
  "full_regulator = \<lparr>ar_target_buffering = 10, ar_buf = \<lparr>ab_data = [1, 2, 3, 0], ab_alloc_size = 4, ab_head = 3, ab_tail = 0\<rparr>,
     ar_sample_rate = 1000, ar_sample_size = 1, ar_swr_buf_alloc_size = 4096,
     ar_avg_buffering = \<lparr>avg_avg = 3, avg_range = 1, avg_count = 1\<rparr>, ar_samples_since_resync = 0, ar_underflow = 0,
     ar_underflow_report = 0, ar_compensation_active = False, ar_received = True, ar_played = True,
     ar_next_expected_pts = 0\<rparr>"

lemma drop_is_counted_twice:
  "push_write 0 [] [] [] [4] 1 (Pull_idle, full_regulator) =
    Some (0, 1, Pull_idle, full_regulator\<lparr>ar_buf := \<lparr>ab_data = [1, 2, 3, 4], ab_alloc_size = 4, ab_head = 0, ab_tail = 1\<rparr>\<rparr>) \<and>
   sint ((0 :: u32) - 1) - sint (1 :: u32) = -2"
  by (simp add: push_write_def full_regulator_def sc_audiobuf_write_def sc_audiobuf_can_write_def write_begin_def
      write_copy_def write_commit_def sc_audiobuf_read_def sc_audiobuf_can_read_def read_begin_def read_commit_def
      mem_write_def mem_put_def mem_read_def Let_def)

text \<open>What an undisturbed pull gives: silence until the target is reached, then what there is, and silence for the rest.\<close>

lemma regulator_pull_ok:
  assumes "ab_inv (ar_buf ar)" "n \<noteq> 0"
  shows "\<exists>ar'. sc_audio_regulator_pull silent ar n = Some (ar',
      if \<not> ar_played ar \<and> ab_used (ar_buf ar) < unat (ar_target_buffering ar) then replicate (unat n) silent
      else take (unat n) (ab_content (ar_buf ar)) @ replicate (unat n - ab_used (ar_buf ar)) silent) \<and> pulled ar ar'"
proof (cases "\<not> ar_played ar \<and> ab_used (ar_buf ar) < unat (ar_target_buffering ar)")
  case True
  then have "sc_audiobuf_can_read (ar_buf ar) < ar_target_buffering ar"
    using can_read_eq [OF assms(1)] by (simp add: word_less_nat_alt)
  moreover have "pulled ar ar" using assms(1) by (auto simp: pulled_def intro: exI [of _ 0])
  ultimately show ?thesis using True by (simp add: sc_audio_regulator_pull_def)
next
  case False
  then have low: "\<not> (\<not> ar_played ar \<and> sc_audiobuf_can_read (ar_buf ar) < ar_target_buffering ar)"
    using can_read_eq [OF assms(1)] by (simp add: word_less_nat_alt)
  from ab_read_ok [OF assms, of True] obtain buf' r where
    r: "sc_audiobuf_read (ar_buf ar) True n = Some (buf', r, take (unat n) (ab_content (ar_buf ar)))"
      "unat r = min (unat n) (ab_used (ar_buf ar))" "ab_inv buf'" "ab_alloc_size buf' = ab_alloc_size (ar_buf ar)"
      "ab_content buf' = drop (unat n) (ab_content (ar_buf ar))" by auto
  have p: "pulled ar (ar\<lparr>ar_buf := buf', ar_underflow := u, ar_played := True\<rparr>)"
    "pulled ar (ar\<lparr>ar_buf := buf', ar_played := True\<rparr>)" for u
    using r by (auto simp: pulled_def ar_pushing_def)
  show ?thesis
  proof (cases "r < n")
    case True
    then have "unat (n - r) = unat n - ab_used (ar_buf ar)"
      using r(2) by (simp add: unat_sub_if' word_less_nat_alt min_def split: if_splits)
    with True r(1) p show ?thesis
      unfolding sc_audio_regulator_pull_def if_not_P [OF low] if_not_P [OF False] by (simp add: Let_def)
  next
    case ge: False
    then have "unat n - ab_used (ar_buf ar) = 0" using r(2) by (simp add: word_less_nat_alt)
    with ge r(1) p show ?thesis
      unfolding sc_audio_regulator_pull_def if_not_P [OF low] if_not_P [OF False] by (simp add: Let_def)
  qed
qed

end
