(* ===== verification/Sc_Audio_Player.thy ===== *)
theory Sc_Audio_Player
  imports Sc_Audio_Regulator Sc_Media_Stream Sc_Decoder
begin

text \<open>
  \<open>audio_player.c\<close>: a frame sink that gives decoded audio frames to a regulator, and the callback by which the
  audio device takes samples from it.
\<close>

section \<open>State\<close>

record 'a sc_audio_player =
  ap_target_buffering_delay :: int
  ap_output_buffer_duration :: int
  ap_audioreg :: "(pull_pc \<times> 'a sc_audio_regulator) option"
  ap_aout_buffer_size :: nat
  ap_stream :: bool

definition sc_audio_player_init :: "int \<Rightarrow> int \<Rightarrow> 'a sc_audio_player" where
  "sc_audio_player_init target_buffering output_buffer_duration =
     \<lparr>ap_target_buffering_delay = target_buffering, ap_output_buffer_duration = output_buffer_duration,
      ap_audioreg = None, ap_aout_buffer_size = 0, ap_stream = False\<rparr>"

text \<open>
  The answers of the allocator and of the libraries; those of the resampler, and what the device pulls during a
  push, may depend on how many frames have been pushed before.
\<close>

record 'a player_env =
  pe_silent :: 'a
  pe_swr_alloc :: bool
  pe_swr_init :: bool
  pe_mutex_init :: bool
  pe_fresh :: "u32 \<Rightarrow> 'a list option"
  pe_swr_buf :: bool
  pe_set_hint :: bool
  pe_malloc :: bool
  pe_open_stream :: bool
  pe_resume :: bool
  pe_swr :: "nat \<Rightarrow> 'a swr_env"
  pe_sched :: "nat \<Rightarrow> nat \<Rightarrow> u32 list"

section \<open>The callback of the device\<close>

text \<open>
  The samples given to the stream: the buffer of the player may be smaller than what is asked. \<open>put_ok i\<close> tells
  whether the chunk \<open>i\<close> is accepted; the content of the last, refused one is not counted.
\<close>

partial_function (option) player_feed ::
    "'a \<Rightarrow> (nat \<Rightarrow> bool) \<Rightarrow> nat \<Rightarrow> nat \<Rightarrow> 'a sc_audio_regulator \<Rightarrow> nat \<Rightarrow> ('a sc_audio_regulator \<times> 'a list) option" where
  "player_feed silent put_ok aout_buffer_size i ar len =
     (if len = 0 then Some (ar, [])
      else do {
        let chunk_size = min aout_buffer_size len;
        let out_samples = of_nat (chunk_size div ar_sample_size ar);
        (ar, out) \<leftarrow> sc_audio_regulator_pull silent ar out_samples;
        if put_ok i then do {
          (ar, outs) \<leftarrow> player_feed silent put_ok aout_buffer_size (Suc i) ar (len - chunk_size);
          Some (ar, out @ outs)
        }
        else Some (ar, [])
      })"

definition sc_audio_player_stream_callback ::
    "'a \<Rightarrow> (nat \<Rightarrow> bool) \<Rightarrow> 'a sc_audio_player \<Rightarrow> nat \<Rightarrow> ('a sc_audio_player \<times> 'a list) option" where
  "sc_audio_player_stream_callback silent put_ok ap additional_amount = do {
     (pc, ar) \<leftarrow> ap_audioreg ap;
     c_assert (ar_sample_size ar \<noteq> 0);
     c_assert (additional_amount mod ar_sample_size ar = 0);
     (ar, outs) \<leftarrow> player_feed silent put_ok (ap_aout_buffer_size ap) 0 ar additional_amount;
     Some (ap\<lparr>ap_audioreg := Some (pc, ar)\<rparr>, outs)
   }"

section \<open>The sink\<close>

definition sc_audio_player_frame_sink_push ::
    "'a player_env \<Rightarrow> nat \<Rightarrow> 'a sc_audio_player \<Rightarrow> av_frame \<Rightarrow> (bool \<times> 'a sc_audio_player) option" where
  "sc_audio_player_frame_sink_push env n ap frame = do {
     reg \<leftarrow> ap_audioreg ap;
     (ok, reg, _) \<leftarrow> sc_audio_regulator_push (pe_silent env) (pe_swr env n) (pe_sched env n) frame reg;
     Some (ok, ap\<lparr>ap_audioreg := Some reg\<rparr>)
   }"

definition sc_audio_player_frame_sink_open ::
    "'a player_env \<Rightarrow> 'a sc_audio_player \<Rightarrow> codec_context \<Rightarrow> (bool \<times> 'a sc_audio_player) option" where
  "sc_audio_player_frame_sink_open env ap ctx = do {
     c_assert (0 < cc_channels ctx \<and> cc_channels ctx < 256);
     c_assert (0 < cc_sample_rate ctx);
     let target_buffering_samples =
       word_of_int (c_div (ap_target_buffering_delay ap * int (cc_sample_rate ctx)) SC_TICK_FREQ);
     let sample_size = cc_channels ctx * 4;
     reg \<leftarrow> sc_audio_regulator_init (pe_swr_alloc env) (pe_swr_init env) (pe_mutex_init env) (pe_fresh env)
       (pe_swr_buf env) sample_size ctx target_buffering_samples;
     case reg of
       None \<Rightarrow> Some (False, ap)
     | Some ar \<Rightarrow> do {
         let aout_samples = c_div (ap_output_buffer_duration ap * int (cc_sample_rate ctx)) SC_TICK_FREQ;
         c_assert (0 \<le> aout_samples \<and> aout_samples \<le> 0xFFFF);
         if \<not> pe_set_hint env then Some (False, ap)
         else do {
           let ap = ap\<lparr>ap_aout_buffer_size := max 1024 (nat aout_samples) * sample_size\<rparr>;
           if \<not> pe_malloc env then Some (False, ap)
           else if \<not> pe_open_stream env then Some (False, ap)
           else if \<not> pe_resume env then Some (False, ap)
           else Some (True, ap\<lparr>ap_audioreg := Some (Pull_idle, ar), ap_stream := True\<rparr>)
         }
       }
   }"

definition sc_audio_player_frame_sink_close :: "'a sc_audio_player \<Rightarrow> 'a sc_audio_player option" where
  "sc_audio_player_frame_sink_close ap = do {
     c_assert (ap_stream ap);
     Some (ap\<lparr>ap_stream := False, ap_audioreg := None\<rparr>)
   }"

text \<open>The sink, on the player and the number of frames pushed.\<close>

definition sc_audio_player_frame_sink :: "'a player_env \<Rightarrow> (av_frame, 'a sc_audio_player \<times> nat) sc_frame_sink" where
  "sc_audio_player_frame_sink env = \<lparr>
     ms_open = \<lambda>ctx _ (ap, n). do {
       (ok, ap) \<leftarrow> sc_audio_player_frame_sink_open env ap ctx;
       Some (ok, ap, n)
     },
     ms_close = \<lambda>(ap, n). do {
       ap \<leftarrow> sc_audio_player_frame_sink_close ap;
       Some (ap, n)
     },
     ms_push = \<lambda>frame (ap, n). do {
       (ok, ap) \<leftarrow> sc_audio_player_frame_sink_push env n ap frame;
       Some (ok, ap, Suc n)
     },
     ms_push_session = None\<rparr>"

section \<open>The device gets the samples it asks for\<close>

lemma player_feed_ok:
  assumes "0 < m" "m * ss < 2 ^ 32" "0 < ss"
  shows "ab_inv (ar_buf ar) \<Longrightarrow> ar_sample_size ar = ss \<Longrightarrow>
    \<exists>ar' outs. player_feed silent put_ok (m * ss) i ar (k * ss) = Some (ar', outs) \<and> pulled ar ar' \<and>
      length outs \<le> k \<and> ((\<forall>j. put_ok j) \<longrightarrow> length outs = k)"
proof (induction k arbitrary: i ar rule: less_induct)
  case (less k)
  show ?case
  proof (cases "k = 0")
    case True
    then show ?thesis using less.prems(1)
      by (auto simp: player_feed.simps [of _ _ _ _ _ 0] pulled_def intro: exI [of _ 0])
  next
    case False
    let ?c = "min m k" and ?n = "of_nat (min m k) :: u32"
    have c: "min (m * ss) (k * ss) = ?c * ss" "?c * ss div ss = ?c" "k * ss - ?c * ss = (k - ?c) * ss"
      using assms(3) by (simp_all add: min_def diff_mult_distrib)
    have "m \<le> m * ss" using assms(3) by simp
    with assms(2) have "?c < 2 ^ 32" by linarith
    then have n: "unat ?n = ?c" "?n \<noteq> 0"
      using False assms(1) by (simp_all add: unat_of_nat_u32 zero_iff_unat)
    from regulator_pull_ok [OF less.prems(1) n(2), of silent] obtain ar1 out where
      p: "sc_audio_regulator_pull silent ar ?n = Some (ar1, out)" "pulled ar ar1" by blast
    from pull_parts [OF less.prems(1) n(2), of silent] p(1) n(1) have l: "length out = ?c" by auto
    have s: "ar_sample_size ar1 = ss" using p(2) less.prems(2) by (simp add: pulled_def ar_pushing_def)
    have "k - ?c < k" using False assms(1) by simp
    from less.IH [OF this pulledD(1) [OF p(2)] s, of "Suc i"] obtain ar2 outs where
      q: "player_feed silent put_ok (m * ss) (Suc i) ar1 ((k - ?c) * ss) = Some (ar2, outs)" "pulled ar1 ar2"
        "length outs \<le> k - ?c" "(\<forall>j. put_ok j) \<longrightarrow> length outs = k - ?c" by blast
    have eq: "player_feed silent put_ok (m * ss) i ar (k * ss) =
        (if put_ok i then Some (ar2, out @ outs) else Some (ar1, []))"
      using False assms(3) p(1) q(1) by (subst player_feed.simps) (simp add: less.prems(2) Let_def c)
    show ?thesis
    proof (cases "put_ok i")
      case True
      have "length out + length outs \<le> k" "(\<forall>j. put_ok j) \<longrightarrow> length out + length outs = k" using l q(3,4) by auto
      with eq True pulled_trans [OF p(2) q(2)] show ?thesis by simp
    qed (use eq p(2) in auto)
  qed
qed

text \<open>A player that is open.\<close>

definition player_open :: "'a sc_audio_player \<Rightarrow> bool" where
  "player_open ap \<longleftrightarrow> (case ap_audioreg ap of
     None \<Rightarrow> False
   | Some (pc, ar) \<Rightarrow> ar_inv ar \<and> 0 < ar_sample_size ar \<and>
       (\<exists>m > 0. ap_aout_buffer_size ap = m * ar_sample_size ar \<and> ap_aout_buffer_size ap < 2 ^ 32))"

lemma player_callback:
  assumes "player_open ap" "ap_audioreg ap = Some (pc, ar)"
  shows "\<exists>ap' outs. sc_audio_player_stream_callback silent put_ok ap (k * ar_sample_size ar) = Some (ap', outs) \<and>
    player_open ap' \<and> length outs \<le> k \<and> ((\<forall>j. put_ok j) \<longrightarrow> length outs = k)"
proof -
  from assms obtain m where a: "ar_inv ar" "0 < ar_sample_size ar" "0 < m" "ap_aout_buffer_size ap = m * ar_sample_size ar"
    "m * ar_sample_size ar < 2 ^ 32" by (auto simp: player_open_def)
  have "ab_inv (ar_buf ar)" using a(1) by (simp add: ar_inv_def)
  from player_feed_ok [OF a(3,5,2) this refl, of silent put_ok 0 k] obtain ar' outs where
    f: "player_feed silent put_ok (m * ar_sample_size ar) 0 ar (k * ar_sample_size ar) = Some (ar', outs)" "pulled ar ar'"
      "length outs \<le> k" "(\<forall>j. put_ok j) \<longrightarrow> length outs = k" by blast
  have "ar_sample_size ar' = ar_sample_size ar" using f(2) by (simp add: pulled_def ar_pushing_def)
  then have "player_open (ap\<lparr>ap_audioreg := Some (pc, ar')\<rparr>)"
    using a pulledD(6) [OF f(2) a(1)] by (auto simp: player_open_def)
  with f a(2,4) assms(2) show ?thesis by (simp add: sc_audio_player_stream_callback_def)
qed

section \<open>The player keeps the contract of a sink\<close>

text \<open>
  The target is at most one hour and the buffer of the device at most one second, as the command line limits them
  (\<open>cli.c\<close>); what the device pulls is never nothing, and the answers are as documented.
\<close>

definition player_env_ok :: "'a player_env \<Rightarrow> bool" where
  "player_env_ok env \<longleftrightarrow> (\<forall>n i. 0 \<notin> set (pe_sched env n i)) \<and>
     (\<forall>n data. pe_fresh env n = Some data \<longrightarrow> length data = unat n + 1)"

definition player_sink_inv :: "'a player_env \<Rightarrow> nat \<Rightarrow> nat set \<Rightarrow> nat set \<Rightarrow> 'a sc_audio_player \<times> nat \<Rightarrow> bool" where
  "player_sink_inv env i N A = (\<lambda>(ap, n). player_env_ok env \<and>
     0 \<le> ap_target_buffering_delay ap \<and> ap_target_buffering_delay ap \<le> 3600 * SC_TICK_FREQ \<and>
     0 \<le> ap_output_buffer_duration ap \<and> ap_output_buffer_duration ap \<le> SC_TICK_FREQ \<and>
     (i \<in> A \<longrightarrow> ap_stream ap \<and> player_open ap))"

lemma regulator_init_ok:
  assumes "unat target \<le> 3600 * 48000" "0 < cc_sample_rate ctx" "cc_sample_rate ctx \<le> 48000" "0 < ss"
    "\<And>n data. fresh n = Some data \<Longrightarrow> length data = unat n + 1"
  shows "\<exists>reg. sc_audio_regulator_init a b c fresh d ss ctx target = Some reg \<and>
    (\<forall>ar. reg = Some ar \<longrightarrow> ar_inv ar \<and> ar_sample_size ar = ss)"
proof -
  let ?r = "of_nat (cc_sample_rate ctx) :: u32"
  have r: "unat ?r = cc_sample_rate ctx" using assms(3) by (simp add: unat_of_nat_u32)
  have s: "unat (target + ?r) = unat target + cc_sample_rate ctx" using assms(1,3) r by (simp add: unat_plus_if')
  then have s1: "unat (target + ?r + 1) = unat target + cc_sample_rate ctx + 1"
    using assms(1,3) by (simp add: unat_plus_if')
  have "target + ?r \<noteq> 0" "?r \<noteq> 0" using s r assms(2) by (simp_all add: zero_iff_unat)
  then show ?thesis using assms s s1 r
    by (cases "fresh (target + ?r)")
      (auto simp: sc_audio_regulator_init_def sc_audiobuf_init_def sc_average_init_def Let_def ar_inv_def ab_inv_def)
qed

lemma player_open_ok:
  assumes "player_env_ok env" "player_sink_inv env i N A (ap, n)" "ctx_ok {AVMEDIA_TYPE_AUDIO} ctx session"
  shows "\<exists>ok ap'. sc_audio_player_frame_sink_open env ap ctx = Some (ok, ap') \<and>
    ap_target_buffering_delay ap' = ap_target_buffering_delay ap \<and>
    ap_output_buffer_duration ap' = ap_output_buffer_duration ap \<and>
    (if ok then ap_stream ap' \<and> player_open ap'
     else ap_stream ap' = ap_stream ap \<and> ap_audioreg ap' = ap_audioreg ap)"
proof -
  let ?rate = "int (cc_sample_rate ctx)"
  have c: "0 < cc_channels ctx" "cc_channels ctx < 256" "0 < cc_sample_rate ctx" "cc_sample_rate ctx \<le> 48000"
    using assms(3) by (auto simp: ctx_ok_def)
  let ?d = "ap_target_buffering_delay ap" and ?o = "ap_output_buffer_duration ap"
  have i: "0 \<le> ?d" "?d \<le> 3600 * 1000000" "0 \<le> ?o" "?o \<le> 1000000"
    using assms(2) by (auto simp: player_sink_inv_def SC_TICK_FREQ_def)
  have "?d * ?rate \<le> (3600 * 1000000) * 48000" "?o * ?rate \<le> 1000000 * 48000"
    by (rule mult_mono; use i c in simp)+
  then have t: "c_div (?d * ?rate) SC_TICK_FREQ \<le> 3600 * 48000" "0 \<le> c_div (?d * ?rate) SC_TICK_FREQ"
    and o: "0 \<le> c_div (?o * ?rate) SC_TICK_FREQ" "c_div (?o * ?rate) SC_TICK_FREQ \<le> 48000"
    using i c by (simp_all add: SC_TICK_FREQ_def pos_imp_zdiv_nonneg_iff)
  have "unat (word_of_int (c_div (?d * ?rate) SC_TICK_FREQ) :: u32) = nat (c_div (?d * ?rate) SC_TICK_FREQ)"
    using word_of_small_int t by simp
  then have t': "unat (word_of_int (c_div (?d * ?rate) SC_TICK_FREQ) :: u32) \<le> 3600 * 48000" using t by simp
  have fresh: "length data = unat n + 1" if "pe_fresh env n = Some data" for n data
    using assms(1) that by (simp add: player_env_ok_def)
  have ss: "0 < cc_channels ctx * 4" using c by simp
  from regulator_init_ok [OF t' c(3,4) ss, of "pe_fresh env", OF fresh] obtain reg where
    r: "sc_audio_regulator_init (pe_swr_alloc env) (pe_swr_init env) (pe_mutex_init env) (pe_fresh env) (pe_swr_buf env)
        (cc_channels ctx * 4) ctx (word_of_int (c_div (?d * ?rate) SC_TICK_FREQ)) = Some reg"
      "\<And>ar. reg = Some ar \<Longrightarrow> ar_inv ar \<and> ar_sample_size ar = cc_channels ctx * 4" by blast
  let ?m = "max 1024 (nat (c_div (?o * ?rate) SC_TICK_FREQ))"
  have m: "0 < ?m" "?m * (cc_channels ctx * 4) < 2 ^ 32"
  proof -
    have "?m \<le> 48000" using o by simp
    then have "?m * (cc_channels ctx * 4) \<le> 48000 * (255 * 4)" by (rule mult_mono) (use c in auto)
    then show "?m * (cc_channels ctx * 4) < 2 ^ 32" by simp
  qed simp
  show ?thesis
  proof (cases reg)
    case None
    with r(1) c show ?thesis by (auto simp: sc_audio_player_frame_sink_open_def Let_def intro!: exI [of _ False])
  next
    case (Some ar)
    with r(2) have a: "ar_inv ar" "ar_sample_size ar = cc_channels ctx * 4" by auto
    have po: "player_open (ap\<lparr>ap_aout_buffer_size := ?m * (cc_channels ctx * 4), ap_audioreg := Some (Pull_idle, ar),
        ap_stream := True\<rparr>)"
      using a m c by (auto simp: player_open_def intro!: exI [of _ ?m])
    show ?thesis
    proof (cases "pe_set_hint env \<and> pe_malloc env \<and> pe_open_stream env \<and> pe_resume env")
      case True
      with r(1) Some c o po show ?thesis
        by (intro exI [of _ True]) (auto simp: sc_audio_player_frame_sink_open_def Let_def)
    next
      case False
      with r(1) Some c o show ?thesis
        by (intro exI [of _ False]) (auto simp: sc_audio_player_frame_sink_open_def Let_def)
    qed
  qed
qed

lemma player_push_ok:
  assumes "player_env_ok env" "player_open ap" "swr_ok (pe_swr env n) frame"
  shows "\<exists>ok ap'. sc_audio_player_frame_sink_push env n ap frame = Some (ok, ap') \<and> player_open ap' \<and>
    ap' = ap\<lparr>ap_audioreg := ap_audioreg ap'\<rparr>"
proof -
  from assms(2) obtain pc ar where p: "ap_audioreg ap = Some (pc, ar)" "ar_inv ar"
    by (auto simp: player_open_def split: option.splits)
  have "0 \<notin> set (pe_sched env n i)" for i using assms(1) by (simp add: player_env_ok_def)
  from regulator_push_ok [where sched = "pe_sched env n", OF p(2) this assms(3), where silent = "pe_silent env" and pc = pc] obtain ok pc' ar' calls where
    q: "sc_audio_regulator_push (pe_silent env) (pe_swr env n) (pe_sched env n) frame (pc, ar) = Some (ok, (pc', ar'), calls)"
      "ar_inv ar'" "ar_sample_size ar' = ar_sample_size ar" using refilledD(8) by blast
  have "player_open (ap\<lparr>ap_audioreg := Some (pc', ar')\<rparr>)" using assms(2) p q by (auto simp: player_open_def)
  with p(1) q(1) show ?thesis by (auto simp: sc_audio_player_frame_sink_push_def)
qed

lemma player_sink_ok:
  "media_sink_ok {AVMEDIA_TYPE_AUDIO} (\<lambda>frame. \<forall>n. swr_ok (pe_swr env n) frame) (player_sink_inv env i) i
    (sc_audio_player_frame_sink env)"
proof
  fix N A and w :: "'a sc_audio_player \<times> nat" and ctx session
  assume a: "player_sink_inv env i N A w" "ctx_ok {AVMEDIA_TYPE_AUDIO} ctx session" "i \<notin> A"
  obtain ap n where w: "w = (ap, n)" by force
  from a(1) have env: "player_env_ok env" by (auto simp: player_sink_inv_def)
  from player_open_ok [OF env a(1) [unfolded w] a(2)] obtain ok ap' where
    o: "sc_audio_player_frame_sink_open env ap ctx = Some (ok, ap')"
      "ap_target_buffering_delay ap' = ap_target_buffering_delay ap"
      "ap_output_buffer_duration ap' = ap_output_buffer_duration ap" "ok \<Longrightarrow> ap_stream ap' \<and> player_open ap'" by (auto split: if_splits)
  with a w show "\<exists>ok w'. ms_open (sc_audio_player_frame_sink env) ctx session w = Some (ok, w') \<and>
      player_sink_inv env i (N - {i}) (if ok then insert i A else A) w'"
    by (auto simp: sc_audio_player_frame_sink_def player_sink_inv_def)
next
  fix N A and w :: "'a sc_audio_player \<times> nat" and frame
  assume a: "player_sink_inv env i N A w" "i \<in> A" "\<forall>n. swr_ok (pe_swr env n) frame"
  obtain ap n where w: "w = (ap, n)" by force
  have env: "player_env_ok env" "player_open ap" using a(1,2) w by (auto simp: player_sink_inv_def)
  from player_push_ok [OF env spec [OF a(3)], of n] obtain ok ap' where
    p: "sc_audio_player_frame_sink_push env n ap frame = Some (ok, ap')" "player_open ap'"
      "ap' = ap\<lparr>ap_audioreg := ap_audioreg ap'\<rparr>" by blast
  have "ap_target_buffering_delay ap' = ap_target_buffering_delay ap" "ap_stream ap' = ap_stream ap"
    "ap_output_buffer_duration ap' = ap_output_buffer_duration ap" by (subst p(3), simp)+
  then have "player_sink_inv env i N A (ap', Suc n)" using a(1) w p(2) by (simp add: player_sink_inv_def)
  with p(1) w show "\<exists>ok w'. ms_push (sc_audio_player_frame_sink env) frame w = Some (ok, w') \<and> player_sink_inv env i N A w'"
    by (simp add: sc_audio_player_frame_sink_def)
qed (auto simp: sc_audio_player_frame_sink_def player_sink_inv_def sc_audio_player_frame_sink_close_def)

interpretation audio_player_sink: media_sink_ok "{AVMEDIA_TYPE_AUDIO}" "\<lambda>frame. \<forall>n. swr_ok (pe_swr env n) frame"
  "player_sink_inv env i" i "sc_audio_player_frame_sink env"
  by (rule player_sink_ok)

section \<open>The audio pipeline\<close>

text \<open>The audio demuxer gives its packets to the decoder, which gives its frames to the player.\<close>

definition audio_pipeline ::
    "decoder_env \<Rightarrow> 'a player_env \<Rightarrow> (sc_decoder \<times> 'a sc_audio_player \<times> nat) sc_packet_source" where
  "audio_pipeline dec_env env = [sc_decoder_packet_sink dec_env [sc_audio_player_frame_sink env]]"

lemma audio_pipeline_ok:
  assumes "codec_ok {AVMEDIA_TYPE_AUDIO} (\<lambda>frame. \<forall>n. swr_ok (pe_swr env n) frame) dec_env"
  shows "demuxer_sinks_ok {AVMEDIA_TYPE_AUDIO}
    (decoder_inv {AVMEDIA_TYPE_AUDIO} (player_sink_inv env 0) [sc_audio_player_frame_sink env]) (audio_pipeline dec_env env)"
proof -
  have "packet_sink_ok {AVMEDIA_TYPE_AUDIO} (\<lambda>_. True)
      (decoder_inv {AVMEDIA_TYPE_AUDIO} (player_sink_inv env 0) [sc_audio_player_frame_sink env]) 0
      (sc_decoder_packet_sink dec_env [sc_audio_player_frame_sink env])"
    by (rule decoder_sink_ok) (use assms player_sink_ok in auto)
  then show ?thesis
    by (auto simp: demuxer_sinks_ok_def audio_pipeline_def packet_sink_ok_def packet_sink_ok_axioms_def
        media_sink_ok_def)
qed

section \<open>Properties\<close>

text \<open>
  C7: A push of a frame never aborts, whatever the device pulls between any two accesses to the buffer. What the
  buffer holds afterwards is what it held, then the silence that fills a discontinuity, then the resampled frame,
  less a number of the oldest samples: nothing is lost in the middle, repeated or reordered. When the push succeeds
  the whole frame is there, and the level is at most the maximum. Every compensation that is asked for is at most 2
  percent of the samples over which it applies.
\<close>

theorem audio_regulator_push:
  assumes "ar_inv ar" "\<And>i. 0 \<notin> set (sched i)" "swr_ok env frame"
  shows "\<exists>ok pc' ar' calls. sc_audio_regulator_push silent env sched frame (pc, ar) = Some (ok, (pc', ar'), calls) \<and>
    ar_inv ar' \<and>
    (\<exists>dropped silence xs. ab_content (ar_buf ar') = drop dropped (ab_content (ar_buf ar) @ replicate silence silent @ xs) \<and>
      (ok \<longrightarrow> xs = resampled env frame (ab_capacity (ar_buf ar)))) \<and>
    (ok \<longrightarrow> (\<exists>played. length (ab_content (ar_buf ar')) \<le> unat (max_buffered_samples played ar))) \<and>
    (\<forall>(diff, distance) \<in> set calls. \<bar>diff\<bar> \<le> distance div 50)"
proof -
  from regulator_push_ok [where sched = sched, OF assms, where silent = silent and pc = pc] obtain ok pc' ar' calls k xs where
    p: "sc_audio_regulator_push silent env sched frame (pc, ar) = Some (ok, (pc', ar'), calls)" "ar_inv ar'"
      "refilled (replicate k silent @ xs) ar ar'"
      "ok \<longrightarrow> xs = resampled env frame (ab_capacity (ar_buf ar)) \<and>
        (\<exists>played. ab_used (ar_buf ar') \<le> unat (max_buffered_samples played ar))"
      "\<forall>(diff, distance) \<in> set calls. \<bar>diff\<bar> \<le> distance div 50" by blast
  from p(3) obtain j where "ab_content (ar_buf ar') = drop j (ab_content (ar_buf ar) @ replicate k silent @ xs)"
    unfolding refilled_def by blast
  with p show ?thesis unfolding length_ab_content by blast
qed

definition example_swr :: "int swr_env" where
  "example_swr = \<lparr>sw_delay = 0, sw_convert = \<lambda>_ frame. (1, [int (av_data frame)]), sw_set_compensation = \<lambda>_ _. 0,
     sw_realloc = \<lambda>_. True\<rparr>"

lemma full_regulator_inv: "ar_inv full_regulator"
  by (simp add: ar_inv_def full_regulator_def ab_inv_def)

lemma audio_regulator_push_witness:
  "\<exists>ok pc' ar' calls. sc_audio_regulator_push 0 example_swr (\<lambda>i. if i = 3 then [2] else [])
      \<lparr>av_width = 0, av_height = 0, av_pts = 5, av_data = 4, av_nb_samples = 1\<rparr> (Pull_idle, full_regulator) =
      Some (ok, (pc', ar'), calls) \<and> ar_inv ar'"
proof -
  have "swr_ok example_swr \<lparr>av_width = 0, av_height = 0, av_pts = 5, av_data = 4, av_nb_samples = 1\<rparr>"
    by (simp add: swr_ok_def example_swr_def)
  from audio_regulator_push [where sched = "\<lambda>i. if i = 3 then [2] else []", OF full_regulator_inv _ this,
      where silent = 0 and pc = Pull_idle]
  show ?thesis by auto
qed

text \<open>
  C8: The callback of the device never aborts on an open player and ends; it gives the device exactly the samples it
  asks for (unless the stream refuses some), whatever the size of the buffer of the player.
\<close>

theorem audio_callback_feeds_device:
  assumes "player_open ap" "ap_audioreg ap = Some (pc, ar)"
  shows "\<exists>ap' outs. sc_audio_player_stream_callback silent put_ok ap (k * ar_sample_size ar) = Some (ap', outs) \<and>
    player_open ap' \<and> length outs \<le> k \<and> ((\<forall>j. put_ok j) \<longrightarrow> length outs = k)"
  by (rule player_callback [OF assms])

lemma audio_callback_feeds_device_witness:
  "\<exists>ap' outs. sc_audio_player_stream_callback 0 (\<lambda>_. True)
      \<lparr>ap_target_buffering_delay = 50000, ap_output_buffer_duration = 5000,
       ap_audioreg = Some (Pull_idle, full_regulator), ap_aout_buffer_size = 2, ap_stream = True\<rparr> (5 * 1) = Some (ap', outs) \<and>
    length outs = 5"
proof -
  let ?ap = "\<lparr>ap_target_buffering_delay = 50000, ap_output_buffer_duration = 5000,
       ap_audioreg = Some (Pull_idle, full_regulator), ap_aout_buffer_size = 2, ap_stream = True\<rparr>"
  have "ar_sample_size full_regulator = 1" by (simp add: full_regulator_def)
  moreover from this have "player_open ?ap" using full_regulator_inv by (simp add: player_open_def)
  ultimately show ?thesis
    using audio_callback_feeds_device [of ?ap Pull_idle full_regulator 0 "\<lambda>_. True" 5] by auto
qed


definition example_player :: "int player_env" where
  "example_player = \<lparr>pe_silent = 0, pe_swr_alloc = True, pe_swr_init = True, pe_mutex_init = True,
     pe_fresh = \<lambda>n. Some (replicate (unat n + 1) 0), pe_swr_buf = True, pe_set_hint = True, pe_malloc = True,
     pe_open_stream = True, pe_resume = True, pe_swr = \<lambda>_. example_swr, pe_sched = \<lambda>n i. [1024, 1024, 1024]\<rparr>"

definition one_sample_codec :: decoder_env where
  "one_sample_codec = \<lparr>de_alloc_frame = True, de_codec = (\<lambda>sent. (Sent, [Received \<lparr>av_width = 0, av_height = 0,
     av_pts = 7, av_data = length sent, av_nb_samples = 1\<rparr>]))\<rparr>"


end
