(* ===== verification/Sc_Server_Params.thy ===== *)
theory Sc_Server_Params
  imports Sc_Orientation Sc_Timers
begin

text \<open>
  The command line by which \<open>server.c\<close> starts the server on the device: the parameters (\<open>struct
  sc_server_params\<close>, with the enumerations of \<open>options.h\<close>), the names of their values, and \<open>execute_server\<close>.
  Strings of the command are HOL strings.
\<close>

section \<open>Enumerations\<close>

datatype sc_log_level =
    SC_LOG_LEVEL_VERBOSE | SC_LOG_LEVEL_DEBUG | SC_LOG_LEVEL_INFO | SC_LOG_LEVEL_WARN | SC_LOG_LEVEL_ERROR

datatype sc_codec =
    SC_CODEC_H264 | SC_CODEC_H265 | SC_CODEC_AV1 | SC_CODEC_OPUS | SC_CODEC_AAC | SC_CODEC_FLAC | SC_CODEC_RAW

datatype sc_video_source = SC_VIDEO_SOURCE_DISPLAY | SC_VIDEO_SOURCE_CAMERA

datatype sc_audio_source =
    SC_AUDIO_SOURCE_AUTO | SC_AUDIO_SOURCE_OUTPUT | SC_AUDIO_SOURCE_MIC | SC_AUDIO_SOURCE_PLAYBACK
  | SC_AUDIO_SOURCE_MIC_UNPROCESSED | SC_AUDIO_SOURCE_MIC_CAMCORDER | SC_AUDIO_SOURCE_MIC_VOICE_RECOGNITION
  | SC_AUDIO_SOURCE_MIC_VOICE_COMMUNICATION | SC_AUDIO_SOURCE_VOICE_CALL | SC_AUDIO_SOURCE_VOICE_CALL_UPLINK
  | SC_AUDIO_SOURCE_VOICE_CALL_DOWNLINK | SC_AUDIO_SOURCE_VOICE_PERFORMANCE

datatype sc_camera_facing =
    SC_CAMERA_FACING_ANY | SC_CAMERA_FACING_FRONT | SC_CAMERA_FACING_BACK | SC_CAMERA_FACING_EXTERNAL

datatype sc_orientation_lock =
    SC_ORIENTATION_UNLOCKED | SC_ORIENTATION_LOCKED_VALUE | SC_ORIENTATION_LOCKED_INITIAL

datatype sc_display_ime_policy =
    SC_DISPLAY_IME_POLICY_UNDEFINED | SC_DISPLAY_IME_POLICY_LOCAL | SC_DISPLAY_IME_POLICY_FALLBACK
  | SC_DISPLAY_IME_POLICY_HIDE

record sc_port_range =
  pr_first :: u16
  pr_last :: u16

section \<open>Names\<close>

fun log_level_to_server_string :: "sc_log_level \<Rightarrow> string" where
  "log_level_to_server_string SC_LOG_LEVEL_VERBOSE = ''verbose''"
| "log_level_to_server_string SC_LOG_LEVEL_DEBUG = ''debug''"
| "log_level_to_server_string SC_LOG_LEVEL_INFO = ''info''"
| "log_level_to_server_string SC_LOG_LEVEL_WARN = ''warn''"
| "log_level_to_server_string SC_LOG_LEVEL_ERROR = ''error''"

fun sc_server_get_codec_name :: "sc_codec \<Rightarrow> string" where
  "sc_server_get_codec_name SC_CODEC_H264 = ''h264''"
| "sc_server_get_codec_name SC_CODEC_H265 = ''h265''"
| "sc_server_get_codec_name SC_CODEC_AV1 = ''av1''"
| "sc_server_get_codec_name SC_CODEC_OPUS = ''opus''"
| "sc_server_get_codec_name SC_CODEC_AAC = ''aac''"
| "sc_server_get_codec_name SC_CODEC_FLAC = ''flac''"
| "sc_server_get_codec_name SC_CODEC_RAW = ''raw''"

fun sc_server_get_camera_facing_name :: "sc_camera_facing \<Rightarrow> string option" where
  "sc_server_get_camera_facing_name SC_CAMERA_FACING_FRONT = Some ''front''"
| "sc_server_get_camera_facing_name SC_CAMERA_FACING_BACK = Some ''back''"
| "sc_server_get_camera_facing_name SC_CAMERA_FACING_EXTERNAL = Some ''external''"
| "sc_server_get_camera_facing_name SC_CAMERA_FACING_ANY = None"

fun sc_server_get_audio_source_name :: "sc_audio_source \<Rightarrow> string option" where
  "sc_server_get_audio_source_name SC_AUDIO_SOURCE_OUTPUT = Some ''output''"
| "sc_server_get_audio_source_name SC_AUDIO_SOURCE_MIC = Some ''mic''"
| "sc_server_get_audio_source_name SC_AUDIO_SOURCE_PLAYBACK = Some ''playback''"
| "sc_server_get_audio_source_name SC_AUDIO_SOURCE_MIC_UNPROCESSED = Some ''mic-unprocessed''"
| "sc_server_get_audio_source_name SC_AUDIO_SOURCE_MIC_CAMCORDER = Some ''mic-camcorder''"
| "sc_server_get_audio_source_name SC_AUDIO_SOURCE_MIC_VOICE_RECOGNITION = Some ''mic-voice-recognition''"
| "sc_server_get_audio_source_name SC_AUDIO_SOURCE_MIC_VOICE_COMMUNICATION = Some ''mic-voice-communication''"
| "sc_server_get_audio_source_name SC_AUDIO_SOURCE_VOICE_CALL = Some ''voice-call''"
| "sc_server_get_audio_source_name SC_AUDIO_SOURCE_VOICE_CALL_UPLINK = Some ''voice-call-uplink''"
| "sc_server_get_audio_source_name SC_AUDIO_SOURCE_VOICE_CALL_DOWNLINK = Some ''voice-call-downlink''"
| "sc_server_get_audio_source_name SC_AUDIO_SOURCE_VOICE_PERFORMANCE = Some ''voice-performance''"
| "sc_server_get_audio_source_name SC_AUDIO_SOURCE_AUTO = None"

fun sc_server_get_display_ime_policy_name :: "sc_display_ime_policy \<Rightarrow> string option" where
  "sc_server_get_display_ime_policy_name SC_DISPLAY_IME_POLICY_LOCAL = Some ''local''"
| "sc_server_get_display_ime_policy_name SC_DISPLAY_IME_POLICY_FALLBACK = Some ''fallback''"
| "sc_server_get_display_ime_policy_name SC_DISPLAY_IME_POLICY_HIDE = Some ''hide''"
| "sc_server_get_display_ime_policy_name SC_DISPLAY_IME_POLICY_UNDEFINED = None"

text \<open>The characters that a parameter may not have.\<close>

definition shell_special :: "char set" where
  "shell_special = set '' ;*$?&`#|<>[]{}()!~'' \<union> {CHR 0x27, CHR 0x22, CHR 0x5C, CHR 0x0D, CHR 0x0A}"

definition validate_string :: "string \<Rightarrow> bool" where
  "validate_string s \<longleftrightarrow> list_all (\<lambda>c. c \<notin> shell_special) s"

section \<open>Parameters\<close>

record sc_server_params =
  sp_scid :: u32
  sp_req_serial :: "string option"
  sp_log_level :: sc_log_level
  sp_video_codec :: sc_codec
  sp_audio_codec :: sc_codec
  sp_video_source :: sc_video_source
  sp_audio_source :: sc_audio_source
  sp_camera_facing :: sc_camera_facing
  sp_crop :: "string option"
  sp_video_codec_options :: "string option"
  sp_audio_codec_options :: "string option"
  sp_video_encoder :: "string option"
  sp_audio_encoder :: "string option"
  sp_camera_id :: "string option"
  sp_camera_size :: "string option"
  sp_camera_ar :: "string option"
  sp_camera_zoom :: "string option"
  sp_camera_fps :: u16
  sp_port_range :: sc_port_range
  sp_tunnel_host :: u32
  sp_tunnel_port :: u16
  sp_max_size :: u16
  sp_min_size_alignment :: u8
  sp_video_bit_rate :: u32
  sp_audio_bit_rate :: u32
  sp_max_fps :: "string option"
  sp_angle :: "string option"
  sp_screen_off_timeout :: int
  sp_capture_orientation :: sc_orientation
  sp_capture_orientation_lock :: sc_orientation_lock
  sp_control :: bool
  sp_display_id :: u32
  sp_new_display :: "string option"
  sp_display_ime_policy :: sc_display_ime_policy
  sp_video :: bool
  sp_audio :: bool
  sp_audio_dup :: bool
  sp_show_touches :: bool
  sp_stay_awake :: bool
  sp_force_adb_forward :: bool
  sp_power_off_on_close :: bool
  sp_clipboard_autosync :: bool
  sp_downsize_on_error :: bool
  sp_tcpip :: bool
  sp_tcpip_dst :: "string option"
  sp_select_usb :: bool
  sp_select_tcpip :: bool
  sp_cleanup :: bool
  sp_power_on :: bool
  sp_kill_adb_on_close :: bool
  sp_camera_high_speed :: bool
  sp_camera_torch :: bool
  sp_vd_destroy_content :: bool
  sp_vd_system_decorations :: bool
  sp_keep_active :: bool
  sp_flex_display :: bool
  sp_list :: u8
  sp_wifi_mode :: bool
  sp_wifi_port :: u16
  sp_multistream :: bool

definition SC_OPTION_LIST_ENCODERS :: u8 where "SC_OPTION_LIST_ENCODERS = 0x1"
definition SC_OPTION_LIST_DISPLAYS :: u8 where "SC_OPTION_LIST_DISPLAYS = 0x2"
definition SC_OPTION_LIST_CAMERAS :: u8 where "SC_OPTION_LIST_CAMERAS = 0x4"
definition SC_OPTION_LIST_CAMERA_SIZES :: u8 where "SC_OPTION_LIST_CAMERA_SIZES = 0x8"
definition SC_OPTION_LIST_APPS :: u8 where "SC_OPTION_LIST_APPS = 0x10"

section \<open>Numbers\<close>

text \<open>The conversions \<open>%u\<close> and \<open>%08x\<close> of \<open>printf\<close>.\<close>

fun dec :: "nat \<Rightarrow> string" where
  "dec n = (if n < 10 then [char_of (48 + n)] else dec (n div 10) @ [char_of (48 + n mod 10)])"

declare dec.simps [simp del]

definition hex_digit :: "nat \<Rightarrow> char" where
  "hex_digit n = (if n < 10 then char_of (48 + n) else char_of (87 + n))"

definition hex8 :: "u32 \<Rightarrow> string" where
  "hex8 w = map (\<lambda>i. hex_digit (unat w div 16 ^ i mod 16)) [7, 6, 5, 4, 3, 2, 1, 0]"

section \<open>The command line\<close>

text \<open>
  What \<open>execute_server\<close> does for its parameters, one after the other: \<open>ADD_PARAM\<close> with the formatted string (whose
  computation may abort), \<open>VALIDATE_STRING\<close> and \<open>assert\<close>.
\<close>

datatype param_step = ADD_PARAM "string option" | VALIDATE_STRING string | Param_assert bool

definition only_if :: "bool \<Rightarrow> param_step list \<Rightarrow> param_step list" where
  "only_if b steps = (if b then steps else [])"

definition string_param :: "string \<Rightarrow> string option \<Rightarrow> param_step list" where
  "string_param key value = (case value of None \<Rightarrow> [] | Some s \<Rightarrow> [VALIDATE_STRING s, ADD_PARAM (Some (key @ s))])"

definition video_audio_params :: "sc_server_params \<Rightarrow> param_step list" where
  "video_audio_params p = concat [
     [ADD_PARAM (Some (''scid='' @ hex8 (sp_scid p)))],
     [ADD_PARAM (Some (''log_level='' @ log_level_to_server_string (sp_log_level p)))],
     only_if (\<not> sp_video p) [ADD_PARAM (Some ''video=false'')],
     only_if (sp_video_bit_rate p \<noteq> 0) [ADD_PARAM (Some (''video_bit_rate='' @ dec (unat (sp_video_bit_rate p))))],
     only_if (\<not> sp_audio p) [ADD_PARAM (Some ''audio=false'')],
     only_if (sp_audio_bit_rate p \<noteq> 0) [ADD_PARAM (Some (''audio_bit_rate='' @ dec (unat (sp_audio_bit_rate p))))],
     only_if (sp_video_codec p \<noteq> SC_CODEC_H264)
       [ADD_PARAM (Some (''video_codec='' @ sc_server_get_codec_name (sp_video_codec p)))],
     only_if (sp_audio_codec p \<noteq> SC_CODEC_OPUS)
       [ADD_PARAM (Some (''audio_codec='' @ sc_server_get_codec_name (sp_audio_codec p)))],
     only_if (sp_video_source p \<noteq> SC_VIDEO_SOURCE_DISPLAY)
       [Param_assert (sp_video_source p = SC_VIDEO_SOURCE_CAMERA), ADD_PARAM (Some ''video_source=camera'')],
     [Param_assert (sp_audio_source p \<noteq> SC_AUDIO_SOURCE_AUTO \<or> \<not> sp_audio p)],
     only_if (sp_audio_source p \<noteq> SC_AUDIO_SOURCE_OUTPUT \<and> sp_audio p)
       [ADD_PARAM (map_option ((@) ''audio_source='') (sc_server_get_audio_source_name (sp_audio_source p)))],
     only_if (sp_audio_dup p) [ADD_PARAM (Some ''audio_dup=true'')],
     only_if (sp_max_size p \<noteq> 0) [ADD_PARAM (Some (''max_size='' @ dec (unat (sp_max_size p))))],
     string_param ''max_fps='' (sp_max_fps p),
     only_if (sp_min_size_alignment p \<noteq> 1)
       [ADD_PARAM (Some (''min_size_alignment='' @ dec (unat (sp_min_size_alignment p))))],
     string_param ''angle='' (sp_angle p)]"

definition display_camera_params :: "sc_server_params \<Rightarrow> bool \<Rightarrow> param_step list" where
  "display_camera_params p tunnel_forward = concat [
     only_if (sp_capture_orientation_lock p \<noteq> SC_ORIENTATION_UNLOCKED \<or> sp_capture_orientation p \<noteq> SC_ORIENTATION_0)
       (if sp_capture_orientation_lock p = SC_ORIENTATION_LOCKED_INITIAL
        then [ADD_PARAM (Some ''capture_orientation=@'')]
        else (let orient = sc_orientation_get_name (sp_capture_orientation p);
                  locked = sp_capture_orientation_lock p \<noteq> SC_ORIENTATION_UNLOCKED
              in [ADD_PARAM (Some (''capture_orientation='' @ (if locked then ''@'' else []) @ orient))])),
     only_if tunnel_forward [ADD_PARAM (Some ''tunnel_forward=true'')],
     string_param ''crop='' (sp_crop p),
     only_if (\<not> sp_control p) [ADD_PARAM (Some ''control=false'')],
     only_if (sp_display_id p \<noteq> 0) [ADD_PARAM (Some (''display_id='' @ dec (unat (sp_display_id p))))],
     string_param ''camera_id='' (sp_camera_id p),
     string_param ''camera_size='' (sp_camera_size p),
     only_if (sp_camera_facing p \<noteq> SC_CAMERA_FACING_ANY)
       [ADD_PARAM (map_option ((@) ''camera_facing='') (sc_server_get_camera_facing_name (sp_camera_facing p)))],
     string_param ''camera_ar='' (sp_camera_ar p),
     only_if (sp_camera_fps p \<noteq> 0) [ADD_PARAM (Some (''camera_fps='' @ dec (unat (sp_camera_fps p))))],
     only_if (sp_camera_high_speed p) [ADD_PARAM (Some ''camera_high_speed=true'')],
     only_if (sp_camera_torch p) [ADD_PARAM (Some ''camera_torch=true'')],
     string_param ''camera_zoom='' (sp_camera_zoom p),
     only_if (sp_show_touches p) [ADD_PARAM (Some ''show_touches=true'')],
     only_if (sp_stay_awake p) [ADD_PARAM (Some ''stay_awake=true'')]]"

definition device_params :: "sc_server_params \<Rightarrow> param_step list" where
  "device_params p = concat [
     only_if (sp_screen_off_timeout p \<noteq> -1)
       [Param_assert (0 \<le> sp_screen_off_timeout p),
        ADD_PARAM (Some (''screen_off_timeout='' @ dec (nat (SC_TICK_TO_MS (sp_screen_off_timeout p)))))],
     string_param ''video_codec_options='' (sp_video_codec_options p),
     string_param ''audio_codec_options='' (sp_audio_codec_options p),
     string_param ''video_encoder='' (sp_video_encoder p),
     string_param ''audio_encoder='' (sp_audio_encoder p),
     only_if (sp_power_off_on_close p) [ADD_PARAM (Some ''power_off_on_close=true'')],
     only_if (\<not> sp_clipboard_autosync p) [ADD_PARAM (Some ''clipboard_autosync=false'')],
     only_if (\<not> sp_downsize_on_error p) [ADD_PARAM (Some ''downsize_on_error=false'')],
     only_if (\<not> sp_cleanup p) [ADD_PARAM (Some ''cleanup=false'')],
     only_if (\<not> sp_power_on p) [ADD_PARAM (Some ''power_on=false'')],
     string_param ''new_display='' (sp_new_display p),
     only_if (sp_flex_display p) [ADD_PARAM (Some ''flex_display=true'')],
     only_if (sp_display_ime_policy p \<noteq> SC_DISPLAY_IME_POLICY_UNDEFINED)
       [ADD_PARAM (map_option ((@) ''display_ime_policy='')
          (sc_server_get_display_ime_policy_name (sp_display_ime_policy p)))],
     only_if (\<not> sp_vd_destroy_content p) [ADD_PARAM (Some ''vd_destroy_content=false'')],
     only_if (\<not> sp_vd_system_decorations p) [ADD_PARAM (Some ''vd_system_decorations=false'')],
     only_if (sp_keep_active p) [ADD_PARAM (Some ''keep_active=true'')],
     only_if (sp_list p AND SC_OPTION_LIST_ENCODERS \<noteq> 0) [ADD_PARAM (Some ''list_encoders=true'')],
     only_if (sp_list p AND SC_OPTION_LIST_DISPLAYS \<noteq> 0) [ADD_PARAM (Some ''list_displays=true'')],
     only_if (sp_list p AND SC_OPTION_LIST_CAMERAS \<noteq> 0) [ADD_PARAM (Some ''list_cameras=true'')],
     only_if (sp_list p AND SC_OPTION_LIST_CAMERA_SIZES \<noteq> 0) [ADD_PARAM (Some ''list_camera_sizes=true'')],
     only_if (sp_list p AND SC_OPTION_LIST_APPS \<noteq> 0) [ADD_PARAM (Some ''list_apps=true'')]]"

definition server_params_steps :: "sc_server_params \<Rightarrow> bool \<Rightarrow> param_step list" where
  "server_params_steps p tunnel_forward =
     video_audio_params p @ display_camera_params p tunnel_forward @ device_params p"

text \<open>
  Building the command in \<open>cmd[128]\<close>: storing beyond the array aborts. \<open>asprintf_ok n\<close> tells whether the string
  number \<open>n\<close> can be allocated. The inner \<open>None\<close> is \<open>goto end\<close>.
\<close>

fun run_params :: "(nat \<Rightarrow> bool) \<Rightarrow> param_step list \<Rightarrow> string list \<Rightarrow> string list option option" where
  "run_params asprintf_ok [] cmd = Some (Some cmd)"
| "run_params asprintf_ok (ADD_PARAM s # steps) cmd = do {
     s \<leftarrow> s;
     if \<not> asprintf_ok (length cmd) then Some None
     else do {
       c_assert (length cmd < 128);
       run_params asprintf_ok steps (cmd @ [s])
     }
   }"
| "run_params asprintf_ok (VALIDATE_STRING s # steps) cmd =
     (if validate_string s then run_params asprintf_ok steps cmd else Some None)"
| "run_params asprintf_ok (Param_assert b # steps) cmd = do {
     c_assert b;
     run_params asprintf_ok steps cmd
   }"

definition SC_DEVICE_SERVER_PATH :: string where
  "SC_DEVICE_SERVER_PATH = ''/data/local/tmp/scrcpy-server.jar''"

text \<open>The command that \<open>execute_server\<close> runs, or \<open>None\<close> when it gives up before.\<close>

definition execute_server ::
    "(nat \<Rightarrow> bool) \<Rightarrow> string \<Rightarrow> string \<Rightarrow> string option \<Rightarrow> sc_server_params \<Rightarrow> bool \<Rightarrow> string list option option" where
  "execute_server asprintf_ok adb version serial params tunnel_forward = do {
     serial \<leftarrow> serial;
     cmd \<leftarrow> run_params asprintf_ok (server_params_steps params tunnel_forward)
       [adb, ''-s'', serial, ''shell'', ''CLASSPATH='' @ SC_DEVICE_SERVER_PATH, ''app_process'', ''/'',
        ''com.genymobile.scrcpy.Server'', version];
     case cmd of
       None \<Rightarrow> Some None
     | Some cmd \<Rightarrow> do {
         c_assert (length cmd < 128);
         Some (Some cmd)
       }
   }"

section \<open>The command is safe\<close>

text \<open>Steps that add nothing that has not been validated, or does not need to be.\<close>

fun safe_steps :: "param_step list \<Rightarrow> bool" where
  "safe_steps [] \<longleftrightarrow> True"
| "safe_steps (VALIDATE_STRING s # ADD_PARAM (Some t) # steps) \<longleftrightarrow>
     (validate_string s \<longrightarrow> validate_string t) \<and> safe_steps steps"
| "safe_steps (VALIDATE_STRING s # steps) \<longleftrightarrow> safe_steps steps"
| "safe_steps (ADD_PARAM t # steps) \<longleftrightarrow> pred_option validate_string t \<and> safe_steps steps"
| "safe_steps (Param_assert b # steps) \<longleftrightarrow> safe_steps steps"

lemma validate_append [simp]: "validate_string (s @ t) \<longleftrightarrow> validate_string s \<and> validate_string t"
  by (simp add: validate_string_def)

lemma safe_steps_VALIDATE: "safe_steps steps \<Longrightarrow> safe_steps (VALIDATE_STRING s # steps)"
  by (cases "VALIDATE_STRING s # steps" rule: safe_steps.cases) auto

lemma safe_steps_append: "safe_steps xs \<Longrightarrow> safe_steps ys \<Longrightarrow> safe_steps (xs @ ys)"
  by (induction xs rule: safe_steps.induct) (auto intro: safe_steps_VALIDATE)

lemma safe_steps_concat: "list_all safe_steps xss \<Longrightarrow> safe_steps (concat xss)"
  by (induction xss) (auto intro: safe_steps_append)

lemma safe_only_if [simp]: "safe_steps (only_if b xs) \<longleftrightarrow> (b \<longrightarrow> safe_steps xs)"
  by (simp add: only_if_def)

lemma safe_string_param [simp]: "safe_steps (string_param key s) \<longleftrightarrow> (s \<noteq> None \<and> validate_string (the s) \<longrightarrow> validate_string key)"
  by (auto simp: string_param_def split: option.split)

lemma run_params_safe:
  "safe_steps steps \<Longrightarrow> run_params asprintf_ok steps cmd = Some (Some cmd') \<Longrightarrow>
    \<exists>ps. cmd' = cmd @ ps \<and> list_all validate_string ps"
proof (induction steps arbitrary: cmd rule: safe_steps.induct)
  case (2 s t steps)
  then show ?case by (fastforce split: if_splits bind_splits)
qed (auto split: if_splits bind_splits, fastforce+)

lemma digits_valid: "list_all (\<lambda>n. validate_string [char_of (48 + n)] \<and> validate_string [hex_digit n]) [0..<10 :: nat]"
  "list_all (\<lambda>n. validate_string [hex_digit n]) [0..<16]"
  by code_simp+

lemma dec_valid [simp]: "validate_string (dec n)"
proof (induction n rule: dec.induct)
  case (1 n)
  have "validate_string [char_of (48 + k)]" if "k < 10" for k :: nat
    using digits_valid(1) that by (simp add: list_all_iff del: upt_rec_numeral)
  with 1 show ?case by (subst dec.simps) simp
qed

lemma hex8_valid [simp]: "validate_string (hex8 w)"
proof -
  have "validate_string [hex_digit k]" if "k < 16" for k
    using digits_valid(2) that by (simp add: list_all_iff del: upt_rec_numeral)
  then have "hex_digit (k mod 16) \<notin> shell_special" for k by (simp add: validate_string_def)
  then show ?thesis by (simp add: hex8_def validate_string_def)
qed

lemma pred_option_map: "pred_option validate_string (map_option ((@) key) s) \<longleftrightarrow>
    (s \<noteq> None \<longrightarrow> validate_string key) \<and> pred_option validate_string s"
  by (cases s) auto

lemma plain_chars: "list_all (\<lambda>c. c \<notin> shell_special) ''abcdefghijklmnopqrstuvwxyz0123456789_=@-''"
  by code_simp

lemmas plain_char [simp] = plain_chars [unfolded list.pred_inject simp_thms]

lemma validate_Cons [simp]: "validate_string (c # s) \<longleftrightarrow> c \<notin> shell_special \<and> validate_string s"
  and validate_Nil [simp]: "validate_string []"
  by (simp_all add: validate_string_def)

lemma names_valid [simp]:
  "validate_string (log_level_to_server_string l)"
  "validate_string (sc_server_get_codec_name c)"
  "pred_option validate_string (sc_server_get_audio_source_name a)"
  "pred_option validate_string (sc_server_get_camera_facing_name f)"
  "pred_option validate_string (sc_server_get_display_ime_policy_name i)"
  "validate_string (sc_orientation_get_name q)"
       apply (cases l; simp)
      apply (cases c; simp)
     apply (cases a; simp)
    apply (cases f; simp)
   apply (cases i; simp)
  apply (cases q; simp add: sc_orientation_get_name_def)
  done

lemma params_safe: "safe_steps (server_params_steps p tunnel_forward)"
proof -
  have "safe_steps (video_audio_params p)"
    unfolding video_audio_params_def by (rule safe_steps_concat) (simp add: pred_option_map)
  moreover have "safe_steps (display_camera_params p tunnel_forward)"
    unfolding display_camera_params_def by (rule safe_steps_concat) (simp add: pred_option_map Let_def)
  moreover have "safe_steps (device_params p)"
    unfolding device_params_def by (rule safe_steps_concat) (simp add: pred_option_map)
  ultimately show ?thesis by (simp add: server_params_steps_def safe_steps_append)
qed

text \<open>Parameters that the options can give: the assertions on them hold.\<close>

definition server_params_ok :: "sc_server_params \<Rightarrow> bool" where
  "server_params_ok p \<longleftrightarrow> (sp_audio p \<longrightarrow> sp_audio_source p \<noteq> SC_AUDIO_SOURCE_AUTO) \<and> -1 \<le> sp_screen_off_timeout p"

text \<open>The number of strings added, and whether no step aborts.\<close>

fun added :: "param_step list \<Rightarrow> nat" where
  "added [] = 0"
| "added (ADD_PARAM _ # steps) = Suc (added steps)"
| "added (_ # steps) = added steps"

fun steps_pass :: "param_step list \<Rightarrow> bool" where
  "steps_pass [] \<longleftrightarrow> True"
| "steps_pass (ADD_PARAM s # steps) \<longleftrightarrow> s \<noteq> None \<and> steps_pass steps"
| "steps_pass (Param_assert b # steps) \<longleftrightarrow> b \<and> steps_pass steps"
| "steps_pass (VALIDATE_STRING _ # steps) \<longleftrightarrow> steps_pass steps"

lemma added_append [simp]: "added (xs @ ys) = added xs + added ys"
  by (induction xs rule: added.induct) auto

lemma steps_pass_append [simp]: "steps_pass (xs @ ys) \<longleftrightarrow> steps_pass xs \<and> steps_pass ys"
  by (induction xs rule: steps_pass.induct) auto

lemma added_concat: "list_all (\<lambda>xs. added xs \<le> 1) xss \<Longrightarrow> added (concat xss) \<le> length xss"
  by (induction xss) auto

lemma steps_pass_concat: "steps_pass (concat xss) \<longleftrightarrow> list_all steps_pass xss"
  by (induction xss) auto

lemma added_only_if [simp]: "added xs \<le> 1 \<Longrightarrow> added (only_if b xs) \<le> Suc 0"
  and added_string_param [simp]: "added (string_param key s) \<le> Suc 0"
  and pass_only_if [simp]: "steps_pass (only_if b xs) \<longleftrightarrow> (b \<longrightarrow> steps_pass xs)"
  and pass_string_param [simp]: "steps_pass (string_param key s)"
  by (auto simp: only_if_def string_param_def split: option.split)

lemma params_added: "added (server_params_steps p tunnel_forward) \<le> 52"
proof -
  have "added (video_audio_params p) \<le> 16"
    unfolding video_audio_params_def by (rule order_trans [OF added_concat]) simp_all
  moreover have "added (display_camera_params p tunnel_forward) \<le> 15"
    unfolding display_camera_params_def by (rule order_trans [OF added_concat]) (simp_all add: Let_def)
  moreover have "added (device_params p) \<le> 21"
    unfolding device_params_def by (rule order_trans [OF added_concat]) simp_all
  ultimately show ?thesis by (simp add: server_params_steps_def)
qed

lemma names_found:
  "sc_server_get_camera_facing_name f = None \<longleftrightarrow> f = SC_CAMERA_FACING_ANY"
  "sc_server_get_audio_source_name a = None \<longleftrightarrow> a = SC_AUDIO_SOURCE_AUTO"
  "sc_server_get_display_ime_policy_name i = None \<longleftrightarrow> i = SC_DISPLAY_IME_POLICY_UNDEFINED"
    apply (cases f; simp)
   apply (cases a; simp)
  apply (cases i; simp)
  done

lemma video_source_camera: "x \<noteq> SC_VIDEO_SOURCE_DISPLAY \<longleftrightarrow> x = SC_VIDEO_SOURCE_CAMERA"
  by (cases x) simp_all

lemma params_pass:
  assumes "server_params_ok p"
  shows "steps_pass (server_params_steps p tunnel_forward)"
proof -
  from assms have p: "sp_audio p \<Longrightarrow> sp_audio_source p \<noteq> SC_AUDIO_SOURCE_AUTO"
    "sp_screen_off_timeout p \<noteq> -1 \<Longrightarrow> 0 \<le> sp_screen_off_timeout p"
    by (auto simp: server_params_ok_def)
  have "steps_pass (video_audio_params p)" using p(1)
    by (auto simp: video_audio_params_def steps_pass_concat names_found video_source_camera)
  moreover have "steps_pass (display_camera_params p tunnel_forward)"
    by (simp add: display_camera_params_def steps_pass_concat names_found Let_def)
  moreover have "steps_pass (device_params p)" using p(2)
    by (simp add: device_params_def steps_pass_concat names_found)
  ultimately show ?thesis by (simp add: server_params_steps_def)
qed

lemma run_params_total:
  "steps_pass steps \<Longrightarrow> length cmd + added steps \<le> 128 \<Longrightarrow>
    \<exists>r. run_params asprintf_ok steps cmd = Some r \<and> (\<forall>cmd'. r = Some cmd' \<longrightarrow> length cmd' = length cmd + added steps)"
proof (induction steps arbitrary: cmd rule: steps_pass.induct)
  case (2 s steps)
  then obtain t where t: "s = Some t" and p: "steps_pass steps" by auto
  from 2 have l: "length (cmd @ [t]) + added steps \<le> 128" by simp
  from "2.IH" [OF p l] t l show ?case by (cases "asprintf_ok (length cmd)") auto
qed auto

section \<open>Properties\<close>

lemma execute_server_safe:
  assumes "server_params_ok params"
  shows "\<exists>r. execute_server asprintf_ok adb version (Some serial) params tunnel_forward = Some r \<and>
    (\<forall>cmd. r = Some cmd \<longrightarrow> length cmd < 128 \<and> list_all validate_string (drop 9 cmd))"
proof -
  let ?prefix = "[adb, ''-s'', serial, ''shell'', ''CLASSPATH='' @ SC_DEVICE_SERVER_PATH, ''app_process'', ''/'',
    ''com.genymobile.scrcpy.Server'', version]"
  let ?steps = "server_params_steps params tunnel_forward"
  note added = params_added [of params tunnel_forward]
  from run_params_total [OF params_pass [OF assms], of ?prefix tunnel_forward asprintf_ok] added obtain r where
    r: "run_params asprintf_ok ?steps ?prefix = Some r" "\<And>cmd. r = Some cmd \<Longrightarrow> length cmd = 9 + added ?steps" by auto
  show ?thesis
  proof (cases r)
    case None
    with r(1) show ?thesis by (simp add: execute_server_def)
  next
    case (Some cmd)
    with run_params_safe [OF params_safe, of asprintf_ok params tunnel_forward ?prefix] r(1) obtain ps where
      "cmd = ?prefix @ ps" "list_all validate_string ps" by blast
    moreover have "length cmd < 128" using r(2) [OF Some] added by simp
    ultimately show ?thesis using r(1) Some by (simp add: execute_server_def)
  qed
qed

text \<open>
  Building the command line of the server never aborts for parameters that the options can give: no name is
  missing and the array of 128 arguments is never overrun. When the command is run, none of the arguments after the
  first nine has a character that the shell interprets, whatever strings the user gave: nothing can be injected.
\<close>

theorem server_command_is_safe:
  assumes "server_params_ok params"
  shows "\<exists>r. execute_server asprintf_ok adb version (Some serial) params tunnel_forward = Some r \<and>
    (\<forall>cmd. r = Some cmd \<longrightarrow> length cmd < 128 \<and> list_all validate_string (drop 9 cmd))"
  by (rule execute_server_safe [OF assms])

definition example_params :: sc_server_params where
  "example_params = \<lparr>sp_scid = 0x1234abcd, sp_req_serial = None, sp_log_level = SC_LOG_LEVEL_INFO,
     sp_video_codec = SC_CODEC_H264, sp_audio_codec = SC_CODEC_OPUS, sp_video_source = SC_VIDEO_SOURCE_DISPLAY,
     sp_audio_source = SC_AUDIO_SOURCE_OUTPUT, sp_camera_facing = SC_CAMERA_FACING_ANY,
     sp_crop = Some ''1224:1440:0:0'', sp_video_codec_options = None, sp_audio_codec_options = None,
     sp_video_encoder = None, sp_audio_encoder = None, sp_camera_id = None, sp_camera_size = None,
     sp_camera_ar = None, sp_camera_zoom = None, sp_camera_fps = 0,
     sp_port_range = \<lparr>pr_first = 27183, pr_last = 27199\<rparr>, sp_tunnel_host = 0, sp_tunnel_port = 0,
     sp_max_size = 0, sp_min_size_alignment = 1, sp_video_bit_rate = 0, sp_audio_bit_rate = 0,
     sp_max_fps = Some ''30'', sp_angle = None, sp_screen_off_timeout = -1,
     sp_capture_orientation = SC_ORIENTATION_0, sp_capture_orientation_lock = SC_ORIENTATION_UNLOCKED,
     sp_control = True, sp_display_id = 0, sp_new_display = None,
     sp_display_ime_policy = SC_DISPLAY_IME_POLICY_UNDEFINED, sp_video = True, sp_audio = True,
     sp_audio_dup = False, sp_show_touches = False, sp_stay_awake = False, sp_force_adb_forward = False,
     sp_power_off_on_close = False, sp_clipboard_autosync = True, sp_downsize_on_error = True,
     sp_tcpip = False, sp_tcpip_dst = None, sp_select_usb = False, sp_select_tcpip = False, sp_cleanup = True,
     sp_power_on = True, sp_kill_adb_on_close = False, sp_camera_high_speed = False, sp_camera_torch = False,
     sp_vd_destroy_content = True, sp_vd_system_decorations = True, sp_keep_active = False,
     sp_flex_display = False, sp_list = 0, sp_wifi_mode = False, sp_wifi_port = 0, sp_multistream = False\<rparr>"

lemma example_params_ok: "server_params_ok example_params"
  by (simp add: server_params_ok_def example_params_def)

lemma server_command_is_safe_witness:
  "\<exists>r. execute_server (\<lambda>_. True) ''adb'' ''3.3.4'' (Some ''0123456789'') example_params False = Some r \<and>
    (\<forall>cmd. r = Some cmd \<longrightarrow> length cmd < 128 \<and> list_all validate_string (drop 9 cmd))"
  by (rule server_command_is_safe [OF example_params_ok])

end
