(* ===== verification/Sc_Options.thy ===== *)
theory Sc_Options
  imports Sc_Server_Params Sc_Recorder Sc_Keyboard_Sdk Sc_Input_Manager
begin

text \<open>
  \<open>options.h\<close>, \<open>options.c\<close>: the options of the client (\<open>struct scrcpy_options\<close>, built with USB and V4L2), their
  default values, and the parameters of the server that \<open>scrcpy.c\<close> takes from them.
\<close>

section \<open>Options\<close>

datatype sc_keyboard_input_mode =
    SC_KEYBOARD_INPUT_MODE_AUTO | SC_KEYBOARD_INPUT_MODE_UHID_OR_AOA | SC_KEYBOARD_INPUT_MODE_DISABLED
  | SC_KEYBOARD_INPUT_MODE_SDK | SC_KEYBOARD_INPUT_MODE_UHID | SC_KEYBOARD_INPUT_MODE_AOA

datatype sc_mouse_input_mode =
    SC_MOUSE_INPUT_MODE_AUTO | SC_MOUSE_INPUT_MODE_UHID_OR_AOA | SC_MOUSE_INPUT_MODE_DISABLED
  | SC_MOUSE_INPUT_MODE_SDK | SC_MOUSE_INPUT_MODE_UHID | SC_MOUSE_INPUT_MODE_AOA

datatype sc_gamepad_input_mode =
    SC_GAMEPAD_INPUT_MODE_DISABLED | SC_GAMEPAD_INPUT_MODE_UHID_OR_AOA | SC_GAMEPAD_INPUT_MODE_UHID
  | SC_GAMEPAD_INPUT_MODE_AOA

definition SC_WINDOW_POSITION_UNDEFINED :: int where
  "SC_WINDOW_POSITION_UNDEFINED = - 0x8000"

definition sc_record_format_is_audio_only :: "sc_record_format \<Rightarrow> bool" where
  "sc_record_format_is_audio_only fmt \<longleftrightarrow>
     fmt = SC_RECORD_FORMAT_M4A \<or> fmt = SC_RECORD_FORMAT_MKA \<or> fmt = SC_RECORD_FORMAT_OPUS \<or>
     fmt = SC_RECORD_FORMAT_AAC \<or> fmt = SC_RECORD_FORMAT_FLAC \<or> fmt = SC_RECORD_FORMAT_WAV"

text \<open>Modifiers are a set of flags, window positions (\<open>int16_t\<close>) and times are integers.\<close>

record scrcpy_options =
  op_serial :: "string option"
  op_crop :: "string option"
  op_record_filename :: "string option"
  op_window_title :: "string option"
  op_push_target :: "string option"
  op_render_driver :: "string option"
  op_video_codec_options :: "string option"
  op_audio_codec_options :: "string option"
  op_video_encoder :: "string option"
  op_audio_encoder :: "string option"
  op_camera_id :: "string option"
  op_camera_size :: "string option"
  op_camera_ar :: "string option"
  op_camera_zoom :: "string option"
  op_camera_fps :: u16
  op_log_level :: sc_log_level
  op_video_codec :: sc_codec
  op_audio_codec :: sc_codec
  op_video_source :: sc_video_source
  op_audio_source :: sc_audio_source
  op_record_format :: sc_record_format
  op_keyboard_input_mode :: sc_keyboard_input_mode
  op_mouse_input_mode :: sc_mouse_input_mode
  op_gamepad_input_mode :: sc_gamepad_input_mode
  op_mouse_bindings :: sc_mouse_bindings
  op_camera_facing :: sc_camera_facing
  op_port_range :: sc_port_range
  op_tunnel_host :: u32
  op_tunnel_port :: u16
  op_wifi_port :: u16
  op_shortcut_mods :: "sc_shortcut_mod set"
  op_min_size_alignment :: u8
  op_max_size :: u16
  op_video_bit_rate :: u32
  op_audio_bit_rate :: u32
  op_max_fps :: "string option"
  op_angle :: "string option"
  op_capture_orientation :: sc_orientation
  op_capture_orientation_lock :: sc_orientation_lock
  op_display_orientation :: sc_orientation
  op_record_orientation :: sc_orientation
  op_display_ime_policy :: sc_display_ime_policy
  op_render_fit :: sc_render_fit
  op_window_x :: int
  op_window_y :: int
  op_window_width :: u16
  op_window_height :: u16
  op_display_id :: u32
  op_background_color :: u32
  op_video_buffer :: int
  op_audio_buffer :: int
  op_audio_output_buffer :: int
  op_time_limit :: int
  op_screen_off_timeout :: int
  op_v4l2_device :: "string option"
  op_v4l2_buffer :: int
  op_otg :: bool
  op_show_touches :: bool
  op_fullscreen :: bool
  op_always_on_top :: bool
  op_control :: bool
  op_video_playback :: bool
  op_audio_playback :: bool
  op_turn_screen_off :: bool
  op_key_inject_mode :: sc_key_inject_mode
  op_window_aspect_ratio_lock :: bool
  op_window_borderless :: bool
  op_mipmaps :: bool
  op_stay_awake :: bool
  op_force_adb_forward :: bool
  op_disable_screensaver :: bool
  op_forward_key_repeat :: bool
  op_legacy_paste :: bool
  op_power_off_on_close :: bool
  op_clipboard_autosync :: bool
  op_downsize_on_error :: bool
  op_tcpip :: bool
  op_tcpip_dst :: "string option"
  op_select_usb :: bool
  op_select_tcpip :: bool
  op_cleanup :: bool
  op_start_fps_counter :: bool
  op_power_on :: bool
  op_video :: bool
  op_audio :: bool
  op_require_audio :: bool
  op_kill_adb_on_close :: bool
  op_camera_high_speed :: bool
  op_list :: u8
  op_window :: bool
  op_mouse_hover :: bool
  op_audio_dup :: bool
  op_new_display :: "string option"
  op_start_app :: "string option"
  op_vd_destroy_content :: bool
  op_vd_system_decorations :: bool
  op_camera_torch :: bool
  op_keep_active :: bool
  op_flex_display :: bool
  op_wifi_mode :: bool
  op_multistream :: bool


section \<open>Default values\<close>

text \<open>The ports are those of \<open>meson.build\<close>.\<close>

definition DEFAULT_LOCAL_PORT_RANGE_FIRST :: u16 where "DEFAULT_LOCAL_PORT_RANGE_FIRST = 27183"
definition DEFAULT_LOCAL_PORT_RANGE_LAST :: u16 where "DEFAULT_LOCAL_PORT_RANGE_LAST = 27199"

definition auto_bindings :: sc_mouse_binding_set where
  "auto_bindings = \<lparr>mb_right_click = SC_MOUSE_BINDING_AUTO, mb_middle_click = SC_MOUSE_BINDING_AUTO,
     mb_click4 = SC_MOUSE_BINDING_AUTO, mb_click5 = SC_MOUSE_BINDING_AUTO\<rparr>"

definition scrcpy_options_default :: scrcpy_options where
  "scrcpy_options_default =
     \<lparr>op_serial = None, op_crop = None, op_record_filename = None, op_window_title = None, op_push_target = None,
     op_render_driver = None, op_video_codec_options = None, op_audio_codec_options = None,
     op_video_encoder = None, op_audio_encoder = None, op_camera_id = None, op_camera_size = None,
     op_camera_ar = None, op_camera_zoom = None, op_camera_fps = 0, op_log_level = SC_LOG_LEVEL_INFO,
     op_video_codec = SC_CODEC_H264, op_audio_codec = SC_CODEC_OPUS, op_video_source = SC_VIDEO_SOURCE_DISPLAY,
     op_audio_source = SC_AUDIO_SOURCE_AUTO, op_record_format = SC_RECORD_FORMAT_AUTO,
     op_keyboard_input_mode = SC_KEYBOARD_INPUT_MODE_AUTO, op_mouse_input_mode = SC_MOUSE_INPUT_MODE_AUTO,
     op_gamepad_input_mode = SC_GAMEPAD_INPUT_MODE_DISABLED,
     op_mouse_bindings = \<lparr>mb_pri = auto_bindings, mb_sec = auto_bindings\<rparr>,
     op_camera_facing = SC_CAMERA_FACING_ANY,
     op_port_range = \<lparr>pr_first = DEFAULT_LOCAL_PORT_RANGE_FIRST, pr_last = DEFAULT_LOCAL_PORT_RANGE_LAST\<rparr>,
     op_tunnel_host = 0, op_tunnel_port = 0, op_wifi_port = 0,
     op_shortcut_mods = {SC_SHORTCUT_MOD_LALT, SC_SHORTCUT_MOD_LSUPER}, op_min_size_alignment = 1, op_max_size = 0,
     op_video_bit_rate = 0, op_audio_bit_rate = 0, op_max_fps = None, op_angle = None,
     op_capture_orientation = SC_ORIENTATION_0, op_capture_orientation_lock = SC_ORIENTATION_UNLOCKED,
     op_display_orientation = SC_ORIENTATION_0, op_record_orientation = SC_ORIENTATION_0,
     op_display_ime_policy = SC_DISPLAY_IME_POLICY_UNDEFINED, op_render_fit = SC_RENDER_FIT_AUTO,
     op_window_x = SC_WINDOW_POSITION_UNDEFINED, op_window_y = SC_WINDOW_POSITION_UNDEFINED, op_window_width = 0,
     op_window_height = 0, op_display_id = 0, op_background_color = 0x222222, op_video_buffer = 0,
     op_audio_buffer = -1, op_audio_output_buffer = SC_TICK_FROM_MS 10, op_time_limit = 0,
     op_screen_off_timeout = -1, op_v4l2_device = None, op_v4l2_buffer = 0, op_otg = False,
     op_show_touches = False, op_fullscreen = False, op_always_on_top = False, op_control = True,
     op_video_playback = True, op_audio_playback = True, op_turn_screen_off = False,
     op_key_inject_mode = SC_KEY_INJECT_MODE_MIXED, op_window_aspect_ratio_lock = True,
     op_window_borderless = False, op_mipmaps = True, op_stay_awake = False, op_force_adb_forward = False,
     op_disable_screensaver = False, op_forward_key_repeat = True, op_legacy_paste = False,
     op_power_off_on_close = False, op_clipboard_autosync = True, op_downsize_on_error = True, op_tcpip = False,
     op_tcpip_dst = None, op_select_usb = False, op_select_tcpip = False, op_cleanup = True,
     op_start_fps_counter = False, op_power_on = True, op_video = True, op_audio = True, op_require_audio = False,
     op_kill_adb_on_close = False, op_camera_high_speed = False, op_list = 0, op_window = True,
     op_mouse_hover = True, op_audio_dup = False, op_new_display = None, op_start_app = None,
     op_vd_destroy_content = True, op_vd_system_decorations = True, op_camera_torch = False,
     op_keep_active = False, op_flex_display = False, op_wifi_mode = False, op_multistream = False\<rparr>"

section \<open>What the server is given\<close>

definition scrcpy_generate_scid :: "u32 \<Rightarrow> u32" where
  "scrcpy_generate_scid rand = rand AND 0x7FFFFFFF"

definition scrcpy_server_params :: "u32 \<Rightarrow> scrcpy_options \<Rightarrow> sc_server_params" where
  "scrcpy_server_params scid options =
     \<lparr>sp_scid = scid, sp_req_serial = op_serial options, sp_log_level = op_log_level options,
     sp_video_codec = op_video_codec options, sp_audio_codec = op_audio_codec options,
     sp_video_source = op_video_source options, sp_audio_source = op_audio_source options,
     sp_camera_facing = op_camera_facing options, sp_crop = op_crop options,
     sp_video_codec_options = op_video_codec_options options,
     sp_audio_codec_options = op_audio_codec_options options, sp_video_encoder = op_video_encoder options,
     sp_audio_encoder = op_audio_encoder options, sp_camera_id = op_camera_id options,
     sp_camera_size = op_camera_size options, sp_camera_ar = op_camera_ar options,
     sp_camera_zoom = op_camera_zoom options, sp_camera_fps = op_camera_fps options,
     sp_port_range = op_port_range options, sp_tunnel_host = op_tunnel_host options,
     sp_tunnel_port = op_tunnel_port options, sp_max_size = op_max_size options,
     sp_min_size_alignment = op_min_size_alignment options, sp_video_bit_rate = op_video_bit_rate options,
     sp_audio_bit_rate = op_audio_bit_rate options, sp_max_fps = op_max_fps options, sp_angle = op_angle options,
     sp_screen_off_timeout = op_screen_off_timeout options,
     sp_capture_orientation = op_capture_orientation options,
     sp_capture_orientation_lock = op_capture_orientation_lock options, sp_control = op_control options,
     sp_display_id = op_display_id options, sp_new_display = op_new_display options,
     sp_display_ime_policy = op_display_ime_policy options, sp_video = op_video options,
     sp_audio = op_audio options, sp_audio_dup = op_audio_dup options, sp_show_touches = op_show_touches options,
     sp_stay_awake = op_stay_awake options, sp_force_adb_forward = op_force_adb_forward options,
     sp_power_off_on_close = op_power_off_on_close options, sp_clipboard_autosync = op_clipboard_autosync options,
     sp_downsize_on_error = op_downsize_on_error options, sp_tcpip = op_tcpip options,
     sp_tcpip_dst = op_tcpip_dst options, sp_select_usb = op_select_usb options,
     sp_select_tcpip = op_select_tcpip options, sp_cleanup = op_cleanup options, sp_power_on = op_power_on options,
     sp_kill_adb_on_close = op_kill_adb_on_close options, sp_camera_high_speed = op_camera_high_speed options,
     sp_camera_torch = op_camera_torch options, sp_vd_destroy_content = op_vd_destroy_content options,
     sp_vd_system_decorations = op_vd_system_decorations options, sp_keep_active = op_keep_active options,
     sp_flex_display = op_flex_display options, sp_list = op_list options, sp_wifi_mode = op_wifi_mode options,
     sp_wifi_port = op_wifi_port options, sp_multistream = op_multistream options\<rparr>"

lemma scid_31_bits: "unat (scrcpy_generate_scid rand) < 2 ^ 31"
proof -
  have "scrcpy_generate_scid rand = take_bit 31 rand"
    by (simp add: scrcpy_generate_scid_def take_bit_eq_mask mask_eq_exp_minus_1)
  then show ?thesis using take_bit_nat_less_exp [of 31 "unat rand"] by (simp add: unsigned_take_bit_eq)
qed

end
