(* ===== verification/Sc_Cli_Parsers.thy ===== *)
theory Sc_Cli_Parsers
  imports Sc_Options
begin

text \<open>
  The parsers of the arguments of \<open>cli.c\<close>. A parser returns the value that it stores, or \<open>None\<close> when it returns
  false; those that contain an assertion or an access that may fail are in the option monad, as elsewhere. The
  messages that they print are not modelled, nor what a failing parser has stored before it fails.
\<close>

section \<open>Integers\<close>

definition parse_integer_arg :: "string \<Rightarrow> bool \<Rightarrow> int \<Rightarrow> int \<Rightarrow> int option" where
  "parse_integer_arg s accept_suffix min_value max_value = do {
     value \<leftarrow> (if accept_suffix then sc_str_parse_integer_with_suffix s else sc_str_parse_integer s);
     if value < min_value \<or> value > max_value then None else Some value
   }"

text \<open>The number of items, zero on failure, and the items.\<close>

definition parse_integers_arg :: "string \<Rightarrow> char \<Rightarrow> nat \<Rightarrow> int \<Rightarrow> int \<Rightarrow> (nat \<times> int list) option" where
  "parse_integers_arg s sep max_items min_value max_value = do {
     (count, out) \<leftarrow> sc_str_parse_integers s sep max_items;
     if count = 0 then Some (0, out)
     else if list_ex (\<lambda>value. value < min_value \<or> value > max_value) (take count out) then Some (0, out)
     else Some (count, out)
   }"

definition parse_bit_rate :: "string \<Rightarrow> u32 option" where
  "parse_bit_rate s = map_option word_of_int (parse_integer_arg s True 0 0x7FFFFFFF)"

definition parse_max_size :: "string \<Rightarrow> u16 option" where
  "parse_max_size s = map_option word_of_int (parse_integer_arg s False 0 0xFFFF)"

definition parse_min_size_alignment :: "string \<Rightarrow> u8 option" where
  "parse_min_size_alignment s = do {
     value \<leftarrow> parse_integer_arg s False 1 16;
     if value AND (value - 1) \<noteq> 0 then None else Some (word_of_int value)
   }"

definition parse_buffering_time :: "string \<Rightarrow> int option" where
  "parse_buffering_time s = map_option SC_TICK_FROM_MS (parse_integer_arg s False 0 (60 * 60 * 1000))"

definition parse_audio_output_buffer :: "string \<Rightarrow> int option" where
  "parse_audio_output_buffer s = map_option SC_TICK_FROM_MS (parse_integer_arg s False 0 1000)"

definition parse_window_position :: "string \<Rightarrow> int option" where
  "parse_window_position s =
     (if s = ''auto'' then Some SC_WINDOW_POSITION_UNDEFINED
      else parse_integer_arg s False (- 0x7FFF) 0x7FFF)"

definition parse_window_dimension :: "string \<Rightarrow> u16 option" where
  "parse_window_dimension s = map_option word_of_int (parse_integer_arg s False 0 0xFFFF)"

definition parse_port_range :: "string \<Rightarrow> sc_port_range option option" where
  "parse_port_range s = do {
     (count, values) \<leftarrow> parse_integers_arg s CHR '':'' 2 0 0xFFFF;
     if count = 0 then Some None
     else do {
       v0 \<leftarrow> arr_get values 0;
       let v0 = word_of_int v0;
       if count = 1 then Some (Some \<lparr>pr_first = v0, pr_last = v0\<rparr>)
       else do {
         c_assert (count = 2);
         v1 \<leftarrow> arr_get values 1;
         let v1 = word_of_int v1;
         Some (Some (if v0 < v1 then \<lparr>pr_first = v0, pr_last = v1\<rparr> else \<lparr>pr_first = v1, pr_last = v0\<rparr>))
       }
     }
   }"

definition parse_display_id :: "string \<Rightarrow> u32 option" where
  "parse_display_id s = map_option word_of_int (parse_integer_arg s False 0 0x7FFFFFFF)"

definition parse_port :: "string \<Rightarrow> u16 option" where
  "parse_port s = map_option word_of_int (parse_integer_arg s False 0 0xFFFF)"

definition parse_camera_fps :: "string \<Rightarrow> u16 option" where
  "parse_camera_fps s = map_option word_of_int (parse_integer_arg s False 0 0xFFFF)"

definition SC_TICK_FROM_SEC :: "int \<Rightarrow> int" where
  "SC_TICK_FROM_SEC sec = sec * 1000000"

definition parse_time_limit :: "string \<Rightarrow> int option" where
  "parse_time_limit s = map_option SC_TICK_FROM_SEC (parse_integer_arg s False 0 0x7FFFFFFF)"

definition parse_screen_off_timeout :: "string \<Rightarrow> int option" where
  "parse_screen_off_timeout s = map_option SC_TICK_FROM_SEC (parse_integer_arg s False 0 (c_div 0x7FFFFFFF 1000))"

section \<open>Names\<close>

definition parse_display_ime_policy :: "string \<Rightarrow> sc_display_ime_policy option" where
  "parse_display_ime_policy s =
     (if s = ''local'' then Some SC_DISPLAY_IME_POLICY_LOCAL
      else if s = ''fallback'' then Some SC_DISPLAY_IME_POLICY_FALLBACK
      else if s = ''hide'' then Some SC_DISPLAY_IME_POLICY_HIDE
      else None)"

definition parse_orientation :: "string \<Rightarrow> sc_orientation option" where
  "parse_orientation s =
     (if s = ''0'' then Some SC_ORIENTATION_0
      else if s = ''90'' then Some SC_ORIENTATION_90
      else if s = ''180'' then Some SC_ORIENTATION_180
      else if s = ''270'' then Some SC_ORIENTATION_270
      else if s = ''flip0'' then Some SC_ORIENTATION_FLIP_0
      else if s = ''flip90'' then Some SC_ORIENTATION_FLIP_90
      else if s = ''flip180'' then Some SC_ORIENTATION_FLIP_180
      else if s = ''flip270'' then Some SC_ORIENTATION_FLIP_270
      else None)"

definition parse_capture_orientation :: "string \<Rightarrow> (sc_orientation option \<times> sc_orientation_lock) option" where
  "parse_capture_orientation s = (case s of
     [] \<Rightarrow> None
   | c # rest \<Rightarrow>
       if c = CHR ''@'' then
         (if rest = [] then Some (None, SC_ORIENTATION_LOCKED_INITIAL)
          else map_option (\<lambda>ori. (Some ori, SC_ORIENTATION_LOCKED_VALUE)) (parse_orientation rest))
       else map_option (\<lambda>ori. (Some ori, SC_ORIENTATION_UNLOCKED)) (parse_orientation s))"

definition parse_log_level :: "string \<Rightarrow> sc_log_level option" where
  "parse_log_level s =
     (if s = ''verbose'' then Some SC_LOG_LEVEL_VERBOSE
      else if s = ''debug'' then Some SC_LOG_LEVEL_DEBUG
      else if s = ''info'' then Some SC_LOG_LEVEL_INFO
      else if s = ''warn'' then Some SC_LOG_LEVEL_WARN
      else if s = ''error'' then Some SC_LOG_LEVEL_ERROR
      else None)"

text \<open>The item is the first \<open>len\<close> characters; \<open>None\<close> is no modifier.\<close>

definition parse_shortcut_mods_item :: "string \<Rightarrow> nat \<Rightarrow> sc_shortcut_mod option" where
  "parse_shortcut_mods_item item len =
     (if take len item = ''lctrl'' then Some SC_SHORTCUT_MOD_LCTRL
      else if take len item = ''rctrl'' then Some SC_SHORTCUT_MOD_RCTRL
      else if take len item = ''lalt'' then Some SC_SHORTCUT_MOD_LALT
      else if take len item = ''ralt'' then Some SC_SHORTCUT_MOD_RALT
      else if take len item = ''lsuper'' then Some SC_SHORTCUT_MOD_LSUPER
      else if take len item = ''rsuper'' then Some SC_SHORTCUT_MOD_RSUPER
      else None)"

function parse_shortcut_mods_loop :: "string \<Rightarrow> sc_shortcut_mod set \<Rightarrow> sc_shortcut_mod set option option" where
  "parse_shortcut_mods_loop s mods = (
     let comma = strchr s CHR '',''
     in do {
       c_assert (comma \<noteq> Some 0);
       let limit = (case comma of None \<Rightarrow> length s | Some k \<Rightarrow> k);
       case parse_shortcut_mods_item s limit of
         None \<Rightarrow> Some None
       | Some m \<Rightarrow> (case comma of
             None \<Rightarrow> Some (Some (insert m mods))
           | Some k \<Rightarrow> parse_shortcut_mods_loop (drop (Suc k) s) (insert m mods))
     })"
  by pat_completeness auto
termination
  by (relation "measure (\<lambda>(s, mods). length s)") (auto simp: strchr_def NUL_def Let_def split: if_splits)

declare parse_shortcut_mods_loop.simps [simp del]

definition parse_shortcut_mods :: "string \<Rightarrow> sc_shortcut_mod set option option" where
  "parse_shortcut_mods s = parse_shortcut_mods_loop s {}"

text \<open>\<open>SC_RECORD_FORMAT_AUTO\<close> is the zero that stands for no format.\<close>

definition get_record_format :: "string \<Rightarrow> sc_record_format" where
  "get_record_format name =
     (if name = ''mp4'' then SC_RECORD_FORMAT_MP4
      else if name = ''mkv'' then SC_RECORD_FORMAT_MKV
      else if name = ''m4a'' then SC_RECORD_FORMAT_M4A
      else if name = ''mka'' then SC_RECORD_FORMAT_MKA
      else if name = ''opus'' then SC_RECORD_FORMAT_OPUS
      else if name = ''aac'' then SC_RECORD_FORMAT_AAC
      else if name = ''flac'' then SC_RECORD_FORMAT_FLAC
      else if name = ''wav'' then SC_RECORD_FORMAT_WAV
      else SC_RECORD_FORMAT_AUTO)"

definition parse_record_format :: "string \<Rightarrow> sc_record_format option" where
  "parse_record_format optarg =
     (let fmt = get_record_format optarg in if fmt = SC_RECORD_FORMAT_AUTO then None else Some fmt)"

text \<open>The characters behind the last dot.\<close>

definition guess_record_format :: "string \<Rightarrow> sc_record_format" where
  "guess_record_format filename =
     (if CHR ''.'' \<notin> set filename then SC_RECORD_FORMAT_AUTO
      else get_record_format (rev (takeWhile (\<lambda>c. c \<noteq> CHR ''.'') (rev filename))))"

definition parse_video_codec :: "string \<Rightarrow> sc_codec option" where
  "parse_video_codec s =
     (if s = ''h264'' then Some SC_CODEC_H264
      else if s = ''h265'' then Some SC_CODEC_H265
      else if s = ''av1'' then Some SC_CODEC_AV1
      else None)"

definition parse_audio_codec :: "string \<Rightarrow> sc_codec option" where
  "parse_audio_codec s =
     (if s = ''opus'' then Some SC_CODEC_OPUS
      else if s = ''aac'' then Some SC_CODEC_AAC
      else if s = ''flac'' then Some SC_CODEC_FLAC
      else if s = ''raw'' then Some SC_CODEC_RAW
      else None)"

definition parse_video_source :: "string \<Rightarrow> sc_video_source option" where
  "parse_video_source s =
     (if s = ''display'' then Some SC_VIDEO_SOURCE_DISPLAY
      else if s = ''camera'' then Some SC_VIDEO_SOURCE_CAMERA
      else None)"

definition parse_audio_source :: "string \<Rightarrow> sc_audio_source option" where
  "parse_audio_source s =
     (if s = ''mic'' then Some SC_AUDIO_SOURCE_MIC
      else if s = ''output'' then Some SC_AUDIO_SOURCE_OUTPUT
      else if s = ''playback'' then Some SC_AUDIO_SOURCE_PLAYBACK
      else if s = ''mic-unprocessed'' then Some SC_AUDIO_SOURCE_MIC_UNPROCESSED
      else if s = ''mic-camcorder'' then Some SC_AUDIO_SOURCE_MIC_CAMCORDER
      else if s = ''mic-voice-recognition'' then Some SC_AUDIO_SOURCE_MIC_VOICE_RECOGNITION
      else if s = ''mic-voice-communication'' then Some SC_AUDIO_SOURCE_MIC_VOICE_COMMUNICATION
      else if s = ''voice-call'' then Some SC_AUDIO_SOURCE_VOICE_CALL
      else if s = ''voice-call-uplink'' then Some SC_AUDIO_SOURCE_VOICE_CALL_UPLINK
      else if s = ''voice-call-downlink'' then Some SC_AUDIO_SOURCE_VOICE_CALL_DOWNLINK
      else if s = ''voice-performance'' then Some SC_AUDIO_SOURCE_VOICE_PERFORMANCE
      else None)"

definition parse_camera_facing :: "string \<Rightarrow> sc_camera_facing option" where
  "parse_camera_facing s =
     (if s = ''front'' then Some SC_CAMERA_FACING_FRONT
      else if s = ''back'' then Some SC_CAMERA_FACING_BACK
      else if s = ''external'' then Some SC_CAMERA_FACING_EXTERNAL
      else if s = [] then Some SC_CAMERA_FACING_ANY
      else None)"

definition parse_keyboard :: "string \<Rightarrow> sc_keyboard_input_mode option" where
  "parse_keyboard s =
     (if s = ''disabled'' then Some SC_KEYBOARD_INPUT_MODE_DISABLED
      else if s = ''sdk'' then Some SC_KEYBOARD_INPUT_MODE_SDK
      else if s = ''uhid'' then Some SC_KEYBOARD_INPUT_MODE_UHID
      else if s = ''aoa'' then Some SC_KEYBOARD_INPUT_MODE_AOA
      else None)"

definition parse_mouse :: "string \<Rightarrow> sc_mouse_input_mode option" where
  "parse_mouse s =
     (if s = ''disabled'' then Some SC_MOUSE_INPUT_MODE_DISABLED
      else if s = ''sdk'' then Some SC_MOUSE_INPUT_MODE_SDK
      else if s = ''uhid'' then Some SC_MOUSE_INPUT_MODE_UHID
      else if s = ''aoa'' then Some SC_MOUSE_INPUT_MODE_AOA
      else None)"

definition parse_gamepad :: "string \<Rightarrow> sc_gamepad_input_mode option" where
  "parse_gamepad s =
     (if s = ''disabled'' then Some SC_GAMEPAD_INPUT_MODE_DISABLED
      else if s = ''uhid'' then Some SC_GAMEPAD_INPUT_MODE_UHID
      else if s = ''aoa'' then Some SC_GAMEPAD_INPUT_MODE_AOA
      else None)"

definition parse_render_fit :: "string \<Rightarrow> sc_render_fit option" where
  "parse_render_fit s =
     (if s = ''letterbox'' then Some SC_RENDER_FIT_LETTERBOX
      else if s = ''stretched'' then Some SC_RENDER_FIT_STRETCHED
      else if s = ''unscaled'' then Some SC_RENDER_FIT_UNSCALED
      else None)"

datatype sc_pause_on_exit =
    SC_PAUSE_ON_EXIT_UNDEFINED | SC_PAUSE_ON_EXIT_TRUE | SC_PAUSE_ON_EXIT_FALSE | SC_PAUSE_ON_EXIT_IF_ERROR

definition parse_pause_on_exit :: "string option \<Rightarrow> sc_pause_on_exit option" where
  "parse_pause_on_exit s =
     (if s = None \<or> s = Some ''true'' then Some SC_PAUSE_ON_EXIT_TRUE
      else if s = Some ''false'' then Some SC_PAUSE_ON_EXIT_FALSE
      else if s = Some ''if-error'' then Some SC_PAUSE_ON_EXIT_IF_ERROR
      else None)"

section \<open>Mouse bindings\<close>

definition parse_mouse_binding :: "char \<Rightarrow> sc_mouse_binding option" where
  "parse_mouse_binding c =
     (if c = CHR ''+'' then Some SC_MOUSE_BINDING_CLICK
      else if c = CHR ''-'' then Some SC_MOUSE_BINDING_DISABLED
      else if c = CHR ''b'' then Some SC_MOUSE_BINDING_BACK
      else if c = CHR ''h'' then Some SC_MOUSE_BINDING_HOME
      else if c = CHR ''s'' then Some SC_MOUSE_BINDING_APP_SWITCH
      else if c = CHR ''n'' then Some SC_MOUSE_BINDING_EXPAND_NOTIFICATION_PANEL
      else None)"

definition parse_mouse_binding_set :: "string \<Rightarrow> sc_mouse_binding_set option option" where
  "parse_mouse_binding_set s = do {
     c_assert (length s \<ge> 4);
     Some (do {
       right_click \<leftarrow> parse_mouse_binding (s ! 0);
       middle_click \<leftarrow> parse_mouse_binding (s ! 1);
       click4 \<leftarrow> parse_mouse_binding (s ! 2);
       click5 \<leftarrow> parse_mouse_binding (s ! 3);
       Some \<lparr>mb_right_click = right_click, mb_middle_click = middle_click, mb_click4 = click4, mb_click5 = click5\<rparr>
     })
   }"

definition parse_mouse_bindings :: "string \<Rightarrow> sc_mouse_bindings option option" where
  "parse_mouse_bindings s =
     (if length s \<noteq> 4 \<and> (length s \<noteq> 9 \<or> s ! 4 \<noteq> CHR '':'') then Some None
      else do {
        pri \<leftarrow> parse_mouse_binding_set s;
        case pri of
          None \<Rightarrow> Some None
        | Some pri \<Rightarrow>
            if length s = 9 then do {
              sec \<leftarrow> parse_mouse_binding_set (drop 5 s);
              Some (map_option (\<lambda>sec. \<lparr>mb_pri = pri, mb_sec = sec\<rparr>) sec)
            }
            else Some (Some \<lparr>mb_pri = pri, mb_sec = pri\<rparr>)
      })"

section \<open>Colors\<close>

definition parse_hex_char :: "char \<Rightarrow> u8 option" where
  "parse_hex_char c = (
     let n = of_char c :: nat
     in if of_char CHR ''0'' \<le> n \<and> n \<le> of_char CHR ''9'' then Some (of_nat (n - of_char CHR ''0''))
        else if of_char CHR ''a'' \<le> n \<and> n \<le> of_char CHR ''f'' then Some (of_nat (n - of_char CHR ''a'' + 10))
        else if of_char CHR ''A'' \<le> n \<and> n \<le> of_char CHR ''F'' then Some (of_nat (n - of_char CHR ''A'' + 10))
        else None)"

definition parse_hex_byte :: "char \<Rightarrow> char \<Rightarrow> u8 option" where
  "parse_hex_byte s0 s1 = do {
     left \<leftarrow> parse_hex_char s0;
     right \<leftarrow> parse_hex_char s1;
     Some (push_bit 4 left OR right)
   }"

definition parse_hex_color :: "string \<Rightarrow> u32 option" where
  "parse_hex_color s = (
     let s = (if s \<noteq> [] \<and> s ! 0 = CHR ''#'' then tl s else s);
         rgb = (case s of
             [r, g, b] \<Rightarrow> do {
               r \<leftarrow> parse_hex_char r;
               g \<leftarrow> parse_hex_char g;
               b \<leftarrow> parse_hex_char b;
               Some (r * 0x11, g * 0x11, b * 0x11)
             }
           | [r1, r0, g1, g0, b1, b0] \<Rightarrow> do {
               r \<leftarrow> parse_hex_byte r1 r0;
               g \<leftarrow> parse_hex_byte g1 g0;
               b \<leftarrow> parse_hex_byte b1 b0;
               Some (r, g, b)
             }
           | _ \<Rightarrow> None)
     in map_option (\<lambda>(r, g, b). push_bit 16 (ucast r) OR push_bit 8 (ucast g) OR ucast b) rgb)"

section \<open>What the parsers accept\<close>

lemma parse_integer_arg_range:
  "parse_integer_arg s suffix lo hi = Some v \<Longrightarrow> lo \<le> v \<and> v \<le> hi"
  by (auto simp: parse_integer_arg_def not_less split: bind_splits if_splits)

lemma parse_integers_arg_ok:
  assumes "0 < max_items"
  shows "\<exists>n out. parse_integers_arg s sep max_items lo hi = Some (n, out) \<and>
    (n \<noteq> 0 \<longrightarrow> n = length out \<and> n \<le> max_items \<and> list_all (\<lambda>v. lo \<le> v \<and> v \<le> hi) out)"
proof -
  from sc_str_parse_integers_loop_ok [of "[]" max_items s sep] assms obtain n out where
    "sc_str_parse_integers s sep max_items = Some (n, out)" "length out \<le> max_items" "n = 0 \<or> n = length out \<and> 0 < n"
    by (auto simp: sc_str_parse_integers_def)
  then show ?thesis by (auto simp: parse_integers_arg_def list_ex_iff list_all_iff not_less)
qed

text \<open>A port range is never empty.\<close>

lemma parse_port_range_ok:
  "\<exists>r. parse_port_range s = Some r \<and> (\<forall>range. r = Some range \<longrightarrow> pr_first range \<le> pr_last range)"
proof -
  from parse_integers_arg_ok [of 2 s "CHR '':''" 0 "0xFFFF"] obtain n out where
    r: "parse_integers_arg s CHR '':'' 2 0 0xFFFF = Some (n, out)" "n \<noteq> 0 \<longrightarrow> n = length out \<and> n \<le> 2" by auto
  consider "n = 0" | v where "n = 1" "out = [v]" | v w where "n = 2" "out = [v, w]"
  proof -
    have "n = 0 \<or> n = 1 \<and> length out = 1 \<or> n = 2 \<and> length out = 2" using r(2) by linarith
    then show ?thesis using that by (auto simp: length_Suc_conv numeral_eq_Suc)
  qed
  then show ?thesis using r(1) by cases (auto simp: parse_port_range_def arr_get_def not_less Let_def)
qed

text \<open>The modifier that a token names.\<close>

definition mod_of :: "string \<Rightarrow> sc_shortcut_mod option" where
  "mod_of t = parse_shortcut_mods_item t (length t)"

lemma mod_of_prefix: "k \<le> length s \<Longrightarrow> parse_shortcut_mods_item s k = mod_of (take k s)"
  by (simp add: parse_shortcut_mods_item_def mod_of_def)

lemma mod_of_Nil [simp]: "mod_of [] = None"
  by (simp add: mod_of_def parse_shortcut_mods_item_def)

lemma shortcut_mods_loop_eq:
  "parse_shortcut_mods_loop s mods =
     (case dropWhile (\<lambda>t. mod_of t \<noteq> None) (split_tokens CHR '','' s) of
        [] \<Rightarrow> Some (Some (mods \<union> {m. Some m \<in> mod_of ` set (split_tokens CHR '','' s)}))
      | t # ts \<Rightarrow> if t = [] \<and> ts \<noteq> [] then None else Some None)"
proof (induction s mods rule: parse_shortcut_mods_loop.induct)
  case (1 s mods)
  let ?k = "length (takeWhile (\<lambda>x. x \<noteq> CHR '','') s)"
  have le: "?k \<le> length s" by (rule length_takeWhile_le)
  have comma: "strchr s CHR '','' = (if ?k < length s then Some ?k else None)" by (simp add: strchr_def NUL_def)
  have tokens: "split_tokens CHR '','' s =
      (if ?k < length s then take ?k s # split_tokens CHR '','' (drop (Suc ?k) s) else [s])"
    using split_tokens_unfold [of "CHR '',''" s] by (simp add: Let_def)
  show ?case
  proof (cases "?k < length s")
    case False
    with le have "take ?k s = s" by simp
    with False comma tokens show ?thesis
      by (subst parse_shortcut_mods_loop.simps) (auto simp: mod_of_prefix split: option.split)
  next
    case True
    show ?thesis
    proof (cases "mod_of (take ?k s)")
      case None
      with True comma tokens le show ?thesis
        by (subst parse_shortcut_mods_loop.simps) (auto simp: mod_of_prefix c_assert_def)
    next
      case (Some m)
      then have "?k \<noteq> 0" by (cases ?k) auto
      then have "parse_shortcut_mods_loop s mods = parse_shortcut_mods_loop (drop (Suc ?k) s) (insert m mods)"
        using True comma Some mod_of_prefix [OF le] by (subst parse_shortcut_mods_loop.simps) simp
      moreover have "parse_shortcut_mods_loop (drop (Suc ?k) s) (insert m mods) =
          (case dropWhile (\<lambda>t. mod_of t \<noteq> None) (split_tokens CHR '','' (drop (Suc ?k) s)) of
            [] \<Rightarrow> Some (Some (insert m mods \<union> {m. Some m \<in> mod_of ` set (split_tokens CHR '','' (drop (Suc ?k) s))}))
          | t # ts \<Rightarrow> if t = [] \<and> ts \<noteq> [] then None else Some None)"
        by (rule 1) (use True comma Some \<open>?k \<noteq> 0\<close> mod_of_prefix [OF le] in \<open>simp_all add: c_assert_def\<close>)
      moreover have "dropWhile (\<lambda>t. mod_of t \<noteq> None) (split_tokens CHR '','' s) =
          dropWhile (\<lambda>t. mod_of t \<noteq> None) (split_tokens CHR '','' (drop (Suc ?k) s))"
        using tokens True Some by simp
      moreover have "insert m mods \<union> {m. Some m \<in> mod_of ` set (split_tokens CHR '','' (drop (Suc ?k) s))} =
          mods \<union> {m. Some m \<in> mod_of ` set (split_tokens CHR '','' s)}"
        using tokens True Some by auto
      ultimately show ?thesis by (simp only:)
    qed
  qed
qed

text \<open>The parsers of names and the names of the values.\<close>

lemma audio_source_name: "parse_audio_source s = Some source \<longleftrightarrow> sc_server_get_audio_source_name source = Some s"
  by (cases source) (auto simp: parse_audio_source_def)

lemma camera_facing_name:
  "parse_camera_facing s = Some facing \<longleftrightarrow>
     (if s = [] then facing = SC_CAMERA_FACING_ANY else sc_server_get_camera_facing_name facing = Some s)"
  by (cases facing) (auto simp: parse_camera_facing_def)

lemma display_ime_policy_name:
  "parse_display_ime_policy s = Some policy \<longleftrightarrow> sc_server_get_display_ime_policy_name policy = Some s"
  by (cases policy) (auto simp: parse_display_ime_policy_def)

lemma log_level_name: "parse_log_level s = Some level \<longleftrightarrow> log_level_to_server_string level = s"
  by (cases level) (auto simp: parse_log_level_def)

lemma orientation_name: "parse_orientation s = Some orientation \<longleftrightarrow> sc_orientation_get_name orientation = s"
  by (cases orientation) (auto simp: parse_orientation_def sc_orientation_get_name_def)

lemma codec_name:
  "parse_video_codec s = Some codec \<or> parse_audio_codec s = Some codec \<longleftrightarrow> sc_server_get_codec_name codec = s"
  by (cases codec) (auto simp: parse_video_codec_def parse_audio_codec_def)

section \<open>Properties\<close>

text \<open>
  C38: The modifiers of the shortcuts are read token by token, up to the first token that is no modifier: the result is
  the set of the modifiers that are named when all tokens are; otherwise the argument is refused, except that an empty
  token that is not the last one aborts the client.
\<close>

theorem shortcut_mods_parsed:
  "parse_shortcut_mods s =
     (case dropWhile (\<lambda>t. mod_of t \<noteq> None) (split_tokens CHR '','' s) of
        [] \<Rightarrow> Some (Some {m. Some m \<in> mod_of ` set (split_tokens CHR '','' s)})
      | t # ts \<Rightarrow> if t = [] \<and> ts \<noteq> [] then None else Some None)"
  unfolding parse_shortcut_mods_def shortcut_mods_loop_eq Un_empty_left ..

text \<open>
  C40: What the user names on the command line is what the server is given by name: the parsers of \<open>cli.c\<close> and the
  functions of \<open>server.c\<close> that name the same values are inverses.
\<close>

theorem argument_names_roundtrip:
  "(parse_audio_source s = Some source \<longleftrightarrow> sc_server_get_audio_source_name source = Some s) \<and>
   (parse_camera_facing s = Some facing \<longleftrightarrow>
     (if s = [] then facing = SC_CAMERA_FACING_ANY else sc_server_get_camera_facing_name facing = Some s)) \<and>
   (parse_display_ime_policy s = Some policy \<longleftrightarrow> sc_server_get_display_ime_policy_name policy = Some s) \<and>
   (parse_log_level s = Some level \<longleftrightarrow> log_level_to_server_string level = s) \<and>
   (parse_orientation s = Some orientation \<longleftrightarrow> sc_orientation_get_name orientation = s) \<and>
   (parse_video_codec s = Some codec \<or> parse_audio_codec s = Some codec \<longleftrightarrow> sc_server_get_codec_name codec = s)"
  by (intro conjI audio_source_name camera_facing_name display_ime_policy_name log_level_name orientation_name codec_name)

end
