(* ===== verification/Sc_Cli_Table.thy ===== *)
theory Sc_Cli_Table
  imports Sc_Prelude
begin

text \<open>
  The table of the options of \<open>cli.c\<close>, without the help texts, and what is made of it for \<open>getopt_long\<close>.
\<close>

section \<open>Numbers of the options\<close>

text \<open>What \<open>getopt_long\<close> returns: the code of its character, or a number of its own.\<close>

definition short_opt :: "char \<Rightarrow> nat" where
  "short_opt c = of_char c"

definition OPT_WINDOW_TITLE :: nat where "OPT_WINDOW_TITLE = 1000"
definition OPT_PUSH_TARGET :: nat where "OPT_PUSH_TARGET = 1001"
definition OPT_ALWAYS_ON_TOP :: nat where "OPT_ALWAYS_ON_TOP = 1002"
definition OPT_CROP :: nat where "OPT_CROP = 1003"
definition OPT_RECORD_FORMAT :: nat where "OPT_RECORD_FORMAT = 1004"
definition OPT_PREFER_TEXT :: nat where "OPT_PREFER_TEXT = 1005"
definition OPT_WINDOW_X :: nat where "OPT_WINDOW_X = 1006"
definition OPT_WINDOW_Y :: nat where "OPT_WINDOW_Y = 1007"
definition OPT_WINDOW_WIDTH :: nat where "OPT_WINDOW_WIDTH = 1008"
definition OPT_WINDOW_HEIGHT :: nat where "OPT_WINDOW_HEIGHT = 1009"
definition OPT_WINDOW_BORDERLESS :: nat where "OPT_WINDOW_BORDERLESS = 1010"
definition OPT_MAX_FPS :: nat where "OPT_MAX_FPS = 1011"
definition OPT_DISPLAY_ID :: nat where "OPT_DISPLAY_ID = 1012"
definition OPT_RENDER_DRIVER :: nat where "OPT_RENDER_DRIVER = 1013"
definition OPT_NO_MIPMAPS :: nat where "OPT_NO_MIPMAPS = 1014"
definition OPT_VIDEO_CODEC_OPTIONS :: nat where "OPT_VIDEO_CODEC_OPTIONS = 1015"
definition OPT_FORCE_ADB_FORWARD :: nat where "OPT_FORCE_ADB_FORWARD = 1016"
definition OPT_DISABLE_SCREENSAVER :: nat where "OPT_DISABLE_SCREENSAVER = 1017"
definition OPT_SHORTCUT_MOD :: nat where "OPT_SHORTCUT_MOD = 1018"
definition OPT_NO_KEY_REPEAT :: nat where "OPT_NO_KEY_REPEAT = 1019"
definition OPT_LEGACY_PASTE :: nat where "OPT_LEGACY_PASTE = 1020"
definition OPT_VIDEO_ENCODER :: nat where "OPT_VIDEO_ENCODER = 1021"
definition OPT_POWER_OFF_ON_CLOSE :: nat where "OPT_POWER_OFF_ON_CLOSE = 1022"
definition OPT_V4L2_SINK :: nat where "OPT_V4L2_SINK = 1023"
definition OPT_VIDEO_BUFFER :: nat where "OPT_VIDEO_BUFFER = 1024"
definition OPT_V4L2_BUFFER :: nat where "OPT_V4L2_BUFFER = 1025"
definition OPT_TUNNEL_HOST :: nat where "OPT_TUNNEL_HOST = 1026"
definition OPT_TUNNEL_PORT :: nat where "OPT_TUNNEL_PORT = 1027"
definition OPT_WIFI_MODE :: nat where "OPT_WIFI_MODE = 1028"
definition OPT_WIFI_PORT :: nat where "OPT_WIFI_PORT = 1029"
definition OPT_MULTISTREAM :: nat where "OPT_MULTISTREAM = 1030"
definition OPT_NO_CLIPBOARD_AUTOSYNC :: nat where "OPT_NO_CLIPBOARD_AUTOSYNC = 1031"
definition OPT_TCPIP :: nat where "OPT_TCPIP = 1032"
definition OPT_RAW_KEY_EVENTS :: nat where "OPT_RAW_KEY_EVENTS = 1033"
definition OPT_NO_DOWNSIZE_ON_ERROR :: nat where "OPT_NO_DOWNSIZE_ON_ERROR = 1034"
definition OPT_OTG :: nat where "OPT_OTG = 1035"
definition OPT_NO_CLEANUP :: nat where "OPT_NO_CLEANUP = 1036"
definition OPT_PRINT_FPS :: nat where "OPT_PRINT_FPS = 1037"
definition OPT_NO_POWER_ON :: nat where "OPT_NO_POWER_ON = 1038"
definition OPT_VIDEO_CODEC :: nat where "OPT_VIDEO_CODEC = 1039"
definition OPT_NO_AUDIO :: nat where "OPT_NO_AUDIO = 1040"
definition OPT_AUDIO_BIT_RATE :: nat where "OPT_AUDIO_BIT_RATE = 1041"
definition OPT_AUDIO_CODEC :: nat where "OPT_AUDIO_CODEC = 1042"
definition OPT_AUDIO_CODEC_OPTIONS :: nat where "OPT_AUDIO_CODEC_OPTIONS = 1043"
definition OPT_AUDIO_ENCODER :: nat where "OPT_AUDIO_ENCODER = 1044"
definition OPT_LIST_ENCODERS :: nat where "OPT_LIST_ENCODERS = 1045"
definition OPT_LIST_DISPLAYS :: nat where "OPT_LIST_DISPLAYS = 1046"
definition OPT_REQUIRE_AUDIO :: nat where "OPT_REQUIRE_AUDIO = 1047"
definition OPT_AUDIO_BUFFER :: nat where "OPT_AUDIO_BUFFER = 1048"
definition OPT_AUDIO_OUTPUT_BUFFER :: nat where "OPT_AUDIO_OUTPUT_BUFFER = 1049"
definition OPT_NO_VIDEO :: nat where "OPT_NO_VIDEO = 1050"
definition OPT_NO_AUDIO_PLAYBACK :: nat where "OPT_NO_AUDIO_PLAYBACK = 1051"
definition OPT_NO_VIDEO_PLAYBACK :: nat where "OPT_NO_VIDEO_PLAYBACK = 1052"
definition OPT_VIDEO_SOURCE :: nat where "OPT_VIDEO_SOURCE = 1053"
definition OPT_AUDIO_SOURCE :: nat where "OPT_AUDIO_SOURCE = 1054"
definition OPT_KILL_ADB_ON_CLOSE :: nat where "OPT_KILL_ADB_ON_CLOSE = 1055"
definition OPT_TIME_LIMIT :: nat where "OPT_TIME_LIMIT = 1056"
definition OPT_PAUSE_ON_EXIT :: nat where "OPT_PAUSE_ON_EXIT = 1057"
definition OPT_LIST_CAMERAS :: nat where "OPT_LIST_CAMERAS = 1058"
definition OPT_LIST_CAMERA_SIZES :: nat where "OPT_LIST_CAMERA_SIZES = 1059"
definition OPT_CAMERA_ID :: nat where "OPT_CAMERA_ID = 1060"
definition OPT_CAMERA_SIZE :: nat where "OPT_CAMERA_SIZE = 1061"
definition OPT_CAMERA_FACING :: nat where "OPT_CAMERA_FACING = 1062"
definition OPT_CAMERA_AR :: nat where "OPT_CAMERA_AR = 1063"
definition OPT_CAMERA_FPS :: nat where "OPT_CAMERA_FPS = 1064"
definition OPT_CAMERA_HIGH_SPEED :: nat where "OPT_CAMERA_HIGH_SPEED = 1065"
definition OPT_DISPLAY_ORIENTATION :: nat where "OPT_DISPLAY_ORIENTATION = 1066"
definition OPT_RECORD_ORIENTATION :: nat where "OPT_RECORD_ORIENTATION = 1067"
definition OPT_ORIENTATION :: nat where "OPT_ORIENTATION = 1068"
definition OPT_KEYBOARD :: nat where "OPT_KEYBOARD = 1069"
definition OPT_MOUSE :: nat where "OPT_MOUSE = 1070"
definition OPT_NO_WINDOW :: nat where "OPT_NO_WINDOW = 1071"
definition OPT_MOUSE_BIND :: nat where "OPT_MOUSE_BIND = 1072"
definition OPT_NO_MOUSE_HOVER :: nat where "OPT_NO_MOUSE_HOVER = 1073"
definition OPT_AUDIO_DUP :: nat where "OPT_AUDIO_DUP = 1074"
definition OPT_GAMEPAD :: nat where "OPT_GAMEPAD = 1075"
definition OPT_NEW_DISPLAY :: nat where "OPT_NEW_DISPLAY = 1076"
definition OPT_LIST_APPS :: nat where "OPT_LIST_APPS = 1077"
definition OPT_START_APP :: nat where "OPT_START_APP = 1078"
definition OPT_SCREEN_OFF_TIMEOUT :: nat where "OPT_SCREEN_OFF_TIMEOUT = 1079"
definition OPT_CAPTURE_ORIENTATION :: nat where "OPT_CAPTURE_ORIENTATION = 1080"
definition OPT_ANGLE :: nat where "OPT_ANGLE = 1081"
definition OPT_NO_VD_SYSTEM_DECORATIONS :: nat where "OPT_NO_VD_SYSTEM_DECORATIONS = 1082"
definition OPT_NO_VD_DESTROY_CONTENT :: nat where "OPT_NO_VD_DESTROY_CONTENT = 1083"
definition OPT_DISPLAY_IME_POLICY :: nat where "OPT_DISPLAY_IME_POLICY = 1084"
definition OPT_CAMERA_TORCH :: nat where "OPT_CAMERA_TORCH = 1085"
definition OPT_CAMERA_ZOOM :: nat where "OPT_CAMERA_ZOOM = 1086"
definition OPT_MIN_SIZE_ALIGNMENT :: nat where "OPT_MIN_SIZE_ALIGNMENT = 1087"
definition OPT_NO_WINDOW_ASPECT_RATIO_LOCK :: nat where "OPT_NO_WINDOW_ASPECT_RATIO_LOCK = 1088"
definition OPT_KEEP_ACTIVE :: nat where "OPT_KEEP_ACTIVE = 1089"
definition OPT_BACKGROUND_COLOR :: nat where "OPT_BACKGROUND_COLOR = 1090"
definition OPT_RENDER_FIT :: nat where "OPT_RENDER_FIT = 1091"

lemmas opt_ids = OPT_WINDOW_TITLE_def OPT_PUSH_TARGET_def OPT_ALWAYS_ON_TOP_def OPT_CROP_def
   OPT_RECORD_FORMAT_def OPT_PREFER_TEXT_def OPT_WINDOW_X_def OPT_WINDOW_Y_def OPT_WINDOW_WIDTH_def
   OPT_WINDOW_HEIGHT_def OPT_WINDOW_BORDERLESS_def OPT_MAX_FPS_def OPT_DISPLAY_ID_def OPT_RENDER_DRIVER_def
   OPT_NO_MIPMAPS_def OPT_VIDEO_CODEC_OPTIONS_def OPT_FORCE_ADB_FORWARD_def OPT_DISABLE_SCREENSAVER_def
   OPT_SHORTCUT_MOD_def OPT_NO_KEY_REPEAT_def OPT_LEGACY_PASTE_def OPT_VIDEO_ENCODER_def OPT_POWER_OFF_ON_CLOSE_def
   OPT_V4L2_SINK_def OPT_VIDEO_BUFFER_def OPT_V4L2_BUFFER_def OPT_TUNNEL_HOST_def OPT_TUNNEL_PORT_def
   OPT_WIFI_MODE_def OPT_WIFI_PORT_def OPT_MULTISTREAM_def OPT_NO_CLIPBOARD_AUTOSYNC_def OPT_TCPIP_def
   OPT_RAW_KEY_EVENTS_def OPT_NO_DOWNSIZE_ON_ERROR_def OPT_OTG_def OPT_NO_CLEANUP_def OPT_PRINT_FPS_def
   OPT_NO_POWER_ON_def OPT_VIDEO_CODEC_def OPT_NO_AUDIO_def OPT_AUDIO_BIT_RATE_def OPT_AUDIO_CODEC_def
   OPT_AUDIO_CODEC_OPTIONS_def OPT_AUDIO_ENCODER_def OPT_LIST_ENCODERS_def OPT_LIST_DISPLAYS_def
   OPT_REQUIRE_AUDIO_def OPT_AUDIO_BUFFER_def OPT_AUDIO_OUTPUT_BUFFER_def OPT_NO_VIDEO_def
   OPT_NO_AUDIO_PLAYBACK_def OPT_NO_VIDEO_PLAYBACK_def OPT_VIDEO_SOURCE_def OPT_AUDIO_SOURCE_def
   OPT_KILL_ADB_ON_CLOSE_def OPT_TIME_LIMIT_def OPT_PAUSE_ON_EXIT_def OPT_LIST_CAMERAS_def
   OPT_LIST_CAMERA_SIZES_def OPT_CAMERA_ID_def OPT_CAMERA_SIZE_def OPT_CAMERA_FACING_def OPT_CAMERA_AR_def
   OPT_CAMERA_FPS_def OPT_CAMERA_HIGH_SPEED_def OPT_DISPLAY_ORIENTATION_def OPT_RECORD_ORIENTATION_def
   OPT_ORIENTATION_def OPT_KEYBOARD_def OPT_MOUSE_def OPT_NO_WINDOW_def OPT_MOUSE_BIND_def OPT_NO_MOUSE_HOVER_def
   OPT_AUDIO_DUP_def OPT_GAMEPAD_def OPT_NEW_DISPLAY_def OPT_LIST_APPS_def OPT_START_APP_def
   OPT_SCREEN_OFF_TIMEOUT_def OPT_CAPTURE_ORIENTATION_def OPT_ANGLE_def OPT_NO_VD_SYSTEM_DECORATIONS_def
   OPT_NO_VD_DESTROY_CONTENT_def OPT_DISPLAY_IME_POLICY_def OPT_CAMERA_TORCH_def OPT_CAMERA_ZOOM_def
   OPT_MIN_SIZE_ALIGNMENT_def OPT_NO_WINDOW_ASPECT_RATIO_LOCK_def OPT_KEEP_ACTIVE_def OPT_BACKGROUND_COLOR_def
   OPT_RENDER_FIT_def

section \<open>The table\<close>

record sc_option =
  opt_shortopt :: "char option"
  opt_longopt_id :: nat
  opt_longopt :: "string option"
  opt_argdesc :: "string option"
  opt_optional_arg :: bool

definition sc_opt :: "char option \<Rightarrow> nat \<Rightarrow> string option \<Rightarrow> string option \<Rightarrow> bool \<Rightarrow> sc_option" where
  "sc_opt shortopt longopt_id longopt argdesc optional_arg =
     \<lparr>opt_shortopt = shortopt, opt_longopt_id = longopt_id, opt_longopt = longopt, opt_argdesc = argdesc,
      opt_optional_arg = optional_arg\<rparr>"

definition options :: "sc_option list" where
  "options = [
     sc_opt None OPT_ALWAYS_ON_TOP (Some ''always-on-top'') None False,
     sc_opt None OPT_ANGLE (Some ''angle'') (Some ''degrees'') False,
     sc_opt None OPT_AUDIO_BIT_RATE (Some ''audio-bit-rate'') (Some ''value'') False,
     sc_opt None OPT_AUDIO_BUFFER (Some ''audio-buffer'') (Some ''ms'') False,
     sc_opt None OPT_AUDIO_CODEC (Some ''audio-codec'') (Some ''name'') False,
     sc_opt None OPT_AUDIO_CODEC_OPTIONS (Some ''audio-codec-options'') (Some ''key[:type]=value[,...]'') False,
     sc_opt None OPT_AUDIO_DUP (Some ''audio-dup'') None False,
     sc_opt None OPT_AUDIO_ENCODER (Some ''audio-encoder'') (Some ''name'') False,
     sc_opt None OPT_AUDIO_SOURCE (Some ''audio-source'') (Some ''source'') False,
     sc_opt None OPT_AUDIO_OUTPUT_BUFFER (Some ''audio-output-buffer'') (Some ''ms'') False,
     sc_opt (Some CHR ''b'') 0 (Some ''video-bit-rate'') (Some ''value'') False,
     sc_opt None OPT_BACKGROUND_COLOR (Some ''background-color'') (Some ''hexcolor'') False,
     sc_opt None OPT_CAMERA_AR (Some ''camera-ar'') (Some ''ar'') False,
     sc_opt None OPT_CAMERA_FACING (Some ''camera-facing'') (Some ''facing'') False,
     sc_opt None OPT_CAMERA_FPS (Some ''camera-fps'') (Some ''value'') False,
     sc_opt None OPT_CAMERA_HIGH_SPEED (Some ''camera-high-speed'') None False,
     sc_opt None OPT_CAMERA_ID (Some ''camera-id'') (Some ''id'') False,
     sc_opt None OPT_CAMERA_SIZE (Some ''camera-size'') (Some ''<width>x<height>'') False,
     sc_opt None OPT_CAMERA_TORCH (Some ''camera-torch'') None False,
     sc_opt None OPT_CAMERA_ZOOM (Some ''camera-zoom'') (Some ''zoom'') False,
     sc_opt None OPT_CAPTURE_ORIENTATION (Some ''capture-orientation'') (Some ''value'') False,
     sc_opt None OPT_CROP (Some ''crop'') (Some ''width:height:x:y'') False,
     sc_opt (Some CHR ''d'') 0 (Some ''select-usb'') None False,
     sc_opt None OPT_DISABLE_SCREENSAVER (Some ''disable-screensaver'') None False,
     sc_opt None OPT_DISPLAY_ID (Some ''display-id'') (Some ''id'') False,
     sc_opt None OPT_DISPLAY_IME_POLICY (Some ''display-ime-policy'') (Some ''value'') False,
     sc_opt None OPT_DISPLAY_ORIENTATION (Some ''display-orientation'') (Some ''value'') False,
     sc_opt (Some CHR ''e'') 0 (Some ''select-tcpip'') None False,
     sc_opt (Some CHR ''f'') 0 (Some ''fullscreen'') None False,
     sc_opt None OPT_FORCE_ADB_FORWARD (Some ''force-adb-forward'') None False,
     sc_opt (Some CHR ''G'') 0 None None False,
     sc_opt None OPT_GAMEPAD (Some ''gamepad'') (Some ''mode'') False,
     sc_opt (Some CHR ''h'') 0 (Some ''help'') None False,
     sc_opt (Some CHR ''K'') 0 None None False,
     sc_opt None OPT_KEEP_ACTIVE (Some ''keep-active'') None False,
     sc_opt None OPT_KEYBOARD (Some ''keyboard'') (Some ''mode'') False,
     sc_opt None OPT_KILL_ADB_ON_CLOSE (Some ''kill-adb-on-close'') None False,
     sc_opt None OPT_LEGACY_PASTE (Some ''legacy-paste'') None False,
     sc_opt None OPT_LIST_APPS (Some ''list-apps'') None False,
     sc_opt None OPT_LIST_CAMERAS (Some ''list-cameras'') None False,
     sc_opt None OPT_LIST_CAMERA_SIZES (Some ''list-camera-sizes'') None False,
     sc_opt None OPT_LIST_DISPLAYS (Some ''list-displays'') None False,
     sc_opt None OPT_LIST_ENCODERS (Some ''list-encoders'') None False,
     sc_opt (Some CHR ''m'') 0 (Some ''max-size'') (Some ''value'') False,
     sc_opt (Some CHR ''M'') 0 None None False,
     sc_opt None OPT_MAX_FPS (Some ''max-fps'') (Some ''value'') False,
     sc_opt None OPT_MIN_SIZE_ALIGNMENT (Some ''min-size-alignment'') (Some ''alignment'') False,
     sc_opt None OPT_MOUSE (Some ''mouse'') (Some ''mode'') False,
     sc_opt None OPT_MOUSE_BIND (Some ''mouse-bind'') (Some ''xxxx[:xxxx]'') False,
     sc_opt (Some CHR ''n'') 0 (Some ''no-control'') None False,
     sc_opt (Some CHR ''N'') 0 (Some ''no-playback'') None False,
     sc_opt None OPT_NEW_DISPLAY (Some ''new-display'') (Some ''[<width>x<height>][/<dpi>]'') True,
     sc_opt None OPT_NO_AUDIO (Some ''no-audio'') None False,
     sc_opt None OPT_NO_AUDIO_PLAYBACK (Some ''no-audio-playback'') None False,
     sc_opt None OPT_NO_CLEANUP (Some ''no-cleanup'') None False,
     sc_opt None OPT_NO_CLIPBOARD_AUTOSYNC (Some ''no-clipboard-autosync'') None False,
     sc_opt None OPT_NO_DOWNSIZE_ON_ERROR (Some ''no-downsize-on-error'') None False,
     sc_opt None OPT_NO_KEY_REPEAT (Some ''no-key-repeat'') None False,
     sc_opt None OPT_NO_MIPMAPS (Some ''no-mipmaps'') None False,
     sc_opt None OPT_NO_MOUSE_HOVER (Some ''no-mouse-hover'') None False,
     sc_opt None OPT_NO_POWER_ON (Some ''no-power-on'') None False,
     sc_opt None OPT_NO_VD_DESTROY_CONTENT (Some ''no-vd-destroy-content'') None False,
     sc_opt None OPT_NO_VD_SYSTEM_DECORATIONS (Some ''no-vd-system-decorations'') None False,
     sc_opt None OPT_NO_VIDEO (Some ''no-video'') None False,
     sc_opt None OPT_NO_VIDEO_PLAYBACK (Some ''no-video-playback'') None False,
     sc_opt None OPT_NO_WINDOW (Some ''no-window'') None False,
     sc_opt None OPT_NO_WINDOW_ASPECT_RATIO_LOCK (Some ''no-window-aspect-ratio-lock'') None False,
     sc_opt None OPT_ORIENTATION (Some ''orientation'') (Some ''value'') False,
     sc_opt None OPT_OTG (Some ''otg'') None False,
     sc_opt (Some CHR ''p'') 0 (Some ''port'') (Some ''port[:port]'') False,
     sc_opt None OPT_PAUSE_ON_EXIT (Some ''pause-on-exit'') (Some ''mode'') True,
     sc_opt None OPT_POWER_OFF_ON_CLOSE (Some ''power-off-on-close'') None False,
     sc_opt None OPT_PREFER_TEXT (Some ''prefer-text'') None False,
     sc_opt None OPT_PRINT_FPS (Some ''print-fps'') None False,
     sc_opt None OPT_PUSH_TARGET (Some ''push-target'') (Some ''path'') False,
     sc_opt (Some CHR ''r'') 0 (Some ''record'') (Some ''file.mp4'') False,
     sc_opt None OPT_RAW_KEY_EVENTS (Some ''raw-key-events'') None False,
     sc_opt None OPT_RECORD_FORMAT (Some ''record-format'') (Some ''format'') False,
     sc_opt None OPT_RECORD_ORIENTATION (Some ''record-orientation'') (Some ''value'') False,
     sc_opt None OPT_RENDER_DRIVER (Some ''render-driver'') (Some ''name'') False,
     sc_opt None OPT_RENDER_FIT (Some ''render-fit'') (Some ''mode'') False,
     sc_opt None OPT_REQUIRE_AUDIO (Some ''require-audio'') None False,
     sc_opt (Some CHR ''s'') 0 (Some ''serial'') (Some ''serial'') False,
     sc_opt (Some CHR ''S'') 0 (Some ''turn-screen-off'') None False,
     sc_opt None OPT_SCREEN_OFF_TIMEOUT (Some ''screen-off-timeout'') (Some ''seconds'') False,
     sc_opt None OPT_SHORTCUT_MOD (Some ''shortcut-mod'') (Some ''key[+...][,...]'') False,
     sc_opt None OPT_START_APP (Some ''start-app'') (Some ''name'') False,
     sc_opt (Some CHR ''t'') 0 (Some ''show-touches'') None False,
     sc_opt None OPT_TCPIP (Some ''tcpip'') (Some ''[+]ip[:port]'') True,
     sc_opt None OPT_TIME_LIMIT (Some ''time-limit'') (Some ''seconds'') False,
     sc_opt None OPT_TUNNEL_HOST (Some ''tunnel-host'') (Some ''ip'') False,
     sc_opt None OPT_TUNNEL_PORT (Some ''tunnel-port'') (Some ''port'') False,
     sc_opt None OPT_WIFI_MODE (Some ''wifi'') None False,
     sc_opt None OPT_WIFI_PORT (Some ''wifi-port'') (Some ''port'') False,
     sc_opt None OPT_MULTISTREAM (Some ''multistream'') None False,
     sc_opt (Some CHR ''v'') 0 (Some ''version'') None False,
     sc_opt (Some CHR ''V'') 0 (Some ''verbosity'') (Some ''value'') False,
     sc_opt None OPT_V4L2_SINK (Some ''v4l2-sink'') (Some ''/dev/videoN'') False,
     sc_opt None OPT_V4L2_BUFFER (Some ''v4l2-buffer'') (Some ''ms'') False,
     sc_opt None OPT_VIDEO_BUFFER (Some ''video-buffer'') (Some ''ms'') False,
     sc_opt None OPT_VIDEO_CODEC (Some ''video-codec'') (Some ''name'') False,
     sc_opt None OPT_VIDEO_CODEC_OPTIONS (Some ''video-codec-options'') (Some ''key[:type]=value[,...]'') False,
     sc_opt None OPT_VIDEO_ENCODER (Some ''video-encoder'') (Some ''name'') False,
     sc_opt None OPT_VIDEO_SOURCE (Some ''video-source'') (Some ''source'') False,
     sc_opt (Some CHR ''w'') 0 (Some ''stay-awake'') None False,
     sc_opt None OPT_WINDOW_BORDERLESS (Some ''window-borderless'') None False,
     sc_opt None OPT_WINDOW_TITLE (Some ''window-title'') (Some ''text'') False,
     sc_opt None OPT_WINDOW_X (Some ''window-x'') (Some ''value'') False,
     sc_opt None OPT_WINDOW_Y (Some ''window-y'') (Some ''value'') False,
     sc_opt None OPT_WINDOW_WIDTH (Some ''window-width'') (Some ''value'') False,
     sc_opt None OPT_WINDOW_HEIGHT (Some ''window-height'') (Some ''value'') False,
     sc_opt (Some CHR ''x'') 0 (Some ''flex-display'') None False]"

section \<open>The adapter of \<open>getopt_long\<close>\<close>

text \<open>The string of the short options; \<open>append_ok\<close> tells whether the buffer can grow.\<close>

fun sc_getopt_adapter_create_optstring :: "bool \<Rightarrow> sc_option list \<Rightarrow> string option" where
  "sc_getopt_adapter_create_optstring append_ok [] = Some []"
| "sc_getopt_adapter_create_optstring append_ok (opt # opts) = (case opt_shortopt opt of
     None \<Rightarrow> sc_getopt_adapter_create_optstring append_ok opts
   | Some c \<Rightarrow>
       if \<not> append_ok then None
       else map_option (\<lambda>s. c # (if opt_argdesc opt \<noteq> None then '':'' @ (if opt_optional_arg opt then '':'' else []) else []) @ s)
         (sc_getopt_adapter_create_optstring append_ok opts))"

datatype has_arg = no_argument | required_argument | optional_argument

text \<open>The long options: the name, whether there is an argument, and the value that is returned.\<close>

fun sc_getopt_adapter_create_longopts :: "sc_option list \<Rightarrow> (string \<times> has_arg \<times> nat) list option" where
  "sc_getopt_adapter_create_longopts [] = Some []"
| "sc_getopt_adapter_create_longopts (opt # opts) = do {
     c_assert (opt_longopt_id opt = 0 \<or> opt_longopt opt \<noteq> None);
     case opt_longopt opt of
       None \<Rightarrow> sc_getopt_adapter_create_longopts opts
     | Some name \<Rightarrow> do {
         c_assert (opt_argdesc opt \<noteq> None \<or> \<not> opt_optional_arg opt);
         let has_arg = (if opt_argdesc opt = None then no_argument
                        else if opt_optional_arg opt then optional_argument else required_argument);
         c_assert (opt_shortopt opt \<noteq> None \<longleftrightarrow> opt_longopt_id opt = 0);
         longopts \<leftarrow> sc_getopt_adapter_create_longopts opts;
         Some ((name, has_arg, case opt_shortopt opt of Some c \<Rightarrow> short_opt c | None \<Rightarrow> opt_longopt_id opt) # longopts)
       }
   }"

section \<open>What the options return\<close>

text \<open>The value that is returned for an option, and whether it comes with an argument.\<close>

definition opt_val :: "sc_option \<Rightarrow> nat" where
  "opt_val opt = (case opt_shortopt opt of Some c \<Rightarrow> short_opt c | None \<Rightarrow> opt_longopt_id opt)"

definition needs_arg :: "nat \<Rightarrow> bool" where
  "needs_arg v \<longleftrightarrow>
     list_ex (\<lambda>opt. opt_val opt = v \<and> opt_argdesc opt \<noteq> None \<and> \<not> opt_optional_arg opt) options"

lemmas table_defs = options_def sc_opt_def opt_val_def opt_ids

text \<open>No assertion fails on a consistent entry.\<close>

definition entry_ok :: "sc_option \<Rightarrow> bool" where
  "entry_ok opt \<longleftrightarrow> (opt_longopt_id opt = 0 \<or> opt_longopt opt \<noteq> None) \<and> (opt_argdesc opt \<noteq> None \<or> \<not> opt_optional_arg opt) \<and>
     (opt_shortopt opt \<noteq> None \<longleftrightarrow> opt_longopt_id opt = 0)"

lemma longopts_eq:
  "list_all entry_ok opts \<Longrightarrow> sc_getopt_adapter_create_longopts opts =
    Some (map (\<lambda>opt. (the (opt_longopt opt), if opt_argdesc opt = None then no_argument
        else if opt_optional_arg opt then optional_argument else required_argument, opt_val opt))
      (filter (\<lambda>opt. opt_longopt opt \<noteq> None) opts))"
proof (induction opts)
  case (Cons opt opts)
  then show ?case by (cases "opt_longopt opt") (auto simp: entry_ok_def opt_val_def Let_def)
qed simp

lemma entries_ok: "list_all entry_ok options"
  by (simp add: table_defs entry_ok_def)

lemma opt_vals_distinct: "distinct (map opt_val options)"
proof -
 show ?thesis by (simp add: table_defs short_opt_def)
qed

definition long_options :: "sc_option list" where
  "long_options = filter (\<lambda>opt. opt_longopt opt \<noteq> None) options"

lemma names_distinct: "distinct (map (\<lambda>opt. the (opt_longopt opt)) long_options)"
  by (simp add: table_defs long_options_def)

section \<open>Properties\<close>

text \<open>
  The table is consistent: no assertion of the adapter fails, no two options have the same name or return the same
  value, every long option returns what the switch compares it with, and the short options are those of the table.
\<close>

theorem option_table_consistent:
  "\<exists>longopts. sc_getopt_adapter_create_longopts options = Some longopts \<and>
    distinct (map fst longopts) \<and> distinct (map opt_val options) \<and>
    list_all (\<lambda>(name, has_arg, v). \<exists>opt \<in> set options. opt_longopt opt = Some name \<and> opt_val opt = v \<and>
      (has_arg = required_argument \<longleftrightarrow> opt_argdesc opt \<noteq> None \<and> \<not> opt_optional_arg opt)) longopts \<and>
    sc_getopt_adapter_create_optstring True options = Some ''b:defGhKm:MnNp:r:s:StvV:wx''"
proof -
  let ?entry = "\<lambda>opt. (the (opt_longopt opt), if opt_argdesc opt = None then no_argument
        else if opt_optional_arg opt then optional_argument else required_argument, opt_val opt)"
  have l: "sc_getopt_adapter_create_longopts options = Some (map ?entry long_options)"
    unfolding long_options_def by (rule longopts_eq [OF entries_ok])
  have "map fst (map ?entry long_options) = map (\<lambda>opt. the (opt_longopt opt)) long_options" by simp
  then have "distinct (map fst (map ?entry long_options))" using names_distinct by (simp only:)
  moreover have "sc_getopt_adapter_create_optstring True options = Some ''b:defGhKm:MnNp:r:s:StvV:wx''"
    by (simp add: table_defs)
  moreover have "list_all (\<lambda>(name, has_arg, v). \<exists>opt \<in> set options. opt_longopt opt = Some name \<and> opt_val opt = v \<and>
      (has_arg = required_argument \<longleftrightarrow> opt_argdesc opt \<noteq> None \<and> \<not> opt_optional_arg opt)) (map ?entry long_options)"
    unfolding long_options_def list_all_iff by fastforce
  ultimately show ?thesis using l opt_vals_distinct by blast
qed

end
