(* ===== verification/Sc_Cli.thy ===== *)
theory Sc_Cli
  imports Sc_Cli_Parsers Sc_Cli_Table
begin

text \<open>
  The command line of the client (\<open>cli.c\<close>): what becomes of the options that \<open>getopt_long\<close> finds, how they are checked
  and completed, and what they then guarantee to the components that they configure. Built with USB and V4L2, not for
  Windows; what is logged is not modelled.
\<close>

section \<open>Options of the command line\<close>

record scrcpy_cli_args =
  ca_opts :: scrcpy_options
  ca_help :: bool
  ca_version :: bool
  ca_pause_on_exit :: sc_pause_on_exit

definition set_opts :: "(scrcpy_options \<Rightarrow> scrcpy_options) \<Rightarrow> scrcpy_cli_args \<Rightarrow> scrcpy_cli_args option option" where
  "set_opts f args = Some (Some (args\<lparr>ca_opts := f (ca_opts args)\<rparr>))"

text \<open>Parsing \<open>NULL\<close> aborts.\<close>

definition parse_arg ::
    "(string \<Rightarrow> 'a option option) \<Rightarrow> string option \<Rightarrow> ('a \<Rightarrow> scrcpy_options \<Rightarrow> scrcpy_options) \<Rightarrow> scrcpy_cli_args \<Rightarrow>
      scrcpy_cli_args option option" where
  "parse_arg parse optarg store args = do {
     s \<leftarrow> optarg;
     r \<leftarrow> parse s;
     case r of None \<Rightarrow> Some None | Some v \<Rightarrow> set_opts (store v) args
   }"

definition parse_ip :: "(string \<Rightarrow> u32 option) \<Rightarrow> string \<Rightarrow> u32 option" where
  "parse_ip net_parse_ipv4 optarg = net_parse_ipv4 optarg"

text \<open>The switch, in three parts.\<close>

definition parse_opt_part3 ::
    "(string \<Rightarrow> u32 option) \<Rightarrow> nat \<Rightarrow> string option \<Rightarrow> scrcpy_cli_args \<Rightarrow> scrcpy_cli_args option option" where
  "parse_opt_part3 parse_ipv4 opt optarg args =
     (if opt = OPT_V4L2_BUFFER then
        parse_arg (Some \<circ> parse_buffering_time) optarg (\<lambda>v opts. opts\<lparr>op_v4l2_buffer := v\<rparr>) args
      else if opt = OPT_LIST_ENCODERS then
        set_opts (\<lambda>opts. opts\<lparr>op_list := op_list opts OR SC_OPTION_LIST_ENCODERS\<rparr>) args
      else if opt = OPT_LIST_DISPLAYS then
        set_opts (\<lambda>opts. opts\<lparr>op_list := op_list opts OR SC_OPTION_LIST_DISPLAYS\<rparr>) args
      else if opt = OPT_LIST_CAMERAS then
        set_opts (\<lambda>opts. opts\<lparr>op_list := op_list opts OR SC_OPTION_LIST_CAMERAS\<rparr>) args
      else if opt = OPT_LIST_CAMERA_SIZES then
        set_opts (\<lambda>opts. opts\<lparr>op_list := op_list opts OR SC_OPTION_LIST_CAMERA_SIZES\<rparr>) args
      else if opt = OPT_LIST_APPS then
        set_opts (\<lambda>opts. opts\<lparr>op_list := op_list opts OR SC_OPTION_LIST_APPS\<rparr>) args
      else if opt = OPT_REQUIRE_AUDIO then set_opts (\<lambda>opts. opts\<lparr>op_require_audio := True\<rparr>) args
      else if opt = OPT_AUDIO_BUFFER then
        parse_arg (Some \<circ> parse_buffering_time) optarg (\<lambda>v opts. opts\<lparr>op_audio_buffer := v\<rparr>) args
      else if opt = OPT_AUDIO_OUTPUT_BUFFER then
        parse_arg (Some \<circ> parse_audio_output_buffer) optarg (\<lambda>v opts. opts\<lparr>op_audio_output_buffer := v\<rparr>) args
      else if opt = OPT_VIDEO_SOURCE then
        parse_arg (Some \<circ> parse_video_source) optarg (\<lambda>v opts. opts\<lparr>op_video_source := v\<rparr>) args
      else if opt = OPT_AUDIO_SOURCE then
        parse_arg (Some \<circ> parse_audio_source) optarg (\<lambda>v opts. opts\<lparr>op_audio_source := v\<rparr>) args
      else if opt = OPT_KILL_ADB_ON_CLOSE then
        set_opts (\<lambda>opts. opts\<lparr>op_kill_adb_on_close := True\<rparr>) args
      else if opt = OPT_TIME_LIMIT then
        parse_arg (Some \<circ> parse_time_limit) optarg (\<lambda>v opts. opts\<lparr>op_time_limit := v\<rparr>) args
      else if opt = OPT_PAUSE_ON_EXIT then (case parse_pause_on_exit optarg of
         None \<Rightarrow> Some None
       | Some v \<Rightarrow> Some (Some (args\<lparr>ca_pause_on_exit := v\<rparr>)))
      else if opt = OPT_CAMERA_AR then set_opts (\<lambda>opts. opts\<lparr>op_camera_ar := optarg\<rparr>) args
      else if opt = OPT_CAMERA_ID then set_opts (\<lambda>opts. opts\<lparr>op_camera_id := optarg\<rparr>) args
      else if opt = OPT_CAMERA_SIZE then set_opts (\<lambda>opts. opts\<lparr>op_camera_size := optarg\<rparr>) args
      else if opt = OPT_CAMERA_FACING then
        parse_arg (Some \<circ> parse_camera_facing) optarg (\<lambda>v opts. opts\<lparr>op_camera_facing := v\<rparr>) args
      else if opt = OPT_CAMERA_FPS then
        parse_arg (Some \<circ> parse_camera_fps) optarg (\<lambda>v opts. opts\<lparr>op_camera_fps := v\<rparr>) args
      else if opt = OPT_CAMERA_HIGH_SPEED then
        set_opts (\<lambda>opts. opts\<lparr>op_camera_high_speed := True\<rparr>) args
      else if opt = OPT_CAMERA_TORCH then set_opts (\<lambda>opts. opts\<lparr>op_camera_torch := True\<rparr>) args
      else if opt = OPT_CAMERA_ZOOM then set_opts (\<lambda>opts. opts\<lparr>op_camera_zoom := optarg\<rparr>) args
      else if opt = OPT_NO_WINDOW then set_opts (\<lambda>opts. opts\<lparr>op_window := False\<rparr>) args
      else if opt = OPT_AUDIO_DUP then set_opts (\<lambda>opts. opts\<lparr>op_audio_dup := True\<rparr>) args
      else if opt = short_opt CHR ''G'' then
        set_opts (\<lambda>opts. opts\<lparr>op_gamepad_input_mode := SC_GAMEPAD_INPUT_MODE_UHID_OR_AOA\<rparr>) args
      else if opt = OPT_GAMEPAD then
        parse_arg (Some \<circ> parse_gamepad) optarg (\<lambda>v opts. opts\<lparr>op_gamepad_input_mode := v\<rparr>) args
      else if opt = OPT_NEW_DISPLAY then
        set_opts (\<lambda>opts. opts\<lparr>op_new_display := Some (case optarg of None \<Rightarrow> [] | Some s \<Rightarrow> s)\<rparr>) args
      else if opt = OPT_START_APP then set_opts (\<lambda>opts. opts\<lparr>op_start_app := optarg\<rparr>) args
      else if opt = OPT_SCREEN_OFF_TIMEOUT then
        parse_arg (Some \<circ> parse_screen_off_timeout) optarg (\<lambda>v opts. opts\<lparr>op_screen_off_timeout := v\<rparr>) args
      else if opt = OPT_ANGLE then set_opts (\<lambda>opts. opts\<lparr>op_angle := optarg\<rparr>) args
      else if opt = OPT_NO_VD_DESTROY_CONTENT then
        set_opts (\<lambda>opts. opts\<lparr>op_vd_destroy_content := False\<rparr>) args
      else if opt = OPT_NO_VD_SYSTEM_DECORATIONS then
        set_opts (\<lambda>opts. opts\<lparr>op_vd_system_decorations := False\<rparr>) args
      else if opt = OPT_DISPLAY_IME_POLICY then
        parse_arg (Some \<circ> parse_display_ime_policy) optarg (\<lambda>v opts. opts\<lparr>op_display_ime_policy := v\<rparr>) args
      else if opt = OPT_MIN_SIZE_ALIGNMENT then
        parse_arg (Some \<circ> parse_min_size_alignment) optarg (\<lambda>v opts. opts\<lparr>op_min_size_alignment := v\<rparr>) args
      else if opt = OPT_NO_WINDOW_ASPECT_RATIO_LOCK then
        set_opts (\<lambda>opts. opts\<lparr>op_window_aspect_ratio_lock := False\<rparr>) args
      else if opt = OPT_KEEP_ACTIVE then set_opts (\<lambda>opts. opts\<lparr>op_keep_active := True\<rparr>) args
      else if opt = OPT_BACKGROUND_COLOR then
        parse_arg (Some \<circ> parse_hex_color) optarg (\<lambda>v opts. opts\<lparr>op_background_color := v\<rparr>) args
      else if opt = OPT_RENDER_FIT then
        parse_arg (Some \<circ> parse_render_fit) optarg (\<lambda>v opts. opts\<lparr>op_render_fit := v\<rparr>) args
      else if opt = short_opt CHR ''x'' then set_opts (\<lambda>opts. opts\<lparr>op_flex_display := True\<rparr>) args
      else Some None)"

definition parse_opt_part2 ::
    "(string \<Rightarrow> u32 option) \<Rightarrow> nat \<Rightarrow> string option \<Rightarrow> scrcpy_cli_args \<Rightarrow> scrcpy_cli_args option option" where
  "parse_opt_part2 parse_ipv4 opt optarg args =
     (if opt = OPT_WINDOW_Y then
        parse_arg (Some \<circ> parse_window_position) optarg (\<lambda>v opts. opts\<lparr>op_window_y := v\<rparr>) args
      else if opt = OPT_WINDOW_WIDTH then
        parse_arg (Some \<circ> parse_window_dimension) optarg (\<lambda>v opts. opts\<lparr>op_window_width := v\<rparr>) args
      else if opt = OPT_WINDOW_HEIGHT then
        parse_arg (Some \<circ> parse_window_dimension) optarg (\<lambda>v opts. opts\<lparr>op_window_height := v\<rparr>) args
      else if opt = OPT_WINDOW_BORDERLESS then
        set_opts (\<lambda>opts. opts\<lparr>op_window_borderless := True\<rparr>) args
      else if opt = OPT_PUSH_TARGET then set_opts (\<lambda>opts. opts\<lparr>op_push_target := optarg\<rparr>) args
      else if opt = OPT_PREFER_TEXT then
        (if op_key_inject_mode (ca_opts args) \<noteq> SC_KEY_INJECT_MODE_MIXED then Some None
        else set_opts (\<lambda>opts. opts\<lparr>op_key_inject_mode := SC_KEY_INJECT_MODE_TEXT\<rparr>) args)
      else if opt = OPT_RAW_KEY_EVENTS then
        (if op_key_inject_mode (ca_opts args) \<noteq> SC_KEY_INJECT_MODE_MIXED then Some None
        else set_opts (\<lambda>opts. opts\<lparr>op_key_inject_mode := SC_KEY_INJECT_MODE_RAW\<rparr>) args)
      else if opt = OPT_DISPLAY_ORIENTATION then
        parse_arg (Some \<circ> parse_orientation) optarg (\<lambda>v opts. opts\<lparr>op_display_orientation := v\<rparr>) args
      else if opt = OPT_RECORD_ORIENTATION then
        parse_arg (Some \<circ> parse_orientation) optarg (\<lambda>v opts. opts\<lparr>op_record_orientation := v\<rparr>) args
      else if opt = OPT_ORIENTATION then parse_arg (Some \<circ> parse_orientation) optarg
         (\<lambda>v opts. opts\<lparr>op_display_orientation := v, op_record_orientation := v\<rparr>) args
      else if opt = OPT_RENDER_DRIVER then set_opts (\<lambda>opts. opts\<lparr>op_render_driver := optarg\<rparr>) args
      else if opt = OPT_NO_MIPMAPS then set_opts (\<lambda>opts. opts\<lparr>op_mipmaps := False\<rparr>) args
      else if opt = OPT_NO_KEY_REPEAT then set_opts (\<lambda>opts. opts\<lparr>op_forward_key_repeat := False\<rparr>) args
      else if opt = OPT_VIDEO_CODEC_OPTIONS then
        set_opts (\<lambda>opts. opts\<lparr>op_video_codec_options := optarg\<rparr>) args
      else if opt = OPT_AUDIO_CODEC_OPTIONS then
        set_opts (\<lambda>opts. opts\<lparr>op_audio_codec_options := optarg\<rparr>) args
      else if opt = OPT_VIDEO_ENCODER then set_opts (\<lambda>opts. opts\<lparr>op_video_encoder := optarg\<rparr>) args
      else if opt = OPT_AUDIO_ENCODER then set_opts (\<lambda>opts. opts\<lparr>op_audio_encoder := optarg\<rparr>) args
      else if opt = OPT_FORCE_ADB_FORWARD then
        set_opts (\<lambda>opts. opts\<lparr>op_force_adb_forward := True\<rparr>) args
      else if opt = OPT_DISABLE_SCREENSAVER then
        set_opts (\<lambda>opts. opts\<lparr>op_disable_screensaver := True\<rparr>) args
      else if opt = OPT_SHORTCUT_MOD then
        parse_arg parse_shortcut_mods optarg (\<lambda>v opts. opts\<lparr>op_shortcut_mods := v\<rparr>) args
      else if opt = OPT_LEGACY_PASTE then set_opts (\<lambda>opts. opts\<lparr>op_legacy_paste := True\<rparr>) args
      else if opt = OPT_POWER_OFF_ON_CLOSE then
        set_opts (\<lambda>opts. opts\<lparr>op_power_off_on_close := True\<rparr>) args
      else if opt = OPT_VIDEO_BUFFER then
        parse_arg (Some \<circ> parse_buffering_time) optarg (\<lambda>v opts. opts\<lparr>op_video_buffer := v\<rparr>) args
      else if opt = OPT_NO_CLIPBOARD_AUTOSYNC then
        set_opts (\<lambda>opts. opts\<lparr>op_clipboard_autosync := False\<rparr>) args
      else if opt = OPT_TCPIP then
        set_opts (\<lambda>opts. opts\<lparr>op_tcpip := True, op_tcpip_dst := optarg\<rparr>) args
      else if opt = OPT_NO_DOWNSIZE_ON_ERROR then
        set_opts (\<lambda>opts. opts\<lparr>op_downsize_on_error := False\<rparr>) args
      else if opt = OPT_NO_VIDEO then set_opts (\<lambda>opts. opts\<lparr>op_video := False\<rparr>) args
      else if opt = OPT_NO_AUDIO then set_opts (\<lambda>opts. opts\<lparr>op_audio := False\<rparr>) args
      else if opt = OPT_NO_CLEANUP then set_opts (\<lambda>opts. opts\<lparr>op_cleanup := False\<rparr>) args
      else if opt = OPT_NO_POWER_ON then set_opts (\<lambda>opts. opts\<lparr>op_power_on := False\<rparr>) args
      else if opt = OPT_PRINT_FPS then set_opts (\<lambda>opts. opts\<lparr>op_start_fps_counter := True\<rparr>) args
      else if opt = OPT_VIDEO_CODEC then
        parse_arg (Some \<circ> parse_video_codec) optarg (\<lambda>v opts. opts\<lparr>op_video_codec := v\<rparr>) args
      else if opt = OPT_AUDIO_CODEC then
        parse_arg (Some \<circ> parse_audio_codec) optarg (\<lambda>v opts. opts\<lparr>op_audio_codec := v\<rparr>) args
      else if opt = OPT_OTG then set_opts (\<lambda>opts. opts\<lparr>op_otg := True\<rparr>) args
      else if opt = OPT_V4L2_SINK then set_opts (\<lambda>opts. opts\<lparr>op_v4l2_device := optarg\<rparr>) args
      else parse_opt_part3 parse_ipv4 opt optarg args)"

definition parse_opt_part1 ::
    "(string \<Rightarrow> u32 option) \<Rightarrow> nat \<Rightarrow> string option \<Rightarrow> scrcpy_cli_args \<Rightarrow> scrcpy_cli_args option option" where
  "parse_opt_part1 parse_ipv4 opt optarg args =
     (if opt = short_opt CHR ''b'' then
        parse_arg (Some \<circ> parse_bit_rate) optarg (\<lambda>v opts. opts\<lparr>op_video_bit_rate := v\<rparr>) args
      else if opt = OPT_AUDIO_BIT_RATE then
        parse_arg (Some \<circ> parse_bit_rate) optarg (\<lambda>v opts. opts\<lparr>op_audio_bit_rate := v\<rparr>) args
      else if opt = OPT_CROP then set_opts (\<lambda>opts. opts\<lparr>op_crop := optarg\<rparr>) args
      else if opt = OPT_DISPLAY_ID then
        parse_arg (Some \<circ> parse_display_id) optarg (\<lambda>v opts. opts\<lparr>op_display_id := v\<rparr>) args
      else if opt = short_opt CHR ''d'' then set_opts (\<lambda>opts. opts\<lparr>op_select_usb := True\<rparr>) args
      else if opt = short_opt CHR ''e'' then set_opts (\<lambda>opts. opts\<lparr>op_select_tcpip := True\<rparr>) args
      else if opt = short_opt CHR ''f'' then set_opts (\<lambda>opts. opts\<lparr>op_fullscreen := True\<rparr>) args
      else if opt = OPT_RECORD_FORMAT then
        parse_arg (Some \<circ> parse_record_format) optarg (\<lambda>v opts. opts\<lparr>op_record_format := v\<rparr>) args
      else if opt = short_opt CHR ''h'' then Some (Some (args\<lparr>ca_help := True\<rparr>))
      else if opt = short_opt CHR ''K'' then
        set_opts (\<lambda>opts. opts\<lparr>op_keyboard_input_mode := SC_KEYBOARD_INPUT_MODE_UHID_OR_AOA\<rparr>) args
      else if opt = OPT_KEYBOARD then
        parse_arg (Some \<circ> parse_keyboard) optarg (\<lambda>v opts. opts\<lparr>op_keyboard_input_mode := v\<rparr>) args
      else if opt = OPT_MAX_FPS then set_opts (\<lambda>opts. opts\<lparr>op_max_fps := optarg\<rparr>) args
      else if opt = short_opt CHR ''m'' then
        parse_arg (Some \<circ> parse_max_size) optarg (\<lambda>v opts. opts\<lparr>op_max_size := v\<rparr>) args
      else if opt = short_opt CHR ''M'' then
        set_opts (\<lambda>opts. opts\<lparr>op_mouse_input_mode := SC_MOUSE_INPUT_MODE_UHID_OR_AOA\<rparr>) args
      else if opt = OPT_MOUSE then
        parse_arg (Some \<circ> parse_mouse) optarg (\<lambda>v opts. opts\<lparr>op_mouse_input_mode := v\<rparr>) args
      else if opt = OPT_MOUSE_BIND then
        parse_arg parse_mouse_bindings optarg (\<lambda>v opts. opts\<lparr>op_mouse_bindings := v\<rparr>) args
      else if opt = OPT_NO_MOUSE_HOVER then set_opts (\<lambda>opts. opts\<lparr>op_mouse_hover := False\<rparr>) args
      else if opt = OPT_CAPTURE_ORIENTATION then
        parse_arg (Some \<circ> parse_capture_orientation) optarg (\<lambda>(ori, lock) opts. opts\<lparr>
           op_capture_orientation := (case ori of None \<Rightarrow> op_capture_orientation opts | Some ori \<Rightarrow> ori),
           op_capture_orientation_lock := lock\<rparr>) args
      else if opt = OPT_TUNNEL_HOST then
        parse_arg (Some \<circ> parse_ip parse_ipv4) optarg (\<lambda>v opts. opts\<lparr>op_tunnel_host := v\<rparr>) args
      else if opt = OPT_TUNNEL_PORT then
        parse_arg (Some \<circ> parse_port) optarg (\<lambda>v opts. opts\<lparr>op_tunnel_port := v\<rparr>) args
      else if opt = OPT_WIFI_MODE then set_opts (\<lambda>opts. opts\<lparr>op_wifi_mode := True\<rparr>) args
      else if opt = OPT_WIFI_PORT then
        parse_arg (Some \<circ> parse_port) optarg (\<lambda>v opts. opts\<lparr>op_wifi_port := v\<rparr>) args
      else if opt = OPT_MULTISTREAM then set_opts (\<lambda>opts. opts\<lparr>op_multistream := True\<rparr>) args
      else if opt = short_opt CHR ''n'' then set_opts (\<lambda>opts. opts\<lparr>op_control := False\<rparr>) args
      else if opt = short_opt CHR ''N'' then
        set_opts (\<lambda>opts. opts\<lparr>op_video_playback := False, op_audio_playback := False\<rparr>) args
      else if opt = OPT_NO_VIDEO_PLAYBACK then set_opts (\<lambda>opts. opts\<lparr>op_video_playback := False\<rparr>) args
      else if opt = OPT_NO_AUDIO_PLAYBACK then set_opts (\<lambda>opts. opts\<lparr>op_audio_playback := False\<rparr>) args
      else if opt = short_opt CHR ''p'' then
        parse_arg parse_port_range optarg (\<lambda>v opts. opts\<lparr>op_port_range := v\<rparr>) args
      else if opt = short_opt CHR ''r'' then set_opts (\<lambda>opts. opts\<lparr>op_record_filename := optarg\<rparr>) args
      else if opt = short_opt CHR ''s'' then set_opts (\<lambda>opts. opts\<lparr>op_serial := optarg\<rparr>) args
      else if opt = short_opt CHR ''S'' then set_opts (\<lambda>opts. opts\<lparr>op_turn_screen_off := True\<rparr>) args
      else if opt = short_opt CHR ''t'' then set_opts (\<lambda>opts. opts\<lparr>op_show_touches := True\<rparr>) args
      else if opt = OPT_ALWAYS_ON_TOP then set_opts (\<lambda>opts. opts\<lparr>op_always_on_top := True\<rparr>) args
      else if opt = short_opt CHR ''v'' then Some (Some (args\<lparr>ca_version := True\<rparr>))
      else if opt = short_opt CHR ''V'' then
        parse_arg (Some \<circ> parse_log_level) optarg (\<lambda>v opts. opts\<lparr>op_log_level := v\<rparr>) args
      else if opt = short_opt CHR ''w'' then set_opts (\<lambda>opts. opts\<lparr>op_stay_awake := True\<rparr>) args
      else if opt = OPT_WINDOW_TITLE then set_opts (\<lambda>opts. opts\<lparr>op_window_title := optarg\<rparr>) args
      else if opt = OPT_WINDOW_X then
        parse_arg (Some \<circ> parse_window_position) optarg (\<lambda>v opts. opts\<lparr>op_window_x := v\<rparr>) args
      else parse_opt_part2 parse_ipv4 opt optarg args)"

section \<open>The consistency of the options\<close>

text \<open>
  Behind the loop, \<open>parse_args_with_getopt\<close> checks the options and completes them, in the order of the following
  functions. \<open>Some None\<close> is that they are refused.
\<close>

type_synonym opts_check = "scrcpy_options \<Rightarrow> scrcpy_options option option"

definition refuse_if :: "bool \<Rightarrow> opts_check" where
  "refuse_if b opts = (if b then Some None else Some (Some opts))"

definition selectors :: "scrcpy_options \<Rightarrow> nat" where
  "selectors opts = of_bool (op_serial opts \<noteq> None) + of_bool (op_tcpip_dst opts \<noteq> None) + of_bool (op_select_tcpip opts) +
     of_bool (op_select_usb opts)"

definition check_selectors :: opts_check where
  "check_selectors opts = do {
     c_assert (op_tcpip opts \<or> op_tcpip_dst opts = None);
     refuse_if (selectors opts > 1) opts
   }"

definition adjust_playback :: opts_check where
  "adjust_playback opts = (
     let opts = (if \<not> op_window opts then opts\<lparr>op_video_playback := False\<rparr> else opts);
         opts = (if \<not> op_video opts then opts\<lparr>op_video_playback := False, op_power_on := False\<rparr> else opts);
         opts = (if \<not> op_audio opts then opts\<lparr>op_audio_playback := False\<rparr> else opts);
         opts = (if op_video opts \<and> \<not> op_video_playback opts \<and> op_record_filename opts = None \<and> op_v4l2_device opts = None
              then opts\<lparr>op_video := False\<rparr> else opts);
         opts = (if op_audio opts \<and> \<not> op_audio_playback opts \<and> op_record_filename opts = None then opts\<lparr>op_audio := False\<rparr> else opts)
     in if \<not> op_video opts \<and> \<not> op_audio opts \<and> \<not> op_control opts \<and> \<not> op_otg opts then Some None
        else Some (Some (if \<not> op_video opts \<and> \<not> op_otg opts then opts\<lparr>op_require_audio := True\<rparr> else opts)))"

definition adjust_audio_buffer :: opts_check where
  "adjust_audio_buffer opts = Some (Some (
     if op_audio_playback opts \<and> op_audio_buffer opts = -1
     then opts\<lparr>op_audio_buffer := (if op_audio_codec opts = SC_CODEC_FLAC then SC_TICK_FROM_MS 120 else SC_TICK_FROM_MS 50)\<rparr>
     else opts))"

definition check_v4l2 :: opts_check where
  "check_v4l2 opts = (
     if op_v4l2_device opts \<noteq> None \<and> (\<not> op_video opts \<or> op_flex_display opts) then Some None
     else
       let opts = (if op_v4l2_device opts \<noteq> None then opts\<lparr>op_downsize_on_error := False\<rparr> else opts)
       in refuse_if (op_v4l2_buffer opts \<noteq> 0 \<and> op_v4l2_device opts = None) opts)"

definition adjust_input_modes :: opts_check where
  "adjust_input_modes opts = (
     if \<not> (op_control opts \<and> op_video_source opts = SC_VIDEO_SOURCE_DISPLAY) then Some (Some opts)
     else
       let opts = (
             if op_keyboard_input_mode opts = SC_KEYBOARD_INPUT_MODE_AUTO
             then opts\<lparr>op_keyboard_input_mode := (if op_otg opts then SC_KEYBOARD_INPUT_MODE_AOA else SC_KEYBOARD_INPUT_MODE_SDK)\<rparr>
             else if op_keyboard_input_mode opts = SC_KEYBOARD_INPUT_MODE_UHID_OR_AOA
             then opts\<lparr>op_keyboard_input_mode := (if op_otg opts then SC_KEYBOARD_INPUT_MODE_AOA else SC_KEYBOARD_INPUT_MODE_UHID)\<rparr>
             else opts)
       in if op_mouse_input_mode opts = SC_MOUSE_INPUT_MODE_SDK \<and> \<not> op_video_playback opts then Some None
          else
            let opts = (
                  if op_mouse_input_mode opts = SC_MOUSE_INPUT_MODE_AUTO
                  then opts\<lparr>op_mouse_input_mode := (if op_otg opts then SC_MOUSE_INPUT_MODE_AOA
                      else if \<not> op_video_playback opts then SC_MOUSE_INPUT_MODE_DISABLED else SC_MOUSE_INPUT_MODE_SDK)\<rparr>
                  else if op_mouse_input_mode opts = SC_MOUSE_INPUT_MODE_UHID_OR_AOA
                  then opts\<lparr>op_mouse_input_mode := (if op_otg opts then SC_MOUSE_INPUT_MODE_AOA else SC_MOUSE_INPUT_MODE_UHID)\<rparr>
                  else opts)
            in Some (Some (
                 if op_gamepad_input_mode opts = SC_GAMEPAD_INPUT_MODE_UHID_OR_AOA
                 then opts\<lparr>op_gamepad_input_mode := (if op_otg opts then SC_GAMEPAD_INPUT_MODE_AOA else SC_GAMEPAD_INPUT_MODE_UHID)\<rparr>
                 else opts)))"

definition default_shortcuts :: sc_mouse_binding_set where
  "default_shortcuts = \<lparr>mb_right_click = SC_MOUSE_BINDING_BACK, mb_middle_click = SC_MOUSE_BINDING_HOME,
     mb_click4 = SC_MOUSE_BINDING_APP_SWITCH, mb_click5 = SC_MOUSE_BINDING_EXPAND_NOTIFICATION_PANEL\<rparr>"

definition forward_clicks :: sc_mouse_binding_set where
  "forward_clicks = \<lparr>mb_right_click = SC_MOUSE_BINDING_CLICK, mb_middle_click = SC_MOUSE_BINDING_CLICK,
     mb_click4 = SC_MOUSE_BINDING_CLICK, mb_click5 = SC_MOUSE_BINDING_CLICK\<rparr>"

definition adjust_mouse_bindings :: opts_check where
  "adjust_mouse_bindings opts = (
     let mb = op_mouse_bindings opts
     in if mb_right_click (mb_pri mb) = SC_MOUSE_BINDING_AUTO then do {
          c_assert (mb_middle_click (mb_pri mb) = SC_MOUSE_BINDING_AUTO);
          c_assert (mb_click4 (mb_pri mb) = SC_MOUSE_BINDING_AUTO);
          c_assert (mb_click5 (mb_pri mb) = SC_MOUSE_BINDING_AUTO);
          c_assert (mb_right_click (mb_sec mb) = SC_MOUSE_BINDING_AUTO);
          c_assert (mb_middle_click (mb_sec mb) = SC_MOUSE_BINDING_AUTO);
          c_assert (mb_click4 (mb_sec mb) = SC_MOUSE_BINDING_AUTO);
          c_assert (mb_click5 (mb_sec mb) = SC_MOUSE_BINDING_AUTO);
          Some (Some (opts\<lparr>op_mouse_bindings :=
            if op_mouse_input_mode opts = SC_MOUSE_INPUT_MODE_SDK
            then \<lparr>mb_pri = default_shortcuts, mb_sec = forward_clicks\<rparr>
            else \<lparr>mb_pri = forward_clicks, mb_sec = default_shortcuts\<rparr>\<rparr>))
        }
        else Some (Some opts))"

definition check_new_display :: opts_check where
  "check_new_display opts = (
     if op_new_display opts \<noteq> None \<and> (op_video_source opts \<noteq> SC_VIDEO_SOURCE_DISPLAY \<or> \<not> op_video opts) then Some None
     else Some (Some (
       if op_render_fit opts = SC_RENDER_FIT_AUTO
       then opts\<lparr>op_render_fit := (if op_flex_display opts then SC_RENDER_FIT_UNSCALED else SC_RENDER_FIT_LETTERBOX)\<rparr>
       else opts)))"

definition check_otg :: opts_check where
  "check_otg opts = (
     let kmode = op_keyboard_input_mode opts;
         mmode = op_mouse_input_mode opts;
         gmode = op_gamepad_input_mode opts
     in refuse_if (op_otg opts \<and>
          (\<not> op_control opts \<or>
           kmode \<noteq> SC_KEYBOARD_INPUT_MODE_AOA \<and> kmode \<noteq> SC_KEYBOARD_INPUT_MODE_DISABLED \<or>
           mmode \<noteq> SC_MOUSE_INPUT_MODE_AOA \<and> mmode \<noteq> SC_MOUSE_INPUT_MODE_DISABLED \<or>
           gmode \<noteq> SC_GAMEPAD_INPUT_MODE_AOA \<and> gmode \<noteq> SC_GAMEPAD_INPUT_MODE_DISABLED \<or>
           kmode = SC_KEYBOARD_INPUT_MODE_DISABLED \<and> mmode = SC_MOUSE_INPUT_MODE_DISABLED \<and>
             gmode = SC_GAMEPAD_INPUT_MODE_DISABLED)) opts)"

definition check_sdk_only :: opts_check where
  "check_sdk_only opts = refuse_if (
     op_keyboard_input_mode opts \<noteq> SC_KEYBOARD_INPUT_MODE_SDK \<and>
       (op_key_inject_mode opts = SC_KEY_INJECT_MODE_TEXT \<or> op_key_inject_mode opts = SC_KEY_INJECT_MODE_RAW \<or>
        \<not> op_forward_key_repeat opts) \<or>
     op_mouse_input_mode opts \<noteq> SC_MOUSE_INPUT_MODE_SDK \<and> \<not> op_mouse_hover opts) opts"

definition adjust_connection :: opts_check where
  "adjust_connection opts = (
     let opts = (if (op_tunnel_host opts \<noteq> 0 \<or> op_tunnel_port opts \<noteq> 0) \<and> \<not> op_force_adb_forward opts \<and> \<not> op_wifi_mode opts
              then opts\<lparr>op_force_adb_forward := True\<rparr> else opts)
     in if op_wifi_mode opts \<and> op_tunnel_host opts = 0 then Some None
        else
          let opts = (if op_wifi_mode opts \<and> op_wifi_port opts = 0 then opts\<lparr>op_wifi_port := 5000\<rparr> else opts)
          in refuse_if (op_multistream opts \<and> \<not> op_wifi_mode opts) opts)"

definition check_camera :: opts_check where
  "check_camera opts = (
     if op_video_source opts = SC_VIDEO_SOURCE_CAMERA then
       (if op_display_id opts \<noteq> 0 then Some None
        else if op_display_ime_policy opts \<noteq> SC_DISPLAY_IME_POLICY_UNDEFINED then Some None
        else if op_camera_id opts \<noteq> None \<and> op_camera_facing opts \<noteq> SC_CAMERA_FACING_ANY then Some None
        else if op_camera_size opts \<noteq> None \<and> (op_max_size opts \<noteq> 0 \<or> op_camera_ar opts \<noteq> None) then Some None
        else if op_camera_high_speed opts \<and> op_camera_fps opts = 0 then Some None
        else Some (Some (
          if op_control opts
          then opts\<lparr>op_keyboard_input_mode := SC_KEYBOARD_INPUT_MODE_DISABLED,
            op_mouse_input_mode := SC_MOUSE_INPUT_MODE_DISABLED, op_gamepad_input_mode := SC_GAMEPAD_INPUT_MODE_DISABLED\<rparr>
          else opts)))
     else refuse_if (op_camera_id opts \<noteq> None \<or> op_camera_ar opts \<noteq> None \<or> op_camera_facing opts \<noteq> SC_CAMERA_FACING_ANY \<or>
       op_camera_fps opts \<noteq> 0 \<or> op_camera_high_speed opts \<or> op_camera_size opts \<noteq> None) opts)"

definition check_display :: opts_check where
  "check_display opts = (
     if op_display_id opts \<noteq> 0 \<and> op_new_display opts \<noteq> None then Some None
     else if op_flex_display opts \<and>
       ((op_video_source opts \<noteq> SC_VIDEO_SOURCE_DISPLAY \<or> op_new_display opts = None) \<or> \<not> op_control opts \<or> op_crop opts \<noteq> None \<or>
        op_window_width opts \<noteq> 0 \<or> op_window_height opts \<noteq> 0) then Some None
     else
       let opts = (if op_flex_display opts then opts\<lparr>op_window_aspect_ratio_lock := False\<rparr> else opts)
       in refuse_if (op_display_ime_policy opts \<noteq> SC_DISPLAY_IME_POLICY_UNDEFINED \<and> op_display_id opts = 0 \<and>
            op_new_display opts = None) opts)"

definition adjust_audio_source :: opts_check where
  "adjust_audio_source opts = (
     let opts = (if op_audio opts \<and> op_audio_source opts = SC_AUDIO_SOURCE_AUTO
              then opts\<lparr>op_audio_source := (if op_video_source opts = SC_VIDEO_SOURCE_DISPLAY
                then (if op_audio_dup opts then SC_AUDIO_SOURCE_PLAYBACK else SC_AUDIO_SOURCE_OUTPUT)
                else SC_AUDIO_SOURCE_MIC)\<rparr>
              else opts)
     in refuse_if (op_audio_dup opts \<and> (\<not> op_audio opts \<or> op_audio_source opts \<noteq> SC_AUDIO_SOURCE_PLAYBACK)) opts)"

definition check_record :: opts_check where
  "check_record opts = (case op_record_filename opts of
     None \<Rightarrow> refuse_if (op_record_format opts \<noteq> SC_RECORD_FORMAT_AUTO) opts
   | Some filename \<Rightarrow>
       if \<not> op_video opts \<and> \<not> op_audio opts then Some None
       else
         let opts = (if op_record_format opts = SC_RECORD_FORMAT_AUTO then opts\<lparr>op_record_format := guess_record_format filename\<rparr> else opts);
             fmt = op_record_format opts;
             codec = op_audio_codec opts
         in if fmt = SC_RECORD_FORMAT_AUTO then Some None
            else if op_record_orientation opts \<noteq> SC_ORIENTATION_0 \<and> sc_orientation_is_mirror (op_record_orientation opts) then Some None
            else if op_video opts \<and> sc_record_format_is_audio_only fmt then Some None
            else if fmt = SC_RECORD_FORMAT_OPUS \<and> codec \<noteq> SC_CODEC_OPUS then Some None
            else if fmt = SC_RECORD_FORMAT_AAC \<and> codec \<noteq> SC_CODEC_AAC then Some None
            else if fmt = SC_RECORD_FORMAT_FLAC \<and> codec \<noteq> SC_CODEC_FLAC then Some None
            else if fmt = SC_RECORD_FORMAT_WAV \<and> codec \<noteq> SC_CODEC_RAW then Some None
            else refuse_if ((fmt = SC_RECORD_FORMAT_MP4 \<or> fmt = SC_RECORD_FORMAT_M4A) \<and> codec = SC_CODEC_RAW) opts)"

definition check_control :: opts_check where
  "check_control opts = refuse_if (\<not> op_control opts \<and>
     (op_turn_screen_off opts \<or> op_stay_awake opts \<or> op_show_touches opts \<or> op_power_off_on_close opts \<or> op_start_app opts \<noteq> None \<or>
      op_keep_active opts)) opts"

definition check_otg_options :: opts_check where
  "check_otg_options opts = (
     let opts = (if op_start_fps_counter opts \<and> \<not> op_video_playback opts then opts\<lparr>op_start_fps_counter := False\<rparr> else opts)
     in refuse_if (op_otg opts \<and>
          (op_record_filename opts \<noteq> None \<or> op_turn_screen_off opts \<or> op_stay_awake opts \<or> op_show_touches opts \<or>
           op_power_off_on_close opts \<or> op_display_id opts \<noteq> 0 \<or> op_v4l2_device opts \<noteq> None)) opts)"

definition opts_checks :: "opts_check list" where
  "opts_checks = [check_selectors, adjust_playback, adjust_audio_buffer, check_v4l2, adjust_input_modes,
     adjust_mouse_bindings, check_new_display, check_otg, check_sdk_only, adjust_connection, check_camera, check_display,
     adjust_audio_source, check_record, check_control, check_otg_options]"

fun run_checks :: "opts_check list \<Rightarrow> opts_check" where
  "run_checks [] opts = Some (Some opts)"
| "run_checks (check # checks) opts = do {
     r \<leftarrow> check opts;
     case r of None \<Rightarrow> Some None | Some opts' \<Rightarrow> run_checks checks opts'
   }"

section \<open>The command line\<close>

text \<open>
  \<open>getopt_long\<close> is a parameter of the model: \<open>items\<close> are the options that it returns, each with its argument, and
  \<open>extra\<close> is whether an argument is left that is no option. The result has the arguments as they have been stored
  even when the command line is refused, for \<open>pause_on_exit\<close>.
\<close>

fun getopt_loop ::
    "(string \<Rightarrow> u32 option) \<Rightarrow> (nat \<times> string option) list \<Rightarrow> scrcpy_cli_args \<Rightarrow> (bool \<times> scrcpy_cli_args) option" where
  "getopt_loop parse_ipv4 [] args = Some (True, args)"
| "getopt_loop parse_ipv4 ((opt, optarg) # items) args = do {
     r \<leftarrow> parse_opt_part1 parse_ipv4 opt optarg args;
     case r of None \<Rightarrow> Some (False, args) | Some args' \<Rightarrow> getopt_loop parse_ipv4 items args'
   }"

definition parse_args_with_getopt ::
    "(string \<Rightarrow> u32 option) \<Rightarrow> (nat \<times> string option) list \<Rightarrow> bool \<Rightarrow> scrcpy_cli_args \<Rightarrow>
      (bool \<times> scrcpy_cli_args) option" where
  "parse_args_with_getopt parse_ipv4 items extra args = do {
     (ok, args) \<leftarrow> getopt_loop parse_ipv4 items args;
     if \<not> ok \<or> extra then Some (False, args)
     else do {
       r \<leftarrow> run_checks opts_checks (ca_opts args);
       case r of None \<Rightarrow> Some (False, args) | Some opts \<Rightarrow> Some (True, args\<lparr>ca_opts := opts\<rparr>)
     }
   }"

text \<open>The arguments are those behind \<open>argv[0]\<close>.\<close>

fun pause_on_exit_of :: "string list \<Rightarrow> sc_pause_on_exit" where
  "pause_on_exit_of [] = SC_PAUSE_ON_EXIT_UNDEFINED"
| "pause_on_exit_of (arg # args) =
     (if take 15 arg = ''--pause-on-exit'' then
        (if length arg = 15 then SC_PAUSE_ON_EXIT_TRUE
         else if arg ! 15 \<noteq> CHR ''='' then SC_PAUSE_ON_EXIT_UNDEFINED
         else
           let v = drop 16 arg
           in if v = ''true'' then SC_PAUSE_ON_EXIT_TRUE
              else if v = ''if-error'' then SC_PAUSE_ON_EXIT_IF_ERROR
              else if v = ''false'' then SC_PAUSE_ON_EXIT_FALSE
              else SC_PAUSE_ON_EXIT_UNDEFINED)
      else pause_on_exit_of args)"

definition sc_get_pause_on_exit :: "string list \<Rightarrow> sc_pause_on_exit" where
  "sc_get_pause_on_exit argv = pause_on_exit_of (rev argv)"

definition scrcpy_parse_args ::
    "(string \<Rightarrow> u32 option) \<Rightarrow> bool \<Rightarrow> (nat \<times> string option) list \<Rightarrow> bool \<Rightarrow> string list \<Rightarrow> scrcpy_cli_args \<Rightarrow>
      (bool \<times> scrcpy_cli_args) option" where
  "scrcpy_parse_args parse_ipv4 adapter_ok items extra argv args =
     (if \<not> adapter_ok then Some (False, args)
      else do {
        (ret, args) \<leftarrow> parse_args_with_getopt parse_ipv4 items extra args;
        let args = (if \<not> ret \<and> ca_pause_on_exit args = SC_PAUSE_ON_EXIT_UNDEFINED
                    then args\<lparr>ca_pause_on_exit := sc_get_pause_on_exit argv\<rparr> else args);
        let args = (if ca_pause_on_exit args = SC_PAUSE_ON_EXIT_UNDEFINED
                    then args\<lparr>ca_pause_on_exit := SC_PAUSE_ON_EXIT_FALSE\<rparr> else args);
        c_assert (ca_pause_on_exit args \<noteq> SC_PAUSE_ON_EXIT_UNDEFINED);
        Some (ret, args)
      })"

end
