(* ===== verification/Sc_Network.thy ===== *)
theory Sc_Network
  imports Sc_Prelude
begin

text \<open>
  Sockets as the client uses them: \<open>util/intr.c\<close>, by which another thread interrupts a blocking call, and the
  interruptible calls of \<open>util/net_intr.c\<close>. The system is a set of open sockets; what a call answers, and when
  another thread interrupts, are arguments, by the number of the call.
\<close>

section \<open>Interruption\<close>

record sc_intr =
  intr_socket :: "nat option"
  intr_process :: "nat option"
  intr_interrupted :: bool

definition sc_intr_init :: "bool \<Rightarrow> sc_intr option" where
  "sc_intr_init mutex_ok =
     (if \<not> mutex_ok then None
      else Some \<lparr>intr_socket = None, intr_process = None, intr_interrupted = False\<rparr>)"

definition sc_intr_set_socket :: "sc_intr \<Rightarrow> nat option \<Rightarrow> (bool \<times> sc_intr) option" where
  "sc_intr_set_socket intr socket = do {
     c_assert (intr_process intr = None);
     let interrupted = intr_interrupted intr;
     let intr = (if \<not> interrupted then intr\<lparr>intr_socket := socket\<rparr> else intr);
     Some (\<not> interrupted, intr)
   }"

definition sc_intr_set_process :: "sc_intr \<Rightarrow> nat option \<Rightarrow> (bool \<times> sc_intr) option" where
  "sc_intr_set_process intr pid = do {
     c_assert (intr_socket intr = None);
     let interrupted = intr_interrupted intr;
     let intr = (if \<not> interrupted then intr\<lparr>intr_process := pid\<rparr> else intr);
     Some (\<not> interrupted, intr)
   }"

text \<open>The result has the socket to interrupt and the process to terminate.\<close>

definition sc_intr_interrupt :: "sc_intr \<Rightarrow> (sc_intr \<times> nat option \<times> nat option) option" where
  "sc_intr_interrupt intr = do {
     let intr = intr\<lparr>intr_interrupted := True\<rparr>;
     c_assert (intr_socket intr = None \<or> intr_process intr = None);
     Some (intr\<lparr>intr_socket := None, intr_process := None\<rparr>, intr_socket intr, intr_process intr)
   }"

definition sc_intr_is_interrupted :: "sc_intr \<Rightarrow> bool" where
  "sc_intr_is_interrupted intr = intr_interrupted intr"

definition sc_intr_destroy :: "sc_intr \<Rightarrow> unit option" where
  "sc_intr_destroy intr = do {
     c_assert (intr_socket intr = None);
     c_assert (intr_process intr = None);
     Some ()
   }"

section \<open>The system\<close>

record net_world =
  nw_open :: "nat set"
  nw_next :: nat
  nw_peer :: "nat \<Rightarrow> (u32 \<times> u16) option"
  nw_intr :: sc_intr
  nw_time :: nat

text \<open>
  The answers, by the number of the call: whether another thread interrupts before the call, and while it blocks; what
  is received; whether an adb command succeeds; whether the server is stopped before a sleep, and its wake-ups.
\<close>

record net_env =
  ne_before :: "nat \<Rightarrow> bool"
  ne_during :: "nat \<Rightarrow> bool"
  ne_socket :: "nat \<Rightarrow> bool"
  ne_connect :: "nat \<Rightarrow> bool"
  ne_listen :: "nat \<Rightarrow> bool"
  ne_accept :: "nat \<Rightarrow> bool"
  ne_recv :: "nat \<Rightarrow> bytes"
  ne_adb :: "nat \<Rightarrow> bool"
  ne_wakes :: "nat \<Rightarrow> bool \<times> (bool \<times> bool) list"

definition tick :: "net_world \<Rightarrow> net_world" where
  "tick w = w\<lparr>nw_time := Suc (nw_time w)\<rparr>"

text \<open>A thread that interrupts: the blocking call on the socket, if any, returns.\<close>

definition maybe_interrupt :: "bool \<Rightarrow> net_world \<Rightarrow> net_world option" where
  "maybe_interrupt b w =
     (if \<not> b then Some w
      else do {
        (intr, socket, process) \<leftarrow> sc_intr_interrupt (nw_intr w);
        Some (w\<lparr>nw_intr := intr\<rparr>)
      })"

definition net_socket :: "net_env \<Rightarrow> net_world \<Rightarrow> nat option \<times> net_world" where
  "net_socket env w =
     (if ne_socket env (nw_time w)
      then (Some (nw_next w), tick (w\<lparr>nw_open := insert (nw_next w) (nw_open w), nw_next := Suc (nw_next w)\<rparr>))
      else (None, tick w))"

text \<open>Closing a socket that is not open aborts.\<close>

definition net_close :: "nat \<Rightarrow> net_world \<Rightarrow> net_world option" where
  "net_close socket w = do {
     c_assert (socket \<in> nw_open w);
     Some (tick (w\<lparr>nw_open := nw_open w - {socket}\<rparr>))
   }"

text \<open>
  The frame of an interruptible call: the socket is registered, the call blocks, the socket is unregistered. The
  result tells whether the call was made.
\<close>

definition intr_call :: "net_env \<Rightarrow> nat \<Rightarrow> net_world \<Rightarrow> (bool \<times> net_world) option" where
  "intr_call env socket w = do {
     c_assert (socket \<in> nw_open w);
     w \<leftarrow> maybe_interrupt (ne_before env (nw_time w)) w;
     (ok, intr) \<leftarrow> sc_intr_set_socket (nw_intr w) (Some socket);
     let w = w\<lparr>nw_intr := intr\<rparr>;
     if \<not> ok then Some (False, w)
     else do {
       w \<leftarrow> maybe_interrupt (ne_during env (nw_time w)) w;
       (_, intr) \<leftarrow> sc_intr_set_socket (nw_intr w) None;
       Some (True, w\<lparr>nw_intr := intr\<rparr>)
     }
   }"

definition net_connect_intr :: "net_env \<Rightarrow> nat \<Rightarrow> u32 \<Rightarrow> u16 \<Rightarrow> net_world \<Rightarrow> (bool \<times> net_world) option" where
  "net_connect_intr env socket addr port w = do {
     (called, w) \<leftarrow> intr_call env socket w;
     if called \<and> ne_connect env (nw_time w)
     then Some (True, tick (w\<lparr>nw_peer := (nw_peer w)(socket := Some (addr, port))\<rparr>))
     else Some (False, tick w)
   }"

definition net_listen_intr :: "net_env \<Rightarrow> nat \<Rightarrow> net_world \<Rightarrow> (bool \<times> net_world) option" where
  "net_listen_intr env server_socket w = do {
     (called, w) \<leftarrow> intr_call env server_socket w;
     Some (called \<and> ne_listen env (nw_time w), tick w)
   }"

definition net_accept_intr :: "net_env \<Rightarrow> nat \<Rightarrow> net_world \<Rightarrow> (nat option \<times> net_world) option" where
  "net_accept_intr env server_socket w = do {
     (called, w) \<leftarrow> intr_call env server_socket w;
     if called \<and> ne_accept env (nw_time w)
     then Some (Some (nw_next w), tick (w\<lparr>nw_open := insert (nw_next w) (nw_open w), nw_next := Suc (nw_next w)\<rparr>))
     else Some (None, tick w)
   }"

text \<open>Receiving at most, and exactly, \<open>len\<close> bytes; an interrupted or failed call gives none.\<close>

definition net_recv_intr :: "net_env \<Rightarrow> nat \<Rightarrow> nat \<Rightarrow> net_world \<Rightarrow> (bytes \<times> net_world) option" where
  "net_recv_intr env socket len w = do {
     (called, w) \<leftarrow> intr_call env socket w;
     Some (if called then take len (ne_recv env (nw_time w)) else [], tick w)
   }"

definition net_recv_all_intr :: "net_env \<Rightarrow> nat \<Rightarrow> nat \<Rightarrow> net_world \<Rightarrow> (bytes \<times> net_world) option" where
  "net_recv_all_intr env socket len w = do {
     (called, w) \<leftarrow> intr_call env socket w;
     Some (if called then take len (ne_recv env (nw_time w)) else [], tick w)
   }"

section \<open>What the calls keep\<close>

text \<open>Nothing is registered between two calls, and the sockets to come are fresh.\<close>

definition net_ok :: "net_world \<Rightarrow> bool" where
  "net_ok w \<longleftrightarrow> intr_socket (nw_intr w) = None \<and> intr_process (nw_intr w) = None \<and> (\<forall>s \<in> nw_open w. s < nw_next w)"

lemma maybe_interrupt_ok:
  assumes "intr_process (nw_intr w) = None"
  shows "\<exists>w'. maybe_interrupt b w = Some w' \<and> nw_open w' = nw_open w \<and> nw_next w' = nw_next w \<and>
    nw_peer w' = nw_peer w \<and> nw_time w' = nw_time w \<and> intr_process (nw_intr w') = None \<and>
    (if b then intr_interrupted (nw_intr w') \<and> intr_socket (nw_intr w') = None else w' = w)"
  using assms by (auto simp: maybe_interrupt_def sc_intr_interrupt_def)

text \<open>An interruption ends the call or prevents it, and in all cases the socket is not registered afterwards.\<close>

lemma intr_call_ok:
  assumes "net_ok w" "socket \<in> nw_open w"
  shows "\<exists>called w'. intr_call env socket w = Some (called, w') \<and> net_ok w' \<and> nw_open w' = nw_open w \<and>
    nw_next w' = nw_next w \<and> nw_peer w' = nw_peer w \<and>
    (called \<longleftrightarrow> \<not> ne_before env (nw_time w) \<and> \<not> intr_interrupted (nw_intr w)) \<and>
    (intr_interrupted (nw_intr w') \<longleftrightarrow> intr_interrupted (nw_intr w) \<or> ne_before env (nw_time w) \<or>
      called \<and> ne_during env (nw_time w))"
proof -
  have p: "intr_process (nw_intr w) = None" using assms(1) by (simp add: net_ok_def)
  then show ?thesis using assms
    by (cases "ne_before env (nw_time w)"; cases "intr_interrupted (nw_intr w)"; cases "ne_during env (nw_time w)")
      (auto simp: intr_call_def maybe_interrupt_def sc_intr_interrupt_def sc_intr_set_socket_def net_ok_def Let_def)
qed

lemma net_connect_ok:
  assumes "net_ok w" "socket \<in> nw_open w"
  shows "\<exists>ok w'. net_connect_intr env socket addr port w = Some (ok, w') \<and> net_ok w' \<and> nw_open w' = nw_open w \<and>
    nw_next w' = nw_next w \<and>
    nw_peer w' = (if ok then (nw_peer w)(socket := Some (addr, port)) else nw_peer w)"
proof -
  from intr_call_ok [OF assms, of env] obtain called w1 where
    c: "intr_call env socket w = Some (called, w1)" "net_ok w1" "nw_open w1 = nw_open w" "nw_next w1 = nw_next w"
      "nw_peer w1 = nw_peer w" by blast
  then show ?thesis
    by (cases "called \<and> ne_connect env (nw_time w1)") (auto simp: net_connect_intr_def net_ok_def tick_def)
qed

lemma net_listen_ok:
  assumes "net_ok w" "socket \<in> nw_open w"
  shows "\<exists>ok w'. net_listen_intr env socket w = Some (ok, w') \<and> net_ok w' \<and> nw_open w' = nw_open w \<and>
    nw_next w' = nw_next w \<and> nw_peer w' = nw_peer w"
proof -
  from intr_call_ok [OF assms, of env] obtain called w1 where
    "intr_call env socket w = Some (called, w1)" "net_ok w1" "nw_open w1 = nw_open w" "nw_next w1 = nw_next w"
      "nw_peer w1 = nw_peer w" by blast
  then show ?thesis by (auto simp: net_listen_intr_def net_ok_def tick_def)
qed

lemma net_accept_ok:
  assumes "net_ok w" "socket \<in> nw_open w"
  shows "\<exists>r w'. net_accept_intr env socket w = Some (r, w') \<and> net_ok w' \<and> nw_peer w' = nw_peer w \<and>
    (case r of None \<Rightarrow> nw_open w' = nw_open w \<and> nw_next w' = nw_next w
     | Some s \<Rightarrow> s = nw_next w \<and> nw_open w' = insert s (nw_open w) \<and> nw_next w' = Suc s)"
proof -
  from intr_call_ok [OF assms, of env] obtain called w1 where
    "intr_call env socket w = Some (called, w1)" "net_ok w1" "nw_open w1 = nw_open w" "nw_next w1 = nw_next w"
      "nw_peer w1 = nw_peer w" by blast
  then show ?thesis
    by (cases "called \<and> ne_accept env (nw_time w1)") (auto simp: net_accept_intr_def net_ok_def tick_def less_Suc_eq)
qed

lemma net_recv_ok:
  assumes "net_ok w" "socket \<in> nw_open w"
  shows "\<exists>bs w'. net_recv_intr env socket len w = Some (bs, w') \<and> length bs \<le> len \<and> net_ok w' \<and> nw_open w' = nw_open w \<and>
    nw_next w' = nw_next w \<and> nw_peer w' = nw_peer w"
    "\<exists>bs w'. net_recv_all_intr env socket len w = Some (bs, w') \<and> length bs \<le> len \<and> net_ok w' \<and> nw_open w' = nw_open w \<and>
    nw_next w' = nw_next w \<and> nw_peer w' = nw_peer w"
proof -
  from intr_call_ok [OF assms, of env] obtain called w1 where
    "intr_call env socket w = Some (called, w1)" "net_ok w1" "nw_open w1 = nw_open w" "nw_next w1 = nw_next w"
      "nw_peer w1 = nw_peer w" by blast
  then show
    "\<exists>bs w'. net_recv_intr env socket len w = Some (bs, w') \<and> length bs \<le> len \<and> net_ok w' \<and> nw_open w' = nw_open w \<and>
      nw_next w' = nw_next w \<and> nw_peer w' = nw_peer w"
    "\<exists>bs w'. net_recv_all_intr env socket len w = Some (bs, w') \<and> length bs \<le> len \<and> net_ok w' \<and> nw_open w' = nw_open w \<and>
      nw_next w' = nw_next w \<and> nw_peer w' = nw_peer w"
    by (auto simp: net_recv_intr_def net_recv_all_intr_def net_ok_def tick_def)
qed

lemma net_socket_ok:
  assumes "net_ok w"
  shows "\<exists>r w'. net_socket env w = (r, w') \<and> net_ok w' \<and> nw_peer w' = nw_peer w \<and>
    (case r of None \<Rightarrow> nw_open w' = nw_open w \<and> nw_next w' = nw_next w
     | Some s \<Rightarrow> s = nw_next w \<and> nw_open w' = insert s (nw_open w) \<and> nw_next w' = Suc s)"
  using assms by (auto simp: net_socket_def net_ok_def tick_def less_Suc_eq)

lemma net_close_ok:
  assumes "net_ok w" "s \<in> nw_open w"
  shows "\<exists>w'. net_close s w = Some w' \<and> net_ok w' \<and> nw_open w' = nw_open w - {s} \<and> nw_next w' = nw_next w \<and>
    nw_peer w' = nw_peer w"
  using assms by (auto simp: net_close_def net_ok_def tick_def)

end
