(* ===== verification/Sc_Adb_Tunnel.thy ===== *)
theory Sc_Adb_Tunnel
  imports Sc_Network Sc_Server_Params
begin

text \<open>
  \<open>adb/adb_tunnel.c\<close>: the tunnel through adb, either from the device to a socket on which the client listens
  (\<open>adb reverse\<close>) or from a port of the client to the device (\<open>adb forward\<close>). Running adb is an answer.
\<close>

record sc_adb_tunnel =
  tn_enabled :: bool
  tn_forward :: bool
  tn_server_socket :: "nat option"
  tn_local_port :: u16

definition sc_adb_tunnel_init :: sc_adb_tunnel where
  "sc_adb_tunnel_init = \<lparr>tn_enabled = False, tn_forward = False, tn_server_socket = None, tn_local_port = 0\<rparr>"

definition adb_exec :: "net_env \<Rightarrow> net_world \<Rightarrow> (bool \<times> net_world) option" where
  "adb_exec env w = do {
     w \<leftarrow> maybe_interrupt (ne_before env (nw_time w)) w;
     Some (ne_adb env (nw_time w), tick w)
   }"

definition listen_on_port :: "net_env \<Rightarrow> nat \<Rightarrow> net_world \<Rightarrow> (bool \<times> net_world) option" where
  "listen_on_port env socket w = net_listen_intr env socket w"

section \<open>Opening\<close>

lemma next_port: "(port :: u16) < last_port \<Longrightarrow> unat (port + 1) = unat port + 1"
proof -
  assume "port < last_port"
  then have "unat port + 1 < 2 ^ 16" using unsigned_less [of last_port, where 'a = nat] by (simp add: word_less_nat_alt)
  then show ?thesis by (simp add: unat_plus_if')
qed

function (sequential) enable_tunnel_reverse_any_port ::
    "net_env \<Rightarrow> sc_port_range \<Rightarrow> sc_adb_tunnel \<Rightarrow> u16 \<Rightarrow> net_world \<Rightarrow> (bool \<times> sc_adb_tunnel \<times> net_world) option" where
  "enable_tunnel_reverse_any_port env port_range tunnel port w = do {
     (ok, w) \<leftarrow> adb_exec env w;
     if \<not> ok then Some (False, tunnel, w)
     else do {
       let (server_socket, w) = net_socket env w;
       (listening, w) \<leftarrow> (case server_socket of
           None \<Rightarrow> Some (False, w)
         | Some s \<Rightarrow> do {
             (ok, w) \<leftarrow> listen_on_port env s w;
             if ok then Some (True, w)
             else do {
               w \<leftarrow> net_close s w;
               Some (False, w)
             }
           });
       if listening then
         Some (True, tunnel\<lparr>tn_server_socket := server_socket, tn_local_port := port, tn_enabled := True\<rparr>, w)
       else if sc_intr_is_interrupted (nw_intr w) then Some (False, tunnel, w)
       else do {
         (_, w) \<leftarrow> adb_exec env w;
         if port < pr_last port_range then enable_tunnel_reverse_any_port env port_range tunnel (port + 1) w
         else Some (False, tunnel, w)
       }
     }
   }"
  by pat_completeness auto

termination
  by (relation "measure (\<lambda>(env, port_range, tunnel, port, w). unat (pr_last port_range) - unat port)")
    (simp_all add: next_port word_less_nat_alt)

function (sequential) enable_tunnel_forward_loop ::
    "net_env \<Rightarrow> sc_port_range \<Rightarrow> sc_adb_tunnel \<Rightarrow> u16 \<Rightarrow> net_world \<Rightarrow> (bool \<times> sc_adb_tunnel \<times> net_world) option" where
  "enable_tunnel_forward_loop env port_range tunnel port w = do {
     (ok, w) \<leftarrow> adb_exec env w;
     if ok then Some (True, tunnel\<lparr>tn_local_port := port, tn_enabled := True\<rparr>, w)
     else if sc_intr_is_interrupted (nw_intr w) then Some (False, tunnel, w)
     else if port < pr_last port_range then enable_tunnel_forward_loop env port_range tunnel (port + 1) w
     else Some (False, tunnel, w)
   }"
  by pat_completeness auto

termination
  by (relation "measure (\<lambda>(env, port_range, tunnel, port, w). unat (pr_last port_range) - unat port)")
    (simp_all add: next_port word_less_nat_alt)

declare enable_tunnel_reverse_any_port.simps [simp del] enable_tunnel_forward_loop.simps [simp del]

definition enable_tunnel_forward_any_port ::
    "net_env \<Rightarrow> sc_port_range \<Rightarrow> sc_adb_tunnel \<Rightarrow> net_world \<Rightarrow> (bool \<times> sc_adb_tunnel \<times> net_world) option" where
  "enable_tunnel_forward_any_port env port_range tunnel w =
     enable_tunnel_forward_loop env port_range (tunnel\<lparr>tn_forward := True\<rparr>) (pr_first port_range) w"

definition sc_adb_tunnel_open ::
    "net_env \<Rightarrow> sc_port_range \<Rightarrow> bool \<Rightarrow> sc_adb_tunnel \<Rightarrow> net_world \<Rightarrow> (bool \<times> sc_adb_tunnel \<times> net_world) option" where
  "sc_adb_tunnel_open env port_range force_adb_forward tunnel w = do {
     c_assert (\<not> tn_enabled tunnel);
     if \<not> force_adb_forward then do {
       (ok, tunnel, w) \<leftarrow> enable_tunnel_reverse_any_port env port_range tunnel (pr_first port_range) w;
       if ok then Some (True, tunnel, w)
       else enable_tunnel_forward_any_port env port_range tunnel w
     }
     else enable_tunnel_forward_any_port env port_range tunnel w
   }"

section \<open>Closing\<close>

definition sc_adb_tunnel_close ::
    "net_env \<Rightarrow> sc_adb_tunnel \<Rightarrow> net_world \<Rightarrow> (bool \<times> sc_adb_tunnel \<times> net_world) option" where
  "sc_adb_tunnel_close env tunnel w = do {
     c_assert (tn_enabled tunnel);
     (ret, w) \<leftarrow> (if tn_forward tunnel then adb_exec env w
       else do {
         (ret, w) \<leftarrow> adb_exec env w;
         s \<leftarrow> tn_server_socket tunnel;
         w \<leftarrow> net_close s w;
         Some (ret, w)
       });
     Some (ret, tunnel\<lparr>tn_enabled := False\<rparr>, w)
   }"

section \<open>What they keep\<close>

lemma adb_exec_ok:
  assumes "net_ok w"
  shows "\<exists>ok w'. adb_exec env w = Some (ok, w') \<and> net_ok w' \<and> nw_open w' = nw_open w \<and> nw_next w' = nw_next w \<and>
    nw_peer w' = nw_peer w"
proof -
  have "intr_process (nw_intr w) = None" using assms by (simp add: net_ok_def)
  from maybe_interrupt_ok [OF this, of "ne_before env (nw_time w)"] obtain w1 where
    "maybe_interrupt (ne_before env (nw_time w)) w = Some w1" "nw_open w1 = nw_open w" "nw_next w1 = nw_next w"
    "nw_peer w1 = nw_peer w" "intr_process (nw_intr w1) = None"
    "if ne_before env (nw_time w) then intr_interrupted (nw_intr w1) \<and> intr_socket (nw_intr w1) = None else w1 = w"
    by blast
  with assms show ?thesis by (auto simp: adb_exec_def net_ok_def tick_def split: if_splits)
qed

text \<open>The sockets of a tunnel: the one on which the client listens.\<close>

definition tunnel_sockets :: "sc_adb_tunnel \<Rightarrow> nat set" where
  "tunnel_sockets tunnel =
     (if tn_enabled tunnel \<and> \<not> tn_forward tunnel then set_option (tn_server_socket tunnel) else {})"

definition tunnel_ok :: "sc_adb_tunnel \<Rightarrow> net_world \<Rightarrow> bool" where
  "tunnel_ok tunnel w \<longleftrightarrow> net_ok w \<and>
     (tn_enabled tunnel \<and> \<not> tn_forward tunnel \<longrightarrow> (\<exists>s \<in> nw_open w. tn_server_socket tunnel = Some s))"

text \<open>A port that is tried is the first one, or one of the port_range.\<close>

definition port_tried :: "sc_port_range \<Rightarrow> u16 \<Rightarrow> bool" where
  "port_tried port_range port \<longleftrightarrow> port = pr_first port_range \<or> pr_first port_range \<le> port \<and> port \<le> pr_last port_range"

lemma port_tried_next: "port_tried port_range port \<Longrightarrow> port < pr_last port_range \<Longrightarrow> port_tried port_range (port + 1)"
  using next_port [of port "pr_last port_range"] by (auto simp: port_tried_def word_le_nat_alt word_less_nat_alt)

text \<open>What opening a tunnel gives: on failure, no socket is left open.\<close>

definition tunnel_opened ::
    "sc_port_range \<Rightarrow> net_world \<Rightarrow> bool \<times> sc_adb_tunnel \<times> net_world \<Rightarrow> bool" where
  "tunnel_opened port_range w = (\<lambda>(ok, tunnel, w'). tn_enabled tunnel = ok \<and> tunnel_ok tunnel w' \<and>
     nw_open w' = nw_open w \<union> tunnel_sockets tunnel \<and> (ok \<longrightarrow> port_tried port_range (tn_local_port tunnel)) \<and>
     tunnel_sockets tunnel \<inter> nw_open w = {} \<and> nw_next w \<le> nw_next w')"

lemma reverse_ok:
  "net_ok w \<Longrightarrow> \<not> tn_enabled tunnel \<Longrightarrow> \<not> tn_forward tunnel \<Longrightarrow> port_tried port_range port \<Longrightarrow>
    \<exists>r. enable_tunnel_reverse_any_port env port_range tunnel port w = Some r \<and> tunnel_opened port_range w r \<and>
      (\<not> fst r \<longrightarrow> fst (snd r) = tunnel)"
proof (induction env port_range tunnel port w rule: enable_tunnel_reverse_any_port.induct)
  case (1 env port_range tunnel port w)
  note opened = tunnel_opened_def tunnel_ok_def tunnel_sockets_def
  from adb_exec_ok [OF 1(2), of env] obtain ok w1 where
    w1: "adb_exec env w = Some (ok, w1)" "net_ok w1" "nw_open w1 = nw_open w" "nw_next w1 = nw_next w" by blast
  show ?case
  proof (cases ok)
    case False
    with w1 1 show ?thesis by (subst enable_tunnel_reverse_any_port.simps) (auto simp: opened)
  next
    case True
    from net_socket_ok [OF w1(2), of env] obtain sock w2 where
      w2: "net_socket env w1 = (sock, w2)" "net_ok w2" "case sock of None \<Rightarrow> nw_open w2 = nw_open w1 \<and> nw_next w2 = nw_next w1
        | Some s \<Rightarrow> s = nw_next w1 \<and> nw_open w2 = insert s (nw_open w1) \<and> nw_next w2 = Suc s" by blast
    let ?listen = "case sock of None \<Rightarrow> Some (False, w2) | Some s \<Rightarrow> do {
        (ok, w) \<leftarrow> listen_on_port env s w2;
        if ok then Some (True, w) else do { w \<leftarrow> net_close s w; Some (False, w) } }"
    have "\<exists>listening w3. ?listen = Some (listening, w3) \<and> net_ok w3 \<and> nw_next w \<le> nw_next w3 \<and>
        (if listening then \<exists>s. sock = Some s \<and> s \<notin> nw_open w \<and> nw_open w3 = insert s (nw_open w)
         else nw_open w3 = nw_open w)"
    proof (cases sock)
      case None
      with w1 w2 show ?thesis by auto
    next
      case (Some s)
      with w1 w2 have s: "s \<in> nw_open w2" "nw_open w2 = insert s (nw_open w)" "nw_next w2 = Suc s" "nw_next w = s" by auto
      have fresh: "s \<notin> nw_open w" using 1(2) s(4) by (auto simp: net_ok_def)
      from net_listen_ok [OF w2(2) s(1), of env] obtain ok' w3 where
        l: "net_listen_intr env s w2 = Some (ok', w3)" "net_ok w3" "nw_open w3 = nw_open w2" "nw_next w3 = nw_next w2" by blast
      show ?thesis
      proof (cases ok')
        case True
        with Some l s fresh show ?thesis by (auto simp: listen_on_port_def)
      next
        case False
        from net_close_ok [OF l(2), of s] l(3) s(1) obtain w4 where
          "net_close s w3 = Some w4" "net_ok w4" "nw_open w4 = nw_open w3 - {s}" "nw_next w4 = nw_next w3" by auto
        with Some False l s fresh show ?thesis by (auto simp: listen_on_port_def)
      qed
    qed
    then obtain listening w3 where
      w3: "?listen = Some (listening, w3)" "net_ok w3" "nw_next w \<le> nw_next w3"
        "if listening then \<exists>s. sock = Some s \<and> s \<notin> nw_open w \<and> nw_open w3 = insert s (nw_open w)
         else nw_open w3 = nw_open w" by blast
    show ?thesis
    proof (cases "listening \<or> sc_intr_is_interrupted (nw_intr w3)")
      case stop: True
      with True w1(1) w2(1) w3 1(3-5) show ?thesis
        by (subst enable_tunnel_reverse_any_port.simps) (auto simp: opened Let_def)
    next
      case go: False
      from adb_exec_ok [OF w3(2), of env] obtain ok4 w4 where
        w4: "adb_exec env w3 = Some (ok4, w4)" "net_ok w4" "nw_open w4 = nw_open w3" "nw_next w4 = nw_next w3" by blast
      have eq: "enable_tunnel_reverse_any_port env port_range tunnel port w =
          (if port < pr_last port_range then enable_tunnel_reverse_any_port env port_range tunnel (port + 1) w4
           else Some (False, tunnel, w4))"
        using True go w1(1) w2(1) w3(1) w4(1) by (subst enable_tunnel_reverse_any_port.simps) (simp add: Let_def)
      show ?thesis
      proof (cases "port < pr_last port_range")
        case False
        with eq go w3 w4 1(3,4) show ?thesis by (auto simp: opened)
      next
        case more: True
        have "\<exists>r. enable_tunnel_reverse_any_port env port_range tunnel (port + 1) w4 = Some r \<and> tunnel_opened port_range w4 r \<and>
            (\<not> fst r \<longrightarrow> fst (snd r) = tunnel)"
        proof (rule "1.IH" [OF _ _ _ _ _ w3(1)])
        qed (use True go more w1(1) w2(1) w3 w4 1(3-5) port_tried_next in auto)
        with eq more go w3(3,4) w4(3,4) show ?thesis by (auto simp: tunnel_opened_def)
      qed
    qed
  qed
qed

lemma forward_loop_ok:
  "net_ok w \<Longrightarrow> \<not> tn_enabled tunnel \<Longrightarrow> tn_forward tunnel \<Longrightarrow> port_tried port_range port \<Longrightarrow>
    \<exists>r. enable_tunnel_forward_loop env port_range tunnel port w = Some r \<and> tunnel_opened port_range w r \<and> tn_forward (fst (snd r))"
proof (induction env port_range tunnel port w rule: enable_tunnel_forward_loop.induct)
  case (1 env port_range tunnel port w)
  note opened = tunnel_opened_def tunnel_ok_def tunnel_sockets_def
  from adb_exec_ok [OF 1(2), of env] obtain ok w1 where
    w1: "adb_exec env w = Some (ok, w1)" "net_ok w1" "nw_open w1 = nw_open w" "nw_next w1 = nw_next w" by blast
  show ?case
  proof (cases "\<not> ok \<and> \<not> sc_intr_is_interrupted (nw_intr w1) \<and> port < pr_last port_range")
    case True
    have "\<exists>r. enable_tunnel_forward_loop env port_range tunnel (port + 1) w1 = Some r \<and> tunnel_opened port_range w1 r \<and>
        tn_forward (fst (snd r))"
      by (rule "1.IH" [OF w1(1) refl]) (use True w1 1(3-5) port_tried_next in auto)
    moreover have "enable_tunnel_forward_loop env port_range tunnel port w =
        enable_tunnel_forward_loop env port_range tunnel (port + 1) w1"
      using True w1(1) by (subst enable_tunnel_forward_loop.simps) simp
    ultimately show ?thesis using w1(3,4) by (auto simp: tunnel_opened_def)
  next
    case False
    with w1 1(3-5) show ?thesis by (subst enable_tunnel_forward_loop.simps) (auto simp: opened)
  qed
qed

lemma forward_ok:
  assumes "net_ok w" "\<not> tn_enabled tunnel"
  shows "\<exists>r. enable_tunnel_forward_any_port env port_range tunnel w = Some r \<and> tunnel_opened port_range w r"
  using forward_loop_ok [of w "tunnel\<lparr>tn_forward := True\<rparr>" port_range "pr_first port_range" env] assms
  by (auto simp: enable_tunnel_forward_any_port_def port_tried_def)

lemma tunnel_open_ok:
  assumes "net_ok w" "\<not> tn_enabled tunnel" "\<not> tn_forward tunnel"
  shows "\<exists>r. sc_adb_tunnel_open env port_range force tunnel w = Some r \<and> tunnel_opened port_range w r"
proof (cases force)
  case True
  with forward_ok [OF assms(1,2)] assms(2) show ?thesis by (simp add: sc_adb_tunnel_open_def)
next
  case False
  from reverse_ok [OF assms, of port_range "pr_first port_range" env] obtain ok tunnel1 w1 where
    r: "enable_tunnel_reverse_any_port env port_range tunnel (pr_first port_range) w = Some (ok, tunnel1, w1)"
      "tunnel_opened port_range w (ok, tunnel1, w1)" "\<not> ok \<longrightarrow> tunnel1 = tunnel"
    by (auto simp: port_tried_def)
  show ?thesis
  proof (cases ok)
    case True
    with False r assms(2) show ?thesis by (simp add: sc_adb_tunnel_open_def)
  next
    case failed: False
    with r assms(2) have w1: "net_ok w1" "nw_open w1 = nw_open w" "nw_next w \<le> nw_next w1"
      by (simp_all add: tunnel_opened_def tunnel_ok_def tunnel_sockets_def)
    from forward_ok [OF w1(1) assms(2), of env port_range] obtain r2 where
      r2: "enable_tunnel_forward_any_port env port_range tunnel w1 = Some r2" "tunnel_opened port_range w1 r2" by blast
    from r2(2) w1(2,3) have "tunnel_opened port_range w r2" by (auto simp: tunnel_opened_def)
    with False failed r(1,3) r2(1) assms(2) show ?thesis by (simp add: sc_adb_tunnel_open_def)
  qed
qed

lemma tunnel_close_ok:
  assumes "tunnel_ok tunnel w" "tn_enabled tunnel"
  shows "\<exists>ret w'. sc_adb_tunnel_close env tunnel w = Some (ret, tunnel\<lparr>tn_enabled := False\<rparr>, w') \<and> net_ok w' \<and>
    nw_open w' = nw_open w - tunnel_sockets tunnel \<and> nw_next w' = nw_next w \<and> nw_peer w' = nw_peer w"
proof -
  from assms(1) have "net_ok w" by (simp add: tunnel_ok_def)
  from adb_exec_ok [OF this, of env] obtain ok w1 where
    w1: "adb_exec env w = Some (ok, w1)" "net_ok w1" "nw_open w1 = nw_open w" "nw_next w1 = nw_next w"
      "nw_peer w1 = nw_peer w" by blast
  show ?thesis
  proof (cases "tn_forward tunnel")
    case True
    with w1 assms(2) show ?thesis by (simp add: sc_adb_tunnel_close_def tunnel_sockets_def)
  next
    case False
    with assms obtain s where s: "tn_server_socket tunnel = Some s" "s \<in> nw_open w" by (auto simp: tunnel_ok_def)
    from net_close_ok [OF w1(2), of s] s(2) w1(3) obtain w2 where
      "net_close s w1 = Some w2" "net_ok w2" "nw_open w2 = nw_open w1 - {s}" "nw_next w2 = nw_next w1" "nw_peer w2 = nw_peer w1"
      by auto
    with False s(1) w1 assms(2) show ?thesis by (simp add: sc_adb_tunnel_close_def tunnel_sockets_def)
  qed
qed

section \<open>Properties\<close>

text \<open>
  C16: Opening a tunnel ends and never aborts, whatever adb and the system answer and whenever another thread
  interrupts. It succeeds exactly when the tunnel is enabled, on the first port or another one of the range (the port
  never overflows); when it fails no socket is left open. Closing the tunnel gives back the sockets there were.
\<close>

theorem adb_tunnel_open_close:
  assumes "net_ok w"
  shows "\<exists>ok tunnel w'. sc_adb_tunnel_open env port_range force sc_adb_tunnel_init w = Some (ok, tunnel, w') \<and>
    tn_enabled tunnel = ok \<and>
    (ok \<longrightarrow> tn_local_port tunnel = pr_first port_range \<or>
      pr_first port_range \<le> tn_local_port tunnel \<and> tn_local_port tunnel \<le> pr_last port_range) \<and>
    (\<not> ok \<longrightarrow> nw_open w' = nw_open w) \<and>
    (ok \<longrightarrow> (\<exists>ret tunnel' w''. sc_adb_tunnel_close env tunnel w' = Some (ret, tunnel', w'') \<and> \<not> tn_enabled tunnel' \<and>
      nw_open w'' = nw_open w))"
proof -
  from tunnel_open_ok [OF assms, of sc_adb_tunnel_init env port_range force] obtain ok tunnel w' where
    r: "sc_adb_tunnel_open env port_range force sc_adb_tunnel_init w = Some (ok, tunnel, w')"
      "tunnel_opened port_range w (ok, tunnel, w')"
    by (auto simp: sc_adb_tunnel_init_def)
  from r(2) have o: "tn_enabled tunnel = ok" "tunnel_ok tunnel w'" "nw_open w' = nw_open w \<union> tunnel_sockets tunnel"
    "ok \<longrightarrow> port_tried port_range (tn_local_port tunnel)" "tunnel_sockets tunnel \<inter> nw_open w = {}"
    by (auto simp: tunnel_opened_def)
  have "\<exists>ret tunnel' w''. sc_adb_tunnel_close env tunnel w' = Some (ret, tunnel', w'') \<and> \<not> tn_enabled tunnel' \<and>
      nw_open w'' = nw_open w" if ok
  proof -
    from tunnel_close_ok [OF o(2), of env] o(1) that obtain ret w'' where
      "sc_adb_tunnel_close env tunnel w' = Some (ret, tunnel\<lparr>tn_enabled := False\<rparr>, w'')"
      "nw_open w'' = nw_open w' - tunnel_sockets tunnel" by blast
    with o(3,5) show ?thesis by auto
  qed
  moreover have "nw_open w' = nw_open w" if "\<not> ok" using o(1,3) that by (simp add: tunnel_sockets_def)
  ultimately show ?thesis using r(1) o(1,4) by (auto simp: port_tried_def)
qed

definition example_net :: net_world where
  "example_net = \<lparr>nw_open = {}, nw_next = 0, nw_peer = \<lambda>_. None,
     nw_intr = \<lparr>intr_socket = None, intr_process = None, intr_interrupted = False\<rparr>, nw_time = 0\<rparr>"

definition example_net_env :: net_env where
  "example_net_env = \<lparr>ne_before = \<lambda>_. False, ne_during = \<lambda>_. False, ne_socket = \<lambda>_. True, ne_connect = \<lambda>_. True,
     ne_listen = \<lambda>_. True, ne_accept = \<lambda>_. True, ne_recv = \<lambda>_. replicate 64 0x41, ne_adb = \<lambda>_. True, ne_wakes = \<lambda>_. (False, [(False, False)])\<rparr>"

lemma example_net_ok: "net_ok example_net"
  by (simp add: net_ok_def example_net_def)

lemma adb_tunnel_open_close_witness:
  "\<exists>ok tunnel w'. sc_adb_tunnel_open example_net_env \<lparr>pr_first = 27183, pr_last = 27199\<rparr> False sc_adb_tunnel_init example_net =
      Some (ok, tunnel, w') \<and> tn_enabled tunnel = ok"
  using adb_tunnel_open_close [OF example_net_ok, of example_net_env "\<lparr>pr_first = 27183, pr_last = 27199\<rparr>" False] by blast

end
