(* ===== verification/Sc_Server_Options.thy ===== *)
theory Sc_Server_Options
  imports Sc_Server_Params
begin

text \<open>
  The options that the Android server reads from its command line (\<open>Options.java\<close>), as far as the connection with
  the client depends on them, and the sockets it then opens (\<open>DesktopConnection.java\<close>). The other options are only
  accepted or refused, by an argument of the model. Together with \<open>execute_server\<close>: what the server understands of
  what the client asks for.
\<close>

section \<open>Options\<close>

record server_options =
  so_scid :: int
  so_video :: bool
  so_audio :: bool
  so_control :: bool
  so_audio_source :: sc_audio_source
  so_tunnel_forward :: bool
  so_send_dummy_byte :: bool

definition default_options :: server_options where
  "default_options = \<lparr>so_scid = -1, so_video = True, so_audio = True, so_control = False,
     so_audio_source = SC_AUDIO_SOURCE_MIC, so_tunnel_forward = False, so_send_dummy_byte = True\<rparr>"

text \<open>\<open>Boolean.parseBoolean\<close>, and \<open>Integer.parseInt\<close> in base 16; \<open>None\<close> is an exception.\<close>

definition parseBoolean :: "string \<Rightarrow> bool" where
  "parseBoolean s = list_all2 (\<lambda>c cs. c \<in> set cs) s [''tT'', ''rR'', ''uU'', ''eE'']"

definition hex_value :: "char \<Rightarrow> nat option" where
  "hex_value c =
     (let n = of_char c :: nat in
      if 48 \<le> n \<and> n \<le> 57 then Some (n - 48)
      else if 97 \<le> n \<and> n \<le> 102 then Some (n - 87)
      else if 65 \<le> n \<and> n \<le> 70 then Some (n - 55)
      else None)"

fun hex_digits :: "nat \<Rightarrow> string \<Rightarrow> nat option" where
  "hex_digits acc [] = Some acc"
| "hex_digits acc (c # cs) = do {
     d \<leftarrow> hex_value c;
     hex_digits (acc * 16 + d) cs
   }"

definition parseInt16 :: "string \<Rightarrow> int option" where
  "parseInt16 s =
     (let (sign, digits) = (if s \<noteq> [] \<and> hd s = CHR ''-'' then (-1, tl s) else if s \<noteq> [] \<and> hd s = CHR ''+'' then (1, tl s)
        else (1, s)) in
      if digits = [] then None
      else do {
        n \<leftarrow> hex_digits 0 digits;
        let v = sign * int n;
        if - (2 ^ 31) \<le> v \<and> v < 2 ^ 31 then Some v else None
      })"

definition audio_source_findByName :: "string \<Rightarrow> sc_audio_source option" where
  "audio_source_findByName name = find (\<lambda>source. sc_server_get_audio_source_name source = Some name)
     [SC_AUDIO_SOURCE_OUTPUT, SC_AUDIO_SOURCE_MIC, SC_AUDIO_SOURCE_PLAYBACK, SC_AUDIO_SOURCE_MIC_UNPROCESSED,
      SC_AUDIO_SOURCE_MIC_CAMCORDER, SC_AUDIO_SOURCE_MIC_VOICE_RECOGNITION, SC_AUDIO_SOURCE_MIC_VOICE_COMMUNICATION,
      SC_AUDIO_SOURCE_VOICE_CALL, SC_AUDIO_SOURCE_VOICE_CALL_UPLINK, SC_AUDIO_SOURCE_VOICE_CALL_DOWNLINK,
      SC_AUDIO_SOURCE_VOICE_PERFORMANCE]"

definition parse_option ::
    "(string \<Rightarrow> string \<Rightarrow> bool) \<Rightarrow> server_options \<Rightarrow> string \<Rightarrow> server_options option" where
  "parse_option accepts options arg =
     (if CHR ''='' \<notin> set arg then None
      else
        (let key = takeWhile (\<lambda>c. c \<noteq> CHR ''='') arg;
             val = tl (dropWhile (\<lambda>c. c \<noteq> CHR ''='') arg)
         in
          if key = ''scid'' then do {
            scid \<leftarrow> parseInt16 val;
            if scid < -1 then None else Some (options\<lparr>so_scid := scid\<rparr>)
          }
          else if key = ''video'' then Some (options\<lparr>so_video := parseBoolean val\<rparr>)
          else if key = ''audio'' then Some (options\<lparr>so_audio := parseBoolean val\<rparr>)
          else if key = ''audio_source'' then do {
            source \<leftarrow> audio_source_findByName val;
            Some (options\<lparr>so_audio_source := source\<rparr>)
          }
          else if key = ''tunnel_forward'' then Some (options\<lparr>so_tunnel_forward := parseBoolean val\<rparr>)
          else if key = ''control'' then Some (options\<lparr>so_control := parseBoolean val\<rparr>)
          else if key = ''send_dummy_byte'' then Some (options\<lparr>so_send_dummy_byte := parseBoolean val\<rparr>)
          else if key = ''raw_stream'' then
            Some (if parseBoolean val then options\<lparr>so_send_dummy_byte := False\<rparr> else options)
          else if key = ''no_video'' then Some (options\<lparr>so_video := \<not> parseBoolean val\<rparr>)
          else if accepts key val then Some options
          else None))"

fun parse_options ::
    "(string \<Rightarrow> string \<Rightarrow> bool) \<Rightarrow> server_options \<Rightarrow> string list \<Rightarrow> server_options option" where
  "parse_options accepts options [] = Some options"
| "parse_options accepts options (arg # args) = do {
     options \<leftarrow> parse_option accepts options arg;
     parse_options accepts options args
   }"

definition options_parse ::
    "(string \<Rightarrow> string \<Rightarrow> bool) \<Rightarrow> string \<Rightarrow> string list \<Rightarrow> server_options option" where
  "options_parse accepts version_name args = (case args of
     [] \<Rightarrow> None
   | client_version # args \<Rightarrow>
       if client_version \<noteq> version_name then None else parse_options accepts default_options args)"

section \<open>The sockets of the server\<close>

datatype stream = Video_stream | Audio_stream | Control_stream

text \<open>The sockets in the order they are accepted or connected, each with whether the dummy byte is written to it.\<close>

definition desktop_connection_open :: "server_options \<Rightarrow> (stream \<times> bool) list" where
  "desktop_connection_open options =
     (if so_tunnel_forward options then
        (let send_dummy_byte = so_send_dummy_byte options;
             (video, send_dummy_byte) =
               (if so_video options then ([(Video_stream, send_dummy_byte)], False) else ([], send_dummy_byte));
             (audio, send_dummy_byte) =
               (if so_audio options then ([(Audio_stream, send_dummy_byte)], False) else ([], send_dummy_byte));
             control = (if so_control options then [(Control_stream, send_dummy_byte)] else [])
         in video @ audio @ control)
      else
        (if so_video options then [(Video_stream, False)] else []) @
        (if so_audio options then [(Audio_stream, False)] else []) @
        (if so_control options then [(Control_stream, False)] else []))"

section \<open>What the server reads of the parameters of the client\<close>

fun added_strings :: "param_step list \<Rightarrow> string list" where
  "added_strings [] = []"
| "added_strings (ADD_PARAM (Some s) # steps) = s # added_strings steps"
| "added_strings (_ # steps) = added_strings steps"

lemma run_params_strings:
  "run_params asprintf_ok steps cmd = Some (Some cmd') \<Longrightarrow> cmd' = cmd @ added_strings steps"
  by (induction steps arbitrary: cmd rule: added_strings.induct)
    (fastforce split: if_splits bind_splits)+

lemma added_strings_append [simp]: "added_strings (xs @ ys) = added_strings xs @ added_strings ys"
  by (induction xs rule: added_strings.induct) auto

lemma added_strings_only_if: "added_strings (only_if b xs) = (if b then added_strings xs else [])"
  by (simp add: only_if_def)

lemma parse_options_append [simp]:
  "parse_options accepts options (xs @ ys) = do {
     options \<leftarrow> parse_options accepts options xs;
     parse_options accepts options ys
   }"
  by (induction xs arbitrary: options) (auto simp: bind_assoc)

lemma parse_if: "parse_options accepts options (if b then xs else []) =
    (if b then parse_options accepts options xs else Some options)"
  by simp

lemma parse_string_param:
  "(\<And>v. parse_option accepts options (key @ v) = Some options) \<Longrightarrow>
    parse_options accepts options (added_strings (string_param key s)) = Some options"
  by (cases s) (simp_all add: string_param_def)

lemma parse_name_param:
  "(\<And>v. parse_option accepts options (key @ v) = Some options) \<Longrightarrow>
    parse_options accepts options (added_strings [ADD_PARAM (map_option ((@) key) s)]) = Some options"
  by (cases s) simp_all

lemma parse_only_if:
  "parse_options accepts options (added_strings (only_if b steps)) =
    (if b then parse_options accepts options (added_strings steps) else Some options)"
  by (simp add: only_if_def)

lemmas parse_simps = parse_string_param parse_name_param parse_only_if

text \<open>A parameter of another option changes nothing; those of the modelled options, one by one.\<close>

text \<open>Steps whose strings concern none of the modelled options.\<close>

definition other_steps :: "(string \<Rightarrow> string \<Rightarrow> bool) \<Rightarrow> param_step list \<Rightarrow> bool" where
  "other_steps accepts steps \<longleftrightarrow> (\<forall>options. parse_options accepts options (added_strings steps) = Some options)"

lemma other_only_if: "other_steps accepts steps \<Longrightarrow> other_steps accepts (only_if b steps)"
  by (simp add: other_steps_def only_if_def)

lemma other_string_param:
  "(\<And>options v. parse_option accepts options (key @ v) = Some options) \<Longrightarrow> other_steps accepts (string_param key s)"
  by (simp add: other_steps_def parse_string_param)

lemma other_name_param:
  "(\<And>options v. parse_option accepts options (key @ v) = Some options) \<Longrightarrow>
    other_steps accepts [ADD_PARAM (map_option ((@) key) s)]"
  by (simp add: other_steps_def parse_name_param)

lemma other_param:
  "(\<And>options. parse_option accepts options s = Some options) \<Longrightarrow> other_steps accepts [ADD_PARAM (Some s)]"
  by (simp add: other_steps_def)

lemma other_assert: "other_steps accepts steps \<Longrightarrow> other_steps accepts (Param_assert b # steps)"
  by (simp add: other_steps_def)

lemma other_concat:
  "list_all (other_steps accepts) xss \<Longrightarrow> parse_options accepts options (added_strings (concat xss)) = Some options"
  by (induction xss arbitrary: options) (auto simp: other_steps_def)

lemmas other_intros = other_only_if other_assert other_string_param other_name_param other_param

lemma parse_device_params:
  assumes "\<And>k v. accepts k v"
  shows "parse_options accepts options (added_strings (device_params p)) = Some options"
  unfolding device_params_def
  apply (rule other_concat, simp only: list.pred_inject simp_thms)
  apply (intro conjI other_intros)
  apply (simp_all add: parse_option_def Let_def assms)
  done

lemma skip_other:
  "other_steps accepts steps \<Longrightarrow> parse_options accepts options (added_strings (concat xss)) = r \<Longrightarrow>
    parse_options accepts options (added_strings (concat (steps # xss))) = r"
  by (simp add: other_steps_def)

lemma parse_chunk:
  "parse_options accepts options (added_strings steps) = Some options' \<Longrightarrow>
    parse_options accepts options' (added_strings (concat xss)) = r \<Longrightarrow>
    parse_options accepts options (added_strings (concat (steps # xss))) = r"
  by simp

lemma parse_display_params:
  assumes "\<And>k v. accepts k v"
  shows "parse_options accepts options (added_strings (display_camera_params p tunnel_forward)) =
    Some (options\<lparr>so_tunnel_forward := tunnel_forward \<or> so_tunnel_forward options,
      so_control := sp_control p \<and> so_control options\<rparr>)"
proof -
  let ?o = "options\<lparr>so_tunnel_forward := tunnel_forward \<or> so_tunnel_forward options\<rparr>"
  show ?thesis
    unfolding display_camera_params_def
    apply (rule skip_other)
     apply (intro other_only_if, simp add: other_steps_def parse_option_def Let_def assms)
    apply (rule parse_chunk [of _ _ _ ?o])
     apply (simp add: parse_only_if parse_option_def parseBoolean_def)
    apply (rule skip_other)
     apply (rule other_string_param, simp add: parse_option_def Let_def assms)
    apply (rule parse_chunk [of _ _ _ "?o\<lparr>so_control := sp_control p \<and> so_control options\<rparr>"])
     apply (simp add: parse_only_if parse_option_def parseBoolean_def)
    apply (subst other_concat)
     apply (simp only: list.pred_inject simp_thms)
     apply (intro conjI other_intros)
     apply (simp_all add: parse_option_def Let_def assms)
    done
qed

lemma audio_source_found:
  "sc_server_get_audio_source_name source = Some name \<Longrightarrow> audio_source_findByName name = Some source"
  unfolding audio_source_findByName_def by (cases source; clarsimp)

lemma hex_value_digit: "n < 16 \<Longrightarrow> hex_value (hex_digit n) = Some n"
  by (simp add: hex_value_def hex_digit_def Let_def)

lemma hex_digits_map:
  "list_all (\<lambda>d. d < 16) ds \<Longrightarrow> hex_digits acc (map hex_digit ds) = Some (foldl (\<lambda>n d. n * 16 + d) acc ds)"
  by (induction ds arbitrary: acc) (simp_all add: hex_value_digit)

lemma parse_scid:
  assumes "unat w < 2 ^ 31"
  shows "parseInt16 (hex8 w) = Some (int (unat w))"
proof -
  let ?d = "\<lambda>i. unat w div 16 ^ i mod 16"
  let ?ds = "map ?d [7, 6, 5, 4, 3, 2, 1, 0]"
  have h: "hex8 w = map hex_digit ?ds" by (simp add: hex8_def)
  have hd: "hex_digit (?d 7) \<noteq> CHR ''-''" "hex_digit (?d 7) \<noteq> CHR ''+''"
  proof -
    have "list_all (\<lambda>n. hex_digit n \<noteq> CHR ''-'' \<and> hex_digit n \<noteq> CHR ''+'') [0..<16]" by code_simp
    then show "hex_digit (?d 7) \<noteq> CHR ''-''" "hex_digit (?d 7) \<noteq> CHR ''+''"
      by (simp_all add: list_all_iff del: upt_rec_numeral)
  qed
  have split: "unat w div 16 ^ i = unat w div 16 ^ Suc i * 16 + ?d i" for i
  proof -
    have "unat w div 16 ^ Suc i = unat w div 16 ^ i div 16" by (simp add: div_mult2_eq [symmetric] mult.commute)
    then show ?thesis by simp
  qed
  have "unat w div 16 ^ 8 = 0" using assms by simp
  then have "unat w = ((((((?d 7 * 16 + ?d 6) * 16 + ?d 5) * 16 + ?d 4) * 16 + ?d 3) * 16 + ?d 2) * 16 + ?d 1) * 16 + ?d 0"
    using split [of 0] split [of 1] split [of 2] split [of 3] split [of 4] split [of 5] split [of 6] split [of 7]
    by simp
  then have "foldl (\<lambda>n d. n * 16 + d) 0 ?ds = unat w" by simp
  then have "hex_digits 0 (hex8 w) = Some (unat w)" unfolding h by (subst hex_digits_map) simp_all
  with hd assms show ?thesis by (simp add: parseInt16_def Let_def hex8_def del: hex_digits.simps)
qed

lemma parse_video_audio_params:
  assumes "\<And>k v. accepts k v" "unat (sp_scid p) < 2 ^ 31" "sp_audio p \<Longrightarrow> sp_audio_source p \<noteq> SC_AUDIO_SOURCE_AUTO"
  shows "parse_options accepts default_options (added_strings (video_audio_params p)) =
    Some (default_options\<lparr>so_scid := int (unat (sp_scid p)), so_video := sp_video p, so_audio := sp_audio p,
      so_audio_source := if sp_audio p \<and> sp_audio_source p \<noteq> SC_AUDIO_SOURCE_OUTPUT then sp_audio_source p
        else SC_AUDIO_SOURCE_MIC\<rparr>)"
proof -
  let ?o1 = "default_options\<lparr>so_scid := int (unat (sp_scid p))\<rparr>"
  let ?o2 = "?o1\<lparr>so_video := sp_video p\<rparr>"
  let ?o3 = "?o2\<lparr>so_audio := sp_audio p\<rparr>"
  let ?o4 = "?o3\<lparr>so_audio_source := if sp_audio p \<and> sp_audio_source p \<noteq> SC_AUDIO_SOURCE_OUTPUT then sp_audio_source p
        else SC_AUDIO_SOURCE_MIC\<rparr>"
  have source: "parse_options accepts ?o3 (added_strings (only_if (sp_audio_source p \<noteq> SC_AUDIO_SOURCE_OUTPUT \<and> sp_audio p)
       [ADD_PARAM (map_option ((@) ''audio_source='') (sc_server_get_audio_source_name (sp_audio_source p)))])) = Some ?o4"
  proof (cases "sp_audio_source p \<noteq> SC_AUDIO_SOURCE_OUTPUT \<and> sp_audio p")
    case True
    then obtain name where "sc_server_get_audio_source_name (sp_audio_source p) = Some name"
      using assms(3) names_found(2) by blast
    with audio_source_found [OF this] True show ?thesis by (simp add: only_if_def parse_option_def)
  qed (auto simp: only_if_def default_options_def)
  have scid: "parse_options accepts default_options (added_strings [ADD_PARAM (Some (''scid='' @ hex8 (sp_scid p)))]) = Some ?o1"
    using uint_ge_0 [of "sp_scid p"] by (auto simp: parse_option_def parse_scid [OF assms(2)] not_less intro: order_trans [OF _ uint_ge_0])
  show ?thesis
    unfolding video_audio_params_def
    apply (rule parse_chunk [OF scid])
    apply (rule skip_other)
     apply (rule other_param, simp add: parse_option_def Let_def assms(1))
    apply (rule parse_chunk [of _ _ _ ?o2])
     apply (simp add: parse_only_if parse_option_def parseBoolean_def default_options_def)
    apply (rule skip_other)
     apply (intro other_intros, simp add: parse_option_def Let_def assms(1))
    apply (rule parse_chunk [of _ _ _ ?o3])
     apply (simp add: parse_only_if parse_option_def parseBoolean_def default_options_def)
    apply (rule skip_other)
     apply (intro other_intros, simp add: parse_option_def Let_def assms(1))
    apply (rule skip_other)
     apply (intro other_intros, simp add: parse_option_def Let_def assms(1))
    apply (rule skip_other)
     apply (intro other_intros, simp add: parse_option_def Let_def assms(1))
    apply (rule skip_other)
     apply (intro other_intros, simp add: parse_option_def Let_def assms(1))
    apply (rule skip_other)
     apply (simp add: other_steps_def)
    apply (rule parse_chunk [OF source])
    apply (subst other_concat)
     apply (simp only: list.pred_inject simp_thms)
     apply (intro conjI other_intros)
     apply (simp_all add: parse_option_def Let_def assms(1))
    done
qed

text \<open>What the server reads from the command line of the client.\<close>

lemma server_reads:
  assumes "\<And>k v. accepts k v" "unat (sp_scid params) < 2 ^ 31" "server_params_ok params"
    and "execute_server asprintf_ok adb version (Some serial) params tunnel_forward = Some (Some cmd)"
  shows "options_parse accepts version (drop 8 cmd) =
    Some \<lparr>so_scid = int (unat (sp_scid params)), so_video = sp_video params, so_audio = sp_audio params, so_control = False,
      so_audio_source = (if sp_audio params \<and> sp_audio_source params \<noteq> SC_AUDIO_SOURCE_OUTPUT
        then sp_audio_source params else SC_AUDIO_SOURCE_MIC),
      so_tunnel_forward = tunnel_forward, so_send_dummy_byte = True\<rparr>"
proof -
  let ?prefix = "[adb, ''-s'', serial, ''shell'', ''CLASSPATH='' @ SC_DEVICE_SERVER_PATH, ''app_process'', ''/'',
    ''com.genymobile.scrcpy.Server'', version]"
  from assms(4) have "run_params asprintf_ok (server_params_steps params tunnel_forward) ?prefix = Some (Some cmd)"
    by (auto simp: execute_server_def split: bind_splits option.splits)
  from run_params_strings [OF this] have "drop 8 cmd = version # added_strings (server_params_steps params tunnel_forward)"
    by simp
  moreover have "sp_audio params \<Longrightarrow> sp_audio_source params \<noteq> SC_AUDIO_SOURCE_AUTO"
    using assms(3) by (simp add: server_params_ok_def)
  ultimately show ?thesis
    using parse_video_audio_params [where accepts = accepts, OF assms(1,2)] parse_display_params [where accepts = accepts, OF assms(1)]
      parse_device_params [where accepts = accepts, OF assms(1)]
    by (simp add: options_parse_def server_params_steps_def default_options_def)
qed

end
