(* ===== verification/Sc_Server.thy ===== *)
theory Sc_Server
  imports Sc_Adb_Tunnel Sc_Server_Options
begin

text \<open>
  The connections of \<open>server.c\<close>: through an adb tunnel (\<open>sc_server_connect_to\<close>) or directly over Wi-Fi
  (\<open>sc_server_connect_wifi\<close>). A socket is in the state of the server, in a local variable, or closed.
\<close>

section \<open>State\<close>

record sc_server =
  srv_params :: sc_server_params
  srv_serial :: "string option"
  srv_device_socket_name :: "string option"
  srv_info :: bytes
  srv_tunnel :: sc_adb_tunnel
  srv_video_socket :: "nat option"
  srv_camera_socket :: "nat option"
  srv_audio_socket :: "nat option"
  srv_speaker_socket :: "nat option"
  srv_control_socket :: "nat option"

text \<open>The arguments are whether the four initializations that may fail succeed.\<close>

definition sc_server_init :: "bool \<Rightarrow> bool \<Rightarrow> bool \<Rightarrow> bool \<Rightarrow> sc_server_params \<Rightarrow> sc_server option" where
  "sc_server_init adb_ok mutex_ok cond_ok intr_ok params =
     (if \<not> adb_ok then None
      else if \<not> mutex_ok then None
      else if \<not> cond_ok then None
      else if \<not> intr_ok then None
      else Some \<lparr>srv_params = params, srv_serial = None, srv_device_socket_name = None, srv_info = replicate 64 0,
        srv_tunnel = sc_adb_tunnel_init, srv_video_socket = None, srv_camera_socket = None, srv_audio_socket = None,
        srv_speaker_socket = None, srv_control_socket = None\<rparr>)"

section \<open>Connecting one socket\<close>

text \<open>The result tells whether the sleep ended without a stop.\<close>

definition sc_server_sleep :: "net_env \<Rightarrow> net_world \<Rightarrow> (bool \<times> net_world) option" where
  "sc_server_sleep env w = do {
     let (stopped, wakes) = ne_wakes env (nw_time w);
     stopped \<leftarrow> timer_loop stopped False wakes;
     Some (\<not> stopped, tick w)
   }"

definition connect_and_read_byte :: "net_env \<Rightarrow> nat \<Rightarrow> u32 \<Rightarrow> u16 \<Rightarrow> net_world \<Rightarrow> (bool \<times> net_world) option" where
  "connect_and_read_byte env socket tunnel_host tunnel_port w = do {
     (ok, w) \<leftarrow> net_connect_intr env socket tunnel_host tunnel_port w;
     if \<not> ok then Some (False, w)
     else do {
       (bytes, w) \<leftarrow> net_recv_intr env socket 1 w;
       Some (length bytes = 1, w)
     }
   }"

text \<open>Never called without attempts: the loop would make \<open>2 ^ 32\<close> of them.\<close>

fun connect_to_server :: "net_env \<Rightarrow> nat \<Rightarrow> u32 \<Rightarrow> u16 \<Rightarrow> net_world \<Rightarrow> (nat option \<times> net_world) option" where
  "connect_to_server env 0 host port w = None"
| "connect_to_server env (Suc attempts) host port w = do {
     let (socket, w) = net_socket env w;
     (connected, w) \<leftarrow> (case socket of
         None \<Rightarrow> Some (False, w)
       | Some s \<Rightarrow> do {
           (ok, w) \<leftarrow> connect_and_read_byte env s host port w;
           if ok then Some (True, w)
           else do {
             w \<leftarrow> net_close s w;
             Some (False, w)
           }
         });
     if connected then Some (socket, w)
     else if sc_intr_is_interrupted (nw_intr w) then Some (None, w)
     else do {
       (ok, w) \<leftarrow> sc_server_sleep env w;
       if \<not> ok then Some (None, w)
       else if attempts = 0 then Some (None, w)
       else connect_to_server env attempts host port w
     }
   }"

definition SC_DEVICE_NAME_FIELD_LENGTH :: nat where
  "SC_DEVICE_NAME_FIELD_LENGTH = 64"

definition device_read_info :: "net_env \<Rightarrow> nat \<Rightarrow> bytes \<Rightarrow> net_world \<Rightarrow> (bool \<times> bytes \<times> net_world) option" where
  "device_read_info env device_socket info w = do {
     (buf, w) \<leftarrow> net_recv_all_intr env device_socket SC_DEVICE_NAME_FIELD_LENGTH w;
     if length buf < SC_DEVICE_NAME_FIELD_LENGTH then Some (False, info, w)
     else Some (True, buf[SC_DEVICE_NAME_FIELD_LENGTH - 1 := 0], w)
   }"

definition close_opt :: "nat option \<Rightarrow> net_world \<Rightarrow> net_world option" where
  "close_opt socket w = (case socket of None \<Rightarrow> Some w | Some s \<Rightarrow> net_close s w)"

section \<open>Wi-Fi\<close>

text \<open>Closing what has been opened so far; the result is false.\<close>

definition wifi_fail :: "sc_server \<Rightarrow> net_world \<Rightarrow> (bool \<times> sc_server \<times> net_world) option" where
  "wifi_fail srv w = do {
     w \<leftarrow> close_opt (srv_video_socket srv) w;
     w \<leftarrow> close_opt (srv_camera_socket srv) w;
     w \<leftarrow> close_opt (srv_audio_socket srv) w;
     w \<leftarrow> close_opt (srv_speaker_socket srv) w;
     w \<leftarrow> close_opt (srv_control_socket srv) w;
     Some (False, srv\<lparr>srv_video_socket := None, srv_camera_socket := None, srv_audio_socket := None,
       srv_speaker_socket := None, srv_control_socket := None\<rparr>, w)
   }"

text \<open>Reading the name of the device from the first stream that comes in.\<close>

definition wifi_read_info :: "net_env \<Rightarrow> sc_server \<Rightarrow> net_world \<Rightarrow> (bool \<times> sc_server \<times> net_world) option" where
  "wifi_read_info env srv w = (
     let info_socket = srv_video_socket srv;
         info_socket = (if info_socket = None then srv_camera_socket srv else info_socket);
         info_socket = (if info_socket = None then srv_audio_socket srv else info_socket)
     in case info_socket of
          None \<Rightarrow> Some (True, srv, w)
        | Some s \<Rightarrow> do {
            (ok, info, w) \<leftarrow> device_read_info env s (srv_info srv) w;
            if \<not> ok then wifi_fail srv w
            else Some (True, srv\<lparr>srv_info := info\<rparr>, w)
          })"

definition sc_server_connect_wifi :: "net_env \<Rightarrow> sc_server \<Rightarrow> net_world \<Rightarrow> (bool \<times> sc_server \<times> net_world) option" where
  "sc_server_connect_wifi env srv w = do {
     let params = srv_params srv;
     let host = sp_tunnel_host params;
     if host = 0 then wifi_fail srv w
     else do {
       let base_port = (if sp_wifi_port params = 0 then 5000 else sp_wifi_port params);
       (video_socket, w) \<leftarrow>
         (if sp_video params then connect_to_server env 100 host base_port w else Some (srv_video_socket srv, w));
       let srv = srv\<lparr>srv_video_socket := video_socket\<rparr>;
       if sp_video params \<and> video_socket = None then wifi_fail srv w
       else do {
         (camera_socket, w) \<leftarrow>
           (if sp_multistream params \<and> sp_video params then connect_to_server env 100 host (base_port + 1) w
            else Some (srv_camera_socket srv, w));
         let srv = srv\<lparr>srv_camera_socket := camera_socket\<rparr>;
         (audio_socket, w) \<leftarrow>
           (if sp_audio params then connect_to_server env 100 host (base_port + 2) w else Some (srv_audio_socket srv, w));
         let srv = srv\<lparr>srv_audio_socket := audio_socket\<rparr>;
         if sp_audio params \<and> audio_socket = None then wifi_fail srv w
         else do {
           (speaker_socket, w) \<leftarrow>
             (if sp_audio params then connect_to_server env 100 host (base_port + 3) w
              else Some (srv_speaker_socket srv, w));
           let srv = srv\<lparr>srv_speaker_socket := speaker_socket\<rparr>;
           (control_socket, w) \<leftarrow>
             (if sp_control params then connect_to_server env 100 host (base_port + 4) w
              else Some (srv_control_socket srv, w));
           let srv = srv\<lparr>srv_control_socket := control_socket\<rparr>;
           if sp_control params \<and> control_socket = None then wifi_fail srv w
           else wifi_read_info env srv w
         }
       }
     }
   }"

section \<open>Through the tunnel\<close>

definition connect_fail ::
    "net_env \<Rightarrow> nat option \<Rightarrow> nat option \<Rightarrow> nat option \<Rightarrow> sc_server \<Rightarrow> net_world \<Rightarrow>
      (bool \<times> sc_server \<times> net_world) option" where
  "connect_fail env video_socket audio_socket control_socket srv w = do {
     w \<leftarrow> close_opt video_socket w;
     w \<leftarrow> close_opt audio_socket w;
     w \<leftarrow> close_opt control_socket w;
     if tn_enabled (srv_tunnel srv) then do {
       (_, tunnel, w) \<leftarrow> sc_adb_tunnel_close env (srv_tunnel srv) w;
       Some (False, srv\<lparr>srv_tunnel := tunnel\<rparr>, w)
     }
     else Some (False, srv, w)
   }"

text \<open>The sockets of the streams; the first component is false when one that is asked for is missing.\<close>

definition connect_reverse ::
    "net_env \<Rightarrow> sc_server \<Rightarrow> net_world \<Rightarrow> (bool \<times> nat option \<times> nat option \<times> nat option \<times> net_world) option" where
  "connect_reverse env srv w = do {
     server_socket \<leftarrow> tn_server_socket (srv_tunnel srv);
     let params = srv_params srv;
     (video_socket, w) \<leftarrow> (if sp_video params then net_accept_intr env server_socket w else Some (None, w));
     if sp_video params \<and> video_socket = None then Some (False, None, None, None, w)
     else do {
       (audio_socket, w) \<leftarrow> (if sp_audio params then net_accept_intr env server_socket w else Some (None, w));
       if sp_audio params \<and> audio_socket = None then Some (False, video_socket, None, None, w)
       else do {
         (control_socket, w) \<leftarrow> (if sp_control params then net_accept_intr env server_socket w else Some (None, w));
         Some (\<not> (sp_control params \<and> control_socket = None), video_socket, audio_socket, control_socket, w)
       }
     }
   }"

text \<open>A socket that is not the first one: it stays in its variable when it cannot be connected.\<close>

definition connect_next :: "net_env \<Rightarrow> u32 \<Rightarrow> u16 \<Rightarrow> net_world \<Rightarrow> (bool \<times> nat option \<times> net_world) option" where
  "connect_next env host port w = do {
     let (socket, w) = net_socket env w;
     case socket of
       None \<Rightarrow> Some (False, None, w)
     | Some s \<Rightarrow> do {
         (ok, w) \<leftarrow> net_connect_intr env s host port w;
         Some (ok, Some s, w)
       }
   }"

definition connect_forward ::
    "net_env \<Rightarrow> sc_server \<Rightarrow> net_world \<Rightarrow> (bool \<times> nat option \<times> nat option \<times> nat option \<times> net_world) option" where
  "connect_forward env srv w = do {
     let params = srv_params srv;
     let tunnel_host = (if sp_tunnel_host params = 0 then 0x7f000001 else sp_tunnel_host params);
     let tunnel_port = (if sp_tunnel_port params = 0 then tn_local_port (srv_tunnel srv) else sp_tunnel_port params);
     (first_socket, w) \<leftarrow> connect_to_server env 100 tunnel_host tunnel_port w;
     case first_socket of
       None \<Rightarrow> Some (False, None, None, None, w)
     | Some first_socket \<Rightarrow> do {
         let video_socket = (if sp_video params then Some first_socket else None);
         (ok, audio_socket, w) \<leftarrow>
           (if sp_audio params then
              (if \<not> sp_video params then Some (True, Some first_socket, w)
               else connect_next env tunnel_host tunnel_port w)
            else Some (True, None, w));
         if \<not> ok then Some (False, video_socket, audio_socket, None, w)
         else do {
           (ok, control_socket, w) \<leftarrow>
             (if sp_control params then
                (if \<not> sp_video params \<and> \<not> sp_audio params then Some (True, Some first_socket, w)
                 else connect_next env tunnel_host tunnel_port w)
              else Some (True, None, w));
           Some (ok, video_socket, audio_socket, control_socket, w)
         }
       }
   }"

definition sc_server_connect_to :: "net_env \<Rightarrow> sc_server \<Rightarrow> net_world \<Rightarrow> (bool \<times> sc_server \<times> net_world) option" where
  "sc_server_connect_to env srv w = do {
     c_assert (tn_enabled (srv_tunnel srv));
     c_assert (srv_serial srv \<noteq> None);
     let params = srv_params srv;
     (ok, video_socket, audio_socket, control_socket, w) \<leftarrow>
       (if \<not> tn_forward (srv_tunnel srv) then connect_reverse env srv w else connect_forward env srv w);
     if \<not> ok then connect_fail env video_socket audio_socket control_socket srv w
     else do {
       (_, tunnel, w) \<leftarrow> sc_adb_tunnel_close env (srv_tunnel srv) w;
       let srv = srv\<lparr>srv_tunnel := tunnel\<rparr>;
       first_socket \<leftarrow>
         (if sp_video params then video_socket else if sp_audio params then audio_socket else control_socket);
       (ok, info, w) \<leftarrow> device_read_info env first_socket (srv_info srv) w;
       let srv = srv\<lparr>srv_info := info\<rparr>;
       if \<not> ok then connect_fail env video_socket audio_socket control_socket srv w
       else do {
         c_assert (\<not> sp_video params \<or> video_socket \<noteq> None);
         c_assert (\<not> sp_audio params \<or> audio_socket \<noteq> None);
         c_assert (\<not> sp_control params \<or> control_socket \<noteq> None);
         Some (True, srv\<lparr>srv_video_socket := video_socket, srv_audio_socket := audio_socket,
           srv_control_socket := control_socket\<rparr>, w)
       }
     }
   }"

definition sc_server_destroy :: "sc_server \<Rightarrow> net_world \<Rightarrow> net_world option" where
  "sc_server_destroy srv w = do {
     w \<leftarrow> close_opt (srv_video_socket srv) w;
     w \<leftarrow> close_opt (srv_camera_socket srv) w;
     w \<leftarrow> close_opt (srv_audio_socket srv) w;
     w \<leftarrow> close_opt (srv_speaker_socket srv) w;
     w \<leftarrow> close_opt (srv_control_socket srv) w;
     sc_intr_destroy (nw_intr w);
     Some w
   }"

section \<open>What opening sockets keeps\<close>

text \<open>At most one more socket is open, and it is a fresh one.\<close>

definition opens :: "nat option \<Rightarrow> net_world \<Rightarrow> net_world \<Rightarrow> bool" where
  "opens r w w' \<longleftrightarrow> net_ok w' \<and> nw_next w \<le> nw_next w' \<and> nw_open w' = nw_open w \<union> set_option r \<and>
     (\<forall>s \<in> set_option r. nw_next w \<le> s \<and> s < nw_next w') \<and> (\<forall>x < nw_next w. nw_peer w' x = nw_peer w x)"

definition keeps :: "net_world \<Rightarrow> net_world \<Rightarrow> bool" where
  "keeps w w' \<longleftrightarrow> net_ok w' \<and> nw_next w' = nw_next w \<and> nw_open w' = nw_open w \<and> nw_peer w' = nw_peer w"

lemma keeps_trans: "keeps w w1 \<Longrightarrow> keeps w1 w2 \<Longrightarrow> keeps w w2"
  by (simp add: keeps_def)

lemma opens_keeps: "opens r w w1 \<Longrightarrow> keeps w1 w2 \<Longrightarrow> opens r w w2"
  by (simp add: opens_def keeps_def)

lemma keeps_opens: "keeps w w1 \<Longrightarrow> opens r w1 w2 \<Longrightarrow> opens r w w2"
  by (simp add: opens_def keeps_def)

lemma keeps_opens_None: "keeps w w' \<Longrightarrow> opens None w w'"
  by (simp add: opens_def keeps_def)

lemma opens_close:
  assumes "opens (Some s) w w1" "net_ok w" "net_close s w1 = Some w2"
  shows "opens None w w2"
  using assms by (auto simp: opens_def net_close_def net_ok_def tick_def split: bind_splits)

text \<open>Every sleep of the server ends: at its deadline or when it is stopped.\<close>

definition sleeps_end :: "net_env \<Rightarrow> bool" where
  "sleeps_end env \<longleftrightarrow> (\<forall>t. timer_loop (fst (ne_wakes env t)) False (snd (ne_wakes env t)) \<noteq> None)"

lemma sleep_ok:
  assumes "sleeps_end env" "net_ok w"
  shows "\<exists>ok w'. sc_server_sleep env w = Some (ok, w') \<and> keeps w w'"
proof -
  obtain stopped wakes where w: "ne_wakes env (nw_time w) = (stopped, wakes)" by force
  from assms(1) have "timer_loop stopped False wakes \<noteq> None"
    unfolding sleeps_end_def by (metis w fst_conv snd_conv)
  then obtain r where "timer_loop stopped False wakes = Some r" by blast
  with w assms(2) show ?thesis by (auto simp: sc_server_sleep_def keeps_def net_ok_def tick_def)
qed

lemma connect_and_read_ok:
  assumes "net_ok w" "s \<in> nw_open w"
  shows "\<exists>ok w'. connect_and_read_byte env s host port w = Some (ok, w') \<and> net_ok w' \<and> nw_open w' = nw_open w \<and>
    nw_next w' = nw_next w \<and> (\<forall>x. x \<noteq> s \<longrightarrow> nw_peer w' x = nw_peer w x) \<and> (ok \<longrightarrow> nw_peer w' s = Some (host, port))"
proof -
  from net_connect_ok [OF assms, of env host port] obtain ok w1 where
    c: "net_connect_intr env s host port w = Some (ok, w1)" "net_ok w1" "nw_open w1 = nw_open w" "nw_next w1 = nw_next w"
      "nw_peer w1 = (if ok then (nw_peer w)(s := Some (host, port)) else nw_peer w)" by blast
  from net_recv_ok(1) [OF c(2), of s env 1] assms(2) c(3) obtain bs w2 where
    "net_recv_intr env s 1 w1 = Some (bs, w2)" "net_ok w2" "nw_open w2 = nw_open w1" "nw_next w2 = nw_next w1"
    "nw_peer w2 = nw_peer w1" by auto
  with c show ?thesis by (cases ok) (auto simp: connect_and_read_byte_def)
qed

lemma connect_to_server_ok:
  assumes "sleeps_end env"
  shows "0 < n \<Longrightarrow> net_ok w \<Longrightarrow> \<exists>r w'. connect_to_server env n host port w = Some (r, w') \<and> opens r w w' \<and>
    (\<forall>s \<in> set_option r. nw_peer w' s = Some (host, port))"
proof (induction n arbitrary: w)
  case (Suc n)
  from net_socket_ok [OF Suc.prems(2), of env] obtain r1 w1 where
    w1: "net_socket env w = (r1, w1)" "net_ok w1" "nw_peer w1 = nw_peer w" "case r1 of
        None \<Rightarrow> nw_open w1 = nw_open w \<and> nw_next w1 = nw_next w
      | Some s \<Rightarrow> s = nw_next w \<and> nw_open w1 = insert s (nw_open w) \<and> nw_next w1 = Suc s" by blast
  let ?attempt = "case r1 of None \<Rightarrow> Some (False, w1) | Some s \<Rightarrow> do {
      (ok, w) \<leftarrow> connect_and_read_byte env s host port w1;
      if ok then Some (True, w) else do { w \<leftarrow> net_close s w; Some (False, w) } }"
  have "\<exists>c w2. ?attempt = Some (c, w2) \<and> opens (if c then r1 else None) w w2 \<and>
      (c \<longrightarrow> (\<exists>s. r1 = Some s \<and> nw_peer w2 s = Some (host, port)))"
  proof (cases r1)
    case None
    with w1 show ?thesis by (intro exI [of _ False] exI [of _ w1]) (simp add: opens_def)
  next
    case (Some s)
    with w1(4) have s: "s = nw_next w" "nw_open w1 = insert s (nw_open w)" "nw_next w1 = Suc s" by auto
    from connect_and_read_ok [OF w1(2), of s env host port] s(2) obtain ok w2 where
      c: "connect_and_read_byte env s host port w1 = Some (ok, w2)" "net_ok w2" "nw_open w2 = nw_open w1"
        "nw_next w2 = nw_next w1" "\<forall>x. x \<noteq> s \<longrightarrow> nw_peer w2 x = nw_peer w1 x" "ok \<longrightarrow> nw_peer w2 s = Some (host, port)"
      by blast
    have o: "opens (Some s) w w2" using c s w1(3) by (auto simp: opens_def)
    show ?thesis
    proof (cases ok)
      case True
      with Some c(1,6) o show ?thesis by (intro exI [of _ True] exI [of _ w2]) simp
    next
      case False
      from net_close_ok [OF c(2), of s] c(3) s(2) obtain w3 where w3: "net_close s w2 = Some w3" by auto
      with opens_close [OF o Suc.prems(2) this] Some c(1) False show ?thesis
        by (intro exI [of _ False] exI [of _ w3]) simp
    qed
  qed
  then obtain c w2 where t: "?attempt = Some (c, w2)" "opens (if c then r1 else None) w w2"
    "c \<longrightarrow> (\<exists>s. r1 = Some s \<and> nw_peer w2 s = Some (host, port))" by blast
  show ?case
  proof (cases "c \<or> sc_intr_is_interrupted (nw_intr w2)")
    case True
    with w1(1) t show ?thesis by (auto simp: Let_def)
  next
    case False
    with t(2) have o: "opens None w w2" by simp
    then have "net_ok w2" by (simp add: opens_def)
    from sleep_ok [OF assms this] obtain ok w3 where
      w3: "sc_server_sleep env w2 = Some (ok, w3)" "keeps w2 w3" by blast
    note o3 = opens_keeps [OF o w3(2)]
    show ?thesis
    proof (cases "ok \<and> n \<noteq> 0")
      case True
      with Suc.IH [of w3] w3(2) obtain r w4 where
        "connect_to_server env n host port w3 = Some (r, w4)" "opens r w3 w4" "\<forall>s \<in> set_option r. nw_peer w4 s = Some (host, port)"
        by (auto simp: keeps_def)
      with True False o3 w1(1) t(1) w3(1) show ?thesis by (auto simp: Let_def opens_def)
    next
      case stop: False
      with False o3 w1(1) t(1) w3(1) show ?thesis by (cases ok) (simp_all add: Let_def)
    qed
  qed
qed simp

lemma read_info_ok:
  assumes "net_ok w" "s \<in> nw_open w"
  shows "\<exists>ok info' w'. device_read_info env s info w = Some (ok, info', w') \<and> keeps w w'"
proof -
  from net_recv_ok(2) [OF assms, of env SC_DEVICE_NAME_FIELD_LENGTH] obtain bs w' where
    "net_recv_all_intr env s SC_DEVICE_NAME_FIELD_LENGTH w = Some (bs, w')" "keeps w w'" by (auto simp: keeps_def)
  then show ?thesis by (auto simp: device_read_info_def)
qed

section \<open>Sockets held in variables\<close>

definition opt_ids :: "nat option \<Rightarrow> nat list" where
  "opt_ids r = (case r of None \<Rightarrow> [] | Some s \<Rightarrow> [s])"

lemma opt_ids_simps [simp]: "opt_ids None = []" "opt_ids (Some s) = [s]" "set (opt_ids r) = set_option r"
  by (simp_all add: opt_ids_def split: option.split) auto

definition ids :: "nat option list \<Rightarrow> nat list" where
  "ids rs = concat (map opt_ids rs)"

lemma ids_simps [simp]: "ids [] = []" "ids (r # rs) = opt_ids r @ ids rs" "ids (rs @ rs') = ids rs @ ids rs'"
  by (simp_all add: ids_def)

text \<open>The sockets that are open besides those of \<open>w0\<close> are those of the variables, in the order they were opened.\<close>

definition held :: "net_world \<Rightarrow> nat option list \<Rightarrow> net_world \<Rightarrow> bool" where
  "held w0 rs w \<longleftrightarrow> net_ok w0 \<and> net_ok w \<and> nw_next w0 \<le> nw_next w \<and> nw_open w = nw_open w0 \<union> set (ids rs) \<and>
     sorted_wrt (<) (ids rs) \<and> (\<forall>s \<in> set (ids rs). nw_next w0 \<le> s \<and> s < nw_next w)"

lemma held_start: "net_ok w \<Longrightarrow> held w [] w"
  by (simp add: held_def)

lemma held_None [simp]: "held w0 (rs @ [None]) w = held w0 rs w"
  by (simp add: held_def)

lemma held_opens: "held w0 rs w \<Longrightarrow> opens r w w' \<Longrightarrow> held w0 (rs @ [r]) w'"
  by (cases r) (auto simp: held_def opens_def sorted_wrt_append intro: less_le_trans)

lemma held_keeps: "held w0 rs w \<Longrightarrow> keeps w w' \<Longrightarrow> held w0 rs w'"
  by (simp add: held_def keeps_def)

fun close_opts :: "nat option list \<Rightarrow> net_world \<Rightarrow> net_world option" where
  "close_opts [] w = Some w"
| "close_opts (r # rs) w = do {
     w \<leftarrow> close_opt r w;
     close_opts rs w
   }"

lemma close_opts_ok:
  "net_ok w \<Longrightarrow> distinct (ids rs) \<Longrightarrow> set (ids rs) \<subseteq> nw_open w \<Longrightarrow>
    \<exists>w'. close_opts rs w = Some w' \<and> net_ok w' \<and> nw_open w' = nw_open w - set (ids rs) \<and> nw_next w' = nw_next w \<and>
      nw_peer w' = nw_peer w"
proof (induction rs arbitrary: w)
  case (Cons r rs)
  show ?case
  proof (cases r)
    case None
    with Cons show ?thesis by (simp add: close_opt_def)
  next
    case (Some s)
    with Cons.prems have "s \<in> nw_open w" by simp
    from net_close_ok [OF Cons.prems(1) this] obtain w1 where
      w1: "net_close s w = Some w1" "net_ok w1" "nw_open w1 = nw_open w - {s}" "nw_next w1 = nw_next w" "nw_peer w1 = nw_peer w"
      by blast
    have "set (ids rs) \<subseteq> nw_open w1" "distinct (ids rs)" using Some Cons.prems w1(3) by auto
    from Cons.IH [OF w1(2) this(2,1)] Some w1 show ?thesis by (auto simp: close_opt_def)
  qed
qed simp

lemma sorted_distinct: "sorted_wrt (<) (xs :: nat list) \<Longrightarrow> distinct xs"
  by (induction xs) auto

lemma held_close:
  assumes "held w0 rs w"
  shows "\<exists>w'. close_opts rs w = Some w' \<and> net_ok w' \<and> nw_open w' = nw_open w0 \<and> nw_next w0 \<le> nw_next w'"
proof -
  have h: "net_ok w" "distinct (ids rs)" "set (ids rs) \<subseteq> nw_open w" using assms sorted_distinct by (auto simp: held_def)
  from close_opts_ok [OF this] obtain w' where
    "close_opts rs w = Some w'" "net_ok w'" "nw_open w' = nw_open w - set (ids rs)" "nw_next w' = nw_next w" by blast
  moreover have "nw_open w - set (ids rs) = nw_open w0"
    using assms by (auto simp: held_def net_ok_def) (metis leD)
  ultimately show ?thesis using assms by (auto simp: held_def)
qed

section \<open>Through the tunnel\<close>

lemma accept_opens:
  assumes "net_ok w" "server \<in> nw_open w"
  shows "\<exists>r w'. net_accept_intr env server w = Some (r, w') \<and> opens r w w'"
proof -
  from net_accept_ok [OF assms, of env] obtain r w' where
    "net_accept_intr env server w = Some (r, w')" "net_ok w'" "nw_peer w' = nw_peer w" "case r of
        None \<Rightarrow> nw_open w' = nw_open w \<and> nw_next w' = nw_next w
      | Some s \<Rightarrow> s = nw_next w \<and> nw_open w' = insert s (nw_open w) \<and> nw_next w' = Suc s" by blast
  then show ?thesis by (cases r) (auto simp: opens_def)
qed

lemma connect_next_opens:
  assumes "net_ok w"
  shows "\<exists>ok r w'. connect_next env host port w = Some (ok, r, w') \<and> opens r w w' \<and> (ok \<longrightarrow> r \<noteq> None)"
proof -
  from net_socket_ok [OF assms, of env] obtain r w1 where
    w1: "net_socket env w = (r, w1)" "net_ok w1" "nw_peer w1 = nw_peer w" "case r of
        None \<Rightarrow> nw_open w1 = nw_open w \<and> nw_next w1 = nw_next w
      | Some s \<Rightarrow> s = nw_next w \<and> nw_open w1 = insert s (nw_open w) \<and> nw_next w1 = Suc s" by blast
  show ?thesis
  proof (cases r)
    case None
    with w1 show ?thesis by (intro exI [of _ False]) (auto simp: connect_next_def opens_def)
  next
    case (Some s)
    with w1 have s: "s \<in> nw_open w1" by auto
    from net_connect_ok [OF w1(2) s, of env host port] obtain ok w2 where
      c: "net_connect_intr env s host port w1 = Some (ok, w2)" "net_ok w2" "nw_open w2 = nw_open w1" "nw_next w2 = nw_next w1"
        "nw_peer w2 = (if ok then (nw_peer w1)(s := Some (host, port)) else nw_peer w1)" by blast
    have "opens (Some s) w w2" using c w1 Some by (auto simp: opens_def)
    with Some w1(1) c(1) show ?thesis by (auto simp: connect_next_def)
  qed
qed

text \<open>An optional step, when it is not asked for, opens nothing.\<close>

lemma opens_refl: "net_ok w \<Longrightarrow> opens None w w"
  by (simp add: opens_def)

lemma connect_reverse_ok:
  assumes "net_ok w0" "tn_server_socket (srv_tunnel srv) = Some server" "server \<in> nw_open w0"
  shows "\<exists>ok v a c w. connect_reverse env srv w0 = Some (ok, v, a, c, w) \<and> held w0 [v, a, c] w \<and>
    (ok \<longrightarrow> (v \<noteq> None \<longleftrightarrow> sp_video (srv_params srv)) \<and> (a \<noteq> None \<longleftrightarrow> sp_audio (srv_params srv)) \<and>
      (c \<noteq> None \<longleftrightarrow> sp_control (srv_params srv)))"
proof -
  have accept: "\<exists>r w'. (if b then net_accept_intr env server w else Some (None, w)) = Some (r, w') \<and> held w0 (rs @ [r]) w' \<and>
      (\<not> b \<longrightarrow> r = None)" if "held w0 rs w" for b rs w
  proof (cases b)
    case True
    have "net_ok w" "server \<in> nw_open w" using that assms(3) by (auto simp: held_def)
    from accept_opens [OF this, of env] True held_opens [OF that] show ?thesis by auto
  next
    case False
    with that show ?thesis by auto
  qed
  let ?p = "srv_params srv"
  from accept [OF held_start [OF assms(1)], of "sp_video ?p"] obtain v w1 where
    v: "(if sp_video ?p then net_accept_intr env server w0 else Some (None, w0)) = Some (v, w1)" "held w0 [v] w1"
      "\<not> sp_video ?p \<longrightarrow> v = None" by auto
  show ?thesis
  proof (cases "sp_video ?p \<and> v = None")
    case True
    with v assms(2) show ?thesis
      by (intro exI [of _ False] exI [of _ None] exI [of _ w1]) (simp add: connect_reverse_def held_def)
  next
    case ok1: False
    from accept [OF v(2), of "sp_audio ?p"] obtain a w2 where
      a: "(if sp_audio ?p then net_accept_intr env server w1 else Some (None, w1)) = Some (a, w2)" "held w0 [v, a] w2"
        "\<not> sp_audio ?p \<longrightarrow> a = None" by auto
    show ?thesis
    proof (cases "sp_audio ?p \<and> a = None")
      case True
      have "connect_reverse env srv w0 = Some (False, v, None, None, w2)"
        using v(1) ok1 a(1) True assms(2) by (auto simp: connect_reverse_def Let_def)
      moreover have "held w0 [v, None, None] w2" using a(2) True by (cases v) (simp_all add: held_def)
      ultimately show ?thesis by blast
    next
      case ok2: False
      from accept [OF a(2), of "sp_control ?p"] obtain c w3 where
        c: "(if sp_control ?p then net_accept_intr env server w2 else Some (None, w2)) = Some (c, w3)" "held w0 [v, a, c] w3"
          "\<not> sp_control ?p \<longrightarrow> c = None" by auto
      have "connect_reverse env srv w0 = Some (\<not> (sp_control ?p \<and> c = None), v, a, c, w3)"
        using v(1) ok1 a(1) ok2 c(1) assms(2) by (auto simp: connect_reverse_def Let_def)
      with v(3) ok1 a(3) ok2 c(2,3) show ?thesis by blast
    qed
  qed
qed

lemma connect_forward_ok:
  assumes "sleeps_end env" "net_ok w0" "sp_video (srv_params srv) \<or> sp_audio (srv_params srv) \<or> sp_control (srv_params srv)"
  shows "\<exists>ok v a c w. connect_forward env srv w0 = Some (ok, v, a, c, w) \<and> held w0 [v, a, c] w \<and>
    (ok \<longrightarrow> (v \<noteq> None \<longleftrightarrow> sp_video (srv_params srv)) \<and> (a \<noteq> None \<longleftrightarrow> sp_audio (srv_params srv)) \<and>
      (c \<noteq> None \<longleftrightarrow> sp_control (srv_params srv)))"
proof -
  let ?p = "srv_params srv"
  let ?host = "if sp_tunnel_host ?p = 0 then 0x7f000001 else sp_tunnel_host ?p"
  let ?port = "if sp_tunnel_port ?p = 0 then tn_local_port (srv_tunnel srv) else sp_tunnel_port ?p"
  from connect_to_server_ok [OF assms(1) _ assms(2), of 100 ?host ?port] obtain first w1 where
    f: "connect_to_server env 100 ?host ?port w0 = Some (first, w1)" "opens first w0 w1" by auto
  show ?thesis
  proof (cases first)
    case None
    with f held_opens [OF held_start [OF assms(2)] f(2)] show ?thesis
      by (intro exI [of _ False] exI [of _ None] exI [of _ w1]) (simp add: connect_forward_def Let_def held_def)
  next
    case (Some s)
    have h1: "held w0 [Some s] w1" using held_opens [OF held_start [OF assms(2)] f(2)] Some by simp
    have more: "\<exists>ok r w'. connect_next env ?host ?port w = Some (ok, r, w') \<and> held w0 (rs @ [r]) w' \<and> (ok \<longrightarrow> r \<noteq> None)"
      if "held w0 rs w" for rs w
    proof -
      from that have "net_ok w" by (simp add: held_def)
      from connect_next_opens [OF this, of env ?host ?port] held_opens [OF that] show ?thesis by blast
    qed
    let ?v = "if sp_video ?p then Some s else None"
    let ?audio = "if sp_audio ?p then (if \<not> sp_video ?p then Some (True, Some s, w1) else connect_next env ?host ?port w1)
      else Some (True, None, w1)"
    have "\<exists>ok a w2. ?audio = Some (ok, a, w2) \<and> (if sp_video ?p \<or> sp_audio ?p then held w0 [?v, a] w2
        else w2 = w1 \<and> a = None) \<and> (ok \<longrightarrow> (a \<noteq> None \<longleftrightarrow> sp_audio ?p)) \<and> (\<not> ok \<longrightarrow> sp_video ?p)"
      using more [OF h1] h1 by (cases "sp_audio ?p"; cases "sp_video ?p") (auto simp: held_def)
    then obtain ok a w2 where a: "?audio = Some (ok, a, w2)"
      "if sp_video ?p \<or> sp_audio ?p then held w0 [?v, a] w2 else w2 = w1 \<and> a = None" "ok \<longrightarrow> (a \<noteq> None \<longleftrightarrow> sp_audio ?p)"
      "\<not> ok \<longrightarrow> sp_video ?p" by blast
    show ?thesis
    proof (cases ok)
      case False
      with a(2,4) have "held w0 [?v, a, None] w2" using held_None [of w0 "[?v, a]" w2] by simp
      with False f(1) Some a(1) show ?thesis
        by (intro exI [of _ False] exI [of _ ?v] exI [of _ a] exI [of _ None] exI [of _ w2]) (simp add: connect_forward_def Let_def)
    next
      case True
      let ?control = "if sp_control ?p then (if \<not> sp_video ?p \<and> \<not> sp_audio ?p then Some (True, Some s, w2)
        else connect_next env ?host ?port w2) else Some (True, None, w2)"
      have "\<exists>ok c w3. ?control = Some (ok, c, w3) \<and> held w0 [?v, a, c] w3 \<and> (ok \<longrightarrow> (c \<noteq> None \<longleftrightarrow> sp_control ?p))"
      proof (cases "sp_video ?p \<or> sp_audio ?p")
        case va: True
        with a(2) have h2: "held w0 [?v, a] w2" by simp
        show ?thesis
        proof (cases "sp_control ?p")
          case True
          with va more [OF h2] show ?thesis by auto
        next
          case False
          with held_None [of w0 "[?v, a]" w2] h2 show ?thesis
            by (intro exI [of _ True] exI [of _ None] exI [of _ w2]) simp
        qed
      next
        case none: False
        with a(2) h1 assms(3) show ?thesis by (auto simp: held_def)
      qed
      then obtain ok3 c w3 where c: "?control = Some (ok3, c, w3)" "held w0 [?v, a, c] w3"
        "ok3 \<longrightarrow> (c \<noteq> None \<longleftrightarrow> sp_control ?p)" by blast
      have "connect_forward env srv w0 = Some (ok3, ?v, a, c, w3)"
        using f(1) Some a(1) True c(1) by (simp add: connect_forward_def Let_def)
      with a(3) True c(2,3) show ?thesis by (intro exI [of _ ok3]) auto
    qed
  qed
qed

lemma connect_fail_ok:
  assumes "held w0 [v, a, c] w" "tn_enabled (srv_tunnel srv) \<Longrightarrow> tunnel_ok (srv_tunnel srv) w0"
  shows "\<exists>tunnel w'. connect_fail env v a c srv w = Some (False, srv\<lparr>srv_tunnel := tunnel\<rparr>, w') \<and> \<not> tn_enabled tunnel \<and>
    net_ok w' \<and> nw_open w' = nw_open w0 - (if tn_enabled (srv_tunnel srv) then tunnel_sockets (srv_tunnel srv) else {})"
proof -
  from held_close [OF assms(1)] obtain w1 where
    c: "close_opts [v, a, c] w = Some w1" "net_ok w1" "nw_open w1 = nw_open w0" by blast
  then obtain w2 w3 where cl: "close_opt v w = Some w2" "close_opt a w2 = Some w3" "close_opt c w3 = Some w1"
    by (auto split: bind_splits)
  show ?thesis
  proof (cases "tn_enabled (srv_tunnel srv)")
    case False
    with cl c show ?thesis by (intro exI [of _ "srv_tunnel srv"]) (simp add: connect_fail_def)
  next
    case True
    with assms(2) c have "tunnel_ok (srv_tunnel srv) w1" by (auto simp: tunnel_ok_def)
    from tunnel_close_ok [OF this True, of env] obtain ret w4 where
      "sc_adb_tunnel_close env (srv_tunnel srv) w1 = Some (ret, (srv_tunnel srv)\<lparr>tn_enabled := False\<rparr>, w4)" "net_ok w4"
      "nw_open w4 = nw_open w1 - tunnel_sockets (srv_tunnel srv)" by blast
    with cl c(3) True show ?thesis
      by (intro exI [of _ "(srv_tunnel srv)\<lparr>tn_enabled := False\<rparr>"] exI [of _ w4]) (simp add: connect_fail_def)
  qed
qed

text \<open>The streams of the client with their sockets.\<close>

definition client_streams :: "sc_server \<Rightarrow> (stream \<times> nat) list" where
  "client_streams srv =
     (case srv_video_socket srv of None \<Rightarrow> [] | Some s \<Rightarrow> [(Video_stream, s)]) @
     (case srv_audio_socket srv of None \<Rightarrow> [] | Some s \<Rightarrow> [(Audio_stream, s)]) @
     (case srv_control_socket srv of None \<Rightarrow> [] | Some s \<Rightarrow> [(Control_stream, s)])"

text \<open>The streams that are asked for, in the order of the connections.\<close>

definition asked_streams :: "sc_server_params \<Rightarrow> stream list" where
  "asked_streams params = (if sp_video params then [Video_stream] else []) @
     (if sp_audio params then [Audio_stream] else []) @ (if sp_control params then [Control_stream] else [])"

lemma client_streams_ids:
  "map snd (client_streams srv) = ids [srv_video_socket srv, srv_audio_socket srv, srv_control_socket srv]"
  by (simp add: client_streams_def split: option.split)

definition connected :: "net_world \<Rightarrow> sc_server \<Rightarrow> net_world \<Rightarrow> bool" where
  "connected w srv w' \<longleftrightarrow> map fst (client_streams srv) = asked_streams (srv_params srv) \<and>
     sorted_wrt (<) (map snd (client_streams srv)) \<and>
     nw_open w' = nw_open w \<union> snd ` set (client_streams srv) \<and> snd ` set (client_streams srv) \<inter> nw_open w = {}"

lemma held_tunnel:
  assumes "held w0 rs w" "tunnel_ok t w0"
  shows "tunnel_ok t w"
  using assms by (auto simp: held_def tunnel_ok_def)

lemma connect_to_ok:
  assumes env: "sleeps_end env" and w: "tunnel_ok (srv_tunnel srv) w" "tn_enabled (srv_tunnel srv)" "srv_serial srv \<noteq> None"
    and p: "asked_streams (srv_params srv) \<noteq> []"
  shows "\<exists>ok srv' w'. sc_server_connect_to env srv w = Some (ok, srv', w') \<and> \<not> tn_enabled (srv_tunnel srv') \<and> net_ok w' \<and>
    srv_params srv' = srv_params srv \<and>
    (let w0 = w\<lparr>nw_open := nw_open w - tunnel_sockets (srv_tunnel srv)\<rparr> in
     if ok then connected w0 srv' w' else nw_open w' = nw_open w0 \<and>
       (srv_video_socket srv', srv_audio_socket srv', srv_control_socket srv') =
       (srv_video_socket srv, srv_audio_socket srv, srv_control_socket srv))"
proof -
  let ?p = "srv_params srv"
  have net: "net_ok w" using w(1) by (simp add: tunnel_ok_def)
  have asked: "sp_video ?p \<or> sp_audio ?p \<or> sp_control ?p" using p by (auto simp: asked_streams_def split: if_splits)
  let ?open = "if \<not> tn_forward (srv_tunnel srv) then connect_reverse env srv w else connect_forward env srv w"
  have "\<exists>ok v a c w1. ?open = Some (ok, v, a, c, w1) \<and> held w [v, a, c] w1 \<and>
      (ok \<longrightarrow> (v \<noteq> None \<longleftrightarrow> sp_video ?p) \<and> (a \<noteq> None \<longleftrightarrow> sp_audio ?p) \<and> (c \<noteq> None \<longleftrightarrow> sp_control ?p))"
  proof (cases "tn_forward (srv_tunnel srv)")
    case True
    with connect_forward_ok [OF env net asked] show ?thesis by simp
  next
    case False
    with w obtain s where "tn_server_socket (srv_tunnel srv) = Some s" "s \<in> nw_open w" by (auto simp: tunnel_ok_def)
    from connect_reverse_ok [OF net this, of env] False show ?thesis by simp
  qed
  then obtain ok v a c w1 where o: "?open = Some (ok, v, a, c, w1)" "held w [v, a, c] w1"
    "ok \<longrightarrow> (v \<noteq> None \<longleftrightarrow> sp_video ?p) \<and> (a \<noteq> None \<longleftrightarrow> sp_audio ?p) \<and> (c \<noteq> None \<longleftrightarrow> sp_control ?p)" by blast
  show ?thesis
  proof (cases ok)
    case False
    from connect_fail_ok [OF o(2) w(1), where env = env] obtain tunnel w' where
      "connect_fail env v a c srv w1 = Some (False, srv\<lparr>srv_tunnel := tunnel\<rparr>, w')" "\<not> tn_enabled tunnel" "net_ok w'"
      "nw_open w' = nw_open w - tunnel_sockets (srv_tunnel srv)" using w(2) by auto
    with o(1) False w(2,3) show ?thesis
      by (intro exI [of _ False] exI [of _ "srv\<lparr>srv_tunnel := tunnel\<rparr>"] exI [of _ w'])
        (simp add: sc_server_connect_to_def Let_def)
  next
    case True
    with o(3) have given: "v \<noteq> None \<longleftrightarrow> sp_video ?p" "a \<noteq> None \<longleftrightarrow> sp_audio ?p" "c \<noteq> None \<longleftrightarrow> sp_control ?p" by auto
    let ?t = "(srv_tunnel srv)\<lparr>tn_enabled := False\<rparr>" and ?ts = "tunnel_sockets (srv_tunnel srv)"
    from tunnel_close_ok [OF held_tunnel [OF o(2) w(1)] w(2), of env] obtain ret w2 where
      t: "sc_adb_tunnel_close env (srv_tunnel srv) w1 = Some (ret, ?t, w2)" "net_ok w2" "nw_open w2 = nw_open w1 - ?ts"
        "nw_next w2 = nw_next w1" "nw_peer w2 = nw_peer w1" by blast
    let ?w0 = "w\<lparr>nw_open := nw_open w - ?ts\<rparr>"
    have ts: "?ts \<subseteq> nw_open w" using w(1) by (auto simp: tunnel_sockets_def tunnel_ok_def)
    have fresh: "set (ids [v, a, c]) \<inter> nw_open w = {}" using o(2) by (auto simp: held_def net_ok_def)
    have held2: "held ?w0 [v, a, c] w2"
      using o(2) t ts fresh net by (auto simp: held_def net_ok_def)
    let ?first = "if sp_video ?p then v else if sp_audio ?p then a else c"
    obtain s where s: "?first = Some s" using given asked by (auto split: if_splits)
    have "s \<in> nw_open w2" using s held2 by (auto simp: held_def split: if_splits)
    from read_info_ok [OF t(2) this, of env "srv_info srv"] obtain ok3 info w3 where
      i: "device_read_info env s (srv_info srv) w2 = Some (ok3, info, w3)" "keeps w2 w3" by blast
    note held3 = held_keeps [OF held2 i(2)]
    let ?srv = "srv\<lparr>srv_tunnel := ?t, srv_info := info\<rparr>"
    show ?thesis
    proof (cases ok3)
      case False
      from connect_fail_ok [OF held3, of ?srv env] obtain tunnel w' where
        "connect_fail env v a c ?srv w3 = Some (False, ?srv\<lparr>srv_tunnel := tunnel\<rparr>, w')" "\<not> tn_enabled tunnel" "net_ok w'"
        "nw_open w' = nw_open w - ?ts" by auto
      with o(1) True w(2,3) t(1) s i(1) False show ?thesis
        by (intro exI [of _ False] exI [of _ "?srv\<lparr>srv_tunnel := tunnel\<rparr>"] exI [of _ w'])
          (simp add: sc_server_connect_to_def Let_def)
    next
      case read: True
      let ?srv' = "?srv\<lparr>srv_video_socket := v, srv_audio_socket := a, srv_control_socket := c\<rparr>"
      have "sc_server_connect_to env srv w = Some (True, ?srv', w3)"
        using o(1) True w(2,3) t(1) s i(1) read given by (simp add: sc_server_connect_to_def Let_def)
      moreover have "connected ?w0 ?srv' w3"
      proof -
        have sn: "snd ` set (client_streams ?srv') = set (ids [v, a, c])"
          using arg_cong [OF client_streams_ids [of ?srv'], of set] by simp
        have "map fst (client_streams ?srv') = asked_streams ?p"
          using given by (auto simp: client_streams_def asked_streams_def split: option.split)
        moreover have "set (ids [v, a, c]) \<inter> nw_open ?w0 = {}" using fresh by auto
        ultimately show ?thesis
          using held3 unfolding connected_def sn client_streams_ids by (simp add: held_def)
      qed
      moreover have "net_ok w3" using i(2) by (simp add: keeps_def)
      ultimately show ?thesis by (intro exI [of _ True] exI [of _ ?srv'] exI [of _ w3]) (simp add: Let_def)
    qed
  qed
qed

section \<open>Wi-Fi\<close>

text \<open>The five sockets of a server.\<close>

definition server_sockets :: "sc_server \<Rightarrow> nat option list" where
  "server_sockets srv = [srv_video_socket srv, srv_camera_socket srv, srv_audio_socket srv, srv_speaker_socket srv,
     srv_control_socket srv]"

lemma wifi_fail_eq:
  "wifi_fail srv w = do {
     w \<leftarrow> close_opts (server_sockets srv) w;
     Some (False, srv\<lparr>srv_video_socket := None, srv_camera_socket := None, srv_audio_socket := None,
       srv_speaker_socket := None, srv_control_socket := None\<rparr>, w)
   }"
  by (simp add: wifi_fail_def server_sockets_def bind_assoc)

lemma wifi_fail_ok:
  assumes "held w0 (server_sockets srv) w"
  shows "\<exists>srv' w'. wifi_fail srv w = Some (False, srv', w') \<and> server_sockets srv' = replicate 5 None \<and> net_ok w' \<and>
    nw_open w' = nw_open w0"
proof -
  from held_close [OF assms] obtain w' where
    "close_opts (server_sockets srv) w = Some w'" "net_ok w'" "nw_open w' = nw_open w0" by blast
  then show ?thesis unfolding wifi_fail_eq by (simp add: server_sockets_def numeral_eq_Suc)
qed

text \<open>Sockets held, each connected to the given address.\<close>

definition wired :: "net_world \<Rightarrow> u32 \<Rightarrow> (nat option \<times> u16) list \<Rightarrow> net_world \<Rightarrow> bool" where
  "wired w0 host rps w \<longleftrightarrow> held w0 (map fst rps) w \<and>
     (\<forall>(r, port) \<in> set rps. \<forall>s \<in> set_option r. nw_peer w s = Some (host, port))"

lemma set_ids: "s \<in> set (ids rs) \<longleftrightarrow> Some s \<in> set rs"
  by (induction rs) (auto simp: elem_set)

lemma wired_connect:
  assumes "wired w0 host rps w" "sleeps_end env"
  shows "\<exists>r w'. (if b then connect_to_server env 100 host port w else Some (None, w)) = Some (r, w') \<and>
    wired w0 host (rps @ [(r, port)]) w' \<and> (\<not> b \<longrightarrow> r = None)"
proof (cases b)
  case True
  have h: "held w0 (map fst rps) w" using assms(1) by (simp add: wired_def)
  then have "net_ok w" by (simp add: held_def)
  from connect_to_server_ok [OF assms(2) _ this, of 100 host port] obtain r w' where
    c: "connect_to_server env 100 host port w = Some (r, w')" "opens r w w'" "\<forall>s \<in> set_option r. nw_peer w' s = Some (host, port)"
    by auto
  have "held w0 (map fst (rps @ [(r, port)])) w'" using held_opens [OF h c(2)] by simp
  moreover have "nw_peer w' s = nw_peer w s" if "(Some s, p) \<in> set rps" for s p
  proof -
    from that have "s \<in> set (ids (map fst rps))" by (force simp: set_ids)
    with h c(2) show ?thesis by (simp add: held_def opens_def)
  qed
  ultimately have "wired w0 host (rps @ [(r, port)]) w'" using assms(1) c(3) by (force simp: wired_def)
  with True c(1) show ?thesis by simp
next
  case False
  with assms(1) show ?thesis by (auto simp: wired_def held_def)
qed

definition wifi_port :: "sc_server_params \<Rightarrow> u16" where
  "wifi_port params = (if sp_wifi_port params = 0 then 5000 else sp_wifi_port params)"

lemma wired_held: "wired w0 host rps w \<Longrightarrow> held w0 (map fst rps) w"
  by (simp add: wired_def)

lemma no_socket_upd:
  "srv_video_socket s = None \<Longrightarrow> s\<lparr>srv_video_socket := None\<rparr> = s"
  "srv_camera_socket s = None \<Longrightarrow> s\<lparr>srv_camera_socket := None\<rparr> = s"
  "srv_audio_socket s = None \<Longrightarrow> s\<lparr>srv_audio_socket := None\<rparr> = s"
  "srv_speaker_socket s = None \<Longrightarrow> s\<lparr>srv_speaker_socket := None\<rparr> = s"
  "srv_control_socket s = None \<Longrightarrow> s\<lparr>srv_control_socket := None\<rparr> = s"
  by (cases s; simp)+

lemma connect_wifi_ok:
  assumes env: "sleeps_end env" and net: "net_ok w" and none: "server_sockets srv = replicate 5 None"
  shows "\<exists>ok srv' w'. sc_server_connect_wifi env srv w = Some (ok, srv', w') \<and> net_ok w' \<and>
    (if ok then
       wired w (sp_tunnel_host (srv_params srv)) (zip (server_sockets srv')
         [wifi_port (srv_params srv), wifi_port (srv_params srv) + 1, wifi_port (srv_params srv) + 2,
          wifi_port (srv_params srv) + 3, wifi_port (srv_params srv) + 4]) w' \<and>
       (srv_video_socket srv' \<noteq> None \<longleftrightarrow> sp_video (srv_params srv)) \<and>
       (srv_audio_socket srv' \<noteq> None \<longleftrightarrow> sp_audio (srv_params srv)) \<and>
       (srv_control_socket srv' \<noteq> None \<longleftrightarrow> sp_control (srv_params srv)) \<and>
       (srv_camera_socket srv' \<noteq> None \<longrightarrow> sp_multistream (srv_params srv) \<and> sp_video (srv_params srv)) \<and>
       (srv_speaker_socket srv' \<noteq> None \<longrightarrow> sp_audio (srv_params srv))
     else nw_open w' = nw_open w \<and> server_sockets srv' = replicate 5 None)"
proof -
  let ?p = "srv_params srv"
  let ?host = "sp_tunnel_host ?p" and ?port = "wifi_port (srv_params srv)"
  have none': "srv_video_socket srv = None" "srv_camera_socket srv = None" "srv_audio_socket srv = None"
    "srv_speaker_socket srv = None" "srv_control_socket srv = None"
    using none by (simp_all add: server_sockets_def numeral_eq_Suc)
  note port = wifi_port_def [symmetric]
  note def = sc_server_connect_wifi_def Let_def port none'
  have fail: ?thesis if "sc_server_connect_wifi env srv w = wifi_fail srv' w'" "held w (server_sockets srv') w'" for srv' w'
    using wifi_fail_ok [OF that(2)] that(1) by auto
  have start: "wired w ?host [] w" using held_start [OF net] by (simp add: wired_def)
  show ?thesis
  proof (cases "?host = 0")
    case True
    then have "sc_server_connect_wifi env srv w = wifi_fail srv w" by (simp add: def)
    then show ?thesis by (rule fail) (use held_start [OF net] in \<open>simp add: server_sockets_def none' held_def\<close>)
  next
    case host: False
    from wired_connect [OF start env, of "sp_video ?p" ?port] obtain v w1 where
      v: "(if sp_video ?p then connect_to_server env 100 ?host ?port w else Some (None, w)) = Some (v, w1)"
        "wired w ?host [(v, ?port)] w1" "\<not> sp_video ?p \<longrightarrow> v = None" by auto
    show ?thesis
    proof (cases "sp_video ?p \<and> v = None")
      case True
      have "sc_server_connect_wifi env srv w = wifi_fail (srv\<lparr>srv_video_socket := v\<rparr>) w1"
        using v(1) host True by (simp add: def)
      then show ?thesis by (rule fail) (use wired_held [OF v(2)] in \<open>simp add: server_sockets_def none' held_def\<close>)
    next
      case ok1: False
      from wired_connect [OF v(2) env, of "sp_multistream ?p \<and> sp_video ?p" "?port + 1"] obtain m w2 where
        m: "(if sp_multistream ?p \<and> sp_video ?p then connect_to_server env 100 ?host (?port + 1) w1 else Some (None, w1)) =
            Some (m, w2)" "wired w ?host [(v, ?port), (m, ?port + 1)] w2" "\<not> (sp_multistream ?p \<and> sp_video ?p) \<longrightarrow> m = None"
        by auto
      from wired_connect [OF m(2) env, of "sp_audio ?p" "?port + 2"] obtain a w3 where
        a: "(if sp_audio ?p then connect_to_server env 100 ?host (?port + 2) w2 else Some (None, w2)) = Some (a, w3)"
          "wired w ?host [(v, ?port), (m, ?port + 1), (a, ?port + 2)] w3" "\<not> sp_audio ?p \<longrightarrow> a = None"
        by auto
      show ?thesis
      proof (cases "sp_audio ?p \<and> a = None")
        case True
        have "sc_server_connect_wifi env srv w =
            wifi_fail (srv\<lparr>srv_video_socket := v, srv_camera_socket := m, srv_audio_socket := a\<rparr>) w3"
          using v(1) host ok1 m(1) a(1) True by (auto simp: def)
        then show ?thesis by (rule fail) (use wired_held [OF a(2)] in \<open>simp add: server_sockets_def none' held_def\<close>)
      next
        case ok2: False
        from wired_connect [OF a(2) env, of "sp_audio ?p" "?port + 3"] obtain k w4 where
          k: "(if sp_audio ?p then connect_to_server env 100 ?host (?port + 3) w3 else Some (None, w3)) = Some (k, w4)"
            "wired w ?host [(v, ?port), (m, ?port + 1), (a, ?port + 2), (k, ?port + 3)] w4" "\<not> sp_audio ?p \<longrightarrow> k = None"
          by auto
        from wired_connect [OF k(2) env, of "sp_control ?p" "?port + 4"] obtain c w5 where
          c: "(if sp_control ?p then connect_to_server env 100 ?host (?port + 4) w4 else Some (None, w4)) = Some (c, w5)"
            "wired w ?host [(v, ?port), (m, ?port + 1), (a, ?port + 2), (k, ?port + 3), (c, ?port + 4)] w5"
            "\<not> sp_control ?p \<longrightarrow> c = None"
          by auto
        let ?srv = "srv\<lparr>srv_video_socket := v, srv_camera_socket := m, srv_audio_socket := a, srv_speaker_socket := k,
          srv_control_socket := c\<rparr>"
        have h5: "held w (server_sockets ?srv) w5" using wired_held [OF c(2)] by (simp add: server_sockets_def)
        let ?info = "if v \<noteq> None then v else if m \<noteq> None then m else a"
        have eq: "sc_server_connect_wifi env srv w =
            (if sp_control ?p \<and> c = None then wifi_fail ?srv w5 else wifi_read_info env ?srv w5)"
          using v(1) host ok1 m(1) a(1) ok2 k(1) c(1)
          by (cases "sp_video ?p"; cases "sp_multistream ?p"; cases "sp_audio ?p"; cases "sp_control ?p") (auto simp: def no_socket_upd)
        have info: "wifi_read_info env ?srv w5 = (case ?info of None \<Rightarrow> Some (True, ?srv, w5)
            | Some s \<Rightarrow> do {
                (ok, info, w) \<leftarrow> device_read_info env s (srv_info ?srv) w5;
                if \<not> ok then wifi_fail ?srv w else Some (True, ?srv\<lparr>srv_info := info\<rparr>, w) })"
          unfolding wifi_read_info_def Let_def by (cases v; cases m; cases a; simp)
        note done_ok = v(3) ok1 m(3) a(3) ok2 k(3) c(3)
        show ?thesis
        proof (cases "sp_control ?p \<and> c = None")
          case True
          with eq have "sc_server_connect_wifi env srv w = wifi_fail ?srv w5" by simp
          then show ?thesis by (rule fail) (rule h5)
        next
          case ok3: False
          show ?thesis
          proof (cases ?info)
            case None
            with eq ok3 info have "sc_server_connect_wifi env srv w = Some (True, ?srv, w5)" by (auto split: if_splits)
            with c(2) h5 done_ok ok3 show ?thesis
              by (intro exI [of _ True] exI [of _ ?srv] exI [of _ w5]) (auto simp: server_sockets_def held_def)
          next
            case (Some s)
            then have "s \<in> nw_open w5" using h5 by (auto simp: held_def server_sockets_def set_ids split: if_splits)
            moreover have "net_ok w5" using h5 by (simp add: held_def)
            ultimately obtain ok info w6 where
              i: "device_read_info env s (srv_info ?srv) w5 = Some (ok, info, w6)" "keeps w5 w6"
              using read_info_ok by blast
            show ?thesis
            proof (cases ok)
              case False
              with eq ok3 Some info i(1) have "sc_server_connect_wifi env srv w = wifi_fail ?srv w6" by auto
              then show ?thesis by (rule fail) (rule held_keeps [OF h5 i(2)])
            next
              case True
              with eq ok3 Some info i(1) have e: "sc_server_connect_wifi env srv w = Some (True, ?srv\<lparr>srv_info := info\<rparr>, w6)" by auto
              have "wired w ?host [(v, ?port), (m, ?port + 1), (a, ?port + 2), (k, ?port + 3), (c, ?port + 4)] w6"
                using c(2) i(2) held_keeps [OF wired_held [OF c(2)] i(2)] by (auto simp: wired_def keeps_def)
              with e i(2) done_ok ok3 show ?thesis
                by (intro exI [of _ True] exI [of _ "?srv\<lparr>srv_info := info\<rparr>"] exI [of _ w6])
                  (auto simp: server_sockets_def keeps_def)
            qed
          qed
        qed
      qed
    qed
  qed
qed

section \<open>Properties\<close>

text \<open>
  C14: Connecting through the adb tunnel ends and never aborts, whatever the system answers and whenever another thread
  interrupts. On success the client holds one open socket for every stream that is asked for, in the order video,
  audio, control in which the server opens them, and no other socket is left open; on failure every socket opened on
  the way is closed again. In both cases the tunnel and its listening socket are closed.
\<close>

theorem adb_connection:
  assumes "sleeps_end env" and "tunnel_ok (srv_tunnel srv) w" "tn_enabled (srv_tunnel srv)" "srv_serial srv \<noteq> None"
    and "sp_video (srv_params srv) \<or> sp_audio (srv_params srv) \<or> sp_control (srv_params srv)"
  shows "\<exists>ok srv' w'. sc_server_connect_to env srv w = Some (ok, srv', w') \<and> \<not> tn_enabled (srv_tunnel srv') \<and>
    (let others = nw_open w - tunnel_sockets (srv_tunnel srv); ours = set (map snd (client_streams srv')) in
     if ok then map fst (client_streams srv') = asked_streams (srv_params srv) \<and>
       sorted_wrt (<) (map snd (client_streams srv')) \<and> nw_open w' = others \<union> ours \<and> ours \<inter> others = {}
     else nw_open w' = others)"
proof -
  have "asked_streams (srv_params srv) \<noteq> []" using assms(5) by (auto simp: asked_streams_def)
  from connect_to_ok [OF assms(1-4) this] obtain ok srv' w' where
    "sc_server_connect_to env srv w = Some (ok, srv', w')" "\<not> tn_enabled (srv_tunnel srv')" "srv_params srv' = srv_params srv"
    "if ok then connected (w\<lparr>nw_open := nw_open w - tunnel_sockets (srv_tunnel srv)\<rparr>) srv' w'
     else nw_open w' = nw_open w - tunnel_sockets (srv_tunnel srv)" by (auto simp: Let_def)
  then show ?thesis by (intro exI [of _ ok] exI [of _ srv'] exI [of _ w']) (simp add: connected_def Let_def split: if_splits)
qed

definition example_server :: sc_server where
  "example_server = \<lparr>srv_params = example_params, srv_serial = Some ''0123456789'', srv_device_socket_name = None,
     srv_info = replicate 64 0,
     srv_tunnel = \<lparr>tn_enabled = True, tn_forward = True, tn_server_socket = None, tn_local_port = 27183\<rparr>,
     srv_video_socket = None, srv_camera_socket = None, srv_audio_socket = None, srv_speaker_socket = None,
     srv_control_socket = None\<rparr>"

lemma example_sleeps: "sleeps_end example_net_env"
  by (simp add: sleeps_end_def example_net_env_def timer_loop.simps)

lemma adb_connection_witness:
  "\<exists>ok srv' w'. sc_server_connect_to example_net_env example_server example_net = Some (ok, srv', w') \<and>
    \<not> tn_enabled (srv_tunnel srv')"
proof -
  have "tunnel_ok (srv_tunnel example_server) example_net"
    using example_net_ok by (simp add: tunnel_ok_def example_server_def)
  from adb_connection [OF example_sleeps this] show ?thesis by (auto simp: example_server_def example_params_def)
qed

text \<open>
  C15: Connecting over Wi-Fi ends and never aborts. On success the streams that are asked for are connected, each to the
  port of its own after the base port (video, camera, audio, speaker, control), the camera and the speaker being
  optional; on failure all five sockets are closed and cleared.
\<close>

theorem wifi_connection:
  assumes "sleeps_end env" "net_ok w" "server_sockets srv = [None, None, None, None, None]"
  shows "\<exists>ok srv' w'. sc_server_connect_wifi env srv w = Some (ok, srv', w') \<and>
    (let params = srv_params srv;
         port = (if sp_wifi_port params = 0 then 5000 else sp_wifi_port params);
         ours = zip (server_sockets srv') [port, port + 1, port + 2, port + 3, port + 4] in
     if ok then
       nw_open w' = nw_open w \<union> {s. Some s \<in> set (server_sockets srv')} \<and>
       (\<forall>s p. (Some s, p) \<in> set ours \<longrightarrow> s \<notin> nw_open w \<and> nw_peer w' s = Some (sp_tunnel_host params, p)) \<and>
       (srv_video_socket srv' \<noteq> None \<longleftrightarrow> sp_video params) \<and> (srv_audio_socket srv' \<noteq> None \<longleftrightarrow> sp_audio params) \<and>
       (srv_control_socket srv' \<noteq> None \<longleftrightarrow> sp_control params) \<and>
       (srv_camera_socket srv' \<noteq> None \<longrightarrow> sp_multistream params \<and> sp_video params) \<and>
       (srv_speaker_socket srv' \<noteq> None \<longrightarrow> sp_audio params)
     else nw_open w' = nw_open w \<and> server_sockets srv' = [None, None, None, None, None])"
proof -
  have five: "replicate 5 None = [None, None, None, None, None]" by (simp add: numeral_eq_Suc)
  note connect_wifi_ok [OF assms(1,2), unfolded five, OF assms(3)]
  then obtain ok srv' w' where
    r: "sc_server_connect_wifi env srv w = Some (ok, srv', w')" and
    c: "if ok then
       wired w (sp_tunnel_host (srv_params srv)) (zip (server_sockets srv')
         [wifi_port (srv_params srv), wifi_port (srv_params srv) + 1, wifi_port (srv_params srv) + 2,
          wifi_port (srv_params srv) + 3, wifi_port (srv_params srv) + 4]) w' \<and>
       (srv_video_socket srv' \<noteq> None \<longleftrightarrow> sp_video (srv_params srv)) \<and>
       (srv_audio_socket srv' \<noteq> None \<longleftrightarrow> sp_audio (srv_params srv)) \<and>
       (srv_control_socket srv' \<noteq> None \<longleftrightarrow> sp_control (srv_params srv)) \<and>
       (srv_camera_socket srv' \<noteq> None \<longrightarrow> sp_multistream (srv_params srv) \<and> sp_video (srv_params srv)) \<and>
       (srv_speaker_socket srv' \<noteq> None \<longrightarrow> sp_audio (srv_params srv))
     else nw_open w' = nw_open w \<and> server_sockets srv' = [None, None, None, None, None]" by blast
  have "nw_open w' = nw_open w \<union> {s. Some s \<in> set (server_sockets srv')} \<and>
      (\<forall>s p. (Some s, p) \<in> set (zip (server_sockets srv') ports) \<longrightarrow> s \<notin> nw_open w \<and> nw_peer w' s = Some (host, p))"
    if "wired w host (zip (server_sockets srv') ports) w'" "length ports = 5" for host ports
  proof -
    have rs: "map fst (zip (server_sockets srv') ports) = server_sockets srv'" using that(2) by (simp add: server_sockets_def)
    have h: "held w (server_sockets srv') w'" using wired_held [OF that(1)] by (simp add: rs)
    have "set (ids (server_sockets srv')) = {s. Some s \<in> set (server_sockets srv')}" by (auto simp: set_ids)
    moreover have "s \<notin> nw_open w" if "Some s \<in> set (server_sockets srv')" for s
    proof -
      from that have "s \<in> set (ids (server_sockets srv'))" by (simp only: set_ids)
      with h have "nw_next w \<le> s" "net_ok w" unfolding held_def by blast+
      then show ?thesis by (auto simp: net_ok_def)
    qed
    moreover have "nw_open w' = nw_open w \<union> set (ids (server_sockets srv'))" using h by (simp only: held_def)
    moreover have "nw_peer w' s = Some (host, p)" if "(Some s, p) \<in> set (zip (server_sockets srv') ports)" for s p
      using that \<open>wired _ _ _ _\<close> by (force simp: wired_def)
    ultimately show ?thesis by (simp only:) (blast dest: set_zip_leftD)
  qed
  note streams = this [of "sp_tunnel_host (srv_params srv)" "[wifi_port (srv_params srv), wifi_port (srv_params srv) + 1,
    wifi_port (srv_params srv) + 2, wifi_port (srv_params srv) + 3, wifi_port (srv_params srv) + 4]"]
  show ?thesis
    unfolding Let_def wifi_port_def [symmetric] by (intro exI [of _ ok] exI [of _ srv'] exI [of _ w']) (use r c streams in \<open>cases ok; simp\<close>)
qed

lemma wifi_connection_witness:
  "\<exists>ok srv' w'. sc_server_connect_wifi example_net_env example_server example_net = Some (ok, srv', w') \<and>
    (\<not> ok \<longrightarrow> server_sockets srv' = [None, None, None, None, None])"
proof -
  have "server_sockets example_server = [None, None, None, None, None]"
    by (simp add: server_sockets_def example_server_def)
  from wifi_connection [OF example_sleeps example_net_ok this] show ?thesis by (auto simp: Let_def)
qed

definition server_understands :: "sc_server_params \<Rightarrow> bool \<Rightarrow> server_options" where
  "server_understands params tunnel_forward =
     \<lparr>so_scid = int (unat (sp_scid params)), so_video = sp_video params, so_audio = sp_audio params, so_control = False,
      so_audio_source = (if sp_audio params \<and> sp_audio_source params \<noteq> SC_AUDIO_SOURCE_OUTPUT
        then sp_audio_source params else SC_AUDIO_SOURCE_MIC),
      so_tunnel_forward = tunnel_forward, so_send_dummy_byte = True\<rparr>"

lemma server_pairs:
  assumes "\<And>k v. accepts k v" "unat (sp_scid params) < 2 ^ 31" "server_params_ok params"
    and "execute_server asprintf_ok adb version (Some serial) params tunnel_forward = Some (Some cmd)"
  shows "\<exists>options. options_parse accepts version (drop 8 cmd) = Some options \<and> so_scid options = uint (sp_scid params) \<and>
    asked_streams params = map fst (desktop_connection_open options) @ (if sp_control params then [Control_stream] else []) \<and>
    (\<forall>i < length (desktop_connection_open options). snd (desktop_connection_open options ! i) \<longleftrightarrow> tunnel_forward \<and> i = 0)"
proof (intro exI conjI)
  show "options_parse accepts version (drop 8 cmd) = Some (server_understands params tunnel_forward)"
    using server_reads [OF assms] by (simp add: server_understands_def)
  show "so_scid (server_understands params tunnel_forward) = uint (sp_scid params)"
    by (simp add: server_understands_def)
  show "asked_streams params = map fst (desktop_connection_open (server_understands params tunnel_forward)) @
      (if sp_control params then [Control_stream] else [])"
    by (simp add: asked_streams_def desktop_connection_open_def server_understands_def Let_def)
  show "\<forall>i < length (desktop_connection_open (server_understands params tunnel_forward)).
      snd (desktop_connection_open (server_understands params tunnel_forward) ! i) \<longleftrightarrow> tunnel_forward \<and> i = 0"
    by (cases tunnel_forward; cases "sp_video params"; cases "sp_audio params")
      (simp_all add: desktop_connection_open_def server_understands_def less_Suc_eq)
qed


lemma example_command:
  "\<exists>cmd. execute_server (\<lambda>_. True) ''adb'' ''3.3.4'' (Some ''0123456789'') example_params True = Some (Some cmd)"
proof -
  have scid: "hex8 0x1234abcd = ''1234abcd''" by (simp add: hex8_def hex_digit_def, code_simp)
  have strings: "validate_string ''1224:1440:0:0''" "validate_string ''30''" by code_simp+
  have "video_audio_params example_params =
      [ADD_PARAM (Some ''scid=1234abcd''), ADD_PARAM (Some ''log_level=info''), Param_assert True, VALIDATE_STRING ''30'',
       ADD_PARAM (Some ''max_fps=30'')]"
    by (simp add: video_audio_params_def example_params_def only_if_def string_param_def scid)
  moreover have "display_camera_params example_params True =
      [ADD_PARAM (Some ''tunnel_forward=true''), VALIDATE_STRING ''1224:1440:0:0'', ADD_PARAM (Some ''crop=1224:1440:0:0'')]"
    by (simp add: display_camera_params_def example_params_def only_if_def string_param_def)
  moreover have "device_params example_params = []"
    by (simp add: device_params_def example_params_def only_if_def string_param_def)
  ultimately show ?thesis by (simp add: execute_server_def server_params_steps_def strings shell_special_def)
qed


end
