(* ===== verification/Sc_Cli_Accept.thy ===== *)
theory Sc_Cli_Accept
  imports Sc_Cli Sc_Input_Sink Sc_Server
begin

text \<open>
  What a command line that is accepted guarantees: the options fit the components that they configure, whose lemmas
  assume it. And when parsing the command line can abort the client.
\<close>

section \<open>What the switch keeps\<close>

text \<open>A step that keeps a property of the options, whether or not it is refused.\<close>

definition keeps_opts :: "(scrcpy_options \<Rightarrow> bool) \<Rightarrow> scrcpy_cli_args option option \<Rightarrow> bool" where
  "keeps_opts P r \<longleftrightarrow> (\<forall>args. r = Some (Some args) \<longrightarrow> P (ca_opts args))"

lemma keeps_if: "keeps_opts P x \<Longrightarrow> keeps_opts P y \<Longrightarrow> keeps_opts P (if b then x else y)"
  by simp

lemma keeps_refuse: "keeps_opts P (Some None)"
  by (simp add: keeps_opts_def)

lemma keeps_set: "P (f (ca_opts args)) \<Longrightarrow> keeps_opts P (set_opts f args)"
  by (simp add: keeps_opts_def set_opts_def)

lemma keeps_parse:
  "(\<And>s v. parse s = Some (Some v) \<Longrightarrow> P (store v (ca_opts args))) \<Longrightarrow> keeps_opts P (parse_arg parse optarg store args)"
  by (auto simp: keeps_opts_def parse_arg_def set_opts_def split: bind_splits option.splits)

lemma keeps_args: "P (ca_opts args) \<Longrightarrow> ca_opts args' = ca_opts args \<Longrightarrow> keeps_opts P (Some (Some args'))"
  by (simp add: keeps_opts_def)

lemma keeps_pause:
  "P (ca_opts args) \<Longrightarrow> keeps_opts P (case r of None \<Rightarrow> Some None | Some v \<Rightarrow> Some (Some (args\<lparr>ca_pause_on_exit := v\<rparr>)))"
  by (simp add: keeps_opts_def split: option.splits)

lemmas keeps_intros = keeps_if keeps_refuse keeps_set keeps_parse keeps_pause keeps_args

text \<open>
  What the options are before they are checked: the ranges of the numbers, and that the mouse bindings are all given or
  all left to be chosen.
\<close>

definition raw_bindings :: "sc_mouse_bindings \<Rightarrow> bool" where
  "raw_bindings b \<longleftrightarrow> b = \<lparr>mb_pri = auto_bindings, mb_sec = auto_bindings\<rparr> \<or> bindings_set b"

definition raw_opts :: "scrcpy_options \<Rightarrow> bool" where
  "raw_opts opts \<longleftrightarrow>
     (op_tcpip_dst opts \<noteq> None \<longrightarrow> op_tcpip opts) \<and> raw_bindings (op_mouse_bindings opts) \<and>
     pr_first (op_port_range opts) \<le> pr_last (op_port_range opts) \<and>
     (op_audio_buffer opts = -1 \<or> 0 \<le> op_audio_buffer opts \<and> op_audio_buffer opts \<le> 3600 * SC_TICK_FREQ) \<and>
     (0 \<le> op_audio_output_buffer opts \<and> op_audio_output_buffer opts \<le> SC_TICK_FREQ) \<and>
     (op_screen_off_timeout opts = -1 \<or>
      0 \<le> op_screen_off_timeout opts \<and> SC_TICK_TO_MS (op_screen_off_timeout opts) < 2 ^ 31) \<and>
     op_min_size_alignment opts \<in> {1, 2, 4, 8, 16}"

lemma raw_default: "raw_opts scrcpy_options_default"
  by (simp add: raw_opts_def raw_bindings_def scrcpy_options_default_def SC_TICK_FROM_MS_def SC_TICK_FREQ_def
      DEFAULT_LOCAL_PORT_RANGE_FIRST_def DEFAULT_LOCAL_PORT_RANGE_LAST_def)

lemma mouse_binding_not_auto: "parse_mouse_binding c \<noteq> Some SC_MOUSE_BINDING_AUTO"
  by (simp add: parse_mouse_binding_def)

lemma parse_binding_set:
  assumes "4 \<le> length s"
  shows "\<exists>r. parse_mouse_binding_set s = Some r \<and> (\<forall>b. r = Some b \<longrightarrow> SC_MOUSE_BINDING_AUTO \<notin>
    {mb_right_click b, mb_middle_click b, mb_click4 b, mb_click5 b})"
  using assms mouse_binding_not_auto
  by (auto simp: parse_mouse_binding_set_def split: bind_splits)

lemma parse_bindings_ok:
  "\<exists>r. parse_mouse_bindings s = Some r \<and> (\<forall>b. r = Some b \<longrightarrow> bindings_set b)"
proof (cases "length s \<noteq> 4 \<and> (length s \<noteq> 9 \<or> s ! 4 \<noteq> CHR '':'')")
  case False
  then have l: "length s = 4 \<or> length s = 9" by auto
  from parse_binding_set [of s] l obtain r where
    r: "parse_mouse_binding_set s = Some r" "\<forall>b. r = Some b \<longrightarrow> SC_MOUSE_BINDING_AUTO \<notin>
      {mb_right_click b, mb_middle_click b, mb_click4 b, mb_click5 b}" by auto
  from parse_binding_set [of "drop 5 s"] obtain r2 where
    r2: "length s = 9 \<longrightarrow> parse_mouse_binding_set (drop 5 s) = Some r2" "length s = 9 \<longrightarrow> (\<forall>b. r2 = Some b \<longrightarrow>
      SC_MOUSE_BINDING_AUTO \<notin> {mb_right_click b, mb_middle_click b, mb_click4 b, mb_click5 b})"
    by (cases "length s = 9") auto
  show ?thesis using False r r2
    by (cases r; cases r2; cases "length s = 9") (auto simp: parse_mouse_bindings_def bindings_set_def)
qed (simp add: parse_mouse_bindings_def)

lemma min_size_alignment_range: "parse_min_size_alignment s = Some v \<Longrightarrow> v \<in> {1, 2, 4, 8, 16}"
proof -
  assume "parse_min_size_alignment s = Some v"
  then obtain n where n: "parse_integer_arg s False 1 16 = Some n" "n AND (n - 1) = 0" "v = word_of_int n"
    by (auto simp: parse_min_size_alignment_def split: bind_splits if_splits)
  have "list_all (\<lambda>n. n AND (n - 1) = 0 \<longrightarrow> n \<in> {1, 2, 4, 8, 16 :: int}) [1..16]" by code_simp
  with parse_integer_arg_range [OF n(1)] n(2) have "n \<in> {1, 2, 4, 8, 16}" by (auto simp: list_all_iff)
  with n(3) show ?thesis by auto
qed

lemma buffering_time_range: "parse_buffering_time s = Some v \<Longrightarrow> 0 \<le> v \<and> v \<le> 3600 * SC_TICK_FREQ"
  using parse_integer_arg_range [of s False 0 "60 * 60 * 1000"]
  by (auto simp: parse_buffering_time_def SC_TICK_FROM_MS_def SC_TICK_FREQ_def)

lemma output_buffer_range: "parse_audio_output_buffer s = Some v \<Longrightarrow> 0 \<le> v \<and> v \<le> SC_TICK_FREQ"
  using parse_integer_arg_range [of s False 0 1000]
  by (auto simp: parse_audio_output_buffer_def SC_TICK_FROM_MS_def SC_TICK_FREQ_def)

lemma screen_off_timeout_range: "parse_screen_off_timeout s = Some v \<Longrightarrow> 0 \<le> v \<and> SC_TICK_TO_MS v < 2 ^ 31"
  using parse_integer_arg_range [of s False 0 "c_div 0x7FFFFFFF 1000"]
  by (auto simp: parse_screen_off_timeout_def SC_TICK_FROM_SEC_def SC_TICK_TO_MS_def c_div_nonneg)

lemma port_range_range: "parse_port_range s = Some (Some r) \<Longrightarrow> pr_first r \<le> pr_last r"
  using parse_port_range_ok [of s] by auto

lemma mouse_bindings_raw: "parse_mouse_bindings s = Some (Some b) \<Longrightarrow> raw_bindings b"
  using parse_bindings_ok [of s] by (auto simp: raw_bindings_def)

lemmas raw_parsers = min_size_alignment_range buffering_time_range output_buffer_range screen_off_timeout_range
  port_range_range mouse_bindings_raw

lemma switch_keeps_raw3: "raw_opts (ca_opts args) \<Longrightarrow> keeps_opts raw_opts (parse_opt_part3 parse_ipv4 opt optarg args)"
  unfolding parse_opt_part3_def
  by (intro keeps_intros) (auto simp: raw_opts_def dest: raw_parsers)

lemma switch_keeps_raw2: "raw_opts (ca_opts args) \<Longrightarrow> keeps_opts raw_opts (parse_opt_part2 parse_ipv4 opt optarg args)"
  unfolding parse_opt_part2_def
  by (intro keeps_intros switch_keeps_raw3) (auto simp: raw_opts_def dest: raw_parsers)

lemma switch_keeps_raw: "raw_opts (ca_opts args) \<Longrightarrow> keeps_opts raw_opts (parse_opt_part1 parse_ipv4 opt optarg args)"
  unfolding parse_opt_part1_def
  by (intro keeps_intros switch_keeps_raw2) (auto simp: raw_opts_def dest: raw_parsers)

lemma loop_keeps_raw:
  "raw_opts (ca_opts args) \<Longrightarrow> getopt_loop parse_ipv4 items args = Some (ok, args') \<Longrightarrow> raw_opts (ca_opts args')"
proof (induction parse_ipv4 items args rule: getopt_loop.induct)
  case (2 parse_ipv4 opt optarg items args)
  with switch_keeps_raw [of args parse_ipv4 opt optarg] show ?case
    by (auto simp: keeps_opts_def split: bind_splits option.splits)
qed simp

section \<open>What the checks keep\<close>

lemmas check_defs = check_selectors_def adjust_playback_def adjust_audio_buffer_def check_v4l2_def
  adjust_input_modes_def adjust_mouse_bindings_def check_new_display_def check_otg_def check_sdk_only_def
  adjust_connection_def check_camera_def check_display_def adjust_audio_source_def check_record_def check_control_def
  check_otg_options_def

text \<open>The accepted options have a property; one rule for each construct of a check.\<close>

definition accepts_with :: "(scrcpy_options \<Rightarrow> bool) \<Rightarrow> scrcpy_options option option \<Rightarrow> bool" where
  "accepts_with P r \<longleftrightarrow> (\<forall>opts. r = Some (Some opts) \<longrightarrow> P opts)"

lemma accepts_refused: "accepts_with P (Some None)"
  by (simp add: accepts_with_def)

lemma accepts_accepted: "P opts \<Longrightarrow> accepts_with P (Some (Some opts))"
  by (simp add: accepts_with_def)

lemma accepts_refuse_if: "(\<not> b \<Longrightarrow> P opts) \<Longrightarrow> accepts_with P (refuse_if b opts)"
  by (simp add: accepts_with_def refuse_if_def)

lemma accepts_if: "(b \<Longrightarrow> accepts_with P x) \<Longrightarrow> (\<not> b \<Longrightarrow> accepts_with P y) \<Longrightarrow> accepts_with P (if b then x else y)"
  by simp

lemma accepts_assert: "(b \<Longrightarrow> accepts_with P x) \<Longrightarrow> accepts_with P (do { c_assert b; x })"
  by (cases b) (simp_all add: accepts_with_def)

lemma accepts_Let: "Q t \<Longrightarrow> (\<And>x. Q x \<Longrightarrow> accepts_with P (f x)) \<Longrightarrow> accepts_with P (Let t f)"
  by (simp add: Let_def)

lemma accepts_let: "(\<And>x. x = t \<Longrightarrow> accepts_with P (f x)) \<Longrightarrow> accepts_with P (Let t f)"
  by (simp add: Let_def)

lemma accepts_option:
  "(r = None \<Longrightarrow> accepts_with P x) \<Longrightarrow> (\<And>v. r = Some v \<Longrightarrow> accepts_with P (f v)) \<Longrightarrow>
    accepts_with P (case r of None \<Rightarrow> x | Some v \<Rightarrow> f v)"
  by (cases r) simp_all

lemma if_opts: "(b \<Longrightarrow> P x) \<Longrightarrow> (\<not> b \<Longrightarrow> P y) \<Longrightarrow> P (if b then x else (y :: scrcpy_options))"
  by simp

lemmas accepts_rules = accepts_refused accepts_accepted accepts_refuse_if accepts_if accepts_assert accepts_option

text \<open>A check that keeps a property of the options that it accepts.\<close>

definition check_keeps :: "(scrcpy_options \<Rightarrow> bool) \<Rightarrow> opts_check \<Rightarrow> bool" where
  "check_keeps P check \<longleftrightarrow> (\<forall>opts. P opts \<longrightarrow> accepts_with P (check opts))"

lemma check_keepsI: "(\<And>opts. P opts \<Longrightarrow> accepts_with P (check opts)) \<Longrightarrow> check_keeps P check"
  by (simp add: check_keeps_def)

lemma run_checks_keeps:
  "list_all (check_keeps P) checks \<Longrightarrow> run_checks checks opts = Some (Some opts') \<Longrightarrow> P opts \<Longrightarrow> P opts'"
  by (induction checks opts rule: run_checks.induct)
    (auto simp: check_keeps_def accepts_with_def split: bind_splits option.splits)

lemma run_checks_append:
  "run_checks (xs @ ys) opts = Some (Some opts'') \<longleftrightarrow>
    (\<exists>opts'. run_checks xs opts = Some (Some opts') \<and> run_checks ys opts' = Some (Some opts''))"
  by (induction xs opts rule: run_checks.induct) (auto split: bind_splits option.splits)

text \<open>What one check establishes and the later ones keep holds of the options that are accepted.\<close>

text \<open>The checks leave the ranges alone.\<close>

lemma checks_keep_raw: "list_all (check_keeps raw_opts) opts_checks"
  unfolding opts_checks_def list.pred_inject check_defs
  apply (intro conjI check_keepsI accepts_rules accepts_Let [where Q = raw_opts] accepts_let if_opts [of _ raw_opts])
  apply (simp_all add: raw_opts_def raw_bindings_def)
  apply (simp_all add: bindings_set_def default_shortcuts_def forward_clicks_def SC_TICK_FROM_MS_def SC_TICK_FREQ_def)
  done

lemma accepted_by:
  assumes "run_checks opts_checks opts = Some (Some opts'')" "raw_opts opts" "k < length opts_checks"
    and "\<And>opts. raw_opts opts \<Longrightarrow> accepts_with P ((opts_checks ! k) opts)"
    and "list_all (check_keeps P) (drop (Suc k) opts_checks)"
  shows "P opts''"
proof -
  have split: "opts_checks = take k opts_checks @ opts_checks ! k # drop (Suc k) opts_checks"
    using assms(3) by (rule id_take_nth_drop)
  from assms(1) obtain opts1 where
    1: "run_checks (take k opts_checks) opts = Some (Some opts1)"
      "run_checks (opts_checks ! k # drop (Suc k) opts_checks) opts1 = Some (Some opts'')"
    by (subst (asm) split) (auto simp only: run_checks_append)
  then obtain opts2 where 2: "(opts_checks ! k) opts1 = Some (Some opts2)"
    "run_checks (drop (Suc k) opts_checks) opts2 = Some (Some opts'')"
    by (auto split: bind_splits option.splits)
  have "list_all (check_keeps raw_opts) (take k opts_checks)"
    using checks_keep_raw by (simp add: list_all_iff) (meson in_set_takeD)
  from run_checks_keeps [where P = raw_opts, OF this 1(1) assms(2)] have "raw_opts opts1" .
  with assms(4) have "accepts_with P ((opts_checks ! k) opts1)" by blast
  with 2(1) have "P opts2" by (simp add: accepts_with_def)
  with run_checks_keeps [OF assms(5) 2(2)] show ?thesis by blast
qed

section \<open>What the checks establish\<close>

definition streams_asked :: "scrcpy_options \<Rightarrow> bool" where
  "streams_asked opts \<longleftrightarrow> op_video opts \<or> op_audio opts \<or> op_control opts \<or> op_otg opts"

definition audio_buffer_set :: "scrcpy_options \<Rightarrow> bool" where
  "audio_buffer_set opts \<longleftrightarrow>
     (op_audio_playback opts \<longrightarrow> 0 \<le> op_audio_buffer opts \<and> op_audio_buffer opts \<le> 3600 * SC_TICK_FREQ)"

definition display_inputs_set :: "scrcpy_options \<Rightarrow> bool" where
  "display_inputs_set opts \<longleftrightarrow> (op_control opts \<and> op_video_source opts = SC_VIDEO_SOURCE_DISPLAY \<longrightarrow>
     op_keyboard_input_mode opts \<notin> {SC_KEYBOARD_INPUT_MODE_AUTO, SC_KEYBOARD_INPUT_MODE_UHID_OR_AOA} \<and>
     op_mouse_input_mode opts \<notin> {SC_MOUSE_INPUT_MODE_AUTO, SC_MOUSE_INPUT_MODE_UHID_OR_AOA} \<and>
     op_gamepad_input_mode opts \<noteq> SC_GAMEPAD_INPUT_MODE_UHID_OR_AOA \<and>
     (op_mouse_input_mode opts = SC_MOUSE_INPUT_MODE_SDK \<longrightarrow> op_video_playback opts))"

definition keyboard_chosen :: "scrcpy_options \<Rightarrow> bool" where
  "keyboard_chosen opts \<longleftrightarrow>
     op_keyboard_input_mode opts \<notin> {SC_KEYBOARD_INPUT_MODE_AUTO, SC_KEYBOARD_INPUT_MODE_UHID_OR_AOA}"

definition mouse_chosen :: "scrcpy_options \<Rightarrow> bool" where
  "mouse_chosen opts \<longleftrightarrow> keyboard_chosen opts \<and>
     op_mouse_input_mode opts \<notin> {SC_MOUSE_INPUT_MODE_AUTO, SC_MOUSE_INPUT_MODE_UHID_OR_AOA} \<and>
     (op_mouse_input_mode opts = SC_MOUSE_INPUT_MODE_SDK \<longrightarrow> op_video_playback opts)"

definition camera_inputs_set :: "scrcpy_options \<Rightarrow> bool" where
  "camera_inputs_set opts \<longleftrightarrow> (op_control opts \<and> op_video_source opts = SC_VIDEO_SOURCE_CAMERA \<longrightarrow>
     op_keyboard_input_mode opts = SC_KEYBOARD_INPUT_MODE_DISABLED \<and>
     op_mouse_input_mode opts = SC_MOUSE_INPUT_MODE_DISABLED \<and>
     op_gamepad_input_mode opts = SC_GAMEPAD_INPUT_MODE_DISABLED)"

definition otg_inputs_set :: "scrcpy_options \<Rightarrow> bool" where
  "otg_inputs_set opts \<longleftrightarrow> (op_otg opts \<longrightarrow> op_control opts \<and>
     op_keyboard_input_mode opts \<in> {SC_KEYBOARD_INPUT_MODE_AOA, SC_KEYBOARD_INPUT_MODE_DISABLED} \<and>
     op_mouse_input_mode opts \<in> {SC_MOUSE_INPUT_MODE_AOA, SC_MOUSE_INPUT_MODE_DISABLED} \<and>
     op_gamepad_input_mode opts \<in> {SC_GAMEPAD_INPUT_MODE_AOA, SC_GAMEPAD_INPUT_MODE_DISABLED} \<and>
     (op_video_source opts = SC_VIDEO_SOURCE_DISPLAY \<longrightarrow>
        op_keyboard_input_mode opts = SC_KEYBOARD_INPUT_MODE_AOA \<or> op_mouse_input_mode opts = SC_MOUSE_INPUT_MODE_AOA \<or>
        op_gamepad_input_mode opts = SC_GAMEPAD_INPUT_MODE_AOA))"

definition mouse_bindings_set :: "scrcpy_options \<Rightarrow> bool" where
  "mouse_bindings_set opts \<longleftrightarrow> bindings_set (op_mouse_bindings opts)"

definition render_fit_set :: "scrcpy_options \<Rightarrow> bool" where
  "render_fit_set opts \<longleftrightarrow> op_render_fit opts \<noteq> SC_RENDER_FIT_AUTO"

definition wifi_set :: "scrcpy_options \<Rightarrow> bool" where
  "wifi_set opts \<longleftrightarrow> (op_wifi_mode opts \<longrightarrow> op_tunnel_host opts \<noteq> 0 \<and> op_wifi_port opts \<noteq> 0) \<and>
     (op_multistream opts \<longrightarrow> op_wifi_mode opts)"

definition audio_source_set :: "scrcpy_options \<Rightarrow> bool" where
  "audio_source_set opts \<longleftrightarrow> (op_audio opts \<longrightarrow> op_audio_source opts \<noteq> SC_AUDIO_SOURCE_AUTO)"

definition stream_chosen :: "scrcpy_options \<Rightarrow> bool" where
  "stream_chosen opts \<longleftrightarrow> op_video opts \<or> op_audio opts"

definition record_set :: "scrcpy_options \<Rightarrow> bool" where
  "record_set opts \<longleftrightarrow> (op_record_filename opts \<noteq> None \<longrightarrow> op_record_format opts \<noteq> SC_RECORD_FORMAT_AUTO \<and>
     (op_video opts \<or> op_audio opts) \<and> \<not> sc_orientation_is_mirror (op_record_orientation opts) \<and>
     (op_video opts \<longrightarrow> \<not> sc_record_format_is_audio_only (op_record_format opts)))"

lemma check_nth:
  "opts_checks ! 1 = adjust_playback"
  "opts_checks ! 2 = adjust_audio_buffer"
  "opts_checks ! 4 = adjust_input_modes"
  "opts_checks ! 5 = adjust_mouse_bindings"
  "opts_checks ! 6 = check_new_display"
  "opts_checks ! 7 = check_otg"
  "opts_checks ! 9 = adjust_connection"
  "opts_checks ! 10 = check_camera"
  "opts_checks ! 12 = adjust_audio_source"
  "opts_checks ! 13 = check_record"
  by (simp_all add: opts_checks_def)

lemma check_drop:
  "drop (Suc 1) opts_checks = [adjust_audio_buffer, check_v4l2, adjust_input_modes, adjust_mouse_bindings, check_new_display, check_otg, check_sdk_only, adjust_connection, check_camera, check_display, adjust_audio_source, check_record, check_control, check_otg_options]"
  "drop (Suc 2) opts_checks = [check_v4l2, adjust_input_modes, adjust_mouse_bindings, check_new_display, check_otg, check_sdk_only, adjust_connection, check_camera, check_display, adjust_audio_source, check_record, check_control, check_otg_options]"
  "drop (Suc 4) opts_checks = [adjust_mouse_bindings, check_new_display, check_otg, check_sdk_only, adjust_connection, check_camera, check_display, adjust_audio_source, check_record, check_control, check_otg_options]"
  "drop (Suc 5) opts_checks = [check_new_display, check_otg, check_sdk_only, adjust_connection, check_camera, check_display, adjust_audio_source, check_record, check_control, check_otg_options]"
  "drop (Suc 6) opts_checks = [check_otg, check_sdk_only, adjust_connection, check_camera, check_display, adjust_audio_source, check_record, check_control, check_otg_options]"
  "drop (Suc 7) opts_checks = [check_sdk_only, adjust_connection, check_camera, check_display, adjust_audio_source, check_record, check_control, check_otg_options]"
  "drop (Suc 9) opts_checks = [check_camera, check_display, adjust_audio_source, check_record, check_control, check_otg_options]"
  "drop (Suc 10) opts_checks = [check_display, adjust_audio_source, check_record, check_control, check_otg_options]"
  "drop (Suc 12) opts_checks = [check_record, check_control, check_otg_options]"
  "drop (Suc 13) opts_checks = [check_control, check_otg_options]"
  by (simp_all add: opts_checks_def)

lemma accepted_streams:
  assumes "run_checks opts_checks opts = Some (Some opts')" "raw_opts opts"
  shows "streams_asked opts'"
proof (rule accepted_by [OF assms, of 1])
  show "accepts_with streams_asked ((opts_checks ! 1) opts)" if "raw_opts opts" for opts
    unfolding check_nth adjust_playback_def
    by (intro accepts_rules accepts_let if_opts [of _ streams_asked]) (use that in \<open>auto simp: streams_asked_def raw_opts_def\<close>)
  show "list_all (check_keeps streams_asked) (drop (Suc 1) opts_checks)"
    unfolding check_drop list.pred_inject check_defs
    by (intro conjI check_keepsI accepts_rules accepts_Let [where Q = streams_asked] accepts_let if_opts [of _ streams_asked])
      (simp_all add: streams_asked_def)
qed (simp add: opts_checks_def)

lemma accepted_audio_buffer:
  assumes "run_checks opts_checks opts = Some (Some opts')" "raw_opts opts"
  shows "audio_buffer_set opts'"
proof (rule accepted_by [OF assms, of 2])
  show "accepts_with audio_buffer_set ((opts_checks ! 2) opts)" if "raw_opts opts" for opts
    unfolding check_nth adjust_audio_buffer_def
    by (intro accepts_rules accepts_let if_opts [of _ audio_buffer_set]) (use that in \<open>auto simp: SC_TICK_FROM_MS_def SC_TICK_FREQ_def audio_buffer_set_def raw_opts_def\<close>)
  show "list_all (check_keeps audio_buffer_set) (drop (Suc 2) opts_checks)"
    unfolding check_drop list.pred_inject check_defs
    by (intro conjI check_keepsI accepts_rules accepts_Let [where Q = audio_buffer_set] accepts_let if_opts [of _ audio_buffer_set])
      (simp_all add: SC_TICK_FROM_MS_def SC_TICK_FREQ_def audio_buffer_set_def)
qed (simp add: opts_checks_def)

lemma accepted_display_inputs:
  assumes "run_checks opts_checks opts = Some (Some opts')" "raw_opts opts"
  shows "display_inputs_set opts'"
proof (rule accepted_by [OF assms, of 4])
  show "accepts_with display_inputs_set ((opts_checks ! 4) opts)" if "raw_opts opts" for opts
    unfolding check_nth adjust_input_modes_def
    by (intro accepts_rules accepts_Let [where Q = keyboard_chosen] accepts_Let [where Q = mouse_chosen]
        if_opts [of _ display_inputs_set] if_opts [of _ keyboard_chosen] if_opts [of _ mouse_chosen])
      (auto simp: display_inputs_set_def keyboard_chosen_def mouse_chosen_def)
  show "list_all (check_keeps display_inputs_set) (drop (Suc 4) opts_checks)"
    unfolding check_drop list.pred_inject check_defs
    by (intro conjI check_keepsI accepts_rules accepts_Let [where Q = display_inputs_set] accepts_let if_opts [of _ display_inputs_set])
      (simp_all add: display_inputs_set_def)
qed (simp add: opts_checks_def)

lemma accepted_bindings:
  assumes "run_checks opts_checks opts = Some (Some opts')" "raw_opts opts"
  shows "mouse_bindings_set opts'"
proof (rule accepted_by [OF assms, of 5])
  show "accepts_with mouse_bindings_set ((opts_checks ! 5) opts)" if "raw_opts opts" for opts
    unfolding check_nth adjust_mouse_bindings_def
    by (intro accepts_rules accepts_let if_opts [of _ mouse_bindings_set]) (use that in \<open>auto simp: raw_bindings_def auto_bindings_def bindings_set_def default_shortcuts_def forward_clicks_def mouse_bindings_set_def raw_opts_def\<close>)
  show "list_all (check_keeps mouse_bindings_set) (drop (Suc 5) opts_checks)"
    unfolding check_drop list.pred_inject check_defs
    by (intro conjI check_keepsI accepts_rules accepts_Let [where Q = mouse_bindings_set] accepts_let if_opts [of _ mouse_bindings_set])
      (simp_all add: raw_bindings_def auto_bindings_def bindings_set_def default_shortcuts_def forward_clicks_def mouse_bindings_set_def)
qed (simp add: opts_checks_def)

lemma accepted_render_fit:
  assumes "run_checks opts_checks opts = Some (Some opts')" "raw_opts opts"
  shows "render_fit_set opts'"
proof (rule accepted_by [OF assms, of 6])
  show "accepts_with render_fit_set ((opts_checks ! 6) opts)" if "raw_opts opts" for opts
    unfolding check_nth check_new_display_def
    by (intro accepts_rules accepts_let if_opts [of _ render_fit_set]) (use that in \<open>auto simp: render_fit_set_def raw_opts_def\<close>)
  show "list_all (check_keeps render_fit_set) (drop (Suc 6) opts_checks)"
    unfolding check_drop list.pred_inject check_defs
    by (intro conjI check_keepsI accepts_rules accepts_Let [where Q = render_fit_set] accepts_let if_opts [of _ render_fit_set])
      (simp_all add: render_fit_set_def)
qed (simp add: opts_checks_def)

lemma accepted_otg_inputs:
  assumes "run_checks opts_checks opts = Some (Some opts')" "raw_opts opts"
  shows "otg_inputs_set opts'"
proof (rule accepted_by [OF assms, of 7])
  show "accepts_with otg_inputs_set ((opts_checks ! 7) opts)" if "raw_opts opts" for opts
    unfolding check_nth check_otg_def
    by (intro accepts_rules accepts_let if_opts [of _ otg_inputs_set]) (use that in \<open>auto simp: otg_inputs_set_def raw_opts_def\<close>)
  show "list_all (check_keeps otg_inputs_set) (drop (Suc 7) opts_checks)"
    unfolding check_drop list.pred_inject check_defs
    by (intro conjI check_keepsI accepts_rules accepts_Let [where Q = otg_inputs_set] accepts_let if_opts [of _ otg_inputs_set])
      (simp_all add: otg_inputs_set_def)
qed (simp add: opts_checks_def)

lemma accepted_wifi:
  assumes "run_checks opts_checks opts = Some (Some opts')" "raw_opts opts"
  shows "wifi_set opts'"
proof (rule accepted_by [OF assms, of 9])
  show "accepts_with wifi_set ((opts_checks ! 9) opts)" if "raw_opts opts" for opts
    unfolding check_nth adjust_connection_def
    by (intro accepts_rules accepts_let if_opts [of _ wifi_set]) (use that in \<open>auto simp: wifi_set_def raw_opts_def\<close>)
  show "list_all (check_keeps wifi_set) (drop (Suc 9) opts_checks)"
    unfolding check_drop list.pred_inject check_defs
    by (intro conjI check_keepsI accepts_rules accepts_Let [where Q = wifi_set] accepts_let if_opts [of _ wifi_set])
      (simp_all add: wifi_set_def)
qed (simp add: opts_checks_def)

lemma accepted_camera_inputs:
  assumes "run_checks opts_checks opts = Some (Some opts')" "raw_opts opts"
  shows "camera_inputs_set opts'"
proof (rule accepted_by [OF assms, of 10])
  show "accepts_with camera_inputs_set ((opts_checks ! 10) opts)" if "raw_opts opts" for opts
    unfolding check_nth check_camera_def
    by (intro accepts_rules accepts_let if_opts [of _ camera_inputs_set]) (use that in \<open>auto simp: camera_inputs_set_def raw_opts_def\<close>)
  show "list_all (check_keeps camera_inputs_set) (drop (Suc 10) opts_checks)"
    unfolding check_drop list.pred_inject check_defs
    by (intro conjI check_keepsI accepts_rules accepts_Let [where Q = camera_inputs_set] accepts_let if_opts [of _ camera_inputs_set])
      (simp_all add: camera_inputs_set_def)
qed (simp add: opts_checks_def)

lemma accepted_audio_source:
  assumes "run_checks opts_checks opts = Some (Some opts')" "raw_opts opts"
  shows "audio_source_set opts'"
proof (rule accepted_by [OF assms, of 12])
  show "accepts_with audio_source_set ((opts_checks ! 12) opts)" if "raw_opts opts" for opts
    unfolding check_nth adjust_audio_source_def
    by (intro accepts_rules accepts_let if_opts [of _ audio_source_set]) (use that in \<open>auto simp: audio_source_set_def raw_opts_def\<close>)
  show "list_all (check_keeps audio_source_set) (drop (Suc 12) opts_checks)"
    unfolding check_drop list.pred_inject check_defs
    by (intro conjI check_keepsI accepts_rules accepts_Let [where Q = audio_source_set] accepts_let if_opts [of _ audio_source_set])
      (simp_all add: audio_source_set_def)
qed (simp add: opts_checks_def)

lemma not_mirror_0: "r = SC_ORIENTATION_0 \<or> \<not> sc_orientation_is_mirror r \<longleftrightarrow> \<not> sc_orientation_is_mirror r"
  by (auto simp: sc_orientation_is_mirror_def)

lemma accepted_record:
  assumes "run_checks opts_checks opts = Some (Some opts')" "raw_opts opts"
  shows "record_set opts'"
proof (rule accepted_by [OF assms, of 13])
  show "accepts_with record_set ((opts_checks ! 13) opts)" if "raw_opts opts" for opts
    unfolding check_nth check_record_def
    by (intro accepts_rules accepts_Let [where Q = stream_chosen] accepts_let if_opts [of _ stream_chosen])
      (simp_all add: record_set_def stream_chosen_def not_mirror_0)
  show "list_all (check_keeps record_set) (drop (Suc 13) opts_checks)"
    unfolding check_drop list.pred_inject check_defs
    by (intro conjI check_keepsI accepts_rules accepts_Let [where Q = record_set] accepts_let if_opts [of _ record_set])
      (simp_all add: record_set_def)
qed (simp add: opts_checks_def)

section \<open>When parsing returns\<close>

text \<open>A step that returns, whatever it returns.\<close>

definition returns :: "'a option \<Rightarrow> bool" where
  "returns r \<longleftrightarrow> r \<noteq> None"

lemma returns_if: "(b \<Longrightarrow> returns x) \<Longrightarrow> (\<not> b \<Longrightarrow> returns y) \<Longrightarrow> returns (if b then x else y)"
  by simp

lemma returns_Some: "returns (Some x)"
  by (simp add: returns_def)

lemma returns_set: "returns (set_opts f args)"
  by (simp add: returns_def set_opts_def)

lemma returns_parse:
  "optarg \<noteq> None \<Longrightarrow> (\<And>s. optarg = Some s \<Longrightarrow> returns (parse s)) \<Longrightarrow> returns (parse_arg parse optarg store args)"
  by (auto simp: returns_def parse_arg_def set_opts_def split: bind_splits option.splits)

lemma returns_pause: "returns (case r of None \<Rightarrow> Some x | Some v \<Rightarrow> Some (f v))"
  by (simp add: returns_def split: option.split)

lemma returns_total: "returns ((Some \<circ> f) s)"
  by (simp add: returns_def)

lemma returns_bindings: "returns (parse_mouse_bindings s)"
  using parse_bindings_ok [of s] by (auto simp: returns_def)

lemma returns_port_range: "returns (parse_port_range s)"
  using parse_port_range_ok [of s] by (auto simp: returns_def)

lemmas returns_intros = returns_if returns_set returns_parse returns_Some returns_pause returns_total returns_bindings
  returns_port_range

text \<open>
  What \<open>getopt_long\<close> gives for the table: an option that requires an argument has one. The modifiers are in no list
  with an empty item that the parser refuses to read.
\<close>

definition item_ok :: "nat \<times> string option \<Rightarrow> bool" where
  "item_ok = (\<lambda>(opt, optarg). (needs_arg opt \<longrightarrow> optarg \<noteq> None) \<and>
     (opt = OPT_SHORTCUT_MOD \<longrightarrow> (case optarg of None \<Rightarrow> True | Some s \<Rightarrow> parse_shortcut_mods s \<noteq> None)))"

lemma parsed_need_args:
  "list_all needs_arg [short_opt CHR ''b'', OPT_AUDIO_BIT_RATE, OPT_DISPLAY_ID, OPT_RECORD_FORMAT, OPT_KEYBOARD,
     short_opt CHR ''m'', OPT_MOUSE, OPT_MOUSE_BIND, OPT_CAPTURE_ORIENTATION, OPT_TUNNEL_HOST, OPT_TUNNEL_PORT,
     OPT_WIFI_PORT, short_opt CHR ''p'', short_opt CHR ''V'', OPT_WINDOW_X, OPT_WINDOW_Y, OPT_WINDOW_WIDTH,
     OPT_WINDOW_HEIGHT, OPT_DISPLAY_ORIENTATION, OPT_RECORD_ORIENTATION, OPT_ORIENTATION, OPT_SHORTCUT_MOD,
     OPT_VIDEO_BUFFER, OPT_VIDEO_CODEC, OPT_AUDIO_CODEC, OPT_V4L2_BUFFER, OPT_AUDIO_BUFFER, OPT_AUDIO_OUTPUT_BUFFER,
     OPT_VIDEO_SOURCE, OPT_AUDIO_SOURCE, OPT_TIME_LIMIT, OPT_CAMERA_FACING, OPT_CAMERA_FPS, OPT_GAMEPAD,
     OPT_SCREEN_OFF_TIMEOUT, OPT_DISPLAY_IME_POLICY, OPT_MIN_SIZE_ALIGNMENT, OPT_BACKGROUND_COLOR, OPT_RENDER_FIT]"
  by (simp add: needs_arg_def table_defs short_opt_def)

lemmas parsed_needs = parsed_need_args [simplified list.pred_inject]

lemma switch_returns3: "item_ok (opt, optarg) \<Longrightarrow> returns (parse_opt_part3 parse_ipv4 opt optarg args)"
  unfolding parse_opt_part3_def
  by (intro returns_intros) (simp_all add: item_ok_def parsed_needs)

lemma switch_returns2: "item_ok (opt, optarg) \<Longrightarrow> returns (parse_opt_part2 parse_ipv4 opt optarg args)"
  unfolding parse_opt_part2_def
  by (intro returns_intros switch_returns3) (simp_all add: item_ok_def parsed_needs returns_def)

lemma switch_returns: "item_ok (opt, optarg) \<Longrightarrow> returns (parse_opt_part1 parse_ipv4 opt optarg args)"
  unfolding parse_opt_part1_def
  by (intro returns_intros switch_returns2) (simp_all add: item_ok_def parsed_needs)

lemma loop_returns:
  "list_all item_ok items \<Longrightarrow> \<exists>ok args'. getopt_loop parse_ipv4 items args = Some (ok, args')"
proof (induction parse_ipv4 items args rule: getopt_loop.induct)
  case (2 parse_ipv4 opt optarg items args)
  then obtain r where "parse_opt_part1 parse_ipv4 opt optarg args = Some r"
    using switch_returns [of opt optarg parse_ipv4 args] by (auto simp: returns_def)
  with 2 show ?case by (cases r) auto
qed auto

text \<open>The assertions among the checks hold on what the loop leaves.\<close>

lemma check_returns: "list_all (\<lambda>check. \<forall>opts. raw_opts opts \<longrightarrow> returns (check opts)) opts_checks"
  by (simp add: opts_checks_def check_defs returns_def refuse_if_def Let_def c_assert_def raw_opts_def raw_bindings_def
      auto_bindings_def bindings_set_def split: option.split)

lemma run_checks_return:
  "list_all (check_keeps raw_opts) checks \<Longrightarrow>
    list_all (\<lambda>check. \<forall>opts. raw_opts opts \<longrightarrow> returns (check opts)) checks \<Longrightarrow> raw_opts opts \<Longrightarrow>
    \<exists>r. run_checks checks opts = Some r"
proof (induction checks opts rule: run_checks.induct)
  case (2 check checks opts)
  then obtain r where r: "check opts = Some r" by (auto simp: returns_def)
  show ?case
  proof (cases r)
    case (Some opts')
    with 2 r have "raw_opts opts'" by (auto simp: check_keeps_def accepts_with_def)
    with 2 r Some show ?thesis by simp
  qed (simp add: r)
qed simp

section \<open>Properties\<close>

text \<open>\<open>main.c\<close>: what is there before the command line is parsed.\<close>

definition main_args :: scrcpy_cli_args where
  "main_args = \<lparr>ca_opts = scrcpy_options_default, ca_help = False, ca_version = False,
     ca_pause_on_exit = SC_PAUSE_ON_EXIT_UNDEFINED\<rparr>"

lemma accepted_checks:
  assumes "scrcpy_parse_args parse_ipv4 adapter_ok items extra argv main_args = Some (True, args)"
  shows "\<exists>opts. raw_opts opts \<and> run_checks opts_checks opts = Some (Some (ca_opts args))"
proof -
  from assms obtain args1 where
    1: "parse_args_with_getopt parse_ipv4 items extra main_args = Some (True, args1)" "ca_opts args1 = ca_opts args"
    by (auto simp: scrcpy_parse_args_def Let_def c_assert_def split: if_splits bind_splits)
  then obtain args2 where "getopt_loop parse_ipv4 items main_args = Some (True, args2)"
    "run_checks opts_checks (ca_opts args2) = Some (Some (ca_opts args))"
    by (auto simp: parse_args_with_getopt_def split: if_splits bind_splits option.splits prod.splits)
  with loop_keeps_raw [of main_args parse_ipv4 items True args2] raw_default show ?thesis
    by (auto simp: main_args_def)
qed

lemma accepted_server_params:
  assumes "scrcpy_parse_args parse_ipv4 adapter_ok items extra argv main_args = Some (True, args)"
  shows "server_params_ok (scrcpy_server_params scid (ca_opts args))"
proof -
  obtain opts where opts: "run_checks opts_checks opts = Some (Some (ca_opts args))" "raw_opts opts"
    using accepted_checks [OF assms] by blast
  have "raw_opts (ca_opts args)" by (rule run_checks_keeps [OF checks_keep_raw opts])
  with accepted_audio_source [OF opts] show ?thesis
    by (auto simp: server_params_ok_def scrcpy_server_params_def audio_source_set_def raw_opts_def)
qed

text \<open>
  C12: The options of a command line that is accepted fit the components that they configure: the assertions of the
  server's command line and of the recorder hold, the mouse bindings and the way to fit the content in the window are
  chosen, the buffers of the audio player and the range of the ports are within their bounds, something is to be done,
  a connection over Wi-Fi has an address and a port, and no input mode is left to be chosen.
\<close>

theorem accepted_options_fit:
  assumes "scrcpy_parse_args parse_ipv4 adapter_ok items extra argv main_args = Some (True, args)"
  shows "let opts = ca_opts args in
    server_params_ok (scrcpy_server_params scid opts) \<and>
    (op_record_filename opts = Some filename \<longrightarrow>
      sc_recorder_init strdup_ok mutex_ok cond_ok filename (op_record_format opts) (op_video opts) (op_audio opts)
        (op_record_orientation opts) \<noteq> None) \<and>
    bindings_set (op_mouse_bindings opts) \<and> op_render_fit opts \<noteq> SC_RENDER_FIT_AUTO \<and>
    (op_audio_playback opts \<longrightarrow> 0 \<le> op_audio_buffer opts \<and> op_audio_buffer opts \<le> 3600 * SC_TICK_FREQ) \<and>
    0 \<le> op_audio_output_buffer opts \<and> op_audio_output_buffer opts \<le> SC_TICK_FREQ \<and>
    pr_first (op_port_range opts) \<le> pr_last (op_port_range opts) \<and>
    (op_video opts \<or> op_audio opts \<or> op_control opts \<or> op_otg opts) \<and>
    (op_wifi_mode opts \<longrightarrow> op_tunnel_host opts \<noteq> 0 \<and> op_wifi_port opts \<noteq> 0) \<and>
    (op_control opts \<longrightarrow>
      op_keyboard_input_mode opts \<notin> {SC_KEYBOARD_INPUT_MODE_AUTO, SC_KEYBOARD_INPUT_MODE_UHID_OR_AOA} \<and>
      op_mouse_input_mode opts \<notin> {SC_MOUSE_INPUT_MODE_AUTO, SC_MOUSE_INPUT_MODE_UHID_OR_AOA} \<and>
      op_gamepad_input_mode opts \<noteq> SC_GAMEPAD_INPUT_MODE_UHID_OR_AOA)"
proof -
  obtain opts where opts: "run_checks opts_checks opts = Some (Some (ca_opts args))" "raw_opts opts"
    using accepted_checks [OF assms] by blast
  have raw: "raw_opts (ca_opts args)" by (rule run_checks_keeps [OF checks_keep_raw opts])
  have "op_control (ca_opts args) \<Longrightarrow>
      op_keyboard_input_mode (ca_opts args) \<notin> {SC_KEYBOARD_INPUT_MODE_AUTO, SC_KEYBOARD_INPUT_MODE_UHID_OR_AOA} \<and>
      op_mouse_input_mode (ca_opts args) \<notin> {SC_MOUSE_INPUT_MODE_AUTO, SC_MOUSE_INPUT_MODE_UHID_OR_AOA} \<and>
      op_gamepad_input_mode (ca_opts args) \<noteq> SC_GAMEPAD_INPUT_MODE_UHID_OR_AOA"
    using accepted_display_inputs [OF opts] accepted_camera_inputs [OF opts]
    by (cases "op_video_source (ca_opts args)") (simp_all add: display_inputs_set_def camera_inputs_set_def)
  moreover have "op_record_filename (ca_opts args) = Some filename \<Longrightarrow>
      sc_recorder_init strdup_ok mutex_ok cond_ok filename (op_record_format (ca_opts args)) (op_video (ca_opts args))
        (op_audio (ca_opts args)) (op_record_orientation (ca_opts args)) \<noteq> None"
    using accepted_record [OF opts] by (simp add: record_set_def sc_recorder_init_def)
  moreover note accepted_server_params [OF assms, of scid] accepted_bindings [OF opts, unfolded mouse_bindings_set_def]
    accepted_render_fit [OF opts, unfolded render_fit_set_def]
    accepted_audio_buffer [OF opts, unfolded audio_buffer_set_def]
    accepted_streams [OF opts, unfolded streams_asked_def] accepted_wifi [OF opts, unfolded wifi_set_def]
    raw [unfolded raw_opts_def]
  ultimately show ?thesis unfolding Let_def by (intro conjI impI) blast+
qed

text \<open>An accepted command line: a recording, without playing anything, over Wi-Fi.\<close>

definition some_items :: "(nat \<times> string option) list" where
  "some_items = [(short_opt CHR ''r'', Some ''out.mkv''), (OPT_NO_AUDIO, None), (short_opt CHR ''N'', None),
     (OPT_WIFI_MODE, None), (OPT_TUNNEL_HOST, Some ''192.168.1.1''), (OPT_SHORTCUT_MOD, Some ''lctrl,ralt'')]"

definition some_ipv4 :: "string \<Rightarrow> u32 option" where
  "some_ipv4 s = (if s = ''192.168.1.1'' then Some 0xC0A80101 else None)"

definition some_opts :: scrcpy_options where
  "some_opts = scrcpy_options_default\<lparr>
     op_record_filename := Some ''out.mkv'', op_audio := False, op_video_playback := False, op_audio_playback := False,
     op_wifi_mode := True, op_tunnel_host := 0xC0A80101,
     op_shortcut_mods := {SC_SHORTCUT_MOD_LCTRL, SC_SHORTCUT_MOD_RALT}\<rparr>"

lemma some_loop: "getopt_loop some_ipv4 some_items main_args = Some (True, main_args\<lparr>ca_opts := some_opts\<rparr>)"
proof -
  have "parse_shortcut_mods ''lctrl,ralt'' = Some (Some {SC_SHORTCUT_MOD_LCTRL, SC_SHORTCUT_MOD_RALT})"
    by code_simp
  then show ?thesis
    by (simp add: some_items_def parse_opt_part1_def parse_opt_part2_def parse_opt_part3_def opt_ids short_opt_def
      set_opts_def parse_arg_def parse_ip_def some_ipv4_def main_args_def some_opts_def)
qed

lemma some_checks: "\<exists>opts. run_checks opts_checks some_opts = Some (Some opts) \<and> op_record_filename opts = Some ''out.mkv'' \<and>
    op_wifi_mode opts \<and> op_control opts"
proof -
  have "guess_record_format ''out.mkv'' = SC_RECORD_FORMAT_MKV" by code_simp
  then show ?thesis
    by (simp add: opts_checks_def check_defs some_opts_def scrcpy_options_default_def selectors_def refuse_if_def Let_def
      auto_bindings_def sc_record_format_is_audio_only_def)
qed

lemma some_line:
  "\<exists>args. scrcpy_parse_args some_ipv4 True some_items False [] main_args = Some (True, args) \<and>
    op_record_filename (ca_opts args) = Some ''out.mkv'' \<and> op_wifi_mode (ca_opts args) \<and> op_control (ca_opts args)"
proof -
  from some_checks obtain opts where "run_checks opts_checks some_opts = Some (Some opts)"
    "op_record_filename opts = Some ''out.mkv''" "op_wifi_mode opts" "op_control opts" by blast
  then show ?thesis
    by (simp add: scrcpy_parse_args_def parse_args_with_getopt_def some_loop Let_def c_assert_def)
qed

lemma accepted_options_fit_witness:
  "\<exists>args. scrcpy_parse_args some_ipv4 True some_items False [] main_args = Some (True, args) \<and>
    server_params_ok (scrcpy_server_params 5 (ca_opts args)) \<and> op_tunnel_host (ca_opts args) \<noteq> 0 \<and>
    op_mouse_input_mode (ca_opts args) \<noteq> SC_MOUSE_INPUT_MODE_AUTO \<and>
    sc_recorder_init True True True ''out.mkv'' (op_record_format (ca_opts args)) (op_video (ca_opts args))
      (op_audio (ca_opts args)) (op_record_orientation (ca_opts args)) \<noteq> None"
proof -
  from some_line obtain args where
    args: "scrcpy_parse_args some_ipv4 True some_items False [] main_args = Some (True, args)"
      "op_record_filename (ca_opts args) = Some ''out.mkv''" "op_wifi_mode (ca_opts args)" "op_control (ca_opts args)" by blast
  with accepted_options_fit [OF args(1), of 5 "''out.mkv''" True True True] show ?thesis unfolding Let_def by blast
qed

text \<open>
  C39: Parsing the command line ends without aborting, whatever the options and their arguments, when \<open>getopt_long\<close> gives
  an argument to each option of the table that requires one, and no list of modifiers has an empty item where the parser
  asserts that it has none.
\<close>

theorem command_line_returns:
  assumes "list_all item_ok items"
  shows "\<exists>ok args. scrcpy_parse_args parse_ipv4 adapter_ok items extra argv main_args = Some (ok, args) \<and>
    (adapter_ok \<longrightarrow> ca_pause_on_exit args \<noteq> SC_PAUSE_ON_EXIT_UNDEFINED)"
proof -
  obtain ok args where loop: "getopt_loop parse_ipv4 items main_args = Some (ok, args)"
    using loop_returns [OF assms] by blast
  have "raw_opts (ca_opts args)"
    by (rule loop_keeps_raw [OF _ loop]) (simp add: main_args_def raw_default)
  then obtain r where "run_checks opts_checks (ca_opts args) = Some r"
    using run_checks_return [OF checks_keep_raw check_returns] by blast
  with loop have "parse_args_with_getopt parse_ipv4 items extra main_args \<noteq> None"
    by (cases r) (auto simp: parse_args_with_getopt_def)
  then show ?thesis by (auto simp: scrcpy_parse_args_def Let_def c_assert_def)
qed

lemma command_line_returns_witness:
  "\<exists>ok args. scrcpy_parse_args some_ipv4 True [(OPT_SHORTCUT_MOD, Some ''lalt,''), (OPT_NEW_DISPLAY, None),
      (OPT_CROP, Some ''1224:1440:0:0'')] False [] main_args = Some (ok, args) \<and>
    ca_pause_on_exit args \<noteq> SC_PAUSE_ON_EXIT_UNDEFINED"
proof -
  have "parse_shortcut_mods ''lalt,'' = Some None" by code_simp
  then have "list_all item_ok [(OPT_SHORTCUT_MOD, Some ''lalt,''), (OPT_NEW_DISPLAY, None), (OPT_CROP, Some ''1224:1440:0:0'')]"
    by (simp add: item_ok_def needs_arg_def table_defs short_opt_def)
  from command_line_returns [OF this, of some_ipv4 True False "[]"] show ?thesis by simp
qed



end
