(* ===== verification/Spec2Isabelle.thy ===== *)
theory Spec2Isabelle
  imports Sc_Binary Sc_Str Sc_Control_Msg Sc_Control_Reader Sc_Device_Msg Sc_Acksync Sc_Receiver
    Sc_Vecdeque Sc_Controller Sc_Audiobuf Sc_Uhid
    Sc_Keyboard_Sdk Sc_Screen Sc_Client Sc_Video_Pipeline Sc_Delay_Buffer Sc_Timers Sc_Recording Sc_Audio_Player
    Sc_Cli_Accept
begin

text \<open>
  Verification of the scrcpy client (\<open>scrcpy/app/src\<close>), the C program of the AllRelay repository, which mirrors and
  controls an Android device: its window, its controller, its media pipelines, its recorder, its command line and the
  connection to the server on the device. The parts of the Java server that are the peers of the client on a wire (the
  reader of control messages, the writer of device messages, the writer of media streams, the reader of options, the
  order of the sockets) are modelled beside it, so that what the client sends can be shown to be understood.

  \<^bold>\<open>The program.\<close> The command line gives the options (\<open>cli.c\<close>, \<open>options.h\<close>). From them, \<open>server.c\<close> builds the command
  that starts the server on the device, and connects a video, an audio and a control socket, through a tunnel of adb
  or over Wi-Fi. On a media socket, a demuxer thread reads the stream and gives its packets to packet sinks: a decoder
  and a recorder. The decoder gives frames to frame sinks: the screen, possibly behind a delay buffer, or the audio
  player. On the control socket, the controller thread sends the messages of a queue that the main thread fills, and
  the receiver thread reads the messages of the device. The main thread runs the event loop: the events of the window
  go to the screen, to the mouse capture and to the input manager, which handles shortcuts and gives the other events
  to a keyboard, a mouse and a gamepad processor; the processors push control messages.

  \<^bold>\<open>Conventions.\<close>
  \<^item> A computation of type \<open>'a option\<close> in the option monad may abort: \<open>None\<close> is a failed assertion, an access
    outside an array, or a null pointer that is followed. A failure that the code reports (\<open>false\<close>, \<open>NULL\<close>, \<open>-1\<close>) is a
    value of the result type, as in \<open>Some None\<close>. That a component never aborts thus means that every assertion holds.
  \<^item> Integers have the width of the code (\<open>'a word\<close>) wherever the code computes with them modulo a power of two or
    stores them in a field of a message; times in microseconds (\<open>sc_tick\<close>) are integers. Floats are rationals: what
    rounding does is not modelled.
  \<^item> What is not in the sources (SDL, libavcodec, libavformat, libswresample, the allocator, adb, the network) is an
    argument of the definitions. Where an answer may change from call to call, the argument is a function of the
    number of the call, of the state so far, or a list of answers. Assumptions on them are named
    (\<open>codec_ok\<close>, \<open>frame_ok\<close>, \<open>swr_ok\<close>, ...) and every property that makes one has a witness with a concrete instance.
  \<^item> A structure of function pointers is a record of functions on a world \<open>'w\<close> in which the state of the providers
    lives; a missing pointer is \<open>None\<close>, and calling it aborts.
  \<^item> A mutex makes what a thread does while it holds it one step. Threads are interleaved by step relations, or by
    giving a thread the list of what others do at each of its points. Waiting on a condition is a list of wake-ups,
    spurious ones included.

  \<^bold>\<open>Fuel and bounds.\<close> The loops over finite data are structural. \<open>net_connect\<close> is retried at most as often as the
  caller says (\<open>connect_to_server\<close>, 100 attempts in the code), which is the bound of its recursion. A demuxer consumes at
  least a header of the bytes of its socket in each turn, and the loops of the decoder, of the audio callback and of the
  receiver have measures; these functions are total, so that what ends is not assumed to end. Capacities are those of
  the code (\<open>SC_CONTROL_MSG_QUEUE_LIMIT\<close>, \<open>DEVICE_MSG_MAX_SIZE\<close>); the greatest capacity \<open>M\<close> of a queue is any number from 64 up to
  \<open>SIZE_MAX div 2\<close>.

  \<^bold>\<open>The theories\<close>, from the bottom up. Files are relative to \<open>scrcpy/app/src\<close>.

  Shared:
  \<^item> \<open>Sc_Prelude\<close>: machine types, byte strings, the option monad, generic lemmas.
  \<^item> \<open>Sc_Fifo\<close>, \<open>Sc_Framing\<close>, \<open>Sc_Control_Sink\<close>, \<open>Sc_Input_Sink\<close>, \<open>Sc_Media\<close>: the interfaces (see the locales below).
    \<open>Sc_Media\<close> also models \<open>trait/packet_source.c\<close> and \<open>trait/frame_source.c\<close>, and the order in which a sink may be called.
  \<^item> \<open>Sc_Binary\<close> (\<open>util/binary.h\<close>, \<open>Binary.java\<close>): round trips and ranges of the codecs and of fixed point numbers.
  \<^item> \<open>Sc_Str\<close> (\<open>util/str.c\<close>): string routines on buffers, parsing of integers, truncation at the start of a character.
  \<^item> \<open>Sc_Vecdeque\<close> (\<open>util/vecdeque.h\<close>): the growable ring buffer is a queue. \<open>Sc_Audiobuf\<close> (\<open>util/audiobuf.c\<close>): the ring buffer
    of samples, sequential and lock-free. \<open>Sc_Acksync\<close> (\<open>util/acksync.c\<close>): waiting for an acknowledgement.
  \<^item> \<open>Sc_Timers\<close>: \<open>util/average.c\<close>, \<open>fps_counter.c\<close>, \<open>util/timeout.c\<close>, \<open>disconnect.c\<close>, timed waits and ticks.
  \<^item> \<open>Sc_Android\<close> (\<open>android/keycodes.h\<close>, \<open>android/input.h\<close>), \<open>Sc_Orientation\<close> (\<open>options.h\<close>, \<open>options.c\<close>): constants, and the
    composition of orientations, a monoid.

  Control:
  \<^item> \<open>Sc_Control_Msg\<close> (\<open>control_msg.c\<close>): messages, serialization into a buffer against the wire format. \<open>Sc_Control_Reader\<close>
    (\<open>ControlMessageReader.java\<close>): the server reads back what was serialized, however the stream is cut.
  \<^item> \<open>Sc_Controller\<close> (\<open>controller.c\<close>): queue and thread, interleaved with producers (\<open>ctl_reachable\<close>).
  \<^item> \<open>Sc_Device_Msg\<close> (\<open>device_msg.c\<close>, \<open>DeviceMessageWriter.java\<close>) and \<open>Sc_Receiver\<close> (\<open>receiver.c\<close>): the way back.

  Input:
  \<^item> \<open>Sc_Input_Events\<close> (\<open>input_events.h\<close>): the events. \<open>Sc_Hid\<close> (\<open>hid/hid_keyboard.c\<close>, \<open>hid/hid_mouse.c\<close>), \<open>Sc_Hid_Gamepad\<close>
    (\<open>hid/hid_gamepad.c\<close>): the reports of simulated devices; \<open>Sc_Uhid\<close> (\<open>uhid/\<close>): what the device sees of them.
  \<^item> \<open>Sc_Keyboard_Sdk\<close> (\<open>keyboard_sdk.c\<close>, \<open>util/intmap.c\<close>), \<open>Sc_Mouse_Sdk\<close> (\<open>mouse_sdk.c\<close>): injected events.
  \<^item> \<open>Sc_Geometry\<close>, \<open>Sc_Screen\<close> (\<open>screen.c\<close>, \<open>frame_buffer.c\<close>): sizes, coordinates, the state of the window.
  \<^item> \<open>Sc_File_Pusher\<close> (\<open>file_pusher.c\<close>): dropped files. \<open>Sc_Input_Manager\<close> (\<open>input_manager.c\<close>, \<open>shortcut_mod.h\<close>).
  \<^item> \<open>Sc_Event_Loop\<close> (\<open>mouse_capture.c\<close>, the dispatch of \<open>screen.c\<close>, \<open>event_loop\<close> of \<open>scrcpy.c\<close>), and \<open>Sc_Client\<close>: all of it in the
    default mode, on the controller, the SDK processors and the file pusher.

  Media:
  \<^item> \<open>Sc_Demuxer\<close> (\<open>demuxer.c\<close>, \<open>packet_merger.c\<close>), \<open>Sc_Media_Stream\<close> (\<open>Streamer.java\<close>): from the server to the sinks.
  \<^item> \<open>Sc_Decoder\<close> (\<open>decoder.c\<close>), \<open>Sc_Video_Pipeline\<close>: demuxer, decoder and screen together.
  \<^item> \<open>Sc_Delay_Buffer\<close> (\<open>delay_buffer.c\<close>, \<open>clock.c\<close>).
  \<^item> \<open>Sc_Recorder\<close>, \<open>Sc_Recording\<close> (\<open>recorder.c\<close>): the sinks, and the thread interleaved with the demuxers.
  \<^item> \<open>Sc_Audio_Regulator\<close> (\<open>audio_regulator.c\<close>), \<open>Sc_Audio_Player\<close> (\<open>audio_player.c\<close>): demuxer, decoder and player together.

  Start:
  \<^item> \<open>Sc_Options\<close> (\<open>options.h\<close>, \<open>options.c\<close>, and the part of \<open>scrcpy\<close> in \<open>scrcpy.c\<close> that fills the parameters of the server),
    \<open>Sc_Cli_Parsers\<close>, \<open>Sc_Cli_Table\<close>, \<open>Sc_Cli\<close>, \<open>Sc_Cli_Accept\<close> (\<open>cli.c\<close>): the parsers of arguments, the table of the
    options, the loop over what \<open>getopt_long\<close> finds, the checks and completions, and what an accepted line guarantees.
  \<^item> \<open>Sc_Network\<close> (\<open>util/intr.c\<close>, \<open>util/net_intr.c\<close>), \<open>Sc_Adb_Tunnel\<close> (\<open>adb/adb_tunnel.c\<close>), \<open>Sc_Server_Params\<close>
    (\<open>execute_server\<close> of \<open>server.c\<close>), \<open>Sc_Server_Options\<close> (\<open>Options.java\<close>, \<open>DesktopConnection.java\<close>), \<open>Sc_Server\<close> (the connections
    of \<open>server.c\<close>).

  \<^bold>\<open>Interfaces.\<close> The contracts between components are locales, interpreted where the provider is modelled:
  \<^item> \<open>framed_decoder\<close> and \<open>framed_codec\<close> (\<open>Sc_Framing\<close>): a self-delimiting format on a byte stream, for control messages
    (\<open>control_stream\<close>) and for device messages (\<open>device_stream\<close>);
  \<^item> \<open>fifo\<close> (\<open>Sc_Fifo\<close>): a queue, by the ring buffer (\<open>vd_fifo\<close>), for its clients;
  \<^item> \<open>control_sink\<close> (\<open>Sc_Control_Sink\<close>): pushing a message keeps the invariant and the history of what was pushed, by the
    controller (\<open>ctl_sink\<close>), for the input processors;
  \<^item> \<open>input_sink\<close> (\<open>Sc_Input_Sink\<close>): what the input manager calls, by the processors of the default mode (\<open>sdk\<close>);
  \<^item> \<open>media_sink_ok\<close>, \<open>packet_sink_ok\<close> (\<open>Sc_Media\<close>): a sink that keeps an invariant when it is called in order, by the
    screen (\<open>screen_sink\<close>), the player (\<open>audio_player_sink\<close>) and the recorder (\<open>recorder_sink\<close>), for decoder and demuxer.

  \<^bold>\<open>What is shown.\<close> End to end: the server gets the accepted messages, in order (below); the sinks get the streamed
  packets; a recording contains what was accepted; what the client asks for on the command line of the server is what
  the server opens and the client connects. Safety: no event, frame, stream, interleaving or answer makes the client,
  its media threads, its recorder, its connection or its controller abort, and the threads end or wake up when they
  should. Per component: round trips of every format, refinement of the ring buffers, invariants of the processors,
  bounds of the clock, of the audio level and of the geometry, and the behaviour on every refused input.

  \<^bold>\<open>What is not modelled.\<close> Help texts and logs; running processes (the body of \<open>run_server\<close>, \<open>adb.c\<close>, pushing the server);
  creating, joining and freeing (\<open>main.c\<close>, most of \<open>scrcpy\<close> in \<open>scrcpy.c\<close>); rendering (\<open>texture.c\<close>, \<open>opengl.c\<close>, icons), calls into SDL,
  OpenGL or libav; \<open>v4l2_sink.c\<close>, which only muxes; USB and AOA (\<open>usb/\<close>), which are libusb transfers of the modelled HID
  reports; wrappers of system calls (\<open>net.c\<close>, \<open>process.c\<close>, \<open>file.c\<close>, ...) and the code for Windows and macOS; the rest of the Java
  server, the Go relay and the Kotlin application.
\<close>

section \<open>From the producers of the client to the server\<close>

lemma reachable_stream:
  assumes "ctl_reachable M s"
  shows "drain control_dec (sys_sent s) = (map control_msg_view (sys_done s), [])"
proof -
  from reachable_sent_inv [OF assms] obtain ws where
    ws: "list_all2 (\<lambda>m w. known_type m \<and> control_msg_wire m = Some w) (sys_done s) ws"
      "sys_sent s = concat ws"
    by (auto simp: sent_inv_def)
  have "list_all2 (\<lambda>m w. control_enc m = Some w) (sys_done s) ws"
    by (rule list_all2_mono [OF ws(1)]) (simp add: control_enc_def)
  from control_stream.drain_encoded [OF this control_stream.dec_Nil] ws(2) show ?thesis by simp
qed

text \<open>
  C1: End to end: in every reachable interleaving of the producers and the controller thread, the reader
  of the server, given the bytes on the control socket, gets exactly the messages the thread has
  sent, and these are, the resizes left out, a prefix of the messages accepted by the queue: nothing
  accepted is lost, duplicated, reordered or altered on the way.
\<close>

theorem client_to_server:
  assumes "ctl_reachable M s" "64 \<le> M" "M \<le> SIZE_MAX div 2"
  shows "drain control_dec (sys_sent s) = (map control_msg_view (sys_done s), []) \<and>
    (\<exists>later. sys_accepted s = filter not_resize (sys_done s) @ later)"
proof -
  have "\<exists>ms. sys_taken s = sys_done s @ ms"
    using reachable_sent_inv [OF assms(1)] by (auto simp: sent_inv_def split: controller_pc.splits)
  moreover have "sys_inv M s"
    using reachable_sys_inv [OF assms(1)] assms(2,3) by (simp add: SC_CONTROL_MSG_QUEUE_LIMIT_def)
  ultimately show ?thesis using reachable_stream [OF assms(1)] by (auto simp: sys_inv_def)
qed

lemma client_to_server_witness:
  "\<exists>s. ctl_reachable 1000 s \<and> sys_pc s = Waiting \<and>
    drain control_dec (sys_sent s) = (map control_msg_view (sys_done s), []) \<and>
    (\<exists>later. sys_accepted s = filter not_resize (sys_done s) @ later)"
proof -
  obtain s where s: "ctl_reachable 1000 s" "sys_pc s = Waiting" using reachable_examples(2) by blast
  from client_to_server [OF s(1)] s show ?thesis by (auto simp: SIZE_MAX_def)
qed

end
